(* ===== verification/Prelude.thy ===== *)
theory Prelude
  imports Main "HOL-Library.Product_Lexorder" "HOL-Library.Sublist"
begin

text \<open>
  What every component shares: Python's exceptions as values, the string methods the
  sources use (\<open>strip\<close>, \<open>lower\<close>, \<open>in\<close>, \<open>str\<close> of an integer, \<open>repr\<close> of a string), and
  the few SQL forms the stores are written in (\<open>SELECT .. WHERE .. ORDER BY .. LIMIT\<close>,
  \<open>UPDATE .. WHERE .. RETURNING\<close>, \<open>COALESCE\<close>), over a table that is the list of its rows in
  the order of insertion.

  Text is ASCII text, one \<^typ>\<open>char\<close> per character. A time is a number of microseconds. A row
  id is what a \<open>SERIAL\<close> column gives: the sequence's next value. Foreign keys are not modelled
  (the ids a caller passes are ids of rows that exist); unique indexes and \<open>CHECK\<close>s are, where
  a statement can meet one.
\<close>

named_theorems store_simps \<open>definitions of the stores' statements\<close>
named_theorems row_steps \<open>introduction rules of the rows' step relations\<close>

subsection \<open>Values and exceptions\<close>

type_synonym time = int
type_synonym row_id = int

text \<open>
  One constructor per exception class the modelled sources raise, with the message; the
  vocabulary's class carries the \<open>code\<close> attribute after it, the playbook classes before it, in
  the order of their constructors, the breaker's class its status code after it, the action classes
  their code after it. The last stands for any other class.
\<close>

datatype py_error =
    ValueError string
  | TypeError string
  | KeyError string
  | OverflowError string
  | RuntimeError string
  | IntegrityError string
  | DataError string
  | QueueTransitionError string
  | CanonicalActionValidationError string string
  | PlaybookParamBindingError string string
  | PlaybookBranchConditionError string string
  | CircuitBreakerControlError string int
  | SkippedAction string string
  | RetryableActionError string string
  | ProtectedTargetConfigError string
  | SoarResponseOutcomeValidationError string
  | OtherException string

type_synonym 'a result = "py_error + 'a"

text \<open>An operation on a database returns the state it leaves behind even when it raises: the
  caller owns the transaction and decides whether to commit or to roll back.\<close>

type_synonym ('s, 'a) py = "'s \<Rightarrow> 'a result \<times> 's"

fun py_bind :: "('s, 'a) py \<Rightarrow> ('a \<Rightarrow> ('s, 'b) py) \<Rightarrow> ('s, 'b) py" where
  "py_bind m f s = (case m s of (Inl e, s') \<Rightarrow> (Inl e, s') | (Inr a, s') \<Rightarrow> f a s')"

lemma py_bind_raise [simp]: "snd (py_bind m (\<lambda>_ s. (Inl (e a), s)) s) = snd (m s)"
  by (auto split: prod.splits sum.splits)

text \<open>The two clocks a transaction reads: Python's \<open>datetime.now(timezone.utc)\<close> and SQL's
  \<open>NOW()\<close>, which is constant in a transaction.\<close>

record clock =
  utc_now :: time
  sql_now :: time

abbreviation minutes :: "int \<Rightarrow> time" where
  "minutes n \<equiv> n * 60000000"

abbreviation seconds :: "int \<Rightarrow> time" where
  "seconds n \<equiv> n * 1000000"

definition coalesce :: "'a option \<Rightarrow> 'a \<Rightarrow> 'a" where
  "coalesce a b = (case a of Some x \<Rightarrow> x | None \<Rightarrow> b)"

definition coalesce_opt :: "'a option \<Rightarrow> 'a option \<Rightarrow> 'a option" where
  "coalesce_opt a b = (case a of Some x \<Rightarrow> Some x | None \<Rightarrow> b)"

lemma coalesce_simps [simp]:
  "coalesce (Some x) b = x" "coalesce None b = b"
  "coalesce_opt (Some x) c = Some x" "coalesce_opt None c = c"
  by (simp_all add: coalesce_def coalesce_opt_def)

subsection \<open>Strings\<close>

definition is_space :: "char \<Rightarrow> bool" where
  "is_space c = (let n = of_char c :: nat in (9 \<le> n \<and> n \<le> 13) \<or> (28 \<le> n \<and> n \<le> 32))"

text \<open>\<open>str.strip()\<close>, \<open>str.lower()\<close>, \<open>needle in haystack\<close>.\<close>

definition strip :: "string \<Rightarrow> string" where
  "strip s = rev (dropWhile is_space (rev (dropWhile is_space s)))"

definition lower_char :: "char \<Rightarrow> char" where
  "lower_char c = (let n = of_char c :: nat in if 65 \<le> n \<and> n \<le> 90 then char_of (n + 32) else c)"

definition lower :: "string \<Rightarrow> string" where
  "lower s = map lower_char s"

fun contains :: "string \<Rightarrow> string \<Rightarrow> bool" where
  "contains needle [] = (needle = [])"
| "contains needle (c # cs) = (prefix needle (c # cs) \<or> contains needle cs)"

text \<open>\<open>str(n)\<close> of an integer.\<close>

fun show_nat :: "nat \<Rightarrow> string" where
  "show_nat n = (if n < 10 then [char_of (48 + n)] else show_nat (n div 10) @ [char_of (48 + n mod 10)])"

declare show_nat.simps [simp del]

definition show_int :: "int \<Rightarrow> string" where
  "show_int i = (if i < 0 then CHR ''-'' # show_nat (nat (- i)) else show_nat (nat i))"

text \<open>\<open>repr(s)\<close> of a printable string: single quotes, unless it holds a single quote and no
  double quote; the chosen quote and the backslash are escaped.\<close>

definition py_repr :: "string \<Rightarrow> string" where
  "py_repr s =
     (let sq = char_of (39 :: nat); dq = char_of (34 :: nat); bs = char_of (92 :: nat);
          q = (if sq \<in> set s \<and> dq \<notin> set s then dq else sq);
          esc = (\<lambda>c. if c = q \<or> c = bs then [bs, c] else [c])
      in [q] @ concat (map esc s) @ [q])"

text \<open>\<open>str(error)\<close>\<close>

fun error_text :: "py_error \<Rightarrow> string" where
  "error_text (ValueError m) = m"
| "error_text (TypeError m) = m"
| "error_text (KeyError k) = py_repr k"
| "error_text (OverflowError m) = m"
| "error_text (RuntimeError m) = m"
| "error_text (IntegrityError m) = m"
| "error_text (DataError m) = m"
| "error_text (QueueTransitionError m) = m"
| "error_text (CanonicalActionValidationError m _) = m"
| "error_text (PlaybookParamBindingError _ m) = m"
| "error_text (PlaybookBranchConditionError _ m) = m"
| "error_text (CircuitBreakerControlError m _) = m"
| "error_text (SkippedAction m _) = m"
| "error_text (RetryableActionError m _) = m"
| "error_text (ProtectedTargetConfigError m) = m"
| "error_text (SoarResponseOutcomeValidationError m) = m"
| "error_text (OtherException m) = m"

lemma strip_dropWhile_head: "xs = dropWhile P ys \<Longrightarrow> xs \<noteq> [] \<Longrightarrow> \<not> P (hd xs)"
  by (simp add: hd_dropWhile)

lemma strip_Nil [simp]: "strip [] = []"
  by (simp add: strip_def)

lemma dropWhile_ends:
  assumes "xs \<noteq> []" "\<not> P (hd xs)" shows "dropWhile P xs = xs"
  using assms by (cases xs) auto

lemma last_dropWhile_end: "dropWhile P xs \<noteq> [] \<Longrightarrow> last (dropWhile P xs) = last xs"
  by (induction xs) auto

lemma strip_ends:
  assumes "strip s \<noteq> []"
  shows "\<not> is_space (hd (strip s))" "\<not> is_space (last (strip s))"
proof -
  define u where "u = dropWhile is_space s"
  define v where "v = dropWhile is_space (rev u)"
  have sv: "strip s = rev v" by (simp add: strip_def u_def v_def)
  with assms have "v \<noteq> []" by simp
  then have "\<not> is_space (hd v)" by (simp add: v_def hd_dropWhile)
  then show "\<not> is_space (last (strip s))" using \<open>v \<noteq> []\<close> by (simp add: sv last_rev)
  have "rev u \<noteq> []" using \<open>v \<noteq> []\<close> by (auto simp: v_def)
  then have "\<not> is_space (hd u)" by (auto simp: u_def hd_dropWhile)
  moreover have "last v = last (rev u)" using \<open>v \<noteq> []\<close> unfolding v_def by (rule last_dropWhile_end)
  ultimately show "\<not> is_space (hd (strip s))"
    using \<open>v \<noteq> []\<close> \<open>rev u \<noteq> []\<close> by (simp add: sv hd_rev last_rev)
qed

lemma strip_strip [simp]: "strip (strip s) = strip s"
proof (cases "strip s = []")
  case False
  note e = strip_ends [OF False]
  have 1: "dropWhile is_space (strip s) = strip s" using False e(1) by (rule dropWhile_ends)
  have 2: "dropWhile is_space (rev (strip s)) = rev (strip s)"
    using False e(2) by (intro dropWhile_ends) (simp_all add: hd_rev)
  show ?thesis unfolding strip_def [of "strip s"] 1 2 by simp
qed simp

lemma is_space_lower_char [simp]: "is_space (lower_char c) = is_space c"
proof -
  have "of_char (lower_char c) = (let n = of_char c :: nat in if 65 \<le> n \<and> n \<le> 90 then n + 32 else n)"
    by (simp add: lower_char_def Let_def)
  then show ?thesis by (simp add: is_space_def Let_def)
qed

lemma lower_char_idem [simp]: "lower_char (lower_char c) = lower_char c"
proof (cases "65 \<le> (of_char c :: nat) \<and> (of_char c :: nat) \<le> 90")
  case True
  then have "of_char (lower_char c) = (of_char c :: nat) + 32" by (simp add: lower_char_def Let_def)
  with True show ?thesis by (simp add: lower_char_def [of "lower_char c"])
next
  case False
  then have "lower_char c = c" by (auto simp: lower_char_def Let_def)
  then show ?thesis by simp
qed

lemma lower_lower [simp]: "lower (lower s) = lower s" and lower_Nil [simp]: "lower [] = []"
  by (simp_all add: lower_def)

lemma strip_lower [simp]: "strip (lower s) = lower (strip s)"
  by (simp add: strip_def lower_def dropWhile_map rev_map comp_def)

text \<open>Decimal numerals: digits only, and no two integers share one.\<close>

definition read_nat :: "string \<Rightarrow> nat" where
  "read_nat s = foldl (\<lambda>n c. n * 10 + (of_char c - 48)) 0 s"

lemma of_char_digit: "d < 10 \<Longrightarrow> (of_char (char_of (48 + d) :: char) :: nat) = 48 + d"
  by simp

lemma read_show_nat [simp]: "read_nat (show_nat n) = n"
proof (induction n rule: show_nat.induct)
  case (1 n)
  show ?case
  proof (cases "n < 10")
    case True
    then show ?thesis by (simp add: show_nat.simps [of n] read_nat_def)
  next
    case False
    then have "read_nat (show_nat (n div 10)) = n div 10" using 1 by blast
    then show ?thesis using False by (simp add: show_nat.simps [of n] read_nat_def)
  qed
qed

lemma show_nat_digits: "c \<in> set (show_nat n) \<Longrightarrow> 48 \<le> (of_char c :: nat) \<and> (of_char c :: nat) \<le> 57"
proof (induction n rule: show_nat.induct)
  case (1 n)
  have "n mod 10 < 10" by simp
  with 1 show ?case by (cases "n < 10") (auto simp: show_nat.simps [of n])
qed

lemma show_nat_not_minus: "show_nat n \<noteq> CHR ''-'' # xs"
  using show_nat_digits [of "CHR ''-''" n] by auto

lemma show_int_inj [simp]: "show_int i = show_int j \<longleftrightarrow> i = j"
proof
  assume eq: "show_int i = show_int j"
  have n: "show_nat m = show_nat k \<Longrightarrow> m = k" for m k by (metis read_show_nat)
  show "i = j" using eq show_nat_not_minus
    by (auto simp: show_int_def split: if_splits dest!: n) (metis show_nat_not_minus)+
qed simp

lemma show_int_chars: "c \<in> set (show_int i) \<Longrightarrow> c = CHR ''-'' \<or> 48 \<le> (of_char c :: nat) \<and> (of_char c :: nat) \<le> 57"
  using show_nat_digits by (auto simp: show_int_def split: if_splits)

subsection \<open>The SQL forms\<close>

text \<open>\<open>SELECT .. WHERE id = %s\<close> and \<open>fetchone\<close>.\<close>

definition fetchone :: "'r list \<Rightarrow> 'r option" where
  "fetchone rs = (case rs of [] \<Rightarrow> None | r # _ \<Rightarrow> Some r)"

definition select_id :: "('r \<Rightarrow> row_id) \<Rightarrow> row_id \<Rightarrow> 'r list \<Rightarrow> 'r option" where
  "select_id key i t = fetchone (filter (\<lambda>r. key r = i) t)"

text \<open>\<open>UPDATE .. SET f WHERE p RETURNING ..\<close>: the new table, and the rows returned.\<close>

definition update_where :: "('r \<Rightarrow> bool) \<Rightarrow> ('r \<Rightarrow> 'r) \<Rightarrow> 'r list \<Rightarrow> 'r list" where
  "update_where p f t = map (\<lambda>r. if p r then f r else r) t"

definition returning :: "('r \<Rightarrow> bool) \<Rightarrow> ('r \<Rightarrow> 'r) \<Rightarrow> 'r list \<Rightarrow> 'r list" where
  "returning p f t = map f (filter p t)"

text \<open>\<open>ORDER BY\<close> ascending and descending; \<open>LIMIT\<close> and \<open>OFFSET\<close>.\<close>

definition order_asc :: "('r \<Rightarrow> 'k::linorder) \<Rightarrow> 'r list \<Rightarrow> 'r list" where
  "order_asc key t = sort_key key t"

definition order_desc :: "('r \<Rightarrow> 'k::linorder) \<Rightarrow> 'r list \<Rightarrow> 'r list" where
  "order_desc key t = rev (sort_key key t)"

definition limit :: "int \<Rightarrow> 'r list \<Rightarrow> 'r list" where
  "limit n t = take (nat n) t"

definition offset :: "int \<Rightarrow> 'r list \<Rightarrow> 'r list" where
  "offset n t = drop (nat n) t"

text \<open>A column constraint of an equality filter that is added only when a value is given.\<close>

definition filter_opt :: "('r \<Rightarrow> 'v) \<Rightarrow> 'v option \<Rightarrow> 'r list \<Rightarrow> 'r list" where
  "filter_opt col v t = (case v of None \<Rightarrow> t | Some x \<Rightarrow> filter (\<lambda>r. col r = x) t)"

end
