(* ===== verification/Tables.thy ===== *)
theory Tables
  imports Prelude
begin

text \<open>
  Tables whose rows have an id and a life cycle. Every store of the program keeps such a
  table: rows are inserted with a fresh id, changed by guarded updates, and never deleted.
  The locale \<open>row_lifecycle\<close> is the contract a store's row-level step relation meets; its
  lemmas lift one-row facts to whole tables, and a store uses them through its interpretation.
\<close>

subsection \<open>Lemmas on the SQL forms\<close>

lemma fetchone_Some: "fetchone rs = Some r \<longleftrightarrow> (\<exists>rs'. rs = r # rs')"
  by (cases rs) (auto simp: fetchone_def)

lemma fetchone_None: "fetchone rs = None \<longleftrightarrow> rs = []"
  by (cases rs) (auto simp: fetchone_def)

lemma fetchone_mem: "fetchone rs = Some r \<Longrightarrow> r \<in> set rs"
  by (auto simp: fetchone_Some)

lemma select_id_Some: "select_id key i t = Some r \<Longrightarrow> r \<in> set t \<and> key r = i"
  unfolding select_id_def by (drule fetchone_mem) auto

lemma select_id_None: "select_id key i t = None \<longleftrightarrow> (\<forall>r \<in> set t. key r \<noteq> i)"
  by (auto simp: select_id_def fetchone_None filter_empty_conv)

lemma distinct_key_filter:
  assumes "distinct (map key t)" "r \<in> set t"
  shows "filter (\<lambda>x. key x = key r) t = [r]"
  using assms by (induction t) (auto simp: filter_empty_conv image_iff)

lemma select_id_mem:
  "distinct (map key t) \<Longrightarrow> r \<in> set t \<Longrightarrow> select_id key (key r) t = Some r"
  by (simp add: select_id_def distinct_key_filter fetchone_def)

lemma distinct_key_unique:
  fixes key :: "'r \<Rightarrow> row_id"
  shows "distinct (map key t) \<Longrightarrow> r \<in> set t \<Longrightarrow> r' \<in> set t \<Longrightarrow> key r = key r' \<Longrightarrow> r = r'"
  unfolding distinct_map by (blast dest: inj_onD)

lemma set_update_where:
  "set (update_where p f t) = {f r |r. r \<in> set t \<and> p r} \<union> {r \<in> set t. \<not> p r}"
  by (auto simp: update_where_def image_iff)

lemma update_where_Nil [simp]: "update_where p f [] = []"
  and update_where_Cons [simp]:
    "update_where p f (r # t) = (if p r then f r else r) # update_where p f t"
  by (simp_all add: update_where_def)

lemma length_update_where [simp]: "length (update_where p f t) = length t"
  by (simp add: update_where_def)

lemma update_where_none: "\<forall>r \<in> set t. \<not> p r \<Longrightarrow> update_where p f t = t"
  by (induction t) auto

lemma returning_empty: "returning p f t = [] \<longleftrightarrow> (\<forall>r \<in> set t. \<not> p r)"
  by (auto simp: returning_def filter_empty_conv)

lemma returning_mem: "u \<in> set (returning p f t) \<longleftrightarrow> (\<exists>r \<in> set t. p r \<and> u = f r)"
  by (auto simp: returning_def)

lemma map_update_where:
  assumes "\<forall>r \<in> set t. p r \<longrightarrow> g (f r) = g r"
  shows "map g (update_where p f t) = map g t"
  using assms by (induction t) auto

lemma set_order [simp]:
  "set (order_asc k t) = set t" "set (order_desc k t) = set t"
  by (simp_all add: order_asc_def order_desc_def)

lemma set_limit_subset: "set (limit n t) \<subseteq> set t"
  by (simp add: limit_def set_take_subset)

lemma length_limit: "length (limit n t) \<le> nat n"
  by (simp add: limit_def)

lemma length_order [simp]:
  "length (order_asc k t) = length t" "length (order_desc k t) = length t"
  by (simp_all add: order_asc_def order_desc_def)

text \<open>The first row of an ascending order is least, the first of a descending order greatest.\<close>

lemma fetchone_order_asc:
  assumes "fetchone (order_asc k t) = Some r"
  shows "r \<in> set t" "\<forall>r' \<in> set t. k r \<le> k r'"
proof -
  obtain rs where rs: "sort_key k t = r # rs"
    using assms by (auto simp: order_asc_def fetchone_Some)
  have "sorted (map k (sort_key k t))" by simp
  then have "\<forall>r' \<in> set (r # rs). k r \<le> k r'" by (auto simp: rs)
  moreover have "set (r # rs) = set t" by (metis rs set_sort)
  ultimately show "r \<in> set t" "\<forall>r' \<in> set t. k r \<le> k r'" by auto
qed

lemma fetchone_order_desc:
  assumes "fetchone (order_desc k t) = Some r"
  shows "r \<in> set t" "\<forall>r' \<in> set t. k r' \<le> k r"
proof -
  obtain rs where rs: "sort_key k t = rs @ [r]"
    using assms by (auto simp: order_desc_def fetchone_Some)
  have "sorted (map k (sort_key k t))" by simp
  then have "\<forall>r' \<in> set (rs @ [r]). k r' \<le> k r" by (auto simp: rs sorted_append)
  moreover have "set (rs @ [r]) = set t" by (metis rs set_sort)
  ultimately show "r \<in> set t" "\<forall>r' \<in> set t. k r' \<le> k r" by auto
qed

lemma fetchone_order_None:
  "fetchone (order_asc k t) = None \<longleftrightarrow> t = []"
  "fetchone (order_desc k t) = None \<longleftrightarrow> t = []"
  using length_order [of k t] by (auto simp: fetchone_None simp flip: length_0_conv)

text \<open>Selections keep ids distinct.\<close>

lemma distinct_map_filter': "distinct (map key t) \<Longrightarrow> distinct (map key (filter p t))"
  by (simp add: distinct_map inj_on_def)

lemma distinct_map_order:
  "distinct (map key t) \<Longrightarrow> distinct (map key (order_asc k t))"
  "distinct (map key t) \<Longrightarrow> distinct (map key (order_desc k t))"
  by (simp_all add: distinct_map order_asc_def order_desc_def)

lemma distinct_map_limit: "distinct (map key t) \<Longrightarrow> distinct (map key (limit n t))"
  unfolding limit_def take_map [symmetric] by (rule distinct_take)

lemmas distinct_selection = distinct_map_limit distinct_map_order distinct_map_filter'

lemma limit_all: "int (length t) \<le> n \<Longrightarrow> limit n t = t"
  by (simp add: limit_def)

text \<open>What a limit on an ordered selection leaves out comes no earlier than what it takes.\<close>

lemma limit_sorted_rest:
  assumes "sorted (map k xs)" "r \<in> set xs" "r \<notin> set (limit n xs)"
  shows "length (limit n xs) = nat n" "\<forall>x \<in> set (limit n xs). k x \<le> k r"
proof -
  let ?n = "nat n"
  have "set xs = set (take ?n xs) \<union> set (drop ?n xs)"
    by (metis append_take_drop_id set_append)
  with assms(2,3) have r: "r \<in> set (drop ?n xs)" by (simp add: limit_def)
  then have "?n < length xs" by (cases "?n < length xs") auto
  then show "length (limit n xs) = nat n" by (simp add: limit_def)
  have "sorted (map k (take ?n xs) @ map k (drop ?n xs))"
    using assms(1) by (simp flip: map_append)
  then have "\<forall>a \<in> set (map k (take ?n xs)). \<forall>b \<in> set (map k (drop ?n xs)). a \<le> b"
    unfolding sorted_append by blast
  with r show "\<forall>x \<in> set (limit n xs). k x \<le> k r" by (simp add: limit_def)
qed

text \<open>Updating the one row with a given id.\<close>

lemma set_update_id:
  fixes key :: "'r \<Rightarrow> row_id"
  assumes "distinct (map key t)" "row \<in> set t"
  shows "set (update_where (\<lambda>r. key r = key row) f t) = insert (f row) (set t - {row})"
proof -
  have "r = row" if "r \<in> set t" "key r = key row" for r
    using assms(1) that(1) assms(2) that(2) by (rule distinct_key_unique)
  then have *: "(key r = key row) = (r = row)" if "r \<in> set t" for r
    using that by auto
  have "update_where (\<lambda>r. key r = key row) f t = update_where (\<lambda>r. r = row) f t"
    unfolding update_where_def by (rule map_cong) (simp_all add: *)
  then show ?thesis using assms(2) by (auto simp: set_update_where)
qed

lemma returning_id:
  fixes key :: "'r \<Rightarrow> row_id"
  assumes "distinct (map key t)" "row \<in> set t"
  shows "returning (\<lambda>r. key r = key row) f t = [f row]"
  by (simp add: returning_def distinct_key_filter [OF assms])

subsection \<open>Ids\<close>

text \<open>Distinct ids, all below the sequence's next value.\<close>

definition wf_ids :: "('r \<Rightarrow> row_id) \<Rightarrow> row_id \<Rightarrow> 'r list \<Rightarrow> bool" where
  "wf_ids key seq t \<longleftrightarrow> distinct (map key t) \<and> (\<forall>r \<in> set t. key r < seq)"

lemma wf_ids_Nil [simp]: "wf_ids key seq []"
  by (simp add: wf_ids_def)

lemma wf_ids_insert:
  "wf_ids key seq t \<Longrightarrow> key r = seq \<Longrightarrow> wf_ids key (seq + 1) (t @ [r])"
  by (auto simp: wf_ids_def)

lemma wf_ids_update:
  assumes "wf_ids key seq t" "\<forall>r \<in> set t. p r \<longrightarrow> key (f r) = key r"
  shows "wf_ids key seq (update_where p f t)"
proof -
  have "map key (update_where p f t) = map key t"
    using assms(2) by (rule map_update_where)
  moreover have "\<forall>r \<in> set (update_where p f t). key r < seq"
    using assms by (auto simp: wf_ids_def set_update_where)
  ultimately show ?thesis using assms(1) by (simp add: wf_ids_def)
qed

subsection \<open>Tables that evolve\<close>

text \<open>Every row of the old table is in the new one under its id, moved by zero or more steps.\<close>

definition evolves :: "('r \<Rightarrow> row_id) \<Rightarrow> ('r \<Rightarrow> 'r \<Rightarrow> bool) \<Rightarrow> 'r list \<Rightarrow> 'r list \<Rightarrow> bool" where
  "evolves key step t t' \<longleftrightarrow>
     (\<forall>r \<in> set t. \<exists>r' \<in> set t'. key r' = key r \<and> step\<^sup>*\<^sup>* r r')"

locale row_lifecycle =
  fixes key :: "'r \<Rightarrow> row_id"
    and step :: "'r \<Rightarrow> 'r \<Rightarrow> bool"
    and final :: "'r \<Rightarrow> bool"
    and obs :: "'r \<Rightarrow> 'o"
  assumes step_key: "step r r' \<Longrightarrow> key r' = key r"
    and final_step: "final r \<Longrightarrow> step r r' \<Longrightarrow> final r' \<and> obs r' = obs r"
begin

lemma steps_key: "step\<^sup>*\<^sup>* r r' \<Longrightarrow> key r' = key r"
  by (induction rule: rtranclp_induct) (auto dest: step_key)

lemma evolves_refl: "evolves key step t t"
  by (auto simp: evolves_def)

lemma evolves_trans:
  assumes "evolves key step t u" "evolves key step u v"
  shows "evolves key step t v"
  unfolding evolves_def
proof
  fix r assume "r \<in> set t"
  then obtain r' where "r' \<in> set u" "key r' = key r" "step\<^sup>*\<^sup>* r r'"
    using assms(1) by (auto simp: evolves_def)
  moreover then obtain r'' where "r'' \<in> set v" "key r'' = key r'" "step\<^sup>*\<^sup>* r' r''"
    using assms(2) by (auto simp: evolves_def)
  ultimately show "\<exists>r' \<in> set v. key r' = key r \<and> step\<^sup>*\<^sup>* r r'"
    by (auto intro: rtranclp_trans)
qed

lemma evolves_insert: "evolves key step t (t @ [r])"
  by (auto simp: evolves_def)

lemma evolves_update:
  assumes "\<forall>r \<in> set t. p r \<longrightarrow> step r (f r)"
  shows "evolves key step t (update_where p f t)"
  unfolding evolves_def
proof
  fix r assume r: "r \<in> set t"
  show "\<exists>r' \<in> set (update_where p f t). key r' = key r \<and> step\<^sup>*\<^sup>* r r'"
  proof (cases "p r")
    case True
    with assms r have "step r (f r)" by blast
    moreover have "f r \<in> set (update_where p f t)" using r True by (auto simp: set_update_where)
    ultimately show ?thesis using step_key by blast
  next
    case False
    with r show ?thesis by (auto simp: set_update_where)
  qed
qed

lemma wf_update:
  assumes "wf_ids key seq t" "\<forall>r \<in> set t. p r \<longrightarrow> step r (f r)"
  shows "wf_ids key seq (update_where p f t)"
  using assms(1) by (rule wf_ids_update) (use assms(2) step_key in blast)

text \<open>A row in a final state is in every later table, final and with the same observable part.\<close>

lemma final_steps: "step\<^sup>*\<^sup>* r r' \<Longrightarrow> final r \<Longrightarrow> final r' \<and> obs r' = obs r"
  by (induction rule: rtranclp_induct) (auto dest: final_step)

lemma final_kept:
  assumes "evolves key step t t'" "r \<in> set t" "final r"
  shows "\<exists>r' \<in> set t'. key r' = key r \<and> final r' \<and> obs r' = obs r"
proof -
  obtain r' where "r' \<in> set t'" "key r' = key r" "step\<^sup>*\<^sup>* r r'"
    using assms(1,2) by (auto simp: evolves_def)
  with assms(3) show ?thesis using final_steps by blast
qed

lemma final_kept_selected:
  assumes "evolves key step t t'" "wf_ids key seq t'" "r \<in> set t" "final r"
  shows "\<exists>r'. select_id key (key r) t' = Some r' \<and> final r' \<and> obs r' = obs r"
proof -
  obtain r' where r': "r' \<in> set t'" "key r' = key r" "final r'" "obs r' = obs r"
    using final_kept [OF assms(1,3,4)] by blast
  have "distinct (map key t')" using assms(2) by (simp add: wf_ids_def)
  from select_id_mem [OF this r'(1)] r' show ?thesis by simp
qed

end

text \<open>Where final rows take no step at all, the whole row is observable.\<close>

locale row_frozen =
  fixes key :: "'r \<Rightarrow> row_id"
    and step :: "'r \<Rightarrow> 'r \<Rightarrow> bool"
    and final :: "'r \<Rightarrow> bool"
  assumes frozen_key: "step r r' \<Longrightarrow> key r' = key r"
    and final_stuck: "final r \<Longrightarrow> \<not> step r r'"

sublocale row_frozen \<subseteq> row_lifecycle key step final "\<lambda>r. r"
  by unfold_locales (auto dest: frozen_key final_stuck)

context row_frozen
begin

lemma final_selected:
  assumes "evolves key step t t'" "wf_ids key seq t'" "r \<in> set t" "final r"
  shows "select_id key (key r) t' = Some r"
  using final_kept_selected [OF assms] by auto

end

subsection \<open>Sequences of operations\<close>

text \<open>A store's operations keep its invariant and relate the state before to the state after.
  The contract is on one operation; the lemma is on every sequence of them.\<close>

locale store_ops =
  fixes op :: "'s \<Rightarrow> 's \<Rightarrow> bool"
    and inv :: "'s \<Rightarrow> bool"
    and rel :: "'s \<Rightarrow> 's \<Rightarrow> bool"
  assumes op_inv: "op s s' \<Longrightarrow> inv s \<Longrightarrow> inv s'"
    and op_rel: "op s s' \<Longrightarrow> inv s \<Longrightarrow> rel s s'"
    and rel_refl: "rel s s"
    and rel_trans: "rel s s' \<Longrightarrow> rel s' s'' \<Longrightarrow> rel s s''"
begin

lemma ops_safe: "op\<^sup>*\<^sup>* s s' \<Longrightarrow> inv s \<Longrightarrow> inv s' \<and> rel s s'"
proof (induction rule: rtranclp_induct)
  case base
  then show ?case by (simp add: rel_refl)
next
  case (step s' s'')
  then have "inv s'" "rel s s'" by auto
  with step.hyps(2) show ?case using op_inv op_rel rel_trans by blast
qed

lemmas ops_inv = ops_safe [THEN conjunct1]
lemmas ops_rel = ops_safe [THEN conjunct2]

end

end
