(* ===== verification/Approval_Store.thy ===== *)
theory Approval_Store
  imports Tables
begin

text \<open>
  \<open>core/approval_store.py\<close> and the decision handler of \<open>routes/approval_routes.py\<close>: the
  requests for a human decision on a response action, their event trail, and the audit log,
  which \<open>core/audit_helpers.py\<close> writes on a connection of its own and commits at once.
  Shown here: a decided request never changes again, nothing is approved at or after its
  expiry, every request has exactly one decision in its trail, and the tables' constraints hold
  after every operation.
\<close>

subsection \<open>State\<close>

datatype approval_status = APending | AApproved | ADenied | AExpired

fun approval_status_text :: "approval_status \<Rightarrow> string" where
  "approval_status_text APending = ''pending''"
| "approval_status_text AApproved = ''approved''"
| "approval_status_text ADenied = ''denied''"
| "approval_status_text AExpired = ''expired''"

record approval_request =
  ar_id :: row_id
  ar_incident_id :: "row_id option"
  ar_queue_id :: "row_id option"
  ar_playbook_execution_id :: "row_id option"
  ar_playbook_step_index :: "int option"
  ar_requested_by :: "row_id option"
  ar_approved_by :: "row_id option"
  ar_decided_by :: "row_id option"
  ar_status :: approval_status
  ar_action :: string
  ar_risk_level :: string
  ar_request_reason :: "string option"
  ar_decision_comment :: "string option"
  ar_created_at :: time
  ar_decided_at :: "time option"
  ar_expires_at :: time

record approval_event =
  ae_id :: row_id
  ae_approval_request_id :: row_id
  ae_event_type :: string
  ae_actor_user_id :: "row_id option"
  ae_previous_status :: "approval_status option"
  ae_new_status :: approval_status
  ae_comment :: "string option"
  ae_created_at :: time

record audit_entry =
  au_event_type :: string
  au_actor_username :: "string option"
  au_approval_request_id :: row_id
  au_incident_id :: "row_id option"
  au_queue_id :: "row_id option"
  au_action :: string
  au_previous_status :: "approval_status option"
  au_new_status :: approval_status
  au_decision_comment :: "string option"

text \<open>\<open>audit_up\<close>: whether the audit connection works; when it does not, the entry is lost and
  the caller goes on.\<close>

record approval_db =
  approval_requests :: "approval_request list"
  approval_seq :: row_id
  approval_request_events :: "approval_event list"
  approval_event_seq :: row_id
  audit_log :: "audit_entry list"
  audit_up :: bool

definition TERMINAL_APPROVAL_STATUSES :: "approval_status set" where
  "TERMINAL_APPROVAL_STATUSES = {AApproved, ADenied, AExpired}"

definition DEFAULT_APPROVAL_TTL_MINUTES :: int where
  "DEFAULT_APPROVAL_TTL_MINUTES = 60"

subsection \<open>Helpers\<close>

definition insert_event ::
  "clock \<Rightarrow> row_id \<Rightarrow> string \<Rightarrow> row_id option \<Rightarrow> approval_status option \<Rightarrow> approval_status \<Rightarrow>
   string option \<Rightarrow> approval_db \<Rightarrow> approval_db" where
  "insert_event clk request_id event_type actor previous new comment s =
     s\<lparr>approval_request_events := approval_request_events s @
          [\<lparr>ae_id = approval_event_seq s, ae_approval_request_id = request_id,
            ae_event_type = event_type, ae_actor_user_id = actor,
            ae_previous_status = previous, ae_new_status = new, ae_comment = comment,
            ae_created_at = sql_now clk\<rparr>],
       approval_event_seq := approval_event_seq s + 1\<rparr>"

definition write_audit_event ::
  "string \<Rightarrow> row_id option \<Rightarrow> approval_request \<Rightarrow> approval_status option \<Rightarrow> approval_status \<Rightarrow>
   string option \<Rightarrow> approval_db \<Rightarrow> approval_db" where
  "write_audit_event event_type actor r previous new comment s =
     (if audit_up s
      then s\<lparr>audit_log := audit_log s @
          [\<lparr>au_event_type = event_type, au_actor_username = map_option show_int actor,
            au_approval_request_id = ar_id r, au_incident_id = ar_incident_id r,
            au_queue_id = ar_queue_id r, au_action = ar_action r,
            au_previous_status = previous, au_new_status = new,
            au_decision_comment = comment\<rparr>]\<rparr>
      else s)"

definition set_expired :: "time \<Rightarrow> approval_request \<Rightarrow> approval_request" where
  "set_expired now r =
     r\<lparr>ar_status := AExpired, ar_approved_by := None, ar_decided_by := None,
       ar_decided_at := Some now\<rparr>"

definition materialize_expiration ::
  "clock \<Rightarrow> approval_request \<Rightarrow> time \<Rightarrow> (approval_db, approval_request) py" where
  "materialize_expiration clk row now s =
     (if ar_status row \<noteq> APending then (Inl (ValueError ''approval request is not pending''), s)
      else
        let here = (\<lambda>r. ar_id r = ar_id row);
            s1 = s\<lparr>approval_requests := update_where here (set_expired now) (approval_requests s)\<rparr>
        in case fetchone (returning here (set_expired now) (approval_requests s)) of
             None \<Rightarrow> (Inl (TypeError ''cannot unpack non-iterable NoneType object''), s1)
           | Some expired \<Rightarrow>
               (Inr expired,
                write_audit_event ''approval_request_expired'' None expired (Some APending) AExpired
                  (Some ''approval request expired'')
                  (insert_event clk (ar_id expired) ''expired'' None (Some APending) AExpired
                     (Some ''approval request expired'') s1)))"

subsection \<open>Creating requests\<close>

text \<open>The keyword arguments of \<open>create_approval_request\<close>.\<close>

record approval_args =
  aa_incident_id :: "row_id option"
  aa_queue_id :: "row_id option"
  aa_playbook_execution_id :: "row_id option"
  aa_playbook_step_index :: "int option"
  aa_action :: string
  aa_requested_by :: "row_id option"
  aa_request_reason :: "string option"
  aa_risk_level :: string
  aa_expires_at :: "time option"
  aa_ttl_minutes :: int

text \<open>Pending and approved requests are active; the partial unique indexes allow one active
  request per queue row and action, and one per playbook execution and step.\<close>

definition approval_active :: "approval_request \<Rightarrow> bool" where
  "approval_active r \<longleftrightarrow> ar_status r = APending \<or> ar_status r = AApproved"

definition active_clash :: "approval_request \<Rightarrow> approval_request \<Rightarrow> bool" where
  "active_clash r r' \<longleftrightarrow> approval_active r \<and> approval_active r' \<and>
     ((ar_queue_id r \<noteq> None \<and> ar_queue_id r = ar_queue_id r' \<and> ar_action r = ar_action r')
      \<or> (ar_playbook_execution_id r \<noteq> None \<and> ar_playbook_step_index r \<noteq> None \<and>
         ar_playbook_execution_id r = ar_playbook_execution_id r' \<and>
         ar_playbook_step_index r = ar_playbook_step_index r'))"

definition risk_level_ok :: "string \<Rightarrow> bool" where
  "risk_level_ok l \<longleftrightarrow> l \<in> {''medium'', ''high'', ''critical''}"

definition new_request :: "clock \<Rightarrow> approval_args \<Rightarrow> row_id \<Rightarrow> approval_request" where
  "new_request clk a i =
     \<lparr>ar_id = i, ar_incident_id = aa_incident_id a, ar_queue_id = aa_queue_id a,
      ar_playbook_execution_id = aa_playbook_execution_id a,
      ar_playbook_step_index = aa_playbook_step_index a,
      ar_requested_by = aa_requested_by a, ar_approved_by = None, ar_decided_by = None,
      ar_status = APending, ar_action = strip (aa_action a), ar_risk_level = aa_risk_level a,
      ar_request_reason = aa_request_reason a, ar_decision_comment = None,
      ar_created_at = sql_now clk, ar_decided_at = None,
      ar_expires_at =
        (case aa_expires_at a of Some t \<Rightarrow> t | None \<Rightarrow> utc_now clk + minutes (aa_ttl_minutes a))\<rparr>"

definition create_approval_request ::
  "clock \<Rightarrow> approval_args \<Rightarrow> (approval_db, approval_request) py" where
  "create_approval_request clk a s =
     (if aa_incident_id a = None \<and> aa_queue_id a = None \<and> aa_playbook_execution_id a = None
      then (Inl (ValueError ''approval request target required''), s)
      else if strip (aa_action a) = [] then (Inl (ValueError ''action is required''), s)
      else
        let r = new_request clk a (approval_seq s);
            s0 = s\<lparr>approval_seq := approval_seq s + 1\<rparr>
        in if \<not> risk_level_ok (ar_risk_level r) \<or> (\<exists>r' \<in> set (approval_requests s). active_clash r r')
           then (Inl (IntegrityError ''approval_requests''), s0)
           else (Inr r,
                 write_audit_event ''approval_request_created'' (aa_requested_by a) r None APending
                   (aa_request_reason a)
                   (insert_event clk (ar_id r) ''created'' (aa_requested_by a) None APending
                      (aa_request_reason a)
                      (s0\<lparr>approval_requests := approval_requests s @ [r]\<rparr>))))"

subsection \<open>Reading requests\<close>

definition newest_first :: "approval_request list \<Rightarrow> approval_request list" where
  "newest_first = order_desc (\<lambda>r. (ar_created_at r, ar_id r))"

definition get_latest_playbook_step_approval_request ::
  "clock \<Rightarrow> row_id \<Rightarrow> int \<Rightarrow> bool \<Rightarrow> time option \<Rightarrow> (approval_db, approval_request option) py" where
  "get_latest_playbook_step_approval_request clk execution_id step_index materialize_expired now s =
     (let decision_time = coalesce now (utc_now clk)
      in case fetchone (newest_first (filter (\<lambda>r. ar_playbook_execution_id r = Some execution_id \<and>
                ar_playbook_step_index r = Some step_index) (approval_requests s))) of
           None \<Rightarrow> (Inr None, s)
         | Some row \<Rightarrow>
             if materialize_expired \<and> ar_status row = APending \<and> ar_expires_at row \<le> decision_time
             then py_bind (materialize_expiration clk row decision_time) (\<lambda>r s. (Inr (Some r), s)) s
             else (Inr (Some row), s))"

definition get_active_playbook_step_approval_request ::
  "clock \<Rightarrow> row_id \<Rightarrow> int \<Rightarrow> (approval_db, approval_request option) py" where
  "get_active_playbook_step_approval_request clk execution_id step_index =
     py_bind (get_latest_playbook_step_approval_request clk execution_id step_index False None)
       (\<lambda>latest s. case latest of
            None \<Rightarrow> (Inr None, s)
          | Some r \<Rightarrow> if approval_active r then (Inr (Some r), s) else (Inr None, s))"

definition create_playbook_step_approval_request ::
  "clock \<Rightarrow> row_id \<Rightarrow> int \<Rightarrow> string \<Rightarrow> row_id option \<Rightarrow> string option \<Rightarrow> string \<Rightarrow> time option \<Rightarrow> int \<Rightarrow>
   (approval_db, approval_request) py" where
  "create_playbook_step_approval_request clk execution_id step_index action requested_by reason
       risk_level expires_at ttl_minutes =
     py_bind (get_active_playbook_step_approval_request clk execution_id step_index)
       (\<lambda>existing. case existing of
            Some r \<Rightarrow> (\<lambda>s. (Inr r, s))
          | None \<Rightarrow> create_approval_request clk
              \<lparr>aa_incident_id = None, aa_queue_id = None,
               aa_playbook_execution_id = Some execution_id,
               aa_playbook_step_index = Some step_index, aa_action = action,
               aa_requested_by = requested_by, aa_request_reason = reason,
               aa_risk_level = risk_level, aa_expires_at = expires_at,
               aa_ttl_minutes = ttl_minutes\<rparr>)"

definition list_approval_events :: "row_id \<Rightarrow> approval_db \<Rightarrow> approval_event list" where
  "list_approval_events request_id s =
     order_asc (\<lambda>e. (ae_created_at e, ae_id e))
       (filter (\<lambda>e. ae_approval_request_id e = request_id) (approval_request_events s))"

definition get_approval_request ::
  "row_id \<Rightarrow> approval_db \<Rightarrow> (approval_request \<times> approval_event list) option" where
  "get_approval_request request_id s =
     map_option (\<lambda>r. (r, list_approval_events request_id s))
       (select_id ar_id request_id (approval_requests s))"

definition list_approval_requests ::
  "string option \<Rightarrow> row_id option \<Rightarrow> row_id option \<Rightarrow> int \<Rightarrow> int \<Rightarrow> approval_db \<Rightarrow> approval_request list" where
  "list_approval_requests status incident_id queue_id lim off s =
     limit (min (max lim 0) 100) (offset (max off 0) (newest_first
       (filter_opt ar_queue_id (map_option Some queue_id)
         (filter_opt ar_incident_id (map_option Some incident_id)
           (filter_opt (approval_status_text \<circ> ar_status) status (approval_requests s))))))"

definition get_latest_approval_for_queue_action ::
  "row_id \<Rightarrow> string \<Rightarrow> approval_db \<Rightarrow> approval_request option" where
  "get_latest_approval_for_queue_action queue_id action s =
     fetchone (newest_first
       (filter (\<lambda>r. ar_queue_id r = Some queue_id \<and> ar_action r = action) (approval_requests s)))"

subsection \<open>Decisions\<close>

definition set_approved :: "row_id \<Rightarrow> time \<Rightarrow> string option \<Rightarrow> approval_request \<Rightarrow> approval_request" where
  "set_approved actor t comment r =
     r\<lparr>ar_status := AApproved, ar_approved_by := Some actor, ar_decided_by := Some actor,
       ar_decided_at := Some t, ar_decision_comment := comment\<rparr>"

definition set_denied :: "row_id \<Rightarrow> time \<Rightarrow> string option \<Rightarrow> approval_request \<Rightarrow> approval_request" where
  "set_denied actor t comment r =
     r\<lparr>ar_status := ADenied, ar_approved_by := None, ar_decided_by := Some actor,
       ar_decided_at := Some t, ar_decision_comment := comment\<rparr>"

definition approve_request ::
  "clock \<Rightarrow> row_id \<Rightarrow> row_id \<Rightarrow> string option \<Rightarrow> time option \<Rightarrow> (approval_db, approval_request) py" where
  "approve_request clk request_id actor comment now s =
     (let decision_time = coalesce now (utc_now clk)
      in case select_id ar_id request_id (approval_requests s) of
           None \<Rightarrow> (Inl (ValueError ''approval request not found''), s)
         | Some row \<Rightarrow>
             if ar_status row \<noteq> APending then (Inl (ValueError ''approval request is not pending''), s)
             else if ar_expires_at row \<le> decision_time
             then py_bind (materialize_expiration clk row decision_time)
                    (\<lambda>_ s. (Inl (ValueError ''approval request expired''), s)) s
             else
               let here = (\<lambda>r. ar_id r = request_id);
                   f = set_approved actor decision_time comment;
                   s1 = s\<lparr>approval_requests := update_where here f (approval_requests s)\<rparr>
               in case fetchone (returning here f (approval_requests s)) of
                    None \<Rightarrow> (Inl (TypeError ''cannot unpack non-iterable NoneType object''), s1)
                  | Some updated \<Rightarrow>
                      (Inr updated,
                       write_audit_event ''approval_request_approved'' (Some actor) updated
                         (Some APending) AApproved comment
                         (insert_event clk request_id ''approved'' (Some actor) (Some APending)
                            AApproved comment s1)))"

definition deny_request ::
  "clock \<Rightarrow> row_id \<Rightarrow> row_id \<Rightarrow> string option \<Rightarrow> time option \<Rightarrow> (approval_db, approval_request) py" where
  "deny_request clk request_id actor comment now s =
     (let decision_time = coalesce now (utc_now clk)
      in case select_id ar_id request_id (approval_requests s) of
           None \<Rightarrow> (Inl (ValueError ''approval request not found''), s)
         | Some row \<Rightarrow>
             if ar_status row \<noteq> APending then (Inl (ValueError ''approval request is not pending''), s)
             else if ar_expires_at row \<le> decision_time
             then py_bind (materialize_expiration clk row decision_time)
                    (\<lambda>_ s. (Inl (ValueError ''approval request expired''), s)) s
             else
               let here = (\<lambda>r. ar_id r = request_id);
                   f = set_denied actor decision_time comment;
                   s1 = s\<lparr>approval_requests := update_where here f (approval_requests s)\<rparr>
               in case fetchone (returning here f (approval_requests s)) of
                    None \<Rightarrow> (Inl (TypeError ''cannot unpack non-iterable NoneType object''), s1)
                  | Some updated \<Rightarrow>
                      (Inr updated,
                       write_audit_event ''approval_request_denied'' (Some actor) updated
                         (Some APending) ADenied comment
                         (insert_event clk request_id ''denied'' (Some actor) (Some APending)
                            ADenied comment s1)))"

text \<open>\<open>locked\<close> are the rows another transaction holds, which \<open>SKIP LOCKED\<close> passes over.\<close>

definition expirable :: "(row_id \<Rightarrow> bool) \<Rightarrow> time \<Rightarrow> int \<Rightarrow> approval_request list \<Rightarrow> approval_request list" where
  "expirable locked now cap t =
     limit cap (filter (\<lambda>r. \<not> locked (ar_id r))
       (order_asc (\<lambda>r. (ar_expires_at r, ar_id r))
         (filter (\<lambda>r. ar_status r = APending \<and> ar_expires_at r \<le> now) t)))"

fun expire_rows :: "clock \<Rightarrow> time \<Rightarrow> approval_request list \<Rightarrow> (approval_db, approval_request list) py" where
  "expire_rows clk now [] s = (Inr [], s)"
| "expire_rows clk now (row # rows) s =
     (case materialize_expiration clk row now s of
        (Inl e, s') \<Rightarrow> (Inl e, s')
      | (Inr x, s') \<Rightarrow>
          (case expire_rows clk now rows s' of
             (Inl e, s'') \<Rightarrow> (Inl e, s'')
           | (Inr xs, s'') \<Rightarrow> (Inr (x # xs), s'')))"

definition expire_pending_requests ::
  "(row_id \<Rightarrow> bool) \<Rightarrow> clock \<Rightarrow> time option \<Rightarrow> int \<Rightarrow> (approval_db, approval_request list) py" where
  "expire_pending_requests locked clk now lim s =
     (let expiration_time = coalesce now (utc_now clk); cap = min (max lim 0) 100
      in expire_rows clk expiration_time
           (expirable locked expiration_time cap (approval_requests s)) s)"

subsection \<open>The decision handler\<close>

text \<open>
  \<open>POST /approvals/<id>/decision\<close> from the point where the body has been read: \<open>decision\<close> and
  \<open>reason\<close> are the body's fields (\<open>None\<close> when missing), \<open>actor\<close> the id of the signed-in user.
  A rollback restores the tables of the transaction; the audit log and the sequences keep what
  they have.
\<close>

definition rollback :: "approval_db \<Rightarrow> approval_db \<Rightarrow> approval_db" where
  "rollback s0 s =
     s\<lparr>approval_requests := approval_requests s0,
       approval_request_events := approval_request_events s0\<rparr>"

datatype http_response =
    HttpApproval int approval_request
  | HttpError int string

definition decision_approval_route ::
  "clock \<Rightarrow> row_id \<Rightarrow> row_id \<Rightarrow> string option \<Rightarrow> string option \<Rightarrow> approval_db \<Rightarrow> http_response \<times> approval_db" where
  "decision_approval_route clk request_id actor decision reason s =
     (let reason' = (case reason of None \<Rightarrow> None
                     | Some x \<Rightarrow> if strip x = [] then None else Some (strip x))
      in case decision of
           None \<Rightarrow> (HttpError 400 ''decision is required'', s)
         | Some d \<Rightarrow>
             if d = [] then (HttpError 400 ''decision is required'', s)
             else if d \<noteq> ''approved'' \<and> d \<noteq> ''denied'' then (HttpError 400 ''invalid decision'', s)
             else
               (case (if d = ''approved'' then approve_request clk request_id actor reason' None s
                      else deny_request clk request_id actor reason' None s) of
                  (Inr updated, s') \<Rightarrow> (HttpApproval 200 updated, s')
                | (Inl (ValueError m), s') \<Rightarrow>
                    (if m = ''approval request not found'' then HttpError 404 m else HttpError 400 m,
                     rollback s s')
                | (Inl _, s') \<Rightarrow> (HttpError 500 ''Internal server error'', rollback s s')))"

subsection \<open>The life cycle of a request\<close>

inductive approval_step :: "approval_request \<Rightarrow> approval_request \<Rightarrow> bool" where
  step_approve: "ar_status r = APending \<Longrightarrow> t < ar_expires_at r \<Longrightarrow> approval_step r (set_approved a t c r)"
| step_deny: "ar_status r = APending \<Longrightarrow> t < ar_expires_at r \<Longrightarrow> approval_step r (set_denied a t c r)"
| step_expire: "ar_status r = APending \<Longrightarrow> ar_expires_at r \<le> t \<Longrightarrow> approval_step r (set_expired t r)"

definition approval_decided :: "approval_request \<Rightarrow> bool" where
  "approval_decided r \<longleftrightarrow> ar_status r \<in> TERMINAL_APPROVAL_STATUSES"

lemma approval_decided_iff [simp]: "approval_decided r \<longleftrightarrow> ar_status r \<noteq> APending"
  by (cases "ar_status r") (auto simp: approval_decided_def TERMINAL_APPROVAL_STATUSES_def)

lemmas set_decision_defs = set_approved_def set_denied_def set_expired_def

interpretation approvals: row_frozen ar_id approval_step approval_decided
  by unfold_locales (auto elim: approval_step.cases simp: set_decision_defs)

subsection \<open>The invariant of the approval tables\<close>

text \<open>What the \<open>CHECK\<close>s of the table say of one row, and what the code adds: an approval is
  given strictly before the expiry.\<close>

definition approval_row_ok :: "approval_request \<Rightarrow> bool" where
  "approval_row_ok r \<longleftrightarrow>
     (ar_incident_id r \<noteq> None \<or> ar_queue_id r \<noteq> None \<or> ar_playbook_execution_id r \<noteq> None) \<and>
     (ar_status r = APending \<longleftrightarrow> ar_decided_at r = None) \<and>
     (ar_status r = AApproved \<longrightarrow> ar_approved_by r \<noteq> None) \<and>
     (ar_status r = AApproved \<longrightarrow> (\<exists>t. ar_decided_at r = Some t \<and> t < ar_expires_at r)) \<and>
     (ar_status r = AExpired \<longrightarrow> (\<exists>t. ar_decided_at r = Some t \<and> ar_expires_at r \<le> t)) \<and>
     risk_level_ok (ar_risk_level r) \<and> ar_action r \<noteq> [] \<and> strip (ar_action r) = ar_action r"

definition trail :: "row_id \<Rightarrow> approval_event list \<Rightarrow> (approval_status option \<times> approval_status) list" where
  "trail i evs = map (\<lambda>e. (ae_previous_status e, ae_new_status e))
                   (filter (\<lambda>e. ae_approval_request_id e = i) evs)"

definition expected_trail :: "approval_request \<Rightarrow> (approval_status option \<times> approval_status) list" where
  "expected_trail r =
     (None, APending) # (if ar_status r = APending then [] else [(Some APending, ar_status r)])"

definition approval_inv :: "approval_db \<Rightarrow> bool" where
  "approval_inv s \<longleftrightarrow>
     wf_ids ar_id (approval_seq s) (approval_requests s) \<and>
     (\<forall>r \<in> set (approval_requests s). approval_row_ok r) \<and>
     (\<forall>r \<in> set (approval_requests s). \<forall>r' \<in> set (approval_requests s).
        ar_id r \<noteq> ar_id r' \<longrightarrow> \<not> active_clash r r') \<and>
     (\<forall>r \<in> set (approval_requests s). trail (ar_id r) (approval_request_events s) = expected_trail r) \<and>
     (\<forall>e \<in> set (approval_request_events s). ae_approval_request_id e < approval_seq s)"

lemma approval_inv_rowsD:
  assumes "approval_inv s"
  shows "wf_ids ar_id (approval_seq s) (approval_requests s)"
    and "distinct (map ar_id (approval_requests s))"
    and "r \<in> set (approval_requests s) \<Longrightarrow> approval_row_ok r"
  using assms by (auto simp: approval_inv_def wf_ids_def)

lemma approval_inv_clashD:
  "approval_inv s \<Longrightarrow> r \<in> set (approval_requests s) \<Longrightarrow> r' \<in> set (approval_requests s) \<Longrightarrow>
     ar_id r \<noteq> ar_id r' \<Longrightarrow> \<not> active_clash r r'"
  by (simp add: approval_inv_def)

lemma approval_inv_trailD:
  "approval_inv s \<Longrightarrow> r \<in> set (approval_requests s) \<Longrightarrow>
     trail (ar_id r) (approval_request_events s) = expected_trail r"
  by (simp add: approval_inv_def)

lemma trail_snoc [simp]:
  "trail i (evs @ [e]) =
     trail i evs @ (if ae_approval_request_id e = i then [(ae_previous_status e, ae_new_status e)] else [])"
  by (simp add: trail_def)

lemma trail_none: "\<forall>e \<in> set evs. ae_approval_request_id e \<noteq> i \<Longrightarrow> trail i evs = []"
  by (auto simp: trail_def filter_empty_conv)

text \<open>The audit log is outside the invariant, and the audit write changes nothing else.\<close>

lemma write_audit_simps [simp]:
  "approval_requests (write_audit_event et a r p n c s) = approval_requests s"
  "approval_seq (write_audit_event et a r p n c s) = approval_seq s"
  "approval_request_events (write_audit_event et a r p n c s) = approval_request_events s"
  "approval_event_seq (write_audit_event et a r p n c s) = approval_event_seq s"
  by (simp_all add: write_audit_event_def)

lemma insert_event_simps [simp]:
  "approval_requests (insert_event clk i et a p n c s) = approval_requests s"
  "approval_seq (insert_event clk i et a p n c s) = approval_seq s"
  "approval_request_events (insert_event clk i et a p n c s) = approval_request_events s @
     [\<lparr>ae_id = approval_event_seq s, ae_approval_request_id = i, ae_event_type = et,
       ae_actor_user_id = a, ae_previous_status = p, ae_new_status = n, ae_comment = c,
       ae_created_at = sql_now clk\<rparr>]"
  by (simp_all add: insert_event_def)

lemma approval_inv_audit [simp]: "approval_inv (write_audit_event et a r p n c s) = approval_inv s"
  by (simp add: approval_inv_def)

lemma approval_step_facts:
  assumes "approval_step r r'"
  shows "ar_id r' = ar_id r" "ar_status r = APending" "ar_status r' \<noteq> APending"
    and "approval_row_ok r \<Longrightarrow> approval_row_ok r'"
    and "active_clash r' x \<Longrightarrow> active_clash r x" "active_clash x r' \<Longrightarrow> active_clash x r"
  using assms
  by (cases; auto simp: set_decision_defs approval_row_ok_def active_clash_def approval_active_def)+

text \<open>One decision: the row's update and its event keep the invariant.\<close>

definition decide ::
  "clock \<Rightarrow> approval_request \<Rightarrow> (approval_request \<Rightarrow> approval_request) \<Rightarrow> string \<Rightarrow> row_id option \<Rightarrow>
   string option \<Rightarrow> approval_db \<Rightarrow> approval_db" where
  "decide clk row f et actor c s =
     insert_event clk (ar_id row) et actor (Some APending) (ar_status (f row)) c
       (s\<lparr>approval_requests := update_where (\<lambda>r. ar_id r = ar_id row) f (approval_requests s)\<rparr>)"

lemma approval_inv_decide:
  assumes inv: "approval_inv s" and row: "row \<in> set (approval_requests s)"
    and step: "approval_step row (f row)"
  shows "approval_inv (decide clk row f et actor c s)"
proof -
  let ?t = "approval_requests s" and ?u = "update_where (\<lambda>r. ar_id r = ar_id row) f (approval_requests s)"
  note facts = approval_step_facts [OF step]
  have d: "distinct (map ar_id ?t)" using inv by (rule approval_inv_rowsD)
  have su: "set ?u = insert (f row) (set ?t - {row})" using d row by (rule set_update_id)
  have other: "ar_id r \<noteq> ar_id row" if "r \<in> set ?t - {row}" for r
    using that row distinct_key_unique [OF d] by blast
  have wf: "wf_ids ar_id (approval_seq s) ?u"
    using approval_inv_rowsD(1) [OF inv] by (rule wf_ids_update)
      (use d row distinct_key_unique facts(1) in \<open>metis\<close>)
  have rows: "\<forall>r \<in> set ?u. approval_row_ok r"
    using inv row facts(4) by (auto simp: su approval_inv_def)
  have clash: "\<not> active_clash r r'" if "r \<in> set ?u" "r' \<in> set ?u" "ar_id r \<noteq> ar_id r'" for r r'
  proof -
    let ?b = "\<lambda>x. if x = f row then row else x"
    have mem: "?b x \<in> set ?t" if "x \<in> set ?u" for x using that row by (auto simp: su)
    have idb: "ar_id (?b x) = ar_id x" for x using facts(1) by simp
    have "\<not> active_clash (?b r) (?b r')"
      using approval_inv_clashD [OF inv mem [OF that(1)] mem [OF that(2)]] that(3) by (simp add: idb)
    moreover have "active_clash (?b r) (?b r')" if "active_clash r r'"
      using that facts(5) facts(6) by auto
    ultimately show ?thesis by blast
  qed
  have ev: "trail (ar_id row) (approval_request_events s) = [(None, APending)]"
    using inv row facts(2) by (auto simp: approval_inv_def expected_trail_def)
  have trails: "trail (ar_id r) (approval_request_events (decide clk row f et actor c s)) = expected_trail r"
    if "r \<in> set ?u" for r
  proof (cases "r = f row")
    case True
    then show ?thesis using facts(1,3) ev by (simp add: decide_def expected_trail_def)
  next
    case False
    with that have r: "r \<in> set ?t" "ar_id r \<noteq> ar_id row" using other by (auto simp: su)
    then show ?thesis using approval_inv_trailD [OF inv r(1)] by (simp add: decide_def)
  qed
  have "ar_id row < approval_seq s"
    using approval_inv_rowsD(1) [OF inv] row by (simp add: wf_ids_def)
  then show ?thesis
    using wf rows clash trails inv unfolding approval_inv_def by (simp add: decide_def)
qed

text \<open>A change of the tables that keeps the invariant and moves requests only along their life
  cycle.\<close>

definition approval_safe :: "approval_db \<Rightarrow> approval_db \<Rightarrow> bool" where
  "approval_safe s s' \<longleftrightarrow>
     approval_inv s' \<and> evolves ar_id approval_step (approval_requests s) (approval_requests s')"

lemma approval_safe_refl: "approval_inv s \<Longrightarrow> approval_safe s s"
  by (simp add: approval_safe_def approvals.evolves_refl)

lemma approval_safe_trans: "approval_safe s s' \<Longrightarrow> approval_safe s' s'' \<Longrightarrow> approval_safe s s''"
  by (auto simp: approval_safe_def intro: approvals.evolves_trans)

lemma approval_safe_decide:
  assumes "approval_inv s" "row \<in> set (approval_requests s)" "approval_step row (f row)"
  shows "approval_safe s (write_audit_event e a u p n c' (decide clk row f et actor c s))"
proof -
  have d: "distinct (map ar_id (approval_requests s))" using assms(1) by (rule approval_inv_rowsD)
  have "\<forall>r \<in> set (approval_requests s). ar_id r = ar_id row \<longrightarrow> approval_step r (f r)"
    using distinct_key_unique [OF d _ assms(2)] assms(3) by blast
  then have "evolves ar_id approval_step (approval_requests s) (approval_requests (decide clk row f et actor c s))"
    by (simp add: decide_def approvals.evolves_update)
  then show ?thesis using approval_inv_decide [where f = f, OF assms] by (simp add: approval_safe_def)
qed

lemma materialize_expiration_eq:
  assumes "approval_inv s" "row \<in> set (approval_requests s)" "ar_status row = APending"
  shows "materialize_expiration clk row now s =
    (Inr (set_expired now row),
     write_audit_event ''approval_request_expired'' None (set_expired now row) (Some APending) AExpired
       (Some ''approval request expired'')
       (decide clk row (set_expired now) ''expired'' None (Some ''approval request expired'') s))"
  using assms returning_id [OF approval_inv_rowsD(2) [OF assms(1)] assms(2)]
  by (simp add: materialize_expiration_def fetchone_def decide_def set_expired_def)

lemma materialize_expiration_safe:
  assumes "approval_inv s" "row \<in> set (approval_requests s)" "ar_expires_at row \<le> now"
  shows "approval_safe s (snd (materialize_expiration clk row now s))"
proof (cases "ar_status row = APending")
  case True
  show ?thesis unfolding materialize_expiration_eq [OF assms(1,2) True] snd_conv
    using assms(1,2) by (rule approval_safe_decide) (use True assms(3) in \<open>auto intro: step_expire\<close>)
next
  case False
  then show ?thesis using assms(1) by (simp add: materialize_expiration_def approval_safe_refl)
qed

subsection \<open>What each operation does\<close>

text \<open>Approving and denying, on every branch.\<close>

lemma approve_request_ok:
  assumes "approval_inv s" "select_id ar_id i (approval_requests s) = Some row"
    "ar_status row = APending" "coalesce now (utc_now clk) < ar_expires_at row"
  shows "approve_request clk i a c now s =
    (Inr (set_approved a (coalesce now (utc_now clk)) c row),
     write_audit_event ''approval_request_approved'' (Some a)
       (set_approved a (coalesce now (utc_now clk)) c row) (Some APending) AApproved c
       (decide clk row (set_approved a (coalesce now (utc_now clk)) c) ''approved'' (Some a) c s))"
proof -
  have row: "row \<in> set (approval_requests s)" "ar_id row = i"
    using select_id_Some [OF assms(2)] by auto
  show ?thesis
    using assms(2-4) returning_id [OF approval_inv_rowsD(2) [OF assms(1)] row(1)]
    by (simp add: approve_request_def row(2) fetchone_def decide_def set_approved_def Let_def)
qed

lemma deny_request_ok:
  assumes "approval_inv s" "select_id ar_id i (approval_requests s) = Some row"
    "ar_status row = APending" "coalesce now (utc_now clk) < ar_expires_at row"
  shows "deny_request clk i a c now s =
    (Inr (set_denied a (coalesce now (utc_now clk)) c row),
     write_audit_event ''approval_request_denied'' (Some a)
       (set_denied a (coalesce now (utc_now clk)) c row) (Some APending) ADenied c
       (decide clk row (set_denied a (coalesce now (utc_now clk)) c) ''denied'' (Some a) c s))"
proof -
  have row: "row \<in> set (approval_requests s)" "ar_id row = i"
    using select_id_Some [OF assms(2)] by auto
  show ?thesis
    using assms(2-4) returning_id [OF approval_inv_rowsD(2) [OF assms(1)] row(1)]
    by (simp add: deny_request_def row(2) fetchone_def decide_def set_denied_def Let_def)
qed

lemma decision_late:
  assumes "approval_inv s" "select_id ar_id i (approval_requests s) = Some row"
    "ar_status row = APending" "ar_expires_at row \<le> coalesce now (utc_now clk)"
  shows "approve_request clk i a c now s =
      (Inl (ValueError ''approval request expired''), snd (materialize_expiration clk row (coalesce now (utc_now clk)) s))"
    and "deny_request clk i a c now s =
      (Inl (ValueError ''approval request expired''), snd (materialize_expiration clk row (coalesce now (utc_now clk)) s))"
  using assms select_id_Some [OF assms(2)]
  by (simp_all add: approve_request_def deny_request_def materialize_expiration_eq Let_def)

lemma decision_safe:
  assumes inv: "approval_inv s"
  shows "approval_safe s (snd (approve_request clk i a c now s))"
    and "approval_safe s (snd (deny_request clk i a c now s))"
proof -
  let ?t = "coalesce now (utc_now clk)"
  consider (none) "select_id ar_id i (approval_requests s) = None"
    | (decided) row where "select_id ar_id i (approval_requests s) = Some row" "ar_status row \<noteq> APending"
    | (late) row where "select_id ar_id i (approval_requests s) = Some row" "ar_status row = APending"
        "ar_expires_at row \<le> ?t"
    | (ok) row where "select_id ar_id i (approval_requests s) = Some row" "ar_status row = APending"
        "?t < ar_expires_at row"
    using not_le by (cases "select_id ar_id i (approval_requests s)") blast+
  then show "approval_safe s (snd (approve_request clk i a c now s))"
    and "approval_safe s (snd (deny_request clk i a c now s))"
  proof (atomize (full), cases)
    case (ok row)
    have row: "row \<in> set (approval_requests s)" using select_id_Some [OF ok(1)] by auto
    show "approval_safe s (snd (approve_request clk i a c now s)) \<and>
        approval_safe s (snd (deny_request clk i a c now s))"
      unfolding approve_request_ok [OF inv ok] deny_request_ok [OF inv ok] snd_conv
      by (intro conjI approval_safe_decide [OF inv row] step_approve step_deny ok)
  next
    case (late row)
    have row: "row \<in> set (approval_requests s)" using select_id_Some [OF late(1)] by auto
    show "approval_safe s (snd (approve_request clk i a c now s)) \<and>
        approval_safe s (snd (deny_request clk i a c now s))"
      unfolding decision_late [OF inv late] snd_conv
      using materialize_expiration_safe [OF inv row late(3)] by blast
  qed (simp_all add: approve_request_def deny_request_def approval_safe_refl [OF inv] Let_def)
qed

text \<open>Inserting a request with the next id and no active rival.\<close>

lemma new_request_simps [simp]:
  "ar_id (new_request clk a i) = i" "ar_status (new_request clk a i) = APending"
  "ar_risk_level (new_request clk a i) = aa_risk_level a"
  "ar_action (new_request clk a i) = strip (aa_action a)"
  "ar_queue_id (new_request clk a i) = aa_queue_id a"
  by (simp_all add: new_request_def)

lemma active_clash_sym: "active_clash r r' \<Longrightarrow> active_clash r' r"
  by (auto simp: active_clash_def)

lemma approval_inv_insert:
  assumes inv: "approval_inv s" and idr: "ar_id r = approval_seq s" and p: "ar_status r = APending"
    and row: "approval_row_ok r" and clash: "\<forall>r' \<in> set (approval_requests s). \<not> active_clash r r'"
  shows "approval_inv (insert_event clk (ar_id r) et act None APending c
    (s\<lparr>approval_seq := approval_seq s + 1, approval_requests := approval_requests s @ [r]\<rparr>))"
proof -
  have wf: "wf_ids ar_id (approval_seq s + 1) (approval_requests s @ [r])"
    using wf_ids_insert [OF approval_inv_rowsD(1) [OF inv] idr] .
  have old: "ar_id r' \<noteq> approval_seq s" if "r' \<in> set (approval_requests s)" for r'
    using approval_inv_rowsD(1) [OF inv] that by (auto simp: wf_ids_def)
  have tr: "trail (approval_seq s) (approval_request_events s) = []"
    using inv by (intro trail_none) (auto simp: approval_inv_def)
  have ev: "ae_approval_request_id e < approval_seq s + 1" if "e \<in> set (approval_request_events s)" for e
    using inv that by (force simp: approval_inv_def)
  show ?thesis
    using inv wf row clash old tr ev idr p active_clash_sym
    unfolding approval_inv_def by (auto simp: expected_trail_def)
qed

definition create_accepts :: "clock \<Rightarrow> approval_args \<Rightarrow> approval_db \<Rightarrow> bool" where
  "create_accepts clk a s \<longleftrightarrow>
     (aa_incident_id a \<noteq> None \<or> aa_queue_id a \<noteq> None \<or> aa_playbook_execution_id a \<noteq> None) \<and>
     strip (aa_action a) \<noteq> [] \<and> risk_level_ok (aa_risk_level a) \<and>
     (\<forall>r' \<in> set (approval_requests s). \<not> active_clash (new_request clk a (approval_seq s)) r')"

lemma create_approval_request_ok:
  assumes "create_accepts clk a s"
  shows "create_approval_request clk a s =
    (Inr (new_request clk a (approval_seq s)),
     write_audit_event ''approval_request_created'' (aa_requested_by a)
       (new_request clk a (approval_seq s)) None APending (aa_request_reason a)
       (insert_event clk (approval_seq s) ''created'' (aa_requested_by a) None APending
          (aa_request_reason a)
          (s\<lparr>approval_seq := approval_seq s + 1,
             approval_requests := approval_requests s @ [new_request clk a (approval_seq s)]\<rparr>)))"
  using assms by (auto simp: create_approval_request_def create_accepts_def Let_def)

lemma create_approval_request_rejected:
  assumes "\<not> create_accepts clk a s"
  shows "\<exists>e. fst (create_approval_request clk a s) = Inl e"
    and "snd (create_approval_request clk a s) = s \<or>
         snd (create_approval_request clk a s) = s\<lparr>approval_seq := approval_seq s + 1\<rparr>"
  using assms unfolding create_approval_request_def create_accepts_def Let_def new_request_simps
  by (auto split: if_splits)

lemma approval_inv_bump: "approval_inv s \<Longrightarrow> approval_inv (s\<lparr>approval_seq := approval_seq s + 1\<rparr>)"
  by (auto simp: approval_inv_def wf_ids_def)

lemma create_approval_request_safe:
  assumes inv: "approval_inv s"
  shows "approval_safe s (snd (create_approval_request clk a s))"
proof (cases "create_accepts clk a s")
  case True
  then have "approval_row_ok (new_request clk a (approval_seq s))"
    by (auto simp: approval_row_ok_def new_request_def create_accepts_def)
  from approval_inv_insert [OF inv _ _ this] True show ?thesis
    unfolding create_approval_request_ok [OF True] snd_conv approval_safe_def approval_inv_audit
    by (simp add: approvals.evolves_insert create_accepts_def)
next
  case False
  from create_approval_request_rejected(2) [OF this] show ?thesis
    using approval_inv_bump [OF inv] inv by (auto simp: approval_safe_def approvals.evolves_refl)
qed

text \<open>Expiring a batch: every selected row is expired, and nothing else changes.\<close>

lemma expire_rows_eq:
  assumes "approval_inv s" "set rows \<subseteq> set (approval_requests s)" "distinct (map ar_id rows)"
    "\<forall>row \<in> set rows. ar_status row = APending \<and> ar_expires_at row \<le> now"
  shows "fst (expire_rows clk now rows s) = Inr (map (set_expired now) rows)"
    and "approval_safe s (snd (expire_rows clk now rows s))"
    and "approval_requests (snd (expire_rows clk now rows s)) =
      update_where (\<lambda>r. ar_id r \<in> ar_id ` set rows) (set_expired now) (approval_requests s)"
  using assms
proof (atomize (full), induction rows arbitrary: s)
  case Nil
  then show ?case by (simp add: approval_safe_refl update_where_none)
next
  case (Cons row rows)
  define s' where "s' = snd (materialize_expiration clk row now s)"
  have row: "row \<in> set (approval_requests s)" "ar_status row = APending" "ar_expires_at row \<le> now"
    using Cons.prems by auto
  note eq = materialize_expiration_eq [OF Cons.prems(1) row(1,2), of clk now]
  have safe: "approval_safe s s'"
    using materialize_expiration_safe [OF Cons.prems(1) row(1,3)] by (simp add: s'_def)
  have tab: "approval_requests s' = update_where (\<lambda>r. ar_id r = ar_id row) (set_expired now) (approval_requests s)"
    by (simp add: s'_def eq decide_def)
  have sub: "set rows \<subseteq> set (approval_requests s')"
  proof
    fix r assume "r \<in> set rows"
    then have "r \<in> set (approval_requests s)" "ar_id r \<noteq> ar_id row"
      using Cons.prems(2,3) by (auto simp: image_iff)
    then show "r \<in> set (approval_requests s')" by (simp add: tab set_update_where)
  qed
  have inv': "approval_inv s'" using safe by (simp add: approval_safe_def)
  have IH: "fst (expire_rows clk now rows s') = Inr (map (set_expired now) rows)"
    "approval_safe s' (snd (expire_rows clk now rows s'))"
    "approval_requests (snd (expire_rows clk now rows s')) =
       update_where (\<lambda>r. ar_id r \<in> ar_id ` set rows) (set_expired now) (approval_requests s')"
    using Cons.IH [OF inv' sub] Cons.prems(3,4) by simp_all
  have step: "expire_rows clk now (row # rows) s =
      (Inr (set_expired now row # map (set_expired now) rows), snd (expire_rows clk now rows s'))"
    using IH(1) by (cases "expire_rows clk now rows s'") (simp add: eq s'_def)
  have "update_where (\<lambda>r. ar_id r \<in> ar_id ` set rows) (set_expired now) (approval_requests s') =
      update_where (\<lambda>r. ar_id r \<in> ar_id ` set (row # rows)) (set_expired now) (approval_requests s)"
    using Cons.prems(3) unfolding tab update_where_def
    by (simp add: set_expired_def)
  then show ?case unfolding step fst_conv snd_conv
    using IH(2,3) approval_safe_trans [OF safe] by simp
qed

lemma expirable_rows:
  assumes "approval_inv s"
  shows "set (expirable locked t cap (approval_requests s)) \<subseteq> set (approval_requests s)"
    and "distinct (map ar_id (expirable locked t cap (approval_requests s)))"
    and "\<forall>row \<in> set (expirable locked t cap (approval_requests s)).
           ar_status row = APending \<and> ar_expires_at row \<le> t"
proof -
  show "distinct (map ar_id (expirable locked t cap (approval_requests s)))"
    unfolding expirable_def by (intro distinct_selection approval_inv_rowsD(2) [OF assms])
qed (use set_limit_subset in \<open>fastforce simp: expirable_def\<close>)+

lemma expire_pending_requests_safe:
  "approval_inv s \<Longrightarrow> approval_safe s (snd (expire_pending_requests locked clk now lim s))"
  unfolding expire_pending_requests_def Let_def
  by (intro expire_rows_eq(2) expirable_rows) auto

lemma get_latest_step_safe:
  assumes inv: "approval_inv s"
  shows "approval_safe s (snd (get_latest_playbook_step_approval_request clk e i m now s))"
proof -
  let ?t = "filter (\<lambda>r. ar_playbook_execution_id r = Some e \<and> ar_playbook_step_index r = Some i)
    (approval_requests s)"
  show ?thesis
  proof (cases "fetchone (newest_first ?t)")
    case None
    then show ?thesis using inv
      by (simp add: get_latest_playbook_step_approval_request_def approval_safe_refl Let_def)
  next
    case (Some row)
    have row: "row \<in> set (approval_requests s)"
      using fetchone_mem [OF Some] by (simp add: newest_first_def)
    show ?thesis
      using Some inv materialize_expiration_safe [OF inv row] materialize_expiration_eq [OF inv row]
      by (auto simp: get_latest_playbook_step_approval_request_def approval_safe_refl Let_def)
  qed
qed

lemma get_active_step_state:
  "snd (get_active_playbook_step_approval_request clk e i s) = s"
  by (auto simp: get_active_playbook_step_approval_request_def
      get_latest_playbook_step_approval_request_def Let_def split: option.splits)

lemma create_step_safe:
  assumes inv: "approval_inv s"
  shows "approval_safe s (snd (create_playbook_step_approval_request clk e i act rb rr rl ea ttl s))"
  using get_active_step_state [of clk e i s] create_approval_request_safe [OF inv] approval_safe_refl [OF inv]
  by (auto simp: create_playbook_step_approval_request_def split: prod.splits sum.splits option.splits)

lemma materialize_seq: "approval_seq (snd (materialize_expiration clk row t s)) = approval_seq s"
  by (auto simp: materialize_expiration_def Let_def split: option.splits)

lemma decision_seq:
  "approval_seq (snd (approve_request clk i a c now s)) = approval_seq s"
  "approval_seq (snd (deny_request clk i a c now s)) = approval_seq s"
  by (simp_all add: approve_request_def deny_request_def Let_def materialize_seq
      del: py_bind.simps split: option.splits)

lemma rollback_safe:
  assumes "approval_inv s" "approval_seq s' = approval_seq s"
  shows "approval_safe s (rollback s s')"
  using assms by (simp add: approval_safe_def approval_inv_def rollback_def approvals.evolves_refl)

lemma decision_route_safe:
  assumes inv: "approval_inv s"
  shows "approval_safe s (snd (decision_approval_route clk i a d c s))"
proof -
  have *: "approval_safe s (snd (case r of (Inr updated, s') \<Rightarrow> (HttpApproval 200 updated, s')
        | (Inl (ValueError m), s') \<Rightarrow>
            (if m = ''approval request not found'' then HttpError 404 m else HttpError 400 m, rollback s s')
        | (Inl _, s') \<Rightarrow> (HttpError 500 ''Internal server error'', rollback s s')))"
    if "approval_safe s (snd r)" "approval_seq (snd r) = approval_seq s" for r
    using that rollback_safe [OF inv] by (auto split: prod.splits sum.splits py_error.splits)
  show ?thesis
    using *[OF decision_safe(1) [OF inv] decision_seq(1)]
      *[OF decision_safe(2) [OF inv] decision_seq(2)] approval_safe_refl [OF inv]
    unfolding decision_approval_route_def Let_def by (simp split: option.splits)
qed

subsection \<open>Reachable states\<close>

inductive approval_op :: "approval_db \<Rightarrow> approval_db \<Rightarrow> bool" where
  op_create: "approval_op s (snd (create_approval_request clk a s))"
| op_create_step:
    "approval_op s (snd (create_playbook_step_approval_request clk e i act rb rr rl ea ttl s))"
| op_latest_step: "approval_op s (snd (get_latest_playbook_step_approval_request clk e i m now s))"
| op_approve: "approval_op s (snd (approve_request clk i a c now s))"
| op_deny: "approval_op s (snd (deny_request clk i a c now s))"
| op_expire: "approval_op s (snd (expire_pending_requests locked clk now lim s))"
| op_route: "approval_op s (snd (decision_approval_route clk i a d c s))"

definition approval_init :: "bool \<Rightarrow> approval_db" where
  "approval_init up =
     \<lparr>approval_requests = [], approval_seq = 1, approval_request_events = [],
      approval_event_seq = 1, audit_log = [], audit_up = up\<rparr>"

lemma approval_inv_init: "approval_inv (approval_init up)"
  by (simp add: approval_inv_def approval_init_def)

lemma approval_op_safe: "approval_op s s' \<Longrightarrow> approval_inv s \<Longrightarrow> approval_safe s s'"
  by (induction rule: approval_op.induct)
    (simp_all add: create_approval_request_safe create_step_safe get_latest_step_safe decision_safe
      expire_pending_requests_safe decision_route_safe)

interpretation approval_ops: store_ops approval_op approval_inv
  "\<lambda>s s'. evolves ar_id approval_step (approval_requests s) (approval_requests s')"
  by unfold_locales
    (auto dest: approval_op_safe simp: approval_safe_def approvals.evolves_refl intro: approvals.evolves_trans)

lemma approval_ops_safe: "approval_op\<^sup>*\<^sup>* s s' \<Longrightarrow> approval_inv s \<Longrightarrow> approval_safe s s'"
  unfolding approval_safe_def by (rule approval_ops.ops_safe)

subsection \<open>Properties\<close>

text \<open>C6: In every state the operations can reach, the approval tables are well formed: ids are
  distinct and below the sequence, the row checks hold, no two active requests clash, and every
  request's event trail is its creation followed by at most one decision.\<close>

theorem approval_tables_invariant:
  assumes "approval_op\<^sup>*\<^sup>* (approval_init up) s"
  shows "approval_inv s"
  using approval_ops_safe [OF assms approval_inv_init] by (simp add: approval_safe_def)

text \<open>C4: A decided request is final: whatever operations run afterwards, in any order, its row
  is still there under its id with every column unchanged.\<close>

theorem decided_request_frozen:
  assumes "approval_inv s" "approval_op\<^sup>*\<^sup>* s s'"
    and "r \<in> set (approval_requests s)" "ar_status r \<noteq> APending"
  shows "select_id ar_id (ar_id r) (approval_requests s') = Some r"
proof -
  have safe: "approval_safe s s'" using assms(2,1) by (rule approval_ops_safe)
  then have "wf_ids ar_id (approval_seq s') (approval_requests s')"
    by (simp add: approval_safe_def approval_inv_def)
  with safe assms(3,4) show ?thesis
    unfolding approval_safe_def by (auto intro: approvals.final_selected)
qed

text \<open>C5: No request is ever approved at or after its expiry, or by nobody: an approved request
  of a reachable state has an approver and a decision time strictly before its expiry, and its
  trail shows the approval exactly once.\<close>

theorem approved_before_expiry:
  assumes "approval_op\<^sup>*\<^sup>* (approval_init up) s"
    and "r \<in> set (approval_requests s)" "ar_status r = AApproved"
  shows "\<exists>who t. ar_approved_by r = Some who \<and> ar_decided_at r = Some t \<and> t < ar_expires_at r \<and>
    trail (ar_id r) (approval_request_events s) = [(None, APending), (Some APending, AApproved)]"
proof -
  have inv: "approval_inv s"
    using approval_ops_safe [OF assms(1) approval_inv_init] by (simp add: approval_safe_def)
  show ?thesis
    using approval_inv_rowsD(3) [OF inv assms(2)] approval_inv_trailD [OF inv assms(2)] assms(3)
    by (auto simp: approval_row_ok_def expected_trail_def)
qed

text \<open>\<open>expire_pending_requests\<close> expires at most 100 requests, each of them pending and due,
  and takes the longest overdue first: an unlocked request that was due and is still pending
  afterwards is one the limit left out, no less recent than any that was expired.\<close>

theorem expire_pending_oldest_first:
  assumes inv: "approval_inv s"
    and run: "expire_pending_requests locked clk now lim s = (res, s')"
  shows "\<exists>xs. res = Inr (map (set_expired (coalesce now (utc_now clk))) xs) \<and>
      length xs \<le> nat (min (max lim 0) 100) \<and>
      (\<forall>x \<in> set xs. ar_status x = APending \<and> ar_expires_at x \<le> coalesce now (utc_now clk)) \<and>
      (\<forall>r \<in> set (approval_requests s'). ar_status r = APending \<longrightarrow>
         ar_expires_at r \<le> coalesce now (utc_now clk) \<longrightarrow> \<not> locked (ar_id r) \<longrightarrow>
         length xs = nat (min (max lim 0) 100) \<and>
         (\<forall>x \<in> set xs. (ar_expires_at x, ar_id x) \<le> (ar_expires_at r, ar_id r)))"
proof -
  let ?t = "coalesce now (utc_now clk)" and ?cap = "min (max lim 0) 100"
  define due where "due = filter (\<lambda>r. \<not> locked (ar_id r)) (order_asc (\<lambda>r. (ar_expires_at r, ar_id r))
    (filter (\<lambda>r. ar_status r = APending \<and> ar_expires_at r \<le> ?t) (approval_requests s)))"
  define xs where "xs = expirable locked ?t ?cap (approval_requests s)"
  have xs: "xs = limit ?cap due" by (simp add: xs_def due_def expirable_def)
  note rows = expirable_rows [OF inv, of locked ?t ?cap]
  note eq = expire_rows_eq [OF inv rows, of clk]
  have run': "res = Inr (map (set_expired ?t) xs)"
    "approval_requests s' = update_where (\<lambda>r. ar_id r \<in> ar_id ` set xs) (set_expired ?t) (approval_requests s)"
    using run eq(1,3) by (auto simp: expire_pending_requests_def Let_def xs_def)
  have sorted: "sorted (map (\<lambda>r. (ar_expires_at r, ar_id r)) due)"
    unfolding due_def order_asc_def by (intro sorted_filter) simp
  have left: "length xs = nat ?cap \<and> (\<forall>x \<in> set xs. (ar_expires_at x, ar_id x) \<le> (ar_expires_at r, ar_id r))"
    if r: "r \<in> set (approval_requests s')" "ar_status r = APending" "ar_expires_at r \<le> ?t" "\<not> locked (ar_id r)" for r
  proof -
    have "r \<in> set (approval_requests s)" "r \<notin> set xs"
      using r(1,2) by (auto simp: run'(2) set_update_where set_expired_def)
    then have "r \<in> set due" using r(2-4) by (simp add: due_def)
    from limit_sorted_rest [OF sorted this] \<open>r \<notin> set xs\<close> show ?thesis by (simp add: xs)
  qed
  have "length xs \<le> nat ?cap" unfolding xs by (rule length_limit)
  with run'(1) left rows(3) show ?thesis unfolding xs_def [symmetric] by blast
qed


text \<open>The request just created is the newest of its step when no older row has a later time.\<close>

lemma newest_first_new:
  assumes "approval_inv s" "\<forall>r \<in> set (approval_requests s). ar_created_at r \<le> ar_created_at n"
    and "ar_id n = approval_seq s" "P n"
  shows "fetchone (newest_first (filter P (approval_requests s @ [n]))) = Some n"
proof -
  let ?t = "filter P (approval_requests s @ [n])"
  obtain m where m: "fetchone (newest_first ?t) = Some m"
    using fetchone_order_None(2) assms(4) by (cases "fetchone (newest_first ?t)") (auto simp: newest_first_def)
  have mt: "m \<in> set ?t" and max: "\<forall>r \<in> set ?t. (ar_created_at r, ar_id r) \<le> (ar_created_at m, ar_id m)"
    using m unfolding newest_first_def by (rule fetchone_order_desc)+
  have "m = n"
  proof (rule ccontr)
    assume "m \<noteq> n"
    with mt have old: "m \<in> set (approval_requests s)" by (simp split: if_splits)
    then have "ar_id m < ar_id n"
      using approval_inv_rowsD(1) [OF assms(1)] by (simp add: wf_ids_def assms(3))
    moreover have "(ar_created_at n, ar_id n) \<le> (ar_created_at m, ar_id m)" using max assms(4) by auto
    ultimately show False using assms(2) old by (force simp: less_eq_prod_def)
  qed
  with m show ?thesis by simp
qed

text \<open>Asking again for the approval of a playbook step returns the request already open and
  writes nothing, so a step has one request however often the executor asks. The clock is
  assumed not to run behind the rows already there.\<close>

theorem step_approval_requested_once:
  assumes inv: "approval_inv s"
    and clock: "\<forall>r \<in> set (approval_requests s). ar_created_at r \<le> sql_now clk"
    and first: "create_playbook_step_approval_request clk e i act rb rr rl ea ttl s = (Inr r, s')"
  shows "create_playbook_step_approval_request clk' e i act' rb' rr' rl' ea' ttl' s' = (Inr r, s')"
proof -
  let ?P = "\<lambda>r. ar_playbook_execution_id r = Some e \<and> ar_playbook_step_index r = Some i"
  have hit: "create_playbook_step_approval_request clk' e i act' rb' rr' rl' ea' ttl' u = (Inr x, u)"
    if "fetchone (newest_first (filter ?P (approval_requests u))) = Some x" "approval_active x"
    for u x clk' act' rb' rr' rl' ea' ttl'
    using that by (simp add: create_playbook_step_approval_request_def
        get_active_playbook_step_approval_request_def get_latest_playbook_step_approval_request_def)
  show ?thesis
  proof (cases "\<exists>x. fetchone (newest_first (filter ?P (approval_requests s))) = Some x \<and> approval_active x")
    case True
    then obtain x where x: "fetchone (newest_first (filter ?P (approval_requests s))) = Some x"
      "approval_active x" by blast
    with first hit [OF x] show ?thesis by auto
  next
    case False
    define a where "a = \<lparr>aa_incident_id = None, aa_queue_id = None, aa_playbook_execution_id = Some e,
      aa_playbook_step_index = Some i, aa_action = act, aa_requested_by = rb, aa_request_reason = rr,
      aa_risk_level = rl, aa_expires_at = ea, aa_ttl_minutes = ttl\<rparr>"
    let ?n = "new_request clk a (approval_seq s)"
    have c: "create_approval_request clk a s = (Inr r, s')"
      using first False
      by (cases "fetchone (newest_first (filter ?P (approval_requests s)))")
        (auto simp: create_playbook_step_approval_request_def a_def Let_def
          get_active_playbook_step_approval_request_def get_latest_playbook_step_approval_request_def)
    then have "create_accepts clk a s" using create_approval_request_rejected(1) [of clk a s] by force
    from create_approval_request_ok [OF this] c have n: "r = ?n" "approval_requests s' = approval_requests s @ [?n]"
      by auto
    have "fetchone (newest_first (filter ?P (approval_requests s @ [?n]))) = Some ?n"
      using inv by (rule newest_first_new) (use clock in \<open>simp_all add: new_request_def a_def\<close>)
    with n show ?thesis by (intro hit) (simp_all add: approval_active_def)
  qed
qed

subsection \<open>Witnesses\<close>

text \<open>A run: a request for queue row 1 is created at time 0 with the default life time and
  approved one minute later; a second request, for step 2 of playbook execution 5, stays open.\<close>

definition wit_clock :: "time \<Rightarrow> clock" where
  "wit_clock t = \<lparr>utc_now = t, sql_now = t\<rparr>"

definition wit_args :: approval_args where
  "wit_args = \<lparr>aa_incident_id = None, aa_queue_id = Some 1, aa_playbook_execution_id = None,
     aa_playbook_step_index = None, aa_action = ''block_ip'', aa_requested_by = None,
     aa_request_reason = Some ''risk'', aa_risk_level = ''high'', aa_expires_at = None,
     aa_ttl_minutes = DEFAULT_APPROVAL_TTL_MINUTES\<rparr>"

definition wit_created :: approval_db where
  "wit_created = snd (create_approval_request (wit_clock 0) wit_args (approval_init True))"

definition wit_approved :: approval_db where
  "wit_approved = snd (approve_request (wit_clock (minutes 1)) 1 7 None None wit_created)"

definition wit_step :: "(py_error + approval_request) \<times> approval_db" where
  "wit_step = create_playbook_step_approval_request (wit_clock (minutes 2)) 5 2 ''playbook.require_approval''
     None None ''high'' None 60 wit_approved"

lemma wit_created_reach: "approval_op\<^sup>*\<^sup>* (approval_init True) wit_created"
  unfolding wit_created_def by (rule r_into_rtranclp, rule op_create)

lemma wit_approved_op: "approval_op wit_created wit_approved"
  unfolding wit_approved_def by (rule op_approve)

lemma wit_approved_reach: "approval_op\<^sup>*\<^sup>* (approval_init True) wit_approved"
  using wit_created_reach wit_approved_op by (rule rtranclp.rtrancl_into_rtrancl)

lemma wit_inv: "approval_inv wit_created" "approval_inv wit_approved"
  using approval_ops_safe [OF wit_created_reach approval_inv_init]
    approval_ops_safe [OF wit_approved_reach approval_inv_init] by (simp_all add: approval_safe_def)

lemma wit_row:
  "select_id ar_id 1 (approval_requests wit_created) = Some (new_request (wit_clock 0) wit_args 1)"
  by code_simp

lemma wit_approved_row:
  "approval_requests wit_approved =
     [set_approved 7 (minutes 1) None (new_request (wit_clock 0) wit_args 1)]"
  by code_simp

theorem approval_tables_invariant_witness: "approval_inv wit_approved \<and> approval_requests wit_approved \<noteq> []"
  using approval_tables_invariant [OF wit_approved_reach] by (simp add: wit_approved_row)

theorem decided_request_frozen_witness:
  "select_id ar_id 1 (approval_requests (snd (deny_request (wit_clock (minutes 3)) 1 8 None None wit_approved))) =
     Some (set_approved 7 (minutes 1) None (new_request (wit_clock 0) wit_args 1))"
proof -
  let ?r = "set_approved 7 (minutes 1) None (new_request (wit_clock 0) wit_args 1)"
  have r: "?r \<in> set (approval_requests wit_approved)" "ar_status ?r \<noteq> APending" "ar_id ?r = 1"
    by (simp_all add: wit_approved_row set_approved_def)
  show ?thesis
    using decided_request_frozen [OF wit_inv(2) r_into_rtranclp [of approval_op, OF op_deny] r(1,2)]
    unfolding r(3) by blast
qed

theorem approved_before_expiry_witness:
  "\<exists>who t. ar_approved_by (set_approved 7 (minutes 1) None (new_request (wit_clock 0) wit_args 1)) = Some who \<and>
     ar_decided_at (set_approved 7 (minutes 1) None (new_request (wit_clock 0) wit_args 1)) = Some t \<and>
     t < minutes 60"
proof -
  let ?r = "set_approved 7 (minutes 1) None (new_request (wit_clock 0) wit_args 1)"
  have r: "?r \<in> set (approval_requests wit_approved)" "ar_status ?r = AApproved" "ar_expires_at ?r = minutes 60"
    by (simp_all add: wit_approved_row set_approved_def new_request_def wit_args_def wit_clock_def
        DEFAULT_APPROVAL_TTL_MINUTES_def)
  show ?thesis using approved_before_expiry [OF wit_approved_reach r(1,2)] unfolding r(3) by blast
qed

theorem expire_pending_oldest_first_witness:
  "\<exists>xs. fst (expire_pending_requests (\<lambda>_. False) (wit_clock (minutes 61)) None 100 wit_created) =
     Inr (map (set_expired (minutes 61)) xs) \<and> length xs \<le> 100"
  using expire_pending_oldest_first [OF wit_inv(1) prod.collapse [symmetric],
      of "\<lambda>_. False" "wit_clock (minutes 61)" None 100]
  by (auto simp: wit_clock_def)


theorem step_approval_requested_once_witness:
  "\<exists>r. wit_step = (Inr r, snd wit_step) \<and>
     create_playbook_step_approval_request (wit_clock (minutes 9)) 5 2 ''x'' None None ''high'' None 60 (snd wit_step) =
     (Inr r, snd wit_step)"
proof -
  have c: "\<forall>r \<in> set (approval_requests wit_approved). ar_created_at r \<le> sql_now (wit_clock (minutes 2))"
    by (simp add: wit_approved_row set_approved_def new_request_def wit_clock_def)
  obtain r where "wit_step = (Inr r, snd wit_step)"
  proof -
    have "\<not> isl (fst wit_step)" by code_simp
    then obtain r where "fst wit_step = Inr r" by (cases "fst wit_step") auto
    then show ?thesis using that by (metis prod.collapse)
  qed
  then show ?thesis
    using step_approval_requested_once [OF wit_inv(2) c, of 5 2 "''playbook.require_approval''" None None "''high''" None 60 r "snd wit_step"]
    unfolding wit_step_def by blast
qed

end
