(* ===== verification/Action_Vocabulary.thy ===== *)
theory Action_Vocabulary
  imports Prelude
begin

text \<open>
  \<open>core/canonical_action_vocabulary.py\<close>: the one table of response actions, with its aliases,
  and the validators that decide which action may be enqueued, used in a playbook or run as a
  response command. Shown here: what each validator accepts, returns and refuses, exactly.
\<close>

subsection \<open>The table\<close>

abbreviation OWNER_RESPONSE_COMMAND :: string where "OWNER_RESPONSE_COMMAND \<equiv> ''response_command''"
abbreviation OWNER_PLAYBOOK :: string where "OWNER_PLAYBOOK \<equiv> ''playbook''"
abbreviation OWNER_PLAYBOOK_READ_ONLY :: string where "OWNER_PLAYBOOK_READ_ONLY \<equiv> ''playbook_read_only''"
abbreviation OWNER_NOTIFICATION_ADAPTER :: string where
  "OWNER_NOTIFICATION_ADAPTER \<equiv> ''notification_adapter''"

abbreviation MODE_TRACKING_ONLY :: string where "MODE_TRACKING_ONLY \<equiv> ''tracking_only''"
abbreviation MODE_SIMULATION :: string where "MODE_SIMULATION \<equiv> ''simulation''"
abbreviation MODE_REAL :: string where "MODE_REAL \<equiv> ''real''"
abbreviation MODE_READ_ONLY :: string where "MODE_READ_ONLY \<equiv> ''read_only''"
abbreviation MODE_INTERNAL :: string where "MODE_INTERNAL \<equiv> ''internal''"

text \<open>A frozen set of strings is the list of its elements.\<close>

record CanonicalActionSpec =
  cas_name :: string
  owning_executor :: string
  supported_modes :: "string list"
  aliases :: "string list"
  deprecated :: bool
  description :: string
  validation_hint :: string

definition spec ::
  "string \<Rightarrow> string \<Rightarrow> string list \<Rightarrow> string list \<Rightarrow> string \<Rightarrow> string \<Rightarrow> CanonicalActionSpec" where
  "spec n owner modes al descr hint =
     \<lparr>cas_name = n, owning_executor = owner, supported_modes = modes, aliases = al,
      deprecated = False, description = descr, validation_hint = hint\<rparr>"

definition CANONICAL_SPECS :: "CanonicalActionSpec list" where
  "CANONICAL_SPECS =
     [spec ''block_ip'' OWNER_RESPONSE_COMMAND [MODE_TRACKING_ONLY, MODE_SIMULATION] []
        ''SIEM Blocklist tracking only; no firewall enforcement.''
        ''Provide a public source_ip; protected/private targets are rejected.'',
      spec ''monitor'' OWNER_RESPONSE_COMMAND [MODE_INTERNAL, MODE_SIMULATION] []
        ''Durable internal watch disposition with optional expiry.''
        ''Provide source_ip and/or alert_id.'',
      spec ''flag_high_priority'' OWNER_RESPONSE_COMMAND [MODE_INTERNAL, MODE_SIMULATION] [''escalate'']
        ''Internal escalation via priority/incident handoff.''
        ''Provide alert_id (preferred) or source_ip for escalation context.'',
      spec ''stop_monitor'' OWNER_RESPONSE_COMMAND [MODE_INTERNAL] []
        ''Stop an active monitor/watch disposition without firewall changes.''
        ''Provide source_ip for the monitored indicator.'',
      spec ''remove_tracking'' OWNER_RESPONSE_COMMAND [MODE_TRACKING_ONLY] [''unblock'']
        ''Remove active Blocklist tracking; no firewall change.''
        ''Provide source_ip or an active blocked_ip context.'',
      spec ''add_note'' OWNER_RESPONSE_COMMAND [MODE_INTERNAL] []
        ''Append an analyst note to registry history without changing disposition.''
        ''Provide source_ip and a non-empty reason/note.'',
      spec ''enrich_context'' OWNER_PLAYBOOK_READ_ONLY [MODE_READ_ONLY] []
        ''Read-only playbook enrichment; never legacy response-action queue.''
        ''Use only as a playbook step; do not enqueue to response_actions_queue.'',
      spec ''notify_slack'' OWNER_NOTIFICATION_ADAPTER [MODE_SIMULATION, MODE_REAL] []
        ''Provider-specific Slack notification.'' [],
      spec ''notify_teams'' OWNER_NOTIFICATION_ADAPTER [MODE_SIMULATION] []
        ''Provider-specific Teams notification (simulation-only).'' [],
      spec ''notify_email'' OWNER_NOTIFICATION_ADAPTER [MODE_SIMULATION, MODE_REAL] []
        ''Provider-specific Email notification.'' [],
      spec ''notify_webhook'' OWNER_NOTIFICATION_ADAPTER [MODE_SIMULATION, MODE_REAL] []
        ''Provider-specific Webhook notification.'' [],
      spec ''require_approval'' OWNER_PLAYBOOK [MODE_INTERNAL] [] ''Playbook approval gate.'' [],
      spec ''branch'' OWNER_PLAYBOOK [MODE_INTERNAL] [] ''Playbook conditional branch.'' [],
      spec ''trigger_playbook'' OWNER_PLAYBOOK [MODE_INTERNAL] [] ''Playbook chaining trigger.'' [],
      (spec ''notify'' OWNER_NOTIFICATION_ADAPTER [] []
        ''Ambiguous bare notify; rejected unless a deterministic provider alias applies.''
        (''Replace bare '' @ py_repr ''notify'' @
         '' with notify_slack, notify_email, notify_webhook, or notify_teams.''))\<lparr>deprecated := True\<rparr>]"

definition CANONICAL_ACTIONS :: "string \<Rightarrow> CanonicalActionSpec option" where
  "CANONICAL_ACTIONS n = map_of (map (\<lambda>s. (cas_name s, s)) CANONICAL_SPECS) n"

definition ACTION_ALIASES :: "string \<Rightarrow> string option" where
  "ACTION_ALIASES a =
     map_of (concat (map (\<lambda>s. map (\<lambda>al. (al, cas_name s)) (aliases s)) CANONICAL_SPECS)) a"

definition RESPONSE_QUEUE_ACTIONS :: "string list" where
  "RESPONSE_QUEUE_ACTIONS = [''block_ip'', ''monitor'', ''flag_high_priority'']"

definition RESPONSE_COMMAND_ACTIONS :: "string list" where
  "RESPONSE_COMMAND_ACTIONS =
     [''block_ip'', ''monitor'', ''flag_high_priority'', ''stop_monitor'', ''remove_tracking'', ''add_note'']"

definition PLAYBOOK_ACTIONS :: "string list" where
  "PLAYBOOK_ACTIONS =
     [''monitor'', ''flag_high_priority'', ''require_approval'', ''branch'', ''trigger_playbook'',
      ''enrich_context'', ''notify_slack'', ''notify_teams'', ''notify_email'', ''notify_webhook'',
      ''block_ip'']"

subsection \<open>The validators\<close>

definition normalize_action_name :: "string option \<Rightarrow> string result" where
  "normalize_action_name action =
     (let raw = strip (coalesce action [])
      in if raw = [] then Inl (CanonicalActionValidationError ''Action is required'' ''missing_action'')
         else case ACTION_ALIASES raw of Some n \<Rightarrow> Inr n | None \<Rightarrow> Inr raw)"

definition get_action_spec :: "string option \<Rightarrow> CanonicalActionSpec result" where
  "get_action_spec action =
     (case normalize_action_name action of
        Inl e \<Rightarrow> Inl e
      | Inr n \<Rightarrow>
          (case CANONICAL_ACTIONS n of
             None \<Rightarrow> Inl (CanonicalActionValidationError (''Unsupported action '' @ py_repr n)
                           ''unsupported_action'')
           | Some s \<Rightarrow> Inr s))"

definition resolve_action_for_playbook :: "string option \<Rightarrow> string result" where
  "resolve_action_for_playbook action =
     (case get_action_spec action of
        Inl e \<Rightarrow> Inl e
      | Inr s \<Rightarrow>
          if cas_name s = ''notify'' \<or> deprecated s \<and> cas_name s = ''notify''
          then Inl (CanonicalActionValidationError
                 (''Ambiguous action '' @ py_repr ''notify'' @ '' is not allowed. '' @
                  ''Use notify_slack, notify_email, notify_webhook, or notify_teams.'')
                 ''ambiguous_notify'')
          else if cas_name s \<notin> set PLAYBOOK_ACTIONS
          then Inl (CanonicalActionValidationError
                 (strip (''Action '' @ py_repr (cas_name s) @ '' is not a supported playbook action. '' @
                         validation_hint s))
                 ''unsupported_action'')
          else Inr (cas_name s))"

definition validate_action_for_response_queue :: "string option \<Rightarrow> string result" where
  "validate_action_for_response_queue action =
     (case get_action_spec action of
        Inl e \<Rightarrow> Inl e
      | Inr s \<Rightarrow>
          if cas_name s = ''notify'' \<or> (deprecated s \<and> supported_modes s = [])
          then Inl (CanonicalActionValidationError
                 (''Ambiguous action '' @ py_repr ''notify'' @ '' cannot be enqueued. '' @
                  ''Use notify_slack, notify_email, notify_webhook, or notify_teams before enqueueing.'')
                 ''ambiguous_notify'')
          else if cas_name s = ''enrich_context''
          then Inl (CanonicalActionValidationError
                 (''Action '' @ py_repr ''enrich_context'' @ '' is owned by the playbook read-only executor and '' @
                  ''cannot be enqueued to the legacy response-action queue.'')
                 ''misrouted_enrich_context'')
          else if cas_name s \<notin> set RESPONSE_QUEUE_ACTIONS
          then Inl (CanonicalActionValidationError
                 (strip (''Action '' @ py_repr (cas_name s) @
                         '' cannot be enqueued to the response-action queue. '' @ validation_hint s))
                 ''unsupported_action'')
          else Inr (cas_name s))"

definition validate_response_command_action :: "string option \<Rightarrow> string result" where
  "validate_response_command_action action =
     (case get_action_spec action of
        Inl e \<Rightarrow> Inl e
      | Inr s \<Rightarrow>
          if cas_name s \<notin> set RESPONSE_COMMAND_ACTIONS
          then Inl (CanonicalActionValidationError
                 (''Action '' @ py_repr (cas_name s) @ '' is not a canonical response command '' @
                  ''(block_ip, monitor, flag_high_priority, stop_monitor, '' @ ''remove_tracking, add_note).'')
                 ''unsupported_action'')
          else Inr (cas_name s))"

subsection \<open>Lemmas\<close>

lemma canonical_names:
  "map cas_name CANONICAL_SPECS =
     [''block_ip'', ''monitor'', ''flag_high_priority'', ''stop_monitor'', ''remove_tracking'', ''add_note'',
      ''enrich_context'', ''notify_slack'', ''notify_teams'', ''notify_email'', ''notify_webhook'',
      ''require_approval'', ''branch'', ''trigger_playbook'', ''notify'']"
  by (simp add: CANONICAL_SPECS_def spec_def)

lemma action_aliases_eq:
  "ACTION_ALIASES a = (if a = ''escalate'' then Some ''flag_high_priority''
     else if a = ''unblock'' then Some ''remove_tracking'' else None)"
  by (simp add: ACTION_ALIASES_def CANONICAL_SPECS_def spec_def)

lemma canonical_actions_Some: "CANONICAL_ACTIONS n = Some s \<Longrightarrow> s \<in> set CANONICAL_SPECS \<and> cas_name s = n"
  by (auto simp: CANONICAL_ACTIONS_def dest!: map_of_SomeD)

lemma canonical_actions_None: "CANONICAL_ACTIONS n = None \<longleftrightarrow> n \<notin> set (map cas_name CANONICAL_SPECS)"
  by (simp add: CANONICAL_ACTIONS_def map_of_eq_None_iff image_image)

text \<open>A canonical name is its own normal form, and it is found in the table.\<close>

lemma canonical_name_facts:
  "n \<in> set (map cas_name CANONICAL_SPECS) \<Longrightarrow> strip n = n \<and> n \<noteq> [] \<and> ACTION_ALIASES n = None"
  unfolding canonical_names by (elim set_ConsD [elim_format] disjE) (auto simp: action_aliases_eq strip_def is_space_def)

lemma canonical_get_spec:
  assumes "n \<in> set (map cas_name CANONICAL_SPECS)"
  shows "\<exists>s. get_action_spec (Some n) = Inr s \<and> cas_name s = n \<and> s \<in> set CANONICAL_SPECS"
proof -
  obtain s where "CANONICAL_ACTIONS n = Some s"
    using assms canonical_actions_None by (cases "CANONICAL_ACTIONS n") auto
  with canonical_name_facts [OF assms] show ?thesis
    by (auto simp: get_action_spec_def normalize_action_name_def dest: canonical_actions_Some)
qed

lemma get_action_spec_Inr:
  assumes "get_action_spec a = Inr s"
  shows "s \<in> set CANONICAL_SPECS"
    and "normalize_action_name a = Inr (cas_name s)"
  using assms by (auto simp: get_action_spec_def dest: canonical_actions_Some split: sum.splits option.splits)

lemma get_action_spec_again:
  assumes "get_action_spec a = Inr s"
  shows "get_action_spec (Some (cas_name s)) = Inr s"
proof -
  have d: "distinct (map cas_name CANONICAL_SPECS)" unfolding canonical_names by code_simp
  have s: "s \<in> set CANONICAL_SPECS" using assms by (rule get_action_spec_Inr)
  obtain s' where "get_action_spec (Some (cas_name s)) = Inr s'" "cas_name s' = cas_name s"
    "s' \<in> set CANONICAL_SPECS"
    using canonical_get_spec [of "cas_name s"] s by auto
  moreover have "s' = s" using d calculation(2,3) s by (auto simp: distinct_map dest: inj_onD)
  ultimately show ?thesis by simp
qed

lemma normalize_eq:
  "normalize_action_name a = Inr n \<longleftrightarrow> strip (coalesce a []) \<noteq> [] \<and>
     n = (if strip (coalesce a []) = ''escalate'' then ''flag_high_priority''
          else if strip (coalesce a []) = ''unblock'' then ''remove_tracking'' else strip (coalesce a []))"
  by (auto simp: normalize_action_name_def action_aliases_eq Let_def)

lemma get_action_spec_cong:
  "normalize_action_name a = normalize_action_name b \<Longrightarrow> get_action_spec a = get_action_spec b"
  by (simp add: get_action_spec_def)

lemma queue_validator_names:
  "n \<in> set RESPONSE_QUEUE_ACTIONS \<Longrightarrow> validate_action_for_response_queue (Some n) = Inr n"
  unfolding RESPONSE_QUEUE_ACTIONS_def by (elim set_ConsD [elim_format] disjE; simp; code_simp?)

lemma validator_spec:
  "validate_action_for_response_queue a = Inr n \<Longrightarrow> n \<in> set RESPONSE_QUEUE_ACTIONS \<and>
     (\<exists>s. get_action_spec a = Inr s \<and> n = cas_name s)"
  "validate_response_command_action a = Inr n \<Longrightarrow> n \<in> set RESPONSE_COMMAND_ACTIONS \<and>
     (\<exists>s. get_action_spec a = Inr s \<and> n = cas_name s)"
  "resolve_action_for_playbook a = Inr n \<Longrightarrow> n \<in> set PLAYBOOK_ACTIONS \<and>
     (\<exists>s. get_action_spec a = Inr s \<and> n = cas_name s)"
  by (auto simp: validate_action_for_response_queue_def validate_response_command_action_def
      resolve_action_for_playbook_def split: sum.splits if_splits)

subsection \<open>Properties\<close>

text \<open>The response queue takes exactly four spellings: \<open>block_ip\<close>, \<open>monitor\<close>,
  \<open>flag_high_priority\<close> and its alias \<open>escalate\<close>, each up to surrounding white space, and stores
  the canonical name; every other text, \<open>notify\<close> and \<open>enrich_context\<close> included, is rejected.\<close>

theorem queue_validator_exact:
  "validate_action_for_response_queue a = Inr n \<longleftrightarrow>
     strip (coalesce a []) \<in> {''block_ip'', ''monitor'', ''flag_high_priority'', ''escalate''} \<and>
     n = (if strip (coalesce a []) = ''escalate'' then ''flag_high_priority'' else strip (coalesce a []))"
    (is "?L \<longleftrightarrow> ?R")
proof
  assume ?L
  from validator_spec(1) [OF this] have n: "n \<in> set RESPONSE_QUEUE_ACTIONS" "normalize_action_name a = Inr n"
    using get_action_spec_Inr(2) by auto
  from n show ?R by (auto simp: normalize_eq RESPONSE_QUEUE_ACTIONS_def split: if_splits)
next
  assume ?R
  then have n: "n \<in> set RESPONSE_QUEUE_ACTIONS" "normalize_action_name a = Inr n"
    by (auto simp: normalize_eq RESPONSE_QUEUE_ACTIONS_def)
  have "strip n = n \<and> n \<noteq> [] \<and> ACTION_ALIASES n = None"
    using n(1) by (intro canonical_name_facts) (auto simp: canonical_names RESPONSE_QUEUE_ACTIONS_def)
  then have "normalize_action_name (Some n) = Inr n" by (simp add: normalize_action_name_def)
  with n(2) have "get_action_spec a = get_action_spec (Some n)" by (intro get_action_spec_cong) simp
  then show ?L using queue_validator_names [OF n(1)] by (simp add: validate_action_for_response_queue_def)
qed

text \<open>What a caller can tell from a validator: the canonical name, or the code of the error.\<close>

definition verdict :: "string result \<Rightarrow> string + string" where
  "verdict r = (case r of Inr n \<Rightarrow> Inr n | Inl (CanonicalActionValidationError m c) \<Rightarrow> Inl c | Inl _ \<Rightarrow> Inl [])"

lemma validators_by_spec:
  assumes "get_action_spec a = get_action_spec b"
  shows "validate_action_for_response_queue a = validate_action_for_response_queue b"
    and "validate_response_command_action a = validate_response_command_action b"
    and "resolve_action_for_playbook a = resolve_action_for_playbook b"
  using assms by (simp_all add: validate_action_for_response_queue_def validate_response_command_action_def
      resolve_action_for_playbook_def)

lemma known_spec:
  assumes "strip (coalesce a []) = n" "strip n = n"
  shows "get_action_spec a = get_action_spec (Some n)"
  using assms by (intro get_action_spec_cong) (simp add: normalize_action_name_def)

lemma unknown_spec:
  assumes "strip (coalesce a []) = n" "n \<noteq> []" "n \<noteq> ''escalate''" "n \<noteq> ''unblock''"
    "n \<notin> set (map cas_name CANONICAL_SPECS)"
  shows "get_action_spec a =
    Inl (CanonicalActionValidationError (''Unsupported action '' @ py_repr n) ''unsupported_action'')"
proof -
  have "normalize_action_name a = Inr n" using assms(1-4) by (simp add: normalize_eq)
  moreover have "CANONICAL_ACTIONS n = None" using assms(5) by (simp add: canonical_actions_None)
  ultimately show ?thesis by (simp add: get_action_spec_def)
qed

text \<open>What the three validators do with a name \<open>t\<close> that is already stripped.\<close>

definition queue_verdict :: "string \<Rightarrow> string + string" where
  "queue_verdict t =
     (if t \<in> {''block_ip'', ''monitor'', ''flag_high_priority''} then Inr t
      else if t = ''escalate'' then Inr ''flag_high_priority''
      else if t = [] then Inl ''missing_action''
      else if t = ''notify'' then Inl ''ambiguous_notify''
      else if t = ''enrich_context'' then Inl ''misrouted_enrich_context''
      else Inl ''unsupported_action'')"

definition command_verdict :: "string \<Rightarrow> string + string" where
  "command_verdict t =
     (if t \<in> {''block_ip'', ''monitor'', ''flag_high_priority'', ''stop_monitor'', ''remove_tracking'', ''add_note''}
      then Inr t
      else if t = ''escalate'' then Inr ''flag_high_priority''
      else if t = ''unblock'' then Inr ''remove_tracking''
      else if t = [] then Inl ''missing_action''
      else Inl ''unsupported_action'')"

definition playbook_verdict :: "string \<Rightarrow> string + string" where
  "playbook_verdict t =
     (if t \<in> {''block_ip'', ''monitor'', ''flag_high_priority'', ''enrich_context'', ''notify_slack'', ''notify_teams'',
               ''notify_email'', ''notify_webhook'', ''require_approval'', ''branch'', ''trigger_playbook''}
      then Inr t
      else if t = ''escalate'' then Inr ''flag_high_priority''
      else if t = [] then Inl ''missing_action''
      else if t = ''notify'' then Inl ''ambiguous_notify''
      else Inl ''unsupported_action'')"

definition validators_agree :: "string \<Rightarrow> bool" where
  "validators_agree t \<longleftrightarrow> strip t = t \<and>
     verdict (validate_action_for_response_queue (Some t)) = queue_verdict t \<and>
     verdict (validate_response_command_action (Some t)) = command_verdict t \<and>
     verdict (resolve_action_for_playbook (Some t)) = playbook_verdict t"

lemma validators_agree_known: "list_all validators_agree ([] # ''escalate'' # ''unblock'' # map cas_name CANONICAL_SPECS)"
  by code_simp

text \<open>C32: The routing of action names, exactly: which names each of the three validators accepts (up to
  surrounding white space), the canonical name it returns, and the code it refuses every other text
  with. The response queue takes \<open>block_ip\<close>, \<open>monitor\<close>, \<open>flag_high_priority\<close> and its alias \<open>escalate\<close>, and
  names the two misroutings (\<open>notify\<close>, \<open>enrich_context\<close>) by codes of their own; a response command is one
  of six or one of the aliases \<open>escalate\<close> and \<open>unblock\<close>; a playbook takes eleven and \<open>escalate\<close>, and
  refuses the bare \<open>notify\<close> as ambiguous.\<close>

theorem validators_exact:
  "verdict (validate_action_for_response_queue a) = queue_verdict (strip (coalesce a [])) \<and>
   verdict (validate_response_command_action a) = command_verdict (strip (coalesce a [])) \<and>
   verdict (resolve_action_for_playbook a) = playbook_verdict (strip (coalesce a []))"
proof -
  define t where "t = strip (coalesce a [])"
  show ?thesis
  proof (cases "t \<in> set ([] # ''escalate'' # ''unblock'' # map cas_name CANONICAL_SPECS)")
    case True
    then have "validators_agree t" using validators_agree_known by (simp only: list_all_iff)
    then show ?thesis
      using validators_by_spec [OF known_spec [OF t_def [symmetric]]] by (simp add: validators_agree_def t_def [symmetric])
  next
    case False
    then have "get_action_spec a =
        Inl (CanonicalActionValidationError (''Unsupported action '' @ py_repr t) ''unsupported_action'')"
      by (intro unknown_spec t_def [symmetric]) simp_all
    moreover have "t \<notin> set ([] # ''escalate'' # ''unblock'' # map cas_name CANONICAL_SPECS)" by (rule False)
    ultimately show ?thesis
      by (simp add: t_def [symmetric] canonical_names verdict_def validate_action_for_response_queue_def
          validate_response_command_action_def resolve_action_for_playbook_def queue_verdict_def command_verdict_def
          playbook_verdict_def)
  qed
qed

end
