(* ===== verification/Response_Queue.thy ===== *)
theory Response_Queue
  imports Approval_Store Action_Vocabulary
begin

text \<open>
  \<open>core/response_action_queue_store.py\<close> and the two functions of \<open>core/ip_helpers.py\<close> that fill
  the queue: the table \<open>response_actions_queue\<close>, its guarded transitions, the claims of a worker
  (\<open>FOR UPDATE SKIP LOCKED\<close>) and the recovery of rows a dead worker left running. Shown here:
  rows only move along the life cycle \<open>queue_step\<close>, finished rows are final, the number of
  failed attempts is bounded, claims are first-in first-out and never shared, enqueueing is
  idempotent and loses nothing.

  The hash \<open>sha256\<close> is a parameter. An address is kept as the text the caller gives.
\<close>

subsection \<open>State\<close>

datatype queue_status = QPending | QRunning | QAwaiting | QSuccess | QFailed | QSkipped

fun queue_status_text :: "queue_status \<Rightarrow> string" where
  "queue_status_text QPending = ''pending''"
| "queue_status_text QRunning = ''running''"
| "queue_status_text QAwaiting = ''awaiting_approval''"
| "queue_status_text QSuccess = ''success''"
| "queue_status_text QFailed = ''failed''"
| "queue_status_text QSkipped = ''skipped''"

record queue_row =
  q_id :: row_id
  q_alert_id :: "row_id option"
  q_source_ip :: "string option"
  q_action :: string
  q_status :: queue_status
  q_retry_count :: int
  q_max_retries :: int
  q_last_error :: "string option"
  q_idempotency_key :: string
  q_created_at :: time
  q_updated_at :: time
  q_decision_id :: "row_id option"
  q_soar_correlation_id :: "string option"

record queue_db =
  response_actions_queue :: "queue_row list"
  queue_seq :: row_id

definition STALE_RUNNING_TIMEOUT :: time where
  "STALE_RUNNING_TIMEOUT = minutes 15"

subsection \<open>Enqueueing\<close>

definition show_opt_id :: "row_id option \<Rightarrow> string" where
  "show_opt_id i = (case i of None \<Rightarrow> ''None'' | Some n \<Rightarrow> show_int n)"

definition raw_key :: "row_id option \<Rightarrow> string option \<Rightarrow> string \<Rightarrow> string" where
  "raw_key alert_id source_ip action =
     show_opt_id alert_id @ '':'' @ coalesce source_ip ''None'' @ '':'' @ action"

definition compute_idempotency_key ::
  "(string \<Rightarrow> string) \<Rightarrow> row_id option \<Rightarrow> string option \<Rightarrow> string \<Rightarrow> string" where
  "compute_idempotency_key sha256 alert_id source_ip action = sha256 (raw_key alert_id source_ip action)"

text \<open>\<open>INSERT .. ON CONFLICT DO NOTHING\<close> draws the next id before it meets the conflict.\<close>

definition new_queue_row ::
  "(string \<Rightarrow> string) \<Rightarrow> clock \<Rightarrow> row_id option \<Rightarrow> string option \<Rightarrow> string \<Rightarrow> int \<Rightarrow> row_id \<Rightarrow> queue_row" where
  "new_queue_row sha256 clk alert_id source_ip action max_retries i =
     \<lparr>q_id = i, q_alert_id = alert_id, q_source_ip = source_ip, q_action = action,
      q_status = QPending, q_retry_count = 0, q_max_retries = max_retries, q_last_error = None,
      q_idempotency_key = compute_idempotency_key sha256 alert_id source_ip action,
      q_created_at = sql_now clk, q_updated_at = sql_now clk,
      q_decision_id = None, q_soar_correlation_id = None\<rparr>"

definition enqueue_response_action ::
  "(string \<Rightarrow> string) \<Rightarrow> clock \<Rightarrow> row_id option \<Rightarrow> string option \<Rightarrow> string option \<Rightarrow> int \<Rightarrow> (queue_db, row_id option) py" where
  "enqueue_response_action sha256 clk alert_id source_ip action0 max_retries s =
     (case validate_action_for_response_queue action0 of
        Inl e \<Rightarrow> (Inl e, s)
      | Inr action \<Rightarrow>
          let r = new_queue_row sha256 clk alert_id source_ip action max_retries (queue_seq s);
              s1 = s\<lparr>queue_seq := queue_seq s + 1\<rparr>
          in if \<exists>r' \<in> set (response_actions_queue s). q_idempotency_key r' = q_idempotency_key r
             then (Inr None, s1)
             else (Inr (Some (q_id r)), s1\<lparr>response_actions_queue := response_actions_queue s @ [r]\<rparr>))"

subsection \<open>Reading\<close>

definition get_queue_action :: "row_id \<Rightarrow> queue_db \<Rightarrow> queue_row option" where
  "get_queue_action queue_id s = select_id q_id queue_id (response_actions_queue s)"

definition get_queue_status_counts :: "queue_db \<Rightarrow> queue_status \<Rightarrow> nat option" where
  "get_queue_status_counts s st =
     (let n = length (filter (\<lambda>r. q_status r = st) (response_actions_queue s))
      in if n = 0 then None else Some n)"

definition list_recent_queue_actions ::
  "int option \<Rightarrow> string option \<Rightarrow> queue_db \<Rightarrow> queue_row list result" where
  "list_recent_queue_actions lim status s =
     (let n = min (case lim of None \<Rightarrow> 50 | Some l \<Rightarrow> if l = 0 then 50 else l) 100
      in if n < 0 then Inl (DataError ''LIMIT must not be negative'')
         else Inr (limit n (order_desc q_id
           (filter_opt (queue_status_text \<circ> q_status) status (response_actions_queue s)))))"

subsection \<open>Claims\<close>

text \<open>The columns an update sets besides the status.\<close>

definition set_queue_status :: "queue_status \<Rightarrow> string option \<Rightarrow> time \<Rightarrow> queue_row \<Rightarrow> queue_row" where
  "set_queue_status st err t r = r\<lparr>q_status := st, q_last_error := err, q_updated_at := t\<rparr>"

text \<open>\<open>SELECT id .. ORDER BY id FOR UPDATE SKIP LOCKED\<close>: the rows another transaction has locked
  are passed over before the limit applies.\<close>

definition unlocked_by_id :: "(row_id \<Rightarrow> bool) \<Rightarrow> (queue_row \<Rightarrow> bool) \<Rightarrow> queue_row list \<Rightarrow> queue_row list" where
  "unlocked_by_id locked p t = filter (\<lambda>r. \<not> locked (q_id r)) (order_asc q_id (filter p t))"

definition claim_first ::
  "(row_id \<Rightarrow> bool) \<Rightarrow> (queue_row \<Rightarrow> bool) \<Rightarrow> (queue_row \<Rightarrow> queue_row) \<Rightarrow> queue_db \<Rightarrow> queue_row option \<times> queue_db" where
  "claim_first locked p f s =
     (case fetchone (limit 1 (unlocked_by_id locked p (response_actions_queue s))) of
        None \<Rightarrow> (None, s)
      | Some c \<Rightarrow>
          let here = (\<lambda>r. q_id r = q_id c)
          in (fetchone (returning here f (response_actions_queue s)),
              s\<lparr>response_actions_queue := update_where here f (response_actions_queue s)\<rparr>))"

definition claim_next_pending_action ::
  "(row_id \<Rightarrow> bool) \<Rightarrow> clock \<Rightarrow> time option \<Rightarrow> queue_db \<Rightarrow> queue_row option \<times> queue_db" where
  "claim_next_pending_action locked clk now =
     claim_first locked (\<lambda>r. q_status r = QPending)
       (\<lambda>r. r\<lparr>q_status := QRunning, q_updated_at := coalesce now (sql_now clk)\<rparr>)"

definition has_approved :: "approval_request list \<Rightarrow> queue_row \<Rightarrow> bool" where
  "has_approved approvals q \<longleftrightarrow>
     (\<exists>a \<in> set approvals. ar_queue_id a = Some (q_id q) \<and> ar_action a = q_action q \<and> ar_status a = AApproved)"

definition claim_next_approved_awaiting_action ::
  "approval_request list \<Rightarrow> (row_id \<Rightarrow> bool) \<Rightarrow> clock \<Rightarrow> time option \<Rightarrow> queue_db \<Rightarrow> queue_row option \<times> queue_db" where
  "claim_next_approved_awaiting_action approvals locked clk now =
     claim_first locked (\<lambda>r. q_status r = QAwaiting \<and> has_approved approvals r)
       (set_queue_status QRunning None (coalesce now (sql_now clk)))"

text \<open>The lateral join: the status of the newest approval of a queue row.\<close>

definition latest_approval_status :: "approval_request list \<Rightarrow> queue_row \<Rightarrow> approval_status option" where
  "latest_approval_status approvals q =
     map_option ar_status (fetchone (newest_first
       (filter (\<lambda>a. ar_queue_id a = Some (q_id q) \<and> ar_action a = q_action q) approvals)))"

definition terminally_refused :: "approval_request list \<Rightarrow> queue_row \<Rightarrow> bool" where
  "terminally_refused approvals q \<longleftrightarrow> q_status q = QAwaiting \<and>
     (latest_approval_status approvals q = Some ADenied \<or> latest_approval_status approvals q = Some AExpired)"

definition set_refused :: "approval_request list \<Rightarrow> time \<Rightarrow> queue_row \<Rightarrow> queue_row" where
  "set_refused approvals t q =
     set_queue_status QSkipped
       (Some (if latest_approval_status approvals q = Some ADenied then ''approval denied'' else ''approval expired''))
       t q"

text \<open>Both return the row together with the approval's status.\<close>

definition skip_next_terminal_approval_action ::
  "approval_request list \<Rightarrow> (row_id \<Rightarrow> bool) \<Rightarrow> clock \<Rightarrow> time option \<Rightarrow> queue_db \<Rightarrow>
   (queue_row \<times> approval_status option) option \<times> queue_db" where
  "skip_next_terminal_approval_action approvals locked clk now s =
     (case claim_first locked (terminally_refused approvals)
             (set_refused approvals (coalesce now (sql_now clk))) s of
        (row, s') \<Rightarrow> (map_option (\<lambda>r. (r, latest_approval_status approvals r)) row, s'))"

text \<open>SQL leaves the order of the rows \<open>UPDATE .. FROM\<close> returns open; here it is the table's.\<close>

definition update_chosen ::
  "queue_row list \<Rightarrow> (queue_row \<Rightarrow> queue_row) \<Rightarrow> queue_db \<Rightarrow> queue_row list \<times> queue_db" where
  "update_chosen chosen f s =
     (let here = (\<lambda>r. q_id r \<in> q_id ` set chosen)
      in (returning here f (response_actions_queue s),
          s\<lparr>response_actions_queue := update_where here f (response_actions_queue s)\<rparr>))"

definition sweep_terminal_approval_queue_rows ::
  "approval_request list \<Rightarrow> (row_id \<Rightarrow> bool) \<Rightarrow> clock \<Rightarrow> time option \<Rightarrow> int \<Rightarrow> queue_db \<Rightarrow>
   (queue_row \<times> approval_status option) list \<times> queue_db" where
  "sweep_terminal_approval_queue_rows approvals locked clk now lim s =
     (let cap = min (max lim 0) 100
      in case update_chosen
             (limit cap (unlocked_by_id locked (terminally_refused approvals) (response_actions_queue s)))
             (set_refused approvals (coalesce now (sql_now clk))) s of
           (rows, s') \<Rightarrow> (map (\<lambda>r. (r, latest_approval_status approvals r)) rows, s'))"

subsection \<open>Transitions\<close>

definition transition_where ::
  "row_id \<Rightarrow> (queue_row \<Rightarrow> bool) \<Rightarrow> (queue_row \<Rightarrow> queue_row) \<Rightarrow> string \<Rightarrow> (queue_db, queue_row) py" where
  "transition_where queue_id guard f what s =
     (let here = (\<lambda>r. q_id r = queue_id \<and> guard r);
          s' = s\<lparr>response_actions_queue := update_where here f (response_actions_queue s)\<rparr>
      in case fetchone (returning here f (response_actions_queue s)) of
           None \<Rightarrow> (Inl (QueueTransitionError (''queue action '' @ show_int queue_id @ '' is not '' @ what)), s')
         | Some row \<Rightarrow> (Inr row, s'))"

definition transition_action_status ::
  "clock \<Rightarrow> row_id \<Rightarrow> queue_status \<Rightarrow> queue_status \<Rightarrow> string option \<Rightarrow> time option \<Rightarrow> (queue_db, queue_row) py" where
  "transition_action_status clk queue_id from_status to_status last_error now =
     transition_where queue_id (\<lambda>r. q_status r = from_status)
       (set_queue_status to_status last_error (coalesce now (sql_now clk))) (queue_status_text from_status)"

definition transition_running_action ::
  "clock \<Rightarrow> row_id \<Rightarrow> queue_status \<Rightarrow> string option \<Rightarrow> time option \<Rightarrow> (queue_db, queue_row) py" where
  "transition_running_action clk queue_id new_status last_error now =
     transition_action_status clk queue_id QRunning new_status last_error now"

definition mark_action_awaiting_approval ::
  "clock \<Rightarrow> row_id \<Rightarrow> string option \<Rightarrow> time option \<Rightarrow> (queue_db, queue_row) py" where
  "mark_action_awaiting_approval clk queue_id reason now =
     transition_action_status clk queue_id QRunning QAwaiting reason now"

definition mark_awaiting_approval_skipped ::
  "clock \<Rightarrow> row_id \<Rightarrow> string option \<Rightarrow> time option \<Rightarrow> (queue_db, queue_row) py" where
  "mark_awaiting_approval_skipped clk queue_id reason now =
     transition_action_status clk queue_id QAwaiting QSkipped reason now"

definition mark_action_success :: "clock \<Rightarrow> row_id \<Rightarrow> time option \<Rightarrow> (queue_db, queue_row) py" where
  "mark_action_success clk queue_id now = transition_running_action clk queue_id QSuccess None now"

definition mark_action_skipped ::
  "clock \<Rightarrow> row_id \<Rightarrow> string option \<Rightarrow> time option \<Rightarrow> (queue_db, queue_row) py" where
  "mark_action_skipped clk queue_id reason now = transition_running_action clk queue_id QSkipped reason now"

definition set_failed :: "string option \<Rightarrow> time \<Rightarrow> queue_row \<Rightarrow> queue_row" where
  "set_failed err t r =
     r\<lparr>q_status := QFailed, q_retry_count := q_retry_count r + 1, q_last_error := err, q_updated_at := t\<rparr>"

definition mark_action_failed ::
  "clock \<Rightarrow> row_id \<Rightarrow> string option \<Rightarrow> time option \<Rightarrow> (queue_db, queue_row) py" where
  "mark_action_failed clk queue_id error_message now =
     transition_where queue_id (\<lambda>r. q_status r = QRunning)
       (set_failed error_message (coalesce now (sql_now clk))) ''running''"

definition set_requeued :: "time \<Rightarrow> queue_row \<Rightarrow> queue_row" where
  "set_requeued t r = r\<lparr>q_status := QPending, q_updated_at := t\<rparr>"

definition requeue_failed_action :: "clock \<Rightarrow> row_id \<Rightarrow> time option \<Rightarrow> (queue_db, queue_row) py" where
  "requeue_failed_action clk queue_id now =
     transition_where queue_id (\<lambda>r. q_status r = QFailed \<and> q_retry_count r < q_max_retries r)
       (set_requeued (coalesce now (sql_now clk))) ''retryable''"

definition record_action_failure ::
  "clock \<Rightarrow> row_id \<Rightarrow> string option \<Rightarrow> bool \<Rightarrow> time option \<Rightarrow> (queue_db, queue_row) py" where
  "record_action_failure clk queue_id error_message retryable now =
     py_bind (mark_action_failed clk queue_id error_message now)
       (\<lambda>failed_row. if retryable \<and> q_retry_count failed_row < q_max_retries failed_row
                     then requeue_failed_action clk queue_id now
                     else (\<lambda>s. (Inr failed_row, s)))"

subsection \<open>Recovery and linkage\<close>

definition set_recovered :: "time \<Rightarrow> queue_row \<Rightarrow> queue_row" where
  "set_recovered t r =
     (if q_retry_count r < q_max_retries r
      then set_queue_status QPending (q_last_error r) t r
      else set_queue_status QFailed
             (Some (coalesce (q_last_error r) ''stale running action exhausted retries'')) t r)"

text \<open>\<open>int(timedelta.total_seconds())\<close> of a duration in microseconds drops the fraction.\<close>

definition whole_seconds :: "time \<Rightarrow> int" where
  "whole_seconds d = (if 0 \<le> d then d div 1000000 else - ((- d) div 1000000))"

definition recover_stale_running_actions ::
  "(row_id \<Rightarrow> bool) \<Rightarrow> clock \<Rightarrow> time option \<Rightarrow> time \<Rightarrow> int option \<Rightarrow> (queue_db, queue_row list) py" where
  "recover_stale_running_actions locked clk now stale_after lim s =
     (let t = coalesce now (sql_now clk);
          stale = unlocked_by_id locked
            (\<lambda>r. q_status r = QRunning \<and> q_updated_at r \<le> t - seconds (whole_seconds stale_after))
            (response_actions_queue s)
      in case lim of
           None \<Rightarrow> (case update_chosen stale (set_recovered t) s of (rows, s') \<Rightarrow> (Inr rows, s'))
         | Some n \<Rightarrow>
             if n < 0 then (Inl (DataError ''LIMIT must not be negative''), s)
             else (case update_chosen (limit n stale) (set_recovered t) s of (rows, s') \<Rightarrow> (Inr rows, s')))"

definition set_linkage :: "row_id option \<Rightarrow> string option \<Rightarrow> queue_row \<Rightarrow> queue_row" where
  "set_linkage decision_id correlation r =
     r\<lparr>q_decision_id := coalesce_opt decision_id (q_decision_id r),
       q_soar_correlation_id := coalesce_opt correlation (q_soar_correlation_id r)\<rparr>"

definition set_queue_linkage ::
  "row_id \<Rightarrow> row_id option \<Rightarrow> string option \<Rightarrow> queue_db \<Rightarrow> queue_row option \<times> queue_db" where
  "set_queue_linkage queue_id decision_id correlation s =
     (if decision_id = None \<and> correlation = None then (get_queue_action queue_id s, s)
      else let here = (\<lambda>r. q_id r = queue_id); f = set_linkage decision_id correlation
           in (fetchone (returning here f (response_actions_queue s)),
               s\<lparr>response_actions_queue := update_where here f (response_actions_queue s)\<rparr>))"

subsection \<open>The life cycle of a queue row\<close>

inductive queue_step :: "queue_row \<Rightarrow> queue_row \<Rightarrow> bool" where
  qs_claim: "q_status r = QPending \<Longrightarrow> queue_step r (set_queue_status QRunning e t r)"
| qs_claim_approved: "q_status r = QAwaiting \<Longrightarrow> queue_step r (set_queue_status QRunning None t r)"
| qs_await: "q_status r = QRunning \<Longrightarrow> queue_step r (set_queue_status QAwaiting e t r)"
| qs_refuse: "q_status r = QAwaiting \<Longrightarrow> queue_step r (set_queue_status QSkipped e t r)"
| qs_finish: "q_status r = QRunning \<Longrightarrow> st \<in> {QSuccess, QSkipped} \<Longrightarrow> queue_step r (set_queue_status st e t r)"
| qs_fail: "q_status r = QRunning \<Longrightarrow> queue_step r (set_failed e t r)"
| qs_requeue: "q_status r = QFailed \<Longrightarrow> q_retry_count r < q_max_retries r \<Longrightarrow> queue_step r (set_requeued t r)"
| qs_recover: "q_status r = QRunning \<Longrightarrow> queue_step r (set_recovered t r)"
| qs_link: "queue_step r (set_linkage d c r)"

declare queue_step.intros [row_steps]

lemmas queue_updates = set_queue_status_def set_failed_def set_requeued_def set_recovered_def set_linkage_def

text \<open>A row is done when it succeeded, was skipped, or failed with its retries used up. Linking
  it to a decision is the one change a done row still takes.\<close>

definition queue_done :: "queue_row \<Rightarrow> bool" where
  "queue_done r \<longleftrightarrow> q_status r = QSuccess \<or> q_status r = QSkipped \<or>
     (q_status r = QFailed \<and> q_max_retries r \<le> q_retry_count r)"

definition unlinked :: "queue_row \<Rightarrow> queue_row" where
  "unlinked r = r\<lparr>q_decision_id := None, q_soar_correlation_id := None\<rparr>"

interpretation queue: row_lifecycle q_id queue_step queue_done unlinked
  by unfold_locales (auto elim!: queue_step.cases simp: queue_updates queue_done_def unlinked_def)

text \<open>The columns no update touches, and the bound on the attempts.\<close>

definition queue_identity ::
  "queue_row \<Rightarrow> row_id \<times> row_id option \<times> string option \<times> string \<times> int \<times> string \<times> time" where
  "queue_identity r = (q_id r, q_alert_id r, q_source_ip r, q_action r, q_max_retries r, q_idempotency_key r,
     q_created_at r)"

definition queue_row_ok :: "queue_row \<Rightarrow> bool" where
  "queue_row_ok r \<longleftrightarrow> 0 \<le> q_retry_count r \<and> q_retry_count r \<le> max 1 (q_max_retries r) \<and>
     (q_status r \<noteq> QFailed \<longrightarrow> q_retry_count r = 0 \<or> q_retry_count r < q_max_retries r)"

lemma queue_step_identity: "queue_step r r' \<Longrightarrow> queue_identity r' = queue_identity r"
  by (auto elim!: queue_step.cases simp: queue_updates queue_identity_def)

lemma queue_step_ok: "queue_step r r' \<Longrightarrow> queue_row_ok r \<Longrightarrow> queue_row_ok r'"
  by (erule queue_step.cases) (auto simp: queue_updates queue_row_ok_def)

lemma queue_steps_ok:
  "queue_step\<^sup>*\<^sup>* r r' \<Longrightarrow> queue_row_ok r \<Longrightarrow> queue_row_ok r'"
  by (induction rule: rtranclp_induct) (auto intro: queue_step_ok)

text \<open>The table's invariant: ids, row checks, unique keys that are the hash of the row's own
  columns, and a canonical action.\<close>

definition queue_inv :: "(string \<Rightarrow> string) \<Rightarrow> queue_db \<Rightarrow> bool" where
  "queue_inv sha256 s \<longleftrightarrow>
     wf_ids q_id (queue_seq s) (response_actions_queue s) \<and>
     distinct (map q_idempotency_key (response_actions_queue s)) \<and>
     (\<forall>r \<in> set (response_actions_queue s). queue_row_ok r \<and>
        q_action r \<in> set RESPONSE_QUEUE_ACTIONS \<and>
        q_idempotency_key r = compute_idempotency_key sha256 (q_alert_id r) (q_source_ip r) (q_action r))"

lemma queue_inv_ids:
  "queue_inv sha256 s \<Longrightarrow> wf_ids q_id (queue_seq s) (response_actions_queue s)"
  "queue_inv sha256 s \<Longrightarrow> distinct (map q_id (response_actions_queue s))"
  by (simp_all add: queue_inv_def wf_ids_def)

definition queue_safe :: "(string \<Rightarrow> string) \<Rightarrow> queue_db \<Rightarrow> queue_db \<Rightarrow> bool" where
  "queue_safe sha256 s s' \<longleftrightarrow> queue_inv sha256 s' \<and>
     evolves q_id queue_step (response_actions_queue s) (response_actions_queue s')"

lemma queue_safe_refl: "queue_inv sha256 s \<Longrightarrow> queue_safe sha256 s s"
  by (simp add: queue_safe_def queue.evolves_refl)

lemma queue_safe_trans: "queue_safe sha256 s s' \<Longrightarrow> queue_safe sha256 s' s'' \<Longrightarrow> queue_safe sha256 s s''"
  by (auto simp: queue_safe_def intro: queue.evolves_trans)

text \<open>Every statement of the store is an update whose rows take a step, or an insert.\<close>

lemma queue_safe_update:
  assumes inv: "queue_inv sha256 s"
    and step: "\<forall>r \<in> set (response_actions_queue s). p r \<longrightarrow> queue_step r (f r)"
  shows "queue_safe sha256 s (s\<lparr>response_actions_queue := update_where p f (response_actions_queue s)\<rparr>)"
proof -
  let ?t = "response_actions_queue s"
  have ident: "\<forall>r \<in> set ?t. p r \<longrightarrow> queue_identity (f r) = queue_identity r"
    using step queue_step_identity by blast
  then have "map queue_identity (update_where p f ?t) = map queue_identity ?t"
    by (rule map_update_where)
  then have "map (fst \<circ> snd \<circ> snd \<circ> snd \<circ> snd \<circ> snd) (map queue_identity (update_where p f ?t)) =
      map (fst \<circ> snd \<circ> snd \<circ> snd \<circ> snd \<circ> snd) (map queue_identity ?t)" by simp
  then have keys: "map q_idempotency_key (update_where p f ?t) = map q_idempotency_key ?t"
    by (simp add: queue_identity_def comp_def)
  have "wf_ids q_id (queue_seq s) (update_where p f ?t)"
    using queue_inv_ids(1) [OF inv] step by (rule queue.wf_update)
  moreover have "\<forall>r \<in> set (update_where p f ?t). queue_row_ok r \<and> q_action r \<in> set RESPONSE_QUEUE_ACTIONS \<and>
      q_idempotency_key r = compute_idempotency_key sha256 (q_alert_id r) (q_source_ip r) (q_action r)"
    using inv ident step queue_step_ok by (force simp: set_update_where queue_inv_def queue_identity_def)
  ultimately show ?thesis
    using inv keys queue.evolves_update [OF step] by (simp add: queue_safe_def queue_inv_def)
qed

lemma claim_first_safe:
  assumes inv: "queue_inv sha256 s" and step: "\<And>r. p r \<Longrightarrow> queue_step r (f r)"
  shows "queue_safe sha256 s (snd (claim_first locked p f s))"
proof (cases "fetchone (limit 1 (unlocked_by_id locked p (response_actions_queue s)))")
  case (Some c)
  have "c \<in> set (response_actions_queue s)" "p c"
    using subsetD [OF set_limit_subset fetchone_mem [OF Some]] by (auto simp: unlocked_by_id_def)
  then have "\<forall>r \<in> set (response_actions_queue s). q_id r = q_id c \<longrightarrow> queue_step r (f r)"
    using distinct_key_unique [OF queue_inv_ids(2) [OF inv]] step by metis
  with Some show ?thesis using queue_safe_update [OF inv] by (simp add: claim_first_def Let_def)
qed (simp add: claim_first_def queue_safe_refl inv)

lemma update_chosen_safe:
  assumes inv: "queue_inv sha256 s" and sub: "set chosen \<subseteq> set (filter p (response_actions_queue s))"
    and step: "\<And>r. p r \<Longrightarrow> queue_step r (f r)"
  shows "queue_safe sha256 s (snd (update_chosen chosen f s))"
proof -
  have "\<forall>r \<in> set (response_actions_queue s). q_id r \<in> q_id ` set chosen \<longrightarrow> queue_step r (f r)"
  proof (intro ballI impI)
    fix r assume r: "r \<in> set (response_actions_queue s)" "q_id r \<in> q_id ` set chosen"
    then obtain c where c: "c \<in> set chosen" "q_id c = q_id r" by auto
    with sub have "c \<in> set (response_actions_queue s)" "p c" by auto
    with r c show "queue_step r (f r)"
      using distinct_key_unique [OF queue_inv_ids(2) [OF inv]] step by metis
  qed
  then show ?thesis using queue_safe_update [OF inv] by (simp add: update_chosen_def Let_def)
qed

lemma transition_where_safe:
  assumes inv: "queue_inv sha256 s" and step: "\<And>r. guard r \<Longrightarrow> queue_step r (f r)"
  shows "queue_safe sha256 s (snd (transition_where i guard f what s))"
  using queue_safe_update [OF inv, of "\<lambda>r. q_id r = i \<and> guard r" f] step
  by (simp add: transition_where_def Let_def split: option.splits)

subsection \<open>Every operation is safe\<close>

lemma queue_validator_range:
  "validate_action_for_response_queue a = Inr n \<Longrightarrow> n \<in> set RESPONSE_QUEUE_ACTIONS"
  by (auto simp: validate_action_for_response_queue_def Let_def split: sum.splits if_splits)

lemma enqueue_safe:
  assumes inv: "queue_inv sha256 s"
  shows "queue_safe sha256 s (snd (enqueue_response_action sha256 clk al ip act mr s))"
proof (cases "validate_action_for_response_queue act")
  case (Inr a)
  note a = queue_validator_range [OF Inr]
  let ?r = "new_queue_row sha256 clk al ip a mr (queue_seq s)"
  have bump: "queue_safe sha256 s (s\<lparr>queue_seq := queue_seq s + 1\<rparr>)"
    using inv by (auto simp: queue_safe_def queue_inv_def wf_ids_def queue.evolves_refl)
  have "wf_ids q_id (queue_seq s + 1) (response_actions_queue s @ [?r])"
    by (rule wf_ids_insert [OF queue_inv_ids(1) [OF inv]]) (simp add: new_queue_row_def)
  moreover have "queue_row_ok ?r" by (simp add: queue_row_ok_def new_queue_row_def)
  ultimately have "queue_safe sha256 s
      (s\<lparr>queue_seq := queue_seq s + 1, response_actions_queue := response_actions_queue s @ [?r]\<rparr>)"
    if "\<not> (\<exists>r' \<in> set (response_actions_queue s). q_idempotency_key r' = q_idempotency_key ?r)"
    using that inv a by (auto simp: queue_safe_def queue_inv_def new_queue_row_def queue.evolves_insert)
  with bump Inr show ?thesis by (simp add: enqueue_response_action_def Let_def)
qed (simp add: enqueue_response_action_def queue_safe_refl inv)

lemma claim_safe:
  assumes inv: "queue_inv sha256 s"
  shows "queue_safe sha256 s (snd (claim_next_pending_action locked clk now s))"
    and "queue_safe sha256 s (snd (claim_next_approved_awaiting_action apps locked clk now s))"
    and "queue_safe sha256 s (snd (skip_next_terminal_approval_action apps locked clk now s))"
proof -
  have "queue_step r (r\<lparr>q_status := QRunning, q_updated_at := t\<rparr>)" if "q_status r = QPending" for r t
    using qs_claim [OF that, of "q_last_error r" t] by (simp add: set_queue_status_def)
  then show "queue_safe sha256 s (snd (claim_next_pending_action locked clk now s))"
    unfolding claim_next_pending_action_def by (intro claim_first_safe [OF inv])
  show "queue_safe sha256 s (snd (claim_next_approved_awaiting_action apps locked clk now s))"
    unfolding claim_next_approved_awaiting_action_def
    by (intro claim_first_safe [OF inv]) (simp add: row_steps)
  have "queue_safe sha256 s (snd (claim_first locked (terminally_refused apps) (set_refused apps t) s))" for t
    by (intro claim_first_safe [OF inv]) (auto simp: terminally_refused_def set_refused_def intro: row_steps)
  then show "queue_safe sha256 s (snd (skip_next_terminal_approval_action apps locked clk now s))"
    by (simp add: skip_next_terminal_approval_action_def case_prod_unfold)
qed

lemma unlocked_subset: "set (unlocked_by_id locked p t) \<subseteq> set (filter p t)"
  by (auto simp: unlocked_by_id_def)

lemma chosen_subset: "set (limit n (unlocked_by_id locked p t)) \<subseteq> set (filter p t)"
  using set_limit_subset unlocked_subset by fast

lemma sweep_safe:
  assumes inv: "queue_inv sha256 s"
  shows "queue_safe sha256 s (snd (sweep_terminal_approval_queue_rows apps locked clk now lim s))"
proof -
  let ?c = "limit (min (max lim 0) 100) (unlocked_by_id locked (terminally_refused apps) (response_actions_queue s))"
  have "queue_safe sha256 s (snd (update_chosen ?c (set_refused apps t) s))" for t
    by (rule update_chosen_safe [OF inv chosen_subset])
      (auto simp: terminally_refused_def set_refused_def intro: row_steps)
  then show ?thesis
    by (simp add: sweep_terminal_approval_queue_rows_def Let_def case_prod_unfold)
qed

lemma recover_safe:
  assumes inv: "queue_inv sha256 s"
  shows "queue_safe sha256 s (snd (recover_stale_running_actions locked clk now d lim s))"
proof -
  let ?p = "\<lambda>t r. q_status r = QRunning \<and> q_updated_at r \<le> t - seconds (whole_seconds d)"
  have *: "queue_safe sha256 s (snd (update_chosen c (set_recovered t) s))"
    if "set c \<subseteq> set (filter (?p t) (response_actions_queue s))" for c t
    using inv that by (rule update_chosen_safe) (simp add: row_steps)
  show ?thesis
    using *[OF unlocked_subset] *[OF chosen_subset] queue_safe_refl [OF inv]
    by (simp add: recover_stale_running_actions_def Let_def case_prod_unfold split: option.split)
qed

lemma linkage_safe:
  assumes inv: "queue_inv sha256 s"
  shows "queue_safe sha256 s (snd (set_queue_linkage i d c s))"
  using queue_safe_update [OF inv, of "\<lambda>r. q_id r = i" "set_linkage d c"] queue_safe_refl [OF inv]
  by (simp add: set_queue_linkage_def Let_def row_steps)

lemma mark_safe:
  assumes inv: "queue_inv sha256 s"
  shows "queue_safe sha256 s (snd (mark_action_awaiting_approval clk i e now s))"
    and "queue_safe sha256 s (snd (mark_awaiting_approval_skipped clk i e now s))"
    and "queue_safe sha256 s (snd (mark_action_success clk i now s))"
    and "queue_safe sha256 s (snd (mark_action_skipped clk i e now s))"
    and "queue_safe sha256 s (snd (mark_action_failed clk i e now s))"
    and "queue_safe sha256 s (snd (requeue_failed_action clk i now s))"
  unfolding mark_action_awaiting_approval_def mark_awaiting_approval_skipped_def mark_action_success_def
    mark_action_skipped_def mark_action_failed_def requeue_failed_action_def transition_running_action_def
    transition_action_status_def
  by (intro transition_where_safe [OF inv]; simp add: row_steps)+

lemma record_failure_safe:
  assumes inv: "queue_inv sha256 s"
  shows "queue_safe sha256 s (snd (record_action_failure clk i e b now s))"
proof (cases "mark_action_failed clk i e now s")
  case (Pair res s')
  have s': "queue_safe sha256 s s'" using mark_safe(5) [OF inv, of clk i e now] by (simp add: Pair)
  then have "queue_inv sha256 s'" by (simp add: queue_safe_def)
  from queue_safe_trans [OF s' mark_safe(6) [OF this]] s' show ?thesis
    by (auto simp: record_action_failure_def Pair split: sum.splits)
qed

inductive queue_op :: "(string \<Rightarrow> string) \<Rightarrow> queue_db \<Rightarrow> queue_db \<Rightarrow> bool" for sha256 where
  qo_enqueue: "queue_op sha256 s (snd (enqueue_response_action sha256 clk al ip act mr s))"
| qo_claim: "queue_op sha256 s (snd (claim_next_pending_action locked clk now s))"
| qo_claim_approved: "queue_op sha256 s (snd (claim_next_approved_awaiting_action apps locked clk now s))"
| qo_skip_next: "queue_op sha256 s (snd (skip_next_terminal_approval_action apps locked clk now s))"
| qo_sweep: "queue_op sha256 s (snd (sweep_terminal_approval_queue_rows apps locked clk now lim s))"
| qo_await: "queue_op sha256 s (snd (mark_action_awaiting_approval clk i e now s))"
| qo_refuse: "queue_op sha256 s (snd (mark_awaiting_approval_skipped clk i e now s))"
| qo_success: "queue_op sha256 s (snd (mark_action_success clk i now s))"
| qo_skipped: "queue_op sha256 s (snd (mark_action_skipped clk i e now s))"
| qo_failed: "queue_op sha256 s (snd (mark_action_failed clk i e now s))"
| qo_requeue: "queue_op sha256 s (snd (requeue_failed_action clk i now s))"
| qo_record: "queue_op sha256 s (snd (record_action_failure clk i e b now s))"
| qo_recover: "queue_op sha256 s (snd (recover_stale_running_actions locked clk now d lim s))"
| qo_link: "queue_op sha256 s (snd (set_queue_linkage i dec c s))"

definition queue_init :: queue_db where
  "queue_init = \<lparr>response_actions_queue = [], queue_seq = 1\<rparr>"

lemma queue_inv_init: "queue_inv sha256 queue_init"
  by (simp add: queue_inv_def queue_init_def)

lemma queue_op_safe: "queue_op sha256 s s' \<Longrightarrow> queue_inv sha256 s \<Longrightarrow> queue_safe sha256 s s'"
  by (induction rule: queue_op.induct)
    (simp_all only: enqueue_safe claim_safe sweep_safe recover_safe linkage_safe mark_safe record_failure_safe)

interpretation queue_ops: store_ops "queue_op sha256" "queue_inv sha256"
  "\<lambda>s s'. evolves q_id queue_step (response_actions_queue s) (response_actions_queue s')" for sha256
  by unfold_locales
    (auto dest: queue_op_safe simp: queue_safe_def queue.evolves_refl intro: queue.evolves_trans)

subsection \<open>Claims, keys and recovery in detail\<close>

lemma fetchone_limit1: "fetchone (limit 1 xs) = fetchone xs"
  by (cases xs) (auto simp: limit_def fetchone_def)

lemma claim_first_cases:
  assumes inv: "queue_inv sha256 s" and run: "claim_first locked p f s = (res, s')"
  obtains
    (none) "res = None" "s' = s" "\<forall>x \<in> set (response_actions_queue s). p x \<longrightarrow> locked (q_id x)"
  | (claimed) c where "c \<in> set (response_actions_queue s)" "p c" "\<not> locked (q_id c)" "res = Some (f c)"
      "s' = s\<lparr>response_actions_queue := update_where (\<lambda>r. q_id r = q_id c) f (response_actions_queue s)\<rparr>"
      "\<forall>x \<in> set (response_actions_queue s). p x \<longrightarrow> \<not> locked (q_id x) \<longrightarrow> q_id c \<le> q_id x"
proof (cases "fetchone (unlocked_by_id locked p (response_actions_queue s))")
  case None
  then have "\<forall>x \<in> set (response_actions_queue s). p x \<longrightarrow> locked (q_id x)"
    by (auto simp: fetchone_None unlocked_by_id_def filter_empty_conv)
  with None run show ?thesis by (intro none) (simp_all add: claim_first_def fetchone_limit1)
next
  case (Some c)
  let ?u = "unlocked_by_id locked p (response_actions_queue s)"
  have c: "c \<in> set (response_actions_queue s)" "p c" "\<not> locked (q_id c)"
    using fetchone_mem [OF Some] by (auto simp: unlocked_by_id_def)
  have "sorted (map q_id ?u)" unfolding unlocked_by_id_def order_asc_def by (intro sorted_filter) simp
  with Some have "\<forall>x \<in> set ?u. q_id c \<le> q_id x" by (auto simp: fetchone_Some)
  then have least: "\<forall>x \<in> set (response_actions_queue s). p x \<longrightarrow> \<not> locked (q_id x) \<longrightarrow> q_id c \<le> q_id x"
    by (simp add: unlocked_by_id_def)
  have "(res, s') = (Some (f c),
      s\<lparr>response_actions_queue := update_where (\<lambda>r. q_id r = q_id c) f (response_actions_queue s)\<rparr>)"
    using Some returning_id [OF queue_inv_ids(2) [OF inv] c(1)]
    by (simp add: run [symmetric] claim_first_def fetchone_limit1 Let_def fetchone_def [of "[f c]"])
  with c least show ?thesis by (intro claimed [of c]) simp_all
qed

lemma colon_split:
  assumes "a @ CHR '':'' # x = b @ CHR '':'' # y" "CHR '':'' \<notin> set a" "CHR '':'' \<notin> set b"
  shows "a = b" "x = y"
proof -
  have t: "takeWhile (\<lambda>c. c \<noteq> CHR '':'') (u @ CHR '':'' # v) = u" if "CHR '':'' \<notin> set u" for u v
    using that by (subst takeWhile_append2) auto
  show "a = b" using arg_cong [OF assms(1), of "takeWhile (\<lambda>c. c \<noteq> CHR '':'')"] assms(2,3) by (simp add: t)
  with assms(1) show "x = y" by simp
qed

lemma show_opt_id_facts:
  "CHR '':'' \<notin> set (show_opt_id i)" "show_opt_id i = show_opt_id j \<longleftrightarrow> i = j"
proof -
  show "CHR '':'' \<notin> set (show_opt_id i)"
    using show_int_chars [of "CHR '':''"] by (auto simp: show_opt_id_def split: option.splits)
  have ne: "show_int n \<noteq> ''None''" for n
    using show_int_chars [of "CHR ''N''" n] by auto
  show "show_opt_id i = show_opt_id j \<longleftrightarrow> i = j"
    by (simp add: show_opt_id_def ne ne [THEN not_sym] split: option.split)
qed

text \<open>The key's text determines the alert, the address and the action.\<close>

lemma raw_key_inj:
  assumes "raw_key al ip a = raw_key al' ip' a'"
    and "a \<in> set RESPONSE_QUEUE_ACTIONS" "a' \<in> set RESPONSE_QUEUE_ACTIONS"
  shows "al = al'" "coalesce ip ''None'' = coalesce ip' ''None''" "a = a'"
proof -
  have nc: "CHR '':'' \<notin> set (rev a)" "CHR '':'' \<notin> set (rev a')"
    using assms(2,3) by (auto simp: RESPONSE_QUEUE_ACTIONS_def)
  have "show_opt_id al @ CHR '':'' # (coalesce ip ''None'' @ '':'' @ a) =
      show_opt_id al' @ CHR '':'' # (coalesce ip' ''None'' @ '':'' @ a')"
    using assms(1) by (simp add: raw_key_def)
  note 1 = colon_split [OF this show_opt_id_facts(1) show_opt_id_facts(1)]
  from 1(1) show "al = al'" by (simp add: show_opt_id_facts(2))
  from arg_cong [OF 1(2), of rev]
  have "rev a @ CHR '':'' # rev (coalesce ip ''None'') = rev a' @ CHR '':'' # rev (coalesce ip' ''None'')"
    by simp
  note 2 = colon_split [OF this nc]
  from 2 show "coalesce ip ''None'' = coalesce ip' ''None''" "a = a'" by simp_all
qed

subsection \<open>Properties\<close>

text \<open>C28: The failed attempts of an action are bounded: in every reachable state the \<open>retry_count\<close> of a
  row that allows retries is between 0 and \<open>max_retries\<close>, and that of a row with \<open>max_retries\<close> below 1,
  which the table permits, is 0 or 1. A row that has failed at least once and has no attempt left is
  failed, and no operation of the queue, whatever its arguments, gives it back to the workers.\<close>

theorem queue_attempts_bounded:
  assumes "(queue_op sha256)\<^sup>*\<^sup>* queue_init s" "r \<in> set (response_actions_queue s)"
  shows "0 \<le> q_retry_count r \<and>
    (if 1 \<le> q_max_retries r then q_retry_count r \<le> q_max_retries r else q_retry_count r \<le> 1) \<and>
    (1 \<le> q_retry_count r \<and> q_max_retries r \<le> q_retry_count r \<longrightarrow> q_status r = QFailed \<and>
      (\<forall>s'. (queue_op sha256)\<^sup>*\<^sup>* s s' \<longrightarrow> (\<exists>r'. get_queue_action (q_id r) s' = Some r' \<and>
         q_status r' = QFailed \<and> q_retry_count r' = q_retry_count r)))"
proof -
  have inv: "queue_inv sha256 s" using assms(1) queue_inv_init by (rule queue_ops.ops_inv)
  then have row: "queue_row_ok r" using assms(2) by (simp add: queue_inv_def)
  have kept: "\<exists>r'. get_queue_action (q_id r) s' = Some r' \<and> q_status r' = QFailed \<and> q_retry_count r' = q_retry_count r"
    if d: "queue_done r" "q_status r = QFailed" "(queue_op sha256)\<^sup>*\<^sup>* s s'" for s'
  proof -
    have same: "q_status x = q_status y \<and> q_retry_count x = q_retry_count y" if "unlinked x = unlinked y" for x y
      using arg_cong [OF that, of q_status] arg_cong [OF that, of q_retry_count] by (simp add: unlinked_def)
    obtain r' where "get_queue_action (q_id r) s' = Some r'" "unlinked r' = unlinked r"
      unfolding get_queue_action_def
      using queue.final_kept_selected [OF queue_ops.ops_rel [OF d(3) inv] _ assms(2) d(1)]
        queue_inv_ids(1) [OF queue_ops.ops_inv [OF d(3) inv]] by blast
    then show ?thesis using same [of r' r] d(2) by auto
  qed
  from row kept show ?thesis by (auto simp: queue_row_ok_def queue_done_def)
qed

text \<open>A finished action stays finished: once a row succeeded, was skipped, or failed with no
  retry left, no sequence of queue operations changes it in any column but the two that link it
  to a decision.\<close>

theorem finished_action_final:
  assumes "queue_inv sha256 s" "(queue_op sha256)\<^sup>*\<^sup>* s s'"
    and "r \<in> set (response_actions_queue s)" "queue_done r"
  shows "\<exists>r'. get_queue_action (q_id r) s' = Some r' \<and> queue_done r' \<and> unlinked r' = unlinked r"
  unfolding get_queue_action_def
  using queue.final_kept_selected [OF queue_ops.ops_rel [OF assms(2,1)] _ assms(3,4)]
    queue_inv_ids(1) [OF queue_ops.ops_inv [OF assms(2,1)]] by blast

text \<open>Workers take actions first-in first-out and never the same one twice: a claim moves the
  oldest pending row that nobody holds to running; a second worker that claims at the same time,
  and so passes over the row the first one holds, gets a younger row, and a worker that claims
  after the first commit gets another row.\<close>

theorem claims_fifo_and_exclusive:
  assumes inv: "queue_inv sha256 s"
    and first: "claim_next_pending_action locked clk now s = (Some r, s1)"
    and same_time: "claim_next_pending_action (\<lambda>i. locked i \<or> i = q_id r) clk' now' s = (Some r2, s2)"
    and later: "claim_next_pending_action locked' clk'' now'' s1 = (Some r3, s3)"
  shows "get_queue_action (q_id r) s1 = Some r \<and> q_status r = QRunning \<and>
    (\<forall>x \<in> set (response_actions_queue s). q_status x = QPending \<longrightarrow> \<not> locked (q_id x) \<longrightarrow> q_id r \<le> q_id x) \<and>
    q_id r < q_id r2 \<and> q_id r3 \<noteq> q_id r"
proof -
  have inv1: "queue_inv sha256 s1"
    using claim_safe(1) [OF inv, of locked clk now] first by (simp add: queue_safe_def)
  from inv first obtain c f where c: "c \<in> set (response_actions_queue s)" "q_status c = QPending"
    "\<not> locked (q_id c)" "r = f c" "q_id (f c) = q_id c" "q_status (f c) = QRunning"
    "s1 = s\<lparr>response_actions_queue := update_where (\<lambda>x. q_id x = q_id c) f (response_actions_queue s)\<rparr>"
    and least: "\<forall>x \<in> set (response_actions_queue s). q_status x = QPending \<longrightarrow> \<not> locked (q_id x) \<longrightarrow> q_id c \<le> q_id x"
    unfolding claim_next_pending_action_def by (cases rule: claim_first_cases) auto
  have mem: "set (response_actions_queue s1) = insert r (set (response_actions_queue s) - {c})"
    using set_update_id [OF queue_inv_ids(2) [OF inv] c(1), of f] by (simp add: c(4,7))
  then have got: "get_queue_action (q_id r) s1 = Some r"
    unfolding get_queue_action_def using queue_inv_ids(2) [OF inv1] by (intro select_id_mem) auto
  from inv same_time obtain d where d: "d \<in> set (response_actions_queue s)" "q_status d = QPending"
    "\<not> locked (q_id d)" "q_id d \<noteq> q_id r" "q_id r2 = q_id d"
    unfolding claim_next_pending_action_def by (cases rule: claim_first_cases) auto
  have "q_id r \<le> q_id d" using least d(1-3) by (simp add: c(4,5))
  then have "q_id r < q_id r2" using d(4,5) by simp
  moreover from inv1 later obtain e where e: "e \<in> set (response_actions_queue s1)" "q_status e = QPending"
    "q_id r3 = q_id e"
    unfolding claim_next_pending_action_def by (cases rule: claim_first_cases) auto
  have "e \<noteq> r" using e(2) by (auto simp: c(4,6))
  with e mem have "q_id e \<noteq> q_id r"
    using distinct_key_unique [OF queue_inv_ids(2) [OF inv1] e(1), of r] by auto
  ultimately show ?thesis using got least by (simp add: c(4-6) e(3))
qed

definition already_queued :: "row_id option \<Rightarrow> string option \<Rightarrow> string \<Rightarrow> queue_db \<Rightarrow> bool" where
  "already_queued al ip a s \<longleftrightarrow> (\<exists>r \<in> set (response_actions_queue s). q_alert_id r = al \<and>
     coalesce (q_source_ip r) ''None'' = coalesce ip ''None'' \<and> q_action r = a)"

text \<open>C29: Enqueueing loses nothing and duplicates nothing: if the hash has no collision among the
  keys in use, \<open>enqueue_response_action\<close> returns \<open>None\<close> exactly when the same action for the same
  alert and address is already in the table (whatever became of it), and then leaves the table
  alone; otherwise it appends one pending row with the returned id.\<close>

theorem enqueue_exactly_once:
  assumes inv: "queue_inv sha256 s"
    and valid: "validate_action_for_response_queue act = Inr a"
    and no_collision: "inj_on sha256 (insert (raw_key al ip a)
      {raw_key (q_alert_id r) (q_source_ip r) (q_action r) |r. r \<in> set (response_actions_queue s)})"
    and run: "enqueue_response_action sha256 clk al ip act mr s = (res, s')"
  shows "res = Inr (if already_queued al ip a s
      then None else Some (queue_seq s)) \<and>
    response_actions_queue s' = response_actions_queue s @
      (if res = Inr None then [] else [new_queue_row sha256 clk al ip a mr (queue_seq s)])"
proof -
  note a = queue_validator_range [OF valid]
  have "(q_idempotency_key r = compute_idempotency_key sha256 al ip a) \<longleftrightarrow>
      q_alert_id r = al \<and> coalesce (q_source_ip r) ''None'' = coalesce ip ''None'' \<and> q_action r = a"
    if r: "r \<in> set (response_actions_queue s)" for r
  proof -
    have k: "q_idempotency_key r = sha256 (raw_key (q_alert_id r) (q_source_ip r) (q_action r))"
      "q_action r \<in> set RESPONSE_QUEUE_ACTIONS"
      using inv r by (auto simp: queue_inv_def compute_idempotency_key_def)
    have "sha256 (raw_key (q_alert_id r) (q_source_ip r) (q_action r)) = sha256 (raw_key al ip a) \<longleftrightarrow>
        raw_key (q_alert_id r) (q_source_ip r) (q_action r) = raw_key al ip a"
      using no_collision by (rule inj_on_eq_iff) (use r in blast)+
    also have "\<dots> \<longleftrightarrow> q_alert_id r = al \<and> coalesce (q_source_ip r) ''None'' = coalesce ip ''None'' \<and> q_action r = a"
    proof
      assume "raw_key (q_alert_id r) (q_source_ip r) (q_action r) = raw_key al ip a"
      from raw_key_inj [OF this k(2) a] show "q_alert_id r = al \<and>
        coalesce (q_source_ip r) ''None'' = coalesce ip ''None'' \<and> q_action r = a" by simp
    qed (simp add: raw_key_def)
    finally show ?thesis by (simp add: k(1) compute_idempotency_key_def)
  qed
  then have "(\<exists>r' \<in> set (response_actions_queue s). q_idempotency_key r' = compute_idempotency_key sha256 al ip a) \<longleftrightarrow>
      already_queued al ip a s" by (auto simp: already_queued_def)
  moreover have "q_idempotency_key (new_queue_row sha256 clk al ip a mr (queue_seq s)) =
      compute_idempotency_key sha256 al ip a" "q_id (new_queue_row sha256 clk al ip a mr (queue_seq s)) = queue_seq s"
    by (simp_all add: new_queue_row_def)
  ultimately have run': "(res, s') = (if already_queued al ip a s
      then (Inr None, s\<lparr>queue_seq := queue_seq s + 1\<rparr>)
      else (Inr (Some (queue_seq s)), s\<lparr>queue_seq := queue_seq s + 1,
        response_actions_queue := response_actions_queue s @ [new_queue_row sha256 clk al ip a mr (queue_seq s)]\<rparr>))"
    unfolding run [symmetric] enqueue_response_action_def valid Let_def sum.case
    by (simp only:)
  show ?thesis by (cases "already_queued al ip a s") (use run' in simp_all)
qed

text \<open>Recovering a stale action does not count as an attempt: for rows that allow a retry,
  \<open>recover_stale_running_actions\<close> puts every stale row back to pending with the same
  \<open>retry_count\<close>; the branch that fails a row with exhausted retries is never taken, so an action
  whose worker dies every time is run without bound.\<close>

theorem stale_recovery_never_exhausts:
  assumes inv: "queue_inv sha256 s"
    and retries: "\<forall>r \<in> set (response_actions_queue s). 1 \<le> q_max_retries r"
    and run: "recover_stale_running_actions locked clk now d lim s = (Inr rows, s')"
  shows "\<forall>r' \<in> set rows. q_status r' = QPending \<and>
    (\<exists>r \<in> set (response_actions_queue s). q_id r = q_id r' \<and> q_status r = QRunning \<and>
        q_retry_count r' = q_retry_count r \<and> q_last_error r' = q_last_error r)"
proof
  let ?t = "coalesce now (sql_now clk)"
  let ?p = "\<lambda>r. q_status r = QRunning \<and> q_updated_at r \<le> ?t - seconds (whole_seconds d)"
  obtain c where c: "set c \<subseteq> set (filter ?p (response_actions_queue s))"
    "rows = returning (\<lambda>r. q_id r \<in> q_id ` set c) (set_recovered ?t) (response_actions_queue s)"
    using run unlocked_subset [of locked ?p "response_actions_queue s"]
      chosen_subset [of _ locked ?p "response_actions_queue s"]
    by (cases lim) (simp_all add: recover_stale_running_actions_def update_chosen_def Let_def split: if_splits, blast+)
  fix r' assume "r' \<in> set rows"
  then obtain r x where r: "r \<in> set (response_actions_queue s)" "r' = set_recovered ?t r" "x \<in> set c" "q_id r = q_id x"
    by (auto simp: c(2) returning_mem)
  then have "x \<in> set (response_actions_queue s)" using c(1) by auto
  with r have "r = x" using distinct_key_unique [OF queue_inv_ids(2) [OF inv]] by blast
  then have run': "q_status r = QRunning" using c(1) r(3) by auto
  have "queue_row_ok r" "1 \<le> q_max_retries r" using inv r(1) retries by (auto simp: queue_inv_def)
  with run' have "q_retry_count r < q_max_retries r" by (auto simp: queue_row_ok_def)
  with r run' show "q_status r' = QPending \<and> (\<exists>r \<in> set (response_actions_queue s). q_id r = q_id r' \<and>
      q_status r = QRunning \<and> q_retry_count r' = q_retry_count r \<and> q_last_error r' = q_last_error r)"
    by (auto simp: queue_updates)
qed

subsection \<open>Witnesses\<close>

text \<open>Three actions are enqueued at time 0, with the identity for the hash.\<close>

definition wit_hash :: "string \<Rightarrow> string" where
  "wit_hash = (\<lambda>x. x)"

definition wit_enqueue :: "row_id \<Rightarrow> string \<Rightarrow> queue_db \<Rightarrow> queue_db" where
  "wit_enqueue al act s =
     snd (enqueue_response_action wit_hash (wit_clock 0) (Some al) (Some ''10.0.0.9'') (Some act) 3 s)"

definition wit_queue :: queue_db where
  "wit_queue = wit_enqueue 3 ''block_ip'' (wit_enqueue 2 ''escalate'' (wit_enqueue 1 ''monitor'' queue_init))"

definition wit_claimed :: "queue_row option \<times> queue_db" where
  "wit_claimed = claim_next_pending_action (\<lambda>_. False) (wit_clock 1) None wit_queue"

definition wit_skipped :: queue_db where
  "wit_skipped = snd (mark_action_skipped (wit_clock 2) 1 (Some ''no'') None (snd wit_claimed))"

lemma wit_enqueue_op: "queue_op wit_hash s (wit_enqueue al act s)"
  unfolding wit_enqueue_def by (rule qo_enqueue)

lemma wit_queue_reach: "(queue_op wit_hash)\<^sup>*\<^sup>* queue_init wit_queue"
  unfolding wit_queue_def by (rule rtranclp.rtrancl_into_rtrancl [OF rtranclp.rtrancl_into_rtrancl [OF r_into_rtranclp]]; rule wit_enqueue_op)

lemma wit_claimed_reach: "(queue_op wit_hash)\<^sup>*\<^sup>* queue_init (snd wit_claimed)"
  unfolding wit_claimed_def by (rule rtranclp.rtrancl_into_rtrancl, rule wit_queue_reach) (rule qo_claim)

lemma wit_skipped_reach: "(queue_op wit_hash)\<^sup>*\<^sup>* queue_init wit_skipped"
  unfolding wit_skipped_def by (rule rtranclp.rtrancl_into_rtrancl, rule wit_claimed_reach) (rule qo_skipped)

lemmas wit_queue_inv =
  queue_ops.ops_inv [OF wit_queue_reach queue_inv_init]
  queue_ops.ops_inv [OF wit_claimed_reach queue_inv_init]
  queue_ops.ops_inv [OF wit_skipped_reach queue_inv_init]

lemma wit_skipped_rows: "map q_status (response_actions_queue wit_skipped) = [QSkipped, QPending, QPending]"
  by code_simp

text \<open>The first action fails three times, the number of its retries.\<close>

definition wit_attempt :: "queue_db \<Rightarrow> queue_db" where
  "wit_attempt s = snd (mark_action_failed (wit_clock 2) 1 (Some ''timeout'') None
     (snd (claim_next_pending_action (\<lambda>_. False) (wit_clock 1) None s)))"

definition wit_exhausted :: queue_db where
  "wit_exhausted = wit_attempt (snd (requeue_failed_action (wit_clock 3) 1 None
     (wit_attempt (snd (requeue_failed_action (wit_clock 3) 1 None (wit_attempt wit_queue))))))"

lemma wit_exhausted_reach: "(queue_op wit_hash)\<^sup>*\<^sup>* queue_init wit_exhausted"
proof -
  have fail: "(queue_op wit_hash)\<^sup>*\<^sup>* queue_init (wit_attempt s)" if "(queue_op wit_hash)\<^sup>*\<^sup>* queue_init s" for s
    unfolding wit_attempt_def
    by (rule rtranclp.rtrancl_into_rtrancl, rule rtranclp.rtrancl_into_rtrancl, rule that, rule qo_claim) (rule qo_failed)
  have again: "(queue_op wit_hash)\<^sup>*\<^sup>* queue_init (snd (requeue_failed_action (wit_clock 3) 1 None s))"
    if "(queue_op wit_hash)\<^sup>*\<^sup>* queue_init s" for s
    using that by (rule rtranclp.rtrancl_into_rtrancl) (rule qo_requeue)
  show ?thesis unfolding wit_exhausted_def by (intro fail again wit_queue_reach)
qed

lemma wit_exhausted_row:
  "(case response_actions_queue wit_exhausted of
      r # _ \<Rightarrow> (q_id r, q_status r, q_retry_count r, q_max_retries r)) = (1, QFailed, 3, 3)"
  by code_simp

theorem queue_attempts_bounded_witness:
  "\<exists>r'. get_queue_action 1 (snd (requeue_failed_action (wit_clock 9) 1 None wit_exhausted)) = Some r' \<and>
     q_status r' = QFailed \<and> q_retry_count r' = 3"
proof -
  obtain r t where rt: "response_actions_queue wit_exhausted = r # t"
    using wit_exhausted_row by (cases "response_actions_queue wit_exhausted") (auto, code_simp)
  then have r: "q_id r = 1" "q_retry_count r = 3" "q_max_retries r = 3" using wit_exhausted_row by simp_all
  have "r \<in> set (response_actions_queue wit_exhausted)" by (simp add: rt)
  from queue_attempts_bounded [OF wit_exhausted_reach this] r
    r_into_rtranclp [of "queue_op wit_hash", OF qo_requeue [of wit_hash wit_exhausted "wit_clock 9" 1 None]]
  show ?thesis by auto
qed

theorem finished_action_final_witness:
  "\<exists>r'. get_queue_action 1 (snd (requeue_failed_action (wit_clock 9) 1 None wit_skipped)) = Some r' \<and>
     queue_done r' \<and> unlinked r' = unlinked (response_actions_queue wit_skipped ! 0)"
proof -
  let ?r = "response_actions_queue wit_skipped ! 0"
  have r: "?r \<in> set (response_actions_queue wit_skipped)"
    using arg_cong [OF wit_skipped_rows, of length] by (metis length_map length_greater_0_conv list.distinct(1) nth_mem)
  have d: "queue_done ?r" "q_id ?r = 1" by code_simp+
  show ?thesis
    using finished_action_final [OF wit_queue_inv(3) r_into_rtranclp [of "queue_op wit_hash", OF qo_requeue] r d(1)]
    unfolding d(2) by blast
qed

theorem claims_fifo_and_exclusive_witness:
  "q_id (the (fst wit_claimed)) <
     q_id (the (fst (claim_next_pending_action (\<lambda>i. False \<or> i = q_id (the (fst wit_claimed))) (wit_clock 1) None wit_queue)))"
proof -
  let ?second = "claim_next_pending_action (\<lambda>i. False \<or> i = q_id (the (fst wit_claimed))) (wit_clock 1) None wit_queue"
    and ?third = "claim_next_pending_action (\<lambda>_. False) (wit_clock 1) None (snd wit_claimed)"
  have "wit_claimed = (Some (the (fst wit_claimed)), snd wit_claimed)" by code_simp
  then have 1: "claim_next_pending_action (\<lambda>_. False) (wit_clock 1) None wit_queue =
      (Some (the (fst wit_claimed)), snd wit_claimed)" by (simp only: wit_claimed_def)
  have 2: "?second = (Some (the (fst ?second)), snd ?second)" by code_simp
  have 3: "?third = (Some (the (fst ?third)), snd ?third)" by code_simp
  show ?thesis using claims_fifo_and_exclusive [OF wit_queue_inv(1) 1 2 3] by simp
qed

theorem enqueue_exactly_once_witness:
  "fst (enqueue_response_action wit_hash (wit_clock 5) (Some 2) (Some ''10.0.0.9'') (Some '' flag_high_priority'') 3 wit_queue) =
     Inr None"
proof -
  have v: "validate_action_for_response_queue (Some '' flag_high_priority'') = Inr ''flag_high_priority''" by code_simp
  have i: "inj_on wit_hash A" for A by (simp add: wit_hash_def)
  have ex: "already_queued (Some 2) (Some ''10.0.0.9'') ''flag_high_priority'' wit_queue" by code_simp
  show ?thesis using enqueue_exactly_once [OF wit_queue_inv(1) v i prod.collapse [symmetric]] ex by simp
qed

theorem stale_recovery_never_exhausts_witness:
  "\<exists>rows. fst (recover_stale_running_actions (\<lambda>_. False) (wit_clock (minutes 16)) None STALE_RUNNING_TIMEOUT None
      (snd wit_claimed)) = Inr rows \<and> map q_id rows = [1] \<and> list_all (\<lambda>r'. q_status r' = QPending) rows"
proof -
  let ?run = "recover_stale_running_actions (\<lambda>_. False) (wit_clock (minutes 16)) None STALE_RUNNING_TIMEOUT None
      (snd wit_claimed)"
  have m: "\<forall>r \<in> set (response_actions_queue (snd wit_claimed)). 1 \<le> q_max_retries r" by code_simp
  have run: "?run = (Inr (projr (fst ?run)), snd ?run)" by code_simp
  have f: "fst ?run = Inr (projr (fst ?run))" "map q_id (projr (fst ?run)) = [1]" by code_simp+
  have p: "list_all (\<lambda>r'. q_status r' = QPending) (projr (fst ?run))"
    unfolding list_all_iff using stale_recovery_never_exhausts [OF wit_queue_inv(2) m run] by blast
  show ?thesis by (rule exI [of _ "projr (fst ?run)"]) (intro conjI f p)
qed

end
