(* ===== verification/Py_Values.thy ===== *)
theory Py_Values
  imports Prelude Complex_Main
begin

text \<open>
  The JSON values the sources pass around (\<open>None\<close>, \<open>bool\<close>, \<open>int\<close>, \<open>float\<close>, \<open>str\<close>, \<open>list\<close>,
  \<open>dict\<close> with string keys), truth, \<open>dict.get\<close> and \<open>repr\<close> of a list of names. A \<open>dict\<close> is the
  list of its items in insertion order, its keys distinct. A \<open>float\<close> is its rational value; the
  infinities and NaN, which JSON does not have, are left out.
\<close>

datatype pyval =
    PNone
  | PBool bool
  | PInt int
  | PFloat rat
  | PStr string
  | PList "pyval list"
  | PDict "(string \<times> pyval) list"

type_synonym items = "(string \<times> pyval) list"

fun truthy :: "pyval \<Rightarrow> bool" where
  "truthy PNone = False"
| "truthy (PBool b) = b"
| "truthy (PInt i) = (i \<noteq> 0)"
| "truthy (PFloat q) = (q \<noteq> 0)"
| "truthy (PStr s) = (s \<noteq> [])"
| "truthy (PList xs) = (xs \<noteq> [])"
| "truthy (PDict d) = (d \<noteq> [])"

fun is_str :: "pyval \<Rightarrow> bool" where
  "is_str (PStr _) = True" | "is_str _ = False"

fun is_dict :: "pyval \<Rightarrow> bool" where
  "is_dict (PDict _) = True" | "is_dict _ = False"

fun is_list :: "pyval \<Rightarrow> bool" where
  "is_list (PList _) = True" | "is_list _ = False"

fun is_bool :: "pyval \<Rightarrow> bool" where
  "is_bool (PBool _) = True" | "is_bool _ = False"

text \<open>\<open>d.get(k)\<close>, and \<open>d[k] = v\<close>, which keeps the place of a key that is there.\<close>

definition dict_get :: "items \<Rightarrow> string \<Rightarrow> pyval" where
  "dict_get d k = coalesce (map_of d k) PNone"

fun dict_set :: "items \<Rightarrow> string \<Rightarrow> pyval \<Rightarrow> items" where
  "dict_set [] k v = [(k, v)]"
| "dict_set ((k', v') # d) k v = (if k' = k then (k, v) # d else (k', v') # dict_set d k v)"

definition py_list_repr :: "string list \<Rightarrow> string" where
  "py_list_repr xs = ''['' @ concat (case map py_repr xs of [] \<Rightarrow> [] | y # ys \<Rightarrow> y # map (\<lambda>z. '', '' @ z) ys) @ '']''"

lemma map_of_dict_set: "map_of (dict_set d k v) = (map_of d)(k \<mapsto> v)"
  by (induction d k v rule: dict_set.induct) auto

lemma dict_get_set: "dict_get (dict_set d k v) k' = (if k' = k then v else dict_get d k')"
  by (simp add: dict_get_def map_of_dict_set)

lemma keys_dict_set: "map fst (dict_set d k v) = map fst d @ (if k \<in> fst ` set d then [] else [k])"
  by (induction d k v rule: dict_set.induct) auto

lemma distinct_dict_set: "distinct (map fst d) \<Longrightarrow> distinct (map fst (dict_set d k v))"
  by (auto simp: keys_dict_set)

subsection \<open>Text of a value\<close>

text \<open>The result of \<open>float(..)\<close>: a finite number, one of the infinities, or not a number. Floats
  that come out of JSON columns are finite, so \<^const>\<open>PFloat\<close> holds a number.\<close>

datatype float_value = Fin rat | Inf | NegInf | NaN

text \<open>How \<open>float\<close>s and \<open>datetime\<close>s are written and read is a parameter: \<open>repr\<close> of a float,
  \<open>float(s)\<close> of a text (\<open>None\<close> when it raises), the float nearest to an integer beyond the
  range where all integers are floats, \<open>str\<close> and \<open>isoformat\<close> of a time.\<close>

record py_formats =
  float_repr :: "rat \<Rightarrow> string"
  float_parse :: "string \<Rightarrow> float_value option"
  int_round :: "int \<Rightarrow> rat"
  time_str :: "time \<Rightarrow> string"
  time_iso :: "time \<Rightarrow> string"

definition join :: "string \<Rightarrow> string list \<Rightarrow> string" where
  "join sep xs = (case xs of [] \<Rightarrow> [] | y # ys \<Rightarrow> y @ concat (map (\<lambda>z. sep @ z) ys))"

fun repr_val :: "py_formats \<Rightarrow> pyval \<Rightarrow> string"
  and repr_vals :: "py_formats \<Rightarrow> pyval list \<Rightarrow> string list"
  and repr_items :: "py_formats \<Rightarrow> items \<Rightarrow> string list" where
  "repr_val fmt PNone = ''None''"
| "repr_val fmt (PBool b) = (if b then ''True'' else ''False'')"
| "repr_val fmt (PInt i) = show_int i"
| "repr_val fmt (PFloat q) = float_repr fmt q"
| "repr_val fmt (PStr s) = py_repr s"
| "repr_val fmt (PList xs) = ''['' @ join '', '' (repr_vals fmt xs) @ '']''"
| "repr_val fmt (PDict d) = ''{'' @ join '', '' (repr_items fmt d) @ ''}''"
| "repr_vals fmt [] = []"
| "repr_vals fmt (x # xs) = repr_val fmt x # repr_vals fmt xs"
| "repr_items fmt [] = []"
| "repr_items fmt ((k, v) # d) = (py_repr k @ '': '' @ repr_val fmt v) # repr_items fmt d"

fun str_val :: "py_formats \<Rightarrow> pyval \<Rightarrow> string" where
  "str_val fmt (PStr s) = s"
| "str_val fmt v = repr_val fmt v"

subsection \<open>Lookups that can raise\<close>

text \<open>\<open>v in frozenset(..)\<close> over a set of strings hashes \<open>v\<close> first.\<close>

definition unhashable :: "pyval \<Rightarrow> bool" where
  "unhashable v \<longleftrightarrow> is_list v \<or> is_dict v"

definition unhashable_error :: "pyval \<Rightarrow> py_error" where
  "unhashable_error v = TypeError (''unhashable type: '' @ py_repr (if is_list v then ''list'' else ''dict''))"

definition in_names :: "pyval \<Rightarrow> string list \<Rightarrow> bool result" where
  "in_names v names =
     (if unhashable v then Inl (unhashable_error v)
      else Inr (case v of PStr s \<Rightarrow> s \<in> set names | _ \<Rightarrow> False))"

text \<open>\<open>d[k]\<close>\<close>

definition dict_index :: "items \<Rightarrow> string \<Rightarrow> pyval result" where
  "dict_index d k = (case map_of d k of None \<Rightarrow> Inl (KeyError k) | Some v \<Rightarrow> Inr v)"

definition dict_has :: "items \<Rightarrow> string \<Rightarrow> bool" where
  "dict_has d k \<longleftrightarrow> map_of d k \<noteq> None"

text \<open>\<open>float(v)\<close>. An integer that would round to \<open>2^1024\<close> or beyond raises.\<close>

definition float_range :: "int \<Rightarrow> bool" where
  "float_range i \<longleftrightarrow> \<bar>i\<bar> < 2 ^ 1024 - 2 ^ 970"

definition py_float :: "py_formats \<Rightarrow> pyval \<Rightarrow> float_value result" where
  "py_float fmt v =
     (case v of
        PInt i \<Rightarrow>
          if \<bar>i\<bar> \<le> 2 ^ 53 then Inr (Fin (of_int i))
          else if float_range i then Inr (Fin (int_round fmt i))
          else Inl (OverflowError ''int too large to convert to float'')
      | PFloat q \<Rightarrow> Inr (Fin q)
      | PBool b \<Rightarrow> Inr (Fin (if b then 1 else 0))
      | PStr s \<Rightarrow> (case float_parse fmt s of
                     Some q \<Rightarrow> Inr q
                   | None \<Rightarrow> Inl (ValueError (''could not convert string to float: '' @ py_repr s)))
      | _ \<Rightarrow> Inl (TypeError ''float() argument must be a string or a real number''))"

text \<open>\<open><\<close> and \<open>==\<close> of floats; nothing compares with not-a-number. The other comparisons are
  \<open>x > y\<close> for \<open>y < x\<close>, and \<open>x <= y\<close> for \<open>x < y or x == y\<close>.\<close>

fun float_less :: "float_value \<Rightarrow> float_value \<Rightarrow> bool" where
  "float_less (Fin x) (Fin y) = (x < y)"
| "float_less (Fin x) Inf = True"
| "float_less NegInf (Fin y) = True"
| "float_less NegInf Inf = True"
| "float_less _ _ = False"

definition float_eq :: "float_value \<Rightarrow> float_value \<Rightarrow> bool" where
  "float_eq x y \<longleftrightarrow> x = y \<and> x \<noteq> NaN"

text \<open>\<open>s.replace(a, b)\<close> for a non-empty \<open>a\<close>.\<close>

function replace_all :: "string \<Rightarrow> string \<Rightarrow> string \<Rightarrow> string" where
  "replace_all a b s =
     (if s = [] \<or> a = [] then s
      else if prefix a s then b @ replace_all a b (drop (length a) s)
      else hd s # replace_all a b (tl s))"
  by pat_completeness auto
termination
  by (relation "measure (\<lambda>(a, b, s). length s)") auto

declare replace_all.simps [simp del]

text \<open>A list of messages from two checks, the first exception winning.\<close>

definition and_then :: "'a list result \<Rightarrow> 'a list result \<Rightarrow> 'a list result" where
  "and_then a b = (case a of Inl e \<Rightarrow> Inl e | Inr xs \<Rightarrow> (case b of Inl e \<Rightarrow> Inl e | Inr ys \<Rightarrow> Inr (xs @ ys)))"

lemma and_then_ok [simp]: "and_then a b = Inr [] \<longleftrightarrow> a = Inr [] \<and> b = Inr []"
  by (auto simp: and_then_def split: sum.splits)

lemma in_names_Inr:
  "in_names v names = Inr b \<longleftrightarrow> \<not> unhashable v \<and> b = (\<exists>s. v = PStr s \<and> s \<in> set names)"
  by (cases v) (auto simp: in_names_def unhashable_def)

text \<open>\<open>int(s)\<close> of a text: blanks around it, a sign, digits with single underscores between them, and
  at most 4300 digits. \<open>None\<close> is the \<open>ValueError\<close>.\<close>

definition is_digit :: "char \<Rightarrow> bool" where
  "is_digit c = (let n = of_char c :: nat in 48 \<le> n \<and> n \<le> 57)"

fun int_digits :: "bool \<Rightarrow> string \<Rightarrow> nat \<Rightarrow> nat option" where
  "int_digits after_digit [] n = (if after_digit then Some n else None)"
| "int_digits after_digit (c # cs) n =
     (if is_digit c then int_digits True cs (n * 10 + (of_char c - 48))
      else if c = CHR ''_'' \<and> after_digit then int_digits False cs n else None)"

definition parse_int :: "string \<Rightarrow> int option" where
  "parse_int s =
     (let t = strip s;
          neg = (t \<noteq> [] \<and> hd t = CHR ''-'');
          body = (if t \<noteq> [] \<and> hd t \<in> {CHR ''-'', CHR ''+''} then tl t else t)
      in if 4300 < length (filter is_digit body) then None
         else map_option (\<lambda>n. if neg then - int n else int n) (int_digits False body 0))"

text \<open>\<open>int(v)\<close>, \<open>None\<close> where it raises a \<open>TypeError\<close> or a \<open>ValueError\<close>; a float is cut off towards zero.\<close>

definition py_int :: "pyval \<Rightarrow> int option" where
  "py_int v =
     (case v of
        PInt i \<Rightarrow> Some i
      | PBool b \<Rightarrow> Some (if b then 1 else 0)
      | PFloat q \<Rightarrow> Some (if q < 0 then - \<lfloor>- q\<rfloor> else \<lfloor>q\<rfloor>)
      | PStr s \<Rightarrow> parse_int s
      | _ \<Rightarrow> None)"

end
