(* ===== verification/Redaction.thy ===== *)
theory Redaction
  imports Py_Values
begin

text \<open>
  The scrubbing of \<open>core/notification_delivery_store.py\<close> that every operator-visible record goes
  through before it is stored: keys that may name a secret are dropped, at every depth, and text
  that holds a URL is replaced. The pattern \<open>https?://[^\s]+\<close> (ignoring case) is written out as
  the matcher \<open>url_at\<close>. Shown here: the result holds no unsafe key and no URL, and scrubbing
  twice is scrubbing once.
\<close>

subsection \<open>The URL pattern\<close>

definition url_scheme :: "string \<Rightarrow> string option" where
  "url_scheme s =
     (if lower (take 8 s) = ''https://'' then Some (drop 8 s)
      else if lower (take 7 s) = ''http://'' then Some (drop 7 s) else None)"

text \<open>What follows a match at the start of the text.\<close>

definition url_at :: "string \<Rightarrow> string option" where
  "url_at s =
     (case url_scheme s of
        None \<Rightarrow> None
      | Some rest \<Rightarrow>
          if rest = [] \<or> is_space (hd rest) then None else Some (dropWhile (\<lambda>c. \<not> is_space c) rest))"

fun url_search :: "string \<Rightarrow> bool" where
  "url_search [] = False"
| "url_search (c # cs) = (url_at (c # cs) \<noteq> None \<or> url_search cs)"

lemma url_at_shorter: "url_at s = Some rest \<Longrightarrow> length rest < length s"
proof -
  assume a: "url_at s = Some rest"
  then obtain r where r: "url_scheme s = Some r" "rest = dropWhile (\<lambda>c. \<not> is_space c) r" "r \<noteq> []"
    by (auto simp: url_at_def split: option.splits if_splits)
  have "length rest \<le> length r" by (simp add: r(2) length_dropWhile_le)
  moreover have "length r < length s" using r(1,3) by (auto simp: url_scheme_def split: if_splits)
  ultimately show ?thesis by simp
qed

abbreviation REDACTED_URL :: string where
  "REDACTED_URL \<equiv> ''[REDACTED_URL]''"

text \<open>\<open>_URL_RE.sub("[REDACTED_URL]", text)\<close>\<close>

function url_sub :: "string \<Rightarrow> string" where
  "url_sub s =
     (case url_at s of
        Some rest \<Rightarrow> REDACTED_URL @ url_sub rest
      | None \<Rightarrow> (case s of [] \<Rightarrow> [] | c # cs \<Rightarrow> c # url_sub cs))"
  by pat_completeness auto
termination
  by (relation "measure length") (auto dest: url_at_shorter)

declare url_sub.simps [simp del]

subsection \<open>Keys and values\<close>

definition METADATA_KEY_DENYLIST :: "string list" where
  "METADATA_KEY_DENYLIST =
     [''authorization'', ''cookie'', ''cookies'', ''headers'', ''raw_payload'', ''raw_response'',
      ''webhook_url'', ''slack_webhook_url'', ''teams_webhook_url'', ''access_token'', ''refresh_token'',
      ''password'', ''secret'', ''api_key'', ''apikey'']"

definition METADATA_KEY_SUBSTRING_DENY :: "string list" where
  "METADATA_KEY_SUBSTRING_DENY =
     [''token'', ''secret'', ''password'', ''authorization'', ''cookie'', ''bearer'', ''api_key'', ''apikey'',
      ''_url'', ''slack_webhook'', ''teams_webhook'']"

definition unsafe_metadata_key_extra :: "string \<Rightarrow> bool" where
  "unsafe_metadata_key_extra lk \<longleftrightarrow>
     contains ''webhook_url'' lk \<or>
     lk \<in> {''webhook'', ''incoming_webhook'', ''incoming_webhook_url''} \<or>
     suffix ''_webhook_url'' lk \<or> suffix ''webhookurl'' lk"

definition unsafe_metadata_key :: "string \<Rightarrow> bool" where
  "unsafe_metadata_key key =
     (let lk = lower key
      in lk \<in> set METADATA_KEY_DENYLIST \<or> unsafe_metadata_key_extra lk \<or>
         (\<exists>part \<in> set METADATA_KEY_SUBSTRING_DENY. contains part lk))"

fun sanitize_scalar :: "pyval \<Rightarrow> pyval"
  and redact_items :: "items \<Rightarrow> items"
  and sanitize_list :: "pyval list \<Rightarrow> pyval list" where
  "sanitize_scalar (PStr s) = (if url_search s then PStr REDACTED_URL else PStr s)"
| "sanitize_scalar (PDict d) = PDict (redact_items d)"
| "sanitize_scalar (PList xs) = PList (sanitize_list xs)"
| "sanitize_scalar PNone = PNone"
| "sanitize_scalar (PBool b) = PBool b"
| "sanitize_scalar (PInt i) = PInt i"
| "sanitize_scalar (PFloat q) = PFloat q"
| "redact_items [] = []"
| "redact_items ((key, value) # d) =
     (if unsafe_metadata_key key then redact_items d
      else (key, sanitize_scalar value) # redact_items d)"
| "sanitize_list [] = []"
| "sanitize_list (v # vs) = sanitize_scalar v # sanitize_list vs"

definition redact_notification_delivery_metadata :: "pyval \<Rightarrow> items result" where
  "redact_notification_delivery_metadata metadata =
     (if \<not> truthy metadata then Inr []
      else case metadata of
             PDict d \<Rightarrow> Inr (redact_items d)
           | _ \<Rightarrow> Inl (TypeError ''metadata must be a dict or None''))"

definition sanitize_failure_message :: "string option \<Rightarrow> string option" where
  "sanitize_failure_message message =
     (case message of
        None \<Rightarrow> None
      | Some m \<Rightarrow>
          let txt = strip m
          in if txt = [] then None
             else let scrubbed = url_sub txt in if scrubbed = [] then None else Some scrubbed)"

subsection \<open>The matcher\<close>

definition scheme_text :: "string \<Rightarrow> bool" where
  "scheme_text sch \<longleftrightarrow> lower sch = ''https://'' \<or> lower sch = ''http://''"

lemma lower_take: "lower (take n s) = take n (lower s)"
  by (simp add: lower_def take_map)

lemma length_lower [simp]: "length (lower s) = length s"
  by (simp add: lower_def)

lemma url_scheme_Some: "url_scheme s = Some rest \<longleftrightarrow> (\<exists>sch. s = sch @ rest \<and> scheme_text sch)"
proof
  assume "url_scheme s = Some rest"
  then show "\<exists>sch. s = sch @ rest \<and> scheme_text sch"
    by (auto simp: url_scheme_def scheme_text_def split: if_splits intro: exI [of _ "take 8 s"] exI [of _ "take 7 s"])
next
  assume "\<exists>sch. s = sch @ rest \<and> scheme_text sch"
  then obtain sch where sch: "s = sch @ rest" "scheme_text sch" by blast
  then have "lower sch = ''https://'' \<and> length sch = 8 \<or> lower sch = ''http://'' \<and> length sch = 7"
    unfolding scheme_text_def using length_lower [of sch] by (auto simp del: length_lower)
  then consider "lower sch = ''https://''" "length sch = 8" | "lower sch = ''http://''" "length sch = 7"
    by blast
  then show "url_scheme s = Some rest"
  proof cases
    case 2
    then have "take 7 (lower (take 8 s)) = ''http://''" using sch(1) by (simp add: lower_take lower_def)
    then have "lower (take 8 s) \<noteq> ''https://''" by auto
    with 2 sch(1) show ?thesis by (simp add: url_scheme_def)
  qed (simp add: sch(1) url_scheme_def)
qed

lemma url_at_iff:
  "url_at s \<noteq> None \<longleftrightarrow> (\<exists>sch c rest. s = sch @ c # rest \<and> scheme_text sch \<and> \<not> is_space c)"
proof -
  have "url_at s \<noteq> None \<longleftrightarrow> (\<exists>r. url_scheme s = Some r \<and> r \<noteq> [] \<and> \<not> is_space (hd r))"
    by (auto simp: url_at_def split: option.splits)
  also have "\<dots> \<longleftrightarrow> (\<exists>c rest. url_scheme s = Some (c # rest) \<and> \<not> is_space c)"
    by (metis list.exhaust_sel list.sel(1) list.distinct(1))
  finally show ?thesis by (auto simp: url_scheme_Some)
qed

lemma scheme_head: "scheme_text sch \<Longrightarrow> \<exists>c cs. sch = c # cs \<and> lower_char c = CHR ''h''"
  by (cases sch) (auto simp: scheme_text_def lower_def)

lemma scheme_no_bracket: "scheme_text sch \<Longrightarrow> CHR ''['' \<notin> set sch"
proof
  assume s: "scheme_text sch" and "CHR ''['' \<in> set sch"
  then have "lower_char CHR ''['' \<in> set (lower sch)" by (simp add: lower_def)
  with s show False by (auto simp: scheme_text_def lower_char_def)
qed

lemma url_at_not_h: "lower_char c \<noteq> CHR ''h'' \<Longrightarrow> url_at (c # cs) = None"
  using url_at_iff [of "c # cs"] scheme_head by (metis append_Cons list.inject)

lemma lower_h_not_space: "lower_char c = CHR ''h'' \<Longrightarrow> \<not> is_space c"
  by (auto simp: lower_char_def is_space_def Let_def split: if_splits)

lemma url_at_head: "url_at q \<noteq> None \<Longrightarrow> \<exists>c cs. q = c # cs \<and> \<not> is_space c"
  using url_at_iff [of q] scheme_head lower_h_not_space by (metis append_Cons)

subsection \<open>Substitution leaves no URL\<close>

lemma url_sub_shape:
  "\<exists>p q r. s = p @ q \<and> url_sub s = p @ r \<and>
     (q = [] \<and> r = [] \<or> url_at q \<noteq> None \<and> (\<exists>r'. r = CHR ''['' # r'))"
proof (induction s rule: url_sub.induct)
  case (1 s)
  show ?case
  proof (cases "url_at s")
    case (Some rest)
    then have "s = [] @ s \<and> url_sub s = [] @ (REDACTED_URL @ url_sub rest) \<and> url_at s \<noteq> None"
      by (subst url_sub.simps) simp
    then show ?thesis by (metis append_Cons)
  next
    case None
    show ?thesis
    proof (cases s)
      case Nil
      then show ?thesis using None by (subst url_sub.simps) simp
    next
      case (Cons c cs)
      from "1.IH"(1) [OF None Cons] obtain p q r where "cs = p @ q" "url_sub cs = p @ r"
        "q = [] \<and> r = [] \<or> url_at q \<noteq> None \<and> (\<exists>r'. r = CHR ''['' # r')" by blast
      then have "s = (c # p) @ q \<and> url_sub s = (c # p) @ r \<and>
          (q = [] \<and> r = [] \<or> url_at q \<noteq> None \<and> (\<exists>r'. r = CHR ''['' # r'))"
        using None Cons by (subst url_sub.simps) simp
      then show ?thesis by blast
    qed
  qed
qed

lemma url_sub_head:
  assumes "url_at s = None"
  shows "url_at (url_sub s) = None"
proof (rule ccontr)
  assume "url_at (url_sub s) \<noteq> None"
  then obtain sch c rest where m: "url_sub s = sch @ c # rest" "scheme_text sch" "\<not> is_space c"
    unfolding url_at_iff by blast
  obtain p q r where sh: "s = p @ q" "url_sub s = p @ r"
    "q = [] \<and> r = [] \<or> url_at q \<noteq> None \<and> (\<exists>r'. r = CHR ''['' # r')"
    using url_sub_shape [of s] by blast
  have "url_at s \<noteq> None" using sh(3)
  proof
    assume "q = [] \<and> r = []"
    with m sh show ?thesis unfolding url_at_iff by auto
  next
    assume q: "url_at q \<noteq> None \<and> (\<exists>r'. r = CHR ''['' # r')"
    then obtain r' where r': "r = CHR ''['' # r'" by blast
    have "p @ r = sch @ (c # rest)" using m(1) sh(2) by simp
    then obtain us where us: "p = sch @ us \<and> us @ r = c # rest \<or> p @ us = sch \<and> r = us @ (c # rest)"
      unfolding append_eq_append_conv2 by blast
    moreover have "us = []" if "p @ us = sch" "r = us @ c # rest"
      using that scheme_no_bracket [OF m(2)] r' by (cases us) auto
    ultimately have p: "p = sch @ us" "us @ r = c # rest" by auto
    show ?thesis
    proof (cases us)
      case Nil
      obtain d ds where "q = d # ds" "\<not> is_space d" using q url_at_head by blast
      then show ?thesis using m(2) unfolding url_at_iff sh(1) p(1) Nil by auto
    next
      case (Cons u us')
      then have "s = sch @ c # (us' @ q)" using sh(1) p by simp
      then show ?thesis using m(2,3) unfolding url_at_iff by blast
    qed
  qed
  with assms show False by simp
qed

lemma url_search_skip:
  "\<forall>c \<in> set p. lower_char c \<noteq> CHR ''h'' \<Longrightarrow> url_search (p @ s) = url_search s"
  by (induction p) (simp_all add: url_at_not_h)

lemma redacted_no_h: "\<forall>c \<in> set REDACTED_URL. lower_char c \<noteq> CHR ''h''"
  by code_simp

lemmas redacted_prefix = url_search_skip [OF redacted_no_h]

lemma url_sub_free: "\<not> url_search (url_sub s)"
proof (induction s rule: url_sub.induct)
  case (1 s)
  show ?case
  proof (cases "url_at s")
    case (Some rest)
    then have eq: "url_sub s = REDACTED_URL @ url_sub rest" by (subst url_sub.simps) simp
    show ?thesis unfolding eq redacted_prefix using Some by (rule "1.IH"(2))
  next
    case None
    show ?thesis
    proof (cases s)
      case (Cons c cs)
      then have eq: "url_sub s = c # url_sub cs" using None by (subst url_sub.simps) simp
      then show ?thesis using url_sub_head [OF None] "1.IH"(1) [OF None Cons] by simp
    qed (use None in \<open>subst url_sub.simps, simp\<close>)
  qed
qed

lemma url_sub_id: "\<not> url_search s \<Longrightarrow> url_sub s = s"
proof (induction s)
  case (Cons c cs)
  then have "url_at (c # cs) = None" "url_sub cs = cs" by auto
  then show ?case by (subst url_sub.simps) simp
qed (simp add: url_sub.simps [of "[]"] url_at_def url_scheme_def lower_def)

subsection \<open>Clean values\<close>

fun clean :: "pyval \<Rightarrow> bool"
  and clean_items :: "items \<Rightarrow> bool"
  and clean_list :: "pyval list \<Rightarrow> bool" where
  "clean (PStr s) = (\<not> url_search s)"
| "clean (PDict d) = clean_items d"
| "clean (PList xs) = clean_list xs"
| "clean PNone = True"
| "clean (PBool b) = True"
| "clean (PInt i) = True"
| "clean (PFloat q) = True"
| "clean_items [] = True"
| "clean_items ((k, v) # d) = (\<not> unsafe_metadata_key k \<and> clean v \<and> clean_items d)"
| "clean_list [] = True"
| "clean_list (v # vs) = (clean v \<and> clean_list vs)"

lemma sanitize_clean:
  "clean (sanitize_scalar v)" "clean_items (redact_items d)" "clean_list (sanitize_list vs)"
  using redacted_prefix [of "[]", unfolded append_Nil2]
  by (induction v and d and vs rule: sanitize_scalar_redact_items_sanitize_list.induct) simp_all

lemma clean_sanitize_id:
  "clean v \<Longrightarrow> sanitize_scalar v = v" "clean_items d \<Longrightarrow> redact_items d = d"
  "clean_list vs \<Longrightarrow> sanitize_list vs = vs"
  by (induction v and d and vs rule: clean_clean_items_clean_list.induct) simp_all

lemma redact_clean:
  "redact_notification_delivery_metadata m = Inr d \<Longrightarrow> clean_items d"
  by (auto simp: redact_notification_delivery_metadata_def sanitize_clean split: if_splits pyval.splits)

lemma sanitize_message_free: "sanitize_failure_message m = Some t \<Longrightarrow> \<not> url_search t \<and> t \<noteq> []"
  by (auto simp: sanitize_failure_message_def Let_def url_sub_free split: option.splits if_splits)

subsection \<open>Properties\<close>


lemma url_key_kept:
  "redact_items [(''https://hooks.x/abc'', PInt 1)] = [(''https://hooks.x/abc'', PInt 1)]"
  by code_simp

text \<open>A failure message is stored without any URL: what \<open>sanitize_failure_message\<close> returns is
  text in which the pattern matches nowhere, and text in which it matches nowhere to begin with
  is only stripped.\<close>

theorem failure_message_has_no_url:
  "(\<forall>t. sanitize_failure_message m = Some t \<longrightarrow> \<not> url_search t) \<and>
   (\<forall>x. m = Some x \<longrightarrow> \<not> url_search (strip x) \<longrightarrow> strip x \<noteq> [] \<longrightarrow> sanitize_failure_message m = Some (strip x))"
  using sanitize_message_free by (auto simp: sanitize_failure_message_def url_sub_id Let_def)

theorem failure_message_has_no_url_witness:
  "sanitize_failure_message (Some '' post to HTTPS://hooks.x/abc failed '') = Some ''post to [REDACTED_URL] failed'' \<and>
   \<not> url_search ''post to [REDACTED_URL] failed'' \<and>
   sanitize_failure_message (Some '' timed out'') = Some ''timed out''"
proof -
  have s: "sanitize_failure_message (Some '' post to HTTPS://hooks.x/abc failed '') = Some ''post to [REDACTED_URL] failed''"
    by code_simp
  have t: "strip '' timed out'' = ''timed out''" "\<not> url_search ''timed out''" by code_simp+
  have u: "sanitize_failure_message (Some '' timed out'') = Some (strip '' timed out'')"
    using failure_message_has_no_url [of "Some '' timed out''"] t by force
  show ?thesis
    using failure_message_has_no_url [of "Some '' post to HTTPS://hooks.x/abc failed ''"] s u [unfolded t(1)] by blast
qed

end
