(* ===== verification/Dead_Letter.thy ===== *)
theory Dead_Letter
  imports Tables Redaction
begin

text \<open>
  \<open>core/dead_letter_store.py\<close>: the failures an operator has to look at, one active row per
  failed source. Shown here: at most one letter per source is active, repeated failures keep the
  first failure and whatever context is known, closed letters never change, a letter is retried
  at most once, only scrubbed text is stored, and the retry policy fails closed.
\<close>

subsection \<open>State and validation\<close>

datatype letter_status = LOpen | LRetrying | LRetried | LDismissed

fun letter_status_text :: "letter_status \<Rightarrow> string" where
  "letter_status_text LOpen = ''open''"
| "letter_status_text LRetrying = ''retrying''"
| "letter_status_text LRetried = ''retried''"
| "letter_status_text LDismissed = ''dismissed''"

record dead_letter =
  dl_id :: row_id
  dl_source_type :: string
  dl_source_id :: int
  dl_execution_id :: "row_id option"
  dl_incident_id :: "row_id option"
  dl_alert_id :: "row_id option"
  dl_playbook_id :: "string option"
  dl_step_index :: "int option"
  dl_action_name :: "string option"
  dl_failure_class :: string
  dl_error_message :: string
  dl_payload_json :: items
  dl_retryable :: bool
  dl_status :: letter_status
  dl_retry_count :: int
  dl_first_failed_at :: time
  dl_last_failed_at :: time
  dl_dismissed_at :: "time option"
  dl_dismissed_by :: "row_id option"
  dl_dismiss_reason :: "string option"
  dl_retry_requested_at :: "time option"
  dl_retry_requested_by :: "row_id option"
  dl_created_at :: time

record letter_db =
  soar_dead_letters :: "dead_letter list"
  letter_seq :: row_id

text \<open>The names in sorted order, as the messages print them.\<close>

definition VALID_SOURCE_TYPES :: "string list" where
  "VALID_SOURCE_TYPES = [''approval'', ''notification_delivery'', ''playbook_execution'', ''response_action'']"

definition LETTER_VALID_STATUSES :: "string list" where
  "LETTER_VALID_STATUSES = [''dismissed'', ''open'', ''retried'', ''retrying'']"

definition RETRYABLE_FAILURE_CLASSES :: "string list" where
  "RETRYABLE_FAILURE_CLASSES =
     [''adapter_simulation_failed'', ''adapter_timeout'', ''circuit_breaker_open'', ''circuit_open'',
      ''provider_rate_limited'', ''rate_limited'', ''temporary_provider_failure'', ''timeout'',
      ''transient'', ''transient_network_error'']"

definition NON_RETRYABLE_FAILURE_CLASSES :: "string list" where
  "NON_RETRYABLE_FAILURE_CLASSES =
     [''approval_denied'', ''approval_expired'', ''credential_invalid'', ''credential_missing'',
      ''guard_failed'', ''invalid_credentials'', ''malformed_payload'', ''non_transient'',
      ''permanent_provider_rejection'', ''simulation_only'', ''unsupported_action'', ''unknown'']"

definition require_text :: "string option \<Rightarrow> string \<Rightarrow> string result" where
  "require_text value field_name =
     (case value of
        None \<Rightarrow> Inl (ValueError (field_name @ '' is required''))
      | Some v \<Rightarrow> if strip v = [] then Inl (ValueError (field_name @ '' is required'')) else Inr (strip v))"

definition optional_text :: "string option \<Rightarrow> string option" where
  "optional_text value =
     (case value of None \<Rightarrow> None | Some v \<Rightarrow> if strip v = [] then None else Some (strip v))"

definition validate_source_type :: "string option \<Rightarrow> string result" where
  "validate_source_type source_type =
     (case require_text source_type ''source_type'' of
        Inl e \<Rightarrow> Inl e
      | Inr n \<Rightarrow> if n \<in> set VALID_SOURCE_TYPES then Inr n
                 else Inl (ValueError (''source_type must be one of '' @ py_list_repr VALID_SOURCE_TYPES)))"

definition validate_status :: "string option \<Rightarrow> string result" where
  "validate_status status =
     (case require_text status ''status'' of
        Inl e \<Rightarrow> Inl e
      | Inr n \<Rightarrow> if n \<in> set LETTER_VALID_STATUSES then Inr n
                 else Inl (ValueError (''status must be one of '' @ py_list_repr LETTER_VALID_STATUSES)))"

definition validate_source_id :: "int option \<Rightarrow> int result" where
  "validate_source_id source_id =
     (case source_id of None \<Rightarrow> Inl (ValueError ''source_id is required'') | Some i \<Rightarrow> Inr i)"

definition validate_optional_nonnegative :: "int option \<Rightarrow> string \<Rightarrow> int option result" where
  "validate_optional_nonnegative value field_name =
     (case value of
        None \<Rightarrow> Inr None
      | Some i \<Rightarrow> if i < 0 then Inl (ValueError (field_name @ '' must be >= 0'')) else Inr (Some i))"

definition validate_bool :: "pyval \<Rightarrow> string \<Rightarrow> bool result" where
  "validate_bool value field_name =
     (case value of PBool b \<Rightarrow> Inr b | _ \<Rightarrow> Inl (ValueError (field_name @ '' must be a boolean'')))"

definition classify_dead_letter_retryable ::
  "string option \<Rightarrow> string option \<Rightarrow> string option \<Rightarrow> bool result" where
  "classify_dead_letter_retryable failure_class source_type status =
     (let normalized_source = strip (coalesce source_type []);
          normalized_status = strip (if coalesce status [] = [] then ''open'' else coalesce status []);
          normalized_failure = lower (strip (coalesce failure_class []));
          by_failure =
            (if normalized_failure \<in> set RETRYABLE_FAILURE_CLASSES then Inr True
             else if normalized_failure \<in> set NON_RETRYABLE_FAILURE_CLASSES then Inr False else Inr False);
          by_status =
            (if normalized_status = [] then by_failure
             else case validate_status (Some normalized_status) of
                    Inl e \<Rightarrow> Inl e
                  | Inr _ \<Rightarrow> if normalized_status \<in> {''retried'', ''dismissed''} then Inr False else by_failure)
      in if normalized_source = [] then by_status
         else case validate_source_type (Some normalized_source) of
                Inl e \<Rightarrow> Inl e
              | Inr _ \<Rightarrow> if normalized_source = ''approval'' then Inr False else by_status)"

subsection \<open>Creating letters\<close>

record letter_args =
  la_source_type :: "string option"
  la_source_id :: "int option"
  la_error_message :: "string option"
  la_failure_class :: "string option"
  la_payload_json :: pyval
  la_retryable :: pyval
  la_execution_id :: "row_id option"
  la_incident_id :: "row_id option"
  la_alert_id :: "row_id option"
  la_playbook_id :: "string option"
  la_step_index :: "int option"
  la_action_name :: "string option"
  la_first_failed_at :: "time option"
  la_last_failed_at :: "time option"

text \<open>The row the \<open>INSERT\<close> proposes, from the checked arguments.\<close>

definition proposed_letter :: "clock \<Rightarrow> letter_args \<Rightarrow> row_id \<Rightarrow> dead_letter result" where
  "proposed_letter clk a i =
     (case validate_source_type (la_source_type a) of Inl e \<Rightarrow> Inl e | Inr st \<Rightarrow>
      case validate_source_id (la_source_id a) of Inl e \<Rightarrow> Inl e | Inr sid \<Rightarrow>
      case require_text (la_failure_class a) ''failure_class'' of Inl e \<Rightarrow> Inl e | Inr fc \<Rightarrow>
      case require_text (la_error_message a) ''error_message'' of Inl e \<Rightarrow> Inl e | Inr em \<Rightarrow>
      case sanitize_failure_message (Some em) of
        None \<Rightarrow> Inl (ValueError ''error_message is required'')
      | Some msg \<Rightarrow>
      case redact_notification_delivery_metadata (la_payload_json a) of Inl e \<Rightarrow> Inl e | Inr payload \<Rightarrow>
      case validate_optional_nonnegative (la_step_index a) ''step_index'' of Inl e \<Rightarrow> Inl e | Inr step \<Rightarrow>
      case validate_bool (la_retryable a) ''retryable'' of Inl e \<Rightarrow> Inl e | Inr retry \<Rightarrow>
      Inr \<lparr>dl_id = i, dl_source_type = st, dl_source_id = sid, dl_execution_id = la_execution_id a,
           dl_incident_id = la_incident_id a, dl_alert_id = la_alert_id a,
           dl_playbook_id = optional_text (la_playbook_id a), dl_step_index = step,
           dl_action_name = optional_text (la_action_name a), dl_failure_class = fc,
           dl_error_message = msg, dl_payload_json = payload, dl_retryable = retry,
           dl_status = LOpen, dl_retry_count = 0,
           dl_first_failed_at = coalesce (la_first_failed_at a) (sql_now clk),
           dl_last_failed_at = coalesce (la_last_failed_at a) (sql_now clk),
           dl_dismissed_at = None, dl_dismissed_by = None, dl_dismiss_reason = None,
           dl_retry_requested_at = None, dl_retry_requested_by = None,
           dl_created_at = sql_now clk\<rparr>)"

text \<open>The \<open>VARCHAR\<close> widths of the table.\<close>

definition letter_fits :: "dead_letter \<Rightarrow> bool" where
  "letter_fits r \<longleftrightarrow> length (dl_failure_class r) \<le> 64 \<and>
     (case dl_playbook_id r of None \<Rightarrow> True | Some p \<Rightarrow> length p \<le> 64) \<and>
     (case dl_action_name r of None \<Rightarrow> True | Some p \<Rightarrow> length p \<le> 128)"

definition letter_active :: "dead_letter \<Rightarrow> bool" where
  "letter_active r \<longleftrightarrow> dl_status r = LOpen \<or> dl_status r = LRetrying"

definition same_source :: "dead_letter \<Rightarrow> dead_letter \<Rightarrow> bool" where
  "same_source r r' \<longleftrightarrow> dl_source_type r = dl_source_type r' \<and> dl_source_id r = dl_source_id r'"

text \<open>\<open>ON CONFLICT .. DO UPDATE\<close>: \<open>new\<close> is \<open>EXCLUDED\<close>.\<close>

definition merge_letter :: "dead_letter \<Rightarrow> dead_letter \<Rightarrow> dead_letter" where
  "merge_letter new r =
     r\<lparr>dl_execution_id := coalesce_opt (dl_execution_id new) (dl_execution_id r),
       dl_incident_id := coalesce_opt (dl_incident_id new) (dl_incident_id r),
       dl_alert_id := coalesce_opt (dl_alert_id new) (dl_alert_id r),
       dl_playbook_id := coalesce_opt (dl_playbook_id new) (dl_playbook_id r),
       dl_step_index := coalesce_opt (dl_step_index new) (dl_step_index r),
       dl_action_name := coalesce_opt (dl_action_name new) (dl_action_name r),
       dl_failure_class := dl_failure_class new, dl_error_message := dl_error_message new,
       dl_payload_json := dl_payload_json new, dl_retryable := dl_retryable new,
       dl_last_failed_at := dl_last_failed_at new\<rparr>"

definition create_dead_letter :: "clock \<Rightarrow> letter_args \<Rightarrow> (letter_db, dead_letter) py" where
  "create_dead_letter clk a s =
     (case proposed_letter clk a (letter_seq s) of
        Inl e \<Rightarrow> (Inl e, s)
      | Inr new \<Rightarrow>
          let s1 = s\<lparr>letter_seq := letter_seq s + 1\<rparr>;
              rival = (\<lambda>r. letter_active r \<and> same_source r new)
          in if \<not> letter_fits new then (Inl (DataError ''value too long''), s1)
             else if \<exists>r \<in> set (soar_dead_letters s). rival r
             then (case fetchone (returning rival (merge_letter new) (soar_dead_letters s)) of
                     None \<Rightarrow> (Inl (RuntimeError ''INSERT soar_dead_letters returned no row''), s1)
                   | Some row \<Rightarrow>
                       (Inr row, s1\<lparr>soar_dead_letters := update_where rival (merge_letter new) (soar_dead_letters s)\<rparr>))
             else (Inr new, s1\<lparr>soar_dead_letters := soar_dead_letters s @ [new]\<rparr>))"

subsection \<open>Reading\<close>

definition get_dead_letter :: "row_id \<Rightarrow> letter_db \<Rightarrow> dead_letter option" where
  "get_dead_letter i s = select_id dl_id i (soar_dead_letters s)"

text \<open>A filter whose value has to pass a check first.\<close>

definition checked :: "('a \<Rightarrow> 'b result) \<Rightarrow> 'a option \<Rightarrow> 'b option result" where
  "checked f v = (case v of None \<Rightarrow> Inr None | Some x \<Rightarrow> map_sum id Some (f x))"

definition list_dead_letters ::
  "string option \<Rightarrow> string option \<Rightarrow> string option \<Rightarrow> pyval option \<Rightarrow> row_id option \<Rightarrow> row_id option \<Rightarrow>
   row_id option \<Rightarrow> int \<Rightarrow> int \<Rightarrow> letter_db \<Rightarrow> dead_letter list result" where
  "list_dead_letters status source_type failure_class retryable incident_id alert_id execution_id lmt off s =
     (if lmt < 1 then Inl (ValueError ''limit must be >= 1'')
      else if off < 0 then Inl (ValueError ''offset must be >= 0'')
      else
        case checked (\<lambda>x. validate_status (Some x)) status of Inl e \<Rightarrow> Inl e | Inr st \<Rightarrow>
        case checked (\<lambda>x. validate_source_type (Some x)) source_type of Inl e \<Rightarrow> Inl e | Inr src \<Rightarrow>
        case checked (\<lambda>x. require_text (Some x) ''failure_class'') failure_class of Inl e \<Rightarrow> Inl e | Inr fc \<Rightarrow>
        case checked (\<lambda>x. validate_bool x ''retryable'') retryable of Inl e \<Rightarrow> Inl e | Inr ret \<Rightarrow>
        Inr (limit (min lmt 500) (offset off (order_desc dl_id
          (filter_opt dl_execution_id (map_option Some execution_id)
            (filter_opt dl_alert_id (map_option Some alert_id)
              (filter_opt dl_incident_id (map_option Some incident_id)
                (filter_opt dl_retryable ret
                  (filter_opt dl_failure_class fc
                    (filter_opt dl_source_type src
                      (filter_opt (letter_status_text \<circ> dl_status) st (soar_dead_letters s))))))))))))"

record letter_metrics =
  lm_total :: nat
  lm_open :: nat
  lm_retrying :: nat
  lm_retried :: nat
  lm_dismissed :: nat
  lm_active :: nat
  lm_oldest_active_at :: "time option"
  lm_by_source_type :: "string \<Rightarrow> nat option"
  lm_by_failure_class :: "string \<Rightarrow> nat option"

definition group_count :: "('r \<Rightarrow> 'k) \<Rightarrow> 'r list \<Rightarrow> 'k \<Rightarrow> nat option" where
  "group_count key t k = (let n = length (filter (\<lambda>r. key r = k) t) in if n = 0 then None else Some n)"

definition get_dead_letter_metrics :: "letter_db \<Rightarrow> letter_metrics" where
  "get_dead_letter_metrics s =
     (let t = soar_dead_letters s; counts = group_count dl_status t; n = (\<lambda>st. coalesce (counts st) 0);
          active = filter letter_active t
      in \<lparr>lm_total = n LOpen + n LRetrying + n LRetried + n LDismissed,
          lm_open = n LOpen, lm_retrying = n LRetrying, lm_retried = n LRetried, lm_dismissed = n LDismissed,
          lm_active = length active,
          lm_oldest_active_at = map_option dl_created_at (fetchone (order_asc dl_created_at active)),
          lm_by_source_type = group_count dl_source_type t,
          lm_by_failure_class = group_count dl_failure_class t\<rparr>)"

subsection \<open>Closing and retrying\<close>

definition set_dismissed :: "time \<Rightarrow> row_id option \<Rightarrow> string \<Rightarrow> dead_letter \<Rightarrow> dead_letter" where
  "set_dismissed t who reason r =
     r\<lparr>dl_status := LDismissed, dl_dismissed_at := Some t, dl_dismissed_by := who, dl_dismiss_reason := Some reason\<rparr>"

definition set_retry_requested :: "time \<Rightarrow> row_id option \<Rightarrow> dead_letter \<Rightarrow> dead_letter" where
  "set_retry_requested t who r =
     r\<lparr>dl_status := LRetrying, dl_retry_requested_at := Some t, dl_retry_requested_by := who,
       dl_retry_count := dl_retry_count r + 1\<rparr>"

definition set_retried :: "dead_letter \<Rightarrow> dead_letter" where
  "set_retried r = r\<lparr>dl_status := LRetried\<rparr>"

definition update_letter ::
  "row_id \<Rightarrow> (dead_letter \<Rightarrow> bool) \<Rightarrow> (dead_letter \<Rightarrow> dead_letter) \<Rightarrow> letter_db \<Rightarrow> dead_letter option \<times> letter_db" where
  "update_letter i guard f s =
     (let here = (\<lambda>r. dl_id r = i \<and> guard r)
      in (fetchone (returning here f (soar_dead_letters s)),
          s\<lparr>soar_dead_letters := update_where here f (soar_dead_letters s)\<rparr>))"

definition mark_dead_letter_dismissed ::
  "clock \<Rightarrow> row_id \<Rightarrow> row_id option \<Rightarrow> string option \<Rightarrow> time option \<Rightarrow> (letter_db, dead_letter option) py" where
  "mark_dead_letter_dismissed clk i dismissed_by reason dismissed_at s =
     (case require_text reason ''reason'' of
        Inl e \<Rightarrow> (Inl e, s)
      | Inr r \<Rightarrow>
          (case sanitize_failure_message (Some r) of
             None \<Rightarrow> (Inl (ValueError ''reason is required''), s)
           | Some safe_reason \<Rightarrow>
               apfst Inr (update_letter i letter_active
                 (set_dismissed (coalesce dismissed_at (sql_now clk)) dismissed_by safe_reason) s)))"

definition mark_dead_letter_retry_requested ::
  "clock \<Rightarrow> row_id \<Rightarrow> row_id option \<Rightarrow> time option \<Rightarrow> letter_db \<Rightarrow> dead_letter option \<times> letter_db" where
  "mark_dead_letter_retry_requested clk i requested_by retry_requested_at s =
     update_letter i (\<lambda>r. dl_status r = LOpen)
       (set_retry_requested (coalesce retry_requested_at (sql_now clk)) requested_by) s"

definition mark_dead_letter_retried :: "row_id \<Rightarrow> letter_db \<Rightarrow> dead_letter option \<times> letter_db" where
  "mark_dead_letter_retried i s =
     (case select_id dl_id i (soar_dead_letters s) of
        None \<Rightarrow> (None, s)
      | Some current \<Rightarrow>
          if dl_status current \<noteq> LRetrying then (None, s)
          else update_letter i (\<lambda>r. dl_status r = LRetrying) set_retried s)"

subsection \<open>The life cycle of a letter\<close>

inductive letter_step :: "dead_letter \<Rightarrow> dead_letter \<Rightarrow> bool" where
  ls_again: "letter_active r \<Longrightarrow> clean_items (dl_payload_json new) \<Longrightarrow> \<not> url_search (dl_error_message new) \<Longrightarrow>
    letter_step r (merge_letter new r)"
| ls_dismiss: "letter_active r \<Longrightarrow> \<not> url_search reason \<Longrightarrow> letter_step r (set_dismissed t who reason r)"
| ls_request: "dl_status r = LOpen \<Longrightarrow> letter_step r (set_retry_requested t who r)"
| ls_retried: "dl_status r = LRetrying \<Longrightarrow> letter_step r (set_retried r)"

lemmas letter_updates = merge_letter_def set_dismissed_def set_retry_requested_def set_retried_def

interpretation letters: row_frozen dl_id letter_step "\<lambda>r. \<not> letter_active r"
  by unfold_locales (auto elim!: letter_step.cases simp: letter_updates letter_active_def)

text \<open>What holds of one letter: the retry counter and the operator columns agree with the status,
  and only scrubbed text is stored.\<close>

definition letter_ok :: "dead_letter \<Rightarrow> bool" where
  "letter_ok r \<longleftrightarrow>
     (dl_status r = LOpen \<longrightarrow> dl_retry_count r = 0) \<and>
     (dl_status r = LRetrying \<or> dl_status r = LRetried \<longrightarrow> dl_retry_count r = 1) \<and>
     0 \<le> dl_retry_count r \<and> dl_retry_count r \<le> 1 \<and>
     (dl_retry_count r = 1 \<longleftrightarrow> dl_retry_requested_at r \<noteq> None) \<and>
     (dl_status r = LDismissed \<longleftrightarrow> dl_dismissed_at r \<noteq> None) \<and>
     clean_items (dl_payload_json r) \<and> \<not> url_search (dl_error_message r) \<and>
     (\<forall>x. dl_dismiss_reason r = Some x \<longrightarrow> \<not> url_search x)"

lemma letter_step_ok: "letter_step r r' \<Longrightarrow> letter_ok r \<Longrightarrow> letter_ok r'"
  by (erule letter_step.cases) (auto simp: letter_updates letter_ok_def letter_active_def)

lemma letter_step_source:
  "letter_step r r' \<Longrightarrow> dl_source_type r' = dl_source_type r \<and> dl_source_id r' = dl_source_id r"
  "letter_step r r' \<Longrightarrow> letter_active r' \<Longrightarrow> letter_active r"
  by (auto elim!: letter_step.cases simp: letter_updates letter_active_def)

definition letter_inv :: "letter_db \<Rightarrow> bool" where
  "letter_inv s \<longleftrightarrow>
     wf_ids dl_id (letter_seq s) (soar_dead_letters s) \<and>
     (\<forall>r \<in> set (soar_dead_letters s). letter_ok r) \<and>
     (\<forall>r \<in> set (soar_dead_letters s). \<forall>r' \<in> set (soar_dead_letters s).
        letter_active r \<longrightarrow> letter_active r' \<longrightarrow> same_source r r' \<longrightarrow> r = r')"

lemma letter_inv_ids:
  "letter_inv s \<Longrightarrow> wf_ids dl_id (letter_seq s) (soar_dead_letters s)"
  "letter_inv s \<Longrightarrow> distinct (map dl_id (soar_dead_letters s))"
  by (simp_all add: letter_inv_def wf_ids_def)

lemma letter_inv_unique:
  "letter_inv s \<Longrightarrow> r \<in> set (soar_dead_letters s) \<Longrightarrow> r' \<in> set (soar_dead_letters s) \<Longrightarrow>
     letter_active r \<Longrightarrow> letter_active r' \<Longrightarrow> same_source r r' \<Longrightarrow> r = r'"
  by (simp add: letter_inv_def)

definition letter_safe :: "letter_db \<Rightarrow> letter_db \<Rightarrow> bool" where
  "letter_safe s s' \<longleftrightarrow> letter_inv s' \<and>
     evolves dl_id letter_step (soar_dead_letters s) (soar_dead_letters s')"

lemma letter_safe_refl: "letter_inv s \<Longrightarrow> letter_safe s s"
  by (simp add: letter_safe_def letters.evolves_refl)

lemma letter_safe_update:
  assumes inv: "letter_inv s" and seq: "letter_seq s \<le> n"
    and step: "\<forall>r \<in> set (soar_dead_letters s). p r \<longrightarrow> letter_step r (f r)"
  shows "letter_safe s (s\<lparr>letter_seq := n, soar_dead_letters := update_where p f (soar_dead_letters s)\<rparr>)"
proof -
  let ?t = "soar_dead_letters s" and ?g = "\<lambda>r. if p r then f r else r"
  have g: "letter_ok (?g r)" "letter_active (?g r) \<Longrightarrow> letter_active r" "same_source (?g r) x = same_source r x"
    "same_source x (?g r) = same_source x r" if "r \<in> set ?t" for r x
    using that step inv letter_step_ok letter_step_source by (auto simp: letter_inv_def same_source_def split: if_splits)
  have mem: "set (update_where p f ?t) = ?g ` set ?t" by (simp add: update_where_def)
  have uniq: "?g r = ?g r'" if "r \<in> set ?t" "r' \<in> set ?t" "letter_active (?g r)" "letter_active (?g r')"
    "same_source (?g r) (?g r')" for r r'
    using letter_inv_unique [OF inv that(1,2)] that g by blast
  have "\<forall>r \<in> set (update_where p f ?t). letter_ok r" unfolding mem using g(1) by blast
  moreover have "\<forall>r \<in> set (update_where p f ?t). \<forall>r' \<in> set (update_where p f ?t).
      letter_active r \<longrightarrow> letter_active r' \<longrightarrow> same_source r r' \<longrightarrow> r = r'" unfolding mem using uniq by blast
  moreover have "wf_ids dl_id n (update_where p f ?t)"
    using letters.wf_update [OF letter_inv_ids(1) [OF inv] step] seq by (auto simp: wf_ids_def)
  ultimately have "letter_inv (s\<lparr>letter_seq := n, soar_dead_letters := update_where p f ?t\<rparr>)"
    unfolding letter_inv_def by simp
  then show ?thesis using letters.evolves_update [OF step] by (simp add: letter_safe_def)
qed

lemma proposed_letter_facts:
  assumes "proposed_letter clk a i = Inr new"
  shows "dl_id new = i" "dl_status new = LOpen" "letter_ok new" "dl_source_type new \<in> set VALID_SOURCE_TYPES"
proof -
  show "dl_id new = i" "dl_status new = LOpen"
    using assms by (auto simp: proposed_letter_def split: sum.splits option.splits)
  show "letter_ok new"
    using assms redact_clean sanitize_message_free
    by (auto simp: proposed_letter_def letter_ok_def split: sum.splits option.splits)
  show "dl_source_type new \<in> set VALID_SOURCE_TYPES"
    using assms by (auto simp: proposed_letter_def validate_source_type_def split: sum.splits option.splits if_splits)
qed

lemma letter_safe_insert:
  assumes inv: "letter_inv s" and new: "dl_id new = letter_seq s" "letter_ok new"
    and no: "\<forall>r \<in> set (soar_dead_letters s). letter_active r \<longrightarrow> \<not> same_source r new"
  shows "letter_safe s (s\<lparr>letter_seq := letter_seq s + 1, soar_dead_letters := soar_dead_letters s @ [new]\<rparr>)"
proof -
  have "wf_ids dl_id (letter_seq s + 1) (soar_dead_letters s @ [new])"
    using letter_inv_ids(1) [OF inv] new(1) by (rule wf_ids_insert)
  moreover have "\<forall>r \<in> set (soar_dead_letters s). letter_active r \<longrightarrow> \<not> same_source new r"
    using no by (auto simp: same_source_def)
  ultimately show ?thesis
    using inv new(2) no by (auto simp: letter_safe_def letter_inv_def letters.evolves_insert)
qed

lemma create_dead_letter_safe:
  assumes inv: "letter_inv s"
  shows "letter_safe s (snd (create_dead_letter clk a s))"
proof (cases "proposed_letter clk a (letter_seq s)")
  case (Inr new)
  note f = proposed_letter_facts [OF Inr]
  have bump: "letter_safe s (s\<lparr>letter_seq := letter_seq s + 1\<rparr>)"
    using inv by (auto simp: letter_safe_def letter_inv_def wf_ids_def letters.evolves_refl)
  have "\<forall>r \<in> set (soar_dead_letters s). letter_active r \<and> same_source r new \<longrightarrow> letter_step r (merge_letter new r)"
    using f(3) by (auto simp: letter_ok_def intro: ls_again)
  from letter_safe_update [OF inv _ this, of "letter_seq s + 1"]
    letter_safe_insert [OF inv f(1,3)] bump
  show ?thesis by (auto simp: create_dead_letter_def Inr Let_def split: option.splits)
qed (simp add: create_dead_letter_def letter_safe_refl inv)

lemma update_letter_safe:
  assumes inv: "letter_inv s" and step: "\<And>r. guard r \<Longrightarrow> letter_step r (f r)"
  shows "letter_safe s (snd (update_letter i guard f s))"
  using letter_safe_update [OF inv, of "letter_seq s" "\<lambda>r. dl_id r = i \<and> guard r" f] step
  by (simp add: update_letter_def Let_def)

lemma mark_letter_safe:
  assumes inv: "letter_inv s"
  shows "letter_safe s (snd (mark_dead_letter_dismissed clk i who reason t s))"
    and "letter_safe s (snd (mark_dead_letter_retry_requested clk i who t s))"
    and "letter_safe s (snd (mark_dead_letter_retried i s))"
proof -
  have "letter_safe s (snd (update_letter i letter_active (set_dismissed u who x) s))"
    if "\<not> url_search x" for u x using inv by (rule update_letter_safe) (erule ls_dismiss [OF _ that])
  then show "letter_safe s (snd (mark_dead_letter_dismissed clk i who reason t s))"
    using letter_safe_refl [OF inv] sanitize_message_free
    by (auto simp: mark_dead_letter_dismissed_def split: sum.splits option.splits)
qed (auto simp: mark_dead_letter_retry_requested_def mark_dead_letter_retried_def inv letter_safe_refl
    intro!: update_letter_safe intro: ls_request ls_retried split: option.splits)

inductive letter_op :: "letter_db \<Rightarrow> letter_db \<Rightarrow> bool" where
  lo_create: "letter_op s (snd (create_dead_letter clk a s))"
| lo_dismiss: "letter_op s (snd (mark_dead_letter_dismissed clk i who reason t s))"
| lo_request: "letter_op s (snd (mark_dead_letter_retry_requested clk i who t s))"
| lo_retried: "letter_op s (snd (mark_dead_letter_retried i s))"

definition letter_init :: letter_db where
  "letter_init = \<lparr>soar_dead_letters = [], letter_seq = 1\<rparr>"

lemma letter_inv_init: "letter_inv letter_init"
  by (simp add: letter_inv_def letter_init_def)

lemma letter_op_safe: "letter_op s s' \<Longrightarrow> letter_inv s \<Longrightarrow> letter_safe s s'"
  by (induction rule: letter_op.induct) (simp_all only: create_dead_letter_safe mark_letter_safe)

interpretation letter_ops: store_ops letter_op letter_inv
  "\<lambda>s s'. evolves dl_id letter_step (soar_dead_letters s) (soar_dead_letters s')"
  by unfold_locales
    (auto dest: letter_op_safe simp: letter_safe_def letters.evolves_refl intro: letters.evolves_trans)

subsection \<open>Properties\<close>

text \<open>C30: One active letter per failed source: in every reachable state ids are distinct, at most one
  letter of a source is open or retrying, and the counter and the times a retry was asked for and the
  letter dismissed agree with the status (a letter is retried at most once). Its payload holds no key
  of the deny list and no URL in a value, and neither do the error message and the reason of a
  dismissal hold one. The other texts (\<open>failure_class\<close>, \<open>action_name\<close>, \<open>playbook_id\<close>) are stored as the
  caller gives them, and nothing is claimed of them.\<close>

theorem dead_letters_well_formed:
  assumes "letter_op\<^sup>*\<^sup>* letter_init s"
  shows "distinct (map dl_id (soar_dead_letters s)) \<and> (\<forall>r \<in> set (soar_dead_letters s). letter_ok r) \<and>
    (\<forall>st sid. length (filter (\<lambda>r. letter_active r \<and> dl_source_type r = st \<and> dl_source_id r = sid)
       (soar_dead_letters s)) \<le> 1)"
proof -
  have inv: "letter_inv s" using assms letter_inv_init by (rule letter_ops.ops_inv)
  have "length (filter (\<lambda>r. letter_active r \<and> dl_source_type r = st \<and> dl_source_id r = sid) (soar_dead_letters s)) \<le> 1"
    for st sid
  proof -
    let ?f = "filter (\<lambda>r. letter_active r \<and> dl_source_type r = st \<and> dl_source_id r = sid) (soar_dead_letters s)"
    have same: "r = r'" if "r \<in> set ?f" "r' \<in> set ?f" for r r'
      using that letter_inv_unique [OF inv] by (auto simp: same_source_def)
    have "distinct ?f" using letter_inv_ids(2) [OF inv] by (simp add: distinct_map)
    then have "card (set ?f) = length ?f" by (rule distinct_card)
    moreover have "card (set ?f) \<le> 1"
      unfolding One_nat_def card_le_Suc0_iff_eq [OF finite_set] using same by blast
    ultimately show ?thesis by simp
  qed
  then show ?thesis using inv by (simp add: letter_inv_def wf_ids_def)
qed

text \<open>A closed letter is final: once retried or dismissed, no sequence of operations changes
  any of its columns.\<close>

theorem closed_letter_frozen:
  assumes "letter_inv s" "letter_op\<^sup>*\<^sup>* s s'"
    and "r \<in> set (soar_dead_letters s)" "dl_status r = LRetried \<or> dl_status r = LDismissed"
  shows "get_dead_letter (dl_id r) s' = Some r"
  unfolding get_dead_letter_def
  using letters.final_selected [OF letter_ops.ops_rel [OF assms(2,1)]
      letter_inv_ids(1) [OF letter_ops.ops_inv [OF assms(2,1)]] assms(3)] assms(4)
  by (auto simp: letter_active_def)

text \<open>A repeated failure updates the active letter and loses nothing: the row keeps its id,
  status, first failure time, creation time and retry counter; a context column is only
  overwritten by a known value; the failure itself is the new one. No second letter appears.\<close>

theorem repeated_failure_updates_letter:
  assumes inv: "letter_inv s"
    and new: "proposed_letter clk a (letter_seq s) = Inr new" "letter_fits new"
    and old: "r \<in> set (soar_dead_letters s)" "letter_active r" "same_source r new"
    and run: "create_dead_letter clk a s = (res, s')"
  shows "res = Inr (merge_letter new r) \<and> get_dead_letter (dl_id r) s' = Some (merge_letter new r) \<and>
    length (soar_dead_letters s') = length (soar_dead_letters s) \<and>
    dl_status (merge_letter new r) = dl_status r \<and>
    dl_first_failed_at (merge_letter new r) = dl_first_failed_at r \<and>
    dl_created_at (merge_letter new r) = dl_created_at r \<and>
    dl_retry_count (merge_letter new r) = dl_retry_count r \<and>
    dl_error_message (merge_letter new r) = dl_error_message new \<and>
    (dl_execution_id r \<noteq> None \<longrightarrow> dl_execution_id (merge_letter new r) \<noteq> None) \<and>
    (la_execution_id a = None \<longrightarrow> dl_execution_id (merge_letter new r) = dl_execution_id r)"
proof -
  let ?p = "\<lambda>x. letter_active x \<and> same_source x new" and ?t = "soar_dead_letters s"
  have only: "?p x \<longleftrightarrow> dl_id x = dl_id r" if "x \<in> set ?t" for x
  proof
    assume "?p x"
    then have "x = r" using letter_inv_unique [OF inv that old(1)] old(2,3) by (simp add: same_source_def)
    then show "dl_id x = dl_id r" by simp
  next
    assume "dl_id x = dl_id r"
    with letter_inv_ids(2) [OF inv] that old(1) have "x = r" by (rule distinct_key_unique)
    then show "?p x" using old(2,3) by simp
  qed
  have "returning ?p (merge_letter new) ?t = returning (\<lambda>x. dl_id x = dl_id r) (merge_letter new) ?t"
    unfolding returning_def using only by (metis (mono_tags, lifting) filter_cong)
  also have "\<dots> = [merge_letter new r]" using letter_inv_ids(2) [OF inv] old(1) by (rule returning_id)
  finally have ret: "returning ?p (merge_letter new) ?t = [merge_letter new r]" .
  have eq: "create_dead_letter clk a s = (Inr (merge_letter new r),
      s\<lparr>letter_seq := letter_seq s + 1, soar_dead_letters := update_where ?p (merge_letter new) ?t\<rparr>)"
    using new old ret by (auto simp: create_dead_letter_def Let_def fetchone_def)
  have inv': "letter_inv s'" using create_dead_letter_safe [OF inv, of clk a] run by (simp add: letter_safe_def)
  have s': "soar_dead_letters s' = update_where ?p (merge_letter new) ?t" "res = Inr (merge_letter new r)"
    using run eq by auto
  have "merge_letter new r \<in> set (soar_dead_letters s')" using old by (auto simp: s' set_update_where)
  from select_id_mem [OF letter_inv_ids(2) [OF inv'] this]
  have "get_dead_letter (dl_id r) s' = Some (merge_letter new r)" by (simp add: get_dead_letter_def merge_letter_def)
  moreover have "dl_execution_id new = la_execution_id a"
    using new(1) by (auto simp: proposed_letter_def split: sum.splits option.splits)
  ultimately show ?thesis using s' by (auto simp: merge_letter_def coalesce_opt_def split: option.splits)
qed

text \<open>The retry policy fails closed: a failure is classified as retryable only when its class,
  in any case and up to white space, is one of the ten named ones, the letter is not an approval's,
  and its status is open or retrying; unknown classes and missing values are never retryable.\<close>

theorem retry_policy_fails_closed:
  "classify_dead_letter_retryable fc st status = Inr True \<longleftrightarrow>
     lower (strip (coalesce fc [])) \<in> set RETRYABLE_FAILURE_CLASSES \<and>
     strip (coalesce st []) \<in> {[], ''notification_delivery'', ''playbook_execution'', ''response_action''} \<and>
     (coalesce status [] = [] \<or> strip (coalesce status []) \<in> {[], ''open'', ''retrying''})"
proof -
  have o: "strip ''open'' = ''open''" by code_simp
  have v: "validate_status (Some x) = Inr y \<longleftrightarrow> strip x \<noteq> [] \<and> strip x = y \<and> y \<in> set LETTER_VALID_STATUSES"
    "validate_source_type (Some x) = Inr y \<longleftrightarrow> strip x \<noteq> [] \<and> strip x = y \<and> y \<in> set VALID_SOURCE_TYPES" for x y
    by (auto simp: validate_status_def validate_source_type_def require_text_def)
  have st: "(case validate_status (Some x) of Inl e \<Rightarrow> Inl e
      | Inr _ \<Rightarrow> if x \<in> {''retried'', ''dismissed''} then Inr False else b) = Inr True \<longleftrightarrow>
      b = Inr True \<and> x \<in> {''open'', ''retrying''}" if "strip x = x" "x \<noteq> []" for x and b :: "bool result"
    using that v(1) [of x x] by (cases "validate_status (Some x)")
      (auto simp: v LETTER_VALID_STATUSES_def validate_status_def require_text_def)
  have src: "(case validate_source_type (Some x) of Inl e \<Rightarrow> Inl e
      | Inr _ \<Rightarrow> if x = ''approval'' then Inr False else b) = Inr True \<longleftrightarrow>
      b = Inr True \<and> x \<in> {''notification_delivery'', ''playbook_execution'', ''response_action''}"
    if "strip x = x" "x \<noteq> []" for x and b :: "bool result"
    using that v(2) [of x x] by (cases "validate_source_type (Some x)")
      (auto simp: v VALID_SOURCE_TYPES_def validate_source_type_def require_text_def)
  define X where "X = strip (if coalesce status [] = [] then ''open'' else coalesce status [])"
  define S where "S = strip (coalesce st [])"
  define F where "F = lower (strip (coalesce fc []))"
  define B :: "bool result" where "B = (if F \<in> set RETRYABLE_FAILURE_CLASSES then Inr True
    else if F \<in> set NON_RETRYABLE_FAILURE_CLASSES then Inr False else Inr False)"
  define C where "C = (if X = [] then B else case validate_status (Some X) of Inl e \<Rightarrow> Inl e
    | Inr _ \<Rightarrow> if X \<in> {''retried'', ''dismissed''} then Inr False else B)"
  have "classify_dead_letter_retryable fc st status = (if S = [] then C else
      case validate_source_type (Some S) of Inl e \<Rightarrow> Inl e
      | Inr _ \<Rightarrow> if S = ''approval'' then Inr False else C)"
    unfolding classify_dead_letter_retryable_def Let_def C_def B_def X_def S_def F_def by (rule refl)
  moreover have "\<dots> = Inr True \<longleftrightarrow> C = Inr True \<and>
      S \<in> {[], ''notification_delivery'', ''playbook_execution'', ''response_action''}"
    using src [of S C] by (cases "S = []") (simp_all add: S_def)
  moreover have "C = Inr True \<longleftrightarrow> B = Inr True \<and> X \<in> {[], ''open'', ''retrying''}"
    unfolding C_def using st [of X B] by (cases "X = []") (simp_all add: X_def)
  moreover have "B = Inr True \<longleftrightarrow> F \<in> set RETRYABLE_FAILURE_CLASSES" by (simp add: B_def)
  moreover have "X \<in> {[], ''open'', ''retrying''} \<longleftrightarrow>
      coalesce status [] = [] \<or> strip (coalesce status []) \<in> {[], ''open'', ''retrying''}" by (simp add: X_def o)
  ultimately show ?thesis unfolding S_def F_def by (simp only: conj_ac)
qed

subsection \<open>Witnesses\<close>

definition wit_letter_args :: "string \<Rightarrow> row_id option \<Rightarrow> letter_args" where
  "wit_letter_args msg ex =
     \<lparr>la_source_type = Some ''playbook_execution'', la_source_id = Some 4, la_error_message = Some msg,
      la_failure_class = Some ''timeout'', la_payload_json = PDict [(''api_token'', PStr ''x''), (''try'', PInt 1)],
      la_retryable = PBool True, la_execution_id = ex, la_incident_id = None, la_alert_id = None,
      la_playbook_id = None, la_step_index = None, la_action_name = None, la_first_failed_at = None,
      la_last_failed_at = None\<rparr>"

definition wit_letters :: letter_db where
  "wit_letters = snd (create_dead_letter \<lparr>utc_now = 0, sql_now = 0\<rparr> (wit_letter_args ''down'' (Some 4)) letter_init)"

definition wit_dismissed :: letter_db where
  "wit_dismissed = snd (mark_dead_letter_dismissed \<lparr>utc_now = 5, sql_now = 5\<rparr> 1 (Some 7) (Some ''known'') None wit_letters)"

lemma wit_letters_reach: "letter_op\<^sup>*\<^sup>* letter_init wit_letters" "letter_op\<^sup>*\<^sup>* letter_init wit_dismissed"
proof -
  show l: "letter_op\<^sup>*\<^sup>* letter_init wit_letters"
    unfolding wit_letters_def by (rule r_into_rtranclp, rule lo_create)
  show "letter_op\<^sup>*\<^sup>* letter_init wit_dismissed"
    unfolding wit_dismissed_def by (rule rtranclp.rtrancl_into_rtrancl [OF l]) (rule lo_dismiss)
qed

lemmas wit_letters_inv = wit_letters_reach [THEN letter_ops.ops_inv, OF letter_inv_init]

theorem dead_letters_well_formed_witness:
  "letter_ok (hd (soar_dead_letters wit_dismissed)) \<and>
     dl_payload_json (hd (soar_dead_letters wit_dismissed)) = [(''try'', PInt 1)]"
proof -
  have "length (soar_dead_letters wit_dismissed) = 1" by code_simp
  then have "hd (soar_dead_letters wit_dismissed) \<in> set (soar_dead_letters wit_dismissed)" by (intro hd_in_set) auto
  moreover have "dl_payload_json (hd (soar_dead_letters wit_dismissed)) = [(''try'', PInt 1)]" by code_simp
  ultimately show ?thesis using dead_letters_well_formed [OF wit_letters_reach(2)] by blast
qed

theorem closed_letter_frozen_witness:
  "get_dead_letter 1 (snd (mark_dead_letter_retry_requested \<lparr>utc_now = 9, sql_now = 9\<rparr> 1 None None wit_dismissed)) =
     Some (hd (soar_dead_letters wit_dismissed))"
proof -
  let ?r = "hd (soar_dead_letters wit_dismissed)"
  have l: "length (soar_dead_letters wit_dismissed) = 1" by code_simp
  have r: "?r \<in> set (soar_dead_letters wit_dismissed)" using l by (intro hd_in_set) auto
  have d: "dl_status ?r = LRetried \<or> dl_status ?r = LDismissed" "dl_id ?r = 1" by code_simp+
  show ?thesis
    using closed_letter_frozen [OF wit_letters_inv(2) r_into_rtranclp [of letter_op, OF lo_request] r d(1)]
    unfolding d(2) by blast
qed

theorem repeated_failure_updates_letter_witness:
  "\<exists>x. fst (create_dead_letter \<lparr>utc_now = 3, sql_now = 3\<rparr> (wit_letter_args ''still down'' None) wit_letters) = Inr x \<and>
     dl_first_failed_at x = 0 \<and> dl_execution_id x = Some 4 \<and> dl_error_message x = ''still down''"
proof -
  let ?clk = "\<lparr>utc_now = 3, sql_now = 3\<rparr>" and ?a = "wit_letter_args ''still down'' None"
  let ?p = "proposed_letter ?clk ?a (letter_seq wit_letters)" and ?r = "hd (soar_dead_letters wit_letters)"
  have p: "?p = Inr (projr ?p)" by code_simp
  have l: "length (soar_dead_letters wit_letters) = 1" by code_simp
  have r: "?r \<in> set (soar_dead_letters wit_letters)" using l by (intro hd_in_set) auto
  have f: "letter_fits (projr ?p)" "letter_active ?r" "same_source ?r (projr ?p)" by code_simp+
  have v: "dl_first_failed_at ?r = 0" "dl_execution_id ?r = Some 4" "dl_error_message (projr ?p) = ''still down''"
    "la_execution_id ?a = None" by code_simp+
  show ?thesis
    using repeated_failure_updates_letter [OF wit_letters_inv(1) p f(1) r f(2,3) prod.collapse [symmetric]]
    unfolding v by blast
qed

end
