(* ===== verification/Playbook_Executions.thy ===== *)
theory Playbook_Executions
  imports Tables Py_Values
begin

text \<open>
  The executions half of \<open>core/playbook_store.py\<close>: the table \<open>playbook_executions\<close>, worker
  leases (acquire, claim, resume, heartbeat, release), recovery of runs whose lease ran out, the
  setters a worker writes its progress with, and the operator's operations. Shown here: a lease
  excludes other workers while it is active, a worker that lost its lease can write nothing,
  recovery requeues a run only while attempts are left, guarded operations leave finished runs
  alone, and one playbook runs at most once at a time per alert.

  An \<open>UPDATE\<close> that would leave two active executions for one playbook and alert meets the
  table's partial unique index and raises. Naive and aware times are the same instants.
\<close>

subsection \<open>State\<close>

datatype exec_status =
  EPending | ERunning | EAwaiting | ESuccess | EFailed | EAbandoned | EPermanentlyFailed | ENotActioned

fun exec_status_text :: "exec_status \<Rightarrow> string" where
  "exec_status_text EPending = ''pending''"
| "exec_status_text ERunning = ''running''"
| "exec_status_text EAwaiting = ''awaiting_approval''"
| "exec_status_text ESuccess = ''success''"
| "exec_status_text EFailed = ''failed''"
| "exec_status_text EAbandoned = ''abandoned''"
| "exec_status_text EPermanentlyFailed = ''permanently_failed''"
| "exec_status_text ENotActioned = ''not_actioned''"

text \<open>The valid statuses, in the sorted order the error message prints.\<close>

definition VALID_EXECUTION_STATUSES :: "exec_status list" where
  "VALID_EXECUTION_STATUSES =
     [EAbandoned, EAwaiting, EFailed, ENotActioned, EPending, EPermanentlyFailed, ERunning, ESuccess]"

definition TERMINAL_EXECUTION_STATUSES :: "exec_status list" where
  "TERMINAL_EXECUTION_STATUSES = [ESuccess, EFailed, EAbandoned, EPermanentlyFailed, ENotActioned]"

definition PERMANENT_FAIL_ELIGIBLE_STATUSES :: "exec_status list" where
  "PERMANENT_FAIL_ELIGIBLE_STATUSES = [ERunning, EFailed, EAwaiting]"

definition DEFAULT_PLAYBOOK_EXECUTION_MAX_ATTEMPTS :: int where
  "DEFAULT_PLAYBOOK_EXECUTION_MAX_ATTEMPTS = 3"

record execution =
  ex_id :: row_id
  ex_playbook_id :: string
  ex_alert_id :: "row_id option"
  ex_incident_id :: "row_id option"
  ex_status :: exec_status
  ex_started_at :: "time option"
  ex_completed_at :: "time option"
  ex_last_completed_step :: "int option"
  ex_steps_log :: "pyval list"
  ex_created_at :: time
  ex_attempt_count :: int
  ex_max_attempts :: int
  ex_last_attempted_at :: "time option"
  ex_failure_reason :: "string option"
  ex_stale_after :: "int option"
  ex_timeout_seconds :: "int option"
  ex_lease_owner :: "string option"
  ex_lease_acquired_at :: "time option"
  ex_lease_heartbeat_at :: "time option"
  ex_lease_expires_at :: "time option"
  ex_recovery_count :: int
  ex_decision_id :: "row_id option"
  ex_soar_correlation_id :: "string option"
  ex_parent_execution_id :: "row_id option"
  ex_chain_depth :: int

record exec_db =
  playbook_executions :: "execution list"
  exec_seq :: row_id

definition exec_active :: "execution \<Rightarrow> bool" where
  "exec_active r \<longleftrightarrow> ex_status r \<in> {EPending, ERunning, EAwaiting}"

text \<open>The partial unique index on \<open>(playbook_id, alert_id)\<close>.\<close>

definition active_pairs :: "execution list \<Rightarrow> (string \<times> row_id option) list" where
  "active_pairs t = map (\<lambda>r. (ex_playbook_id r, ex_alert_id r))
     (filter (\<lambda>r. exec_active r \<and> ex_alert_id r \<noteq> None) t)"

definition pair_index_ok :: "execution list \<Rightarrow> bool" where
  "pair_index_ok t \<longleftrightarrow> distinct (active_pairs t)"

text \<open>\<open>UPDATE playbook_executions SET .. WHERE id = %s AND .. RETURNING ..\<close> and \<open>fetchone\<close>.\<close>

definition exec_update ::
  "row_id \<Rightarrow> (execution \<Rightarrow> bool) \<Rightarrow> (execution \<Rightarrow> execution) \<Rightarrow> (exec_db, execution option) py" where
  "exec_update i guard f s =
     (let here = (\<lambda>r. ex_id r = i \<and> guard r);
          t = update_where here f (playbook_executions s)
      in if pair_index_ok t
         then (Inr (fetchone (returning here f (playbook_executions s))), s\<lparr>playbook_executions := t\<rparr>)
         else (Inl (IntegrityError ''idx_playbook_executions_playbook_alert_unique''), s))"

definition get_playbook_execution :: "row_id \<Rightarrow> exec_db \<Rightarrow> execution option" where
  "get_playbook_execution i s = select_id ex_id i (playbook_executions s)"

subsection \<open>Stale runs, by their metadata\<close>

definition playbook_execution_row_is_stale_running :: "clock \<Rightarrow> execution \<Rightarrow> time option \<Rightarrow> bool" where
  "playbook_execution_row_is_stale_running clk row now =
     (if ex_status row \<noteq> ERunning then False
      else case coalesce_opt (ex_stale_after row) (ex_timeout_seconds row) of
             None \<Rightarrow> False
           | Some threshold \<Rightarrow>
               (case coalesce_opt (ex_last_attempted_at row) (ex_started_at row) of
                  None \<Rightarrow> False
                | Some ref \<Rightarrow> seconds threshold \<le> coalesce now (utc_now clk) - ref))"

definition playbook_execution_is_stale_running :: "clock \<Rightarrow> row_id \<Rightarrow> time option \<Rightarrow> exec_db \<Rightarrow> bool" where
  "playbook_execution_is_stale_running clk i now s =
     (case get_playbook_execution i s of
        None \<Rightarrow> False | Some row \<Rightarrow> playbook_execution_row_is_stale_running clk row now)"

definition list_stale_running_playbook_execution_ids :: "clock \<Rightarrow> time option \<Rightarrow> exec_db \<Rightarrow> row_id list" where
  "list_stale_running_playbook_execution_ids clk now s =
     map ex_id (filter (\<lambda>r. playbook_execution_row_is_stale_running clk r now)
       (order_asc ex_id (filter (\<lambda>r. ex_status r = ERunning) (playbook_executions s))))"

subsection \<open>Leases\<close>

definition lease_is_active :: "time option \<Rightarrow> time \<Rightarrow> bool" where
  "lease_is_active lease_expires_at now =
     (case lease_expires_at of None \<Rightarrow> False | Some t \<Rightarrow> now < t)"

text \<open>The optional condition \<open>AND lease_owner = %s\<close> of the setters.\<close>

definition lease_owner_guard :: "string option \<Rightarrow> execution \<Rightarrow> bool" where
  "lease_owner_guard lease_owner r =
     (let owner = strip (coalesce lease_owner []) in owner = [] \<or> ex_lease_owner r = Some owner)"

definition check_lease_args :: "string option \<Rightarrow> int \<Rightarrow> string result" where
  "check_lease_args lease_owner lease_duration_seconds =
     (let owner = strip (coalesce lease_owner [])
      in if owner = [] then Inl (ValueError ''lease_owner is required'')
         else if lease_duration_seconds < 1 then Inl (ValueError ''lease_duration_seconds must be at least 1'')
         else Inr owner)"

definition take_lease :: "string \<Rightarrow> time \<Rightarrow> int \<Rightarrow> execution \<Rightarrow> execution" where
  "take_lease owner now duration r =
     r\<lparr>ex_status := ERunning, ex_started_at := Some (coalesce (ex_started_at r) now),
       ex_lease_owner := Some owner, ex_lease_acquired_at := Some now,
       ex_lease_heartbeat_at := Some now, ex_lease_expires_at := Some (now + seconds duration)\<rparr>"

text \<open>The body shared by the three ways to take a lease: lock the row, check it, update it.\<close>

definition lock_and_lease ::
  "row_id \<Rightarrow> exec_status \<Rightarrow> time \<Rightarrow> (execution \<Rightarrow> execution) \<Rightarrow> (exec_db, execution option) py" where
  "lock_and_lease i from now f s =
     (case get_playbook_execution i s of
        None \<Rightarrow> (Inr None, s)
      | Some row \<Rightarrow>
          if ex_status row \<noteq> from then (Inr None, s)
          else if lease_is_active (ex_lease_expires_at row) now then (Inr None, s)
          else exec_update i (\<lambda>r. ex_status r = from) f s)"

definition acquire_execution_lease ::
  "clock \<Rightarrow> row_id \<Rightarrow> string option \<Rightarrow> int \<Rightarrow> time option \<Rightarrow> (exec_db, execution option) py" where
  "acquire_execution_lease clk i lease_owner duration now0 s =
     (case check_lease_args lease_owner duration of
        Inl e \<Rightarrow> (Inl e, s)
      | Inr owner \<Rightarrow>
          let now = coalesce now0 (utc_now clk) in lock_and_lease i EPending now (take_lease owner now duration) s)"

definition next_pending :: "(row_id \<Rightarrow> bool) \<Rightarrow> exec_db \<Rightarrow> execution option" where
  "next_pending locked s =
     fetchone (limit 1 (filter (\<lambda>r. \<not> locked (ex_id r))
       (order_asc (\<lambda>r. (ex_created_at r, ex_id r)) (filter (\<lambda>r. ex_status r = EPending) (playbook_executions s)))))"

definition claim_next_pending_playbook_execution_with_lease ::
  "(row_id \<Rightarrow> bool) \<Rightarrow> clock \<Rightarrow> string option \<Rightarrow> int \<Rightarrow> time option \<Rightarrow> (exec_db, execution option) py" where
  "claim_next_pending_playbook_execution_with_lease locked clk lease_owner duration now0 s =
     (case check_lease_args lease_owner duration of
        Inl e \<Rightarrow> (Inl e, s)
      | Inr owner \<Rightarrow>
          let now = coalesce now0 (utc_now clk)
          in case next_pending locked s of
               None \<Rightarrow> (Inr None, s)
             | Some row \<Rightarrow> lock_and_lease (ex_id row) EPending now (take_lease owner now duration) s)"

definition set_progress :: "pyval list \<Rightarrow> int option \<Rightarrow> execution \<Rightarrow> execution" where
  "set_progress steps_log last_step r = r\<lparr>ex_steps_log := steps_log, ex_last_completed_step := last_step\<rparr>"

definition acquire_awaiting_approval_resume_lease ::
  "clock \<Rightarrow> row_id \<Rightarrow> string option \<Rightarrow> pyval list \<Rightarrow> int option \<Rightarrow> int \<Rightarrow> time option \<Rightarrow>
   (exec_db, execution option) py" where
  "acquire_awaiting_approval_resume_lease clk i lease_owner steps_log last_step duration now0 s =
     (case check_lease_args lease_owner duration of
        Inl e \<Rightarrow> (Inl e, s)
      | Inr owner \<Rightarrow>
          let now = coalesce now0 (utc_now clk)
          in lock_and_lease i EAwaiting now
               (\<lambda>r. (set_progress steps_log last_step (take_lease owner now duration r))\<lparr>ex_completed_at := None\<rparr>) s)"

definition set_heartbeat :: "time \<Rightarrow> int \<Rightarrow> execution \<Rightarrow> execution" where
  "set_heartbeat now duration r =
     r\<lparr>ex_lease_heartbeat_at := Some now, ex_lease_expires_at := Some (now + seconds duration)\<rparr>"

definition heartbeat_execution_lease ::
  "clock \<Rightarrow> row_id \<Rightarrow> string option \<Rightarrow> int \<Rightarrow> time option \<Rightarrow> (exec_db, execution option) py" where
  "heartbeat_execution_lease clk i lease_owner duration now0 s =
     (case check_lease_args lease_owner duration of
        Inl e \<Rightarrow> (Inl e, s)
      | Inr owner \<Rightarrow>
          let now = coalesce now0 (utc_now clk)
          in exec_update i (\<lambda>r. ex_status r = ERunning \<and> ex_lease_owner r = Some owner \<and>
               lease_is_active (ex_lease_expires_at r) now) (set_heartbeat now duration) s)"

definition clear_lease :: "execution \<Rightarrow> execution" where
  "clear_lease r =
     r\<lparr>ex_lease_owner := None, ex_lease_acquired_at := None, ex_lease_heartbeat_at := None,
       ex_lease_expires_at := None\<rparr>"

definition release_execution_lease ::
  "row_id \<Rightarrow> string option \<Rightarrow> (exec_db, execution option) py" where
  "release_execution_lease i lease_owner s =
     (let owner = strip (coalesce lease_owner [])
      in if owner = [] then (Inl (ValueError ''lease_owner is required''), s)
         else exec_update i (\<lambda>r. ex_lease_owner r = Some owner) clear_lease s)"

subsection \<open>Recovery\<close>

definition lease_expired :: "time option \<Rightarrow> time \<Rightarrow> bool" where
  "lease_expired e now = (case e of None \<Rightarrow> False | Some t \<Rightarrow> t \<le> now)"

definition list_stale_running_executions ::
  "(row_id \<Rightarrow> bool) \<Rightarrow> clock \<Rightarrow> time option \<Rightarrow> int \<Rightarrow> exec_db \<Rightarrow> execution list result" where
  "list_stale_running_executions locked clk now lmt s =
     (if lmt < 0 then Inl (ValueError ''limit must be non-negative'')
      else Inr (limit lmt (filter (\<lambda>r. \<not> locked (ex_id r))
        (order_asc (\<lambda>r. (coalesce (ex_lease_expires_at r) 0, ex_id r))
          (filter (\<lambda>r. ex_status r = ERunning \<and> lease_expired (ex_lease_expires_at r) (coalesce now (utc_now clk)))
            (playbook_executions s))))))"

text \<open>\<open>failure_reason or default\<close>\<close>

definition text_or :: "string option \<Rightarrow> string \<Rightarrow> string" where
  "text_or v d = (if coalesce v [] = [] then d else coalesce v [])"

definition set_recovery ::
  "exec_status \<Rightarrow> time option \<Rightarrow> string \<Rightarrow> int \<Rightarrow> execution \<Rightarrow> execution" where
  "set_recovery st completed reason inc r =
     clear_lease (r\<lparr>ex_status := st, ex_completed_at := completed, ex_failure_reason := Some reason,
       ex_recovery_count := ex_recovery_count r + 1, ex_attempt_count := ex_attempt_count r + inc\<rparr>)"

definition mark_stale_execution_for_recovery ::
  "clock \<Rightarrow> row_id \<Rightarrow> time option \<Rightarrow> string option \<Rightarrow> (exec_db, execution option) py" where
  "mark_stale_execution_for_recovery clk i now0 failure_reason s =
     (let now = coalesce now0 (utc_now clk)
      in case get_playbook_execution i s of
           None \<Rightarrow> (Inr None, s)
         | Some current \<Rightarrow>
             if ex_status current \<noteq> ERunning then (Inr None, s)
             else if ex_lease_expires_at current = None then (Inr None, s)
             else if lease_is_active (ex_lease_expires_at current) now then (Inr None, s)
             else
               exec_update i (\<lambda>r. ex_status r = ERunning \<and> lease_expired (ex_lease_expires_at r) now)
                 (if ex_attempt_count current < ex_max_attempts current
                  then set_recovery EPending None (text_or failure_reason ''stale lease recovered for retry'') 1
                  else set_recovery EFailed (Some now) (text_or failure_reason ''stale lease exceeded max attempts'') 0)
                 s)"

definition count_expired_awaiting_approval_leases :: "clock \<Rightarrow> time option \<Rightarrow> exec_db \<Rightarrow> nat" where
  "count_expired_awaiting_approval_leases clk now s =
     length (filter (\<lambda>r. ex_status r = EAwaiting \<and> lease_expired (ex_lease_expires_at r) (coalesce now (utc_now clk)))
       (playbook_executions s))"

subsection \<open>The operator's operations\<close>

definition mark_playbook_execution_permanently_failed ::
  "clock \<Rightarrow> row_id \<Rightarrow> string option \<Rightarrow> time option \<Rightarrow> (exec_db, execution option) py" where
  "mark_playbook_execution_permanently_failed clk i failure_reason now s =
     (case get_playbook_execution i s of
        None \<Rightarrow> (Inr None, s)
      | Some current \<Rightarrow>
          if ex_status current = EPermanentlyFailed then (Inr (Some current), s)
          else
            let reason = strip (coalesce failure_reason [])
            in if reason = [] then (Inl (ValueError ''failure_reason is required''), s)
               else if ex_status current \<in> {ESuccess, EAbandoned, ENotActioned}
               then (Inl (ValueError (''cannot mark execution as permanently_failed from terminal status '' @
                       py_repr (exec_status_text (ex_status current)))), s)
               else if ex_status current \<notin> set PERMANENT_FAIL_ELIGIBLE_STATUSES
               then (Inl (ValueError (''permanently_failed is only allowed from running, failed, or '' @
                       ''awaiting_approval; current status: '' @ py_repr (exec_status_text (ex_status current)))), s)
               else
                 py_bind (exec_update i (\<lambda>r. ex_status r \<in> set PERMANENT_FAIL_ELIGIBLE_STATUSES)
                     (\<lambda>r. r\<lparr>ex_status := EPermanentlyFailed,
                            ex_completed_at := Some (coalesce now (utc_now clk)), ex_failure_reason := Some reason\<rparr>))
                   (\<lambda>row s'. case row of
                        None \<Rightarrow> (Inr (get_playbook_execution i s'), s')
                      | Some r \<Rightarrow> (Inr (Some r), s')) s)"

record execution_args =
  ea_playbook_id :: string
  ea_alert_id :: "row_id option"
  ea_incident_id :: "row_id option"
  ea_decision_id :: "row_id option"
  ea_soar_correlation_id :: "string option"
  ea_parent_execution_id :: "row_id option"
  ea_chain_depth :: int

definition new_execution :: "clock \<Rightarrow> execution_args \<Rightarrow> row_id \<Rightarrow> execution" where
  "new_execution clk a i =
     \<lparr>ex_id = i, ex_playbook_id = ea_playbook_id a, ex_alert_id = ea_alert_id a,
      ex_incident_id = ea_incident_id a, ex_status = EPending, ex_started_at = None,
      ex_completed_at = None, ex_last_completed_step = None, ex_steps_log = [],
      ex_created_at = sql_now clk, ex_attempt_count = 0,
      ex_max_attempts = DEFAULT_PLAYBOOK_EXECUTION_MAX_ATTEMPTS, ex_last_attempted_at = None,
      ex_failure_reason = None, ex_stale_after = None, ex_timeout_seconds = None,
      ex_lease_owner = None, ex_lease_acquired_at = None, ex_lease_heartbeat_at = None,
      ex_lease_expires_at = None, ex_recovery_count = 0, ex_decision_id = ea_decision_id a,
      ex_soar_correlation_id = ea_soar_correlation_id a,
      ex_parent_execution_id = ea_parent_execution_id a, ex_chain_depth = ea_chain_depth a\<rparr>"

text \<open>\<open>INSERT\<close>: the id is drawn first, then the index is checked. \<open>Inr None\<close> is the conflict.\<close>

definition exec_insert :: "execution \<Rightarrow> exec_db \<Rightarrow> row_id option \<times> exec_db" where
  "exec_insert r s =
     (let s1 = s\<lparr>exec_seq := exec_seq s + 1\<rparr>
      in if pair_index_ok (playbook_executions s @ [r])
         then (Some (ex_id r), s1\<lparr>playbook_executions := playbook_executions s @ [r]\<rparr>)
         else (None, s1))"

definition create_playbook_execution :: "clock \<Rightarrow> execution_args \<Rightarrow> (exec_db, row_id) py" where
  "create_playbook_execution clk a s =
     (case exec_insert (new_execution clk a (exec_seq s)) s of
        (Some i, s') \<Rightarrow> (Inr i, s')
      | (None, s') \<Rightarrow> (Inl (IntegrityError ''idx_playbook_executions_playbook_alert_unique''), s'))"

definition create_pending_playbook_execution_once :: "clock \<Rightarrow> execution_args \<Rightarrow> (exec_db, row_id option) py" where
  "create_pending_playbook_execution_once clk a s =
     (if ea_alert_id a = None then (Inl (ValueError ''alert_id is required''), s)
      else case exec_insert (new_execution clk a (exec_seq s)) s of (r, s') \<Rightarrow> (Inr r, s'))"

definition newest_executions :: "execution list \<Rightarrow> execution list" where
  "newest_executions = order_desc (\<lambda>r. (ex_created_at r, ex_id r))"

definition get_active_playbook_execution_for_pair ::
  "string \<Rightarrow> row_id option \<Rightarrow> exec_db \<Rightarrow> execution option" where
  "get_active_playbook_execution_for_pair playbook_id alert_id s =
     (if alert_id = None then None
      else fetchone (limit 1 (newest_executions (filter (\<lambda>r. ex_playbook_id r = playbook_id \<and>
             ex_alert_id r = alert_id \<and> exec_active r) (playbook_executions s)))))"

definition get_active_playbook_execution_for_target ::
  "string \<Rightarrow> row_id option \<Rightarrow> row_id option \<Rightarrow> exec_db \<Rightarrow> execution option result" where
  "get_active_playbook_execution_for_target playbook_id alert_id incident_id s =
     (if (alert_id = None) = (incident_id = None)
      then Inl (ValueError ''exactly one of alert_id or incident_id is required'')
      else Inr (fetchone (limit 1 (newest_executions (filter (\<lambda>r. ex_playbook_id r = playbook_id \<and>
             (if alert_id \<noteq> None then ex_alert_id r = alert_id else ex_incident_id r = incident_id) \<and>
             exec_active r) (playbook_executions s))))))"

text \<open>The loop over \<open>parent_execution_id\<close>; the counter is \<open>max_hops - hops\<close>.\<close>

fun ancestors_from :: "nat \<Rightarrow> execution \<Rightarrow> exec_db \<Rightarrow> execution list" where
  "ancestors_from 0 current s = []"
| "ancestors_from (Suc n) current s =
     (case ex_parent_execution_id current of
        None \<Rightarrow> []
      | Some p \<Rightarrow>
          (case get_playbook_execution p s of
             None \<Rightarrow> []
           | Some parent \<Rightarrow> parent # ancestors_from n parent s))"

definition get_playbook_execution_ancestor_chain :: "row_id \<Rightarrow> int \<Rightarrow> exec_db \<Rightarrow> execution list" where
  "get_playbook_execution_ancestor_chain i max_hops s =
     (case get_playbook_execution i s of None \<Rightarrow> [] | Some current \<Rightarrow> ancestors_from (nat max_hops) current s)"

definition active_execution_exists_for_pair ::
  "string \<Rightarrow> row_id option \<Rightarrow> row_id option \<Rightarrow> exec_db \<Rightarrow> bool" where
  "active_execution_exists_for_pair playbook_id alert_id exclude s =
     (if alert_id = None then False
      else \<exists>r \<in> set (playbook_executions s). ex_playbook_id r = playbook_id \<and> ex_alert_id r = alert_id \<and>
             exec_active r \<and> (case exclude of None \<Rightarrow> True | Some x \<Rightarrow> ex_id r \<noteq> x))"

definition active_playbook_execution_exists :: "string \<Rightarrow> row_id option \<Rightarrow> exec_db \<Rightarrow> bool" where
  "active_playbook_execution_exists playbook_id alert_id s =
     active_execution_exists_for_pair playbook_id alert_id None s"

definition create_retry_execution :: "clock \<Rightarrow> row_id \<Rightarrow> (exec_db, row_id) py" where
  "create_retry_execution clk source_id s =
     (case get_playbook_execution source_id s of
        None \<Rightarrow> (Inl (ValueError ''execution not found''), s)
      | Some source \<Rightarrow>
          if ex_status source \<notin> {EFailed, EAbandoned}
          then (Inl (ValueError (''retry requires failed or abandoned execution; current status: '' @
                  exec_status_text (ex_status source))), s)
          else if active_execution_exists_for_pair (ex_playbook_id source) (ex_alert_id source) (Some source_id) s
          then (Inl (ValueError ''active execution already exists for playbook and alert''), s)
          else
            (case exec_insert (new_execution clk
                \<lparr>ea_playbook_id = ex_playbook_id source, ea_alert_id = ex_alert_id source,
                 ea_incident_id = ex_incident_id source, ea_decision_id = None,
                 ea_soar_correlation_id = None, ea_parent_execution_id = None, ea_chain_depth = 0\<rparr>
                (exec_seq s)) s of
               (Some i, s') \<Rightarrow> (Inr i, s')
             | (None, s') \<Rightarrow> (Inl (ValueError ''active execution already exists for playbook and alert''), s')))"

definition set_playbook_execution_canonical_linkage ::
  "row_id \<Rightarrow> row_id \<Rightarrow> string \<Rightarrow> (exec_db, execution option) py" where
  "set_playbook_execution_canonical_linkage i decision_id correlation =
     exec_update i (\<lambda>_. True) (\<lambda>r. r\<lparr>ex_decision_id := Some decision_id, ex_soar_correlation_id := Some correlation\<rparr>)"

definition abandon_playbook_execution :: "clock \<Rightarrow> row_id \<Rightarrow> (exec_db, string) py" where
  "abandon_playbook_execution clk i =
     py_bind (exec_update i exec_active (\<lambda>r. r\<lparr>ex_status := EAbandoned, ex_completed_at := Some (sql_now clk)\<rparr>))
       (\<lambda>row s. case row of
            Some _ \<Rightarrow> (Inr ''ok'', s)
          | None \<Rightarrow>
              (case get_playbook_execution i s of
                 None \<Rightarrow> (Inl (ValueError ''execution not found''), s)
               | Some current \<Rightarrow>
                   if ex_status current = EAbandoned then (Inr ''no_op'', s)
                   else let st = [char_of (39 :: nat)] @ exec_status_text (ex_status current) @ [char_of (39 :: nat)]
                        in if ex_status current \<in> {ESuccess, EFailed, EPermanentlyFailed, ENotActioned}
                           then (Inl (ValueError (''cannot abandon terminal execution with status '' @ st)), s)
                           else (Inl (ValueError (''cannot abandon execution with status '' @ st)), s)))"

subsection \<open>Reliability metadata\<close>

record reliability =
  rl_attempt_count :: int
  rl_max_attempts :: int
  rl_last_attempted_at :: "time option"
  rl_failure_reason :: "string option"
  rl_stale_after :: "int option"
  rl_timeout_seconds :: "int option"

definition get_playbook_execution_reliability_metadata :: "row_id \<Rightarrow> exec_db \<Rightarrow> reliability option" where
  "get_playbook_execution_reliability_metadata i s =
     map_option (\<lambda>r. \<lparr>rl_attempt_count = ex_attempt_count r, rl_max_attempts = ex_max_attempts r,
        rl_last_attempted_at = ex_last_attempted_at r, rl_failure_reason = ex_failure_reason r,
        rl_stale_after = ex_stale_after r, rl_timeout_seconds = ex_timeout_seconds r\<rparr>)
       (get_playbook_execution i s)"

text \<open>The outer \<open>None\<close> is \<open>_UNSET\<close>.\<close>

record reliability_update =
  ru_attempt_count :: "int option"
  ru_max_attempts :: "int option"
  ru_last_attempted_at :: "time option option"
  ru_failure_reason :: "string option option"
  ru_stale_after :: "int option option"
  ru_timeout_seconds :: "int option option"

definition negative_set :: "int option option \<Rightarrow> bool" where
  "negative_set v = (case v of Some (Some x) \<Rightarrow> x < 0 | _ \<Rightarrow> False)"

definition apply_reliability :: "reliability_update \<Rightarrow> execution \<Rightarrow> execution" where
  "apply_reliability u r =
     r\<lparr>ex_attempt_count := coalesce (ru_attempt_count u) (ex_attempt_count r),
       ex_max_attempts := coalesce (ru_max_attempts u) (ex_max_attempts r),
       ex_last_attempted_at := coalesce (ru_last_attempted_at u) (ex_last_attempted_at r),
       ex_failure_reason := coalesce (ru_failure_reason u) (ex_failure_reason r),
       ex_stale_after := coalesce (ru_stale_after u) (ex_stale_after r),
       ex_timeout_seconds := coalesce (ru_timeout_seconds u) (ex_timeout_seconds r)\<rparr>"

definition nothing_set :: "reliability_update \<Rightarrow> bool" where
  "nothing_set u \<longleftrightarrow> ru_attempt_count u = None \<and> ru_max_attempts u = None \<and> ru_last_attempted_at u = None \<and>
     ru_failure_reason u = None \<and> ru_stale_after u = None \<and> ru_timeout_seconds u = None"

definition update_playbook_execution_reliability_metadata ::
  "row_id \<Rightarrow> reliability_update \<Rightarrow> (exec_db, execution option) py" where
  "update_playbook_execution_reliability_metadata i u s =
     (if negative_set (map_option Some (ru_attempt_count u))
      then (Inl (ValueError ''attempt_count must be non-negative''), s)
      else if negative_set (map_option Some (ru_max_attempts u))
      then (Inl (ValueError ''max_attempts must be non-negative''), s)
      else if negative_set (ru_stale_after u)
      then (Inl (ValueError ''stale_after must be non-negative when set''), s)
      else if negative_set (ru_timeout_seconds u)
      then (Inl (ValueError ''timeout_seconds must be non-negative when set''), s)
      else if nothing_set u then (Inr (get_playbook_execution i s), s)
      else exec_update i (\<lambda>_. True) (apply_reliability u) s)"

subsection \<open>Lists\<close>

definition oldest_with_status :: "exec_status \<Rightarrow> int \<Rightarrow> exec_db \<Rightarrow> execution list result" where
  "oldest_with_status st lmt s =
     (if lmt < 0 then Inl (DataError ''LIMIT must not be negative'')
      else Inr (limit lmt (order_asc (\<lambda>r. (ex_created_at r, ex_id r))
        (filter (\<lambda>r. ex_status r = st) (playbook_executions s)))))"

definition list_pending_playbook_executions :: "int \<Rightarrow> exec_db \<Rightarrow> execution list result" where
  "list_pending_playbook_executions lmt s = oldest_with_status EPending lmt s"

definition list_awaiting_approval_playbook_executions :: "int \<Rightarrow> exec_db \<Rightarrow> execution list result" where
  "list_awaiting_approval_playbook_executions lmt s = oldest_with_status EAwaiting lmt s"

text \<open>SQL leaves the order of executions created at the same time open; here the later row comes first.\<close>

definition list_playbook_executions ::
  "string option \<Rightarrow> string option \<Rightarrow> int \<Rightarrow> exec_db \<Rightarrow> execution list result" where
  "list_playbook_executions playbook_id status lmt s =
     (if lmt < 0 then Inl (DataError ''LIMIT must not be negative'')
      else Inr (limit lmt (order_desc ex_created_at
        (filter_opt (exec_status_text \<circ> ex_status) status
          (filter_opt ex_playbook_id playbook_id (playbook_executions s))))))"

subsection \<open>The worker's writes\<close>

definition start_running :: "time \<Rightarrow> execution \<Rightarrow> execution" where
  "start_running now r = r\<lparr>ex_status := ERunning, ex_started_at := Some (coalesce (ex_started_at r) now)\<rparr>"

definition claim_next_pending_playbook_execution ::
  "(row_id \<Rightarrow> bool) \<Rightarrow> clock \<Rightarrow> time option \<Rightarrow> (exec_db, execution option) py" where
  "claim_next_pending_playbook_execution locked clk now s =
     (case next_pending locked s of
        None \<Rightarrow> (Inr None, s)
      | Some row \<Rightarrow> exec_update (ex_id row) (\<lambda>_. True) (start_running (coalesce now (utc_now clk))) s)"

definition set_playbook_execution_running ::
  "clock \<Rightarrow> row_id \<Rightarrow> time option \<Rightarrow> (exec_db, execution option) py" where
  "set_playbook_execution_running clk i now =
     exec_update i (\<lambda>r. ex_status r = EPending) (start_running (coalesce now (utc_now clk)))"

definition set_playbook_execution_resumed_running ::
  "clock \<Rightarrow> row_id \<Rightarrow> pyval list \<Rightarrow> int option \<Rightarrow> time option \<Rightarrow> (exec_db, execution option) py" where
  "set_playbook_execution_resumed_running clk i steps_log last_step now =
     exec_update i (\<lambda>r. ex_status r = EAwaiting)
       (\<lambda>r. (set_progress steps_log last_step (start_running (coalesce now (utc_now clk)) r))\<lparr>ex_completed_at := None\<rparr>)"

definition update_playbook_execution_step_log ::
  "row_id \<Rightarrow> pyval list \<Rightarrow> int option \<Rightarrow> string option \<Rightarrow> (exec_db, execution option) py" where
  "update_playbook_execution_step_log i steps_log last_step lease_owner =
     exec_update i (lease_owner_guard lease_owner) (set_progress steps_log last_step)"

definition finish ::
  "exec_status \<Rightarrow> time option \<Rightarrow> pyval list \<Rightarrow> int option \<Rightarrow> execution \<Rightarrow> execution" where
  "finish st completed steps_log last_step r =
     (set_progress steps_log last_step r)\<lparr>ex_status := st, ex_completed_at := completed\<rparr>"

definition set_playbook_execution_success ::
  "clock \<Rightarrow> row_id \<Rightarrow> pyval list \<Rightarrow> int option \<Rightarrow> time option \<Rightarrow> string option \<Rightarrow> (exec_db, execution option) py" where
  "set_playbook_execution_success clk i steps_log last_step now lease_owner =
     exec_update i (lease_owner_guard lease_owner)
       (finish ESuccess (Some (coalesce now (utc_now clk))) steps_log last_step)"

definition set_playbook_execution_failed ::
  "clock \<Rightarrow> row_id \<Rightarrow> pyval list \<Rightarrow> int option \<Rightarrow> time option \<Rightarrow> string option \<Rightarrow> (exec_db, execution option) py" where
  "set_playbook_execution_failed clk i steps_log last_step now lease_owner =
     exec_update i (lease_owner_guard lease_owner)
       (finish EFailed (Some (coalesce now (utc_now clk))) steps_log last_step)"

definition set_playbook_execution_not_actioned ::
  "clock \<Rightarrow> row_id \<Rightarrow> pyval list \<Rightarrow> int option \<Rightarrow> time option \<Rightarrow> string option \<Rightarrow> (exec_db, execution option) py" where
  "set_playbook_execution_not_actioned clk i steps_log last_step now lease_owner =
     exec_update i (lease_owner_guard lease_owner)
       (finish ENotActioned (Some (coalesce now (utc_now clk))) steps_log last_step)"

definition set_playbook_execution_awaiting_approval ::
  "row_id \<Rightarrow> pyval list \<Rightarrow> int option \<Rightarrow> string option \<Rightarrow> (exec_db, execution option) py" where
  "set_playbook_execution_awaiting_approval i steps_log last_step lease_owner =
     exec_update i (lease_owner_guard lease_owner) (finish EAwaiting None steps_log last_step)"

definition update_execution_status :: "clock \<Rightarrow> row_id \<Rightarrow> string \<Rightarrow> time option \<Rightarrow> (exec_db, unit) py" where
  "update_execution_status clk i status now =
     (case filter (\<lambda>st. exec_status_text st = status) VALID_EXECUTION_STATUSES of
        [] \<Rightarrow> (\<lambda>s. (Inl (ValueError (''invalid execution status '' @ py_repr status @ ''; must be one of '' @
                 py_list_repr (map exec_status_text VALID_EXECUTION_STATUSES))), s))
      | st # _ \<Rightarrow>
          py_bind (exec_update i (\<lambda>_. True)
             (\<lambda>r. if st = ERunning then start_running (coalesce now (utc_now clk)) r
                  else if st \<in> set TERMINAL_EXECUTION_STATUSES
                  then r\<lparr>ex_status := st, ex_completed_at := Some (coalesce now (utc_now clk))\<rparr>
                  else r\<lparr>ex_status := st\<rparr>))
            (\<lambda>_ s. (Inr (), s)))"

subsection \<open>What an update does\<close>

definition exec_inv :: "exec_db \<Rightarrow> bool" where
  "exec_inv s \<longleftrightarrow> wf_ids ex_id (exec_seq s) (playbook_executions s) \<and> pair_index_ok (playbook_executions s)"

text \<open>Recovery counts attempts, up to the limit of the row.\<close>

definition attempts_ok :: "exec_db \<Rightarrow> bool" where
  "attempts_ok s \<longleftrightarrow>
     (\<forall>r \<in> set (playbook_executions s). 0 \<le> ex_attempt_count r \<and> ex_attempt_count r \<le> ex_max_attempts r)"

lemma exec_inv_ids:
  "exec_inv s \<Longrightarrow> wf_ids ex_id (exec_seq s) (playbook_executions s)"
  "exec_inv s \<Longrightarrow> distinct (map ex_id (playbook_executions s))"
  "exec_inv s \<Longrightarrow> pair_index_ok (playbook_executions s)"
  by (simp_all add: exec_inv_def wf_ids_def)

lemma get_playbook_execution_mem:
  "get_playbook_execution i s = Some r \<Longrightarrow> r \<in> set (playbook_executions s) \<and> ex_id r = i"
  unfolding get_playbook_execution_def by (rule select_id_Some)

lemma get_playbook_execution_eq:
  "exec_inv s \<Longrightarrow> r \<in> set (playbook_executions s) \<Longrightarrow> get_playbook_execution (ex_id r) s = Some r"
  unfolding get_playbook_execution_def by (rule select_id_mem [OF exec_inv_ids(2)])

definition keeps_pair :: "(execution \<Rightarrow> execution) \<Rightarrow> execution \<Rightarrow> bool" where
  "keeps_pair f r \<longleftrightarrow> ex_playbook_id (f r) = ex_playbook_id r \<and> ex_alert_id (f r) = ex_alert_id r \<and>
     (exec_active (f r) \<longrightarrow> exec_active r)"

lemma pair_index_update:
  assumes "pair_index_ok t" "\<forall>r \<in> set t. p r \<longrightarrow> keeps_pair f r"
  shows "pair_index_ok (update_where p f t)"
proof -
  have "set (active_pairs (update_where p f t)) \<subseteq> set (active_pairs t)" if "\<forall>r \<in> set t. p r \<longrightarrow> keeps_pair f r" for t
    using that by (induction t) (auto simp: active_pairs_def keeps_pair_def)
  with assms show ?thesis unfolding pair_index_ok_def
  proof (induction t)
    case (Cons r t)
    have "distinct (active_pairs t)" using Cons.prems(1) by (auto simp: active_pairs_def split: if_splits)
    then have IH: "distinct (active_pairs (update_where p f t))" using Cons by simp
    have sub: "set (active_pairs (update_where p f t)) \<subseteq> set (active_pairs t)" using Cons.prems by simp
    show ?case
    proof (cases "p r")
      case True
      then have "keeps_pair f r" using Cons.prems(2) by simp
      then show ?thesis using True IH sub Cons.prems(1)
        by (auto simp: active_pairs_def keeps_pair_def split: if_splits)
    next
      case False
      then show ?thesis using IH sub Cons.prems(1) by (auto simp: active_pairs_def split: if_splits)
    qed
  qed (simp add: active_pairs_def)
qed

lemma exec_update_none:
  assumes "exec_inv s" "\<forall>r \<in> set (playbook_executions s). ex_id r = i \<longrightarrow> \<not> guard r"
  shows "exec_update i guard f s = (Inr None, s)"
proof -
  have "\<forall>r \<in> set (playbook_executions s). \<not> (ex_id r = i \<and> guard r)" using assms(2) by blast
  moreover from this have "update_where (\<lambda>r. ex_id r = i \<and> guard r) f (playbook_executions s) = playbook_executions s"
    by (rule update_where_none)
  ultimately show ?thesis using exec_inv_ids(3) [OF assms(1)] by (simp add: exec_update_def fetchone_None returning_empty)
qed

text \<open>A matching row is changed and returned; the index can stop only an update that makes a
  finished row active.\<close>

lemma exec_update_one:
  assumes inv: "exec_inv s" and r: "r \<in> set (playbook_executions s)" "guard r" and keep: "keeps_pair f r"
  shows "exec_update (ex_id r) guard f s = (Inr (Some (f r)),
    s\<lparr>playbook_executions := update_where (\<lambda>x. ex_id x = ex_id r) f (playbook_executions s)\<rparr>)"
proof -
  let ?t = "playbook_executions s"
  have only: "(ex_id x = ex_id r \<and> guard x) = (ex_id x = ex_id r)" if "x \<in> set ?t" for x
    using distinct_key_unique [OF exec_inv_ids(2) [OF inv] that r(1)] r(2) by blast
  then have u: "update_where (\<lambda>x. ex_id x = ex_id r \<and> guard x) f ?t = update_where (\<lambda>x. ex_id x = ex_id r) f ?t"
    unfolding update_where_def by (intro map_cong) simp_all
  have "filter (\<lambda>x. ex_id x = ex_id r \<and> guard x) ?t = filter (\<lambda>x. ex_id x = ex_id r) ?t"
    using only by (rule filter_cong [OF refl])
  then have "returning (\<lambda>x. ex_id x = ex_id r \<and> guard x) f ?t = [f r]"
    using returning_id [OF exec_inv_ids(2) [OF inv] r(1)] by (simp add: returning_def)
  moreover have "pair_index_ok (update_where (\<lambda>x. ex_id x = ex_id r) f ?t)"
    using exec_inv_ids(3) [OF inv]
    by (rule pair_index_update) (use distinct_key_unique [OF exec_inv_ids(2) [OF inv] _ r(1)] keep in blast)
  ultimately show ?thesis by (simp add: exec_update_def u fetchone_def)
qed

subsection \<open>The life cycle of an execution\<close>

text \<open>The steps of the operations that check the status.\<close>

inductive exec_step :: "execution \<Rightarrow> execution \<Rightarrow> bool" where
  es_lease: "ex_status r = EPending \<Longrightarrow> exec_step r (take_lease w t d r)"
| es_run: "ex_status r = EPending \<Longrightarrow> exec_step r (start_running t r)"
| es_resume_lease: "ex_status r = EAwaiting \<Longrightarrow>
    exec_step r ((set_progress l k (take_lease w t d r))\<lparr>ex_completed_at := None\<rparr>)"
| es_resume: "ex_status r = EAwaiting \<Longrightarrow> exec_step r ((set_progress l k (start_running t r))\<lparr>ex_completed_at := None\<rparr>)"
| es_heartbeat: "exec_step r (set_heartbeat t d r)"
| es_release: "exec_step r (clear_lease r)"
| es_requeue: "ex_status r = ERunning \<Longrightarrow> ex_attempt_count r < ex_max_attempts r \<Longrightarrow>
    exec_step r (set_recovery EPending None x 1 r)"
| es_exhausted: "ex_status r = ERunning \<Longrightarrow> exec_step r (set_recovery EFailed c x 0 r)"
| es_permanent: "ex_status r \<in> {ERunning, EFailed, EAwaiting} \<Longrightarrow>
    exec_step r (r\<lparr>ex_status := EPermanentlyFailed, ex_completed_at := Some t, ex_failure_reason := Some x\<rparr>)"
| es_abandon: "exec_active r \<Longrightarrow> exec_step r (r\<lparr>ex_status := EAbandoned, ex_completed_at := Some t\<rparr>)"
| es_link: "exec_step r (r\<lparr>ex_decision_id := Some k', ex_soar_correlation_id := Some c'\<rparr>)"

declare exec_step.intros [row_steps]

lemmas exec_updates = take_lease_def start_running_def set_progress_def set_heartbeat_def clear_lease_def
  set_recovery_def finish_def

definition exec_final :: "execution \<Rightarrow> bool" where
  "exec_final r \<longleftrightarrow> ex_status r \<in> {ESuccess, EAbandoned, EPermanentlyFailed, ENotActioned}"

definition exec_outcome :: "execution \<Rightarrow> exec_status \<times> time option \<times> pyval list \<times> int option" where
  "exec_outcome r = (ex_status r, ex_completed_at r, ex_steps_log r, ex_last_completed_step r)"

interpretation execs: row_lifecycle ex_id exec_step exec_final exec_outcome
  by unfold_locales
    (auto elim!: exec_step.cases simp: exec_updates exec_final_def exec_outcome_def exec_active_def)

text \<open>The worker's writes, which check the lease but not the status, and \<open>update_execution_status\<close>,
  which checks neither.\<close>

inductive exec_write :: "execution \<Rightarrow> execution \<Rightarrow> bool" where
  ew_step: "exec_step r r' \<Longrightarrow> exec_write r r'"
| ew_progress: "exec_write r (set_progress l k r)"
| ew_finish: "exec_write r (finish st c l k r)"
| ew_start: "exec_write r (start_running t r)"
| ew_end: "exec_write r (r\<lparr>ex_status := st, ex_completed_at := c\<rparr>)"
| ew_status: "exec_write r (r\<lparr>ex_status := st\<rparr>)"

lemma exec_step_facts:
  assumes "exec_step r r'"
  shows "ex_id r' = ex_id r" "ex_playbook_id r' = ex_playbook_id r" "ex_alert_id r' = ex_alert_id r"
    and "exec_active r' \<Longrightarrow> exec_active r" "ex_attempt_count r \<le> ex_attempt_count r'"
    and "ex_attempt_count r \<le> ex_max_attempts r \<Longrightarrow> ex_attempt_count r' \<le> ex_max_attempts r'"
  using assms by (cases; auto simp: exec_updates exec_active_def)+

lemma exec_step_keeps: "exec_step r (f r) \<Longrightarrow> keeps_pair f r"
  using exec_step_facts [of r "f r"] by (auto simp: keeps_pair_def)

lemma exec_write_facts:
  assumes "exec_write r r'"
  shows "ex_id r' = ex_id r" "ex_attempt_count r \<le> ex_attempt_count r'"
    and "ex_attempt_count r \<le> ex_max_attempts r \<Longrightarrow> ex_attempt_count r' \<le> ex_max_attempts r'"
  using assms by (cases; auto simp: exec_updates dest: exec_step_facts)+

interpretation exec_writes: row_lifecycle ex_id exec_write "\<lambda>r. False" id
  by unfold_locales (auto dest: exec_write_facts)

subsection \<open>Every operation moves rows along these steps\<close>

definition exec_moves :: "(execution \<Rightarrow> execution \<Rightarrow> bool) \<Rightarrow> exec_db \<Rightarrow> exec_db \<Rightarrow> bool" where
  "exec_moves R s s' \<longleftrightarrow> exec_inv s' \<and> (attempts_ok s \<longrightarrow> attempts_ok s') \<and>
     evolves ex_id R (playbook_executions s) (playbook_executions s')"

lemma exec_moves_refl: "exec_inv s \<Longrightarrow> exec_moves R s s"
  by (auto simp: exec_moves_def evolves_def)

lemma exec_moves_write: "exec_moves exec_step s s' \<Longrightarrow> exec_moves exec_write s s'"
  unfolding exec_moves_def evolves_def using mono_rtranclp [of exec_step exec_write] ew_step by blast

lemma exec_update_inv:
  assumes inv: "exec_inv s"
    and step: "\<forall>r \<in> set (playbook_executions s). ex_id r = i \<longrightarrow> guard r \<longrightarrow> exec_write r (f r)"
  shows "exec_inv (snd (exec_update i guard f s))"
    and "attempts_ok s \<Longrightarrow> attempts_ok (snd (exec_update i guard f s))"
proof -
  let ?t = "playbook_executions s" and ?p = "\<lambda>r. ex_id r = i \<and> guard r"
  have s': "\<forall>r \<in> set ?t. ?p r \<longrightarrow> exec_write r (f r)" using step by blast
  have "wf_ids ex_id (exec_seq s) (update_where ?p f ?t)"
    using exec_inv_ids(1) [OF inv] s' by (rule exec_writes.wf_update)
  then show "exec_inv (snd (exec_update i guard f s))" using inv by (auto simp: exec_update_def exec_inv_def Let_def)
  assume old: "attempts_ok s"
  have "0 \<le> ex_attempt_count r \<and> ex_attempt_count r \<le> ex_max_attempts r" if mem: "r \<in> set (update_where ?p f ?t)" for r
  proof (cases "r \<in> set ?t")
    case False
    then obtain x where x: "x \<in> set ?t" "?p x" "r = f x" using mem by (auto simp: set_update_where)
    then have "exec_write x r" using s' by blast
    with old x(1) show ?thesis using exec_write_facts [of x r] by (force simp: attempts_ok_def)
  qed (use old in \<open>simp add: attempts_ok_def\<close>)
  then show "attempts_ok (snd (exec_update i guard f s))" using old by (auto simp: exec_update_def attempts_ok_def Let_def)
qed

lemma exec_update_moves:
  assumes inv: "exec_inv s"
    and step: "\<forall>r \<in> set (playbook_executions s). ex_id r = i \<longrightarrow> guard r \<longrightarrow> exec_step r (f r)"
  shows "exec_moves exec_step s (snd (exec_update i guard f s))"
proof -
  let ?p = "\<lambda>r. ex_id r = i \<and> guard r"
  have w: "\<forall>r \<in> set (playbook_executions s). ex_id r = i \<longrightarrow> guard r \<longrightarrow> exec_write r (f r)"
    using step ew_step by blast
  note exec_update_inv [OF inv w]
  moreover have "evolves ex_id exec_step (playbook_executions s) (update_where ?p f (playbook_executions s))"
    using step by (intro execs.evolves_update) blast
  ultimately show ?thesis using execs.evolves_refl by (simp add: exec_moves_def exec_update_def Let_def)
qed

lemma exec_update_writes:
  assumes inv: "exec_inv s" and step: "\<And>r. exec_write r (f r)"
  shows "exec_moves exec_write s (snd (exec_update i guard f s))"
proof -
  have w: "\<forall>r \<in> set (playbook_executions s). ex_id r = i \<longrightarrow> guard r \<longrightarrow> exec_write r (f r)"
    using step by blast
  note exec_update_inv [OF inv w]
  moreover have "evolves ex_id exec_write (playbook_executions s)
      (update_where (\<lambda>r. ex_id r = i \<and> guard r) f (playbook_executions s))"
    using step by (intro exec_writes.evolves_update) blast
  ultimately show ?thesis using exec_writes.evolves_refl by (simp add: exec_moves_def exec_update_def Let_def)
qed

lemma exec_insert_moves:
  assumes inv: "exec_inv s"
  shows "exec_moves exec_step s (snd (exec_insert (new_execution clk a (exec_seq s)) s))"
proof -
  let ?r = "new_execution clk a (exec_seq s)"
  have "wf_ids ex_id (exec_seq s + 1) (playbook_executions s @ [?r])"
    by (rule wf_ids_insert [OF exec_inv_ids(1) [OF inv]]) (simp add: new_execution_def)
  moreover have "wf_ids ex_id (exec_seq s + 1) (playbook_executions s)"
    using exec_inv_ids(1) [OF inv] by (auto simp: wf_ids_def)
  moreover have "0 \<le> ex_attempt_count ?r \<and> ex_attempt_count ?r \<le> ex_max_attempts ?r"
    by (simp add: new_execution_def DEFAULT_PLAYBOOK_EXECUTION_MAX_ATTEMPTS_def)
  ultimately show ?thesis using inv
    by (auto simp: exec_insert_def exec_moves_def exec_inv_def attempts_ok_def Let_def execs.evolves_insert execs.evolves_refl)
qed

lemma lock_and_lease_moves:
  assumes inv: "exec_inv s" and step: "\<And>r. ex_status r = from \<Longrightarrow> exec_step r (f r)"
  shows "exec_moves exec_step s (snd (lock_and_lease i from t f s))"
  using exec_update_moves [OF inv, of i "\<lambda>r. ex_status r = from" f] step exec_moves_refl [OF inv]
  by (auto simp: lock_and_lease_def split: option.splits)

lemma next_pending_mem:
  "next_pending locked s = Some r \<Longrightarrow> r \<in> set (playbook_executions s) \<and> ex_status r = EPending \<and> \<not> locked (ex_id r)"
  unfolding next_pending_def by (drule fetchone_mem, drule subsetD [OF set_limit_subset]) auto

lemma lease_ops_move:
  assumes inv: "exec_inv s"
  shows "exec_moves exec_step s (snd (acquire_execution_lease clk i w d now s))"
    and "exec_moves exec_step s (snd (claim_next_pending_playbook_execution_with_lease locked clk w d now s))"
    and "exec_moves exec_step s (snd (acquire_awaiting_approval_resume_lease clk i w l k d now s))"
    and "exec_moves exec_step s (snd (heartbeat_execution_lease clk i w d now s))"
    and "exec_moves exec_step s (snd (release_execution_lease i w s))"
proof -
  have "exec_moves exec_step s (snd (lock_and_lease j EPending t (take_lease o' u e) s))" for j t o' u e
    using inv by (rule lock_and_lease_moves) (rule es_lease)
  then show "exec_moves exec_step s (snd (acquire_execution_lease clk i w d now s))"
    "exec_moves exec_step s (snd (claim_next_pending_playbook_execution_with_lease locked clk w d now s))"
    using exec_moves_refl [OF inv]
    by (auto simp: acquire_execution_lease_def claim_next_pending_playbook_execution_with_lease_def Let_def
        split: sum.splits option.splits)
  have "exec_moves exec_step s (snd (lock_and_lease j EAwaiting t
      (\<lambda>r. (set_progress l k (take_lease o' u e r))\<lparr>ex_completed_at := None\<rparr>) s))" for j t o' u e
    using inv by (rule lock_and_lease_moves) (rule es_resume_lease)
  then show "exec_moves exec_step s (snd (acquire_awaiting_approval_resume_lease clk i w l k d now s))"
    using exec_moves_refl [OF inv]
    by (auto simp: acquire_awaiting_approval_resume_lease_def Let_def split: sum.splits)
  show "exec_moves exec_step s (snd (heartbeat_execution_lease clk i w d now s))"
    using exec_update_moves [OF inv] exec_moves_refl [OF inv]
    by (auto simp: heartbeat_execution_lease_def Let_def row_steps split: sum.splits)
  show "exec_moves exec_step s (snd (release_execution_lease i w s))"
    using exec_update_moves [OF inv] exec_moves_refl [OF inv]
    by (auto simp: release_execution_lease_def Let_def row_steps)
qed

lemma recovery_moves:
  assumes inv: "exec_inv s"
  shows "exec_moves exec_step s (snd (mark_stale_execution_for_recovery clk i now x s))"
proof (cases "get_playbook_execution i s")
  case (Some c)
  let ?u = "\<lambda>t. exec_update i (\<lambda>r. ex_status r = ERunning \<and> lease_expired (ex_lease_expires_at r) t)"
  have only: "r = c" if "r \<in> set (playbook_executions s)" "ex_id r = i" for r
    using that get_playbook_execution_eq [OF inv that(1)] Some by simp
  have "exec_moves exec_step s (snd (?u t (set_recovery EPending None y 1) s))"
    if "ex_attempt_count c < ex_max_attempts c" for t y
    using inv by (rule exec_update_moves) (use that only es_requeue in blast)
  moreover have "exec_moves exec_step s (snd (?u t (set_recovery EFailed c' y 0) s))" for t c' y
    using inv by (rule exec_update_moves) (use es_exhausted in blast)
  ultimately show ?thesis using Some exec_moves_refl [OF inv]
    by (auto simp: mark_stale_execution_for_recovery_def Let_def)
qed (simp add: mark_stale_execution_for_recovery_def exec_moves_refl inv Let_def)

lemma snd_py_bind_pure:
  "(\<And>a s. snd (f a s) = s) \<Longrightarrow> snd (py_bind m f s) = snd (m s)"
  by (auto split: prod.splits sum.splits)

lemma operator_moves:
  assumes inv: "exec_inv s"
  shows "exec_moves exec_step s (snd (mark_playbook_execution_permanently_failed clk i x now s))"
    and "exec_moves exec_step s (snd (abandon_playbook_execution clk i s))"
    and "exec_moves exec_step s (snd (set_playbook_execution_canonical_linkage i k c s))"
proof -
  have p: "exec_moves exec_step s (snd (exec_update i (\<lambda>r. ex_status r \<in> set PERMANENT_FAIL_ELIGIBLE_STATUSES)
      (\<lambda>r. r\<lparr>ex_status := EPermanentlyFailed, ex_completed_at := Some t, ex_failure_reason := Some y\<rparr>) s))" for t y
    using inv by (rule exec_update_moves) (auto simp: PERMANENT_FAIL_ELIGIBLE_STATUSES_def intro: es_permanent)
  show "exec_moves exec_step s (snd (mark_playbook_execution_permanently_failed clk i x now s))"
    unfolding mark_playbook_execution_permanently_failed_def Let_def
    using p exec_moves_refl [OF inv] by (auto simp del: py_bind.simps simp: snd_py_bind_pure split: option.splits)
  have a: "exec_moves exec_step s (snd (exec_update i exec_active
      (\<lambda>r. r\<lparr>ex_status := EAbandoned, ex_completed_at := Some t\<rparr>) s))" for t
    using inv by (rule exec_update_moves) (auto intro: es_abandon)
  show "exec_moves exec_step s (snd (abandon_playbook_execution clk i s))"
    unfolding abandon_playbook_execution_def
    by (subst snd_py_bind_pure) (auto simp: a Let_def split: option.splits)
  show "exec_moves exec_step s (snd (set_playbook_execution_canonical_linkage i k c s))"
    unfolding set_playbook_execution_canonical_linkage_def
    using inv by (rule exec_update_moves) (simp add: row_steps)
qed

lemma create_moves:
  assumes inv: "exec_inv s"
  shows "exec_moves exec_step s (snd (create_playbook_execution clk a s))"
    and "exec_moves exec_step s (snd (create_pending_playbook_execution_once clk a s))"
    and "exec_moves exec_step s (snd (create_retry_execution clk i s))"
  using exec_insert_moves [OF inv, of clk] exec_moves_refl [OF inv]
  by (auto simp: create_playbook_execution_def create_pending_playbook_execution_once_def
      create_retry_execution_def case_prod_unfold split: option.splits)

lemma start_moves:
  assumes inv: "exec_inv s"
  shows "exec_moves exec_step s (snd (claim_next_pending_playbook_execution locked clk now s))"
    and "exec_moves exec_step s (snd (set_playbook_execution_running clk i now s))"
    and "exec_moves exec_step s (snd (set_playbook_execution_resumed_running clk i l k now s))"
proof -
  show "exec_moves exec_step s (snd (claim_next_pending_playbook_execution locked clk now s))"
  proof (cases "next_pending locked s")
    case (Some r)
    note r = next_pending_mem [OF Some]
    have "\<forall>x \<in> set (playbook_executions s). ex_id x = ex_id r \<longrightarrow> True \<longrightarrow> exec_step x (start_running t x)" for t
      using r distinct_key_unique [OF exec_inv_ids(2) [OF inv]] es_run by metis
    from exec_update_moves [OF inv this] Some show ?thesis by (simp add: claim_next_pending_playbook_execution_def)
  qed (simp add: claim_next_pending_playbook_execution_def exec_moves_refl inv)
qed (use exec_update_moves [OF inv] in
    \<open>simp_all add: set_playbook_execution_running_def set_playbook_execution_resumed_running_def row_steps\<close>)

lemma write_moves:
  assumes inv: "exec_inv s"
  shows "exec_moves exec_write s (snd (update_playbook_execution_step_log i l k w s))"
    and "exec_moves exec_write s (snd (set_playbook_execution_success clk i l k now w s))"
    and "exec_moves exec_write s (snd (set_playbook_execution_failed clk i l k now w s))"
    and "exec_moves exec_write s (snd (set_playbook_execution_not_actioned clk i l k now w s))"
    and "exec_moves exec_write s (snd (set_playbook_execution_awaiting_approval i l k w s))"
    and "exec_moves exec_write s (snd (update_execution_status clk i st now s))"
proof -
  have "exec_write r (if x = ERunning then start_running t r else if x \<in> set TERMINAL_EXECUTION_STATUSES
      then r\<lparr>ex_status := x, ex_completed_at := Some t\<rparr> else r\<lparr>ex_status := x\<rparr>)" for r x t
    by (auto intro: ew_start ew_end ew_status)
  from exec_update_writes [OF inv this] exec_moves_refl [OF inv]
  show "exec_moves exec_write s (snd (update_execution_status clk i st now s))"
    unfolding update_execution_status_def
    by (cases "filter (\<lambda>st'. exec_status_text st' = st) VALID_EXECUTION_STATUSES")
      (simp_all del: py_bind.simps add: snd_py_bind_pure)
qed (use exec_update_writes [OF inv] in \<open>simp_all add: update_playbook_execution_step_log_def
    set_playbook_execution_success_def set_playbook_execution_failed_def set_playbook_execution_not_actioned_def
    set_playbook_execution_awaiting_approval_def ew_progress ew_finish\<close>)

text \<open>Setting the reliability metadata by hand keeps the indexes, but may set the counters to anything.\<close>

lemma metadata_inv:
  assumes inv: "exec_inv s"
  shows "exec_inv (snd (update_playbook_execution_reliability_metadata i u s))"
proof -
  have f: "ex_id (apply_reliability u r) = ex_id r" "keeps_pair (apply_reliability u) r" for r
    by (simp_all add: apply_reliability_def keeps_pair_def exec_active_def)
  let ?t = "update_where (\<lambda>r. ex_id r = i \<and> True) (apply_reliability u) (playbook_executions s)"
  have "map ex_id ?t = map ex_id (playbook_executions s)" by (simp add: update_where_def f)
  then have "distinct (map ex_id ?t)" "ex_id ` set ?t = ex_id ` set (playbook_executions s)"
    using exec_inv_ids(2) [OF inv] by (metis, metis set_map)
  then have "wf_ids ex_id (exec_seq s) ?t"
    using exec_inv_ids(1) [OF inv] unfolding wf_ids_def by (metis (no_types, lifting) image_iff)
  then show ?thesis using inv
    by (auto simp: update_playbook_execution_reliability_metadata_def exec_update_def exec_inv_def Let_def)
qed

text \<open>The operations that check what they overwrite; all operations but the setting of the metadata; and,
  when \<open>by_hand\<close>, that one as well.\<close>

inductive guarded_op :: "exec_db \<Rightarrow> exec_db \<Rightarrow> bool" where
  go_acquire: "guarded_op s (snd (acquire_execution_lease clk i w d now s))"
| go_claim_lease: "guarded_op s (snd (claim_next_pending_playbook_execution_with_lease locked clk w d now s))"
| go_resume_lease: "guarded_op s (snd (acquire_awaiting_approval_resume_lease clk i w l k d now s))"
| go_heartbeat: "guarded_op s (snd (heartbeat_execution_lease clk i w d now s))"
| go_release: "guarded_op s (snd (release_execution_lease i w s))"
| go_recover: "guarded_op s (snd (mark_stale_execution_for_recovery clk i now x s))"
| go_permanent: "guarded_op s (snd (mark_playbook_execution_permanently_failed clk i x now s))"
| go_abandon: "guarded_op s (snd (abandon_playbook_execution clk i s))"
| go_link: "guarded_op s (snd (set_playbook_execution_canonical_linkage i k' c s))"
| go_create: "guarded_op s (snd (create_playbook_execution clk a s))"
| go_create_once: "guarded_op s (snd (create_pending_playbook_execution_once clk a s))"
| go_retry: "guarded_op s (snd (create_retry_execution clk i s))"
| go_claim: "guarded_op s (snd (claim_next_pending_playbook_execution locked clk now s))"
| go_run: "guarded_op s (snd (set_playbook_execution_running clk i now s))"
| go_resume: "guarded_op s (snd (set_playbook_execution_resumed_running clk i l k now s))"

inductive exec_op :: "exec_db \<Rightarrow> exec_db \<Rightarrow> bool" where
  eo_guarded: "guarded_op s s' \<Longrightarrow> exec_op s s'"
| eo_progress: "exec_op s (snd (update_playbook_execution_step_log i l k w s))"
| eo_success: "exec_op s (snd (set_playbook_execution_success clk i l k now w s))"
| eo_failed: "exec_op s (snd (set_playbook_execution_failed clk i l k now w s))"
| eo_not_actioned: "exec_op s (snd (set_playbook_execution_not_actioned clk i l k now w s))"
| eo_awaiting: "exec_op s (snd (set_playbook_execution_awaiting_approval i l k w s))"
| eo_status: "exec_op s (snd (update_execution_status clk i st now s))"

inductive stored_op :: "bool \<Rightarrow> exec_db \<Rightarrow> exec_db \<Rightarrow> bool" for by_hand where
  so_op: "exec_op s s' \<Longrightarrow> stored_op by_hand s s'"
| so_metadata: "by_hand \<Longrightarrow> stored_op by_hand s (snd (update_playbook_execution_reliability_metadata i u s))"

definition exec_init :: exec_db where
  "exec_init = \<lparr>playbook_executions = [], exec_seq = 1\<rparr>"

lemma exec_inv_init: "exec_inv exec_init" "attempts_ok exec_init"
  by (simp_all add: exec_inv_def attempts_ok_def exec_init_def pair_index_ok_def active_pairs_def)

lemma guarded_op_moves: "guarded_op s s' \<Longrightarrow> exec_inv s \<Longrightarrow> exec_moves exec_step s s'"
  by (induction rule: guarded_op.induct)
    (simp_all only: lease_ops_move recovery_moves operator_moves create_moves start_moves)

lemma exec_op_moves: "exec_op s s' \<Longrightarrow> exec_inv s \<Longrightarrow> exec_moves exec_write s s'"
  by (induction rule: exec_op.induct) (simp_all only: write_moves exec_moves_write [OF guarded_op_moves])

interpretation guarded_ops: store_ops guarded_op exec_inv
  "\<lambda>s s'. evolves ex_id exec_step (playbook_executions s) (playbook_executions s')"
  by unfold_locales
    (auto dest: guarded_op_moves simp: exec_moves_def execs.evolves_refl intro: execs.evolves_trans)

interpretation exec_ops: store_ops exec_op exec_inv
  "\<lambda>s s'. evolves ex_id exec_write (playbook_executions s) (playbook_executions s')"
  by unfold_locales
    (auto dest: exec_op_moves simp: exec_moves_def exec_writes.evolves_refl intro: exec_writes.evolves_trans)

interpretation stored_ops: store_ops "stored_op by_hand" exec_inv "\<lambda>s s'. by_hand \<or> (attempts_ok s \<longrightarrow> attempts_ok s')"
  for by_hand
  by unfold_locales (auto elim!: stored_op.cases dest: exec_op_moves simp: exec_moves_def metadata_inv)

subsection \<open>Properties\<close>

text \<open>C14: In every state that all the operations of the store can reach, ids are distinct and a playbook
  has at most one pending, running or waiting execution per alert. If none of them was the setting of
  the reliability metadata by hand (\<open>by_hand\<close>; only tests call it), then recovery has not used more
  than \<open>max_attempts\<close> attempts of any execution either.\<close>

theorem executions_well_formed:
  assumes "(stored_op by_hand)\<^sup>*\<^sup>* exec_init s"
  shows "distinct (map ex_id (playbook_executions s)) \<and>
    (\<forall>r \<in> set (playbook_executions s). \<forall>r' \<in> set (playbook_executions s).
       exec_active r \<and> exec_active r' \<and> ex_alert_id r \<noteq> None \<and> ex_alert_id r = ex_alert_id r' \<and>
       ex_playbook_id r = ex_playbook_id r' \<longrightarrow> r = r') \<and>
    (by_hand \<or> (\<forall>r \<in> set (playbook_executions s). 0 \<le> ex_attempt_count r \<and> ex_attempt_count r \<le> ex_max_attempts r))"
proof -
  have inv: "exec_inv s" using assms exec_inv_init(1) by (rule stored_ops.ops_inv)
  have "by_hand \<or> attempts_ok s" using stored_ops.ops_rel [OF assms exec_inv_init(1)] exec_inv_init(2) by blast
  then have attempts: "by_hand \<or>
      (\<forall>r \<in> set (playbook_executions s). 0 \<le> ex_attempt_count r \<and> ex_attempt_count r \<le> ex_max_attempts r)"
    by (simp add: attempts_ok_def)
  have "inj_on (\<lambda>r. (ex_playbook_id r, ex_alert_id r))
      (set (filter (\<lambda>r. exec_active r \<and> ex_alert_id r \<noteq> None) (playbook_executions s)))"
    using exec_inv_ids(3) [OF inv] by (simp add: pair_index_ok_def active_pairs_def distinct_map)
  then have "r = r'" if "r \<in> set (playbook_executions s)" "r' \<in> set (playbook_executions s)"
      "exec_active r" "exec_active r'" "ex_alert_id r \<noteq> None" "ex_alert_id r = ex_alert_id r'"
      "ex_playbook_id r = ex_playbook_id r'" for r r'
    using that by (auto simp: inj_on_def)
  with exec_inv_ids(2) [OF inv] attempts show ?thesis by blast
qed

text \<open>C12: A lease excludes everybody else while it lasts: at a time when an execution's lease is
  active, acquiring it, resuming it and recovering it are refused and change nothing, and a claim
  from the queue, whatever it returns, does not return this execution.\<close>

theorem active_lease_excludes_others:
  assumes inv: "exec_inv s" and r: "r \<in> set (playbook_executions s)"
    and active: "lease_is_active (ex_lease_expires_at r) now"
    and args: "check_lease_args w d = Inr owner"
  shows "acquire_execution_lease clk (ex_id r) w d (Some now) s = (Inr None, s) \<and>
    acquire_awaiting_approval_resume_lease clk (ex_id r) w l k d (Some now) s = (Inr None, s) \<and>
    mark_stale_execution_for_recovery clk (ex_id r) (Some now) x s = (Inr None, s) \<and>
    (\<forall>r' s'. claim_next_pending_playbook_execution_with_lease locked clk w d (Some now) s = (Inr (Some r'), s') \<longrightarrow>
       ex_id r' \<noteq> ex_id r)"
proof -
  note g = get_playbook_execution_eq [OF inv r]
  have lock: "lock_and_lease (ex_id r) st now f s = (Inr None, s)" for st f
    using g active by (simp add: lock_and_lease_def)
  have claim: "ex_id r' \<noteq> ex_id r"
    if run: "claim_next_pending_playbook_execution_with_lease locked clk w d (Some now) s = (Inr (Some r'), s')" for r' s'
  proof -
    obtain row where row: "next_pending locked s = Some row"
      and eq: "lock_and_lease (ex_id row) EPending now (take_lease owner now d) s = (Inr (Some r'), s')"
      using run args by (auto simp: claim_next_pending_playbook_execution_with_lease_def split: option.splits)
    have mem: "row \<in> set (playbook_executions s)" "ex_status row = EPending" using next_pending_mem [OF row] by auto
    have keep: "keeps_pair (take_lease owner now d) row" by (rule exec_step_keeps, rule es_lease, rule mem)
    have "exec_update (ex_id row) (\<lambda>r. ex_status r = EPending) (take_lease owner now d) s = (Inr (Some r'), s')"
      using eq get_playbook_execution_eq [OF inv mem(1)] mem(2) by (simp add: lock_and_lease_def split: if_splits)
    then have "r' = take_lease owner now d row"
      using exec_update_one [where f = "take_lease owner now d" and guard = "\<lambda>r. ex_status r = EPending",
          OF inv mem(1,2) keep] by simp
    then have "ex_id r' = ex_id row" by (simp add: take_lease_def)
    moreover have "ex_id row \<noteq> ex_id r" using eq lock [of EPending "take_lease owner now d"] by (metis Pair_inject option.distinct(1) sum.inject(2))
    ultimately show ?thesis by simp
  qed
  have "acquire_execution_lease clk (ex_id r) w d (Some now) s = (Inr None, s)"
    "acquire_awaiting_approval_resume_lease clk (ex_id r) w l k d (Some now) s = (Inr None, s)"
    using lock args by (simp_all add: acquire_execution_lease_def acquire_awaiting_approval_resume_lease_def Let_def)
  moreover have "mark_stale_execution_for_recovery clk (ex_id r) (Some now) x s = (Inr None, s)"
    using g active by (simp add: mark_stale_execution_for_recovery_def Let_def)
  ultimately show ?thesis using claim by blast
qed

text \<open>C13: A worker that no longer owns the lease is fenced off: each of its lease-checked writes
  (heartbeat, release, step log, and the four ways to end or pause a run) returns \<open>None\<close> and
  leaves the database as it is, whoever owns the lease now.\<close>

theorem lost_lease_writes_nothing:
  assumes inv: "exec_inv s" and w: "strip w \<noteq> []"
    and owner: "\<forall>r \<in> set (playbook_executions s). ex_id r = i \<longrightarrow> ex_lease_owner r \<noteq> Some (strip w)"
    and d: "1 \<le> d"
  shows "heartbeat_execution_lease clk i (Some w) d now s = (Inr None, s) \<and>
    release_execution_lease i (Some w) s = (Inr None, s) \<and>
    update_playbook_execution_step_log i l k (Some w) s = (Inr None, s) \<and>
    set_playbook_execution_success clk i l k now (Some w) s = (Inr None, s) \<and>
    set_playbook_execution_failed clk i l k now (Some w) s = (Inr None, s) \<and>
    set_playbook_execution_not_actioned clk i l k now (Some w) s = (Inr None, s) \<and>
    set_playbook_execution_awaiting_approval i l k (Some w) s = (Inr None, s)"
proof -
  have g: "\<forall>r \<in> set (playbook_executions s). ex_id r = i \<longrightarrow> \<not> lease_owner_guard (Some w) r"
    using owner w by (simp add: lease_owner_guard_def)
  have h: "\<forall>r \<in> set (playbook_executions s). ex_id r = i \<longrightarrow> \<not> (ex_status r = ERunning \<and>
      ex_lease_owner r = Some (strip w) \<and> lease_is_active (ex_lease_expires_at r) t)" for t
    using owner by blast
  have "heartbeat_execution_lease clk i (Some w) d now s = (Inr None, s)"
    using w d exec_update_none [OF inv h] by (simp add: heartbeat_execution_lease_def check_lease_args_def Let_def)
  moreover have "release_execution_lease i (Some w) s = (Inr None, s)"
    using w owner exec_update_none [OF inv] by (simp add: release_execution_lease_def Let_def)
  ultimately show ?thesis
    using exec_update_none [OF inv g]
    by (simp add: update_playbook_execution_step_log_def set_playbook_execution_success_def
        set_playbook_execution_failed_def set_playbook_execution_not_actioned_def
        set_playbook_execution_awaiting_approval_def)
qed

text \<open>Recovery takes a run away from its worker only when the lease ran out, and puts it back
  in the queue only while attempts are left: whenever \<open>mark_stale_execution_for_recovery\<close> returns a
  row, that execution was running under an expired lease; it is now without a lease and either
  pending, with one attempt more and at most \<open>max_attempts\<close>, or failed because none was left.\<close>

theorem recovery_requeues_while_attempts_left:
  assumes inv: "exec_inv s"
    and run: "mark_stale_execution_for_recovery clk i (Some now) x s = (Inr (Some r'), s')"
  shows "\<exists>r. get_playbook_execution i s = Some r \<and> ex_status r = ERunning \<and> lease_expired (ex_lease_expires_at r) now \<and>
    get_playbook_execution i s' = Some r' \<and> ex_lease_owner r' = None \<and> ex_lease_expires_at r' = None \<and>
    ex_recovery_count r' = ex_recovery_count r + 1 \<and>
    (if ex_attempt_count r < ex_max_attempts r
     then ex_status r' = EPending \<and> ex_attempt_count r' = ex_attempt_count r + 1 \<and>
       ex_attempt_count r' \<le> ex_max_attempts r'
     else ex_status r' = EFailed \<and> ex_completed_at r' = Some now \<and> ex_attempt_count r' = ex_attempt_count r)"
proof -
  obtain r where g: "get_playbook_execution i s = Some r"
    using run by (cases "get_playbook_execution i s") (auto simp: mark_stale_execution_for_recovery_def Let_def)
  note mem = get_playbook_execution_mem [OF g]
  define f where "f = (if ex_attempt_count r < ex_max_attempts r
      then set_recovery EPending None (text_or x ''stale lease recovered for retry'') 1
      else set_recovery EFailed (Some now) (text_or x ''stale lease exceeded max attempts'') 0)"
  have st: "ex_status r = ERunning" "lease_expired (ex_lease_expires_at r) now"
    and up: "exec_update i (\<lambda>r. ex_status r = ERunning \<and> lease_expired (ex_lease_expires_at r) now) f s = (Inr (Some r'), s')"
    using run g by (auto simp: mark_stale_execution_for_recovery_def Let_def f_def lease_is_active_def
        lease_expired_def split: if_splits option.splits)
  have step: "exec_step r (f r)" using st(1) by (auto simp: f_def intro: es_requeue es_exhausted)
  from exec_update_one [OF inv conjunct1 [OF mem] _ exec_step_keeps [where f = f, OF step]] st mem up
  have r': "r' = f r" "s' = s\<lparr>playbook_executions := update_where (\<lambda>x. ex_id x = ex_id r) f (playbook_executions s)\<rparr>"
    by auto
  have inv': "exec_inv s'" using recovery_moves [OF inv, of clk i "Some now" x] run by (simp add: exec_moves_def)
  have "f r \<in> set (playbook_executions s')"
    using set_update_id [OF exec_inv_ids(2) [OF inv] conjunct1 [OF mem], of f] by (simp add: r'(2))
  from get_playbook_execution_eq [OF inv' this] have "get_playbook_execution i s' = Some r'"
    using mem r'(1) exec_step_facts(1) [OF step] by simp
  with g st show ?thesis by (auto simp: r'(1) f_def set_recovery_def clear_lease_def)
qed

text \<open>The operations that check the status leave finished runs alone: once an execution has
  succeeded, was abandoned, failed permanently or was not actioned, no sequence of lease, recovery,
  operator and creation operations changes its status, its completion time or its step log.\<close>

theorem finished_execution_final:
  assumes "exec_inv s" "guarded_op\<^sup>*\<^sup>* s s'"
    and "r \<in> set (playbook_executions s)" "exec_final r"
  shows "\<exists>r'. get_playbook_execution (ex_id r) s' = Some r' \<and> exec_outcome r' = exec_outcome r"
  unfolding get_playbook_execution_def
  using execs.final_kept_selected [OF guarded_ops.ops_rel [OF assms(2,1)]
      exec_inv_ids(1) [OF guarded_ops.ops_inv [OF assms(2,1)]] assms(3,4)] by blast

text \<open>The worker's own writes are not among them: abandoning a running execution leaves its
  lease in place, so when the worker reports success afterwards, the abandoned execution becomes a
  successful one.\<close>

theorem abandoned_run_overwritten:
  assumes inv: "exec_inv s" and r: "get_playbook_execution i s = Some r" "ex_status r = ERunning"
    and lease: "ex_lease_owner r = Some (strip w)" "strip w \<noteq> []"
    and abandon: "abandon_playbook_execution clk i s = (res, s1)"
    and success: "set_playbook_execution_success clk' i l k now (Some w) s1 = (res', s2)"
  shows "res = Inr ''ok'' \<and>
    (\<exists>r1. get_playbook_execution i s1 = Some r1 \<and> ex_status r1 = EAbandoned) \<and>
    (\<exists>r2. res' = Inr (Some r2) \<and> ex_status r2 = ESuccess)"
proof -
  note mem = get_playbook_execution_mem [OF r(1)]
  define f where "f = (\<lambda>r :: execution. r\<lparr>ex_status := EAbandoned, ex_completed_at := Some (sql_now clk)\<rparr>)"
  have a: "exec_active r" using r(2) by (simp add: exec_active_def)
  have "keeps_pair f r" by (simp add: keeps_pair_def f_def exec_active_def)
  from exec_update_one [where f = f and guard = exec_active, OF inv conjunct1 [OF mem] a this] abandon mem
  have 1: "res = Inr ''ok''"
    "s1 = s\<lparr>playbook_executions := update_where (\<lambda>x. ex_id x = i) f (playbook_executions s)\<rparr>"
    by (auto simp: abandon_playbook_execution_def f_def [symmetric])
  have inv1: "exec_inv s1" using operator_moves(2) [OF inv, of clk i] abandon by (simp add: exec_moves_def)
  have "set (playbook_executions s1) = insert (f r) (set (playbook_executions s) - {r})"
    using set_update_id [OF exec_inv_ids(2) [OF inv] conjunct1 [OF mem], of f] mem by (simp add: 1)
  then have m1: "f r \<in> set (playbook_executions s1)" by simp
  have i1: "ex_id (f r) = i" using mem by (simp add: f_def)
  have g1: "get_playbook_execution i s1 = Some (f r)" using get_playbook_execution_eq [OF inv1 m1] i1 by simp
  let ?h = "finish ESuccess (Some (coalesce now (utc_now clk'))) l k"
  have "lease_owner_guard (Some w) (f r)" using lease by (simp add: lease_owner_guard_def f_def)
  moreover have "keeps_pair ?h (f r)" by (simp add: keeps_pair_def finish_def set_progress_def exec_active_def)
  ultimately have "set_playbook_execution_success clk' i l k now (Some w) s1 = (Inr (Some (?h (f r))),
      s1\<lparr>playbook_executions := update_where (\<lambda>x. ex_id x = i) ?h (playbook_executions s1)\<rparr>)"
    using exec_update_one [OF inv1 m1] i1 by (simp add: set_playbook_execution_success_def)
  then have "res' = Inr (Some (?h (f r)))" using success by simp
  then show ?thesis using 1(1) g1 by (simp add: f_def finish_def)
qed

lemma pair_index_snoc:
  assumes "exec_active r" "ex_alert_id r \<noteq> None"
  shows "pair_index_ok (t @ [r]) \<longleftrightarrow> pair_index_ok t \<and>
    \<not> (\<exists>x \<in> set t. ex_playbook_id x = ex_playbook_id r \<and> ex_alert_id x = ex_alert_id r \<and> exec_active x)"
proof -
  have "active_pairs (t @ [r]) = active_pairs t @ [(ex_playbook_id r, ex_alert_id r)]"
    using assms by (simp add: active_pairs_def)
  moreover have "(ex_playbook_id r, ex_alert_id r) \<in> set (active_pairs t) \<longleftrightarrow>
      (\<exists>x \<in> set t. ex_playbook_id x = ex_playbook_id r \<and> ex_alert_id x = ex_alert_id r \<and> exec_active x)"
    using assms(2) unfolding active_pairs_def set_map set_filter image_iff by auto
  ultimately show ?thesis by (auto simp: pair_index_ok_def)
qed

text \<open>\<open>create_pending_playbook_execution_once\<close> queues a playbook for an alert exactly when none
  is pending, running or waiting for it: it then appends one pending execution and returns its id,
  and otherwise returns \<open>None\<close> and leaves the table alone.\<close>

theorem playbook_queued_once_per_alert:
  assumes inv: "exec_inv s" and alert: "ea_alert_id a = Some al"
    and run: "create_pending_playbook_execution_once clk a s = (res, s')"
  shows "if active_playbook_execution_exists (ea_playbook_id a) (Some al) s
    then res = Inr None \<and> playbook_executions s' = playbook_executions s
    else res = Inr (Some (exec_seq s)) \<and>
      playbook_executions s' = playbook_executions s @ [new_execution clk a (exec_seq s)] \<and>
      active_playbook_execution_exists (ea_playbook_id a) (Some al) s'"
proof -
  let ?r = "new_execution clk a (exec_seq s)"
  have r: "exec_active ?r" "ex_alert_id ?r = Some al" "ex_playbook_id ?r = ea_playbook_id a" "ex_id ?r = exec_seq s"
    by (simp_all add: new_execution_def exec_active_def alert)
  have ok: "pair_index_ok (playbook_executions s @ [?r]) \<longleftrightarrow>
      \<not> active_playbook_execution_exists (ea_playbook_id a) (Some al) s"
    using exec_inv_ids(3) [OF inv] pair_index_snoc [OF r(1)] r
    by (simp add: active_playbook_execution_exists_def active_execution_exists_for_pair_def)
  show ?thesis
  proof (cases "active_playbook_execution_exists (ea_playbook_id a) (Some al) s")
    case True
    then show ?thesis using run ok alert
      by (auto simp: create_pending_playbook_execution_once_def exec_insert_def Let_def)
  next
    case False
    then have "res = Inr (Some (exec_seq s))" "playbook_executions s' = playbook_executions s @ [?r]"
      using run ok alert r(4) by (auto simp: create_pending_playbook_execution_once_def exec_insert_def Let_def)
    then show ?thesis using False r
      by (simp add: active_playbook_execution_exists_def active_execution_exists_for_pair_def)
  qed
qed

lemma ancestors_chain:
  "length (ancestors_from n c s) \<le> n \<and>
   (\<forall>j < length (ancestors_from n c s).
      get_playbook_execution (ex_id (ancestors_from n c s ! j)) s = Some (ancestors_from n c s ! j) \<and>
      ex_parent_execution_id ((c # ancestors_from n c s) ! j) = Some (ex_id (ancestors_from n c s ! j))) \<and>
   (length (ancestors_from n c s) < n \<longrightarrow>
      (case ex_parent_execution_id (last (c # ancestors_from n c s)) of
         None \<Rightarrow> True | Some p \<Rightarrow> get_playbook_execution p s = None))"
proof (induction n arbitrary: c)
  case (Suc n)
  show ?case
  proof (cases "ex_parent_execution_id c")
    case (Some p)
    show ?thesis
    proof (cases "get_playbook_execution p s")
      case (Some q)
      then have q: "ex_id q = p" using get_playbook_execution_mem by blast
      have eq: "ancestors_from (Suc n) c s = q # ancestors_from n q s"
        using \<open>ex_parent_execution_id c = Some p\<close> Some by simp
      show ?thesis unfolding eq
        using Suc [of q] \<open>ex_parent_execution_id c = Some p\<close> Some q
        by (auto simp: nth_Cons split: nat.splits)
    qed (use Some in simp)
  qed simp
qed simp

text \<open>C33: The ancestor chain has at most \<open>max_hops\<close> entries, even if the parent links form a cycle:
  it is the chain of parents starting at the execution, each entry the stored parent of the one
  before, and it is shorter than \<open>max_hops\<close> only where it ends at an execution that has no parent or
  whose parent is not in the table.\<close>

theorem ancestor_chain_bounded:
  assumes "get_playbook_execution i s = Some c"
    and "get_playbook_execution_ancestor_chain i max_hops s = as"
  shows "length as \<le> nat max_hops \<and>
    (\<forall>j < length as. ex_parent_execution_id ((c # as) ! j) = Some (ex_id (as ! j)) \<and>
       get_playbook_execution (ex_id (as ! j)) s = Some (as ! j)) \<and>
    (length as < nat max_hops \<longrightarrow>
      (case ex_parent_execution_id (last (c # as)) of
         None \<Rightarrow> True | Some p \<Rightarrow> get_playbook_execution p s = None))"
  using ancestors_chain [of "nat max_hops" c s] assms
  by (auto simp: get_playbook_execution_ancestor_chain_def)

subsection \<open>Witnesses\<close>

definition wit_exec_args :: "row_id \<Rightarrow> row_id option \<Rightarrow> execution_args" where
  "wit_exec_args al parent = \<lparr>ea_playbook_id = ''pb'', ea_alert_id = Some al, ea_incident_id = None,
     ea_decision_id = None, ea_soar_correlation_id = None, ea_parent_execution_id = parent, ea_chain_depth = 0\<rparr>"

abbreviation wit_at :: "time \<Rightarrow> clock" where
  "wit_at t \<equiv> \<lparr>utc_now = t, sql_now = t\<rparr>"

definition wit_execs :: exec_db where
  "wit_execs = snd (create_pending_playbook_execution_once (wit_at 1) (wit_exec_args 2 (Some 1))
     (snd (create_pending_playbook_execution_once (wit_at 0) (wit_exec_args 1 None) exec_init)))"

definition wit_leased :: exec_db where
  "wit_leased = snd (claim_next_pending_playbook_execution_with_lease (\<lambda>_. False) (wit_at 2) (Some ''w1'') 60 None wit_execs)"

definition wit_abandoned :: exec_db where
  "wit_abandoned = snd (abandon_playbook_execution (wit_at 3) 1 wit_leased)"

lemma wit_exec_ops: "guarded_op\<^sup>*\<^sup>* exec_init wit_execs" "guarded_op wit_execs wit_leased" "guarded_op wit_leased wit_abandoned"
  unfolding wit_execs_def wit_leased_def wit_abandoned_def
  by (rule rtranclp.rtrancl_into_rtrancl [OF r_into_rtranclp]; rule go_create_once) (rule go_claim_lease go_abandon)+

lemma wit_exec_inv: "exec_inv wit_execs" "exec_inv wit_leased" "exec_inv wit_abandoned"
proof -
  show 1: "exec_inv wit_execs" using wit_exec_ops(1) exec_inv_init(1) by (rule guarded_ops.ops_inv)
  show 2: "exec_inv wit_leased" using wit_exec_ops(2) 1 by (rule guarded_ops.op_inv)
  show "exec_inv wit_abandoned" using wit_exec_ops(3) 2 by (rule guarded_ops.op_inv)
qed

lemma wit_exec_reach: "(stored_op False)\<^sup>*\<^sup>* exec_init wit_leased"
proof -
  have "(stored_op False)\<^sup>*\<^sup>* exec_init wit_execs"
    using wit_exec_ops(1) mono_rtranclp [of guarded_op "stored_op False"] so_op eo_guarded by blast
  then show ?thesis by (rule rtranclp.rtrancl_into_rtrancl) (rule so_op, rule eo_guarded, rule wit_exec_ops)
qed

text \<open>Somebody sets the attempts of the running execution to 7, over its limit of 3.\<close>

definition wit_by_hand :: exec_db where
  "wit_by_hand = snd (update_playbook_execution_reliability_metadata 1
     \<lparr>ru_attempt_count = Some 7, ru_max_attempts = None, ru_last_attempted_at = None, ru_failure_reason = None,
      ru_stale_after = None, ru_timeout_seconds = None\<rparr> wit_leased)"

lemma wit_by_hand_reach: "(stored_op True)\<^sup>*\<^sup>* exec_init wit_by_hand"
proof -
  have "(stored_op True)\<^sup>*\<^sup>* exec_init wit_leased"
    using wit_exec_reach mono_rtranclp [of "stored_op False" "stored_op True"]
    by (auto elim!: stored_op.cases intro: so_op)
  then show ?thesis unfolding wit_by_hand_def by (rule rtranclp.rtrancl_into_rtrancl) (rule so_metadata, rule TrueI)
qed

lemma wit_by_hand_rows:
  "map (\<lambda>r. (ex_id r, ex_attempt_count r, ex_max_attempts r)) (playbook_executions wit_by_hand) = [(1, 7, 3), (2, 0, 3)]"
  by code_simp

lemma wit_leased_row:
  "map (\<lambda>r. (ex_id r, ex_status r, ex_lease_owner r, ex_lease_expires_at r)) (playbook_executions wit_leased) =
     [(1, ERunning, Some ''w1'', Some (2 + seconds 60)), (2, EPending, None, None)]"
  by code_simp

lemma wit_leased_hd:
  "hd (playbook_executions wit_leased) \<in> set (playbook_executions wit_leased)"
  "get_playbook_execution 1 wit_leased = Some (hd (playbook_executions wit_leased))"
  "ex_id (hd (playbook_executions wit_leased)) = 1" "ex_status (hd (playbook_executions wit_leased)) = ERunning"
  "ex_lease_owner (hd (playbook_executions wit_leased)) = Some ''w1''"
  "ex_lease_expires_at (hd (playbook_executions wit_leased)) = Some (2 + seconds 60)"
proof -
  obtain r t where rt: "playbook_executions wit_leased = r # t"
    using wit_leased_row by (cases "playbook_executions wit_leased") auto
  show mem: "hd (playbook_executions wit_leased) \<in> set (playbook_executions wit_leased)" by (simp add: rt)
  show i: "ex_id (hd (playbook_executions wit_leased)) = 1" "ex_status (hd (playbook_executions wit_leased)) = ERunning"
    "ex_lease_owner (hd (playbook_executions wit_leased)) = Some ''w1''"
    "ex_lease_expires_at (hd (playbook_executions wit_leased)) = Some (2 + seconds 60)"
    using wit_leased_row by (simp_all add: rt)
  show "get_playbook_execution 1 wit_leased = Some (hd (playbook_executions wit_leased))"
    using get_playbook_execution_eq [OF wit_exec_inv(2) mem] by (simp add: i)
qed

theorem executions_well_formed_witness:
  "distinct (map ex_id (playbook_executions wit_leased)) \<and>
   ex_attempt_count (hd (playbook_executions wit_leased)) \<le> ex_max_attempts (hd (playbook_executions wit_leased)) \<and>
   distinct (map ex_id (playbook_executions wit_by_hand)) \<and> length (playbook_executions wit_by_hand) = 2"
  using executions_well_formed [OF wit_exec_reach] executions_well_formed [OF wit_by_hand_reach] wit_leased_hd(1)
    arg_cong [OF wit_by_hand_rows, of length] by simp

theorem active_lease_excludes_others_witness:
  "acquire_execution_lease (wit_at 9) 1 (Some ''w2'') 60 (Some 9) wit_leased = (Inr None, wit_leased)"
proof -
  have a: "lease_is_active (ex_lease_expires_at (hd (playbook_executions wit_leased))) 9"
    by (simp add: wit_leased_hd lease_is_active_def)
  have c: "check_lease_args (Some ''w2'') 60 = Inr ''w2''" by code_simp
  show ?thesis using active_lease_excludes_others [OF wit_exec_inv(2) wit_leased_hd(1) a c]
    unfolding wit_leased_hd(3) by blast
qed

theorem lost_lease_writes_nothing_witness:
  "set_playbook_execution_success (wit_at 9) 1 [] None None (Some ''w2'') wit_leased = (Inr None, wit_leased)"
proof -
  have w: "strip ''w2'' = ''w2''" "strip ''w2'' \<noteq> []" by code_simp+
  have o: "\<forall>r \<in> set (playbook_executions wit_leased). ex_id r = 1 \<longrightarrow> ex_lease_owner r \<noteq> Some (strip ''w2'')"
    using get_playbook_execution_eq [OF wit_exec_inv(2)] wit_leased_hd(2,5) w(1) by fastforce
  show ?thesis using lost_lease_writes_nothing [OF wit_exec_inv(2) w(2) o, of 60] by simp
qed

theorem recovery_requeues_while_attempts_left_witness:
  "\<exists>r'. fst (mark_stale_execution_for_recovery (wit_at 0) 1 (Some (seconds 61)) None wit_leased) = Inr (Some r') \<and>
     ex_lease_owner r' = None \<and> ex_recovery_count r' = 1"
proof -
  let ?run = "mark_stale_execution_for_recovery (wit_at 0) 1 (Some (seconds 61)) None wit_leased"
  obtain r' where r': "fst ?run = Inr (Some r')"
  proof -
    have "case fst ?run of Inr (Some _) \<Rightarrow> True | _ \<Rightarrow> False" by code_simp
    then show ?thesis using that by (auto split: sum.splits option.splits)
  qed
  have c: "ex_recovery_count (hd (playbook_executions wit_leased)) = 0" by code_simp
  have "?run = (Inr (Some r'), snd ?run)" using r' by (metis prod.collapse)
  from recovery_requeues_while_attempts_left [OF wit_exec_inv(2) this] r' c wit_leased_hd(2)
  show ?thesis by auto
qed

theorem finished_execution_final_witness:
  "\<exists>r'. get_playbook_execution 1 (snd (mark_stale_execution_for_recovery (wit_at 0) 1 (Some (seconds 61)) None wit_abandoned)) =
     Some r' \<and> ex_status r' = EAbandoned"
proof -
  let ?r = "hd (playbook_executions wit_abandoned)"
  have "length (playbook_executions wit_abandoned) = 2" by code_simp
  then have r: "?r \<in> set (playbook_executions wit_abandoned)" by (intro hd_in_set) auto
  have f: "ex_status ?r = EAbandoned" "ex_id ?r = 1" by code_simp+
  then have "exec_final ?r" by (simp add: exec_final_def)
  from finished_execution_final [OF wit_exec_inv(3) r_into_rtranclp [of guarded_op, OF go_recover] r this]
  show ?thesis unfolding f(2) using f(1) by (fastforce simp: exec_outcome_def)
qed

theorem abandoned_run_overwritten_witness:
  "\<exists>r2. fst (set_playbook_execution_success (wit_at 4) 1 [] None None (Some ''w1'') wit_abandoned) = Inr (Some r2) \<and>
     ex_status r2 = ESuccess"
proof -
  have w: "strip ''w1'' = ''w1''" "strip ''w1'' \<noteq> []" by code_simp+
  have o: "ex_lease_owner (hd (playbook_executions wit_leased)) = Some (strip ''w1'')" by (simp add: wit_leased_hd w)
  show ?thesis
    using abandoned_run_overwritten [OF wit_exec_inv(2) wit_leased_hd(2,4) o w(2)
        prod.collapse [symmetric] prod.collapse [symmetric], of "wit_at 3" "wit_at 4" "[]" None None]
    unfolding wit_abandoned_def by blast
qed

theorem playbook_queued_once_per_alert_witness:
  "fst (create_pending_playbook_execution_once (wit_at 5) (wit_exec_args 1 None) wit_execs) = Inr None"
proof -
  have a: "ea_alert_id (wit_exec_args 1 None) = Some 1" by (simp add: wit_exec_args_def)
  have e: "active_playbook_execution_exists (ea_playbook_id (wit_exec_args 1 None)) (Some 1) wit_execs" by code_simp
  show ?thesis using playbook_queued_once_per_alert [OF wit_exec_inv(1) a prod.collapse [symmetric]] e by simp
qed

theorem ancestor_chain_bounded_witness:
  "length (get_playbook_execution_ancestor_chain 2 5 wit_execs) \<le> 5 \<and>
     map ex_id (get_playbook_execution_ancestor_chain 2 5 wit_execs) = [1]"
proof -
  have "\<exists>c. get_playbook_execution 2 wit_execs = Some c"
  proof -
    have "get_playbook_execution 2 wit_execs \<noteq> None" by code_simp
    then show ?thesis by blast
  qed
  then obtain c where c: "get_playbook_execution 2 wit_execs = Some c" by blast
  have "map ex_id (get_playbook_execution_ancestor_chain 2 5 wit_execs) = [1]" by code_simp
  then show ?thesis using ancestor_chain_bounded [OF c, of 5] by simp
qed

end
