(* ===== verification/Playbook_Language.thy ===== *)
theory Playbook_Language
  imports Playbook_Executions Action_Vocabulary "HOL-Library.Char_ord" "HOL-Library.List_Lexorder"
begin

text \<open>
  What a playbook may say and what it means: \<open>engines/playbook_param_binding.py\<close> (values taken
  from the alert or the execution), \<open>engines/playbook_branch_conditions.py\<close> (labels, conditions,
  forward jumps) and \<open>engines/playbook_registry.py\<close> (the check of a playbook's steps when it is
  saved), with \<open>_fetch_alert\<close> of \<open>engines/playbook_engine.py\<close>. Shown here: the exact binding
  syntax, that resolving parameters changes only bound values, that jumps only go forward, that a
  saved playbook's jumps have targets and its conditions evaluate without a type error, and two
  inputs on which the check and the executor disagree or the check itself raises.
\<close>

subsection \<open>Alerts\<close>

text \<open>A row of \<open>alerts\<close> as the driver returns it: typed columns, nullable ones optional.\<close>

record alert =
  al_id :: row_id
  al_alert_type :: "string option"
  al_severity :: "string option"
  al_source_ip :: "string option"
  al_source :: "string option"
  al_source_type :: "string option"
  al_message :: "string option"
  al_status :: "string option"
  al_country :: "string option"
  al_city :: "string option"
  al_latitude :: "rat option"
  al_longitude :: "rat option"
  al_reputation_score :: "int option"
  al_reputation_label :: "string option"
  al_reputation_source :: "string option"
  al_reputation_summary :: "string option"
  al_response_action :: "string option"
  al_response_status :: "string option"
  al_created_at :: "time option"

datatype cell = CInt int | CFloat rat | CText string | CTime time

definition fetch_alert :: "row_id \<Rightarrow> alert list \<Rightarrow> alert option" where
  "fetch_alert alert_id alerts = select_id al_id alert_id alerts"

text \<open>\<open>alert.get(field)\<close>\<close>

definition alert_get :: "alert \<Rightarrow> string \<Rightarrow> cell option" where
  "alert_get a f =
     (if f = ''id'' then Some (CInt (al_id a))
      else if f = ''alert_type'' then map_option CText (al_alert_type a)
      else if f = ''severity'' then map_option CText (al_severity a)
      else if f = ''source_ip'' then map_option CText (al_source_ip a)
      else if f = ''source'' then map_option CText (al_source a)
      else if f = ''source_type'' then map_option CText (al_source_type a)
      else if f = ''message'' then map_option CText (al_message a)
      else if f = ''status'' then map_option CText (al_status a)
      else if f = ''country'' then map_option CText (al_country a)
      else if f = ''city'' then map_option CText (al_city a)
      else if f = ''latitude'' then map_option CFloat (al_latitude a)
      else if f = ''longitude'' then map_option CFloat (al_longitude a)
      else if f = ''reputation_score'' then map_option CInt (al_reputation_score a)
      else if f = ''reputation_label'' then map_option CText (al_reputation_label a)
      else if f = ''reputation_source'' then map_option CText (al_reputation_source a)
      else if f = ''reputation_summary'' then map_option CText (al_reputation_summary a)
      else if f = ''response_action'' then map_option CText (al_response_action a)
      else if f = ''response_status'' then map_option CText (al_response_status a)
      else if f = ''created_at'' then map_option CTime (al_created_at a)
      else None)"

fun cell_str :: "py_formats \<Rightarrow> cell \<Rightarrow> string" where
  "cell_str fmt (CInt i) = show_int i"
| "cell_str fmt (CFloat q) = float_repr fmt q"
| "cell_str fmt (CText s) = s"
| "cell_str fmt (CTime t) = time_str fmt t"

text \<open>Integer columns are 32 bits wide, so the conversion to a float is exact.\<close>

fun cell_float :: "py_formats \<Rightarrow> cell \<Rightarrow> float_value result" where
  "cell_float fmt (CInt i) = Inr (Fin (of_int i))"
| "cell_float fmt (CFloat q) = Inr (Fin q)"
| "cell_float fmt (CText s) = py_float fmt (PStr s)"
| "cell_float fmt (CTime t) = Inl (TypeError ''float() argument must be a string or a real number'')"

subsection \<open>Parameter binding\<close>

definition ALERT_BINDING_FIELDS :: "string list" where
  "ALERT_BINDING_FIELDS =
     [''id'', ''alert_type'', ''severity'', ''source_ip'', ''source'', ''source_type'', ''message'', ''status'',
      ''country'', ''city'', ''latitude'', ''longitude'', ''reputation_score'', ''reputation_label'',
      ''reputation_source'', ''reputation_summary'', ''response_action'', ''response_status'', ''created_at'']"

definition EXECUTION_BINDING_FIELDS :: "string list" where
  "EXECUTION_BINDING_FIELDS = [''id'', ''playbook_id'', ''alert_id'']"

definition ALLOWED_BINDING_FIELDS :: "string \<Rightarrow> string list option" where
  "ALLOWED_BINDING_FIELDS ns =
     (if ns = ''alert'' then Some ALERT_BINDING_FIELDS
      else if ns = ''execution'' then Some EXECUTION_BINDING_FIELDS else None)"

definition is_lower :: "char \<Rightarrow> bool" where
  "is_lower c = (let n = of_char c :: nat in 97 \<le> n \<and> n \<le> 122)"

definition is_name_char :: "char \<Rightarrow> bool" where
  "is_name_char c = (is_lower c \<or> c = CHR ''_'' \<or> (let n = of_char c :: nat in 48 \<le> n \<and> n \<le> 57))"

text \<open>\<open>[a-z][a-z0-9_]*\<close> over a whole text.\<close>

definition is_name :: "string \<Rightarrow> bool" where
  "is_name s \<longleftrightarrow> s \<noteq> [] \<and> is_lower (hd s) \<and> list_all is_name_char s"

text \<open>\<open>BINDING_EXPRESSION_RE.match\<close>: after the namespace a name, then the closing braces; the
  pattern's \<open>$\<close> also matches before a final newline.\<close>

definition match_field :: "string \<Rightarrow> string option" where
  "match_field s =
     (let name = takeWhile is_name_char s; rest = dropWhile is_name_char s
      in if is_name name \<and> (rest = ''}}'' \<or> rest = ''}}'' @ [char_of (10 :: nat)]) then Some name else None)"

definition match_binding :: "string \<Rightarrow> (string \<times> string) option" where
  "match_binding s =
     (if prefix ''{{alert.'' s then map_option (Pair ''alert'') (match_field (drop 8 s))
      else if prefix ''{{execution.'' s then map_option (Pair ''execution'') (match_field (drop 12 s))
      else None)"

definition parse_binding_expression :: "pyval \<Rightarrow> (string \<times> string) option" where
  "parse_binding_expression value =
     (case value of PStr s \<Rightarrow> if contains ''{{'' s then match_binding s else None | _ \<Rightarrow> None)"

definition validate_param_binding_value :: "pyval \<Rightarrow> string \<Rightarrow> string list" where
  "validate_param_binding_value value pre =
     (case value of
        PStr s \<Rightarrow>
          if \<not> contains ''{{'' s then []
          else (case parse_binding_expression value of
                  None \<Rightarrow> [pre @ '': invalid binding expression '' @ py_repr s @
                           ''; expected whole-value form {{alert.<field>}} or {{execution.<field>}}'']
                | Some (namespace, field) \<Rightarrow>
                    if (case ALLOWED_BINDING_FIELDS namespace of None \<Rightarrow> True | Some fs \<Rightarrow> field \<notin> set fs)
                    then [pre @ '': unsupported '' @ namespace @ '' binding field '' @ py_repr field] else [])
      | _ \<Rightarrow> [])"

definition validate_step_param_bindings :: "items \<Rightarrow> string \<Rightarrow> string list" where
  "validate_step_param_bindings step pre =
     (case dict_get step ''params'' of
        PDict params \<Rightarrow>
          concat (map (\<lambda>(key, value). validate_param_binding_value value (pre @ ''.params.'' @ key)) params)
      | _ \<Rightarrow> [])"

definition execution_binding_value :: "execution \<Rightarrow> string \<Rightarrow> cell option" where
  "execution_binding_value ex field =
     (if field = ''id'' then Some (CInt (ex_id ex))
      else if field = ''playbook_id'' then Some (CText (ex_playbook_id ex))
      else if field = ''alert_id'' then map_option CInt (ex_alert_id ex)
      else None)"

definition coerce_binding_value :: "py_formats \<Rightarrow> cell \<Rightarrow> pyval" where
  "coerce_binding_value fmt v =
     (case v of
        CTime t \<Rightarrow> PStr (replace_all ''+00:00'' ''Z'' (time_iso fmt t))
      | CInt i \<Rightarrow> PInt i
      | CFloat q \<Rightarrow> PFloat q
      | CText s \<Rightarrow> PStr s)"

definition binding_value ::
  "py_formats \<Rightarrow> execution \<Rightarrow> alert option \<Rightarrow> pyval \<Rightarrow> pyval result" where
  "binding_value fmt ex al value =
     (case parse_binding_expression value of
        None \<Rightarrow> Inr value
      | Some (namespace, field) \<Rightarrow>
          if namespace = ''alert'' \<and> al = None
          then Inl (PlaybookParamBindingError ''binding_alert_context_missing''
                 ''Dynamic alert binding requires an alert_id on the execution.'')
          else
            (case (if namespace = ''alert'' then alert_get (the al) field else execution_binding_value ex field) of
               None \<Rightarrow> Inl (PlaybookParamBindingError ''binding_field_missing''
                        (''Binding field '' @ namespace @ ''.'' @ field @ '' is missing or null.''))
             | Some raw \<Rightarrow> Inr (coerce_binding_value fmt raw)))"

fun resolve_params_loop ::
  "py_formats \<Rightarrow> execution \<Rightarrow> alert option \<Rightarrow> items \<Rightarrow> items \<Rightarrow> items result" where
  "resolve_params_loop fmt ex al resolved [] = Inr resolved"
| "resolve_params_loop fmt ex al resolved ((key, value) # params) =
     (case binding_value fmt ex al value of
        Inl e \<Rightarrow> Inl e
      | Inr v \<Rightarrow> resolve_params_loop fmt ex al (dict_set resolved key v) params)"

definition needs_alert :: "items \<Rightarrow> bool" where
  "needs_alert params \<longleftrightarrow>
     (\<exists>(key, value) \<in> set params. case parse_binding_expression value of None \<Rightarrow> False | Some (ns, _) \<Rightarrow> ns = ''alert'')"

definition resolve_step_params ::
  "py_formats \<Rightarrow> alert list \<Rightarrow> items \<Rightarrow> execution \<Rightarrow> alert option \<Rightarrow> items result" where
  "resolve_step_params fmt alerts params ex alert_snapshot =
     (if params = [] then Inr []
      else if needs_alert params \<and> alert_snapshot = None
      then (case ex_alert_id ex of
              None \<Rightarrow> Inl (PlaybookParamBindingError ''binding_alert_context_missing''
                       ''Dynamic alert binding requires an alert_id on the execution.'')
            | Some alert_id \<Rightarrow>
                (case fetch_alert alert_id alerts of
                   None \<Rightarrow> Inl (PlaybookParamBindingError ''binding_alert_not_found''
                            (''Alert '' @ show_int alert_id @ '' was not found for parameter binding.''))
                 | Some a \<Rightarrow> resolve_params_loop fmt ex (Some a) [] params))
      else resolve_params_loop fmt ex alert_snapshot [] params)"

subsection \<open>Labels and branch conditions\<close>

definition BRANCH_CONDITION_SOURCES :: "string list" where
  "BRANCH_CONDITION_SOURCES = [''alert'', ''approval'', ''previous_step'']"

definition EQUALITY_OPS :: "string list" where
  "EQUALITY_OPS = [''=='', ''!='']"

definition ORDINAL_OPS :: "string list" where
  "ORDINAL_OPS = [''>='', ''>'', ''<='', ''<'']"

definition NUMERIC_ALERT_FIELDS :: "string list" where
  "NUMERIC_ALERT_FIELDS = [''id'', ''reputation_score'', ''latitude'', ''longitude'']"

definition PREVIOUS_STEP_STATUS_VALUES :: "string list" where
  "PREVIOUS_STEP_STATUS_VALUES = [''failed'', ''skipped'', ''success'']"

definition APPROVAL_STATUS_VALUES :: "string list" where
  "APPROVAL_STATUS_VALUES = [''approved'', ''denied'', ''expired'']"

definition SEVERITY_RANK :: "string \<Rightarrow> int option" where
  "SEVERITY_RANK s =
     (if s = ''low'' then Some 1 else if s = ''medium'' then Some 2
      else if s = ''high'' then Some 3 else if s = ''critical'' then Some 4 else None)"

text \<open>A step's label, when it is a non-empty string.\<close>

definition step_label :: "pyval \<Rightarrow> string option" where
  "step_label step =
     (case step of
        PDict d \<Rightarrow> (case dict_get d ''label'' of PStr l \<Rightarrow> if l = [] then None else Some l | _ \<Rightarrow> None)
      | _ \<Rightarrow> None)"

fun labels_from :: "nat \<Rightarrow> pyval list \<Rightarrow> (string \<times> nat) list" where
  "labels_from n [] = []"
| "labels_from n (step # steps) =
     (case step_label step of None \<Rightarrow> [] | Some l \<Rightarrow> [(l, n)]) @ labels_from (Suc n) steps"

text \<open>A label that appears again overwrites the earlier entry.\<close>

definition build_label_index_map :: "pyval list \<Rightarrow> string \<Rightarrow> nat option" where
  "build_label_index_map steps = map_of (rev (labels_from 0 steps))"

definition validate_step_label :: "items \<Rightarrow> string \<Rightarrow> string list" where
  "validate_step_label step pre =
     (case dict_get step ''label'' of
        PNone \<Rightarrow> []
      | PStr l \<Rightarrow>
          if l = [] then [pre @ '': label must be a non-empty string'']
          else if \<not> is_name l
          then [pre @ '': invalid label '' @ py_repr l @ ''; expected form matching ^[a-z][a-z0-9_]*$''] else []
      | _ \<Rightarrow> [pre @ '': label must be a non-empty string''])"

definition allowed_ops_for_alert_field :: "string \<Rightarrow> string list" where
  "allowed_ops_for_alert_field field =
     (if field = ''severity'' \<or> field \<in> set NUMERIC_ALERT_FIELDS then EQUALITY_OPS @ ORDINAL_OPS else EQUALITY_OPS)"

definition validate_condition_value_type :: "string \<Rightarrow> pyval \<Rightarrow> string \<Rightarrow> string list" where
  "validate_condition_value_type field value pre =
     (if field \<in> set NUMERIC_ALERT_FIELDS
      then (case value of PInt _ \<Rightarrow> [] | PFloat _ \<Rightarrow> []
            | _ \<Rightarrow> [pre @ '': condition.value must be a number for field '' @ py_repr field])
      else if is_str value then []
      else [pre @ '': condition.value must be a string for field '' @ py_repr field])"

text \<open>The part after the checks of source, field and operator.\<close>

definition validate_status_condition ::
  "string \<Rightarrow> string \<Rightarrow> string \<Rightarrow> pyval \<Rightarrow> string list \<Rightarrow> string \<Rightarrow> string list result" where
  "validate_status_condition what field op value allowed pre =
     (if field \<noteq> ''status'' then Inr [pre @ '': '' @ what @ '' conditions must use field '' @ py_repr ''status'']
      else if op \<notin> set EQUALITY_OPS then Inr [pre @ '': '' @ what @ '' conditions support only == and !='']
      else case in_names value allowed of
             Inl e \<Rightarrow> Inl e
           | Inr True \<Rightarrow> Inr []
           | Inr False \<Rightarrow> Inr [pre @ '': '' @ what @ '' condition value must be one of '' @ py_list_repr allowed])"

definition validate_branch_condition :: "py_formats \<Rightarrow> pyval \<Rightarrow> string \<Rightarrow> string list result" where
  "validate_branch_condition fmt condition pre =
     (case condition of
        PDict c \<Rightarrow>
          (case in_names (dict_get c ''source'') BRANCH_CONDITION_SOURCES of
             Inl e \<Rightarrow> Inl e
           | Inr False \<Rightarrow> Inr [pre @ '': invalid condition.source '' @ repr_val fmt (dict_get c ''source'') @
                             ''; must be one of '' @ py_list_repr BRANCH_CONDITION_SOURCES]
           | Inr True \<Rightarrow>
               (case dict_get c ''field'' of
                  PStr field \<Rightarrow>
                    if field = [] then Inr [pre @ '': condition.field must be a non-empty string'']
                    else
                      (case dict_get c ''op'' of
                         PStr op \<Rightarrow>
                           if op \<notin> set (EQUALITY_OPS @ ORDINAL_OPS)
                           then Inr [pre @ '': invalid condition.op '' @ repr_val fmt (dict_get c ''op'')]
                           else if dict_get c ''source'' = PStr ''alert''
                           then if field \<notin> set ALERT_BINDING_FIELDS
                                then Inr [pre @ '': unsupported alert condition field '' @ py_repr field]
                                else if op \<notin> set (allowed_ops_for_alert_field field)
                                then Inr [pre @ '': operator '' @ py_repr op @ '' is not valid for alert field '' @
                                          py_repr field]
                                else Inr (validate_condition_value_type field (dict_get c ''value'') pre)
                           else if dict_get c ''source'' = PStr ''previous_step''
                           then validate_status_condition ''previous_step'' field op (dict_get c ''value'')
                                  PREVIOUS_STEP_STATUS_VALUES pre
                           else validate_status_condition ''approval'' field op (dict_get c ''value'')
                                  APPROVAL_STATUS_VALUES pre
                       | _ \<Rightarrow> Inr [pre @ '': invalid condition.op '' @ repr_val fmt (dict_get c ''op'')])
                | _ \<Rightarrow> Inr [pre @ '': condition.field must be a non-empty string'']))
      | _ \<Rightarrow> Inr [pre @ '': condition must be an object''])"

definition validate_branch_target :: "string \<Rightarrow> nat \<Rightarrow> (string \<Rightarrow> nat option) \<Rightarrow> string \<Rightarrow> string list" where
  "validate_branch_target label branch_index label_map pre =
     (case label_map label of
        None \<Rightarrow> [pre @ '': unknown label '' @ py_repr label]
      | Some target_index \<Rightarrow>
          if target_index \<le> branch_index
          then [pre @ '': label '' @ py_repr label @ '' resolves to step['' @ show_nat target_index @
                ''], which is not forward of branch step['' @ show_nat branch_index @ '']'']
          else [])"

definition step_prefix :: "nat \<Rightarrow> string" where
  "step_prefix n = ''step['' @ show_nat n @ '']''"

definition validate_branch_step ::
  "py_formats \<Rightarrow> items \<Rightarrow> nat \<Rightarrow> (string \<Rightarrow> nat option) \<Rightarrow> string list result" where
  "validate_branch_step fmt step step_index label_map =
     (let pre = step_prefix step_index
      in and_then
           (if is_dict (dict_get step ''condition'')
            then validate_branch_condition fmt (dict_get step ''condition'') (pre @ ''.condition'')
            else Inr [pre @ '': branch step requires condition object''])
           (Inr ((case dict_get step ''goto_true'' of
                    PStr l \<Rightarrow> if l = [] then [pre @ '': branch step requires non-empty goto_true'']
                              else validate_branch_target l step_index label_map (pre @ ''.goto_true'')
                  | _ \<Rightarrow> [pre @ '': branch step requires non-empty goto_true'']) @
                 (case dict_get step ''goto_false'' of
                    PNone \<Rightarrow> []
                  | PStr l \<Rightarrow> if l = [] then [pre @ '': goto_false must be a non-empty string when set'']
                              else validate_branch_target l step_index label_map (pre @ ''.goto_false'')
                  | _ \<Rightarrow> [pre @ '': goto_false must be a non-empty string when set'']))))"

definition resolve_label_target_index :: "pyval list \<Rightarrow> string \<Rightarrow> nat \<Rightarrow> nat option" where
  "resolve_label_target_index steps label branch_index =
     (case build_label_index_map steps label of
        None \<Rightarrow> None
      | Some target \<Rightarrow> if target \<le> branch_index then None else Some target)"

subsection \<open>Evaluating a condition\<close>

definition resolve_alert_field ::
  "py_formats \<Rightarrow> alert list \<Rightarrow> execution \<Rightarrow> pyval \<Rightarrow> cell result" where
  "resolve_alert_field fmt alerts ex field =
     (case ex_alert_id ex of
        None \<Rightarrow> Inl (PlaybookBranchConditionError ''binding_alert_context_missing''
                 ''Alert-sourced branch condition requires an alert_id on the execution.'')
      | Some alert_id \<Rightarrow>
          (case fetch_alert alert_id alerts of
             None \<Rightarrow> Inl (PlaybookBranchConditionError ''binding_alert_not_found''
                      (''Alert '' @ show_int alert_id @ '' was not found for branch evaluation.''))
           | Some a \<Rightarrow>
               if unhashable field then Inl (unhashable_error field)
               else (case (case field of PStr f \<Rightarrow> alert_get a f | _ \<Rightarrow> None) of
                       None \<Rightarrow> Inl (PlaybookBranchConditionError ''binding_field_missing''
                                (''Branch condition field alert.'' @ str_val fmt field @ '' is missing or null.''))
                     | Some v \<Rightarrow> Inr v)))"

text \<open>The first entry from the end that counts; an entry's unhashable status raises.\<close>

fun latest_step_status :: "pyval list \<Rightarrow> string option result" where
  "latest_step_status [] = Inr None"
| "latest_step_status (entry # rest) =
     (case entry of
        PDict d \<Rightarrow>
          (case in_names (dict_get d ''status'') PREVIOUS_STEP_STATUS_VALUES of
             Inl e \<Rightarrow> Inl e
           | Inr True \<Rightarrow>
               (case dict_get d ''step_index'' of
                  PInt _ \<Rightarrow> (case dict_get d ''status'' of PStr st \<Rightarrow> Inr (Some st) | _ \<Rightarrow> latest_step_status rest)
                | PBool _ \<Rightarrow> (case dict_get d ''status'' of PStr st \<Rightarrow> Inr (Some st) | _ \<Rightarrow> latest_step_status rest)
                | _ \<Rightarrow> latest_step_status rest)
           | Inr False \<Rightarrow> latest_step_status rest)
      | _ \<Rightarrow> latest_step_status rest)"

definition latest_previous_step_status :: "pyval list \<Rightarrow> string option result" where
  "latest_previous_step_status steps_log = latest_step_status (rev steps_log)"

fun latest_decision :: "pyval list \<Rightarrow> string option" where
  "latest_decision [] = None"
| "latest_decision (entry # rest) =
     (case entry of
        PDict d \<Rightarrow>
          if dict_get d ''action'' \<noteq> PStr ''require_approval'' then latest_decision rest
          else if dict_get d ''event'' = PStr ''approval_approved'' then Some ''approved''
          else if dict_get d ''event'' = PStr ''approval_denied'' then Some ''denied''
          else if dict_get d ''event'' = PStr ''approval_expired'' then Some ''expired''
          else latest_decision rest
      | _ \<Rightarrow> latest_decision rest)"

definition latest_approval_decision_status :: "pyval list \<Rightarrow> string option" where
  "latest_approval_decision_status steps_log = latest_decision (rev steps_log)"

definition compare_equality :: "py_formats \<Rightarrow> string \<Rightarrow> pyval \<Rightarrow> pyval \<Rightarrow> bool result" where
  "compare_equality fmt actual op expected =
     (if op = PStr ''=='' then Inr (actual = str_val fmt expected)
      else if op = PStr ''!='' then Inr (actual \<noteq> str_val fmt expected)
      else Inl (PlaybookBranchConditionError ''branch_condition_invalid''
             (''Unsupported equality comparison operator: '' @ repr_val fmt op)))"

definition compare_float :: "py_formats \<Rightarrow> float_value \<Rightarrow> pyval \<Rightarrow> float_value \<Rightarrow> bool result" where
  "compare_float fmt left op right =
     (if op = PStr ''=='' then Inr (float_eq left right)
      else if op = PStr ''!='' then Inr (\<not> float_eq left right)
      else if op = PStr ''>='' then Inr (float_less right left \<or> float_eq left right)
      else if op = PStr ''>'' then Inr (float_less right left)
      else if op = PStr ''<='' then Inr (float_less left right \<or> float_eq left right)
      else if op = PStr ''<'' then Inr (float_less left right)
      else Inl (PlaybookBranchConditionError ''branch_condition_invalid''
             (''Unsupported numeric comparison operator: '' @ repr_val fmt op)))"

definition compare_numeric :: "py_formats \<Rightarrow> cell \<Rightarrow> pyval \<Rightarrow> pyval \<Rightarrow> bool result" where
  "compare_numeric fmt actual op expected =
     (case cell_float fmt actual of
        Inl e \<Rightarrow> Inl e
      | Inr left \<Rightarrow>
          (case py_float fmt expected of
             Inl e \<Rightarrow> Inl e
           | Inr right \<Rightarrow> compare_float fmt left op right))"

definition compare_severity :: "py_formats \<Rightarrow> string \<Rightarrow> pyval \<Rightarrow> string \<Rightarrow> bool result" where
  "compare_severity fmt actual op expected =
     (case (SEVERITY_RANK (lower (strip actual)), SEVERITY_RANK (lower (strip expected))) of
        (Some a, Some e) \<Rightarrow> compare_numeric fmt (CInt a) op (PInt e)
      | _ \<Rightarrow> Inl (PlaybookBranchConditionError ''branch_condition_invalid''
               (''Unsupported severity value in branch comparison: '' @ py_repr actual @ '' vs '' @ py_repr expected)))"

definition compare_values :: "py_formats \<Rightarrow> cell \<Rightarrow> pyval \<Rightarrow> pyval \<Rightarrow> pyval \<Rightarrow> bool result" where
  "compare_values fmt actual op expected field =
     (if field = PStr ''severity'' then compare_severity fmt (cell_str fmt actual) op (str_val fmt expected)
      else if (case field of PStr f \<Rightarrow> f \<in> set NUMERIC_ALERT_FIELDS | _ \<Rightarrow> False)
      then compare_numeric fmt actual op expected
      else compare_equality fmt (cell_str fmt actual) op expected)"

definition evaluate_branch_condition ::
  "py_formats \<Rightarrow> alert list \<Rightarrow> items \<Rightarrow> execution \<Rightarrow> pyval list \<Rightarrow> bool result" where
  "evaluate_branch_condition fmt alerts condition ex steps_log =
     (case dict_index condition ''source'' of Inl e \<Rightarrow> Inl e | Inr source \<Rightarrow>
      case dict_index condition ''field'' of Inl e \<Rightarrow> Inl e | Inr field \<Rightarrow>
      case dict_index condition ''op'' of Inl e \<Rightarrow> Inl e | Inr op \<Rightarrow>
      case dict_index condition ''value'' of Inl e \<Rightarrow> Inl e | Inr expected \<Rightarrow>
      if source = PStr ''alert''
      then (case resolve_alert_field fmt alerts ex field of
              Inl e \<Rightarrow> Inl e | Inr actual \<Rightarrow> compare_values fmt actual op expected field)
      else if source = PStr ''previous_step''
      then (case latest_previous_step_status steps_log of
              Inl e \<Rightarrow> Inl e
            | Inr None \<Rightarrow> Inl (PlaybookBranchConditionError ''branch_context_missing''
                           ''No previous step outcome is available for branch evaluation.'')
            | Inr (Some actual) \<Rightarrow> compare_equality fmt actual op expected)
      else (case latest_approval_decision_status steps_log of
              None \<Rightarrow> Inl (PlaybookBranchConditionError ''branch_context_missing''
                       ''No approval gate decision is available for branch evaluation.'')
            | Some actual \<Rightarrow> compare_equality fmt actual op expected))"

subsection \<open>The check of a playbook's steps\<close>

definition ADAPTER_ACTIONS :: "string \<Rightarrow> (string \<times> string) option" where
  "ADAPTER_ACTIONS = map_of
     [(''notify_slack'', (''slack'', ''send_message'')), (''notify_teams'', (''teams'', ''send_message'')),
      (''notify_email'', (''email'', ''send_email'')), (''block_ip'', (''firewall'', ''block_ip'')),
      (''notify_webhook'', (''webhook'', ''post_event''))]"

definition KNOWN_PLAYBOOK_ACTIONS :: "string list" where
  "KNOWN_PLAYBOOK_ACTIONS = PLAYBOOK_ACTIONS"

definition APPROVAL_RISK_LEVELS :: "string list" where
  "APPROVAL_RISK_LEVELS = [''critical'', ''high'', ''medium'']"

definition APPROVAL_TERMINAL_BEHAVIORS :: "string list" where
  "APPROVAL_TERMINAL_BEHAVIORS = [''branch'', ''fail'']"

definition MIN_APPROVAL_TTL_MINUTES :: int where
  "MIN_APPROVAL_TTL_MINUTES = 1"

definition MAX_APPROVAL_TTL_MINUTES :: int where
  "MAX_APPROVAL_TTL_MINUTES = 10080"

definition validate_enrich_context_step :: "items \<Rightarrow> string \<Rightarrow> string list" where
  "validate_enrich_context_step step pre =
     (case dict_get step ''params'' of
        PNone \<Rightarrow> []
      | PDict params \<Rightarrow>
          if \<not> dict_has params ''limit'' then []
          else (case dict_get params ''limit'' of
                  PInt n \<Rightarrow> if n < 1 \<or> 25 < n
                            then [pre @ '': enrich_context params.limit must be between 1 and 25''] else []
                | _ \<Rightarrow> [pre @ '': enrich_context params.limit must be an integer''])
      | _ \<Rightarrow> [pre @ '': enrich_context params must be an object''])"

definition validate_trigger_playbook_step :: "items \<Rightarrow> string \<Rightarrow> string option \<Rightarrow> string list" where
  "validate_trigger_playbook_step step pre playbook_id =
     (case dict_get step ''params'' of
        PDict params \<Rightarrow>
          (case dict_get params ''playbook_id'' of
             PStr target \<Rightarrow>
               if strip target = [] then [pre @ '': trigger_playbook requires params.playbook_id'']
               else if playbook_id = Some (strip target)
               then [pre @ '': trigger_playbook cannot reference its own playbook id''] else []
           | _ \<Rightarrow> [pre @ '': trigger_playbook requires params.playbook_id''])
      | _ \<Rightarrow> [pre @ '': trigger_playbook requires params object''])"

text \<open>\<open>step[key] not in allowed\<close>, reported as an invalid \<open>key\<close>.\<close>

definition check_choice ::
  "py_formats \<Rightarrow> string \<Rightarrow> string \<Rightarrow> pyval \<Rightarrow> string list \<Rightarrow> string list result" where
  "check_choice fmt pre key value allowed =
     (case in_names value allowed of
        Inl e \<Rightarrow> Inl e
      | Inr True \<Rightarrow> Inr []
      | Inr False \<Rightarrow> Inr [pre @ '': invalid '' @ key @ '' '' @ repr_val fmt value @ ''; must be one of '' @
                        py_list_repr allowed])"

definition validate_approval_step :: "py_formats \<Rightarrow> items \<Rightarrow> string \<Rightarrow> string list result" where
  "validate_approval_step fmt step pre =
     and_then
       (check_choice fmt pre ''risk_level''
          (if dict_has step ''risk_level'' then dict_get step ''risk_level'' else PStr ''high'') APPROVAL_RISK_LEVELS)
     (and_then
       (Inr ((if \<not> dict_has step ''expires_in_minutes'' then []
              else case dict_get step ''expires_in_minutes'' of
                     PInt ttl \<Rightarrow>
                       if ttl < MIN_APPROVAL_TTL_MINUTES \<or> MAX_APPROVAL_TTL_MINUTES < ttl
                       then [pre @ '': expires_in_minutes must be between '' @ show_int MIN_APPROVAL_TTL_MINUTES @
                             '' and '' @ show_int MAX_APPROVAL_TTL_MINUTES]
                       else []
                   | _ \<Rightarrow> [pre @ '': expires_in_minutes must be an integer'']) @
             (if dict_has step ''reason'' \<and> \<not> is_str (dict_get step ''reason'')
              then [pre @ '': reason must be a string''] else [])))
     (and_then
       (if dict_has step ''on_denied''
        then check_choice fmt pre ''on_denied'' (dict_get step ''on_denied'') APPROVAL_TERMINAL_BEHAVIORS else Inr [])
       (if dict_has step ''on_expired''
        then check_choice fmt pre ''on_expired'' (dict_get step ''on_expired'') APPROVAL_TERMINAL_BEHAVIORS
        else Inr [])))"

definition validate_known_step ::
  "py_formats \<Rightarrow> string option \<Rightarrow> (string \<Rightarrow> nat option) \<Rightarrow> nat \<Rightarrow> items \<Rightarrow> string \<Rightarrow> string list result" where
  "validate_known_step fmt playbook_id label_map index step action =
     (let pre = step_prefix index
      in and_then (Inr (validate_step_label step pre))
        (and_then (if action = ''branch'' then validate_branch_step fmt step index label_map else Inr [])
        (and_then (Inr ((if action = ''trigger_playbook'' then validate_trigger_playbook_step step pre playbook_id else []) @
                        (if action = ''enrich_context'' then validate_enrich_context_step step pre else [])))
        (and_then (if action = ''require_approval'' then validate_approval_step fmt step pre else Inr [])
        (and_then (if dict_has step ''on_failure''
                   then check_choice fmt pre ''on_failure'' (dict_get step ''on_failure'') [''abort'', ''continue'']
                   else Inr [])
          (Inr (validate_step_param_bindings step pre)))))))"

definition validate_step ::
  "py_formats \<Rightarrow> string option \<Rightarrow> (string \<Rightarrow> nat option) \<Rightarrow> nat \<Rightarrow> pyval \<Rightarrow> string list result" where
  "validate_step fmt playbook_id label_map index step =
     (let pre = step_prefix index
      in case step of
           PDict d \<Rightarrow>
             if \<not> dict_has d ''action'' then Inr [pre @ '': missing required key '' @ py_repr ''action'']
             else (case dict_get d ''action'' of
                     PStr raw \<Rightarrow>
                       (case resolve_action_for_playbook (Some raw) of
                          Inl (CanonicalActionValidationError m c) \<Rightarrow> Inr [pre @ '': '' @ m]
                        | Inl e \<Rightarrow> Inl e
                        | Inr action \<Rightarrow>
                            if action \<notin> set KNOWN_PLAYBOOK_ACTIONS
                            then Inr [pre @ '': unsupported action '' @ py_repr action]
                            else validate_known_step fmt playbook_id label_map index d action)
                   | _ \<Rightarrow> Inr [pre @ '': '' @ py_repr ''action'' @ '' must be a string''])
         | _ \<Rightarrow> Inr [pre @ '': must be a dict''])"

fun validate_steps_from ::
  "py_formats \<Rightarrow> string option \<Rightarrow> (string \<Rightarrow> nat option) \<Rightarrow> nat \<Rightarrow> pyval list \<Rightarrow> string list result" where
  "validate_steps_from fmt playbook_id label_map n [] = Inr []"
| "validate_steps_from fmt playbook_id label_map n (step # steps) =
     and_then (validate_step fmt playbook_id label_map n step)
       (validate_steps_from fmt playbook_id label_map (Suc n) steps)"

definition all_labels :: "pyval list \<Rightarrow> string list" where
  "all_labels steps = map fst (labels_from 0 steps)"

definition duplicate_labels :: "pyval list \<Rightarrow> string list" where
  "duplicate_labels steps =
     sort (remdups (filter (\<lambda>l. 1 < length (filter (\<lambda>x. x = l) (all_labels steps))) (all_labels steps)))"

definition validate_playbook_steps :: "py_formats \<Rightarrow> pyval \<Rightarrow> string option \<Rightarrow> string list result" where
  "validate_playbook_steps fmt steps playbook_id =
     (case steps of
        PList xs \<Rightarrow>
          and_then
            (Inr (map (\<lambda>l. ''duplicate label '' @ py_repr l @ '' appears more than once in steps'') (duplicate_labels xs)))
            (validate_steps_from fmt playbook_id (build_label_index_map xs) 0 xs)
      | _ \<Rightarrow> Inr [''steps must be a list''])"

subsection \<open>Lemmas\<close>

lemma prefix_contains: "prefix needle s \<Longrightarrow> contains needle s"
  by (cases s) auto

lemma labels_from_mem:
  "(l, i) \<in> set (labels_from n steps) \<longleftrightarrow>
     n \<le> i \<and> i < n + length steps \<and> step_label (steps ! (i - n)) = Some l"
proof (induction steps arbitrary: n)
  case (Cons step steps)
  have "(l, i) \<in> set (labels_from (Suc n) steps) \<longleftrightarrow>
      Suc n \<le> i \<and> i < Suc n + length steps \<and> step_label (steps ! (i - Suc n)) = Some l" by (rule Cons)
  then show ?case by (cases "i = n") (auto simp: nth_Cons' split: option.splits)
qed simp

lemma label_index_Some:
  "build_label_index_map steps l = Some i \<Longrightarrow> i < length steps \<and> step_label (steps ! i) = Some l"
  unfolding build_label_index_map_def by (drule map_of_SomeD) (simp add: labels_from_mem)

lemma validate_steps_from_ok:
  "validate_steps_from fmt pid lm n steps = Inr [] \<longleftrightarrow>
     (\<forall>i < length steps. validate_step fmt pid lm (n + i) (steps ! i) = Inr [])"
proof (induction steps arbitrary: n)
  case (Cons step steps)
  have split: "(\<forall>i < Suc (length steps). P i) \<longleftrightarrow> P 0 \<and> (\<forall>i < length steps. P (Suc i))" for P
    by (metis less_Suc_eq_0_disj)
  show ?case by (simp add: Cons split)
qed simp

lemma accepted_step:
  assumes "validate_playbook_steps fmt (PList steps) pid = Inr []" "i < length steps" "steps ! i = PDict d"
    and "dict_get d ''action'' = PStr raw" "resolve_action_for_playbook (Some raw) = Inr action"
  shows "validate_known_step fmt pid (build_label_index_map steps) i d action = Inr []"
proof -
  have "validate_step fmt pid (build_label_index_map steps) i (PDict d) = Inr []"
    using assms(1-3) by (auto simp: validate_playbook_steps_def validate_steps_from_ok)
  moreover have "dict_has d ''action''"
    using assms(4) by (cases "map_of d ''action''") (simp_all add: dict_get_def dict_has_def)
  ultimately show ?thesis
    using assms(4,5) by (auto simp: validate_step_def Let_def split: if_splits)
qed

lemma playbook_action_names:
  "resolve_action_for_playbook (Some ''branch'') = Inr ''branch''"
  "resolve_action_for_playbook (Some ''require_approval'') = Inr ''require_approval''"
  by code_simp+

lemma validate_branch_target_ok:
  "validate_branch_target l i (build_label_index_map steps) pre = [] \<longleftrightarrow>
     (\<exists>t. resolve_label_target_index steps l i = Some t)"
  by (auto simp: validate_branch_target_def resolve_label_target_index_def split: option.splits)

subsection \<open>Properties: jumps\<close>

text \<open>A branch can only jump forward, to the step that has the label: whatever the playbook
  says, the index a jump resolves to is after the branch and inside the playbook. Running a
  playbook therefore visits its steps in increasing order and ends.\<close>

theorem branch_jumps_forward:
  assumes "resolve_label_target_index steps label b = Some t"
  shows "b < t \<and> t < length steps \<and> step_label (steps ! t) = Some label"
  using assms label_index_Some [of steps label] by (auto simp: resolve_label_target_index_def split: option.splits if_splits)

text \<open>The branches of a saved playbook have targets: when the check reports nothing, every
  branch step names in \<open>goto_true\<close> a label that resolves, and \<open>goto_false\<close> is absent or resolves
  too, so a jump of a saved playbook never fails for want of a target.\<close>

theorem saved_branches_resolve:
  assumes valid: "validate_playbook_steps fmt (PList steps) pid = Inr []"
    and step: "i < length steps" "steps ! i = PDict d" "dict_get d ''action'' = PStr ''branch''"
  shows "(\<exists>l t. dict_get d ''goto_true'' = PStr l \<and> resolve_label_target_index steps l i = Some t) \<and>
    (dict_get d ''goto_false'' = PNone \<or>
     (\<exists>l t. dict_get d ''goto_false'' = PStr l \<and> resolve_label_target_index steps l i = Some t))"
proof -
  have "validate_branch_step fmt d i (build_label_index_map steps) = Inr []"
    using accepted_step [OF valid step playbook_action_names(1)] by (simp add: validate_known_step_def Let_def)
  then have t: "(case dict_get d ''goto_true'' of
      PStr l \<Rightarrow> l \<noteq> [] \<and> (\<exists>t. resolve_label_target_index steps l i = Some t) | _ \<Rightarrow> False)"
    and f: "(case dict_get d ''goto_false'' of PNone \<Rightarrow> True
      | PStr l \<Rightarrow> l \<noteq> [] \<and> (\<exists>t. resolve_label_target_index steps l i = Some t) | _ \<Rightarrow> False)"
    by (auto simp: validate_branch_step_def Let_def validate_branch_target_ok split: pyval.splits if_splits)
  show ?thesis using t f by (auto split: pyval.splits)
qed

subsection \<open>Properties: bindings\<close>

lemma brace_not_name [simp]: "\<not> is_name_char CHR ''}''"
  by (simp add: is_name_char_def is_lower_def)

lemma match_field_Some:
  "match_field s = Some f \<longleftrightarrow> is_name f \<and> (s = f @ ''}}'' \<or> s = f @ ''}}'' @ [char_of (10 :: nat)])"
proof
  assume "match_field s = Some f"
  then have "is_name f" "f = takeWhile is_name_char s"
    "dropWhile is_name_char s = ''}}'' \<or> dropWhile is_name_char s = ''}}'' @ [char_of (10 :: nat)]"
    by (auto simp: match_field_def Let_def split: if_splits)
  then show "is_name f \<and> (s = f @ ''}}'' \<or> s = f @ ''}}'' @ [char_of (10 :: nat)])"
    by (metis takeWhile_dropWhile_id)
next
  assume r: "is_name f \<and> (s = f @ ''}}'' \<or> s = f @ ''}}'' @ [char_of (10 :: nat)])"
  then have all: "\<forall>c \<in> set f. is_name_char c" by (simp add: is_name_def list_all_iff)
  have "takeWhile is_name_char (f @ CHR ''}'' # x) = f" "dropWhile is_name_char (f @ CHR ''}'' # x) = CHR ''}'' # x" for x
    using all by (simp_all add: takeWhile_append dropWhile_append)
  with r show "match_field s = Some f" by (auto simp: match_field_def Let_def)
qed

lemma match_after:
  "prefix p s \<and> match_field (drop (length p) s) = Some f \<longleftrightarrow>
     is_name f \<and> (s = p @ f @ ''}}'' \<or> s = p @ f @ ''}}'' @ [char_of (10 :: nat)])"
  unfolding match_field_Some by (auto simp: prefix_def)

text \<open>Exactly the whole-value forms are bindings: a text binds field \<open>f\<close> of \<open>ns\<close> if and only if
  \<open>ns\<close> is \<open>alert\<close> or \<open>execution\<close>, \<open>f\<close> is a lower-case name, and the text is the two in double
  braces with a dot between them (the pattern lets one newline follow).\<close>

theorem binding_expression_exact:
  "parse_binding_expression (PStr s) = Some (ns, f) \<longleftrightarrow>
     ns \<in> {''alert'', ''execution''} \<and> is_name f \<and>
     (s = ''{{'' @ ns @ ''.'' @ f @ ''}}'' \<or> s = ''{{'' @ ns @ ''.'' @ f @ ''}}'' @ [char_of (10 :: nat)])"
proof -
  have len: "length ''{{alert.'' = 8" "length ''{{execution.'' = 12" by simp_all
  have alert: "prefix ''{{alert.'' s \<and> match_field (drop 8 s) = Some f \<longleftrightarrow> is_name f \<and>
      (s = ''{{alert.'' @ f @ ''}}'' \<or> s = ''{{alert.'' @ f @ ''}}'' @ [char_of (10 :: nat)])"
    using match_after [of "''{{alert.''" s f] unfolding len .
  have exec: "prefix ''{{execution.'' s \<and> match_field (drop 12 s) = Some f \<longleftrightarrow> is_name f \<and>
      (s = ''{{execution.'' @ f @ ''}}'' \<or> s = ''{{execution.'' @ f @ ''}}'' @ [char_of (10 :: nat)])"
    using match_after [of "''{{execution.''" s f] unfolding len .
  have excl: "\<not> (prefix ''{{alert.'' s \<and> prefix ''{{execution.'' s)"
    using prefix_same_cases [of "''{{alert.''" s "''{{execution.''"] by auto
  have c: "match_binding s \<noteq> None \<Longrightarrow> contains ''{{'' s"
    by (rule prefix_contains) (auto simp: match_binding_def prefix_def split: if_splits)
  then have "parse_binding_expression (PStr s) = match_binding s"
    by (cases "match_binding s") (simp_all add: parse_binding_expression_def)
  moreover have "match_binding s = Some (ns, f) \<longleftrightarrow>
      (ns = ''alert'' \<and> prefix ''{{alert.'' s \<and> match_field (drop 8 s) = Some f) \<or>
      (ns = ''execution'' \<and> prefix ''{{execution.'' s \<and> match_field (drop 12 s) = Some f)"
    using excl by (cases "prefix ''{{alert.'' s"; cases "prefix ''{{execution.'' s")
      (auto simp: match_binding_def)
  ultimately have p: "parse_binding_expression (PStr s) = Some (ns, f) \<longleftrightarrow>
      ns = ''alert'' \<and> is_name f \<and>
        (s = ''{{alert.'' @ f @ ''}}'' \<or> s = ''{{alert.'' @ f @ ''}}'' @ [char_of (10 :: nat)]) \<or>
      ns = ''execution'' \<and> is_name f \<and>
        (s = ''{{execution.'' @ f @ ''}}'' \<or> s = ''{{execution.'' @ f @ ''}}'' @ [char_of (10 :: nat)])"
    by (simp only: alert exec)
  have e: "''{{'' @ ''alert'' @ ''.'' @ x = ''{{alert.'' @ x" "''{{'' @ ''execution'' @ ''.'' @ x = ''{{execution.'' @ x"
    "''execution'' \<noteq> ''alert''" for x by simp_all
  show ?thesis unfolding p
    by (cases "ns = ''alert''"; cases "ns = ''execution''")
      (simp_all only: e insert_iff empty_iff simp_thms)
qed

text \<open>Where a bound value comes from.\<close>

definition bound_cell ::
  "alert list \<Rightarrow> execution \<Rightarrow> alert option \<Rightarrow> string \<Rightarrow> string \<Rightarrow> cell \<Rightarrow> bool" where
  "bound_cell alerts ex snapshot ns f raw \<longleftrightarrow>
     (if ns = ''alert''
      then \<exists>a. (snapshot = Some a \<or> (snapshot = None \<and> (\<exists>i. ex_alert_id ex = Some i \<and> fetch_alert i alerts = Some a))) \<and>
             alert_get a f = Some raw
      else execution_binding_value ex f = Some raw)"

lemma dict_set_new: "k \<notin> fst ` set d \<Longrightarrow> dict_set d k v = d @ [(k, v)]"
  by (induction d k v rule: dict_set.induct) auto

lemma resolve_params_loop_Inr:
  assumes "resolve_params_loop fmt ex al resolved params = Inr r" "distinct (map fst (resolved @ params))"
  shows "\<exists>vs. r = resolved @ vs \<and> map fst vs = map fst params \<and>
    list_all2 (\<lambda>(k, v) (k', v'). binding_value fmt ex al v = Inr v') params vs"
  using assms
proof (induction params arbitrary: resolved)
  case (Cons p params)
  obtain k v where p: "p = (k, v)" by force
  obtain v' where v': "binding_value fmt ex al v = Inr v'"
    and rec: "resolve_params_loop fmt ex al (dict_set resolved k v') params = Inr r"
    using Cons.prems(1) by (auto simp: p split: sum.splits)
  have new: "dict_set resolved k v' = resolved @ [(k, v')]"
    using Cons.prems(2) by (intro dict_set_new) (auto simp: p)
  from Cons.IH [OF rec] Cons.prems(2) obtain vs where "r = dict_set resolved k v' @ vs" "map fst vs = map fst params"
    "list_all2 (\<lambda>(k, v) (k', v'). binding_value fmt ex al v = Inr v') params vs" by (auto simp: new p)
  then show ?case using v' by (intro exI [of _ "(k, v') # vs"]) (simp add: new p)
qed simp

text \<open>Resolving parameters replaces bound values and nothing else: on success the result has the
  same keys in the same order, a literal value is unchanged, and a bound one is the current value of
  the alert's or the execution's field, which exists.\<close>

theorem resolved_params_exact:
  assumes keys: "distinct (map fst params)"
    and run: "resolve_step_params fmt alerts params ex snapshot = Inr r"
    and mem: "(k, v) \<in> set params"
  shows "map fst r = map fst params \<and>
    (case parse_binding_expression v of
       None \<Rightarrow> map_of r k = Some v
     | Some (ns, f) \<Rightarrow> \<exists>raw. bound_cell alerts ex snapshot ns f raw \<and> map_of r k = Some (coerce_binding_value fmt raw))"
proof -
  have ne: "params \<noteq> []" using mem by auto
  obtain al where loop: "resolve_params_loop fmt ex al [] params = Inr r"
    and al: "al = snapshot \<or> snapshot = None \<and> (\<exists>i a. ex_alert_id ex = Some i \<and> fetch_alert i alerts = Some a \<and> al = Some a)"
    using run ne by (auto simp: resolve_step_params_def split: option.splits if_splits)
  from resolve_params_loop_Inr [OF loop] keys obtain fst_r: "map fst r = map fst params"
    and all: "list_all2 (\<lambda>(k, v) (k', v'). binding_value fmt ex al v = Inr v') params r" by auto
  obtain j where j: "j < length params" "params ! j = (k, v)" using mem by (metis in_set_conv_nth)
  have len: "length r = length params" using all by (simp add: list_all2_lengthD)
  obtain k' v' where r: "r ! j = (k', v')" by force
  have "binding_value fmt ex al v = Inr v'" using list_all2_nthD [OF all j(1)] by (simp add: j(2) r)
  moreover have "k' = k" using arg_cong [OF fst_r, of "\<lambda>xs. xs ! j"] j len by (simp add: r)
  moreover have "map_of r k' = Some v'"
  proof (rule map_of_is_SomeI)
    show "distinct (map fst r)" using keys fst_r by simp
    show "(k', v') \<in> set r" using j(1) len r by (metis nth_mem)
  qed
  ultimately have b: "binding_value fmt ex al v = Inr v'" "map_of r k = Some v'" by auto
  show ?thesis
  proof (cases "parse_binding_expression v")
    case None
    with b fst_r show ?thesis by (simp add: binding_value_def)
  next
    case (Some p)
    obtain ns f where p: "p = (ns, f)" by force
    have "\<exists>raw. bound_cell alerts ex snapshot ns f raw \<and> v' = coerce_binding_value fmt raw"
      using b(1) al Some p by (auto simp: binding_value_def bound_cell_def split: if_splits option.splits)
    with b(2) fst_r Some p show ?thesis by auto
  qed
qed

subsection \<open>Properties: conditions\<close>

definition branch_error_codes :: "string set" where
  "branch_error_codes = {''binding_alert_context_missing'', ''binding_alert_not_found'', ''binding_field_missing'',
     ''branch_context_missing'', ''branch_condition_invalid''}"

text \<open>An outcome a branch step handles: a truth value or the module's own exception.\<close>

definition handled :: "bool result \<Rightarrow> bool" where
  "handled r \<longleftrightarrow> (case r of Inr _ \<Rightarrow> True
     | Inl (PlaybookBranchConditionError code m) \<Rightarrow> code \<in> branch_error_codes | Inl _ \<Rightarrow> False)"

lemma handled_simps [simp]:
  "handled (Inr b)" "handled (Inl (PlaybookBranchConditionError code m)) \<longleftrightarrow> code \<in> branch_error_codes"
  by (simp_all add: handled_def)

lemma handled_compare:
  "handled (compare_equality fmt a op e)" "handled (compare_float fmt x op y)" "handled (compare_severity fmt s op t)"
proof -
  show "handled (compare_equality fmt a op e)"
    by (simp add: compare_equality_def branch_error_codes_def)
  show cf: "handled (compare_float fmt x op y)" for x y by (simp add: compare_float_def branch_error_codes_def)
  show "handled (compare_severity fmt s op t)"
    using cf by (auto simp: compare_severity_def compare_numeric_def py_float_def branch_error_codes_def
        SEVERITY_RANK_def split: option.splits if_splits)
qed

lemma numeric_cell:
  assumes "f \<in> set NUMERIC_ALERT_FIELDS" "alert_get a f = Some v"
  shows "\<exists>q. cell_float fmt v = Inr q"
  using assms by (auto simp: NUMERIC_ALERT_FIELDS_def alert_get_def)

text \<open>A condition that passed the check evaluates to a truth value or to one of the five errors
  of its own that a branch step handles; it never fails with a missing key, a type error or a failed
  conversion, whatever the alert and the log hold, as long as the log's statuses are plain values. The one
  exception is an integer too large for a float, which the check lets pass: comparing with it raises
  an \<open>OverflowError\<close>.\<close>

theorem checked_condition_evaluates:
  assumes valid: "validate_branch_condition fmt (PDict c) pre = Inr []"
    and log: "\<forall>d. PDict d \<in> set steps_log \<longrightarrow> \<not> unhashable (dict_get d ''status'')"
  shows "handled (evaluate_branch_condition fmt alerts c ex steps_log) \<or>
    (\<exists>i. dict_get c ''value'' = PInt i \<and> \<not> float_range i \<and>
       evaluate_branch_condition fmt alerts c ex steps_log =
         Inl (OverflowError ''int too large to convert to float''))"
proof -
  let ?over = "\<lambda>r. \<exists>i. dict_get c ''value'' = PInt i \<and> \<not> float_range i \<and>
      r = Inl (OverflowError ''int too large to convert to float'')"
  have idx: "dict_index c k = Inr (dict_get c k)" if "dict_get c k \<noteq> PNone" for k
    using that by (cases "map_of c k") (simp_all add: dict_index_def dict_get_def)
  obtain src field op where c: "dict_get c ''source'' = PStr src" "dict_get c ''field'' = PStr field" "dict_get c ''op'' = PStr op"
    "src \<in> set BRANCH_CONDITION_SOURCES"
    using valid by (auto simp: validate_branch_condition_def in_names_Inr split: sum.splits bool.splits pyval.splits if_splits)
  have v: "dict_get c ''value'' \<noteq> PNone"
    and num: "src = ''alert'' \<Longrightarrow> field \<in> set NUMERIC_ALERT_FIELDS \<Longrightarrow>
      (\<exists>q. py_float fmt (dict_get c ''value'') = Inr q) \<or>
      (\<exists>i. dict_get c ''value'' = PInt i \<and> \<not> float_range i \<and>
         py_float fmt (dict_get c ''value'') = Inl (OverflowError ''int too large to convert to float''))"
    using valid c by (auto simp: validate_branch_condition_def in_names_def validate_status_condition_def
        validate_condition_value_type_def py_float_def unhashable_def split: sum.splits bool.splits pyval.splits if_splits)
  have ev: "evaluate_branch_condition fmt alerts c ex steps_log =
    (if src = ''alert''
      then (case resolve_alert_field fmt alerts ex (PStr field) of
              Inl e \<Rightarrow> Inl e | Inr actual \<Rightarrow> compare_values fmt actual (PStr op) (dict_get c ''value'') (PStr field))
      else if src = ''previous_step''
      then (case latest_previous_step_status steps_log of
              Inl e \<Rightarrow> Inl e
            | Inr None \<Rightarrow> Inl (PlaybookBranchConditionError ''branch_context_missing''
                           ''No previous step outcome is available for branch evaluation.'')
            | Inr (Some actual) \<Rightarrow> compare_equality fmt actual (PStr op) (dict_get c ''value''))
      else (case latest_approval_decision_status steps_log of
              None \<Rightarrow> Inl (PlaybookBranchConditionError ''branch_context_missing''
                       ''No approval gate decision is available for branch evaluation.'')
            | Some actual \<Rightarrow> compare_equality fmt actual (PStr op) (dict_get c ''value'')))"
    using idx [of "''source''"] idx [of "''field''"] idx [of "''op''"] idx [OF v] c
    by (simp add: evaluate_branch_condition_def)
  have status: "\<exists>x. latest_step_status xs = Inr x" if "\<forall>d. PDict d \<in> set xs \<longrightarrow> \<not> unhashable (dict_get d ''status'')" for xs
    using that by (induction xs) (auto simp: in_names_def split: pyval.splits bool.splits)
  obtain x where x: "latest_previous_step_status steps_log = Inr x"
    using status [of "rev steps_log"] log by (auto simp: latest_previous_step_status_def)
  have alert: "handled r \<or> ?over r"
    if "r = (case resolve_alert_field fmt alerts ex (PStr field) of
      Inl e \<Rightarrow> Inl e | Inr actual \<Rightarrow> compare_values fmt actual (PStr op) (dict_get c ''value'') (PStr field))"
    and "src = ''alert''" for r
  proof (cases "resolve_alert_field fmt alerts ex (PStr field)")
    case (Inl e)
    then show ?thesis using that(1)
      by (auto simp: resolve_alert_field_def unhashable_def branch_error_codes_def split: option.splits if_splits)
  next
    case (Inr actual)
    then obtain a where a: "alert_get a field = Some actual"
      by (auto simp: resolve_alert_field_def split: option.splits if_splits)
    have "handled (compare_numeric fmt actual (PStr op) (dict_get c ''value'')) \<or>
        ?over (compare_numeric fmt actual (PStr op) (dict_get c ''value''))" if "field \<in> set NUMERIC_ALERT_FIELDS"
      using numeric_cell [OF that a, of fmt] num [OF \<open>src = _\<close> that] handled_compare(2)
      by (auto simp: compare_numeric_def)
    then show ?thesis using that(1) by (auto simp: Inr compare_values_def handled_compare)
  qed
  show ?thesis unfolding ev
    using alert [OF refl] x by (auto simp: handled_compare branch_error_codes_def split: option.splits)
qed

subsection \<open>Properties: the check itself\<close>

definition only_type_error :: "'a result \<Rightarrow> bool" where
  "only_type_error r \<longleftrightarrow> (\<forall>e. r = Inl e \<longrightarrow> (\<exists>m. e = TypeError m))"

lemma only_type_error_simps [simp]:
  "only_type_error (Inr x)" "only_type_error (Inl (TypeError m))"
  "only_type_error (if b then p else q) \<longleftrightarrow> (if b then only_type_error p else only_type_error q)"
  by (simp_all add: only_type_error_def)

lemma only_type_error_and_then [intro]:
  "only_type_error a \<Longrightarrow> only_type_error b \<Longrightarrow> only_type_error (and_then a b)"
  by (auto simp: only_type_error_def and_then_def split: sum.splits)

lemma only_type_error_in_names: "only_type_error (in_names v ns)"
  by (simp add: in_names_def unhashable_error_def)

lemma only_type_error_choice:
  "only_type_error (check_choice fmt pre key v ns)" "only_type_error (validate_status_condition w f op v ns pre)"
  using only_type_error_in_names [of v ns]
  by (auto simp: check_choice_def validate_status_condition_def only_type_error_def split: sum.splits bool.splits if_splits)

lemma only_type_error_branch:
  "only_type_error (validate_branch_condition fmt c pre)" "only_type_error (validate_branch_step fmt d i lm)"
proof -
  show 1: "only_type_error (validate_branch_condition fmt c pre)" for c pre
    using only_type_error_in_names only_type_error_choice(2)
    by (auto simp: validate_branch_condition_def only_type_error_def split: sum.splits bool.splits pyval.splits if_splits)
  show "only_type_error (validate_branch_step fmt d i lm)"
    unfolding validate_branch_step_def Let_def by (intro only_type_error_and_then) (simp_all add: 1)
qed

lemma resolve_action_error:
  "resolve_action_for_playbook a = Inl e \<Longrightarrow> \<exists>m c. e = CanonicalActionValidationError m c"
  by (auto simp: resolve_action_for_playbook_def get_action_spec_def normalize_action_name_def Let_def
      split: sum.splits if_splits option.splits)

lemma only_type_error_step: "only_type_error (validate_step fmt pid lm i step)"
proof -
  have "only_type_error (validate_approval_step fmt d pre)" for d pre
    unfolding validate_approval_step_def
    by (intro only_type_error_and_then) (simp_all add: only_type_error_choice)
  then have known: "only_type_error (validate_known_step fmt pid lm i d a)" for d a
    unfolding validate_known_step_def Let_def
    by (intro only_type_error_and_then) (simp_all add: only_type_error_branch only_type_error_choice)
  show ?thesis
  proof (cases step)
    case (PDict d)
    show ?thesis
    proof (cases "dict_get d ''action''")
      case (PStr raw)
      then show ?thesis
        using known resolve_action_error [of "Some raw"] \<open>step = PDict d\<close>
        by (cases "resolve_action_for_playbook (Some raw)") (auto simp: validate_step_def Let_def)
    qed (simp_all add: validate_step_def Let_def PDict)
  qed (simp_all add: validate_step_def Let_def)
qed

text \<open>The check of a playbook reports problems as a list and raises nothing but a \<open>TypeError\<close>,
  and that it does raise when a field that must be one of several words is a list, as with a
  \<open>risk_level\<close> of \<open>[]\<close>, instead of reporting the field.\<close>

theorem playbook_check_raises_only_type_error:
  "(\<forall>e. validate_playbook_steps fmt steps pid = Inl e \<longrightarrow> (\<exists>m. e = TypeError m)) \<and>
   validate_playbook_steps fmt
     (PList [PDict [(''action'', PStr ''require_approval''), (''risk_level'', PList [])]]) pid =
     Inl (TypeError (''unhashable type: '' @ py_repr ''list''))"
proof
  have "only_type_error (validate_steps_from fmt pid lm n xs)" for lm n xs
    by (induction xs arbitrary: n) (auto intro: only_type_error_step)
  then have "only_type_error (validate_playbook_steps fmt steps pid)"
    by (auto simp: validate_playbook_steps_def split: pyval.splits)
  then show "\<forall>e. validate_playbook_steps fmt steps pid = Inl e \<longrightarrow> (\<exists>m. e = TypeError m)"
    by (simp add: only_type_error_def)
  show "validate_playbook_steps fmt
     (PList [PDict [(''action'', PStr ''require_approval''), (''risk_level'', PList [])]]) pid =
     Inl (TypeError (''unhashable type: '' @ py_repr ''list''))"
    using playbook_action_names(2)
    by (simp add: validate_playbook_steps_def duplicate_labels_def all_labels_def step_label_def dict_get_def
        dict_has_def validate_step_def validate_known_step_def validate_approval_step_def check_choice_def
        in_names_def unhashable_def unhashable_error_def validate_step_label_def KNOWN_PLAYBOOK_ACTIONS_def
        PLAYBOOK_ACTIONS_def and_then_def)
qed

text \<open>The check accepts a step whose action is no name of the playbook vocabulary: it normalises
  the name before it looks it up, while the step is stored with the name as it was written. Here a
  padded approval step that also says to go on after a failure.\<close>

theorem padded_approval_step_accepted:
  "validate_playbook_steps fmt
     (PList [PDict [(''action'', PStr '' require_approval''), (''on_failure'', PStr ''continue'')]]) pid = Inr [] \<and>
   '' require_approval'' \<notin> set KNOWN_PLAYBOOK_ACTIONS"
proof -
  have "resolve_action_for_playbook (Some '' require_approval'') = Inr ''require_approval''" by code_simp
  then show ?thesis
    by (simp add: validate_playbook_steps_def duplicate_labels_def all_labels_def step_label_def dict_get_def
        dict_has_def validate_step_def validate_known_step_def validate_approval_step_def check_choice_def
        in_names_def unhashable_def validate_step_label_def KNOWN_PLAYBOOK_ACTIONS_def PLAYBOOK_ACTIONS_def
        APPROVAL_RISK_LEVELS_def validate_step_param_bindings_def and_then_def)
qed

lemma accepted_approval:
  assumes "validate_playbook_steps fmt (PList steps) pid = Inr []" "i < length steps" "steps ! i = PDict d"
    and "dict_get d ''action'' = PStr ''require_approval''"
  shows "\<exists>rl. (if dict_has d ''risk_level'' then dict_get d ''risk_level'' else PStr ''high'') = PStr rl \<and>
      rl \<in> set APPROVAL_RISK_LEVELS"
    and "dict_has d ''expires_in_minutes'' \<Longrightarrow> \<exists>n. dict_get d ''expires_in_minutes'' = PInt n \<and> 1 \<le> n \<and> n \<le> 10080"
proof -
  have "validate_approval_step fmt d (step_prefix i) = Inr []"
    using accepted_step [OF assms playbook_action_names(2)] by (simp add: validate_known_step_def Let_def)
  then have r: "check_choice fmt (step_prefix i) ''risk_level''
      (if dict_has d ''risk_level'' then dict_get d ''risk_level'' else PStr ''high'') APPROVAL_RISK_LEVELS = Inr []"
    and t: "dict_has d ''expires_in_minutes'' \<Longrightarrow> \<exists>n. dict_get d ''expires_in_minutes'' = PInt n \<and>
      \<not> (n < MIN_APPROVAL_TTL_MINUTES \<or> MAX_APPROVAL_TTL_MINUTES < n)"
    unfolding validate_approval_step_def by (auto split: pyval.splits if_splits)
  show "\<exists>rl. (if dict_has d ''risk_level'' then dict_get d ''risk_level'' else PStr ''high'') = PStr rl \<and>
      rl \<in> set APPROVAL_RISK_LEVELS"
    using r unfolding check_choice_def by (auto simp: in_names_Inr split: sum.splits bool.splits)
  show "\<exists>n. dict_get d ''expires_in_minutes'' = PInt n \<and> 1 \<le> n \<and> n \<le> 10080" if "dict_has d ''expires_in_minutes''"
    using t [OF that] by (auto simp: MIN_APPROVAL_TTL_MINUTES_def MAX_APPROVAL_TTL_MINUTES_def)
qed

subsection \<open>Witnesses\<close>

definition wit_formats :: py_formats where
  "wit_formats = \<lparr>float_repr = (\<lambda>_. ''0.0''), float_parse = (\<lambda>_. None), int_round = of_int,
     time_str = show_int, time_iso = show_int\<rparr>"

definition wit_condition :: items where
  "wit_condition = [(''source'', PStr ''alert''), (''field'', PStr ''severity''), (''op'', PStr ''>=''),
     (''value'', PStr ''high'')]"

definition wit_branch :: items where
  "wit_branch = [(''action'', PStr ''branch''), (''condition'', PDict wit_condition), (''goto_true'', PStr ''stop'')]"

definition wit_playbook :: "pyval list" where
  "wit_playbook =
     [PDict wit_branch, PDict [(''action'', PStr ''monitor'')],
      PDict [(''action'', PStr ''flag_high_priority''), (''label'', PStr ''stop'')]]"

definition wit_alert :: alert where
  "wit_alert = \<lparr>al_id = 1, al_alert_type = Some ''brute_force'', al_severity = Some ''critical'',
     al_source_ip = Some ''203.0.113.9'', al_source = None, al_source_type = None, al_message = None,
     al_status = None, al_country = None, al_city = None, al_latitude = None, al_longitude = None,
     al_reputation_score = Some 80, al_reputation_label = None, al_reputation_source = None,
     al_reputation_summary = None, al_response_action = None, al_response_status = None, al_created_at = Some 0\<rparr>"

lemma wit_valid: "validate_playbook_steps wit_formats (PList wit_playbook) None = Inr []"
  by code_simp

theorem branch_jumps_forward_witness:
  "0 < (2 :: nat) \<and> step_label (wit_playbook ! 2) = Some ''stop''"
proof -
  have "resolve_label_target_index wit_playbook ''stop'' 0 = Some 2" by code_simp
  from branch_jumps_forward [OF this] show ?thesis by simp
qed

theorem saved_branches_resolve_witness:
  "\<exists>l t. dict_get wit_branch ''goto_true'' = PStr l \<and> resolve_label_target_index wit_playbook l 0 = Some t"
proof -
  have 1: "0 < length wit_playbook" "wit_playbook ! 0 = PDict wit_branch" by (simp_all add: wit_playbook_def)
  have 2: "dict_get wit_branch ''action'' = PStr ''branch''" by code_simp
  show ?thesis using saved_branches_resolve [OF wit_valid 1 2] by blast
qed

theorem resolved_params_exact_witness:
  "\<exists>r. resolve_step_params wit_formats [wit_alert] [(''ip'', PStr ''{{alert.source_ip}}'')]
       (new_execution (wit_at 0) (wit_exec_args 1 None) 4) None = Inr r \<and> map fst r = [''ip'']"
proof -
  let ?run = "resolve_step_params wit_formats [wit_alert] [(''ip'', PStr ''{{alert.source_ip}}'')]
       (new_execution (wit_at 0) (wit_exec_args 1 None) 4) None"
  have run: "?run = Inr [(''ip'', PStr ''203.0.113.9'')]" by code_simp
  show ?thesis using resolved_params_exact [OF _ run, of "''ip''" "PStr ''{{alert.source_ip}}''"] run by simp
qed

theorem checked_condition_evaluates_witness:
  "handled (evaluate_branch_condition wit_formats [wit_alert] wit_condition
     (new_execution (wit_at 0) (wit_exec_args 1 None) 4) [])"
proof -
  have v: "validate_branch_condition wit_formats (PDict wit_condition) ''c'' = Inr []" by code_simp
  have "dict_get wit_condition ''value'' = PStr ''high''" by code_simp
  with checked_condition_evaluates [OF v, of "[]"] show ?thesis by simp
qed

theorem playbook_check_raises_only_type_error_witness:
  "\<exists>m. Inl (TypeError m) = validate_playbook_steps wit_formats
     (PList [PDict [(''action'', PStr ''require_approval''), (''risk_level'', PList [])]]) None"
  using playbook_check_raises_only_type_error [of wit_formats PNone None] by metis

end
