(* ===== verification/Playbook_Definitions.thy ===== *)
theory Playbook_Definitions
  imports Playbook_Language
begin

text \<open>
  The \<open>playbook_definitions\<close> half of \<open>core/playbook_store.py\<close> and the matching of alerts against
  triggers in \<open>engines/playbook_engine.py\<close>. Shown here: every stored definition passed the check of
  its steps, a trigger is the conjunction of its clauses, matching returns the enabled matching
  definitions in the order of their ids, and one trigger with which matching silently returns
  nothing for every alert.

  A \<open>JSONB\<close> column holds the value stored in it; the order in which the pairs of an object come
  back is not the order in which they were written, and no statement below depends on it. Ids are
  ordered byte by byte, as in the \<open>C\<close> collation.
\<close>

subsection \<open>The table\<close>

record playbook_definition =
  pd_id :: string
  pd_name :: string
  pd_description :: "string option"
  pd_trigger_config :: pyval
  pd_steps :: pyval
  pd_enabled :: bool
  pd_created_at :: time
  pd_updated_at :: time

type_synonym definition_table = "playbook_definition list"

text \<open>A value for a \<open>VARCHAR(64)\<close> column: too long a text is an error, unless only blanks
  exceed the width, which are cut off.\<close>

definition varchar64 :: "string \<Rightarrow> string result" where
  "varchar64 s =
     (if length s \<le> 64 then Inr s
      else if list_all (\<lambda>c. c = CHR '' '') (drop 64 s) then Inr (take 64 s)
      else Inl (DataError ''value too long for type character varying(64)''))"

definition definition_row_to_dict :: "playbook_definition \<Rightarrow> playbook_definition" where
  "definition_row_to_dict r =
     r\<lparr>pd_trigger_config := (if is_dict (pd_trigger_config r) then pd_trigger_config r else PDict []),
       pd_steps := (if is_list (pd_steps r) then pd_steps r else PList [])\<rparr>"

text \<open>The checks both writers make before they touch the table.\<close>

definition check_definition :: "py_formats \<Rightarrow> string \<Rightarrow> pyval \<Rightarrow> pyval \<Rightarrow> unit result" where
  "check_definition fmt playbook_id trigger_config steps =
     (if \<not> is_dict trigger_config then Inl (ValueError ''trigger_config must be a dict'')
      else case validate_playbook_steps fmt steps (Some playbook_id) of
             Inl e \<Rightarrow> Inl e
           | Inr step_errors \<Rightarrow> if step_errors \<noteq> [] then Inl (ValueError (join ''; '' step_errors)) else Inr ())"

definition update_playbook_definition ::
  "py_formats \<Rightarrow> clock \<Rightarrow> string \<Rightarrow> string \<Rightarrow> string option \<Rightarrow> pyval \<Rightarrow> pyval \<Rightarrow> bool \<Rightarrow>
    (definition_table, playbook_definition option) py" where
  "update_playbook_definition fmt clk playbook_id name descr trigger_config steps enabled t =
     (case check_definition fmt playbook_id trigger_config steps of
        Inl e \<Rightarrow> (Inl e, t)
      | Inr _ \<Rightarrow>
          (let p = (\<lambda>r. pd_id r = playbook_id);
               f = (\<lambda>r. r\<lparr>pd_name := name, pd_description := descr, pd_trigger_config := trigger_config,
                       pd_steps := steps, pd_enabled := enabled, pd_updated_at := sql_now clk\<rparr>)
           in (Inr (map_option definition_row_to_dict (fetchone (returning p f t))), update_where p f t)))"

definition set_playbook_definition_enabled ::
  "clock \<Rightarrow> string \<Rightarrow> bool \<Rightarrow> (definition_table, playbook_definition option) py" where
  "set_playbook_definition_enabled clk playbook_id enabled t =
     (let p = (\<lambda>r. pd_id r = playbook_id);
          f = (\<lambda>r. r\<lparr>pd_enabled := enabled, pd_updated_at := sql_now clk\<rparr>)
      in (Inr (map_option definition_row_to_dict (fetchone (returning p f t))), update_where p f t))"

definition create_playbook_definition ::
  "py_formats \<Rightarrow> clock \<Rightarrow> string \<Rightarrow> string \<Rightarrow> pyval \<Rightarrow> pyval \<Rightarrow> bool \<Rightarrow> string option \<Rightarrow>
    (definition_table, playbook_definition) py" where
  "create_playbook_definition fmt clk playbook_id name steps trigger_config enabled descr t =
     (let tc = (if trigger_config = PNone then PDict [] else trigger_config)
      in case check_definition fmt playbook_id tc steps of
           Inl e \<Rightarrow> (Inl e, t)
         | Inr _ \<Rightarrow>
             (case varchar64 playbook_id of
                Inl e \<Rightarrow> (Inl e, t)
              | Inr i \<Rightarrow>
                  if \<exists>r \<in> set t. pd_id r = i then (Inl (IntegrityError ''playbook_definitions_pkey''), t)
                  else let row = \<lparr>pd_id = i, pd_name = name, pd_description = descr, pd_trigger_config = tc,
                                  pd_steps = steps, pd_enabled = enabled, pd_created_at = sql_now clk,
                                  pd_updated_at = sql_now clk\<rparr>
                       in (Inr (definition_row_to_dict row), t @ [row])))"

definition list_enabled_playbook_definitions :: "definition_table \<Rightarrow> playbook_definition list" where
  "list_enabled_playbook_definitions t = map definition_row_to_dict (order_asc pd_id (filter pd_enabled t))"

definition get_playbook_definition :: "string \<Rightarrow> definition_table \<Rightarrow> playbook_definition option" where
  "get_playbook_definition playbook_id t =
     map_option definition_row_to_dict (fetchone (filter (\<lambda>r. pd_id r = playbook_id) t))"

subsection \<open>Matching\<close>

definition CORRELATED_ALERT_TYPES :: "string list" where
  "CORRELATED_ALERT_TYPES =
     [''correlated_activity'', ''web_to_app_attack_pattern'', ''spray_then_success_pattern'',
      ''cloud_app_error_pattern'', ''azure_auth_abuse_exception_correlation'']"

definition KNOWN_TRIGGER_KEYS :: "string list" where
  "KNOWN_TRIGGER_KEYS =
     [''alert_type'', ''exclude_alert_types'', ''min_severity'', ''source'', ''correlation_flag'',
      ''reputation_score_min'']"

text \<open>The loop over the excluded types: \<open>None\<close> when it returns \<open>False\<close> because of an entry.\<close>

fun normalized_exclusions :: "pyval list \<Rightarrow> string list option" where
  "normalized_exclusions [] = Some []"
| "normalized_exclusions (item # rest) =
     (case item of
        PStr s \<Rightarrow>
          if strip s = [] then None
          else (case normalized_exclusions rest of None \<Rightarrow> None | Some ns \<Rightarrow> Some (lower (strip s) # ns))
      | _ \<Rightarrow> None)"

definition excluded_by_type :: "items \<Rightarrow> alert \<Rightarrow> bool" where
  "excluded_by_type d a =
     (case dict_get d ''exclude_alert_types'' of
        PNone \<Rightarrow> False
      | PList xs \<Rightarrow>
          (case al_alert_type a of
             None \<Rightarrow> False
           | Some alert_type \<Rightarrow>
               (case normalized_exclusions xs of None \<Rightarrow> True | Some ns \<Rightarrow> lower alert_type \<in> set ns))
      | _ \<Rightarrow> True)"

text \<open>One round of the loop: \<open>Inr True\<close> goes on, \<open>Inr False\<close> returns \<open>False\<close>.\<close>

definition trigger_clause :: "py_formats \<Rightarrow> alert \<Rightarrow> string \<Rightarrow> pyval \<Rightarrow> bool result" where
  "trigger_clause fmt a key value =
     (if key \<notin> set KNOWN_TRIGGER_KEYS then Inr True
      else if key = ''alert_type'' then
        Inr (if value = PNone then True
             else (case al_alert_type a of None \<Rightarrow> False | Some atype \<Rightarrow> lower atype = lower (str_val fmt value)))
      else if key = ''min_severity'' then
        Inr (if value = PNone then False
             else (case (SEVERITY_RANK (lower (str_val fmt value)), al_severity a) of
                     (Some want, Some sev) \<Rightarrow>
                       (case SEVERITY_RANK (lower sev) of None \<Rightarrow> False | Some have \<Rightarrow> \<not> have < want)
                   | _ \<Rightarrow> False))
      else if key = ''source'' then
        Inr ((case al_source a of None \<Rightarrow> [] | Some s \<Rightarrow> lower s) =
             (if value = PNone then [] else lower (str_val fmt value)))
      else if key = ''correlation_flag'' then
        Inr (case value of
               PBool flag \<Rightarrow>
                 (case al_alert_type a of None \<Rightarrow> False | Some atype \<Rightarrow> flag = (atype \<in> set CORRELATED_ALERT_TYPES))
             | _ \<Rightarrow> True)
      else if key = ''reputation_score_min'' then
        (case py_float fmt value of
           Inl (TypeError _) \<Rightarrow> Inr False
         | Inl (ValueError _) \<Rightarrow> Inr False
         | Inl e \<Rightarrow> Inl e
         | Inr minimum \<Rightarrow>
             Inr (\<not> float_less (Fin (case al_reputation_score a of None \<Rightarrow> 0 | Some n \<Rightarrow> of_int n)) minimum))
      else Inr True)"

fun trigger_loop :: "py_formats \<Rightarrow> alert \<Rightarrow> items \<Rightarrow> bool result" where
  "trigger_loop fmt a [] = Inr True"
| "trigger_loop fmt a ((key, value) # rest) =
     (case trigger_clause fmt a key value of
        Inl e \<Rightarrow> Inl e
      | Inr False \<Rightarrow> Inr False
      | Inr True \<Rightarrow> trigger_loop fmt a rest)"

definition evaluate_trigger :: "py_formats \<Rightarrow> pyval \<Rightarrow> alert \<Rightarrow> bool result" where
  "evaluate_trigger fmt trigger_config a =
     (case trigger_config of
        PDict d \<Rightarrow> if excluded_by_type d a then Inr False else trigger_loop fmt a d
      | _ \<Rightarrow> Inr False)"

definition effective_trigger :: "playbook_definition \<Rightarrow> pyval" where
  "effective_trigger r = (if is_dict (pd_trigger_config r) then pd_trigger_config r else PDict [])"

fun match_loop :: "py_formats \<Rightarrow> alert \<Rightarrow> playbook_definition list \<Rightarrow> playbook_definition list result" where
  "match_loop fmt a [] = Inr []"
| "match_loop fmt a (r # rs) =
     (case evaluate_trigger fmt (effective_trigger r) a of
        Inl e \<Rightarrow> Inl e
      | Inr b \<Rightarrow>
          (case match_loop fmt a rs of
             Inl e \<Rightarrow> Inl e
           | Inr matched \<Rightarrow> Inr (if b then r # matched else matched)))"

definition match_playbooks ::
  "py_formats \<Rightarrow> alert list \<Rightarrow> row_id \<Rightarrow> definition_table \<Rightarrow> playbook_definition list" where
  "match_playbooks fmt alerts alert_id t =
     (case fetch_alert alert_id alerts of
        None \<Rightarrow> []
      | Some a \<Rightarrow>
          (case match_loop fmt a (list_enabled_playbook_definitions t) of
             Inl _ \<Rightarrow> []
           | Inr matched \<Rightarrow> matched))"

subsection \<open>Lemmas: the table\<close>

inductive definition_op :: "py_formats \<Rightarrow> definition_table \<Rightarrow> definition_table \<Rightarrow> bool" for fmt where
  create: "definition_op fmt t (snd (create_playbook_definition fmt clk pid name steps tc en descr t))"
| update: "definition_op fmt t (snd (update_playbook_definition fmt clk pid name descr tc steps en t))"
| enable: "definition_op fmt t (snd (set_playbook_definition_enabled clk pid en t))"

text \<open>The steps passed the check under the id the definition was saved with.\<close>

definition definition_ok :: "py_formats \<Rightarrow> playbook_definition \<Rightarrow> bool" where
  "definition_ok fmt r \<longleftrightarrow>
     is_dict (pd_trigger_config r) \<and> is_list (pd_steps r) \<and>
     (\<exists>pid. varchar64 pid = Inr (pd_id r) \<and> validate_playbook_steps fmt (pd_steps r) (Some pid) = Inr [])"

definition definitions_inv :: "py_formats \<Rightarrow> definition_table \<Rightarrow> bool" where
  "definitions_inv fmt t \<longleftrightarrow> distinct (map pd_id t) \<and> (\<forall>r \<in> set t. definition_ok fmt r)"

definition definitions_kept :: "definition_table \<Rightarrow> definition_table \<Rightarrow> bool" where
  "definitions_kept t t' \<longleftrightarrow>
     (\<exists>new. map (\<lambda>r. (pd_id r, pd_created_at r)) t' = map (\<lambda>r. (pd_id r, pd_created_at r)) t @ new)"

lemma check_definition_ok:
  "check_definition fmt pid tc steps = Inr u \<longleftrightarrow>
     is_dict tc \<and> validate_playbook_steps fmt steps (Some pid) = Inr []"
  by (auto simp: check_definition_def split: sum.splits)

lemma valid_steps_list: "validate_playbook_steps fmt steps pid = Inr [] \<Longrightarrow> is_list steps"
  by (cases steps) (auto simp: validate_playbook_steps_def)

lemma varchar64_id: "varchar64 s = Inr i \<Longrightarrow> length i \<le> 64 \<and> varchar64 i = Inr i"
  by (auto simp: varchar64_def split: if_splits)

lemma update_where_definitions:
  assumes "definitions_inv fmt t"
    and "\<And>r. r \<in> set t \<Longrightarrow> p r \<Longrightarrow>
      pd_id (f r) = pd_id r \<and> pd_created_at (f r) = pd_created_at r \<and> definition_ok fmt (f r)"
  shows "definitions_inv fmt (update_where p f t) \<and> definitions_kept t (update_where p f t)"
proof -
  have "map (\<lambda>r. (pd_id r, pd_created_at r)) (update_where p f t) = map (\<lambda>r. (pd_id r, pd_created_at r)) t"
    using assms(2) by (intro map_update_where) auto
  moreover have "map pd_id (update_where p f t) = map pd_id t"
    using assms(2) by (intro map_update_where) auto
  ultimately show ?thesis
    using assms by (auto simp: definitions_inv_def definitions_kept_def set_update_where)
qed

lemma definition_op_safe:
  assumes "definition_op fmt t t'" "definitions_inv fmt t"
  shows "definitions_inv fmt t' \<and> definitions_kept t t'"
  using assms
proof (cases rule: definition_op.cases)
  case (create clk pid name steps tc en descr)
  then show ?thesis using assms(2)
    by (auto simp: create_playbook_definition_def Let_def definitions_inv_def definitions_kept_def
        definition_ok_def check_definition_ok valid_steps_list split: sum.splits)
next
  case (update clk pid name descr tc steps en)
  have "definition_ok fmt (r\<lparr>pd_name := name, pd_description := descr, pd_trigger_config := tc, pd_steps := steps,
      pd_enabled := en, pd_updated_at := sql_now clk\<rparr>)"
    if "check_definition fmt pid tc steps = Inr u" "r \<in> set t" "pd_id r = pid" for r u
  proof -
    have "definition_ok fmt r" using assms(2) that(2) by (simp add: definitions_inv_def)
    then have "varchar64 pid = Inr pid" using that(3) varchar64_id by (auto simp: definition_ok_def)
    then show ?thesis using that by (auto simp: definition_ok_def check_definition_ok valid_steps_list)
  qed
  then show ?thesis unfolding update update_playbook_definition_def
    using assms(2)
    by (auto simp: Let_def definitions_kept_def split: sum.splits intro!: update_where_definitions [THEN conjunct1]
        update_where_definitions [THEN conjunct2, unfolded definitions_kept_def])
next
  case (enable clk pid en)
  have "definition_ok fmt (r\<lparr>pd_enabled := en, pd_updated_at := sql_now clk\<rparr>)" if "r \<in> set t" for r
    using that assms(2) by (simp add: definitions_inv_def definition_ok_def)
  then show ?thesis unfolding enable set_playbook_definition_enabled_def Let_def snd_conv
    by (intro update_where_definitions [OF assms(2)]) auto
qed

interpretation definition_ops: store_ops "definition_op fmt" "definitions_inv fmt" definitions_kept for fmt
proof unfold_locales
  show "definition_op fmt t t' \<Longrightarrow> definitions_inv fmt t \<Longrightarrow> definitions_inv fmt t'"
    and "definition_op fmt t t' \<Longrightarrow> definitions_inv fmt t \<Longrightarrow> definitions_kept t t'" for t t'
    using definition_op_safe by blast+
  show "definitions_kept t t" for t by (simp add: definitions_kept_def)
  show "definitions_kept t t' \<Longrightarrow> definitions_kept t' t'' \<Longrightarrow> definitions_kept t t''" for t t' t''
    by (auto simp: definitions_kept_def)
qed

lemma definitions_inv_Nil [simp]: "definitions_inv fmt []"
  by (simp add: definitions_inv_def)

lemma get_definition_Some:
  assumes "get_playbook_definition pid t = Some d"
  shows "\<exists>r \<in> set t. pd_id r = pid \<and> d = definition_row_to_dict r"
  using assms by (auto simp: get_playbook_definition_def dest!: fetchone_mem)

lemma row_to_dict_ok: "definition_ok fmt r \<Longrightarrow> definition_row_to_dict r = r"
  by (simp add: definition_ok_def definition_row_to_dict_def)

subsection \<open>Lemmas: matching\<close>

lemma trigger_loop_conj:
  assumes "\<forall>(k, v) \<in> set d. \<exists>b. trigger_clause fmt a k v = Inr b"
  shows "trigger_loop fmt a d = Inr (\<forall>(k, v) \<in> set d. trigger_clause fmt a k v = Inr True)"
  using assms
proof (induction d)
  case (Cons kv d)
  obtain k v where kv: "kv = (k, v)" by (cases kv)
  with Cons.prems obtain b where "trigger_clause fmt a k v = Inr b" by auto
  then show ?case using Cons by (cases b) (auto simp: kv)
qed simp

lemma excluded_by_type_iff:
  "\<not> excluded_by_type d a \<longleftrightarrow>
     dict_get d ''exclude_alert_types'' = PNone \<or>
     (\<exists>xs. dict_get d ''exclude_alert_types'' = PList xs \<and>
        (\<forall>atype x. al_alert_type a = Some atype \<and> x \<in> set xs \<longrightarrow>
           (\<exists>s. x = PStr s \<and> strip s \<noteq> [] \<and> lower (strip s) \<noteq> lower atype)))"
proof -
  have n: "(\<exists>ns. normalized_exclusions xs = Some ns \<and> w \<notin> set ns) \<longleftrightarrow>
      (\<forall>x \<in> set xs. \<exists>s. x = PStr s \<and> strip s \<noteq> [] \<and> lower (strip s) \<noteq> w)" for xs w
    by (induction xs) (auto split: pyval.splits option.splits)
  have "(case normalized_exclusions xs of None \<Rightarrow> True | Some ns \<Rightarrow> w \<in> set ns) \<longleftrightarrow>
      \<not> (\<forall>x \<in> set xs. \<exists>s. x = PStr s \<and> strip s \<noteq> [] \<and> lower (strip s) \<noteq> w)" for xs w
    unfolding n [symmetric] by (cases "normalized_exclusions xs") simp_all
  then show ?thesis unfolding excluded_by_type_def
    by (auto split: pyval.splits option.splits)
qed

lemma clause_known:
  "trigger_clause fmt a k v = Inr True \<longleftrightarrow>
     (k = ''alert_type'' \<longrightarrow>
        v = PNone \<or> (\<exists>atype. al_alert_type a = Some atype \<and> lower atype = lower (str_val fmt v))) \<and>
     (k = ''min_severity'' \<longrightarrow>
        v \<noteq> PNone \<and> (\<exists>want sev have. SEVERITY_RANK (lower (str_val fmt v)) = Some want \<and> al_severity a = Some sev \<and>
           SEVERITY_RANK (lower sev) = Some have \<and> want \<le> have)) \<and>
     (k = ''source'' \<longrightarrow>
        (case al_source a of None \<Rightarrow> [] | Some x \<Rightarrow> lower x) = (if v = PNone then [] else lower (str_val fmt v))) \<and>
     (k = ''correlation_flag'' \<longrightarrow>
        (\<forall>flag. v = PBool flag \<longrightarrow>
           (\<exists>atype. al_alert_type a = Some atype \<and> flag = (atype \<in> set CORRELATED_ALERT_TYPES)))) \<and>
     (k = ''reputation_score_min'' \<longrightarrow>
        (\<exists>m. py_float fmt v = Inr m \<and>
           \<not> float_less (Fin (case al_reputation_score a of None \<Rightarrow> 0 | Some n \<Rightarrow> of_int n)) m))"
proof -
  consider "k = ''alert_type''" | "k = ''min_severity''" | "k = ''source''" | "k = ''correlation_flag''"
    | "k = ''reputation_score_min''"
    | "k \<noteq> ''alert_type'' \<and> k \<noteq> ''min_severity'' \<and> k \<noteq> ''source'' \<and> k \<noteq> ''correlation_flag'' \<and>
       k \<noteq> ''reputation_score_min''" by argo
  then show ?thesis
  proof cases
    case 1
    then show ?thesis by (simp add: trigger_clause_def KNOWN_TRIGGER_KEYS_def split: option.split)
  next
    case 2
    then show ?thesis
      by (cases "SEVERITY_RANK (lower (str_val fmt v))"; cases "al_severity a")
        (simp_all add: trigger_clause_def KNOWN_TRIGGER_KEYS_def not_less split: option.split)
  next
    case 3
    then show ?thesis by (simp add: trigger_clause_def KNOWN_TRIGGER_KEYS_def)
  next
    case 4
    then show ?thesis
      by (cases v) (simp_all add: trigger_clause_def KNOWN_TRIGGER_KEYS_def split: option.split)
  next
    case 5
    then show ?thesis
      by (cases "py_float fmt v") (simp_all add: trigger_clause_def KNOWN_TRIGGER_KEYS_def split: py_error.split)
  next
    case 6
    then show ?thesis by (simp add: trigger_clause_def)
  qed
qed

lemma clauses_by_key:
  "(\<forall>k v. m k = Some v \<longrightarrow>
      (k = k1 \<longrightarrow> P1 v) \<and> (k = k2 \<longrightarrow> P2 v) \<and> (k = k3 \<longrightarrow> P3 v) \<and>
      (k = k4 \<longrightarrow> (\<forall>flag. v = PBool flag \<longrightarrow> P4 flag)) \<and> (k = k5 \<longrightarrow> P5 v)) \<longleftrightarrow>
   (\<forall>v. m k1 = Some v \<longrightarrow> P1 v) \<and> (\<forall>v. m k2 = Some v \<longrightarrow> P2 v) \<and> (\<forall>v. m k3 = Some v \<longrightarrow> P3 v) \<and>
   (\<forall>flag. m k4 = Some (PBool flag) \<longrightarrow> P4 flag) \<and> (\<forall>v. m k5 = Some v \<longrightarrow> P5 v)"
  by blast

lemma float_error:
  "py_float fmt v = Inl e \<Longrightarrow>
     (\<exists>m. e = TypeError m) \<or> (\<exists>m. e = ValueError m) \<or>
     (\<exists>i. v = PInt i \<and> \<not> float_range i \<and> e = OverflowError ''int too large to convert to float'')"
  by (auto simp: py_float_def split: pyval.splits option.splits if_splits)

lemma clause_raises:
  assumes "trigger_clause fmt a k v = Inl e"
  shows "k = ''reputation_score_min'' \<and> (\<exists>i. v = PInt i \<and> \<not> float_range i)"
  using assms by (auto simp: trigger_clause_def split: if_splits sum.splits py_error.splits dest!: float_error)

lemma match_loop_filter:
  assumes "\<forall>r \<in> set rs. \<exists>b. evaluate_trigger fmt (effective_trigger r) a = Inr b"
  shows "match_loop fmt a rs = Inr (filter (\<lambda>r. evaluate_trigger fmt (effective_trigger r) a = Inr True) rs)"
  using assms by (induction rs) auto

lemma match_loop_raises:
  assumes "r \<in> set rs" "evaluate_trigger fmt (effective_trigger r) a = Inl e"
  shows "\<exists>e'. match_loop fmt a rs = Inl e'"
  using assms by (induction rs) (auto split: sum.splits)

lemma effective_row_to_dict [simp]: "effective_trigger (definition_row_to_dict r) = effective_trigger r"
  by (simp add: effective_trigger_def definition_row_to_dict_def)

lemma set_list_enabled:
  "set (list_enabled_playbook_definitions t) = definition_row_to_dict ` {r \<in> set t. pd_enabled r}"
  by (auto simp: list_enabled_playbook_definitions_def)

subsection \<open>Properties\<close>

text \<open>C34: Whatever definitions are created, updated or switched on and off, ids stay distinct and at
  most 64 characters long, no definition disappears, and every definition the store returns has a
  trigger that is an object and a list of steps that passed the check under the id it was saved
  with. In particular a failed create or update leaves nothing behind.\<close>

theorem stored_definitions_checked:
  assumes "(definition_op fmt)\<^sup>*\<^sup>* [] t" "(definition_op fmt)\<^sup>*\<^sup>* t t'"
    and "get_playbook_definition playbook_id t = Some d"
  shows "distinct (map pd_id t) \<and> pd_id d = playbook_id \<and> length playbook_id \<le> 64 \<and>
    (\<exists>tc steps pid. pd_trigger_config d = PDict tc \<and> pd_steps d = PList steps \<and>
       varchar64 pid = Inr playbook_id \<and> validate_playbook_steps fmt (PList steps) (Some pid) = Inr []) \<and>
    (\<exists>d'. get_playbook_definition playbook_id t' = Some d' \<and> pd_created_at d' = pd_created_at d)"
proof -
  have inv: "definitions_inv fmt t" using assms(1) by (rule definition_ops.ops_inv) simp
  have inv': "definitions_inv fmt t'" and kept: "definitions_kept t t'"
    using definition_ops.ops_safe [OF assms(2) inv] by auto
  obtain r where r: "r \<in> set t" "pd_id r = playbook_id" "d = definition_row_to_dict r"
    using get_definition_Some [OF assms(3)] by blast
  have ok: "definition_ok fmt r" using inv r(1) by (simp add: definitions_inv_def)
  then have d: "d = r" using r(3) row_to_dict_ok by simp
  obtain new where "map (\<lambda>r. (pd_id r, pd_created_at r)) t' = map (\<lambda>r. (pd_id r, pd_created_at r)) t @ new"
    using kept by (auto simp: definitions_kept_def)
  from arg_cong [OF this, of set] have "(pd_id r, pd_created_at r) \<in> (\<lambda>r. (pd_id r, pd_created_at r)) ` set t'"
    using r(1) by auto
  then obtain r' where r': "r' \<in> set t'" "pd_id r' = pd_id r" "pd_created_at r' = pd_created_at r" by auto
  have "filter (\<lambda>x. pd_id x = pd_id r') t' = [r']"
    using inv' r'(1) by (intro distinct_key_filter) (simp_all add: definitions_inv_def)
  moreover have "definition_row_to_dict r' = r'"
    using inv' r'(1) row_to_dict_ok by (auto simp: definitions_inv_def)
  ultimately have "get_playbook_definition playbook_id t' = Some r'"
    using r(2) r'(2) by (simp add: get_playbook_definition_def fetchone_def)
  moreover have "\<exists>tc steps pid. pd_trigger_config d = PDict tc \<and> pd_steps d = PList steps \<and>
       varchar64 pid = Inr playbook_id \<and> validate_playbook_steps fmt (PList steps) (Some pid) = Inr []"
    using ok r(2) unfolding d definition_ok_def by (cases "pd_trigger_config r"; cases "pd_steps r") auto
  ultimately show ?thesis using inv r(2) r' varchar64_id by (auto simp: definitions_inv_def d)
qed

text \<open>A trigger is the conjunction of its clauses: the alert's type is none of the excluded types
  (which have to be non-blank strings), and each of the other five keys that is present holds. Keys
  it does not know and the order of the keys have no influence, and nothing raises, as long as an
  integer given as the lowest reputation score fits a float.\<close>

theorem trigger_is_conjunction:
  assumes "distinct (map fst d)" "\<forall>i. dict_get d ''reputation_score_min'' = PInt i \<longrightarrow> float_range i"
  shows "evaluate_trigger fmt (PDict d) a = Inr
    ((dict_get d ''exclude_alert_types'' = PNone \<or>
      (\<exists>xs. dict_get d ''exclude_alert_types'' = PList xs \<and>
        (\<forall>atype x. al_alert_type a = Some atype \<and> x \<in> set xs \<longrightarrow>
           (\<exists>s. x = PStr s \<and> strip s \<noteq> [] \<and> lower (strip s) \<noteq> lower atype)))) \<and>
     (\<forall>v. map_of d ''alert_type'' = Some v \<longrightarrow>
        v = PNone \<or> (\<exists>atype. al_alert_type a = Some atype \<and> lower atype = lower (str_val fmt v))) \<and>
     (\<forall>v. map_of d ''min_severity'' = Some v \<longrightarrow>
        v \<noteq> PNone \<and> (\<exists>want sev have. SEVERITY_RANK (lower (str_val fmt v)) = Some want \<and> al_severity a = Some sev \<and>
           SEVERITY_RANK (lower sev) = Some have \<and> want \<le> have)) \<and>
     (\<forall>v. map_of d ''source'' = Some v \<longrightarrow>
        (case al_source a of None \<Rightarrow> [] | Some x \<Rightarrow> lower x) = (if v = PNone then [] else lower (str_val fmt v))) \<and>
     (\<forall>flag. map_of d ''correlation_flag'' = Some (PBool flag) \<longrightarrow>
        (\<exists>atype. al_alert_type a = Some atype \<and> flag = (atype \<in> set CORRELATED_ALERT_TYPES))) \<and>
     (\<forall>v. map_of d ''reputation_score_min'' = Some v \<longrightarrow>
        (\<exists>m. py_float fmt v = Inr m \<and>
           \<not> float_less (Fin (case al_reputation_score a of None \<Rightarrow> 0 | Some n \<Rightarrow> of_int n)) m)))"
proof -
  have mem: "(k, v) \<in> set d \<longleftrightarrow> map_of d k = Some v" for k v
    using assms(1) by (metis map_of_SomeD map_of_is_SomeI)
  have "\<forall>(k, v) \<in> set d. \<exists>b. trigger_clause fmt a k v = Inr b"
  proof clarify
    fix k v assume kv: "(k, v) \<in> set d"
    show "\<exists>b. trigger_clause fmt a k v = Inr b"
    proof (cases "trigger_clause fmt a k v")
      case (Inl e)
      from clause_raises [OF this] kv assms(2) show ?thesis by (auto simp: mem dict_get_def)
    qed simp
  qed
  from trigger_loop_conj [OF this]
  have loop: "trigger_loop fmt a d = Inr (\<forall>k v. map_of d k = Some v \<longrightarrow> trigger_clause fmt a k v = Inr True)"
    using mem by fastforce
  show ?thesis
    unfolding excluded_by_type_iff [symmetric] evaluate_trigger_def pyval.case loop clause_known clauses_by_key
    by (cases "excluded_by_type d a") (simp_all only: if_True if_False simp_thms)
qed

text \<open>Matching an alert returns exactly the enabled definitions whose trigger holds for it, in the
  order of their ids, and writes nothing; for an unknown alert it returns nothing.\<close>

theorem match_returns_matching_definitions:
  assumes "\<forall>r \<in> set t. pd_enabled r \<longrightarrow> (\<exists>b. evaluate_trigger fmt (effective_trigger r) a = Inr b)"
  shows "fetch_alert alert_id alerts = Some a \<Longrightarrow>
      set (match_playbooks fmt alerts alert_id t) =
        definition_row_to_dict `
          {r \<in> set t. pd_enabled r \<and> evaluate_trigger fmt (effective_trigger r) a = Inr True} \<and>
      sorted (map pd_id (match_playbooks fmt alerts alert_id t))"
proof -
  assume a: "fetch_alert alert_id alerts = Some a"
  let ?p = "\<lambda>r. evaluate_trigger fmt (effective_trigger r) a = Inr True"
  have ids: "map pd_id (map definition_row_to_dict rs) = map pd_id rs" for rs
    by (simp add: definition_row_to_dict_def)
  have m: "match_playbooks fmt alerts alert_id t = filter ?p (list_enabled_playbook_definitions t)"
    using assms by (simp add: match_playbooks_def a match_loop_filter set_list_enabled)
  have "sorted (map pd_id (list_enabled_playbook_definitions t))"
    unfolding list_enabled_playbook_definitions_def order_asc_def ids by simp
  then have "sorted (map pd_id (filter ?p (list_enabled_playbook_definitions t)))"
    by (rule sorted_filter)
  then show ?thesis by (auto simp: m set_list_enabled)
qed

text \<open>The store accepts a trigger whose lowest reputation score is an integer too large for a
  float. Evaluating it raises an exception that the evaluation does not catch, and matching answers
  every exception with an empty list: while such a definition is enabled, no playbook matches any
  alert.\<close>

theorem oversized_score_stops_matching:
  assumes "r \<in> set t" "pd_enabled r" "pd_trigger_config r = PDict [(''reputation_score_min'', PInt i)]"
    and "\<not> float_range i"
  shows "match_playbooks fmt alerts alert_id t = []"
proof (cases "fetch_alert alert_id alerts")
  case (Some a)
  have big: "\<not> \<bar>i\<bar> \<le> 2 ^ 53" using assms(4) by (auto simp: float_range_def)
  have "evaluate_trigger fmt (effective_trigger r) a = Inl (OverflowError ''int too large to convert to float'')"
    using assms(3,4) big by (simp add: evaluate_trigger_def effective_trigger_def excluded_by_type_def dict_get_def
        trigger_clause_def KNOWN_TRIGGER_KEYS_def py_float_def)
  then have "evaluate_trigger fmt (effective_trigger (definition_row_to_dict r)) a =
      Inl (OverflowError ''int too large to convert to float'')" by simp
  moreover have "definition_row_to_dict r \<in> set (list_enabled_playbook_definitions t)"
    using assms(1,2) by (auto simp: set_list_enabled)
  ultimately obtain e where "match_loop fmt a (list_enabled_playbook_definitions t) = Inl e"
    using match_loop_raises by blast
  then show ?thesis by (simp add: match_playbooks_def Some)
qed (simp add: match_playbooks_def)

subsection \<open>Witnesses\<close>

definition wit_definition :: "pyval \<Rightarrow> playbook_definition" where
  "wit_definition tc = \<lparr>pd_id = ''pb-1'', pd_name = ''Contain'', pd_description = None, pd_trigger_config = tc,
     pd_steps = PList wit_playbook, pd_enabled = True, pd_created_at = 0, pd_updated_at = 0\<rparr>"

definition wit_trigger :: items where
  "wit_trigger = [(''alert_type'', PStr ''Brute_Force''), (''min_severity'', PStr ''high''),
     (''reputation_score_min'', PInt 50), (''unknown'', PInt 1)]"

lemma wit_definition_op: "definition_op wit_formats [] [wit_definition (PDict wit_trigger)]"
proof -
  have "snd (create_playbook_definition wit_formats (wit_at 0) ''pb-1'' ''Contain'' (PList wit_playbook)
      (PDict wit_trigger) True None []) = [wit_definition (PDict wit_trigger)]" by code_simp
  with definition_op.create [of wit_formats "[]" "wit_at 0" "''pb-1''" "''Contain''" "PList wit_playbook"
      "PDict wit_trigger" True None] show ?thesis by metis
qed

theorem stored_definitions_checked_witness:
  "\<exists>d. get_playbook_definition ''pb-1'' [wit_definition (PDict wit_trigger)] = Some d \<and>
     length (pd_id d) \<le> 64 \<and> is_list (pd_steps d)"
proof -
  let ?t = "[wit_definition (PDict wit_trigger)]"
  have g: "get_playbook_definition ''pb-1'' ?t = Some (wit_definition (PDict wit_trigger))" by code_simp
  from stored_definitions_checked [OF r_into_rtranclp [of "definition_op wit_formats", OF wit_definition_op] rtranclp.rtrancl_refl g]
  obtain steps where "pd_id (wit_definition (PDict wit_trigger)) = ''pb-1''" "length ''pb-1'' \<le> 64"
    "pd_steps (wit_definition (PDict wit_trigger)) = PList steps" by blast
  then show ?thesis using g by simp
qed

theorem trigger_is_conjunction_witness:
  "evaluate_trigger wit_formats (PDict wit_trigger) wit_alert = Inr True"
proof -
  have 1: "distinct (map fst wit_trigger)" by code_simp
  have 2: "dict_get wit_trigger ''reputation_score_min'' = PInt 50" by code_simp
  then have 3: "\<forall>i. dict_get wit_trigger ''reputation_score_min'' = PInt i \<longrightarrow> float_range i"
    by (simp add: float_range_def)
  obtain b where b: "evaluate_trigger wit_formats (PDict wit_trigger) wit_alert = Inr b"
    using trigger_is_conjunction [OF 1 3, of wit_formats wit_alert] by blast
  moreover have "evaluate_trigger wit_formats (PDict wit_trigger) wit_alert = Inr True" by code_simp
  ultimately show ?thesis by simp
qed

theorem match_returns_matching_definitions_witness:
  "sorted (map pd_id (match_playbooks wit_formats [wit_alert] 1 [wit_definition (PDict wit_trigger)])) \<and>
   set (match_playbooks wit_formats [wit_alert] 1 [wit_definition (PDict wit_trigger)]) =
     {wit_definition (PDict wit_trigger)}"
proof -
  let ?r = "wit_definition (PDict wit_trigger)"
  have e: "evaluate_trigger wit_formats (effective_trigger ?r) wit_alert = Inr True" by code_simp
  have f: "fetch_alert 1 [wit_alert] = Some wit_alert" by code_simp
  have d: "definition_row_to_dict ?r = ?r" and en: "pd_enabled ?r"
    by (simp_all add: wit_definition_def definition_row_to_dict_def)
  have all: "\<forall>r \<in> set [?r]. pd_enabled r \<longrightarrow> (\<exists>b. evaluate_trigger wit_formats (effective_trigger r) wit_alert = Inr b)"
    using e by auto
  have "{r \<in> set [?r]. pd_enabled r \<and> evaluate_trigger wit_formats (effective_trigger r) wit_alert = Inr True} = {?r}"
    using e en by auto
  with match_returns_matching_definitions [OF all f] d show ?thesis by simp
qed

theorem oversized_score_stops_matching_witness:
  "match_playbooks wit_formats [wit_alert] 1
     [wit_definition (PDict [(''reputation_score_min'', PInt (2 ^ 1024))]), wit_definition (PDict wit_trigger)] = [] \<and>
   is_dict (PDict [(''reputation_score_min'', PInt (2 ^ 1024))])"
  using oversized_score_stops_matching
    [of "wit_definition (PDict [(''reputation_score_min'', PInt (2 ^ 1024))])"
      "[wit_definition (PDict [(''reputation_score_min'', PInt (2 ^ 1024))]), wit_definition (PDict wit_trigger)]" "2 ^ 1024"
      wit_formats "[wit_alert]" 1]
  by (simp add: wit_definition_def float_range_def)

end
