(* ===== verification/Playbook_Pack.thy ===== *)
theory Playbook_Pack
  imports Playbook_Definitions
begin

text \<open>
  The core playbook pack of \<open>core/core_playbook_pack_v1.py\<close>: its eighteen playbooks as data, the
  check of the pack and the seeding of the store. Shown here: every playbook of the pack passes the
  check of the registry, one that blocks an address has asked for an approval before, and seeding
  adds exactly the playbooks that are missing, leaves the others alone and is idempotent.
\<close>

subsection \<open>The playbooks\<close>

record pack_item =
  pi_id :: string
  pi_name :: string
  pi_description :: string
  pi_trigger_config :: pyval
  pi_steps :: pyval

text \<open>The dash of the reasons, as its three UTF-8 bytes; nothing inspects it.\<close>

definition em_dash :: string where
  "em_dash = map char_of [226, 128, 148 :: nat]"

definition core_v1_brute_force_containment :: pack_item where
  "core_v1_brute_force_containment =
     \<lparr>pi_id = ''core-v1-brute-force-containment'',
      pi_name = ''Brute Force Containment'',
      pi_description =
        ''Escalate sustained failed-login patterns with enriched context and approval-gated IP '' @
        ''containment.'',
      pi_trigger_config =
        PDict [(''alert_type'', PStr ''failed_login_threshold''), (''min_severity'', PStr ''high'')],
      pi_steps =
        PList
          [PDict [(''action'', PStr ''flag_high_priority'')],
           PDict [(''action'', PStr ''enrich_context'')],
           PDict
             [(''action'', PStr ''require_approval''),
              (''risk_level'', PStr ''high''),
              (''expires_in_minutes'', PInt 30),
              (''reason'', PStr (''Sustained failed-login pattern '' @ em_dash @ '' approve IP block''))],
           PDict
             [(''action'', PStr ''block_ip''),
              (''params'', PDict [(''source_ip'', PStr ''{{alert.source_ip}}'')])]]\<rparr>"

definition core_v1_password_spray_investigation :: pack_item where
  "core_v1_password_spray_investigation =
     \<lparr>pi_id = ''core-v1-password-spray-investigation'',
      pi_name = ''Password Spray Investigation'',
      pi_description =
        ''Investigate password-spray activity with enriched alert context and no automatic '' @
        ''blocking.'',
      pi_trigger_config =
        PDict [(''alert_type'', PStr ''password_spraying_threshold'')],
      pi_steps =
        PList
          [PDict [(''action'', PStr ''enrich_context'')],
           PDict [(''action'', PStr ''monitor'')]]\<rparr>"

definition core_v1_spray_success_response :: pack_item where
  "core_v1_spray_success_response =
     \<lparr>pi_id = ''core-v1-spray-success-response'',
      pi_name = ''Password Spray Compromise Containment'',
      pi_description =
        ''Contain likely account compromise after password spraying using enriched context and '' @
        ''approval-gated IP blocking.'',
      pi_trigger_config =
        PDict
          [(''alert_type'', PStr ''successful_login_after_spray''),
           (''min_severity'', PStr ''critical'')],
      pi_steps =
        PList
          [PDict [(''action'', PStr ''flag_high_priority'')],
           PDict [(''action'', PStr ''enrich_context'')],
           PDict
             [(''action'', PStr ''require_approval''),
              (''risk_level'', PStr ''critical''),
              (''expires_in_minutes'', PInt 15),
              (''reason'', PStr (''Successful login following password-spray '' @ em_dash @
                '' near-certain compromise, approve IP block''))],
           PDict
             [(''action'', PStr ''block_ip''),
              (''params'', PDict [(''source_ip'', PStr ''{{alert.source_ip}}'')])],
           PDict
             [(''action'', PStr ''notify_slack''),
              (''params'', PDict
                 [(''purpose'', PStr ''containment_outcome''),
                  (''message'', PStr ''Containment outcome: approval completed and IP block requested.'')])],
           PDict
             [(''action'', PStr ''notify_email''),
              (''params'', PDict
                 [(''subject'', PStr ''{{alert.alert_type}}''),
                  (''message'', PStr ''{{alert.message}}'')])]]\<rparr>"

definition core_v1_malicious_ip_containment :: pack_item where
  "core_v1_malicious_ip_containment =
     \<lparr>pi_id = ''core-v1-malicious-ip-containment'',
      pi_name = ''Malicious IP Containment'',
      pi_description =
        ''Approval-gated containment for medium-or-higher alerts from high-reputation-risk source '' @
        ''IPs, with enriched context.'',
      pi_trigger_config =
        PDict
          [(''reputation_score_min'', PInt 80),
           (''min_severity'', PStr ''medium''),
           (''exclude_alert_types'', PList
              [PStr ''pfsense_firewall_port_scan'',
               PStr ''pfsense_firewall_repeated_deny'',
               PStr ''pfsense_firewall_suspicious_allow''])],
      pi_steps =
        PList
          [PDict [(''action'', PStr ''flag_high_priority'')],
           PDict [(''action'', PStr ''enrich_context'')],
           PDict
             [(''action'', PStr ''require_approval''),
              (''risk_level'', PStr ''high''),
              (''reason'', PStr (''Known-malicious source IP '' @ em_dash @ '' approve block''))],
           PDict
             [(''action'', PStr ''block_ip''),
              (''params'', PDict [(''source_ip'', PStr ''{{alert.source_ip}}'')])]]\<rparr>"

definition core_v1_reputation_investigation :: pack_item where
  "core_v1_reputation_investigation =
     \<lparr>pi_id = ''core-v1-reputation-investigation'',
      pi_name = ''High Reputation Review'',
      pi_description =
        ''Review low-severity alerts that carry elevated reputation risk, with enriched context '' @
        ''and no containment.'',
      pi_trigger_config =
        PDict
          [(''reputation_score_min'', PInt 40),
           (''min_severity'', PStr ''low''),
           (''exclude_alert_types'', PList
              [PStr ''pfsense_firewall_port_scan'',
               PStr ''pfsense_firewall_repeated_deny'',
               PStr ''pfsense_firewall_suspicious_allow''])],
      pi_steps =
        PList
          [PDict [(''action'', PStr ''enrich_context'')],
           PDict [(''action'', PStr ''monitor'')]]\<rparr>"

definition core_v1_web_to_app_attack_investigation :: pack_item where
  "core_v1_web_to_app_attack_investigation =
     \<lparr>pi_id = ''core-v1-web-to-app-attack-investigation'',
      pi_name = ''Web-to-App Attack Investigation'',
      pi_description =
        ''Investigate correlated web-to-application attack patterns with enriched context and '' @
        ''analyst notification.'',
      pi_trigger_config =
        PDict
          [(''alert_type'', PStr ''web_to_app_attack_pattern''),
           (''min_severity'', PStr ''high'')],
      pi_steps =
        PList
          [PDict [(''action'', PStr ''enrich_context'')],
           PDict [(''action'', PStr ''monitor'')]]\<rparr>"

definition core_v1_cloud_app_error_correlation_investigation :: pack_item where
  "core_v1_cloud_app_error_correlation_investigation =
     \<lparr>pi_id = ''core-v1-cloud-app-error-correlation-investigation'',
      pi_name = ''Cloud/App Error Correlation Investigation'',
      pi_description =
        ''Investigate correlated cloud and web application error patterns with enriched context.'',
      pi_trigger_config =
        PDict [(''alert_type'', PStr ''cloud_app_error_pattern''), (''min_severity'', PStr ''high'')],
      pi_steps =
        PList
          [PDict [(''action'', PStr ''enrich_context'')],
           PDict [(''action'', PStr ''monitor'')]]\<rparr>"

definition core_v1_app_insights_unauthorized_access_investigation :: pack_item where
  "core_v1_app_insights_unauthorized_access_investigation =
     \<lparr>pi_id = ''core-v1-app-insights-unauthorized-access-investigation'',
      pi_name = ''App Insights Unauthorized Access Investigation'',
      pi_description =
        ''Investigate repeated Application Insights unauthorized access activity with enriched '' @
        ''context, monitoring, and analyst notification.'',
      pi_trigger_config =
        PDict
          [(''alert_type'', PStr ''app_insights_unauthorized_access_threshold''),
           (''min_severity'', PStr ''high'')],
      pi_steps =
        PList
          [PDict [(''action'', PStr ''enrich_context'')],
           PDict [(''action'', PStr ''monitor'')],
           PDict
             [(''action'', PStr ''notify_slack''),
              (''params'', PDict [(''purpose'', PStr ''investigation''), (''message'', PStr ''{{alert.message}}'')])]]\<rparr>"

definition core_v1_azure_auth_abuse_exception_correlation_investigation :: pack_item where
  "core_v1_azure_auth_abuse_exception_correlation_investigation =
     \<lparr>pi_id = ''core-v1-azure-auth-abuse-exception-correlation-investigation'',
      pi_name = ''Azure Auth Abuse Exception Correlation Investigation'',
      pi_description =
        ''Investigate correlated Azure authentication abuse and application exception activity '' @
        ''with enriched context, monitoring, and analyst notification.'',
      pi_trigger_config =
        PDict
          [(''alert_type'', PStr ''azure_auth_abuse_exception_correlation''),
           (''min_severity'', PStr ''high'')],
      pi_steps =
        PList
          [PDict [(''action'', PStr ''enrich_context'')],
           PDict [(''action'', PStr ''monitor'')],
           PDict
             [(''action'', PStr ''notify_slack''),
              (''params'', PDict [(''purpose'', PStr ''investigation''), (''message'', PStr ''{{alert.message}}'')])]]\<rparr>"

definition core_v1_spray_then_success_correlation_investigation :: pack_item where
  "core_v1_spray_then_success_correlation_investigation =
     \<lparr>pi_id = ''core-v1-spray-then-success-correlation-investigation'',
      pi_name = ''Spray-Then-Success Correlation Investigation'',
      pi_description =
        ''Investigate corroborating spray-then-success correlation alerts with enriched context '' @
        ''and analyst notification.'',
      pi_trigger_config =
        PDict
          [(''alert_type'', PStr ''spray_then_success_pattern''),
           (''min_severity'', PStr ''high'')],
      pi_steps =
        PList
          [PDict [(''action'', PStr ''enrich_context'')],
           PDict [(''action'', PStr ''monitor'')]]\<rparr>"

definition core_v1_honeypot_scanner_review :: pack_item where
  "core_v1_honeypot_scanner_review =
     \<lparr>pi_id = ''core-v1-honeypot-scanner-review'',
      pi_name = ''Honeypot Scanner Review'',
      pi_description =
        ''Review scanner activity detected by honeypot telemetry using enriched context and '' @
        ''analyst notification.'',
      pi_trigger_config =
        PDict
          [(''alert_type'', PStr ''honeypot_scanner_detected''),
           (''min_severity'', PStr ''medium'')],
      pi_steps =
        PList
          [PDict [(''action'', PStr ''enrich_context'')],
           PDict [(''action'', PStr ''monitor'')]]\<rparr>"

definition core_v1_honeypot_credential_stuffing_containment :: pack_item where
  "core_v1_honeypot_credential_stuffing_containment =
     \<lparr>pi_id = ''core-v1-honeypot-credential-stuffing-containment'',
      pi_name = ''Honeypot Credential Stuffing Containment'',
      pi_description =
        ''Contain honeypot credential-stuffing alerts with enriched context and approval-gated IP '' @
        ''blocking.'',
      pi_trigger_config =
        PDict
          [(''alert_type'', PStr ''honeypot_credential_stuffing_threshold''),
           (''min_severity'', PStr ''high'')],
      pi_steps =
        PList
          [PDict [(''action'', PStr ''flag_high_priority'')],
           PDict [(''action'', PStr ''enrich_context'')],
           PDict
             [(''action'', PStr ''require_approval''),
              (''risk_level'', PStr ''high''),
              (''expires_in_minutes'', PInt 30),
              (''reason'', PStr (''Honeypot credential stuffing detected '' @ em_dash @ '' approve IP block''))],
           PDict
             [(''action'', PStr ''block_ip''),
              (''params'', PDict [(''source_ip'', PStr ''{{alert.source_ip}}'')])]]\<rparr>"

definition core_v1_pfsense_repeated_deny_investigation :: pack_item where
  "core_v1_pfsense_repeated_deny_investigation =
     \<lparr>pi_id = ''core-v1-pfsense-repeated-deny-investigation'',
      pi_name = ''pfSense Repeated Deny Investigation'',
      pi_description =
        ''Investigate repeated pfSense firewall denies with enriched context and no automatic '' @
        ''blocking. Investigation-only outcome: visible on the alert dashboard and Detection '' @
        ''Health, does not page Slack (reserved for containment-outcome playbooks).'',
      pi_trigger_config =
        PDict
          [(''alert_type'', PStr ''pfsense_firewall_repeated_deny''),
           (''min_severity'', PStr ''medium'')],
      pi_steps =
        PList
          [PDict [(''action'', PStr ''enrich_context'')],
           PDict [(''action'', PStr ''monitor'')]]\<rparr>"

definition core_v1_pfsense_port_scan_investigation :: pack_item where
  "core_v1_pfsense_port_scan_investigation =
     \<lparr>pi_id = ''core-v1-pfsense-port-scan-investigation'',
      pi_name = ''pfSense Port Scan Investigation'',
      pi_description =
        ''Investigate medium-severity pfSense firewall port scan activity with enriched context '' @
        ''and no automatic blocking. Investigation-only outcome: visible on the alert dashboard '' @
        ''and Detection Health, does not page Slack (reserved for containment-outcome playbooks).'',
      pi_trigger_config =
        PDict
          [(''alert_type'', PStr ''pfsense_firewall_port_scan''),
           (''min_severity'', PStr ''medium'')],
      pi_steps =
        PList
          [PDict [(''action'', PStr ''enrich_context'')],
           PDict [(''action'', PStr ''monitor'')]]\<rparr>"

definition core_v1_pfsense_port_scan_containment :: pack_item where
  "core_v1_pfsense_port_scan_containment =
     \<lparr>pi_id = ''core-v1-pfsense-port-scan-containment'',
      pi_name = ''pfSense Port Scan Containment'',
      pi_description =
        ''Contain high-confidence pfSense firewall port scan activity with enriched context and '' @
        ''approval-gated IP blocking.'',
      pi_trigger_config =
        PDict
          [(''alert_type'', PStr ''pfsense_firewall_port_scan''),
           (''min_severity'', PStr ''high'')],
      pi_steps =
        PList
          [PDict [(''action'', PStr ''flag_high_priority'')],
           PDict [(''action'', PStr ''enrich_context'')],
           PDict
             [(''action'', PStr ''require_approval''),
              (''risk_level'', PStr ''high''),
              (''expires_in_minutes'', PInt 30),
              (''reason'', PStr (''High-confidence pfSense port scan detected '' @ em_dash @ '' approve IP block''))],
           PDict
             [(''action'', PStr ''block_ip''),
              (''params'', PDict [(''source_ip'', PStr ''{{alert.source_ip}}'')])]]\<rparr>"

definition core_v1_pfsense_suspicious_allow_containment :: pack_item where
  "core_v1_pfsense_suspicious_allow_containment =
     \<lparr>pi_id = ''core-v1-pfsense-suspicious-allow-containment'',
      pi_name = ''pfSense Suspicious Allow Containment'',
      pi_description =
        ''Contain pfSense firewall allow events reaching sensitive destination ports with enriched '' @
        ''context and approval-gated IP blocking.'',
      pi_trigger_config =
        PDict
          [(''alert_type'', PStr ''pfsense_firewall_suspicious_allow''),
           (''min_severity'', PStr ''high'')],
      pi_steps =
        PList
          [PDict [(''action'', PStr ''flag_high_priority'')],
           PDict [(''action'', PStr ''enrich_context'')],
           PDict
             [(''action'', PStr ''require_approval''),
              (''risk_level'', PStr ''high''),
              (''expires_in_minutes'', PInt 30),
              (''reason'', PStr (''pfSense allowed inbound traffic to a sensitive port '' @ em_dash @ '' approve IP block''))],
           PDict
             [(''action'', PStr ''block_ip''),
              (''params'', PDict [(''source_ip'', PStr ''{{alert.source_ip}}'')])]]\<rparr>"

definition core_v1_pfsense_allow_after_deny_investigation :: pack_item where
  "core_v1_pfsense_allow_after_deny_investigation =
     \<lparr>pi_id = ''core-v1-pfsense-allow-after-deny-investigation'',
      pi_name = ''pfSense Allow-After-Deny Investigation'',
      pi_description =
        ''Investigate bounded same-source allow-after-deny firewall progression with enriched '' @
        ''context and no autonomous containment.'',
      pi_trigger_config =
        PDict
          [(''alert_type'', PStr ''pfsense_firewall_allow_after_deny''),
           (''min_severity'', PStr ''medium'')],
      pi_steps =
        PList
          [PDict [(''action'', PStr ''enrich_context'')],
           PDict [(''action'', PStr ''monitor'')]]\<rparr>"

definition core_v1_pfsense_allow_after_deny_containment :: pack_item where
  "core_v1_pfsense_allow_after_deny_containment =
     \<lparr>pi_id = ''core-v1-pfsense-allow-after-deny-containment'',
      pi_name = ''pfSense Allow-After-Deny Containment'',
      pi_description =
        ''Contain high-confidence allow-after-deny progression with enriched context and '' @
        ''approval-gated IP blocking.'',
      pi_trigger_config =
        PDict
          [(''alert_type'', PStr ''pfsense_firewall_allow_after_deny''),
           (''min_severity'', PStr ''high'')],
      pi_steps =
        PList
          [PDict [(''action'', PStr ''flag_high_priority'')],
           PDict [(''action'', PStr ''enrich_context'')],
           PDict
             [(''action'', PStr ''require_approval''),
              (''risk_level'', PStr ''high''),
              (''expires_in_minutes'', PInt 30),
              (''reason'', PStr (''pfSense allow-after-deny progression detected '' @ em_dash @ '' approve IP block''))],
           PDict
             [(''action'', PStr ''block_ip''),
              (''params'', PDict [(''source_ip'', PStr ''{{alert.source_ip}}'')])]]\<rparr>"

definition CORE_PLAYBOOK_PACK_V1 :: "pack_item list" where
  "CORE_PLAYBOOK_PACK_V1 =
     [core_v1_brute_force_containment,
      core_v1_password_spray_investigation,
      core_v1_spray_success_response,
      core_v1_malicious_ip_containment,
      core_v1_reputation_investigation,
      core_v1_web_to_app_attack_investigation,
      core_v1_cloud_app_error_correlation_investigation,
      core_v1_app_insights_unauthorized_access_investigation,
      core_v1_azure_auth_abuse_exception_correlation_investigation,
      core_v1_spray_then_success_correlation_investigation,
      core_v1_honeypot_scanner_review,
      core_v1_honeypot_credential_stuffing_containment,
      core_v1_pfsense_repeated_deny_investigation,
      core_v1_pfsense_port_scan_investigation,
      core_v1_pfsense_port_scan_containment,
      core_v1_pfsense_suspicious_allow_containment,
      core_v1_pfsense_allow_after_deny_investigation,
      core_v1_pfsense_allow_after_deny_containment]"

subsection \<open>Checking and seeding\<close>

fun validate_items :: "py_formats \<Rightarrow> pack_item list \<Rightarrow> string list result" where
  "validate_items fmt [] = Inr []"
| "validate_items fmt (item # items) =
     and_then (validate_playbook_steps fmt (pi_steps item) None) (validate_items fmt items)"

definition validate_core_playbook_pack_v1 :: "py_formats \<Rightarrow> string list result" where
  "validate_core_playbook_pack_v1 fmt = validate_items fmt CORE_PLAYBOOK_PACK_V1"

fun seed_items ::
  "py_formats \<Rightarrow> clock \<Rightarrow> bool \<Rightarrow> string list \<Rightarrow> pack_item list \<Rightarrow> (definition_table, string list) py" where
  "seed_items fmt clk enabled inserted [] t = (Inr inserted, t)"
| "seed_items fmt clk enabled inserted (item # items) t =
     (if get_playbook_definition (pi_id item) t \<noteq> None then seed_items fmt clk enabled inserted items t
      else case create_playbook_definition fmt clk (pi_id item) (pi_name item) (pi_steps item)
                  (pi_trigger_config item) enabled (Some (pi_description item)) t of
             (Inl e, t') \<Rightarrow> (Inl e, t')
           | (Inr _, t') \<Rightarrow> seed_items fmt clk enabled (inserted @ [pi_id item]) items t')"

definition seed_core_playbook_pack_v1 :: "py_formats \<Rightarrow> clock \<Rightarrow> bool \<Rightarrow> (definition_table, string list) py" where
  "seed_core_playbook_pack_v1 fmt clk enabled t = seed_items fmt clk enabled [] CORE_PLAYBOOK_PACK_V1 t"

subsection \<open>Lemmas\<close>

definition item_ok :: "py_formats \<Rightarrow> pack_item \<Rightarrow> bool" where
  "item_ok fmt item \<longleftrightarrow>
     check_definition fmt (pi_id item) (pi_trigger_config item) (pi_steps item) = Inr () \<and>
     varchar64 (pi_id item) = Inr (pi_id item)"

lemma list_all_take_drop: "list_all P (take n xs) \<Longrightarrow> list_all P (drop n xs) \<Longrightarrow> list_all P xs"
  by (metis append_take_drop_id list_all_append)

lemma core_pack_ok_1: "list_all (item_ok fmt) (take 6 CORE_PLAYBOOK_PACK_V1)"
  by code_simp

lemma core_pack_ok_2: "list_all (item_ok fmt) (take 6 (drop 6 CORE_PLAYBOOK_PACK_V1))"
  by code_simp

lemma core_pack_ok_3: "list_all (item_ok fmt) (drop 6 (drop 6 CORE_PLAYBOOK_PACK_V1))"
  by code_simp

lemma core_pack_items_ok: "\<forall>item \<in> set CORE_PLAYBOOK_PACK_V1. item_ok fmt item"
  unfolding list_all_iff [symmetric]
  by (rule list_all_take_drop [OF core_pack_ok_1 list_all_take_drop [OF core_pack_ok_2 core_pack_ok_3]])

lemma core_pack_ids: "distinct (map pi_id CORE_PLAYBOOK_PACK_V1)"
  by code_simp

text \<open>A check without an id demands no more than one with an id.\<close>

lemma valid_without_id:
  assumes "validate_playbook_steps fmt steps (Some pid) = Inr []"
  shows "validate_playbook_steps fmt steps None = Inr []"
proof -
  have trig: "validate_trigger_playbook_step d pre (Some pid) = [] \<Longrightarrow> validate_trigger_playbook_step d pre None = []" for d pre
    by (auto simp: validate_trigger_playbook_step_def split: pyval.splits if_splits)
  have known: "validate_known_step fmt (Some pid) lm i d action = Inr [] \<Longrightarrow> validate_known_step fmt None lm i d action = Inr []"
    for lm i d action
    unfolding validate_known_step_def Let_def using trig by auto
  have step: "validate_step fmt (Some pid) lm i x = Inr [] \<Longrightarrow> validate_step fmt None lm i x = Inr []" for lm i x
    unfolding validate_step_def Let_def using known
    by (auto split: pyval.splits if_splits sum.splits py_error.splits)
  obtain xs where xs: "steps = PList xs" using valid_steps_list [OF assms] by (cases steps) auto
  show ?thesis using assms step unfolding xs
    by (auto simp: validate_playbook_steps_def validate_steps_from_ok)
qed

lemma get_definition_None: "get_playbook_definition pid t = None \<longleftrightarrow> (\<forall>r \<in> set t. pd_id r \<noteq> pid)"
  by (auto simp: get_playbook_definition_def fetchone_None filter_empty_conv)

lemma get_definition_present: "get_playbook_definition pid t \<noteq> None \<longleftrightarrow> pid \<in> pd_id ` set t"
  by (auto simp: get_definition_None image_iff)

definition seeded_row :: "clock \<Rightarrow> bool \<Rightarrow> pack_item \<Rightarrow> playbook_definition" where
  "seeded_row clk enabled item =
     \<lparr>pd_id = pi_id item, pd_name = pi_name item, pd_description = Some (pi_description item),
      pd_trigger_config = pi_trigger_config item, pd_steps = pi_steps item, pd_enabled = enabled,
      pd_created_at = sql_now clk, pd_updated_at = sql_now clk\<rparr>"

lemma create_item:
  assumes "item_ok fmt item" "\<forall>r \<in> set t. pd_id r \<noteq> pi_id item"
  shows "\<exists>d. create_playbook_definition fmt clk (pi_id item) (pi_name item) (pi_steps item)
      (pi_trigger_config item) enabled (Some (pi_description item)) t = (Inr d, t @ [seeded_row clk enabled item])"
proof -
  have "pi_trigger_config item \<noteq> PNone" using assms(1) by (auto simp: item_ok_def check_definition_ok)
  then show ?thesis using assms
    by (simp add: item_ok_def create_playbook_definition_def seeded_row_def Let_def)
qed

lemma seed_items_result:
  assumes "\<forall>item \<in> set items. item_ok fmt item" "distinct (map pi_id items)"
  shows "seed_items fmt clk enabled inserted items t =
    (let missing = filter (\<lambda>item. pi_id item \<notin> pd_id ` set t) items
     in (Inr (inserted @ map pi_id missing), t @ map (seeded_row clk enabled) missing))"
  using assms
proof (induction items arbitrary: inserted t)
  case (Cons item items)
  show ?case
  proof (cases "get_playbook_definition (pi_id item) t = None")
    case True
    then have new: "\<forall>r \<in> set t. pd_id r \<noteq> pi_id item" by (simp add: get_definition_None)
    obtain d where d: "create_playbook_definition fmt clk (pi_id item) (pi_name item) (pi_steps item)
      (pi_trigger_config item) enabled (Some (pi_description item)) t = (Inr d, t @ [seeded_row clk enabled item])"
      using create_item [OF _ new, of fmt clk enabled] Cons.prems(1) by auto
    have "filter (\<lambda>x. pi_id x \<notin> pd_id ` set (t @ [seeded_row clk enabled item])) items =
        filter (\<lambda>x. pi_id x \<notin> pd_id ` set t) items"
      using Cons.prems(2) by (intro filter_cong) (auto simp: seeded_row_def image_iff)
    moreover have "pi_id item \<notin> pd_id ` set t" using new by auto
    ultimately show ?thesis
      using Cons.IH [of "inserted @ [pi_id item]" "t @ [seeded_row clk enabled item]"] Cons.prems True d
      by (simp add: Let_def)
  next
    case False
    then have "pi_id item \<in> pd_id ` set t" by (rule get_definition_present [THEN iffD1])
    then show ?thesis using Cons False by (simp add: Let_def)
  qed
qed simp

text \<open>No branch, and no step that blocks an address before an approval step that says nothing
  about a denial, an expiry or a failure.\<close>

definition plain_gate :: "pyval \<Rightarrow> bool" where
  "plain_gate step =
     (case step of
        PDict g \<Rightarrow> dict_get g ''action'' = PStr ''require_approval'' \<and>
          list_all (\<lambda>k. k \<in> set [''action'', ''risk_level'', ''expires_in_minutes'', ''reason'']) (map fst g)
      | _ \<Rightarrow> False)"

definition step_action :: "pyval \<Rightarrow> pyval" where
  "step_action step = (case step of PDict d \<Rightarrow> dict_get d ''action'' | _ \<Rightarrow> PNone)"

fun gated :: "bool \<Rightarrow> pyval list \<Rightarrow> bool" where
  "gated seen [] = True"
| "gated seen (step # steps) =
     ((step_action step = PStr ''block_ip'' \<longrightarrow> seen) \<and> step_action step \<noteq> PStr ''branch'' \<and>
      gated (seen \<or> plain_gate step) steps)"

lemma gated_block:
  assumes "gated seen steps" "i < length steps" "step_action (steps ! i) = PStr ''block_ip''"
  shows "seen \<or> (\<exists>j < i. plain_gate (steps ! j))"
  using assms
proof (induction steps arbitrary: seen i)
  case (Cons step steps)
  show ?case
  proof (cases i)
    case 0
    then show ?thesis using Cons.prems by simp
  next
    case (Suc k)
    then have "(seen \<or> plain_gate step) \<or> (\<exists>j < k. plain_gate (steps ! j))"
      using Cons.prems by (intro Cons.IH) simp_all
    then show ?thesis using Suc by (auto intro: exI [of _ 0])
  qed
qed simp

lemma gated_no_branch: "gated seen steps \<Longrightarrow> i < length steps \<Longrightarrow> step_action (steps ! i) \<noteq> PStr ''branch''"
  by (induction steps arbitrary: seen i) (auto simp: nth_Cons split: nat.splits)

lemma core_pack_gated:
  "list_all (\<lambda>item. case pi_steps item of PList steps \<Rightarrow> gated False steps | _ \<Rightarrow> False) CORE_PLAYBOOK_PACK_V1"
  by code_simp

subsection \<open>Properties\<close>

text \<open>The pack passes its own check, so the scripts that seed and reconcile it never stop at it,
  and each of its playbooks can be saved under its own id.\<close>

theorem core_pack_passes_check:
  "validate_core_playbook_pack_v1 fmt = Inr [] \<and>
   list_all (\<lambda>item. check_definition fmt (pi_id item) (pi_trigger_config item) (pi_steps item) = Inr ())
     CORE_PLAYBOOK_PACK_V1"
proof
  have "\<forall>item \<in> set items. item_ok fmt item \<Longrightarrow> validate_items fmt items = Inr []" for items
    by (induction items) (auto simp: item_ok_def check_definition_ok dest: valid_without_id)
  then show "validate_core_playbook_pack_v1 fmt = Inr []"
    using core_pack_items_ok by (simp add: validate_core_playbook_pack_v1_def)
  show "list_all (\<lambda>item. check_definition fmt (pi_id item) (pi_trigger_config item) (pi_steps item) = Inr ())
     CORE_PLAYBOOK_PACK_V1"
    using core_pack_items_ok by (simp add: list_all_iff item_ok_def)
qed

text \<open>C35: In every playbook of the pack each step that blocks an address comes after an approval step
  that has no setting for a denial, an expiry or a failure, and no branch can jump over it.\<close>

theorem pack_blocks_after_approval:
  assumes "item \<in> set CORE_PLAYBOOK_PACK_V1" "pi_steps item = PList steps"
    and "i < length steps" "steps ! i = PDict d" "dict_get d ''action'' = PStr ''block_ip''"
  shows "(\<exists>j g. j < i \<and> steps ! j = PDict g \<and> dict_get g ''action'' = PStr ''require_approval'' \<and>
      set (map fst g) \<subseteq> {''action'', ''risk_level'', ''expires_in_minutes'', ''reason''}) \<and>
    (\<nexists>k b. k < length steps \<and> steps ! k = PDict b \<and> dict_get b ''action'' = PStr ''branch'')"
proof -
  have g: "gated False steps" using core_pack_gated assms(1,2) by (auto simp: list_all_iff)
  have "step_action (steps ! i) = PStr ''block_ip''" using assms(4,5) by (simp add: step_action_def)
  then obtain j where j: "j < i" "plain_gate (steps ! j)" using gated_block [OF g assms(3)] by auto
  then obtain gate where gate: "steps ! j = PDict gate" by (auto simp: plain_gate_def split: pyval.splits)
  have "dict_get gate ''action'' = PStr ''require_approval'' \<and>
      set (map fst gate) \<subseteq> {''action'', ''risk_level'', ''expires_in_minutes'', ''reason''}"
    using j(2) unfolding plain_gate_def gate pyval.case list_all_iff by auto
  then show ?thesis using j(1) gate gated_no_branch [OF g] by (fastforce simp: step_action_def)
qed

text \<open>Seeding never fails: it appends one definition for each playbook of the pack whose id is
  not in the table yet, in the order of the pack, changes no other definition and returns the new
  ids. Afterwards every playbook of the pack is there, and seeding again adds nothing.\<close>

theorem seeding_adds_missing_playbooks:
  "let missing = filter (\<lambda>item. pi_id item \<notin> pd_id ` set t) CORE_PLAYBOOK_PACK_V1;
       t' = t @ map (seeded_row clk enabled) missing
   in seed_core_playbook_pack_v1 fmt clk enabled t = (Inr (map pi_id missing), t') \<and>
      list_all (\<lambda>item. get_playbook_definition (pi_id item) t' \<noteq> None) CORE_PLAYBOOK_PACK_V1 \<and>
      seed_core_playbook_pack_v1 fmt clk' enabled' t' = (Inr [], t')"
proof -
  note seed = seed_items_result [OF core_pack_items_ok core_pack_ids]
  let ?missing = "filter (\<lambda>item. pi_id item \<notin> pd_id ` set t) CORE_PLAYBOOK_PACK_V1"
  let ?t' = "t @ map (seeded_row clk enabled) ?missing"
  have present: "pi_id item \<in> pd_id ` set ?t'" if "item \<in> set CORE_PLAYBOOK_PACK_V1" for item
  proof (cases "pi_id item \<in> pd_id ` set t")
    case False
    with that have "seeded_row clk enabled item \<in> set ?t'" by simp
    then have "pd_id (seeded_row clk enabled item) \<in> pd_id ` set ?t'" by (rule imageI)
    then show ?thesis by (simp add: seeded_row_def)
  qed auto
  have none: "filter (\<lambda>item. pi_id item \<notin> pd_id ` set ?t') CORE_PLAYBOOK_PACK_V1 = []"
    unfolding filter_empty_conv using present by blast
  have "list_all (\<lambda>item. get_playbook_definition (pi_id item) ?t' \<noteq> None) CORE_PLAYBOOK_PACK_V1"
    unfolding list_all_iff get_definition_present using present by (rule ballI)
  then show ?thesis unfolding Let_def seed_core_playbook_pack_v1_def seed [unfolded Let_def] none
    by (simp only: append_Nil list.map append_Nil2 simp_thms)
qed

subsection \<open>Witnesses\<close>

theorem pack_blocks_after_approval_witness:
  "\<exists>j g steps. j < 3 \<and> pi_steps core_v1_brute_force_containment = PList steps \<and> steps ! j = PDict g \<and>
     dict_get g ''action'' = PStr ''require_approval''"
proof -
  obtain steps where s: "pi_steps core_v1_brute_force_containment = PList steps" "3 < length steps"
    "steps ! 3 = PDict [(''action'', PStr ''block_ip''), (''params'', PDict [(''source_ip'', PStr ''{{alert.source_ip}}'')])]"
    by (simp add: core_v1_brute_force_containment_def)
  have m: "core_v1_brute_force_containment \<in> set CORE_PLAYBOOK_PACK_V1" by (simp add: CORE_PLAYBOOK_PACK_V1_def)
  have "dict_get [(''action'', PStr ''block_ip''), (''params'', PDict [(''source_ip'', PStr ''{{alert.source_ip}}'')])]
      ''action'' = PStr ''block_ip''" by (simp add: dict_get_def)
  from pack_blocks_after_approval [OF m s this] s(1) show ?thesis by blast
qed

end
