(* ===== verification/Circuit_Breaker.thy ===== *)
theory Circuit_Breaker
  imports Py_Values Tables
begin

text \<open>
  The circuit breaker every integration goes through: \<open>integrations/base_integration.py\<close> (and the
  firewall adapter, which adds only its actions and its message). The breakers are the records of
  an in-process store, created on first use. What an adapter does when it is called is an argument
  of \<open>execute\<close>, as the method a subclass overrides. Shown here: the breaker refines the
  textbook machine with three phases, its records stay consistent, an adapter is called only when
  the breaker lets it through, no call moves an open breaker, which recovers through a probe that is
  asked for and one successful call, and a probe that runs into a rate limit is lost for good.
\<close>

subsection \<open>State\<close>

record breaker =
  cb_state :: string
  cb_consecutive_failures :: int
  cb_failure_threshold :: int
  cb_cooldown_seconds :: int
  cb_opened_at :: "time option"
  cb_last_failure_reason :: "string option"
  cb_timeout_seconds :: "int option"
  cb_retry_eligible :: bool
  cb_cooldown_until :: "time option"
  cb_last_failure_classification :: "string option"
  cb_half_open_probe_available :: bool
  cb_last_manual_action :: "string option"
  cb_last_manual_action_by :: "string option"
  cb_last_manual_action_at :: "time option"
  cb_last_manual_reason :: "string option"

definition fresh_breaker :: breaker where
  "fresh_breaker = \<lparr>cb_state = ''closed'', cb_consecutive_failures = 0, cb_failure_threshold = 3,
     cb_cooldown_seconds = 60, cb_opened_at = None, cb_last_failure_reason = None, cb_timeout_seconds = Some 30,
     cb_retry_eligible = True, cb_cooldown_until = None, cb_last_failure_classification = None,
     cb_half_open_probe_available = False, cb_last_manual_action = None, cb_last_manual_action_by = None,
     cb_last_manual_action_at = None, cb_last_manual_reason = None\<rparr>"

type_synonym breaker_store = "string \<Rightarrow> breaker option"

definition VALID_CIRCUIT_STATES :: "string list" where
  "VALID_CIRCUIT_STATES = [''closed'', ''open'', ''half_open'']"

definition normalize_adapter_key :: "string \<Rightarrow> string" where
  "normalize_adapter_key name = lower (strip name)"

text \<open>The entry for an adapter, created when it is not there yet.\<close>

definition breaker_at :: "string \<Rightarrow> breaker_store \<Rightarrow> breaker" where
  "breaker_at key store = (case store key of None \<Rightarrow> fresh_breaker | Some b \<Rightarrow> b)"

definition get_circuit_state :: "string \<Rightarrow> breaker_store \<Rightarrow> breaker \<times> breaker_store" where
  "get_circuit_state adapter_name store =
     (let key = normalize_adapter_key adapter_name; b = breaker_at key store in (b, store(key \<mapsto> b)))"

text \<open>A change of the entry's fields.\<close>

definition modify_breaker :: "string \<Rightarrow> (breaker \<Rightarrow> breaker) \<Rightarrow> breaker_store \<Rightarrow> breaker_store" where
  "modify_breaker adapter_name f store =
     (let key = normalize_adapter_key adapter_name in store(key \<mapsto> f (breaker_at key store)))"

definition reset_simulated_circuit_breakers :: "string option \<Rightarrow> breaker_store \<Rightarrow> breaker_store" where
  "reset_simulated_circuit_breakers adapter_name store =
     (case adapter_name of None \<Rightarrow> Map.empty | Some n \<Rightarrow> store(normalize_adapter_key n := None))"

record breaker_config =
  bc_failure_threshold :: "int option"
  bc_cooldown_seconds :: "int option"
  bc_timeout_seconds :: "int option"
  bc_state :: "string option"
  bc_consecutive_failures :: "int option"
  bc_cooldown_until :: "time option"
  bc_opened_at :: "time option"
  bc_last_failure_reason :: "string option"
  bc_last_failure_classification :: "string option"
  bc_retry_eligible :: "bool option"
  bc_half_open_probe_available :: "bool option"

definition configure_breaker :: "breaker_config \<Rightarrow> breaker \<Rightarrow> breaker" where
  "configure_breaker c b =
     (let st = map_option (\<lambda>s. lower (strip s)) (bc_state c)
      in b\<lparr>cb_failure_threshold := (case bc_failure_threshold c of None \<Rightarrow> cb_failure_threshold b | Some n \<Rightarrow> max 1 n),
           cb_cooldown_seconds := (case bc_cooldown_seconds c of None \<Rightarrow> cb_cooldown_seconds b | Some n \<Rightarrow> max 0 n),
           cb_timeout_seconds := coalesce_opt (bc_timeout_seconds c) (cb_timeout_seconds b),
           cb_state := coalesce st (cb_state b),
           cb_consecutive_failures :=
             (case bc_consecutive_failures c of None \<Rightarrow> cb_consecutive_failures b | Some n \<Rightarrow> max 0 n),
           cb_cooldown_until := coalesce_opt (bc_cooldown_until c) (cb_cooldown_until b),
           cb_opened_at := coalesce_opt (bc_opened_at c) (cb_opened_at b),
           cb_last_failure_reason := coalesce_opt (bc_last_failure_reason c) (cb_last_failure_reason b),
           cb_last_failure_classification :=
             coalesce_opt (bc_last_failure_classification c) (cb_last_failure_classification b),
           cb_retry_eligible := coalesce (bc_retry_eligible c) (cb_retry_eligible b),
           cb_half_open_probe_available :=
             coalesce (bc_half_open_probe_available c)
               (case st of None \<Rightarrow> cb_half_open_probe_available b | Some s \<Rightarrow> s = ''half_open'')\<rparr>)"

definition configure_simulated_circuit_breaker :: "string \<Rightarrow> breaker_config \<Rightarrow> breaker_store \<Rightarrow> breaker_store" where
  "configure_simulated_circuit_breaker adapter_name c = modify_breaker adapter_name (configure_breaker c)"

subsection \<open>The snapshot\<close>

definition compute_retry_eligible :: "breaker \<Rightarrow> bool" where
  "compute_retry_eligible b =
     (if cb_state b = ''open'' then False
      else if cb_state b \<notin> set VALID_CIRCUIT_STATES then False
      else if cb_last_failure_classification b = Some ''non_transient'' then False
      else cb_retry_eligible b)"

definition opt_str :: "string option \<Rightarrow> pyval" where
  "opt_str s = (case s of None \<Rightarrow> PNone | Some x \<Rightarrow> PStr x)"

definition opt_int :: "int option \<Rightarrow> pyval" where
  "opt_int i = (case i of None \<Rightarrow> PNone | Some x \<Rightarrow> PInt x)"

definition iso_utc :: "py_formats \<Rightarrow> time option \<Rightarrow> pyval" where
  "iso_utc fmt t = (case t of None \<Rightarrow> PNone | Some x \<Rightarrow> PStr (replace_all ''+00:00'' ''Z'' (time_iso fmt x)))"

definition breaker_dict :: "py_formats \<Rightarrow> breaker \<Rightarrow> items" where
  "breaker_dict fmt b =
     [(''state'', PStr (cb_state b)),
      (''consecutive_failures'', PInt (cb_consecutive_failures b)),
      (''failure_threshold'', PInt (cb_failure_threshold b)),
      (''cooldown_seconds'', PInt (cb_cooldown_seconds b)),
      (''opened_at'', iso_utc fmt (cb_opened_at b)),
      (''last_failure_reason'', opt_str (cb_last_failure_reason b)),
      (''timeout_seconds'', opt_int (cb_timeout_seconds b)),
      (''retry_eligible'', PBool (compute_retry_eligible b)),
      (''cooldown_until'', iso_utc fmt (cb_cooldown_until b)),
      (''last_failure_classification'', opt_str (cb_last_failure_classification b)),
      (''half_open_probe_available'', PBool (cb_half_open_probe_available b)),
      (''last_manual_action'', opt_str (cb_last_manual_action b)),
      (''last_manual_action_by'', opt_str (cb_last_manual_action_by b)),
      (''last_manual_action_at'', iso_utc fmt (cb_last_manual_action_at b)),
      (''last_manual_reason'', opt_str (cb_last_manual_reason b)),
      (''state_persisted'', PBool False)]"

definition get_simulated_circuit_breaker_dict :: "py_formats \<Rightarrow> string \<Rightarrow> breaker_store \<Rightarrow> items \<times> breaker_store" where
  "get_simulated_circuit_breaker_dict fmt adapter_name store =
     (case get_circuit_state adapter_name store of (b, store') \<Rightarrow> (breaker_dict fmt b, store'))"

subsection \<open>Transitions of one breaker\<close>

definition reset_to_closed_success :: "breaker \<Rightarrow> breaker" where
  "reset_to_closed_success b =
     b\<lparr>cb_state := ''closed'', cb_consecutive_failures := 0, cb_opened_at := None, cb_cooldown_until := None,
       cb_last_failure_reason := None, cb_last_failure_classification := None, cb_retry_eligible := True,
       cb_half_open_probe_available := False\<rparr>"

definition force_open :: "string \<Rightarrow> string \<Rightarrow> time \<Rightarrow> breaker \<Rightarrow> breaker" where
  "force_open reason classification now b =
     b\<lparr>cb_state := ''open'', cb_opened_at := Some now, cb_last_failure_reason := Some reason,
       cb_last_failure_classification := Some classification,
       cb_cooldown_until := Some (now + seconds (cb_cooldown_seconds b)), cb_retry_eligible := False,
       cb_half_open_probe_available := False,
       cb_consecutive_failures :=
         (if cb_consecutive_failures b < cb_failure_threshold b then cb_failure_threshold b
          else cb_consecutive_failures b)\<rparr>"

definition apply_failure_increment :: "string \<Rightarrow> string \<Rightarrow> time \<Rightarrow> breaker \<Rightarrow> breaker" where
  "apply_failure_increment reason classification now b =
     (if cb_state b = ''open'' then b
      else let b1 = b\<lparr>cb_last_failure_reason := Some reason, cb_last_failure_classification := Some classification\<rparr>
           in if classification = ''non_transient'' then force_open reason classification now b1
              else let b2 = b1\<lparr>cb_consecutive_failures := cb_consecutive_failures b1 + 1\<rparr>
                   in if cb_failure_threshold b2 \<le> cb_consecutive_failures b2
                      then force_open reason classification now b2
                      else b2\<lparr>cb_retry_eligible := (classification = ''transient'')\<rparr>)"

definition complete_half_open_failure :: "string \<Rightarrow> time \<Rightarrow> breaker \<Rightarrow> breaker" where
  "complete_half_open_failure reason now b =
     b\<lparr>cb_state := ''open'', cb_opened_at := Some now, cb_last_failure_reason := Some reason,
       cb_last_failure_classification := Some ''transient'',
       cb_cooldown_until := Some (now + seconds (cb_cooldown_seconds b)), cb_retry_eligible := False,
       cb_half_open_probe_available := False\<rparr>"

definition apply_manual_operator_metadata :: "string \<Rightarrow> string \<Rightarrow> string \<Rightarrow> time \<Rightarrow> breaker \<Rightarrow> breaker" where
  "apply_manual_operator_metadata action actor reason when b =
     b\<lparr>cb_last_manual_action := Some action, cb_last_manual_action_by := Some actor,
       cb_last_manual_action_at := Some when,
       cb_last_manual_reason := (let trimmed = strip reason in if trimmed = [] then None else Some (take 2000 trimmed))\<rparr>"

subsection \<open>Operator controls and bookkeeping\<close>

text \<open>The manual controls return the snapshot after the change.\<close>

definition manual_reset_simulated_circuit_breaker ::
  "py_formats \<Rightarrow> string \<Rightarrow> string \<Rightarrow> string \<Rightarrow> time \<Rightarrow> (breaker_store, items) py" where
  "manual_reset_simulated_circuit_breaker fmt adapter_name actor reason when store =
     (let store' = modify_breaker adapter_name
            (\<lambda>b. apply_manual_operator_metadata ''reset'' actor reason when (reset_to_closed_success b)) store
      in case get_simulated_circuit_breaker_dict fmt adapter_name store' of (d, s) \<Rightarrow> (Inr d, s))"

definition manual_force_open :: "string \<Rightarrow> string \<Rightarrow> time \<Rightarrow> breaker \<Rightarrow> breaker" where
  "manual_force_open actor reason when b =
     apply_manual_operator_metadata ''force_open'' actor reason when
       (b\<lparr>cb_state := ''open'', cb_opened_at := Some when,
          cb_cooldown_until := Some (when + seconds (cb_cooldown_seconds b)), cb_retry_eligible := False,
          cb_half_open_probe_available := False,
          cb_last_failure_reason := Some (''manual force_open: '' @ take 500 (strip reason)),
          cb_last_failure_classification := Some ''circuit_open''\<rparr>)"

definition manual_force_open_simulated_circuit_breaker ::
  "py_formats \<Rightarrow> string \<Rightarrow> string \<Rightarrow> string \<Rightarrow> time \<Rightarrow> (breaker_store, items) py" where
  "manual_force_open_simulated_circuit_breaker fmt adapter_name actor reason when store =
     (let store' = modify_breaker adapter_name (manual_force_open actor reason when) store
      in case get_simulated_circuit_breaker_dict fmt adapter_name store' of (d, s) \<Rightarrow> (Inr d, s))"

definition half_open :: "breaker \<Rightarrow> breaker" where
  "half_open b =
     b\<lparr>cb_state := ''half_open'', cb_half_open_probe_available := True, cb_retry_eligible := False\<rparr>"

definition cooling_down :: "breaker \<Rightarrow> time \<Rightarrow> bool" where
  "cooling_down b when = (case cb_cooldown_until b of None \<Rightarrow> False | Some until \<Rightarrow> when < until)"

definition manual_enable_half_open_probe_simulated_circuit_breaker ::
  "py_formats \<Rightarrow> string \<Rightarrow> string \<Rightarrow> string \<Rightarrow> bool \<Rightarrow> time \<Rightarrow> (breaker_store, items) py" where
  "manual_enable_half_open_probe_simulated_circuit_breaker fmt adapter_name actor reason override_cooldown when store =
     (case get_circuit_state adapter_name store of (b, store1) \<Rightarrow>
        if cb_state b \<notin> set VALID_CIRCUIT_STATES
        then (Inl (CircuitBreakerControlError
               ''Circuit breaker state is invalid; reset the breaker before enabling a half-open probe.'' 409), store1)
        else if cb_state b \<noteq> ''open''
        then (Inl (CircuitBreakerControlError
               ''Half-open probe can only be enabled when the breaker is open.'' 400), store1)
        else if cooling_down b when \<and> \<not> override_cooldown
        then (Inl (CircuitBreakerControlError
               ''Cooldown is still active; retry after cooldown or pass override_cooldown=true with reason.'' 409), store1)
        else
          let store2 = modify_breaker adapter_name
                (\<lambda>b. apply_manual_operator_metadata ''enable_half_open'' actor reason when (half_open b)) store1
          in case get_simulated_circuit_breaker_dict fmt adapter_name store2 of (d, s) \<Rightarrow> (Inr d, s))"

definition request_half_open_probe :: "string \<Rightarrow> time \<Rightarrow> breaker_store \<Rightarrow> bool \<times> breaker_store" where
  "request_half_open_probe adapter_name when store =
     (case get_circuit_state adapter_name store of (b, store1) \<Rightarrow>
        if cb_state b \<noteq> ''open'' then (False, store1)
        else if cooling_down b when then (False, store1)
        else (True, modify_breaker adapter_name half_open store1))"

definition record_simulated_adapter_failure :: "string \<Rightarrow> string \<Rightarrow> string \<Rightarrow> time \<Rightarrow> breaker_store \<Rightarrow> breaker_store" where
  "record_simulated_adapter_failure adapter_name reason classification now =
     modify_breaker adapter_name
       (apply_failure_increment reason
          (let c = lower (strip classification) in if c = [] then ''transient'' else c) now)"

definition record_simulated_adapter_success :: "string \<Rightarrow> breaker_store \<Rightarrow> breaker_store" where
  "record_simulated_adapter_success adapter_name = modify_breaker adapter_name reset_to_closed_success"

subsection \<open>Payloads\<close>

definition SECRET_FIELD_NAMES :: "string list" where
  "SECRET_FIELD_NAMES =
     [''api_key'', ''authorization'', ''auth'', ''password'', ''secret'', ''slack_webhook_url'', ''teams_webhook_url'',
      ''token'', ''webhook_url'']"

text \<open>\<open>[^\s"'<>]\<close>\<close>

definition url_char :: "char \<Rightarrow> bool" where
  "url_char c \<longleftrightarrow> \<not> is_space c \<and> (of_char c :: nat) \<notin> {34, 39, 60, 62}"

text \<open>The length of the match of each pattern at the start of a text. The second pattern asks for one
  of three words in the run of characters after the scheme, and matches the whole run.\<close>

definition slack_webhook_at :: "string \<Rightarrow> nat option" where
  "slack_webhook_at s =
     (let pre = ''https://hooks.slack.com/services/''; run = takeWhile url_char (drop (length pre) s)
      in if prefix pre s \<and> run \<noteq> [] then Some (length pre + length run) else None)"

definition teams_webhook_at :: "string \<Rightarrow> nat option" where
  "teams_webhook_at s =
     (let pre = ''https://''; run = takeWhile url_char (drop (length pre) s)
      in if prefix pre s \<and> (contains ''webhook'' run \<or> contains ''office'' run \<or> contains ''logic.azure'' run)
         then Some (length pre + length run) else None)"

fun sub_matches :: "(string \<Rightarrow> nat option) \<Rightarrow> string \<Rightarrow> string \<Rightarrow> string" where
  "sub_matches m repl [] = []"
| "sub_matches m repl (c # cs) =
     (case m (c # cs) of
        None \<Rightarrow> c # sub_matches m repl cs
      | Some n \<Rightarrow> repl @ sub_matches m repl (drop (n - 1) cs))"

fun sanitize_value :: "string \<Rightarrow> pyval \<Rightarrow> pyval"
  and sanitize_items :: "items \<Rightarrow> items"
  and sanitize_values :: "pyval list \<Rightarrow> pyval list" where
  "sanitize_value key v =
     (if lower key \<in> set SECRET_FIELD_NAMES then PStr ''[redacted]''
      else case v of
             PDict d \<Rightarrow> PDict (sanitize_items d)
           | PList xs \<Rightarrow> PList (sanitize_values xs)
           | PStr s \<Rightarrow> PStr (sub_matches teams_webhook_at ''[redacted]'' (sub_matches slack_webhook_at ''[redacted]'' s))
           | _ \<Rightarrow> v)"
| "sanitize_items [] = []"
| "sanitize_items ((k, v) # d) = (k, sanitize_value k v) # sanitize_items d"
| "sanitize_values [] = []"
| "sanitize_values (x # xs) = sanitize_value [] x # sanitize_values xs"

definition sanitize_payload :: "pyval \<Rightarrow> items" where
  "sanitize_payload payload = (case payload of PDict d \<Rightarrow> sanitize_items d | _ \<Rightarrow> [])"

subsection \<open>Executing an action\<close>

text \<open>An adapter: its name, the actions it supports, its mode and what its \<open>_execute_supported_action\<close>
  does when it is called now: any value, or an exception.\<close>

record adapter =
  ad_name :: string
  ad_supported_actions :: "string list"
  ad_mode :: string
  ad_run :: "string \<Rightarrow> items \<Rightarrow> items \<Rightarrow> pyval result"

text \<open>\<open>BaseIntegration.__init__\<close>: the mode, or \<open>NotImplementedError\<close>.\<close>

definition adapter_mode :: "bool \<Rightarrow> string option \<Rightarrow> string result" where
  "adapter_mode allow_real_mode mode =
     (let m = lower (strip (case mode of None \<Rightarrow> ''simulation'' | Some x \<Rightarrow> if x = [] then ''simulation'' else x))
      in if m = ''real'' \<and> \<not> allow_real_mode
         then Inl (OtherException ''real integration mode is not implemented'')
         else if m \<notin> set [''simulation'', ''real'']
         then Inl (OtherException ''real integration mode is not implemented'') else Inr m)"

definition normalize_action :: "string option \<Rightarrow> string" where
  "normalize_action a = (case a of None \<Rightarrow> [] | Some x \<Rightarrow> lower (strip x))"

definition can_handle :: "adapter \<Rightarrow> string option \<Rightarrow> bool" where
  "can_handle ad a \<longleftrightarrow> normalize_action a \<in> set (ad_supported_actions ad)"

text \<open>\<open>_result\<close> with the mode, \<open>simulated\<close> and \<open>executed\<close> left at their defaults.\<close>

definition adapter_result :: "adapter \<Rightarrow> string \<Rightarrow> items \<Rightarrow> items \<Rightarrow> bool \<Rightarrow> string \<Rightarrow> items \<Rightarrow> items" where
  "adapter_result ad action params ctx success message metadata =
     (let is_simulated = (ad_mode ad = ''simulation'')
      in [(''adapter'', PStr (ad_name ad)), (''action'', PStr action), (''mode'', PStr (ad_mode ad)),
          (''simulated'', PBool is_simulated), (''executed'', PBool False), (''success'', PBool success),
          (''message'', PStr message), (''params'', PDict params), (''context'', PDict ctx),
          (''metadata'', PDict metadata)])"

text \<open>The base class's \<open>_simulate\<close> and the firewall adapter's.\<close>

definition base_simulate :: "adapter \<Rightarrow> string \<Rightarrow> items \<Rightarrow> items \<Rightarrow> pyval result" where
  "base_simulate ad action params ctx =
     Inr (PDict (adapter_result ad action params ctx True (''Simulated '' @ ad_name ad @ '' action.'') []))"

definition firewall_simulate :: "adapter \<Rightarrow> string \<Rightarrow> items \<Rightarrow> items \<Rightarrow> pyval result" where
  "firewall_simulate ad action params ctx =
     Inr (PDict (adapter_result ad action params ctx True
       ''Simulated firewall action. No firewall or blocklist change was made.'' [(''mutation'', PStr ''none'')]))"

definition FIREWALL_ACTIONS :: "string list" where
  "FIREWALL_ACTIONS = [''block_ip'', ''unblock_ip'', ''tag_ip'']"

definition dict_setdefault :: "items \<Rightarrow> string \<Rightarrow> pyval \<Rightarrow> items" where
  "dict_setdefault d k v = (if dict_has d k then d else d @ [(k, v)])"

text \<open>The result with the breaker's state, eligibility and timeout added where they are missing.\<close>

definition merge_result_circuit_metadata :: "breaker \<Rightarrow> items \<Rightarrow> items" where
  "merge_result_circuit_metadata b result =
     (let result1 = dict_setdefault result ''metadata'' (PDict [])
      in case dict_get result1 ''metadata'' of
           PDict meta \<Rightarrow>
             (let m1 = dict_setdefault meta ''circuit_state'' (PStr (cb_state b));
                  m2 = dict_setdefault m1 ''retry_eligible'' (PBool (compute_retry_eligible b));
                  m3 = (if \<not> dict_has m2 ''timeout_seconds'' \<and> cb_timeout_seconds b \<noteq> None
                        then dict_set m2 ''timeout_seconds'' (opt_int (cb_timeout_seconds b)) else m2)
              in dict_set result1 ''metadata'' (PDict m3))
         | _ \<Rightarrow> result1)"

definition result_classification :: "py_formats \<Rightarrow> items \<Rightarrow> string" where
  "result_classification fmt result =
     (let meta = (case dict_get result ''metadata'' of PDict m \<Rightarrow> m | _ \<Rightarrow> []);
          v = dict_get meta ''failure_classification''
      in lower (strip (if truthy v then str_val fmt v else ''transient'')))"

definition message_or :: "py_formats \<Rightarrow> items \<Rightarrow> string \<Rightarrow> string" where
  "message_or fmt result fallback =
     (let v = dict_get result ''message'' in if truthy v then str_val fmt v else fallback)"

text \<open>The breaker and the result after the adapter returned the result.\<close>

definition integrate_circuit_after_simulation ::
  "py_formats \<Rightarrow> bool \<Rightarrow> time \<Rightarrow> items \<Rightarrow> breaker \<Rightarrow> breaker \<times> items" where
  "integrate_circuit_after_simulation fmt was_half_open now result b =
     (let meta = (case dict_get result ''metadata'' of PDict m \<Rightarrow> m | _ \<Rightarrow> []);
          classification = result_classification fmt result;
          put = (\<lambda>m. dict_set result ''metadata'' (PDict m))
      in if truthy (dict_get result ''success'')
         then (reset_to_closed_success b,
               put (dict_set (dict_set meta ''circuit_state'' (PStr ''closed'')) ''retry_eligible'' (PBool True)))
         else if classification = ''provider_rate_limited''
         then (b, put (dict_set (dict_set meta ''circuit_state'' (PStr (cb_state b))) ''retry_eligible'' (PBool True)))
         else
           let b' = (if was_half_open
                     then complete_half_open_failure (message_or fmt result ''half_open probe failed'') now b
                     else apply_failure_increment (message_or fmt result ''simulated failure'') classification now b);
               m1 = dict_set meta ''circuit_state'' (PStr (cb_state b'));
               m2 = dict_set m1 ''failure_classification''
                      (PStr (if cb_state b' = ''open'' \<and> was_half_open then ''circuit_open'' else classification))
           in (b', put (dict_setdefault m2 ''retry_eligible'' (PBool (compute_retry_eligible b')))))"

definition blocked_metadata :: "breaker \<Rightarrow> string \<Rightarrow> string \<Rightarrow> bool \<Rightarrow> items" where
  "blocked_metadata b classification circuit_state retry =
     [(''failure_classification'', PStr classification), (''circuit_state'', PStr circuit_state),
      (''retry_eligible'', PBool retry), (''timeout_seconds'', opt_int (cb_timeout_seconds b))]"

text \<open>The last part of \<open>execute\<close>: the adapter is called on a breaker that let the call through.\<close>

definition call_supported ::
  "py_formats \<Rightarrow> adapter \<Rightarrow> time \<Rightarrow> string \<Rightarrow> items \<Rightarrow> items \<Rightarrow> bool \<Rightarrow> breaker \<Rightarrow> items result \<times> breaker" where
  "call_supported fmt ad now act p c was_half_open b =
     (case ad_run ad act p c of
        Inl e \<Rightarrow>
          if was_half_open
          then let b' = complete_half_open_failure (''simulation error: '' @ error_text e) now b
               in (Inr (merge_result_circuit_metadata b' (adapter_result ad act p c False
                      (''Simulated execution error: '' @ error_text e)
                      (blocked_metadata b' ''circuit_open'' ''open'' False))), b')
          else (Inl e, b)
      | Inr v \<Rightarrow>
          let result = (case v of PDict d \<Rightarrow> d
                        | _ \<Rightarrow> adapter_result ad act p c False ''Adapter returned invalid simulation result.''
                                [(''failure_classification'', PStr ''non_transient'')]);
              (b', result') = integrate_circuit_after_simulation fmt was_half_open now result b
          in (Inr (merge_result_circuit_metadata b' result'), b'))"

text \<open>\<open>execute\<close> on the adapter's own breaker: what it returns or raises, and the breaker after it.\<close>

definition execute_with ::
  "py_formats \<Rightarrow> adapter \<Rightarrow> time \<Rightarrow> string option \<Rightarrow> pyval \<Rightarrow> pyval \<Rightarrow> breaker \<Rightarrow> items result \<times> breaker" where
  "execute_with fmt ad now action params ctx b =
     (let act = normalize_action action; p = sanitize_payload params; c = sanitize_payload ctx;
          shown = (if act = [] then ''unspecified'' else act);
          blocked = (\<lambda>message meta. Inr (merge_result_circuit_metadata b (adapter_result ad shown p c False message meta)));
          was_half_open = (cb_state b = ''half_open'');
          b1 = (if was_half_open then b\<lparr>cb_half_open_probe_available := False\<rparr> else b)
      in
      if cb_state b \<notin> set VALID_CIRCUIT_STATES
      then (blocked ''Simulated execution blocked: circuit breaker state is invalid.''
              (blocked_metadata b ''circuit_state_invalid'' ''open'' False), b)
      else if cb_state b = ''open''
      then (blocked ''Simulated execution blocked: integration circuit breaker is open.''
              (blocked_metadata b ''circuit_open'' ''open'' False), b)
      else if was_half_open \<and> \<not> cb_half_open_probe_available b
      then (blocked ''Simulated execution blocked: half-open recovery probe was already used.''
              (blocked_metadata b ''circuit_open'' ''half_open'' False), b)
      else if \<not> can_handle ad (Some act)
      then
        let message = ''Unsupported simulated '' @ ad_name ad @ '' action: '' @ shown;
            b2 = apply_failure_increment message ''non_transient'' now b1
        in (Inr (merge_result_circuit_metadata b2 (adapter_result ad shown p c False message
               (blocked_metadata b2 ''non_transient'' (cb_state b2) (compute_retry_eligible b2)))), b2)
      else call_supported fmt ad now act p c was_half_open b1)"

definition execute_adapter ::
  "py_formats \<Rightarrow> adapter \<Rightarrow> time \<Rightarrow> string option \<Rightarrow> pyval \<Rightarrow> pyval \<Rightarrow> (breaker_store, items) py" where
  "execute_adapter fmt ad now action params ctx store =
     (case get_circuit_state (ad_name ad) store of (b, store1) \<Rightarrow>
        case execute_with fmt ad now action params ctx b of
          (r, b') \<Rightarrow> (r, store1(normalize_adapter_key (ad_name ad) \<mapsto> b')))"

subsection \<open>The abstract machine\<close>

text \<open>Closed with a number of consecutive failures, open until a time, or half open with or without
  its one probe; and what a call comes to.\<close>

datatype phase = CBClosed int | CBOpen time | CBHalfOpen bool

datatype call_outcome = Succeeded | Rate_Limited | Unsupported | Raised | Failed bool

definition phase_of :: "breaker \<Rightarrow> phase" where
  "phase_of b =
     (if cb_state b = ''closed'' then CBClosed (cb_consecutive_failures b)
      else if cb_state b = ''open'' then CBOpen (coalesce (cb_cooldown_until b) 0)
      else CBHalfOpen (cb_half_open_probe_available b))"

definition adapter_outcome :: "py_formats \<Rightarrow> adapter \<Rightarrow> string option \<Rightarrow> pyval \<Rightarrow> pyval \<Rightarrow> call_outcome" where
  "adapter_outcome fmt ad action params ctx =
     (if \<not> can_handle ad action then Unsupported
      else case ad_run ad (normalize_action action) (sanitize_payload params) (sanitize_payload ctx) of
             Inl _ \<Rightarrow> Raised
           | Inr (PDict d) \<Rightarrow>
               if truthy (dict_get d ''success'') then Succeeded
               else if result_classification fmt d = ''provider_rate_limited'' then Rate_Limited
               else Failed (result_classification fmt d = ''non_transient'')
           | Inr _ \<Rightarrow> Failed True)"

fun lets_through :: "phase \<Rightarrow> bool" where
  "lets_through (CBClosed _) = True"
| "lets_through (CBHalfOpen probe) = probe"
| "lets_through (CBOpen _) = False"

text \<open>The machine, for a threshold and the end of a cooldown that starts now.\<close>

fun next_phase :: "int \<Rightarrow> time \<Rightarrow> call_outcome \<Rightarrow> phase \<Rightarrow> phase" where
  "next_phase threshold until outcome (CBOpen u) = CBOpen u"
| "next_phase threshold until outcome (CBHalfOpen False) = CBHalfOpen False"
| "next_phase threshold until outcome (CBHalfOpen True) =
     (case outcome of Succeeded \<Rightarrow> CBClosed 0 | Rate_Limited \<Rightarrow> CBHalfOpen False | _ \<Rightarrow> CBOpen until)"
| "next_phase threshold until outcome (CBClosed n) =
     (case outcome of
        Succeeded \<Rightarrow> CBClosed 0
      | Rate_Limited \<Rightarrow> CBClosed n
      | Raised \<Rightarrow> CBClosed n
      | Unsupported \<Rightarrow> CBOpen until
      | Failed permanent \<Rightarrow> if permanent \<or> threshold \<le> n + 1 then CBOpen until else CBClosed (n + 1))"

text \<open>What the fields of a breaker promise.\<close>

definition breaker_ok :: "breaker \<Rightarrow> bool" where
  "breaker_ok b \<longleftrightarrow>
     cb_state b \<in> set VALID_CIRCUIT_STATES \<and> 1 \<le> cb_failure_threshold b \<and> 0 \<le> cb_cooldown_seconds b \<and>
     0 \<le> cb_consecutive_failures b \<and>
     (cb_half_open_probe_available b \<longrightarrow> cb_state b = ''half_open'') \<and>
     (cb_state b = ''closed'' \<longrightarrow>
        cb_opened_at b = None \<and> cb_cooldown_until b = None \<and> cb_consecutive_failures b < cb_failure_threshold b) \<and>
     (cb_state b = ''open'' \<longrightarrow> \<not> cb_retry_eligible b \<and>
        (\<exists>t. cb_opened_at b = Some t \<and> cb_cooldown_until b = Some (t + seconds (cb_cooldown_seconds b))))"

definition breaker_settings :: "breaker \<Rightarrow> int \<times> int \<times> int option" where
  "breaker_settings b = (cb_failure_threshold b, cb_cooldown_seconds b, cb_timeout_seconds b)"

lemmas breaker_moves = reset_to_closed_success_def force_open_def complete_half_open_failure_def half_open_def
  apply_manual_operator_metadata_def manual_force_open_def apply_failure_increment_def Let_def

lemma breaker_ok_fresh [simp]: "breaker_ok fresh_breaker"
  by (simp add: breaker_ok_def fresh_breaker_def VALID_CIRCUIT_STATES_def)

lemma breaker_ok_moves:
  assumes "breaker_ok b"
  shows "breaker_ok (reset_to_closed_success b)" "breaker_ok (force_open r c t b)"
    "breaker_ok (complete_half_open_failure r t b)" "breaker_ok (manual_force_open a r t b)"
    "cb_state b = ''open'' \<Longrightarrow> breaker_ok (half_open b)"
    "breaker_ok (apply_manual_operator_metadata act a r t b)" "breaker_ok (apply_failure_increment r c t b)"
  using assms by (auto simp: breaker_ok_def breaker_moves VALID_CIRCUIT_STATES_def)

lemma settings_moves [simp]:
  "breaker_settings (reset_to_closed_success b) = breaker_settings b"
  "breaker_settings (complete_half_open_failure r t b) = breaker_settings b"
  "breaker_settings (manual_force_open a r t b) = breaker_settings b"
  "breaker_settings (half_open b) = breaker_settings b"
  "breaker_settings (apply_manual_operator_metadata act a r t b) = breaker_settings b"
  "breaker_settings (apply_failure_increment r c t b) = breaker_settings b"
  "breaker_settings (b\<lparr>cb_half_open_probe_available := p\<rparr>) = breaker_settings b"
  by (simp_all add: breaker_settings_def breaker_moves)

text \<open>The breaker after a call.\<close>

definition after_call :: "py_formats \<Rightarrow> adapter \<Rightarrow> time \<Rightarrow> string option \<Rightarrow> pyval \<Rightarrow> pyval \<Rightarrow> breaker \<Rightarrow> breaker" where
  "after_call fmt ad now action params ctx b = snd (execute_with fmt ad now action params ctx b)"

lemma integrate_breaker:
  "fst (integrate_circuit_after_simulation fmt w now d b) =
     (if truthy (dict_get d ''success'') then reset_to_closed_success b
      else if result_classification fmt d = ''provider_rate_limited'' then b
      else if w then complete_half_open_failure (message_or fmt d ''half_open probe failed'') now b
      else apply_failure_increment (message_or fmt d ''simulated failure'') (result_classification fmt d) now b)"
  by (simp add: integrate_circuit_after_simulation_def Let_def)

lemma invalid_result_classification:
  "result_classification fmt (adapter_result ad act p c False m [(''failure_classification'', PStr ''non_transient'')]) =
     ''non_transient''"
proof -
  have "lower (strip ''non_transient'') = ''non_transient''" by code_simp
  then show ?thesis by (simp add: result_classification_def adapter_result_def dict_get_def Let_def)
qed

lemma invalid_result_success:
  "dict_get (adapter_result ad act p c False m meta) ''success'' = PBool False"
  by (simp add: adapter_result_def dict_get_def Let_def)

text \<open>What the breaker becomes, by the outcome of the call.\<close>

definition failure_moves :: "time \<Rightarrow> bool \<Rightarrow> breaker \<Rightarrow> breaker set" where
  "failure_moves now permanent b =
     {apply_failure_increment r c now b |r c. permanent = (c = ''non_transient'')}"

lemma call_supported_breaker:
  assumes "can_handle ad action"
    and "b' = snd (call_supported fmt ad now (normalize_action action) (sanitize_payload params)
      (sanitize_payload ctx) w b)"
  shows "(case adapter_outcome fmt ad action params ctx of
      Succeeded \<Rightarrow> b' = reset_to_closed_success b
    | Rate_Limited \<Rightarrow> b' = b
    | Unsupported \<Rightarrow> False
    | Raised \<Rightarrow> if w then (\<exists>r. b' = complete_half_open_failure r now b) else b' = b
    | Failed permanent \<Rightarrow>
        if w then (\<exists>r. b' = complete_half_open_failure r now b) else b' \<in> failure_moves now permanent b)"
proof -
  note b' = assms(2) and can = assms(1)
  let ?run = "ad_run ad (normalize_action action) (sanitize_payload params) (sanitize_payload ctx)"
  have res: "snd (case integrate_circuit_after_simulation fmt w now d b of
      (b', result') \<Rightarrow> (Inr (merge_result_circuit_metadata b' result') :: items result, b')) =
      fst (integrate_circuit_after_simulation fmt w now d b)" for d
    by (simp add: case_prod_unfold)
  consider e where "?run = Inl e" | d where "?run = Inr (PDict d)" | v where "?run = Inr v" "\<not> is_dict v"
  proof (cases ?run)
    case (Inr v)
    then show ?thesis using that(2) that(3) by (cases v) auto
  qed
  then show ?thesis
  proof cases
    case 1
    then show ?thesis using b' can by (auto simp: adapter_outcome_def call_supported_def Let_def)
  next
    case 2
    have o: "adapter_outcome fmt ad action params ctx =
      (if truthy (dict_get d ''success'') then Succeeded
       else if result_classification fmt d = ''provider_rate_limited'' then Rate_Limited
       else Failed (result_classification fmt d = ''non_transient''))"
      using 2 can by (simp add: adapter_outcome_def)
    have "b' = fst (integrate_circuit_after_simulation fmt w now d b)"
      using b' 2 res [of d] by (simp add: call_supported_def)
    then show ?thesis unfolding integrate_breaker o
      by (auto simp: failure_moves_def)
  next
    case 3
    let ?d = "adapter_result ad (normalize_action action) (sanitize_payload params) (sanitize_payload ctx) False
       ''Adapter returned invalid simulation result.'' [(''failure_classification'', PStr ''non_transient'')]"
    have o: "adapter_outcome fmt ad action params ctx = Failed True"
      using 3 can by (cases v) (simp_all add: adapter_outcome_def)
    have "b' = fst (integrate_circuit_after_simulation fmt w now ?d b)"
      using b' 3 res [of ?d] by (cases v) (simp_all add: call_supported_def)
    then show ?thesis unfolding integrate_breaker o invalid_result_classification invalid_result_success
      by (auto simp: failure_moves_def)
  qed
qed

lemma normalize_action_idem [simp]: "normalize_action (Some (normalize_action a)) = normalize_action a"
  by (simp add: normalize_action_def split: option.split)

lemma can_handle_idem [simp]: "can_handle ad (Some (normalize_action a)) = can_handle ad a"
  by (simp add: can_handle_def)

definition probed :: "breaker \<Rightarrow> breaker" where
  "probed b = (if cb_state b = ''half_open'' then b\<lparr>cb_half_open_probe_available := False\<rparr> else b)"

lemma lets_through_iff:
  "breaker_ok b \<Longrightarrow>
     lets_through (phase_of b) \<longleftrightarrow>
       cb_state b \<noteq> ''open'' \<and> (cb_state b = ''half_open'' \<longrightarrow> cb_half_open_probe_available b)"
  by (auto simp: breaker_ok_def phase_of_def VALID_CIRCUIT_STATES_def)

lemma after_call_eq:
  assumes "breaker_ok b"
  shows "if \<not> lets_through (phase_of b) then after_call fmt ad now action params ctx b = b
    else if \<not> can_handle ad action
    then \<exists>r. after_call fmt ad now action params ctx b = apply_failure_increment r ''non_transient'' now (probed b)
    else after_call fmt ad now action params ctx b =
      snd (call_supported fmt ad now (normalize_action action) (sanitize_payload params) (sanitize_payload ctx)
        (cb_state b = ''half_open'') (probed b))"
proof -
  have "cb_state b \<in> set VALID_CIRCUIT_STATES" using assms by (simp add: breaker_ok_def)
  then show ?thesis unfolding lets_through_iff [OF assms]
    by (auto simp: after_call_def execute_with_def probed_def Let_def)
qed

lemma breaker_ok_probed: "breaker_ok b \<Longrightarrow> breaker_ok (probed b)"
  by (auto simp: breaker_ok_def probed_def)

lemma settings_probed [simp]: "breaker_settings (probed b) = breaker_settings b"
  by (simp add: probed_def)

lemma after_call_safe:
  assumes "breaker_ok b"
  shows "breaker_ok (after_call fmt ad now action params ctx b) \<and>
    breaker_settings (after_call fmt ad now action params ctx b) = breaker_settings b"
proof (cases "lets_through (phase_of b) \<and> can_handle ad action")
  case True
  then have can: "can_handle ad action" by simp
  note moves = breaker_ok_moves [OF breaker_ok_probed [OF assms]] breaker_ok_probed [OF assms]
  have "after_call fmt ad now action params ctx b = snd (call_supported fmt ad now (normalize_action action)
     (sanitize_payload params) (sanitize_payload ctx) (cb_state b = ''half_open'') (probed b))"
    using after_call_eq [OF assms, of fmt ad now action params ctx] True by simp
  from call_supported_breaker [OF can this] moves show ?thesis
    by (cases "adapter_outcome fmt ad action params ctx") (auto simp: failure_moves_def split: if_splits)
next
  case False
  then show ?thesis
    using after_call_eq [OF assms, of fmt ad now action params ctx] assms
      breaker_ok_moves(7) [OF breaker_ok_probed [OF assms]]
    by (auto split: if_splits)
qed

text \<open>The abstract effect of each move.\<close>

lemma phase_of_simps:
  "cb_state b = ''closed'' \<Longrightarrow> phase_of b = CBClosed (cb_consecutive_failures b)"
  "cb_state b = ''half_open'' \<Longrightarrow> phase_of b = CBHalfOpen (cb_half_open_probe_available b)"
  by (simp_all add: phase_of_def)

lemma phase_of_reset [simp]: "phase_of (reset_to_closed_success b) = CBClosed 0"
  by (simp add: phase_of_def reset_to_closed_success_def)

lemma phase_of_half_open_failure [simp]:
  "phase_of (complete_half_open_failure r now b) = CBOpen (now + seconds (cb_cooldown_seconds b))"
  by (simp add: phase_of_def complete_half_open_failure_def)

lemma phase_of_failure:
  assumes "cb_state b \<noteq> ''open''" "cb_state b = ''half_open'' \<longrightarrow> c = ''non_transient''" "cb_state b \<in> set VALID_CIRCUIT_STATES"
  shows "phase_of (apply_failure_increment r c now b) =
    (if c = ''non_transient'' \<or> cb_failure_threshold b \<le> cb_consecutive_failures b + 1
     then CBOpen (now + seconds (cb_cooldown_seconds b)) else CBClosed (cb_consecutive_failures b + 1))"
  using assms by (auto simp: phase_of_def apply_failure_increment_def force_open_def VALID_CIRCUIT_STATES_def Let_def)

lemma blocked_result:
  assumes "breaker_ok b" "\<not> lets_through (phase_of b)"
  shows "\<exists>d. execute_with fmt ad now action params ctx b = (Inr d, b) \<and> dict_get d ''success'' = PBool False"
proof -
  have *: "dict_get (merge_result_circuit_metadata b (adapter_result ad act p c False m meta)) ''success'' = PBool False"
    for act p c m meta
    by (simp add: merge_result_circuit_metadata_def adapter_result_def dict_setdefault_def dict_has_def dict_get_set
        Let_def dict_get_def map_of_dict_set)
  have "cb_state b \<in> set VALID_CIRCUIT_STATES" using assms(1) by (simp add: breaker_ok_def)
  with assms(2) show ?thesis unfolding lets_through_iff [OF assms(1)]
    using * by (auto simp: execute_with_def Let_def)
qed

subsection \<open>The store\<close>

text \<open>Everything that changes a breaker while the process runs. \<open>configure\<close> and the reset of the
  whole store are hooks of the tests and are left out.\<close>

inductive breaker_op :: "py_formats \<Rightarrow> breaker_store \<Rightarrow> breaker_store \<Rightarrow> bool" for fmt where
  execute: "breaker_op fmt s (snd (execute_adapter fmt ad now action params ctx s))"
| snapshot: "breaker_op fmt s (snd (get_simulated_circuit_breaker_dict fmt n s))"
| probe: "breaker_op fmt s (snd (request_half_open_probe n now s))"
| failure: "breaker_op fmt s (record_simulated_adapter_failure n reason classification now s)"
| success: "breaker_op fmt s (record_simulated_adapter_success n s)"
| reset: "breaker_op fmt s (snd (manual_reset_simulated_circuit_breaker fmt n actor reason now s))"
| force_open: "breaker_op fmt s (snd (manual_force_open_simulated_circuit_breaker fmt n actor reason now s))"
| enable_probe: "breaker_op fmt s
    (snd (manual_enable_half_open_probe_simulated_circuit_breaker fmt n actor reason over now s))"

definition breakers_ok :: "breaker_store \<Rightarrow> bool" where
  "breakers_ok s \<longleftrightarrow> (\<forall>b \<in> ran s. breaker_ok b)"

definition settings_kept :: "breaker_store \<Rightarrow> breaker_store \<Rightarrow> bool" where
  "settings_kept s s' \<longleftrightarrow>
     (\<forall>k b. s k = Some b \<longrightarrow> (\<exists>b'. s' k = Some b' \<and> breaker_settings b' = breaker_settings b))"

lemma breaker_at_ok: "breakers_ok s \<Longrightarrow> breaker_ok (breaker_at k s)"
  by (auto simp: breaker_at_def breakers_ok_def ran_def split: option.split)

lemma put_breaker_safe:
  assumes "breakers_ok s" "breaker_ok b" "breaker_settings b = breaker_settings (breaker_at k s)"
  shows "breakers_ok (s(k \<mapsto> b)) \<and> settings_kept s (s(k \<mapsto> b))"
proof
  show "breakers_ok (s(k \<mapsto> b))" using assms(1,2) by (auto simp: breakers_ok_def ran_def)
  show "settings_kept s (s(k \<mapsto> b))" using assms(3) by (auto simp: settings_kept_def breaker_at_def)
qed

lemma get_modify [simp]:
  "snd (get_circuit_state n s) = s(normalize_adapter_key n \<mapsto> breaker_at (normalize_adapter_key n) s)"
  "fst (get_circuit_state n s) = breaker_at (normalize_adapter_key n) s"
  "breaker_at k (s(k \<mapsto> b)) = b"
  by (simp_all add: get_circuit_state_def breaker_at_def Let_def)

lemma get_circuit_state_eq:
  "get_circuit_state n s =
     (breaker_at (normalize_adapter_key n) s, s(normalize_adapter_key n \<mapsto> breaker_at (normalize_adapter_key n) s))"
  by (simp add: get_circuit_state_def Let_def)

lemma put_breaker:
  assumes "breaker_ok b" "breaker_settings b = breaker_settings (breaker_at k s)"
  shows "\<exists>k' b'. s(k \<mapsto> b) = s(k' \<mapsto> b') \<and> breaker_ok b' \<and> breaker_settings b' = breaker_settings (breaker_at k' s)"
  using assms by blast

text \<open>Each operation puts one breaker back, moved or as it was.\<close>

lemma breaker_op_puts:
  assumes "breaker_op fmt s s'" "breakers_ok s"
  shows "\<exists>k b. s' = s(k \<mapsto> b) \<and> breaker_ok b \<and> breaker_settings b = breaker_settings (breaker_at k s)"
  using assms
proof (cases rule: breaker_op.cases)
  case (execute ad now action params ctx)
  then show ?thesis
    using after_call_safe [OF breaker_at_ok [OF assms(2)], of fmt ad now action params ctx "normalize_adapter_key (ad_name ad)"]
    by (auto simp: execute_adapter_def get_circuit_state_eq after_call_def case_prod_unfold)
next
  case (probe n now)
  then show ?thesis
    using breaker_at_ok [OF assms(2), of "normalize_adapter_key n"] breaker_ok_moves(5)
    by (auto simp: request_half_open_probe_def get_circuit_state_eq modify_breaker_def Let_def intro!: put_breaker)
next
  case (enable_probe n actor reason over now)
  then show ?thesis
    using breaker_at_ok [OF assms(2), of "normalize_adapter_key n"] breaker_ok_moves(5,6)
    by (auto simp: manual_enable_half_open_probe_simulated_circuit_breaker_def get_circuit_state_eq modify_breaker_def
        get_simulated_circuit_breaker_dict_def Let_def intro!: put_breaker)
qed (use breaker_at_ok [OF assms(2)] breaker_ok_moves in
    \<open>auto simp: get_simulated_circuit_breaker_dict_def record_simulated_adapter_failure_def
       record_simulated_adapter_success_def manual_reset_simulated_circuit_breaker_def
       manual_force_open_simulated_circuit_breaker_def get_circuit_state_eq modify_breaker_def Let_def
       intro!: put_breaker\<close>)

interpretation breaker_ops: store_ops "breaker_op fmt" breakers_ok settings_kept for fmt
proof unfold_locales
  show "breaker_op fmt s s' \<Longrightarrow> breakers_ok s \<Longrightarrow> breakers_ok s'"
    and "breaker_op fmt s s' \<Longrightarrow> breakers_ok s \<Longrightarrow> settings_kept s s'" for s s'
    using breaker_op_puts put_breaker_safe by blast+
  show "settings_kept s s" for s by (simp add: settings_kept_def)
  show "settings_kept s s' \<Longrightarrow> settings_kept s' s'' \<Longrightarrow> settings_kept s s''" for s s' s''
    unfolding settings_kept_def by metis
qed

lemma breakers_ok_empty [simp]: "breakers_ok Map.empty"
  by (simp add: breakers_ok_def)

text \<open>Only calls of adapters, at any times.\<close>

definition execute_step :: "py_formats \<Rightarrow> breaker_store \<Rightarrow> breaker_store \<Rightarrow> bool" where
  "execute_step fmt s s' \<longleftrightarrow> (\<exists>ad now action params ctx. s' = snd (execute_adapter fmt ad now action params ctx s))"

text \<open>Calls, requests for a probe, and an operator's attempts to enable one.\<close>

definition recovery_attempt :: "py_formats \<Rightarrow> breaker_store \<Rightarrow> breaker_store \<Rightarrow> bool" where
  "recovery_attempt fmt s s' \<longleftrightarrow>
     execute_step fmt s s' \<or> (\<exists>n now. s' = snd (request_half_open_probe n now s)) \<or>
     (\<exists>n actor reason over now. s' =
        snd (manual_enable_half_open_probe_simulated_circuit_breaker fmt n actor reason over now s))"

lemma execute_step_blocked:
  assumes "execute_step fmt s s'" "s k = Some b" "breaker_ok b" "\<not> lets_through (phase_of b)"
  shows "s' k = Some b"
proof -
  obtain ad now action params ctx where s': "s' = snd (execute_adapter fmt ad now action params ctx s)"
    using assms(1) by (auto simp: execute_step_def)
  show ?thesis
  proof (cases "normalize_adapter_key (ad_name ad) = k")
    case True
    then have "breaker_at k s = b" using assms(2) by (simp add: breaker_at_def)
    moreover have "after_call fmt ad now action params ctx b = b"
      using after_call_eq [OF assms(3), of fmt ad now action params ctx] assms(4) by simp
    ultimately show ?thesis using True
      by (simp add: s' execute_adapter_def get_circuit_state_eq case_prod_unfold flip: after_call_def)
  next
    case False
    then show ?thesis using assms(2)
      by (simp add: s' execute_adapter_def get_circuit_state_eq case_prod_unfold)
  qed
qed

subsection \<open>Properties\<close>

lemma breaker_refines_phases_eq:
  assumes "breaker_ok b"
  shows "phase_of (after_call fmt ad now action params ctx b) =
      next_phase (cb_failure_threshold b) (now + seconds (cb_cooldown_seconds b))
        (adapter_outcome fmt ad action params ctx) (phase_of b)"
proof (cases "lets_through (phase_of b)")
  case False
  have "next_phase thr u out (phase_of b) = phase_of b" for thr u out
    using False by (cases "phase_of b") auto
  with False show ?thesis using after_call_eq [OF assms, of fmt ad now action params ctx] by simp
next
  case True
  then have st: "cb_state b = ''closed'' \<or> cb_state b = ''half_open'' \<and> cb_half_open_probe_available b"
    using assms lets_through_iff [OF assms] by (auto simp: breaker_ok_def VALID_CIRCUIT_STATES_def)
  let ?out = "adapter_outcome fmt ad action params ctx"
  have probed: "cb_failure_threshold (probed b) = cb_failure_threshold b" "cb_cooldown_seconds (probed b) = cb_cooldown_seconds b"
    "cb_consecutive_failures (probed b) = cb_consecutive_failures b" "cb_state (probed b) = cb_state b"
    "cb_state b = ''half_open'' \<Longrightarrow> \<not> cb_half_open_probe_available (probed b)" "cb_state b \<noteq> ''half_open'' \<Longrightarrow> probed b = b"
    by (simp_all add: probed_def phase_of_def)
  show ?thesis
  proof (cases "can_handle ad action")
    case False
    then have "?out = Unsupported" by (simp add: adapter_outcome_def)
    then show ?thesis
      using after_call_eq [OF assms, of fmt ad now action params ctx] True False st
      by (auto simp: phase_of_simps phase_of_failure probed VALID_CIRCUIT_STATES_def)
  next
    case can: True
    have "after_call fmt ad now action params ctx b = snd (call_supported fmt ad now (normalize_action action)
       (sanitize_payload params) (sanitize_payload ctx) (cb_state b = ''half_open'') (probed b))"
      using after_call_eq [OF assms, of fmt ad now action params ctx] True can by simp
    from call_supported_breaker [OF can this] st show ?thesis
      by (cases ?out) (auto simp: phase_of_simps phase_of_failure probed failure_moves_def VALID_CIRCUIT_STATES_def)
  qed
qed

lemma breaker_ok_half: "breaker_ok b \<Longrightarrow> cb_state b \<noteq> ''closed'' \<Longrightarrow> cb_state b \<noteq> ''open'' \<Longrightarrow> cb_state b = ''half_open''"
  by (simp add: breaker_ok_def VALID_CIRCUIT_STATES_def)


text \<open>C37: In every store the process can reach, each breaker is in one of the three states with
  positive threshold and the settings it was created with; a closed breaker has fewer consecutive
  failures than the threshold and no opening time, an open one is not eligible for a retry and its
  cooldown ends exactly the configured time after it opened, and the probe exists only half open.\<close>

theorem breakers_consistent:
  assumes "(breaker_op fmt)\<^sup>*\<^sup>* Map.empty s" "s key = Some b" "(breaker_op fmt)\<^sup>*\<^sup>* s s'"
  shows "cb_state b \<in> {''closed'', ''open'', ''half_open''} \<and>
    0 \<le> cb_consecutive_failures b \<and> 1 \<le> cb_failure_threshold b \<and>
    (cb_half_open_probe_available b \<longrightarrow> cb_state b = ''half_open'') \<and>
    (cb_state b = ''closed'' \<longrightarrow>
       cb_consecutive_failures b < cb_failure_threshold b \<and> cb_opened_at b = None \<and> cb_cooldown_until b = None) \<and>
    (cb_state b = ''open'' \<longrightarrow> \<not> cb_retry_eligible b \<and>
       (\<exists>t. cb_opened_at b = Some t \<and> cb_cooldown_until b = Some (t + seconds (cb_cooldown_seconds b)))) \<and>
    (\<exists>b'. s' key = Some b' \<and> breaker_settings b' = breaker_settings b)"
proof -
  have "breakers_ok s" using assms(1) by (rule breaker_ops.ops_inv) simp
  then have b: "breaker_ok b" using assms(2) by (auto simp: breakers_ok_def ran_def)
  have "settings_kept s s'" using assms(3) \<open>breakers_ok s\<close> by (rule breaker_ops.ops_rel)
  then have "\<exists>b'. s' key = Some b' \<and> breaker_settings b' = breaker_settings b"
    using assms(2) by (simp add: settings_kept_def)
  then show ?thesis using b by (auto simp: breaker_ok_def VALID_CIRCUIT_STATES_def)
qed

text \<open>As written, an open breaker stays as it is through every sequence of calls, however much time passes: the
  end of the cooldown alone does not let a call through, although \<open>docs/soar_upgrade_roadmap.md\<close> (3F) has the
  adapter enter the half-open state by itself then. It recovers through a probe that is asked
  for: from the end of the cooldown on the request succeeds, and one successful call then closes
  the breaker with no failure counted.\<close>

lemma open_breaker_recovers_by_probe:
  assumes "s key = Some b" "breaker_ok b" "cb_state b = ''open''" "key = normalize_adapter_key (ad_name ad)"
    and "(execute_step fmt)\<^sup>*\<^sup>* s s'"
    and "cb_cooldown_until b = Some until" "until \<le> now"
    and "adapter_outcome fmt ad action params ctx = Succeeded"
  shows "s' key = Some b \<and>
    fst (request_half_open_probe (ad_name ad) now s') \<and>
    (\<exists>b'. snd (execute_adapter fmt ad later action params ctx (snd (request_half_open_probe (ad_name ad) now s'))) key =
        Some b' \<and> phase_of b' = CBClosed 0)"
proof -
  have blocked: "\<not> lets_through (phase_of b)" using assms(2,3) by (simp add: lets_through_iff)
  have kept: "s' key = Some b" using assms(5)
    by (induction rule: rtranclp_induct) (use assms(1,2) blocked execute_step_blocked in blast)+
  have at: "breaker_at key s' = b" using kept by (simp add: breaker_at_def)
  have probe: "request_half_open_probe (ad_name ad) now s' = (True, s'(key \<mapsto> half_open b))"
    using assms(3,6,7) at by (simp add: request_half_open_probe_def get_circuit_state_eq modify_breaker_def
        cooling_down_def Let_def flip: assms(4))
  have ok: "breaker_ok (half_open b)" using breaker_ok_moves(5) assms(2,3) by blast
  have phase: "phase_of (half_open b) = CBHalfOpen True" by (simp add: phase_of_def half_open_def)
  have "phase_of (after_call fmt ad later action params ctx (half_open b)) = CBClosed 0"
    using breaker_refines_phases_eq [OF ok, of fmt ad later action params ctx] assms(8) phase by simp
  then show ?thesis
    by (simp add: kept probe execute_adapter_def get_circuit_state_eq case_prod_unfold flip: assms(4) after_call_def)
qed

text \<open>A probe that runs into the rate limit of its adapter is lost: the breaker stays half open
  without a probe, and from then on neither calls of the adapter nor requests for another probe, by
  the program or by an operator, at whatever time, change it; every call fails.\<close>

theorem probe_lost_to_rate_limit:
  assumes "s key = Some b" "breaker_ok b" "phase_of b = CBHalfOpen True" "key = normalize_adapter_key (ad_name ad)"
    and "adapter_outcome fmt ad action params ctx = Rate_Limited"
    and "(recovery_attempt fmt)\<^sup>*\<^sup>* (snd (execute_adapter fmt ad now action params ctx s)) s'"
  shows "\<exists>b'. s' key = Some b' \<and> phase_of b' = CBHalfOpen False \<and>
    (\<exists>d. fst (execute_adapter fmt ad later action' params' ctx' s') = Inr d \<and> dict_get d ''success'' = PBool False)"
proof -
  let ?b = "after_call fmt ad now action params ctx b"
  have at: "breaker_at key s = b" using assms(1) by (simp add: breaker_at_def)
  have ok: "breaker_ok ?b" using after_call_safe [OF assms(2)] by blast
  have phase: "phase_of ?b = CBHalfOpen False"
    using breaker_refines_phases_eq [OF assms(2), of fmt ad now action params ctx] assms(3,5) by simp
  then have blocked: "\<not> lets_through (phase_of ?b)" and st: "cb_state ?b = ''half_open''"
    by (auto simp: phase_of_def split: if_splits dest: breaker_ok_half [OF ok])
  have first: "snd (execute_adapter fmt ad now action params ctx s) key = Some ?b"
    by (simp add: at execute_adapter_def get_circuit_state_eq case_prod_unfold flip: assms(4) after_call_def)
  have step: "t' key = Some ?b" if t: "t key = Some ?b" "recovery_attempt fmt t t'" for t t'
    using t(2) unfolding recovery_attempt_def
  proof (elim disjE exE)
    assume "execute_step fmt t t'"
    then show ?thesis using t(1) ok blocked by (rule execute_step_blocked)
  next
    fix n now assume "t' = snd (request_half_open_probe n now t)"
    then show ?thesis using t(1) st
      by (auto simp: request_half_open_probe_def get_circuit_state_eq modify_breaker_def breaker_at_def Let_def)
  next
    fix n actor reason over now
    assume "t' = snd (manual_enable_half_open_probe_simulated_circuit_breaker fmt n actor reason over now t)"
    then show ?thesis using t(1) st
      by (auto simp: manual_enable_half_open_probe_simulated_circuit_breaker_def get_circuit_state_eq modify_breaker_def
          breaker_at_def get_simulated_circuit_breaker_dict_def Let_def)
  qed
  have kept: "s' key = Some ?b" using assms(6)
    by (induction rule: rtranclp_induct) (use first step in blast)+
  then have at': "breaker_at key s' = ?b" by (simp add: breaker_at_def)
  obtain d where d: "execute_with fmt ad later action' params' ctx' ?b = (Inr d, ?b)" "dict_get d ''success'' = PBool False"
    using blocked_result [OF ok blocked] by blast
  have "fst (execute_adapter fmt ad later action' params' ctx' s') = Inr d"
    unfolding execute_adapter_def get_circuit_state_eq assms(4) [symmetric] at' prod.case d(1) by simp
  then show ?thesis using kept phase d(2) by blast
qed

subsection \<open>Witnesses\<close>

definition wit_breaker_formats :: py_formats where
  "wit_breaker_formats = \<lparr>float_repr = (\<lambda>_. ''0.0''), float_parse = (\<lambda>_. None), int_round = of_int,
     time_str = show_int, time_iso = show_int\<rparr>"

text \<open>A firewall adapter, and one that always runs into its rate limit.\<close>

definition wit_firewall :: adapter where
  "wit_firewall = \<lparr>ad_name = ''Firewall'', ad_supported_actions = FIREWALL_ACTIONS, ad_mode = ''simulation'',
     ad_run = (\<lambda>act p c. Inr (PDict [(''success'', PBool True)]))\<rparr>"

definition wit_limited :: adapter where
  "wit_limited = wit_firewall\<lparr>ad_run := (\<lambda>act p c. Inr (PDict [(''success'', PBool False),
     (''metadata'', PDict [(''failure_classification'', PStr ''provider_rate_limited'')])]))\<rparr>"

definition wit_open :: breaker where
  "wit_open = force_open ''down'' ''transient'' 0 fresh_breaker"

definition wit_store :: breaker_store where
  "wit_store = [''firewall'' \<mapsto> wit_open]"

lemma wit_open_ok: "breaker_ok wit_open" "breaker_ok (half_open wit_open)"
proof -
  show "breaker_ok wit_open" unfolding wit_open_def by (rule breaker_ok_moves(2)) simp
  moreover have "cb_state wit_open = ''open''" by (simp add: wit_open_def force_open_def)
  ultimately show "breaker_ok (half_open wit_open)" by (rule breaker_ok_moves(5))
qed

lemma wit_outcomes:
  "adapter_outcome wit_breaker_formats wit_firewall (Some ''block_ip'') PNone PNone = Succeeded"
  "adapter_outcome wit_breaker_formats wit_limited (Some ''block_ip'') PNone PNone = Rate_Limited"
  by code_simp+

lemma wit_key: "''firewall'' = normalize_adapter_key (ad_name wit_firewall)"
  "''firewall'' = normalize_adapter_key (ad_name wit_limited)"
  by code_simp+


theorem breakers_consistent_witness:
  "\<exists>b. record_simulated_adapter_success ''firewall'' Map.empty ''firewall'' = Some b \<and>
     cb_consecutive_failures b < cb_failure_threshold b"
proof -
  let ?s = "record_simulated_adapter_success ''firewall'' Map.empty"
  have r: "(breaker_op wit_breaker_formats)\<^sup>*\<^sup>* Map.empty ?s" by (rule r_into_rtranclp) (rule breaker_op.success)
  have k: "normalize_adapter_key ''firewall'' = ''firewall''" by code_simp
  have s: "?s ''firewall'' = Some (reset_to_closed_success fresh_breaker)"
    by (simp add: record_simulated_adapter_success_def modify_breaker_def k breaker_at_def Let_def)
  have "cb_state (reset_to_closed_success fresh_breaker) = ''closed''" by (simp add: reset_to_closed_success_def)
  with breakers_consistent [OF r s rtranclp.rtrancl_refl] s show ?thesis by simp
qed

theorem open_breaker_recovers_by_probe_witness:
  "fst (request_half_open_probe ''Firewall'' (seconds 60) wit_store) \<and>
   (\<exists>b. snd (execute_adapter wit_breaker_formats wit_firewall (seconds 61) (Some ''block_ip'') PNone PNone
       (snd (request_half_open_probe ''Firewall'' (seconds 60) wit_store))) ''firewall'' = Some b \<and>
     phase_of b = CBClosed 0)"
proof -
  have s: "wit_store ''firewall'' = Some wit_open" by (simp add: wit_store_def)
  have o: "cb_state wit_open = ''open''" "cb_cooldown_until wit_open = Some (seconds 60)"
    by (simp_all add: wit_open_def force_open_def fresh_breaker_def)
  have n: "ad_name wit_firewall = ''Firewall''" by (simp add: wit_firewall_def)
  have r: "(execute_step wit_breaker_formats)\<^sup>*\<^sup>* wit_store wit_store" by (rule rtranclp.rtrancl_refl)
  have t: "seconds 60 \<le> seconds 60" by simp
  from open_breaker_recovers_by_probe [OF s wit_open_ok(1) o(1) wit_key(1) r o(2) t wit_outcomes(1), of "seconds 61"] show ?thesis unfolding n by blast
qed

theorem probe_lost_to_rate_limit_witness:
  "\<exists>b. snd (execute_adapter wit_breaker_formats wit_limited 5 (Some ''block_ip'') PNone PNone
      [''firewall'' \<mapsto> half_open wit_open]) ''firewall'' = Some b \<and> phase_of b = CBHalfOpen False"
proof -
  have s: "[''firewall'' \<mapsto> half_open wit_open] ''firewall'' = Some (half_open wit_open)" by simp
  have p: "phase_of (half_open wit_open) = CBHalfOpen True" by (simp add: phase_of_def half_open_def)
  let ?s = "snd (execute_adapter wit_breaker_formats wit_limited 5 (Some ''block_ip'') PNone PNone
      [''firewall'' \<mapsto> half_open wit_open])"
  have r: "(recovery_attempt wit_breaker_formats)\<^sup>*\<^sup>* ?s ?s" by (rule rtranclp.rtrancl_refl)
  from probe_lost_to_rate_limit [OF s wit_open_ok(2) p wit_key(2) wit_outcomes(2) r] show ?thesis by blast
qed

end
