(* ===== verification/Rate_Limiter.thy ===== *)
theory Rate_Limiter
  imports Py_Values
begin

text \<open>
  The in-process rate limiter of the adapters, \<open>integrations/adapter_rate_limiter.py\<close>: per adapter a
  queue of the times of its recent sends, trimmed at each call. Shown here: the queue decides as
  the full history of sends would, and no sixty seconds see more sends than the limit. Times are
  the monotonic clock's seconds; the rounding of their differences is left out.
\<close>

subsection \<open>The limiter\<close>

type_synonym attempts = "string \<Rightarrow> rat list"

text \<open>\<open>os.getenv\<close>\<close>

type_synonym env = "string \<Rightarrow> string option"

definition DEFAULT_RATE_LIMITS_PER_MINUTE :: "string \<Rightarrow> int option" where
  "DEFAULT_RATE_LIMITS_PER_MINUTE =
     map_of [(''slack'', 20), (''teams'', 20), (''email'', 10), (''webhook'', 30)]"

definition RATE_LIMIT_ENVS :: "string \<Rightarrow> string option" where
  "RATE_LIMIT_ENVS =
     map_of [(''slack'', ''SLACK_MAX_SENDS_PER_MINUTE''), (''teams'', ''TEAMS_MAX_SENDS_PER_MINUTE''),
             (''email'', ''EMAIL_MAX_SENDS_PER_MINUTE''), (''webhook'', ''WEBHOOK_MAX_SENDS_PER_MINUTE'')]"

definition WINDOW_SECONDS :: int where
  "WINDOW_SECONDS = 60"

definition normalize_adapter :: "string \<Rightarrow> string" where
  "normalize_adapter adapter_name = lower (strip adapter_name)"

definition reset_adapter_rate_limiters :: "string option \<Rightarrow> attempts \<Rightarrow> attempts" where
  "reset_adapter_rate_limiters adapter_name a =
     (case adapter_name of None \<Rightarrow> (\<lambda>_. []) | Some n \<Rightarrow> a(normalize_adapter n := []))"

definition limit_for_adapter :: "env \<Rightarrow> string \<Rightarrow> int" where
  "limit_for_adapter env adapter_name =
     (let adapter = normalize_adapter adapter_name;
          default = (case DEFAULT_RATE_LIMITS_PER_MINUTE adapter of None \<Rightarrow> 10 | Some n \<Rightarrow> n);
          raw = (case RATE_LIMIT_ENVS adapter of
                   None \<Rightarrow> show_int default
                 | Some name \<Rightarrow> strip (case env name of None \<Rightarrow> show_int default | Some v \<Rightarrow> v))
      in case parse_int raw of None \<Rightarrow> default | Some value \<Rightarrow> max 1 (min value 1000))"

text \<open>Whole seconds, rounded up: \<open>int(r) + (1 if r % 1 else 0)\<close> of a non-negative number.\<close>

definition window_seconds :: "rat \<Rightarrow> int" where
  "window_seconds r = \<lfloor>r\<rfloor> + (if r = of_int \<lfloor>r\<rfloor> then 0 else 1)"

definition check_adapter_rate_limit :: "env \<Rightarrow> string \<Rightarrow> rat \<Rightarrow> attempts \<Rightarrow> items \<times> attempts" where
  "check_adapter_rate_limit env adapter_name current a =
     (let adapter = normalize_adapter adapter_name;
          lim = limit_for_adapter env adapter;
          window_start = current - of_int WINDOW_SECONDS;
          bucket = dropWhile (\<lambda>t. t \<le> window_start) (a adapter)
      in if lim \<le> int (length bucket)
         then let reset_after = (case bucket of [] \<Rightarrow> of_int WINDOW_SECONDS
                                 | t # _ \<Rightarrow> max 0 (of_int WINDOW_SECONDS - (current - t)))
              in ([(''allowed'', PBool False), (''adapter'', PStr adapter), (''limit'', PInt lim),
                   (''window_seconds'', PInt WINDOW_SECONDS), (''remaining'', PInt 0),
                   (''reset_after_seconds'', PInt (window_seconds reset_after)),
                   (''failure_classification'', PStr ''provider_rate_limited''), (''retry_eligible'', PBool True)],
                  a(adapter := bucket))
         else ([(''allowed'', PBool True), (''adapter'', PStr adapter), (''limit'', PInt lim),
                (''window_seconds'', PInt WINDOW_SECONDS),
                (''remaining'', PInt (max 0 (lim - int (length (bucket @ [current]))))),
                (''reset_after_seconds'', PInt 0), (''failure_classification'', PNone), (''retry_eligible'', PBool False)],
               a(adapter := bucket @ [current])))"

subsection \<open>The reference: the full history\<close>

text \<open>A history of calls for one adapter: the environment and the time of each. The decisions of the
  limiter, and those a log of all sends gives.\<close>

fun limiter_decisions :: "string \<Rightarrow> (env \<times> rat) list \<Rightarrow> attempts \<Rightarrow> bool list" where
  "limiter_decisions adapter [] a = []"
| "limiter_decisions adapter ((env, now) # calls) a =
     (case check_adapter_rate_limit env adapter now a of
        (r, a') \<Rightarrow> (dict_get r ''allowed'' = PBool True) # limiter_decisions adapter calls a')"

fun log_decisions :: "string \<Rightarrow> (env \<times> rat) list \<Rightarrow> rat list \<Rightarrow> bool list" where
  "log_decisions adapter [] hist = []"
| "log_decisions adapter ((env, now) # calls) hist =
     (let ok = int (length (filter (\<lambda>t. now - 60 < t) hist)) < limit_for_adapter env adapter
      in ok # log_decisions adapter calls (if ok then hist @ [now] else hist))"

text \<open>The times at which a send was allowed.\<close>

definition sends :: "(env \<times> rat) list \<Rightarrow> bool list \<Rightarrow> rat list" where
  "sends calls decisions = map (snd \<circ> fst) (filter snd (zip calls decisions))"

subsection \<open>Lemmas\<close>

lemma normalize_adapter_idem [simp]: "normalize_adapter (normalize_adapter n) = normalize_adapter n"
  by (simp add: normalize_adapter_def)

lemma limit_normalized [simp]: "limit_for_adapter env (normalize_adapter n) = limit_for_adapter env n"
  by (simp add: limit_for_adapter_def)

lemma filter_mono_length:
  assumes "\<And>x. x \<in> set xs \<Longrightarrow> P x \<Longrightarrow> Q x"
  shows "length (filter P xs) \<le> length (filter Q xs)"
  using assms by (induction xs) (auto simp: le_SucI)

lemma dropWhile_sorted:
  fixes w :: rat
  shows "sorted xs \<Longrightarrow> dropWhile (\<lambda>t. t \<le> w) xs = filter (\<lambda>t. w < t) xs"
proof (induction xs)
  case (Cons x xs)
  have "filter (\<lambda>t. w < t) xs = xs" if "w < x"
    using Cons.prems that by (intro filter_True) auto
  with Cons show ?case by auto
qed simp

lemma check_bucket:
  assumes "a (normalize_adapter n) = filter (\<lambda>t. w < t) hist" "sorted hist" "w \<le> now - 60"
  shows "check_adapter_rate_limit env n now a =
    (let ok = int (length (filter (\<lambda>t. now - 60 < t) hist)) < limit_for_adapter env n
     in (fst (check_adapter_rate_limit env n now a),
         a(normalize_adapter n := filter (\<lambda>t. now - 60 < t) (if ok then hist @ [now] else hist))))"
    and "(dict_get (fst (check_adapter_rate_limit env n now a)) ''allowed'' = PBool True) =
      (int (length (filter (\<lambda>t. now - 60 < t) hist)) < limit_for_adapter env n)"
proof -
  have "sorted (filter (\<lambda>t. w < t) hist)" using assms(2) by (rule sorted_filter [of "\<lambda>x. x", simplified])
  then have "dropWhile (\<lambda>t. t \<le> now - 60) (filter (\<lambda>t. w < t) hist) = filter (\<lambda>t. now - 60 < t) (filter (\<lambda>t. w < t) hist)"
    by (rule dropWhile_sorted)
  also have "\<dots> = filter (\<lambda>t. now - 60 < t) hist" using assms(3) by (auto intro: filter_cong)
  finally have bucket: "dropWhile (\<lambda>t. t \<le> now - 60) (a (normalize_adapter n)) = filter (\<lambda>t. now - 60 < t) hist"
    by (simp add: assms(1))
  show "check_adapter_rate_limit env n now a =
    (let ok = int (length (filter (\<lambda>t. now - 60 < t) hist)) < limit_for_adapter env n
     in (fst (check_adapter_rate_limit env n now a),
         a(normalize_adapter n := filter (\<lambda>t. now - 60 < t) (if ok then hist @ [now] else hist))))"
    by (simp add: check_adapter_rate_limit_def WINDOW_SECONDS_def bucket Let_def)
  show "(dict_get (fst (check_adapter_rate_limit env n now a)) ''allowed'' = PBool True) =
      (int (length (filter (\<lambda>t. now - 60 < t) hist)) < limit_for_adapter env n)"
    by (simp add: check_adapter_rate_limit_def WINDOW_SECONDS_def bucket dict_get_def Let_def)
qed

lemma decisions_agree:
  assumes "a (normalize_adapter n) = filter (\<lambda>t. w < t) hist" "sorted hist"
    and "\<forall>t \<in> set hist. \<forall>c \<in> set calls. t \<le> snd c" "\<forall>c \<in> set calls. w \<le> snd c - 60" "sorted (map snd calls)"
  shows "limiter_decisions n calls a = log_decisions n calls hist"
  using assms
proof (induction calls arbitrary: a w hist)
  case (Cons c calls)
  obtain env now where c: "c = (env, now)" by (cases c)
  let ?ok = "int (length (filter (\<lambda>t. now - 60 < t) hist)) < limit_for_adapter env n"
  let ?hist = "if ?ok then hist @ [now] else hist"
  let ?a = "a(normalize_adapter n := filter (\<lambda>t. now - 60 < t) ?hist)"
  have w: "w \<le> now - 60" using Cons.prems(4) c by simp
  note step = check_bucket [where a = a and n = n and w = w and hist = hist and now = now, OF Cons.prems(1,2) w, of env]
  have "limiter_decisions n calls ?a = log_decisions n calls ?hist"
  proof (rule Cons.IH)
    show "?a (normalize_adapter n) = filter (\<lambda>t. now - 60 < t) ?hist" by simp
    show "sorted ?hist" using Cons.prems(2,3) c by (auto simp: sorted_append)
    show "\<forall>t \<in> set ?hist. \<forall>c \<in> set calls. t \<le> snd c" using Cons.prems(3,5) c by auto
    show "\<forall>c \<in> set calls. now - 60 \<le> snd c - 60" using Cons.prems(5) c by auto
    show "sorted (map snd calls)" using Cons.prems(5) by simp
  qed
  moreover have "limiter_decisions n (c # calls) a = ?ok # limiter_decisions n calls ?a"
    unfolding c limiter_decisions.simps by (subst step(1)) (simp add: step(2) Let_def)
  ultimately show ?case by (simp add: c Let_def)
qed simp

text \<open>The number of sends in the sixty seconds up to a time.\<close>

definition in_window :: "rat \<Rightarrow> rat list \<Rightarrow> nat" where
  "in_window t hist = length (filter (\<lambda>x. t - 60 < x \<and> x \<le> t) hist)"

lemma window_bound:
  assumes "\<forall>c \<in> set calls. limit_for_adapter (fst c) n \<le> bound" "sorted (map snd calls)"
    and "\<forall>t \<in> set hist. \<forall>c \<in> set calls. t \<le> snd c" "\<forall>t. int (in_window t hist) \<le> bound"
  shows "int (in_window t (hist @ sends calls (log_decisions n calls hist))) \<le> bound"
  using assms
proof (induction calls arbitrary: hist)
  case (Cons c calls)
  obtain env now where c: "c = (env, now)" by (cases c)
  let ?ok = "int (length (filter (\<lambda>t. now - 60 < t) hist)) < limit_for_adapter env n"
  let ?hist = "if ?ok then hist @ [now] else hist"
  have below: "\<forall>x \<in> set hist. x \<le> now" using Cons.prems(3) c by simp
  have grown: "int (in_window u (hist @ [now])) \<le> bound" if ok: ?ok for u
  proof (cases "u - 60 < now \<and> now \<le> u")
    case True
    have "length (filter (\<lambda>x. u - 60 < x \<and> x \<le> u) hist) \<le> length (filter (\<lambda>t. now - 60 < t) hist)"
      using True by (intro filter_mono_length) auto
    with ok Cons.prems(1) True show ?thesis by (simp add: c in_window_def)
  next
    case False
    then have "in_window u (hist @ [now]) = in_window u hist" by (auto simp: in_window_def)
    then show ?thesis using Cons.prems(4) by simp
  qed
  have "int (in_window t (?hist @ sends calls (log_decisions n calls ?hist))) \<le> bound"
  proof (rule Cons.IH)
    show "\<forall>c \<in> set calls. limit_for_adapter (fst c) n \<le> bound" "sorted (map snd calls)"
      using Cons.prems(1,2) by simp_all
    show "\<forall>t \<in> set ?hist. \<forall>c \<in> set calls. t \<le> snd c" using Cons.prems(2,3) c by auto
    show "\<forall>t. int (in_window t ?hist) \<le> bound" using grown Cons.prems(4) by simp
  qed
  then show ?case by (simp add: c sends_def Let_def split: if_splits)
qed (simp add: sends_def)

subsection \<open>Properties\<close>

text \<open>C39: For every history of calls in the order of time, whatever the limits configured at each
  call, the limiter with its trimmed queue gives the same answers as a limiter that keeps all
  sends and counts those of the last sixty seconds.\<close>

theorem limiter_equals_full_history:
  assumes "sorted (map snd calls)"
  shows "limiter_decisions adapter calls (\<lambda>_. []) = log_decisions adapter calls []"
proof (cases calls)
  case (Cons c rest)
  then show ?thesis using assms
    by (intro decisions_agree [where w = "snd c - 60"]) auto
qed simp

text \<open>C40: In every period of sixty seconds the limiter allows at most as many sends as the largest
  limit in force, which is never more than 1000 and never less than one.\<close>

theorem sends_within_limit:
  assumes "sorted (map snd calls)" "\<forall>c \<in> set calls. limit_for_adapter (fst c) adapter \<le> bound" "0 \<le> bound"
  shows "int (in_window t (sends calls (limiter_decisions adapter calls (\<lambda>_. [])))) \<le> bound \<and>
    1 \<le> limit_for_adapter env adapter \<and> limit_for_adapter env adapter \<le> 1000"
proof
  have "limiter_decisions adapter calls (\<lambda>_. []) = log_decisions adapter calls []"
  proof (cases calls)
    case (Cons c rest)
    then show ?thesis using assms(1)
      by (intro decisions_agree [where w = "snd c - 60"]) auto
  qed simp
  then show "int (in_window t (sends calls (limiter_decisions adapter calls (\<lambda>_. [])))) \<le> bound"
    using window_bound [OF assms(2,1), of "[]" t] assms(3) by (simp add: in_window_def)
  have "DEFAULT_RATE_LIMITS_PER_MINUTE x = Some d \<Longrightarrow> 1 \<le> d \<and> d \<le> 1000" for x d
    by (auto simp: DEFAULT_RATE_LIMITS_PER_MINUTE_def split: if_splits)
  then show "1 \<le> limit_for_adapter env adapter \<and> limit_for_adapter env adapter \<le> 1000"
    by (auto simp: limit_for_adapter_def Let_def split: option.splits)
qed

subsection \<open>Witnesses\<close>

definition wit_env :: env where
  "wit_env = (\<lambda>n. if n = ''SLACK_MAX_SENDS_PER_MINUTE'' then Some '' 2 '' else None)"

definition wit_calls :: "(env \<times> rat) list" where
  "wit_calls = [(wit_env, 0), (wit_env, 10), (wit_env, 20), (wit_env, 61)]"

theorem limiter_equals_full_history_witness:
  "limiter_decisions ''Slack'' wit_calls (\<lambda>_. []) = log_decisions ''Slack'' wit_calls [] \<and>
   log_decisions ''Slack'' wit_calls [] = [True, True, False, True]"
proof
  show "limiter_decisions ''Slack'' wit_calls (\<lambda>_. []) = log_decisions ''Slack'' wit_calls []"
    by (rule limiter_equals_full_history) (simp add: wit_calls_def)
  have "limit_for_adapter wit_env ''Slack'' = 2" by code_simp
  then show "log_decisions ''Slack'' wit_calls [] = [True, True, False, True]"
    by (simp add: wit_calls_def Let_def)
qed

theorem sends_within_limit_witness:
  "in_window 61 (sends wit_calls (limiter_decisions ''Slack'' wit_calls (\<lambda>_. []))) \<le> 2"
proof -
  have l: "limit_for_adapter wit_env ''Slack'' = 2" by code_simp
  have "int (in_window 61 (sends wit_calls (limiter_decisions ''Slack'' wit_calls (\<lambda>_. [])))) \<le> 2"
    using sends_within_limit [of wit_calls "''Slack''" 2 61 wit_env] l by (simp add: wit_calls_def)
  then show ?thesis by simp
qed

end
