(* ===== verification/Step_Entries.thy ===== *)
theory Step_Entries
  imports Playbook_Definitions Circuit_Breaker
begin

text \<open>
  The entries of a playbook run's log, and what \<open>engines/playbook_step_executor.py\<close> reads out of
  them: failures, gates, skipped steps, branch results, notification and adapter results, the
  delivery record of a notification, and how a step's or a delivery's outcome is reported. These
  are the functions of the executor that change nothing. Shown here: what the log queries say, and
  that a delivery is reported as really executed only on explicit evidence and never for Teams.
\<close>

subsection \<open>Values\<close>

text \<open>\<open>a or b\<close>\<close>

definition py_or :: "pyval \<Rightarrow> pyval \<Rightarrow> pyval" where
  "py_or a b = (if truthy a then a else b)"

text \<open>\<open>v == n\<close> for an integer \<open>n\<close>, and \<open>isinstance(v, int)\<close>, which holds of \<open>True\<close> and \<open>False\<close>.\<close>

fun eq_int :: "pyval \<Rightarrow> int \<Rightarrow> bool" where
  "eq_int (PInt i) n = (i = n)"
| "eq_int (PBool b) n = ((if b then 1 else 0) = n)"
| "eq_int (PFloat q) n = (q = of_int n)"
| "eq_int _ n = False"

fun int_value :: "pyval \<Rightarrow> int option" where
  "int_value (PInt i) = Some i"
| "int_value (PBool b) = Some (if b then 1 else 0)"
| "int_value _ = None"

lemma int_value_eq: "int_value v = Some i \<Longrightarrow> eq_int v n \<longleftrightarrow> i = n"
  by (cases v) auto

text \<open>\<open>v if isinstance(v, dict) else {}\<close>; and \<open>(v or {}).get(..)\<close>, which raises when \<open>v\<close> is a value
  without \<open>get\<close>.\<close>

definition dict_or_empty :: "pyval \<Rightarrow> items" where
  "dict_or_empty v = (case v of PDict d \<Rightarrow> d | _ \<Rightarrow> [])"

definition attribute_error :: py_error where
  "attribute_error = OtherException ''AttributeError''"

definition gettable :: "pyval \<Rightarrow> items result" where
  "gettable v = (case v of PDict d \<Rightarrow> Inr d | _ \<Rightarrow> if truthy v then Inl attribute_error else Inr [])"

text \<open>\<open>str(v or "").strip().lower()\<close> and \<open>str(v or d).strip().lower()\<close>\<close>

definition lower_text :: "py_formats \<Rightarrow> pyval \<Rightarrow> string \<Rightarrow> string" where
  "lower_text fmt v fallback = lower (strip (str_val fmt (py_or v (PStr fallback))))"

text \<open>\<open>_iso\<close>\<close>

definition iso :: "py_formats \<Rightarrow> time \<Rightarrow> pyval" where
  "iso fmt t = PStr (replace_all ''+00:00'' ''Z'' (time_iso fmt t))"

definition none_or_int :: "int option \<Rightarrow> pyval" where
  "none_or_int i = (case i of None \<Rightarrow> PNone | Some n \<Rightarrow> PInt n)"

subsection \<open>Constants\<close>

definition DEFAULT_PLAYBOOK_LEASE_SECONDS :: int where
  "DEFAULT_PLAYBOOK_LEASE_SECONDS = 60"

definition MAX_CHAIN_DEPTH :: int where
  "MAX_CHAIN_DEPTH = 3"

definition NOTIFICATION_ACTIONS :: "string list" where
  "NOTIFICATION_ACTIONS = [''notify_slack'', ''notify_teams'', ''notify_email'', ''notify_webhook'']"

definition INTERNAL_PLAYBOOK_ACTIONS :: "string list" where
  "INTERNAL_PLAYBOOK_ACTIONS =
     [''monitor'', ''flag_high_priority'', ''require_approval'', ''branch'', ''trigger_playbook'', ''add_note'',
      ''stop_monitor'']"

definition PROVIDER_FOR_ACTION :: "string \<Rightarrow> string option" where
  "PROVIDER_FOR_ACTION =
     map_of [(''notify_slack'', ''slack''), (''notify_teams'', ''teams''), (''notify_email'', ''email''),
             (''notify_webhook'', ''webhook'')]"

subsection \<open>Entries\<close>

definition flags :: "bool \<Rightarrow> bool \<Rightarrow> items" where
  "flags simulated executed = [(''simulated'', PBool simulated), (''executed'', PBool executed)]"

definition error_dict :: "string \<Rightarrow> pyval \<Rightarrow> pyval" where
  "error_dict code message = PDict [(''code'', PStr code), (''message'', message)]"

definition failure_mode :: "py_formats \<Rightarrow> pyval \<Rightarrow> string \<Rightarrow> string" where
  "failure_mode fmt action code =
     (let action_name = strip (str_val fmt (py_or action (PStr [])))
      in if action_name = ''enrich_context'' then ''read_only''
         else if action_name \<in> set INTERNAL_PLAYBOOK_ACTIONS \<or> code = ''unsupported_action'' then ''internal''
         else if ADAPTER_ACTIONS action_name \<noteq> None \<or> action_name \<in> set NOTIFICATION_ACTIONS then ''simulation''
         else ''internal'')"

definition failure_entry ::
  "py_formats \<Rightarrow> int option \<Rightarrow> pyval \<Rightarrow> string \<Rightarrow> string \<Rightarrow> time \<Rightarrow> items \<Rightarrow> items" where
  "failure_entry fmt step_index action message code now output =
     (let mode = failure_mode fmt action code
      in [(''step_index'', none_or_int step_index), (''action'', action), (''status'', PStr ''failed''),
          (''mode'', PStr mode), (''started_at'', iso fmt now), (''completed_at'', iso fmt now),
          (''message'', PStr message),
          (''output'', PDict (if output = [] then flags (mode = ''simulation'') False else output)),
          (''error'', error_dict code (PStr message))])"

definition with_label :: "items \<Rightarrow> items \<Rightarrow> items" where
  "with_label step entry =
     (case dict_get step ''label'' of
        PStr l \<Rightarrow> if l = [] then entry else dict_set entry ''label'' (PStr l)
      | _ \<Rightarrow> entry)"

definition gate_output :: pyval where
  "gate_output = PDict (flags False True @ [(''approval_gate'', PBool True)])"

text \<open>The request's columns an entry takes: its id, status and risk level.\<close>

definition approval_requested_entry ::
  "py_formats \<Rightarrow> nat \<Rightarrow> row_id \<Rightarrow> string \<Rightarrow> string \<Rightarrow> items \<Rightarrow> time \<Rightarrow> items" where
  "approval_requested_entry fmt step_index request_id request_status risk_level step now =
     [(''step_index'', PInt (int step_index)), (''action'', PStr ''require_approval''),
      (''status'', PStr ''awaiting_approval''), (''event'', PStr ''approval_requested''),
      (''mode'', PStr ''internal'')] @ flags False True @
     [(''started_at'', iso fmt now), (''completed_at'', PNone),
      (''approval_request_id'', PInt request_id), (''approval_status'', PStr request_status),
      (''risk_level'', PStr risk_level),
      (''message'', py_or (dict_get step ''reason'')
         (PStr ''Approval requested before continuing playbook execution.'')),
      (''output'', gate_output), (''error'', PNone)]"

definition approval_decision_entry ::
  "py_formats \<Rightarrow> int \<Rightarrow> row_id \<Rightarrow> string \<Rightarrow> string \<Rightarrow> string \<Rightarrow> string \<Rightarrow> string \<Rightarrow> time \<Rightarrow> items" where
  "approval_decision_entry fmt step_index request_id request_status risk_level status event message now =
     [(''step_index'', PInt step_index), (''action'', PStr ''require_approval''),
      (''status'', PStr status), (''event'', PStr event), (''mode'', PStr ''internal'')] @ flags False True @
     [(''started_at'', iso fmt now), (''completed_at'', iso fmt now),
      (''approval_request_id'', PInt request_id), (''approval_status'', PStr request_status),
      (''risk_level'', PStr risk_level), (''message'', PStr message), (''output'', gate_output),
      (''error'', PNone)]"

definition step_action :: "pyval \<Rightarrow> pyval" where
  "step_action step = (case step of PDict d \<Rightarrow> dict_get d ''action'' | _ \<Rightarrow> PNone)"

definition skipped_entry ::
  "py_formats \<Rightarrow> nat \<Rightarrow> pyval \<Rightarrow> string \<Rightarrow> items \<Rightarrow> string \<Rightarrow> string \<Rightarrow> time \<Rightarrow> items" where
  "skipped_entry fmt index action event extra message reason now =
     [(''step_index'', PInt (int index)), (''action'', action), (''status'', PStr ''skipped''),
      (''event'', PStr event)] @ extra @ [(''mode'', PStr ''internal'')] @ flags False False @
     [(''started_at'', PNone), (''completed_at'', iso fmt now), (''message'', PStr message),
      (''output'', PDict (flags False False @ [(''skip_reason'', PStr reason)])), (''error'', PNone)]"

text \<open>The targets of jumps are indices of steps, so the indices skipped are, too.\<close>

definition skipped_branch_step_entries :: "py_formats \<Rightarrow> pyval list \<Rightarrow> nat \<Rightarrow> nat \<Rightarrow> time \<Rightarrow> items list" where
  "skipped_branch_step_entries fmt steps start_index end_index now =
     map (\<lambda>i. skipped_entry fmt i (if i < length steps then step_action (steps ! i) else PNone) ''skipped_by_branch''
            [(''skip_reason'', PStr ''branch_not_taken'')] ''Step skipped because branch chose another path.''
            ''branch_not_taken'' now)
       [start_index..<end_index]"

text \<open>The slice \<open>steps[start_index:]\<close>, for a start that is not negative.\<close>

definition skipped_later_step_entries :: "py_formats \<Rightarrow> pyval list \<Rightarrow> nat \<Rightarrow> string \<Rightarrow> time \<Rightarrow> items list" where
  "skipped_later_step_entries fmt steps start_index reason now =
     map (\<lambda>i. skipped_entry fmt i (step_action (steps ! i)) ''skipped_after_approval_gate'' []
            (''Step skipped because '' @ reason @ '' stopped the playbook.'') reason now)
       [start_index..<length steps]"

subsection \<open>Reading the log\<close>

definition entry_is :: "int \<Rightarrow> string \<Rightarrow> pyval \<Rightarrow> bool" where
  "entry_is step_index status entry =
     (case entry of
        PDict d \<Rightarrow> eq_int (dict_get d ''step_index'') step_index \<and> dict_get d ''status'' = PStr status
      | _ \<Rightarrow> False)"

definition step_already_succeeded_in_log :: "pyval list \<Rightarrow> int \<Rightarrow> bool" where
  "step_already_succeeded_in_log steps_log step_index = list_ex (entry_is step_index ''success'') steps_log"

definition step_already_skipped_in_log :: "pyval list \<Rightarrow> int \<Rightarrow> bool" where
  "step_already_skipped_in_log steps_log step_index = list_ex (entry_is step_index ''skipped'') steps_log"

text \<open>The gate's entry and its step index, which is an integer.\<close>

definition gate_index :: "pyval \<Rightarrow> int option" where
  "gate_index entry =
     (case entry of
        PDict d \<Rightarrow>
          if dict_get d ''action'' = PStr ''require_approval'' \<and> dict_get d ''event'' = PStr ''approval_requested''
          then int_value (dict_get d ''step_index'') else None
      | _ \<Rightarrow> None)"

definition latest_gate_entry :: "pyval list \<Rightarrow> int option" where
  "latest_gate_entry steps_log =
     (case filter (\<lambda>e. gate_index e \<noteq> None) (rev steps_log) of [] \<Rightarrow> None | e # _ \<Rightarrow> gate_index e)"

definition has_gate_event :: "pyval list \<Rightarrow> int \<Rightarrow> row_id \<Rightarrow> string \<Rightarrow> bool" where
  "has_gate_event steps_log step_index approval_request_id event =
     list_ex (\<lambda>entry. case entry of
        PDict d \<Rightarrow> eq_int (dict_get d ''step_index'') step_index \<and>
          eq_int (dict_get d ''approval_request_id'') approval_request_id \<and> dict_get d ''event'' = PStr event
      | _ \<Rightarrow> False) steps_log"

definition latest_failed_step_entry :: "pyval list \<Rightarrow> items option" where
  "latest_failed_step_entry steps_log =
     (case filter (\<lambda>e. is_dict e \<and> dict_get (dict_or_empty e) ''status'' = PStr ''failed'') (rev steps_log) of
        [] \<Rightarrow> None | e # _ \<Rightarrow> Some (dict_or_empty e))"

text \<open>\<open>isinstance(v, str) and v.strip()\<close>\<close>

definition word_in :: "pyval \<Rightarrow> string option" where
  "word_in v = (case v of PStr s \<Rightarrow> if strip s = [] then None else Some (strip s) | _ \<Rightarrow> None)"

definition dead_letter_failure_class :: "items \<Rightarrow> string" where
  "dead_letter_failure_class entry =
     (let output = dict_or_empty (dict_get entry ''output'');
          adapter_res = dict_or_empty (dict_get output ''adapter_result'');
          metadata = dict_or_empty (dict_get adapter_res ''metadata'')
      in case word_in (dict_get metadata ''failure_classification'') of
           Some c \<Rightarrow> take 64 c
         | None \<Rightarrow>
             (case word_in (dict_get (dict_or_empty (dict_get entry ''error'')) ''code'') of
                Some c \<Rightarrow> take 64 c
              | None \<Rightarrow> ''unknown''))"

subsection \<open>Results of adapters\<close>

definition BLOCKED_CLASSIFICATIONS :: "string list" where
  "BLOCKED_CLASSIFICATIONS =
     [''circuit_open'', ''circuit_state_invalid'', ''provider_rate_limited'', ''guard_failed'', ''credential_missing'']"

definition delivery_status_from_adapter_result :: "py_formats \<Rightarrow> items \<Rightarrow> string result" where
  "delivery_status_from_adapter_result fmt adapter_res =
     (if dict_get adapter_res ''success'' = PBool True then Inr ''success''
      else case gettable (dict_get adapter_res ''metadata'') of
             Inl e \<Rightarrow> Inl e
           | Inr meta \<Rightarrow>
               (let fc = lower_text fmt (dict_get meta ''failure_classification'') []
                in Inr (if fc = ''timeout'' then ''timeout''
                        else if fc \<in> set BLOCKED_CLASSIFICATIONS then ''blocked''
                        else if lower_text fmt (dict_get adapter_res ''mode'') [] = ''real'' \<and>
                                dict_get adapter_res ''simulated'' = PBool True \<and>
                                dict_get adapter_res ''executed'' = PBool False
                        then ''blocked'' else ''failed'')))"

definition delivery_mode :: "py_formats \<Rightarrow> pyval \<Rightarrow> string" where
  "delivery_mode fmt v =
     (let m = lower_text fmt v ''simulation'' in if m \<in> set [''simulation'', ''real''] then m else ''simulation'')"

text \<open>\<open>int(raw)\<close>, with \<open>None\<close> for the exceptions that are caught. A float is cut off.\<close>

fun caught_int :: "pyval \<Rightarrow> int option" where
  "caught_int (PInt i) = Some i"
| "caught_int (PBool b) = Some (if b then 1 else 0)"
| "caught_int (PFloat q) = Some (if 0 \<le> q then \<lfloor>q\<rfloor> else \<lceil>q\<rceil>)"
| "caught_int (PStr s) = parse_int s"
| "caught_int _ = None"

text \<open>What \<open>_record_notification_delivery_attempt\<close> passes on: the arguments for the delivery table
  (the correlation id holds a random part and is left to the table).\<close>

record delivery_args =
  da_idempotency_key :: string
  da_provider :: string
  da_mode :: string
  da_status :: string
  da_adapter_name :: string
  da_action :: string
  da_metadata :: items
  da_step_index :: nat
  da_failure_code :: pyval
  da_failure_message :: pyval
  da_timeout_seconds :: "int option"
  da_circuit_breaker_state :: "string option"

definition make_delivery_idempotency_key ::
  "(string \<Rightarrow> string) \<Rightarrow> string \<Rightarrow> string \<Rightarrow> row_id \<Rightarrow> nat \<Rightarrow> string" where
  "make_delivery_idempotency_key sha256 provider action execution_id step_index =
     take 64 (sha256 (provider @ '':'' @ action @ '':'' @ show_int execution_id @ '':'' @ show_nat step_index))"

definition delivery_circuit_state :: "py_formats \<Rightarrow> items \<Rightarrow> items \<Rightarrow> string option" where
  "delivery_circuit_state fmt snapshot meta =
     (let raw = py_or (dict_get snapshot ''state'') (dict_get meta ''circuit_state'');
          candidate = lower (strip (str_val fmt raw))
      in if truthy raw \<and> candidate \<in> set [''closed'', ''open'', ''half_open'', ''unknown'', ''invalid'']
         then Some candidate else None)"

definition delivery_attempt_args ::
  "py_formats \<Rightarrow> (string \<Rightarrow> string) \<Rightarrow> row_id \<Rightarrow> string \<Rightarrow> nat \<Rightarrow> items \<Rightarrow> delivery_args option result" where
  "delivery_attempt_args fmt sha256 execution_id action step_index entry =
     (case PROVIDER_FOR_ACTION action of
        None \<Rightarrow> Inr None
      | Some provider \<Rightarrow>
          case ADAPTER_ACTIONS action of None \<Rightarrow> Inl (KeyError action) | Some (adapter_name, adapter_action) \<Rightarrow>
          case gettable (dict_get entry ''output'') of Inl e \<Rightarrow> Inl e | Inr output \<Rightarrow>
          case gettable (dict_get output ''adapter_result'') of Inl e \<Rightarrow> Inl e | Inr res \<Rightarrow>
          case delivery_status_from_adapter_result fmt res of Inl e \<Rightarrow> Inl e | Inr status \<Rightarrow>
          case gettable (dict_get output ''circuit_breaker'') of Inl e \<Rightarrow> Inl e | Inr snapshot \<Rightarrow>
          case gettable (dict_get res ''metadata'') of Inl e \<Rightarrow> Inl e | Inr meta \<Rightarrow>
          let err = (if truthy (dict_get res ''success'') then [] else dict_or_empty (dict_get entry ''error''))
          in Inr (Some
               \<lparr>da_idempotency_key = make_delivery_idempotency_key sha256 provider action execution_id step_index,
                da_provider = provider, da_mode = delivery_mode fmt (dict_get res ''mode''), da_status = status,
                da_adapter_name = adapter_name, da_action = adapter_action,
                da_metadata = dict_set (dict_set (dict_set meta ''adapter_mode'' (dict_get res ''mode''))
                  ''simulated'' (dict_get res ''simulated'')) ''executed'' (dict_get res ''executed''),
                da_step_index = step_index,
                da_failure_code = dict_get err ''code'', da_failure_message = dict_get err ''message'',
                da_timeout_seconds = caught_int (dict_get meta ''timeout_seconds''),
                da_circuit_breaker_state = delivery_circuit_state fmt snapshot meta\<rparr>))"

definition DELIVERY_SUMMARY_KEYS :: "string list" where
  "DELIVERY_SUMMARY_KEYS =
     [''id'', ''provider'', ''mode'', ''status'', ''adapter_name'', ''action'', ''playbook_step_index'',
      ''failure_code'', ''failure_message'', ''circuit_breaker_state'']"

definition delivery_summary :: "items \<Rightarrow> items" where
  "delivery_summary row = map (\<lambda>k. (k, dict_get row k)) DELIVERY_SUMMARY_KEYS"

text \<open>The entry for a notification that was delivered before.\<close>

definition already_delivered_entry :: "py_formats \<Rightarrow> items \<Rightarrow> string \<Rightarrow> nat \<Rightarrow> time \<Rightarrow> items \<Rightarrow> items" where
  "already_delivered_entry fmt step action step_index now existing =
     with_label step
       ([(''step_index'', PInt (int step_index)), (''action'', PStr action), (''status'', PStr ''success''),
         (''event'', PStr ''notification_delivery_already_delivered''), (''mode'', PStr ''simulation'')] @
        flags True False @
        [(''skipped'', PBool True), (''started_at'', iso fmt now), (''completed_at'', iso fmt now),
         (''message'', PStr ''Notification delivery already succeeded; adapter call skipped.''),
         (''output'', PDict (flags True False @
            [(''skipped'', PBool True),
             (''skip_reason'', PStr (''delivery_'' @ str_val fmt (dict_get existing ''status''))),
             (''failure_classification'', PStr ''duplicate_delivery''),
             (''existing_delivery_id'', dict_get existing ''id''),
             (''existing_delivery_status'', dict_get existing ''status''),
             (''idempotency_key'', dict_get existing ''idempotency_key'')])),
         (''error'', PNone)])"

text \<open>The entry for what an adapter returned, with the breaker's snapshot after the call.\<close>

definition adapter_error_code :: "py_formats \<Rightarrow> items \<Rightarrow> string" where
  "adapter_error_code fmt adapter_res =
     (case dict_get adapter_res ''metadata'' of
        PDict meta \<Rightarrow>
          (let fc = lower_text fmt (dict_get meta ''failure_classification'') []
           in if fc = ''circuit_state_invalid'' then ''circuit_breaker_invalid''
              else if fc = ''circuit_open'' then ''circuit_breaker_open'' else ''adapter_simulation_failed'')
      | _ \<Rightarrow> ''adapter_simulation_failed'')"

definition adapter_entry ::
  "py_formats \<Rightarrow> items \<Rightarrow> string \<Rightarrow> nat \<Rightarrow> time \<Rightarrow> items \<Rightarrow> items \<Rightarrow> items \<Rightarrow> items" where
  "adapter_entry fmt step action step_index now params adapter_res snapshot =
     (let ok = (dict_get adapter_res ''success'' = PBool True);
          mode = delivery_mode fmt (dict_get adapter_res ''mode'');
          simulated = (case dict_get adapter_res ''simulated'' of PBool b \<Rightarrow> b | _ \<Rightarrow> mode \<noteq> ''real'');
          executed = (dict_get adapter_res ''executed'' = PBool True);
          message = py_or (dict_get adapter_res ''message'')
            (PStr (if ok then if mode = ''real'' \<and> executed then ''Real adapter action completed.''
                              else ''Simulated adapter action completed.''
                   else ''Adapter action failed safely.''))
      in with_label step
           ([(''step_index'', PInt (int step_index)), (''action'', PStr action),
             (''status'', PStr (if ok then ''success'' else ''failed'')), (''mode'', PStr mode)] @
            flags simulated executed @
            [(''started_at'', iso fmt now), (''completed_at'', iso fmt now), (''message'', message),
             (''output'', PDict (flags simulated executed @
                [(''adapter_mode'', PStr mode), (''resolved_params'', PDict params),
                 (''adapter_result'', PDict adapter_res), (''circuit_breaker'', PDict snapshot)])),
             (''error'', if ok then PNone
                       else error_dict (adapter_error_code fmt adapter_res)
                              (py_or (dict_get adapter_res ''message'') message))]))"

text \<open>The entry for what the notification policy did with a Slack message: its result, and the
  delivery attempt it recorded, if any. Without metadata that is an object the lookup raises.\<close>

definition slack_output ::
  "py_formats \<Rightarrow> items \<Rightarrow> items \<Rightarrow> items option \<Rightarrow> items \<Rightarrow> string \<Rightarrow> bool \<Rightarrow> bool \<Rightarrow> items" where
  "slack_output fmt params res attempt snapshot mode simulated executed =
     flags simulated executed @
     [(''adapter_mode'', PStr mode), (''resolved_params'', PDict params), (''circuit_breaker'', PDict snapshot),
      (''notification_policy'', PDict
         [(''purpose'', dict_get res ''purpose''), (''delivery_stage'', dict_get res ''delivery_stage''),
          (''route_key'', dict_get res ''route_key''),
          (''suppressed'', PBool (dict_get res ''suppressed'' = PBool True)),
          (''duplicate'', PBool (dict_get res ''duplicate'' = PBool True))]),
      (''notification_delivery'', case attempt of None \<Rightarrow> PNone | Some a \<Rightarrow> PDict (delivery_summary a))] @
     (if is_dict (dict_get res ''adapter_result'') then [(''adapter_result'', dict_get res ''adapter_result'')] else [])"

definition attempt_get :: "items option \<Rightarrow> string \<Rightarrow> pyval" where
  "attempt_get attempt key = (case attempt of None \<Rightarrow> PNone | Some a \<Rightarrow> dict_get a key)"

definition slack_suppressed_entry ::
  "py_formats \<Rightarrow> nat \<Rightarrow> time \<Rightarrow> items \<Rightarrow> items option \<Rightarrow> items \<Rightarrow> items \<Rightarrow> items" where
  "slack_suppressed_entry fmt step_index now res attempt metadata output =
     (let duplicate = (dict_get res ''duplicate'' = PBool True);
          existing = dict_get metadata ''duplicate_of_status'';
          skip_reason = (if duplicate \<and> existing \<in> {PStr ''success'', PStr ''pending''}
                         then PStr (''delivery_'' @ str_val fmt existing)
                         else if attempt \<noteq> None then attempt_get attempt ''failure_code''
                         else PStr ''policy_suppressed'')
      in [(''step_index'', PInt (int step_index)), (''action'', PStr ''notify_slack''), (''status'', PStr ''success''),
          (''event'', PStr (if duplicate then ''notification_delivery_already_delivered''
                          else ''notification_policy_suppressed'')),
          (''mode'', PStr ''simulation'')] @ flags True False @
         [(''skipped'', PBool True), (''started_at'', iso fmt now), (''completed_at'', iso fmt now),
          (''message'', py_or (dict_get res ''message'') (PStr ''Notification policy suppressed Slack delivery.'')),
          (''output'', PDict (output @
             [(''skipped'', PBool True), (''skip_reason'', skip_reason),
              (''failure_classification'', attempt_get attempt ''failure_code''),
              (''idempotency_key'', attempt_get attempt ''idempotency_key'')])),
          (''error'', PNone)])"

definition slack_processed_entry ::
  "nat \<Rightarrow> pyval \<Rightarrow> items \<Rightarrow> items option \<Rightarrow> string \<Rightarrow> bool \<Rightarrow> bool \<Rightarrow> items \<Rightarrow> items" where
  "slack_processed_entry step_index stamp res attempt mode simulated executed output =
     (let success = (truthy (dict_get res ''success'') \<or> attempt_get attempt ''status'' = PStr ''success'');
          failure_code = attempt_get attempt ''failure_code'';
          code = (if failure_code = PStr ''circuit_open'' then ''circuit_breaker_open''
                  else if failure_code = PStr ''circuit_state_invalid'' then ''circuit_breaker_invalid''
                  else ''adapter_simulation_failed'');
          text_or_default = (\<lambda>d. py_or (py_or (dict_get res ''message'') (attempt_get attempt ''failure_message'')) (PStr d))
      in [(''step_index'', PInt (int step_index)), (''action'', PStr ''notify_slack''),
          (''status'', PStr (if success then ''success'' else ''failed'')), (''mode'', PStr mode)] @
         flags simulated executed @
         [(''started_at'', stamp), (''completed_at'', stamp),
          (''message'', text_or_default ''Slack delivery processed.''), (''output'', PDict output),
          (''error'', if success then PNone
                    else error_dict code (text_or_default ''Slack delivery failed safely.''))])"

definition slack_entry ::
  "py_formats \<Rightarrow> items \<Rightarrow> nat \<Rightarrow> time \<Rightarrow> items \<Rightarrow> items \<Rightarrow> items option \<Rightarrow> items \<Rightarrow> items result" where
  "slack_entry fmt step step_index now params res attempt snapshot =
     (case (case attempt of None \<Rightarrow> Inr []
            | Some a \<Rightarrow> (case dict_get a ''metadata'' of PDict m \<Rightarrow> Inr m | _ \<Rightarrow> Inl attribute_error)) of
        Inl e \<Rightarrow> Inl e
      | Inr metadata \<Rightarrow>
          (let mode = delivery_mode fmt (attempt_get attempt ''mode'');
               simulated = (case dict_get metadata ''simulated'' of PBool b \<Rightarrow> b | _ \<Rightarrow> mode \<noteq> ''real'');
               executed = truthy (dict_get metadata ''executed'');
               output = slack_output fmt params res attempt snapshot mode simulated executed
           in Inr (with_label step
                (if dict_get res ''suppressed'' = PBool True
                 then slack_suppressed_entry fmt step_index now res attempt metadata output
                 else slack_processed_entry step_index (iso fmt now) res attempt mode simulated executed output))))"

subsection \<open>Response commands\<close>

text \<open>The fields of \<open>ResponseCommandRequest\<close> the executor fills in, and of the result it reads.\<close>

record command_request =
  cq_action :: string
  cq_indicator_value :: "string option"
  cq_alert_id :: "row_id option"
  cq_incident_id :: "row_id option"
  cq_reason :: pyval
  cq_playbook_execution_id :: row_id
  cq_playbook_step_index :: nat
  cq_idempotency_key :: string
  cq_playbook_id :: string

record command_result =
  cr_success :: bool
  cr_message :: string
  cr_error :: "string option"
  cr_error_code :: "string option"
  cr_enforcement :: string
  cr_idempotent :: bool
  cr_registry_record_id :: "row_id option"
  cr_registry_event_id :: "row_id option"
  cr_blocked_ip_id :: "row_id option"
  cr_incident_id :: "row_id option"
  cr_disposition :: "string option"

definition opt_text_or :: "string option \<Rightarrow> string \<Rightarrow> string" where
  "opt_text_or v d = (case v of None \<Rightarrow> d | Some s \<Rightarrow> if s = [] then d else s)"

definition canonical_request :: "py_formats \<Rightarrow> execution \<Rightarrow> nat \<Rightarrow> string \<Rightarrow> items \<Rightarrow> command_request" where
  "canonical_request fmt ex step_index action params =
     (let source_ip = dict_get params ''source_ip''
      in \<lparr>cq_action = action,
          cq_indicator_value = (if truthy source_ip then Some (str_val fmt source_ip) else None),
          cq_alert_id = ex_alert_id ex, cq_incident_id = ex_incident_id ex,
          cq_reason = py_or (dict_get params ''reason'') (PStr (''Playbook step '' @ action)),
          cq_playbook_execution_id = ex_id ex, cq_playbook_step_index = step_index,
          cq_idempotency_key =
            ''playbook-'' @ show_int (ex_id ex) @ ''-'' @ show_nat step_index @ ''-'' @ action,
          cq_playbook_id = ex_playbook_id ex\<rparr>)"

definition canonical_entry ::
  "py_formats \<Rightarrow> items \<Rightarrow> nat \<Rightarrow> time \<Rightarrow> string \<Rightarrow> command_result \<Rightarrow> items" where
  "canonical_entry fmt step step_index now action res =
     (if \<not> cr_success res
      then failure_entry fmt (Some (int step_index)) (PStr action) (opt_text_or (cr_error res) (cr_message res))
             (opt_text_or (cr_error_code res) ''response_command_failed'') now []
      else with_label step
        ([(''step_index'', PInt (int step_index)), (''action'', PStr action), (''status'', PStr ''success''),
          (''mode'', PStr ''internal''), (''started_at'', iso fmt now), (''completed_at'', iso fmt now),
          (''message'', PStr (cr_message res)),
          (''output'', PDict (flags False True @
             [(''enforcement'', PStr (cr_enforcement res)),
              (''registry_record_id'', none_or_int (cr_registry_record_id res)),
              (''registry_event_id'', none_or_int (cr_registry_event_id res)),
              (''blocked_ip_id'', none_or_int (cr_blocked_ip_id res)),
              (''incident_id'', none_or_int (cr_incident_id res)),
              (''disposition'', opt_str (cr_disposition res)), (''canonical_response'', PBool True)])),
          (''error'', PNone)]))"

definition block_request :: "py_formats \<Rightarrow> execution \<Rightarrow> nat \<Rightarrow> items \<Rightarrow> command_request" where
  "block_request fmt ex step_index params =
     \<lparr>cq_action = ''block_ip'', cq_indicator_value = Some (str_val fmt (dict_get params ''source_ip'')),
      cq_alert_id = ex_alert_id ex, cq_incident_id = ex_incident_id ex,
      cq_reason = py_or (dict_get params ''reason'') (PStr ''Playbook block_ip tracking''),
      cq_playbook_execution_id = ex_id ex, cq_playbook_step_index = step_index,
      cq_idempotency_key = ''playbook-block-'' @ show_int (ex_id ex) @ ''-'' @ show_nat step_index,
      cq_playbook_id = ex_playbook_id ex\<rparr>"

definition skipped_tracking :: "string \<Rightarrow> string \<Rightarrow> items" where
  "skipped_tracking code message =
     [(''success'', PBool False), (''skipped'', PBool True), (''error_code'', PStr code), (''message'', PStr message)]"

definition tracking_dict :: "command_result \<Rightarrow> items" where
  "tracking_dict res =
     [(''success'', PBool (cr_success res)), (''message'', PStr (cr_message res)),
      (''error_code'', opt_str (cr_error_code res)),
      (''registry_record_id'', none_or_int (cr_registry_record_id res)),
      (''blocked_ip_id'', none_or_int (cr_blocked_ip_id res)), (''idempotent'', PBool (cr_idempotent res)),
      (''enforcement'', PStr (cr_enforcement res))]"

definition HARMLESS_TRACKING_CODES :: "string list" where
  "HARMLESS_TRACKING_CODES =
     [''invalid_indicator'', ''protected_target'', ''protected_target_config_invalid'', ''validation_no_target'']"

text \<open>The entry of a successful \<open>block_ip\<close> step with the tracking's result put in.\<close>

definition with_tracking :: "items \<Rightarrow> items \<Rightarrow> items" where
  "with_tracking entry tracking =
     (let output = dict_set (dict_or_empty (dict_get entry ''output'')) ''blocklist_tracking'' (PDict tracking);
          entry1 = dict_set entry ''output'' (PDict output);
          code = dict_get tracking ''error_code''; message = dict_get tracking ''message''
      in if dict_get tracking ''success'' = PBool False \<and> code \<notin> PStr ` set HARMLESS_TRACKING_CODES
         then dict_set (dict_set (dict_set entry1 ''status'' (PStr ''failed''))
                ''error'' (PDict [(''code'', py_or code (PStr ''blocklist_tracking_failed'')),
                                (''message'', py_or message (PStr ''Blocklist tracking failed''))]))
                ''message'' (py_or message (dict_get entry1 ''message''))
         else entry1)"

subsection \<open>How outcomes are reported\<close>

text \<open>A row of the delivery table, as far as it is read here.\<close>

record delivery_row =
  dr_provider :: string
  dr_mode :: string
  dr_status :: string
  dr_action :: "string option"
  dr_metadata :: items

record delivery_outcome =
  do_execution_mode :: string
  do_execution_state :: string
  do_external_executed :: bool
  do_simulated :: bool
  do_reason_code :: "string option"
  do_real_evidence :: bool
  do_summary :: string

definition CONFIRMATION_KEYS :: "string list" where
  "CONFIRMATION_KEYS =
     [''provider_success'', ''provider_success_evidence'', ''provider_delivery_confirmed'', ''delivery_confirmed'']"

definition notification_delivery_has_real_evidence :: "py_formats \<Rightarrow> delivery_row \<Rightarrow> bool" where
  "notification_delivery_has_real_evidence fmt row \<longleftrightarrow>
     dr_mode row = ''real'' \<and> dr_status row = ''success'' \<and>
     dict_get (dr_metadata row) ''executed'' = PBool True \<and>
     dict_get (dr_metadata row) ''simulated'' = PBool False \<and>
     (lower_text fmt (dict_get (dr_metadata row) ''adapter_mode'') [] = ''real'' \<or>
      list_ex (\<lambda>key. dict_get (dr_metadata row) key = PBool True) CONFIRMATION_KEYS)"

definition map_notification_delivery_outcome :: "py_formats \<Rightarrow> delivery_row \<Rightarrow> delivery_outcome" where
  "map_notification_delivery_outcome fmt row =
     (let status = lower_text fmt (PStr (dr_status row)) ''failed'';
          provider = (if dr_provider row = [] then ''notification provider'' else dr_provider row);
          teams = (lower (strip provider) = ''teams'' \<or> dr_action row = Some ''notify_teams'');
          mode = (if teams then ''simulation'' else lower_text fmt (PStr (dr_mode row)) ''simulation'');
          evidence = (\<not> teams \<and> notification_delivery_has_real_evidence fmt row);
          shown_mode = (if mode = ''real'' then ''real'' else ''simulation'')
      in if status = ''blocked''
         then \<lparr>do_execution_mode = shown_mode, do_execution_state = ''blocked'', do_external_executed = False,
               do_simulated = (mode \<noteq> ''real''), do_reason_code = Some ''policy_blocked'', do_real_evidence = False,
               do_summary = ''Notification delivery to '' @ provider @
                 '' was blocked; no real execution was confirmed.''\<rparr>
         else if status \<in> {''failed'', ''timeout''}
         then \<lparr>do_execution_mode = shown_mode, do_execution_state = ''failed'', do_external_executed = False,
               do_simulated = (mode \<noteq> ''real''),
               do_reason_code = Some (if status = ''timeout'' then ''adapter_unavailable'' else ''provider_error''),
               do_real_evidence = False,
               do_summary = ''Notification delivery to '' @ provider @ '' '' @ status @
                 ''; no real execution was confirmed.''\<rparr>
         else if mode = ''real'' \<and> status = ''success'' \<and> evidence
         then \<lparr>do_execution_mode = ''real'', do_execution_state = ''succeeded'', do_external_executed = True,
               do_simulated = False, do_reason_code = None, do_real_evidence = True,
               do_summary = ''Notification delivery to '' @ provider @
                 '' succeeded with explicit real execution evidence.''\<rparr>
         else if mode = ''real'' \<and> status = ''success''
         then \<lparr>do_execution_mode = ''simulation'', do_execution_state = ''succeeded'', do_external_executed = False,
               do_simulated = True, do_reason_code = Some ''simulation_mode'', do_real_evidence = False,
               do_summary = ''Notification delivery to '' @ provider @
                 '' reported success without complete real execution evidence; recorded as simulated.''\<rparr>
         else \<lparr>do_execution_mode = ''simulation'',
               do_execution_state = (if status = ''success'' then ''succeeded'' else ''failed''),
               do_external_executed = False, do_simulated = True, do_reason_code = Some ''simulation_mode'',
               do_real_evidence = False,
               do_summary = ''Simulated notification delivery to '' @ provider @ '' '' @ status @ ''.''\<rparr>)"

definition canonical_playbook_reason_code :: "items \<Rightarrow> string result" where
  "canonical_playbook_reason_code entry =
     (let code = dict_get (dict_or_empty (dict_get entry ''error'')) ''code''
      in if code = PStr ''unsupported_action'' then Inr ''unsupported_action''
         else case in_names code [''invalid_step'', ''missing_action''] of
                Inl e \<Rightarrow> Inl e
              | Inr b \<Rightarrow> Inr (if b then ''policy_blocked'' else ''provider_error''))"

record step_outcome =
  so_execution_mode :: string
  so_simulated :: bool
  so_reason_code :: "string option"
  so_summary_prefix :: string

text \<open>The reason code is worked out only for a step that did not succeed. \<open>title()\<close> of the three modes
  is written out.\<close>

definition playbook_step_outcome_classification :: "py_formats \<Rightarrow> items \<Rightarrow> step_outcome result" where
  "playbook_step_outcome_classification fmt entry =
     (let action = strip (str_val fmt (py_or (dict_get entry ''action'') (PStr [])));
          status = lower_text fmt (dict_get entry ''status'') [];
          entry_mode = lower_text fmt (dict_get entry ''mode'') [];
          output = dict_or_empty (dict_get entry ''output'');
          with_reason = (\<lambda>ok_reason f.
            if status = ''success'' then Inr (f ok_reason)
            else case canonical_playbook_reason_code entry of Inl e \<Rightarrow> Inl e | Inr c \<Rightarrow> Inr (f (Some c)));
          outcome = (\<lambda>mode simulated pre reason.
            \<lparr>so_execution_mode = mode, so_simulated = simulated, so_reason_code = reason, so_summary_prefix = pre\<rparr>)
      in if action = ''enrich_context'' \<or> entry_mode = ''read_only'' \<or> truthy (dict_get output ''read_only'')
         then with_reason None (outcome ''read_only'' False ''Read-only'')
         else if action \<in> set INTERNAL_PLAYBOOK_ACTIONS \<or> entry_mode = ''internal''
         then with_reason (if action = ''require_approval'' then Some ''approval_required'' else None)
                (outcome ''internal'' False ''Internal'')
         else if status = ''failed'' \<and>
              (dict_get (dict_or_empty (dict_get entry ''error'')) ''code'' = PStr ''unsupported_action'' \<or>
               action \<notin> set KNOWN_PLAYBOOK_ACTIONS)
         then Inr (outcome ''internal'' False ''Unsupported'' (Some ''unsupported_action''))
         else if entry_mode \<in> set [''simulation'', ''real'', ''tracking_only'']
         then with_reason (if entry_mode = ''simulation'' then Some ''simulation_mode'' else None)
                (outcome entry_mode (entry_mode = ''simulation'')
                   (if entry_mode = ''simulation'' then ''Simulation''
                    else if entry_mode = ''real'' then ''Real'' else ''Tracking Only''))
         else with_reason None (outcome ''internal'' False ''Internal''))"

subsection \<open>Properties\<close>

text \<open>Nothing is reported as really sent without evidence. A delivery counts as executed outside exactly
  when its row says real mode and success, its metadata say executed and not simulated, and an
  adapter in real mode or a confirmation of the provider stands behind it; never for Teams, which
  has no real adapter. No delivery is reported as both simulated and executed.\<close>

theorem real_execution_needs_evidence:
  "(do_external_executed (map_notification_delivery_outcome fmt row) \<longleftrightarrow>
      notification_delivery_has_real_evidence fmt row \<and>
      lower (strip (dr_provider row)) \<noteq> ''teams'' \<and> dr_action row \<noteq> Some ''notify_teams'') \<and>
   \<not> (do_simulated (map_notification_delivery_outcome fmt row) \<and>
      do_external_executed (map_notification_delivery_outcome fmt row))"
proof -
  have texts: "lower_text fmt (PStr ''real'') d = ''real''" "lower_text fmt (PStr ''success'') d = ''success''" for d
    by code_simp+
  have none: "lower (strip ''notification provider'') \<noteq> ''teams''" "lower (strip []) \<noteq> ''teams''" by code_simp+
  show ?thesis
    by (auto simp: map_notification_delivery_outcome_def Let_def notification_delivery_has_real_evidence_def texts none)
qed

end
