(* ===== verification/Playbook_Runner.thy ===== *)
theory Playbook_Runner
  imports Step_Entries Approval_Store Dead_Letter
begin

text \<open>
  \<open>engines/playbook_step_executor.py\<close>: a worker claims an execution, runs the steps of its playbook
  one after the other, pauses at approval gates, jumps at branches, starts other playbooks, and
  records the end of the run. The state is that of the stores the executor writes to; what it
  calls and the development has no model of are functions of an environment.
\<close>

subsection \<open>State and environment\<close>

text \<open>\<open>rt_world\<close> is the state of everything else a step can change: response tracking, the delivery
  table, the outside world.\<close>

record 'w runtime =
  rt_execs :: exec_db
  rt_approvals :: approval_db
  rt_letters :: letter_db
  rt_breakers :: breaker_store
  rt_world :: 'w

text \<open>
  The environment of one pass: the formats, the clock, the rows other transactions own
  (definitions, alerts), which executions they hold locked, and the code the executor calls. Calls
  are told which execution and step they are made for, as the sources tell them.

  \<^item> \<open>sv_sql_text\<close>: what a text column makes of a value that is no text (the driver may raise);
  \<^item> \<open>sv_deliveries\<close>: \<open>list_notification_delivery_attempts\<close> for a key, the newest ten;
  \<^item> \<open>sv_record_delivery\<close>: \<open>create_notification_delivery_attempt\<close>;
  \<^item> \<open>sv_slack\<close>: \<open>send_playbook_notification\<close>, its result and its delivery attempt;
  \<^item> \<open>sv_adapter\<close>: \<open>get_integration_adapter\<close> and what the adapter will do when it is called;
  \<^item> \<open>sv_protected\<close>: \<open>require_unprotected_target\<close>, the exception and its code;
  \<^item> \<open>sv_blockable\<close>: \<open>validate_blocked_ip\<close>; \<open>sv_command\<close>: \<open>execute_response_command\<close>;
  \<^item> \<open>sv_enrich\<close>: \<open>build_playbook_enrichment_context\<close>;
  \<^item> \<open>sv_link\<close>: \<open>create_response_decision\<close> for a child execution (the linkage to write, if it worked).
\<close>

record 'w services =
  sv_formats :: py_formats
  sv_clock :: clock
  sv_sha256 :: "string \<Rightarrow> string"
  sv_locked :: "row_id \<Rightarrow> bool"
  sv_lease_env :: "string option"
  sv_worker_id :: string
  sv_definitions :: definition_table
  sv_alerts :: "alert list"
  sv_sql_text :: "pyval \<Rightarrow> string result"
  sv_deliveries :: "string \<Rightarrow> 'w \<Rightarrow> items list result"
  sv_record_delivery :: "row_id \<Rightarrow> delivery_args \<Rightarrow> time \<Rightarrow> 'w \<Rightarrow> items result \<times> 'w"
  sv_slack :: "row_id \<Rightarrow> nat \<Rightarrow> pyval \<Rightarrow> pyval \<Rightarrow> 'w \<Rightarrow> (items \<times> items option) result \<times> 'w"
  sv_adapter :: "row_id \<Rightarrow> nat \<Rightarrow> string \<Rightarrow> 'w \<Rightarrow> adapter result \<times> 'w"
  sv_protected :: "pyval \<Rightarrow> (string \<times> string) option result"
  sv_blockable :: "string \<Rightarrow> unit result"
  sv_command :: "command_request \<Rightarrow> 'w \<Rightarrow> command_result result \<times> 'w"
  sv_enrich :: "execution \<Rightarrow> pyval \<Rightarrow> 'w \<Rightarrow> pyval result"
  sv_link :: "row_id \<Rightarrow> nat \<Rightarrow> row_id \<Rightarrow> 'w \<Rightarrow> (row_id \<times> string) option \<times> 'w"

text \<open>The operations of a store, and a service, as operations on the whole state.\<close>

definition on_execs :: "(exec_db, 'a) py \<Rightarrow> ('w runtime, 'a) py" where
  "on_execs m s = (case m (rt_execs s) of (r, d) \<Rightarrow> (r, s\<lparr>rt_execs := d\<rparr>))"

definition on_approvals :: "(approval_db, 'a) py \<Rightarrow> ('w runtime, 'a) py" where
  "on_approvals m s = (case m (rt_approvals s) of (r, d) \<Rightarrow> (r, s\<lparr>rt_approvals := d\<rparr>))"

definition on_letters :: "(letter_db, 'a) py \<Rightarrow> ('w runtime, 'a) py" where
  "on_letters m s = (case m (rt_letters s) of (r, d) \<Rightarrow> (r, s\<lparr>rt_letters := d\<rparr>))"

definition on_breakers :: "(breaker_store, 'a) py \<Rightarrow> ('w runtime, 'a) py" where
  "on_breakers m s = (case m (rt_breakers s) of (r, d) \<Rightarrow> (r, s\<lparr>rt_breakers := d\<rparr>))"

definition on_world :: "('w \<Rightarrow> 'a result \<times> 'w) \<Rightarrow> ('w runtime, 'a) py" where
  "on_world m s = (case m (rt_world s) of (r, d) \<Rightarrow> (r, s\<lparr>rt_world := d\<rparr>))"

definition py_return :: "'a \<Rightarrow> ('s, 'a) py" where
  "py_return a s = (Inr a, s)"

definition py_lift :: "'a result \<Rightarrow> ('s, 'a) py" where
  "py_lift r s = (r, s)"

text \<open>\<open>try: .. except Exception as error: ..\<close>\<close>

definition py_catch :: "('s, 'a) py \<Rightarrow> (py_error \<Rightarrow> 'a) \<Rightarrow> ('s, 'a) py" where
  "py_catch m f s = (case m s of (Inl e, s') \<Rightarrow> (Inr (f e), s') | (Inr a, s') \<Rightarrow> (Inr a, s'))"

definition snapshot :: "'w services \<Rightarrow> string \<Rightarrow> ('w runtime, items) py" where
  "snapshot sv adapter_name =
     on_breakers (\<lambda>b. case get_simulated_circuit_breaker_dict (sv_formats sv) adapter_name b of (d, b') \<Rightarrow> (Inr d, b'))"

subsection \<open>Steps without a store of their own\<close>

definition existing_active_delivery ::
  "'w services \<Rightarrow> string \<Rightarrow> string \<Rightarrow> row_id \<Rightarrow> nat \<Rightarrow> ('w runtime, items option) py" where
  "existing_active_delivery sv provider action execution_id step_index =
     py_bind (on_world (\<lambda>w. (sv_deliveries sv
         (make_delivery_idempotency_key (sv_sha256 sv) provider action execution_id step_index) w, w)))
       (\<lambda>rows. py_return (fetchone
          (filter (\<lambda>r. dict_get r ''status'' \<in> {PStr ''success'', PStr ''pending''}) rows)))"

definition step_params :: "items \<Rightarrow> items" where
  "step_params step = dict_or_empty (dict_get step ''params'')"

text \<open>\<open>resolve_step_params\<close> in its \<open>try\<close>: a binding error becomes a failed entry, anything else goes on.\<close>

definition with_params ::
  "'w services \<Rightarrow> items \<Rightarrow> nat \<Rightarrow> time \<Rightarrow> execution \<Rightarrow> string \<Rightarrow> (items \<Rightarrow> ('w runtime, items) py) \<Rightarrow> ('w runtime, items) py" where
  "with_params sv step step_index now ex action body =
     (case resolve_step_params (sv_formats sv) (sv_alerts sv) (step_params step) ex None of
        Inr params \<Rightarrow> body params
      | Inl (PlaybookParamBindingError code message) \<Rightarrow>
          py_return (failure_entry (sv_formats sv) (Some (int step_index)) (PStr action) message code now [])
      | Inl e \<Rightarrow> py_lift (Inl e))"

definition simulate_notification_policy_slack_step ::
  "'w services \<Rightarrow> items \<Rightarrow> nat \<Rightarrow> time \<Rightarrow> execution \<Rightarrow> ('w runtime, items) py" where
  "simulate_notification_policy_slack_step sv step step_index now ex =
     py_bind (existing_active_delivery sv ''slack'' ''notify_slack'' (ex_id ex) step_index)
       (\<lambda>existing. case existing of
          Some d \<Rightarrow> py_return (already_delivered_entry (sv_formats sv) step ''notify_slack'' step_index now d)
        | None \<Rightarrow> with_params sv step step_index now ex ''notify_slack''
            (\<lambda>params. py_bind (on_world (sv_slack sv (ex_id ex) step_index
                (dict_get params ''message'') (dict_get params ''purpose'')))
              (\<lambda>(res, attempt). py_bind (snapshot sv ''slack'')
                (\<lambda>snap. py_lift (slack_entry (sv_formats sv) step step_index now params res attempt snap)))))"

definition execute_canonical_response_step ::
  "'w services \<Rightarrow> items \<Rightarrow> nat \<Rightarrow> time \<Rightarrow> execution \<Rightarrow> string \<Rightarrow> ('w runtime, items) py" where
  "execute_canonical_response_step sv step step_index now ex action =
     with_params sv step step_index now ex action
       (\<lambda>params. py_bind (on_world (sv_command sv (canonical_request (sv_formats sv) ex step_index action params)))
         (\<lambda>res. py_return (canonical_entry (sv_formats sv) step step_index now action res)))"

definition record_playbook_block_tracking ::
  "'w services \<Rightarrow> nat \<Rightarrow> execution \<Rightarrow> items \<Rightarrow> ('w runtime, items) py" where
  "record_playbook_block_tracking sv step_index ex params =
     (let source_ip = dict_get params ''source_ip''
      in if \<not> truthy source_ip
         then py_return (skipped_tracking ''validation_no_target'' ''No source_ip for blocklist tracking'')
         else case sv_blockable sv (str_val (sv_formats sv) source_ip) of
                Inl (ValueError m) \<Rightarrow> py_return (skipped_tracking ''invalid_indicator'' m)
              | Inl e \<Rightarrow> py_lift (Inl e)
              | Inr _ \<Rightarrow> py_bind (on_world (sv_command sv (block_request (sv_formats sv) ex step_index params)))
                          (\<lambda>res. py_return (tracking_dict res)))"

definition adapter_context :: "execution \<Rightarrow> nat \<Rightarrow> items" where
  "adapter_context ex step_index =
     [(''execution_id'', PInt (ex_id ex)), (''playbook_id'', PStr (ex_playbook_id ex)),
      (''alert_id'', none_or_int (ex_alert_id ex)), (''incident_id'', none_or_int (ex_incident_id ex)),
      (''step_index'', PInt (int step_index))]"

text \<open>\<open>execute_playbook_simulated_adapter\<close>: the adapter of that name, and its \<open>execute\<close>.\<close>

definition call_adapter ::
  "'w services \<Rightarrow> execution \<Rightarrow> nat \<Rightarrow> string \<Rightarrow> string \<Rightarrow> items \<Rightarrow> ('w runtime, items) py" where
  "call_adapter sv ex step_index adapter_name adapter_action params =
     py_bind (on_world (sv_adapter sv (ex_id ex) step_index adapter_name))
       (\<lambda>ad. on_breakers (execute_adapter (sv_formats sv) ad (utc_now (sv_clock sv)) (Some adapter_action)
          (PDict params) (PDict (adapter_context ex step_index))))"

text \<open>The part after the checks: the call, and for \<open>block_ip\<close> the tracking of a success.\<close>

definition adapter_call_entry ::
  "'w services \<Rightarrow> items \<Rightarrow> nat \<Rightarrow> time \<Rightarrow> execution \<Rightarrow> string \<Rightarrow> string \<Rightarrow> string \<Rightarrow> items \<Rightarrow> ('w runtime, items) py" where
  "adapter_call_entry sv step step_index now ex action adapter_name adapter_action params s =
     (case call_adapter sv ex step_index adapter_name adapter_action params s of
        (Inl error, s1) \<Rightarrow>
          py_bind (snapshot sv adapter_name)
            (\<lambda>snap. py_return (failure_entry (sv_formats sv) (Some (int step_index)) (PStr action)
               (''Simulated adapter action failed safely: '' @ error_text error) ''adapter_simulation_failed'' now
               (flags True False @ [(''adapter'', PStr adapter_name), (''adapter_action'', PStr adapter_action),
                                    (''circuit_breaker'', PDict snap)]))) s1
      | (Inr res, s1) \<Rightarrow>
          py_bind (snapshot sv adapter_name)
            (\<lambda>snap. let entry = adapter_entry (sv_formats sv) step action step_index now params res snap
               in if dict_get res ''success'' = PBool True \<and> action = ''block_ip''
                  then py_bind (record_playbook_block_tracking sv step_index ex params)
                         (\<lambda>tracking. py_return (with_tracking entry tracking))
                  else py_return entry) s1)"

definition simulate_adapter_step ::
  "'w services \<Rightarrow> items \<Rightarrow> nat \<Rightarrow> time \<Rightarrow> execution \<Rightarrow> string \<Rightarrow> string \<Rightarrow> string \<Rightarrow> ('w runtime, items) py" where
  "simulate_adapter_step sv step step_index now ex action adapter_name adapter_action =
     py_bind (case PROVIDER_FOR_ACTION action of
                None \<Rightarrow> py_return None
              | Some provider \<Rightarrow> existing_active_delivery sv provider action (ex_id ex) step_index)
       (\<lambda>existing. case existing of
          Some d \<Rightarrow> py_return (already_delivered_entry (sv_formats sv) step action step_index now d)
        | None \<Rightarrow> with_params sv step step_index now ex action
            (\<lambda>params. py_bind (py_lift (if action = ''block_ip'' then sv_protected sv (dict_get params ''source_ip'')
                                      else Inr None))
              (\<lambda>refused. case refused of
                 Some (message, code) \<Rightarrow>
                   py_return (failure_entry (sv_formats sv) (Some (int step_index)) (PStr action) message code now [])
               | None \<Rightarrow> adapter_call_entry sv step step_index now ex action adapter_name adapter_action params)))"

definition simulate_step ::
  "'w services \<Rightarrow> pyval \<Rightarrow> nat \<Rightarrow> time \<Rightarrow> execution \<Rightarrow> ('w runtime, items) py" where
  "simulate_step sv step0 step_index now ex =
     (case step0 of
        PDict step \<Rightarrow>
          (case dict_get step ''action'' of
             PStr action \<Rightarrow>
               if action = []
               then py_return (failure_entry (sv_formats sv) (Some (int step_index)) (PStr action)
                      ''Playbook step action is required.'' ''missing_action'' now [])
               else if action = ''notify_slack'' then simulate_notification_policy_slack_step sv step step_index now ex
               else (case ADAPTER_ACTIONS action of
                       Some (adapter_name, adapter_action) \<Rightarrow>
                         simulate_adapter_step sv step step_index now ex action adapter_name adapter_action
                     | None \<Rightarrow>
                         if action \<notin> set KNOWN_PLAYBOOK_ACTIONS
                         then py_return (failure_entry (sv_formats sv) (Some (int step_index)) (PStr action)
                                ''Unsupported playbook step action.'' ''unsupported_action'' now [])
                         else if action \<in> set [''monitor'', ''flag_high_priority'']
                         then execute_canonical_response_step sv step step_index now ex action
                         else py_return (with_label step
                                ([(''step_index'', PInt (int step_index)), (''action'', PStr action),
                                  (''status'', PStr ''success''), (''mode'', PStr ''simulation''),
                                  (''started_at'', iso (sv_formats sv) now), (''completed_at'', iso (sv_formats sv) now),
                                  (''message'', PStr (''[PLAYBOOK STEP] '' @ action)),
                                  (''output'', PDict (flags True False)), (''error'', PNone)])))
           | action \<Rightarrow> py_return (failure_entry (sv_formats sv) (Some (int step_index)) action
                      ''Playbook step action is required.'' ''missing_action'' now []))
      | _ \<Rightarrow> py_return (failure_entry (sv_formats sv) (Some (int step_index)) PNone
               ''Playbook step must be an object.'' ''invalid_step'' now []))"

subsection \<open>Branches\<close>

definition branch_failure :: "py_formats \<Rightarrow> nat \<Rightarrow> string \<Rightarrow> string \<Rightarrow> time \<Rightarrow> items \<times> items list \<times> nat" where
  "branch_failure fmt step_index message code now =
     (failure_entry fmt (Some (int step_index)) (PStr ''branch'') message code now [], [], step_index + 1)"

text \<open>The label a branch goes to, and the index; the outer \<open>Inl\<close> is the message of a failure.\<close>

definition branch_target ::
  "items \<Rightarrow> nat \<Rightarrow> pyval list \<Rightarrow> bool \<Rightarrow> string + (string option \<times> nat option)" where
  "branch_target step step_index steps taken =
     (if taken
      then (case dict_get step ''goto_true'' of
              PStr l \<Rightarrow> if l = [] then Inl ''Branch step goto_true is missing.''
                        else Inr (Some l, resolve_label_target_index steps l step_index)
            | _ \<Rightarrow> Inl ''Branch step goto_true is missing.'')
      else if dict_has step ''goto_false''
      then (case dict_get step ''goto_false'' of
              PStr l \<Rightarrow> if l = [] then Inl ''Branch step goto_false is invalid.''
                        else Inr (Some l, resolve_label_target_index steps l step_index)
            | _ \<Rightarrow> Inl ''Branch step goto_false is invalid.'')
      else Inr (None, Some (step_index + 1)))"

definition branch_entry ::
  "py_formats \<Rightarrow> items \<Rightarrow> nat \<Rightarrow> time \<Rightarrow> items \<Rightarrow> bool \<Rightarrow> string option \<Rightarrow> nat \<Rightarrow> items" where
  "branch_entry fmt step step_index now condition result goto_label goto_step_index =
     (let found = [(''condition'', PDict condition), (''result'', PBool result), (''goto_label'', opt_str goto_label),
                   (''goto_step_index'', PInt (int goto_step_index))]
      in [(''step_index'', PInt (int step_index)), (''action'', PStr ''branch''), (''label'', dict_get step ''label''),
          (''status'', PStr ''success''), (''event'', PStr ''branch_evaluated'')] @ found @
         [(''mode'', PStr ''internal'')] @ flags False True @
         [(''started_at'', iso fmt now), (''completed_at'', iso fmt now),
          (''message'', PStr ''Branch condition evaluated.''),
          (''output'', PDict (flags False True @ found)), (''error'', PNone)])"

definition execute_branch_step ::
  "'w services \<Rightarrow> items \<Rightarrow> nat \<Rightarrow> pyval list \<Rightarrow> pyval list \<Rightarrow> execution \<Rightarrow> time \<Rightarrow> (items \<times> items list \<times> nat) result" where
  "execute_branch_step sv step step_index steps steps_log ex now =
     (let fmt = sv_formats sv
      in case dict_get step ''condition'' of
           PDict condition \<Rightarrow>
             (case evaluate_branch_condition fmt (sv_alerts sv) condition ex steps_log of
                Inl (PlaybookBranchConditionError code message) \<Rightarrow> Inr (branch_failure fmt step_index message code now)
              | Inl e \<Rightarrow> Inl e
              | Inr result \<Rightarrow>
                  Inr (case branch_target step step_index steps result of
                         Inl message \<Rightarrow> branch_failure fmt step_index message ''branch_target_not_found'' now
                       | Inr (_, None) \<Rightarrow>
                           branch_failure fmt step_index ''Branch target label could not be resolved.''
                             ''branch_target_not_found'' now
                       | Inr (goto_label, Some goto_step_index) \<Rightarrow>
                           (branch_entry fmt step step_index now condition result goto_label goto_step_index,
                            skipped_branch_step_entries fmt steps (step_index + 1) goto_step_index now,
                            goto_step_index)))
         | _ \<Rightarrow> Inr (branch_failure fmt step_index ''Branch step condition must be an object.'' ''invalid_branch'' now))"

subsection \<open>Starting another playbook\<close>

definition target_in_execution_ancestry :: "execution \<Rightarrow> string \<Rightarrow> exec_db \<Rightarrow> bool" where
  "target_in_execution_ancestry ex target db \<longleftrightarrow>
     target = ex_playbook_id ex \<or>
     list_ex (\<lambda>a. ex_playbook_id a = target) (get_playbook_execution_ancestor_chain (ex_id ex) MAX_CHAIN_DEPTH db)"

text \<open>\<open>create_and_link_playbook_execution_decision\<close> as far as the executions see it: the linkage is
  written, or nothing is (the savepoint), and nothing is raised.\<close>

definition link_child :: "'w services \<Rightarrow> execution \<Rightarrow> nat \<Rightarrow> row_id \<Rightarrow> ('w runtime, unit) py" where
  "link_child sv ex step_index child s =
     (case sv_link sv (ex_id ex) step_index child (rt_world s) of
        (None, w) \<Rightarrow> (Inr (), s\<lparr>rt_world := w\<rparr>)
      | (Some (decision, correlation), w) \<Rightarrow>
          (case set_playbook_execution_canonical_linkage child decision correlation (rt_execs s) of
             (Inl _, _) \<Rightarrow> (Inr (), s)
           | (Inr _, db) \<Rightarrow> (Inr (), s\<lparr>rt_world := w, rt_execs := db\<rparr>)))"

definition triggered_entry ::
  "py_formats \<Rightarrow> nat \<Rightarrow> time \<Rightarrow> string \<Rightarrow> row_id option \<Rightarrow> int \<Rightarrow> bool \<Rightarrow> items" where
  "triggered_entry fmt step_index now target child depth duplicate =
     (let found = [(''child_execution_id'', none_or_int child), (''child_playbook_id'', PStr target),
                   (''chain_depth'', PInt depth)]
      in [(''step_index'', PInt (int step_index)), (''action'', PStr ''trigger_playbook''),
          (''status'', PStr ''success''), (''event'', PStr ''playbook_triggered''), (''mode'', PStr ''internal'')] @
         flags False True @
         [(''started_at'', iso fmt now), (''completed_at'', iso fmt now),
          (''message'', PStr (if duplicate
             then ''Target playbook '' @ target @ '' already has an active execution for this alert.''
             else ''Triggered playbook '' @ target @ ''.''))] @ found @
         [(''output'', PDict (flags False True @ found @ [(''duplicate'', PBool duplicate)])), (''error'', PNone)])"

text \<open>The checks before the child is created: a message and a code, or the target.\<close>

definition trigger_target :: "'w services \<Rightarrow> items \<Rightarrow> execution \<Rightarrow> exec_db \<Rightarrow> (string \<times> string) + string" where
  "trigger_target sv step ex db =
     (case dict_get step ''params'' of
        PDict params \<Rightarrow>
          (case word_in (dict_get params ''playbook_id'') of
             None \<Rightarrow> Inl (''trigger_playbook requires params.playbook_id.'', ''invalid_trigger_playbook_target'')
           | Some target \<Rightarrow>
               (case get_playbook_definition target (sv_definitions sv) of
                  None \<Rightarrow> Inl (''Target playbook '' @ py_repr target @ '' was not found.'', ''trigger_playbook_not_found'')
                | Some d \<Rightarrow>
                    if \<not> pd_enabled d
                    then Inl (''Target playbook '' @ py_repr target @ '' is disabled.'', ''trigger_playbook_disabled'')
                    else if MAX_CHAIN_DEPTH \<le> ex_chain_depth ex
                    then Inl (''Maximum playbook chain depth exceeded.'', ''chain_depth_exceeded'')
                    else if target_in_execution_ancestry ex target db
                    then Inl (''Playbook chain cycle detected.'', ''chain_cycle_detected'')
                    else if ex_alert_id ex = None
                    then Inl (''trigger_playbook requires an alert_id on the parent execution.'',
                              ''trigger_playbook_alert_context_missing'')
                    else Inr target))
      | _ \<Rightarrow> Inl (''trigger_playbook requires params object.'', ''invalid_trigger_playbook_params''))"

definition child_args :: "execution \<Rightarrow> string \<Rightarrow> execution_args" where
  "child_args ex target =
     \<lparr>ea_playbook_id = target, ea_alert_id = ex_alert_id ex, ea_incident_id = ex_incident_id ex,
      ea_decision_id = None, ea_soar_correlation_id = None, ea_parent_execution_id = Some (ex_id ex),
      ea_chain_depth = ex_chain_depth ex + 1\<rparr>"

definition execute_trigger_playbook_step ::
  "'w services \<Rightarrow> items \<Rightarrow> nat \<Rightarrow> execution \<Rightarrow> time \<Rightarrow> ('w runtime, items) py" where
  "execute_trigger_playbook_step sv step step_index ex now s =
     (case trigger_target sv step ex (rt_execs s) of
        Inl (message, code) \<Rightarrow>
          (Inr (failure_entry (sv_formats sv) (Some (int step_index)) (PStr ''trigger_playbook'') message code now []), s)
      | Inr target \<Rightarrow>
          py_bind (on_execs (create_pending_playbook_execution_once (sv_clock sv) (child_args ex target)))
            (\<lambda>child s1.
               let depth = ex_chain_depth ex + 1
               in case child of
                    None \<Rightarrow>
                      (Inr (triggered_entry (sv_formats sv) step_index now target
                         (map_option ex_id (get_active_playbook_execution_for_pair target (ex_alert_id ex) (rt_execs s1)))
                         depth True), s1)
                  | Some i \<Rightarrow>
                      py_bind (link_child sv ex step_index i)
                        (\<lambda>_. py_return (triggered_entry (sv_formats sv) step_index now target (Some i) depth False)) s1) s)"

subsection \<open>Enrichment\<close>

definition execute_enrich_context_step ::
  "'w services \<Rightarrow> items \<Rightarrow> nat \<Rightarrow> execution \<Rightarrow> time \<Rightarrow> ('w runtime, items) py" where
  "execute_enrich_context_step sv step step_index ex now s =
     (let fmt = sv_formats sv;
          failed = (\<lambda>message code. (Inr (failure_entry fmt (Some (int step_index)) (PStr ''enrich_context'')
                      message code now []), s))
      in case py_or (dict_get step ''params'') (PDict []) of
           PDict params \<Rightarrow>
             (case sv_enrich sv ex (dict_get params ''limit'') (rt_world s) of
                Inl e \<Rightarrow> failed (error_text e) ''enrich_context_failed''
              | Inr found \<Rightarrow>
                  (Inr (with_label step
                    ([(''step_index'', PInt (int step_index)), (''action'', PStr ''enrich_context''),
                      (''status'', PStr ''success''), (''mode'', PStr ''read_only''),
                      (''started_at'', iso fmt now), (''completed_at'', iso fmt now),
                      (''message'',
                       PStr ''Read-only database enrichment completed; no external action was performed.''),
                      (''output'', PDict (flags False True @
                         [(''read_only'', PBool True), (''external_side_effect'', PBool False), (''context'', found)])),
                      (''error'', PNone)])), s))
         | _ \<Rightarrow> failed ''enrich_context params must be an object.'' ''invalid_enrich_context_params'')"

subsection \<open>Ending a run\<close>

definition letter_payload :: "execution \<Rightarrow> int option \<Rightarrow> items \<Rightarrow> items" where
  "letter_payload ex last_completed_step entry =
     [(''source'', PStr ''playbook_step_executor''), (''execution_status'', PStr (exec_status_text (ex_status ex))),
      (''failure_reason'', opt_str (ex_failure_reason ex)),
      (''last_completed_step'', none_or_int last_completed_step),
      (''step'', PDict
         [(''step_index'', dict_get entry ''step_index''), (''action'', dict_get entry ''action''),
          (''status'', dict_get entry ''status''), (''message'', dict_get entry ''message''),
          (''error'', PDict (dict_or_empty (dict_get entry ''error''))),
          (''output'', PDict (dict_or_empty (dict_get entry ''output'')))])]"

definition failed_run_letter ::
  "py_formats \<Rightarrow> execution \<Rightarrow> int option \<Rightarrow> time \<Rightarrow> items \<Rightarrow> letter_args" where
  "failed_run_letter fmt ex last_completed_step now entry =
     (let failure_class = dead_letter_failure_class entry;
          message = py_or (py_or (py_or (dict_get (dict_or_empty (dict_get entry ''error'')) ''message'')
                       (dict_get entry ''message'')) (opt_str (ex_failure_reason ex)))
                      (PStr ''Playbook execution failed.'')
      in \<lparr>la_source_type = Some ''playbook_execution'', la_source_id = Some (ex_id ex),
          la_error_message = Some (str_val fmt message), la_failure_class = Some failure_class,
          la_payload_json = PDict (letter_payload ex last_completed_step entry),
          la_retryable = (case classify_dead_letter_retryable (Some failure_class) (Some ''playbook_execution'')
                              (Some ''open'') of Inr b \<Rightarrow> PBool b | Inl _ \<Rightarrow> PNone),
          la_execution_id = Some (ex_id ex), la_incident_id = ex_incident_id ex, la_alert_id = ex_alert_id ex,
          la_playbook_id = Some (ex_playbook_id ex), la_step_index = int_value (dict_get entry ''step_index''),
          la_action_name = (case dict_get entry ''action'' of PStr a \<Rightarrow> Some a | _ \<Rightarrow> None),
          la_first_failed_at = Some now, la_last_failed_at = Some now\<rparr>)"

text \<open>Every exception is caught; but after an error of the database the transaction takes no further
  statement, which the result \<open>False\<close> says.\<close>

definition database_error :: "py_error \<Rightarrow> bool" where
  "database_error e = (case e of DataError _ \<Rightarrow> True | IntegrityError _ \<Rightarrow> True | _ \<Rightarrow> False)"

definition capture_failed_execution_dead_letter ::
  "'w services \<Rightarrow> execution \<Rightarrow> pyval list \<Rightarrow> int option \<Rightarrow> time \<Rightarrow> ('w runtime, bool) py" where
  "capture_failed_execution_dead_letter sv ex steps_log last_completed_step now =
     (case latest_failed_step_entry steps_log of
        None \<Rightarrow> py_return True
      | Some entry \<Rightarrow>
          py_catch
            (py_bind (on_letters (create_dead_letter (sv_clock sv)
                (failed_run_letter (sv_formats sv) ex last_completed_step now entry))) (\<lambda>_. py_return True))
            (\<lambda>e. \<not> database_error e))"

definition transaction_aborted :: py_error where
  "transaction_aborted = OtherException ''current transaction is aborted''"

definition release :: "row_id \<Rightarrow> string \<Rightarrow> ('w runtime, unit) py" where
  "release i owner = py_bind (on_execs (release_execution_lease i (Some owner))) (\<lambda>_. py_return ())"

definition finalize_success ::
  "'w services \<Rightarrow> row_id \<Rightarrow> string \<Rightarrow> pyval list \<Rightarrow> int option \<Rightarrow> time \<Rightarrow> ('w runtime, unit) py" where
  "finalize_success sv i owner steps_log last_completed_step now =
     py_bind (on_execs (set_playbook_execution_success (sv_clock sv) i steps_log last_completed_step (Some now) (Some owner)))
       (\<lambda>updated. case updated of None \<Rightarrow> py_return () | Some _ \<Rightarrow> release i owner)"

text \<open>The two writes of a failing or denied run: under the lease; and, when the lease is not held, for
  an execution that waits for approval without any lease.\<close>

definition finish_or_waiting ::
  "(string option \<Rightarrow> (exec_db, execution option) py) \<Rightarrow> row_id \<Rightarrow> string \<Rightarrow> ('w runtime, execution option) py" where
  "finish_or_waiting finish_with i owner =
     py_bind (on_execs (finish_with (Some owner)))
       (\<lambda>updated s. case updated of
          Some r \<Rightarrow> (Inr (Some r), s)
        | None \<Rightarrow>
            (case get_playbook_execution i (rt_execs s) of
               None \<Rightarrow> (Inr None, s)
             | Some current \<Rightarrow>
                 if ex_status current = EAwaiting \<and> opt_text_or (ex_lease_owner current) [] = []
                 then on_execs (finish_with None) s else (Inr None, s)))"

definition finalize_failed ::
  "'w services \<Rightarrow> row_id \<Rightarrow> string \<Rightarrow> pyval list \<Rightarrow> int option \<Rightarrow> time \<Rightarrow> ('w runtime, unit) py" where
  "finalize_failed sv i owner steps_log last_completed_step now =
     py_bind (finish_or_waiting
         (set_playbook_execution_failed (sv_clock sv) i steps_log last_completed_step (Some now)) i owner)
       (\<lambda>updated. case updated of
          None \<Rightarrow> py_return ()
        | Some r \<Rightarrow> py_bind (capture_failed_execution_dead_letter sv r steps_log last_completed_step now)
                     (\<lambda>usable. if usable then release i owner else py_lift (Inl transaction_aborted)))"

definition finalize_not_actioned ::
  "'w services \<Rightarrow> row_id \<Rightarrow> string \<Rightarrow> pyval list \<Rightarrow> int option \<Rightarrow> time \<Rightarrow> ('w runtime, unit) py" where
  "finalize_not_actioned sv i owner steps_log last_completed_step now =
     py_bind (finish_or_waiting
         (set_playbook_execution_not_actioned (sv_clock sv) i steps_log last_completed_step (Some now)) i owner)
       (\<lambda>updated. case updated of None \<Rightarrow> py_return () | Some _ \<Rightarrow> release i owner)"

subsection \<open>The result of a pass\<close>

record run_result =
  rr_execution_id :: row_id
  rr_playbook_id :: "string option"
  rr_prior_status :: "exec_status option"
  rr_new_status :: "exec_status option"
  rr_outcome :: string
  rr_steps_processed :: nat
  rr_message :: pyval
  rr_reason :: "string option"

definition run_result_of ::
  "execution \<Rightarrow> exec_status \<Rightarrow> exec_status \<Rightarrow> string \<Rightarrow> nat \<Rightarrow> pyval \<Rightarrow> string option \<Rightarrow> run_result" where
  "run_result_of ex prior new outcome steps_processed message reason =
     \<lparr>rr_execution_id = ex_id ex, rr_playbook_id = Some (ex_playbook_id ex), rr_prior_status = Some prior,
      rr_new_status = Some new, rr_outcome = outcome, rr_steps_processed = steps_processed,
      rr_message = message, rr_reason = reason\<rparr>"

definition skip_result :: "execution \<Rightarrow> exec_status \<Rightarrow> string \<Rightarrow> string \<Rightarrow> exec_status option \<Rightarrow> run_result" where
  "skip_result ex prior reason message new =
     run_result_of ex prior (coalesce new prior) ''skipped'' 0 (PStr message) (Some reason)"

subsection \<open>The loop over the steps\<close>

text \<open>The variables of the loop, and what a round comes to: a return from the function, another round,
  or the end of the loop.\<close>

record loop =
  lp_index :: nat
  lp_log :: "pyval list"
  lp_last :: "int option"
  lp_failed :: bool
  lp_message :: pyval

datatype verdict = Return run_result | Go loop | Break loop

definition lost_lease :: "execution \<Rightarrow> exec_status \<Rightarrow> pyval list \<Rightarrow> string \<Rightarrow> verdict" where
  "lost_lease ex prior steps_log message =
     Return (run_result_of ex prior (ex_status ex) ''skipped'' (length steps_log) (PStr message) (Some ''lease_lost''))"

definition heartbeat_lease :: "'w services \<Rightarrow> row_id \<Rightarrow> string \<Rightarrow> time \<Rightarrow> int \<Rightarrow> ('w runtime, bool) py" where
  "heartbeat_lease sv i owner now duration =
     py_bind (on_execs (heartbeat_execution_lease (sv_clock sv) i (Some owner) duration (Some now)))
       (\<lambda>updated. py_return (updated \<noteq> None))"

definition is_action :: "string \<Rightarrow> pyval \<Rightarrow> bool" where
  "is_action name step \<longleftrightarrow> is_dict step \<and> step_action step = PStr name"

definition continues :: "pyval \<Rightarrow> bool" where
  "continues step \<longleftrightarrow> (case step of PDict d \<Rightarrow> dict_get d ''on_failure'' = PStr ''continue'' | _ \<Rightarrow> False)"

text \<open>What every kind of step but a gate does with its entry: append it; after a success save the
  progress and go on, after a failure go on or leave the loop.\<close>

definition after_entry ::
  "execution \<Rightarrow> exec_status \<Rightarrow> string \<Rightarrow> pyval \<Rightarrow> string \<Rightarrow> loop \<Rightarrow> items \<Rightarrow> items list \<Rightarrow> nat \<Rightarrow> ('w runtime, verdict) py" where
  "after_entry ex prior owner step lost ls entry skipped next_index =
     (let log = lp_log ls @ PDict entry # map PDict skipped; index = lp_index ls
      in if dict_get entry ''status'' = PStr ''success''
         then py_bind (on_execs (update_playbook_execution_step_log (ex_id ex) log (Some (int index)) (Some owner)))
                (\<lambda>updated. py_return (case updated of
                   None \<Rightarrow> lost_lease ex prior log lost
                 | Some _ \<Rightarrow> Go (ls\<lparr>lp_index := next_index, lp_log := log, lp_last := Some (int index)\<rparr>)))
         else let ls' = ls\<lparr>lp_log := log, lp_failed := True, lp_message := dict_get entry ''message''\<rparr>
              in py_return (if continues step then Go (ls'\<lparr>lp_index := index + 1\<rparr>) else Break ls'))"

text \<open>\<open>timedelta(minutes=..)\<close>: whole microseconds, a half rounded to the even one.\<close>

definition round_half_even :: "rat \<Rightarrow> int" where
  "round_half_even q =
     (let f = \<lfloor>q\<rfloor>; r = q - of_int f
      in if r < 1 / 2 then f else if r > 1 / 2 then f + 1 else if even f then f else f + 1)"

definition text_column :: "'w services \<Rightarrow> pyval \<Rightarrow> string result" where
  "text_column sv v = (case v of PStr s \<Rightarrow> Inr s | _ \<Rightarrow> sv_sql_text sv v)"

definition gate_ttl :: "clock \<Rightarrow> pyval \<Rightarrow> (time option \<times> int) result" where
  "gate_ttl clk ttl =
     (case ttl of
        PFloat q \<Rightarrow> Inr (Some (utc_now clk + round_half_even (q * 60000000)), 0)
      | _ \<Rightarrow> (case int_value ttl of
                Some m \<Rightarrow> Inr (None, m)
              | None \<Rightarrow> Inl (TypeError ''unsupported type for timedelta minutes component'')))"

text \<open>\<open>create_playbook_step_approval_request\<close> with the step's values: an active request is returned
  before they are looked at.\<close>

definition gate_request :: "'w services \<Rightarrow> row_id \<Rightarrow> nat \<Rightarrow> items \<Rightarrow> ('w runtime, approval_request) py" where
  "gate_request sv execution_id index step =
     (let reason = py_or (dict_get step ''reason'') (PStr ''Approval required before continuing simulated playbook.'');
          risk = coalesce (map_of step ''risk_level'') (PStr ''high'');
          ttl = coalesce (map_of step ''expires_in_minutes'') (PInt DEFAULT_APPROVAL_TTL_MINUTES);
          create = (\<lambda>reason_text risk_text expires_at minutes.
            on_approvals (create_playbook_step_approval_request (sv_clock sv) execution_id (int index)
              ''playbook.require_approval'' None (Some reason_text) risk_text expires_at minutes))
      in py_bind (on_approvals (get_active_playbook_step_approval_request (sv_clock sv) execution_id (int index)))
           (\<lambda>existing. case existing of
              Some r \<Rightarrow> py_return r
            | None \<Rightarrow> py_bind (py_lift (gate_ttl (sv_clock sv) ttl))
                (\<lambda>(expires_at, minutes). py_bind (py_lift (text_column sv reason))
                  (\<lambda>reason_text. py_bind (py_lift (text_column sv risk))
                    (\<lambda>risk_text. create reason_text risk_text expires_at minutes)))))"

definition gate_step ::
  "'w services \<Rightarrow> execution \<Rightarrow> exec_status \<Rightarrow> string \<Rightarrow> time \<Rightarrow> items \<Rightarrow> loop \<Rightarrow> ('w runtime, verdict) py" where
  "gate_step sv ex prior owner now step ls =
     py_bind (gate_request sv (ex_id ex) (lp_index ls) step)
       (\<lambda>request. let log = lp_log ls @ [PDict (approval_requested_entry (sv_formats sv) (lp_index ls) (ar_id request)
            (approval_status_text (ar_status request)) (ar_risk_level request) step now)]
        in py_bind (on_execs (set_playbook_execution_awaiting_approval (ex_id ex) log (lp_last ls) (Some owner)))
             (\<lambda>updated. case updated of
                None \<Rightarrow> py_return (lost_lease ex prior log
                  ''Playbook execution lease was lost while pausing for approval.'')
              | Some _ \<Rightarrow> py_bind (release (ex_id ex) owner)
                  (\<lambda>_. py_return (Return (run_result_of ex prior EAwaiting ''awaiting_approval'' (length log)
                     (PStr ''Approval requested before continuing simulated playbook.'') None)))))"

text \<open>The delivery record of a notification that goes straight to its adapter; it fails silently.\<close>

definition with_delivery_record ::
  "'w services \<Rightarrow> execution \<Rightarrow> pyval \<Rightarrow> nat \<Rightarrow> time \<Rightarrow> items \<Rightarrow> ('w runtime, items) py" where
  "with_delivery_record sv ex step index now entry s =
     (case step_action step of
        PStr action \<Rightarrow>
          if is_dict step \<and> action \<in> set NOTIFICATION_ACTIONS \<and> action \<noteq> ''notify_slack'' \<and>
             dict_get entry ''skipped'' \<noteq> PBool True
          then (case delivery_attempt_args (sv_formats sv) (sv_sha256 sv) (ex_id ex) action index entry of
                  Inr (Some args) \<Rightarrow>
                    (case on_world (sv_record_delivery sv (ex_id ex) args now) s of
                       (Inr row, s1) \<Rightarrow>
                         (Inr (case dict_get entry ''output'' of
                                 PDict output \<Rightarrow> dict_set entry ''output''
                                   (PDict (dict_set output ''notification_delivery'' (PDict (delivery_summary row))))
                               | _ \<Rightarrow> entry), s1)
                     | (Inl _, s1) \<Rightarrow> (Inr entry, s1))
                | _ \<Rightarrow> (Inr entry, s))
          else (Inr entry, s)
      | _ \<Rightarrow> (Inr entry, s))"

definition plain_entry ::
  "'w services \<Rightarrow> execution \<Rightarrow> time \<Rightarrow> pyval \<Rightarrow> nat \<Rightarrow> ('w runtime, items) py" where
  "plain_entry sv ex now step index =
     py_bind (py_catch (simulate_step sv step index now ex)
         (\<lambda>e. failure_entry (sv_formats sv) (Some (int index)) (step_action step) (error_text e)
                ''simulation_exception'' now []))
       (with_delivery_record sv ex step index now)"

definition run_step ::
  "'w services \<Rightarrow> execution \<Rightarrow> exec_status \<Rightarrow> string \<Rightarrow> int \<Rightarrow> time \<Rightarrow> pyval list \<Rightarrow> loop \<Rightarrow> ('w runtime, verdict) py" where
  "run_step sv ex prior owner duration now steps ls =
     (let index = lp_index ls; step = steps ! index; d = dict_or_empty step
      in if step_already_succeeded_in_log (lp_log ls) (int index)
         then py_return (Go (ls\<lparr>lp_last := Some (int index), lp_index := index + 1\<rparr>))
         else if step_already_skipped_in_log (lp_log ls) (int index)
         then py_return (Go (ls\<lparr>lp_index := index + 1\<rparr>))
         else py_bind (heartbeat_lease sv (ex_id ex) owner now duration)
           (\<lambda>held.
              if \<not> held
              then py_return (lost_lease ex prior (lp_log ls) ''Playbook execution lease was lost before step execution.'')
              else if is_action ''require_approval'' step then gate_step sv ex prior owner now d ls
              else if is_action ''branch'' step
              then py_bind (py_lift (execute_branch_step sv d index steps (lp_log ls) ex now))
                     (\<lambda>(entry, skipped, next_index). after_entry ex prior owner step
                        ''Playbook execution lease was lost while saving branch progress.'' ls entry skipped next_index)
              else if is_action ''trigger_playbook'' step
              then py_bind (execute_trigger_playbook_step sv d index ex now)
                     (\<lambda>entry. after_entry ex prior owner step
                        ''Playbook execution lease was lost while saving trigger_playbook progress.'' ls entry [] (index + 1))
              else if is_action ''enrich_context'' step
              then py_bind (execute_enrich_context_step sv d index ex now)
                     (\<lambda>entry. after_entry ex prior owner step
                        ''Playbook execution lease was lost while saving enrich_context progress.'' ls entry [] (index + 1))
              else py_bind (plain_entry sv ex now step index)
                     (\<lambda>entry. after_entry ex prior owner step
                        ''Playbook execution lease was lost while saving step progress.'' ls entry [] (index + 1))))"

text \<open>A round that goes on moves the index forward, so the loop ends.\<close>

lemma py_bind_Inr:
  "py_bind m f s = (Inr b, s') \<longleftrightarrow> (\<exists>a t. m s = (Inr a, t) \<and> f a t = (Inr b, s'))"
  by (auto split: prod.splits sum.splits)

lemma py_return_eq [simp]: "py_return a s = (r, t) \<longleftrightarrow> r = Inr a \<and> t = s"
  by (auto simp: py_return_def)

lemma py_lift_eq [simp]: "py_lift r s = (r', t) \<longleftrightarrow> r' = r \<and> t = s"
  by (auto simp: py_lift_def)

lemma after_entry_index:
  assumes "after_entry ex prior owner step lost ls entry skipped next s = (Inr (Go ls'), s')" "lp_index ls < next"
  shows "lp_index ls < lp_index ls'"
  using assms by (auto simp: after_entry_def Let_def py_bind_Inr lost_lease_def simp del: py_bind.simps
      split: if_splits option.splits)

lemma branch_target_forward:
  "branch_target step i steps taken = Inr (l, Some t) \<Longrightarrow> i < t"
  by (auto simp: branch_target_def resolve_label_target_index_def split: pyval.splits if_splits option.splits)

lemma execute_branch_step_index:
  assumes "execute_branch_step sv step i steps steps_log ex now = Inr (entry, skipped, next)"
  shows "i < next"
  using assms by (auto simp: execute_branch_step_def Let_def branch_failure_def
      split: pyval.splits sum.splits prod.splits option.splits py_error.splits dest: branch_target_forward)

text \<open>The kinds of round.\<close>

lemma run_step_cases [consumes 1, case_names succeeded skipped lost gate branch trigger enrich plain]:
  assumes "run_step sv ex prior owner duration now steps ls s = (Inr v, s')"
  obtains
    "step_already_succeeded_in_log (lp_log ls) (int (lp_index ls))" "s' = s"
    "v = Go (ls\<lparr>lp_last := Some (int (lp_index ls)), lp_index := lp_index ls + 1\<rparr>)"
  | "\<not> step_already_succeeded_in_log (lp_log ls) (int (lp_index ls))"
    "step_already_skipped_in_log (lp_log ls) (int (lp_index ls))" "s' = s" "v = Go (ls\<lparr>lp_index := lp_index ls + 1\<rparr>)"
  | "heartbeat_lease sv (ex_id ex) owner now duration s = (Inr False, s')"
    "v = lost_lease ex prior (lp_log ls) ''Playbook execution lease was lost before step execution.''"
  | t where "heartbeat_lease sv (ex_id ex) owner now duration s = (Inr True, t)"
    "is_action ''require_approval'' (steps ! lp_index ls)"
    "gate_step sv ex prior owner now (dict_or_empty (steps ! lp_index ls)) ls t = (Inr v, s')"
  | t entry sk nxt lost where "heartbeat_lease sv (ex_id ex) owner now duration s = (Inr True, t)"
    "\<not> step_already_succeeded_in_log (lp_log ls) (int (lp_index ls))"
    "\<not> is_action ''require_approval'' (steps ! lp_index ls)"
    "execute_branch_step sv (dict_or_empty (steps ! lp_index ls)) (lp_index ls) steps (lp_log ls) ex now =
       Inr (entry, sk, nxt)"
    "after_entry ex prior owner (steps ! lp_index ls) lost ls entry sk nxt t = (Inr v, s')"
  | t t' entry lost where "heartbeat_lease sv (ex_id ex) owner now duration s = (Inr True, t)"
    "\<not> step_already_succeeded_in_log (lp_log ls) (int (lp_index ls))"
    "\<not> is_action ''require_approval'' (steps ! lp_index ls)"
    "execute_trigger_playbook_step sv (dict_or_empty (steps ! lp_index ls)) (lp_index ls) ex now t = (Inr entry, t')"
    "after_entry ex prior owner (steps ! lp_index ls) lost ls entry [] (lp_index ls + 1) t' = (Inr v, s')"
  | t t' entry lost where "heartbeat_lease sv (ex_id ex) owner now duration s = (Inr True, t)"
    "\<not> step_already_succeeded_in_log (lp_log ls) (int (lp_index ls))"
    "\<not> is_action ''require_approval'' (steps ! lp_index ls)"
    "execute_enrich_context_step sv (dict_or_empty (steps ! lp_index ls)) (lp_index ls) ex now t = (Inr entry, t')"
    "after_entry ex prior owner (steps ! lp_index ls) lost ls entry [] (lp_index ls + 1) t' = (Inr v, s')"
  | t t' entry lost where "heartbeat_lease sv (ex_id ex) owner now duration s = (Inr True, t)"
    "\<not> step_already_succeeded_in_log (lp_log ls) (int (lp_index ls))"
    "\<not> is_action ''require_approval'' (steps ! lp_index ls)"
    "plain_entry sv ex now (steps ! lp_index ls) (lp_index ls) t = (Inr entry, t')"
    "after_entry ex prior owner (steps ! lp_index ls) lost ls entry [] (lp_index ls + 1) t' = (Inr v, s')"
proof (cases "step_already_succeeded_in_log (lp_log ls) (int (lp_index ls)) \<or>
    step_already_skipped_in_log (lp_log ls) (int (lp_index ls))")
  case True
  with assms that(1,2) show ?thesis by (auto simp: run_step_def Let_def split: if_splits)
next
  case fresh: False
  obtain held t where h: "heartbeat_lease sv (ex_id ex) owner now duration s = (Inr held, t)"
    and rest: "(if \<not> held then py_return (lost_lease ex prior (lp_log ls)
         ''Playbook execution lease was lost before step execution.'')
       else if is_action ''require_approval'' (steps ! lp_index ls)
       then gate_step sv ex prior owner now (dict_or_empty (steps ! lp_index ls)) ls
       else if is_action ''branch'' (steps ! lp_index ls)
       then py_bind (py_lift (execute_branch_step sv (dict_or_empty (steps ! lp_index ls)) (lp_index ls) steps (lp_log ls) ex now))
           (\<lambda>(entry, skipped, next_index). after_entry ex prior owner (steps ! lp_index ls)
              ''Playbook execution lease was lost while saving branch progress.'' ls entry skipped next_index)
       else if is_action ''trigger_playbook'' (steps ! lp_index ls)
       then py_bind (execute_trigger_playbook_step sv (dict_or_empty (steps ! lp_index ls)) (lp_index ls) ex now)
           (\<lambda>entry. after_entry ex prior owner (steps ! lp_index ls)
              ''Playbook execution lease was lost while saving trigger_playbook progress.'' ls entry [] (lp_index ls + 1))
       else if is_action ''enrich_context'' (steps ! lp_index ls)
       then py_bind (execute_enrich_context_step sv (dict_or_empty (steps ! lp_index ls)) (lp_index ls) ex now)
           (\<lambda>entry. after_entry ex prior owner (steps ! lp_index ls)
              ''Playbook execution lease was lost while saving enrich_context progress.'' ls entry [] (lp_index ls + 1))
       else py_bind (plain_entry sv ex now (steps ! lp_index ls) (lp_index ls))
           (\<lambda>entry. after_entry ex prior owner (steps ! lp_index ls)
              ''Playbook execution lease was lost while saving step progress.'' ls entry [] (lp_index ls + 1))) t = (Inr v, s')"
    using assms fresh by (auto simp: run_step_def Let_def py_bind_Inr simp del: py_bind.simps)
  have f: "\<not> step_already_succeeded_in_log (lp_log ls) (int (lp_index ls))" using fresh by simp
  show ?thesis
  proof (cases held)
    case False
    with h rest show ?thesis by (intro that(3)) simp_all
  next
    case True
    have h: "heartbeat_lease sv (ex_id ex) owner now duration s = (Inr True, t)" using h True by simp
    consider (g) "is_action ''require_approval'' (steps ! lp_index ls)"
      | (b) "\<not> is_action ''require_approval'' (steps ! lp_index ls)" "is_action ''branch'' (steps ! lp_index ls)"
      | (t) "\<not> is_action ''require_approval'' (steps ! lp_index ls)" "\<not> is_action ''branch'' (steps ! lp_index ls)"
          "is_action ''trigger_playbook'' (steps ! lp_index ls)"
      | (e) "\<not> is_action ''require_approval'' (steps ! lp_index ls)" "\<not> is_action ''branch'' (steps ! lp_index ls)"
          "\<not> is_action ''trigger_playbook'' (steps ! lp_index ls)" "is_action ''enrich_context'' (steps ! lp_index ls)"
      | (p) "\<not> is_action ''require_approval'' (steps ! lp_index ls)" "\<not> is_action ''branch'' (steps ! lp_index ls)"
          "\<not> is_action ''trigger_playbook'' (steps ! lp_index ls)" "\<not> is_action ''enrich_context'' (steps ! lp_index ls)"
      by argo
    then show ?thesis
    proof cases
      case g
      with rest True show ?thesis by (intro that(4) [OF h]) simp_all
    next
      case b
      with rest True show ?thesis
        by (auto simp: py_bind_Inr simp del: py_bind.simps split: prod.splits intro!: that(5) [OF h f] elim: sym)
    next
      case t
      with rest True show ?thesis by (auto simp: py_bind_Inr simp del: py_bind.simps intro!: that(6) [OF h f])
    next
      case e
      with rest True show ?thesis by (auto simp: py_bind_Inr simp del: py_bind.simps intro!: that(7) [OF h f])
    next
      case p
      with rest True show ?thesis by (auto simp: py_bind_Inr simp del: py_bind.simps intro!: that(8) [OF h f])
    qed
  qed
qed

lemma gate_step_not_Go:
  "gate_step sv ex prior owner now step ls s = (Inr v, s') \<Longrightarrow> \<exists>r. v = Return r"
  by (auto simp: gate_step_def py_bind_Inr lost_lease_def Let_def simp del: py_bind.simps split: option.splits)

lemma run_step_index:
  assumes "run_step sv ex prior owner duration now steps ls s = (Inr (Go ls'), s')"
  shows "lp_index ls < lp_index ls'"
  using assms
proof (cases rule: run_step_cases)
  case (lost)
  then show ?thesis by (simp add: lost_lease_def)
next
  case (gate t)
  then show ?thesis using gate_step_not_Go by fast
next
  case (branch t entry sk nxt lost)
  show ?thesis using after_entry_index [OF branch(5) execute_branch_step_index [OF branch(4)]] by simp
qed (auto dest!: after_entry_index)

function run_steps ::
  "'w services \<Rightarrow> execution \<Rightarrow> exec_status \<Rightarrow> string \<Rightarrow> int \<Rightarrow> time \<Rightarrow> pyval list \<Rightarrow> loop \<Rightarrow>
    ('w runtime, run_result + loop) py" where
  "run_steps sv ex prior owner duration now steps ls s =
     (if lp_index ls < length steps
      then (case run_step sv ex prior owner duration now steps ls s of
              (Inl e, s1) \<Rightarrow> (Inl e, s1)
            | (Inr (Return r), s1) \<Rightarrow> (Inr (Inl r), s1)
            | (Inr (Break ls1), s1) \<Rightarrow> (Inr (Inr ls1), s1)
            | (Inr (Go ls1), s1) \<Rightarrow> run_steps sv ex prior owner duration now steps ls1 s1)
      else (Inr (Inr ls), s))"
  by pat_completeness auto
termination
proof (relation "measure (\<lambda>(sv, ex, prior, owner, duration, now, steps, ls, s). length steps - lp_index ls)", goal_cases)
  case (2 sv ex prior owner duration now steps ls s p s1 v ls1)
  then have "run_step sv ex prior owner duration now steps ls s = (Inr (Go ls1), s1)" by simp
  from run_step_index [OF this] 2(1) show ?case by simp
qed simp

declare run_steps.simps [simp del]

subsection \<open>Passes over an execution\<close>

definition process_steps ::
  "'w services \<Rightarrow> execution \<Rightarrow> pyval list \<Rightarrow> time \<Rightarrow> exec_status \<Rightarrow> nat \<Rightarrow> pyval list \<Rightarrow> int option \<Rightarrow> string \<Rightarrow> int \<Rightarrow>
    ('w runtime, run_result) py" where
  "process_steps sv ex steps now prior start_index steps_log last_completed_step owner duration =
     py_bind (run_steps sv ex prior owner duration now steps
         \<lparr>lp_index = start_index, lp_log = steps_log, lp_last = last_completed_step, lp_failed = False, lp_message = PNone\<rparr>)
       (\<lambda>r. case r of
          Inl result \<Rightarrow> py_return result
        | Inr ls \<Rightarrow>
            if lp_failed ls
            then py_bind (finalize_failed sv (ex_id ex) owner (lp_log ls) (lp_last ls) now)
                   (\<lambda>_. py_return (run_result_of ex prior EFailed ''failed'' (length (lp_log ls))
                      (py_or (lp_message ls) (PStr ''One or more simulated playbook steps failed.'')) None))
            else py_bind (finalize_success sv (ex_id ex) owner (lp_log ls) (lp_last ls) now)
                   (\<lambda>_. py_return (run_result_of ex prior ESuccess ''success'' (length (lp_log ls))
                      (PStr ''Playbook execution completed successfully.'') None)))"

definition resume_progress :: "execution \<Rightarrow> nat \<times> pyval list \<times> int option" where
  "resume_progress ex =
     (case ex_last_completed_step ex of
        None \<Rightarrow> (0, ex_steps_log ex, None)
      | Some completed \<Rightarrow>
          if completed < 0 then (0, ex_steps_log ex, None)
          else (nat (completed + 1), ex_steps_log ex, Some completed))"

definition resolve_worker_id :: "'w services \<Rightarrow> string option \<Rightarrow> string" where
  "resolve_worker_id sv worker_id =
     (let owner = strip (coalesce worker_id []) in if owner = [] then sv_worker_id sv else owner)"

definition coerce_now :: "'w services \<Rightarrow> time option \<Rightarrow> time" where
  "coerce_now sv now = coalesce now (utc_now (sv_clock sv))"

definition coerce_lease_duration :: "'w services \<Rightarrow> int option \<Rightarrow> int result" where
  "coerce_lease_duration sv lease_duration_seconds =
     (case lease_duration_seconds of
        Some d \<Rightarrow> if d < 1 then Inl (ValueError ''lease_duration_seconds must be at least 1'') else Inr d
      | None \<Rightarrow>
          Inr (case parse_int (coalesce (sv_lease_env sv) (show_int DEFAULT_PLAYBOOK_LEASE_SECONDS)) of
                 None \<Rightarrow> DEFAULT_PLAYBOOK_LEASE_SECONDS | Some d \<Rightarrow> max 1 d))"

text \<open>The run fails before its first step: one entry without an index.\<close>

definition fail_run ::
  "'w services \<Rightarrow> execution \<Rightarrow> exec_status \<Rightarrow> string \<Rightarrow> time \<Rightarrow> string \<Rightarrow> string \<Rightarrow> string \<Rightarrow> ('w runtime, run_result) py" where
  "fail_run sv ex prior owner now message code shown =
     py_bind (finalize_failed sv (ex_id ex) owner
         [PDict (failure_entry (sv_formats sv) None PNone message code now [])] None now)
       (\<lambda>_. py_return (run_result_of ex prior EFailed ''failed'' 1 (PStr shown) None))"

definition process_running_execution ::
  "'w services \<Rightarrow> execution \<Rightarrow> time \<Rightarrow> exec_status \<Rightarrow> string \<Rightarrow> int \<Rightarrow> ('w runtime, run_result) py" where
  "process_running_execution sv ex now prior owner duration =
     (case get_playbook_definition (ex_playbook_id ex) (sv_definitions sv) of
        None \<Rightarrow> fail_run sv ex prior owner now ''Playbook definition not found.'' ''definition_not_found''
                  ''Playbook definition not found.''
      | Some d \<Rightarrow>
          (case pd_steps d of
             PList steps \<Rightarrow>
               (case resume_progress ex of (start_index, steps_log, last_completed_step) \<Rightarrow>
                  process_steps sv ex steps now prior (min start_index (length steps)) steps_log
                    last_completed_step owner duration)
           | _ \<Rightarrow> fail_run sv ex prior owner now ''Playbook definition steps must be a list.'' ''invalid_steps''
                    ''Playbook definition steps are invalid.''))"

text \<open>The owner passed in has been resolved by the caller.\<close>

definition fail_awaiting_execution ::
  "'w services \<Rightarrow> execution \<Rightarrow> pyval list \<Rightarrow> int option \<Rightarrow> string \<Rightarrow> string \<Rightarrow> time \<Rightarrow> string \<Rightarrow> ('w runtime, run_result) py" where
  "fail_awaiting_execution sv ex steps_log step_index code message now owner =
     py_bind (finalize_failed sv (ex_id ex) owner
         (steps_log @ [PDict (failure_entry (sv_formats sv) step_index (PStr ''require_approval'') message code now [])])
         (ex_last_completed_step ex) now)
       (\<lambda>_. py_return (run_result_of ex EAwaiting EFailed ''failed'' 0 (PStr message) None))"

text \<open>The log with a decision's entry added, unless it has one for that event already.\<close>

definition note_decision ::
  "py_formats \<Rightarrow> int \<Rightarrow> approval_request \<Rightarrow> string \<Rightarrow> string \<Rightarrow> string \<Rightarrow> time \<Rightarrow> pyval list \<Rightarrow> pyval list" where
  "note_decision fmt gate request status event message now steps_log =
     (if has_gate_event steps_log gate (ar_id request) event then steps_log
      else steps_log @ [PDict (approval_decision_entry fmt gate (ar_id request)
             (approval_status_text (ar_status request)) (ar_risk_level request) status event message now)])"

definition lease_for_resume ::
  "'w services \<Rightarrow> execution \<Rightarrow> string \<Rightarrow> pyval list \<Rightarrow> int \<Rightarrow> int \<Rightarrow> time \<Rightarrow> string \<Rightarrow>
    (execution \<Rightarrow> ('w runtime, run_result) py) \<Rightarrow> ('w runtime, run_result) py" where
  "lease_for_resume sv ex owner steps_log gate duration now message body =
     py_bind (on_execs (acquire_awaiting_approval_resume_lease (sv_clock sv) (ex_id ex) (Some owner) steps_log
         (Some gate) duration (Some now)))
       (\<lambda>resumed s. case resumed of
          Some r \<Rightarrow> body r s
        | None \<Rightarrow> (Inr (skip_result ex EAwaiting ''lease_not_acquired'' message
                     (Some (case get_playbook_execution (ex_id ex) (rt_execs s) of
                              None \<Rightarrow> ex_status ex | Some latest \<Rightarrow> ex_status latest))), s))"

definition resume_approved ::
  "'w services \<Rightarrow> execution \<Rightarrow> int \<Rightarrow> approval_request \<Rightarrow> time \<Rightarrow> string \<Rightarrow> int \<Rightarrow> ('w runtime, run_result) py" where
  "resume_approved sv ex gate request now owner duration =
     (let fmt = sv_formats sv;
          log1 = note_decision fmt gate request ''approved'' ''approval_approved''
                   ''Approval granted for simulated playbook gate.'' now (ex_steps_log ex);
          log2 = note_decision fmt gate request ''resumed'' ''approval_resumed''
                   ''Simulation resumed after approval.'' now log1
      in lease_for_resume sv ex owner log2 gate duration now
           ''Playbook execution could not be leased for approval resume.''
           (\<lambda>resumed. case map_option pd_steps (get_playbook_definition (ex_playbook_id ex) (sv_definitions sv)) of
              Some (PList steps) \<Rightarrow>
                process_steps sv resumed steps now EAwaiting (nat (gate + 1)) log2 (Some gate) owner duration
            | _ \<Rightarrow> fail_awaiting_execution sv resumed log2 (Some gate) ''invalid_resume_definition''
                     ''Playbook definition could not be loaded for approval resume.'' now owner))"

text \<open>The steps of the definition, when they are a list, and the gate's step in it.\<close>

definition gate_behavior :: "pyval list option \<Rightarrow> int \<Rightarrow> approval_status \<Rightarrow> pyval" where
  "gate_behavior steps gate status =
     (let step = (case steps of
                    Some xs \<Rightarrow> if 0 \<le> gate \<and> gate < int (length xs) then dict_or_empty (xs ! nat gate) else []
                  | None \<Rightarrow> [])
      in coalesce (map_of step (if status = ADenied then ''on_denied'' else ''on_expired'')) (PStr ''fail''))"

definition stop_refused ::
  "'w services \<Rightarrow> execution \<Rightarrow> int \<Rightarrow> approval_request \<Rightarrow> time \<Rightarrow> string \<Rightarrow> int \<Rightarrow> ('w runtime, run_result) py" where
  "stop_refused sv ex gate request now owner duration =
     (let fmt = sv_formats sv;
          status = approval_status_text (ar_status request);
          steps = (case get_playbook_definition (ex_playbook_id ex) (sv_definitions sv) of
                     None \<Rightarrow> Some []
                   | Some d \<Rightarrow> (case pd_steps d of PList xs \<Rightarrow> Some xs | _ \<Rightarrow> None));
          log1 = note_decision fmt gate request status (''approval_'' @ status)
                   (''Approval '' @ status @ ''; later steps were not run.'') now (ex_steps_log ex)
      in if gate_behavior steps gate (ar_status request) = PStr ''branch'' \<and> steps \<noteq> None
         then lease_for_resume sv ex owner log1 gate duration now
                ''Playbook execution could not be leased for approval branch resume.''
                (\<lambda>resumed. process_steps sv resumed (the steps) now EAwaiting (nat (gate + 1)) log1 (Some gate)
                   owner duration)
         else let log2 = log1 @ (case steps of
                            None \<Rightarrow> []
                          | Some xs \<Rightarrow> map PDict (skipped_later_step_entries fmt xs (nat (gate + 1))
                                         (''approval_'' @ status) now))
              in py_bind (finalize_not_actioned sv (ex_id ex) owner log2 (ex_last_completed_step ex) now)
                   (\<lambda>_. py_return (run_result_of ex EAwaiting ENotActioned ''not_actioned'' 0
                      (PStr (''Approval '' @ status @ ''; simulated playbook stopped safely.'')) None)))"

definition process_awaiting_approval_execution ::
  "'w services \<Rightarrow> execution \<Rightarrow> time \<Rightarrow> string \<Rightarrow> int \<Rightarrow> ('w runtime, run_result) py" where
  "process_awaiting_approval_execution sv ex now owner duration =
     (case latest_gate_entry (ex_steps_log ex) of
        None \<Rightarrow> fail_awaiting_execution sv ex (ex_steps_log ex) None ''missing_approval_gate''
                  ''Awaiting approval execution has no approval gate entry.'' now owner
      | Some gate \<Rightarrow>
          py_bind (on_approvals (get_latest_playbook_step_approval_request (sv_clock sv) (ex_id ex) gate True (Some now)))
            (\<lambda>request. case request of
               None \<Rightarrow> fail_awaiting_execution sv ex (ex_steps_log ex) (Some gate) ''missing_approval_request''
                         ''Linked approval request was not found.'' now owner
             | Some r \<Rightarrow>
                 (case ar_status r of
                    APending \<Rightarrow> py_return (run_result_of ex EAwaiting EAwaiting ''skipped'' 0
                       (PStr ''Playbook execution is still awaiting approval.'') (Some ''approval_pending''))
                  | AApproved \<Rightarrow> resume_approved sv ex gate r now owner duration
                  | ADenied \<Rightarrow> stop_refused sv ex gate r now owner duration
                  | AExpired \<Rightarrow> stop_refused sv ex gate r now owner duration)))"

subsection \<open>Entry points\<close>

definition process_next_pending_playbook_execution ::
  "'w services \<Rightarrow> time option \<Rightarrow> string option \<Rightarrow> int option \<Rightarrow> ('w runtime, run_result option) py" where
  "process_next_pending_playbook_execution sv now0 worker_id lease_seconds =
     (let owner = resolve_worker_id sv worker_id; now = coerce_now sv now0
      in py_bind (py_lift (coerce_lease_duration sv lease_seconds))
           (\<lambda>duration. py_bind (on_execs (claim_next_pending_playbook_execution_with_lease (sv_locked sv) (sv_clock sv)
                (Some owner) duration (Some now)))
              (\<lambda>claimed. case claimed of
                 None \<Rightarrow> py_return None
               | Some ex \<Rightarrow> py_bind (process_running_execution sv ex now EPending owner duration)
                   (\<lambda>r. py_return (Some r)))))"

definition process_playbook_execution ::
  "'w services \<Rightarrow> row_id \<Rightarrow> time option \<Rightarrow> string option \<Rightarrow> int option \<Rightarrow> ('w runtime, run_result) py" where
  "process_playbook_execution sv i now0 worker_id lease_seconds s =
     (case get_playbook_execution i (rt_execs s) of
        None \<Rightarrow> (Inr \<lparr>rr_execution_id = i, rr_playbook_id = None, rr_prior_status = None, rr_new_status = None,
                      rr_outcome = ''skipped'', rr_steps_processed = 0,
                      rr_message = PStr ''Playbook execution not found.'', rr_reason = Some ''execution_not_found''\<rparr>, s)
      | Some ex \<Rightarrow>
          py_bind (py_lift (coerce_lease_duration sv lease_seconds))
            (\<lambda>duration s.
               let owner = resolve_worker_id sv worker_id; now = coerce_now sv now0; prior = ex_status ex
               in if prior \<in> set TERMINAL_EXECUTION_STATUSES
                  then (Inr (skip_result ex prior ''terminal_status''
                          ''Terminal playbook execution was not re-run.'' None), s)
                  else if prior = ERunning
                  then if opt_text_or (ex_lease_owner ex) [] \<noteq> [] \<and> ex_lease_owner ex \<noteq> Some owner
                       then (Inr (skip_result ex prior ''lease_not_owned''
                               ''Running playbook execution is owned by another worker.'' None), s)
                       else if ex_lease_owner ex = Some owner
                       then process_running_execution sv ex now prior owner duration s
                       else (Inr (skip_result ex prior ''already_running''
                               ''Running playbook execution was not re-run.'' None), s)
                  else if prior = EAwaiting
                  then process_awaiting_approval_execution sv ex now owner duration s
                  else
                    (case on_execs (acquire_execution_lease (sv_clock sv) i (Some owner) duration (Some now)) s of
                       (Inl e, s1) \<Rightarrow> (Inl e, s1)
                     | (Inr (Some running), s1) \<Rightarrow> process_running_execution sv running now prior owner duration s1
                     | (Inr None, s1) \<Rightarrow>
                         let latest = (case get_playbook_execution i (rt_execs s1) of
                                         None \<Rightarrow> ex_status ex | Some r \<Rightarrow> ex_status r)
                         in (Inr (skip_result ex prior
                               (if latest \<noteq> EPending then ''claim_failed'' else ''lease_not_acquired'')
                               ''Playbook execution could not be leased for processing.'' (Some latest)), s1))) s)"

definition normalize_limit :: "pyval \<Rightarrow> nat" where
  "normalize_limit lmt =
     (case caught_int lmt of None \<Rightarrow> 10 | Some n \<Rightarrow> if n < 1 then 1 else nat (min n 50))"

text \<open>The loop that claims, for at most so many rounds; and the loop over the waiting executions.\<close>

fun claim_rounds ::
  "nat \<Rightarrow> 'w services \<Rightarrow> time option \<Rightarrow> string \<Rightarrow> int \<Rightarrow> run_result list \<Rightarrow> ('w runtime, run_result list) py" where
  "claim_rounds 0 sv now owner duration results s = (Inr results, s)"
| "claim_rounds (Suc n) sv now owner duration results s =
     (case process_next_pending_playbook_execution sv now (Some owner) (Some duration) s of
        (Inl e, s1) \<Rightarrow> (Inl e, s1)
      | (Inr None, s1) \<Rightarrow> (Inr results, s1)
      | (Inr (Some r), s1) \<Rightarrow> claim_rounds n sv now owner duration (results @ [r]) s1)"

fun process_each ::
  "row_id list \<Rightarrow> 'w services \<Rightarrow> time option \<Rightarrow> string \<Rightarrow> int \<Rightarrow> run_result list \<Rightarrow> ('w runtime, run_result list) py" where
  "process_each [] sv now owner duration results s = (Inr results, s)"
| "process_each (i # is) sv now owner duration results s =
     (case process_playbook_execution sv i now (Some owner) (Some duration) s of
        (Inl e, s1) \<Rightarrow> (Inl e, s1)
      | (Inr r, s1) \<Rightarrow> process_each is sv now owner duration (results @ [r]) s1)"

definition process_playbook_execution_batch ::
  "'w services \<Rightarrow> pyval \<Rightarrow> time option \<Rightarrow> string option \<Rightarrow> int option \<Rightarrow> ('w runtime, run_result list) py" where
  "process_playbook_execution_batch sv lmt now worker_id lease_seconds =
     (let owner = resolve_worker_id sv worker_id; batch_limit = normalize_limit lmt
      in py_bind (py_lift (coerce_lease_duration sv lease_seconds))
           (\<lambda>duration. py_bind (claim_rounds batch_limit sv now owner duration [])
              (\<lambda>results s.
                 if length results < batch_limit
                 then py_bind (py_lift (list_awaiting_approval_playbook_executions
                          (int (batch_limit - length results)) (rt_execs s)))
                        (\<lambda>rows. process_each (map ex_id rows) sv now owner duration results) s
                 else (Inr results, s))))"

text \<open>The counts of the batch's answer.\<close>

definition outcome_count :: "string \<Rightarrow> run_result list \<Rightarrow> nat" where
  "outcome_count outcome results = length (filter (\<lambda>r. rr_outcome r = outcome) results)"

subsection \<open>The worker\<close>

definition normalize_stale_limit :: "int \<Rightarrow> int" where
  "normalize_stale_limit value = (if value < 1 then 1 else min value 200)"

text \<open>\<open>recover_stale_playbook_executions\<close>, not dry: the ids it recovered, and whether the transaction
  can still be committed. A letter that the database refuses aborts the transaction: the next
  statement raises, and after the last row the commit quietly becomes a rollback.\<close>

fun recover_each ::
  "row_id list \<Rightarrow> 'w services \<Rightarrow> time \<Rightarrow> row_id list \<Rightarrow> ('w runtime, row_id list \<times> bool) py" where
  "recover_each [] sv now recovered s = (Inr (recovered, True), s)"
| "recover_each (i # is) sv now recovered s =
     (case on_execs (mark_stale_execution_for_recovery (sv_clock sv) i (Some now) None) s of
        (Inl e, s1) \<Rightarrow> (Inl e, s1)
      | (Inr None, s1) \<Rightarrow> recover_each is sv now recovered s1
      | (Inr (Some r), s1) \<Rightarrow>
          (case (if ex_status r = EFailed
                 then capture_failed_execution_dead_letter sv r (ex_steps_log r) (ex_last_completed_step r) now s1
                 else (Inr True, s1)) of
             (Inl e, s2) \<Rightarrow> (Inl e, s2)
           | (Inr usable, s2) \<Rightarrow>
               if usable then recover_each is sv now (recovered @ [i]) s2
               else if is = [] then (Inr (recovered @ [i], False), s2)
               else (Inl transaction_aborted, s2)))"

definition recover_stale_playbook_executions ::
  "'w services \<Rightarrow> int \<Rightarrow> time \<Rightarrow> ('w runtime, row_id list \<times> bool) py" where
  "recover_stale_playbook_executions sv lmt now s =
     py_bind (py_lift (list_stale_running_executions (sv_locked sv) (sv_clock sv) (Some now)
                 (normalize_stale_limit lmt) (rt_execs s)))
       (\<lambda>rows. recover_each (map ex_id rows) sv now []) s"

text \<open>A rollback gives the tables back; what other connections committed (the audit log), what left the
  database, and the breakers, which are the process's own, stay.\<close>

definition rolled_back :: "'w runtime \<Rightarrow> 'w runtime \<Rightarrow> 'w runtime" where
  "rolled_back s0 s =
     s\<lparr>rt_execs := (rt_execs s)\<lparr>playbook_executions := playbook_executions (rt_execs s0)\<rparr>,
       rt_approvals := rollback (rt_approvals s0) (rt_approvals s),
       rt_letters := (rt_letters s)\<lparr>soar_dead_letters := soar_dead_letters (rt_letters s0)\<rparr>\<rparr>"

text \<open>One round of \<open>run_playbook_worker\<close>: the recovery, when it is due, is committed; then a batch is
  processed and committed as a whole, and an exception rolls back what was not committed.\<close>

definition worker_round ::
  "'w services \<Rightarrow> string \<Rightarrow> int \<Rightarrow> int \<Rightarrow> bool \<Rightarrow> time \<Rightarrow> 'w runtime \<Rightarrow> run_result list option \<times> 'w runtime" where
  "worker_round sv owner batch_size stale_limit recovery_due now s =
     (case (if recovery_due
            then (case recover_stale_playbook_executions sv stale_limit now s of
                    (Inl _, s1) \<Rightarrow> (None, rolled_back s s1)
                  | (Inr (_, usable), s1) \<Rightarrow> (Some (), if usable then s1 else rolled_back s s1))
            else (Some (), s)) of
        (None, s1) \<Rightarrow> (None, s1)
      | (Some _, s1) \<Rightarrow>
          (case process_playbook_execution_batch sv (PInt batch_size) (Some now) (Some owner) None s1 of
             (Inl _, s2) \<Rightarrow> (None, rolled_back s1 s2)
           | (Inr results, s2) \<Rightarrow> (Some results, s2)))"

end
