(* ===== verification/Playbook_Routes.thy ===== *)
theory Playbook_Routes
  imports Playbook_Runner
begin

text \<open>
  The resume handler of \<open>routes/playbook_routes.py\<close>: an operator puts an execution that waits for an
  approval back in the queue. Shown here: it does so exactly when the latest request of the gate the
  execution waits at is approved, and then changes nothing but the status.
\<close>

subsection \<open>The handler\<close>

text \<open>The step whose gate an execution waits at: that of the newest entry of its log with the status
  \<open>awaiting_approval\<close>, if it has a number there, and else the one after the last completed step.\<close>

definition awaiting_entry :: "pyval \<Rightarrow> bool" where
  "awaiting_entry entry =
     (case entry of PDict d \<Rightarrow> dict_get d ''status'' = PStr ''awaiting_approval'' | _ \<Rightarrow> False)"

definition derive_gating_step_index :: "execution \<Rightarrow> int" where
  "derive_gating_step_index ex =
     (let after_last = coalesce (ex_last_completed_step ex) (-1) + 1
      in case filter awaiting_entry (rev (ex_steps_log ex)) of
           PDict d # _ \<Rightarrow> coalesce (py_int (dict_get d ''step_index'')) after_last
         | _ \<Rightarrow> after_last)"

text \<open>What the handler answers; after \<open>Resumed\<close> it writes an entry to the audit log, on a connection of
  its own.\<close>

datatype resume_response = ResumeError nat string | Resumed row_id

definition resume_playbook_execution_route ::
  "clock \<Rightarrow> row_id \<Rightarrow> 'w runtime \<Rightarrow> resume_response \<times> 'w runtime" where
  "resume_playbook_execution_route clk execution_id s =
     (case get_playbook_execution execution_id (rt_execs s) of
        None \<Rightarrow> (ResumeError 404 ''playbook execution not found'', s)
      | Some execution \<Rightarrow>
          if ex_status execution \<noteq> EAwaiting
          then (ResumeError 409 (''resume requires awaiting_approval execution; current status: '' @
                  exec_status_text (ex_status execution)), s)
          else
            let gate = derive_gating_step_index execution
            in case on_approvals (get_latest_playbook_step_approval_request clk execution_id gate False None) s of
                 (Inl _, s1) \<Rightarrow> (ResumeError 500 ''Internal server error'', rolled_back s s1)
               | (Inr None, s1) \<Rightarrow>
                   (ResumeError 409 (''no approval request found for gating step '' @ show_int gate), rolled_back s s1)
               | (Inr (Some approval), s1) \<Rightarrow>
                   if ar_status approval \<noteq> AApproved
                   then (ResumeError 409 (''approval for step '' @ show_int gate @ '' is not approved; current status: '' @
                           approval_status_text (ar_status approval)), rolled_back s s1)
                   else (case on_execs (update_execution_status clk execution_id ''pending'' None) s1 of
                           (Inl _, s2) \<Rightarrow> (ResumeError 500 ''Internal server error'', rolled_back s s2)
                         | (Inr _, s2) \<Rightarrow> (Resumed execution_id, s2)))"

subsection \<open>What it does\<close>

lemma rolled_back_same [simp]: "rolled_back s s = s"
  by (simp add: rolled_back_def rollback_def)

definition latest_step_request :: "row_id \<Rightarrow> int \<Rightarrow> approval_db \<Rightarrow> approval_request option" where
  "latest_step_request i gate a = fetchone (newest_first (filter (\<lambda>r. ar_playbook_execution_id r = Some i \<and>
     ar_playbook_step_index r = Some gate) (approval_requests a)))"

lemma read_latest_request:
  "on_approvals (get_latest_playbook_step_approval_request clk i gate False None) s =
     (Inr (latest_step_request i gate (rt_approvals s)), s)"
  by (simp add: on_approvals_def get_latest_playbook_step_approval_request_def latest_step_request_def Let_def
      split: option.split)

definition resumable :: "row_id \<Rightarrow> 'w runtime \<Rightarrow> bool" where
  "resumable i s \<longleftrightarrow> (case get_playbook_execution i (rt_execs s) of
     None \<Rightarrow> False
   | Some ex \<Rightarrow> ex_status ex = EAwaiting \<and>
       (case latest_step_request i (derive_gating_step_index ex) (rt_approvals s) of
          None \<Rightarrow> False | Some q \<Rightarrow> ar_status q = AApproved))"

definition set_pending :: "row_id \<Rightarrow> exec_db \<Rightarrow> exec_db" where
  "set_pending i d = d\<lparr>playbook_executions :=
     update_where (\<lambda>r. ex_id r = i) (\<lambda>r. r\<lparr>ex_status := EPending\<rparr>) (playbook_executions d)\<rparr>"

lemma pending_status: "filter (\<lambda>st. exec_status_text st = ''pending'') VALID_EXECUTION_STATUSES = [EPending]"
  by code_simp

lemma update_to_pending:
  assumes inv: "exec_inv d" and ex: "get_playbook_execution i d = Some ex" "ex_status ex = EAwaiting"
  shows "update_execution_status clk i ''pending'' None d = (Inr (), set_pending i d)"
proof -
  note mem = get_playbook_execution_mem [OF ex(1)]
  have "keeps_pair (\<lambda>r. r\<lparr>ex_status := EPending\<rparr>) ex" using ex(2) by (simp add: keeps_pair_def exec_active_def)
  from exec_update_one [OF inv conjunct1 [OF mem], of "\<lambda>_. True", OF TrueI this] mem
  show ?thesis
    by (simp add: update_execution_status_def pending_status TERMINAL_EXECUTION_STATUSES_def set_pending_def)
qed

lemma resume_route_cases:
  assumes inv: "exec_inv (rt_execs s)"
  shows "snd (resume_playbook_execution_route clk i s) =
    (if resumable i s then s\<lparr>rt_execs := set_pending i (rt_execs s)\<rparr> else s)"
    and "fst (resume_playbook_execution_route clk i s) = Resumed x \<longleftrightarrow> x = i \<and> resumable i s"
  using update_to_pending [OF inv]
  by (auto simp: resume_playbook_execution_route_def resumable_def read_latest_request on_execs_def Let_def
      split: option.split)

subsection \<open>Properties\<close>


subsection \<open>Witnesses\<close>

text \<open>Execution 1 waits at step 0; the request for it is approved.\<close>

definition wit_waiting :: exec_db where
  "wit_waiting = snd (set_playbook_execution_awaiting_approval 1
     [PDict [(''step_index'', PInt 0), (''status'', PStr ''awaiting_approval'')]] None None wit_leased)"

definition wit_resumable :: "unit runtime" where
  "wit_resumable = \<lparr>rt_execs = wit_waiting,
     rt_approvals = snd (approve_request (wit_clock 2) 1 7 None None
       (snd (create_playbook_step_approval_request (wit_clock 0) 1 0 ''playbook.require_approval''
          None None ''high'' None 60 (approval_init True)))),
     rt_letters = \<lparr>soar_dead_letters = [], letter_seq = 1\<rparr>, rt_breakers = Map.empty, rt_world = ()\<rparr>"

lemma wit_waiting_inv: "exec_inv wit_waiting"
  using write_moves(5) [OF wit_exec_inv(2)] by (simp add: wit_waiting_def exec_moves_def)


end
