(* ===== verification/Gate_Safety.thy ===== *)
theory Gate_Safety
  imports Playbook_Routes
begin

text \<open>
  The approval gate of a playbook, end to end: whatever workers, operators and approvers do, no
  call for a step is made while a gate before it is open, and no step that succeeded is run again.
  The calls a pass makes are recorded in the world of its services, with the execution and the
  step they are made for.
\<close>

subsection \<open>Recording calls\<close>

type_synonym call = "row_id \<times> nat"

definition recorded :: "row_id \<Rightarrow> nat \<Rightarrow> ('w \<Rightarrow> 'a \<times> 'w) \<Rightarrow> 'w \<times> call list \<Rightarrow> 'a \<times> ('w \<times> call list)" where
  "recorded x k f wc = (case f (fst wc) of (a, w) \<Rightarrow> (a, (w, snd wc @ [(x, k)])))"

text \<open>The services with every call that can change the world recorded.\<close>

definition recording :: "'w services \<Rightarrow> ('w \<times> call list) services" where
  "recording sv =
     \<lparr>sv_formats = sv_formats sv, sv_clock = sv_clock sv, sv_sha256 = sv_sha256 sv, sv_locked = sv_locked sv,
      sv_lease_env = sv_lease_env sv, sv_worker_id = sv_worker_id sv, sv_definitions = sv_definitions sv,
      sv_alerts = sv_alerts sv, sv_sql_text = sv_sql_text sv,
      sv_deliveries = (\<lambda>key wc. sv_deliveries sv key (fst wc)),
      sv_record_delivery = (\<lambda>x args now. recorded x (da_step_index args) (sv_record_delivery sv x args now)),
      sv_slack = (\<lambda>x k message purpose. recorded x k (sv_slack sv x k message purpose)),
      sv_adapter = (\<lambda>x k name. recorded x k (sv_adapter sv x k name)),
      sv_protected = sv_protected sv, sv_blockable = sv_blockable sv,
      sv_command = (\<lambda>c. recorded (cq_playbook_execution_id c) (cq_playbook_step_index c) (sv_command sv c)),
      sv_enrich = (\<lambda>ex lmt wc. sv_enrich sv ex lmt (fst wc)),
      sv_link = (\<lambda>x k child. recorded x k (sv_link sv x k child))\<rparr>"

definition calls :: "('w \<times> call list) runtime \<Rightarrow> call list" where
  "calls s = snd (rt_world s)"

subsection \<open>What a step may do to the state\<close>

text \<open>Rows keep their logs, new ones have none; decided requests stay; and the calls made are made for
  this execution and step.\<close>

definition same_run :: "execution \<Rightarrow> execution \<Rightarrow> bool" where
  "same_run r r' \<longleftrightarrow> ex_id r' = ex_id r \<and> ex_playbook_id r' = ex_playbook_id r \<and> ex_steps_log r' = ex_steps_log r \<and>
     ex_last_completed_step r' = ex_last_completed_step r \<and> (ex_status r' = EAwaiting \<longrightarrow> ex_status r = EAwaiting) \<and>
     (exec_active r' \<longrightarrow> exec_active r)"

definition fresh_run :: "execution \<Rightarrow> bool" where
  "fresh_run r \<longleftrightarrow> ex_steps_log r = [] \<and> ex_last_completed_step r = None \<and> ex_status r \<noteq> EAwaiting"

definition runs_kept :: "exec_db \<Rightarrow> exec_db \<Rightarrow> bool" where
  "runs_kept d d' \<longleftrightarrow> exec_inv d' \<and>
     (\<forall>r \<in> set (playbook_executions d). \<exists>r' \<in> set (playbook_executions d'). same_run r r') \<and>
     (\<forall>r' \<in> set (playbook_executions d'). fresh_run r' \<or> (\<exists>r \<in> set (playbook_executions d). same_run r r'))"

definition tables_ok :: "'w runtime \<Rightarrow> bool" where
  "tables_ok s \<longleftrightarrow> exec_inv (rt_execs s) \<and> approval_inv (rt_approvals s)"

definition calm :: "call \<Rightarrow> ('w \<times> call list) runtime \<Rightarrow> ('w \<times> call list) runtime \<Rightarrow> bool" where
  "calm c s s' \<longleftrightarrow> runs_kept (rt_execs s) (rt_execs s') \<and> approval_safe (rt_approvals s) (rt_approvals s') \<and>
     set (calls s') \<subseteq> insert c (set (calls s))"

lemma same_run_refl [simp]: "same_run r r"
  and same_run_trans: "same_run r r' \<Longrightarrow> same_run r' r'' \<Longrightarrow> same_run r r''"
  by (auto simp: same_run_def)

lemma runs_kept_refl: "exec_inv d \<Longrightarrow> runs_kept d d"
  by (auto simp: runs_kept_def intro: same_run_refl)

lemma fresh_same_run: "fresh_run r \<Longrightarrow> same_run r r' \<Longrightarrow> fresh_run r'"
  by (auto simp: fresh_run_def same_run_def)

lemma runs_kept_trans: "runs_kept d e \<Longrightarrow> runs_kept e f \<Longrightarrow> runs_kept d f"
  unfolding runs_kept_def by (meson same_run_trans fresh_same_run)

lemma calm_refl: "tables_ok s \<Longrightarrow> calm c s s"
  by (auto simp: calm_def tables_ok_def runs_kept_refl approval_safe_refl)

lemma calm_trans: "calm c s t \<Longrightarrow> calm c t u \<Longrightarrow> calm c s u"
  by (auto simp: calm_def intro: runs_kept_trans approval_safe_trans)

lemma calm_tables: "calm c s s' \<Longrightarrow> tables_ok s'"
  by (simp add: calm_def tables_ok_def runs_kept_def approval_safe_def)

text \<open>An operation that is calm on every state and returns only values with \<open>P\<close>, and how such
  operations are put together.\<close>

definition runs_calmly ::
  "call \<Rightarrow> ('a \<Rightarrow> bool) \<Rightarrow> (('w \<times> call list) runtime, 'a) py \<Rightarrow> bool" where
  "runs_calmly c P m \<longleftrightarrow>
     (\<forall>s r s'. tables_ok s \<longrightarrow> m s = (r, s') \<longrightarrow> calm c s s' \<and> (\<forall>a. r = Inr a \<longrightarrow> P a))"

lemma runs_calmlyI:
  "(\<And>s r s'. tables_ok s \<Longrightarrow> m s = (r, s') \<Longrightarrow> calm c s s' \<and> (\<forall>a. r = Inr a \<longrightarrow> P a)) \<Longrightarrow> runs_calmly c P m"
  by (simp add: runs_calmly_def)

lemma runs_calmlyD:
  "runs_calmly c P m \<Longrightarrow> tables_ok s \<Longrightarrow> m s = (r, s') \<Longrightarrow> calm c s s'"
  "runs_calmly c P m \<Longrightarrow> tables_ok s \<Longrightarrow> m s = (Inr a, s') \<Longrightarrow> P a"
  by (auto simp: runs_calmly_def)

lemma runs_calmly_mono: "runs_calmly c P m \<Longrightarrow> (\<And>a. P a \<Longrightarrow> Q a) \<Longrightarrow> runs_calmly c Q m"
  by (simp add: runs_calmly_def)

named_theorems calm_intros \<open>calm operations\<close>

lemma calm_bind:
  assumes "runs_calmly c Q m" "\<And>a. Q a \<Longrightarrow> runs_calmly c P (f a)"
  shows "runs_calmly c P (py_bind m f)"
proof (rule runs_calmlyI)
  fix s r s' assume s: "tables_ok s" and run: "py_bind m f s = (r, s')"
  obtain r0 t where m: "m s = (r0, t)" by fastforce
  have t: "calm c s t" using assms(1) s m by (rule runs_calmlyD)
  show "calm c s s' \<and> (\<forall>a. r = Inr a \<longrightarrow> P a)"
  proof (cases r0)
    case (Inl e)
    with run m have "r = Inl e" "s' = t" by auto
    with t show ?thesis by simp
  next
    case (Inr a)
    then have f: "f a t = (r, s')" and Q: "Q a" using run m runs_calmlyD(2) [OF assms(1) s] by auto
    from runs_calmlyD [OF assms(2) [OF Q] calm_tables [OF t]] f t show ?thesis by (blast intro: calm_trans)
  qed
qed

lemma calm_return [calm_intros]: "P a \<Longrightarrow> runs_calmly c P (py_return a)"
  and calm_lift [calm_intros]: "(\<And>a. r = Inr a \<Longrightarrow> P a) \<Longrightarrow> runs_calmly c P (py_lift r)"
  by (auto simp: runs_calmly_def calm_refl)

lemma calm_catch [calm_intros]:
  assumes "runs_calmly c P m" "\<And>e. P (f e)"
  shows "runs_calmly c P (py_catch m f)"
proof (rule runs_calmlyI)
  fix s r s' assume s: "tables_ok s" and run: "py_catch m f s = (r, s')"
  obtain r0 t where m: "m s = (r0, t)" by fastforce
  show "calm c s s' \<and> (\<forall>a. r = Inr a \<longrightarrow> P a)"
    using run m runs_calmlyD(1) [OF assms(1) s m] runs_calmlyD(2) [OF assms(1) s] assms(2)
    by (cases r0) (auto simp: py_catch_def)
qed

lemma calm_breakers [calm_intros]: "runs_calmly c (\<lambda>_. True) (on_breakers m)"
  by (auto simp: runs_calmly_def on_breakers_def calm_def calls_def tables_ok_def runs_kept_refl approval_safe_refl
      split: prod.splits)

lemma calm_letters [calm_intros]: "runs_calmly c (\<lambda>_. True) (on_letters m)"
  by (auto simp: runs_calmly_def on_letters_def calm_def calls_def tables_ok_def runs_kept_refl approval_safe_refl
      split: prod.splits)

lemma calm_world: "runs_calmly (x, k) (\<lambda>_. True) (on_world (recorded x k f))"
  by (auto simp: runs_calmly_def on_world_def recorded_def calm_def calls_def tables_ok_def runs_kept_refl
      approval_safe_refl split: prod.splits)

lemma calm_read_world [calm_intros]: "runs_calmly c (\<lambda>_. True) (on_world (\<lambda>wc. (f wc, wc)))"
  by (auto simp: runs_calmly_def on_world_def calm_def calls_def tables_ok_def runs_kept_refl approval_safe_refl
      split: prod.splits)

lemma calm_approvals:
  assumes "\<And>d. approval_op d (snd (m d))"
  shows "runs_calmly c (\<lambda>_. True) (on_approvals m :: (('w \<times> call list) runtime, 'a) py)"
proof (rule runs_calmlyI)
  fix s s' :: "('w \<times> call list) runtime" and r
  assume s: "tables_ok s" and run: "on_approvals m s = (r, s')"
  have "approval_safe (rt_approvals s) (snd (m (rt_approvals s)))"
    using approval_op_safe [OF assms] s by (simp add: tables_ok_def)
  then show "calm c s s' \<and> (\<forall>a. r = Inr a \<longrightarrow> True)"
    using run s by (auto simp: on_approvals_def calm_def calls_def tables_ok_def runs_kept_refl split: prod.splits)
qed

lemma calm_execs:
  assumes "\<And>d. exec_inv d \<Longrightarrow> runs_kept d (snd (m d))"
  shows "runs_calmly c (\<lambda>_. True) (on_execs m :: (('w \<times> call list) runtime, 'a) py)"
proof (rule runs_calmlyI)
  fix s s' :: "('w \<times> call list) runtime" and r
  assume s: "tables_ok s" and run: "on_execs m s = (r, s')"
  then show "calm c s s' \<and> (\<forall>a. r = Inr a \<longrightarrow> True)"
    using assms [of "rt_execs s"]
    by (auto simp: on_execs_def calm_def calls_def tables_ok_def approval_safe_refl split: prod.splits)
qed

subsection \<open>Operations on executions that keep the logs\<close>

lemma exec_update_kept:
  assumes inv: "exec_inv d"
    and ok: "\<And>r. guard r \<Longrightarrow> exec_write r (f r) \<and> same_run r (f r)"
  shows "runs_kept d (snd (exec_update i guard f d))"
proof (cases "pair_index_ok (update_where (\<lambda>r. ex_id r = i \<and> guard r) f (playbook_executions d))")
  case True
  have "exec_inv (snd (exec_update i guard f d))" using inv by (rule exec_update_inv) (use ok in blast)
  then show ?thesis using True ok
    by (auto simp: runs_kept_def exec_update_def Let_def set_update_where intro: same_run_refl)
next
  case False
  then show ?thesis by (simp add: exec_update_def Let_def runs_kept_refl inv)
qed

lemma exec_insert_kept:
  assumes inv: "exec_inv d"
  shows "runs_kept d (snd (exec_insert (new_execution clk a (exec_seq d)) d))"
proof -
  have "exec_inv (snd (exec_insert (new_execution clk a (exec_seq d)) d))"
    using exec_insert_moves [OF inv] by (simp add: exec_moves_def)
  moreover have "fresh_run (new_execution clk a (exec_seq d))" by (simp add: fresh_run_def new_execution_def)
  ultimately show ?thesis
    by (auto simp: runs_kept_def exec_insert_def Let_def intro: same_run_refl)
qed

lemma same_run_moves:
  "ex_status r = EPending \<Longrightarrow> same_run r (take_lease w t d r)"
  "same_run r (set_heartbeat t d r)" "same_run r (clear_lease r)"
  "ex_status r = ERunning \<Longrightarrow> st \<noteq> EAwaiting \<Longrightarrow> same_run r (set_recovery st c x n r)"
  by (auto simp: same_run_def exec_updates exec_active_def)

lemma heartbeat_kept: "exec_inv d \<Longrightarrow> runs_kept d (snd (heartbeat_execution_lease clk i w n now d))"
  using exec_update_kept [of d _ "set_heartbeat t n" i for t]
  by (auto simp: heartbeat_execution_lease_def Let_def runs_kept_refl same_run_moves ew_step es_heartbeat
      split: sum.splits)

lemma release_kept: "exec_inv d \<Longrightarrow> runs_kept d (snd (release_execution_lease i w d))"
  by (auto simp: release_execution_lease_def Let_def runs_kept_refl same_run_moves ew_step es_release
      intro!: exec_update_kept)

lemma lock_and_lease_kept: "exec_inv d \<Longrightarrow> runs_kept d (snd (lock_and_lease i EPending t (take_lease w u n) d))"
  by (auto simp: lock_and_lease_def runs_kept_refl same_run_moves ew_step es_lease intro!: exec_update_kept
      split: option.splits)

lemma claim_kept:
  "exec_inv d \<Longrightarrow> runs_kept d (snd (claim_next_pending_playbook_execution_with_lease locked clk w n now d))"
  "exec_inv d \<Longrightarrow> runs_kept d (snd (acquire_execution_lease clk i w n now d))"
  by (auto simp: claim_next_pending_playbook_execution_with_lease_def acquire_execution_lease_def Let_def
      runs_kept_refl lock_and_lease_kept split: sum.splits option.splits)

lemma link_kept: "exec_inv d \<Longrightarrow> runs_kept d (snd (set_playbook_execution_canonical_linkage i k c d))"
  unfolding set_playbook_execution_canonical_linkage_def
  by (rule exec_update_kept) (auto simp: same_run_def exec_active_def intro: ew_step es_link)

lemma create_kept:
  "exec_inv d \<Longrightarrow> runs_kept d (snd (create_playbook_execution clk a d))"
  "exec_inv d \<Longrightarrow> runs_kept d (snd (create_pending_playbook_execution_once clk a d))"
  "exec_inv d \<Longrightarrow> runs_kept d (snd (create_retry_execution clk i d))"
  using exec_insert_kept [of d clk] runs_kept_refl [of d]
  by (auto simp: create_playbook_execution_def create_pending_playbook_execution_once_def
      create_retry_execution_def case_prod_unfold split: option.splits)

lemma exec_update_rows_kept:
  assumes "exec_inv d" "exec_inv (snd (exec_update i guard f d))" "\<And>x. guard x \<Longrightarrow> same_run x (f x)"
  shows "runs_kept d (snd (exec_update i guard f d))"
proof (cases "pair_index_ok (update_where (\<lambda>r. ex_id r = i \<and> guard r) f (playbook_executions d))")
  case True
  then show ?thesis using assms(2,3)
    by (auto simp: runs_kept_def exec_update_def Let_def set_update_where intro: same_run_refl)
next
  case False
  then show ?thesis by (simp add: exec_update_def Let_def runs_kept_refl assms(1))
qed

lemma recovery_kept:
  assumes inv: "exec_inv d"
  shows "runs_kept d (snd (mark_stale_execution_for_recovery clk i now x d))"
proof -
  have moves: "exec_inv (snd (mark_stale_execution_for_recovery clk i now x d))"
    using recovery_moves [OF inv] by (simp add: exec_moves_def)
  show ?thesis
  proof (cases "get_playbook_execution i d")
    case (Some r)
    let ?t = "coalesce now (utc_now clk)"
    show ?thesis
    proof (cases "ex_status r \<noteq> ERunning \<or> ex_lease_expires_at r = None \<or> lease_is_active (ex_lease_expires_at r) ?t")
      case True
      then show ?thesis using Some inv by (auto simp: mark_stale_execution_for_recovery_def Let_def runs_kept_refl)
    next
      case False
      then have eq: "mark_stale_execution_for_recovery clk i now x d =
          exec_update i (\<lambda>r. ex_status r = ERunning \<and> lease_expired (ex_lease_expires_at r) ?t)
            (if ex_attempt_count r < ex_max_attempts r
             then set_recovery EPending None (text_or x ''stale lease recovered for retry'') 1
             else set_recovery EFailed (Some ?t) (text_or x ''stale lease exceeded max attempts'') 0) d"
        using Some by (auto simp: mark_stale_execution_for_recovery_def Let_def)
      show ?thesis unfolding eq
        by (rule exec_update_rows_kept [OF inv moves [unfolded eq]]) (simp add: same_run_moves)
    qed
  qed (simp add: mark_stale_execution_for_recovery_def runs_kept_refl Let_def inv)
qed

lemma operator_kept:
  assumes inv: "exec_inv d"
  shows "runs_kept d (snd (mark_playbook_execution_permanently_failed clk i x now d))"
    and "runs_kept d (snd (abandon_playbook_execution clk i d))"
proof -
  have p: "runs_kept d (snd (exec_update i (\<lambda>r. ex_status r \<in> set PERMANENT_FAIL_ELIGIBLE_STATUSES)
      (\<lambda>r. r\<lparr>ex_status := EPermanentlyFailed, ex_completed_at := Some t, ex_failure_reason := Some y\<rparr>) d))" for t y
    using inv by (rule exec_update_kept)
      (auto simp: PERMANENT_FAIL_ELIGIBLE_STATUSES_def same_run_def exec_active_def intro: ew_step es_permanent)
  show "runs_kept d (snd (mark_playbook_execution_permanently_failed clk i x now d))"
    unfolding mark_playbook_execution_permanently_failed_def Let_def
    using p runs_kept_refl [OF inv] by (auto simp del: py_bind.simps simp: snd_py_bind_pure split: option.splits)
  have a: "runs_kept d (snd (exec_update i exec_active
      (\<lambda>r. r\<lparr>ex_status := EAbandoned, ex_completed_at := Some t\<rparr>) d))" for t
    using inv by (rule exec_update_kept) (auto simp: same_run_def exec_active_def ew_step es_abandon)
  show "runs_kept d (snd (abandon_playbook_execution clk i d))"
    unfolding abandon_playbook_execution_def
    by (subst snd_py_bind_pure) (auto simp: a Let_def split: option.splits)
qed

subsection \<open>Entries carry the index of their step\<close>

definition at_step :: "nat \<Rightarrow> items \<Rightarrow> bool" where
  "at_step k entry \<longleftrightarrow> dict_get entry ''step_index'' = PInt (int k)"

lemma dict_get_Cons [simp]: "dict_get ((k, v) # d) k' = (if k' = k then v else dict_get d k')"
  by (simp add: dict_get_def)

lemma at_step_set [simp]: "key \<noteq> ''step_index'' \<Longrightarrow> at_step k (dict_set entry key v) = at_step k entry"
  by (simp add: at_step_def dict_get_set)

lemma at_step_Cons [simp]: "at_step k ((''step_index'', PInt (int k)) # e)"
  by (simp add: at_step_def)

lemma at_step_label [simp]: "at_step k (with_label step entry) = at_step k entry"
  by (simp add: with_label_def split: pyval.split)

lemma at_step_entries [simp]:
  "at_step k (failure_entry fmt (Some (int k)) act m c now out)"
  "at_step k (already_delivered_entry fmt step a k now d)"
  "at_step k (adapter_entry fmt step a k now ps res snap)"
  "at_step k (canonical_entry fmt step k now a cr)"
  "at_step k (branch_entry fmt step k now cond b l t)"
  "at_step k (triggered_entry fmt k now target child depth dup)"
  "at_step k (approval_requested_entry fmt k i st rl step now)"
  by (simp_all add: at_step_def failure_entry_def already_delivered_entry_def adapter_entry_def canonical_entry_def
      branch_entry_def triggered_entry_def approval_requested_entry_def Let_def none_or_int_def
      at_step_label [unfolded at_step_def])

lemma at_step_slack: "slack_entry fmt step k now ps res attempt snap = Inr e \<Longrightarrow> at_step k e"
  by (auto simp: slack_entry_def Let_def slack_suppressed_entry_def slack_processed_entry_def at_step_def
      at_step_label [unfolded at_step_def] split: sum.splits)

lemma at_step_tracking: "at_step k entry \<Longrightarrow> at_step k (with_tracking entry tracking)"
  by (simp add: with_tracking_def Let_def)

text \<open>An entry of a step that is no gate records neither success nor a skip of a gate.\<close>

lemma at_step_only: "at_step k e \<Longrightarrow> entry_is i st (PDict e) \<Longrightarrow> i = int k"
  by (simp add: at_step_def entry_is_def)

subsection \<open>The steps are calm\<close>

lemma recording_simps [simp]:
  "sv_formats (recording sv) = sv_formats sv" "sv_clock (recording sv) = sv_clock sv"
  "sv_sha256 (recording sv) = sv_sha256 sv" "sv_locked (recording sv) = sv_locked sv"
  "sv_lease_env (recording sv) = sv_lease_env sv" "sv_worker_id (recording sv) = sv_worker_id sv"
  "sv_definitions (recording sv) = sv_definitions sv" "sv_alerts (recording sv) = sv_alerts sv"
  "sv_sql_text (recording sv) = sv_sql_text sv" "sv_protected (recording sv) = sv_protected sv"
  "sv_blockable (recording sv) = sv_blockable sv"
  by (simp_all add: recording_def)

lemma recorded_services:
  "sv_slack (recording sv) x k m p = recorded x k (sv_slack sv x k m p)"
  "sv_adapter (recording sv) x k n = recorded x k (sv_adapter sv x k n)"
  "sv_record_delivery (recording sv) x args now = recorded x (da_step_index args) (sv_record_delivery sv x args now)"
  "sv_command (recording sv) cq =
     recorded (cq_playbook_execution_id cq) (cq_playbook_step_index cq) (sv_command sv cq)"
  "sv_link (recording sv) x k child = recorded x k (sv_link sv x k child)"
  "sv_deliveries (recording sv) key wc = sv_deliveries sv key (fst wc)"
  by (simp_all add: recording_def)

lemma calm_any: "runs_calmly c P m \<Longrightarrow> runs_calmly c (\<lambda>_. True) m"
  by (erule runs_calmly_mono) simp

lemma calm_snapshot [calm_intros]: "runs_calmly c (\<lambda>_. True) (snapshot sv n)"
  unfolding snapshot_def by (rule calm_breakers)

lemma calm_existing [calm_intros]:
  "runs_calmly c (\<lambda>_. True) (existing_active_delivery (recording sv) provider action x k)"
  unfolding existing_active_delivery_def recorded_services recording_simps
  by (rule calm_bind [OF calm_read_world]) (intro calm_intros TrueI)

lemma calm_with_params:
  assumes "\<And>ps. runs_calmly c (at_step k) (body ps)"
  shows "runs_calmly c (at_step k) (with_params sv step k now ex action body)"
  unfolding with_params_def
  by (auto split: sum.split py_error.split intro!: assms calm_return calm_lift)

lemma calm_slack_step:
  "runs_calmly (ex_id ex, k) (at_step k) (simulate_notification_policy_slack_step (recording sv) step k now ex)"
  unfolding simulate_notification_policy_slack_step_def recorded_services
  by (rule calm_bind [OF calm_existing])
    (auto split: option.split intro!: calm_return calm_with_params calm_bind [OF calm_world] calm_bind [OF calm_snapshot]
      calm_lift dest: at_step_slack)

lemma calm_canonical_step:
  "runs_calmly (ex_id ex, k) (at_step k) (execute_canonical_response_step (recording sv) step k now ex action)"
proof -
  have "runs_calmly (ex_id ex, k) (\<lambda>_. True)
      (on_world (sv_command (recording sv) (canonical_request fmt ex k action ps)))" for fmt ps
    unfolding recorded_services by (simp add: canonical_request_def Let_def calm_world)
  then show ?thesis
    unfolding execute_canonical_response_step_def
    by (auto intro!: calm_with_params calm_bind calm_return)
qed

lemma calm_tracking:
  "runs_calmly (ex_id ex, k) (\<lambda>_. True) (record_playbook_block_tracking (recording sv) k ex ps)"
proof -
  have "runs_calmly (ex_id ex, k) (\<lambda>_. True) (on_world (sv_command (recording sv) (block_request fmt ex k ps)))" for fmt
    unfolding recorded_services by (simp add: block_request_def Let_def calm_world)
  then show ?thesis
    unfolding record_playbook_block_tracking_def Let_def
    by (auto split: sum.split py_error.split intro!: calm_bind calm_return calm_lift)
qed

lemma calm_call_adapter: "runs_calmly (ex_id ex, k) (\<lambda>_. True) (call_adapter (recording sv) ex k n a ps)"
  unfolding call_adapter_def recorded_services by (rule calm_bind [OF calm_world calm_breakers])

text \<open>An operation on the state after another one.\<close>

lemma calm_after:
  assumes "runs_calmly c Q m" "m s = (a, t)" "tables_ok s" "f t = (r, s')" "runs_calmly c P f"
  shows "calm c s s' \<and> (\<forall>b. r = Inr b \<longrightarrow> P b)"
  using runs_calmlyD(1) [OF assms(1,3,2)] runs_calmlyD [OF assms(5) calm_tables [OF runs_calmlyD(1) [OF assms(1,3,2)]]] assms(4)
  by (blast intro: calm_trans)

lemma calm_adapter_call:
  "runs_calmly (ex_id ex, k) (at_step k) (adapter_call_entry (recording sv) step k now ex action n a ps)"
proof (rule runs_calmlyI)
  fix s r s' assume s: "tables_ok s"
    and run: "adapter_call_entry (recording sv) step k now ex action n a ps s = (r, s')"
  obtain r0 t where m: "call_adapter (recording sv) ex k n a ps s = (r0, t)" by fastforce
  note after = calm_after [OF calm_call_adapter m s]
  show "calm (ex_id ex, k) s s' \<and> (\<forall>b. r = Inr b \<longrightarrow> at_step k b)"
  proof (cases r0)
    case (Inl e)
    from run m [unfolded Inl] show ?thesis unfolding adapter_call_entry_def
      by (simp only: prod.case sum.case) (erule after, intro calm_bind [OF calm_snapshot] calm_return at_step_entries)
  next
    case (Inr res)
    have "runs_calmly (ex_id ex, k) (at_step k)
       (py_bind (snapshot (recording sv) n)
            (\<lambda>snap. let entry = adapter_entry (sv_formats (recording sv)) step action k now ps res snap
               in if dict_get res ''success'' = PBool True \<and> action = ''block_ip''
                  then py_bind (record_playbook_block_tracking (recording sv) k ex ps)
                         (\<lambda>tracking. py_return (with_tracking entry tracking))
                  else py_return entry))"
      by (rule calm_bind [OF calm_snapshot])
        (auto simp: Let_def intro!: calm_bind [OF calm_tracking] calm_return at_step_tracking)
    with run m [unfolded Inr] show ?thesis unfolding adapter_call_entry_def
      by (simp only: prod.case sum.case) (erule (1) after)
  qed
qed

lemma calm_adapter_step:
  "runs_calmly (ex_id ex, k) (at_step k) (simulate_adapter_step (recording sv) step k now ex action n a)"
  unfolding simulate_adapter_step_def
proof (rule calm_bind [where Q = "\<lambda>_. True"])
  show "runs_calmly (ex_id ex, k) (\<lambda>_. True)
      (case PROVIDER_FOR_ACTION action of None \<Rightarrow> py_return None
       | Some provider \<Rightarrow> existing_active_delivery (recording sv) provider action (ex_id ex) k)"
    by (auto split: option.split intro!: calm_return calm_existing)
next
  fix existing
  show "runs_calmly (ex_id ex, k) (at_step k)
      (case existing of
          Some d \<Rightarrow> py_return (already_delivered_entry (sv_formats (recording sv)) step action k now d)
        | None \<Rightarrow> with_params (recording sv) step k now ex action
            (\<lambda>params. py_bind (py_lift (if action = ''block_ip'' then sv_protected (recording sv) (dict_get params ''source_ip'')
                                      else Inr None))
              (\<lambda>refused. case refused of
                 Some (message, code) \<Rightarrow>
                   py_return (failure_entry (sv_formats (recording sv)) (Some (int k)) (PStr action) message code now [])
               | None \<Rightarrow> adapter_call_entry (recording sv) step k now ex action n a params)))"
    by (auto split: option.split intro!: calm_return calm_with_params calm_bind [where Q = "\<lambda>_. True"] calm_lift
        calm_adapter_call)
qed

lemma calm_simulate_step: "runs_calmly (ex_id ex, k) (at_step k) (simulate_step (recording sv) step k now ex)"
  unfolding simulate_step_def
  by (auto split: pyval.split option.split
      intro!: calm_return calm_slack_step calm_adapter_step calm_canonical_step)

lemma delivery_args_index:
  "delivery_attempt_args fmt sha x action k entry = Inr (Some args) \<Longrightarrow> da_step_index args = k"
  by (auto simp: delivery_attempt_args_def Let_def split: option.splits sum.splits prod.splits)

lemma calm_delivery_record:
  assumes "at_step k entry"
  shows "runs_calmly (ex_id ex, k) (at_step k) (with_delivery_record (recording sv) ex step k now entry)"
proof (rule runs_calmlyI)
  fix s r s' assume s: "tables_ok s" and run: "with_delivery_record (recording sv) ex step k now entry s = (r, s')"
  show "calm (ex_id ex, k) s s' \<and> (\<forall>b. r = Inr b \<longrightarrow> at_step k b)"
  proof (cases "\<exists>args. snd (on_world (sv_record_delivery (recording sv) (ex_id ex) args now) s) = s' \<and> da_step_index args = k
      \<and> (\<forall>b. r = Inr b \<longrightarrow> at_step k b)")
    case True
    then show ?thesis using s runs_calmlyD(1) [OF calm_world s]
      by (metis recorded_services(3) prod.collapse)
  next
    case False
    then have "s' = s \<and> r = Inr entry" using run assms
      by (auto simp: with_delivery_record_def dest: delivery_args_index
          split: pyval.splits if_splits sum.splits option.splits prod.splits)
    then show ?thesis using s assms by (simp add: calm_refl)
  qed
qed

lemma calm_plain_entry: "runs_calmly (ex_id ex, k) (at_step k) (plain_entry (recording sv) ex now step k)"
  unfolding plain_entry_def
  by (rule calm_bind [OF calm_catch [OF calm_simulate_step]]) (simp_all add: calm_delivery_record)

lemma calm_enrich_entry:
  "runs_calmly c (at_step k) (execute_enrich_context_step sv step k ex now)"
  by (auto simp: runs_calmly_def execute_enrich_context_step_def Let_def calm_refl split: pyval.splits sum.splits)

lemma calm_link_child: "runs_calmly (ex_id ex, k) (\<lambda>_. True) (link_child (recording sv) ex k child)"
proof (rule runs_calmlyI)
  fix s r s' assume s: "tables_ok s" and run: "link_child (recording sv) ex k child s = (r, s')"
  have kept: "runs_kept (rt_execs s) (snd (set_playbook_execution_canonical_linkage child d c (rt_execs s)))" for d c
    using s by (intro link_kept) (simp add: tables_ok_def)
  show "calm (ex_id ex, k) s s' \<and> (\<forall>b. r = Inr b \<longrightarrow> True)"
  proof (cases "sv_link sv (ex_id ex) k child (fst (rt_world s))")
    case (Pair linkage w)
    then have link: "sv_link (recording sv) (ex_id ex) k child (rt_world s) = (linkage, (w, snd (rt_world s) @ [(ex_id ex, k)]))"
      by (simp add: recorded_services recorded_def)
    show ?thesis
    proof (cases linkage)
      case None
      with run link have "s' = s\<lparr>rt_world := (w, snd (rt_world s) @ [(ex_id ex, k)])\<rparr>" by (simp add: link_child_def)
      then show ?thesis using s by (simp add: calm_def calls_def tables_ok_def runs_kept_refl approval_safe_refl)
    next
      case (Some dc)
      then obtain d c where dc: "linkage = Some (d, c)" by (cases dc) simp
      obtain r0 db where l: "set_playbook_execution_canonical_linkage child d c (rt_execs s) = (r0, db)" by fastforce
      with run link dc have "s' = s \<or> s' = s\<lparr>rt_world := (w, snd (rt_world s) @ [(ex_id ex, k)]), rt_execs := db\<rparr>"
        by (auto simp: link_child_def split: sum.splits)
      then show ?thesis using s kept [of d c] l
        by (auto simp: calm_refl) (auto simp: calm_def calls_def tables_ok_def approval_safe_refl)
    qed
  qed
qed

lemma calm_trigger_entry:
  "runs_calmly (ex_id ex, k) (at_step k) (execute_trigger_playbook_step (recording sv) step k ex now)"
proof (rule runs_calmlyI)
  fix s r s' assume s: "tables_ok s"
    and run: "execute_trigger_playbook_step (recording sv) step k ex now s = (r, s')"
  show "calm (ex_id ex, k) s s' \<and> (\<forall>b. r = Inr b \<longrightarrow> at_step k b)"
  proof (cases "trigger_target (recording sv) step ex (rt_execs s)")
    case (Inl mc)
    then show ?thesis using run s
      by (cases mc) (auto simp: execute_trigger_playbook_step_def calm_refl)
  next
    case (Inr target)
    let ?create = "on_execs (create_pending_playbook_execution_once (sv_clock sv) (child_args ex target))"
    let ?rest = "\<lambda>child s1. let depth = ex_chain_depth ex + 1
               in case child of
                    None \<Rightarrow>
                      (Inr (triggered_entry (sv_formats sv) k now target
                         (map_option ex_id (get_active_playbook_execution_for_pair target (ex_alert_id ex) (rt_execs s1)))
                         depth True), s1)
                  | Some i \<Rightarrow>
                      py_bind (link_child (recording sv) ex k i)
                        (\<lambda>_. py_return (triggered_entry (sv_formats sv) k now target (Some i) depth False)) s1"
    have run': "py_bind ?create ?rest s = (r, s')"
      using run Inr by (simp only: execute_trigger_playbook_step_def sum.case recording_simps)
    have "runs_calmly (ex_id ex, k) (at_step k) (?rest child)" for child
    proof (cases child)
      case (Some i)
      then show ?thesis
        by (simp add: Let_def del: py_bind.simps) (intro calm_bind [OF calm_link_child] calm_return at_step_entries)
    qed (auto simp: runs_calmly_def calm_refl)
    moreover have "runs_calmly (ex_id ex, k) (\<lambda>_. True) ?create" by (intro calm_execs create_kept)
    ultimately have "runs_calmly (ex_id ex, k) (at_step k) (py_bind ?create ?rest)" by (intro calm_bind) auto
    with run' s show ?thesis by (simp add: runs_calmly_def)
  qed
qed

lemma calm_heartbeat: "runs_calmly c (\<lambda>_. True) (heartbeat_lease (recording sv) x owner now duration)"
  unfolding heartbeat_lease_def by (rule calm_bind [OF calm_execs]) (simp_all add: heartbeat_kept calm_return)

lemma calm_release: "runs_calmly c (\<lambda>_. True) (release x owner)"
  unfolding release_def by (rule calm_bind [OF calm_execs]) (simp_all add: release_kept calm_return)

lemma get_active_eq:
  "snd (get_active_playbook_step_approval_request clk x k d) =
     snd (get_latest_playbook_step_approval_request clk x k False None d)"
  unfolding get_active_playbook_step_approval_request_def
  by (auto split: prod.splits sum.splits option.splits)

lemma calm_gate_request: "runs_calmly c (\<lambda>_. True) (gate_request (recording sv) x k step)"
proof -
  have 1: "runs_calmly c (\<lambda>_. True) (on_approvals (get_active_playbook_step_approval_request clk x k'))" for clk x k'
    by (rule calm_approvals) (simp add: get_active_eq op_latest_step)
  have 2: "runs_calmly c (\<lambda>_. True) (on_approvals (create_playbook_step_approval_request clk x k' a b d e f g))"
    for clk x k' a b d e f g
    by (rule calm_approvals) (rule op_create_step)
  show ?thesis unfolding gate_request_def Let_def
    by (rule calm_bind [OF 1])
      (auto split: option.split intro!: calm_return calm_bind [where Q = "\<lambda>_. True"] calm_lift 2)
qed

lemma calm_capture: "runs_calmly c (\<lambda>_. True) (capture_failed_execution_dead_letter sv ex l k now)"
  unfolding capture_failed_execution_dead_letter_def
  by (auto split: option.split intro!: calm_return calm_catch calm_bind [OF calm_letters])

subsection \<open>Gates\<close>

text \<open>The steps of a playbook, which of them are gates, and when a gate lets a run pass: its step was
  skipped by a branch, or its request was approved, or denied or expired where the step says that
  the run then goes on.\<close>

definition definition_steps :: "definition_table \<Rightarrow> string \<Rightarrow> pyval list option" where
  "definition_steps defs pb =
     (case map_option pd_steps (get_playbook_definition pb defs) of Some (PList xs) \<Rightarrow> Some xs | _ \<Rightarrow> None)"

definition is_gate :: "definition_table \<Rightarrow> string \<Rightarrow> nat \<Rightarrow> bool" where
  "is_gate defs pb g \<longleftrightarrow> (case definition_steps defs pb of
     None \<Rightarrow> False | Some steps \<Rightarrow> g < length steps \<and> is_action ''require_approval'' (steps ! g))"

definition released :: "definition_table \<Rightarrow> approval_db \<Rightarrow> string \<Rightarrow> row_id \<Rightarrow> nat \<Rightarrow> bool" where
  "released defs apps pb x g \<longleftrightarrow> (\<exists>q \<in> set (approval_requests apps).
     ar_playbook_execution_id q = Some x \<and> ar_playbook_step_index q = Some (int g) \<and>
     (ar_status q = AApproved \<or>
      ar_status q \<in> {ADenied, AExpired} \<and>
      gate_behavior (definition_steps defs pb) (int g) (ar_status q) = PStr ''branch''))"

definition cleared :: "definition_table \<Rightarrow> approval_db \<Rightarrow> string \<Rightarrow> row_id \<Rightarrow> pyval list \<Rightarrow> nat \<Rightarrow> bool" where
  "cleared defs apps pb x steps_log g \<longleftrightarrow>
     step_already_skipped_in_log steps_log (int g) \<or> released defs apps pb x g"

text \<open>What holds of every execution that is not finished: no gate is logged as a success, the gates up to
  the last completed step are cleared, and so are those before the gate a waiting execution waits at.\<close>

definition run_ok :: "definition_table \<Rightarrow> approval_db \<Rightarrow> execution \<Rightarrow> bool" where
  "run_ok defs apps r \<longleftrightarrow> (exec_active r \<longrightarrow>
     (\<forall>g. is_gate defs (ex_playbook_id r) g \<longrightarrow>
        \<not> step_already_succeeded_in_log (ex_steps_log r) (int g) \<and>
        (\<forall>c. ex_last_completed_step r = Some c \<longrightarrow> int g \<le> c \<longrightarrow>
           cleared defs apps (ex_playbook_id r) (ex_id r) (ex_steps_log r) g)) \<and>
     (ex_status r = EAwaiting \<longrightarrow>
        (\<exists>n. latest_gate_entry (ex_steps_log r) = Some (int n) \<and>
           (\<forall>g < n. is_gate defs (ex_playbook_id r) g \<longrightarrow>
              cleared defs apps (ex_playbook_id r) (ex_id r) (ex_steps_log r) g))))"

definition state_ok :: "definition_table \<Rightarrow> 'w runtime \<Rightarrow> bool" where
  "state_ok defs s \<longleftrightarrow> tables_ok s \<and> (\<forall>r \<in> set (playbook_executions (rt_execs s)). run_ok defs (rt_approvals s) r)"

lemma released_mono:
  assumes "approval_safe a a'" "released defs a pb x g"
  shows "released defs a' pb x g"
proof -
  obtain q where q: "q \<in> set (approval_requests a)" "ar_playbook_execution_id q = Some x"
      "ar_playbook_step_index q = Some (int g)"
      "ar_status q = AApproved \<or> ar_status q \<in> {ADenied, AExpired} \<and>
       gate_behavior (definition_steps defs pb) (int g) (ar_status q) = PStr ''branch''"
    using assms(2) by (auto simp: released_def)
  then have "approval_decided q" by (auto simp: approval_decided_def TERMINAL_APPROVAL_STATUSES_def)
  then have "q \<in> set (approval_requests a')"
    using approvals.final_kept [of "approval_requests a" "approval_requests a'" q] assms(1) q(1)
    by (auto simp: approval_safe_def)
  with q show ?thesis by (auto simp: released_def)
qed

lemma cleared_mono:
  "approval_safe a a' \<Longrightarrow> cleared defs a pb x l g \<Longrightarrow>
     (step_already_skipped_in_log l (int g) \<Longrightarrow> step_already_skipped_in_log l' (int g)) \<Longrightarrow> cleared defs a' pb x l' g"
  by (auto simp: cleared_def intro: released_mono)

lemma run_ok_mono:
  assumes "run_ok defs a r" "same_run r r'" "approval_safe a a'"
  shows "run_ok defs a' r'"
proof -
  have eq: "ex_playbook_id r' = ex_playbook_id r" "ex_id r' = ex_id r" "ex_steps_log r' = ex_steps_log r"
    "ex_last_completed_step r' = ex_last_completed_step r" "ex_status r' = EAwaiting \<Longrightarrow> ex_status r = EAwaiting"
    "exec_active r' \<Longrightarrow> exec_active r"
    using assms(2) by (auto simp: same_run_def)
  have c: "cleared defs a pb x l g \<Longrightarrow> cleared defs a' pb x l g" for pb x l g
    using assms(3) by (rule cleared_mono)
  show ?thesis using assms(1) unfolding run_ok_def eq(1-4) by (meson c eq(5,6))
qed

lemma run_ok_fresh: "fresh_run r \<Longrightarrow> run_ok defs a r"
  by (simp add: fresh_run_def run_ok_def step_already_succeeded_in_log_def)

lemma state_ok_calm:
  assumes "state_ok defs s" "calm c s s'"
  shows "state_ok defs s'"
  unfolding state_ok_def
proof (intro conjI ballI)
  show "tables_ok s'" using assms(2) by (rule calm_tables)
  fix r' assume r': "r' \<in> set (playbook_executions (rt_execs s'))"
  then consider "fresh_run r'" | r where "r \<in> set (playbook_executions (rt_execs s))" "same_run r r'"
    using assms(2) unfolding calm_def runs_kept_def by blast
  then show "run_ok defs (rt_approvals s') r'"
  proof cases
    case 2
    then show ?thesis using assms unfolding state_ok_def calm_def by (blast intro: run_ok_mono)
  qed (rule run_ok_fresh)
qed

subsection \<open>The loop\<close>

text \<open>The execution's row records what the loop's log does about gates.\<close>

definition saved :: "definition_table \<Rightarrow> row_id \<Rightarrow> string \<Rightarrow> pyval list \<Rightarrow> 'w runtime \<Rightarrow> bool" where
  "saved defs x pb l s \<longleftrightarrow> (\<exists>r \<in> set (playbook_executions (rt_execs s)). ex_id r = x \<and> ex_playbook_id r = pb \<and>
     (\<forall>g. is_gate defs pb g \<longrightarrow>
        step_already_skipped_in_log l (int g) = step_already_skipped_in_log (ex_steps_log r) (int g)))"

definition loop_ok ::
  "definition_table \<Rightarrow> row_id \<Rightarrow> string \<Rightarrow> pyval list \<Rightarrow> loop \<Rightarrow> 'w runtime \<Rightarrow> bool" where
  "loop_ok defs x pb l0 ls s \<longleftrightarrow> set l0 \<subseteq> set (lp_log ls) \<and> saved defs x pb (lp_log ls) s \<and>
     (\<forall>g. is_gate defs pb g \<longrightarrow>
        \<not> step_already_succeeded_in_log (lp_log ls) (int g) \<and>
        (g < lp_index ls \<longrightarrow> cleared defs (rt_approvals s) pb x (lp_log ls) g) \<and>
        (\<forall>c. lp_last ls = Some c \<longrightarrow> int g \<le> c \<longrightarrow> cleared defs (rt_approvals s) pb x (lp_log ls) g))"

text \<open>Each call made is made for this execution, for a step the pass did not find finished, and the
  gates before the step are cleared, by the execution's row and the approvals.\<close>

definition call_ok ::
  "definition_table \<Rightarrow> row_id \<Rightarrow> string \<Rightarrow> pyval list \<Rightarrow> 'w runtime \<Rightarrow> call \<Rightarrow> bool" where
  "call_ok defs x pb l0 s c \<longleftrightarrow> fst c = x \<and> \<not> step_already_succeeded_in_log l0 (int (snd c)) \<and>
     (\<exists>r \<in> set (playbook_executions (rt_execs s)). ex_id r = x \<and> ex_playbook_id r = pb \<and>
        (\<forall>g < snd c. is_gate defs pb g \<longrightarrow> cleared defs (rt_approvals s) pb x (ex_steps_log r) g))"

lemma saved_calm: "saved defs x pb l s \<Longrightarrow> calm c s s' \<Longrightarrow> saved defs x pb l s'"
  unfolding saved_def calm_def runs_kept_def same_run_def by metis

lemma loop_ok_calm: "loop_ok defs x pb l0 ls s \<Longrightarrow> calm c s s' \<Longrightarrow> loop_ok defs x pb l0 ls s'"
  unfolding loop_ok_def using saved_calm [of defs x pb "lp_log ls" s c s']
    cleared_mono [of "rt_approvals s" "rt_approvals s'" defs pb x "lp_log ls" _ "lp_log ls"]
  by (auto simp: calm_def)

lemma call_ok_calm:
  assumes "call_ok defs x pb l0 s c" "calm c' s s'"
  shows "call_ok defs x pb l0 s' c"
proof -
  obtain r where r: "r \<in> set (playbook_executions (rt_execs s))" "ex_id r = x" "ex_playbook_id r = pb"
      "\<forall>g < snd c. is_gate defs pb g \<longrightarrow> cleared defs (rt_approvals s) pb x (ex_steps_log r) g"
    using assms(1) by (auto simp: call_ok_def)
  obtain r' where r': "r' \<in> set (playbook_executions (rt_execs s'))" "same_run r r'"
    using assms(2) r(1) by (auto simp: calm_def runs_kept_def)
  have "cleared defs (rt_approvals s') pb x (ex_steps_log r') g" if "g < snd c" "is_gate defs pb g" for g
    using r(4) that r'(2) assms(2) by (auto simp: calm_def same_run_def intro: cleared_mono)
  with assms(1) r r' show ?thesis unfolding call_ok_def same_run_def by auto
qed

text \<open>Calls made in a round for the step at its index.\<close>

lemma calls_in_round:
  assumes "loop_ok defs x pb l0 ls s" "\<not> step_already_succeeded_in_log (lp_log ls) (int (lp_index ls))"
    and "\<forall>c \<in> set (calls s). call_ok defs x pb l0 s c" "calm (x, lp_index ls) s s'"
  shows "\<forall>c \<in> set (calls s'). call_ok defs x pb l0 s' c"
proof
  fix c assume "c \<in> set (calls s')"
  then consider "c \<in> set (calls s)" | "c = (x, lp_index ls)" using assms(4) by (auto simp: calm_def)
  then show "call_ok defs x pb l0 s' c"
  proof cases
    case 1
    then show ?thesis using assms(3,4) call_ok_calm by blast
  next
    case 2
    obtain r where r: "r \<in> set (playbook_executions (rt_execs s))" "ex_id r = x" "ex_playbook_id r = pb"
        "\<forall>g. is_gate defs pb g \<longrightarrow>
          step_already_skipped_in_log (lp_log ls) (int g) = step_already_skipped_in_log (ex_steps_log r) (int g)"
      using assms(1) by (auto simp: loop_ok_def saved_def)
    have "\<not> step_already_succeeded_in_log l0 (int (lp_index ls))"
      using assms(1,2) by (auto simp: loop_ok_def step_already_succeeded_in_log_def list_ex_iff)
    moreover have "cleared defs (rt_approvals s) pb x (ex_steps_log r) g" if "g < lp_index ls" "is_gate defs pb g" for g
      using assms(1) that r(4) by (auto simp: loop_ok_def cleared_def)
    ultimately have "call_ok defs x pb l0 s c" using r 2 by (auto simp: call_ok_def)
    then show ?thesis using assms(4) by (rule call_ok_calm)
  qed
qed

subsection \<open>Writing the log\<close>

lemma on_execs_frame:
  "on_execs m s = (r, s') \<Longrightarrow> rt_approvals s' = rt_approvals s \<and> rt_world s' = rt_world s \<and> m (rt_execs s) = (r, rt_execs s')"
  by (auto simp: on_execs_def split: prod.splits)

lemma exec_update_returned:
  assumes "exec_update x guard f d = (Inr (Some r1), d')"
  shows "r1 \<in> set (playbook_executions d') \<and> (\<exists>r \<in> set (playbook_executions d). ex_id r = x \<and> guard r \<and> r1 = f r)"
proof -
  have t: "playbook_executions d' = update_where (\<lambda>r. ex_id r = x \<and> guard r) f (playbook_executions d)"
    and r1: "fetchone (returning (\<lambda>r. ex_id r = x \<and> guard r) f (playbook_executions d)) = Some r1"
    using assms by (auto simp: exec_update_def Let_def split: if_splits)
  show ?thesis using fetchone_mem [OF r1] unfolding t set_update_where returning_mem by blast
qed

text \<open>A row of the execution is changed, all others stay.\<close>

lemma write_row:
  assumes st: "state_ok defs s" and run: "on_execs (exec_update x guard f) s = (res, s')"
    and w: "\<And>r. guard r \<Longrightarrow> exec_write r (f r)"
    and ok: "\<And>r. r \<in> set (playbook_executions (rt_execs s)) \<Longrightarrow> ex_id r = x \<Longrightarrow> guard r \<Longrightarrow>
      run_ok defs (rt_approvals s) (f r)"
  shows "state_ok defs s'"
    and "r' \<in> set (playbook_executions (rt_execs s')) \<Longrightarrow>
      r' \<in> set (playbook_executions (rt_execs s)) \<or>
      (\<exists>r \<in> set (playbook_executions (rt_execs s)). ex_id r = x \<and> guard r \<and> r' = f r)"
    and "r \<in> set (playbook_executions (rt_execs s)) \<Longrightarrow>
      r \<in> set (playbook_executions (rt_execs s')) \<or>
      ex_id r = x \<and> guard r \<and> f r \<in> set (playbook_executions (rt_execs s'))"
    and "res = Inr (Some r1) \<Longrightarrow>
      r1 \<in> set (playbook_executions (rt_execs s')) \<and>
      (\<exists>r \<in> set (playbook_executions (rt_execs s)). ex_id r = x \<and> guard r \<and> r1 = f r)"
proof -
  have frame: "rt_approvals s' = rt_approvals s" "exec_update x guard f (rt_execs s) = (res, rt_execs s')"
    using on_execs_frame [OF run] by auto
  have inv: "exec_inv (rt_execs s')"
    using exec_update_inv [of "rt_execs s" x guard f] st frame(2) w by (simp add: state_ok_def tables_ok_def)
  have rows: "set (playbook_executions (rt_execs s')) = set (playbook_executions (rt_execs s)) \<or>
      playbook_executions (rt_execs s') = update_where (\<lambda>r. ex_id r = x \<and> guard r) f (playbook_executions (rt_execs s))"
    using frame(2) by (auto simp: exec_update_def Let_def split: if_splits dest!: sym [of _ "rt_execs s'"])
  show prior: "r' \<in> set (playbook_executions (rt_execs s)) \<or>
      (\<exists>r \<in> set (playbook_executions (rt_execs s)). ex_id r = x \<and> guard r \<and> r' = f r)"
    if "r' \<in> set (playbook_executions (rt_execs s'))" for r'
    using rows that by (auto simp: set_update_where)
  show "r \<in> set (playbook_executions (rt_execs s')) \<or>
      ex_id r = x \<and> guard r \<and> f r \<in> set (playbook_executions (rt_execs s'))"
    if "r \<in> set (playbook_executions (rt_execs s))" for r
    using rows that by (auto simp: set_update_where)
  show "state_ok defs s'"
    using st inv frame(1) ok prior unfolding state_ok_def tables_ok_def by metis
  show "r1 \<in> set (playbook_executions (rt_execs s')) \<and>
      (\<exists>r \<in> set (playbook_executions (rt_execs s)). ex_id r = x \<and> guard r \<and> r1 = f r)" if "res = Inr (Some r1)" for r1
    using frame(2) that exec_update_returned by blast
qed

lemma same_row:
  assumes "tables_ok s" "r \<in> set (playbook_executions (rt_execs s))" "r' \<in> set (playbook_executions (rt_execs s))"
    "ex_id r = ex_id r'"
  shows "r = r'"
  using assms distinct_key_unique [OF exec_inv_ids(2)] by (auto simp: tables_ok_def)

text \<open>The calls stay justified when the execution's log grows.\<close>

lemma call_ok_write:
  assumes "call_ok defs x pb l0 s c" "state_ok defs s" "on_execs (exec_update x guard f) s = (res, s')"
    and "\<And>r. guard r \<Longrightarrow> exec_write r (f r)" "\<And>r. ex_id (f r) = ex_id r \<and> ex_playbook_id (f r) = ex_playbook_id r"
    and "\<And>r. r \<in> set (playbook_executions (rt_execs s)) \<Longrightarrow> ex_id r = x \<Longrightarrow> guard r \<Longrightarrow>
      run_ok defs (rt_approvals s) (f r)"
    and "\<And>r g. r \<in> set (playbook_executions (rt_execs s)) \<Longrightarrow> ex_id r = x \<Longrightarrow> ex_playbook_id r = pb \<Longrightarrow> is_gate defs pb g \<Longrightarrow>
      step_already_skipped_in_log (ex_steps_log r) (int g) \<Longrightarrow> step_already_skipped_in_log (ex_steps_log (f r)) (int g)"
  shows "call_ok defs x pb l0 s' c"
proof -
  obtain r where r: "r \<in> set (playbook_executions (rt_execs s))" "ex_id r = x" "ex_playbook_id r = pb"
      "\<forall>g < snd c. is_gate defs pb g \<longrightarrow> cleared defs (rt_approvals s) pb x (ex_steps_log r) g"
    using assms(1) by (auto simp: call_ok_def)
  have a: "rt_approvals s' = rt_approvals s" using on_execs_frame [OF assms(3)] by simp
  have f: "ex_id (f r) = x" "ex_playbook_id (f r) = pb"
    using assms(5) r(2,3) by auto
  have "\<forall>g < snd c. is_gate defs pb g \<longrightarrow> cleared defs (rt_approvals s) pb x (ex_steps_log (f r)) g"
    using r(4) assms(7) [OF r(1-3)] by (auto simp: cleared_def)
  then show ?thesis using write_row(3) [OF assms(2,3,4,6) r(1)] r f assms(1) a
    unfolding call_ok_def by metis
qed

definition not_waiting :: "row_id \<Rightarrow> 'w runtime \<Rightarrow> bool" where
  "not_waiting x s \<longleftrightarrow> (\<forall>r \<in> set (playbook_executions (rt_execs s)). ex_id r = x \<longrightarrow> ex_status r \<noteq> EAwaiting)"

lemma not_waiting_calm: "not_waiting x s \<Longrightarrow> calm c s s' \<Longrightarrow> not_waiting x s'"
  unfolding not_waiting_def calm_def runs_kept_def same_run_def fresh_run_def by metis

lemma heartbeat_running:
  assumes "heartbeat_lease (recording sv) x owner now duration s = (Inr True, t)" "tables_ok s"
  shows "not_waiting x t"
proof -
  obtain r where r: "on_execs (heartbeat_execution_lease (sv_clock sv) x (Some owner) duration (Some now)) s = (Inr (Some r), t)"
    using assms(1) by (auto simp: heartbeat_lease_def py_bind_Inr simp del: py_bind.simps)
  have inv: "exec_inv (rt_execs t)"
    using r heartbeat_kept [of "rt_execs s"] assms(2) on_execs_frame [OF r]
    by (auto simp: runs_kept_def tables_ok_def) (metis snd_conv)
  obtain w where w: "exec_update x (\<lambda>r. ex_status r = ERunning \<and> ex_lease_owner r = Some w \<and>
      lease_is_active (ex_lease_expires_at r) now) (set_heartbeat now duration) (rt_execs s) = (Inr (Some r), rt_execs t)"
    using on_execs_frame [OF r] by (auto simp: heartbeat_execution_lease_def Let_def split: sum.splits)
  have "r \<in> set (playbook_executions (rt_execs t)) \<and> ex_id r = x \<and> ex_status r = ERunning"
    using exec_update_returned [OF w] by (auto simp: set_heartbeat_def)
  then show ?thesis
    using distinct_key_unique [OF exec_inv_ids(2) [OF inv]] unfolding not_waiting_def by fastforce
qed

subsection \<open>A round keeps the gates shut\<close>

text \<open>The entries of the steps a jump passes over.\<close>

definition skips :: "nat \<Rightarrow> nat \<Rightarrow> items list \<Rightarrow> bool" where
  "skips k nxt sk \<longleftrightarrow> k < nxt \<and> (\<forall>e \<in> set sk. dict_get e ''status'' = PStr ''skipped'') \<and>
     (\<forall>g. k < g \<longrightarrow> g < nxt \<longrightarrow> step_already_skipped_in_log (map PDict sk) (int g))"

lemma skips_none [simp]: "skips k (Suc k) []"
  by (simp add: skips_def)

lemma in_log_append [simp]:
  "step_already_succeeded_in_log (l @ m) i = (step_already_succeeded_in_log l i \<or> step_already_succeeded_in_log m i)"
  "step_already_skipped_in_log (l @ m) i = (step_already_skipped_in_log l i \<or> step_already_skipped_in_log m i)"
  "step_already_succeeded_in_log (e # m) i = (entry_is i ''success'' e \<or> step_already_succeeded_in_log m i)"
  "step_already_skipped_in_log (e # m) i = (entry_is i ''skipped'' e \<or> step_already_skipped_in_log m i)"
  "\<not> step_already_succeeded_in_log [] i" "\<not> step_already_skipped_in_log [] i"
  by (auto simp: step_already_succeeded_in_log_def step_already_skipped_in_log_def)

lemma skips_no_success: "skips k nxt sk \<Longrightarrow> \<not> step_already_succeeded_in_log (map PDict sk) i"
  by (auto simp: skips_def step_already_succeeded_in_log_def list_ex_iff entry_is_def)

lemma skipped_entries_skip: "k < t \<Longrightarrow> skips k t (skipped_branch_step_entries fmt steps (Suc k) t now)"
  by (auto simp: skips_def skipped_branch_step_entries_def skipped_entry_def flags_def
      step_already_skipped_in_log_def list_ex_iff entry_is_def)

lemma branch_step_skips:
  assumes "execute_branch_step sv step k steps l ex now = Inr (entry, sk, nxt)"
  shows "skips k nxt sk \<and> at_step k entry \<and> (dict_get entry ''status'' \<noteq> PStr ''success'' \<longrightarrow> sk = [])"
  using assms by (auto simp: execute_branch_step_def Let_def branch_failure_def branch_entry_def
      split: pyval.splits sum.splits prod.splits option.splits py_error.splits
      intro!: skipped_entries_skip dest: branch_target_forward)

text \<open>The log after a round at a step that is no gate.\<close>

lemma log_after_round:
  assumes loop: "loop_ok defs x pb l0 ls s" and no_gate: "\<not> is_gate defs pb (lp_index ls)"
    and entry: "at_step (lp_index ls) entry" and sk: "skips (lp_index ls) nxt sk" and g: "is_gate defs pb g"
  defines "l \<equiv> lp_log ls @ PDict entry # map PDict sk"
  shows "\<not> step_already_succeeded_in_log l (int g)"
    and "g < nxt \<Longrightarrow> cleared defs (rt_approvals s) pb x l g"
    and "step_already_skipped_in_log (lp_log ls) (int g) \<Longrightarrow> step_already_skipped_in_log l (int g)"
    and "sk = [] \<Longrightarrow> step_already_skipped_in_log l (int g) = step_already_skipped_in_log (lp_log ls) (int g)"
proof -
  have "g \<noteq> lp_index ls" using g no_gate by auto
  then have other: "\<not> entry_is (int g) st (PDict entry)" for st using at_step_only [OF entry, of "int g" st] by auto
  show "\<not> step_already_succeeded_in_log l (int g)"
    using loop g other skips_no_success [OF sk] by (simp add: loop_ok_def l_def)
  show keep: "step_already_skipped_in_log l (int g)" if "step_already_skipped_in_log (lp_log ls) (int g)"
    using that by (simp add: l_def)
  show "step_already_skipped_in_log l (int g) = step_already_skipped_in_log (lp_log ls) (int g)" if "sk = []"
    using that other by (simp add: l_def)
  show "cleared defs (rt_approvals s) pb x l g" if lt: "g < nxt"
  proof (cases "g < lp_index ls")
    case True
    then have "cleared defs (rt_approvals s) pb x (lp_log ls) g" using loop g by (simp add: loop_ok_def)
    then show ?thesis using keep by (auto simp: cleared_def)
  next
    case False
    then have "step_already_skipped_in_log (map PDict sk) (int g)"
      using sk lt \<open>g \<noteq> lp_index ls\<close> by (simp add: skips_def)
    then show ?thesis by (simp add: cleared_def l_def)
  qed
qed

definition calls_ok ::
  "definition_table \<Rightarrow> row_id \<Rightarrow> string \<Rightarrow> pyval list \<Rightarrow> ('w \<times> call list) runtime \<Rightarrow> bool" where
  "calls_ok defs x pb l0 s \<longleftrightarrow> (\<forall>c \<in> set (calls s). call_ok defs x pb l0 s c)"

lemma loop_row:
  assumes "loop_ok defs x pb l0 ls s" "tables_ok s" "r \<in> set (playbook_executions (rt_execs s))" "ex_id r = x"
  shows "ex_playbook_id r = pb"
    and "is_gate defs pb g \<Longrightarrow>
      step_already_skipped_in_log (lp_log ls) (int g) = step_already_skipped_in_log (ex_steps_log r) (int g)"
proof -
  obtain r' where r': "r' \<in> set (playbook_executions (rt_execs s))" "ex_id r' = x" "ex_playbook_id r' = pb"
      "\<forall>g. is_gate defs pb g \<longrightarrow>
        step_already_skipped_in_log (lp_log ls) (int g) = step_already_skipped_in_log (ex_steps_log r') (int g)"
    using assms(1) by (auto simp: loop_ok_def saved_def)
  then have "r = r'" using same_row [OF assms(2,3)] assms(4) by metis
  then show "ex_playbook_id r = pb" "is_gate defs pb g \<Longrightarrow>
      step_already_skipped_in_log (lp_log ls) (int g) = step_already_skipped_in_log (ex_steps_log r) (int g)"
    using r' by auto
qed

lemma after_entry_keeps:
  assumes st: "state_ok defs s" and loop: "loop_ok defs x pb l0 ls s" and calls: "calls_ok defs x pb l0 s"
    and wait: "not_waiting x s" and ex: "ex_id ex = x" and no_gate: "\<not> is_gate defs pb (lp_index ls)"
    and entry: "at_step (lp_index ls) entry" and sk: "skips (lp_index ls) nxt sk"
    and fail: "dict_get entry ''status'' \<noteq> PStr ''success'' \<Longrightarrow> sk = []"
    and run: "after_entry ex prior owner step lost ls entry sk nxt s = (r, s')"
  shows "state_ok defs s' \<and> calls_ok defs x pb l0 s' \<and>
    (\<forall>ls'. r = Inr (Go ls') \<or> r = Inr (Break ls') \<longrightarrow> loop_ok defs x pb l0 ls' s')"
proof -
  let ?l = "lp_log ls @ PDict entry # map PDict sk" and ?k = "lp_index ls"
  note facts = log_after_round [OF loop no_gate entry sk]
  show ?thesis
  proof (cases "dict_get entry ''status'' = PStr ''success''")
    case False
    then have "sk = []" by (rule fail)
    with run False have s': "s' = s" and r: "r = Inr (Go (ls\<lparr>lp_log := ?l, lp_failed := True,
          lp_message := dict_get entry ''message'', lp_index := ?k + 1\<rparr>)) \<or>
        r = Inr (Break (ls\<lparr>lp_log := ?l, lp_failed := True, lp_message := dict_get entry ''message''\<rparr>))"
      by (auto simp: after_entry_def Let_def split: if_splits)
    have "saved defs x pb ?l s"
      using loop facts(4) \<open>sk = []\<close> unfolding loop_ok_def saved_def by metis
    moreover have "\<forall>g. is_gate defs pb g \<longrightarrow> \<not> step_already_succeeded_in_log ?l (int g) \<and>
        (g < Suc ?k \<longrightarrow> cleared defs (rt_approvals s) pb x ?l g) \<and>
        (\<forall>c. lp_last ls = Some c \<longrightarrow> int g \<le> c \<longrightarrow> cleared defs (rt_approvals s) pb x ?l g)"
    proof (intro allI impI conjI)
      fix g assume g: "is_gate defs pb g"
      show "\<not> step_already_succeeded_in_log ?l (int g)" using g by (rule facts(1))
      show "cleared defs (rt_approvals s) pb x ?l g" if "g < Suc ?k"
        using facts(2) [OF g] that sk by (simp add: skips_def)
      show "cleared defs (rt_approvals s) pb x ?l g" if "lp_last ls = Some c" "int g \<le> c" for c
        using loop g that facts(3) [OF g] by (auto simp: loop_ok_def cleared_def)
    qed
    ultimately have "loop_ok defs x pb l0 (ls\<lparr>lp_log := ?l, lp_failed := f, lp_message := m, lp_index := ?k + 1\<rparr>) s \<and>
        loop_ok defs x pb l0 (ls\<lparr>lp_log := ?l, lp_failed := f, lp_message := m\<rparr>) s" for f m
      using loop by (simp add: loop_ok_def subset_iff)
    then show ?thesis using st calls r s' by blast
  next
    case True
    let ?f = "set_progress ?l (Some (int ?k))"
    obtain res t where w: "on_execs (update_playbook_execution_step_log (ex_id ex) ?l (Some (int ?k)) (Some owner)) s = (res, t)"
      by fastforce
    have upd: "on_execs (exec_update x (lease_owner_guard (Some owner)) ?f) s = (res, t)"
      using w by (simp add: update_playbook_execution_step_log_def ex)
    have s': "s' = t" and r: "\<And>ls'. r = Inr (Go ls') \<or> r = Inr (Break ls') \<Longrightarrow>
        (\<exists>r1. res = Inr (Some r1)) \<and> ls' = ls\<lparr>lp_index := nxt, lp_log := ?l, lp_last := Some (int ?k)\<rparr>"
      using run True w by (auto simp: after_entry_def Let_def lost_lease_def split: sum.splits option.splits)
    have wr: "\<And>r. lease_owner_guard (Some owner) r \<Longrightarrow> exec_write r (?f r)" by (rule ew_progress)
    have row: "run_ok defs (rt_approvals s) (?f r)"
      if "r \<in> set (playbook_executions (rt_execs s))" "ex_id r = x" "lease_owner_guard (Some owner) r" for r
    proof -
      have "ex_playbook_id r = pb" using loop st that by (intro loop_row(1)) (auto simp: state_ok_def)
      moreover have "is_gate defs pb g \<Longrightarrow> int g \<le> int ?k \<Longrightarrow> cleared defs (rt_approvals s) pb x ?l g" for g
        using facts(2) sk by (simp add: skips_def)
      ultimately show ?thesis using that facts(1) wait by (auto simp: run_ok_def set_progress_def not_waiting_def)
    qed
    have more: "step_already_skipped_in_log (ex_steps_log (?f r)) (int g)"
      if "r \<in> set (playbook_executions (rt_execs s))" "ex_id r = x" "is_gate defs pb g"
        "step_already_skipped_in_log (ex_steps_log r) (int g)" for r g
      using loop_row(2) [OF loop _ that(1,2,3)] st that(4) facts(3) [OF that(3)] by (simp add: state_ok_def set_progress_def)
    have st': "state_ok defs t" using st upd wr row by (rule write_row(1))
    have calls': "calls_ok defs x pb l0 t"
      unfolding calls_ok_def
    proof
      fix c assume "c \<in> set (calls t)"
      then have "call_ok defs x pb l0 s c"
        using calls on_execs_frame [OF upd] by (simp add: calls_ok_def calls_def)
      then show "call_ok defs x pb l0 t c"
        using st upd wr by (rule call_ok_write) (assumption, simp add: set_progress_def, erule (2) row, erule (3) more)
    qed
    have loop': "loop_ok defs x pb l0 (ls\<lparr>lp_index := nxt, lp_log := ?l, lp_last := Some (int ?k)\<rparr>) t"
      if "res = Inr (Some r1)" for r1
    proof -
      have "r1 \<in> set (playbook_executions (rt_execs t)) \<and> (\<exists>r \<in> set (playbook_executions (rt_execs s)).
          ex_id r = x \<and> lease_owner_guard (Some owner) r \<and> r1 = ?f r)"
        using st upd wr row that by (rule write_row(4))
      then obtain r0 where "r0 \<in> set (playbook_executions (rt_execs s))" "ex_id r0 = x" "r1 = ?f r0"
          "r1 \<in> set (playbook_executions (rt_execs t))" by blast
      then have "saved defs x pb ?l t" using loop_row(1) [OF loop _ _] st
        unfolding saved_def by (intro bexI [of _ r1]) (auto simp: set_progress_def state_ok_def)
      moreover have "rt_approvals t = rt_approvals s" using on_execs_frame [OF upd] by simp
      ultimately show ?thesis using loop facts(1,2) sk by (auto simp: loop_ok_def skips_def)
    qed
    show ?thesis using st' calls' loop' r s' by blast
  qed
qed

subsection \<open>Ends of a pass\<close>

definition good ::
  "definition_table \<Rightarrow> row_id \<Rightarrow> string \<Rightarrow> pyval list \<Rightarrow> ('w \<times> call list) runtime \<Rightarrow> bool" where
  "good defs x pb l0 s \<longleftrightarrow> state_ok defs s \<and> calls_ok defs x pb l0 s"

lemma good_quiet:
  assumes "good defs x pb l0 s" "\<And>c. calm c s s'"
  shows "good defs x pb l0 s'"
proof -
  have "e \<in> set (calls s)" if "e \<in> set (calls s')" for e
    using assms(2) [of "(fst e + 1, snd e)"] that by (cases e) (auto simp: calm_def)
  then show ?thesis
    using assms(1) state_ok_calm [OF _ assms(2)] call_ok_calm [OF _ assms(2)] by (auto simp: good_def calls_ok_def)
qed

lemma good_tables: "good defs x pb l0 s \<Longrightarrow> tables_ok s"
  by (simp add: good_def state_ok_def)

lemma good_runs:
  assumes "\<And>c. runs_calmly c (\<lambda>_. True) m" "good defs x pb l0 s" "m s = (r, s')"
  shows "good defs x pb l0 s'"
  using assms(2) runs_calmlyD(1) [OF assms(1) good_tables [OF assms(2)] assms(3)] by (rule good_quiet)

text \<open>A log that may be written with the last completed step.\<close>

definition log_ok ::
  "definition_table \<Rightarrow> approval_db \<Rightarrow> string \<Rightarrow> row_id \<Rightarrow> pyval list \<Rightarrow> int option \<Rightarrow> bool" where
  "log_ok defs a pb x l done \<longleftrightarrow> (\<forall>g. is_gate defs pb g \<longrightarrow> \<not> step_already_succeeded_in_log l (int g) \<and>
     (\<forall>c. done = Some c \<longrightarrow> int g \<le> c \<longrightarrow> cleared defs a pb x l g))"

lemma loop_log_ok: "loop_ok defs x pb l0 ls s \<Longrightarrow> log_ok defs (rt_approvals s) pb x (lp_log ls) (lp_last ls)"
  by (auto simp: loop_ok_def log_ok_def)

text \<open>A write of the execution's log, last completed step and status.\<close>

definition writes_log :: "(execution \<Rightarrow> bool) \<Rightarrow> pyval list \<Rightarrow> int option \<Rightarrow> (execution \<Rightarrow> execution) \<Rightarrow> bool" where
  "writes_log guard l done f \<longleftrightarrow> (\<forall>r. ex_id (f r) = ex_id r \<and> ex_playbook_id (f r) = ex_playbook_id r \<and>
     ex_steps_log (f r) = l \<and> ex_last_completed_step (f r) = done \<and> (guard r \<longrightarrow> exec_write r (f r)))"

lemma exec_update_None: "exec_update x guard f d = (Inr None, d') \<Longrightarrow> d' = d"
  by (auto simp: exec_update_def Let_def fetchone_None returning_empty update_where_none split: if_splits)

lemma write_keeps:
  assumes good: "good defs x pb l0 s" and saved: "saved defs x pb l1 s" and f: "writes_log guard l done f"
    and ok: "\<And>r. exec_active (f r) \<Longrightarrow> log_ok defs (rt_approvals s) pb x l done"
    and more: "\<And>g. is_gate defs pb g \<Longrightarrow> step_already_skipped_in_log l1 (int g) \<Longrightarrow> step_already_skipped_in_log l (int g)"
    and waits: "\<And>r. ex_status (f r) = EAwaiting \<Longrightarrow> \<exists>n. latest_gate_entry l = Some (int n) \<and>
      (\<forall>g < n. is_gate defs pb g \<longrightarrow> cleared defs (rt_approvals s) pb x l g)"
    and upd: "on_execs (exec_update x guard f) s = (res, t)"
  shows "good defs x pb l0 t"
    and "res = Inr (Some r1) \<Longrightarrow> r1 \<in> set (playbook_executions (rt_execs t)) \<and> ex_id r1 = x \<and> ex_playbook_id r1 = pb \<and>
      ex_steps_log r1 = l"
    and "res = Inr None \<Longrightarrow> t = s"
proof -
  have st: "state_ok defs s" and tab: "tables_ok s" using good by (auto simp: good_def state_ok_def)
  have f': "ex_id (f r) = ex_id r" "ex_playbook_id (f r) = ex_playbook_id r" "ex_steps_log (f r) = l"
      "ex_last_completed_step (f r) = done" "guard r \<Longrightarrow> exec_write r (f r)" for r
    using f by (auto simp: writes_log_def)
  have pb: "ex_playbook_id r = pb" "\<And>g. is_gate defs pb g \<Longrightarrow>
        step_already_skipped_in_log l1 (int g) = step_already_skipped_in_log (ex_steps_log r) (int g)"
    if r: "r \<in> set (playbook_executions (rt_execs s))" "ex_id r = x" for r
  proof -
    obtain r' where r': "r' \<in> set (playbook_executions (rt_execs s))" "ex_id r' = x" "ex_playbook_id r' = pb"
        "\<forall>g. is_gate defs pb g \<longrightarrow>
          step_already_skipped_in_log l1 (int g) = step_already_skipped_in_log (ex_steps_log r') (int g)"
      using saved by (auto simp: saved_def)
    then have "r = r'" using same_row [OF tab r(1)] r(2) by metis
    then show "ex_playbook_id r = pb" "\<And>g. is_gate defs pb g \<Longrightarrow>
        step_already_skipped_in_log l1 (int g) = step_already_skipped_in_log (ex_steps_log r) (int g)"
      using r' by auto
  qed
  have row: "run_ok defs (rt_approvals s) (f r)"
    if "r \<in> set (playbook_executions (rt_execs s))" "ex_id r = x" "guard r" for r
    using pb(1) [OF that(1,2)] that(2) ok [of r] waits [of r] by (auto simp: run_ok_def log_ok_def f')
  have logs: "step_already_skipped_in_log (ex_steps_log (f r)) (int g)"
    if "r \<in> set (playbook_executions (rt_execs s))" "ex_id r = x" "is_gate defs pb g"
      "step_already_skipped_in_log (ex_steps_log r) (int g)" for r g
    using pb(2) [OF that(1-3)] that(4) more [OF that(3)] by (simp add: f')
  have "state_ok defs t" using st upd f'(5) row by (rule write_row(1))
  moreover have "call_ok defs x pb l0 t c'" if "c' \<in> set (calls t)" for c'
  proof -
    have "call_ok defs x pb l0 s c'"
      using good that on_execs_frame [OF upd] by (simp add: good_def calls_ok_def calls_def)
    then show ?thesis
      using st upd f'(5) by (rule call_ok_write) (assumption, simp add: f', erule (2) row, erule (3) logs)
  qed
  ultimately show "good defs x pb l0 t" by (simp add: good_def calls_ok_def)
  show "r1 \<in> set (playbook_executions (rt_execs t)) \<and> ex_id r1 = x \<and> ex_playbook_id r1 = pb \<and> ex_steps_log r1 = l"
    if "res = Inr (Some r1)"
  proof -
    have "r1 \<in> set (playbook_executions (rt_execs t)) \<and>
        (\<exists>r \<in> set (playbook_executions (rt_execs s)). ex_id r = x \<and> guard r \<and> r1 = f r)"
      using st upd f'(5) row that by (rule write_row(4))
    then show ?thesis using pb(1) f' by metis
  qed
  show "t = s" if "res = Inr None"
  proof -
    have "rt_execs t = rt_execs s" using on_execs_frame [OF upd] that exec_update_None by blast
    then show ?thesis using upd by (auto simp: on_execs_def split: prod.splits)
  qed
qed

lemma writes_log_finish: "writes_log guard l done (finish st c l done)"
  by (simp add: writes_log_def ew_finish) (simp add: finish_def set_progress_def)

text \<open>The gate stops the run at its step.\<close>

lemma latest_gate_requested:
  "latest_gate_entry (l @ [PDict (approval_requested_entry fmt k i st rl step now)]) = Some (int k)"
  by (simp add: latest_gate_entry_def gate_index_def approval_requested_entry_def)

lemma gate_entry_no_status:
  "\<not> entry_is i ''success'' (PDict (approval_requested_entry fmt k j st rl step now))"
  "\<not> entry_is i ''skipped'' (PDict (approval_requested_entry fmt k j st rl step now))"
  by (simp_all add: entry_is_def approval_requested_entry_def)

lemma gate_entry_cleared:
  "cleared defs a pb x (l @ [PDict (approval_requested_entry fmt k j st rl step now)]) g = cleared defs a pb x l g"
  by (simp add: cleared_def gate_entry_no_status)

lemma gate_step_keeps:
  assumes good: "good defs x pb l0 s" and loop: "loop_ok defs x pb l0 ls s" and ex: "ex_id ex = x"
    and run: "gate_step (recording sv) ex prior owner now step ls s = (r, s')"
  shows "good defs x pb l0 s'"
proof -
  obtain r1 t where req: "gate_request (recording sv) x (lp_index ls) step s = (r1, t)" by fastforce
  have calm: "calm c s t" for c using calm_gate_request good_tables [OF good] req by (rule runs_calmlyD)
  have good_t: "good defs x pb l0 t" using good calm by (rule good_quiet)
  show ?thesis
  proof (cases r1)
    case (Inl e)
    with run req ex have "s' = t" by (simp add: gate_step_def)
    with good_t show ?thesis by simp
  next
    case (Inr request)
    let ?l = "lp_log ls @ [PDict (approval_requested_entry (sv_formats (recording sv)) (lp_index ls) (ar_id request)
      (approval_status_text (ar_status request)) (ar_risk_level request) step now)]"
    obtain res u where upd: "on_execs (exec_update x (lease_owner_guard (Some owner)) (finish EAwaiting None ?l (lp_last ls))) t
        = (res, u)" by fastforce
    have loop_t: "loop_ok defs x pb l0 ls t" using loop calm by (rule loop_ok_calm)
    have "good defs x pb l0 u"
    proof (rule write_keeps(1) [OF good_t _ writes_log_finish _ _ _ upd])
      show "saved defs x pb (lp_log ls) t" using loop_t by (simp add: loop_ok_def)
      show "log_ok defs (rt_approvals t) pb x ?l (lp_last ls)"
        using loop_log_ok [OF loop_t] by (simp add: log_ok_def gate_entry_cleared gate_entry_no_status)
      show "\<exists>n. latest_gate_entry ?l = Some (int n) \<and>
          (\<forall>g < n. is_gate defs pb g \<longrightarrow> cleared defs (rt_approvals t) pb x ?l g)"
        using loop_t by (intro exI [of _ "lp_index ls"]) (simp add: latest_gate_requested gate_entry_cleared loop_ok_def)
    qed simp
    moreover have "s' = u \<or> (\<exists>r2. release x owner u = (r2, s'))"
      using run req Inr upd ex
      by (auto simp: gate_step_def set_playbook_execution_awaiting_approval_def lost_lease_def Let_def py_return_def
          split: sum.splits option.splits prod.splits)
    ultimately show ?thesis using good_runs [OF calm_release] by blast
  qed
qed

text \<open>Rounds and the loop.\<close>

lemma not_gate:
  "definition_steps defs pb = Some steps \<Longrightarrow> \<not> is_action ''require_approval'' (steps ! k) \<Longrightarrow> \<not> is_gate defs pb k"
  by (simp add: is_gate_def)

lemma in_round:
  assumes good: "good defs x pb l0 s" and loop: "loop_ok defs x pb l0 ls s"
    and new: "\<not> step_already_succeeded_in_log (lp_log ls) (int (lp_index ls))"
    and calm: "calm (x, lp_index ls) s s'"
  shows "good defs x pb l0 s' \<and> loop_ok defs x pb l0 ls s'"
  using calls_in_round [OF loop new _ calm] state_ok_calm [OF _ calm] loop_ok_calm [OF loop calm] good
  by (auto simp: good_def calls_ok_def)

text \<open>A round at a step that ran, from the state in which the lease was extended.\<close>

lemma round_keeps:
  assumes good: "good defs x pb l0 s" and loop: "loop_ok defs x pb l0 ls s" and ex: "ex_id ex = x"
    and steps: "definition_steps defs pb = Some steps" "\<not> is_action ''require_approval'' (steps ! lp_index ls)"
    and new: "\<not> step_already_succeeded_in_log (lp_log ls) (int (lp_index ls))"
    and beat: "heartbeat_lease (recording sv) x owner now duration s = (Inr True, t)"
    and body: "calm (x, lp_index ls) t t'" and entry: "at_step (lp_index ls) entry"
    and sk: "skips (lp_index ls) nxt sk" and fail: "dict_get entry ''status'' \<noteq> PStr ''success'' \<Longrightarrow> sk = []"
    and run: "after_entry ex prior owner step lost ls entry sk nxt t' = (r, s')"
  shows "good defs x pb l0 s' \<and> (\<forall>ls'. r = Inr (Go ls') \<or> r = Inr (Break ls') \<longrightarrow> loop_ok defs x pb l0 ls' s')"
proof -
  have "calm (x, lp_index ls) s t" using calm_heartbeat good_tables [OF good] beat by (rule runs_calmlyD)
  then have st: "good defs x pb l0 t'" "loop_ok defs x pb l0 ls t'"
    using in_round [OF good loop new calm_trans [OF _ body]] by auto
  have "not_waiting x t'" using heartbeat_running [OF beat good_tables [OF good]] body by (rule not_waiting_calm)
  then show ?thesis
    using after_entry_keeps [OF _ st(2) _ _ ex not_gate [OF steps] entry sk fail run] st(1) by (auto simp: good_def)
qed

lemma run_step_keeps:
  assumes good: "good defs x pb l0 s" and loop: "loop_ok defs x pb l0 ls s" and ex: "ex_id ex = x"
    and steps: "definition_steps defs pb = Some steps"
    and run: "run_step (recording sv) ex prior owner duration now steps ls s = (Inr v, s')"
  shows "good defs x pb l0 s' \<and> (\<forall>ls'. v = Go ls' \<or> v = Break ls' \<longrightarrow> loop_ok defs x pb l0 ls' s')"
  using run
proof (cases rule: run_step_cases)
  case succeeded
  have no_gate: "\<not> is_gate defs pb (lp_index ls)" using succeeded(1) loop by (auto simp: loop_ok_def)
  have "loop_ok defs x pb l0 (ls\<lparr>lp_last := Some (int (lp_index ls)), lp_index := lp_index ls + 1\<rparr>) s"
    using loop no_gate by (auto simp: loop_ok_def less_Suc_eq le_less)
  with succeeded good show ?thesis by auto
next
  case skipped
  have "cleared defs (rt_approvals s) pb x (lp_log ls) (lp_index ls)" using skipped(2) by (simp add: cleared_def)
  then have "loop_ok defs x pb l0 (ls\<lparr>lp_index := lp_index ls + 1\<rparr>) s"
    using loop by (auto simp: loop_ok_def less_Suc_eq)
  with skipped good show ?thesis by auto
next
  case lost
  have "good defs x pb l0 s'" using calm_heartbeat good lost(1) by (rule good_runs)
  with lost show ?thesis by (simp add: lost_lease_def)
next
  case (gate t)
  have calm: "calm c s t" for c using calm_heartbeat good_tables [OF good] gate(1) by (rule runs_calmlyD)
  have "good defs x pb l0 s'"
    using good_quiet [OF good calm] loop_ok_calm [OF loop calm] ex gate(3) by (rule gate_step_keeps)
  with gate_step_not_Go [OF gate(3)] show ?thesis by auto
next
  case (branch t entry sk nxt lost)
  note sk = branch_step_skips [OF branch(4)]
  have "calm (x, lp_index ls) t t"
    using runs_calmlyD(1) [OF calm_heartbeat good_tables [OF good]] branch(1) ex by (metis calm_refl calm_tables)
  with round_keeps [OF good loop ex steps branch(3,2) branch(1) [unfolded ex] _ _ _ _ branch(5)] sk show ?thesis by auto
next
  case (trigger t t' entry lost)
  have "calm c s t" for c
    using runs_calmlyD(1) [OF calm_heartbeat good_tables [OF good]] trigger(1) by blast
  then have "tables_ok t" by (rule calm_tables)
  from runs_calmlyD [OF calm_trigger_entry this trigger(4)] ex
  have "calm (x, lp_index ls) t t'" "at_step (lp_index ls) entry" by auto
  with round_keeps [OF good loop ex steps trigger(3,2) trigger(1) [unfolded ex] _ _ _ _ trigger(5)] show ?thesis by auto
next
  case (enrich t t' entry lost)
  have "calm c s t" for c
    using runs_calmlyD(1) [OF calm_heartbeat good_tables [OF good]] enrich(1) by blast
  then have "tables_ok t" by (rule calm_tables)
  from runs_calmlyD [OF calm_enrich_entry this enrich(4)] ex
  have "calm (x, lp_index ls) t t'" "at_step (lp_index ls) entry" by auto
  with round_keeps [OF good loop ex steps enrich(3,2) enrich(1) [unfolded ex] _ _ _ _ enrich(5)] show ?thesis by auto
next
  case (plain t t' entry lost)
  have "calm c s t" for c
    using runs_calmlyD(1) [OF calm_heartbeat good_tables [OF good]] plain(1) by blast
  then have "tables_ok t" by (rule calm_tables)
  from runs_calmlyD [OF calm_plain_entry this plain(4)] ex
  have "calm (x, lp_index ls) t t'" "at_step (lp_index ls) entry" by auto
  with round_keeps [OF good loop ex steps plain(3,2) plain(1) [unfolded ex] _ _ _ _ plain(5)] show ?thesis by auto
qed

text \<open>The same when the round ends with an exception.\<close>

lemma py_bind_Inl:
  "py_bind m f s = (Inl e, s') \<longleftrightarrow> m s = (Inl e, s') \<or> (\<exists>a t. m s = (Inr a, t) \<and> f a t = (Inl e, s'))"
  by (auto split: prod.splits sum.splits)

lemma py_bind_known: "m s = (Inr a, t) \<Longrightarrow> py_bind m f s = f a t"
  by simp

lemma run_step_error:
  assumes good: "good defs x pb l0 s" and loop: "loop_ok defs x pb l0 ls s" and ex: "ex_id ex = x"
    and steps: "definition_steps defs pb = Some steps"
    and run: "run_step (recording sv) ex prior owner duration now steps ls s = (Inl e, s')"
  shows "good defs x pb l0 s'"
proof -
  let ?k = "lp_index ls" and ?d = "dict_or_empty (steps ! lp_index ls)"
  have new: "\<not> step_already_succeeded_in_log (lp_log ls) (int ?k)"
    and old: "\<not> step_already_skipped_in_log (lp_log ls) (int ?k)"
    using run by (auto simp: run_step_def Let_def py_return_def split: if_splits)
  obtain h t where h: "heartbeat_lease (recording sv) x owner now duration s = (h, t)" by fastforce
  have good_t: "good defs x pb l0 t" using calm_heartbeat good h by (rule good_runs)
  have st: "calm c s t" for c using calm_heartbeat good_tables [OF good] h by (rule runs_calmlyD)
  show ?thesis
  proof (cases "h = Inr True")
    case False
    then have "s' = t"
      using run new old h ex by (cases h) (auto simp: run_step_def Let_def split: if_splits)
    with good_t show ?thesis by simp
  next
    case True
    note beat = h [unfolded True]
    have body: "good defs x pb l0 s'" if g: "\<not> is_action ''require_approval'' (steps ! ?k)"
      and m: "runs_calmly (x, ?k) (at_step ?k) m"
      and "py_bind m (\<lambda>entry. after_entry ex prior owner (steps ! ?k) lost ls entry [] (Suc ?k)) t = (Inl e, s')" for m lost
      using that(3) unfolding py_bind_Inl
    proof (elim disjE exE conjE)
      assume "m t = (Inl e, s')"
      from in_round [OF good loop new calm_trans [OF st runs_calmlyD(1) [OF m calm_tables [OF st] this]]]
      show ?thesis by simp
    next
      fix entry t' assume mt: "m t = (Inr entry, t')"
        and after: "after_entry ex prior owner (steps ! ?k) lost ls entry [] (Suc ?k) t' = (Inl e, s')"
      note calm = runs_calmlyD [OF m calm_tables [OF st] mt]
      show ?thesis using round_keeps [OF good loop ex steps g new beat calm skips_none _ after] by simp
    qed
    have jump: "good defs x pb l0 s'" if g: "\<not> is_action ''require_approval'' (steps ! ?k)"
      and "py_bind (py_lift (execute_branch_step (recording sv) ?d ?k steps (lp_log ls) ex now))
        (\<lambda>(entry, sk, nxt). after_entry ex prior owner (steps ! ?k) lost ls entry sk nxt) t = (Inl e, s')" for lost
      using that(2) unfolding py_bind_Inl
    proof (elim disjE exE conjE)
      assume "py_lift (execute_branch_step (recording sv) ?d ?k steps (lp_log ls) ex now) t = (Inl e, s')"
      with good_t show ?thesis by simp
    next
      fix a t' assume "py_lift (execute_branch_step (recording sv) ?d ?k steps (lp_log ls) ex now) t = (Inr a, t')"
        and "(case a of (entry, sk, nxt) \<Rightarrow> after_entry ex prior owner (steps ! ?k) lost ls entry sk nxt) t' = (Inl e, s')"
      then obtain entry sk nxt where b: "execute_branch_step (recording sv) ?d ?k steps (lp_log ls) ex now = Inr (entry, sk, nxt)"
        and after: "after_entry ex prior owner (steps ! ?k) lost ls entry sk nxt t = (Inl e, s')"
        by (cases a) (auto dest: sym)
      note sk = branch_step_skips [OF b]
      show ?thesis
        using round_keeps [OF good loop ex steps g new beat calm_refl [OF calm_tables [OF st]] _ _ _ after] sk by auto
    qed
    note rest = run [unfolded run_step_def Let_def]
      and known = py_bind_known [where m = "heartbeat_lease (recording sv) x owner now duration" and s = s, OF beat]
    show ?thesis
    proof (cases "is_action ''require_approval'' (steps ! ?k)")
      case gate: True
      then have "gate_step (recording sv) ex prior owner now ?d ls t = (Inl e, s')"
        using rest new old beat ex by simp
      with good_t loop_ok_calm [OF loop st] ex show ?thesis by (rule gate_step_keeps)
    next
      case no_gate: False
      note body = body [OF no_gate] and jump = jump [OF no_gate]
      consider "is_action ''branch'' (steps ! ?k)"
        | "\<not> is_action ''branch'' (steps ! ?k)" "is_action ''trigger_playbook'' (steps ! ?k)"
        | "\<not> is_action ''branch'' (steps ! ?k)" "\<not> is_action ''trigger_playbook'' (steps ! ?k)"
            "is_action ''enrich_context'' (steps ! ?k)"
        | "\<not> is_action ''branch'' (steps ! ?k)" "\<not> is_action ''trigger_playbook'' (steps ! ?k)"
            "\<not> is_action ''enrich_context'' (steps ! ?k)"
        by argo
      then show ?thesis
      proof cases
        case 1
        with rest new old ex no_gate show ?thesis by (intro jump) (simp add: known del: py_bind.simps)
      next
        case 2
        with rest new old ex no_gate show ?thesis by (intro body [OF calm_trigger_entry [of ex, unfolded ex]]) (simp add: known del: py_bind.simps)
      next
        case 3
        with rest new old ex no_gate show ?thesis by (intro body [OF calm_enrich_entry]) (simp add: known del: py_bind.simps)
      next
        case 4
        with rest new old ex no_gate show ?thesis by (intro body [OF calm_plain_entry [of ex, unfolded ex]]) (simp add: known del: py_bind.simps)
      qed
    qed
  qed
qed

lemma run_steps_keeps:
  assumes "good defs x pb l0 s" "loop_ok defs x pb l0 ls s" "ex_id ex = x" "definition_steps defs pb = Some steps"
    "run_steps (recording sv) ex prior owner duration now steps ls s = (r, s')"
  shows "good defs x pb l0 s' \<and> (\<forall>ls'. r = Inr (Inr ls') \<longrightarrow> loop_ok defs x pb l0 ls' s')"
  using assms
proof (induction "recording sv" ex prior owner duration now steps ls s arbitrary: r s' rule: run_steps.induct)
  case (1 ex prior owner duration now steps ls s)
  note prems = "1.prems"
  show ?case
  proof (cases "lp_index ls < length steps")
    case False
    with prems show ?thesis by (auto simp: run_steps.simps)
  next
    case True
    obtain r1 s1 where step: "run_step (recording sv) ex prior owner duration now steps ls s = (r1, s1)" by fastforce
    note unf = prems(5) [unfolded run_steps.simps [of "recording sv" ex prior owner duration now steps ls s]]
    show ?thesis
    proof (cases r1)
      case (Inl e)
      with step have "good defs x pb l0 s1" using run_step_error [OF prems(1-4)] by simp
      with unf True step Inl show ?thesis by auto
    next
      case (Inr v)
      have kept: "good defs x pb l0 s1" "\<And>ls'. v = Go ls' \<or> v = Break ls' \<Longrightarrow> loop_ok defs x pb l0 ls' s1"
        using run_step_keeps [OF prems(1-4)] step Inr by blast+
      show ?thesis
      proof (cases v)
        case (Go ls1)
        with unf True step Inr have rest: "run_steps (recording sv) ex prior owner duration now steps ls1 s1 = (r, s')"
          by simp
        show ?thesis
          using True step Inr Go kept(1) kept(2) [of ls1] prems(3,4) rest
          by (intro "1.hyps") auto
      qed (use unf True step Inr kept in auto)
    qed
  qed
qed

subsection \<open>Passes\<close>

lemma finalize_keeps:
  assumes good: "good defs x pb l0 s" and saved: "saved defs x pb l1 s"
    and more: "\<And>g. is_gate defs pb g \<Longrightarrow> step_already_skipped_in_log l1 (int g) \<Longrightarrow> step_already_skipped_in_log l (int g)"
  shows "finalize_success sv x owner l done now s = (r, s') \<Longrightarrow> good defs x pb l0 s'"
    and "finalize_failed sv x owner l done now s = (r, s') \<Longrightarrow> good defs x pb l0 s'"
    and "finalize_not_actioned sv x owner l done now s = (r, s') \<Longrightarrow> good defs x pb l0 s'"
proof -
  have end_run: "good defs x pb l0 t" "res = Inr None \<Longrightarrow> t = s"
    if "on_execs (exec_update x guard (finish st c l done)) s = (res, t)" "st \<in> {ESuccess, EFailed, ENotActioned}" for guard st c res t
    using write_keeps(1,3) [OF good saved writes_log_finish _ more _ that(1)] that(2)
    by (auto simp: finish_def set_progress_def exec_active_def)
  have either: "good defs x pb l0 t"
    if "finish_or_waiting fw x owner s = (res, t)" "st \<in> {ESuccess, EFailed, ENotActioned}"
      "\<And>w. fw w = exec_update x (lease_owner_guard w) (finish st c l done)" for fw st c res t
  proof -
    note first = that(1)
    obtain res1 s1 where one: "on_execs (fw (Some owner)) s = (res1, s1)" by fastforce
    note one' = end_run [OF one [unfolded that(3)] that(2)]
    consider "t = s1" | "res1 = Inr None" "on_execs (fw None) s1 = (res, t)"
      using first one
      by (auto simp: finish_or_waiting_def split: sum.splits option.splits if_splits)
    then show ?thesis
    proof cases
      case 2
      then show ?thesis using one'(2) end_run(1) [of "lease_owner_guard None" st c] that(2) by (simp add: that(3))
    qed (use one'(1) in simp)
  qed
  show "good defs x pb l0 s'" if "finalize_success sv x owner l done now s = (r, s')"
  proof -
    obtain res t where one: "on_execs (set_playbook_execution_success (sv_clock sv) x l done (Some now) (Some owner)) s
        = (res, t)" by fastforce
    note one' = end_run [OF one [unfolded set_playbook_execution_success_def]]
    have "s' = t \<or> (\<exists>r. release x owner t = (r, s'))"
      using that one by (auto simp: finalize_success_def split: sum.splits option.splits)
    then show ?thesis using one'(1) good_runs [OF calm_release] by auto
  qed
  show "good defs x pb l0 s'" if "finalize_not_actioned sv x owner l done now s = (r, s')"
  proof -
    obtain res t where one: "finish_or_waiting (set_playbook_execution_not_actioned (sv_clock sv) x l done (Some now)) x owner s
        = (res, t)" by fastforce
    have g: "good defs x pb l0 t" using one by (rule either) (simp_all add: set_playbook_execution_not_actioned_def)
    have "s' = t \<or> (\<exists>r. release x owner t = (r, s'))"
      using that one by (auto simp: finalize_not_actioned_def split: sum.splits option.splits)
    then show ?thesis using g good_runs [OF calm_release] by auto
  qed
  show "good defs x pb l0 s'" if "finalize_failed sv x owner l done now s = (r, s')"
  proof -
    obtain res t where one: "finish_or_waiting (set_playbook_execution_failed (sv_clock sv) x l done (Some now)) x owner s
        = (res, t)" by fastforce
    have g: "good defs x pb l0 t" using one by (rule either) (simp_all add: set_playbook_execution_failed_def)
    show ?thesis
    proof (cases res)
      case (Inr u)
      show ?thesis
      proof (cases u)
        case (Some r0)
        obtain c s2 where cap: "capture_failed_execution_dead_letter sv r0 l done now t = (c, s2)" by fastforce
        have g2: "good defs x pb l0 s2" using calm_capture g cap by (rule good_runs)
        have "s' = s2 \<or> (\<exists>r. release x owner s2 = (r, s'))"
          using that one Inr Some cap by (auto simp: finalize_failed_def py_lift_def split: sum.splits if_splits)
        then show ?thesis using g2 good_runs [OF calm_release] by auto
      qed (use that one Inr g in \<open>auto simp: finalize_failed_def\<close>)
    qed (use that one g in \<open>auto simp: finalize_failed_def\<close>)
  qed
qed

lemma process_steps_keeps:
  assumes good: "good defs x pb l0 s" and ex: "ex_id ex = x" and steps: "definition_steps defs pb = Some steps"
    and loop: "loop_ok defs x pb l0 \<lparr>lp_index = k, lp_log = l, lp_last = done, lp_failed = False, lp_message = PNone\<rparr> s"
    and run: "process_steps (recording sv) ex steps now prior k l done owner duration s = (r, s')"
  shows "good defs x pb l0 s'"
proof -
  obtain r1 t where rs: "run_steps (recording sv) ex prior owner duration now steps
      \<lparr>lp_index = k, lp_log = l, lp_last = done, lp_failed = False, lp_message = PNone\<rparr> s = (r1, t)" by fastforce
  note kept = run_steps_keeps [OF good loop ex steps rs]
  show ?thesis
  proof (cases "\<exists>ls. r1 = Inr (Inr ls)")
    case True
    then obtain ls where ls: "r1 = Inr (Inr ls)" by blast
    then have l: "loop_ok defs x pb l0 ls t" using kept by blast
    note fin = finalize_keeps [OF conjunct1 [OF kept]]
    have "saved defs x pb (lp_log ls) t" using l by (simp add: loop_ok_def)
    note fin = fin [OF this]
    consider r2 where "finalize_failed (recording sv) x owner (lp_log ls) (lp_last ls) now t = (r2, s')"
      | r2 where "finalize_success (recording sv) x owner (lp_log ls) (lp_last ls) now t = (r2, s')"
      using run rs ls ex by (auto simp: process_steps_def py_return_def split: sum.splits if_splits prod.splits)
    then show ?thesis using fin by cases auto
  next
    case False
    with run rs have "s' = t" by (auto simp: process_steps_def py_return_def split: sum.splits)
    with kept show ?thesis by blast
  qed
qed

text \<open>What the table says of an execution found in it.\<close>

lemma found_row:
  assumes "state_ok defs s" "get_playbook_execution x (rt_execs s) = Some ex"
  shows "ex \<in> set (playbook_executions (rt_execs s))" "ex_id ex = x" "run_ok defs (rt_approvals s) ex"
  using assms select_id_Some [of ex_id x "playbook_executions (rt_execs s)" ex]
  by (auto simp: get_playbook_execution_def state_ok_def)

lemma row_saved:
  "ex \<in> set (playbook_executions (rt_execs s)) \<Longrightarrow> saved defs (ex_id ex) (ex_playbook_id ex) (ex_steps_log ex) s"
  by (auto simp: saved_def)

lemma row_log_ok: "run_ok defs a ex \<Longrightarrow> exec_active ex \<Longrightarrow>
    log_ok defs a (ex_playbook_id ex) (ex_id ex) (ex_steps_log ex) (ex_last_completed_step ex)"
  by (auto simp: run_ok_def log_ok_def)

lemma loop_start:
  assumes "log_ok defs (rt_approvals s) pb x l done" "saved defs x pb l s" "set l0 \<subseteq> set l"
    "\<And>g. g < k \<Longrightarrow> is_gate defs pb g \<Longrightarrow> cleared defs (rt_approvals s) pb x l g"
  shows "loop_ok defs x pb l0 \<lparr>lp_index = k, lp_log = l, lp_last = done, lp_failed = False, lp_message = PNone\<rparr> s"
  using assms by (simp add: loop_ok_def log_ok_def)

lemma no_gates: "definition_steps defs pb = None \<Longrightarrow> \<not> is_gate defs pb g"
  by (simp add: is_gate_def)

lemma process_running_keeps:
  assumes good: "good defs (ex_id ex) (ex_playbook_id ex) (ex_steps_log ex) s"
    and row: "ex \<in> set (playbook_executions (rt_execs s))" and defs: "sv_definitions sv = defs"
    and active: "exec_active ex"
    and run: "process_running_execution (recording sv) ex now prior owner duration s = (r, s')"
  shows "good defs (ex_id ex) (ex_playbook_id ex) (ex_steps_log ex) s'"
proof -
  let ?x = "ex_id ex" and ?pb = "ex_playbook_id ex"
  have ok: "log_ok defs (rt_approvals s) ?pb ?x (ex_steps_log ex) (ex_last_completed_step ex)"
    using good row active by (intro row_log_ok) (auto simp: good_def state_ok_def)
  show ?thesis
  proof (cases "definition_steps defs ?pb")
    case None
    have "\<exists>m c z res. fail_run (recording sv) ex prior owner now m c z s = (res, s')"
      using run None
      by (fastforce simp: process_running_execution_def definition_steps_def defs split: option.splits pyval.splits)
    then obtain m c z res where "fail_run (recording sv) ex prior owner now m c z s = (res, s')" by blast
    then obtain res1 where fin: "finalize_failed (recording sv) ?x owner
        [PDict (failure_entry (sv_formats (recording sv)) None PNone m c now [])] None now s = (res1, s')"
      by (auto simp: fail_run_def split: prod.splits sum.splits)
    from finalize_keeps(2) [OF good row_saved [OF row] _ fin] show ?thesis by (simp add: no_gates [OF None])
  next
    case (Some steps)
    obtain k l dn where k: "resume_progress ex = (k, l, dn)" by (cases "resume_progress ex") auto
    then have l: "l = ex_steps_log ex" "\<And>g. g < k \<Longrightarrow> \<exists>c. ex_last_completed_step ex = Some c \<and> int g \<le> c"
      and dn: "dn = ex_last_completed_step ex \<or> dn = None"
      by (auto simp: resume_progress_def split: option.splits if_splits)
    have "log_ok defs (rt_approvals s) ?pb ?x l dn" using dn ok by (elim disjE) (simp_all add: log_ok_def l(1))
    moreover have "cleared defs (rt_approvals s) ?pb ?x l g" if "g < min k (length steps)" "is_gate defs ?pb g" for g
      using ok l that by (fastforce simp: log_ok_def)
    ultimately have loop: "loop_ok defs ?x ?pb (ex_steps_log ex) \<lparr>lp_index = min k (length steps), lp_log = l,
        lp_last = dn, lp_failed = False, lp_message = PNone\<rparr> s"
      using row_saved [OF row] l(1) by (intro loop_start) auto
    have "process_steps (recording sv) ex steps now prior (min k (length steps)) l dn owner duration s = (r, s')"
      using run Some k by (auto simp: process_running_execution_def definition_steps_def defs split: option.splits pyval.splits)
    with good refl Some loop show ?thesis by (rule process_steps_keeps)
  qed
qed

text \<open>The entry of a decision is neither a success nor a skip.\<close>

lemma note_decision_log:
  assumes "status \<noteq> ''success''" "status \<noteq> ''skipped''"
  shows "step_already_succeeded_in_log (note_decision fmt g q status ev m now l) i = step_already_succeeded_in_log l i"
    and "step_already_skipped_in_log (note_decision fmt g q status ev m now l) i = step_already_skipped_in_log l i"
    and "set l \<subseteq> set (note_decision fmt g q status ev m now l)"
  using assms by (auto simp: note_decision_def approval_decision_entry_def entry_is_def)

lemma log_ok_same:
  assumes "log_ok defs a pb x l done"
    and "\<And>i. step_already_succeeded_in_log l' i \<Longrightarrow> step_already_succeeded_in_log l i"
    and "\<And>i. step_already_skipped_in_log l i \<Longrightarrow> step_already_skipped_in_log l' i"
  shows "log_ok defs a pb x l' done"
  using assms unfolding log_ok_def cleared_def by blast

lemma failure_entry_no_status:
  "\<not> entry_is i ''success'' (PDict (failure_entry fmt g a m code now out))"
  "\<not> entry_is i ''skipped'' (PDict (failure_entry fmt g a m code now out))"
  by (auto simp: entry_is_def failure_entry_def Let_def)

lemma fail_awaiting_keeps:
  assumes good: "good defs (ex_id ex) (ex_playbook_id ex) l0 s" and row: "ex \<in> set (playbook_executions (rt_execs s))"
    and same: "\<And>i. step_already_succeeded_in_log l i = step_already_succeeded_in_log (ex_steps_log ex) i"
      "\<And>i. step_already_skipped_in_log l i = step_already_skipped_in_log (ex_steps_log ex) i"
    and run: "fail_awaiting_execution sv ex l g code m now owner s = (r, s')"
  shows "good defs (ex_id ex) (ex_playbook_id ex) l0 s'"
proof -
  let ?l = "l @ [PDict (failure_entry (sv_formats sv) g (PStr ''require_approval'') m code now [])]"
  obtain r1 where "finalize_failed sv (ex_id ex) owner ?l (ex_last_completed_step ex) now s = (r1, s')"
    using run by (auto simp: fail_awaiting_execution_def split: prod.splits sum.splits)
  then show ?thesis
    using finalize_keeps(2) [OF good row_saved [OF row], of ?l sv owner "ex_last_completed_step ex" now r1 s'] by (simp add: same)
qed

text \<open>The request found is a row of the table afterwards.\<close>

lemma latest_request_row:
  assumes "approval_inv a" "get_latest_playbook_step_approval_request clk x g True now a = (Inr (Some q), a')"
  shows "q \<in> set (approval_requests a') \<and> ar_playbook_execution_id q = Some x \<and> ar_playbook_step_index q = Some g"
proof -
  let ?t = "filter (\<lambda>r. ar_playbook_execution_id r = Some x \<and> ar_playbook_step_index r = Some g) (approval_requests a)"
  obtain row where row: "fetchone (newest_first ?t) = Some row"
    using assms(2) by (auto simp: get_latest_playbook_step_approval_request_def Let_def split: option.splits)
  have mem: "row \<in> set (approval_requests a)" "ar_playbook_execution_id row = Some x" "ar_playbook_step_index row = Some g"
    using fetchone_mem [OF row] by (auto simp: newest_first_def)
  show ?thesis
  proof (cases "ar_status row = APending \<and> ar_expires_at row \<le> coalesce now (utc_now clk)")
    case True
    then have "q = set_expired (coalesce now (utc_now clk)) row" "set_expired (coalesce now (utc_now clk)) row \<in>
        set (approval_requests a')"
      using assms(2) row materialize_expiration_eq [OF assms(1) mem(1)] mem(1)
      by (auto simp: get_latest_playbook_step_approval_request_def Let_def decide_def set_update_where)
    with mem show ?thesis by (simp add: set_expired_def)
  next
    case False
    with assms(2) row mem show ?thesis
      by (auto simp: get_latest_playbook_step_approval_request_def Let_def split: if_splits)
  qed
qed

lemma latest_request_released:
  assumes "good defs x pb l0 s"
    and "on_approvals (get_latest_playbook_step_approval_request clk x (int g) True now) s = (Inr (Some q), t)"
    and "ar_status q = AApproved \<or> ar_status q \<in> {ADenied, AExpired} \<and>
      gate_behavior (definition_steps defs pb) (int g) (ar_status q) = PStr ''branch''"
  shows "released defs (rt_approvals t) pb x g"
proof -
  have "get_latest_playbook_step_approval_request clk x (int g) True now (rt_approvals s) = (Inr (Some q), rt_approvals t)"
    using assms(2) by (auto simp: on_approvals_def split: prod.splits)
  from latest_request_row [OF _ this] assms(1,3) show ?thesis
    unfolding released_def good_def state_ok_def tables_ok_def by blast
qed

text \<open>The run goes on behind a gate that lets it pass.\<close>

lemma resume_keeps:
  assumes good: "good defs (ex_id ex) (ex_playbook_id ex) l0 s" and row: "ex \<in> set (playbook_executions (rt_execs s))"
    and l0: "set l0 \<subseteq> set l"
    and same: "\<And>i. step_already_succeeded_in_log l i = step_already_succeeded_in_log (ex_steps_log ex) i"
      "\<And>i. step_already_skipped_in_log l i = step_already_skipped_in_log (ex_steps_log ex) i"
    and pass: "\<And>g. g \<le> n \<Longrightarrow> is_gate defs (ex_playbook_id ex) g \<Longrightarrow>
      cleared defs (rt_approvals s) (ex_playbook_id ex) (ex_id ex) l g"
    and body: "\<And>r1 t r s'. ex_id r1 = ex_id ex \<Longrightarrow> body r1 t = (r, s') \<Longrightarrow>
      good defs (ex_id ex) (ex_playbook_id ex) l0 t \<Longrightarrow>
      loop_ok defs (ex_id ex) (ex_playbook_id ex) l0 \<lparr>lp_index = Suc n, lp_log = l, lp_last = Some (int n),
        lp_failed = False, lp_message = PNone\<rparr> t \<Longrightarrow> r1 \<in> set (playbook_executions (rt_execs t)) \<Longrightarrow>
      ex_playbook_id r1 = ex_playbook_id ex \<Longrightarrow> ex_steps_log r1 = l \<Longrightarrow>
      good defs (ex_id ex) (ex_playbook_id ex) l0 s'"
    and waits: "ex_status ex = EAwaiting"
    and run: "lease_for_resume sv ex owner l (int n) duration now m body s = (r, s')"
  shows "good defs (ex_id ex) (ex_playbook_id ex) l0 s'"
proof -
  let ?x = "ex_id ex" and ?pb = "ex_playbook_id ex"
  obtain res t where acq: "on_execs (acquire_awaiting_approval_resume_lease (sv_clock sv) ?x (Some owner) l
      (Some (int n)) duration (Some now)) s = (res, t)" by fastforce
  have "run_ok defs (rt_approvals s) ex" using good row by (simp add: good_def state_ok_def)
  then have ok: "log_ok defs (rt_approvals s) ?pb ?x l (Some (int n))"
    using pass same(1) waits by (simp add: run_ok_def log_ok_def exec_active_def)
  have "acquire_awaiting_approval_resume_lease (sv_clock sv) ?x (Some owner) l (Some (int n)) duration (Some now) (rt_execs s)
      = (res, rt_execs t)" and frame: "t = s\<lparr>rt_execs := rt_execs t\<rparr>"
    using acq by (auto simp: on_execs_def split: prod.splits)
  then have cases: "rt_execs t = rt_execs s \<and> (\<forall>r1. res \<noteq> Inr (Some r1)) \<or>
      (\<exists>w. exec_update ?x (\<lambda>r. ex_status r = EAwaiting) (\<lambda>r. (set_progress l (Some (int n))
         (take_lease w now duration r))\<lparr>ex_completed_at := None\<rparr>) (rt_execs s) = (res, rt_execs t))"
    by (auto simp: acquire_awaiting_approval_resume_lease_def lock_and_lease_def Let_def
        split: sum.splits option.splits if_splits)
  have lift: "on_execs m s = (res, t)" if "m (rt_execs s) = (res, rt_execs t)" for m :: "(exec_db, execution option) py"
    using that frame by (simp add: on_execs_def)
  consider (unchanged) "t = s" "\<And>r1. res \<noteq> Inr (Some r1)"
    | (saves) w where "on_execs (exec_update ?x (\<lambda>r. ex_status r = EAwaiting)
        (\<lambda>r. (set_progress l (Some (int n)) (take_lease w now duration r))\<lparr>ex_completed_at := None\<rparr>)) s = (res, t)"
    using cases
  proof (elim disjE exE conjE)
    assume "rt_execs t = rt_execs s" "\<forall>r1. res \<noteq> Inr (Some r1)"
    with frame show thesis by (intro that(1)) auto
  qed (rule that(2), rule lift)
  then show ?thesis
  proof cases
    case unchanged
    then have "s' = s" using run acq by (auto simp: lease_for_resume_def split: sum.splits option.splits)
    with good show ?thesis by simp
  next
    case (saves w)
    have f: "writes_log (\<lambda>r. ex_status r = EAwaiting) l (Some (int n))
        (\<lambda>r. (set_progress l (Some (int n)) (take_lease w now duration r))\<lparr>ex_completed_at := None\<rparr>)"
      by (auto simp: writes_log_def intro: ew_step es_resume_lease) (auto simp: exec_updates)
    note kept = write_keeps [OF good row_saved [OF row] f ok _ _ saves]
    have good_t: "good defs ?x ?pb l0 t" by (rule kept(1)) (simp_all add: same exec_updates)
    show ?thesis
    proof (cases "\<exists>r1. res = Inr (Some r1)")
      case False
      then have "s' = t" using run acq by (auto simp: lease_for_resume_def split: sum.splits option.splits)
      with good_t show ?thesis by simp
    next
      case True
      then obtain r1 where r1: "res = Inr (Some r1)" by blast
      have "r1 \<in> set (playbook_executions (rt_execs t)) \<and> ex_id r1 = ?x \<and> ex_playbook_id r1 = ?pb \<and> ex_steps_log r1 = l"
        by (rule kept(2)) (simp_all add: same exec_updates r1)
      then have r: "r1 \<in> set (playbook_executions (rt_execs t))" "ex_id r1 = ?x" "ex_playbook_id r1 = ?pb" "ex_steps_log r1 = l"
        by auto
      have a: "rt_approvals t = rt_approvals s" using on_execs_frame [OF acq] by simp
      have "loop_ok defs ?x ?pb l0 \<lparr>lp_index = Suc n, lp_log = l, lp_last = Some (int n), lp_failed = False,
          lp_message = PNone\<rparr> t"
        using ok row_saved [OF r(1), of defs] pass l0 by (intro loop_start) (simp_all add: a r)
      moreover have "body r1 t = (r, s')" using run acq r1 by (simp add: lease_for_resume_def)
      ultimately show ?thesis using body [OF r(2)] good_t r by blast
    qed
  qed
qed

text \<open>A pass over a waiting execution.\<close>

lemma resume_approved_keeps:
  assumes good: "good defs (ex_id ex) (ex_playbook_id ex) (ex_steps_log ex) s"
    and row: "ex \<in> set (playbook_executions (rt_execs s))" and defs: "sv_definitions sv = defs"
    and waits: "ex_status ex = EAwaiting"
    and pass: "\<And>g. g \<le> n \<Longrightarrow> is_gate defs (ex_playbook_id ex) g \<Longrightarrow>
      cleared defs (rt_approvals s) (ex_playbook_id ex) (ex_id ex) (ex_steps_log ex) g"
    and run: "resume_approved (recording sv) ex (int n) q now owner duration s = (r, s')"
  shows "good defs (ex_id ex) (ex_playbook_id ex) (ex_steps_log ex) s'"
proof -
  define l where "l = note_decision (sv_formats sv) (int n) q ''resumed'' ''approval_resumed''
    ''Simulation resumed after approval.'' now (note_decision (sv_formats sv) (int n) q ''approved'' ''approval_approved''
      ''Approval granted for simulated playbook gate.'' now (ex_steps_log ex))"
  have same: "step_already_succeeded_in_log l i = step_already_succeeded_in_log (ex_steps_log ex) i"
      "step_already_skipped_in_log l i = step_already_skipped_in_log (ex_steps_log ex) i" for i
    by (simp_all add: l_def note_decision_log)
  have sub: "set (ex_steps_log ex) \<subseteq> set l" unfolding l_def by (rule subset_trans; rule note_decision_log(3)) simp_all
  have pass': "cleared defs (rt_approvals s) (ex_playbook_id ex) (ex_id ex) l g"
    if "g \<le> n" "is_gate defs (ex_playbook_id ex) g" for g
    using pass [OF that] by (simp add: cleared_def same)
  show ?thesis
  proof (rule resume_keeps [OF good row sub same _ _ waits run [unfolded resume_approved_def Let_def recording_simps,
      folded l_def]])
    show "cleared defs (rt_approvals s) (ex_playbook_id ex) (ex_id ex) l g"
      if "g \<le> n" "is_gate defs (ex_playbook_id ex) g" for g using that by (rule pass')
  next
    fix r1 t r s' assume r1: "ex_id r1 = ex_id ex" "ex_playbook_id r1 = ex_playbook_id ex" "ex_steps_log r1 = l"
      and row: "r1 \<in> set (playbook_executions (rt_execs t))"
      and good: "good defs (ex_id ex) (ex_playbook_id ex) (ex_steps_log ex) t"
      and loop: "loop_ok defs (ex_id ex) (ex_playbook_id ex) (ex_steps_log ex)
        \<lparr>lp_index = Suc n, lp_log = l, lp_last = Some (int n), lp_failed = False, lp_message = PNone\<rparr> t"
      and body: "(case map_option pd_steps (get_playbook_definition (ex_playbook_id ex) (sv_definitions sv)) of
          Some (PList steps) \<Rightarrow> process_steps (recording sv) r1 steps now EAwaiting (nat (int n + 1)) l (Some (int n)) owner duration
        | _ \<Rightarrow> fail_awaiting_execution (recording sv) r1 l (Some (int n)) ''invalid_resume_definition''
             ''Playbook definition could not be loaded for approval resume.'' now owner) t = (r, s')"
    show "good defs (ex_id ex) (ex_playbook_id ex) (ex_steps_log ex) s'"
    proof (cases "definition_steps defs (ex_playbook_id ex)")
      case (Some steps)
      then have "process_steps (recording sv) r1 steps now EAwaiting (Suc n) l (Some (int n)) owner duration t = (r, s')"
        using body by (auto simp: definition_steps_def defs nat_add_distrib split: option.splits pyval.splits)
      with good r1(1) Some loop show ?thesis by (rule process_steps_keeps)
    next
      case None
      then have "fail_awaiting_execution (recording sv) r1 l (Some (int n)) ''invalid_resume_definition''
             ''Playbook definition could not be loaded for approval resume.'' now owner t = (r, s')"
        using body by (auto simp: definition_steps_def defs split: option.splits pyval.splits)
      from fail_awaiting_keeps [OF _ row _ _ this] good r1 show ?thesis by simp
    qed
  qed
qed

lemma stop_refused_keeps:
  assumes good: "good defs (ex_id ex) (ex_playbook_id ex) (ex_steps_log ex) s"
    and row: "ex \<in> set (playbook_executions (rt_execs s))" and defs: "sv_definitions sv = defs"
    and waits: "ex_status ex = EAwaiting"
    and before: "\<And>g. g < n \<Longrightarrow> is_gate defs (ex_playbook_id ex) g \<Longrightarrow>
      cleared defs (rt_approvals s) (ex_playbook_id ex) (ex_id ex) (ex_steps_log ex) g"
    and gate: "gate_behavior (definition_steps defs (ex_playbook_id ex)) (int n) (ar_status q) = PStr ''branch'' \<Longrightarrow>
      released defs (rt_approvals s) (ex_playbook_id ex) (ex_id ex) n"
    and st: "ar_status q = ADenied \<or> ar_status q = AExpired"
    and run: "stop_refused (recording sv) ex (int n) q now owner duration s = (r, s')"
  shows "good defs (ex_id ex) (ex_playbook_id ex) (ex_steps_log ex) s'"
proof -
  let ?x = "ex_id ex" and ?pb = "ex_playbook_id ex" and ?st = "approval_status_text (ar_status q)"
  define l where "l = note_decision (sv_formats sv) (int n) q ?st (''approval_'' @ ?st)
    (''Approval '' @ ?st @ ''; later steps were not run.'') now (ex_steps_log ex)"
  define steps where "steps = (case get_playbook_definition ?pb defs of
     None \<Rightarrow> Some [] | Some d \<Rightarrow> (case pd_steps d of PList xs \<Rightarrow> Some xs | _ \<Rightarrow> None))"
  have "?st \<noteq> ''success''" "?st \<noteq> ''skipped''" using st by auto
  note noted = note_decision_log [OF this]
  have same: "step_already_succeeded_in_log l i = step_already_succeeded_in_log (ex_steps_log ex) i"
      "step_already_skipped_in_log l i = step_already_skipped_in_log (ex_steps_log ex) i" for i
    by (simp_all add: l_def noted)
  note run = run [unfolded stop_refused_def Let_def recording_simps, unfolded defs, folded l_def steps_def]
  show ?thesis
  proof (cases "gate_behavior steps (int n) (ar_status q) = PStr ''branch'' \<and> steps \<noteq> None")
    case True
    then obtain xs where xs: "steps = Some xs" by auto
    have d: "definition_steps defs ?pb = Some xs"
    proof (cases "get_playbook_definition ?pb defs")
      case None
      with True have "gate_behavior (Some []) (int n) (ar_status q) = PStr ''branch''" by (simp add: steps_def)
      then show ?thesis by (simp add: gate_behavior_def coalesce_def)
    next
      case (Some d)
      with xs show ?thesis by (auto simp: steps_def definition_steps_def split: pyval.splits)
    qed
    with True xs have rel: "released defs (rt_approvals s) ?pb ?x n" by (intro gate) simp
    have run': "lease_for_resume (recording sv) ex owner l (int n) duration now
        ''Playbook execution could not be leased for approval branch resume.''
        (\<lambda>resumed. process_steps (recording sv) resumed (the steps) now EAwaiting (nat (int n + 1)) l (Some (int n))
           owner duration) s = (r, s')"
      using run True by simp
    show ?thesis
    proof (rule resume_keeps [OF good row _ same _ _ waits run'])
      show "set (ex_steps_log ex) \<subseteq> set l" unfolding l_def by (rule noted(3))
      show "cleared defs (rt_approvals s) ?pb ?x l g" if "g \<le> n" "is_gate defs ?pb g" for g
        using before [OF _ that(2)] rel that(1) by (cases "g = n") (auto simp: cleared_def same)
      fix r1 t r s' assume r1: "ex_id r1 = ?x" and good: "good defs ?x ?pb (ex_steps_log ex) t"
        and loop: "loop_ok defs ?x ?pb (ex_steps_log ex)
          \<lparr>lp_index = Suc n, lp_log = l, lp_last = Some (int n), lp_failed = False, lp_message = PNone\<rparr> t"
        and body: "process_steps (recording sv) r1 (the steps) now EAwaiting (nat (int n + 1)) l (Some (int n)) owner
          duration t = (r, s')"
      have "process_steps (recording sv) r1 xs now EAwaiting (Suc n) l (Some (int n)) owner duration t = (r, s')"
        using body by (simp add: xs nat_add_distrib)
      with good r1 d loop show "good defs ?x ?pb (ex_steps_log ex) s'" by (rule process_steps_keeps)
    qed
  next
    case False
    let ?later = "case steps of None \<Rightarrow> [] | Some xs \<Rightarrow>
      map PDict (skipped_later_step_entries (sv_formats sv) xs (nat (int n + 1)) (''approval_'' @ ?st) now)"
    obtain r1 where "finalize_not_actioned (recording sv) ?x owner (l @ ?later) (ex_last_completed_step ex) now s = (r1, s')"
      using run False by (auto split: prod.splits sum.splits)
    then show ?thesis
      using finalize_keeps(3) [OF good row_saved [OF row], of "l @ ?later" "recording sv" owner "ex_last_completed_step ex" now r1 s'] by (simp add: same)
  qed
qed

lemma process_awaiting_keeps:
  assumes good: "good defs (ex_id ex) (ex_playbook_id ex) (ex_steps_log ex) s"
    and row: "ex \<in> set (playbook_executions (rt_execs s))" and defs: "sv_definitions sv = defs"
    and waits: "ex_status ex = EAwaiting"
    and run: "process_awaiting_approval_execution (recording sv) ex now owner duration s = (r, s')"
  shows "good defs (ex_id ex) (ex_playbook_id ex) (ex_steps_log ex) s'"
proof -
  let ?x = "ex_id ex" and ?pb = "ex_playbook_id ex"
  have "run_ok defs (rt_approvals s) ex" using good row by (simp add: good_def state_ok_def)
  then obtain n where n: "latest_gate_entry (ex_steps_log ex) = Some (int n)"
      "\<And>g. g < n \<Longrightarrow> is_gate defs ?pb g \<Longrightarrow> cleared defs (rt_approvals s) ?pb ?x (ex_steps_log ex) g"
    using waits by (auto simp: run_ok_def exec_active_def)
  let ?get = "on_approvals (get_latest_playbook_step_approval_request (sv_clock sv) ?x (int n) True (Some now))"
  obtain res t where get: "?get s = (res, t)" by fastforce
  have "runs_calmly c (\<lambda>_. True) ?get" for c by (rule calm_approvals) (rule op_latest_step)
  then have calm: "calm c s t" for c using good_tables [OF good] get by (rule runs_calmlyD)
  have good_t: "good defs ?x ?pb (ex_steps_log ex) t" using good calm by (rule good_quiet)
  have row_t: "ex \<in> set (playbook_executions (rt_execs t))"
    using row get by (auto simp: on_approvals_def split: prod.splits)
  have before: "cleared defs (rt_approvals t) ?pb ?x (ex_steps_log ex) g" if "g < n" "is_gate defs ?pb g" for g
    using n(2) [OF that] calm by (auto simp: calm_def intro: cleared_mono)
  note run = run [unfolded process_awaiting_approval_execution_def n(1) recording_simps]
  consider (stop) "s' = t"
    | (missing) "fail_awaiting_execution (recording sv) ex (ex_steps_log ex) (Some (int n)) ''missing_approval_request''
        ''Linked approval request was not found.'' now owner t = (r, s')"
    | (approved) q where "res = Inr (Some q)" "ar_status q = AApproved"
        "resume_approved (recording sv) ex (int n) q now owner duration t = (r, s')"
    | (refused) q where "res = Inr (Some q)" "ar_status q = ADenied \<or> ar_status q = AExpired"
        "stop_refused (recording sv) ex (int n) q now owner duration t = (r, s')"
    using run get by (auto split: sum.splits option.splits approval_status.splits)
  then show ?thesis
  proof cases
    case stop
    with good_t show ?thesis by simp
  next
    case missing
    show ?thesis by (rule fail_awaiting_keeps [OF good_t row_t refl refl missing])
  next
    case (approved q)
    have "released defs (rt_approvals t) ?pb ?x n"
      using good get [unfolded approved(1)] approved(2) by (intro latest_request_released) auto
    then have "cleared defs (rt_approvals t) ?pb ?x (ex_steps_log ex) g" if "g \<le> n" "is_gate defs ?pb g" for g
      using before [OF _ that(2)] that(1) by (cases "g = n") (auto simp: cleared_def)
    with good_t row_t defs waits show ?thesis using approved(3) by (rule resume_approved_keeps)
  next
    case (refused q)
    have "released defs (rt_approvals t) ?pb ?x n"
      if "gate_behavior (definition_steps defs ?pb) (int n) (ar_status q) = PStr ''branch''"
      using good get [unfolded refused(1)] refused(2) that by (intro latest_request_released) auto
    with good_t row_t defs waits before show ?thesis using refused(2,3) by (rule stop_refused_keeps)
  qed
qed

subsection \<open>The system\<close>

text \<open>A pass over one execution, by its id or the oldest pending one, and whether it returns.\<close>

inductive pass :: "'w services \<Rightarrow> 'w runtime \<Rightarrow> bool \<Rightarrow> 'w runtime \<Rightarrow> bool" where
  pass_one: "process_playbook_execution sv i now w d s = (r, s') \<Longrightarrow> pass sv s (\<not> isl r) s'"
| pass_next: "process_next_pending_playbook_execution sv now w d s = (r, s') \<Longrightarrow> pass sv s (\<not> isl r) s'"

lemma good_start: "state_ok defs s \<Longrightarrow> calls s = [] \<Longrightarrow> good defs x pb l0 s"
  by (simp add: good_def calls_ok_def)

text \<open>Leasing a pending execution keeps everything the gates depend on.\<close>

lemma lease_taken:
  assumes "exec_inv d" "lock_and_lease x EPending t (take_lease w u n) d = (Inr (Some r1), d')"
    "ex \<in> set (playbook_executions d)" "ex_id ex = x"
  shows "r1 \<in> set (playbook_executions d') \<and> r1 = take_lease w u n ex"
proof -
  have "exec_update x (\<lambda>r. ex_status r = EPending) (take_lease w u n) d = (Inr (Some r1), d')"
    using assms(2) by (auto simp: lock_and_lease_def split: option.splits if_splits)
  from exec_update_returned [OF this] obtain r where r: "r1 \<in> set (playbook_executions d')"
      "r \<in> set (playbook_executions d)" "ex_id r = x" "r1 = take_lease w u n r" by blast
  then have "r = ex" using distinct_key_unique [OF exec_inv_ids(2) [OF assms(1)]] assms(3,4) by metis
  with r show ?thesis by simp
qed

lemma process_leased_keeps:
  assumes st: "state_ok defs s" and none: "calls s = []" and defs: "sv_definitions sv = defs"
    and calm: "\<And>c. calm c s s1" and lease: "lock_and_lease x EPending t (take_lease w u n) (rt_execs s) = (Inr (Some r1), rt_execs s1)"
    and ex: "ex \<in> set (playbook_executions (rt_execs s))" "ex_id ex = x"
    and run: "process_running_execution (recording sv) r1 now prior owner duration s1 = (r, s')"
  shows "good defs x (ex_playbook_id ex) (ex_steps_log ex) s'"
proof -
  have r1: "r1 \<in> set (playbook_executions (rt_execs s1))" "r1 = take_lease w u n ex"
    using lease_taken [OF _ lease ex] st by (auto simp: state_ok_def tables_ok_def)
  then have eq: "ex_id r1 = x" "ex_playbook_id r1 = ex_playbook_id ex" "ex_steps_log r1 = ex_steps_log ex"
    using ex by (simp_all add: take_lease_def)
  have "good defs x (ex_playbook_id ex) (ex_steps_log ex) s1" using good_start [OF st none] calm by (rule good_quiet)
  moreover have "exec_active r1" by (simp add: r1(2) take_lease_def exec_active_def)
  ultimately show ?thesis using process_running_keeps [OF _ r1(1) defs _ run] by (simp add: eq)
qed

lemma process_execution_keeps:
  assumes st: "state_ok defs s" and none: "calls s = []" and defs: "sv_definitions sv = defs"
    and found: "get_playbook_execution i (rt_execs s) = Some ex"
    and run: "process_playbook_execution (recording sv) i now0 w d s = (r, s')"
  shows "good defs i (ex_playbook_id ex) (ex_steps_log ex) s'"
proof -
  note row = found_row [OF st found]
  have good: "good defs (ex_id ex) (ex_playbook_id ex) (ex_steps_log ex) s" using st none by (rule good_start)
  let ?o = "resolve_worker_id (recording sv) w" and ?n = "coerce_now (recording sv) now0"
  consider (stop) "s' = s"
    | (running) duration where "ex_status ex = ERunning" "process_running_execution (recording sv) ex ?n ERunning ?o duration s = (r, s')"
    | (waiting) duration where "ex_status ex = EAwaiting"
        "process_awaiting_approval_execution (recording sv) ex ?n ?o duration s = (r, s')"
    | (pending) duration res s1 where
        "on_execs (acquire_execution_lease (sv_clock sv) i (Some ?o) duration (Some ?n)) s = (res, s1)"
        "s' = s1 \<or> (\<exists>r1. res = Inr (Some r1) \<and> process_running_execution (recording sv) r1 ?n (ex_status ex) ?o duration s1 = (r, s'))"
  proof (cases "coerce_lease_duration (recording sv) d")
    case (Inl e)
    with run found that(1) show thesis by (simp add: process_playbook_execution_def py_lift_def)
  next
    case (Inr duration)
    obtain res s1 where acq: "on_execs (acquire_execution_lease (sv_clock sv) i (Some ?o) duration (Some ?n)) s = (res, s1)"
      by fastforce
    show thesis
      using run found Inr acq that(1) that(2) [of duration] that(3) [of duration] that(4) [OF acq]
      by (auto simp: process_playbook_execution_def py_lift_def Let_def split: if_splits sum.splits option.splits)
  qed
  then show ?thesis
  proof cases
    case stop
    with good row(2) show ?thesis by simp
  next
    case (running duration)
    then have "exec_active ex" by (simp add: exec_active_def)
    from process_running_keeps [OF good row(1) defs this running(2)] row(2) show ?thesis by simp
  next
    case (waiting duration)
    from process_awaiting_keeps [OF good row(1) defs waiting] row(2) show ?thesis by simp
  next
    case (pending duration res s1)
    have "runs_calmly c (\<lambda>_. True) (on_execs (acquire_execution_lease (sv_clock sv) i (Some ?o) duration (Some ?n)))" for c
      by (rule calm_execs) (rule claim_kept(2))
    then have calm: "calm c s s1" for c using good_tables [OF good] pending(1) by (rule runs_calmlyD)
    from pending(2) show ?thesis
    proof (elim disjE exE conjE)
      assume "s' = s1"
      then show ?thesis using good_quiet [OF good calm] row(2) by simp
    next
      fix r1 assume r1: "res = Inr (Some r1)"
        and go: "process_running_execution (recording sv) r1 ?n (ex_status ex) ?o duration s1 = (r, s')"
      obtain v where "lock_and_lease i EPending ?n (take_lease v ?n duration) (rt_execs s) = (Inr (Some r1), rt_execs s1)"
        using on_execs_frame [OF pending(1)] r1 by (auto simp: acquire_execution_lease_def Let_def split: sum.splits)
      with st none defs calm show ?thesis using row(1,2) go by (rule process_leased_keeps)
    qed
  qed
qed

lemma next_pending_row:
  assumes "next_pending locked d = Some ex"
  shows "ex \<in> set (playbook_executions d)" "ex_status ex = EPending"
  using fetchone_mem [OF assms [unfolded next_pending_def]] by (auto simp: limit_def dest!: set_take_subset [THEN subsetD])

lemma process_next_keeps:
  assumes st: "state_ok defs s" and none: "calls s = []" and defs: "sv_definitions sv = defs"
    and run: "process_next_pending_playbook_execution (recording sv) now0 w d s = (r, s')"
  shows "state_ok defs s' \<and> (calls s' = [] \<or>
    (\<exists>ex \<in> set (playbook_executions (rt_execs s)). good defs (ex_id ex) (ex_playbook_id ex) (ex_steps_log ex) s'))"
proof -
  let ?o = "resolve_worker_id (recording sv) w" and ?n = "coerce_now (recording sv) now0"
  consider (stop) "s' = s" | (claim) duration res s1 where
      "on_execs (claim_next_pending_playbook_execution_with_lease (sv_locked sv) (sv_clock sv) (Some ?o) duration (Some ?n)) s
         = (res, s1)"
      "s' = s1 \<or> (\<exists>r1 r. res = Inr (Some r1) \<and> process_running_execution (recording sv) r1 ?n EPending ?o duration s1 = (r, s'))"
  proof (cases "coerce_lease_duration (recording sv) d")
    case (Inl e)
    with run that(1) show thesis by (simp add: process_next_pending_playbook_execution_def py_lift_def Let_def)
  next
    case (Inr duration)
    obtain res s1 where acq: "on_execs (claim_next_pending_playbook_execution_with_lease (sv_locked sv) (sv_clock sv)
        (Some ?o) duration (Some ?n)) s = (res, s1)" by fastforce
    show thesis
      using run Inr acq that(2) [OF acq]
      by (auto simp: process_next_pending_playbook_execution_def py_lift_def py_return_def Let_def
          split: sum.splits option.splits prod.splits)
  qed
  then show ?thesis
  proof cases
    case stop
    with st none show ?thesis by simp
  next
    case (claim duration res s1)
    have "runs_calmly c (\<lambda>_. True)
        (on_execs (claim_next_pending_playbook_execution_with_lease (sv_locked sv) (sv_clock sv) (Some ?o) duration (Some ?n)))" for c
      by (rule calm_execs) (rule claim_kept(1))
    moreover have "tables_ok s" using st by (simp add: state_ok_def)
    ultimately have calm: "calm c s s1" for c using claim(1) by (rule runs_calmlyD)
    from claim(2) show ?thesis
    proof (elim disjE exE conjE)
      assume "s' = s1"
      moreover have "calls s1 = []" using claim(1) none by (auto simp: on_execs_def calls_def split: prod.splits)
      ultimately show ?thesis using state_ok_calm [OF st calm] by simp
    next
      fix r1 r assume r1: "res = Inr (Some r1)"
        and go: "process_running_execution (recording sv) r1 ?n EPending ?o duration s1 = (r, s')"
      obtain ex v where ex: "next_pending (sv_locked sv) (rt_execs s) = Some ex"
        and lease: "lock_and_lease (ex_id ex) EPending ?n (take_lease v ?n duration) (rt_execs s) = (Inr (Some r1), rt_execs s1)"
        using on_execs_frame [OF claim(1)] r1
        by (auto simp: claim_next_pending_playbook_execution_with_lease_def Let_def split: sum.splits option.splits)
      note row = next_pending_row(1) [OF ex]
      have "good defs (ex_id ex) (ex_playbook_id ex) (ex_steps_log ex) s'"
        using st none defs calm lease row refl go by (rule process_leased_keeps)
      with row show ?thesis by (auto simp: good_def)
    qed
  qed
qed

text \<open>What a pass shows: it keeps the state, and each call is for a step of one execution that the
  execution's log did not show finished, with the gates before it cleared.\<close>

lemma pass_keeps:
  assumes "pass (recording sv) s ok s'" "state_ok defs s" "calls s = []" "sv_definitions sv = defs"
  shows "state_ok defs s' \<and> (\<forall>c \<in> set (calls s'). \<exists>ex \<in> set (playbook_executions (rt_execs s)).
    call_ok defs (ex_id ex) (ex_playbook_id ex) (ex_steps_log ex) s' c)"
  using assms
proof (cases rule: pass.cases)
  case (pass_one i now w d r)
  show ?thesis
  proof (cases "get_playbook_execution i (rt_execs s)")
    case None
    with pass_one assms(2,3) show ?thesis by (simp add: process_playbook_execution_def)
  next
    case (Some ex)
    have "good defs i (ex_playbook_id ex) (ex_steps_log ex) s'"
      using assms(2-4) Some pass_one(2) by (rule process_execution_keeps)
    with found_row [OF assms(2) Some] show ?thesis by (auto simp: good_def calls_ok_def)
  qed
next
  case (pass_next now w d r)
  from process_next_keeps [OF assms(2-4) pass_next(2)] show ?thesis by (auto simp: good_def calls_ok_def)
qed

text \<open>The steps of the whole system, between committed transactions: a pass that returned; an operation
  of the operators or the recovery on executions; the resume handler; an operation on approvals; a
  change of the definitions; anything that happens to the letters, the breakers and the world; and a
  transaction that was rolled back, of which only the numbers it used up and what it wrote to the audit
  log remain. The definitions may change in any way that keeps the steps of each playbook that has an
  unfinished execution. (The handlers of \<open>routes/playbook_routes.py\<close> do not see to that: they let an
  operator edit the steps of a playbook whose executions wait, which moves the indexes under the log.)\<close>

inductive quiet_op :: "exec_db \<Rightarrow> exec_db \<Rightarrow> bool" where
  qo_recover: "quiet_op d (snd (mark_stale_execution_for_recovery clk i now x d))"
| qo_permanent: "quiet_op d (snd (mark_playbook_execution_permanently_failed clk i y now d))"
| qo_abandon: "quiet_op d (snd (abandon_playbook_execution clk i d))"
| qo_create: "quiet_op d (snd (create_playbook_execution clk a d))"
| qo_create_once: "quiet_op d (snd (create_pending_playbook_execution_once clk a d))"
| qo_retry: "quiet_op d (snd (create_retry_execution clk i d))"
| qo_link: "quiet_op d (snd (set_playbook_execution_canonical_linkage i k c d))"
| qo_metadata: "quiet_op d (snd (update_playbook_execution_reliability_metadata i u d))"

definition no_calls :: "('w \<times> call list) runtime \<Rightarrow> ('w \<times> call list) runtime" where
  "no_calls s = s\<lparr>rt_world := (fst (rt_world s), [])\<rparr>"

definition running_steps_kept :: "exec_db \<Rightarrow> definition_table \<Rightarrow> definition_table \<Rightarrow> bool" where
  "running_steps_kept d defs defs' \<longleftrightarrow> (\<forall>r \<in> set (playbook_executions d). exec_active r \<longrightarrow>
     definition_steps defs' (ex_playbook_id r) = definition_steps defs (ex_playbook_id r))"

type_synonym 'w system = "definition_table \<times> ('w \<times> call list) runtime"

inductive system_step :: "'w system \<Rightarrow> 'w system \<Rightarrow> bool" where
  ss_pass: "sv_definitions sv = defs \<Longrightarrow> pass (recording sv) (no_calls s) True s' \<Longrightarrow>
    system_step (defs, s) (defs, s')"
| ss_operator: "quiet_op (rt_execs s) d \<Longrightarrow> system_step (defs, s) (defs, s\<lparr>rt_execs := d\<rparr>)"
| ss_resume: "system_step (defs, s) (defs, snd (resume_playbook_execution_route clk i s))"
| ss_approval: "approval_op (rt_approvals s) a \<Longrightarrow> system_step (defs, s) (defs, s\<lparr>rt_approvals := a\<rparr>)"
| ss_define: "running_steps_kept (rt_execs s) defs defs' \<Longrightarrow> system_step (defs, s) (defs', s)"
| ss_other: "system_step (defs, s) (defs, s\<lparr>rt_letters := l, rt_breakers := b, rt_world := w\<rparr>)"
| ss_rolled_back: "exec_seq (rt_execs s) \<le> n \<Longrightarrow> approval_inv a \<Longrightarrow> approval_requests a = approval_requests (rt_approvals s) \<Longrightarrow>
    system_step (defs, s) (defs, s\<lparr>rt_execs := (rt_execs s)\<lparr>exec_seq := n\<rparr>, rt_approvals := a\<rparr>)"

lemma state_ok_frame:
  "rt_execs s' = rt_execs s \<Longrightarrow> rt_approvals s' = rt_approvals s \<Longrightarrow> state_ok defs s' = state_ok defs s"
  by (simp add: state_ok_def tables_ok_def)

lemma metadata_kept:
  assumes inv: "exec_inv d"
  shows "runs_kept d (snd (update_playbook_execution_reliability_metadata i u d))"
proof -
  have same: "same_run r (apply_reliability u r)" for r
    by (simp add: same_run_def apply_reliability_def exec_active_def)
  let ?d = "snd (update_playbook_execution_reliability_metadata i u d)"
  have "?d = d \<or> ?d = snd (exec_update i (\<lambda>_. True) (apply_reliability u) d)"
    by (simp add: update_playbook_execution_reliability_metadata_def)
  then show ?thesis
  proof
    assume 2: "?d = snd (exec_update i (\<lambda>_. True) (apply_reliability u) d)"
    have "exec_inv (snd (exec_update i (\<lambda>_. True) (apply_reliability u) d))"
      using metadata_inv [OF inv, of i u] 2 by simp
    then show ?thesis unfolding 2 by (rule exec_update_rows_kept [OF inv]) (rule same)
  qed (simp add: runs_kept_refl inv)
qed

lemma quiet_op_kept: "quiet_op d d' \<Longrightarrow> exec_inv d \<Longrightarrow> runs_kept d d'"
  by (induction rule: quiet_op.induct) (simp_all only: recovery_kept operator_kept create_kept link_kept metadata_kept)

text \<open>Putting a waiting execution back in the queue keeps its log.\<close>

lemma resume_kept:
  assumes inv: "exec_inv d" and ex: "get_playbook_execution i d = Some ex" "ex_status ex = EAwaiting"
  shows "runs_kept d (set_pending i d)"
proof -
  note mem = get_playbook_execution_mem [OF ex(1)]
  have "exec_inv (set_pending i d)"
    using write_moves(6) [OF inv, of "\<lparr>utc_now = 0, sql_now = 0\<rparr>" i "''pending''" None] update_to_pending [OF inv ex]
    by (simp add: exec_moves_def)
  moreover have "same_run ex (ex\<lparr>ex_status := EPending\<rparr>)" by (simp add: same_run_def ex(2) exec_active_def)
  moreover have "set (playbook_executions (set_pending i d)) =
      insert (ex\<lparr>ex_status := EPending\<rparr>) (set (playbook_executions d) - {ex})"
    using set_update_id [OF exec_inv_ids(2) [OF inv] conjunct1 [OF mem], of "\<lambda>r. r\<lparr>ex_status := EPending\<rparr>"] mem
    by (simp add: set_pending_def)
  ultimately show ?thesis using mem unfolding runs_kept_def by (auto intro: same_run_refl)
qed

lemma resume_route_calm:
  assumes "tables_ok s"
  shows "calm c s (snd (resume_playbook_execution_route clk i s))"
proof -
  have inv: "exec_inv (rt_execs s)" using assms by (simp add: tables_ok_def)
  show ?thesis
  proof (cases "resumable i s")
    case True
    then have "runs_kept (rt_execs s) (set_pending i (rt_execs s))"
      using resume_kept [OF inv] by (auto simp: resumable_def split: option.splits)
    then show ?thesis using resume_route_cases(1) [OF inv] True assms
      by (auto simp: calm_def calls_def approval_safe_refl tables_ok_def)
  qed (simp add: resume_route_cases(1) [OF inv] calm_refl assms)
qed

text \<open>What is known of the unfinished executions depends on the steps of their playbooks only.\<close>

lemma state_ok_defined:
  assumes "state_ok defs s" "running_steps_kept (rt_execs s) defs defs'"
  shows "state_ok defs' s"
proof -
  have "run_ok defs' a r = run_ok defs a r"
    if "exec_active r \<longrightarrow> definition_steps defs' (ex_playbook_id r) = definition_steps defs (ex_playbook_id r)" for a r
    using that by (auto simp: run_ok_def cleared_def released_def is_gate_def)
  with assms show ?thesis by (simp add: state_ok_def running_steps_kept_def)
qed

lemma exec_inv_gap: "exec_inv d \<Longrightarrow> exec_seq d \<le> n \<Longrightarrow> exec_inv (d\<lparr>exec_seq := n\<rparr>)"
  by (auto simp: exec_inv_def wf_ids_def)

lemma system_step_ok:
  assumes "system_step c c'" "state_ok (fst c) (snd c)"
  shows "state_ok (fst c') (snd c')"
  using assms
proof (induction rule: system_step.induct)
  case (ss_pass sv defs s s')
  then have ok: "state_ok defs s" by simp
  then have "state_ok defs (no_calls s)" "calls (no_calls s) = []"
    by (simp_all add: no_calls_def calls_def state_ok_frame [of "no_calls s" s, unfolded no_calls_def])
  with pass_keeps [OF ss_pass(2) this ss_pass(1)] show ?case by simp
next
  case (ss_operator s d defs)
  have "runs_kept (rt_execs s) d" using quiet_op_kept ss_operator by (auto simp: state_ok_def tables_ok_def)
  then have "calm c s (s\<lparr>rt_execs := d\<rparr>)" for c
    using ss_operator(2) by (auto simp: calm_def calls_def approval_safe_refl state_ok_def tables_ok_def)
  with ss_operator(2) show ?case by (simp add: state_ok_calm)
next
  case (ss_resume defs s clk i)
  then have ok: "state_ok defs s" by simp
  then have "calm c s (snd (resume_playbook_execution_route clk i s))" for c
    by (intro resume_route_calm) (simp add: state_ok_def)
  with ok show ?case by (simp add: state_ok_calm)
next
  case (ss_define s defs defs')
  then show ?case by (simp add: state_ok_defined)
next
  case (ss_approval s a defs)
  then have "calm c s (s\<lparr>rt_approvals := a\<rparr>)" for c
    by (auto simp: calm_def calls_def runs_kept_refl approval_op_safe state_ok_def tables_ok_def)
  with ss_approval(2) show ?case by (simp add: state_ok_calm)
next
  case (ss_other defs s l b w)
  then show ?case by (simp add: state_ok_def tables_ok_def)
next
  case (ss_rolled_back s n a defs)
  have "released defs a pb x g = released defs (rt_approvals s) pb x g" for pb x g
    using ss_rolled_back(3) by (simp add: released_def)
  then have "run_ok defs a r = run_ok defs (rt_approvals s) r" for r by (simp add: run_ok_def cleared_def)
  with ss_rolled_back show ?case by (simp add: state_ok_def tables_ok_def exec_inv_gap)
qed

definition system_init :: "bool \<Rightarrow> letter_db \<Rightarrow> breaker_store \<Rightarrow> 'w \<Rightarrow> ('w \<times> call list) runtime" where
  "system_init up l b w =
     \<lparr>rt_execs = exec_init, rt_approvals = approval_init up, rt_letters = l, rt_breakers = b, rt_world = (w, [])\<rparr>"

lemma system_ok:
  assumes "system_step\<^sup>*\<^sup>* (defs0, system_init up l b w) (defs, s)"
  shows "state_ok defs s"
proof -
  have "state_ok (fst c) (snd c)" if "system_step\<^sup>*\<^sup>* (defs0, system_init up l b w) c" for c
    using that
  proof (induction rule: rtranclp_induct)
    case base
    show ?case
      by (simp add: system_init_def state_ok_def tables_ok_def exec_inv_init approval_inv_init) (simp add: exec_init_def)
  qed (rule system_step_ok)
  from this [OF assms] show ?thesis by simp
qed

subsection \<open>Properties\<close>

text \<open>C1: Approval gates hold. Take any state the system can reach by passes of workers, the recovery,
  decisions on approvals and their expiry, what operators do to executions (create, retry, resume,
  abandon, fail for good, link, set the metadata), rolled back transactions, and changes of the
  definitions that keep the steps of each playbook with an unfinished execution. When a pass from there
  makes a call for step \<open>k\<close> of an execution (an adapter, a notification, a response command, a delivery
  record, a child's link), then every approval gate before \<open>k\<close> in its playbook was skipped by a branch, or
  its request is approved, or is denied or expired and the gate says to branch then. Nothing is claimed
  for an execution whose playbook's steps are edited before it is finished.\<close>

theorem no_step_past_open_gate:
  assumes "system_step\<^sup>*\<^sup>* (defs0, system_init up l b w) (defs, s)" "sv_definitions sv = defs"
    and "pass (recording sv) (no_calls s) ok s'"
    and "(x, k) \<in> set (calls s')" "r \<in> set (playbook_executions (rt_execs s'))" "ex_id r = x"
    and "is_gate defs (ex_playbook_id r) g" "g < k"
  shows "step_already_skipped_in_log (ex_steps_log r) (int g) \<or> released defs (rt_approvals s') (ex_playbook_id r) x g"
proof -
  have "state_ok defs (no_calls s)" "calls (no_calls s) = []"
    using system_ok [OF assms(1)] by (simp_all add: no_calls_def calls_def state_ok_def tables_ok_def)
  note kept = pass_keeps [OF assms(3) this assms(2)]
  have ok: "tables_ok s'" using kept by (simp add: state_ok_def)
  obtain ex :: execution where call: "call_ok defs (ex_id ex) (ex_playbook_id ex) (ex_steps_log ex) s' (x, k)"
    using kept assms(4) by blast
  then obtain r' where r': "r' \<in> set (playbook_executions (rt_execs s'))" "ex_id r' = x" "x = ex_id ex"
      "ex_playbook_id r' = ex_playbook_id ex"
      "\<forall>g < k. is_gate defs (ex_playbook_id ex) g \<longrightarrow>
        cleared defs (rt_approvals s') (ex_playbook_id ex) x (ex_steps_log r') g"
    by (auto simp: call_ok_def)
  have "r = r'" using same_row [OF ok assms(5) r'(1)] assms(6) r'(2) by simp
  with r' assms(7,8) show ?thesis by (simp add: cleared_def)
qed

text \<open>C2: A step is not repeated. No pass makes a call for a step that the execution's log, as the pass
  found it, shows as a success, whether the run was resumed after an approval, recovered from a dead
  worker or picked up twice.\<close>

theorem completed_step_not_repeated:
  assumes "system_step\<^sup>*\<^sup>* (defs0, system_init up l b w) (defs, s)" "sv_definitions sv = defs"
    and "pass (recording sv) (no_calls s) ok s'"
    and "r \<in> set (playbook_executions (rt_execs s))"
    and "step_already_succeeded_in_log (ex_steps_log r) (int k)"
  shows "(ex_id r, k) \<notin> set (calls s')"
proof
  assume call: "(ex_id r, k) \<in> set (calls s')"
  have st: "state_ok defs (no_calls s)" "calls (no_calls s) = []"
    using system_ok [OF assms(1)] by (simp_all add: no_calls_def calls_def state_ok_def tables_ok_def)
  obtain ex where "ex \<in> set (playbook_executions (rt_execs (no_calls s)))"
      "call_ok defs (ex_id ex) (ex_playbook_id ex) (ex_steps_log ex) s' (ex_id r, k)"
    using pass_keeps [OF assms(3) st assms(2)] call by blast
  then have ex: "ex \<in> set (playbook_executions (rt_execs s))" "ex_id ex = ex_id r"
      "\<not> step_already_succeeded_in_log (ex_steps_log ex) (int k)"
    by (simp_all add: call_ok_def no_calls_def)
  have "r = ex" using same_row [OF _ assms(4) ex(1)] st(1) ex(2) by (simp add: state_ok_def tables_ok_def no_calls_def)
  with ex(3) assms(5) show False by simp
qed

subsection \<open>Witnesses\<close>

text \<open>A playbook with a gate before its second step; an execution of it waits, is approved and goes on.\<close>

definition wit_gate_steps :: "pyval list" where
  "wit_gate_steps =
     [PDict [(''action'', PStr ''require_approval''), (''risk_level'', PStr ''high'')],
      PDict [(''action'', PStr ''monitor''), (''params'', PDict [])]]"

definition wit_gate_defs :: definition_table where
  "wit_gate_defs = [\<lparr>pd_id = ''pb'', pd_name = ''Watch'', pd_description = None, pd_trigger_config = PDict [],
     pd_steps = PList wit_gate_steps, pd_enabled = True, pd_created_at = 0, pd_updated_at = 0\<rparr>]"

definition wit_services :: "definition_table \<Rightarrow> time \<Rightarrow> unit services" where
  "wit_services defs t =
     \<lparr>sv_formats = wit_breaker_formats, sv_clock = wit_at t, sv_sha256 = id, sv_locked = (\<lambda>_. False),
      sv_lease_env = None, sv_worker_id = ''w1'', sv_definitions = defs, sv_alerts = [],
      sv_sql_text = (\<lambda>v. Inr []), sv_deliveries = (\<lambda>key w. Inr []),
      sv_record_delivery = (\<lambda>x args now w. (Inr [], w)), sv_slack = (\<lambda>x k m p w. (Inr ([], None), w)),
      sv_adapter = (\<lambda>x k name w. (Inr wit_firewall, w)), sv_protected = (\<lambda>v. Inr None),
      sv_blockable = (\<lambda>v. Inr ()),
      sv_command = (\<lambda>c w. (Inr \<lparr>cr_success = True, cr_message = ''watching'', cr_error = None, cr_error_code = None,
         cr_enforcement = ''none'', cr_idempotent = False, cr_registry_record_id = None, cr_registry_event_id = None,
         cr_blocked_ip_id = None, cr_incident_id = None, cr_disposition = None\<rparr>, w)),
      sv_enrich = (\<lambda>ex l w. Inr PNone), sv_link = (\<lambda>x k c w. (None, w))\<rparr>"

definition wit_system :: "(unit \<times> call list) runtime" where
  "wit_system = system_init True \<lparr>soar_dead_letters = [], letter_seq = 1\<rparr> Map.empty ()"

definition wit_gate_args :: execution_args where
  "wit_gate_args = \<lparr>ea_playbook_id = ''pb'', ea_alert_id = Some 1, ea_incident_id = None, ea_decision_id = None,
     ea_soar_correlation_id = None, ea_parent_execution_id = None, ea_chain_depth = 0\<rparr>"

definition wit_queued :: "(unit \<times> call list) runtime" where
  "wit_queued = wit_system\<lparr>rt_execs := snd (create_playbook_execution (wit_at 0) wit_gate_args (rt_execs wit_system))\<rparr>"

definition wit_paused :: "(unit \<times> call list) runtime" where
  "wit_paused = snd (process_playbook_execution (recording (wit_services wit_gate_defs 1)) 1 None None None (no_calls wit_queued))"

definition wit_allowed :: "(unit \<times> call list) runtime" where
  "wit_allowed = wit_paused\<lparr>rt_approvals := snd (approve_request (wit_at 2) 1 7 None None (rt_approvals wit_paused))\<rparr>"

definition wit_done :: "(unit \<times> call list) runtime" where
  "wit_done = snd (process_playbook_execution (recording (wit_services wit_gate_defs 3)) 1 None None None (no_calls wit_allowed))"

lemma wit_passes:
  "\<not> isl (fst (process_playbook_execution (recording (wit_services wit_gate_defs 1)) 1 None None None (no_calls wit_queued)))"
  "calls wit_done = [(1, 1)] \<and>
    map (\<lambda>r. (ex_id r, ex_playbook_id r, ex_status r)) (playbook_executions (rt_execs wit_done)) = [(1, ''pb'', ESuccess)]"
  by code_simp+

lemma wit_gate: "is_gate wit_gate_defs ''pb'' 0"
  by code_simp

text \<open>The playbook is defined when the system is empty.\<close>

lemma wit_paused_reached: "system_step\<^sup>*\<^sup>* ([], wit_system) (wit_gate_defs, wit_paused)"
proof -
  have d: "system_step ([], wit_system) (wit_gate_defs, wit_system)"
    by (rule ss_define) (simp add: running_steps_kept_def wit_system_def system_init_def exec_init_def)
  have p: "system_step (wit_gate_defs, wit_system) (wit_gate_defs, wit_queued)"
    unfolding wit_queued_def by (rule ss_operator) (rule qo_create)
  have "pass (recording (wit_services wit_gate_defs 1)) (no_calls wit_queued) True wit_paused"
    using pass_one [of "recording (wit_services wit_gate_defs 1)" 1 None None None "no_calls wit_queued", OF surjective_pairing]
      wit_passes(1) by (simp add: wit_paused_def)
  then have "system_step (wit_gate_defs, wit_queued) (wit_gate_defs, wit_paused)"
    by (rule ss_pass [rotated]) (simp add: wit_services_def)
  with d p show ?thesis by (meson converse_rtranclp_into_rtranclp rtranclp.rtrancl_refl)
qed

lemma wit_reached: "system_step\<^sup>*\<^sup>* ([], wit_system) (wit_gate_defs, wit_allowed)"
proof -
  have "system_step (wit_gate_defs, wit_paused) (wit_gate_defs, wit_allowed)"
    unfolding wit_allowed_def by (rule ss_approval) (rule op_approve)
  with wit_paused_reached show ?thesis by (rule rtranclp.rtrancl_into_rtrancl)
qed

lemma wit_pass: "\<exists>ok. pass (recording (wit_services wit_gate_defs 3)) (no_calls wit_allowed) ok wit_done"
  unfolding wit_done_def by (intro exI) (rule pass_one, rule surjective_pairing)

theorem no_step_past_open_gate_witness:
  "\<exists>r \<in> set (playbook_executions (rt_execs wit_done)).
     step_already_skipped_in_log (ex_steps_log r) (int 0) \<or> released wit_gate_defs (rt_approvals wit_done) ''pb'' 1 0"
proof -
  obtain ok where pass: "pass (recording (wit_services wit_gate_defs 3)) (no_calls wit_allowed) ok wit_done"
    using wit_pass by blast
  obtain r where r: "r \<in> set (playbook_executions (rt_execs wit_done))" "ex_id r = 1" "ex_playbook_id r = ''pb''"
    using wit_passes(2) by (auto simp: map_eq_Cons_conv)
  have "sv_definitions (wit_services wit_gate_defs 3) = wit_gate_defs" by (simp add: wit_services_def)
  from no_step_past_open_gate [OF wit_reached [unfolded wit_system_def] this pass _ r(1,2), of 1 0] r wit_passes(2) wit_gate
  show ?thesis by auto
qed

text \<open>The gate is the playbook's step 0; the finished run is recovered no more, and a second worker that
  was late makes no call for step 1 again.\<close>

lemma wit_done_log:
  "list_all (\<lambda>r. ex_id r = 1 \<and> step_already_succeeded_in_log (ex_steps_log r) (int 1)) (playbook_executions (rt_execs wit_done))"
  by code_simp

theorem completed_step_not_repeated_witness:
  "\<exists>s'. pass (recording (wit_services wit_gate_defs 4)) (no_calls wit_done) True s' \<and> (1, 1) \<notin> set (calls s')"
proof -
  have defs: "sv_definitions (wit_services wit_gate_defs t) = wit_gate_defs" for t by (simp add: wit_services_def)
  have "\<not> isl (fst (process_playbook_execution (recording (wit_services wit_gate_defs 3)) 1 None None None (no_calls wit_allowed)))"
    by code_simp
  then have "pass (recording (wit_services wit_gate_defs 3)) (no_calls wit_allowed) True wit_done"
    using pass_one [of "recording (wit_services wit_gate_defs 3)" 1 None None None "no_calls wit_allowed", OF surjective_pairing]
    by (simp add: wit_done_def)
  then have reach: "system_step\<^sup>*\<^sup>* ([], wit_system) (wit_gate_defs, wit_done)"
    using wit_reached defs by (blast intro: ss_pass rtranclp.rtrancl_into_rtrancl)
  obtain r where r: "r \<in> set (playbook_executions (rt_execs wit_done))" using wit_passes(2) by (cases "playbook_executions (rt_execs wit_done)") auto
  then have r': "ex_id r = 1" "step_already_succeeded_in_log (ex_steps_log r) (int 1)"
    using wit_done_log by (auto simp: list_all_iff)
  let ?next = "process_next_pending_playbook_execution (recording (wit_services wit_gate_defs 4)) None None None (no_calls wit_done)"
  have "\<not> isl (fst ?next)" by code_simp
  with pass_next [of "recording (wit_services wit_gate_defs 4)" None None None "no_calls wit_done", OF surjective_pairing]
  have pass: "pass (recording (wit_services wit_gate_defs 4)) (no_calls wit_done) True (snd ?next)" by simp
  from completed_step_not_repeated [OF reach [unfolded wit_system_def] defs pass r r'(2)] r'(1) pass show ?thesis by auto
qed

end
