(* ===== verification/Runner_Properties.thy ===== *)
theory Runner_Properties
  imports Gate_Safety
begin

text \<open>
  What the passes of the playbook worker do: the lease a pass takes and what its heartbeats add to
  it, passes over executions that wait for an approval or were refused one, the size of a batch, and
  what an exception in a batch does to the other executions.
\<close>

subsection \<open>Leases within a pass\<close>

lemma update_where_same: "(\<And>r. r \<in> set t \<Longrightarrow> p r \<Longrightarrow> f r = r) \<Longrightarrow> update_where p f t = t"
  by (induction t) auto

lemma lease_facts [simp]:
  "ex_id (take_lease w t d r) = ex_id r" "ex_playbook_id (take_lease w t d r) = ex_playbook_id r"
  "ex_alert_id (take_lease w t d r) = ex_alert_id r" "ex_steps_log (take_lease w t d r) = ex_steps_log r"
  "ex_last_completed_step (take_lease w t d r) = ex_last_completed_step r"
  "ex_status (take_lease w t d r) = ERunning" "ex_lease_owner (take_lease w t d r) = Some w"
  "ex_lease_expires_at (take_lease w t d r) = Some (t + seconds d)"
  "set_heartbeat t d (take_lease w t d r) = take_lease w t d r"
  by (simp_all add: take_lease_def set_heartbeat_def)

lemma take_lease_once:
  assumes inv: "exec_inv d0" and ex: "ex \<in> set (playbook_executions d0)" "ex_status ex = EPending"
    and free: "\<not> lease_is_active (ex_lease_expires_at ex) now"
  shows "lock_and_lease (ex_id ex) EPending now (take_lease w now d) d0 =
    (Inr (Some (take_lease w now d ex)),
     d0\<lparr>playbook_executions := update_where (\<lambda>x. ex_id x = ex_id ex) (take_lease w now d) (playbook_executions d0)\<rparr>)"
  using get_playbook_execution_eq [OF inv ex(1)] ex(2) free
    exec_update_one [where s = d0 and r = ex and f = "take_lease w now d" and guard = "\<lambda>r. ex_status r = EPending", OF inv ex]
  by (simp add: lock_and_lease_def keeps_pair_def exec_active_def)

text \<open>The heartbeat of a lease at the moment it was taken at changes nothing.\<close>

lemma heartbeat_same:
  assumes inv: "exec_inv d" and r: "r \<in> set (playbook_executions d)" "ex_status r = ERunning" "ex_lease_owner r = Some w"
    and lease: "ex_lease_expires_at r = Some (now + seconds n)" "set_heartbeat now n r = r"
    and args: "check_lease_args (Some owner) n = Inr w"
  shows "heartbeat_execution_lease clk (ex_id r) (Some owner) n (Some now) d = (Inr (Some r), d)"
proof -
  have "1 \<le> n" using args by (auto simp: check_lease_args_def Let_def split: if_splits)
  then have active: "lease_is_active (ex_lease_expires_at r) now" by (simp add: lease lease_is_active_def)
  have same: "update_where (\<lambda>x. ex_id x = ex_id r) (set_heartbeat now n) (playbook_executions d) = playbook_executions d"
    using distinct_key_unique [OF exec_inv_ids(2) [OF inv] _ r(1)] lease(2) by (intro update_where_same) metis
  have "keeps_pair (set_heartbeat now n) r" by (simp add: keeps_pair_def lease(2))
  with exec_update_one [where s = d and r = r and f = "set_heartbeat now n" and
      guard = "\<lambda>r. ex_status r = ERunning \<and> ex_lease_owner r = Some w \<and> lease_is_active (ex_lease_expires_at r) now",
      OF inv r(1)] r active args lease(2) same
  show ?thesis by (simp add: heartbeat_execution_lease_def)
qed

lemma claim_eq:
  assumes inv: "exec_inv d0" and nxt: "next_pending locked d0 = Some ex"
    and free: "\<not> lease_is_active (ex_lease_expires_at ex) now"
    and args: "check_lease_args (Some owner) n = Inr w"
  shows "claim_next_pending_playbook_execution_with_lease locked clk (Some owner) n (Some now) d0 =
    (Inr (Some (take_lease w now n ex)),
     d0\<lparr>playbook_executions := update_where (\<lambda>x. ex_id x = ex_id ex) (take_lease w now n) (playbook_executions d0)\<rparr>)"
  using take_lease_once [OF inv next_pending_row [OF nxt] free] nxt args
  by (simp add: claim_next_pending_playbook_execution_with_lease_def)

lemma claim_returned:
  assumes inv: "exec_inv d0"
    and claim: "claim_next_pending_playbook_execution_with_lease locked clk (Some owner) n (Some now) d0 = (Inr (Some r), d)"
  obtains ex w where "next_pending locked d0 = Some ex" "\<not> lease_is_active (ex_lease_expires_at ex) now"
    "check_lease_args (Some owner) n = Inr w" "r = take_lease w now n ex"
    "d = d0\<lparr>playbook_executions := update_where (\<lambda>x. ex_id x = ex_id ex) (take_lease w now n) (playbook_executions d0)\<rparr>"
proof -
  obtain w ex where w: "check_lease_args (Some owner) n = Inr w" and ex: "next_pending locked d0 = Some ex"
    and lock: "lock_and_lease (ex_id ex) EPending now (take_lease w now n) d0 = (Inr (Some r), d)"
    using claim by (auto simp: claim_next_pending_playbook_execution_with_lease_def split: sum.splits option.splits)
  have "get_playbook_execution (ex_id ex) d0 = Some ex" using next_pending_row(1) [OF ex] by (rule get_playbook_execution_eq [OF inv])
  with lock have "\<not> lease_is_active (ex_lease_expires_at ex) now" by (auto simp: lock_and_lease_def split: if_splits)
  with claim_eq [OF inv ex this w] claim ex w that show thesis by simp
qed

lemma claim_inv:
  "exec_inv d \<Longrightarrow> exec_inv (snd (claim_next_pending_playbook_execution_with_lease locked clk w n now d))"
  using claim_kept(1) by (simp add: runs_kept_def)

text \<open>The heartbeats of a pass add nothing to its lease. They are sent with the time the pass started
  at, so however long the steps take, each of them leaves the tables, and with them the time the lease
  runs out, as the claim left them.\<close>

theorem heartbeats_extend_nothing:
  assumes "exec_inv (rt_execs s)"
    and "on_execs (claim_next_pending_playbook_execution_with_lease (sv_locked sv) (sv_clock sv) (Some owner) n (Some now)) s =
      (Inr (Some r), t)"
  shows "heartbeat_lease sv (ex_id r) owner now n t = (Inr True, t) \<and> ex_lease_expires_at r = Some (now + seconds n)"
proof -
  note claim = on_execs_frame [OF assms(2), THEN conjunct2, THEN conjunct2]
  obtain ex w where ex: "next_pending (sv_locked sv) (rt_execs s) = Some ex" and w: "check_lease_args (Some owner) n = Inr w"
    and r: "r = take_lease w now n ex"
    and t: "rt_execs t = (rt_execs s)\<lparr>playbook_executions :=
      update_where (\<lambda>x. ex_id x = ex_id ex) (take_lease w now n) (playbook_executions (rt_execs s))\<rparr>"
    using claim_returned [OF assms(1) claim] by metis
  have inv: "exec_inv (rt_execs t)" using claim_inv [OF assms(1)] claim by (metis snd_conv)
  have "r \<in> set (playbook_executions (rt_execs t))"
    using next_pending_row(1) [OF ex] by (auto simp: t r set_update_where)
  from heartbeat_same [OF inv this _ _ _ _ w, of now "sv_clock sv"]
  have "on_execs (heartbeat_execution_lease (sv_clock sv) (ex_id r) (Some owner) n (Some now)) t = (Inr (Some r), t)"
    by (simp add: r on_execs_def)
  then show ?thesis by (simp add: heartbeat_lease_def r)
qed

subsection \<open>An exception in a batch\<close>

text \<open>What a branch compares does not depend on the lease of the execution.\<close>

lemma condition_lease:
  "evaluate_branch_condition fmt al c (take_lease w t n ex) l = evaluate_branch_condition fmt al c ex l"
proof -
  have "resolve_alert_field fmt al (take_lease w t n ex) f = resolve_alert_field fmt al ex f" for f
    by (simp add: resolve_alert_field_def)
  then show ?thesis unfolding evaluate_branch_condition_def by presburger
qed

lemma lease_duration:
  obtains n where "coerce_lease_duration sv None = Inr n" "1 \<le> n" "coerce_lease_duration sv (Some n) = Inr n"
proof
  let ?n = "case parse_int (coalesce (sv_lease_env sv) (show_int DEFAULT_PLAYBOOK_LEASE_SECONDS)) of
    None \<Rightarrow> DEFAULT_PLAYBOOK_LEASE_SECONDS | Some d \<Rightarrow> max 1 d"
  show "coerce_lease_duration sv None = Inr ?n" by (simp add: coerce_lease_duration_def)
  show "1 \<le> ?n" by (auto simp: DEFAULT_PLAYBOOK_LEASE_SECONDS_def split: option.splits)
  then show "coerce_lease_duration sv (Some ?n) = Inr ?n" by (simp add: coerce_lease_duration_def)
qed

lemma poisoned_step:
  assumes beat: "heartbeat_lease sv (ex_id ex) owner now n t = (Inr True, t)"
    and step: "dict_get step ''action'' = PStr ''branch''" "dict_get step ''condition'' = PDict c"
    and ev: "evaluate_branch_condition (sv_formats sv) (sv_alerts sv) c ex [] = Inl e"
      "\<And>code m. e \<noteq> PlaybookBranchConditionError code m"
  shows "run_steps sv ex prior owner n now (PDict step # steps)
    \<lparr>lp_index = 0, lp_log = [], lp_last = None, lp_failed = False, lp_message = PNone\<rparr> t = (Inl e, t)"
proof -
  have b: "execute_branch_step sv step 0 (PDict step # steps) [] ex now = Inl e"
    using ev step by (auto simp: execute_branch_step_def split: py_error.splits)
  then have b: "execute_branch_step sv (dict_or_empty (PDict step)) 0 (PDict step # steps) [] ex now = Inl e"
    by (simp add: dict_or_empty_def)
  have k: "is_action ''branch'' (PDict step)" "\<not> is_action ''require_approval'' (PDict step)"
    by (simp_all add: is_action_def step_action_def step)
  have "run_step sv ex prior owner n now (PDict step # steps)
      \<lparr>lp_index = 0, lp_log = [], lp_last = None, lp_failed = False, lp_message = PNone\<rparr> t = (Inl e, t)"
    using b k by (simp add: run_step_def Let_def step_already_succeeded_in_log_def step_already_skipped_in_log_def
        py_bind_known [where m = "heartbeat_lease sv (ex_id ex) owner now n", OF beat] del: py_bind.simps)
      (simp add: py_lift_def)
  then show ?thesis by (simp add: run_steps.simps)
qed


subsection \<open>Executions that wait for an approval\<close>

lemma waiting_pass:
  assumes "get_playbook_execution i (rt_execs s) = Some ex" "ex_status ex = EAwaiting"
    and "coerce_lease_duration sv d = Inr n"
  shows "process_playbook_execution sv i (Some now) w d s =
    process_awaiting_approval_execution sv ex now (resolve_worker_id sv w) n s"
  using assms by (simp add: process_playbook_execution_def py_lift_def coerce_now_def coalesce_def
      TERMINAL_EXECUTION_STATUSES_def)

lemma latest_request:
  assumes "fetchone (newest_first (filter (\<lambda>r. ar_playbook_execution_id r = Some x \<and>
      ar_playbook_step_index r = Some g) (approval_requests a))) = Some q"
    and "ar_status q = APending \<Longrightarrow> now < ar_expires_at q"
  shows "get_latest_playbook_step_approval_request clk x g True (Some now) a = (Inr (Some q), a)"
  using assms by (auto simp: get_latest_playbook_step_approval_request_def Let_def)

text \<open>A pass over an execution whose approval is still open does nothing: the state is the same to
  the last field, and the answer is that the approval is pending.\<close>

theorem pending_approval_changes_nothing:
  assumes "get_playbook_execution i (rt_execs s) = Some ex" "ex_status ex = EAwaiting"
    and "coerce_lease_duration sv d = Inr n" "latest_gate_entry (ex_steps_log ex) = Some g"
    and "fetchone (newest_first (filter (\<lambda>r. ar_playbook_execution_id r = Some (ex_id ex) \<and>
      ar_playbook_step_index r = Some g) (approval_requests (rt_approvals s)))) = Some q"
    and "ar_status q = APending" "now < ar_expires_at q"
  shows "process_playbook_execution sv i (Some now) w d s = (Inr (run_result_of ex EAwaiting EAwaiting ''skipped'' 0
    (PStr ''Playbook execution is still awaiting approval.'') (Some ''approval_pending'')), s)"
proof -
  have "on_approvals (get_latest_playbook_step_approval_request (sv_clock sv) (ex_id ex) g True (Some now)) s
      = (Inr (Some q), s)"
    using latest_request [OF assms(5)] assms(7) by (simp add: on_approvals_def)
  then show ?thesis
    using waiting_pass [OF assms(1-3)] assms(4,6) by (simp add: process_awaiting_approval_execution_def)
qed

text \<open>Finishing an execution that waits without a lease.\<close>

lemma finish_waiting:
  assumes inv: "exec_inv (rt_execs s)" and ex: "ex \<in> set (playbook_executions (rt_execs s))"
    and waits: "ex_status ex = EAwaiting" "ex_lease_owner ex = None" and owner: "strip owner \<noteq> []"
    and fw: "\<And>w. fw w = exec_update (ex_id ex) (lease_owner_guard w) (finish st c l done)" and st: "\<not> exec_active (finish st c l done ex)"
  shows "finish_or_waiting fw (ex_id ex) owner s = (Inr (Some (finish st c l done ex)),
    s\<lparr>rt_execs := (rt_execs s)\<lparr>playbook_executions := update_where (\<lambda>x. ex_id x = ex_id ex) (finish st c l done)
      (playbook_executions (rt_execs s))\<rparr>\<rparr>)"
proof -
  have none: "\<forall>r \<in> set (playbook_executions (rt_execs s)). \<not> (ex_id r = ex_id ex \<and> lease_owner_guard (Some owner) r)"
    using distinct_key_unique [OF exec_inv_ids(2) [OF inv] _ ex] waits(2) owner
    by (metis (no_types, lifting) lease_owner_guard_def coalesce_def option.case(2) option.distinct(1))
  have "pair_index_ok (playbook_executions (rt_execs s))" using inv by (simp add: exec_inv_def)
  then have first: "exec_update (ex_id ex) (lease_owner_guard (Some owner)) (finish st c l done) (rt_execs s) = (Inr None, rt_execs s)"
    using none by (simp add: exec_update_def update_where_none returning_empty fetchone_None Let_def)
  have "lease_owner_guard None ex" by (simp add: lease_owner_guard_def coalesce_def strip_def)
  moreover have "keeps_pair (finish st c l done) ex" using st by (simp add: keeps_pair_def finish_def set_progress_def)
  ultimately have second: "exec_update (ex_id ex) (lease_owner_guard None) (finish st c l done) (rt_execs s) =
      (Inr (Some (finish st c l done ex)), (rt_execs s)\<lparr>playbook_executions := update_where (\<lambda>x. ex_id x = ex_id ex)
        (finish st c l done) (playbook_executions (rt_execs s))\<rparr>)"
    using exec_update_one [OF inv ex] by blast
  show ?thesis using first second get_playbook_execution_eq [OF inv ex] waits
    by (simp add: finish_or_waiting_def fw on_execs_def opt_text_or_def)
qed

lemma release_unleased:
  assumes inv: "exec_inv (rt_execs s)" and r: "r \<in> set (playbook_executions (rt_execs s))" "ex_lease_owner r = None"
    and owner: "strip owner \<noteq> []"
  shows "release (ex_id r) owner s = (Inr (), s)"
proof -
  have "\<forall>x \<in> set (playbook_executions (rt_execs s)). \<not> (ex_id x = ex_id r \<and> ex_lease_owner x = Some (strip owner))"
    using distinct_key_unique [OF exec_inv_ids(2) [OF inv] _ r(1)] r(2) by (metis option.distinct(1))
  moreover have "pair_index_ok (playbook_executions (rt_execs s))" using inv by (simp add: exec_inv_def)
  ultimately show ?thesis using owner
    by (simp add: release_def on_execs_def release_execution_lease_def coalesce_def exec_update_def update_where_none
        returning_empty fetchone_None Let_def)
qed

lemma later_steps_skipped:
  assumes "k < length xs" "n \<le> k"
  shows "step_already_skipped_in_log (map PDict (skipped_later_step_entries fmt xs n reason now)) (int k)"
  using assms by (auto simp: step_already_skipped_in_log_def list_ex_iff skipped_later_step_entries_def
      skipped_entry_def flags_def entry_is_def)

text \<open>What a pass does with a refusal it has read.\<close>

definition refusal_log :: "py_formats \<Rightarrow> int \<Rightarrow> approval_request \<Rightarrow> pyval list \<Rightarrow> time \<Rightarrow> pyval list \<Rightarrow> pyval list" where
  "refusal_log fmt g q xs now l =
     note_decision fmt g q (approval_status_text (ar_status q)) (''approval_'' @ approval_status_text (ar_status q))
       (''Approval '' @ approval_status_text (ar_status q) @ ''; later steps were not run.'') now l @
     map PDict (skipped_later_step_entries fmt xs (nat (g + 1)) (''approval_'' @ approval_status_text (ar_status q)) now)"

lemma refusal_log_keeps: "\<exists>es. refusal_log fmt g q xs now l = l @ es"
  by (simp add: refusal_log_def note_decision_def)

lemma refusal_log_skips:
  "k < length xs \<Longrightarrow> g < int k \<Longrightarrow> step_already_skipped_in_log (refusal_log fmt g q xs now l) (int k)"
  using later_steps_skipped [of k xs "nat (g + 1)" fmt] by (simp add: refusal_log_def)

definition end_refused :: "time \<Rightarrow> pyval list \<Rightarrow> execution \<Rightarrow> execution" where
  "end_refused now l r = r\<lparr>ex_status := ENotActioned, ex_completed_at := Some now, ex_steps_log := l\<rparr>"

definition with_execution :: "row_id \<Rightarrow> execution \<Rightarrow> 'w runtime \<Rightarrow> 'w runtime" where
  "with_execution i r s = s\<lparr>rt_execs := (rt_execs s)\<lparr>playbook_executions :=
     update_where (\<lambda>x. ex_id x = i) (\<lambda>_. r) (playbook_executions (rt_execs s))\<rparr>\<rparr>"

lemma refused_pass:
  assumes inv: "exec_inv (rt_execs s)" and found: "get_playbook_execution i (rt_execs s) = Some ex"
    and waits: "ex_status ex = EAwaiting" "ex_lease_owner ex = None"
    and owner: "strip owner \<noteq> []"
    and q: "ar_status q = ADenied \<or> ar_status q = AExpired"
    and steps: "definition_steps (sv_definitions sv) (ex_playbook_id ex) = Some xs"
      "gate_behavior (Some xs) g (ar_status q) \<noteq> PStr ''branch''"
  shows "stop_refused sv ex g q now owner n s =
    (Inr (run_result_of ex EAwaiting ENotActioned ''not_actioned'' 0
       (PStr (''Approval '' @ approval_status_text (ar_status q) @ ''; simulated playbook stopped safely.'')) None),
     with_execution i (end_refused now (refusal_log (sv_formats sv) g q xs now (ex_steps_log ex)) ex) s)"
proof -
  have ex: "ex \<in> set (playbook_executions (rt_execs s))" "ex_id ex = i"
    using get_playbook_execution_mem [OF found] by auto
  define l where "l = refusal_log (sv_formats sv) g q xs now (ex_steps_log ex)"
  define f where "f = finish ENotActioned (Some now) l (ex_last_completed_step ex)"
  define t where "t = s\<lparr>rt_execs := (rt_execs s)\<lparr>playbook_executions :=
    update_where (\<lambda>x. ex_id x = ex_id ex) f (playbook_executions (rt_execs s))\<rparr>\<rparr>"
  have f_ex: "f ex = end_refused now l ex" by (simp add: f_def end_refused_def finish_def set_progress_def)
  have sel: "(case get_playbook_definition (ex_playbook_id ex) (sv_definitions sv) of
      None \<Rightarrow> Some [] | Some d \<Rightarrow> (case pd_steps d of PList xs \<Rightarrow> Some xs | _ \<Rightarrow> None)) = Some xs"
    using steps(1) by (auto simp: definition_steps_def split: option.splits pyval.splits)
  have "finish_or_waiting (set_playbook_execution_not_actioned (sv_clock sv) (ex_id ex) l (ex_last_completed_step ex) (Some now))
      (ex_id ex) owner s = (Inr (Some (f ex)), t)"
    unfolding f_def t_def
    by (rule finish_waiting [OF inv ex(1) waits owner])
      (simp_all add: set_playbook_execution_not_actioned_def coalesce_def finish_def exec_active_def)
  moreover have "release (ex_id ex) owner t = (Inr (), t)"
  proof -
    have "exec_inv (rt_execs t)"
    proof -
      have e: "exec_update (ex_id ex) (\<lambda>_. True) f (rt_execs s) = (Inr (Some (f ex)), rt_execs t)"
        using exec_update_one [OF inv ex(1), of "\<lambda>_. True" f] by (simp add: t_def keeps_pair_def f_def finish_def set_progress_def exec_active_def)
      have "exec_inv (snd (exec_update (ex_id ex) (\<lambda>_. True) f (rt_execs s)))"
        by (rule exec_update_inv [OF inv]) (simp add: f_def ew_finish)
      then show ?thesis by (simp add: e)
    qed
    moreover have "f ex \<in> set (playbook_executions (rt_execs t))" using ex(1) by (auto simp: t_def set_update_where)
    moreover have "ex_lease_owner (f ex) = None" "ex_id (f ex) = ex_id ex"
      using waits by (simp_all add: f_def finish_def set_progress_def)
    ultimately show ?thesis using release_unleased owner by metis
  qed
  ultimately have fin: "finalize_not_actioned sv (ex_id ex) owner l (ex_last_completed_step ex) now s = (Inr (), t)"
    by (simp add: finalize_not_actioned_def)
  have "update_where (\<lambda>x. ex_id x = ex_id ex) f (playbook_executions (rt_execs s)) =
      update_where (\<lambda>x. ex_id x = i) (\<lambda>_. f ex) (playbook_executions (rt_execs s))"
    unfolding update_where_def ex(2) using distinct_key_unique [OF exec_inv_ids(2) [OF inv] _ ex(1)] ex(2)
    by (intro map_cong refl) metis
  then have t: "t = with_execution i (end_refused now l ex) s" by (simp add: t_def with_execution_def f_ex)
  have c: "\<not> (gate_behavior (Some xs) g (ar_status q) = PStr ''branch'' \<and> Some xs \<noteq> None)" using steps(2) by simp
  show ?thesis
    unfolding stop_refused_def Let_def sel if_not_P [OF c] option.case refusal_log_def [symmetric] l_def [symmetric]
      py_bind_known [where m = "finalize_not_actioned sv (ex_id ex) owner l (ex_last_completed_step ex) now", OF fin]
    by (simp add: py_return_def t)
qed

text \<open>C8: A refused run stops. Let the request an execution waits for, the latest for its gate, be denied,
  expired, or past its expiry without anybody having noticed yet, and let the gate not say to branch
  then. The next pass ends the execution as not actioned: the row gets this status, the time of the pass
  and the entries the pass adds to its log, which show every later step as skipped, and keeps its other
  columns. If the expiry was not recorded, the pass records it; nothing else happens to the approvals, and
  nothing at all to other executions, letters, breakers and the world of adapters and commands. (The
  canonical outcome events the executor appends in the same pass are outside the model.)\<close>

theorem refused_run_stops:
  assumes inv: "exec_inv (rt_execs s)" "approval_inv (rt_approvals s)"
    and found: "get_playbook_execution i (rt_execs s) = Some ex"
    and waits: "ex_status ex = EAwaiting" "ex_lease_owner ex = None" and n: "coerce_lease_duration sv d = Inr n"
    and owner: "strip (resolve_worker_id sv w) \<noteq> []"
    and gate: "latest_gate_entry (ex_steps_log ex) = Some g"
    and q: "latest_step_request i g (rt_approvals s) = Some q" "ar_status q \<noteq> AApproved"
      "ar_status q = APending \<Longrightarrow> ar_expires_at q \<le> now"
    and steps: "definition_steps (sv_definitions sv) (ex_playbook_id ex) = Some xs"
      "gate_behavior (Some xs) g (if ar_status q = ADenied then ADenied else AExpired) \<noteq> PStr ''branch''"
  shows "\<exists>entries a res.
    process_playbook_execution sv i (Some now) w d s =
      (Inr res, with_execution i (end_refused now (ex_steps_log ex @ entries) ex) (s\<lparr>rt_approvals := a\<rparr>)) \<and>
    rr_outcome res = ''not_actioned'' \<and>
    (\<forall>k < length xs. g < int k \<longrightarrow> step_already_skipped_in_log (ex_steps_log ex @ entries) (int k)) \<and>
    (if ar_status q = APending
     then materialize_expiration (sv_clock sv) q now (rt_approvals s) = (Inr (set_expired now q), a)
     else a = rt_approvals s)"
proof -
  let ?o = "resolve_worker_id sv w"
  have x: "ex_id ex = i" using get_playbook_execution_mem [OF found] by simp
  define q' where "q' = (if ar_status q = APending then set_expired now q else q)"
  define a where "a = (if ar_status q = APending then snd (materialize_expiration (sv_clock sv) q now (rt_approvals s))
    else rt_approvals s)"
  have st: "ar_status q' = (if ar_status q = ADenied then ADenied else AExpired)"
    using q(2) by (cases "ar_status q") (simp_all add: q'_def set_expired_def)
  have "q \<in> set (approval_requests (rt_approvals s))"
    using fetchone_mem [OF q(1) [unfolded latest_step_request_def]] by (simp add: newest_first_def)
  then have expire: "materialize_expiration (sv_clock sv) q now (rt_approvals s) = (Inr (set_expired now q), a)"
    if "ar_status q = APending"
    using materialize_expiration_eq [OF inv(2) _ that] that by (simp add: a_def)
  have "get_latest_playbook_step_approval_request (sv_clock sv) i g True (Some now) (rt_approvals s) = (Inr (Some q'), a)"
  proof (cases "ar_status q = APending")
    case True
    then show ?thesis using q(1,3) expire [OF True]
      by (simp add: get_latest_playbook_step_approval_request_def latest_step_request_def Let_def q'_def coalesce_def)
  next
    case False
    then show ?thesis using q(1)
      by (simp add: get_latest_playbook_step_approval_request_def latest_step_request_def Let_def q'_def a_def)
  qed
  then have get: "on_approvals (get_latest_playbook_step_approval_request (sv_clock sv) (ex_id ex) g True (Some now)) s
      = (Inr (Some q'), s\<lparr>rt_approvals := a\<rparr>)"
    by (simp add: on_approvals_def x)
  have st': "ar_status q' = ADenied \<or> ar_status q' = AExpired" by (simp add: st)
  have "stop_refused sv ex g q' now ?o n (s\<lparr>rt_approvals := a\<rparr>) =
    (Inr (run_result_of ex EAwaiting ENotActioned ''not_actioned'' 0
       (PStr (''Approval '' @ approval_status_text (ar_status q') @ ''; simulated playbook stopped safely.'')) None),
     with_execution i (end_refused now (refusal_log (sv_formats sv) g q' xs now (ex_steps_log ex)) ex) (s\<lparr>rt_approvals := a\<rparr>))"
    by (rule refused_pass) (use inv found waits owner st' steps in \<open>simp_all add: st\<close>)
  moreover obtain entries where "refusal_log (sv_formats sv) g q' xs now (ex_steps_log ex) = ex_steps_log ex @ entries"
    using refusal_log_keeps by blast
  moreover have "step_already_skipped_in_log (refusal_log (sv_formats sv) g q' xs now (ex_steps_log ex)) (int k)"
    if "k < length xs" "g < int k" for k
    using that by (rule refusal_log_skips)
  ultimately show ?thesis
    using waiting_pass [OF found waits(1) n] gate get st' expire
    by (intro exI [of _ entries] exI [of _ a])
      (auto simp: process_awaiting_approval_execution_def run_result_of_def a_def split: if_splits)
qed

subsection \<open>The size of a batch\<close>

lemma claim_rounds_length:
  "claim_rounds n sv now owner d rs s = (Inr rs', s') \<Longrightarrow> length rs' \<le> length rs + n"
proof (induction n sv now owner d rs s arbitrary: rs' s' rule: claim_rounds.induct)
  case (2 n sv now owner d rs s)
  then show ?case by (fastforce split: prod.splits sum.splits option.splits)
qed simp

lemma process_each_length:
  "process_each is sv now owner d rs s = (Inr rs', s') \<Longrightarrow> length rs' = length rs + length is"
proof (induction "is" sv now owner d rs s arbitrary: rs' s' rule: process_each.induct)
  case (2 i "is" sv now owner d rs s)
  then show ?case by (fastforce split: prod.splits sum.splits)
qed simp

lemma waiting_list_length:
  "list_awaiting_approval_playbook_executions n d = Inr rows \<Longrightarrow> int (length rows) \<le> n"
  by (auto simp: list_awaiting_approval_playbook_executions_def oldest_with_status_def limit_def split: if_splits)

text \<open>A batch handles at least none and at most as many executions as its limit says, and the limit is
  between 1 and 50 whatever was asked for.\<close>

theorem batch_within_limit:
  assumes "process_playbook_execution_batch sv lmt now w d s = (Inr results, s')"
  shows "length results \<le> normalize_limit lmt \<and> 1 \<le> normalize_limit lmt \<and> normalize_limit lmt \<le> 50"
proof -
  obtain n rs t where rs: "claim_rounds (normalize_limit lmt) sv now (resolve_worker_id sv w) n [] s = (Inr rs, t)"
    and rest: "results = rs \<or> (\<exists>rows. length rs < normalize_limit lmt \<and>
      list_awaiting_approval_playbook_executions (int (normalize_limit lmt - length rs)) (rt_execs t) = Inr rows \<and>
      process_each (map ex_id rows) sv now (resolve_worker_id sv w) n rs t = (Inr results, s'))"
    using assms by (auto simp: process_playbook_execution_batch_def Let_def py_lift_def split: sum.splits prod.splits if_splits)
  have "length rs \<le> normalize_limit lmt" using claim_rounds_length [OF rs] by simp
  then have "length results \<le> normalize_limit lmt"
    using rest by (auto dest!: process_each_length waiting_list_length)
  moreover have "1 \<le> normalize_limit lmt \<and> normalize_limit lmt \<le> 50"
    by (auto simp: normalize_limit_def split: option.splits)
  ultimately show ?thesis by simp
qed

subsection \<open>A failure before a gate\<close>

text \<open>A playbook with a step that fails and lets the run go on, without and with a gate after it.\<close>

definition wit_failing_step :: pyval where
  "wit_failing_step = PDict [(''action'', PStr ''monitor''), (''params'', PDict []), (''on_failure'', PStr ''continue'')]"

definition wit_failing_defs :: "pyval list \<Rightarrow> definition_table" where
  "wit_failing_defs steps = [\<lparr>pd_id = ''pb'', pd_name = ''Notify'', pd_description = None, pd_trigger_config = PDict [],
     pd_steps = PList steps, pd_enabled = True, pd_created_at = 0, pd_updated_at = 0\<rparr>]"

definition wit_failing_services :: "pyval list \<Rightarrow> time \<Rightarrow> (unit \<times> call list) services" where
  "wit_failing_services steps t = recording ((wit_services (wit_failing_defs steps) t)
     \<lparr>sv_command := (\<lambda>c w. (Inr \<lparr>cr_success = False, cr_message = ''refused'', cr_error = None, cr_error_code = None,
         cr_enforcement = ''none'', cr_idempotent = False, cr_registry_record_id = None, cr_registry_event_id = None,
         cr_blocked_ip_id = None, cr_incident_id = None, cr_disposition = None\<rparr>, w))\<rparr>)"

definition wit_ungated :: "(unit \<times> call list) runtime" where
  "wit_ungated = snd (process_playbook_execution (wit_failing_services [wit_failing_step] 1) 1 None None None wit_queued)"

definition wit_gated_steps :: "pyval list" where
  "wit_gated_steps = [wit_failing_step, PDict [(''action'', PStr ''require_approval'')]]"

definition wit_gated_paused :: "(unit \<times> call list) runtime" where
  "wit_gated_paused = snd (process_playbook_execution (wit_failing_services wit_gated_steps 1) 1 None None None wit_queued)"

definition wit_gated_done :: "(unit \<times> call list) runtime" where
  "wit_gated_done = snd (process_playbook_execution (wit_failing_services wit_gated_steps 3) 1 None None None
     (wit_gated_paused\<lparr>rt_approvals := snd (approve_request (wit_at 2) 1 7 None None (rt_approvals wit_gated_paused))\<rparr>))"

text \<open>How a state ends: the executions, the number of letters, and whether every log has a failed step.\<close>

definition run_end :: "'w runtime \<Rightarrow> exec_status list \<times> nat \<times> bool" where
  "run_end s = (map ex_status (playbook_executions (rt_execs s)), length (soar_dead_letters (rt_letters s)),
     list_all (\<lambda>r. latest_failed_step_entry (ex_steps_log r) \<noteq> None) (playbook_executions (rt_execs s)))"

text \<open>A failure before a gate is forgotten. That a step failed is kept in a variable of the pass, which a
  pause at an approval gate does not save: the run whose step failed ends as failed with a
  dead letter, and the same run with an approved gate after that step ends as a success without one,
  the failed entry still in its log.\<close>

theorem failure_before_gate_forgotten:
  "run_end wit_ungated = ([EFailed], 1, True) \<and> run_end wit_gated_done = ([ESuccess], 0, True)"
  by (intro conjI; code_simp)

subsection \<open>Witnesses\<close>

text \<open>A claimed execution, and one that begins with a branch on a number too large for a float.\<close>

definition wit_poison_condition :: items where
  "wit_poison_condition = [(''source'', PStr ''alert''), (''field'', PStr ''reputation_score''), (''op'', PStr ''>=''),
     (''value'', PInt (2 ^ 1024))]"

definition wit_poison_step :: items where
  "wit_poison_step = [(''action'', PStr ''branch''), (''condition'', PDict wit_poison_condition), (''goto_true'', PStr ''end'')]"

definition wit_poison_defs :: definition_table where
  "wit_poison_defs = wit_failing_defs [PDict wit_poison_step, PDict [(''action'', PStr ''monitor''), (''label'', PStr ''end'')]]"

definition wit_poison_services :: "(unit \<times> call list) services" where
  "wit_poison_services = recording ((wit_services wit_poison_defs 1)\<lparr>sv_alerts := [wit_alert]\<rparr>)"

lemma wit_poison_checked:
  "validate_playbook_steps wit_breaker_formats (PList [PDict wit_poison_step, PDict [(''action'', PStr ''monitor''), (''label'', PStr ''end'')]]) None = Inr []"
  by code_simp

lemma wit_queued_inv: "exec_inv (rt_execs wit_queued)"
  using exec_insert_kept [OF exec_inv_init(1), of "wit_at 0" wit_gate_args]
  by (simp add: wit_queued_def wit_system_def system_init_def create_playbook_execution_def runs_kept_def case_prod_unfold
      split: option.splits) 


theorem heartbeats_extend_nothing_witness:
  "\<exists>(r :: execution) t. heartbeat_lease (recording (wit_services wit_gate_defs 9)) (ex_id r) ''w1'' 5 60 t = (Inr True, t) \<and>
     ex_lease_expires_at r = Some (5 + seconds 60)"
proof -
  let ?sv = "recording (wit_services wit_gate_defs 9)" and ?ex = "new_execution (wit_at 0) wit_gate_args 1"
  have rows: "playbook_executions (rt_execs wit_queued) = [?ex]"
    by (simp add: wit_queued_def wit_system_def system_init_def create_playbook_execution_def exec_insert_def exec_init_def
        pair_index_ok_def active_pairs_def Let_def)
  have nxt: "next_pending (sv_locked ?sv) (rt_execs wit_queued) = Some ?ex"
    by (simp add: next_pending_def rows wit_services_def new_execution_def limit_def fetchone_def order_asc_def)
  have args: "check_lease_args (Some ''w1'') 60 = Inr ''w1''" by code_simp
  have "claim_next_pending_playbook_execution_with_lease (sv_locked ?sv) (sv_clock ?sv) (Some ''w1'') 60 (Some 5) (rt_execs wit_queued)
      = (Inr (Some (take_lease ''w1'' 5 60 ?ex)), (rt_execs wit_queued)\<lparr>playbook_executions := update_where (\<lambda>x. ex_id x = ex_id ?ex)
          (take_lease ''w1'' 5 60) (playbook_executions (rt_execs wit_queued))\<rparr>)"
    by (rule claim_eq [OF wit_queued_inv nxt _ args]) (simp add: new_execution_def lease_is_active_def)
  then have "on_execs (claim_next_pending_playbook_execution_with_lease (sv_locked ?sv) (sv_clock ?sv) (Some ''w1'') 60 (Some 5)) wit_queued
      = (Inr (Some (take_lease ''w1'' 5 60 ?ex)), wit_queued\<lparr>rt_execs := (rt_execs wit_queued)\<lparr>playbook_executions :=
          update_where (\<lambda>x. ex_id x = ex_id ?ex) (take_lease ''w1'' 5 60) (playbook_executions (rt_execs wit_queued))\<rparr>\<rparr>)"
    by (simp add: on_execs_def)
  from heartbeats_extend_nothing [OF wit_queued_inv this] show ?thesis by blast
qed

text \<open>The execution that waits at the gate, and its request.\<close>

definition waiting_view :: "'w runtime \<Rightarrow> _" where
  "waiting_view s =
     (map (\<lambda>r. (ex_id r, ex_playbook_id r, ex_status r, ex_lease_owner r, latest_gate_entry (ex_steps_log r)))
        (playbook_executions (rt_execs s)),
      map (\<lambda>q. (ar_playbook_execution_id q, ar_playbook_step_index q, ar_status q, ar_expires_at q))
        (approval_requests (rt_approvals s)))"

lemma waiting_view:
  assumes "waiting_view s = ([(x, pb, st, w, g)], [(Some x, g', st', e)])"
  obtains ex q where "playbook_executions (rt_execs s) = [ex]" "ex_id ex = x" "ex_playbook_id ex = pb" "ex_status ex = st"
    "ex_lease_owner ex = w" "latest_gate_entry (ex_steps_log ex) = g" "get_playbook_execution x (rt_execs s) = Some ex"
    "approval_requests (rt_approvals s) = [q]" "ar_status q = st'" "ar_expires_at q = e"
    "\<And>i. g' = Some i \<Longrightarrow> fetchone (newest_first (filter (\<lambda>r. ar_playbook_execution_id r = Some (ex_id ex) \<and>
       ar_playbook_step_index r = Some i) (approval_requests (rt_approvals s)))) = Some q"
  using assms that
  by (auto simp: waiting_view_def map_eq_Cons_conv get_playbook_execution_def select_id_def fetchone_def newest_first_def
      order_desc_def)

lemma wit_waiting:
  "waiting_view wit_paused = ([(1, ''pb'', EAwaiting, None, Some 0)], [(Some 1, Some 0, APending, 1 + minutes DEFAULT_APPROVAL_TTL_MINUTES)])"
  by code_simp

theorem pending_approval_changes_nothing_witness:
  "snd (process_playbook_execution (recording (wit_services wit_gate_defs 2)) 1 (Some 2) None (Some 60) wit_paused) = wit_paused"
proof -
  obtain ex q where w: "ex_status ex = EAwaiting" "latest_gate_entry (ex_steps_log ex) = Some 0"
      "get_playbook_execution 1 (rt_execs wit_paused) = Some ex" "ar_status q = APending"
      "ar_expires_at q = 1 + minutes DEFAULT_APPROVAL_TTL_MINUTES"
      "fetchone (newest_first (filter (\<lambda>r. ar_playbook_execution_id r = Some (ex_id ex) \<and>
         ar_playbook_step_index r = Some 0) (approval_requests (rt_approvals wit_paused)))) = Some q"
    by (rule waiting_view [OF wit_waiting]) blast
  have "coerce_lease_duration (recording (wit_services wit_gate_defs 2)) (Some 60) = Inr 60"
    by (simp add: coerce_lease_duration_def)
  from pending_approval_changes_nothing [OF w(3,1) this w(2,6,4), of 2 None] w(5)
  show ?thesis by (simp add: DEFAULT_APPROVAL_TTL_MINUTES_def)
qed

lemma wit_paused_inv: "exec_inv (rt_execs wit_paused)" "approval_inv (rt_approvals wit_paused)"
  using system_ok [OF wit_paused_reached [unfolded wit_system_def]] by (simp_all add: state_ok_def tables_ok_def)

text \<open>The next pass comes a day later, and nobody has decided.\<close>

theorem refused_run_stops_witness:
  "\<exists>r a. ex_status r = ENotActioned \<and> step_already_skipped_in_log (ex_steps_log r) (int 1) \<and>
     snd (process_playbook_execution (recording (wit_services wit_gate_defs (minutes 1440))) 1 (Some (minutes 1440)) None
       (Some 60) wit_paused) = with_execution 1 r (wit_paused\<lparr>rt_approvals := a\<rparr>) \<and>
     map ar_status (approval_requests a) = [AExpired]"
proof -
  let ?sv = "recording (wit_services wit_gate_defs (minutes 1440))"
  obtain ex q where w: "ex_status ex = EAwaiting" "ex_lease_owner ex = None"
      "latest_gate_entry (ex_steps_log ex) = Some 0" "get_playbook_execution 1 (rt_execs wit_paused) = Some ex"
      "ar_status q = APending" "ex_playbook_id ex = ''pb''" "ar_expires_at q = 1 + minutes DEFAULT_APPROVAL_TTL_MINUTES"
      "approval_requests (rt_approvals wit_paused) = [q]" "ex_id ex = 1"
      "fetchone (newest_first (filter (\<lambda>r. ar_playbook_execution_id r = Some (ex_id ex) \<and>
         ar_playbook_step_index r = Some 0) (approval_requests (rt_approvals wit_paused)))) = Some q"
    by (rule waiting_view [OF wit_waiting]) blast
  have n: "coerce_lease_duration ?sv (Some 60) = Inr 60" by (simp add: coerce_lease_duration_def)
  have o: "strip (resolve_worker_id ?sv None) \<noteq> []" by code_simp
  have defs: "definition_steps (sv_definitions ?sv) ''pb'' = Some wit_gate_steps" by code_simp
  have stops: "gate_behavior (Some wit_gate_steps) 0 AExpired \<noteq> PStr ''branch''" by code_simp
  have late: "ar_expires_at q \<le> minutes 1440" unfolding w(7) by code_simp
  have q: "latest_step_request 1 0 (rt_approvals wit_paused) = Some q" using w(9,10) by (simp add: latest_step_request_def)
  obtain entries a res where r: "process_playbook_execution ?sv 1 (Some (minutes 1440)) None (Some 60) wit_paused =
      (Inr res, with_execution 1 (end_refused (minutes 1440) (ex_steps_log ex @ entries) ex) (wit_paused\<lparr>rt_approvals := a\<rparr>))"
      "\<forall>k < length wit_gate_steps. 0 < int k \<longrightarrow> step_already_skipped_in_log (ex_steps_log ex @ entries) (int k)"
      "materialize_expiration (sv_clock ?sv) q (minutes 1440) (rt_approvals wit_paused) = (Inr (set_expired (minutes 1440) q), a)"
    using refused_run_stops [OF wit_paused_inv w(4,1,2) n o w(3) q, of "minutes 1440" wit_gate_steps] w(5) defs stops late
    by (auto simp: w(6))
  have "step_already_skipped_in_log (ex_steps_log ex @ entries) (int 1)" using r(2) [THEN spec, of 1] by (simp add: wit_gate_steps_def)
  moreover have "map ar_status (approval_requests a) = [AExpired]"
    using materialize_expiration_eq [OF wit_paused_inv(2) _ w(5), of "sv_clock ?sv" "minutes 1440"] r(3) w(8)
    by (auto simp: decide_def write_audit_event_def insert_event_def update_where_def set_expired_def split: if_splits)
  ultimately show ?thesis using r(1) by (intro exI [of _ "end_refused (minutes 1440) (ex_steps_log ex @ entries) ex"] exI [of _ a])
    (simp add: end_refused_def)
qed

theorem batch_within_limit_witness:
  "\<exists>results. fst (process_playbook_execution_batch (recording (wit_services wit_gate_defs 1)) (PInt 500) None None None wit_queued) =
     Inr results \<and> length results \<le> 50"
proof -
  let ?run = "process_playbook_execution_batch (recording (wit_services wit_gate_defs 1)) (PInt 500) None None None wit_queued"
  have "\<not> isl (fst ?run)" by code_simp
  then obtain results where r: "fst ?run = Inr results" by (cases "fst ?run") auto
  then have "?run = (Inr results, snd ?run)" by (metis prod.collapse)
  from batch_within_limit [OF this] r show ?thesis by auto
qed

end
