(* ===== verification/Ip_Address.thy ===== *)
theory Ip_Address
  imports Py_Values "HOL-Library.Word"
begin

text \<open>
  What the sources use of Python's module \<open>ipaddress\<close> (3.11): \<open>ip_address\<close> and \<open>str\<close> of an address,
  \<open>ip_network\<close> and \<open>in\<close>, and the classification of addresses that may not be blocked. Shown here:
  the text of an address reads back as the address, so normalising twice changes nothing.
\<close>

unbundle bit_operations_syntax

subsection \<open>Text in parts\<close>

text \<open>\<open>s.split(c)\<close> for a separator of one character.\<close>

fun split_on :: "char \<Rightarrow> string \<Rightarrow> string list" where
  "split_on c [] = [[]]"
| "split_on c (x # xs) =
     (if x = c then [] # split_on c xs
      else case split_on c xs of [] \<Rightarrow> [[x]] | y # ys \<Rightarrow> (x # y) # ys)"

lemma split_on_ne [simp]: "split_on c s \<noteq> []"
  by (induction s) (auto split: list.splits)

lemma split_on_none: "c \<notin> set s \<Longrightarrow> split_on c s = [s]"
  by (induction s) auto

lemma split_on_append:
  "c \<notin> set s \<Longrightarrow> split_on c (s @ c # rest) = s # split_on c rest"
  by (induction s) auto

lemma split_on_chars: "set s \<subseteq> insert c (\<Union> (set ` set (split_on c s)))"
proof (induction s)
  case (Cons a s)
  then show ?case by (cases "split_on c s") auto
qed simp

lemma join_Cons: "join sep (x # y # ys) = x @ sep @ join sep (y # ys)"
  by (simp add: join_def)

lemma join_single [simp]: "join sep [x] = x"
  by (simp add: join_def)

lemma split_on_join:
  "xs \<noteq> [] \<Longrightarrow> \<forall>x \<in> set xs. c \<notin> set x \<Longrightarrow> split_on c (join [c] xs) = xs"
proof (induction xs)
  case (Cons x xs)
  then show ?case by (cases xs) (simp_all add: split_on_none join_Cons split_on_append)
qed simp

lemma set_join: "set (join sep xs) \<subseteq> set sep \<union> \<Union> (set ` set xs)"
  by (cases xs) (auto simp: join_def)

text \<open>The text before the first \<open>c\<close>, and what is after it, if there is one: \<open>s.partition(c)\<close>.\<close>

fun partition_on :: "char \<Rightarrow> string \<Rightarrow> string \<times> string option" where
  "partition_on c [] = ([], None)"
| "partition_on c (x # xs) =
     (if x = c then ([], Some xs) else case partition_on c xs of (a, b) \<Rightarrow> (x # a, b))"

lemma partition_on_none: "c \<notin> set s \<Longrightarrow> partition_on c s = (s, None)"
  by (induction s) auto

lemma partition_on_append: "c \<notin> set s \<Longrightarrow> partition_on c (s @ c # rest) = (s, Some rest)"
  by (induction s) auto

subsection \<open>Numerals\<close>

text \<open>The \<open>n\<close> digits of a number to a base, the most significant first, and the number of digits.\<close>

fun to_digits :: "nat \<Rightarrow> nat \<Rightarrow> nat \<Rightarrow> nat list" where
  "to_digits b 0 w = []"
| "to_digits b (Suc n) w = to_digits b n (w div b) @ [w mod b]"

definition of_digits :: "nat \<Rightarrow> nat list \<Rightarrow> nat" where
  "of_digits b ds = foldl (\<lambda>n d. n * b + d) 0 ds"

lemma length_to_digits [simp]: "length (to_digits b n w) = n"
  by (induction n arbitrary: w) auto

lemma to_digits_less: "0 < b \<Longrightarrow> d \<in> set (to_digits b n w) \<Longrightarrow> d < b"
  by (induction n arbitrary: w) auto

lemma of_to_digits: "of_digits b (to_digits b n w) = w mod b ^ n"
proof (induction n arbitrary: w)
  case (Suc n)
  have "of_digits b (to_digits b (Suc n) w) = of_digits b (to_digits b n (w div b)) * b + w mod b"
    by (simp add: of_digits_def)
  also have "\<dots> = w mod (b * b ^ n)" unfolding Suc by (simp add: mod_mult2_eq mult.commute)
  finally show ?case by simp
qed (simp add: of_digits_def)

definition hex_digits :: string where
  "hex_digits = ''0123456789abcdefABCDEF''"

definition hex_char :: "nat \<Rightarrow> char" where
  "hex_char d = ''0123456789abcdef'' ! d"

text \<open>\<open>'%x' % n\<close> and \<open>int(s, 16)\<close>.\<close>

fun show_hex :: "nat \<Rightarrow> string" where
  "show_hex n = (if n < 16 then [hex_char n] else show_hex (n div 16) @ [hex_char (n mod 16)])"

declare show_hex.simps [simp del]

definition hex_value :: "char \<Rightarrow> nat" where
  "hex_value c =
     (let n = of_char c :: nat
      in if n \<le> 57 then n - 48 else if n \<le> 70 then n - 55 else n - 87)"

definition read_hex :: "string \<Rightarrow> nat" where
  "read_hex s = of_digits 16 (map hex_value s)"

lemma hex_value_char [simp]: "d < 16 \<Longrightarrow> hex_value (hex_char d) = d"
proof -
  have "\<forall>d \<in> set [0..<16]. hex_value (hex_char d) = d" by code_simp
  then show "d < 16 \<Longrightarrow> hex_value (hex_char d) = d" by simp
qed

definition hex_lower :: "char \<Rightarrow> bool" where
  "hex_lower c \<longleftrightarrow> c \<in> set ''0123456789abcdef''"

lemma hex_char_digit: "d < 16 \<Longrightarrow> hex_lower (hex_char d)"
  unfolding hex_char_def hex_lower_def by (rule nth_mem) simp

lemma read_show_hex [simp]: "read_hex (show_hex n) = n"
proof (induction n rule: show_hex.induct)
  case (1 n)
  show ?case
  proof (cases "n < 16")
    case True
    then show ?thesis by (simp add: show_hex.simps [of n] read_hex_def of_digits_def)
  next
    case False
    then have "read_hex (show_hex (n div 16)) = n div 16" using 1 by blast
    then show ?thesis using False by (simp add: show_hex.simps [of n] read_hex_def of_digits_def)
  qed
qed

lemma show_hex_chars: "\<forall>c \<in> set (show_hex n). hex_lower c"
proof (induction n rule: show_hex.induct)
  case (1 n)
  then show ?case using hex_char_digit [of n] hex_char_digit [of "n mod 16"]
    by (auto simp: show_hex.simps [of n])
qed

lemma show_hex_length: "n < 16 ^ k \<Longrightarrow> 0 < k \<Longrightarrow> length (show_hex n) \<le> k"
proof (induction k arbitrary: n)
  case (Suc k)
  show ?case
  proof (cases "n < 16")
    case False
    then have "0 < k" using Suc.prems(1) by (cases k) auto
    moreover have "n div 16 < 16 ^ k" using Suc.prems(1) by (simp add: div_less_iff_less_mult mult.commute)
    ultimately have "length (show_hex (n div 16)) \<le> k" by (intro Suc.IH)
    then show ?thesis using False by (simp add: show_hex.simps [of n])
  qed (simp add: show_hex.simps [of n])
qed simp

lemma show_hex_ne [simp]: "show_hex n \<noteq> []"
  by (simp add: show_hex.simps [of n])

lemma show_nat_ne [simp]: "show_nat n \<noteq> []"
  by (simp add: show_nat.simps [of n])

lemma show_nat_length: "n < 10 ^ k \<Longrightarrow> 0 < k \<Longrightarrow> length (show_nat n) \<le> k"
proof (induction k arbitrary: n)
  case (Suc k)
  show ?case
  proof (cases "n < 10")
    case False
    then have "0 < k" using Suc.prems(1) by (cases k) auto
    moreover have "n div 10 < 10 ^ k" using Suc.prems(1) by (simp add: div_less_iff_less_mult mult.commute)
    ultimately have "length (show_nat (n div 10)) \<le> k" by (intro Suc.IH)
    then show ?thesis using False by (simp add: show_nat.simps [of n])
  qed (simp add: show_nat.simps [of n])
qed simp

lemma show_nat_zero: "show_nat 0 = ''0''"
  by code_simp

lemma show_nat_leading: "0 < n \<Longrightarrow> hd (show_nat n) \<noteq> CHR ''0''"
proof (induction n rule: show_nat.induct)
  case (1 n)
  show ?case
  proof (cases "n < 10")
    case True
    then have "(of_char (hd (show_nat n)) :: nat) = 48 + n" by (simp add: show_nat.simps [of n])
    moreover have "(of_char CHR ''0'' :: nat) = 48" by simp
    ultimately show ?thesis using 1(2) by (metis add_cancel_right_right less_numeral_extra(3))
  next
    case False
    then have "hd (show_nat (n div 10)) \<noteq> CHR ''0''" using 1 by simp
    then show ?thesis using False by (simp add: show_nat.simps [of n] hd_append)
  qed
qed

subsection \<open>Addresses\<close>

text \<open>An IPv6 address may carry a scope, the text after \<open>%\<close>.\<close>

datatype ip_address = IPv4 "32 word" | IPv6 "128 word" "string option"

definition digit_char :: "char \<Rightarrow> bool" where
  "digit_char c \<longleftrightarrow> c \<in> set ''0123456789''"

definition parse_octet :: "string \<Rightarrow> nat option" where
  "parse_octet s =
     (if s = [] \<or> \<not> list_all digit_char s \<or> 3 < length s then None
      else if s \<noteq> ''0'' \<and> hd s = CHR ''0'' then None
      else if 255 < read_nat s then None
      else Some (read_nat s))"

definition ipv4_from_string :: "string \<Rightarrow> 32 word option" where
  "ipv4_from_string s =
     (let octets = split_on CHR ''.'' s
      in if length octets \<noteq> 4 then None
         else map_option (\<lambda>ds. word_of_nat (of_digits 256 ds)) (those (map parse_octet octets)))"

definition parse_hextet :: "string \<Rightarrow> nat option" where
  "parse_hextet s =
     (if s = [] \<or> \<not> list_all (\<lambda>c. c \<in> set hex_digits) s \<or> 4 < length s then None else Some (read_hex s))"

text \<open>The parts between the colons; a last part with dots is an IPv4 address and stands for two.\<close>

definition ipv6_parts :: "string \<Rightarrow> string list option" where
  "ipv6_parts s =
     (let parts = split_on CHR '':'' s
      in if length parts < 3 then None
         else if CHR ''.'' \<in> set (last parts)
         then map_option (\<lambda>w. butlast parts @
                [show_hex (unat (drop_bit 16 w AND 0xFFFF)), show_hex (unat (w AND 0xFFFF))])
              (ipv4_from_string (last parts))
         else Some parts)"

definition hextets_value :: "string list \<Rightarrow> nat \<Rightarrow> string list \<Rightarrow> 128 word option" where
  "hextets_value high skipped low =
     map_option (\<lambda>ds. word_of_nat (of_digits 65536 ds))
       (those (map parse_hextet high @ replicate skipped (Some 0) @ map parse_hextet low))"

definition ipv6_from_string :: "string \<Rightarrow> 128 word option" where
  "ipv6_from_string s =
     (case ipv6_parts s of
        None \<Rightarrow> None
      | Some parts \<Rightarrow>
          if 9 < length parts then None
          else (case filter (\<lambda>i. parts ! i = []) [1..<length parts - 1] of
             [] \<Rightarrow>
               if length parts \<noteq> 8 \<or> hd parts = [] \<or> last parts = [] then None
               else hextets_value parts 0 []
           | [skip] \<Rightarrow>
               let hi = (if hd parts = [] then skip - 1 else skip);
                   lo = (if last parts = [] then length parts - skip - 2 else length parts - skip - 1)
               in if hd parts = [] \<and> hi \<noteq> 0 \<or> last parts = [] \<and> lo \<noteq> 0 \<or> 8 \<le> hi + lo then None
                  else hextets_value (take hi parts) (8 - (hi + lo)) (drop (length parts - lo) parts)
           | _ \<Rightarrow> None))"

text \<open>\<open>ip_address(s)\<close>: an IPv4 address if it reads as one, then an IPv6 address.\<close>

definition ip_address_of :: "string \<Rightarrow> ip_address option" where
  "ip_address_of s =
     (if CHR ''/'' \<in> set s then None
      else case ipv4_from_string s of
        Some w \<Rightarrow> Some (IPv4 w)
      | None \<Rightarrow>
          (case partition_on CHR ''%'' s of (addr, scope) \<Rightarrow>
             if (case scope of None \<Rightarrow> False | Some z \<Rightarrow> z = [] \<or> CHR ''%'' \<in> set z) then None
             else map_option (\<lambda>w. IPv6 w scope) (ipv6_from_string addr)))"

definition ip_address :: "string \<Rightarrow> ip_address result" where
  "ip_address s =
     (case ip_address_of s of
        Some a \<Rightarrow> Inr a
      | None \<Rightarrow> Inl (ValueError (py_repr s @ '' does not appear to be an IPv4 or IPv6 address'')))"

subsection \<open>The text of an address\<close>

text \<open>The loop of \<open>_compress_hextets\<close>: the longest run of zeros, the first of them when several are.\<close>

fun zero_runs :: "nat \<Rightarrow> nat \<times> nat \<Rightarrow> nat \<times> nat \<Rightarrow> string list \<Rightarrow> nat \<times> nat" where
  "zero_runs i best run [] = best"
| "zero_runs i best run (h # hs) =
     (if h = ''0''
      then let run' = (if snd run = 0 then i else fst run, snd run + 1)
           in zero_runs (i + 1) (if snd best < snd run' then run' else best) run' hs
      else zero_runs (i + 1) best (0, 0) hs)"

definition compress_hextets :: "string list \<Rightarrow> string list" where
  "compress_hextets hs =
     (case zero_runs 0 (0, 0) (0, 0) hs of (start, len) \<Rightarrow>
        if 1 < len
        then (if start = 0 then [[]] else []) @ take start hs @ [[]] @ drop (start + len) hs @
             (if start + len = length hs then [[]] else [])
        else hs)"

definition str_ipv4 :: "32 word \<Rightarrow> string" where
  "str_ipv4 w = join ''.'' (map show_nat (to_digits 256 4 (unat w)))"

definition str_ipv6 :: "128 word \<Rightarrow> string" where
  "str_ipv6 w = join '':'' (compress_hextets (map show_hex (to_digits 65536 8 (unat w))))"

fun str_ip :: "ip_address \<Rightarrow> string" where
  "str_ip (IPv4 w) = str_ipv4 w"
| "str_ip (IPv6 w None) = str_ipv6 w"
| "str_ip (IPv6 w (Some z)) = str_ipv6 w @ CHR ''%'' # z"

subsection \<open>The text reads back\<close>

lemma those_map_Some: "\<forall>x \<in> set xs. f x = Some (g x) \<Longrightarrow> those (map f xs) = Some (map g xs)"
  by (induction xs) auto

lemma those_Some_set: "those xs = Some ys \<Longrightarrow> x \<in> set xs \<Longrightarrow> x \<noteq> None"
  by (induction xs arbitrary: ys) (auto split: option.splits)

lemma those_append: "those (xs @ ys) = (case those xs of None \<Rightarrow> None | Some as \<Rightarrow> map_option ((@) as) (those ys))"
  by (induction xs; cases "those ys") (auto split: option.splits)

lemma show_nat_digit_char: "list_all digit_char (show_nat n)"
proof (induction n rule: show_nat.induct)
  case (1 n)
  have "\<forall>d \<in> set [0..<10]. digit_char (char_of (48 + d))" by code_simp
  then have "digit_char (char_of (48 + d))" if "d < 10" for d :: nat using that by simp
  with 1 show ?case by (cases "n < 10") (simp_all add: show_nat.simps [of n])
qed

lemma parse_octet_show [simp]:
  assumes "n < 256" shows "parse_octet (show_nat n) = Some n"
proof -
  have "length (show_nat n) \<le> 3" using assms by (intro show_nat_length) simp_all
  moreover have "show_nat n = ''0'' \<or> hd (show_nat n) \<noteq> CHR ''0''"
    using show_nat_leading [of n] show_nat_zero by (cases "n = 0") auto
  ultimately show ?thesis using assms show_nat_digit_char [of n] by (auto simp: parse_octet_def)
qed

lemma parse_octet_digits: "parse_octet s \<noteq> None \<Longrightarrow> \<forall>c \<in> set s. digit_char c"
  by (auto simp: parse_octet_def list_all_iff split: if_splits)

lemma ipv4_from_str [simp]: "ipv4_from_string (str_ipv4 w) = Some w"
proof -
  let ?ds = "to_digits 256 4 (unat w)"
  have dot: "CHR ''.'' \<notin> set (show_nat n)" for n
  proof
    assume "CHR ''.'' \<in> set (show_nat n)"
    then have "digit_char CHR ''.''" using show_nat_digit_char [of n] by (simp add: list_all_iff)
    then show False by (simp add: digit_char_def)
  qed
  have len: "length ?ds = 4" by (simp del: to_digits.simps)
  then have "?ds \<noteq> []" by (metis list.size(3) zero_neq_numeral)
  then have split: "split_on CHR ''.'' (str_ipv4 w) = map show_nat ?ds"
    unfolding str_ipv4_def using dot by (intro split_on_join) (simp_all del: to_digits.simps)
  have "those (map parse_octet (map show_nat ?ds)) = Some ?ds"
    using those_map_Some [of ?ds "parse_octet \<circ> show_nat" id] to_digits_less [of 256 _ 4 "unat w"]
    by (simp del: to_digits.simps)
  moreover have "of_digits 256 ?ds = unat w"
    using unsigned_less [of w, where 'a = nat] by (simp add: of_to_digits del: to_digits.simps)
  ultimately show ?thesis unfolding ipv4_from_string_def Let_def split
    using len by (simp del: to_digits.simps)
qed

lemma ipv4_chars:
  assumes "ipv4_from_string s = Some w" "c \<in> set s"
  shows "digit_char c \<or> c = CHR ''.''"
proof -
  obtain ds where "those (map parse_octet (split_on CHR ''.'' s)) = Some ds"
    using assms(1) by (auto simp: ipv4_from_string_def Let_def split: if_splits)
  then have "\<forall>x \<in> set (split_on CHR ''.'' s). \<forall>c \<in> set x. digit_char c"
    using those_Some_set parse_octet_digits by fastforce
  then show ?thesis using split_on_chars [of s "CHR ''.''"] assms(2) by auto
qed

lemma hex_lower_digit: "hex_lower c \<Longrightarrow> c \<in> set hex_digits"
proof -
  have "\<forall>c \<in> set ''0123456789abcdef''. c \<in> set hex_digits" by code_simp
  then show "hex_lower c \<Longrightarrow> c \<in> set hex_digits" unfolding hex_lower_def by blast
qed

lemma parse_hextet_show [simp]:
  assumes "n < 65536" shows "parse_hextet (show_hex n) = Some n"
proof -
  have "length (show_hex n) \<le> 4" using assms by (intro show_hex_length) simp_all
  moreover have "list_all (\<lambda>c. c \<in> set hex_digits) (show_hex n)"
    using show_hex_chars [of n] hex_lower_digit by (auto simp: list_all_iff)
  ultimately show ?thesis by (simp add: parse_hextet_def)
qed

text \<open>The run that is left out holds zeros only.\<close>

definition zero_run :: "string list \<Rightarrow> nat \<times> nat \<Rightarrow> bool" where
  "zero_run hs r \<longleftrightarrow> fst r + snd r \<le> length hs \<and> (\<forall>j. fst r \<le> j \<and> j < fst r + snd r \<longrightarrow> hs ! j = ''0'')"

lemma zero_run_append: "zero_run hs r \<Longrightarrow> zero_run (hs @ hs') r"
  by (auto simp: zero_run_def nth_append)

lemma zero_run_extend:
  assumes "zero_run hs r" "snd r = 0 \<or> fst r + snd r = length hs"
  shows "zero_run (hs @ [''0'']) (if snd r = 0 then length hs else fst r, snd r + 1)"
  using assms by (cases "snd r = 0") (auto simp: zero_run_def nth_append less_Suc_eq)

lemma zero_runs_zero:
  assumes "zero_run pre best" "zero_run pre run" "snd run = 0 \<or> fst run + snd run = length pre"
  shows "zero_run (pre @ hs) (zero_runs (length pre) best run hs)"
  using assms
proof (induction hs arbitrary: pre best run)
  case (Cons h hs)
  show ?case
  proof (cases "h = ''0''")
    case True
    define run' where "run' = (if snd run = 0 then length pre else fst run, snd run + 1)"
    have run': "zero_run (pre @ [h]) run'" "fst run' + snd run' = length (pre @ [h])"
      using zero_run_extend [OF Cons.prems(2,3)] Cons.prems(3) True by (auto simp: run'_def)
    have "zero_run (pre @ [h]) (if snd best < snd run' then run' else best)"
      using run'(1) zero_run_append [OF Cons.prems(1)] by simp
    from Cons.IH [OF this run'(1) disjI2 [OF run'(2)]]
    have "zero_run (pre @ h # hs) (zero_runs (Suc (length pre)) (if snd best < snd run' then run' else best) run' hs)"
      by simp
    also have "zero_runs (Suc (length pre)) (if snd best < snd run' then run' else best) run' hs =
        zero_runs (length pre) best run (h # hs)"
      using True by (simp add: run'_def Let_def)
    finally show ?thesis .
  next
    case False
    have "zero_run (pre @ [h]) (0, 0)" by (simp add: zero_run_def)
    from Cons.IH [OF zero_run_append [OF Cons.prems(1)] this] show ?thesis using False by simp
  qed
qed simp

lemma zero_run_split:
  assumes "zero_runs 0 (0, 0) (0, 0) hs = (start, len)"
  shows "start + len \<le> length hs" "hs = take start hs @ replicate len ''0'' @ drop (start + len) hs"
proof -
  have "zero_run ([] @ hs) (zero_runs (length ([] :: string list)) (0, 0) (0, 0) hs)"
    by (rule zero_runs_zero) (simp_all add: zero_run_def)
  then have z: "start + len \<le> length hs \<and> (\<forall>j. start \<le> j \<and> j < start + len \<longrightarrow> hs ! j = ''0'')"
    using assms by (simp add: zero_run_def)
  then show "start + len \<le> length hs" by simp
  have "take len (drop start hs) = replicate len ''0''"
    using z by (intro nth_equalityI) auto
  then show "hs = take start hs @ replicate len ''0'' @ drop (start + len) hs"
    by (metis append_take_drop_id drop_drop add.commute)
qed

text \<open>How the parts around the gap read.\<close>

lemma filter_gap: "1 \<le> k \<Longrightarrow> k < n \<Longrightarrow> \<forall>i. 1 \<le> i \<and> i < n \<longrightarrow> (P i \<longleftrightarrow> i = k) \<Longrightarrow> filter P [1..<n] = [k]"
proof -
  assume k: "1 \<le> k" "k < n" and P: "\<forall>i. 1 \<le> i \<and> i < n \<longrightarrow> (P i \<longleftrightarrow> i = k)"
  have "[1..<n] = [1..<k] @ k # [Suc k..<n]"
    using k by (metis append_Cons append_Nil le_Suc_ex less_imp_le_nat upt_add_eq_append upt_conv_Cons)
  moreover have "filter P [1..<k] = []" "filter P [Suc k..<n] = []"
    using P k by (auto simp: filter_empty_conv)
  ultimately show "filter P [1..<n] = [k]" using P k by simp
qed

lemma hextets_value_show:
  assumes "map show_hex hs = high @ replicate n ''0'' @ low" "\<forall>h \<in> set hs. h < 65536"
  shows "hextets_value high n low = Some (word_of_nat (of_digits 65536 hs))"
proof -
  have "those (map parse_hextet (map show_hex hs)) = Some hs"
    using those_map_Some [of hs "parse_hextet \<circ> show_hex" id] assms(2) by simp
  moreover have "parse_hextet ''0'' = Some 0" by code_simp
  then have "map parse_hextet (map show_hex hs) =
      map parse_hextet high @ replicate n (Some 0) @ map parse_hextet low"
    unfolding assms(1) by simp
  ultimately show ?thesis by (simp add: hextets_value_def)
qed

lemma gap_parts:
  fixes pre post :: "string list"
  assumes ne: "\<forall>x \<in> set (pre @ post). x \<noteq> []" and len: "length pre + length post < 7"
  defines "a \<equiv> (if pre = [] then [[]] else pre)" and "b \<equiv> (if post = [] then [[]] else post)"
  shows "filter (\<lambda>i. (a @ [[]] @ b) ! i = []) [1..<length (a @ [[]] @ b) - 1] = [length a]"
    and "hd (a @ [[]] @ b) = [] \<longleftrightarrow> pre = []" "last (a @ [[]] @ b) = [] \<longleftrightarrow> post = []"
    and "3 \<le> length (a @ [[]] @ b)" "length (a @ [[]] @ b) \<le> 9"
proof -
  have la: "1 \<le> length a" "1 \<le> length b" by (auto simp: a_def b_def Suc_le_eq)
  show "hd (a @ [[]] @ b) = [] \<longleftrightarrow> pre = []" using ne by (cases pre) (auto simp: a_def)
  show "last (a @ [[]] @ b) = [] \<longleftrightarrow> post = []" using ne by (cases post rule: rev_cases) (auto simp: b_def)
  show "3 \<le> length (a @ [[]] @ b)" "length (a @ [[]] @ b) \<le> 9" using la len by (auto simp: a_def b_def)
  have "(a @ [[]] @ b) ! i = [] \<longleftrightarrow> i = length a" if i: "1 \<le> i" "i < length (a @ [[]] @ b) - 1" for i
  proof (cases "i < length a")
    case True
    then have "pre \<noteq> []" "a = pre" using i by (auto simp: a_def split: if_splits)
    then show ?thesis using True ne nth_mem [of i pre] by (auto simp: nth_append)
  next
    case False
    show ?thesis
    proof (cases "i = length a")
      case True
      then show ?thesis by (simp add: nth_append)
    next
      case ne': False
      then have "i - length a - 1 < length b - 1" using i False by simp
      then have "post \<noteq> []" "b = post" by (auto simp: b_def split: if_splits)
      then show ?thesis using False ne' ne i nth_mem [of "i - length a - 1" post]
        by (auto simp: nth_append nth_Cons' Suc_le_eq)
    qed
  qed
  then show "filter (\<lambda>i. (a @ [[]] @ b) ! i = []) [1..<length (a @ [[]] @ b) - 1] = [length a]"
    using la by (intro filter_gap) auto
qed

lemma ipv6_from_gap:
  assumes hs: "map show_hex ds = pre @ replicate n ''0'' @ post" "\<forall>d \<in> set ds. d < 65536"
    and len: "length ds = 8" "1 < n"
    and parts: "ipv6_parts s = Some ((if pre = [] then [[]] else pre) @ [[]] @ (if post = [] then [[]] else post))"
  shows "ipv6_from_string s = Some (word_of_nat (of_digits 65536 ds))"
proof -
  define a b where "a = (if pre = [] then [[]] else pre)" and "b = (if post = [] then [[]] else post)"
  have total: "length pre + n + length post = 8" using arg_cong [OF hs(1), of length] len by simp
  have ne: "\<forall>x \<in> set (pre @ post). x \<noteq> []"
  proof
    fix x assume "x \<in> set (pre @ post)"
    then have "x \<in> set (map show_hex ds)" unfolding hs(1) by auto
    then show "x \<noteq> []" by auto
  qed
  have small: "length pre + length post < 7" using total len by simp
  note g = gap_parts [OF ne small, folded a_def b_def]
  have hi: "(if pre = [] then length a - 1 else length a) = length pre"
    and lo: "(if post = [] then length (a @ [[]] @ b) - length a - 2 else length (a @ [[]] @ b) - length a - 1) = length post"
    by (auto simp: a_def b_def)
  have take: "take (length pre) (a @ [[]] @ b) = pre" by (auto simp: a_def)
  have drop: "drop (length (a @ [[]] @ b) - length post) (a @ [[]] @ b) = post" by (auto simp: b_def)
  have n: "8 - (length pre + length post) = n" "length pre + length post < 8" using total len by auto
  show ?thesis
    unfolding ipv6_from_string_def parts [folded a_def b_def] option.case g(1) list.case Let_def g(2,3) hi lo take drop n(1)
    using g(5) n(2) hextets_value_show [OF hs] by auto
qed

lemma ipv6_from_str [simp]: "ipv6_from_string (str_ipv6 w) = Some w"
proof -
  define ds where "ds = to_digits 65536 8 (unat w)"
  define hs where "hs = map show_hex ds"
  define parts where "parts = compress_hextets hs"
  obtain start len where z: "zero_runs 0 (0, 0) (0, 0) hs = (start, len)" by (cases "zero_runs 0 (0, 0) (0, 0) hs")
  note zs = zero_run_split [OF z]
  have ds: "length ds = 8" "\<forall>d \<in> set ds. d < 65536" "of_digits 65536 ds = unat w"
    using to_digits_less [of 65536 _ 8 "unat w"] unsigned_less [of w, where 'a = nat]
    by (simp_all add: ds_def of_to_digits del: to_digits.simps)
  then have len: "length hs = 8" by (simp add: hs_def)
  then have hs_ne: "hs \<noteq> []" by auto
  have parts_set: "set parts \<subseteq> insert [] (set hs)"
    by (auto simp: parts_def compress_hextets_def z dest: in_set_takeD in_set_dropD)
  have chars: "c \<noteq> CHR '':'' \<and> c \<noteq> CHR ''.''" if "x \<in> set parts" "c \<in> set x" for x c
  proof -
    have "hex_lower c" using that parts_set show_hex_chars by (auto simp: hs_def)
    then show ?thesis by (auto simp: hex_lower_def)
  qed
  have "parts \<noteq> []" using hs_ne by (auto simp: parts_def compress_hextets_def z)
  then have split: "split_on CHR '':'' (str_ipv6 w) = parts"
    unfolding str_ipv6_def ds_def [symmetric] hs_def [symmetric] parts_def [symmetric]
    using chars by (intro split_on_join) auto
  have dot: "CHR ''.'' \<notin> set (last parts)" using chars [OF last_in_set [OF \<open>parts \<noteq> []\<close>]] by auto
  have val: "word_of_nat (of_digits 65536 ds) = w" using ds(3) by simp
  show ?thesis
  proof (cases "1 < len")
    case True
    have "take start hs = [] \<longleftrightarrow> start = 0" "drop (start + len) hs = [] \<longleftrightarrow> start + len = length hs"
      using hs_ne zs(1) by auto
    then have eq: "parts = (if take start hs = [] then [[]] else take start hs) @ [[]] @
        (if drop (start + len) hs = [] then [[]] else drop (start + len) hs)"
      using True by (auto simp: parts_def compress_hextets_def z)
    have "3 \<le> length parts"
      unfolding eq by (auto simp: Suc_le_eq)
    then have "ipv6_parts (str_ipv6 w) = Some parts" using split dot by (simp add: ipv6_parts_def)
    then show ?thesis
      using ipv6_from_gap [OF zs(2) [unfolded hs_def] ds(2,1) True] eq val by (simp add: hs_def)
  next
    case False
    then have "parts = hs" by (simp add: parts_def compress_hextets_def z)
    then have p: "ipv6_parts (str_ipv6 w) = Some hs" using split dot len by (simp add: ipv6_parts_def)
    have "hs ! i \<noteq> []" if "i < 8" for i using that ds(1) by (simp add: hs_def)
    then have "filter (\<lambda>i. hs ! i = []) [1..<length hs - 1] = []" by (auto simp: filter_empty_conv len)
    moreover have "hd hs \<noteq> []" "last hs \<noteq> []" using hs_ne by (auto simp: hs_def hd_map last_map)
    moreover have "hextets_value hs 0 [] = Some w"
      using hextets_value_show [of ds hs 0 "[]"] ds(2) val by (simp add: hs_def)
    ultimately show ?thesis using p len by (simp add: ipv6_from_string_def)
  qed
qed

text \<open>A scope is not empty and holds neither \<open>%\<close> nor \<open>/\<close>.\<close>

fun ip_wf :: "ip_address \<Rightarrow> bool" where
  "ip_wf (IPv6 w (Some z)) = (z \<noteq> [] \<and> CHR ''%'' \<notin> set z \<and> CHR ''/'' \<notin> set z)"
| "ip_wf _ = True"

lemma str_ipv6_chars: "c \<in> set (str_ipv6 w) \<Longrightarrow> hex_lower c \<or> c = CHR '':''"
proof -
  let ?hs = "map show_hex (to_digits 65536 8 (unat w))"
  assume "c \<in> set (str_ipv6 w)"
  then have "c = CHR '':'' \<or> (\<exists>x \<in> set (compress_hextets ?hs). c \<in> set x)"
    using set_join [of "'':''" "compress_hextets ?hs"] unfolding str_ipv6_def by auto
  moreover have "set (compress_hextets ?hs) \<subseteq> insert [] (set ?hs)"
    by (auto simp: compress_hextets_def dest: in_set_takeD in_set_dropD simp del: to_digits.simps split: prod.splits)
  ultimately show ?thesis using show_hex_chars by (auto simp del: to_digits.simps)
qed

lemma str_ipv6_colon: "CHR '':'' \<in> set (str_ipv6 w)"
proof (rule ccontr)
  assume "CHR '':'' \<notin> set (str_ipv6 w)"
  then have "ipv6_parts (str_ipv6 w) = None" by (simp add: ipv6_parts_def split_on_none)
  then have "ipv6_from_string (str_ipv6 w) = None" by (simp add: ipv6_from_string_def)
  then show False by simp
qed

lemma ip_address_of_wf: "ip_address_of s = Some a \<Longrightarrow> ip_wf a"
proof -
  have part: "partition_on c s = (x, Some z) \<Longrightarrow> set z \<subseteq> set s" for c s x z
    by (induction c s arbitrary: x rule: partition_on.induct) (auto split: if_splits prod.splits)
  assume "ip_address_of s = Some a"
  then show ?thesis using part
    by (auto simp: ip_address_of_def split: if_splits option.splits prod.splits) blast
qed

lemma ip_address_of_str: "ip_wf a \<Longrightarrow> ip_address_of (str_ip a) = Some a"
proof (cases a)
  case (IPv4 w)
  have "CHR ''/'' \<notin> set (str_ipv4 w)"
  proof
    assume "CHR ''/'' \<in> set (str_ipv4 w)"
    from ipv4_chars [OF ipv4_from_str this] show False by (auto simp: digit_char_def)
  qed
  then show ?thesis using IPv4 by (simp add: ip_address_of_def)
next
  case (IPv6 w sc)
  assume wf: "ip_wf a"
  let ?rest = "case sc of None \<Rightarrow> [] | Some z \<Rightarrow> CHR ''%'' # z"
  have str: "str_ip a = str_ipv6 w @ ?rest" using IPv6 by (cases sc) auto
  have no: "CHR ''/'' \<notin> set (str_ipv6 w)" "CHR ''%'' \<notin> set (str_ipv6 w)"
    using str_ipv6_chars [of "CHR ''/''" w] str_ipv6_chars [of "CHR ''%''" w] by (auto simp: hex_lower_def)
  have v4: "ipv4_from_string (str_ip a) = None"
  proof (rule ccontr)
    assume "ipv4_from_string (str_ip a) \<noteq> None"
    then obtain v where "ipv4_from_string (str_ip a) = Some v" by auto
    from ipv4_chars [OF this, of "CHR '':''"] str_ipv6_colon [of w] show False by (auto simp: str digit_char_def)
  qed
  have slash: "CHR ''/'' \<notin> set (str_ip a)" using no wf IPv6 by (cases sc) (auto simp: str)
  have "partition_on CHR ''%'' (str_ip a) = (str_ipv6 w, sc)"
    using no by (cases sc) (simp_all add: str partition_on_none partition_on_append)
  then show ?thesis using v4 slash wf IPv6 by (cases sc) (simp_all add: ip_address_of_def)
qed

text \<open>The text of an address reads back as that address, so the normal form of a text is its own
  normal form.\<close>

theorem ip_text_roundtrip:
  assumes "ip_address s = Inr a"
  shows "ip_address (str_ip a) = Inr a"
  using assms ip_address_of_wf [of s a] ip_address_of_str [of a]
  by (auto simp: ip_address_def split: option.splits)

end
