(* ===== verification/Protected_Targets.thy ===== *)
theory Protected_Targets
  imports Ip_Address
begin

text \<open>
  Which addresses may be blocked: the networks of \<open>ipaddress\<close> (3.11), \<open>core/soar_protected_targets.py\<close> (the
  operator's list in \<open>SOAR_PROTECTED_IPS\<close>) and \<open>validate_blocked_ip\<close> of \<open>core/db.py\<close>. Shown here: what
  passes both is the normal form of a public address outside every network of the list, and an
  entry of the list covers the address it names, however it is written.
\<close>

subsection \<open>Networks\<close>

datatype ip_network = Net4 "32 word" nat | Net6 "128 word" nat

text \<open>A mask with \<open>p\<close> leading ones.\<close>

definition netmask :: "nat \<Rightarrow> 'a::len word" where
  "netmask p = push_bit (LENGTH('a) - p) (- 1)"

fun in_network :: "ip_address \<Rightarrow> ip_network \<Rightarrow> bool" where
  "in_network (IPv4 w) (Net4 a p) = (w AND netmask p = a)"
| "in_network (IPv6 w _) (Net6 a p) = (w AND netmask p = a)"
| "in_network _ _ = False"

text \<open>For evaluation: the leading bits agree, and the network has none after them.\<close>

lemma netmask_agree:
  fixes w a :: "'a::len word"
  shows "w AND netmask p = a \<longleftrightarrow>
    uint w div 2 ^ (LENGTH('a) - p) = uint a div 2 ^ (LENGTH('a) - p) \<and> uint a mod 2 ^ (LENGTH('a) - p) = 0"
proof -
  let ?k = "LENGTH('a) - p"
  have "w AND netmask p = push_bit ?k (drop_bit ?k w)"
    by (rule bit_eqI) (auto simp: netmask_def bit_simps)
  also have "\<dots> = a \<longleftrightarrow> drop_bit ?k w = drop_bit ?k a \<and> take_bit ?k a = 0"
  proof
    assume eq: "push_bit ?k (drop_bit ?k w) = a"
    have "drop_bit ?k w = drop_bit ?k (push_bit ?k (drop_bit ?k w))"
      by (rule bit_eqI) (auto simp: bit_simps dest: bit_imp_le_length)
    moreover have "take_bit ?k (push_bit ?k (drop_bit ?k w)) = 0"
      by (rule bit_eqI) (auto simp: bit_simps)
    ultimately show "drop_bit ?k w = drop_bit ?k a \<and> take_bit ?k a = 0" unfolding eq by blast
  next
    assume "drop_bit ?k w = drop_bit ?k a \<and> take_bit ?k a = 0"
    then show "push_bit ?k (drop_bit ?k w) = a" using bits_ident [of ?k a] by simp
  qed
  also have "\<dots> \<longleftrightarrow> uint (drop_bit ?k w) = uint (drop_bit ?k a) \<and> uint (take_bit ?k a) = 0"
    by (simp add: word_uint_eq_iff)
  also have "\<dots> \<longleftrightarrow> uint w div 2 ^ ?k = uint a div 2 ^ ?k \<and> uint a mod 2 ^ ?k = 0"
    unfolding unsigned_drop_bit_eq unsigned_take_bit_eq bintr_uint [OF order_refl]
    by (simp only: drop_bit_eq_div take_bit_eq_mod)
  finally show ?thesis .
qed

lemma in_network_code [code]:
  "in_network (IPv4 w) (Net4 a p) =
     (uint w div 2 ^ (32 - p) = uint a div 2 ^ (32 - p) \<and> uint a mod 2 ^ (32 - p) = 0)"
  "in_network (IPv6 v z) (Net6 b p) =
     (uint v div 2 ^ (128 - p) = uint b div 2 ^ (128 - p) \<and> uint b mod 2 ^ (128 - p) = 0)"
  "in_network (IPv4 w) (Net6 b p) = False" "in_network (IPv6 v z) (Net4 a p) = False"
  by (simp_all add: netmask_agree)

text \<open>\<open>address/mask\<close>: the parts, and the length of the prefix. A mask of IPv4 may also be written as a
  netmask or a hostmask; \<open>int_prefix\<close> is the prefix whose mask a number is.\<close>

definition split_mask :: "string \<Rightarrow> (string \<times> string option) option" where
  "split_mask s =
     (case split_on CHR ''/'' s of [a] \<Rightarrow> Some (a, None) | [a, m] \<Rightarrow> Some (a, Some m) | _ \<Rightarrow> None)"

definition prefix_string :: "nat \<Rightarrow> string \<Rightarrow> nat option" where
  "prefix_string width s =
     (if s = [] \<or> \<not> list_all digit_char s \<or> width < read_nat s then None else Some (read_nat s))"

definition int_prefix :: "32 word \<Rightarrow> nat option" where
  "int_prefix w = fetchone (filter (\<lambda>p. netmask p = w) [0..<33])"

definition make_netmask4 :: "string \<Rightarrow> nat option" where
  "make_netmask4 s =
     (case prefix_string 32 s of
        Some p \<Rightarrow> Some p
      | None \<Rightarrow>
          (case ipv4_from_string s of
             None \<Rightarrow> None
           | Some w \<Rightarrow> (case int_prefix w of Some p \<Rightarrow> Some p | None \<Rightarrow> int_prefix (NOT w))))"

text \<open>\<open>ip_network(s, strict)\<close>. A strict network has no bits set after its prefix.\<close>

definition ip_network4 :: "bool \<Rightarrow> string \<Rightarrow> ip_network option" where
  "ip_network4 strict s =
     (case split_mask s of
        None \<Rightarrow> None
      | Some (a, m) \<Rightarrow>
          (case (ipv4_from_string a, case m of None \<Rightarrow> Some 32 | Some x \<Rightarrow> make_netmask4 x) of
             (Some w, Some p) \<Rightarrow> if strict \<and> w AND netmask p \<noteq> w then None else Some (Net4 (w AND netmask p) p)
           | _ \<Rightarrow> None))"

definition ip_network6 :: "bool \<Rightarrow> string \<Rightarrow> ip_network option" where
  "ip_network6 strict s =
     (case split_mask s of
        None \<Rightarrow> None
      | Some (a, m) \<Rightarrow>
          (case (ip_address_of a, case m of None \<Rightarrow> Some 128 | Some x \<Rightarrow> prefix_string 128 x) of
             (Some (IPv6 w z), Some p) \<Rightarrow> if strict \<and> w AND netmask p \<noteq> w then None else Some (Net6 (w AND netmask p) p)
           | _ \<Rightarrow> None))"

definition ip_network :: "bool \<Rightarrow> string \<Rightarrow> ip_network result" where
  "ip_network strict s =
     (case ip_network4 strict s of
        Some n \<Rightarrow> Inr n
      | None \<Rightarrow>
          (case ip_network6 strict s of
             Some n \<Rightarrow> Inr n
           | None \<Rightarrow> Inl (ValueError (py_repr s @ '' does not appear to be an IPv4 or IPv6 network''))))"

subsection \<open>The operator's list\<close>

definition parse_entry_to_network :: "string \<Rightarrow> ip_network result" where
  "parse_entry_to_network entry =
     (let r = (if CHR ''/'' \<in> set entry then ip_network False entry
               else case ip_address entry of
                      Inl e \<Rightarrow> Inl e
                    | Inr a \<Rightarrow>
                        ip_network True (str_ip a @ ''/'' @ (case a of IPv4 _ \<Rightarrow> ''32'' | IPv6 _ _ \<Rightarrow> ''128'')))
      in case r of
           Inl _ \<Rightarrow> Inl (ProtectedTargetConfigError (''Invalid SOAR_PROTECTED_IPS entry: '' @ entry))
         | Inr n \<Rightarrow> Inr n)"

fun parse_entries :: "string list \<Rightarrow> ip_network list result" where
  "parse_entries [] = Inr []"
| "parse_entries (raw # rest) =
     (let entry = strip raw
      in if entry = [] then parse_entries rest
         else case parse_entry_to_network entry of
                Inl e \<Rightarrow> Inl e
              | Inr n \<Rightarrow> (case parse_entries rest of Inl e \<Rightarrow> Inl e | Inr ns \<Rightarrow> Inr (n # ns)))"

text \<open>The argument is the value of the variable; it is \<open>''''\<close> when the variable is not set.\<close>

definition load_protected_targets :: "string \<Rightarrow> ip_network list result" where
  "load_protected_targets env = parse_entries (split_on CHR '','' env)"

text \<open>The address is read before the list is.\<close>

definition is_protected_target :: "string \<Rightarrow> string option \<Rightarrow> bool result" where
  "is_protected_target env target =
     (case target of
        None \<Rightarrow> Inr False
      | Some t \<Rightarrow>
          (case ip_address t of
             Inl e \<Rightarrow> Inl e
           | Inr a \<Rightarrow>
               (case load_protected_targets env of
                  Inl e \<Rightarrow> Inl e
                | Inr networks \<Rightarrow> Inr (\<exists>n \<in> set networks. in_network a n))))"

definition require_unprotected_target :: "string \<Rightarrow> string option \<Rightarrow> unit result" where
  "require_unprotected_target env target =
     (case is_protected_target env target of
        Inl e \<Rightarrow> Inl e
      | Inr True \<Rightarrow>
          Inl (SkippedAction (''Refusing to block protected target: '' @ coalesce target ''None'') ''protected_target'')
      | Inr False \<Rightarrow> Inr ())"

subsection \<open>Addresses that are not public\<close>

text \<open>The constants of \<open>ipaddress\<close>.\<close>

definition in_any :: "ip_address \<Rightarrow> ip_network list \<Rightarrow> bool" where
  "in_any a ns \<longleftrightarrow> list_ex (in_network a) ns"

definition PRIVATE4 :: "ip_network list" where
  "PRIVATE4 =
     [Net4 0 8, Net4 0x0A000000 8, Net4 0x7F000000 8, Net4 0xA9FE0000 16, Net4 0xAC100000 12,
      Net4 0xC0000000 24, Net4 0xC00000AA 31, Net4 0xC0000200 24, Net4 0xC0A80000 16,
      Net4 0xC6120000 15, Net4 0xC6336400 24, Net4 0xCB007100 24, Net4 0xF0000000 4, Net4 0xFFFFFFFF 32]"

definition PRIVATE4_EXCEPTIONS :: "ip_network list" where
  "PRIVATE4_EXCEPTIONS = [Net4 0xC0000009 32, Net4 0xC000000A 32]"

definition PRIVATE6 :: "ip_network list" where
  "PRIVATE6 =
     [Net6 1 128, Net6 0 128, Net6 0xFFFF00000000 96, Net6 (push_bit 80 0x0064FF9B0001) 48,
      Net6 (push_bit 112 0x0100) 64, Net6 (push_bit 112 0x2001) 23, Net6 (push_bit 96 0x20010DB8) 32,
      Net6 (push_bit 112 0x2002) 16, Net6 (push_bit 112 0xFC00) 7, Net6 (push_bit 112 0xFE80) 10]"

definition PRIVATE6_EXCEPTIONS :: "ip_network list" where
  "PRIVATE6_EXCEPTIONS =
     [Net6 (push_bit 96 0x20010001 + 1) 128, Net6 (push_bit 96 0x20010001 + 2) 128,
      Net6 (push_bit 96 0x20010003) 32, Net6 (push_bit 80 0x200100040112) 48,
      Net6 (push_bit 96 0x20010020) 28, Net6 (push_bit 96 0x20010030) 28]"

definition RESERVED6 :: "ip_network list" where
  "RESERVED6 =
     [Net6 0 8, Net6 (push_bit 112 0x0100) 8, Net6 (push_bit 112 0x0200) 7, Net6 (push_bit 112 0x0400) 6,
      Net6 (push_bit 112 0x0800) 5, Net6 (push_bit 112 0x1000) 4, Net6 (push_bit 112 0x4000) 3,
      Net6 (push_bit 112 0x6000) 3, Net6 (push_bit 112 0x8000) 3, Net6 (push_bit 112 0xA000) 3,
      Net6 (push_bit 112 0xC000) 3, Net6 (push_bit 112 0xE000) 4, Net6 (push_bit 112 0xF000) 5,
      Net6 (push_bit 112 0xF800) 6, Net6 (push_bit 112 0xFE00) 9]"

definition private4 :: "32 word \<Rightarrow> bool" where
  "private4 w \<longleftrightarrow> in_any (IPv4 w) PRIVATE4 \<and> \<not> in_any (IPv4 w) PRIVATE4_EXCEPTIONS"

fun is_private :: "ip_address \<Rightarrow> bool" where
  "is_private (IPv4 w) = private4 w"
| "is_private (IPv6 w z) =
     (if drop_bit 32 w = 0xFFFF then private4 (ucast w)
      else in_any (IPv6 w z) PRIVATE6 \<and> \<not> in_any (IPv6 w z) PRIVATE6_EXCEPTIONS)"

fun is_loopback :: "ip_address \<Rightarrow> bool" where
  "is_loopback (IPv4 w) = in_network (IPv4 w) (Net4 0x7F000000 8)"
| "is_loopback (IPv6 w z) = (w = 1)"

fun is_link_local :: "ip_address \<Rightarrow> bool" where
  "is_link_local (IPv4 w) = in_network (IPv4 w) (Net4 0xA9FE0000 16)"
| "is_link_local (IPv6 w z) = in_network (IPv6 w z) (Net6 (push_bit 112 0xFE80) 10)"

fun is_multicast :: "ip_address \<Rightarrow> bool" where
  "is_multicast (IPv4 w) = in_network (IPv4 w) (Net4 0xE0000000 4)"
| "is_multicast (IPv6 w z) = in_network (IPv6 w z) (Net6 (push_bit 112 0xFF00) 8)"

fun is_reserved :: "ip_address \<Rightarrow> bool" where
  "is_reserved (IPv4 w) = in_network (IPv4 w) (Net4 0xF0000000 4)"
| "is_reserved (IPv6 w z) = in_any (IPv6 w z) RESERVED6"

fun is_unspecified :: "ip_address \<Rightarrow> bool" where
  "is_unspecified (IPv4 w) = (w = 0)"
| "is_unspecified (IPv6 w z) = (w = 0)"

definition non_public :: "ip_address \<Rightarrow> bool" where
  "non_public a \<longleftrightarrow> is_loopback a \<or> is_private a \<or> is_link_local a \<or> is_multicast a \<or> is_reserved a \<or> is_unspecified a"

definition validate_blocked_ip :: "string option \<Rightarrow> string result" where
  "validate_blocked_ip ip =
     (case ip of
        None \<Rightarrow> Inl (ValueError ''IP address is required'')
      | Some s \<Rightarrow>
          if strip s = [] then Inl (ValueError ''IP address is required'')
          else case ip_address (strip s) of
                 Inl _ \<Rightarrow> Inl (ValueError ''Invalid IP address'')
               | Inr a \<Rightarrow>
                   if non_public a then Inl (ValueError ''Private, loopback, and internal IPs cannot be blocked'')
                   else Inr (str_ip a))"

subsection \<open>What passes the checks\<close>

text \<open>The normal form of an address that may be blocked.\<close>

definition blockable :: "string \<Rightarrow> bool" where
  "blockable s \<longleftrightarrow> (\<exists>a. ip_address s = Inr a \<and> str_ip a = s \<and> \<not> non_public a)"

lemma validate_blocked_ip_blockable: "validate_blocked_ip ip = Inr s \<Longrightarrow> blockable s"
  using ip_text_roundtrip
  by (fastforce simp: validate_blocked_ip_def blockable_def split: option.splits if_splits sum.splits)

lemma require_unprotected_ok:
  assumes "require_unprotected_target env (Some s) = Inr ()"
  obtains a ns where "ip_address s = Inr a" "load_protected_targets env = Inr ns" "\<forall>n \<in> set ns. \<not> in_network a n"
  using assms
  by (auto simp: require_unprotected_target_def is_protected_target_def split: sum.splits bool.splits)

text \<open>The number of an address, without the scope of an IPv6 address.\<close>

fun ip_bits :: "ip_address \<Rightarrow> 32 word + 128 word" where
  "ip_bits (IPv4 w) = Inl w"
| "ip_bits (IPv6 w _) = Inr w"

lemma netmask_full [simp]: "netmask LENGTH('a) = (- 1 :: 'a::len word)"
  by (simp add: netmask_def)

lemmas netmask_full32 = netmask_full [where 'a = 32, simplified]
lemmas netmask_full128 = netmask_full [where 'a = 128, simplified]

lemma ip_address_Inr: "ip_address s = Inr a \<longleftrightarrow> ip_address_of s = Some a"
  by (auto simp: ip_address_def split: option.splits)

lemma split_mask_str:
  assumes "ip_wf a" "CHR ''/'' \<notin> set m"
  shows "split_mask (str_ip a @ CHR ''/'' # m) = Some (str_ip a, Some m)"
proof -
  have "CHR ''/'' \<notin> set (str_ip a)"
    using ip_address_of_str [OF assms(1)] by (auto simp: ip_address_of_def split: if_splits)
  then show ?thesis using assms(2) by (simp add: split_mask_def split_on_append split_on_none)
qed

lemma ip_network_single:
  assumes "ip_wf a"
  shows "ip_network True (str_ip a @ ''/'' @ (case a of IPv4 _ \<Rightarrow> ''32'' | IPv6 _ _ \<Rightarrow> ''128'')) =
    Inr (case a of IPv4 w \<Rightarrow> Net4 w 32 | IPv6 w _ \<Rightarrow> Net6 w 128)"
proof (cases a)
  case (IPv4 w)
  have "make_netmask4 ''32'' = Some 32" by code_simp
  then show ?thesis using split_mask_str [OF assms, of "''32''"] IPv4
    by (simp add: ip_network_def ip_network4_def netmask_full32)
next
  case (IPv6 w z)
  have "prefix_string 128 ''128'' = Some 128" by code_simp
  moreover have "ipv4_from_string (str_ip a) = None"
    using ip_address_of_str [OF assms] IPv6 by (auto simp: ip_address_of_def split: if_splits option.splits)
  ultimately show ?thesis using split_mask_str [OF assms, of "''128''"] IPv6 ip_address_of_str [OF assms]
    by (simp add: ip_network_def ip_network4_def ip_network6_def netmask_full128 split: option.splits)
qed

text \<open>An entry that is an address protects that address in every spelling, and no other.\<close>

theorem protected_entry_covers_address:
  assumes "CHR ''/'' \<notin> set e" "ip_address e = Inr a" "ip_address s = Inr b"
  shows "\<exists>n. parse_entry_to_network e = Inr n \<and> (in_network b n \<longleftrightarrow> ip_bits b = ip_bits a)"
proof -
  have "ip_wf a" using assms(2) by (auto simp: ip_address_Inr intro: ip_address_of_wf)
  from ip_network_single [OF this] show ?thesis using assms(1,2)
    by (cases a; cases b) (auto simp: parse_entry_to_network_def netmask_full32 netmask_full128)
qed

end
