(* ===== verification/Keyed_Log.thy ===== *)
theory Keyed_Log
  imports Tables "HOL-Library.Sublist"
begin

text \<open>
  Append-only tables whose rows may carry an idempotency key: a unique index on the keys that are
  there, and an append that returns the stored row when it is given its key again. The outcome events
  and the registry events are such tables; both interpret the locale.
\<close>

definition log_keys :: "('e \<Rightarrow> string option) \<Rightarrow> 'e list \<Rightarrow> string list" where
  "log_keys key es = map (the \<circ> key) (filter (\<lambda>e. key e \<noteq> None) es)"

lemma log_keys_append [simp]:
  "log_keys key (es @ [e]) = log_keys key es @ (case key e of None \<Rightarrow> [] | Some k \<Rightarrow> [k])"
  by (auto simp: log_keys_def split: option.splits)

lemma log_keys_Nil [simp]: "log_keys key [] = []"
  by (simp add: log_keys_def)

lemma log_keys_mem: "k \<in> set (log_keys key es) \<longleftrightarrow> (\<exists>e \<in> set es. key e = Some k)"
  by (force simp: log_keys_def)

lemma log_keys_lookup:
  assumes "distinct (log_keys key es)" "e \<in> set es" "key e = Some k"
  shows "fetchone (filter (\<lambda>x. key x = Some k) es) = Some e"
  using assms(1,2)
proof (induction es)
  case (Cons x es)
  show ?case
  proof (cases "key x = Some k")
    case True
    have "x = e"
    proof (rule ccontr)
      assume "x \<noteq> e"
      then have "k \<in> set (log_keys key es)" using Cons.prems(2) assms(3) by (auto simp: log_keys_mem)
      then show False using Cons.prems(1) True by (simp add: log_keys_def)
    qed
    then show ?thesis using True by (simp add: fetchone_def)
  next
    case False
    then have "e \<in> set es" using Cons.prems(2) assms(3) by auto
    moreover have "distinct (log_keys key es)" using Cons.prems(1) by (auto simp: log_keys_def split: if_splits)
    ultimately show ?thesis using Cons.IH False by simp
  qed
qed simp

locale keyed_log = store_ops op inv rel
  for op :: "'s \<Rightarrow> 's \<Rightarrow> bool" and inv :: "'s \<Rightarrow> bool" and rel :: "'s \<Rightarrow> 's \<Rightarrow> bool" +
  fixes events :: "'s \<Rightarrow> 'e list"
    and key :: "'e \<Rightarrow> string option"
    and append :: "'a \<Rightarrow> ('s, 'e) py"
    and given :: "'a \<Rightarrow> string"
  assumes rel_events: "rel s s' \<Longrightarrow> prefix (events s) (events s')"
    and append_again: "inv s \<Longrightarrow> e \<in> set (events s) \<Longrightarrow> key e = Some (given a) \<Longrightarrow> given a \<noteq> [] \<Longrightarrow>
      append a s = (Inr x, s') \<Longrightarrow> x = e \<and> s' = s"
begin

text \<open>A row that is stored under a key stays as it is, and every later append with the key returns
  it and writes nothing.\<close>

lemma stored_once:
  assumes "inv s" "op\<^sup>*\<^sup>* s s'" "e \<in> set (events s)" "key e = Some (given a)" "given a \<noteq> []"
    and "append a s' = (Inr x, s'')"
  shows "x = e \<and> s'' = s' \<and> e \<in> set (events s')"
proof -
  have "inv s'" "rel s s'" using ops_safe [OF assms(2,1)] by auto
  then have "e \<in> set (events s')" using rel_events assms(3) set_mono_prefix by blast
  with append_again [OF \<open>inv s'\<close> _ assms(4-6)] show ?thesis by blast
qed

end

end
