(* ===== verification/Response_Outcomes.thy ===== *)
theory Response_Outcomes
  imports Keyed_Log Redaction Response_Queue Playbook_Executions
begin

text \<open>
  \<open>core/soar_response_outcomes.py\<close>: the decisions to respond (\<open>soar_response_decisions\<close>) and the
  outcome events of each (\<open>soar_response_outcome_events\<close>, append-only), the checks on what is written,
  the look-ups of the latest outcome, and the reports built from them. Shown here: every stored row
  is well typed and truthful (nothing counts as executed outside unless it really succeeded), events
  are never changed and at most one is stored per idempotency key, the bulk look-ups agree with the
  single ones, and what a report calls really executed is what the latest event says was.

  The twelve hexadecimal digits of the \<open>n\<close>-th \<open>uuid4\<close> are a parameter \<open>uuid\<close>. Times stay times.
\<close>

subsection \<open>State\<close>

record response_decision =
  rd_id :: row_id
  rd_soar_correlation_id :: string
  rd_parent_soar_correlation_id :: "string option"
  rd_alert_id :: "row_id option"
  rd_incident_id :: "row_id option"
  rd_source_ip :: "string option"
  rd_selected_action :: string
  rd_decision_source :: string
  rd_reason_code :: "string option"
  rd_outcome_summary :: string
  rd_playbook_id :: "string option"
  rd_playbook_execution_id :: "row_id option"
  rd_playbook_step_index :: "int option"
  rd_queue_id :: "row_id option"
  rd_approval_request_id :: "row_id option"
  rd_created_by :: "row_id option"
  rd_safe_metadata :: items
  rd_selected_at :: time
  rd_created_at :: time

record outcome_event =
  oe_id :: row_id
  oe_decision_id :: row_id
  oe_soar_correlation_id :: string
  oe_event_type :: string
  oe_alert_id :: "row_id option"
  oe_incident_id :: "row_id option"
  oe_source_ip :: "string option"
  oe_execution_mode :: string
  oe_execution_state :: string
  oe_external_executed :: bool
  oe_tracking_recorded :: bool
  oe_simulated :: bool
  oe_execution_actor :: string
  oe_reason_code :: "string option"
  oe_outcome_summary :: string
  oe_queue_id :: "row_id option"
  oe_playbook_execution_id :: "row_id option"
  oe_playbook_step_index :: "int option"
  oe_approval_request_id :: "row_id option"
  oe_delivery_attempt_id :: "row_id option"
  oe_response_action_log_id :: "row_id option"
  oe_provider :: "string option"
  oe_adapter_name :: "string option"
  oe_external_reference :: "string option"
  oe_idempotency_key :: "string option"
  oe_metadata :: items
  oe_occurred_at :: time
  oe_created_at :: time

record outcome_db =
  soar_response_decisions :: "response_decision list"
  decision_seq :: row_id
  soar_response_outcome_events :: "outcome_event list"
  outcome_seq :: row_id
  uuids_drawn :: nat

subsection \<open>The vocabulary and the checks\<close>

definition EXECUTION_MODES :: "string list" where
  "EXECUTION_MODES = [''internal'', ''observed'', ''read_only'', ''real'', ''simulation'', ''tracking_only'']"

definition EXECUTION_STATES :: "string list" where
  "EXECUTION_STATES =
     [''awaiting_approval'', ''blocked'', ''failed'', ''observed'', ''queued'', ''running'', ''selected'',
      ''skipped'', ''succeeded'']"

definition DECISION_SOURCES :: "string list" where
  "DECISION_SOURCES = [''correlation'', ''detection_default'', ''manual'', ''migration'', ''playbook'']"

definition EXECUTION_ACTORS :: "string list" where
  "EXECUTION_ACTORS =
     [''adapter'', ''approval_service'', ''manual'', ''playbook_worker'', ''queue_worker'', ''system'']"

definition REASON_CODES :: "string list" where
  "REASON_CODES =
     [''adapter_unavailable'', ''approval_denied'', ''approval_expired'', ''approval_required'',
      ''duplicate_suppressed'', ''policy_blocked'', ''provider_error'', ''simulation_mode'', ''tracking_only'',
      ''unsupported_action'']"

abbreviation outcome_error :: "string \<Rightarrow> 'a result" where
  "outcome_error m \<equiv> Inl (SoarResponseOutcomeValidationError m)"

text \<open>The common form of the \<open>validate_*\<close> functions; the lists are sorted, as the messages print them.\<close>

definition validate_in :: "string \<Rightarrow> string list \<Rightarrow> string \<Rightarrow> string result" where
  "validate_in name vocabulary value =
     (if strip value \<in> set vocabulary then Inr (strip value)
      else outcome_error (name @ '' must be one of '' @ py_list_repr vocabulary))"

definition validate_decision_source :: "string \<Rightarrow> string result" where
  "validate_decision_source = validate_in ''decision_source'' DECISION_SOURCES"

definition validate_execution_mode :: "string \<Rightarrow> string result" where
  "validate_execution_mode = validate_in ''execution_mode'' EXECUTION_MODES"

definition validate_execution_state :: "string \<Rightarrow> string result" where
  "validate_execution_state = validate_in ''execution_state'' EXECUTION_STATES"

definition validate_execution_actor :: "string \<Rightarrow> string result" where
  "validate_execution_actor = validate_in ''execution_actor'' EXECUTION_ACTORS"

definition validate_reason_code :: "string option \<Rightarrow> string option result" where
  "validate_reason_code value =
     (case value of
        None \<Rightarrow> Inr None
      | Some v \<Rightarrow>
          if strip v = [] then Inr None
          else case validate_in ''reason_code'' REASON_CODES v of Inl e \<Rightarrow> Inl e | Inr r \<Rightarrow> Inr (Some r))"

definition correlation_char :: "char \<Rightarrow> bool" where
  "correlation_char c \<longleftrightarrow>
     (let n = of_char c :: nat
      in (48 \<le> n \<and> n \<le> 57) \<or> (65 \<le> n \<and> n \<le> 90) \<or> (97 \<le> n \<and> n \<le> 122) \<or> c \<in> set ''._:-'')"

definition validate_soar_correlation_id :: "string \<Rightarrow> string result" where
  "validate_soar_correlation_id value =
     (let v = strip value
      in if v = [] then outcome_error ''soar_correlation_id is required''
         else if 128 < length v then outcome_error ''soar_correlation_id must be at most 128 characters''
         else if url_search v then outcome_error ''soar_correlation_id must not contain URLs''
         else if \<not> list_all correlation_char v then outcome_error ''soar_correlation_id contains unsupported characters''
         else Inr v)"

definition generate_soar_correlation_id :: "(nat \<Rightarrow> string) \<Rightarrow> row_id option \<Rightarrow> (outcome_db, string) py" where
  "generate_soar_correlation_id uuid alert_id s =
     (let alert_part = (case alert_id of Some i \<Rightarrow> show_int i | None \<Rightarrow> ''none'')
      in (validate_soar_correlation_id (''soar-'' @ alert_part @ ''-'' @ uuid (uuids_drawn s)),
          s\<lparr>uuids_drawn := uuids_drawn s + 1\<rparr>))"

definition generate_legacy_soar_correlation_id :: "string \<Rightarrow> row_id \<Rightarrow> string result" where
  "generate_legacy_soar_correlation_id table record_id =
     (if strip table = [] then outcome_error ''table is required for legacy correlation id''
      else if record_id < 1 then outcome_error ''record_id must be a positive integer''
      else
        let safe = filter (\<lambda>c. let n = of_char c :: nat in (97 \<le> n \<and> n \<le> 122) \<or> (48 \<le> n \<and> n \<le> 57) \<or> c = CHR ''_'')
                     (lower (strip table))
        in if safe = [] then outcome_error ''table name must contain safe characters''
           else validate_soar_correlation_id (''legacy-'' @ safe @ ''-'' @ show_int record_id))"

definition validate_outcome_booleans :: "string \<Rightarrow> string \<Rightarrow> bool \<Rightarrow> bool \<Rightarrow> bool \<Rightarrow> unit result" where
  "validate_outcome_booleans mode state external tracking simulated =
     (if mode = ''observed'' then
        if external \<or> tracking \<or> simulated
        then outcome_error ''observed outcomes must set external_executed, tracking_recorded, and simulated to false''
        else Inr ()
      else if simulated \<and> mode \<noteq> ''simulation''
      then outcome_error ''simulated may only be true when execution_mode is simulation''
      else if external \<and> (mode \<noteq> ''real'' \<or> state \<noteq> ''succeeded'')
      then outcome_error ''external_executed may only be true for real/succeeded outcomes''
      else if tracking \<and> (mode \<noteq> ''tracking_only'' \<or> state \<noteq> ''succeeded'')
      then outcome_error ''tracking_recorded may only be true for tracking_only/succeeded outcomes''
      else if mode = ''simulation'' \<and> (external \<or> tracking)
      then outcome_error ''simulation outcomes must set external_executed and tracking_recorded to false''
      else if mode = ''real'' \<and> (simulated \<or> tracking)
      then outcome_error ''real outcomes must set simulated and tracking_recorded to false''
      else if mode = ''tracking_only'' \<and> (simulated \<or> external)
      then outcome_error ''tracking_only outcomes must set simulated and external_executed to false''
      else if mode = ''internal'' \<and> (simulated \<or> external \<or> tracking)
      then outcome_error ''internal outcomes must set simulated, external_executed, and tracking_recorded to false''
      else if mode = ''read_only'' \<and> (simulated \<or> external \<or> tracking)
      then outcome_error ''read_only outcomes must set simulated, external_executed, and tracking_recorded to false''
      else Inr ())"

text \<open>The module has its own copy of the deny lists and the walk of \<open>notification_delivery_store\<close>, letter
  for letter.\<close>

definition redact_soar_outcome_metadata :: "items option \<Rightarrow> items" where
  "redact_soar_outcome_metadata metadata = redact_items (coalesce metadata [])"

text \<open>The words a dashboard shows.\<close>

definition derive_outcome_label :: "string \<Rightarrow> string \<Rightarrow> bool \<Rightarrow> bool \<Rightarrow> bool \<Rightarrow> string result" where
  "derive_outcome_label mode0 state0 external tracking simulated =
     (case validate_execution_state state0 of
        Inl e \<Rightarrow> Inl e
      | Inr state \<Rightarrow>
          (case validate_execution_mode mode0 of
             Inl e \<Rightarrow> Inl e
           | Inr mode \<Rightarrow> Inr
              (if state = ''awaiting_approval'' then ''Awaiting approval''
               else if state = ''blocked'' then ''Blocked''
               else if state = ''skipped'' then ''Skipped''
               else if state = ''failed'' then ''Failed''
               else if state = ''running'' then ''Running''
               else if state = ''queued'' then ''Queued''
               else if state = ''selected'' then ''Selected''
               else if mode = ''observed'' then ''Observed only''
               else if mode = ''simulation'' \<or> simulated then ''Simulated''
               else if mode = ''tracking_only'' \<or> tracking then ''Tracking only''
               else if mode = ''real'' \<and> external then ''Real executed''
               else if mode = ''real'' then ''Failed''
               else if state = ''succeeded'' then ''Selected''
               else ''Observed only'')))"

subsection \<open>Writing\<close>

text \<open>The keyword arguments of \<open>create_response_decision\<close>.\<close>

record decision_args =
  da_selected_action :: string
  da_decision_source :: string
  da_outcome_summary :: string
  da_alert_id :: "row_id option"
  da_incident_id :: "row_id option"
  da_source_ip :: "string option"
  da_reason_code :: "string option"
  da_soar_correlation_id :: "string option"
  da_parent_soar_correlation_id :: "string option"
  da_playbook_id :: "string option"
  da_playbook_execution_id :: "row_id option"
  da_playbook_step_index :: "int option"
  da_queue_id :: "row_id option"
  da_approval_request_id :: "row_id option"
  da_created_by :: "row_id option"
  da_safe_metadata :: "items option"

definition decision_args0 :: "string \<Rightarrow> string \<Rightarrow> string \<Rightarrow> decision_args" where
  "decision_args0 action source summary =
     \<lparr>da_selected_action = action, da_decision_source = source, da_outcome_summary = summary,
      da_alert_id = None, da_incident_id = None, da_source_ip = None, da_reason_code = None,
      da_soar_correlation_id = None, da_parent_soar_correlation_id = None, da_playbook_id = None,
      da_playbook_execution_id = None, da_playbook_step_index = None, da_queue_id = None,
      da_approval_request_id = None, da_created_by = None, da_safe_metadata = None\<rparr>"

text \<open>A correlation id that is missing or empty is generated.\<close>

definition resolve_correlation :: "(nat \<Rightarrow> string) \<Rightarrow> string option \<Rightarrow> row_id option \<Rightarrow> (outcome_db, string) py" where
  "resolve_correlation uuid given alert_id =
     (case given of
        Some c \<Rightarrow> if c = [] then generate_soar_correlation_id uuid alert_id
                  else (\<lambda>s. (validate_soar_correlation_id c, s))
      | None \<Rightarrow> generate_soar_correlation_id uuid alert_id)"

definition resolve_parent :: "string option \<Rightarrow> string option result" where
  "resolve_parent given =
     (case given of
        None \<Rightarrow> Inr None
      | Some c \<Rightarrow> if c = [] then Inr None
                  else case validate_soar_correlation_id c of Inl e \<Rightarrow> Inl e | Inr v \<Rightarrow> Inr (Some v))"

definition negative_index :: "int option \<Rightarrow> bool" where
  "negative_index i = (case i of None \<Rightarrow> False | Some n \<Rightarrow> n < 0)"

definition new_decision ::
  "clock \<Rightarrow> decision_args \<Rightarrow> row_id \<Rightarrow> string \<Rightarrow> string option \<Rightarrow> string \<Rightarrow> string option \<Rightarrow> response_decision" where
  "new_decision clk a i correlation parent source reason =
     \<lparr>rd_id = i, rd_soar_correlation_id = correlation, rd_parent_soar_correlation_id = parent,
      rd_alert_id = da_alert_id a, rd_incident_id = da_incident_id a, rd_source_ip = da_source_ip a,
      rd_selected_action = strip (da_selected_action a), rd_decision_source = source, rd_reason_code = reason,
      rd_outcome_summary = strip (da_outcome_summary a), rd_playbook_id = da_playbook_id a,
      rd_playbook_execution_id = da_playbook_execution_id a, rd_playbook_step_index = da_playbook_step_index a,
      rd_queue_id = da_queue_id a, rd_approval_request_id = da_approval_request_id a,
      rd_created_by = da_created_by a, rd_safe_metadata = redact_soar_outcome_metadata (da_safe_metadata a),
      rd_selected_at = sql_now clk, rd_created_at = sql_now clk\<rparr>"

text \<open>A failed insertion has used up the id.\<close>

definition insert_decision :: "response_decision \<Rightarrow> (outcome_db, response_decision) py" where
  "insert_decision r s =
     (let s0 = s\<lparr>decision_seq := decision_seq s + 1\<rparr>
      in if \<exists>d \<in> set (soar_response_decisions s). rd_soar_correlation_id d = rd_soar_correlation_id r
         then (Inl (IntegrityError ''idx_soar_response_decisions_soar_correlation_id''), s0)
         else (Inr r, s0\<lparr>soar_response_decisions := soar_response_decisions s @ [r]\<rparr>))"

definition create_response_decision ::
  "(nat \<Rightarrow> string) \<Rightarrow> clock \<Rightarrow> decision_args \<Rightarrow> (outcome_db, response_decision) py" where
  "create_response_decision uuid clk a s =
     (if strip (da_selected_action a) = [] then (outcome_error ''selected_action is required'', s)
      else if strip (da_outcome_summary a) = [] then (outcome_error ''outcome_summary is required'', s)
      else case (validate_decision_source (da_decision_source a), validate_reason_code (da_reason_code a)) of
             (Inl e, _) \<Rightarrow> (Inl e, s)
           | (_, Inl e) \<Rightarrow> (Inl e, s)
           | (Inr source, Inr reason) \<Rightarrow>
               (case resolve_correlation uuid (da_soar_correlation_id a) (da_alert_id a) s of
                  (Inl e, s1) \<Rightarrow> (Inl e, s1)
                | (Inr correlation, s1) \<Rightarrow>
                    (case resolve_parent (da_parent_soar_correlation_id a) of
                       Inl e \<Rightarrow> (Inl e, s1)
                     | Inr parent \<Rightarrow>
                         if negative_index (da_playbook_step_index a)
                         then (outcome_error ''playbook_step_index must be >= 0'', s1)
                         else insert_decision
                                (new_decision clk a (decision_seq s1) correlation parent source reason) s1)))"

text \<open>The keyword arguments of \<open>append_outcome_event\<close>.\<close>

record outcome_args =
  oa_execution_mode :: string
  oa_execution_state :: string
  oa_execution_actor :: string
  oa_outcome_summary :: string
  oa_decision_id :: "row_id option"
  oa_soar_correlation_id :: "string option"
  oa_event_type :: "string option"
  oa_external_executed :: bool
  oa_tracking_recorded :: bool
  oa_simulated :: bool
  oa_reason_code :: "string option"
  oa_alert_id :: "row_id option"
  oa_incident_id :: "row_id option"
  oa_source_ip :: "string option"
  oa_queue_id :: "row_id option"
  oa_playbook_execution_id :: "row_id option"
  oa_playbook_step_index :: "int option"
  oa_approval_request_id :: "row_id option"
  oa_delivery_attempt_id :: "row_id option"
  oa_response_action_log_id :: "row_id option"
  oa_provider :: "string option"
  oa_adapter_name :: "string option"
  oa_external_reference :: "string option"
  oa_idempotency_key :: "string option"
  oa_metadata :: "items option"
  oa_occurred_at :: "time option"

definition outcome_args0 :: "string \<Rightarrow> string \<Rightarrow> string \<Rightarrow> string \<Rightarrow> outcome_args" where
  "outcome_args0 mode state actor summary =
     \<lparr>oa_execution_mode = mode, oa_execution_state = state, oa_execution_actor = actor,
      oa_outcome_summary = summary, oa_decision_id = None, oa_soar_correlation_id = None,
      oa_event_type = None, oa_external_executed = False, oa_tracking_recorded = False,
      oa_simulated = False, oa_reason_code = None, oa_alert_id = None, oa_incident_id = None,
      oa_source_ip = None, oa_queue_id = None, oa_playbook_execution_id = None,
      oa_playbook_step_index = None, oa_approval_request_id = None, oa_delivery_attempt_id = None,
      oa_response_action_log_id = None, oa_provider = None, oa_adapter_name = None,
      oa_external_reference = None, oa_idempotency_key = None, oa_metadata = None,
      oa_occurred_at = None\<rparr>"

definition fetch_decision_by_id :: "row_id \<Rightarrow> outcome_db \<Rightarrow> response_decision option" where
  "fetch_decision_by_id i s = select_id rd_id i (soar_response_decisions s)"

definition fetch_decision_by_correlation_id :: "string \<Rightarrow> outcome_db \<Rightarrow> response_decision option" where
  "fetch_decision_by_correlation_id c s =
     fetchone (filter (\<lambda>d. rd_soar_correlation_id d = c) (soar_response_decisions s))"

definition get_outcome_event_by_idempotency_key :: "string \<Rightarrow> outcome_db \<Rightarrow> outcome_event option" where
  "get_outcome_event_by_idempotency_key k s =
     fetchone (filter (\<lambda>e. oe_idempotency_key e = Some k) (soar_response_outcome_events s))"

text \<open>The checks in their order, up to the decision the event belongs to.\<close>

definition check_outcome :: "outcome_args \<Rightarrow> (string \<times> string \<times> string \<times> string option) result" where
  "check_outcome a =
     (if oa_decision_id a = None \<and> coalesce (oa_soar_correlation_id a) [] = []
      then outcome_error ''decision_id or soar_correlation_id is required''
      else if strip (oa_outcome_summary a) = [] then outcome_error ''outcome_summary is required''
      else case validate_execution_mode (oa_execution_mode a) of
             Inl e \<Rightarrow> Inl e
           | Inr mode \<Rightarrow>
        (case validate_execution_state (oa_execution_state a) of
           Inl e \<Rightarrow> Inl e
         | Inr state \<Rightarrow>
        (case validate_execution_actor (oa_execution_actor a) of
           Inl e \<Rightarrow> Inl e
         | Inr actor \<Rightarrow>
        (case validate_reason_code (oa_reason_code a) of
           Inl e \<Rightarrow> Inl e
         | Inr reason \<Rightarrow>
        (case validate_outcome_booleans mode state (oa_external_executed a) (oa_tracking_recorded a) (oa_simulated a) of
           Inl e \<Rightarrow> Inl e
         | Inr _ \<Rightarrow> Inr (mode, state, actor, reason))))))"

definition outcome_decision :: "outcome_args \<Rightarrow> outcome_db \<Rightarrow> response_decision result" where
  "outcome_decision a s =
     (case oa_decision_id a of
        Some i \<Rightarrow>
          (case fetch_decision_by_id i s of
             None \<Rightarrow> outcome_error (''decision_id '' @ show_int i @ '' not found'')
           | Some d \<Rightarrow> Inr d)
      | None \<Rightarrow>
          (case validate_soar_correlation_id (coalesce (oa_soar_correlation_id a) []) of
             Inl e \<Rightarrow> Inl e
           | Inr c \<Rightarrow>
               (case fetch_decision_by_correlation_id c s of
                  None \<Rightarrow> outcome_error (''no decision found for soar_correlation_id '' @ c)
                | Some d \<Rightarrow> Inr d)))"

definition new_outcome_event ::
  "clock \<Rightarrow> outcome_args \<Rightarrow> row_id \<Rightarrow> response_decision \<Rightarrow> string \<Rightarrow> string option \<Rightarrow>
   string \<times> string \<times> string \<times> string option \<Rightarrow> outcome_event" where
  "new_outcome_event clk a i d event_type key checked =
     (case checked of (mode, state, actor, reason) \<Rightarrow>
      \<lparr>oe_id = i, oe_decision_id = rd_id d, oe_soar_correlation_id = rd_soar_correlation_id d,
       oe_event_type = event_type, oe_alert_id = coalesce_opt (oa_alert_id a) (rd_alert_id d),
       oe_incident_id = coalesce_opt (oa_incident_id a) (rd_incident_id d),
       oe_source_ip = coalesce_opt (oa_source_ip a) (rd_source_ip d),
       oe_execution_mode = mode, oe_execution_state = state,
       oe_external_executed = oa_external_executed a, oe_tracking_recorded = oa_tracking_recorded a,
       oe_simulated = oa_simulated a, oe_execution_actor = actor, oe_reason_code = reason,
       oe_outcome_summary = strip (oa_outcome_summary a), oe_queue_id = oa_queue_id a,
       oe_playbook_execution_id = oa_playbook_execution_id a,
       oe_playbook_step_index = oa_playbook_step_index a,
       oe_approval_request_id = oa_approval_request_id a,
       oe_delivery_attempt_id = oa_delivery_attempt_id a,
       oe_response_action_log_id = oa_response_action_log_id a, oe_provider = oa_provider a,
       oe_adapter_name = oa_adapter_name a, oe_external_reference = oa_external_reference a,
       oe_idempotency_key = key, oe_metadata = redact_soar_outcome_metadata (oa_metadata a),
       oe_occurred_at = coalesce (oa_occurred_at a) (sql_now clk), oe_created_at = sql_now clk\<rparr>)"

text \<open>The widths of the columns that a caller's text goes to as it is.\<close>

definition event_fits :: "outcome_event \<Rightarrow> bool" where
  "event_fits e \<longleftrightarrow> length (oe_event_type e) \<le> 64 \<and> length (coalesce (oe_provider e) []) \<le> 64 \<and>
     length (coalesce (oe_adapter_name e) []) \<le> 64 \<and> length (coalesce (oe_idempotency_key e) []) \<le> 160"

definition insert_outcome_event :: "outcome_event \<Rightarrow> (outcome_db, outcome_event) py" where
  "insert_outcome_event e s =
     (let s0 = s\<lparr>outcome_seq := outcome_seq s + 1\<rparr>
      in if \<not> event_fits e then (Inl (DataError ''value too long for type character varying''), s0)
         else if oe_idempotency_key e \<noteq> None \<and>
                 (\<exists>x \<in> set (soar_response_outcome_events s). oe_idempotency_key x = oe_idempotency_key e)
         then (Inl (IntegrityError ''idx_soar_response_outcome_events_idempotency_key''), s0)
         else (Inr e, s0\<lparr>soar_response_outcome_events := soar_response_outcome_events s @ [e]\<rparr>))"

text \<open>An empty key is no key for the look-up, but is stored as the text it is.\<close>

definition append_outcome_event :: "clock \<Rightarrow> outcome_args \<Rightarrow> (outcome_db, outcome_event) py" where
  "append_outcome_event clk a s =
     (case check_outcome a of
        Inl e \<Rightarrow> (Inl e, s)
      | Inr checked \<Rightarrow>
     (case outcome_decision a s of
        Inl e \<Rightarrow> (Inl e, s)
      | Inr d \<Rightarrow>
          let event_type = strip (case oa_event_type a of
                                    None \<Rightarrow> fst (snd checked)
                                  | Some t \<Rightarrow> if t = [] then fst (snd checked) else t);
              given = coalesce (oa_idempotency_key a) [];
              key = (if given = [] then oa_idempotency_key a else Some (strip given))
          in if event_type = [] then (outcome_error ''event_type is required'', s)
             else if given \<noteq> [] \<and> strip given = [] then (outcome_error ''idempotency_key must not be blank'', s)
             else case (if given = [] then None else get_outcome_event_by_idempotency_key (strip given) s) of
                    Some existing \<Rightarrow> (Inr existing, s)
                  | None \<Rightarrow>
                      if negative_index (oa_playbook_step_index a)
                      then (outcome_error ''playbook_step_index must be >= 0'', s)
                      else insert_outcome_event
                             (new_outcome_event clk a (outcome_seq s) d event_type key checked) s))"

subsection \<open>The invariant of the tables\<close>

definition reason_ok :: "string option \<Rightarrow> bool" where
  "reason_ok r \<longleftrightarrow> (case r of None \<Rightarrow> True | Some c \<Rightarrow> c \<in> set REASON_CODES)"

definition decision_ok :: "response_decision \<Rightarrow> bool" where
  "decision_ok d \<longleftrightarrow>
     validate_soar_correlation_id (rd_soar_correlation_id d) = Inr (rd_soar_correlation_id d) \<and>
     rd_selected_action d \<noteq> [] \<and> rd_outcome_summary d \<noteq> [] \<and>
     rd_decision_source d \<in> set DECISION_SOURCES \<and> reason_ok (rd_reason_code d) \<and>
     \<not> negative_index (rd_playbook_step_index d) \<and> clean_items (rd_safe_metadata d)"

definition event_ok :: "outcome_event \<Rightarrow> bool" where
  "event_ok e \<longleftrightarrow>
     oe_execution_mode e \<in> set EXECUTION_MODES \<and> oe_execution_state e \<in> set EXECUTION_STATES \<and>
     oe_execution_actor e \<in> set EXECUTION_ACTORS \<and> reason_ok (oe_reason_code e) \<and>
     oe_outcome_summary e \<noteq> [] \<and> oe_event_type e \<noteq> [] \<and>
     (oe_external_executed e \<longrightarrow> oe_execution_mode e = ''real'' \<and> oe_execution_state e = ''succeeded'') \<and>
     (oe_tracking_recorded e \<longrightarrow> oe_execution_mode e = ''tracking_only'' \<and> oe_execution_state e = ''succeeded'') \<and>
     (oe_simulated e \<longrightarrow> oe_execution_mode e = ''simulation'') \<and>
     \<not> negative_index (oe_playbook_step_index e) \<and> clean_items (oe_metadata e)"

definition outcome_inv :: "outcome_db \<Rightarrow> bool" where
  "outcome_inv s \<longleftrightarrow>
     wf_ids rd_id (decision_seq s) (soar_response_decisions s) \<and>
     wf_ids oe_id (outcome_seq s) (soar_response_outcome_events s) \<and>
     distinct (map rd_soar_correlation_id (soar_response_decisions s)) \<and>
     distinct (log_keys oe_idempotency_key (soar_response_outcome_events s)) \<and>
     (\<forall>d \<in> set (soar_response_decisions s). decision_ok d) \<and>
     (\<forall>e \<in> set (soar_response_outcome_events s). event_ok e \<and>
        (\<exists>d \<in> set (soar_response_decisions s).
           rd_id d = oe_decision_id e \<and> rd_soar_correlation_id d = oe_soar_correlation_id e))"

text \<open>Both tables only grow, at their ends.\<close>

definition outcome_grows :: "outcome_db \<Rightarrow> outcome_db \<Rightarrow> bool" where
  "outcome_grows s s' \<longleftrightarrow>
     prefix (soar_response_decisions s) (soar_response_decisions s') \<and>
     prefix (soar_response_outcome_events s) (soar_response_outcome_events s')"

definition outcome_init :: outcome_db where
  "outcome_init =
     \<lparr>soar_response_decisions = [], decision_seq = 1, soar_response_outcome_events = [], outcome_seq = 1,
      uuids_drawn = 0\<rparr>"

lemma outcome_inv_init: "outcome_inv outcome_init"
  by (simp add: outcome_inv_def outcome_init_def)

lemma outcome_grows_refl [simp]: "outcome_grows s s"
  by (simp add: outcome_grows_def)

lemma outcome_grows_trans: "outcome_grows s s' \<Longrightarrow> outcome_grows s' s'' \<Longrightarrow> outcome_grows s s''"
  unfolding outcome_grows_def by (elim conjE, intro conjI; rule prefix_order.trans; assumption)

text \<open>What the checks leave.\<close>

lemma validate_in_Inr: "validate_in n vs x = Inr v \<Longrightarrow> v \<in> set vs"
  by (auto simp: validate_in_def split: if_splits)

lemma validate_reason_ok: "validate_reason_code r = Inr r' \<Longrightarrow> reason_ok r'"
  by (auto simp: validate_reason_code_def reason_ok_def dest: validate_in_Inr
      split: option.splits if_splits sum.splits)

lemma validate_correlation_Inr:
  "validate_soar_correlation_id c = Inr v \<Longrightarrow> validate_soar_correlation_id v = Inr v"
  by (auto simp: validate_soar_correlation_id_def Let_def split: if_splits)

lemma boolean_checks:
  assumes "(if m = ob then if ex \<or> tr \<or> si then Inl a else Inr ()
     else if si \<and> m \<noteq> sim then Inl b
     else if ex \<and> (m \<noteq> re \<or> st \<noteq> su) then Inl c
     else if tr \<and> (m \<noteq> tro \<or> st \<noteq> su) then Inl d else rest) = Inr u"
  shows "(ex \<longrightarrow> m = re \<and> st = su) \<and> (tr \<longrightarrow> m = tro \<and> st = su) \<and> (si \<longrightarrow> m = sim)"
  using assms by (cases ex; cases tr; cases si) (auto split: if_splits)

lemma validate_booleans_ok:
  assumes "validate_outcome_booleans mode state ex tr si = Inr u"
  shows "ex \<longrightarrow> mode = ''real'' \<and> state = ''succeeded''"
    and "tr \<longrightarrow> mode = ''tracking_only'' \<and> state = ''succeeded''" and "si \<longrightarrow> mode = ''simulation''"
  using boolean_checks [OF assms [unfolded validate_outcome_booleans_def]] by blast+

lemma uuids_same: "\<exists>n. s = s\<lparr>uuids_drawn := n\<rparr>"
  by (rule exI [of _ "uuids_drawn s"]) simp

lemma resolve_correlation_state: "\<exists>n. snd (resolve_correlation uuid g i s) = s\<lparr>uuids_drawn := n\<rparr>"
  using uuids_same [of s]
  by (auto simp: resolve_correlation_def generate_soar_correlation_id_def Let_def split: option.splits)

lemma resolve_correlation_ok:
  assumes "resolve_correlation uuid g i s = (Inr c, s')"
  shows "validate_soar_correlation_id c = Inr c" and "\<exists>n. s' = s\<lparr>uuids_drawn := n\<rparr>"
  using assms resolve_correlation_state [of uuid g i s]
  by (auto simp: resolve_correlation_def generate_soar_correlation_id_def Let_def
      split: option.splits if_splits intro: validate_correlation_Inr)

lemma outcome_inv_uuids [simp]: "outcome_inv (s\<lparr>uuids_drawn := n\<rparr>) = outcome_inv s"
  by (simp add: outcome_inv_def)

lemma outcome_grows_uuids [simp]: "outcome_grows s (s\<lparr>uuids_drawn := n\<rparr>)"
  by (simp add: outcome_grows_def)

text \<open>A sequence may run ahead of its table.\<close>

lemma wf_ids_skip: "wf_ids key seq t \<Longrightarrow> wf_ids key (seq + 1) t"
  by (auto simp: wf_ids_def)

lemma insert_decision_safe:
  assumes inv: "outcome_inv s" and ok: "decision_ok r" "rd_id r = decision_seq s"
  shows "outcome_inv (snd (insert_decision r s)) \<and> outcome_grows s (snd (insert_decision r s))"
  using assms wf_ids_insert [of rd_id "decision_seq s" "soar_response_decisions s" r]
  by (auto simp: insert_decision_def Let_def outcome_inv_def outcome_grows_def wf_ids_skip)

lemma create_decision_safe:
  assumes inv: "outcome_inv s"
  shows "outcome_inv (snd (create_response_decision uuid clk a s)) \<and>
    outcome_grows s (snd (create_response_decision uuid clk a s))"
proof (cases "\<exists>c s1 parent source reason.
    create_response_decision uuid clk a s = insert_decision (new_decision clk a (decision_seq s1) c parent source reason) s1 \<and>
    resolve_correlation uuid (da_soar_correlation_id a) (da_alert_id a) s = (Inr c, s1) \<and>
    strip (da_selected_action a) \<noteq> [] \<and> strip (da_outcome_summary a) \<noteq> [] \<and>
    validate_decision_source (da_decision_source a) = Inr source \<and>
    validate_reason_code (da_reason_code a) = Inr reason \<and> \<not> negative_index (da_playbook_step_index a)")
  case True
  then obtain c s1 parent source reason where
      run: "create_response_decision uuid clk a s = insert_decision (new_decision clk a (decision_seq s1) c parent source reason) s1"
      and c: "resolve_correlation uuid (da_soar_correlation_id a) (da_alert_id a) s = (Inr c, s1)"
      and args: "strip (da_selected_action a) \<noteq> []" "strip (da_outcome_summary a) \<noteq> []"
        "validate_decision_source (da_decision_source a) = Inr source"
        "validate_reason_code (da_reason_code a) = Inr reason" "\<not> negative_index (da_playbook_step_index a)"
    by blast
  obtain n where s1: "s1 = s\<lparr>uuids_drawn := n\<rparr>" using resolve_correlation_ok(2) [OF c] by blast
  have "decision_ok (new_decision clk a (decision_seq s1) c parent source reason)"
    using args resolve_correlation_ok(1) [OF c] validate_reason_ok [OF args(4)]
    by (auto simp: decision_ok_def new_decision_def validate_decision_source_def redact_soar_outcome_metadata_def
        sanitize_clean dest: validate_in_Inr)
  moreover have "outcome_inv s1" "outcome_grows s s1" using inv by (simp_all add: s1)
  moreover have "rd_id (new_decision clk a (decision_seq s1) c parent source reason) = decision_seq s1"
    by (simp add: new_decision_def)
  ultimately show ?thesis using insert_decision_safe outcome_grows_trans unfolding run by blast
next
  case False
  then have "\<exists>n. snd (create_response_decision uuid clk a s) = s\<lparr>uuids_drawn := n\<rparr>"
    using resolve_correlation_state [of uuid "da_soar_correlation_id a" "da_alert_id a" s] uuids_same [of s]
    by (auto simp: create_response_decision_def split: sum.splits prod.splits if_splits)
  then show ?thesis using inv by auto
qed

lemma check_outcome_Inr:
  assumes "check_outcome a = Inr (mode, state, actor, reason)"
  shows "mode \<in> set EXECUTION_MODES" "state \<in> set EXECUTION_STATES" "actor \<in> set EXECUTION_ACTORS"
    "reason_ok reason" "strip (oa_outcome_summary a) \<noteq> []"
    "validate_outcome_booleans mode state (oa_external_executed a) (oa_tracking_recorded a) (oa_simulated a) = Inr ()"
  using assms validate_in_Inr validate_reason_ok
  by (auto simp: check_outcome_def validate_execution_mode_def validate_execution_state_def
      validate_execution_actor_def split: if_splits sum.splits)

lemma outcome_decision_Inr: "outcome_decision a s = Inr d \<Longrightarrow> d \<in> set (soar_response_decisions s)"
  by (auto simp: outcome_decision_def fetch_decision_by_id_def fetch_decision_by_correlation_id_def
      dest: select_id_Some fetchone_mem split: option.splits sum.splits)

text \<open>What one append does: nothing, return an event that is there, or add one.\<close>

lemma append_outcome_cases:
  obtains (failed) e s' where "append_outcome_event clk a s = (Inl e, s')" "s' = s \<or> s' = s\<lparr>outcome_seq := outcome_seq s + 1\<rparr>"
  | (there) x where "append_outcome_event clk a s = (Inr x, s)"
      "get_outcome_event_by_idempotency_key (strip (coalesce (oa_idempotency_key a) [])) s = Some x"
      "coalesce (oa_idempotency_key a) [] \<noteq> []"
  | (added) d et key checked x where "check_outcome a = Inr checked" "outcome_decision a s = Inr d" "et \<noteq> []"
      "\<not> negative_index (oa_playbook_step_index a)"
      "key = (if coalesce (oa_idempotency_key a) [] = [] then oa_idempotency_key a
              else Some (strip (coalesce (oa_idempotency_key a) [])))"
      "x = new_outcome_event clk a (outcome_seq s) d et key checked"
      "\<forall>y \<in> set (soar_response_outcome_events s). key \<noteq> None \<longrightarrow> oe_idempotency_key y \<noteq> key"
      "append_outcome_event clk a s = (Inr x, s\<lparr>outcome_seq := outcome_seq s + 1,
         soar_response_outcome_events := soar_response_outcome_events s @ [x]\<rparr>)"
proof (cases "check_outcome a")
  case (Inl e)
  then show ?thesis using failed by (simp add: append_outcome_event_def)
next
  case (Inr checked)
  note c = Inr
  show ?thesis
  proof (cases "outcome_decision a s")
    case (Inl e)
    then show ?thesis using failed c by (simp add: append_outcome_event_def)
  next
    case (Inr d)
    define given where "given = coalesce (oa_idempotency_key a) []"
    define key where "key = (if given = [] then oa_idempotency_key a else Some (strip given))"
    define et where "et = strip (case oa_event_type a of None \<Rightarrow> fst (snd checked)
                                 | Some t \<Rightarrow> if t = [] then fst (snd checked) else t)"
    define x where "x = new_outcome_event clk a (outcome_seq s) d et key checked"
    have xkey: "oe_idempotency_key x = key" by (simp add: x_def new_outcome_event_def split: prod.splits)
    have run: "append_outcome_event clk a s =
       (if et = [] then (outcome_error ''event_type is required'', s)
        else if given \<noteq> [] \<and> strip given = [] then (outcome_error ''idempotency_key must not be blank'', s)
        else case (if given = [] then None else get_outcome_event_by_idempotency_key (strip given) s) of
               Some existing \<Rightarrow> (Inr existing, s)
             | None \<Rightarrow> if negative_index (oa_playbook_step_index a)
                       then (outcome_error ''playbook_step_index must be >= 0'', s)
                       else insert_outcome_event x s)"
      unfolding append_outcome_event_def c Inr x_def et_def key_def given_def Let_def by simp
    show ?thesis
    proof (cases "et = [] \<or> given \<noteq> [] \<and> strip given = []")
      case True
      then show ?thesis using failed run by (cases "et = []") simp_all
    next
      case False
      show ?thesis
      proof (cases "if given = [] then None else get_outcome_event_by_idempotency_key (strip given) s")
        case (Some y)
        then have "given \<noteq> []" by (auto split: if_splits)
        with Some False show ?thesis using there [of y] run by (simp add: given_def)
      next
        case None
        show ?thesis
        proof (cases "negative_index (oa_playbook_step_index a) \<or> \<not> event_fits x \<or>
            key \<noteq> None \<and> (\<exists>y \<in> set (soar_response_outcome_events s). oe_idempotency_key y = key)")
          case True
          have body: "append_outcome_event clk a s =
              (if negative_index (oa_playbook_step_index a)
               then (outcome_error ''playbook_step_index must be >= 0'', s) else insert_outcome_event x s)"
            using run None False by auto
          have "\<exists>e s'. append_outcome_event clk a s = (Inl e, s') \<and> (s' = s \<or> s' = s\<lparr>outcome_seq := outcome_seq s + 1\<rparr>)"
            unfolding body using True by (auto simp: insert_outcome_event_def Let_def xkey)
          then show ?thesis using failed by blast
        next
          case ok: False
          then have "append_outcome_event clk a s = (Inr x, s\<lparr>outcome_seq := outcome_seq s + 1,
              soar_response_outcome_events := soar_response_outcome_events s @ [x]\<rparr>)"
            using run None False by (auto simp: insert_outcome_event_def Let_def xkey)
          then show ?thesis using added [OF c Inr _ _ _ x_def] ok False key_def given_def by auto
        qed
      qed
    qed
  qed
qed

lemma append_outcome_safe:
  assumes inv: "outcome_inv s"
  shows "outcome_inv (snd (append_outcome_event clk a s)) \<and> outcome_grows s (snd (append_outcome_event clk a s))"
proof (cases rule: append_outcome_cases [of clk a s])
  case (failed e s')
  then show ?thesis using inv by (auto simp: outcome_inv_def outcome_grows_def wf_ids_skip)
next
  case (there x)
  then show ?thesis using inv by simp
next
  case (added d et key checked x)
  obtain mode state actor reason where ch: "checked = (mode, state, actor, reason)" by (cases checked)
  note c = check_outcome_Inr [OF added(1) [unfolded ch]]
  have "event_ok x" using c(1-5) validate_booleans_ok [OF c(6)] added(3,4)
    by (simp add: event_ok_def added(6) ch new_outcome_event_def redact_soar_outcome_metadata_def sanitize_clean)
  moreover have "oe_id x = outcome_seq s" "oe_decision_id x = rd_id d" "oe_soar_correlation_id x = rd_soar_correlation_id d"
      "oe_idempotency_key x = key"
    by (simp_all add: added(6) ch new_outcome_event_def)
  ultimately show ?thesis
    using inv added(7) outcome_decision_Inr [OF added(2)]
      wf_ids_insert [of oe_id "outcome_seq s" "soar_response_outcome_events s" x]
    by (auto simp: added(8) outcome_inv_def outcome_grows_def log_keys_mem split: option.splits)
qed

subsection \<open>The latest outcome\<close>

definition latest_first :: "outcome_event list \<Rightarrow> outcome_event list" where
  "latest_first = order_desc (\<lambda>e. (oe_occurred_at e, oe_created_at e, oe_id e))"

definition oldest_first :: "outcome_event list \<Rightarrow> outcome_event list" where
  "oldest_first = order_asc (\<lambda>e. (oe_occurred_at e, oe_created_at e, oe_id e))"

definition get_latest_outcome_for_decision :: "row_id \<Rightarrow> outcome_db \<Rightarrow> outcome_event option" where
  "get_latest_outcome_for_decision i s =
     fetchone (latest_first (filter (\<lambda>e. oe_decision_id e = i) (soar_response_outcome_events s)))"

text \<open>A column by its name; a null column equals nothing.\<close>

definition opt_val :: "('a \<Rightarrow> pyval) \<Rightarrow> 'a option \<Rightarrow> pyval" where
  "opt_val f x = (case x of None \<Rightarrow> PNone | Some a \<Rightarrow> f a)"

definition event_column :: "string \<Rightarrow> outcome_event \<Rightarrow> pyval result" where
  "event_column column e =
     (if column = ''alert_id'' then Inr (opt_val PInt (oe_alert_id e))
      else if column = ''incident_id'' then Inr (opt_val PInt (oe_incident_id e))
      else if column = ''source_ip'' then Inr (opt_val PStr (oe_source_ip e))
      else if column = ''queue_id'' then Inr (opt_val PInt (oe_queue_id e))
      else if column = ''playbook_execution_id'' then Inr (opt_val PInt (oe_playbook_execution_id e))
      else if column = ''approval_request_id'' then Inr (opt_val PInt (oe_approval_request_id e))
      else if column = ''notification_delivery_attempt_id'' then Inr (opt_val PInt (oe_delivery_attempt_id e))
      else Inl (ValueError (''unsupported outcome lookup column: '' @ column)))"

definition OUTCOME_COLUMNS :: "string list" where
  "OUTCOME_COLUMNS =
     [''alert_id'', ''incident_id'', ''source_ip'', ''queue_id'', ''playbook_execution_id'', ''approval_request_id'',
      ''notification_delivery_attempt_id'']"

definition get_latest_outcome_by_column :: "string \<Rightarrow> pyval \<Rightarrow> outcome_db \<Rightarrow> outcome_event option result" where
  "get_latest_outcome_by_column column v s =
     (if column \<notin> set OUTCOME_COLUMNS then Inl (ValueError (''unsupported outcome lookup column: '' @ column))
      else Inr (fetchone (latest_first
             (filter (\<lambda>e. v \<noteq> PNone \<and> event_column column e = Inr v) (soar_response_outcome_events s)))))"

definition get_latest_outcome_for_alert :: "row_id \<Rightarrow> outcome_db \<Rightarrow> outcome_event option result" where
  "get_latest_outcome_for_alert i = get_latest_outcome_by_column ''alert_id'' (PInt i)"

definition get_latest_outcome_for_incident :: "row_id \<Rightarrow> outcome_db \<Rightarrow> outcome_event option result" where
  "get_latest_outcome_for_incident i = get_latest_outcome_by_column ''incident_id'' (PInt i)"

definition get_latest_outcome_for_source_ip :: "string \<Rightarrow> outcome_db \<Rightarrow> outcome_event option result" where
  "get_latest_outcome_for_source_ip ip = get_latest_outcome_by_column ''source_ip'' (PStr ip)"

definition get_latest_outcome_for_queue :: "row_id \<Rightarrow> outcome_db \<Rightarrow> outcome_event option result" where
  "get_latest_outcome_for_queue i = get_latest_outcome_by_column ''queue_id'' (PInt i)"

definition get_latest_outcome_for_playbook_execution :: "row_id \<Rightarrow> outcome_db \<Rightarrow> outcome_event option result" where
  "get_latest_outcome_for_playbook_execution i = get_latest_outcome_by_column ''playbook_execution_id'' (PInt i)"

definition get_latest_outcome_for_approval_request :: "row_id \<Rightarrow> outcome_db \<Rightarrow> outcome_event option result" where
  "get_latest_outcome_for_approval_request i = get_latest_outcome_by_column ''approval_request_id'' (PInt i)"

definition get_latest_outcome_for_notification_delivery :: "row_id \<Rightarrow> outcome_db \<Rightarrow> outcome_event option result" where
  "get_latest_outcome_for_notification_delivery i =
     get_latest_outcome_by_column ''notification_delivery_attempt_id'' (PInt i)"

definition get_latest_outcome_by_correlation_id :: "string \<Rightarrow> outcome_db \<Rightarrow> outcome_event option result" where
  "get_latest_outcome_by_correlation_id c0 s =
     (case validate_soar_correlation_id c0 of
        Inl e \<Rightarrow> Inl e
      | Inr c \<Rightarrow> Inr (fetchone (latest_first
          (filter (\<lambda>e. oe_soar_correlation_id e = c) (soar_response_outcome_events s)))))"

subsection \<open>Bulk look-ups\<close>

text \<open>\<open>SELECT DISTINCT ON (k)\<close> keeps the first row of each key; the result is read into a dict.\<close>

function distinct_on :: "('r \<Rightarrow> 'k) \<Rightarrow> 'r list \<Rightarrow> 'r list" where
  "distinct_on k [] = []"
| "distinct_on k (r # rs) = r # distinct_on k (filter (\<lambda>x. k x \<noteq> k r) rs)"
  by pat_completeness auto
termination
  by (relation "measure (length \<circ> snd)") (auto simp: le_imp_less_Suc)

definition rows_dict :: "('r \<Rightarrow> row_id option) \<Rightarrow> 'r list \<Rightarrow> row_id \<Rightarrow> 'r option" where
  "rows_dict k rs = fold (\<lambda>r m. case k r of None \<Rightarrow> m | Some i \<Rightarrow> m(i \<mapsto> r)) rs Map.empty"

definition get_latest_outcomes_for_alerts_bulk :: "row_id list \<Rightarrow> outcome_db \<Rightarrow> row_id \<Rightarrow> outcome_event option" where
  "get_latest_outcomes_for_alerts_bulk ids s =
     rows_dict oe_alert_id (distinct_on oe_alert_id
       (order_asc (\<lambda>e. (the (oe_alert_id e), - oe_occurred_at e, - oe_created_at e, - oe_id e))
         (filter (\<lambda>e. \<exists>i \<in> set ids. oe_alert_id e = Some i) (soar_response_outcome_events s))))"

text \<open>The latest event of each of some decisions, as every bulk look-up reads them.\<close>

definition latest_events_by_decision :: "row_id list \<Rightarrow> outcome_db \<Rightarrow> row_id \<Rightarrow> outcome_event option" where
  "latest_events_by_decision ids s =
     rows_dict (\<lambda>e. Some (oe_decision_id e)) (distinct_on oe_decision_id
       (order_asc (\<lambda>e. (oe_decision_id e, - oe_occurred_at e, - oe_created_at e, - oe_id e))
         (filter (\<lambda>e. oe_decision_id e \<in> set ids) (soar_response_outcome_events s))))"

definition get_latest_decisions_for_alerts_bulk :: "row_id list \<Rightarrow> outcome_db \<Rightarrow> row_id \<Rightarrow> response_decision option" where
  "get_latest_decisions_for_alerts_bulk ids s =
     rows_dict rd_alert_id (distinct_on rd_alert_id
       (order_asc (\<lambda>d. (the (rd_alert_id d), - rd_created_at d, - rd_id d))
         (filter (\<lambda>d. \<exists>i \<in> set ids. rd_alert_id d = Some i) (soar_response_decisions s))))"

definition latest_decisions_for_incidents :: "row_id list \<Rightarrow> outcome_db \<Rightarrow> row_id \<Rightarrow> response_decision option" where
  "latest_decisions_for_incidents ids s =
     rows_dict rd_incident_id (distinct_on rd_incident_id
       (order_asc (\<lambda>d. (the (rd_incident_id d), - rd_created_at d, - rd_id d))
         (filter (\<lambda>d. \<exists>i \<in> set ids. rd_incident_id d = Some i) (soar_response_decisions s))))"

subsection \<open>The shapes the API returns\<close>

record latest_outcome =
  lo_soar_correlation_id :: string
  lo_decision_id :: row_id
  lo_latest_outcome_event_id :: "row_id option"
  lo_selected_action :: string
  lo_decision_source :: string
  lo_execution_actor :: "string option"
  lo_execution_mode :: string
  lo_execution_state :: string
  lo_external_executed :: bool
  lo_tracking_recorded :: bool
  lo_simulated :: bool
  lo_outcome_summary :: string
  lo_reason_code :: "string option"
  lo_alert_id :: "row_id option"
  lo_incident_id :: "row_id option"
  lo_queue_id :: "row_id option"
  lo_playbook_id :: "string option"
  lo_playbook_execution_id :: "row_id option"
  lo_playbook_step_index :: "int option"
  lo_approval_request_id :: "row_id option"
  lo_delivery_attempt_id :: "row_id option"
  lo_response_action_log_id :: "row_id option"
  lo_selected_at :: time
  lo_occurred_at :: "time option"

definition build_latest_outcome_api_shape :: "response_decision \<Rightarrow> outcome_event option \<Rightarrow> latest_outcome" where
  "build_latest_outcome_api_shape d latest =
     (case latest of
        Some e \<Rightarrow>
          \<lparr>lo_soar_correlation_id = rd_soar_correlation_id d, lo_decision_id = rd_id d,
           lo_latest_outcome_event_id = Some (oe_id e), lo_selected_action = rd_selected_action d,
           lo_decision_source = rd_decision_source d, lo_execution_actor = Some (oe_execution_actor e),
           lo_execution_mode = oe_execution_mode e, lo_execution_state = oe_execution_state e,
           lo_external_executed = oe_external_executed e, lo_tracking_recorded = oe_tracking_recorded e,
           lo_simulated = oe_simulated e, lo_outcome_summary = oe_outcome_summary e,
           lo_reason_code = oe_reason_code e, lo_alert_id = rd_alert_id d, lo_incident_id = rd_incident_id d,
           lo_queue_id = oe_queue_id e, lo_playbook_id = rd_playbook_id d,
           lo_playbook_execution_id = oe_playbook_execution_id e,
           lo_playbook_step_index = oe_playbook_step_index e,
           lo_approval_request_id = oe_approval_request_id e, lo_delivery_attempt_id = oe_delivery_attempt_id e,
           lo_response_action_log_id = oe_response_action_log_id e, lo_selected_at = rd_selected_at d,
           lo_occurred_at = Some (oe_occurred_at e)\<rparr>
      | None \<Rightarrow>
          \<lparr>lo_soar_correlation_id = rd_soar_correlation_id d, lo_decision_id = rd_id d,
           lo_latest_outcome_event_id = None, lo_selected_action = rd_selected_action d,
           lo_decision_source = rd_decision_source d, lo_execution_actor = None,
           lo_execution_mode = ''observed'', lo_execution_state = ''selected'',
           lo_external_executed = False, lo_tracking_recorded = False, lo_simulated = False,
           lo_outcome_summary = rd_outcome_summary d, lo_reason_code = rd_reason_code d,
           lo_alert_id = rd_alert_id d, lo_incident_id = rd_incident_id d, lo_queue_id = rd_queue_id d,
           lo_playbook_id = rd_playbook_id d, lo_playbook_execution_id = rd_playbook_execution_id d,
           lo_playbook_step_index = rd_playbook_step_index d, lo_approval_request_id = rd_approval_request_id d,
           lo_delivery_attempt_id = None, lo_response_action_log_id = None,
           lo_selected_at = rd_selected_at d, lo_occurred_at = None\<rparr>)"

text \<open>The shapes of the decisions in a dict.\<close>

definition shapes_of :: "(row_id \<Rightarrow> response_decision option) \<Rightarrow> row_id list \<Rightarrow> outcome_db \<Rightarrow> row_id \<Rightarrow> latest_outcome option" where
  "shapes_of decisions ids s i =
     (let wanted = map rd_id (List.map_filter decisions ids)
      in map_option (\<lambda>d. build_latest_outcome_api_shape d (latest_events_by_decision wanted s (rd_id d))) (decisions i))"

definition get_latest_outcomes_for_incidents_bulk :: "row_id list \<Rightarrow> outcome_db \<Rightarrow> row_id \<Rightarrow> latest_outcome option" where
  "get_latest_outcomes_for_incidents_bulk ids s = shapes_of (latest_decisions_for_incidents ids s) ids s"

text \<open>Rows of other tables that may be linked to a decision: by its id, by its correlation id when the
  row has no decision id, and for approvals and deliveries by what the decision names.\<close>

record outcome_link =
  ln_id :: row_id
  ln_decision_id :: "row_id option"
  ln_soar_correlation_id :: "string option"
  ln_approval_request_id :: "row_id option"
  ln_playbook_execution_id :: "row_id option"

definition linked :: "outcome_link \<Rightarrow> response_decision \<Rightarrow> bool" where
  "linked l d \<longleftrightarrow>
     ln_decision_id l = Some (rd_id d) \<or>
     (ln_decision_id l = None \<and> ln_soar_correlation_id l = Some (rd_soar_correlation_id d)) \<or>
     (ln_approval_request_id l \<noteq> None \<and> rd_approval_request_id d = ln_approval_request_id l) \<or>
     (ln_playbook_execution_id l \<noteq> None \<and> rd_playbook_execution_id d = ln_playbook_execution_id l)"

definition link_priority :: "outcome_link \<Rightarrow> response_decision \<Rightarrow> int" where
  "link_priority l d =
     (if ln_decision_id l = Some (rd_id d) then 0
      else if ln_soar_correlation_id l = Some (rd_soar_correlation_id d) then 1 else 2)"

definition linked_decisions :: "outcome_link list \<Rightarrow> row_id list \<Rightarrow> outcome_db \<Rightarrow> row_id \<Rightarrow> response_decision option" where
  "linked_decisions links ids s i =
     map_option snd (rows_dict (\<lambda>(l, d). Some (ln_id l)) (distinct_on (\<lambda>(l, d). ln_id l)
       (order_asc (\<lambda>(l, d). (ln_id l, link_priority l d, - rd_created_at d, - rd_id d))
         [(l, d). l \<leftarrow> links, ln_id l \<in> set ids, d \<leftarrow> soar_response_decisions s, linked l d])) i)"

definition plain_link :: "row_id \<Rightarrow> row_id option \<Rightarrow> string option \<Rightarrow> outcome_link" where
  "plain_link i d c =
     \<lparr>ln_id = i, ln_decision_id = d, ln_soar_correlation_id = c, ln_approval_request_id = None,
      ln_playbook_execution_id = None\<rparr>"

definition get_latest_outcomes_for_queues_bulk ::
  "queue_row list \<Rightarrow> row_id list \<Rightarrow> outcome_db \<Rightarrow> row_id \<Rightarrow> latest_outcome option" where
  "get_latest_outcomes_for_queues_bulk rows ids s =
     shapes_of (linked_decisions (map (\<lambda>q. plain_link (q_id q) (q_decision_id q) (q_soar_correlation_id q)) rows) ids s)
       ids s"

definition get_latest_outcomes_for_playbook_executions_bulk ::
  "execution list \<Rightarrow> row_id list \<Rightarrow> outcome_db \<Rightarrow> row_id \<Rightarrow> latest_outcome option" where
  "get_latest_outcomes_for_playbook_executions_bulk rows ids s =
     shapes_of (linked_decisions (map (\<lambda>x. plain_link (ex_id x) (ex_decision_id x) (ex_soar_correlation_id x)) rows) ids s)
       ids s"

text \<open>The linkage columns of approvals and deliveries are arguments: \<open>(id, decision, correlation)\<close>, and for
  a delivery its approval and execution.\<close>

definition get_latest_outcomes_for_approvals_bulk ::
  "(row_id \<times> row_id option \<times> string option) list \<Rightarrow> row_id list \<Rightarrow> outcome_db \<Rightarrow> row_id \<Rightarrow> latest_outcome option" where
  "get_latest_outcomes_for_approvals_bulk rows ids s =
     shapes_of (linked_decisions (map (\<lambda>(i, d, c). (plain_link i d c)\<lparr>ln_approval_request_id := Some i\<rparr>) rows) ids s)
       ids s"

definition get_latest_outcomes_for_notification_deliveries_bulk ::
  "outcome_link list \<Rightarrow> row_id list \<Rightarrow> outcome_db \<Rightarrow> row_id \<Rightarrow> latest_outcome option" where
  "get_latest_outcomes_for_notification_deliveries_bulk links ids s = shapes_of (linked_decisions links ids s) ids s"

definition get_latest_outcomes_for_blocked_ips_bulk ::
  "(row_id \<times> row_id option) list \<Rightarrow> row_id list \<Rightarrow> outcome_db \<Rightarrow> row_id \<Rightarrow> latest_outcome option" where
  "get_latest_outcomes_for_blocked_ips_bulk blocks ids s =
     (let rows = [(b, a). (b, Some a) \<leftarrow> blocks, b \<in> set ids];
          by_alert = get_latest_decisions_for_alerts_bulk (map snd rows) s;
          events = latest_events_by_decision (map rd_id (List.map_filter by_alert (map snd rows))) s
      in (\<lambda>b. case rows_dict (\<lambda>(b, a). Some b) rows b of
                None \<Rightarrow> None
              | Some (_, a) \<Rightarrow> map_option (\<lambda>d. build_latest_outcome_api_shape d (events (rd_id d))) (by_alert a)))"

definition serialize_latest_outcome ::
  "row_id option \<Rightarrow> string option \<Rightarrow> row_id option \<Rightarrow> outcome_db \<Rightarrow> latest_outcome option result" where
  "serialize_latest_outcome decision_id correlation alert_id s =
     (let shape = map_option (\<lambda>d. build_latest_outcome_api_shape d (get_latest_outcome_for_decision (rd_id d) s))
      in case decision_id of
           Some i \<Rightarrow> Inr (shape (fetch_decision_by_id i s))
         | None \<Rightarrow>
             if coalesce correlation [] \<noteq> []
             then (case validate_soar_correlation_id (the correlation) of
                     Inl e \<Rightarrow> Inl e
                   | Inr c \<Rightarrow> Inr (shape (fetch_decision_by_correlation_id c s)))
             else (case alert_id of
                     None \<Rightarrow> outcome_error ''decision_id, soar_correlation_id, or alert_id is required''
                   | Some i \<Rightarrow> Inr (shape (fetchone (order_desc (\<lambda>d. (rd_created_at d, rd_id d))
                       (filter (\<lambda>d. rd_alert_id d = Some i) (soar_response_decisions s)))))))"

definition serialize_outcome_timeline :: "row_id \<Rightarrow> int option \<Rightarrow> outcome_db \<Rightarrow> outcome_event list" where
  "serialize_outcome_timeline decision_id cap s =
     (if fetch_decision_by_id decision_id s = None then []
      else let rows = oldest_first (filter (\<lambda>e. oe_decision_id e = decision_id) (soar_response_outcome_events s))
           in case cap of None \<Rightarrow> rows | Some n \<Rightarrow> if 0 < n then limit n rows else rows)"

text \<open>Each entry of an incident's timeline repeats the columns of its event; the order is what matters.\<close>

definition serialize_incident_outcome_timeline_entries :: "row_id \<Rightarrow> outcome_db \<Rightarrow> outcome_event list" where
  "serialize_incident_outcome_timeline_entries i s =
     oldest_first (filter (\<lambda>e. oe_incident_id e = Some i) (soar_response_outcome_events s))"

definition get_recent_outcomes_for_source_ip :: "string \<Rightarrow> int \<Rightarrow> outcome_db \<Rightarrow> latest_outcome list" where
  "get_recent_outcomes_for_source_ip ip cap s =
     limit cap [build_latest_outcome_api_shape d (Some e).
       e \<leftarrow> latest_first (filter (\<lambda>e. oe_source_ip e = Some ip) (soar_response_outcome_events s)),
       d \<leftarrow> soar_response_decisions s, rd_id d = oe_decision_id e]"

text \<open>Counts by group and value; the modes and states that do not occur count zero.\<close>

datatype outcome_group = GMode string | GState string | GExternal bool | GTracking bool | GSimulated bool

definition get_outcome_count_groups :: "string option \<Rightarrow> outcome_db \<Rightarrow> outcome_group \<Rightarrow> nat" where
  "get_outcome_count_groups ip s g =
     (let rows = (case ip of None \<Rightarrow> soar_response_outcome_events s
                  | Some a \<Rightarrow> filter (\<lambda>e. oe_source_ip e = Some a) (soar_response_outcome_events s))
      in length (filter (\<lambda>e. case g of
             GMode m \<Rightarrow> oe_execution_mode e = m | GState x \<Rightarrow> oe_execution_state e = x
           | GExternal b \<Rightarrow> oe_external_executed e = b | GTracking b \<Rightarrow> oe_tracking_recorded e = b
           | GSimulated b \<Rightarrow> oe_simulated e = b) rows))"

record archive_record =
  av_decision_id :: row_id
  av_soar_correlation_id :: string
  av_selected_action :: string
  av_decision_source :: string
  av_execution_mode :: string
  av_execution_state :: string
  av_external_executed :: bool
  av_tracking_recorded :: bool
  av_simulated :: bool
  av_outcome_summary :: string
  av_alert_id :: "row_id option"
  av_incident_id :: "row_id option"
  av_queue_id :: "row_id option"
  av_playbook_execution_id :: "row_id option"
  av_approval_request_id :: "row_id option"

text \<open>\<open>a or b\<close> of ids: zero is no id.\<close>

definition or_id :: "row_id option \<Rightarrow> row_id option \<Rightarrow> row_id option" where
  "or_id a b = (if a = None \<or> a = Some 0 then b else a)"

definition build_archive_record :: "response_decision \<Rightarrow> outcome_event option \<Rightarrow> archive_record" where
  "build_archive_record d latest =
     (case latest of
        Some e \<Rightarrow>
          \<lparr>av_decision_id = rd_id d, av_soar_correlation_id = rd_soar_correlation_id d,
           av_selected_action = rd_selected_action d, av_decision_source = rd_decision_source d,
           av_execution_mode = oe_execution_mode e, av_execution_state = oe_execution_state e,
           av_external_executed = oe_external_executed e, av_tracking_recorded = oe_tracking_recorded e,
           av_simulated = oe_simulated e, av_outcome_summary = oe_outcome_summary e,
           av_alert_id = or_id (oe_alert_id e) (rd_alert_id d),
           av_incident_id = or_id (oe_incident_id e) (rd_incident_id d),
           av_queue_id = or_id (oe_queue_id e) (rd_queue_id d),
           av_playbook_execution_id = or_id (oe_playbook_execution_id e) (rd_playbook_execution_id d),
           av_approval_request_id = or_id (oe_approval_request_id e) (rd_approval_request_id d)\<rparr>
      | None \<Rightarrow>
          \<lparr>av_decision_id = rd_id d, av_soar_correlation_id = rd_soar_correlation_id d,
           av_selected_action = rd_selected_action d, av_decision_source = rd_decision_source d,
           av_execution_mode = ''observed'', av_execution_state = ''selected'', av_external_executed = False,
           av_tracking_recorded = False, av_simulated = False, av_outcome_summary = rd_outcome_summary d,
           av_alert_id = rd_alert_id d, av_incident_id = rd_incident_id d, av_queue_id = rd_queue_id d,
           av_playbook_execution_id = rd_playbook_execution_id d,
           av_approval_request_id = rd_approval_request_id d\<rparr>)"

record trace_entry =
  te_what_happened :: string
  te_selected_response :: string
  te_playbook_ran :: bool
  te_anything_actually_executed :: bool
  te_outcome_label :: string
  te_archive_record :: archive_record
  te_latest_outcome :: latest_outcome
  te_step_outcomes :: "outcome_event list"

definition build_traceability_entry :: "bool \<Rightarrow> outcome_db \<Rightarrow> response_decision \<Rightarrow> trace_entry result" where
  "build_traceability_entry timeline s d =
     (let latest = get_latest_outcome_for_decision (rd_id d) s; av = build_archive_record d latest
      in case derive_outcome_label (av_execution_mode av) (av_execution_state av) (av_external_executed av)
                (av_tracking_recorded av) (av_simulated av) of
           Inl e \<Rightarrow> Inl e
         | Inr label \<Rightarrow> Inr
            \<lparr>te_what_happened = av_outcome_summary av, te_selected_response = av_selected_action av,
             te_playbook_ran = (av_playbook_execution_id av \<noteq> None),
             te_anything_actually_executed = av_external_executed av, te_outcome_label = label,
             te_archive_record = av, te_latest_outcome = build_latest_outcome_api_shape d latest,
             te_step_outcomes = (if timeline then serialize_outcome_timeline (rd_id d) None s else [])\<rparr>)"

fun all_results :: "'a result list \<Rightarrow> 'a list result" where
  "all_results [] = Inr []"
| "all_results (Inl e # _) = Inl e"
| "all_results (Inr a # rs) = (case all_results rs of Inl e \<Rightarrow> Inl e | Inr as \<Rightarrow> Inr (a # as))"

definition fetch_decisions_for_traceability ::
  "row_id option \<Rightarrow> row_id option \<Rightarrow> string option \<Rightarrow> outcome_db \<Rightarrow> response_decision list result" where
  "fetch_decisions_for_traceability alert_id incident_id correlation s =
     (case (case correlation of None \<Rightarrow> Inr None
            | Some c0 \<Rightarrow> (case validate_soar_correlation_id c0 of Inl e \<Rightarrow> Inl e | Inr c \<Rightarrow> Inr (Some c))) of
        Inl e \<Rightarrow> Inl e
      | Inr c \<Rightarrow>
          if alert_id = None \<and> incident_id = None \<and> c = None
          then outcome_error ''alert_id, incident_id, or soar_correlation_id is required''
          else Inr (order_desc (\<lambda>d. (rd_created_at d, rd_id d))
            (filter (\<lambda>d. (alert_id \<noteq> None \<and> rd_alert_id d = alert_id) \<or>
                         (incident_id \<noteq> None \<and> rd_incident_id d = incident_id) \<or>
                         c = Some (rd_soar_correlation_id d)) (soar_response_decisions s))))"

definition get_response_outcome_traceability_report ::
  "row_id option \<Rightarrow> row_id option \<Rightarrow> string option \<Rightarrow> bool \<Rightarrow> outcome_db \<Rightarrow> trace_entry list result" where
  "get_response_outcome_traceability_report alert_id incident_id correlation timeline s =
     (case fetch_decisions_for_traceability alert_id incident_id correlation s of
        Inl e \<Rightarrow> Inl e
      | Inr ds \<Rightarrow> all_results (map (build_traceability_entry timeline s) ds))"

definition get_decision_with_latest_outcome ::
  "row_id option \<Rightarrow> string option \<Rightarrow> outcome_db \<Rightarrow> (response_decision \<times> outcome_event option \<times> string) option result" where
  "get_decision_with_latest_outcome decision_id correlation s =
     (case (case decision_id of
              Some i \<Rightarrow> Inr (fetch_decision_by_id i s)
            | None \<Rightarrow>
                if coalesce correlation [] = [] then outcome_error ''decision_id or soar_correlation_id is required''
                else case validate_soar_correlation_id (the correlation) of
                       Inl e \<Rightarrow> Inl e
                     | Inr c \<Rightarrow> Inr (fetch_decision_by_correlation_id c s)) of
        Inl e \<Rightarrow> Inl e
      | Inr None \<Rightarrow> Inr None
      | Inr (Some d) \<Rightarrow>
          let latest = get_latest_outcome_for_decision (rd_id d) s
          in (case (case latest of
                      None \<Rightarrow> derive_outcome_label ''observed'' ''selected'' False False False
                    | Some e \<Rightarrow> derive_outcome_label (oe_execution_mode e) (oe_execution_state e)
                                  (oe_external_executed e) (oe_tracking_recorded e) (oe_simulated e)) of
                Inl e \<Rightarrow> Inl e
              | Inr label \<Rightarrow> Inr (Some (d, latest, label))))"

subsection \<open>Properties of the tables\<close>

inductive outcome_op :: "outcome_db \<Rightarrow> outcome_db \<Rightarrow> bool" where
  "outcome_op s (snd (create_response_decision uuid clk a s))"
| "outcome_op s (snd (append_outcome_event clk b s))"

lemma outcome_op_safe: "outcome_op s s' \<Longrightarrow> outcome_inv s \<Longrightarrow> outcome_inv s' \<and> outcome_grows s s'"
  by (auto elim!: outcome_op.cases simp: create_decision_safe append_outcome_safe)

interpretation outcome_ops: store_ops outcome_op outcome_inv outcome_grows
  by unfold_locales (auto dest: outcome_op_safe intro: outcome_grows_trans)

text \<open>C17: Whatever was written, every stored outcome event is well typed and truthful: it belongs to a
  stored decision and carries its correlation id; its mode, state, actor and reason are words of the
  vocabulary; it counts as executed outside only in mode \<open>real\<close> after a success, as tracked only in
  mode \<open>tracking_only\<close> after a success, as simulated only in mode \<open>simulation\<close>; and its metadata
  keep nothing under a denied key, at any depth, and no value with a URL in it. Nothing is claimed of its
  summary, external reference and provider, which the code stores as given, nor of the metadata's own keys.\<close>

theorem outcome_events_well_typed:
  assumes "outcome_op\<^sup>*\<^sup>* outcome_init s" "e \<in> set (soar_response_outcome_events s)"
  shows "(\<exists>d. fetch_decision_by_id (oe_decision_id e) s = Some d \<and>
        rd_soar_correlation_id d = oe_soar_correlation_id e) \<and>
    oe_execution_mode e \<in> set EXECUTION_MODES \<and> oe_execution_state e \<in> set EXECUTION_STATES \<and>
    oe_execution_actor e \<in> set EXECUTION_ACTORS \<and> reason_ok (oe_reason_code e) \<and>
    (oe_external_executed e \<longrightarrow> oe_execution_mode e = ''real'' \<and> oe_execution_state e = ''succeeded'') \<and>
    (oe_tracking_recorded e \<longrightarrow> oe_execution_mode e = ''tracking_only'' \<and> oe_execution_state e = ''succeeded'') \<and>
    (oe_simulated e \<longrightarrow> oe_execution_mode e = ''simulation'') \<and> clean_items (oe_metadata e)"
proof -
  have inv: "outcome_inv s" using assms(1) outcome_inv_init by (rule outcome_ops.ops_inv)
  then obtain d where d: "d \<in> set (soar_response_decisions s)" "rd_id d = oe_decision_id e"
      "rd_soar_correlation_id d = oe_soar_correlation_id e" and ok: "event_ok e"
    using assms(2) by (auto simp: outcome_inv_def)
  have "fetch_decision_by_id (oe_decision_id e) s = Some d"
    using select_id_mem [of rd_id "soar_response_decisions s" d] inv d
    by (simp add: fetch_decision_by_id_def outcome_inv_def wf_ids_def)
  with d(3) ok show ?thesis by (simp add: event_ok_def)
qed

text \<open>Look-ups by key.\<close>

lemma event_by_key:
  assumes "outcome_inv s" "e \<in> set (soar_response_outcome_events s)" "oe_idempotency_key e = Some k"
  shows "get_outcome_event_by_idempotency_key k s = Some e"
  unfolding get_outcome_event_by_idempotency_key_def
  by (rule log_keys_lookup) (use assms in \<open>simp_all add: outcome_inv_def\<close>)

text \<open>The key an append is given.\<close>

definition outcome_given :: "clock \<times> outcome_args \<Rightarrow> string" where
  "outcome_given ca = strip (coalesce (oa_idempotency_key (snd ca)) [])"

lemma append_outcome_again:
  assumes "outcome_inv s" "e \<in> set (soar_response_outcome_events s)"
    and "oe_idempotency_key e = Some (outcome_given (clk, a))" "outcome_given (clk, a) \<noteq> []"
    and "append_outcome_event clk a s = (Inr x, s')"
  shows "x = e \<and> s' = s"
proof -
  have given: "coalesce (oa_idempotency_key a) [] \<noteq> []" using assms(4) by (auto simp: outcome_given_def)
  note key = event_by_key [OF assms(1-3)]
  show ?thesis
  proof (cases rule: append_outcome_cases [of clk a s])
    case (failed er t)
    then show ?thesis using assms(5) by simp
  next
    case (there y)
    then show ?thesis using assms(5) key by (simp add: outcome_given_def)
  next
    case (added d et key' checked y)
    then show ?thesis using given assms(2,3) by (auto simp: outcome_given_def)
  qed
qed

interpretation outcome_log: keyed_log outcome_op outcome_inv outcome_grows soar_response_outcome_events
  oe_idempotency_key "\<lambda>(clk, a). append_outcome_event clk a" outcome_given
proof unfold_locales
  fix s s' assume "outcome_grows s s'"
  then show "prefix (soar_response_outcome_events s) (soar_response_outcome_events s')"
    by (simp add: outcome_grows_def)
qed (use append_outcome_again in fastforce)

text \<open>An event that is stored under an idempotency key stays as it is, whatever is written afterwards, and
  every later append with the same key returns it and writes nothing.\<close>

theorem outcome_stored_once_per_key:
  assumes "outcome_inv s" "outcome_op\<^sup>*\<^sup>* s s'"
    and "e \<in> set (soar_response_outcome_events s)" "oe_idempotency_key e = Some k" "k \<noteq> []"
    and "append_outcome_event clk a s' = (Inr x, s'')" "strip (coalesce (oa_idempotency_key a) []) = k"
  shows "x = e \<and> s'' = s' \<and> e \<in> set (soar_response_outcome_events s')"
  using outcome_log.stored_once [OF assms(1-3), of "(clk, a)"] assms(4-7) by (simp add: outcome_given_def)

lemma fetchone_distinct_on:
  "fetchone (filter (\<lambda>r. k r = a) (distinct_on k rs)) = fetchone (filter (\<lambda>r. k r = a) rs)"
proof (induction k rs rule: distinct_on.induct)
  case (2 k r rs)
  then show ?case by (cases "k r = a") (simp_all add: fetchone_def conj_commute cong: conj_cong)
qed (simp add: fetchone_def)

lemma set_distinct_on: "set (distinct_on k rs) \<subseteq> set rs"
  by (induction k rs rule: distinct_on.induct) auto

lemma distinct_on_keys: "distinct (map k (distinct_on k rs))"
proof (induction k rs rule: distinct_on.induct)
  case (2 k r rs)
  then show ?case using set_distinct_on [of k "filter (\<lambda>x. k x \<noteq> k r) rs"] by auto
qed simp

lemma rows_dict_distinct:
  assumes "distinct (map k rs)" "\<forall>r \<in> set rs. k r \<noteq> None"
  shows "rows_dict k rs i = fetchone (filter (\<lambda>r. k r = Some i) rs)"
  using assms
proof (induction rs rule: rev_induct)
  case Nil
  then show ?case by (simp add: rows_dict_def fetchone_def)
next
  case (snoc x rs)
  have IH: "rows_dict k rs i = fetchone (filter (\<lambda>r. k r = Some i) rs)" using snoc by simp
  obtain j where j: "k x = Some j" using snoc.prems(2) by auto
  have "filter (\<lambda>r. k r = Some i) rs = []" if "j = i"
    using snoc.prems(1) j that by (auto simp: filter_empty_conv) (metis image_eqI)
  moreover have "rows_dict k (rs @ [x]) = (rows_dict k rs)(j \<mapsto> x)" by (simp add: rows_dict_def j)
  ultimately show ?case using IH j by (auto simp: fetchone_def)
qed

lemma rows_dict_on:
  assumes "\<forall>r \<in> set rs. k r \<noteq> None"
  shows "rows_dict k (distinct_on k rs) i = fetchone (filter (\<lambda>r. k r = Some i) rs)"
  using rows_dict_distinct [OF distinct_on_keys, of k rs i] assms set_distinct_on [of k rs]
  by (auto simp: fetchone_distinct_on)

lemma fetchone_asc_desc:
  assumes "\<And>x y. x \<in> set t \<Longrightarrow> y \<in> set t \<Longrightarrow> f x \<le> f y \<Longrightarrow> g y \<le> g x"
    and "\<And>x y. x \<in> set t \<Longrightarrow> y \<in> set t \<Longrightarrow> g x = g y \<Longrightarrow> x = y"
  shows "fetchone (order_asc f t) = fetchone (order_desc g t)"
proof (cases "t = []")
  case True
  then show ?thesis by (simp add: order_asc_def order_desc_def)
next
  case False
  then obtain x y where x: "fetchone (order_asc f t) = Some x" and y: "fetchone (order_desc g t) = Some y"
    using fetchone_order_None [of f t] fetchone_order_None(2) [of g t] by blast
  note x' = fetchone_order_asc [OF x] and y' = fetchone_order_desc [OF y]
  then have "g y \<le> g x" "g x \<le> g y" using assms(1) [of x y] by auto
  then have "x = y" using assms(2) x'(1) y'(1) by (meson order.antisym)
  with x y show ?thesis by simp
qed

text \<open>C18: Reading the latest outcomes of many alerts at once gives for each of them what reading them one by
  one gives.\<close>

theorem bulk_latest_equals_single:
  assumes "outcome_inv s"
  shows "Inr (get_latest_outcomes_for_alerts_bulk ids s i) =
    (if i \<in> set ids then get_latest_outcome_for_alert i s else Inr None)"
proof -
  let ?f = "\<lambda>e :: outcome_event. (the (oe_alert_id e), - oe_occurred_at e, - oe_created_at e, - oe_id e)"
  let ?g = "\<lambda>e :: outcome_event. (oe_occurred_at e, oe_created_at e, oe_id e)"
  let ?t = "filter (\<lambda>e. oe_alert_id e = Some i) (soar_response_outcome_events s)"
  let ?w = "filter (\<lambda>e. \<exists>i \<in> set ids. oe_alert_id e = Some i) (soar_response_outcome_events s)"
  have "get_latest_outcomes_for_alerts_bulk ids s i =
      fetchone (filter (\<lambda>e. oe_alert_id e = Some i) (order_asc ?f ?w))"
    unfolding get_latest_outcomes_for_alerts_bulk_def by (rule rows_dict_on) auto
  also have "\<dots> = fetchone (order_asc ?f (filter (\<lambda>e. oe_alert_id e = Some i) ?w))"
    by (simp only: order_asc_def filter_sort)
  also have "filter (\<lambda>e. oe_alert_id e = Some i) ?w = (if i \<in> set ids then ?t else [])"
    by (auto simp: filter_empty_conv intro!: filter_cong)
  finally have bulk: "get_latest_outcomes_for_alerts_bulk ids s i =
      fetchone (order_asc ?f (if i \<in> set ids then ?t else []))" .
  have dist: "distinct (map oe_id (soar_response_outcome_events s))"
    using assms by (simp add: outcome_inv_def wf_ids_def)
  have "fetchone (order_asc ?f ?t) = fetchone (order_desc ?g ?t)"
  proof (rule fetchone_asc_desc)
    show "x = y" if "x \<in> set ?t" "y \<in> set ?t" "?g x = ?g y" for x y
      using that distinct_key_unique [OF dist] by auto
  qed (auto simp: less_eq_prod_def less_prod_def)
  moreover have "get_latest_outcome_for_alert i s = Inr (fetchone (order_desc ?g ?t))"
  proof -
    have "(PInt i \<noteq> PNone \<and> event_column ''alert_id'' e = Inr (PInt i)) \<longleftrightarrow> oe_alert_id e = Some i" for e
      by (cases "oe_alert_id e") (simp_all add: event_column_def opt_val_def)
    then show ?thesis
      by (simp add: get_latest_outcome_for_alert_def get_latest_outcome_by_column_def OUTCOME_COLUMNS_def latest_first_def)
  qed
  moreover have "fetchone (order_asc ?f []) = None" by (simp add: order_asc_def fetchone_def)
  ultimately show ?thesis using bulk by simp
qed

text \<open>The label.\<close>

lemma if_neqI: "a \<noteq> z \<Longrightarrow> b \<noteq> z \<Longrightarrow> (if c then a else b) \<noteq> z"
  by simp

lemma words_stripped:
  "\<forall>x \<in> set EXECUTION_STATES. strip x = x" "\<forall>x \<in> set EXECUTION_MODES. strip x = x"
  by code_simp+

lemma label_total:
  assumes "mode \<in> set EXECUTION_MODES" "state \<in> set EXECUTION_STATES"
    and "ex \<Longrightarrow> mode = ''real'' \<and> state = ''succeeded''" "tr \<Longrightarrow> mode = ''tracking_only''" "si \<Longrightarrow> mode = ''simulation''"
  obtains label where "derive_outcome_label mode state ex tr si = Inr label" "label = ''Real executed'' \<longleftrightarrow> ex"
proof -
  have v: "validate_execution_state state = Inr state" "validate_execution_mode mode = Inr mode"
    using assms(1,2) words_stripped by (simp_all add: validate_execution_state_def validate_execution_mode_def validate_in_def)
  obtain label where l: "derive_outcome_label mode state ex tr si = Inr label"
    by (simp add: derive_outcome_label_def v)
  moreover have "label = ''Real executed''" if ex
  proof -
    have "mode = ''real''" "state = ''succeeded''" "\<not> tr" "\<not> si" using assms(3-5) that by auto
    then show ?thesis using l v that by (simp add: derive_outcome_label_def)
  qed
  moreover have "Inr label \<noteq> (Inr ''Real executed'' :: string result)" if "\<not> ex"
    using that
    by (simp only: l [symmetric] derive_outcome_label_def v sum.case if_False sum.inject simp_thms not_False_eq_True)
      (intro if_neqI; simp)
  ultimately show thesis using that by blast
qed

definition event_label_args :: "outcome_event option \<Rightarrow> string \<times> string \<times> bool \<times> bool \<times> bool" where
  "event_label_args latest =
     (case latest of None \<Rightarrow> (''observed'', ''selected'', False, False, False)
      | Some e \<Rightarrow> (oe_execution_mode e, oe_execution_state e, oe_external_executed e, oe_tracking_recorded e, oe_simulated e))"

lemma traceability_entry_truthful:
  assumes "outcome_inv s"
  obtains t where "build_traceability_entry timeline s d = Inr t"
    "te_outcome_label t = ''Real executed'' \<longleftrightarrow> te_anything_actually_executed t"
    "te_anything_actually_executed t \<longleftrightarrow>
       (\<exists>e. get_latest_outcome_for_decision (rd_id d) s = Some e \<and> oe_external_executed e)"
    "av_decision_id (te_archive_record t) = rd_id d"
proof -
  let ?l = "get_latest_outcome_for_decision (rd_id d) s"
  obtain mode state ex tr si where a: "event_label_args ?l = (mode, state, ex, tr, si)" by (metis prod_cases5)
  have ok: "event_ok e" if "?l = Some e" for e
    using that assms by (auto simp: get_latest_outcome_for_decision_def latest_first_def outcome_inv_def dest!: fetchone_order_desc(1))
  have "mode \<in> set EXECUTION_MODES" "state \<in> set EXECUTION_STATES" "ex \<Longrightarrow> mode = ''real'' \<and> state = ''succeeded''"
    "tr \<Longrightarrow> mode = ''tracking_only''" "si \<Longrightarrow> mode = ''simulation''"
    using a ok by (auto simp: event_label_args_def event_ok_def EXECUTION_MODES_def EXECUTION_STATES_def split: option.splits)
  from label_total [OF this] obtain label where
    l: "derive_outcome_label mode state ex tr si = Inr label" "label = ''Real executed'' \<longleftrightarrow> ex" by blast
  have "\<exists>t. build_traceability_entry timeline s d = Inr t \<and> te_outcome_label t = label \<and> te_anything_actually_executed t = ex \<and>
      av_decision_id (te_archive_record t) = rd_id d"
    using a l(1) by (cases ?l) (auto simp: build_traceability_entry_def build_archive_record_def event_label_args_def Let_def)
  moreover have "ex \<longleftrightarrow> (\<exists>e. ?l = Some e \<and> oe_external_executed e)"
    using a by (auto simp: event_label_args_def split: option.splits)
  ultimately show thesis using that l(2) by blast
qed

lemma all_results_map:
  assumes "\<And>x. x \<in> set xs \<Longrightarrow> \<exists>y. f x = Inr y \<and> P x y"
  shows "\<exists>ys. all_results (map f xs) = Inr ys \<and> list_all2 P xs ys"
  using assms
proof (induction xs)
  case (Cons x xs)
  then obtain ys where ys: "all_results (map f xs) = Inr ys" "list_all2 P xs ys" by auto
  obtain y where y: "f x = Inr y" "P x y" using Cons.prems [of x] by auto
  with ys show ?case by (intro exI [of _ "y # ys"]) simp
qed simp

text \<open>The report on an alert never raises, has an entry for each of its decisions, the newest first, and
  says that something was really executed, by its flag and by its label, exactly when the latest event of the
  decision was stored as executed outside.\<close>

theorem traceability_report_truthful:
  assumes "outcome_op\<^sup>*\<^sup>* outcome_init s"
  shows "\<exists>entries. get_response_outcome_traceability_report (Some i) incident None timeline s = Inr entries \<and>
    list_all2 (\<lambda>d t. av_decision_id (te_archive_record t) = rd_id d \<and>
        (te_outcome_label t = ''Real executed'' \<longleftrightarrow> te_anything_actually_executed t) \<and>
        (te_anything_actually_executed t \<longleftrightarrow>
           (\<exists>e. get_latest_outcome_for_decision (rd_id d) s = Some e \<and> oe_external_executed e)))
      (order_desc (\<lambda>d. (rd_created_at d, rd_id d))
         (filter (\<lambda>d. rd_alert_id d = Some i \<or> (incident \<noteq> None \<and> rd_incident_id d = incident))
            (soar_response_decisions s))) entries"
proof -
  have inv: "outcome_inv s" using assms outcome_inv_init by (rule outcome_ops.ops_inv)
  show ?thesis
    by (simp add: get_response_outcome_traceability_report_def fetch_decisions_for_traceability_def)
      (rule all_results_map, rule traceability_entry_truthful [OF inv], blast)
qed

end
