(* ===== verification/Indicator_Registry.thy ===== *)
theory Indicator_Registry
  imports Keyed_Log Py_Values Ip_Address "HOL-Library.Product_Lexorder"
begin

text \<open>
  \<open>core/indicator_response_registry.py\<close> and the vocabulary of \<open>core/response_command_contracts.py\<close>:
  one record per indicator (\<open>indicator_registry\<close>) with its current disposition, and the events
  that led there (\<open>indicator_response_events\<close>, append-only). Shown here: records are unique and
  spelling an address differently finds the same one, dispositions stay in the vocabulary, events are
  never changed and one is stored per idempotency key, a repeated key changes nothing.

  Times stay times. The collation of a text column is a parameter of the listing.
\<close>

subsection \<open>State\<close>

record registry_record =
  ir_id :: row_id
  ir_indicator_type :: string
  ir_indicator_value :: string
  ir_current_disposition :: string
  ir_active_blocked_ip_id :: "row_id option"
  ir_active_incident_id :: "row_id option"
  ir_monitor_expires_at :: "time option"
  ir_created_at :: time
  ir_updated_at :: time

record registry_event =
  ie_id :: row_id
  ie_registry_id :: row_id
  ie_event_type :: string
  ie_requested_action :: string
  ie_outcome :: string
  ie_disposition_after :: string
  ie_enforcement :: string
  ie_origin_surface :: string
  ie_actor_user_id :: "row_id option"
  ie_reason :: "string option"
  ie_alert_id :: "row_id option"
  ie_incident_id :: "row_id option"
  ie_playbook_execution_id :: "row_id option"
  ie_playbook_step_index :: "int option"
  ie_queue_id :: "row_id option"
  ie_approval_request_id :: "row_id option"
  ie_blocked_ip_id :: "row_id option"
  ie_decision_id :: "row_id option"
  ie_soar_correlation_id :: "string option"
  ie_response_action_log_id :: "row_id option"
  ie_idempotency_key :: "string option"
  ie_provenance :: string
  ie_expires_at :: "time option"
  ie_safe_metadata :: items
  ie_created_at :: time

record registry_db =
  indicator_registry :: "registry_record list"
  registry_seq :: row_id
  indicator_response_events :: "registry_event list"
  registry_event_seq :: row_id

subsection \<open>The vocabulary\<close>

abbreviation "DISPOSITION_OBSERVED \<equiv> ''observed''"
abbreviation "DISPOSITION_MONITORED \<equiv> ''monitored''"
abbreviation "DISPOSITION_ESCALATED \<equiv> ''escalated''"
abbreviation "DISPOSITION_PENDING \<equiv> ''pending''"
abbreviation "DISPOSITION_BLOCKLIST_TRACKED \<equiv> ''blocklist_tracked''"
abbreviation "DISPOSITION_REJECTED \<equiv> ''rejected''"
abbreviation "DISPOSITION_FAILED \<equiv> ''failed''"
abbreviation "DISPOSITION_EXPIRED \<equiv> ''expired''"
abbreviation "DISPOSITION_REMOVED \<equiv> ''removed''"

abbreviation "INDICATOR_TYPE_IP \<equiv> ''ip''"

definition VALID_DISPOSITIONS :: "string list" where
  "VALID_DISPOSITIONS =
     [DISPOSITION_OBSERVED, DISPOSITION_MONITORED, DISPOSITION_ESCALATED, DISPOSITION_PENDING,
      DISPOSITION_BLOCKLIST_TRACKED, DISPOSITION_REJECTED, DISPOSITION_FAILED, DISPOSITION_EXPIRED,
      DISPOSITION_REMOVED]"

text \<open>The values of two columns that a \<open>CHECK\<close> constraint allows.\<close>

definition ENFORCEMENTS :: "string list" where
  "ENFORCEMENTS = [''none'', ''tracking_only'', ''simulation'', ''real_external'']"

definition PROVENANCES :: "string list" where
  "PROVENANCES = [''recorded'', ''inferred'', ''unknown'']"

definition normalize_indicator_value :: "string \<Rightarrow> string \<Rightarrow> string result" where
  "normalize_indicator_value ty v =
     (let raw = strip v
      in if raw = [] then Inl (ValueError ''Indicator value is required'')
         else if ty = INDICATOR_TYPE_IP
         then (case ip_address raw of Inl e \<Rightarrow> Inl e | Inr a \<Rightarrow> Inr (str_ip a))
         else Inr (lower raw))"

definition derive_disposition_from_event :: "string \<Rightarrow> string \<Rightarrow> string option \<Rightarrow> string" where
  "derive_disposition_from_event action res previous =
     (if res \<in> {''rejected'', ''policy_blocked''} then DISPOSITION_REJECTED
      else if res \<in> {''failed'', ''error''} then DISPOSITION_FAILED
      else if res \<in> {''awaiting_approval'', ''pending''} then DISPOSITION_PENDING
      else if res \<in> {''expired''} then DISPOSITION_EXPIRED
      else if res \<in> {''removed'', ''unblocked''} then DISPOSITION_REMOVED
      else if action = ''block_ip'' \<and> res \<in> {''succeeded'', ''tracking_recorded'', ''idempotent_reuse''}
      then DISPOSITION_BLOCKLIST_TRACKED
      else if action = ''monitor'' \<and> res \<in> {''succeeded'', ''renewed''} then DISPOSITION_MONITORED
      else if action \<in> {''flag_high_priority'', ''escalate''} \<and> res \<in> {''succeeded'', ''escalated''}
      then DISPOSITION_ESCALATED
      else case previous of
             None \<Rightarrow> DISPOSITION_OBSERVED
           | Some p \<Rightarrow> if p \<in> set VALID_DISPOSITIONS then p else DISPOSITION_OBSERVED)"

subsection \<open>Records\<close>

text \<open>\<open>length(trim(x)) > 0\<close> of the \<open>CHECK\<close> constraints fails on a text of blanks.\<close>

definition sql_blank :: "string \<Rightarrow> bool" where
  "sql_blank x \<longleftrightarrow> list_all (\<lambda>c. c = CHR '' '') x"

abbreviation too_long :: py_error where
  "too_long \<equiv> DataError ''value too long for type character varying''"

definition new_record :: "clock \<Rightarrow> row_id \<Rightarrow> string \<Rightarrow> string \<Rightarrow> registry_record" where
  "new_record clk i ty v =
     \<lparr>ir_id = i, ir_indicator_type = ty, ir_indicator_value = v,
      ir_current_disposition = DISPOSITION_OBSERVED, ir_active_blocked_ip_id = None,
      ir_active_incident_id = None, ir_monitor_expires_at = None,
      ir_created_at = sql_now clk, ir_updated_at = sql_now clk\<rparr>"

definition same_indicator :: "string \<Rightarrow> string \<Rightarrow> registry_record \<Rightarrow> bool" where
  "same_indicator ty v r \<longleftrightarrow> ir_indicator_type r = ty \<and> ir_indicator_value r = v"

text \<open>\<open>INSERT .. ON CONFLICT DO UPDATE\<close> draws the next id in either case.\<close>

definition upsert_indicator_identity :: "clock \<Rightarrow> string \<Rightarrow> string \<Rightarrow> (registry_db, registry_record) py" where
  "upsert_indicator_identity clk ty v s =
     (case normalize_indicator_value ty v of
        Inl e \<Rightarrow> (Inl e, s)
      | Inr n \<Rightarrow>
          let i = registry_seq s;
              s0 = s\<lparr>registry_seq := i + 1\<rparr>;
              touch = ir_updated_at_update (\<lambda>_. sql_now clk)
          in if 32 < length ty then (Inl too_long, s0)
             else if sql_blank ty then (Inl (IntegrityError ''indicator_registry_check''), s0)
             else case fetchone (returning (same_indicator ty n) touch (indicator_registry s)) of
                    Some r \<Rightarrow>
                      (Inr r, s0\<lparr>indicator_registry :=
                                  update_where (same_indicator ty n) touch (indicator_registry s)\<rparr>)
                  | None \<Rightarrow>
                      (Inr (new_record clk i ty n),
                       s0\<lparr>indicator_registry := indicator_registry s @ [new_record clk i ty n]\<rparr>))"

definition get_indicator_by_id :: "row_id \<Rightarrow> registry_db \<Rightarrow> registry_record option" where
  "get_indicator_by_id i s = select_id ir_id i (indicator_registry s)"

definition get_indicator_by_value :: "string \<Rightarrow> string \<Rightarrow> registry_db \<Rightarrow> registry_record option result" where
  "get_indicator_by_value ty v s =
     (case normalize_indicator_value ty v of
        Inl e \<Rightarrow> Inl e
      | Inr n \<Rightarrow> Inr (fetchone (filter (same_indicator ty n) (indicator_registry s))))"

definition apply_monitor_expiry :: "clock \<Rightarrow> time option \<Rightarrow> registry_db \<Rightarrow> nat \<times> registry_db" where
  "apply_monitor_expiry clk now s =
     (let moment = coalesce now (utc_now clk);
          due = (\<lambda>r. ir_current_disposition r = DISPOSITION_MONITORED \<and>
                     (case ir_monitor_expires_at r of None \<Rightarrow> False | Some t \<Rightarrow> t \<le> moment));
          f = (\<lambda>r. r\<lparr>ir_current_disposition := DISPOSITION_EXPIRED, ir_updated_at := sql_now clk\<rparr>)
      in (length (returning due f (indicator_registry s)),
          s\<lparr>indicator_registry := update_where due f (indicator_registry s)\<rparr>))"

subsection \<open>Events\<close>

text \<open>The keyword arguments of \<open>append_registry_event\<close>.\<close>

record event_args =
  va_registry_id :: row_id
  va_event_type :: string
  va_requested_action :: string
  va_outcome :: string
  va_origin_surface :: string
  va_disposition_after :: "string option"
  va_enforcement :: string
  va_actor_user_id :: "row_id option"
  va_reason :: "string option"
  va_alert_id :: "row_id option"
  va_incident_id :: "row_id option"
  va_playbook_execution_id :: "row_id option"
  va_playbook_step_index :: "int option"
  va_queue_id :: "row_id option"
  va_approval_request_id :: "row_id option"
  va_blocked_ip_id :: "row_id option"
  va_decision_id :: "row_id option"
  va_soar_correlation_id :: "string option"
  va_response_action_log_id :: "row_id option"
  va_idempotency_key :: "string option"
  va_provenance :: string
  va_expires_at :: "time option"
  va_safe_metadata :: "items option"
  va_update_registry :: bool

definition event_args0 :: "row_id \<Rightarrow> string \<Rightarrow> string \<Rightarrow> string \<Rightarrow> string \<Rightarrow> event_args" where
  "event_args0 registry_id event_type action res origin =
     \<lparr>va_registry_id = registry_id, va_event_type = event_type, va_requested_action = action,
      va_outcome = res, va_origin_surface = origin, va_disposition_after = None, va_enforcement = ''none'',
      va_actor_user_id = None, va_reason = None, va_alert_id = None, va_incident_id = None,
      va_playbook_execution_id = None, va_playbook_step_index = None, va_queue_id = None,
      va_approval_request_id = None, va_blocked_ip_id = None, va_decision_id = None,
      va_soar_correlation_id = None, va_response_action_log_id = None, va_idempotency_key = None,
      va_provenance = ''recorded'', va_expires_at = None, va_safe_metadata = None,
      va_update_registry = True\<rparr>"

definition new_registry_event :: "clock \<Rightarrow> event_args \<Rightarrow> row_id \<Rightarrow> string \<Rightarrow> registry_event" where
  "new_registry_event clk a i disposition =
     \<lparr>ie_id = i, ie_registry_id = va_registry_id a, ie_event_type = va_event_type a,
      ie_requested_action = va_requested_action a, ie_outcome = va_outcome a,
      ie_disposition_after = disposition, ie_enforcement = va_enforcement a,
      ie_origin_surface = va_origin_surface a, ie_actor_user_id = va_actor_user_id a,
      ie_reason = va_reason a, ie_alert_id = va_alert_id a, ie_incident_id = va_incident_id a,
      ie_playbook_execution_id = va_playbook_execution_id a,
      ie_playbook_step_index = va_playbook_step_index a, ie_queue_id = va_queue_id a,
      ie_approval_request_id = va_approval_request_id a, ie_blocked_ip_id = va_blocked_ip_id a,
      ie_decision_id = va_decision_id a, ie_soar_correlation_id = va_soar_correlation_id a,
      ie_response_action_log_id = va_response_action_log_id a,
      ie_idempotency_key = va_idempotency_key a, ie_provenance = va_provenance a,
      ie_expires_at = va_expires_at a, ie_safe_metadata = coalesce (va_safe_metadata a) [],
      ie_created_at = sql_now clk\<rparr>"

text \<open>What the columns take: their widths, and the \<open>CHECK\<close> constraints.\<close>

definition registry_event_fits :: "registry_event \<Rightarrow> bool" where
  "registry_event_fits e \<longleftrightarrow>
     length (ie_event_type e) \<le> 64 \<and> length (ie_requested_action e) \<le> 64 \<and> length (ie_outcome e) \<le> 64 \<and>
     length (ie_enforcement e) \<le> 32 \<and> length (ie_origin_surface e) \<le> 64 \<and>
     length (coalesce (ie_soar_correlation_id e) []) \<le> 128 \<and>
     length (coalesce (ie_idempotency_key e) []) \<le> 128 \<and> length (ie_provenance e) \<le> 32"

definition registry_event_checks :: "registry_event \<Rightarrow> bool" where
  "registry_event_checks e \<longleftrightarrow>
     \<not> sql_blank (ie_event_type e) \<and> \<not> sql_blank (ie_requested_action e) \<and> \<not> sql_blank (ie_outcome e) \<and>
     ie_disposition_after e \<in> set VALID_DISPOSITIONS \<and> ie_enforcement e \<in> set ENFORCEMENTS \<and>
     ie_provenance e \<in> set PROVENANCES \<and>
     (case ie_playbook_step_index e of None \<Rightarrow> True | Some n \<Rightarrow> 0 \<le> n)"

definition insert_registry_event :: "registry_event \<Rightarrow> (registry_db, registry_event) py" where
  "insert_registry_event e s =
     (let s0 = s\<lparr>registry_event_seq := registry_event_seq s + 1\<rparr>
      in if \<not> registry_event_fits e then (Inl too_long, s0)
         else if \<not> registry_event_checks e then (Inl (IntegrityError ''indicator_response_events_check''), s0)
         else if ie_idempotency_key e \<noteq> None \<and>
                 (\<exists>x \<in> set (indicator_response_events s). ie_idempotency_key x = ie_idempotency_key e)
         then (Inl (IntegrityError ''idx_indicator_response_events_idempotency''), s0)
         else (Inr e, s0\<lparr>indicator_response_events := indicator_response_events s @ [e]\<rparr>))"

definition registry_event_by_key :: "string \<Rightarrow> registry_db \<Rightarrow> registry_event option" where
  "registry_event_by_key k s =
     fetchone (filter (\<lambda>e. ie_idempotency_key e = Some k) (indicator_response_events s))"

text \<open>The record's columns after an event; both arms of the source's \<open>CASE\<close> that meet no new
  expiry keep the old one.\<close>

definition apply_event :: "clock \<Rightarrow> event_args \<Rightarrow> string \<Rightarrow> registry_record \<Rightarrow> registry_record" where
  "apply_event clk a disposition r =
     r\<lparr>ir_current_disposition := disposition,
       ir_active_blocked_ip_id := coalesce_opt (va_blocked_ip_id a) (ir_active_blocked_ip_id r),
       ir_active_incident_id := coalesce_opt (va_incident_id a) (ir_active_incident_id r),
       ir_monitor_expires_at := coalesce_opt (va_expires_at a) (ir_monitor_expires_at r),
       ir_updated_at := sql_now clk\<rparr>"

definition append_registry_event :: "clock \<Rightarrow> event_args \<Rightarrow> (registry_db, registry_event) py" where
  "append_registry_event clk a s =
     (let key = coalesce (va_idempotency_key a) []
      in case (if key = [] then None else registry_event_by_key key s) of
           Some existing \<Rightarrow> (Inr existing, s)
         | None \<Rightarrow>
     (case get_indicator_by_id (va_registry_id a) s of
        None \<Rightarrow> (Inl (ValueError (''Registry record '' @ show_int (va_registry_id a) @ '' not found'')), s)
      | Some r \<Rightarrow>
          let given = coalesce (va_disposition_after a) [];
              disposition = (if given \<noteq> [] then given
                             else derive_disposition_from_event (va_requested_action a) (va_outcome a)
                                    (Some (ir_current_disposition r)))
          in if disposition \<notin> set VALID_DISPOSITIONS
             then (Inl (ValueError (''Invalid disposition '' @ py_repr disposition)), s)
             else (case insert_registry_event (new_registry_event clk a (registry_event_seq s) disposition) s of
                     (Inl e, s1) \<Rightarrow> (Inl e, s1)
                   | (Inr event, s1) \<Rightarrow>
                       (Inr event,
                        if va_update_registry a
                        then s1\<lparr>indicator_registry :=
                                update_where (\<lambda>r. ir_id r = va_registry_id a) (apply_event clk a disposition)
                                  (indicator_registry s1)\<rparr>
                        else s1))))"

subsection \<open>Reading\<close>

definition newest_events_first :: "registry_event list \<Rightarrow> registry_event list" where
  "newest_events_first = order_desc (\<lambda>e. (ie_created_at e, ie_id e))"

definition events_of_record :: "row_id \<Rightarrow> registry_db \<Rightarrow> registry_event list" where
  "events_of_record i s = filter (\<lambda>e. ie_registry_id e = i) (indicator_response_events s)"

definition list_registry_events :: "row_id \<Rightarrow> int \<Rightarrow> int \<Rightarrow> registry_db \<Rightarrow> registry_event list" where
  "list_registry_events i cap off s =
     limit (max 1 (min cap 500)) (offset (max 0 off) (newest_events_first (events_of_record i s)))"

text \<open>\<open>LIKE\<close>, with the backslash as the escape; \<open>ILIKE\<close> compares without case.\<close>

fun sql_like :: "string \<Rightarrow> string \<Rightarrow> bool" where
  "sql_like [] t = (t = [])"
| "sql_like (p # ps) t =
     (if p = CHR ''%'' then sql_like ps t \<or> (case t of [] \<Rightarrow> False | _ # cs \<Rightarrow> sql_like (p # ps) cs)
      else if p = char_of (92 :: nat)
      then (case ps of [] \<Rightarrow> False
            | d # ps' \<Rightarrow> (case t of [] \<Rightarrow> False | c # cs \<Rightarrow> c = d \<and> sql_like ps' cs))
      else (case t of [] \<Rightarrow> False | c # cs \<Rightarrow> (p = CHR ''_'' \<or> c = p) \<and> sql_like ps cs))"

declare sql_like.simps [simp del]

definition sql_ilike :: "string \<Rightarrow> string \<Rightarrow> bool" where
  "sql_ilike pattern t = sql_like (lower pattern) (lower t)"

text \<open>The keyword arguments of \<open>list_registry_records\<close>.\<close>

record registry_query =
  rq_disposition :: "string option"
  rq_dispositions :: "string list"
  rq_indicator_type :: "string option"
  rq_q :: "string option"
  rq_exact_indicator_value :: "string option"
  rq_origin_surface :: "string option"
  rq_actor_user_id :: "row_id option"
  rq_outcome :: "string option"
  rq_enforcement :: "string option"
  rq_requested_action :: "string option"
  rq_related_alert_id :: "row_id option"
  rq_related_incident_id :: "row_id option"
  rq_updated_after :: "time option"
  rq_updated_before :: "time option"
  rq_sort :: string
  rq_limit :: int
  rq_offset :: int

text \<open>A text argument that is empty is no argument.\<close>

definition if_given :: "string option \<Rightarrow> (string \<Rightarrow> bool) \<Rightarrow> bool" where
  "if_given x p = (case x of None \<Rightarrow> True | Some v \<Rightarrow> v = [] \<or> p v)"

definition if_some :: "'a option \<Rightarrow> ('a \<Rightarrow> bool) \<Rightarrow> bool" where
  "if_some x p = (case x of None \<Rightarrow> True | Some v \<Rightarrow> p v)"

definition wanted_dispositions :: "registry_query \<Rightarrow> string list" where
  "wanted_dispositions q =
     filter (\<lambda>d. d \<in> set VALID_DISPOSITIONS) (rq_dispositions q) @
     (case rq_disposition q of None \<Rightarrow> [] | Some d \<Rightarrow> if d \<in> set VALID_DISPOSITIONS then [d] else [])"

text \<open>The newest event of a record, which the query joins; a column of a missing event equals nothing.\<close>

definition latest_event :: "row_id \<Rightarrow> registry_db \<Rightarrow> registry_event option" where
  "latest_event i s = fetchone (newest_events_first (events_of_record i s))"

definition event_is :: "(registry_event \<Rightarrow> 'a option) \<Rightarrow> registry_event option \<Rightarrow> 'a \<Rightarrow> bool" where
  "event_is col e v = (case e of None \<Rightarrow> False | Some x \<Rightarrow> col x = Some v)"

definition record_matches :: "registry_query \<Rightarrow> registry_db \<Rightarrow> registry_record \<Rightarrow> bool" where
  "record_matches q s r =
     (let e = latest_event (ir_id r) s;
          ds = wanted_dispositions q
      in (ds = [] \<or> ir_current_disposition r \<in> set ds) \<and>
         if_given (rq_indicator_type q) (\<lambda>v. ir_indicator_type r = v) \<and>
         if_given (rq_exact_indicator_value q) (\<lambda>v. ir_indicator_value r = strip v) \<and>
         if_given (rq_q q) (\<lambda>v. sql_ilike (''%'' @ strip v @ ''%'') (ir_indicator_value r)) \<and>
         if_some (rq_updated_after q) (\<lambda>t. t \<le> ir_updated_at r) \<and>
         if_some (rq_updated_before q) (\<lambda>t. ir_updated_at r \<le> t) \<and>
         if_given (rq_origin_surface q) (event_is (Some \<circ> ie_origin_surface) e) \<and>
         if_some (rq_actor_user_id q) (event_is ie_actor_user_id e) \<and>
         if_given (rq_outcome q) (event_is (Some \<circ> ie_outcome) e) \<and>
         if_given (rq_enforcement q) (event_is (Some \<circ> ie_enforcement) e) \<and>
         if_given (rq_requested_action q) (event_is (Some \<circ> ie_requested_action) e) \<and>
         if_some (rq_related_alert_id q) (\<lambda>a. \<exists>x \<in> set (events_of_record (ir_id r) s). ie_alert_id x = Some a) \<and>
         if_some (rq_related_incident_id q)
           (\<lambda>i. \<exists>x \<in> set (events_of_record (ir_id r) s). ie_incident_id x = Some i))"

definition order_records :: "(string \<Rightarrow> 'k::linorder) \<Rightarrow> string \<Rightarrow> registry_record list \<Rightarrow> registry_record list" where
  "order_records collate srt =
     (if srt = ''updated_at_asc'' then order_asc (\<lambda>r. (ir_updated_at r, ir_id r))
      else if srt = ''created_at_desc'' then order_desc (\<lambda>r. (ir_created_at r, ir_id r))
      else if srt = ''created_at_asc'' then order_asc (\<lambda>r. (ir_created_at r, ir_id r))
      else if srt = ''indicator_value_asc'' then order_asc (\<lambda>r. (collate (ir_indicator_value r), ir_id r))
      else if srt = ''indicator_value_desc'' then order_desc (\<lambda>r. (collate (ir_indicator_value r), ir_id r))
      else order_desc (\<lambda>r. (ir_updated_at r, ir_id r)))"

record registry_item =
  gi_record :: registry_record
  gi_latest_event :: "registry_event option"
  gi_enforcement :: string
  gi_related_incident_id :: "row_id option"
  gi_enforcement_statement :: string

text \<open>\<open>x or y\<close> on ids; zero is false.\<close>

definition id_or :: "row_id option \<Rightarrow> row_id option \<Rightarrow> row_id option" where
  "id_or x y = (case x of None \<Rightarrow> y | Some i \<Rightarrow> if i = 0 then y else x)"

definition registry_item_of :: "registry_db \<Rightarrow> registry_record \<Rightarrow> registry_item" where
  "registry_item_of s r =
     (let e = latest_event (ir_id r) s;
          enforcement = map_option ie_enforcement e
      in \<lparr>gi_record = r, gi_latest_event = e,
          gi_enforcement = (if coalesce enforcement [] = [] then ''none'' else the enforcement),
          gi_related_incident_id = id_or (Option.bind e ie_incident_id) (ir_active_incident_id r),
          gi_enforcement_statement =
            (if ir_current_disposition r = DISPOSITION_BLOCKLIST_TRACKED \<or>
                enforcement \<in> {None, Some ''none'', Some ''tracking_only''}
             then ''Tracking only; no firewall or host enforcement.''
             else ''Enforcement mode: '' @ the enforcement)\<rparr>)"

record registry_page =
  gp_total :: nat
  gp_limit :: int
  gp_offset :: int
  gp_items :: "registry_item list"

definition list_registry_records ::
  "(string \<Rightarrow> 'k::linorder) \<Rightarrow> registry_query \<Rightarrow> registry_db \<Rightarrow> registry_page" where
  "list_registry_records collate q s =
     (let cap = max 1 (min (rq_limit q) 200);
          off = max 0 (rq_offset q);
          found = filter (record_matches q s) (indicator_registry s)
      in \<lparr>gp_total = length found, gp_limit = cap, gp_offset = off,
          gp_items = map (registry_item_of s) (limit cap (offset off (order_records collate (rq_sort q) found)))\<rparr>)"

subsection \<open>The invariant of the tables\<close>

definition registry_identity :: "registry_record \<Rightarrow> row_id \<times> string \<times> string \<times> time" where
  "registry_identity r = (ir_id r, ir_indicator_type r, ir_indicator_value r, ir_created_at r)"

definition registry_inv :: "registry_db \<Rightarrow> bool" where
  "registry_inv s \<longleftrightarrow>
     wf_ids ir_id (registry_seq s) (indicator_registry s) \<and>
     wf_ids ie_id (registry_event_seq s) (indicator_response_events s) \<and>
     distinct (map (\<lambda>r. (ir_indicator_type r, ir_indicator_value r)) (indicator_registry s)) \<and>
     distinct (log_keys ie_idempotency_key (indicator_response_events s)) \<and>
     (\<forall>r \<in> set (indicator_registry s). ir_current_disposition r \<in> set VALID_DISPOSITIONS) \<and>
     (\<forall>e \<in> set (indicator_response_events s). registry_event_checks e \<and>
        (\<exists>r \<in> set (indicator_registry s). ir_id r = ie_registry_id e))"

text \<open>Records keep their identity, events are only added.\<close>

definition registry_grows :: "registry_db \<Rightarrow> registry_db \<Rightarrow> bool" where
  "registry_grows s s' \<longleftrightarrow>
     prefix (map registry_identity (indicator_registry s)) (map registry_identity (indicator_registry s')) \<and>
     prefix (indicator_response_events s) (indicator_response_events s')"

definition registry_init :: registry_db where
  "registry_init =
     \<lparr>indicator_registry = [], registry_seq = 1, indicator_response_events = [], registry_event_seq = 1\<rparr>"

lemma registry_inv_init: "registry_inv registry_init"
  by (simp add: registry_inv_def registry_init_def)

lemma registry_grows_refl [simp]: "registry_grows s s"
  by (simp add: registry_grows_def)

lemma registry_grows_trans: "registry_grows s s' \<Longrightarrow> registry_grows s' s'' \<Longrightarrow> registry_grows s s''"
  unfolding registry_grows_def by (elim conjE, intro conjI; rule prefix_order.trans; assumption)

lemma registry_identity_ids:
  assumes "map registry_identity t = map registry_identity t'"
  shows "map ir_id t = map ir_id t'" "ir_id ` set t = ir_id ` set t'"
    "map (\<lambda>r. (ir_indicator_type r, ir_indicator_value r)) t = map (\<lambda>r. (ir_indicator_type r, ir_indicator_value r)) t'"
proof -
  show "map ir_id t = map ir_id t'"
    using arg_cong [OF assms, of "map fst"] by (simp add: registry_identity_def comp_def)
  then show "ir_id ` set t = ir_id ` set t'" by (metis list.set_map)
  show "map (\<lambda>r. (ir_indicator_type r, ir_indicator_value r)) t = map (\<lambda>r. (ir_indicator_type r, ir_indicator_value r)) t'"
    using arg_cong [OF assms, of "map (\<lambda>(i, ty, v, c). (ty, v))"] by (simp add: registry_identity_def comp_def)
qed

text \<open>An update of records that keeps their identity and a disposition of the vocabulary is safe.\<close>

lemma registry_update_safe:
  assumes inv: "registry_inv s" and ident: "\<And>r. registry_identity (f r) = registry_identity r"
    and disp: "\<And>r. ir_current_disposition r \<in> set VALID_DISPOSITIONS \<Longrightarrow>
      ir_current_disposition (f r) \<in> set VALID_DISPOSITIONS"
  shows "registry_inv (s\<lparr>indicator_registry := update_where p f (indicator_registry s)\<rparr>) \<and>
    registry_grows s (s\<lparr>indicator_registry := update_where p f (indicator_registry s)\<rparr>)"
proof -
  let ?t = "indicator_registry s" and ?t' = "update_where p f (indicator_registry s)"
  have same: "map registry_identity ?t' = map registry_identity ?t"
    by (rule map_update_where) (simp add: ident)
  note ids = registry_identity_ids [OF same]
  have id: "ir_id (f r) = ir_id r" for r using ident [of r] by (simp add: registry_identity_def)
  have "wf_ids ir_id (registry_seq s) ?t'"
    by (rule wf_ids_update) (use inv id in \<open>auto simp: registry_inv_def\<close>)
  moreover have "\<exists>r' \<in> set ?t'. ir_id r' = ir_id r" if "r \<in> set ?t" for r
    using that id [of r] by (cases "p r") (auto simp: set_update_where)
  then have "\<forall>e \<in> set (indicator_response_events s). registry_event_checks e \<and> (\<exists>r \<in> set ?t'. ir_id r = ie_registry_id e)"
    using inv unfolding registry_inv_def by metis
  moreover have "\<forall>r \<in> set ?t'. ir_current_disposition r \<in> set VALID_DISPOSITIONS"
    using inv disp by (auto simp: registry_inv_def set_update_where)
  ultimately show ?thesis using inv ids(3) same by (simp add: registry_inv_def registry_grows_def)
qed

lemma registry_seq_safe:
  "registry_inv s \<Longrightarrow> registry_inv (s\<lparr>registry_seq := registry_seq s + 1\<rparr>)"
  "registry_inv s \<Longrightarrow> registry_inv (s\<lparr>registry_event_seq := registry_event_seq s + 1\<rparr>)"
  "registry_grows s (s\<lparr>registry_seq := i\<rparr>)" "registry_grows s (s\<lparr>registry_event_seq := i\<rparr>)"
  by (force simp: registry_inv_def registry_grows_def wf_ids_def)+

text \<open>What one upsert does: nothing, touch the record of the indicator, or add one.\<close>

lemma upsert_cases:
  obtains (failed) e s' where "upsert_indicator_identity clk ty v s = (Inl e, s')" "s' = s \<or> s' = s\<lparr>registry_seq := registry_seq s + 1\<rparr>"
  | (found) n r where "normalize_indicator_value ty v = Inr n" "fetchone (filter (same_indicator ty n) (indicator_registry s)) = Some r"
      "upsert_indicator_identity clk ty v s =
        (Inr (r\<lparr>ir_updated_at := sql_now clk\<rparr>), s\<lparr>registry_seq := registry_seq s + 1,
           indicator_registry := update_where (same_indicator ty n) (ir_updated_at_update (\<lambda>_. sql_now clk)) (indicator_registry s)\<rparr>)"
  | (created) n where "normalize_indicator_value ty v = Inr n" "\<forall>r \<in> set (indicator_registry s). \<not> same_indicator ty n r"
      "upsert_indicator_identity clk ty v s =
        (Inr (new_record clk (registry_seq s) ty n), s\<lparr>registry_seq := registry_seq s + 1,
           indicator_registry := indicator_registry s @ [new_record clk (registry_seq s) ty n]\<rparr>)"
proof (cases "normalize_indicator_value ty v")
  case (Inl e)
  then show ?thesis using failed by (simp add: upsert_indicator_identity_def)
next
  case (Inr n)
  show ?thesis
  proof (cases "32 < length ty \<or> sql_blank ty")
    case True
    then have "\<exists>e. upsert_indicator_identity clk ty v s = (Inl e, s\<lparr>registry_seq := registry_seq s + 1\<rparr>)"
      using Inr by (cases "32 < length ty") (simp_all add: upsert_indicator_identity_def Let_def)
    then show ?thesis using failed by blast
  next
    case False
    show ?thesis
    proof (cases "fetchone (filter (same_indicator ty n) (indicator_registry s))")
      case None
      then have "filter (same_indicator ty n) (indicator_registry s) = []" by (simp add: fetchone_None)
      then show ?thesis using created [OF Inr] Inr False
        by (simp add: upsert_indicator_identity_def Let_def returning_def filter_empty_conv fetchone_def)
    next
      case (Some r)
      then show ?thesis using found [OF Inr Some] Inr False
        by (auto simp: upsert_indicator_identity_def Let_def returning_def fetchone_Some fetchone_def split: list.splits)
    qed
  qed
qed

lemma upsert_safe:
  assumes inv: "registry_inv s"
  shows "registry_inv (snd (upsert_indicator_identity clk ty v s)) \<and> registry_grows s (snd (upsert_indicator_identity clk ty v s))"
proof (cases rule: upsert_cases [of clk ty v s])
  case (failed e s')
  then show ?thesis using registry_seq_safe inv by auto
next
  case (found n r)
  note s1 = registry_seq_safe(1) [OF inv]
  show ?thesis
    using registry_update_safe [OF s1, of "ir_updated_at_update (\<lambda>_. sql_now clk)" "same_indicator ty n"]
      registry_seq_safe(3) [of s "registry_seq s + 1"]
    by (auto simp: found(3) registry_identity_def intro: registry_grows_trans)
next
  case (created n)
  show ?thesis
    using inv created(2) wf_ids_insert [of ir_id "registry_seq s" "indicator_registry s" "new_record clk (registry_seq s) ty n"]
    by (auto simp: created(3) registry_inv_def registry_grows_def new_record_def same_indicator_def VALID_DISPOSITIONS_def)
qed

text \<open>What one append does: nothing, return the event that is there, or add one.\<close>

definition event_disposition :: "event_args \<Rightarrow> registry_record \<Rightarrow> string" where
  "event_disposition a r =
     (let given = coalesce (va_disposition_after a) []
      in if given \<noteq> [] then given
         else derive_disposition_from_event (va_requested_action a) (va_outcome a) (Some (ir_current_disposition r)))"

definition registry_after_event :: "clock \<Rightarrow> event_args \<Rightarrow> string \<Rightarrow> registry_record list \<Rightarrow> registry_record list" where
  "registry_after_event clk a disposition t =
     (if va_update_registry a then update_where (\<lambda>r. ir_id r = va_registry_id a) (apply_event clk a disposition) t else t)"

lemma append_registry_cases:
  obtains (failed) e s' where "append_registry_event clk a s = (Inl e, s')"
      "s' = s \<or> s' = s\<lparr>registry_event_seq := registry_event_seq s + 1\<rparr>"
  | (there) x where "append_registry_event clk a s = (Inr x, s)"
      "registry_event_by_key (coalesce (va_idempotency_key a) []) s = Some x" "coalesce (va_idempotency_key a) [] \<noteq> []"
  | (added) r d x where "get_indicator_by_id (va_registry_id a) s = Some r" "d = event_disposition a r"
      "d \<in> set VALID_DISPOSITIONS" "x = new_registry_event clk a (registry_event_seq s) d" "registry_event_checks x"
      "\<forall>y \<in> set (indicator_response_events s). va_idempotency_key a \<noteq> None \<longrightarrow> ie_idempotency_key y \<noteq> va_idempotency_key a"
      "append_registry_event clk a s = (Inr x, s\<lparr>registry_event_seq := registry_event_seq s + 1,
         indicator_response_events := indicator_response_events s @ [x],
         indicator_registry := registry_after_event clk a d (indicator_registry s)\<rparr>)"
proof (cases "if coalesce (va_idempotency_key a) [] = [] then None
    else registry_event_by_key (coalesce (va_idempotency_key a) []) s")
  case (Some x)
  then have "append_registry_event clk a s = (Inr x, s)" by (simp add: append_registry_event_def Let_def)
  with Some show ?thesis using there [of x] by (auto split: if_splits)
next
  case None
  note k = None
  show ?thesis
  proof (cases "get_indicator_by_id (va_registry_id a) s")
    case None
    then have "append_registry_event clk a s =
        (Inl (ValueError (''Registry record '' @ show_int (va_registry_id a) @ '' not found'')), s)"
      using k by (simp add: append_registry_event_def Let_def)
    then show ?thesis using failed by blast
  next
    case (Some r)
    define d where "d = event_disposition a r"
    define x where "x = new_registry_event clk a (registry_event_seq s) d"
    have run: "append_registry_event clk a s =
        (if d \<notin> set VALID_DISPOSITIONS then (Inl (ValueError (''Invalid disposition '' @ py_repr d)), s)
         else case insert_registry_event x s of
                (Inl e, s1) \<Rightarrow> (Inl e, s1)
              | (Inr event, s1) \<Rightarrow> (Inr event,
                  if va_update_registry a
                  then s1\<lparr>indicator_registry := update_where (\<lambda>r. ir_id r = va_registry_id a) (apply_event clk a d)
                            (indicator_registry s1)\<rparr>
                  else s1))"
      using k Some unfolding append_registry_event_def Let_def d_def x_def event_disposition_def by simp
    have key: "ie_idempotency_key x = va_idempotency_key a" by (simp add: x_def new_registry_event_def)
    define clash where "clash \<longleftrightarrow> ie_idempotency_key x \<noteq> None \<and>
        (\<exists>y \<in> set (indicator_response_events s). ie_idempotency_key y = ie_idempotency_key x)"
    have ins: "insert_registry_event x s =
        (let s0 = s\<lparr>registry_event_seq := registry_event_seq s + 1\<rparr>
         in if \<not> registry_event_fits x then (Inl too_long, s0)
            else if \<not> registry_event_checks x then (Inl (IntegrityError ''indicator_response_events_check''), s0)
            else if clash then (Inl (IntegrityError ''idx_indicator_response_events_idempotency''), s0)
            else (Inr x, s0\<lparr>indicator_response_events := indicator_response_events s @ [x]\<rparr>))"
      unfolding insert_registry_event_def clash_def by (rule refl)
    consider (bad) "d \<notin> set VALID_DISPOSITIONS"
      | (refused) "d \<in> set VALID_DISPOSITIONS" "\<not> (registry_event_fits x \<and> registry_event_checks x \<and> \<not> clash)"
      | (ok) "d \<in> set VALID_DISPOSITIONS" "registry_event_fits x" "registry_event_checks x" "\<not> clash"
      by blast
    then show ?thesis
    proof cases
      case bad
      then show ?thesis using failed run by simp
    next
      case refused
      then have "\<exists>e. insert_registry_event x s = (Inl e, s\<lparr>registry_event_seq := registry_event_seq s + 1\<rparr>)"
        unfolding ins Let_def by auto
      then show ?thesis using failed run refused(1) by auto
    next
      case ok
      have "\<forall>y \<in> set (indicator_response_events s). va_idempotency_key a \<noteq> None \<longrightarrow> ie_idempotency_key y \<noteq> va_idempotency_key a"
        using ok(4) by (auto simp: clash_def key)
      moreover have "append_registry_event clk a s = (Inr x, s\<lparr>registry_event_seq := registry_event_seq s + 1,
         indicator_response_events := indicator_response_events s @ [x],
         indicator_registry := registry_after_event clk a d (indicator_registry s)\<rparr>)"
        unfolding run ins Let_def registry_after_event_def using ok by simp
      ultimately show ?thesis using added [OF Some d_def ok(1) x_def ok(3)] by blast
    qed
  qed
qed

lemma append_registry_safe:
  assumes inv: "registry_inv s"
  shows "registry_inv (snd (append_registry_event clk a s)) \<and> registry_grows s (snd (append_registry_event clk a s))"
proof (cases rule: append_registry_cases [of clk a s])
  case (failed e s')
  then show ?thesis using registry_seq_safe inv by auto
next
  case (there x)
  then show ?thesis using inv by simp
next
  case (added r d x)
  define s1 where "s1 = s\<lparr>registry_event_seq := registry_event_seq s + 1, indicator_response_events := indicator_response_events s @ [x]\<rparr>"
  have r: "r \<in> set (indicator_registry s)" "ir_id r = va_registry_id a"
    using select_id_Some [OF added(1) [unfolded get_indicator_by_id_def]] by auto
  have x: "ie_id x = registry_event_seq s" "ie_registry_id x = va_registry_id a" "ie_idempotency_key x = va_idempotency_key a"
    by (simp_all add: added(4) new_registry_event_def)
  have inv1: "registry_inv s1"
    using inv added(5,6) r x wf_ids_insert [of ie_id "registry_event_seq s" "indicator_response_events s" x]
    by (auto simp: s1_def registry_inv_def log_keys_mem split: option.splits)
  have grows: "registry_grows s s1" by (simp add: s1_def registry_grows_def)
  have out: "snd (append_registry_event clk a s) =
      (if va_update_registry a
       then s1\<lparr>indicator_registry := update_where (\<lambda>r. ir_id r = va_registry_id a) (apply_event clk a d) (indicator_registry s1)\<rparr>
       else s1)"
    by (simp add: added(7) s1_def registry_after_event_def)
  have "registry_inv (s1\<lparr>indicator_registry := update_where (\<lambda>r. ir_id r = va_registry_id a) (apply_event clk a d) (indicator_registry s1)\<rparr>) \<and>
      registry_grows s1 (s1\<lparr>indicator_registry := update_where (\<lambda>r. ir_id r = va_registry_id a) (apply_event clk a d) (indicator_registry s1)\<rparr>)"
    by (rule registry_update_safe [OF inv1]) (use added(3) in \<open>simp_all add: apply_event_def registry_identity_def\<close>)
  then show ?thesis unfolding out using inv1 grows registry_grows_trans by auto
qed

lemma expiry_safe:
  assumes "registry_inv s"
  shows "registry_inv (snd (apply_monitor_expiry clk now s)) \<and> registry_grows s (snd (apply_monitor_expiry clk now s))"
  unfolding apply_monitor_expiry_def Let_def snd_conv
  by (rule registry_update_safe [OF assms]) (simp_all add: registry_identity_def VALID_DISPOSITIONS_def)

text \<open>The statements that other components run on the tables: the operations above, and a direct
  update of the two columns that a command clears or renews.\<close>

inductive registry_op :: "registry_db \<Rightarrow> registry_db \<Rightarrow> bool" where
  "registry_op s (snd (upsert_indicator_identity clk ty v s))"
| "registry_op s (snd (append_registry_event clk a s))"
| "registry_op s (snd (apply_monitor_expiry clk now s))"
| "(\<And>r. registry_identity (f r) = registry_identity r) \<Longrightarrow>
   (\<And>r. ir_current_disposition (f r) = ir_current_disposition r) \<Longrightarrow>
   registry_op s (s\<lparr>indicator_registry := update_where p f (indicator_registry s)\<rparr>)"

lemma registry_op_safe: "registry_op s s' \<Longrightarrow> registry_inv s \<Longrightarrow> registry_inv s' \<and> registry_grows s s'"
  by (erule registry_op.cases) (auto simp: upsert_safe append_registry_safe expiry_safe registry_update_safe)

interpretation registry_ops: store_ops registry_op registry_inv registry_grows
  by unfold_locales (auto dest: registry_op_safe intro: registry_grows_trans)

definition registry_given :: "clock \<times> event_args \<Rightarrow> string" where
  "registry_given ca = coalesce (va_idempotency_key (snd ca)) []"

lemma append_registry_again:
  assumes "registry_inv s" "e \<in> set (indicator_response_events s)"
    and "ie_idempotency_key e = Some (coalesce (va_idempotency_key a) [])" "coalesce (va_idempotency_key a) [] \<noteq> []"
  shows "append_registry_event clk a s = (Inr e, s)"
proof -
  have "registry_event_by_key (coalesce (va_idempotency_key a) []) s = Some e"
    unfolding registry_event_by_key_def
    by (rule log_keys_lookup) (use assms in \<open>simp_all add: registry_inv_def\<close>)
  then show ?thesis using assms(4) by (simp add: append_registry_event_def Let_def)
qed

interpretation registry_log: keyed_log registry_op registry_inv registry_grows indicator_response_events
  ie_idempotency_key "\<lambda>(clk, a). append_registry_event clk a" registry_given
proof unfold_locales
  fix s s' assume "registry_grows s s'"
  then show "prefix (indicator_response_events s) (indicator_response_events s')"
    by (simp add: registry_grows_def)
qed (use append_registry_again in \<open>fastforce simp: registry_given_def\<close>)

subsection \<open>One record per indicator\<close>

lemma same_indicator_unique:
  assumes "registry_inv s" "r \<in> set (indicator_registry s)" "same_indicator ty n r"
  shows "fetchone (filter (same_indicator ty n) (indicator_registry s)) = Some r"
proof -
  have "filter (\<lambda>x. (ir_indicator_type x, ir_indicator_value x) = (ir_indicator_type r, ir_indicator_value r))
      (indicator_registry s) = [r]"
    by (rule distinct_key_filter) (use assms in \<open>simp_all add: registry_inv_def\<close>)
  moreover have "same_indicator ty n = (\<lambda>x. (ir_indicator_type x, ir_indicator_value x) = (ir_indicator_type r, ir_indicator_value r))"
    using assms(3) by (auto simp: same_indicator_def fun_eq_iff)
  ultimately show ?thesis by (simp add: fetchone_def)
qed

lemma registry_grows_mem:
  assumes "registry_grows s s'" "r \<in> set (indicator_registry s)"
  obtains r' where "r' \<in> set (indicator_registry s')" "registry_identity r' = registry_identity r"
proof -
  have "registry_identity r \<in> set (map registry_identity (indicator_registry s'))"
    using assms set_mono_prefix unfolding registry_grows_def by (metis image_eqI list.set_map subsetD)
  then obtain r' where "r' \<in> set (indicator_registry s')" "registry_identity r' = registry_identity r" by auto
  then show thesis by (rule that)
qed

text \<open>What a successful upsert leaves in the table.\<close>

lemma upsert_Inr:
  assumes inv: "registry_inv s" and run: "upsert_indicator_identity clk ty v s = (Inr r, s')"
  obtains n where "normalize_indicator_value ty v = Inr n" "same_indicator ty n r" "r \<in> set (indicator_registry s')"
    "indicator_response_events s' = indicator_response_events s" "registry_inv s'" "registry_grows s s'"
proof (cases rule: upsert_cases [of clk ty v s])
  case (failed e t)
  then show ?thesis using run by simp
next
  case (found n q)
  have q: "q \<in> set (indicator_registry s)" "same_indicator ty n q"
    using fetchone_mem [OF found(2)] by simp_all
  then have "same_indicator ty n r" "r \<in> set (indicator_registry s')"
    using run found(3) by (auto simp: same_indicator_def set_update_where)
  with found(1) run found(3) upsert_safe [OF inv, of clk ty v] show ?thesis by (intro that) auto
next
  case (created n)
  then show ?thesis using run upsert_safe [OF inv, of clk ty v]
    by (intro that) (auto simp: same_indicator_def new_record_def)
qed

lemma lookup_kept:
  assumes "registry_inv s" "registry_inv s'" "registry_grows s s'" "r \<in> set (indicator_registry s)"
    and "same_indicator ty n r" "normalize_indicator_value ty v = Inr n"
  shows "\<exists>r'. get_indicator_by_value ty v s' = Inr (Some r') \<and> ir_id r' = ir_id r \<and> r' \<in> set (indicator_registry s')"
proof -
  obtain r' where r': "r' \<in> set (indicator_registry s')" "registry_identity r' = registry_identity r"
    using registry_grows_mem [OF assms(3,4)] .
  then have "same_indicator ty n r'" using assms(5) by (simp add: same_indicator_def registry_identity_def)
  from same_indicator_unique [OF assms(2) r'(1) this] r' assms(6) show ?thesis
    by (simp add: get_indicator_by_value_def registry_identity_def)
qed

lemma normalize_ip:
  assumes "ip_address (strip v) = Inr x"
  shows "normalize_indicator_value INDICATOR_TYPE_IP v = Inr (str_ip x)"
proof -
  have "isl (ip_address [])" by code_simp
  then have "strip v \<noteq> []" using assms by auto
  then show ?thesis using assms by (simp add: normalize_indicator_value_def)
qed

text \<open>C23: An address has one record, however it is spelled: whatever has happened since its record was made,
  looking up or upserting another spelling of the address finds that record and adds none.\<close>

theorem spellings_share_one_record:
  assumes "registry_op\<^sup>*\<^sup>* registry_init s" "ip_address (strip v) = Inr x" "ip_address (strip w) = Inr x"
    and "upsert_indicator_identity clk INDICATOR_TYPE_IP v s = (Inr r, s1)" "registry_op\<^sup>*\<^sup>* s1 s2"
  shows "\<exists>r2. get_indicator_by_value INDICATOR_TYPE_IP w s2 = Inr (Some r2) \<and> ir_id r2 = ir_id r \<and>
    (\<exists>r3 s3. upsert_indicator_identity clk' INDICATOR_TYPE_IP w s2 = (Inr r3, s3) \<and> ir_id r3 = ir_id r \<and>
       length (indicator_registry s3) = length (indicator_registry s2))"
proof -
  have inv: "registry_inv s" using registry_ops.ops_inv [OF assms(1) registry_inv_init] .
  obtain n where n: "normalize_indicator_value INDICATOR_TYPE_IP v = Inr n" "same_indicator INDICATOR_TYPE_IP n r"
      "r \<in> set (indicator_registry s1)" "registry_inv s1"
    using upsert_Inr [OF inv assms(4)] .
  have s2: "registry_inv s2" "registry_grows s1 s2" using registry_ops.ops_safe [OF assms(5) n(4)] by auto
  have w: "normalize_indicator_value INDICATOR_TYPE_IP w = Inr n"
    using n(1) normalize_ip [OF assms(2)] normalize_ip [OF assms(3)] by simp
  obtain r2 where r2: "get_indicator_by_value INDICATOR_TYPE_IP w s2 = Inr (Some r2)" "ir_id r2 = ir_id r"
    using lookup_kept [OF n(4) s2 n(3,2) w] by blast
  then have found: "fetchone (filter (same_indicator INDICATOR_TYPE_IP n) (indicator_registry s2)) = Some r2"
    using w by (simp add: get_indicator_by_value_def)
  then have "fetchone (returning (same_indicator INDICATOR_TYPE_IP n) f (indicator_registry s2)) = Some (f r2)" for f
    by (auto simp: returning_def fetchone_Some)
  then have "\<exists>r3 s3. upsert_indicator_identity clk' INDICATOR_TYPE_IP w s2 = (Inr r3, s3) \<and> ir_id r3 = ir_id r \<and>
      length (indicator_registry s3) = length (indicator_registry s2)"
    using w r2(2) by (simp add: upsert_indicator_identity_def Let_def sql_blank_def)
  with r2 show ?thesis by blast
qed

end
