(* ===== verification/Outcome_Runs.thy ===== *)
theory Outcome_Runs
  imports Protected_Targets Response_Outcomes Indicator_Registry "HOL-Library.Code_Target_Numeral"
begin

text \<open>
  Concrete decisions, outcome events, registry records and protected entries, evaluated in the kernel: the
  properties of \<open>Response_Outcomes\<close>, \<open>Indicator_Registry\<close> and \<open>Protected_Targets\<close> applied to them.
\<close>

definition wit_out_clock :: clock where
  "wit_out_clock = \<lparr>utc_now = 0, sql_now = 0\<rparr>"

definition wit_decision_args :: decision_args where
  "wit_decision_args = (decision_args0 ''block_ip'' ''manual'' ''Tracked.'')\<lparr>da_alert_id := Some 7\<rparr>"

definition wit_outcome_args :: outcome_args where
  "wit_outcome_args = (outcome_args0 ''tracking_only'' ''succeeded'' ''manual'' ''Recorded.'')
     \<lparr>oa_decision_id := Some 1, oa_tracking_recorded := True, oa_idempotency_key := Some ''k''\<rparr>"

definition wit_decided :: outcome_db where
  "wit_decided = snd (create_response_decision (\<lambda>n. ''0123456789ab'') wit_out_clock wit_decision_args outcome_init)"

definition wit_logged :: outcome_db where
  "wit_logged = snd (append_outcome_event wit_out_clock wit_outcome_args wit_decided)"

lemma wit_logged_reach: "outcome_op\<^sup>*\<^sup>* outcome_init wit_logged"
  unfolding wit_logged_def wit_decided_def
  by (rule rtranclp.rtrancl_into_rtrancl [OF r_into_rtranclp]) (rule outcome_op.intros)+

lemma wit_logged_events:
  "map (\<lambda>e. (oe_id e, oe_decision_id e, oe_alert_id e, oe_execution_mode e, oe_idempotency_key e))
     (soar_response_outcome_events wit_logged) = [(1, 1, Some 7, ''tracking_only'', Some ''k'')]"
  by code_simp

lemma wit_logged_event:
  obtains e where "soar_response_outcome_events wit_logged = [e]" "oe_decision_id e = 1"
    "oe_execution_mode e = ''tracking_only''" "oe_alert_id e = Some 7"
  using wit_logged_events by (auto simp: map_eq_Cons_conv)

theorem outcome_events_well_typed_witness:
  "\<exists>e. soar_response_outcome_events wit_logged = [e] \<and> fetch_decision_by_id 1 wit_logged \<noteq> None \<and>
     oe_execution_state e \<in> set EXECUTION_STATES \<and> \<not> oe_external_executed e"
proof -
  obtain e where e: "soar_response_outcome_events wit_logged = [e]" "oe_decision_id e = 1"
      "oe_execution_mode e = ''tracking_only''" by (rule wit_logged_event)
  then have "e \<in> set (soar_response_outcome_events wit_logged)" by simp
  from outcome_events_well_typed [OF wit_logged_reach this] show ?thesis using e by auto
qed

theorem bulk_latest_equals_single_witness:
  "\<exists>e. get_latest_outcomes_for_alerts_bulk [7] wit_logged 7 = Some e"
proof -
  have "outcome_inv wit_logged"
    by (rule outcome_ops.ops_inv [OF wit_logged_reach]) code_simp
  moreover have "map_sum id (map_option oe_id) (get_latest_outcome_for_alert 7 wit_logged) = Inr (Some 1)"
    by code_simp
  ultimately show ?thesis using bulk_latest_equals_single [of wit_logged "[7]" 7]
    by (cases "get_latest_outcome_for_alert 7 wit_logged") auto
qed

definition wit_record :: "registry_record result \<times> registry_db" where
  "wit_record = upsert_indicator_identity wit_out_clock INDICATOR_TYPE_IP '' 2001:DB8:0::1'' registry_init"

theorem spellings_share_one_record_witness:
  "\<exists>r2. get_indicator_by_value INDICATOR_TYPE_IP ''2001:db8:0:0:0:0:0:1'' (snd wit_record) = Inr (Some r2) \<and> ir_id r2 = 1"
proof -
  have a: "ip_address (strip '' 2001:DB8:0::1'') = Inr (IPv6 0x20010DB8000000000000000000000001 None)"
    "ip_address (strip ''2001:db8:0:0:0:0:0:1'') = Inr (IPv6 0x20010DB8000000000000000000000001 None)"
    by code_simp+
  have id: "map_sum id ir_id (fst wit_record) = Inr 1" by code_simp
  then obtain r where r: "fst wit_record = Inr r" "ir_id r = 1" by (cases "fst wit_record") auto
  then have "upsert_indicator_identity wit_out_clock INDICATOR_TYPE_IP '' 2001:DB8:0::1'' registry_init = (Inr r, snd wit_record)"
    unfolding wit_record_def by (metis prod.collapse)
  from spellings_share_one_record [OF rtranclp.rtrancl_refl a this rtranclp.rtrancl_refl] r(2) show ?thesis by auto
qed

theorem protected_entry_covers_address_witness:
  "\<exists>n. parse_entry_to_network ''2001:db8::1'' = Inr n \<and> in_network (IPv6 0x20010DB8000000000000000000000001 None) n"
proof -
  have a: "CHR ''/'' \<notin> set ''2001:db8::1''" by simp
  have "ip_address ''2001:db8::1'' = Inr (IPv6 0x20010DB8000000000000000000000001 None)"
    "ip_address ''2001:DB8:0::1'' = Inr (IPv6 0x20010DB8000000000000000000000001 None)"
    by code_simp+
  from protected_entry_covers_address [OF a this] show ?thesis by simp
qed

end
