(* ===== verification/Response_Commands.thy ===== *)
theory Response_Commands
  imports Indicator_Registry Response_Outcomes Protected_Targets
begin

text \<open>
  \<open>core/response_command_service.py\<close> with \<open>core/response_command_contracts.py\<close> and
  \<open>create_blocked_ip_record\<close> of \<open>core/db.py\<close>: the one path on which analysts, playbooks and the
  queue worker block, monitor, escalate, stop, remove and annotate. A command reads and writes the
  alerts, the blocklist, the incidents, the action log, the canonical outcomes and the registry; it
  raises where the source raises, and its caller commits or rolls back.

  Parameters are collected in \<open>command_env\<close>: the value of \<open>SOAR_PROTECTED_IPS\<close>, the digits of
  the \<open>n\<close>-th \<open>uuid4\<close>, \<open>sha256\<close>, and \<open>datetime.fromisoformat\<close>, which gives the wall clock time
  and the offset of a zone where the text names one. Where a query leaves ties open, the later row of
  the table comes first.
\<close>

subsection \<open>State\<close>

record alert_row =
  al_id :: row_id
  al_source_ip :: string
  al_response_action :: "string option"
  al_response_status :: "string option"

record blocked_ip =
  bi_id :: row_id
  bi_ip_address :: string
  bi_reason :: "string option"
  bi_status :: string
  bi_created_by :: "string option"
  bi_created_at :: time
  bi_expires_at :: "time option"
  bi_source_alert_id :: "row_id option"

record incident_row =
  in_id :: row_id
  in_title :: string
  in_severity :: string
  in_priority :: string
  in_status :: string
  in_source_ip :: "string option"
  in_assigned_to :: "row_id option"
  in_created_at :: time

record incident_link =
  il_incident_id :: row_id
  il_alert_id :: row_id
  il_linked_at :: time

record action_log =
  lg_id :: row_id
  lg_alert_id :: "row_id option"
  lg_source_ip :: "string option"
  lg_action :: string
  lg_status :: string
  lg_details :: "string option"
  lg_decision_id :: "row_id option"
  lg_soar_correlation_id :: "string option"
  lg_executed_at :: time

record command_db =
  cmd_registry :: registry_db
  cmd_outcomes :: outcome_db
  alerts :: "alert_row list"
  blocked_ips :: "blocked_ip list"
  blocked_seq :: row_id
  incidents :: "incident_row list"
  incident_seq :: row_id
  incident_alerts :: "incident_link list"
  response_actions_log :: "action_log list"
  action_log_seq :: row_id

record command_env =
  env_protected :: string
  env_uuid :: "nat \<Rightarrow> string"
  env_sha256 :: "string \<Rightarrow> string"
  env_fromisoformat :: "string \<Rightarrow> (time \<times> time option) result"

subsection \<open>Statements in sequence\<close>

definition ret :: "'a \<Rightarrow> ('s, 'a) py" where
  "ret x s = (Inr x, s)"

definition raise :: "py_error \<Rightarrow> ('s, 'a) py" where
  "raise e s = (Inl e, s)"

definition of_result :: "'a result \<Rightarrow> ('s, 'a) py" where
  "of_result r s = (r, s)"

definition reads :: "('s \<Rightarrow> 'a) \<Rightarrow> ('s, 'a) py" where
  "reads f s = (Inr (f s), s)"

definition changes :: "('s \<Rightarrow> 's) \<Rightarrow> ('s, unit) py" where
  "changes f s = (Inr (), f s)"

definition in_registry :: "(registry_db, 'a) py \<Rightarrow> (command_db, 'a) py" where
  "in_registry m s = (case m (cmd_registry s) of (r, t) \<Rightarrow> (r, s\<lparr>cmd_registry := t\<rparr>))"

definition in_outcomes :: "(outcome_db, 'a) py \<Rightarrow> (command_db, 'a) py" where
  "in_outcomes m s = (case m (cmd_outcomes s) of (r, t) \<Rightarrow> (r, s\<lparr>cmd_outcomes := t\<rparr>))"

subsection \<open>The contracts\<close>

abbreviation "ORIGIN_PLAYBOOK \<equiv> ''playbook''"
abbreviation "ORIGIN_RESPONSE_QUEUE \<equiv> ''response_queue''"
abbreviation "ORIGIN_SYSTEM \<equiv> ''system''"

definition DEFAULT_MONITOR_TTL_HOURS :: int where
  "DEFAULT_MONITOR_TTL_HOURS = 168"

definition ESCALATION_DEFAULT_PRIORITY :: string where
  "ESCALATION_DEFAULT_PRIORITY = ''P2''"

definition ESCALATION_DEFAULT_SEVERITY :: string where
  "ESCALATION_DEFAULT_SEVERITY = ''high''"

record ResponseCommandRequest =
  cr_action :: string
  cr_indicator_type :: string
  cr_indicator_value :: "string option"
  cr_alert_id :: "row_id option"
  cr_incident_id :: "row_id option"
  cr_reason :: "string option"
  cr_actor_user_id :: "row_id option"
  cr_origin_surface :: string
  cr_idempotency_key :: "string option"
  cr_expires_at :: "string option"
  cr_playbook_execution_id :: "row_id option"
  cr_playbook_step_index :: "int option"
  cr_queue_id :: "row_id option"
  cr_approval_request_id :: "row_id option"
  cr_safe_metadata :: items

definition request_with_action :: "string \<Rightarrow> ResponseCommandRequest" where
  "request_with_action action =
     \<lparr>cr_action = action, cr_indicator_type = INDICATOR_TYPE_IP, cr_indicator_value = None,
      cr_alert_id = None, cr_incident_id = None, cr_reason = None, cr_actor_user_id = None,
      cr_origin_surface = ORIGIN_SYSTEM, cr_idempotency_key = None, cr_expires_at = None,
      cr_playbook_execution_id = None, cr_playbook_step_index = None, cr_queue_id = None,
      cr_approval_request_id = None, cr_safe_metadata = []\<rparr>"

record ResponseCommandResult =
  rs_success :: bool
  rs_action :: string
  rs_outcome_label :: string
  rs_idempotent :: bool
  rs_enforcement :: string
  rs_registry_record_id :: "row_id option"
  rs_registry_event_id :: "row_id option"
  rs_blocked_ip_id :: "row_id option"
  rs_incident_id :: "row_id option"
  rs_decision_id :: "row_id option"
  rs_soar_correlation_id :: "string option"
  rs_response_action_log_id :: "row_id option"
  rs_disposition :: "string option"
  rs_message :: string
  rs_error :: "string option"
  rs_error_code :: "string option"
  rs_affected_resource_keys :: "string list"
  rs_compatible_fields :: items

definition result_for :: "bool \<Rightarrow> string \<Rightarrow> string \<Rightarrow> string \<Rightarrow> ResponseCommandResult" where
  "result_for success action label message =
     \<lparr>rs_success = success, rs_action = action, rs_outcome_label = label, rs_idempotent = False,
      rs_enforcement = ''none'', rs_registry_record_id = None, rs_registry_event_id = None,
      rs_blocked_ip_id = None, rs_incident_id = None, rs_decision_id = None,
      rs_soar_correlation_id = None, rs_response_action_log_id = None, rs_disposition = None,
      rs_message = message, rs_error = None, rs_error_code = None, rs_affected_resource_keys = [],
      rs_compatible_fields = []\<rparr>"

text \<open>\<open>dict.update\<close>, and the payload of the API.\<close>

definition dict_update :: "items \<Rightarrow> items \<Rightarrow> items" where
  "dict_update d e = fold (\<lambda>(k, v) acc. dict_set acc k v) e d"

definition to_api_dict :: "ResponseCommandResult \<Rightarrow> items" where
  "to_api_dict r =
     dict_update
       ([(''success'', PBool (rs_success r)), (''action'', PStr (rs_action r)),
         (''outcome_label'', PStr (rs_outcome_label r)), (''idempotent'', PBool (rs_idempotent r)),
         (''enforcement'', PStr (rs_enforcement r)),
         (''registry_record_id'', opt_val PInt (rs_registry_record_id r)),
         (''registry_event_id'', opt_val PInt (rs_registry_event_id r)),
         (''blocked_ip_id'', opt_val PInt (rs_blocked_ip_id r)),
         (''incident_id'', opt_val PInt (rs_incident_id r)),
         (''decision_id'', opt_val PInt (rs_decision_id r)),
         (''soar_correlation_id'', opt_val PStr (rs_soar_correlation_id r)),
         (''response_action_log_id'', opt_val PInt (rs_response_action_log_id r)),
         (''disposition'', opt_val PStr (rs_disposition r)), (''message'', PStr (rs_message r)),
         (''affected_resource_keys'', PList (map PStr (rs_affected_resource_keys r)))] @
        (if coalesce (rs_error r) [] = [] then [] else [(''error'', PStr (the (rs_error r)))]) @
        (if coalesce (rs_error_code r) [] = [] then [] else [(''error_code'', PStr (the (rs_error_code r)))]))
       (rs_compatible_fields r)"

definition id_key :: "string \<Rightarrow> row_id option \<Rightarrow> string list" where
  "id_key what i = (case i of None \<Rightarrow> [] | Some n \<Rightarrow> [what @ '':'' @ show_int n])"

definition build_affected_resource_keys ::
  "row_id option \<Rightarrow> row_id option \<Rightarrow> string option \<Rightarrow> row_id option \<Rightarrow> row_id option \<Rightarrow> row_id option \<Rightarrow>
   row_id option \<Rightarrow> string list" where
  "build_affected_resource_keys alert_id incident_id source_ip blocked_ip_id registry_record_id queue_id
     playbook_execution_id =
     id_key ''alert'' alert_id @ id_key ''incident'' incident_id @
     (if coalesce source_ip [] = [] then [] else [''source_ip:'' @ the source_ip]) @
     id_key ''blocked_ip'' blocked_ip_id @ id_key ''registry'' registry_record_id @
     id_key ''queue'' queue_id @ id_key ''playbook_execution'' playbook_execution_id @
     [''response_registry'', ''blocklist'']"

subsection \<open>Helpers of the service\<close>

text \<open>\<open>x or default\<close> on texts and ids; the empty text and zero are false.\<close>

definition or_text :: "string option \<Rightarrow> string \<Rightarrow> string" where
  "or_text x d = (if coalesce x [] = [] then d else the x)"

definition id_text :: "int option \<Rightarrow> string" where
  "id_text i = (case i of None \<Rightarrow> [] | Some n \<Rightarrow> if n = 0 then [] else show_int n)"

definition id_true :: "int option \<Rightarrow> bool" where
  "id_true i = (case i of None \<Rightarrow> False | Some n \<Rightarrow> n \<noteq> 0)"

definition parse_expires_at :: "command_env \<Rightarrow> string option \<Rightarrow> time option result" where
  "parse_expires_at env v =
     (if coalesce v [] = [] then Inr None
      else case env_fromisoformat env (replace_all ''Z'' ''+00:00'' (strip (the v))) of
             Inl e \<Rightarrow> Inl e
           | Inr (wall, zone) \<Rightarrow> Inr (Some (wall - coalesce zone 0)))"

definition default_idempotency_key :: "command_env \<Rightarrow> ResponseCommandRequest \<Rightarrow> string" where
  "default_idempotency_key env q =
     (if coalesce (cr_idempotency_key q) [] \<noteq> [] then the (cr_idempotency_key q)
      else env_sha256 env (join ''|''
             [cr_action q, cr_indicator_type q, or_text (cr_indicator_value q) [], id_text (cr_alert_id q),
              cr_origin_surface q, id_text (cr_queue_id q), id_text (cr_playbook_execution_id q),
              id_text (cr_playbook_step_index q)]))"

definition get_alert :: "row_id \<Rightarrow> command_db \<Rightarrow> alert_row option" where
  "get_alert i s = select_id al_id i (alerts s)"

definition resolve_source_ip :: "ResponseCommandRequest \<Rightarrow> command_db \<Rightarrow> string option result" where
  "resolve_source_ip q s =
     (if coalesce (cr_indicator_value q) [] \<noteq> []
      then (case ip_address (strip (the (cr_indicator_value q))) of
              Inl _ \<Rightarrow> Inl (ValueError ''This registry record does not contain a valid actionable IP.'')
            | Inr a \<Rightarrow> Inr (Some (str_ip a)))
      else case cr_alert_id q of
             None \<Rightarrow> Inr None
           | Some i \<Rightarrow> Inr (map_option al_source_ip (get_alert i s)))"

text \<open>The type \<open>inet\<close> knows no scope of an IPv6 address.\<close>

definition inet_ok :: "string \<Rightarrow> bool" where
  "inet_ok ip \<longleftrightarrow> CHR ''%'' \<notin> set ip"

abbreviation inet_error :: py_error where
  "inet_error \<equiv> DataError ''invalid input syntax for type inet''"

definition active_block :: "string \<Rightarrow> blocked_ip \<Rightarrow> bool" where
  "active_block ip b \<longleftrightarrow> bi_ip_address b = ip \<and> bi_status b = ''active''"

definition block_in_force :: "time \<Rightarrow> string \<Rightarrow> blocked_ip \<Rightarrow> bool" where
  "block_in_force t ip b \<longleftrightarrow> active_block ip b \<and> (case bi_expires_at b of None \<Rightarrow> True | Some u \<Rightarrow> t < u)"

definition new_block ::
  "clock \<Rightarrow> row_id \<Rightarrow> string \<Rightarrow> row_id option \<Rightarrow> string option \<Rightarrow> row_id option \<Rightarrow> time option \<Rightarrow> blocked_ip" where
  "new_block clk i ip created_by reason alert_id expires_at =
     \<lparr>bi_id = i, bi_ip_address = ip, bi_reason = reason, bi_status = ''active'',
      bi_created_by = map_option show_int created_by, bi_created_at = sql_now clk,
      bi_expires_at = expires_at, bi_source_alert_id = alert_id\<rparr>"

definition create_blocked_ip_record ::
  "clock \<Rightarrow> string option \<Rightarrow> row_id option \<Rightarrow> string option \<Rightarrow> row_id option \<Rightarrow> time option \<Rightarrow>
   (command_db, row_id) py" where
  "create_blocked_ip_record clk ip created_by reason alert_id expires_at s =
     (case validate_blocked_ip ip of
        Inl e \<Rightarrow> (Inl e, s)
      | Inr n \<Rightarrow>
          if (case alert_id of None \<Rightarrow> False | Some i \<Rightarrow> get_alert i s = None)
          then (Inl (ValueError ''Source alert not found''), s)
          else if \<not> inet_ok n then (Inl inet_error, s)
          else if \<exists>b \<in> set (blocked_ips s). active_block n b
          then (Inl (ValueError ''An active block already exists for this IP''), s)
          else (Inr (blocked_seq s),
                s\<lparr>blocked_seq := blocked_seq s + 1,
                  blocked_ips := blocked_ips s @
                    [new_block clk (blocked_seq s) n created_by reason alert_id expires_at]\<rparr>))"

definition get_or_create_active_blocked_ip ::
  "clock \<Rightarrow> string \<Rightarrow> row_id option \<Rightarrow> string option \<Rightarrow> row_id option \<Rightarrow> time option \<Rightarrow>
   (command_db, row_id \<times> bool) py" where
  "get_or_create_active_blocked_ip clk ip created_by reason alert_id expires_at s =
     (case validate_blocked_ip (Some ip) of
        Inl e \<Rightarrow> (Inl e, s)
      | Inr n \<Rightarrow>
          if \<not> inet_ok n then (Inl inet_error, s)
          else case fetchone (order_asc bi_id (filter (block_in_force (sql_now clk) n) (blocked_ips s))) of
                 Some b \<Rightarrow> (Inr (bi_id b, False), s)
               | None \<Rightarrow>
                   (case create_blocked_ip_record clk (Some n) created_by reason alert_id expires_at s of
                      (Inl e, s') \<Rightarrow> (Inl e, s')
                    | (Inr i, s') \<Rightarrow> (Inr (i, True), s')))"

definition open_incident :: "incident_row \<Rightarrow> bool" where
  "open_incident i \<longleftrightarrow> in_status i \<in> {''open'', ''investigating''}"

definition link_incident :: "clock \<Rightarrow> row_id \<Rightarrow> row_id option \<Rightarrow> command_db \<Rightarrow> command_db" where
  "link_incident clk incident_id alert_id s =
     (case alert_id of
        None \<Rightarrow> s
      | Some a \<Rightarrow>
          if \<exists>l \<in> set (incident_alerts s). il_incident_id l = incident_id \<and> il_alert_id l = a then s
          else s\<lparr>incident_alerts := incident_alerts s @
                   [\<lparr>il_incident_id = incident_id, il_alert_id = a, il_linked_at = sql_now clk\<rparr>]\<rparr>)"

text \<open>The open incident an alert was linked to last, and the newest open one of an address.\<close>

definition linked_incident :: "row_id \<Rightarrow> command_db \<Rightarrow> row_id option" where
  "linked_incident alert_id s =
     map_option il_incident_id (fetchone (order_desc il_linked_at (filter
       (\<lambda>l. il_alert_id l = alert_id \<and> (\<exists>i \<in> set (incidents s). in_id i = il_incident_id l \<and> open_incident i))
       (incident_alerts s))))"

definition incident_of_address :: "string \<Rightarrow> command_db \<Rightarrow> row_id option" where
  "incident_of_address ip s =
     map_option in_id (fetchone (order_desc in_created_at
       (filter (\<lambda>i. in_source_ip i = Some ip \<and> open_incident i) (incidents s))))"

definition new_incident :: "clock \<Rightarrow> row_id \<Rightarrow> row_id option \<Rightarrow> string option \<Rightarrow> row_id option \<Rightarrow> incident_row" where
  "new_incident clk i alert_id source_ip actor =
     \<lparr>in_id = i,
      in_title = (if id_true alert_id then ''Escalated alert '' @ show_int (the alert_id)
                  else ''Escalated IP '' @ coalesce source_ip ''None''),
      in_severity = ESCALATION_DEFAULT_SEVERITY, in_priority = ESCALATION_DEFAULT_PRIORITY,
      in_status = ''open'', in_source_ip = source_ip, in_assigned_to = actor, in_created_at = sql_now clk\<rparr>"

definition ensure_escalation_incident ::
  "clock \<Rightarrow> row_id option \<Rightarrow> string option \<Rightarrow> row_id option \<Rightarrow> (command_db, row_id) py" where
  "ensure_escalation_incident clk alert_id source_ip actor s =
     (case Option.bind alert_id (\<lambda>a. linked_incident a s) of
        Some i \<Rightarrow> (Inr i, s)
      | None \<Rightarrow>
          if \<not> inet_ok (coalesce source_ip []) then (Inl inet_error, s)
          else case (if coalesce source_ip [] = [] then None else incident_of_address (the source_ip) s) of
                 Some i \<Rightarrow> (Inr i, link_incident clk i alert_id s)
               | None \<Rightarrow>
                   let i = incident_seq s
                   in (Inr i, link_incident clk i alert_id
                                (s\<lparr>incident_seq := i + 1,
                                  incidents := incidents s @ [new_incident clk i alert_id source_ip actor]\<rparr>)))"

definition log_action ::
  "clock \<Rightarrow> row_id option \<Rightarrow> string option \<Rightarrow> string \<Rightarrow> string \<Rightarrow> string option \<Rightarrow> row_id option \<Rightarrow> string option \<Rightarrow>
   (command_db, row_id) py" where
  "log_action clk alert_id source_ip action status details decision_id correlation s =
     (let i = action_log_seq s
      in (Inr i, s\<lparr>action_log_seq := i + 1,
                   response_actions_log := response_actions_log s @
                     [\<lparr>lg_id = i, lg_alert_id = alert_id, lg_source_ip = source_ip, lg_action = action,
                       lg_status = status, lg_details = details, lg_decision_id = decision_id,
                       lg_soar_correlation_id = correlation, lg_executed_at = sql_now clk\<rparr>]\<rparr>))"

text \<open>\<open>create_response_decision\<close>, whose \<open>source_ip\<close> column is an \<open>inet\<close>: the insertion of a scoped
  address fails after the id was drawn.\<close>

definition record_decision :: "command_env \<Rightarrow> clock \<Rightarrow> decision_args \<Rightarrow> (command_db, response_decision) py" where
  "record_decision env clk a =
     in_outcomes (\<lambda>s.
       case create_response_decision (env_uuid env) clk a s of
         (Inl e, s') \<Rightarrow> (Inl e, s')
       | (Inr d, s') \<Rightarrow>
           if inet_ok (coalesce (da_source_ip a) []) then (Inr d, s')
           else (Inl inet_error, s\<lparr>decision_seq := decision_seq s', uuids_drawn := uuids_drawn s'\<rparr>))"

definition mark_alert_executed :: "string \<Rightarrow> row_id option \<Rightarrow> (command_db, unit) py" where
  "mark_alert_executed action alert_id =
     changes (\<lambda>s. case alert_id of
        None \<Rightarrow> s
      | Some i \<Rightarrow> s\<lparr>alerts := update_where (\<lambda>r. al_id r = i)
                   (\<lambda>r. r\<lparr>al_response_action := Some action, al_response_status := Some ''executed''\<rparr>) (alerts s)\<rparr>)"

text \<open>The direct updates of a registry record.\<close>

definition update_record :: "row_id \<Rightarrow> (registry_record \<Rightarrow> registry_record) \<Rightarrow> (command_db, unit) py" where
  "update_record i f =
     in_registry (changes (\<lambda>t. t\<lparr>indicator_registry := update_where (\<lambda>r. ir_id r = i) f (indicator_registry t)\<rparr>))"

subsection \<open>The commands\<close>

definition origin_of :: "ResponseCommandRequest \<Rightarrow> string" where
  "origin_of q = (if cr_origin_surface q = [] then ORIGIN_SYSTEM else cr_origin_surface q)"

definition actor_of :: "ResponseCommandRequest \<Rightarrow> string" where
  "actor_of q = (if id_true (cr_actor_user_id q) then ''manual'' else ''system'')"

definition done_fields :: "ResponseCommandRequest \<Rightarrow> string \<Rightarrow> items" where
  "done_fields q action =
     [(''response_status'', PStr ''executed''), (''alert_id'', opt_val PInt (cr_alert_id q)),
      (''action'', PStr action)]"

text \<open>Every exception of a rejection's bookkeeping is swallowed. Only a database error is left there,
  which aborts the transaction: what the command wrote is lost.\<close>

definition reject_command ::
  "clock \<Rightarrow> ResponseCommandRequest \<Rightarrow> string \<Rightarrow> string option \<Rightarrow> string \<Rightarrow> string \<Rightarrow> string \<Rightarrow>
   (command_db, ResponseCommandResult) py" where
  "reject_command clk q action source_ip key message code s =
     (let rejection = (\<lambda>registry event.
            (result_for False action ''rejected'' message)
              \<lparr>rs_registry_record_id := registry, rs_registry_event_id := event,
               rs_disposition := (if id_true registry then Some DISPOSITION_REJECTED else None),
               rs_error := Some message, rs_error_code := Some code,
               rs_affected_resource_keys :=
                 build_affected_resource_keys (cr_alert_id q) None source_ip None registry None None\<rparr>)
      in if coalesce source_ip [] = [] then (Inr (rejection None None), s)
         else case py_bind (in_registry (upsert_indicator_identity clk INDICATOR_TYPE_IP (the source_ip)))
                     (\<lambda>r. py_bind (in_registry (append_registry_event clk
                        ((event_args0 (ir_id r) ''rejected'' action ''rejected'' (origin_of q))
                           \<lparr>va_disposition_after := Some DISPOSITION_REJECTED,
                            va_actor_user_id := cr_actor_user_id q, va_reason := Some message,
                            va_alert_id := cr_alert_id q, va_idempotency_key := Some (''reject-'' @ key),
                            va_safe_metadata := Some [(''error_code'', PStr code)]\<rparr>)))
                     (\<lambda>e. ret (ir_id r, ie_id e))) s of
                (Inl _, _) \<Rightarrow> (Inr (rejection None None), s)
              | (Inr (i, e), s') \<Rightarrow> (Inr (rejection (Some i) (Some e)), s'))"

text \<open>The checks of \<open>block_ip\<close>: the operator's list first, then what may be blocked at all.\<close>

definition block_checks :: "command_env \<Rightarrow> string \<Rightarrow> unit result" where
  "block_checks env ip =
     (case require_unprotected_target (env_protected env) (Some ip) of
        Inl e \<Rightarrow> Inl e
      | Inr _ \<Rightarrow> (case validate_blocked_ip (Some ip) of Inl e \<Rightarrow> Inl e | Inr _ \<Rightarrow> Inr ()))"

definition rejection_code :: "py_error \<Rightarrow> string option" where
  "rejection_code e =
     (case e of
        SkippedAction _ code \<Rightarrow> Some code
      | ProtectedTargetConfigError _ \<Rightarrow> Some ''protected_target_config_invalid''
      | ValueError _ \<Rightarrow> Some ''invalid_indicator''
      | _ \<Rightarrow> None)"

definition block_decision :: "ResponseCommandRequest \<Rightarrow> string \<Rightarrow> string \<Rightarrow> bool \<Rightarrow> decision_args" where
  "block_decision q action ip created_new =
     (decision_args0 action (if cr_origin_surface q \<noteq> ORIGIN_PLAYBOOK then ''manual'' else ''playbook'')
        ''SIEM blocklist tracking recorded; no firewall or host enforcement occurred.'')
       \<lparr>da_alert_id := cr_alert_id q, da_incident_id := cr_incident_id q, da_source_ip := Some ip,
        da_reason_code := Some ''tracking_only'', da_playbook_execution_id := cr_playbook_execution_id q,
        da_playbook_step_index := cr_playbook_step_index q, da_queue_id := cr_queue_id q,
        da_approval_request_id := cr_approval_request_id q, da_created_by := cr_actor_user_id q,
        da_safe_metadata := Some (dict_update
          [(''origin_surface'', PStr (cr_origin_surface q)), (''idempotent'', PBool (\<not> created_new))]
          (cr_safe_metadata q))\<rparr>"

definition block_outcome ::
  "ResponseCommandRequest \<Rightarrow> string \<Rightarrow> string \<Rightarrow> row_id \<Rightarrow> bool \<Rightarrow> response_decision \<Rightarrow> row_id \<Rightarrow> outcome_args" where
  "block_outcome q ip key block_id created_new d log_id =
     (outcome_args0 ''tracking_only'' ''succeeded'' (actor_of q)
        (if created_new
         then ''SIEM blocklist tracking was recorded for this IP; no firewall enforcement occurred.''
         else ''Active blocklist tracking already existed; provenance appended.''))
       \<lparr>oa_decision_id := Some (rd_id d), oa_soar_correlation_id := Some (rd_soar_correlation_id d),
        oa_event_type := Some ''succeeded'', oa_tracking_recorded := True,
        oa_reason_code := Some (if created_new then ''tracking_only'' else ''duplicate_suppressed''),
        oa_alert_id := cr_alert_id q, oa_source_ip := Some ip, oa_response_action_log_id := Some log_id,
        oa_queue_id := cr_queue_id q, oa_playbook_execution_id := cr_playbook_execution_id q,
        oa_approval_request_id := cr_approval_request_id q, oa_idempotency_key := Some (''outcome-'' @ key),
        oa_metadata := Some [(''blocked_ip_id'', PInt block_id), (''created_new'', PBool created_new)]\<rparr>"

definition block_event ::
  "ResponseCommandRequest \<Rightarrow> string \<Rightarrow> string \<Rightarrow> time option \<Rightarrow> row_id \<Rightarrow> row_id \<Rightarrow> bool \<Rightarrow> response_decision \<Rightarrow>
   row_id \<Rightarrow> event_args" where
  "block_event q action key expires_at registry_id block_id created_new d log_id =
     (event_args0 registry_id ''block_ip_tracking'' action (if created_new then ''succeeded'' else ''idempotent_reuse'')
        (origin_of q))
       \<lparr>va_disposition_after := Some DISPOSITION_BLOCKLIST_TRACKED, va_enforcement := ''tracking_only'',
        va_actor_user_id := cr_actor_user_id q, va_reason := cr_reason q, va_alert_id := cr_alert_id q,
        va_incident_id := cr_incident_id q, va_playbook_execution_id := cr_playbook_execution_id q,
        va_playbook_step_index := cr_playbook_step_index q, va_queue_id := cr_queue_id q,
        va_approval_request_id := cr_approval_request_id q, va_blocked_ip_id := Some block_id,
        va_decision_id := Some (rd_id d), va_soar_correlation_id := Some (rd_soar_correlation_id d),
        va_response_action_log_id := Some log_id, va_idempotency_key := Some key,
        va_expires_at := expires_at, va_safe_metadata := Some [(''created_new'', PBool created_new)]\<rparr>"

definition block_result ::
  "ResponseCommandRequest \<Rightarrow> string \<Rightarrow> string \<Rightarrow> row_id \<Rightarrow> row_id \<Rightarrow> row_id \<Rightarrow> bool \<Rightarrow> response_decision \<Rightarrow> row_id \<Rightarrow>
   ResponseCommandResult" where
  "block_result q action ip registry_id event_id block_id created_new d log_id =
     (result_for True action (if created_new then ''tracking_recorded'' else ''idempotent_reuse'')
        (if created_new then ''Blocked IP tracking recorded (no firewall enforcement).''
         else ''Active blocklist tracking reused; provenance recorded.''))
       \<lparr>rs_idempotent := \<not> created_new, rs_registry_record_id := Some registry_id,
        rs_registry_event_id := Some event_id, rs_blocked_ip_id := Some block_id,
        rs_decision_id := Some (rd_id d), rs_soar_correlation_id := Some (rd_soar_correlation_id d),
        rs_response_action_log_id := Some log_id, rs_disposition := Some DISPOSITION_BLOCKLIST_TRACKED,
        rs_affected_resource_keys :=
          build_affected_resource_keys (cr_alert_id q) None (Some ip) (Some block_id) (Some registry_id)
            (cr_queue_id q) (cr_playbook_execution_id q),
        rs_compatible_fields :=
          [(''id'', PInt block_id),
           (''message'', PStr (if created_new then ''Blocked IP added successfully''
                              else ''Active block already exists for this IP'')),
           (''response_status'', PStr ''executed''), (''alert_id'', opt_val PInt (cr_alert_id q))]\<rparr>"

definition execute_block_ip ::
  "command_env \<Rightarrow> clock \<Rightarrow> ResponseCommandRequest \<Rightarrow> string \<Rightarrow> string \<Rightarrow> string \<Rightarrow>
   (command_db, ResponseCommandResult) py" where
  "execute_block_ip env clk q action ip key =
     (case block_checks env ip of
        Inl e \<Rightarrow> (case rejection_code e of
                    Some code \<Rightarrow> reject_command clk q action (Some ip) key (error_text e) code
                  | None \<Rightarrow> raise e)
      | Inr _ \<Rightarrow>
          py_bind (of_result (parse_expires_at env (cr_expires_at q))) (\<lambda>expires_at.
          py_bind (in_registry (upsert_indicator_identity clk INDICATOR_TYPE_IP ip)) (\<lambda>r.
          py_bind (get_or_create_active_blocked_ip clk ip (cr_actor_user_id q)
                     (Some (or_text (cr_reason q) ''Canonical block_ip tracking'')) (cr_alert_id q) expires_at)
            (\<lambda>(block_id, created_new).
          py_bind (record_decision env clk (block_decision q action ip created_new)) (\<lambda>d.
          py_bind (log_action clk (cr_alert_id q) (Some ip) action ''executed''
                     (Some (if created_new then ''Recorded in SIEM blocklist (tracking only)''
                            else ''Reused active SIEM blocklist tracking record''))
                     (Some (rd_id d)) (Some (rd_soar_correlation_id d))) (\<lambda>log_id.
          py_bind (in_outcomes (append_outcome_event clk (block_outcome q ip key block_id created_new d log_id))) (\<lambda>_.
          py_bind (in_registry (append_registry_event clk
                     (block_event q action key expires_at (ir_id r) block_id created_new d log_id))) (\<lambda>e.
          py_bind (mark_alert_executed action (cr_alert_id q)) (\<lambda>_.
          ret (block_result q action ip (ir_id r) (ie_id e) block_id created_new d log_id))))))))))"

text \<open>\<open>monitor\<close>: a record that is monitored already only has its expiry renewed.\<close>

definition monitor_decision :: "ResponseCommandRequest \<Rightarrow> string \<Rightarrow> string option \<Rightarrow> row_id option \<Rightarrow> string \<Rightarrow> decision_args" where
  "monitor_decision q action ip incident_id summary =
     (decision_args0 action ''manual'' summary)
       \<lparr>da_alert_id := cr_alert_id q, da_incident_id := incident_id, da_source_ip := ip,
        da_playbook_execution_id := cr_playbook_execution_id q, da_queue_id := cr_queue_id q,
        da_created_by := cr_actor_user_id q,
        da_safe_metadata := Some [(''origin_surface'', PStr (cr_origin_surface q))]\<rparr>"

definition internal_outcome ::
  "ResponseCommandRequest \<Rightarrow> string option \<Rightarrow> string \<Rightarrow> string \<Rightarrow> response_decision \<Rightarrow> row_id \<Rightarrow> outcome_args" where
  "internal_outcome q ip key summary d log_id =
     (outcome_args0 ''internal'' ''succeeded'' (actor_of q) summary)
       \<lparr>oa_decision_id := Some (rd_id d), oa_soar_correlation_id := Some (rd_soar_correlation_id d),
        oa_event_type := Some ''succeeded'', oa_alert_id := cr_alert_id q, oa_source_ip := ip,
        oa_response_action_log_id := Some log_id, oa_idempotency_key := Some (''outcome-'' @ key)\<rparr>"

definition internal_event ::
  "ResponseCommandRequest \<Rightarrow> row_id \<Rightarrow> string \<Rightarrow> string \<Rightarrow> string \<Rightarrow> string \<Rightarrow> string \<Rightarrow> row_id option \<Rightarrow> string \<Rightarrow>
   response_decision \<Rightarrow> row_id \<Rightarrow> event_args" where
  "internal_event q registry_id event_type action res disposition reason incident_id key d log_id =
     (event_args0 registry_id event_type action res (origin_of q))
       \<lparr>va_disposition_after := Some disposition, va_actor_user_id := cr_actor_user_id q,
        va_reason := Some (or_text (cr_reason q) reason), va_alert_id := cr_alert_id q,
        va_incident_id := incident_id, va_playbook_execution_id := cr_playbook_execution_id q,
        va_queue_id := cr_queue_id q, va_decision_id := Some (rd_id d),
        va_soar_correlation_id := Some (rd_soar_correlation_id d),
        va_response_action_log_id := Some log_id, va_idempotency_key := Some key\<rparr>"

definition monitor_result :: "ResponseCommandRequest \<Rightarrow> string \<Rightarrow> string \<Rightarrow> row_id \<Rightarrow> ResponseCommandResult" where
  "monitor_result q action message registry_id =
     (result_for True action ''monitored'' message)
       \<lparr>rs_registry_record_id := Some registry_id, rs_disposition := Some DISPOSITION_MONITORED,
        rs_compatible_fields := done_fields q action\<rparr>"

definition start_monitor ::
  "command_env \<Rightarrow> clock \<Rightarrow> ResponseCommandRequest \<Rightarrow> string \<Rightarrow> string \<Rightarrow> string \<Rightarrow> time \<Rightarrow>
   (command_db, ResponseCommandResult) py" where
  "start_monitor env clk q action ip key expires_at =
     py_bind (in_registry (upsert_indicator_identity clk INDICATOR_TYPE_IP ip)) (\<lambda>r.
     py_bind (record_decision env clk
                (monitor_decision q action (Some ip) (cr_incident_id q) ''Durable monitor/watch disposition recorded.''))
       (\<lambda>d.
     py_bind (log_action clk (cr_alert_id q) (Some ip) action ''executed'' (Some ''Monitoring disposition recorded'')
                (Some (rd_id d)) (Some (rd_soar_correlation_id d))) (\<lambda>log_id.
     py_bind (in_outcomes (append_outcome_event clk
                (internal_outcome q (Some ip) key ''Monitor/watch disposition is active in the response registry.''
                   d log_id))) (\<lambda>_.
     py_bind (in_registry (append_registry_event clk
                ((internal_event q (ir_id r) ''monitor_started'' action ''succeeded'' DISPOSITION_MONITORED
                    ''Monitor selected'' (cr_incident_id q) key d log_id)\<lparr>va_expires_at := Some expires_at\<rparr>))) (\<lambda>e.
     py_bind (mark_alert_executed action (cr_alert_id q)) (\<lambda>_.
     ret ((monitor_result q action ''Monitoring disposition recorded.'' (ir_id r))
            \<lparr>rs_registry_event_id := Some (ie_id e), rs_decision_id := Some (rd_id d),
             rs_soar_correlation_id := Some (rd_soar_correlation_id d),
             rs_response_action_log_id := Some log_id,
             rs_affected_resource_keys :=
               build_affected_resource_keys (cr_alert_id q) None (Some ip) None (Some (ir_id r)) None None\<rparr>)))))))"

definition execute_monitor ::
  "command_env \<Rightarrow> clock \<Rightarrow> ResponseCommandRequest \<Rightarrow> string \<Rightarrow> string \<Rightarrow> string \<Rightarrow>
   (command_db, ResponseCommandResult) py" where
  "execute_monitor env clk q action ip key =
     py_bind (of_result (parse_expires_at env (cr_expires_at q))) (\<lambda>given.
     let expires_at = coalesce given (utc_now clk + minutes (60 * DEFAULT_MONITOR_TTL_HOURS))
     in py_bind (in_registry (\<lambda>t. (get_indicator_by_value INDICATOR_TYPE_IP ip t, t))) (\<lambda>existing.
        case existing of
          Some r \<Rightarrow>
            if ir_current_disposition r = DISPOSITION_MONITORED
            then py_bind (update_record (ir_id r)
                   (\<lambda>x. x\<lparr>ir_monitor_expires_at := Some expires_at, ir_updated_at := sql_now clk\<rparr>))
                   (\<lambda>_. ret ((monitor_result q action
                           ''Monitoring is already active for this indicator; expiry renewed.'' (ir_id r))
                         \<lparr>rs_idempotent := True,
                          rs_affected_resource_keys :=
                            build_affected_resource_keys (cr_alert_id q) (cr_incident_id q) (Some ip) None
                              (Some (ir_id r)) None (cr_playbook_execution_id q)\<rparr>))
            else start_monitor env clk q action ip key expires_at
        | None \<Rightarrow> start_monitor env clk q action ip key expires_at))"

text \<open>\<open>flag_high_priority\<close>: the one command that needs no address.\<close>

definition escalation_event ::
  "clock \<Rightarrow> ResponseCommandRequest \<Rightarrow> string \<Rightarrow> row_id \<Rightarrow> string \<Rightarrow> response_decision \<Rightarrow> row_id \<Rightarrow>
   registry_record option \<Rightarrow> (command_db, row_id option) py" where
  "escalation_event clk q action incident_id key d log_id registry =
     (case registry of
        None \<Rightarrow> ret None
      | Some r \<Rightarrow>
          py_bind (in_registry (append_registry_event clk
             (internal_event q (ir_id r) ''escalated'' action ''escalated'' DISPOSITION_ESCALATED
                ''Escalation selected'' (Some incident_id) key d log_id))) (\<lambda>e. ret (Some (ie_id e))))"

definition execute_escalate ::
  "command_env \<Rightarrow> clock \<Rightarrow> ResponseCommandRequest \<Rightarrow> string \<Rightarrow> string option \<Rightarrow> string \<Rightarrow>
   (command_db, ResponseCommandResult) py" where
  "execute_escalate env clk q action source_ip key =
     py_bind (ensure_escalation_incident clk (cr_alert_id q) source_ip (cr_actor_user_id q)) (\<lambda>incident_id.
     py_bind (if coalesce source_ip [] = [] then ret None
              else py_bind (in_registry (upsert_indicator_identity clk INDICATOR_TYPE_IP (the source_ip)))
                     (\<lambda>r. ret (Some r))) (\<lambda>registry.
     py_bind (record_decision env clk
                (monitor_decision q action source_ip (Some incident_id)
                   ''Internal escalation recorded via incident handoff.'')) (\<lambda>d.
     py_bind (log_action clk (cr_alert_id q) source_ip action ''executed''
                (Some (''Escalated to incident '' @ show_int incident_id))
                (Some (rd_id d)) (Some (rd_soar_correlation_id d))) (\<lambda>log_id.
     py_bind (in_outcomes (append_outcome_event clk
                ((internal_outcome q source_ip key
                    (''Escalation created/linked incident '' @ show_int incident_id @ ''.'') d log_id)
                   \<lparr>oa_incident_id := Some incident_id,
                    oa_metadata := Some [(''incident_id'', PInt incident_id)]\<rparr>))) (\<lambda>_.
     py_bind (escalation_event clk q action incident_id key d log_id registry) (\<lambda>event_id.
     py_bind (mark_alert_executed action (cr_alert_id q)) (\<lambda>_.
     ret ((result_for True action ''escalated''
             (''Escalation recorded; incident '' @ show_int incident_id @ ''.''))
            \<lparr>rs_registry_record_id := map_option ir_id registry, rs_registry_event_id := event_id,
             rs_incident_id := Some incident_id, rs_decision_id := Some (rd_id d),
             rs_soar_correlation_id := Some (rd_soar_correlation_id d),
             rs_response_action_log_id := Some log_id,
             rs_disposition := (if id_true (map_option ir_id registry) then Some DISPOSITION_ESCALATED else None),
             rs_affected_resource_keys :=
               build_affected_resource_keys (cr_alert_id q) (Some incident_id) source_ip None
                 (map_option ir_id registry) None None,
             rs_compatible_fields := done_fields q action @ [(''incident_id'', PInt incident_id)]\<rparr>))))))))"

definition execute_stop_monitor ::
  "clock \<Rightarrow> ResponseCommandRequest \<Rightarrow> string \<Rightarrow> string \<Rightarrow> string \<Rightarrow> (command_db, ResponseCommandResult) py" where
  "execute_stop_monitor clk q action ip key =
     py_bind (in_registry (\<lambda>t. (get_indicator_by_value INDICATOR_TYPE_IP ip t, t))) (\<lambda>existing.
     py_bind (case existing of
                Some r \<Rightarrow> ret r
              | None \<Rightarrow> in_registry (upsert_indicator_identity clk INDICATOR_TYPE_IP ip)) (\<lambda>r.
     if ir_current_disposition r \<noteq> DISPOSITION_MONITORED
     then ret ((result_for True action ''removed'' ''Monitoring is already inactive for this indicator.'')
                 \<lparr>rs_idempotent := True, rs_registry_record_id := Some (ir_id r),
                  rs_disposition := Some (ir_current_disposition r),
                  rs_affected_resource_keys :=
                    build_affected_resource_keys (cr_alert_id q) (cr_incident_id q) (Some ip) None (Some (ir_id r))
                      None (cr_playbook_execution_id q)\<rparr>)
     else py_bind (in_registry (append_registry_event clk
            ((event_args0 (ir_id r) ''monitor_stopped'' action ''removed'' (origin_of q))
               \<lparr>va_disposition_after := Some DISPOSITION_REMOVED, va_actor_user_id := cr_actor_user_id q,
                va_reason := Some (or_text (cr_reason q) ''Monitoring stopped''), va_alert_id := cr_alert_id q,
                va_incident_id := cr_incident_id q, va_idempotency_key := Some key\<rparr>))) (\<lambda>e.
          py_bind (update_record (ir_id r) (\<lambda>x. x\<lparr>ir_monitor_expires_at := None, ir_updated_at := sql_now clk\<rparr>)) (\<lambda>_.
          ret ((result_for True action ''removed''
                  ''Monitoring stopped. No firewall or host enforcement changed.'')
                 \<lparr>rs_registry_record_id := Some (ir_id r), rs_registry_event_id := Some (ie_id e),
                  rs_disposition := Some DISPOSITION_REMOVED,
                  rs_affected_resource_keys :=
                    build_affected_resource_keys (cr_alert_id q) None (Some ip) None (Some (ir_id r)) None None\<rparr>)))))"

text \<open>\<open>remove_tracking\<close> deactivates the newest active block.\<close>

definition newest_active_block :: "string \<Rightarrow> command_db \<Rightarrow> blocked_ip option" where
  "newest_active_block ip s = fetchone (order_desc bi_id (filter (active_block ip) (blocked_ips s)))"

definition deactivate_block :: "row_id \<Rightarrow> (command_db, unit) py" where
  "deactivate_block i =
     changes (\<lambda>s. s\<lparr>blocked_ips := update_where (\<lambda>b. bi_id b = i \<and> bi_status b = ''active'')
                      (\<lambda>b. b\<lparr>bi_status := ''inactive''\<rparr>) (blocked_ips s)\<rparr>)"

definition removal_event :: "ResponseCommandRequest \<Rightarrow> string \<Rightarrow> string \<Rightarrow> row_id \<Rightarrow> row_id \<Rightarrow> event_args" where
  "removal_event q action key registry_id block_id =
     (event_args0 registry_id ''tracking_removed'' action ''removed'' (origin_of q))
       \<lparr>va_disposition_after := Some DISPOSITION_REMOVED, va_actor_user_id := cr_actor_user_id q,
        va_reason := Some (or_text (cr_reason q) ''Blocklist tracking removed''),
        va_alert_id := cr_alert_id q, va_blocked_ip_id := Some block_id, va_idempotency_key := Some key\<rparr>"

definition execute_remove_tracking ::
  "clock \<Rightarrow> ResponseCommandRequest \<Rightarrow> string \<Rightarrow> string \<Rightarrow> string \<Rightarrow> (command_db, ResponseCommandResult) py" where
  "execute_remove_tracking clk q action ip key =
     py_bind (\<lambda>s. if inet_ok ip then (Inr (newest_active_block ip s), s) else (Inl inet_error, s)) (\<lambda>row.
     py_bind (in_registry (upsert_indicator_identity clk INDICATOR_TYPE_IP ip)) (\<lambda>r.
     case row of
       None \<Rightarrow>
         ret ((result_for True action ''removed'' ''No active Blocklist tracking exists for this IP.'')
                \<lparr>rs_idempotent := True, rs_registry_record_id := Some (ir_id r),
                 rs_disposition := Some (ir_current_disposition r),
                 rs_affected_resource_keys :=
                   build_affected_resource_keys None None (Some ip) None (Some (ir_id r)) None None\<rparr>)
     | Some b \<Rightarrow>
         py_bind (deactivate_block (bi_id b)) (\<lambda>_.
         py_bind (in_registry (append_registry_event clk (removal_event q action key (ir_id r) (bi_id b)))) (\<lambda>e.
         py_bind (update_record (ir_id r)
                    (\<lambda>x. x\<lparr>ir_active_blocked_ip_id := None, ir_updated_at := sql_now clk\<rparr>)) (\<lambda>_.
         ret ((result_for True action ''removed''
                 (''Blocklist tracking removed. Tracking only; no firewall or host '' @ ''enforcement changed.''))
                \<lparr>rs_registry_record_id := Some (ir_id r), rs_registry_event_id := Some (ie_id e),
                 rs_blocked_ip_id := Some (bi_id b), rs_disposition := Some DISPOSITION_REMOVED,
                 rs_affected_resource_keys :=
                   build_affected_resource_keys (cr_alert_id q) None (Some ip) (Some (bi_id b)) (Some (ir_id r))
                     None None,
                 rs_compatible_fields :=
                   [(''message'', PStr (''SIEM Blocklist tracking removed. History remains; '' @
                                       ''no firewall or host enforcement changed.'')),
                    (''id'', PInt (bi_id b))]\<rparr>))))))"

definition execute_add_note ::
  "clock \<Rightarrow> ResponseCommandRequest \<Rightarrow> string \<Rightarrow> string \<Rightarrow> string \<Rightarrow> (command_db, ResponseCommandResult) py" where
  "execute_add_note clk q action ip key =
     py_bind (in_registry (upsert_indicator_identity clk INDICATOR_TYPE_IP ip)) (\<lambda>r.
     py_bind (in_registry (append_registry_event clk
                ((event_args0 (ir_id r) ''note'' action ''recorded'' (origin_of q))
                   \<lparr>va_disposition_after :=
                      Some (if ir_current_disposition r = [] then ''observed'' else ir_current_disposition r),
                    va_actor_user_id := cr_actor_user_id q, va_reason := Some (strip (coalesce (cr_reason q) [])),
                    va_alert_id := cr_alert_id q, va_incident_id := cr_incident_id q,
                    va_idempotency_key := Some key, va_update_registry := False\<rparr>))) (\<lambda>e.
     py_bind (update_record (ir_id r) (\<lambda>x. x\<lparr>ir_updated_at := sql_now clk\<rparr>)) (\<lambda>_.
     ret ((result_for True action ''recorded'' ''Note recorded in response history.'')
            \<lparr>rs_registry_record_id := Some (ir_id r), rs_registry_event_id := Some (ie_id e),
             rs_disposition := Some (ir_current_disposition r),
             rs_affected_resource_keys :=
               build_affected_resource_keys (cr_alert_id q) None (Some ip) None (Some (ir_id r)) None None\<rparr>))))"

definition error_code_of :: "py_error \<Rightarrow> string" where
  "error_code_of e = (case e of CanonicalActionValidationError _ code \<Rightarrow> code | _ \<Rightarrow> [])"

definition refused_request :: "string \<Rightarrow> string \<Rightarrow> string \<Rightarrow> ResponseCommandResult" where
  "refused_request action message code =
     (result_for False action ''rejected'' message)\<lparr>rs_error := Some message, rs_error_code := Some code\<rparr>"

text \<open>The dispatcher. Its checks, in the order of the source: the action, the address, what the
  action needs.\<close>

definition request_refusal :: "ResponseCommandRequest \<Rightarrow> command_db \<Rightarrow> (string \<times> string option, ResponseCommandResult) sum" where
  "request_refusal q s =
     (case validate_response_command_action (Some (cr_action q)) of
        Inl e \<Rightarrow> Inr (refused_request (cr_action q) (error_text e) (error_code_of e))
      | Inr action \<Rightarrow>
     (case resolve_source_ip q s of
        Inl e \<Rightarrow> Inr (refused_request action (error_text e) ''invalid_indicator'')
      | Inr ip \<Rightarrow>
          if action \<in> {''block_ip'', ''monitor'', ''stop_monitor'', ''remove_tracking'', ''add_note''} \<and>
             coalesce ip [] = []
          then Inr (refused_request action ''No actionable IP is available for this registry record.''
                      ''validation_no_target'')
          else if action = ''flag_high_priority'' \<and> cr_alert_id q = None \<and> coalesce ip [] = []
          then Inr (refused_request action ''alert_id or source_ip is required for escalation''
                      ''validation_no_target'')
          else if action = ''add_note'' \<and> strip (coalesce (cr_reason q) []) = []
          then Inr (refused_request action ''reason is required for add_note'' ''validation_missing_reason'')
          else Inl (action, ip)))"

definition command_key :: "command_env \<Rightarrow> ResponseCommandRequest \<Rightarrow> string \<Rightarrow> string option \<Rightarrow> string" where
  "command_key env q action ip =
     default_idempotency_key env
       (q\<lparr>cr_action := action,
          cr_indicator_value := (if coalesce ip [] = [] then cr_indicator_value q else ip)\<rparr>)"

definition execute_response_command ::
  "command_env \<Rightarrow> clock \<Rightarrow> ResponseCommandRequest \<Rightarrow> (command_db, ResponseCommandResult) py" where
  "execute_response_command env clk q s =
     (case request_refusal q s of
        Inr r \<Rightarrow> (Inr r, s)
      | Inl (action, ip) \<Rightarrow>
          let key = command_key env q action ip
          in (if action = ''block_ip'' then execute_block_ip env clk q action (the ip) key
              else if action = ''monitor'' then execute_monitor env clk q action (the ip) key
              else if action = ''stop_monitor'' then execute_stop_monitor clk q action (the ip) key
              else if action = ''remove_tracking'' then execute_remove_tracking clk q action (the ip) key
              else if action = ''add_note'' then execute_add_note clk q action (the ip) key
              else execute_escalate env clk q action ip key) s)"

subsection \<open>Programs that keep an invariant\<close>

definition keeps :: "('s \<Rightarrow> bool) \<Rightarrow> ('s \<Rightarrow> 's \<Rightarrow> bool) \<Rightarrow> ('s, 'a) py \<Rightarrow> bool" where
  "keeps I R m \<longleftrightarrow> (\<forall>s. I s \<longrightarrow> I (snd (m s)) \<and> R s (snd (m s)))"

text \<open>A program logic for one invariant and one relation between the states before and after.\<close>

locale program_logic =
  fixes inv :: "'s \<Rightarrow> bool" and rel :: "'s \<Rightarrow> 's \<Rightarrow> bool"
  assumes rel_refl: "rel s s"
    and rel_trans: "rel s s' \<Longrightarrow> rel s' s'' \<Longrightarrow> rel s s''"
begin

lemma keeps_bind:
  assumes "keeps inv rel m" "\<And>x. keeps inv rel (f x)"
  shows "keeps inv rel (py_bind m f)"
  unfolding keeps_def
proof (intro allI impI)
  fix s assume s: "inv s"
  obtain r s1 where m: "m s = (r, s1)" by (cases "m s")
  have s1: "inv s1" "rel s s1" using assms(1) s m by (auto simp: keeps_def dest!: spec [of _ s])
  show "inv (snd (py_bind m f s)) \<and> rel s (snd (py_bind m f s))"
  proof (cases r)
    case (Inl e)
    then show ?thesis using m s1 by simp
  next
    case (Inr x)
    have "inv (snd (f x s1))" "rel s1 (snd (f x s1))" using assms(2) [of x] s1(1) by (auto simp: keeps_def)
    then show ?thesis using m Inr s1 rel_trans by auto
  qed
qed

lemma keeps_same: "(\<And>s. snd (m s) = s) \<Longrightarrow> keeps inv rel m"
  by (simp add: keeps_def rel_refl)

lemma keeps_pure: "keeps inv rel (ret x)" "keeps inv rel (raise e)" "keeps inv rel (of_result r)" "keeps inv rel (reads f)"
  by (auto intro!: keeps_same simp: ret_def raise_def of_result_def reads_def)

lemma keeps_changes: "(\<And>s. inv s \<Longrightarrow> inv (f s) \<and> rel s (f s)) \<Longrightarrow> keeps inv rel (changes f)"
  by (simp add: keeps_def changes_def)

end

subsection \<open>The invariant\<close>

inductive block_step :: "blocked_ip \<Rightarrow> blocked_ip \<Rightarrow> bool" where
  "bi_status b = ''active'' \<Longrightarrow> block_step b (b\<lparr>bi_status := ''inactive''\<rparr>)"

text \<open>A block that is not active stays as it is.\<close>

interpretation blocklist: row_frozen bi_id block_step "\<lambda>b. bi_status b \<noteq> ''active''"
  by unfold_locales (auto elim: block_step.cases)

definition active_addresses :: "blocked_ip list \<Rightarrow> string list" where
  "active_addresses bs = map bi_ip_address (filter (\<lambda>b. bi_status b = ''active'') bs)"

definition outcomes_ok :: "outcome_db \<Rightarrow> bool" where
  "outcomes_ok s \<longleftrightarrow> outcome_inv s \<and> (\<forall>e \<in> set (soar_response_outcome_events s). \<not> oe_external_executed e)"

definition registry_ok :: "registry_db \<Rightarrow> bool" where
  "registry_ok s \<longleftrightarrow> registry_inv s \<and>
     (\<forall>e \<in> set (indicator_response_events s). ie_enforcement e \<in> {''none'', ''tracking_only''})"

text \<open>What may be on the blocklist, and what PostgreSQL prints for an \<open>inet\<close>: nothing around it.\<close>

definition allowed_block :: "command_env \<Rightarrow> string \<Rightarrow> bool" where
  "allowed_block env n \<longleftrightarrow> inet_ok n \<and> blockable n \<and> require_unprotected_target (env_protected env) (Some n) = Inr ()"

definition printed_alert :: "alert_row \<Rightarrow> bool" where
  "printed_alert a \<longleftrightarrow> strip (al_source_ip a) = al_source_ip a"

definition command_inv :: "command_env \<Rightarrow> command_db \<Rightarrow> bool" where
  "command_inv env s \<longleftrightarrow>
     outcomes_ok (cmd_outcomes s) \<and> registry_ok (cmd_registry s) \<and>
     wf_ids bi_id (blocked_seq s) (blocked_ips s) \<and> distinct (active_addresses (blocked_ips s)) \<and>
     (\<forall>b \<in> set (blocked_ips s). allowed_block env (bi_ip_address b)) \<and>
     wf_ids lg_id (action_log_seq s) (response_actions_log s) \<and>
     wf_ids in_id (incident_seq s) (incidents s) \<and> (\<forall>a \<in> set (alerts s). printed_alert a)"

definition command_grows :: "command_db \<Rightarrow> command_db \<Rightarrow> bool" where
  "command_grows s s' \<longleftrightarrow>
     outcome_grows (cmd_outcomes s) (cmd_outcomes s') \<and> registry_grows (cmd_registry s) (cmd_registry s') \<and>
     evolves bi_id block_step (blocked_ips s) (blocked_ips s') \<and>
     prefix (response_actions_log s) (response_actions_log s') \<and> prefix (incidents s) (incidents s') \<and>
     map (\<lambda>a. (al_id a, al_source_ip a)) (alerts s') = map (\<lambda>a. (al_id a, al_source_ip a)) (alerts s)"

lemma command_grows_refl [simp]: "command_grows s s"
  by (simp add: command_grows_def blocklist.evolves_refl)

lemma command_grows_trans: "command_grows s s' \<Longrightarrow> command_grows s' s'' \<Longrightarrow> command_grows s s''"
  unfolding command_grows_def
  by (elim conjE, intro conjI)
    ((rule outcome_grows_trans registry_grows_trans blocklist.evolves_trans prefix_order.trans; assumption) | simp)+

interpretation outcome_programs: program_logic outcomes_ok outcome_grows
  by unfold_locales (auto intro: outcome_grows_trans)

interpretation registry_programs: program_logic registry_ok registry_grows
  by unfold_locales (auto intro: registry_grows_trans)

interpretation commands: program_logic "command_inv env" command_grows for env
  by unfold_locales (auto intro: command_grows_trans)

lemmas command_rules = commands.keeps_bind commands.keeps_pure

text \<open>What runs on one part of the state.\<close>

lemma keeps_in_registry: "keeps registry_ok registry_grows m \<Longrightarrow> keeps (command_inv env) command_grows (in_registry m)"
  by (auto simp: keeps_def in_registry_def command_inv_def command_grows_def blocklist.evolves_refl split: prod.splits)

lemma keeps_in_outcomes: "keeps outcomes_ok outcome_grows m \<Longrightarrow> keeps (command_inv env) command_grows (in_outcomes m)"
  by (auto simp: keeps_def in_outcomes_def command_inv_def command_grows_def blocklist.evolves_refl split: prod.splits)

text \<open>The registry's operations.\<close>

lemma keeps_upsert: "keeps registry_ok registry_grows (upsert_indicator_identity clk ty v)"
  unfolding keeps_def
proof (intro allI impI)
  fix s assume "registry_ok s"
  moreover have "indicator_response_events (snd (upsert_indicator_identity clk ty v s)) = indicator_response_events s"
    by (cases rule: upsert_cases [of clk ty v s]) auto
  ultimately show "registry_ok (snd (upsert_indicator_identity clk ty v s)) \<and>
      registry_grows s (snd (upsert_indicator_identity clk ty v s))"
    using upsert_safe [of s clk ty v] by (simp add: registry_ok_def)
qed

lemma keeps_append_registry:
  assumes "va_enforcement a \<in> {''none'', ''tracking_only''}"
  shows "keeps registry_ok registry_grows (append_registry_event clk a)"
  unfolding keeps_def
proof (intro allI impI)
  fix s assume ok: "registry_ok s"
  have "set (indicator_response_events (snd (append_registry_event clk a s))) \<subseteq>
      set (indicator_response_events s) \<union> {x. ie_enforcement x = va_enforcement a}"
    by (cases rule: append_registry_cases [of clk a s]) (auto simp: new_registry_event_def)
  with ok show "registry_ok (snd (append_registry_event clk a s)) \<and> registry_grows s (snd (append_registry_event clk a s))"
    using assms append_registry_safe [of s clk a] by (auto simp: registry_ok_def)
qed

lemma keeps_lookup: "keeps registry_ok registry_grows (\<lambda>t. (f t, t))"
  by (rule registry_programs.keeps_same) simp

lemma keeps_update_record:
  assumes "\<And>r. registry_identity (f r) = registry_identity r" "\<And>r. ir_current_disposition (f r) = ir_current_disposition r"
  shows "keeps (command_inv env) command_grows (update_record i f)"
  unfolding update_record_def
  by (rule keeps_in_registry, rule registry_programs.keeps_changes)
    (auto simp: registry_ok_def assms registry_update_safe)

text \<open>The outcomes' operations.\<close>

lemma create_decision_Inr:
  assumes "create_response_decision uuid clk a s = (Inr d, s')"
  obtains n where "s' = s\<lparr>uuids_drawn := n, decision_seq := decision_seq s + 1,
      soar_response_decisions := soar_response_decisions s @ [d]\<rparr>"
    "rd_id d = decision_seq s" "rd_source_ip d = da_source_ip a" "rd_selected_action d = strip (da_selected_action a)"
    "rd_queue_id d = da_queue_id a" "rd_alert_id d = da_alert_id a"
proof -
  have "\<exists>s1 c p so re. resolve_correlation uuid (da_soar_correlation_id a) (da_alert_id a) s = (Inr c, s1) \<and>
      insert_decision (new_decision clk a (decision_seq s1) c p so re) s1 = (Inr d, s')"
    using assms by (auto simp: create_response_decision_def split: if_splits sum.splits prod.splits)
  then obtain s1 c p so re where r: "resolve_correlation uuid (da_soar_correlation_id a) (da_alert_id a) s = (Inr c, s1)"
      and i: "insert_decision (new_decision clk a (decision_seq s1) c p so re) s1 = (Inr d, s')" by blast
  obtain n where "s1 = s\<lparr>uuids_drawn := n\<rparr>" using resolve_correlation_ok(2) [OF r] by blast
  then show thesis using i that [of n]
    by (auto simp: insert_decision_def Let_def new_decision_def split: if_splits)
qed

lemma keeps_append_outcome:
  assumes "\<not> oa_external_executed a"
  shows "keeps outcomes_ok outcome_grows (append_outcome_event clk a)"
  unfolding keeps_def
proof (intro allI impI)
  fix s assume ok: "outcomes_ok s"
  have "set (soar_response_outcome_events (snd (append_outcome_event clk a s))) \<subseteq>
      set (soar_response_outcome_events s) \<union> {x. \<not> oe_external_executed x}"
    by (cases rule: append_outcome_cases [of clk a s]) (auto simp: new_outcome_event_def assms split: prod.splits)
  with ok show "outcomes_ok (snd (append_outcome_event clk a s)) \<and> outcome_grows s (snd (append_outcome_event clk a s))"
    using append_outcome_safe [of s clk a] by (auto simp: outcomes_ok_def)
qed

lemma outcome_seq_drawn:
  assumes "outcomes_ok s" "decision_seq s \<le> i"
  shows "outcomes_ok (s\<lparr>decision_seq := i, uuids_drawn := n\<rparr>)" "outcome_grows s (s\<lparr>decision_seq := i, uuids_drawn := n\<rparr>)"
  using assms by (force simp: outcomes_ok_def outcome_inv_def outcome_grows_def wf_ids_def)+

lemma create_decision_events:
  "soar_response_outcome_events (snd (create_response_decision uuid clk a s)) = soar_response_outcome_events s"
proof -
  have "soar_response_outcome_events (snd (insert_decision d s1)) = soar_response_outcome_events s1" for d s1
    by (simp add: insert_decision_def Let_def)
  moreover have "soar_response_outcome_events s1 = soar_response_outcome_events s"
    if "resolve_correlation uuid c i s = (r, s1)" for c i r s1
    using resolve_correlation_state [of uuid c i s] that by auto
  ultimately show ?thesis
    by (auto simp: create_response_decision_def split: sum.splits prod.splits)
qed

lemma keeps_record_decision: "keeps (command_inv env) command_grows (record_decision env' clk a)"
  unfolding record_decision_def
proof (rule keeps_in_outcomes, unfold keeps_def, intro allI impI)
  fix s assume ok: "outcomes_ok s"
  obtain r s' where run: "create_response_decision (env_uuid env') clk a s = (r, s')" by fastforce
  have s': "outcomes_ok s'" "outcome_grows s s'"
    using create_decision_safe [of s "env_uuid env'" clk a] create_decision_events [of "env_uuid env'" clk a s] ok run
    by (auto simp: outcomes_ok_def)
  have bumped: "decision_seq s \<le> decision_seq s'" if "r = Inr d" for d
    by (rule create_decision_Inr [OF run [unfolded that]]) simp
  let ?m = "case create_response_decision (env_uuid env') clk a s of (Inl e, s') \<Rightarrow> (Inl e, s')
     | (Inr d, s') \<Rightarrow> if inet_ok (coalesce (da_source_ip a) []) then (Inr d, s')
                    else (Inl inet_error, s\<lparr>decision_seq := decision_seq s', uuids_drawn := uuids_drawn s'\<rparr>)"
  show "outcomes_ok (snd ?m) \<and> outcome_grows s (snd ?m)"
  proof (cases r)
    case (Inl e)
    then show ?thesis using run s' by simp
  next
    case (Inr d)
    then show ?thesis using run s' outcome_seq_drawn [OF ok bumped [OF Inr]] by simp
  qed
qed

text \<open>The tables of the commands themselves.\<close>

lemma new_block_inv:
  assumes inv: "command_inv env s" and ok: "allowed_block env n" and free: "\<forall>b \<in> set (blocked_ips s). \<not> active_block n b"
    and s': "s' = s\<lparr>blocked_seq := blocked_seq s + 1, blocked_ips := blocked_ips s @ [new_block clk (blocked_seq s) n c r a e]\<rparr>"
  shows "command_inv env s' \<and> command_grows s s'"
proof -
  let ?b = "new_block clk (blocked_seq s) n c r a e"
  have "wf_ids bi_id (blocked_seq s + 1) (blocked_ips s @ [?b])"
    by (rule wf_ids_insert) (use inv in \<open>simp_all add: command_inv_def new_block_def\<close>)
  moreover have "distinct (active_addresses (blocked_ips s @ [?b]))"
    using inv free by (auto simp: command_inv_def active_addresses_def new_block_def active_block_def)
  ultimately show ?thesis using inv ok
    by (auto simp: s' command_inv_def command_grows_def new_block_def blocklist.evolves_insert)
qed

text \<open>The normal form of an address without a scope has no spaces, and is its own normal form.\<close>

lemma strip_id: "\<forall>c \<in> set s. \<not> is_space c \<Longrightarrow> strip s = s"
proof -
  assume "\<forall>c \<in> set s. \<not> is_space c"
  then have "dropWhile is_space xs = xs" if "set xs \<subseteq> set s" for xs using that by (cases xs) auto
  then show ?thesis by (simp add: strip_def)
qed

lemma str_ip_chars:
  assumes "inet_ok (str_ip a)"
  shows "\<forall>c \<in> set (str_ip a). \<not> is_space c"
proof -
  have hex: "\<forall>c \<in> set ''0123456789abcdef:''. \<not> is_space c" and dec: "\<forall>c \<in> set ''0123456789.''. \<not> is_space c"
    by (simp_all add: is_space_def)
  have v6: "\<not> is_space c" if "c \<in> set (str_ipv6 w)" for c w
    using str_ipv6_chars [OF that] hex by (auto simp: hex_lower_def)
  have v4: "\<not> is_space c" if "c \<in> set (str_ipv4 w)" for c w
    using ipv4_chars [OF ipv4_from_str that] by (auto simp: digit_char_def is_space_def)
  show ?thesis
  proof (cases a)
    case (IPv4 w)
    then show ?thesis using v4 by simp
  next
    case (IPv6 w z)
    then show ?thesis using v6 assms by (cases z) (auto simp: inet_ok_def)
  qed
qed

lemma ip_address_plain:
  assumes "ip_address s = Inr a" "inet_ok (str_ip a)"
  shows "ip_address (strip (str_ip a)) = Inr a" "str_ip a \<noteq> []"
proof -
  show "ip_address (strip (str_ip a)) = Inr a"
    using strip_id [OF str_ip_chars [OF assms(2)]] ip_text_roundtrip [OF assms(1)] by simp
  moreover have "isl (ip_address [])" by code_simp
  ultimately show "str_ip a \<noteq> []" using strip_id [OF str_ip_chars [OF assms(2)]] by auto
qed

lemma validate_again:
  assumes "validate_blocked_ip ip = Inr n" "inet_ok n"
  shows "validate_blocked_ip (Some n) = Inr n"
proof -
  obtain s a where a: "ip_address s = Inr a" "n = str_ip a" "\<not> non_public a"
    using assms(1) by (auto simp: validate_blocked_ip_def split: option.splits if_splits sum.splits)
  with ip_address_plain [OF a(1)] assms(2) have "ip_address (strip n) = Inr a" "n \<noteq> []" by simp_all
  moreover have "isl (ip_address [])" by code_simp
  ultimately have "strip n \<noteq> []" by auto
  then show ?thesis using a \<open>ip_address (strip n) = Inr a\<close> by (simp add: validate_blocked_ip_def)
qed

lemma get_or_create_cases:
  obtains (failed) e where "get_or_create_active_blocked_ip clk ip c r a e' s = (Inl e, s)"
  | (reused) n b where "validate_blocked_ip (Some ip) = Inr n" "inet_ok n" "b \<in> set (blocked_ips s)"
      "block_in_force (sql_now clk) n b" "get_or_create_active_blocked_ip clk ip c r a e' s = (Inr (bi_id b, False), s)"
  | (created) n where "validate_blocked_ip (Some ip) = Inr n" "inet_ok n" "\<forall>b \<in> set (blocked_ips s). \<not> active_block n b"
      "\<forall>i. a = Some i \<longrightarrow> get_alert i s \<noteq> None"
      "get_or_create_active_blocked_ip clk ip c r a e' s = (Inr (blocked_seq s, True),
         s\<lparr>blocked_seq := blocked_seq s + 1,
           blocked_ips := blocked_ips s @ [new_block clk (blocked_seq s) n c r a e']\<rparr>)"
proof (cases "validate_blocked_ip (Some ip)")
  case (Inl e)
  then show ?thesis using failed by (simp add: get_or_create_active_blocked_ip_def)
next
  case (Inr n)
  note v = Inr
  show ?thesis
  proof (cases "inet_ok n")
    case False
    then show ?thesis using failed v by (simp add: get_or_create_active_blocked_ip_def)
  next
    case True
    note again = validate_again [OF v True]
    show ?thesis
    proof (cases "fetchone (order_asc bi_id (filter (block_in_force (sql_now clk) n) (blocked_ips s)))")
      case (Some b)
      then have "b \<in> set (blocked_ips s)" "block_in_force (sql_now clk) n b" using fetchone_order_asc(1) by fastforce+
      then show ?thesis using reused [OF v True] v True Some by (simp add: get_or_create_active_blocked_ip_def)
    next
      case None
      define bad where "bad \<longleftrightarrow> (case a of None \<Rightarrow> False | Some i \<Rightarrow> get_alert i s = None)"
      define taken where "taken \<longleftrightarrow> (\<exists>b \<in> set (blocked_ips s). active_block n b)"
      have run: "create_blocked_ip_record clk (Some n) c r a e' s =
          (if bad then (Inl (ValueError ''Source alert not found''), s)
           else if taken then (Inl (ValueError ''An active block already exists for this IP''), s)
           else (Inr (blocked_seq s), s\<lparr>blocked_seq := blocked_seq s + 1,
             blocked_ips := blocked_ips s @ [new_block clk (blocked_seq s) n c r a e']\<rparr>))"
        unfolding create_blocked_ip_record_def again sum.case bad_def taken_def using True by simp
      show ?thesis
      proof (cases "bad \<or> taken")
        case True
        then have "\<exists>e. create_blocked_ip_record clk (Some n) c r a e' s = (Inl e, s)" using run by (cases bad) simp_all
        then show ?thesis using failed v None \<open>inet_ok n\<close> by (auto simp: get_or_create_active_blocked_ip_def)
      next
        case False
        then show ?thesis using created [OF v True] run v None True
          by (auto simp: get_or_create_active_blocked_ip_def bad_def taken_def split: option.splits)
      qed
    qed
  qed
qed

text \<open>The address of a command is the normal form of what the request names, or what the alert has.\<close>

definition plain_ip :: "string \<Rightarrow> bool" where
  "plain_ip ip \<longleftrightarrow> strip ip = ip \<or> CHR ''%'' \<in> set (strip ip)"

lemma set_strip: "c \<in> set s \<Longrightarrow> \<not> is_space c \<Longrightarrow> c \<in> set (strip s)"
proof -
  have "c \<in> set xs \<Longrightarrow> \<not> is_space c \<Longrightarrow> c \<in> set (dropWhile is_space xs)" for xs by (induction xs) auto
  then show "c \<in> set s \<Longrightarrow> \<not> is_space c \<Longrightarrow> c \<in> set (strip s)" by (simp add: strip_def)
qed

lemma plain_str_ip: "plain_ip (str_ip a)"
proof (cases "inet_ok (str_ip a)")
  case True
  then show ?thesis using strip_id [OF str_ip_chars] by (simp add: plain_ip_def)
next
  case False
  then have "CHR ''%'' \<in> set (strip (str_ip a))"
    by (intro set_strip) (auto simp: inet_ok_def is_space_def)
  then show ?thesis by (simp add: plain_ip_def)
qed

lemma scope_printed:
  assumes "ip_address s = Inr a" "CHR ''%'' \<in> set s"
  shows "\<not> inet_ok (str_ip a)"
proof -
  have "ipv4_from_string s = None" using ipv4_chars [OF _ assms(2)] by (cases "ipv4_from_string s") (auto simp: digit_char_def)
  moreover have "snd (partition_on CHR ''%'' s) \<noteq> None"
    using assms(2) by (induction s) (auto split: prod.splits)
  ultimately obtain w z where "a = IPv6 w (Some z)"
    using assms(1) by (auto simp: ip_address_Inr ip_address_of_def split: if_splits prod.splits option.splits)
  then show ?thesis by (simp add: inet_ok_def)
qed

lemma allowed_block_normal:
  assumes "require_unprotected_target (env_protected env) (Some ip) = Inr ()" "validate_blocked_ip (Some ip) = Inr n"
    and "inet_ok n" "plain_ip ip"
  shows "allowed_block env n"
proof -
  obtain a where a: "ip_address (strip ip) = Inr a" "n = str_ip a"
    using assms(2) by (auto simp: validate_blocked_ip_def split: if_splits sum.splits)
  have "CHR ''%'' \<notin> set (strip ip)" using scope_printed [OF a(1)] a(2) assms(3) by auto
  then have "ip_address ip = Inr a" using a(1) assms(4) by (simp add: plain_ip_def)
  moreover have "ip_address n = Inr a" using ip_text_roundtrip [OF a(1)] a(2) by simp
  ultimately have "require_unprotected_target (env_protected env) (Some n) = Inr ()"
    using assms(1) by (auto simp: require_unprotected_target_def is_protected_target_def split: sum.splits bool.splits)
  then show ?thesis using validate_blocked_ip_blockable [OF assms(2)] assms(3) by (simp add: allowed_block_def)
qed

lemma keeps_get_or_create:
  assumes "require_unprotected_target (env_protected env) (Some ip) = Inr ()" "plain_ip ip"
  shows "keeps (command_inv env) command_grows (get_or_create_active_blocked_ip clk ip c r a e)"
  unfolding keeps_def
proof (intro allI impI)
  fix s assume inv: "command_inv env s"
  show "command_inv env (snd (get_or_create_active_blocked_ip clk ip c r a e s)) \<and>
      command_grows s (snd (get_or_create_active_blocked_ip clk ip c r a e s))"
  proof (cases rule: get_or_create_cases [of clk ip c r a e s])
    case (created n)
    have "allowed_block env n" using allowed_block_normal [OF assms(1) created(1,2) assms(2)] .
    from new_block_inv [OF inv this created(3) refl] show ?thesis by (simp add: created(5))
  qed (use inv in simp_all)
qed

text \<open>The other statements.\<close>

lemma keeps_log_action: "keeps (command_inv env) command_grows (log_action clk al ip act st det d c)"
  unfolding keeps_def
proof (intro allI impI)
  fix s assume inv: "command_inv env s"
  have "wf_ids lg_id (action_log_seq s + 1) (response_actions_log s @ [l])" if "lg_id l = action_log_seq s" for l
    using inv that by (intro wf_ids_insert) (auto simp: command_inv_def)
  then show "command_inv env (snd (log_action clk al ip act st det d c s)) \<and>
      command_grows s (snd (log_action clk al ip act st det d c s))"
    using inv by (simp add: log_action_def Let_def command_inv_def command_grows_def blocklist.evolves_refl)
qed

lemma link_incident_same: "command_inv env (link_incident clk i al s) = command_inv env s"
    "command_grows s' (link_incident clk i al s) = command_grows s' s"
  by (auto simp: link_incident_def command_inv_def command_grows_def split: option.splits)

lemma keeps_ensure_incident: "keeps (command_inv env) command_grows (ensure_escalation_incident clk al ip actor)"
  unfolding keeps_def
proof (intro allI impI)
  fix s assume inv: "command_inv env s"
  have "wf_ids in_id (incident_seq s + 1) (incidents s @ [i])" if "in_id i = incident_seq s" for i
    using inv that by (intro wf_ids_insert) (auto simp: command_inv_def)
  then have "command_inv env (s\<lparr>incident_seq := incident_seq s + 1,
        incidents := incidents s @ [new_incident clk (incident_seq s) al ip actor]\<rparr>) \<and>
      command_grows s (s\<lparr>incident_seq := incident_seq s + 1,
        incidents := incidents s @ [new_incident clk (incident_seq s) al ip actor]\<rparr>)"
    using inv by (simp add: new_incident_def command_inv_def command_grows_def blocklist.evolves_refl)
  then show "command_inv env (snd (ensure_escalation_incident clk al ip actor s)) \<and>
      command_grows s (snd (ensure_escalation_incident clk al ip actor s))"
    using inv by (simp add: ensure_escalation_incident_def Let_def link_incident_same split: option.splits)
qed

lemma keeps_mark_alert: "keeps (command_inv env) command_grows (mark_alert_executed act al)"
  unfolding mark_alert_executed_def
  by (rule commands.keeps_changes)
    (auto simp: command_inv_def command_grows_def blocklist.evolves_refl map_update_where set_update_where
      printed_alert_def split: option.splits)

lemma active_deactivated:
  "active_addresses (update_where (\<lambda>b. bi_id b = i \<and> bi_status b = ''active'') (\<lambda>b. b\<lparr>bi_status := ''inactive''\<rparr>) bs) =
   map bi_ip_address (filter (\<lambda>b. bi_status b = ''active'' \<and> bi_id b \<noteq> i) bs)"
  by (induction bs) (auto simp: active_addresses_def)

lemma keeps_deactivate: "keeps (command_inv env) command_grows (deactivate_block i)"
  unfolding deactivate_block_def
proof (rule commands.keeps_changes)
  fix s assume inv: "command_inv env s"
  let ?p = "\<lambda>b. bi_id b = i \<and> bi_status b = ''active''" and ?f = "\<lambda>b. b\<lparr>bi_status := ''inactive''\<rparr>"
  have "wf_ids bi_id (blocked_seq s) (update_where ?p ?f (blocked_ips s))"
    by (rule wf_ids_update) (use inv in \<open>auto simp: command_inv_def\<close>)
  moreover have "distinct (active_addresses (update_where ?p ?f (blocked_ips s)))"
  proof -
    have "map bi_ip_address (filter (\<lambda>b. bi_status b = ''active'' \<and> bi_id b \<noteq> i) (blocked_ips s)) =
        map bi_ip_address (filter (\<lambda>b. bi_id b \<noteq> i) (filter (\<lambda>b. bi_status b = ''active'') (blocked_ips s)))"
      by (simp add: conj_commute)
    then show ?thesis using inv
      unfolding active_deactivated by (simp only: command_inv_def active_addresses_def distinct_map_filter)
  qed
  moreover have "evolves bi_id block_step (blocked_ips s) (update_where ?p ?f (blocked_ips s))"
    by (rule blocklist.evolves_update) (auto intro: block_step.intros)
  ultimately show "command_inv env (s\<lparr>blocked_ips := update_where ?p ?f (blocked_ips s)\<rparr>) \<and>
      command_grows s (s\<lparr>blocked_ips := update_where ?p ?f (blocked_ips s)\<rparr>)"
    using inv by (auto simp: command_inv_def command_grows_def set_update_where)
qed

subsection \<open>Every command keeps the invariant\<close>

lemmas statement_rules = keeps_in_registry keeps_in_outcomes keeps_upsert keeps_lookup keeps_record_decision
  keeps_log_action keeps_ensure_incident keeps_mark_alert keeps_deactivate keeps_append_registry
  keeps_append_outcome keeps_update_record

lemma keeps_if: "(c \<Longrightarrow> keeps I R m) \<Longrightarrow> (\<not> c \<Longrightarrow> keeps I R m') \<Longrightarrow> keeps I R (if c then m else m')"
  by simp

lemma keeps_case_option:
  "keeps I R m \<Longrightarrow> (\<And>x. keeps I R (f x)) \<Longrightarrow> keeps I R (case v of None \<Rightarrow> m | Some x \<Rightarrow> f x)"
  by (simp split: option.split)

lemma keeps_case_prod: "(\<And>x y. keeps I R (f x y)) \<Longrightarrow> keeps I R (case v of (x, y) \<Rightarrow> f x y)"
  by (simp split: prod.split)

lemma keeps_inet: "keeps (command_inv env) command_grows (\<lambda>s. if c then (Inr (f s), s) else (Inl e, s))"
  by (rule commands.keeps_same) simp

lemmas program_rules = command_rules statement_rules keeps_if keeps_case_option keeps_case_prod keeps_inet

lemma keeps_reject: "keeps (command_inv env) command_grows (reject_command clk q act ip key msg code)"
proof -
  have prog: "keeps (command_inv env) command_grows
      (py_bind (in_registry (upsert_indicator_identity clk INDICATOR_TYPE_IP (the ip)))
         (\<lambda>r. py_bind (in_registry (append_registry_event clk
            ((event_args0 (ir_id r) ''rejected'' act ''rejected'' (origin_of q))
               \<lparr>va_disposition_after := Some DISPOSITION_REJECTED,
                va_actor_user_id := cr_actor_user_id q, va_reason := Some msg,
                va_alert_id := cr_alert_id q, va_idempotency_key := Some (''reject-'' @ key),
                va_safe_metadata := Some [(''error_code'', PStr code)]\<rparr>)))
         (\<lambda>e. ret (ir_id r, ie_id e))))"
    by (intro program_rules) (simp add: event_args0_def)
  show ?thesis
    unfolding keeps_def
  proof (intro allI impI)
    fix s assume inv: "command_inv env s"
    let ?P = "py_bind (in_registry (upsert_indicator_identity clk INDICATOR_TYPE_IP (the ip)))
         (\<lambda>r. py_bind (in_registry (append_registry_event clk
            ((event_args0 (ir_id r) ''rejected'' act ''rejected'' (origin_of q))
               \<lparr>va_disposition_after := Some DISPOSITION_REJECTED,
                va_actor_user_id := cr_actor_user_id q, va_reason := Some msg,
                va_alert_id := cr_alert_id q, va_idempotency_key := Some (''reject-'' @ key),
                va_safe_metadata := Some [(''error_code'', PStr code)]\<rparr>)))
         (\<lambda>e. ret (ir_id r, ie_id e)))"
    have "snd (reject_command clk q act ip key msg code s) \<in> {s, snd (?P s)}"
      unfolding reject_command_def Let_def by (auto simp del: py_bind.simps split: sum.splits prod.splits)
    then show "command_inv env (snd (reject_command clk q act ip key msg code s)) \<and>
        command_grows s (snd (reject_command clk q act ip key msg code s))"
      using prog inv unfolding keeps_def by fastforce
  qed
qed

lemma keeps_block:
  assumes plain: "plain_ip ip"
  shows "keeps (command_inv env) command_grows (execute_block_ip env clk q act ip key)"
proof (cases "block_checks env ip")
  case (Inl e)
  then show ?thesis unfolding execute_block_ip_def
    by (simp add: keeps_reject commands.keeps_pure split: option.split)
next
  case (Inr u)
  then have "require_unprotected_target (env_protected env) (Some ip) = Inr ()"
    by (auto simp: block_checks_def split: sum.splits)
  then show ?thesis unfolding execute_block_ip_def Inr sum.case
    by (intro program_rules keeps_get_or_create plain)
      (simp_all add: block_outcome_def outcome_args0_def block_event_def event_args0_def)
qed

lemma keeps_start_monitor: "keeps (command_inv env) command_grows (start_monitor env' clk q act ip key t)"
  unfolding start_monitor_def
  by (intro program_rules) (simp_all add: internal_outcome_def outcome_args0_def internal_event_def event_args0_def)

lemma keeps_monitor: "keeps (command_inv env) command_grows (execute_monitor env' clk q act ip key)"
  unfolding execute_monitor_def Let_def
  by (intro program_rules keeps_start_monitor) (simp_all add: registry_identity_def)

lemma keeps_escalate: "keeps (command_inv env) command_grows (execute_escalate env' clk q act ip key)"
  unfolding execute_escalate_def escalation_event_def
  by (intro program_rules) (simp_all add: internal_outcome_def outcome_args0_def internal_event_def event_args0_def)

lemma keeps_stop: "keeps (command_inv env) command_grows (execute_stop_monitor clk q act ip key)"
  unfolding execute_stop_monitor_def
  by (intro program_rules) (simp_all add: event_args0_def registry_identity_def)

lemma keeps_remove: "keeps (command_inv env) command_grows (execute_remove_tracking clk q act ip key)"
  unfolding execute_remove_tracking_def
  by (intro program_rules) (simp_all add: removal_event_def event_args0_def registry_identity_def)

lemma keeps_note: "keeps (command_inv env) command_grows (execute_add_note clk q act ip key)"
  unfolding execute_add_note_def
  by (intro program_rules) (simp_all add: event_args0_def registry_identity_def)

lemma command_action_needs_ip:
  "validate_response_command_action a = Inr n \<Longrightarrow> n \<noteq> ''flag_high_priority'' \<Longrightarrow>
   n \<in> {''block_ip'', ''monitor'', ''stop_monitor'', ''remove_tracking'', ''add_note''}"
  using validator_spec(2) [of a n] by (auto simp: RESPONSE_COMMAND_ACTIONS_def)

lemma three_guards:
  "(if a then Inr x else if b then Inr y else if c then Inr z else Inl w) = Inl v \<Longrightarrow> \<not> a \<and> \<not> b \<and> \<not> c \<and> w = v"
  by (simp split: if_splits)

lemma request_accepted:
  assumes "request_refusal q s = Inl (act, ip)"
  shows "validate_response_command_action (Some (cr_action q)) = Inr act" "resolve_source_ip q s = Inr ip"
    and "act \<noteq> ''flag_high_priority'' \<Longrightarrow> coalesce ip [] \<noteq> []"
    and "act = ''flag_high_priority'' \<Longrightarrow> cr_alert_id q \<noteq> None \<or> coalesce ip [] \<noteq> []"
    and "act = ''add_note'' \<Longrightarrow> strip (coalesce (cr_reason q) []) \<noteq> []"
proof -
  obtain a' where a: "validate_response_command_action (Some (cr_action q)) = Inr a'"
    using assms by (cases "validate_response_command_action (Some (cr_action q))") (simp_all add: request_refusal_def)
  obtain ip' where i: "resolve_source_ip q s = Inr ip'"
    using assms a by (cases "resolve_source_ip q s") (simp_all add: request_refusal_def)
  note g = three_guards [OF assms [unfolded request_refusal_def a i sum.case]]
  have e: "a' = act" "ip' = ip" using g [THEN conjunct2, THEN conjunct2, THEN conjunct2] by simp_all
  note g1 = g [THEN conjunct1, unfolded e] and g2 = g [THEN conjunct2, THEN conjunct1, unfolded e]
    and g3 = g [THEN conjunct2, THEN conjunct2, THEN conjunct1, unfolded e]
  show "validate_response_command_action (Some (cr_action q)) = Inr act" "resolve_source_ip q s = Inr ip"
    using a i unfolding e .
  show "coalesce ip [] \<noteq> []" if "act \<noteq> ''flag_high_priority''"
    using g1 command_action_needs_ip [OF a [unfolded e] that] by (rule contrapos_nn [OF _ conjI])
  show "act = ''flag_high_priority'' \<Longrightarrow> cr_alert_id q \<noteq> None \<or> coalesce ip [] \<noteq> []"
    using g2 by (rule contrapos_np) simp
  show "act = ''add_note'' \<Longrightarrow> strip (coalesce (cr_reason q) []) \<noteq> []"
    using g3 by (rule contrapos_nn) simp
qed

lemma resolved_plain:
  assumes "command_inv env s" "request_refusal q s = Inl (act, ip)" "act \<noteq> ''flag_high_priority''"
  shows "plain_ip (the ip)"
proof -
  note ip = request_accepted(2) [OF assms(2)]
  have "coalesce ip [] \<noteq> []" using request_accepted(3) [OF assms(2,3)] .
  then obtain x where x: "ip = Some x" by (cases ip) auto
  show ?thesis
  proof (cases "coalesce (cr_indicator_value q) [] \<noteq> []")
    case True
    then show ?thesis using ip x plain_str_ip by (auto simp: resolve_source_ip_def split: sum.splits)
  next
    case False
    then obtain i al where "get_alert i s = Some al" "x = al_source_ip al"
      using ip x by (auto simp: resolve_source_ip_def split: option.splits)
    moreover then have "printed_alert al"
      using assms(1) select_id_Some unfolding command_inv_def get_alert_def by metis
    ultimately show ?thesis using x by (simp add: plain_ip_def printed_alert_def)
  qed
qed

lemma keeps_command: "keeps (command_inv env) command_grows (execute_response_command env clk q)"
  unfolding keeps_def
proof (intro allI impI)
  fix s assume inv: "command_inv env s"
  show "command_inv env (snd (execute_response_command env clk q s)) \<and>
      command_grows s (snd (execute_response_command env clk q s))"
  proof (cases "request_refusal q s")
    case (Inr r)
    then show ?thesis using inv by (simp add: execute_response_command_def)
  next
    case (Inl ai)
    obtain act ip where ai: "ai = (act, ip)" by (cases ai)
    have plain: "plain_ip (the ip)" if "act = ''block_ip''" using resolved_plain [OF inv Inl [unfolded ai]] that by simp
    have "keeps (command_inv env) command_grows
       (if act = ''block_ip'' then execute_block_ip env clk q act (the ip) key
        else if act = ''monitor'' then execute_monitor env clk q act (the ip) key
        else if act = ''stop_monitor'' then execute_stop_monitor clk q act (the ip) key
        else if act = ''remove_tracking'' then execute_remove_tracking clk q act (the ip) key
        else if act = ''add_note'' then execute_add_note clk q act (the ip) key
        else execute_escalate env clk q act ip key)" for key
      by (intro keeps_if keeps_block plain keeps_monitor keeps_stop keeps_remove keeps_note keeps_escalate)
    then show ?thesis using inv by (simp add: execute_response_command_def Inl ai Let_def keeps_def)
  qed
qed

text \<open>Commands, and the expiry of monitored records, from tables that hold alerts only.\<close>

inductive command_op :: "command_env \<Rightarrow> command_db \<Rightarrow> command_db \<Rightarrow> bool" for env where
  "command_op env s (snd (execute_response_command env clk q s))"
| "command_op env s (s\<lparr>cmd_registry := snd (apply_monitor_expiry clk now (cmd_registry s))\<rparr>)"

definition command_init :: "alert_row list \<Rightarrow> command_db" where
  "command_init als =
     \<lparr>cmd_registry = registry_init, cmd_outcomes = outcome_init, alerts = als, blocked_ips = [], blocked_seq = 1,
      incidents = [], incident_seq = 1, incident_alerts = [], response_actions_log = [], action_log_seq = 1\<rparr>"

lemma command_inv_init: "list_all printed_alert als \<Longrightarrow> command_inv env (command_init als)"
  using outcome_inv_init registry_inv_init
  by (simp add: command_inv_def command_init_def outcomes_ok_def registry_ok_def outcome_init_def registry_init_def
      active_addresses_def list_all_iff)

lemma expiry_ok: "registry_ok s \<Longrightarrow> registry_ok (snd (apply_monitor_expiry clk now s))"
  using expiry_safe [of s clk now] by (simp add: registry_ok_def apply_monitor_expiry_def Let_def)

lemma command_op_safe: "command_op env s s' \<Longrightarrow> command_inv env s \<Longrightarrow> command_inv env s' \<and> command_grows s s'"
proof (erule command_op.cases)
  fix clk q s1 assume "command_inv env s" "s = s1" "s' = snd (execute_response_command env clk q s1)"
  then show ?thesis using keeps_command [of env clk q] by (simp add: keeps_def)
next
  fix s1 clk now assume "command_inv env s" "s = s1"
    "s' = s1\<lparr>cmd_registry := snd (apply_monitor_expiry clk now (cmd_registry s1))\<rparr>"
  then show ?thesis using expiry_ok [of "cmd_registry s" clk now] expiry_safe [of "cmd_registry s" clk now]
    by (simp add: command_inv_def command_grows_def blocklist.evolves_refl registry_ok_def)
qed

interpretation command_ops: store_ops "command_op env" "command_inv env" command_grows for env
  by unfold_locales (auto dest: command_op_safe intro: command_grows_trans)

subsection \<open>What a command returns\<close>

lemma py_bind_run:
  "m s = (Inr x, s1) \<Longrightarrow> py_bind m f s = f x s1" "m s = (Inl e, s1) \<Longrightarrow> py_bind m f s = (Inl e, s1)"
  by simp_all

lemma py_bind_Inr_elim:
  assumes "py_bind m f s = (Inr y, s')"
  obtains x s1 where "m s = (Inr x, s1)" "f x s1 = (Inr y, s')"
  using assms by (auto split: prod.splits sum.splits)

definition yields :: "('a \<Rightarrow> bool) \<Rightarrow> ('s, 'a) py \<Rightarrow> bool" where
  "yields P m \<longleftrightarrow> (\<forall>s r s'. m s = (Inr r, s') \<longrightarrow> P r)"

lemma yieldsD: "yields P m \<Longrightarrow> m s = (Inr r, s') \<Longrightarrow> P r"
  by (auto simp: yields_def)

lemma yields_bind: "(\<And>x. yields P (f x)) \<Longrightarrow> yields P (py_bind m f)"
  unfolding yields_def by (blast elim: py_bind_Inr_elim)

lemma yields_ret: "P x \<Longrightarrow> yields P (ret x)" and yields_raise: "yields P (raise e)"
  by (simp_all add: yields_def ret_def raise_def)

lemma yields_if: "(c \<Longrightarrow> yields P m) \<Longrightarrow> (\<not> c \<Longrightarrow> yields P m') \<Longrightarrow> yields P (if c then m else m')"
  by simp

lemma yields_case:
  "yields P m \<Longrightarrow> (\<And>x. yields P (f x)) \<Longrightarrow> yields P (case v of None \<Rightarrow> m | Some x \<Rightarrow> f x)"
  "(\<And>x. yields P (g x)) \<Longrightarrow> (\<And>x. yields P (f x)) \<Longrightarrow> yields P (case w of Inl x \<Rightarrow> g x | Inr x \<Rightarrow> f x)"
  "(\<And>x y. yields P (h x y)) \<Longrightarrow> yields P (case p of (x, y) \<Rightarrow> h x y)"
  by (simp_all split: option.split sum.split prod.split)

lemmas yields_rules = yields_bind yields_ret yields_raise yields_if yields_case

abbreviation unenforced :: "ResponseCommandResult \<Rightarrow> bool" where
  "unenforced r \<equiv> rs_enforcement r = ''none''"

lemma yields_reject: "yields unenforced (reject_command clk q act ip key msg code)"
  by (auto simp: yields_def reject_command_def Let_def result_for_def
      simp del: py_bind.simps split: if_splits sum.splits prod.splits)

lemma yields_commands:
  "yields unenforced (execute_block_ip env clk q act ip key)"
  "yields unenforced (execute_monitor env clk q act ip key)"
  "yields unenforced (execute_escalate env clk q act v key)"
  "yields unenforced (execute_stop_monitor clk q act ip key)"
  "yields unenforced (execute_remove_tracking clk q act ip key)"
  "yields unenforced (execute_add_note clk q act ip key)"
  unfolding execute_block_ip_def execute_monitor_def start_monitor_def execute_escalate_def
    execute_stop_monitor_def execute_remove_tracking_def execute_add_note_def Let_def
  by (intro yields_rules yields_reject; simp add: block_result_def monitor_result_def result_for_def)+

lemma three_guards_Inr:
  "(if a then Inr x else if b then Inr y else if c then Inr z else Inl w) = Inr v \<Longrightarrow> v = x \<or> v = y \<or> v = z"
  by (simp split: if_splits)

lemma request_refused:
  assumes "request_refusal q s = Inr x"
  shows "\<exists>act m c. x = refused_request act m c"
proof (cases "validate_response_command_action (Some (cr_action q))")
  case (Inl e)
  then have "x = refused_request (cr_action q) (error_text e) (error_code_of e)"
    using assms by (simp add: request_refusal_def)
  then show ?thesis by blast
next
  case a: (Inr act)
  show ?thesis
  proof (cases "resolve_source_ip q s")
    case (Inl e)
    then have "x = refused_request act (error_text e) ''invalid_indicator''"
      using assms a by (simp add: request_refusal_def)
    then show ?thesis by blast
  next
    case (Inr ip)
    from three_guards_Inr [OF assms [unfolded request_refusal_def a Inr sum.case]] show ?thesis by blast
  qed
qed

lemma command_unenforced:
  assumes "execute_response_command env clk q s = (Inr r, s')"
  shows "unenforced r"
proof (cases "request_refusal q s")
  case (Inr x)
  then have "r = x" using assms by (simp add: execute_response_command_def)
  moreover have "unenforced x" using request_refused [OF Inr] by (auto simp: refused_request_def result_for_def)
  ultimately show ?thesis by simp
next
  case (Inl ai)
  obtain act ip where ai: "ai = (act, ip)" by (cases ai)
  have "yields unenforced
       (if act = ''block_ip'' then execute_block_ip env clk q act (the ip) key
        else if act = ''monitor'' then execute_monitor env clk q act (the ip) key
        else if act = ''stop_monitor'' then execute_stop_monitor clk q act (the ip) key
        else if act = ''remove_tracking'' then execute_remove_tracking clk q act (the ip) key
        else if act = ''add_note'' then execute_add_note clk q act (the ip) key
        else execute_escalate env clk q act ip key)" for key
    by (intro yields_if yields_commands)
  from yieldsD [OF this assms [unfolded execute_response_command_def Inl ai sum.case prod.case Let_def]]
  show ?thesis .
qed

subsection \<open>Properties\<close>

lemma active_block_unique:
  assumes "command_inv env s" "b \<in> set (blocked_ips s)" "active_block ip b"
  shows "filter (active_block ip) (blocked_ips s) = [b]"
proof -
  let ?act = "filter (\<lambda>x. bi_status x = ''active'') (blocked_ips s)"
  have "distinct (map bi_ip_address ?act)" "b \<in> set ?act"
    using assms by (auto simp: command_inv_def active_addresses_def active_block_def)
  from distinct_key_filter [OF this] show ?thesis using assms(3)
    by (simp add: active_block_def [abs_def] conj_commute)
qed

text \<open>C10: However commands and expiries have been interleaved, each address on the blocklist is in normal form, is
  public, is not one the operator protects, and has at most one active block.\<close>

theorem blocklist_sound:
  assumes "list_all printed_alert als" "(command_op env)\<^sup>*\<^sup>* (command_init als) s" "b \<in> set (blocked_ips s)"
  shows "(\<exists>a ns. ip_address (bi_ip_address b) = Inr a \<and> str_ip a = bi_ip_address b \<and> \<not> non_public a \<and>
       load_protected_targets (env_protected env) = Inr ns \<and> list_all (\<lambda>n. \<not> in_network a n) ns) \<and>
    (bi_status b = ''active'' \<longrightarrow> filter (active_block (bi_ip_address b)) (blocked_ips s) = [b])"
proof -
  have inv: "command_inv env s" using command_ops.ops_inv [OF assms(2) command_inv_init [OF assms(1)]] .
  then have ok: "allowed_block env (bi_ip_address b)" using assms(3) by (simp add: command_inv_def)
  then obtain a where a: "ip_address (bi_ip_address b) = Inr a" "str_ip a = bi_ip_address b" "\<not> non_public a"
    by (auto simp: allowed_block_def blockable_def)
  from ok have "require_unprotected_target (env_protected env) (Some (bi_ip_address b)) = Inr ()"
    by (simp add: allowed_block_def)
  then obtain a' ns where "ip_address (bi_ip_address b) = Inr a'"
      "load_protected_targets (env_protected env) = Inr ns" "\<forall>n \<in> set ns. \<not> in_network a' n"
    by (rule require_unprotected_ok)
  with a have "\<exists>a ns. ip_address (bi_ip_address b) = Inr a \<and> str_ip a = bi_ip_address b \<and> \<not> non_public a \<and>
       load_protected_targets (env_protected env) = Inr ns \<and> list_all (\<lambda>n. \<not> in_network a n) ns"
    by (auto simp: list_all_iff)
  moreover have "filter (active_block (bi_ip_address b)) (blocked_ips s) = [b]" if "bi_status b = ''active''"
    using active_block_unique [OF inv assms(3)] that by (simp add: active_block_def)
  ultimately show ?thesis by blast
qed

text \<open>C11: No command claims that anything was executed outside: what it returns says no enforcement, no
  outcome event counts as executed outside, and every registry event is tracking at most.\<close>

theorem commands_never_enforce:
  assumes "list_all printed_alert als" "(command_op env)\<^sup>*\<^sup>* (command_init als) s"
    and "execute_response_command env clk q s = (res, s')"
  shows "(case res of Inl e \<Rightarrow> True | Inr r \<Rightarrow> rs_enforcement r = ''none'') \<and>
    list_all (\<lambda>e. \<not> oe_external_executed e) (soar_response_outcome_events (cmd_outcomes s')) \<and>
    list_all (\<lambda>e. ie_enforcement e = ''none'' \<or> ie_enforcement e = ''tracking_only'')
      (indicator_response_events (cmd_registry s'))"
proof -
  have "command_op env s s'" using command_op.intros(1) [of env s clk q] assms(3) by simp
  then have "command_inv env s'"
    using command_ops.ops_inv [OF rtranclp.rtrancl_into_rtrancl [OF assms(2)] command_inv_init [OF assms(1)]] by blast
  then show ?thesis using command_unenforced assms(3)
    by (auto simp: command_inv_def outcomes_ok_def registry_ok_def list_all_iff split: sum.splits)
qed

lemma parse_entries_error: "parse_entries es = Inl e \<Longrightarrow> \<exists>m. e = ProtectedTargetConfigError m"
  by (induction es) (auto simp: Let_def parse_entry_to_network_def split: if_splits sum.splits)

lemma block_checks_code:
  assumes "block_checks env ip = Inl e"
  shows "rejection_code e \<noteq> None"
proof -
  have "(\<exists>m c. e = SkippedAction m c) \<or> (\<exists>m. e = ProtectedTargetConfigError m) \<or> (\<exists>m. e = ValueError m)"
    using assms
    by (auto simp: block_checks_def require_unprotected_target_def is_protected_target_def validate_blocked_ip_def
        ip_address_def load_protected_targets_def dest: parse_entries_error split: sum.splits bool.splits if_splits option.splits)
  then show ?thesis by (auto simp: rejection_code_def)
qed

lemma reject_command_writes:
  "\<exists>r t. reject_command clk q act ip key msg code s = (Inr r, s\<lparr>cmd_registry := t\<rparr>) \<and>
     \<not> rs_success r \<and> rs_error r = Some msg \<and> rs_error_code r = Some code"
proof -
  have reg: "in_registry m s = (r, s1) \<Longrightarrow> \<exists>t. s1 = s\<lparr>cmd_registry := t\<rparr>" for m r s1 s
    by (auto simp: in_registry_def split: prod.splits)
  show ?thesis
    unfolding reject_command_def Let_def
    by (auto simp: result_for_def ret_def intro: exI [of _ "cmd_registry s"] split: prod.splits sum.splits dest!: reg)
qed

lemma refused_effect:
  assumes "request_refusal q s = Inl (''block_ip'', Some ip)" "block_checks env ip = Inl e"
  shows "\<exists>r t. execute_response_command env clk q s = (Inr r, s\<lparr>cmd_registry := t\<rparr>) \<and> \<not> rs_success r \<and>
    rs_error r = Some (error_text e) \<and> rs_error_code r = rejection_code e"
proof -
  obtain code where code: "rejection_code e = Some code" using block_checks_code [OF assms(2)] by auto
  then have "execute_response_command env clk q s =
      reject_command clk q ''block_ip'' (Some ip) (command_key env q ''block_ip'' (Some ip)) (error_text e) code s"
    using assms(1,2) by (simp add: execute_response_command_def execute_block_ip_def Let_def)
  then show ?thesis using code
      reject_command_writes [of clk q "''block_ip''" "Some ip" "command_key env q ''block_ip'' (Some ip)" "error_text e" code s]
    by auto
qed

text \<open>C16: A target that is protected, not public, or that the configuration does not let be checked is refused
  with the reason, and nothing is written except the registry's record of the refusal.\<close>

theorem refused_target_not_tracked:
  assumes "request_refusal q s = Inl (''block_ip'', Some ip)" "block_checks env ip = Inl e"
    and "execute_response_command env clk q s = (res, s')"
  shows "\<exists>r t. res = Inr r \<and> s' = s\<lparr>cmd_registry := t\<rparr> \<and> \<not> rs_success r \<and> rs_error r = Some (error_text e) \<and>
    rs_error_code r = rejection_code e"
  using refused_effect [OF assms(1,2), of clk] assms(3) by auto

text \<open>Removing the tracking of an address.\<close>

lemma in_registry_state: "in_registry m s = (r, s') \<Longrightarrow> \<exists>t. s' = s\<lparr>cmd_registry := t\<rparr>"
  by (auto simp: in_registry_def split: prod.splits)

lemma update_record_state: "update_record i f s = (r, s') \<Longrightarrow> \<exists>t. s' = s\<lparr>cmd_registry := t\<rparr>"
  by (auto simp: update_record_def changes_def in_registry_def)

lemmas run_dests = in_registry_state update_record_state

lemma remove_tracking_effect:
  assumes "execute_remove_tracking clk q act ip key s = (Inr r, s')"
  shows "(newest_active_block ip s = None \<and> rs_blocked_ip_id r = None \<and> blocked_ips s' = blocked_ips s) \<or>
    (\<exists>b. newest_active_block ip s = Some b \<and> rs_blocked_ip_id r = Some (bi_id b) \<and>
       blocked_ips s' = blocked_ips (snd (deactivate_block (bi_id b) s)))"
  using assms unfolding execute_remove_tracking_def
  by (auto elim!: py_bind_Inr_elim simp del: py_bind.simps
      simp: ret_def result_for_def deactivate_block_def changes_def
      split: option.splits if_splits dest!: run_dests)

text \<open>After the tracking of an address is removed no block of it is active, and the one that was is
  inactive; nothing else on the blocklist has changed.\<close>

theorem tracking_removed:
  assumes "command_inv env s" "request_refusal q s = Inl (''remove_tracking'', Some ip)"
    and "execute_response_command env clk q s = (Inr r, s')"
  shows "filter (active_block ip) (blocked_ips s') = [] \<and>
    (case rs_blocked_ip_id r of
       None \<Rightarrow> blocked_ips s' = blocked_ips s
     | Some i \<Rightarrow> map bi_id (filter (active_block ip) (blocked_ips s)) = [i] \<and>
         blocked_ips s' = update_where (\<lambda>b. bi_id b = i \<and> bi_status b = ''active'')
           (\<lambda>b. b\<lparr>bi_status := ''inactive''\<rparr>) (blocked_ips s))"
proof -
  have "execute_remove_tracking clk q ''remove_tracking'' ip (command_key env q ''remove_tracking'' (Some ip)) s = (Inr r, s')"
    using assms(2,3) by (simp add: execute_response_command_def Let_def)
  from remove_tracking_effect [OF this] show ?thesis
  proof (elim disjE exE conjE)
    assume "newest_active_block ip s = None" "rs_blocked_ip_id r = None" "blocked_ips s' = blocked_ips s"
    then show ?thesis by (simp add: newest_active_block_def fetchone_order_None)
  next
    fix b assume b: "newest_active_block ip s = Some b" "rs_blocked_ip_id r = Some (bi_id b)"
      and s': "blocked_ips s' = blocked_ips (snd (deactivate_block (bi_id b) s))"
    have "b \<in> set (filter (active_block ip) (blocked_ips s))"
      using b(1) fetchone_order_desc(1) unfolding newest_active_block_def by fast
    then have one: "filter (active_block ip) (blocked_ips s) = [b]" using active_block_unique [OF assms(1)] by simp
    have "filter (active_block ip) (update_where (\<lambda>x. bi_id x = i \<and> bi_status x = ''active'')
        (\<lambda>x. x\<lparr>bi_status := ''inactive''\<rparr>) bs) = filter (\<lambda>x. bi_id x \<noteq> i) (filter (active_block ip) bs)" for i bs
      by (induction bs) (auto simp: active_block_def)
    moreover have "set (filter (active_block ip) (blocked_ips s)) = {b}" using one by simp
    then have "\<forall>x \<in> set (blocked_ips s). active_block ip x \<longrightarrow> bi_id x = bi_id b" by auto
    ultimately show ?thesis using b(2) one by (simp add: s' deactivate_block_def changes_def filter_empty_conv)
  qed
qed

text \<open>Once a block is not active its row never changes again.\<close>

theorem inactive_block_final:
  assumes "command_inv env s" "(command_op env)\<^sup>*\<^sup>* s s'" "b \<in> set (blocked_ips s)" "bi_status b \<noteq> ''active''"
  shows "select_id bi_id (bi_id b) (blocked_ips s') = Some b"
proof -
  have "command_inv env s'" "command_grows s s'" using command_ops.ops_safe [OF assms(2,1)] by auto
  then show ?thesis using assms(3,4)
    by (intro blocklist.final_selected) (auto simp: command_inv_def command_grows_def)
qed

text \<open>The stages of a successful block, and what each leaves alone.\<close>

lemma in_registry_run: "in_registry m s = (r, s') \<Longrightarrow> \<exists>t. m (cmd_registry s) = (r, t) \<and> s' = s\<lparr>cmd_registry := t\<rparr>"
  by (auto simp: in_registry_def split: prod.splits)

lemma in_outcomes_state: "in_outcomes m s = (r, s') \<Longrightarrow> \<exists>t. s' = s\<lparr>cmd_outcomes := t\<rparr>"
  by (auto simp: in_outcomes_def split: prod.splits)

lemma record_decision_state: "record_decision env clk a s = (r, s') \<Longrightarrow> \<exists>t. s' = s\<lparr>cmd_outcomes := t\<rparr>"
  unfolding record_decision_def by (rule in_outcomes_state)

lemma log_action_state:
  "log_action clk al ip act st det d c s = (r, s') \<Longrightarrow>
   \<exists>l. s' = s\<lparr>action_log_seq := action_log_seq s + 1, response_actions_log := response_actions_log s @ [l]\<rparr> \<and>
     r = Inr (action_log_seq s) \<and> lg_id l = action_log_seq s \<and> lg_decision_id l = d \<and> lg_action l = act \<and> lg_status l = st"
  by (auto simp: log_action_def Let_def)

lemma mark_alert_state: "mark_alert_executed act al s = (r, s') \<Longrightarrow> \<exists>t. s' = s\<lparr>alerts := t\<rparr>"
  by (cases al) (auto simp: mark_alert_executed_def changes_def intro: exI [of _ "alerts s"])

lemma get_or_create_state:
  assumes "get_or_create_active_blocked_ip clk ip c r a e s = (res, s')"
  shows "\<exists>i bs. s' = s\<lparr>blocked_seq := i, blocked_ips := bs\<rparr>"
proof -
  have "s' = s\<lparr>blocked_seq := blocked_seq s', blocked_ips := blocked_ips s'\<rparr>"
    using assms by (cases rule: get_or_create_cases [of clk ip c r a e s]) auto
  then show ?thesis by blast
qed

lemma block_effect:
  assumes "execute_block_ip env clk q act ip key s = (Inr r, s')" "block_checks env ip = Inr u"
  shows "\<exists>x rec t1 i new s2 d log_id e.
    upsert_indicator_identity clk INDICATOR_TYPE_IP ip (cmd_registry s) = (Inr rec, t1) \<and>
    get_or_create_active_blocked_ip clk ip (cr_actor_user_id q)
       (Some (or_text (cr_reason q) ''Canonical block_ip tracking'')) (cr_alert_id q) x (s\<lparr>cmd_registry := t1\<rparr>) = (Inr (i, new), s2) \<and>
    append_registry_event clk (block_event q act key x (ir_id rec) i new d log_id) t1 = (Inr e, cmd_registry s') \<and>
    blocked_ips s' = blocked_ips s2 \<and> r = block_result q act ip (ir_id rec) (ie_id e) i new d log_id"
proof -
  note run = assms(1) [unfolded execute_block_ip_def assms(2) sum.case case_prod_beta]
  from run show ?thesis
  proof (elim py_bind_Inr_elim, goal_cases)
    case (1 x s0 rec s1 b s2 d s3 log_id s4 oe s5 e s6 u' s7)
    obtain t1 where t1: "upsert_indicator_identity clk INDICATOR_TYPE_IP ip (cmd_registry s) = (Inr rec, t1)" "s1 = s\<lparr>cmd_registry := t1\<rparr>"
      using in_registry_run [OF 1(2)] 1(1) by (auto simp: of_result_def)
    obtain i bs where s2: "s2 = s1\<lparr>blocked_seq := i, blocked_ips := bs\<rparr>" using get_or_create_state [OF 1(3)] by blast
    obtain o3 where s3: "s3 = s2\<lparr>cmd_outcomes := o3\<rparr>" using record_decision_state [OF 1(4)] by blast
    obtain l where s4: "s4 = s3\<lparr>action_log_seq := action_log_seq s3 + 1, response_actions_log := response_actions_log s3 @ [l]\<rparr>"
      using log_action_state [OF 1(5)] by blast
    obtain o5 where s5: "s5 = s4\<lparr>cmd_outcomes := o5\<rparr>" using in_outcomes_state [OF 1(6)] by blast
    obtain t6 where t6: "append_registry_event clk (block_event q act key x (ir_id rec) (fst b) (snd b) d log_id) (cmd_registry s5) = (Inr e, t6)"
        "s6 = s5\<lparr>cmd_registry := t6\<rparr>" using in_registry_run [OF 1(7)] by blast
    obtain al where s7: "s7 = s6\<lparr>alerts := al\<rparr>" using mark_alert_state [OF 1(8)] by blast
    have s': "s' = s7" and r: "r = block_result q act ip (ir_id rec) (ie_id e) (fst b) (snd b) d log_id"
      using 1(9) by (simp_all add: ret_def)
    have "cmd_registry s5 = t1" "cmd_registry s' = t6" "blocked_ips s' = blocked_ips s2"
      by (simp_all add: s' s7 t6(2) s5 s4 s3 s2 t1(2))
    then show ?case using t1 1(3) t6(1) r by (intro exI conjI) auto
  qed
qed

lemma block_command:
  assumes "request_refusal q s = Inl (''block_ip'', Some ip)"
  shows "execute_response_command env clk q s =
    execute_block_ip env clk q ''block_ip'' ip (command_key env q ''block_ip'' (Some ip)) s"
  using assms by (simp add: execute_response_command_def Let_def)

text \<open>C15: A successful block leaves exactly one active block of the address, the one the result names: either one in
  force that was there, with the blocklist unchanged, or a new row at its end where there was none.\<close>

theorem block_tracked:
  assumes "command_inv env s" "request_refusal q s = Inl (''block_ip'', Some ip)"
    and "execute_response_command env clk q s = (Inr r, s')" "rs_success r"
  shows "\<exists>n b. validate_blocked_ip (Some ip) = Inr n \<and> filter (active_block n) (blocked_ips s') = [b] \<and>
    rs_blocked_ip_id r = Some (bi_id b) \<and>
    (if rs_idempotent r then blocked_ips s' = blocked_ips s \<and> block_in_force (sql_now clk) n b
     else blocked_ips s' = blocked_ips s @ [b] \<and> filter (active_block n) (blocked_ips s) = [])"
proof -
  obtain u where checks: "block_checks env ip = Inr u"
  proof (cases "block_checks env ip")
    case (Inl er)
    then show ?thesis using refused_effect [OF assms(2) Inl, of clk] assms(3,4) by auto
  qed blast
  obtain x rec t1 i new s2 d log_id ev where "upsert_indicator_identity clk INDICATOR_TYPE_IP ip (cmd_registry s) = (Inr rec, t1)"
    and g: "get_or_create_active_blocked_ip clk ip (cr_actor_user_id q)
       (Some (or_text (cr_reason q) ''Canonical block_ip tracking'')) (cr_alert_id q) x (s\<lparr>cmd_registry := t1\<rparr>) = (Inr (i, new), s2)"
    and "append_registry_event clk (block_event q ''block_ip'' (command_key env q ''block_ip'' (Some ip)) x (ir_id rec) i new d log_id) t1 =
       (Inr ev, cmd_registry s')"
    and s': "blocked_ips s' = blocked_ips s2"
    and r: "r = block_result q ''block_ip'' ip (ir_id rec) (ie_id ev) i new d log_id"
    using block_effect [OF assms(3) [unfolded block_command [OF assms(2)]] checks] by blast
  have res: "rs_blocked_ip_id r = Some i" "rs_idempotent r = (\<not> new)" by (simp_all add: r block_result_def result_for_def)
  show ?thesis
  proof (cases rule: get_or_create_cases [of clk ip "cr_actor_user_id q"
      "Some (or_text (cr_reason q) ''Canonical block_ip tracking'')" "cr_alert_id q" x "s\<lparr>cmd_registry := t1\<rparr>"])
    case (failed e)
    then show ?thesis using g by simp
  next
    case (reused n b)
    then have b: "b \<in> set (blocked_ips s)" "active_block n b" by (simp_all add: block_in_force_def)
    have "i = bi_id b" "\<not> new" "blocked_ips s' = blocked_ips s" using g reused(5) s' by auto
    then show ?thesis using active_block_unique [OF assms(1) b] reused(1,4) res by auto
  next
    case (created n)
    let ?b = "new_block clk (blocked_seq s) n (cr_actor_user_id q)
      (Some (or_text (cr_reason q) ''Canonical block_ip tracking'')) (cr_alert_id q) x"
    have "i = bi_id ?b" "new" "blocked_ips s' = blocked_ips s @ [?b]" "active_block n ?b"
      using g created(5) s' by (auto simp: new_block_def active_block_def)
    moreover have "filter (active_block n) (blocked_ips s) = []" using created(3) by (simp add: filter_empty_conv)
    ultimately show ?thesis using created(1) res by (intro exI [of _ n] exI [of _ ?b]) simp
  qed
qed

text \<open>A key that was used before: the block is made and the result says that the address is tracked, but no event
  is written and every record keeps its disposition and its link to a block.\<close>

theorem reused_key_not_recorded:
  assumes "command_inv env s" "request_refusal q s = Inl (''block_ip'', Some ip)"
    and "e \<in> set (indicator_response_events (cmd_registry s))"
    and "ie_idempotency_key e = Some (command_key env q ''block_ip'' (Some ip))" "command_key env q ''block_ip'' (Some ip) \<noteq> []"
    and "execute_response_command env clk q s = (Inr r, s')" "rs_success r"
  shows "rs_disposition r = Some DISPOSITION_BLOCKLIST_TRACKED \<and> rs_registry_event_id r = Some (ie_id e) \<and>
    indicator_response_events (cmd_registry s') = indicator_response_events (cmd_registry s) \<and>
    prefix (map (\<lambda>x. (ir_id x, ir_current_disposition x, ir_active_blocked_ip_id x)) (indicator_registry (cmd_registry s)))
      (map (\<lambda>x. (ir_id x, ir_current_disposition x, ir_active_blocked_ip_id x)) (indicator_registry (cmd_registry s')))"
proof -
  let ?key = "command_key env q ''block_ip'' (Some ip)"
  have run: "execute_block_ip env clk q ''block_ip'' ip ?key s = (Inr r, s')"
    using assms(6) unfolding block_command [OF assms(2)] .
  obtain u where checks: "block_checks env ip = Inr u"
  proof (cases "block_checks env ip")
    case (Inl er)
    then show ?thesis using refused_effect [OF assms(2) Inl, of clk] assms(6,7) by auto
  qed blast
  obtain x rec t1 i new s2 d log_id ev where up: "upsert_indicator_identity clk INDICATOR_TYPE_IP ip (cmd_registry s) = (Inr rec, t1)"
    and ap: "append_registry_event clk (block_event q ''block_ip'' ?key x (ir_id rec) i new d log_id) t1 = (Inr ev, cmd_registry s')"
    and r: "r = block_result q ''block_ip'' ip (ir_id rec) (ie_id ev) i new d log_id"
    using block_effect [OF run checks] by blast
  have inv: "registry_inv (cmd_registry s)" using assms(1) by (simp add: command_inv_def registry_ok_def)
  obtain n where up1: "indicator_response_events t1 = indicator_response_events (cmd_registry s)" "registry_inv t1"
    using upsert_Inr [OF inv up] by blast
  have "append_registry_event clk (block_event q ''block_ip'' ?key x (ir_id rec) i new d log_id) t1 = (Inr e, t1)"
    by (rule append_registry_again) (use up1 assms(3-5) in \<open>simp_all add: block_event_def event_args0_def\<close>)
  then have t1: "cmd_registry s' = t1" "ev = e" using ap by simp_all
  have "prefix (map (\<lambda>x. (ir_id x, ir_current_disposition x, ir_active_blocked_ip_id x)) (indicator_registry (cmd_registry s)))
      (map (\<lambda>x. (ir_id x, ir_current_disposition x, ir_active_blocked_ip_id x)) (indicator_registry t1))"
    using up by (cases rule: upsert_cases [of clk INDICATOR_TYPE_IP ip "cmd_registry s"]) (auto simp: map_update_where)
  then show ?thesis using t1 up1(1) by (simp add: r block_result_def result_for_def)
qed

text \<open>An address whose block has expired cannot be blocked again: the row is still active for the insertion, though
  no longer for the look-up before it.\<close>

theorem expired_block_not_renewed:
  assumes "command_inv env s" "request_refusal q s = Inl (''block_ip'', Some ip)" "block_checks env ip = Inr ()"
    and "validate_blocked_ip (Some ip) = Inr n" "b \<in> set (blocked_ips s)" "active_block n b"
    and "bi_expires_at b = Some t" "t \<le> sql_now clk" "parse_expires_at env (cr_expires_at q) = Inr x"
    and "cr_alert_id q = None \<or> get_alert (the (cr_alert_id q)) s \<noteq> None"
  shows "fst (execute_response_command env clk q s) = Inl (ValueError ''An active block already exists for this IP'')"
proof -
  have n: "inet_ok n" using assms(1,5,6) by (auto simp: command_inv_def allowed_block_def active_block_def)
  obtain a where a: "ip_address (strip ip) = Inr a" using assms(4)
    by (auto simp: validate_blocked_ip_def split: if_splits sum.splits)
  have "\<exists>rec t1. upsert_indicator_identity clk INDICATOR_TYPE_IP ip (cmd_registry s) = (Inr rec, t1)"
    using normalize_ip [OF a] by (simp add: upsert_indicator_identity_def Let_def sql_blank_def split: option.split)
  then obtain rec t1 where up: "in_registry (upsert_indicator_identity clk INDICATOR_TYPE_IP ip) s = (Inr rec, s\<lparr>cmd_registry := t1\<rparr>)"
    by (auto simp: in_registry_def)
  have "filter (block_in_force (sql_now clk) n) (blocked_ips s) = filter (\<lambda>y. case bi_expires_at y of None \<Rightarrow> True | Some v \<Rightarrow> sql_now clk < v)
      (filter (active_block n) (blocked_ips s))"
    by (simp add: block_in_force_def [abs_def] conj_commute)
  also have "\<dots> = []" using active_block_unique [OF assms(1,5,6)] assms(7,8) by simp
  finally have none: "filter (block_in_force (sql_now clk) n) (blocked_ips s) = []" .
  have "create_blocked_ip_record clk (Some n) c m (cr_alert_id q) y (s\<lparr>cmd_registry := t1\<rparr>) =
      (Inl (ValueError ''An active block already exists for this IP''), s\<lparr>cmd_registry := t1\<rparr>)" for c m y
    using validate_again [OF assms(4) n] n assms(5,6,10)
    by (auto simp: create_blocked_ip_record_def get_alert_def split: option.splits)
  then have "get_or_create_active_blocked_ip clk ip c m (cr_alert_id q) y (s\<lparr>cmd_registry := t1\<rparr>) =
      (Inl (ValueError ''An active block already exists for this IP''), s\<lparr>cmd_registry := t1\<rparr>)" for c m y
    using assms(4) n none by (simp add: get_or_create_active_blocked_ip_def order_asc_def fetchone_def)
  then show ?thesis
    unfolding block_command [OF assms(2)] execute_block_ip_def assms(3,9) sum.case
    by (simp add: of_result_def up)
qed

end
