(* ===== verification/Command_Runs.thy ===== *)
theory Command_Runs
  imports Response_Commands "HOL-Library.Code_Target_Numeral"
begin

text \<open>
  Concrete runs of the commands, evaluated in the kernel: the properties of \<open>Response_Commands\<close> applied
  to them.
\<close>

subsection \<open>Concrete runs\<close>

text \<open>A block of one address, the removal of its tracking, and a second block with the same key.\<close>

definition wit_cmd_env :: command_env where
  "wit_cmd_env =
     \<lparr>env_protected = ''10.0.0.0/8, 45.33.32.1'', env_uuid = (\<lambda>n. ''0123456789a'' @ [char_of (97 + n)]),
      env_sha256 = (\<lambda>x. x), env_fromisoformat = (\<lambda>x. Inl (ValueError x))\<rparr>"

definition wit_cmd_clock :: clock where
  "wit_cmd_clock = \<lparr>utc_now = 0, sql_now = 0\<rparr>"

definition wit_block :: ResponseCommandRequest where
  "wit_block = (request_with_action ''block_ip'')
     \<lparr>cr_indicator_value := Some ''45.33.32.156'', cr_idempotency_key := Some ''blocklist-form-45.33.32.156-none''\<rparr>"

definition wit_remove :: ResponseCommandRequest where
  "wit_remove = (request_with_action ''remove_tracking'')
     \<lparr>cr_indicator_value := Some ''45.33.32.156'', cr_idempotency_key := Some ''blocklist-unblock-1''\<rparr>"

definition wit_run :: "ResponseCommandRequest \<Rightarrow> command_db \<Rightarrow> ResponseCommandResult result \<times> command_db" where
  "wit_run q s = execute_response_command wit_cmd_env wit_cmd_clock q s"

definition wit_blocked :: command_db where
  "wit_blocked = snd (wit_run wit_block (command_init []))"

definition wit_unblocked :: command_db where
  "wit_unblocked = snd (wit_run wit_remove wit_blocked)"

lemma wit_blocked_reach: "(command_op wit_cmd_env)\<^sup>*\<^sup>* (command_init []) wit_blocked"
  unfolding wit_blocked_def wit_run_def by (intro r_into_rtranclp command_op.intros)

lemma wit_unblocked_reach: "(command_op wit_cmd_env)\<^sup>*\<^sup>* wit_blocked wit_unblocked"
  unfolding wit_unblocked_def wit_run_def by (intro r_into_rtranclp command_op.intros)

lemma wit_blocked_inv: "command_inv wit_cmd_env wit_blocked"
  by (rule command_ops.ops_inv [OF wit_blocked_reach command_inv_init]) simp

lemma wit_unblocked_inv: "command_inv wit_cmd_env wit_unblocked"
  by (rule command_ops.ops_inv [OF wit_unblocked_reach wit_blocked_inv])

definition wit_row :: "string \<Rightarrow> time option \<Rightarrow> blocked_ip" where
  "wit_row status expires =
     \<lparr>bi_id = 1, bi_ip_address = ''45.33.32.156'', bi_reason = Some ''Canonical block_ip tracking'',
      bi_status = status, bi_created_by = None, bi_created_at = 0, bi_expires_at = expires,
      bi_source_alert_id = None\<rparr>"

lemma wit_blocked_rows: "blocked_ips wit_blocked = [wit_row ''active'' None]"
  by code_simp

lemma wit_unblocked_rows: "blocked_ips wit_unblocked = [wit_row ''inactive'' None]"
  by code_simp

lemma wit_address: "ip_address (strip ''45.33.32.156'') = Inr (IPv4 0x2D21209C)" "str_ip (IPv4 0x2D21209C) = ''45.33.32.156''"
    "validate_response_command_action (Some ''block_ip'') = Inr ''block_ip''"
    "validate_response_command_action (Some ''remove_tracking'') = Inr ''remove_tracking''"
  by code_simp+

lemma wit_accepted:
  "request_refusal wit_block s = Inl (''block_ip'', Some ''45.33.32.156'')"
  "request_refusal wit_remove s = Inl (''remove_tracking'', Some ''45.33.32.156'')"
  by (simp_all add: request_refusal_def resolve_source_ip_def wit_block_def wit_remove_def request_with_action_def wit_address
      del: str_ip.simps)

theorem blocklist_sound_witness:
  "(\<exists>a ns. ip_address ''45.33.32.156'' = Inr a \<and> \<not> non_public a \<and>
      load_protected_targets (env_protected wit_cmd_env) = Inr ns \<and> list_all (\<lambda>n. \<not> in_network a n) ns) \<and>
   filter (active_block ''45.33.32.156'') (blocked_ips wit_blocked) = [wit_row ''active'' None]"
  using blocklist_sound [OF _ wit_blocked_reach, of "wit_row ''active'' None"]
  by (auto simp: wit_blocked_rows wit_row_def)

theorem commands_never_enforce_witness:
  "list_all (\<lambda>e. \<not> oe_external_executed e)
     (soar_response_outcome_events (cmd_outcomes (snd (wit_run wit_block wit_unblocked))))"
  using commands_never_enforce [OF _ rtranclp_trans [OF wit_blocked_reach wit_unblocked_reach],
      of wit_cmd_clock wit_block "fst (wit_run wit_block wit_unblocked)" "snd (wit_run wit_block wit_unblocked)"]
  by (simp add: wit_run_def)

theorem inactive_block_final_witness:
  "select_id bi_id 1 (blocked_ips (snd (wit_run wit_block wit_unblocked))) = Some (wit_row ''inactive'' None)"
proof -
  have "(command_op wit_cmd_env)\<^sup>*\<^sup>* wit_unblocked (snd (wit_run wit_block wit_unblocked))"
    unfolding wit_run_def by (intro r_into_rtranclp command_op.intros)
  from inactive_block_final [OF wit_unblocked_inv this, of "wit_row ''inactive'' None"] show ?thesis
    by (simp add: wit_unblocked_rows wit_row_def)
qed

definition run_succeeds :: "ResponseCommandResult result \<times> command_db \<Rightarrow> bool" where
  "run_succeeds p = (case fst p of Inl e \<Rightarrow> False | Inr r \<Rightarrow> rs_success r)"

lemma run_succeeds_obtain:
  assumes "run_succeeds (wit_run q s)"
  obtains r where "execute_response_command wit_cmd_env wit_cmd_clock q s = (Inr r, snd (wit_run q s))" "rs_success r"
  using assms by (cases "wit_run q s") (auto simp: run_succeeds_def wit_run_def split: sum.splits)

lemma wit_block_succeeds: "run_succeeds (wit_run wit_block (command_init []))"
  by code_simp

lemma wit_remove_succeeds: "run_succeeds (wit_run wit_remove wit_blocked)"
  by code_simp

definition wit_cmd_refused :: ResponseCommandRequest where
  "wit_cmd_refused = (request_with_action ''block_ip'')\<lparr>cr_indicator_value := Some ''45.33.32.1''\<rparr>"

theorem refused_target_not_tracked_witness:
  "\<exists>r t. wit_run wit_cmd_refused (command_init []) = (Inr r, (command_init [])\<lparr>cmd_registry := t\<rparr>) \<and> \<not> rs_success r \<and>
     rs_error_code r = Some ''protected_target''"
proof -
  have "request_refusal wit_cmd_refused (command_init []) = Inl (''block_ip'', Some ''45.33.32.1'')" by code_simp
  moreover have "block_checks wit_cmd_env ''45.33.32.1'' =
      Inl (SkippedAction ''Refusing to block protected target: 45.33.32.1'' ''protected_target'')" by code_simp
  ultimately show ?thesis
    using refused_target_not_tracked [of wit_cmd_refused "command_init []" "''45.33.32.1''" wit_cmd_env
        "SkippedAction ''Refusing to block protected target: 45.33.32.1'' ''protected_target''" wit_cmd_clock
        "fst (wit_run wit_cmd_refused (command_init []))" "snd (wit_run wit_cmd_refused (command_init []))"]
    by (auto simp: wit_run_def rejection_code_def prod_eq_iff)
qed

theorem tracking_removed_witness:
  "filter (active_block ''45.33.32.156'') (blocked_ips wit_unblocked) = []"
proof -
  obtain r where "execute_response_command wit_cmd_env wit_cmd_clock wit_remove wit_blocked = (Inr r, snd (wit_run wit_remove wit_blocked))"
    using run_succeeds_obtain [OF wit_remove_succeeds] .
  from tracking_removed [OF wit_blocked_inv wit_accepted(2) this] show ?thesis by (simp add: wit_unblocked_def)
qed

theorem block_tracked_witness:
  "\<exists>b. filter (active_block ''45.33.32.156'') (blocked_ips wit_blocked) = [b]"
proof -
  obtain r where "execute_response_command wit_cmd_env wit_cmd_clock wit_block (command_init []) =
      (Inr r, snd (wit_run wit_block (command_init [])))" "rs_success r"
    using run_succeeds_obtain [OF wit_block_succeeds] .
  from block_tracked [OF command_inv_init wit_accepted(1) this] obtain n b where
      "validate_blocked_ip (Some ''45.33.32.156'') = Inr n" "filter (active_block n) (blocked_ips wit_blocked) = [b]"
    by (auto simp: wit_blocked_def)
  moreover have "validate_blocked_ip (Some ''45.33.32.156'') = Inr ''45.33.32.156''" by code_simp
  ultimately show ?thesis by auto
qed

text \<open>The registry after the form blocked the address and the tracking was removed; then the form again: the
  record stays \<open>removed\<close>, while an active block is there.\<close>

definition wit_events :: "(registry_db, registry_event) py" where
  "wit_events =
     py_bind (upsert_indicator_identity wit_cmd_clock INDICATOR_TYPE_IP ''45.33.32.156'') (\<lambda>r.
     py_bind (append_registry_event wit_cmd_clock
        ((event_args0 (ir_id r) ''block_ip_tracking'' ''block_ip'' ''succeeded'' ''blocklist_form'')
           \<lparr>va_idempotency_key := Some ''blocklist-form-45.33.32.156-none''\<rparr>)) (\<lambda>_.
     append_registry_event wit_cmd_clock
        ((event_args0 (ir_id r) ''tracking_removed'' ''remove_tracking'' ''removed'' ''blocklist_form'')
           \<lparr>va_idempotency_key := Some ''blocklist-unblock-1''\<rparr>)))"

definition wit_reused :: command_db where
  "wit_reused = (command_init [])\<lparr>cmd_registry := snd (wit_events registry_init)\<rparr>"

lemma wit_reused_inv: "command_inv wit_cmd_env wit_reused"
proof -
  have "keeps registry_ok registry_grows wit_events"
    unfolding wit_events_def
    by (intro registry_programs.keeps_bind keeps_upsert keeps_append_registry) (simp_all add: event_args0_def)
  moreover have init: "command_inv wit_cmd_env (command_init [])" by (rule command_inv_init) simp
  then have "registry_ok registry_init" by (simp add: command_inv_def command_init_def)
  ultimately have "registry_ok (snd (wit_events registry_init))" by (simp add: keeps_def)
  with init show ?thesis by (simp add: wit_reused_def command_inv_def)
qed

lemma wit_reused_registry:
  "(\<lambda>t. map ie_idempotency_key (indicator_response_events t) =
      [Some ''blocklist-form-45.33.32.156-none'', Some ''blocklist-unblock-1''] \<and>
    map (\<lambda>x. (ir_id x, ir_current_disposition x, ir_active_blocked_ip_id x)) (indicator_registry t) =
      [(1, ''removed'', None)]) (cmd_registry wit_reused)"
  by code_simp

lemma wit_again_succeeds:
  "(\<lambda>p. run_succeeds p \<and> length (indicator_registry (cmd_registry (snd p))) = 1 \<and>
     map bi_status (blocked_ips (snd p)) = [''active'']) (wit_run wit_block wit_reused)"
  by code_simp

theorem reused_key_not_recorded_witness:
  "map ir_current_disposition (indicator_registry (cmd_registry (snd (wit_run wit_block wit_reused)))) = [''removed''] \<and>
   map bi_status (blocked_ips (snd (wit_run wit_block wit_reused))) = [''active'']"
proof -
  let ?s = wit_reused
  obtain r where run: "execute_response_command wit_cmd_env wit_cmd_clock wit_block ?s = (Inr r, snd (wit_run wit_block ?s))" "rs_success r"
    using run_succeeds_obtain [of wit_block ?s] wit_again_succeeds by auto
  have key: "command_key wit_cmd_env wit_block ''block_ip'' (Some ''45.33.32.156'') = ''blocklist-form-45.33.32.156-none''"
    by (simp add: command_key_def default_idempotency_key_def wit_block_def request_with_action_def)
  have "Some ''blocklist-form-45.33.32.156-none'' \<in> ie_idempotency_key ` set (indicator_response_events (cmd_registry ?s))"
    unfolding set_map [symmetric] using wit_reused_registry by simp
  then obtain e where e: "e \<in> set (indicator_response_events (cmd_registry ?s))" "ie_idempotency_key e = Some ''blocklist-form-45.33.32.156-none''"
    by auto
  have "prefix [(1, ''removed'', None)]
      (map (\<lambda>x. (ir_id x, ir_current_disposition x, ir_active_blocked_ip_id x))
        (indicator_registry (cmd_registry (snd (wit_run wit_block ?s)))))"
    using reused_key_not_recorded [OF wit_reused_inv wit_accepted(1) e(1) _ _ run] e(2) key wit_reused_registry by simp
  then have "map ir_current_disposition (indicator_registry (cmd_registry (snd (wit_run wit_block ?s)))) = [''removed'']"
    using wit_again_succeeds by (auto simp: prefix_def length_Suc_conv)
  then show ?thesis using wit_again_succeeds by simp
qed

definition wit_expired :: command_db where
  "wit_expired = (command_init [])\<lparr>blocked_ips := [wit_row ''active'' (Some 0)], blocked_seq := 2\<rparr>"

theorem expired_block_not_renewed_witness:
  "fst (wit_run wit_block wit_expired) = Inl (ValueError ''An active block already exists for this IP'')"
proof -
  have a: "ip_address ''45.33.32.156'' = Inr (IPv4 0x2D21209C)" "\<not> non_public (IPv4 0x2D21209C)"
    "require_unprotected_target (env_protected wit_cmd_env) (Some ''45.33.32.156'') = Inr ()"
    "block_checks wit_cmd_env ''45.33.32.156'' = Inr ()" "validate_blocked_ip (Some ''45.33.32.156'') = Inr ''45.33.32.156''"
    by code_simp+
  then have "allowed_block wit_cmd_env ''45.33.32.156''"
    using wit_address(2) by (auto simp: allowed_block_def blockable_def inet_ok_def simp del: str_ip.simps)
  then have "command_inv wit_cmd_env wit_expired"
    using command_inv_init [of "[]" wit_cmd_env]
    by (simp add: command_inv_def wit_expired_def command_init_def wit_row_def active_addresses_def wf_ids_def)
  from expired_block_not_renewed [OF this wit_accepted(1) a(4,5), of "wit_row ''active'' (Some 0)" 0 wit_cmd_clock None]
  show ?thesis
    by (simp add: wit_run_def wit_expired_def wit_row_def active_block_def wit_cmd_clock_def parse_expires_at_def
        wit_block_def request_with_action_def)
qed

end
