(* ===== verification/Action_Worker.thy ===== *)
theory Action_Worker
  imports Response_Commands Response_Queue
begin

text \<open>
  \<open>engines/soar_action_worker.py\<close>, with \<open>engines/soar_executor.py\<close>, \<open>engines/soar_log_writer.py\<close> and the run
  of \<open>scripts/soar_worker_run.py\<close>: the worker that takes actions from the queue, holds them for an approval,
  and carries them out as response commands. Its state is the record of the three stores it writes to.

  \<open>process_next_action\<close> is two transactions, with a commit in between: the claim of a row, and what is done
  with it. An exception that leaves it ends the run, and closing the connection rolls back to the last
  commit; tables go back, sequences and the audit log keep what they have.

  \<open>executor\<close> is what carries out actions that are no response command: \<open>SimulationExecutor\<close> is modelled
  below, the adapters behind \<open>AdapterBackedExecutor\<close> are a parameter.
\<close>

subsection \<open>State\<close>

record worker_db =
  wk_queue :: queue_db
  wk_approvals :: approval_db
  wk_commands :: command_db

definition in_queue :: "(queue_db, 'a) py \<Rightarrow> (worker_db, 'a) py" where
  "in_queue m s = (case m (wk_queue s) of (r, t) \<Rightarrow> (r, s\<lparr>wk_queue := t\<rparr>))"

definition in_approvals :: "(approval_db, 'a) py \<Rightarrow> (worker_db, 'a) py" where
  "in_approvals m s = (case m (wk_approvals s) of (r, t) \<Rightarrow> (r, s\<lparr>wk_approvals := t\<rparr>))"

definition in_commands :: "(command_db, 'a) py \<Rightarrow> (worker_db, 'a) py" where
  "in_commands m s = (case m (wk_commands s) of (r, t) \<Rightarrow> (r, s\<lparr>wk_commands := t\<rparr>))"

definition infallible :: "('s \<Rightarrow> 'a \<times> 's) \<Rightarrow> ('s, 'a) py" where
  "infallible f s = (case f s of (x, s') \<Rightarrow> (Inr x, s'))"

text \<open>The tables of the last commit \<open>c\<close>, with what a rollback does not take back from \<open>s\<close>.\<close>

definition command_rollback :: "command_db \<Rightarrow> command_db \<Rightarrow> command_db" where
  "command_rollback c s =
     c\<lparr>cmd_registry := (cmd_registry c)\<lparr>registry_seq := registry_seq (cmd_registry s),
         registry_event_seq := registry_event_seq (cmd_registry s)\<rparr>,
       cmd_outcomes := (cmd_outcomes c)\<lparr>decision_seq := decision_seq (cmd_outcomes s),
         outcome_seq := outcome_seq (cmd_outcomes s), uuids_drawn := uuids_drawn (cmd_outcomes s)\<rparr>,
       blocked_seq := blocked_seq s, incident_seq := incident_seq s, action_log_seq := action_log_seq s\<rparr>"

definition worker_rollback :: "worker_db \<Rightarrow> worker_db \<Rightarrow> worker_db" where
  "worker_rollback c s =
     \<lparr>wk_queue = (wk_queue c)\<lparr>queue_seq := queue_seq (wk_queue s)\<rparr>,
      wk_approvals = rollback (wk_approvals c) (wk_approvals s),
      wk_commands = command_rollback (wk_commands c) (wk_commands s)\<rparr>"

subsection \<open>Classification\<close>

definition APPROVAL_REQUIRED_ACTIONS :: "string list" where
  "APPROVAL_REQUIRED_ACTIONS = [''block_ip'']"

definition CANONICAL_QUEUE_ACTIONS :: "string list" where
  "CANONICAL_QUEUE_ACTIONS = [''block_ip'', ''monitor'', ''flag_high_priority'']"

definition INTERNAL_QUEUE_ACTIONS :: "string list" where
  "INTERNAL_QUEUE_ACTIONS = [''monitor'', ''flag_high_priority'', ''escalate'']"

definition APPROVAL_REASON_CODES :: "string list" where
  "APPROVAL_REASON_CODES = [''approval_required'', ''approval_denied'', ''approval_expired'']"

record queue_classification =
  qc_execution_mode :: string
  qc_simulated :: bool
  qc_tracking_recorded :: bool
  qc_reason_code :: "string option"

definition queue_outcome_classification :: "string \<Rightarrow> string \<Rightarrow> string option \<Rightarrow> queue_classification" where
  "queue_outcome_classification action state reason_code =
     (let normalized_action = strip action;
          reason = (case reason_code of None \<Rightarrow> None | Some r \<Rightarrow> if strip r = [] then None else Some (strip r));
          plain = (\<lambda>mode simulated tracked reason.
            \<lparr>qc_execution_mode = mode, qc_simulated = simulated, qc_tracking_recorded = tracked,
             qc_reason_code = reason\<rparr>)
      in if reason \<noteq> None \<and> the reason \<in> set APPROVAL_REASON_CODES then plain ''internal'' False False reason
         else if normalized_action = ''block_ip''
         then plain ''tracking_only'' False (state = ''succeeded'')
                (if reason = None \<or> reason = Some ''simulation_mode''
                 then (if state = ''succeeded'' then Some ''tracking_only'' else None) else reason)
         else if normalized_action \<in> set INTERNAL_QUEUE_ACTIONS
         then plain ''internal'' False False (if reason = Some ''simulation_mode'' then None else reason)
         else plain ''simulation'' (state = ''succeeded'') False (Some (coalesce reason ''simulation_mode'')))"

definition classify_queue_action_mode :: "string \<Rightarrow> string option \<Rightarrow> string" where
  "classify_queue_action_mode action reason_code =
     qc_execution_mode (queue_outcome_classification action ''succeeded'' reason_code)"

definition action_requires_approval :: "string \<Rightarrow> bool" where
  "action_requires_approval action \<longleftrightarrow> action \<in> set APPROVAL_REQUIRED_ACTIONS"

definition canonical_worker_reason_code :: "string \<Rightarrow> string" where
  "canonical_worker_reason_code code =
     (if code \<in> {''approval_required'', ''approval_pending''} then ''approval_required''
      else if code = ''approval_denied'' then ''approval_denied''
      else if code = ''approval_expired'' then ''approval_expired''
      else if code = ''unsupported_action'' then ''unsupported_action''
      else if code \<in> {''adapter_unavailable'', ''adapter_timeout'', ''timeout'', ''retryable_error''}
      then ''adapter_unavailable''
      else if code \<in> {''protected_target'', ''protected_target_config_invalid'', ''policy_disabled'',
          ''validation_missing_alert_id'', ''validation_no_target'', ''validation_null_source_ip'',
          ''validation_invalid_ip_format'', ''validation_private_ip''}
      then ''policy_blocked''
      else if code \<in> {''simulated_block_ip'', ''simulated_flag_high_priority'', ''simulated_monitor''}
      then ''simulation_mode''
      else ''provider_error'')"

subsection \<open>The text of an outcome\<close>

text \<open>The second regular expression: a name, \<open>=\<close>, and what follows up to a blank; the name stays.\<close>

definition secret_name :: "string \<Rightarrow> string option" where
  "secret_name s =
     List.find (\<lambda>n. lower (take (length n) s) = n)
       [''token'', ''secret'', ''password'', ''api_key'', ''api-key'', ''apikey'']"

definition secret_at :: "string \<Rightarrow> (string \<times> string) option" where
  "secret_at s =
     (case secret_name s of
        None \<Rightarrow> None
      | Some n \<Rightarrow>
          (case drop (length n) s of
             x # c # rest \<Rightarrow>
               if x = CHR ''='' \<and> \<not> is_space c
               then Some (take (length n) s, dropWhile (\<lambda>c. \<not> is_space c) rest) else None
           | _ \<Rightarrow> None))"

lemma secret_at_shorter: "secret_at s = Some (n, rest) \<Longrightarrow> length rest < length s"
proof -
  assume "secret_at s = Some (n, rest)"
  then obtain m x c r where "drop m s = x # c # r" "rest = dropWhile (\<lambda>c. \<not> is_space c) r"
    by (auto simp: secret_at_def split: option.splits list.splits if_splits)
  then have "length rest \<le> length r" "length (drop m s) = Suc (Suc (length r))"
    by (simp_all add: length_dropWhile_le)
  then show ?thesis by simp
qed

function secret_sub :: "string \<Rightarrow> string" where
  "secret_sub s =
     (case secret_at s of
        Some (n, rest) \<Rightarrow> n @ ''=[redacted]'' @ secret_sub rest
      | None \<Rightarrow> (case s of [] \<Rightarrow> [] | c # cs \<Rightarrow> c # secret_sub cs))"
  by pat_completeness auto
termination
  by (relation "measure length") (auto dest: secret_at_shorter)

declare secret_sub.simps [simp del]

definition safe_outcome_summary :: "string option \<Rightarrow> string" where
  "safe_outcome_summary summary =
     (let blank = (\<lambda>c. if c = CHR 0x0A \<or> c = CHR 0x0D then CHR '' '' else c);
          text = take 500 (secret_sub (url_sub (strip (map blank (coalesce summary [])))))
      in if text = [] then ''SOAR queue worker outcome recorded.'' else text)"

subsection \<open>Outcome events and log entries\<close>

definition savepoint_rollback :: "outcome_db \<Rightarrow> outcome_db \<Rightarrow> outcome_db" where
  "savepoint_rollback c s =
     s\<lparr>soar_response_decisions := soar_response_decisions c,
       soar_response_outcome_events := soar_response_outcome_events c\<rparr>"

text \<open>Every exception of the writer is logged and forgotten.\<close>

definition with_canonical_outcome_savepoint ::
  "(outcome_db, outcome_event) py \<Rightarrow> (worker_db, outcome_event option) py" where
  "with_canonical_outcome_savepoint writer =
     in_commands (in_outcomes (\<lambda>s.
       case writer s of
         (Inr e, s') \<Rightarrow> (Inr (Some e), s')
       | (Inl _, s') \<Rightarrow> (Inr None, savepoint_rollback s s')))"

definition unlinked_row :: "queue_row \<Rightarrow> bool" where
  "unlinked_row row \<longleftrightarrow> q_decision_id row = None \<or> coalesce (q_soar_correlation_id row) [] = []"

definition running_outcome :: "queue_row \<Rightarrow> outcome_args" where
  "running_outcome row =
     (let c = queue_outcome_classification (q_action row) ''running'' None;
          mode = qc_execution_mode c;
          summary = ''Queue worker claimed response action '' @ q_action row @
            (if mode = ''simulation'' then '' for simulation.''
             else '' for '' @ map (\<lambda>x. if x = CHR ''_'' then CHR '' '' else x) mode @ '' processing.'')
      in (outcome_args0 mode ''running'' ''queue_worker'' summary)
           \<lparr>oa_decision_id := q_decision_id row, oa_soar_correlation_id := q_soar_correlation_id row,
            oa_event_type := Some ''running'', oa_simulated := qc_simulated c, oa_reason_code := qc_reason_code c,
            oa_queue_id := Some (q_id row),
            oa_idempotency_key := Some (''queue-running-'' @ show_int (q_id row) @ ''-'' @ show_int (q_retry_count row)),
            oa_metadata := Some [(''queue_id'', PInt (q_id row)), (''retry_count'', PInt (q_retry_count row)),
              (''action'', PStr (q_action row))]\<rparr>)"

definition append_running_outcome_event :: "clock \<Rightarrow> queue_row \<Rightarrow> (worker_db, outcome_event option) py" where
  "append_running_outcome_event clk row =
     (if unlinked_row row then ret None
      else with_canonical_outcome_savepoint (append_outcome_event clk (running_outcome row)))"

definition worker_outcome ::
  "queue_row \<Rightarrow> string \<Rightarrow> string option \<Rightarrow> string option \<Rightarrow> string \<Rightarrow> row_id option \<Rightarrow> row_id option \<Rightarrow>
   string option \<Rightarrow> outcome_args" where
  "worker_outcome row state reason_code summary event_type log_id approval_id error_code =
     (let c = queue_outcome_classification (q_action row) state reason_code
      in (outcome_args0 (qc_execution_mode c) state ''queue_worker'' (safe_outcome_summary summary))
           \<lparr>oa_decision_id := q_decision_id row, oa_soar_correlation_id := q_soar_correlation_id row,
            oa_event_type := Some event_type, oa_simulated := qc_simulated c,
            oa_tracking_recorded := qc_tracking_recorded c, oa_reason_code := qc_reason_code c,
            oa_queue_id := Some (q_id row), oa_approval_request_id := approval_id,
            oa_response_action_log_id := log_id,
            oa_idempotency_key :=
              Some (''queue-'' @ event_type @ ''-'' @ show_int (q_id row) @ ''-'' @ show_int (q_retry_count row)),
            oa_metadata := Some [(''queue_id'', PInt (q_id row)), (''retry_count'', PInt (q_retry_count row)),
              (''action'', PStr (q_action row)), (''error_code'', opt_val PStr error_code)]\<rparr>)"

definition append_worker_outcome_event ::
  "clock \<Rightarrow> queue_row \<Rightarrow> string \<Rightarrow> string option \<Rightarrow> string option \<Rightarrow> string \<Rightarrow> row_id option \<Rightarrow> row_id option \<Rightarrow>
   string option \<Rightarrow> (worker_db, outcome_event option) py" where
  "append_worker_outcome_event clk row state reason_code summary event_type log_id approval_id error_code =
     (if unlinked_row row then ret None
      else with_canonical_outcome_savepoint (append_outcome_event clk
             (worker_outcome row state reason_code summary event_type log_id approval_id error_code)))"

definition append_retry_outcome_events ::
  "clock \<Rightarrow> queue_row \<Rightarrow> string \<Rightarrow> string \<Rightarrow> row_id option \<Rightarrow> (worker_db, outcome_event option) py" where
  "append_retry_outcome_events clk row error_code error_message log_id =
     py_bind (append_worker_outcome_event clk row ''failed'' (Some (canonical_worker_reason_code error_code))
                (Some error_message) (if q_status row = QPending then ''failed_attempt'' else ''failed'')
                log_id None (Some error_code))
       (\<lambda>failed_event.
          if q_status row \<noteq> QPending then ret failed_event
          else append_worker_outcome_event clk row ''queued'' (Some (canonical_worker_reason_code error_code))
                 (Some ''Retryable response action failure requeued for another attempt.'') ''requeued''
                 None None (Some error_code))"

text \<open>The log writer of the worker: a blank correlation id is stored as none.\<close>

definition log_response_action :: "clock \<Rightarrow> queue_row \<Rightarrow> string \<Rightarrow> string option \<Rightarrow> (worker_db, row_id) py" where
  "log_response_action clk row log_status details =
     (if log_status \<notin> {''executed'', ''skipped'', ''failed''}
      then raise (ValueError (''Invalid response action log status: '' @ log_status))
      else in_commands (log_action clk (q_alert_id row) (q_source_ip row) (q_action row) log_status details
             (q_decision_id row)
             (case q_soar_correlation_id row of
                None \<Rightarrow> None | Some c \<Rightarrow> if strip c = [] then None else Some (strip c))))"

record worker_result =
  wr_queue_id :: row_id
  wr_action :: string
  wr_prior_status :: queue_status
  wr_new_status :: queue_status
  wr_outcome :: string
  wr_retryable :: bool
  wr_retry_count :: int
  wr_max_retries :: int
  wr_error_code :: "string option"
  wr_reason :: "string option"
  wr_message :: "string option"

definition worker_result_of ::
  "queue_row \<Rightarrow> queue_row \<Rightarrow> string \<Rightarrow> bool \<Rightarrow> string \<Rightarrow> string option \<Rightarrow> string option \<Rightarrow> worker_result" where
  "worker_result_of original updated res retryable code reason message =
     \<lparr>wr_queue_id = q_id original, wr_action = q_action original, wr_prior_status = q_status original,
      wr_new_status = q_status updated, wr_outcome = res, wr_retryable = retryable,
      wr_retry_count = q_retry_count updated, wr_max_retries = q_max_retries updated,
      wr_error_code = (if res \<noteq> ''success'' then Some code else None), wr_reason = reason, wr_message = message\<rparr>"

subsection \<open>The approval gate\<close>

definition skip_running_action ::
  "clock \<Rightarrow> time option \<Rightarrow> queue_row \<Rightarrow> string \<Rightarrow> string \<Rightarrow> string \<Rightarrow> (worker_db, worker_result) py" where
  "skip_running_action clk now row message reason_code code =
     py_bind (in_queue (mark_action_skipped clk (q_id row) (Some message) now)) (\<lambda>updated.
     py_bind (log_response_action clk row ''skipped'' (Some message)) (\<lambda>log_id.
     py_bind (append_worker_outcome_event clk updated ''skipped'' (Some reason_code) (Some message) ''skipped''
                (Some log_id) None (Some code)) (\<lambda>_.
     ret (worker_result_of row updated ''skipped'' False code (Some message) (Some message)))))"

definition await_approval ::
  "clock \<Rightarrow> queue_row \<Rightarrow> queue_row \<Rightarrow> row_id \<Rightarrow> string \<Rightarrow> string \<Rightarrow> (worker_db, worker_result) py" where
  "await_approval clk row updated approval_id reason code =
     py_bind (append_worker_outcome_event clk updated ''awaiting_approval'' (Some ''approval_required'') (Some reason)
                ''awaiting_approval'' None (Some approval_id) (Some code)) (\<lambda>_.
     ret (worker_result_of row updated ''awaiting_approval'' False code (Some reason) (Some reason)))"

definition queue_approval_args :: "queue_row \<Rightarrow> approval_args" where
  "queue_approval_args row =
     \<lparr>aa_incident_id = None, aa_queue_id = Some (q_id row), aa_playbook_execution_id = None,
      aa_playbook_step_index = None, aa_action = q_action row, aa_requested_by = None,
      aa_request_reason = Some ''approval required for high-risk SOAR action'', aa_risk_level = ''high'',
      aa_expires_at = None, aa_ttl_minutes = DEFAULT_APPROVAL_TTL_MINUTES\<rparr>"

definition refuse_action ::
  "clock \<Rightarrow> time option \<Rightarrow> queue_row \<Rightarrow> approval_request \<Rightarrow> (worker_db, worker_result) py" where
  "refuse_action clk now row approval =
     (let reason = (if ar_status approval = ADenied then ''approval denied'' else ''approval expired'');
          code = (if ar_status approval = ADenied then ''approval_denied'' else ''approval_expired'')
      in py_bind (in_queue (mark_action_skipped clk (q_id row) (Some reason) now)) (\<lambda>updated.
         py_bind (log_response_action clk row ''skipped'' (Some reason)) (\<lambda>log_id.
         py_bind (append_worker_outcome_event clk updated ''blocked'' (Some code) (Some reason) ''blocked''
                    (Some log_id) (Some (ar_id approval)) (Some code)) (\<lambda>_.
         ret (worker_result_of row updated ''skipped'' False code (Some reason) (Some reason))))))"

text \<open>\<open>None\<close> lets the action through.\<close>

definition gate_decision ::
  "clock \<Rightarrow> time option \<Rightarrow> queue_row \<Rightarrow> approval_request option \<Rightarrow> (worker_db, worker_result option) py" where
  "gate_decision clk now row approval =
     (case approval of
        None \<Rightarrow>
          py_bind (in_approvals (create_approval_request clk (queue_approval_args row))) (\<lambda>a.
          py_bind (in_queue (mark_action_awaiting_approval clk (q_id row) (Some ''approval required'') now)) (\<lambda>updated.
          py_bind (await_approval clk row updated (ar_id a) ''approval required'' ''approval_required'') (\<lambda>r.
          ret (Some r))))
      | Some a \<Rightarrow>
          (case ar_status a of
             AApproved \<Rightarrow> ret None
           | APending \<Rightarrow>
               py_bind (if q_status row = QRunning
                        then in_queue (mark_action_awaiting_approval clk (q_id row) (Some ''approval pending'') now)
                        else ret row) (\<lambda>updated.
               py_bind (await_approval clk row updated (ar_id a) ''approval pending'' ''approval_pending'') (\<lambda>r.
               ret (Some r)))
           | _ \<Rightarrow> py_bind (refuse_action clk now row a) (\<lambda>r. ret (Some r))))"

definition handle_approval_gate ::
  "command_env \<Rightarrow> (row_id \<Rightarrow> bool) \<Rightarrow> clock \<Rightarrow> time option \<Rightarrow> queue_row \<Rightarrow> (worker_db, worker_result option) py" where
  "handle_approval_gate env held clk now row =
     (if \<not> action_requires_approval (q_action row) then ret None
      else case (if q_action row = ''block_ip'' then require_unprotected_target (env_protected env) (q_source_ip row)
                 else Inr ()) of
          Inl e \<Rightarrow>
            (case e of
               SkippedAction m code \<Rightarrow>
                 py_bind (skip_running_action clk now row m (canonical_worker_reason_code code) code) (\<lambda>r. ret (Some r))
             | ProtectedTargetConfigError m \<Rightarrow>
                 py_bind (skip_running_action clk now row
                            (''Protected target config invalid; refusing block_ip execution: '' @ m)
                            ''policy_blocked'' ''protected_target_config_invalid'') (\<lambda>r. ret (Some r))
             | _ \<Rightarrow> raise e)
        | Inr _ \<Rightarrow>
            py_bind (in_approvals (expire_pending_requests held clk now 100)) (\<lambda>_.
            py_bind (reads (\<lambda>s. get_latest_approval_for_queue_action (q_id row) (q_action row) (wk_approvals s)))
              (gate_decision clk now row)))"

subsection \<open>Executors\<close>

text \<open>The \<open>code\<close> and the \<open>message\<close> of the dict an executor returns; \<open>None\<close> is any other value.\<close>

type_synonym executor = "queue_row \<Rightarrow> (string option \<times> string option) option result"

definition validate_executor_result :: "(string option \<times> string option) option \<Rightarrow> (string \<times> string) result" where
  "validate_executor_result r =
     (case r of
        None \<Rightarrow> Inl (OtherException ''Executor result must be a dict'')
      | Some (code, message) \<Rightarrow>
          if coalesce code [] = [] then Inl (OtherException ''Executor result missing required code'')
          else if coalesce message [] = [] then Inl (OtherException ''Executor result missing required message'')
          else Inr (the code, the message))"

definition validate_block_ip :: "string option \<Rightarrow> unit result" where
  "validate_block_ip source_ip =
     (case source_ip of
        None \<Rightarrow> Inl (SkippedAction ''Cannot block IP without a source_ip'' ''validation_null_source_ip'')
      | Some ip \<Rightarrow>
          (case ip_address ip of
             Inl _ \<Rightarrow> Inl (SkippedAction (''Invalid source_ip for block_ip: '' @ ip) ''validation_invalid_ip_format'')
           | Inr a \<Rightarrow>
               if non_public a
               then Inl (SkippedAction (''Refusing to block non-public source_ip: '' @ ip) ''validation_private_ip'')
               else Inr ()))"

definition SUPPORTED_ACTIONS :: "string list" where
  "SUPPORTED_ACTIONS = [''block_ip'', ''flag_high_priority'', ''monitor'']"

definition validate_action :: "queue_row \<Rightarrow> unit result" where
  "validate_action row =
     (if q_action row \<notin> set SUPPORTED_ACTIONS
      then Inl (SkippedAction (''Unsupported response action: '' @ q_action row) ''unsupported_action'')
      else if q_action row = ''block_ip'' then validate_block_ip (q_source_ip row)
      else if q_action row = ''flag_high_priority'' \<and> q_alert_id row = None
      then Inl (SkippedAction ''Cannot flag high priority without an alert_id'' ''validation_missing_alert_id'')
      else if q_action row = ''monitor'' \<and> q_source_ip row = None \<and> q_alert_id row = None
      then Inl (SkippedAction ''Cannot monitor without a source_ip or alert_id'' ''validation_no_target'')
      else Inr ())"

definition simulation_executor :: executor where
  "simulation_executor row =
     (case validate_action row of
        Inl e \<Rightarrow> Inl e
      | Inr _ \<Rightarrow>
          if q_action row = ''block_ip''
          then Inr (Some (Some ''simulated_block_ip'',
                 Some (''Simulated IP block for '' @ coalesce (q_source_ip row) ''None'')))
          else if q_action row = ''flag_high_priority''
          then Inr (Some (Some ''simulated_flag_high_priority'',
                 Some (''Simulated escalation for alert '' @ show_opt_id (q_alert_id row))))
          else if q_action row = ''monitor''
          then Inr (Some (Some ''simulated_monitor'',
                 Some (''Monitoring only - no action taken for queue_id='' @ show_int (q_id row))))
          else Inl (SkippedAction (''Unsupported response action: '' @ q_action row) ''unsupported_action''))"

subsection \<open>Carrying an action out\<close>

definition queue_command :: "queue_row \<Rightarrow> ResponseCommandRequest" where
  "queue_command row =
     (request_with_action (q_action row))
       \<lparr>cr_indicator_value := (if coalesce (q_source_ip row) [] = [] then None else q_source_ip row),
        cr_alert_id := q_alert_id row, cr_reason := Some (''Queue worker '' @ q_action row),
        cr_origin_surface := ORIGIN_RESPONSE_QUEUE, cr_queue_id := Some (q_id row),
        cr_idempotency_key := Some (''queue-'' @ show_int (q_id row) @ ''-'' @ q_action row)\<rparr>"

definition perform_command ::
  "command_env \<Rightarrow> clock \<Rightarrow> time option \<Rightarrow> queue_row \<Rightarrow> (worker_db, worker_result) py" where
  "perform_command env clk now row =
     py_bind (in_commands (execute_response_command env clk (queue_command row))) (\<lambda>r.
     if \<not> rs_success r
     then raise (SkippedAction (or_text (rs_error r) (rs_message r)) (or_text (rs_error_code r) ''response_command_failed''))
     else
       py_bind (in_queue (mark_action_success clk (q_id row) now)) (\<lambda>updated.
       py_bind (append_worker_outcome_event clk updated ''succeeded''
                  (if q_action row = ''block_ip'' then Some ''tracking_only'' else None) (Some (rs_message r))
                  ''succeeded'' (rs_response_action_log_id r) None None) (\<lambda>_.
       ret (worker_result_of row updated ''success'' False (rs_outcome_label r) None (Some (rs_message r))))))"

definition perform_other ::
  "executor \<Rightarrow> clock \<Rightarrow> time option \<Rightarrow> queue_row \<Rightarrow> (worker_db, worker_result) py" where
  "perform_other executor clk now row =
     py_bind (of_result (case executor row of Inl e \<Rightarrow> Inl e | Inr v \<Rightarrow> validate_executor_result v)) (\<lambda>(code, message).
     py_bind (in_queue (mark_action_success clk (q_id row) now)) (\<lambda>updated.
     py_bind (log_response_action clk row ''executed'' (Some message)) (\<lambda>log_id.
     py_bind (append_worker_outcome_event clk updated ''succeeded'' (Some ''simulation_mode'') (Some message)
                ''succeeded'' (Some log_id) None None) (\<lambda>_.
     ret (worker_result_of row updated ''success'' False code None (Some message))))))"

definition perform_action ::
  "executor \<Rightarrow> command_env \<Rightarrow> clock \<Rightarrow> time option \<Rightarrow> queue_row \<Rightarrow> (worker_db, worker_result) py" where
  "perform_action executor env clk now row =
     (if q_action row \<in> set CANONICAL_QUEUE_ACTIONS then perform_command env clk now row
      else perform_other executor clk now row)"

text \<open>The handlers. They keep what the action has written before it raised.\<close>

definition retry_action ::
  "clock \<Rightarrow> time option \<Rightarrow> queue_row \<Rightarrow> string \<Rightarrow> string \<Rightarrow> (worker_db, worker_result) py" where
  "retry_action clk now row message code =
     py_bind (in_queue (record_action_failure clk (q_id row) (Some message) True now)) (\<lambda>updated.
     py_bind (if q_status updated = QFailed
              then py_bind (log_response_action clk row ''failed'' (Some message)) (\<lambda>i. ret (Some i))
              else ret None) (\<lambda>log_id.
     py_bind (append_retry_outcome_events clk updated code message log_id) (\<lambda>_.
     ret (worker_result_of row updated (if q_status updated = QPending then ''requeued'' else ''failed'')
            (q_status updated = QPending) code (Some message) (Some message)))))"

definition fail_action :: "clock \<Rightarrow> time option \<Rightarrow> queue_row \<Rightarrow> string \<Rightarrow> (worker_db, worker_result) py" where
  "fail_action clk now row message =
     py_bind (in_queue (record_action_failure clk (q_id row) (Some message) False now)) (\<lambda>updated.
     py_bind (log_response_action clk row ''failed'' (Some message)) (\<lambda>log_id.
     py_bind (append_worker_outcome_event clk updated ''failed'' (Some ''provider_error'') (Some message) ''failed''
                (Some log_id) None (Some ''unexpected_error'')) (\<lambda>_.
     ret (worker_result_of row updated ''failed'' False ''unexpected_error'' (Some message) (Some message)))))"

text \<open>An error of the database aborts the transaction: the handler's own statements fail, and with them the
  call.\<close>

definition database_failure :: "py_error \<Rightarrow> bool" where
  "database_failure e = (case e of IntegrityError _ \<Rightarrow> True | DataError _ \<Rightarrow> True | _ \<Rightarrow> False)"

abbreviation in_failed_transaction :: py_error where
  "in_failed_transaction \<equiv> OtherException
     ''current transaction is aborted, commands ignored until end of transaction block''"

definition handle_failure :: "clock \<Rightarrow> time option \<Rightarrow> queue_row \<Rightarrow> py_error \<Rightarrow> (worker_db, worker_result) py" where
  "handle_failure clk now row e =
     (if database_failure e then raise in_failed_transaction
      else case e of
          SkippedAction m code \<Rightarrow> skip_running_action clk now row m (canonical_worker_reason_code code) code
        | RetryableActionError m code \<Rightarrow> retry_action clk now row m code
        | _ \<Rightarrow> fail_action clk now row (error_text e))"

definition attempt_action ::
  "executor \<Rightarrow> command_env \<Rightarrow> clock \<Rightarrow> time option \<Rightarrow> queue_row \<Rightarrow> (worker_db, worker_result) py" where
  "attempt_action executor env clk now row s =
     (case perform_action executor env clk now row s of
        (Inr r, s') \<Rightarrow> (Inr r, s')
      | (Inl e, s') \<Rightarrow> handle_failure clk now row e s')"

definition run_claimed_action ::
  "executor \<Rightarrow> command_env \<Rightarrow> (row_id \<Rightarrow> bool) \<Rightarrow> clock \<Rightarrow> time option \<Rightarrow> queue_row \<Rightarrow> (worker_db, worker_result) py" where
  "run_claimed_action executor env held clk now row =
     py_bind (handle_approval_gate env held clk now row)
       (\<lambda>stopped. case stopped of Some r \<Rightarrow> ret r | None \<Rightarrow> attempt_action executor env clk now row)"

subsection \<open>The next action\<close>

datatype claim = NoAction | Settled worker_result | Claimed queue_row

definition settle_refused ::
  "clock \<Rightarrow> queue_row \<Rightarrow> approval_status option \<Rightarrow> (worker_db, worker_result) py" where
  "settle_refused clk skipped status =
     (let code = (if status = Some ADenied then ''approval_denied'' else ''approval_expired'')
      in py_bind (reads (\<lambda>s. get_latest_approval_for_queue_action (q_id skipped) (q_action skipped) (wk_approvals s)))
           (\<lambda>approval.
         py_bind (log_response_action clk skipped ''skipped'' (q_last_error skipped)) (\<lambda>log_id.
         py_bind (append_worker_outcome_event clk skipped ''blocked'' (Some code) (q_last_error skipped) ''blocked''
                    (Some log_id) (map_option ar_id approval) None) (\<lambda>_.
         ret (worker_result_of (skipped\<lparr>q_status := QAwaiting\<rparr>) skipped ''skipped'' False code
                (q_last_error skipped) (q_last_error skipped))))))"

text \<open>The first transaction: pending rows first, then approved ones, then one refused row is settled.\<close>

definition claim_action ::
  "(row_id \<Rightarrow> bool) \<Rightarrow> (row_id \<Rightarrow> bool) \<Rightarrow> clock \<Rightarrow> time option \<Rightarrow> (worker_db, claim) py" where
  "claim_action locked held clk now =
     (let begin_action = (\<lambda>row. py_bind (append_running_outcome_event clk row) (\<lambda>_. ret (Claimed row)))
      in py_bind (in_queue (infallible (claim_next_pending_action locked clk now))) (\<lambda>pending.
         case pending of
           Some row \<Rightarrow> begin_action row
         | None \<Rightarrow>
             py_bind (in_approvals (expire_pending_requests held clk now 100)) (\<lambda>_.
             py_bind (reads (\<lambda>s. approval_requests (wk_approvals s))) (\<lambda>approvals.
             py_bind (in_queue (infallible (claim_next_approved_awaiting_action approvals locked clk now))) (\<lambda>approved.
             case approved of
               Some row \<Rightarrow> begin_action row
             | None \<Rightarrow>
                 py_bind (in_queue (infallible (skip_next_terminal_approval_action approvals locked clk now))) (\<lambda>refused.
                 case refused of
                   None \<Rightarrow> ret NoAction
                 | Some (skipped, status) \<Rightarrow>
                     py_bind (settle_refused clk skipped status) (\<lambda>r. ret (Settled r))))))))"

text \<open>The two transactions, each with its own clock.\<close>

definition or_rollback :: "worker_db \<Rightarrow> 'a result \<times> worker_db \<Rightarrow> 'a result \<times> worker_db" where
  "or_rollback c p = (case p of (Inl e, s) \<Rightarrow> (Inl e, worker_rollback c s) | (Inr x, s) \<Rightarrow> (Inr x, s))"

record worker_turn =
  tn_locked :: "row_id \<Rightarrow> bool"
  tn_held :: "row_id \<Rightarrow> bool"
  tn_claim :: clock
  tn_run :: clock

definition process_next_action ::
  "executor \<Rightarrow> command_env \<Rightarrow> time option \<Rightarrow> worker_turn \<Rightarrow> (worker_db, worker_result option) py" where
  "process_next_action executor env now turn s =
     (case or_rollback s (claim_action (tn_locked turn) (tn_held turn) (tn_claim turn) now s) of
        (Inl e, s') \<Rightarrow> (Inl e, s')
      | (Inr NoAction, s') \<Rightarrow> (Inr None, s')
      | (Inr (Settled r), s') \<Rightarrow> (Inr (Some r), s')
      | (Inr (Claimed row), s') \<Rightarrow>
          (case or_rollback s' (run_claimed_action executor env (tn_held turn) (tn_run turn) now row s') of
             (Inl e, s'') \<Rightarrow> (Inl e, s'')
           | (Inr r, s'') \<Rightarrow> (Inr (Some r), s'')))"

text \<open>A batch has one turn for each action it may take.\<close>

fun process_batch ::
  "executor \<Rightarrow> command_env \<Rightarrow> time option \<Rightarrow> worker_turn list \<Rightarrow> (worker_db, worker_result list) py" where
  "process_batch executor env now [] s = (Inr [], s)"
| "process_batch executor env now (turn # turns) s =
     (case process_next_action executor env now turn s of
        (Inl e, s') \<Rightarrow> (Inl e, s')
      | (Inr None, s') \<Rightarrow> (Inr [], s')
      | (Inr (Some r), s') \<Rightarrow>
          (case process_batch executor env now turns s' of
             (Inl e, s'') \<Rightarrow> (Inl e, s'')
           | (Inr rs, s'') \<Rightarrow> (Inr (r # rs), s'')))"

text \<open>A run of the script: an optional recovery, then a batch. The exit status is 2 after an exception.\<close>

definition aggregate_results :: "worker_result list \<Rightarrow> (string \<times> int) list" where
  "aggregate_results results =
     (''processed'', int (length results)) #
     map (\<lambda>res. (res, int (length (filter (\<lambda>r. wr_outcome r = res) results))))
       [''success'', ''failed'', ''skipped'', ''requeued'']"

definition worker_run ::
  "executor \<Rightarrow> command_env \<Rightarrow> (time \<times> int) option \<Rightarrow> clock \<Rightarrow> (row_id \<Rightarrow> bool) \<Rightarrow> worker_turn list \<Rightarrow> worker_db \<Rightarrow>
   (int \<times> (string \<times> int) list option) \<times> worker_db" where
  "worker_run executor env stale clk locked turns s =
     (case (case stale of
              None \<Rightarrow> (Inr [], s)
            | Some (after, n) \<Rightarrow>
                or_rollback s (in_queue (recover_stale_running_actions locked clk None after (Some n)) s)) of
        (Inl _, s') \<Rightarrow> ((2, None), s')
      | (Inr _, s') \<Rightarrow>
          (case process_batch executor env None turns s' of
             (Inl _, s'') \<Rightarrow> ((2, None), s'')
           | (Inr results, s'') \<Rightarrow> ((0, Some (aggregate_results results)), s'')))"

end
