(* ===== verification/Worker_Safety.thy ===== *)
theory Worker_Safety
  imports Action_Worker
begin

text \<open>
  What the worker of \<open>Action_Worker\<close> guarantees over time, beside operators who decide approvals and run
  commands of their own: a blocked address that stands for a queued action was approved, each turn settles
  the row it claims, and the stores keep their invariants through every commit and rollback.
\<close>

subsection \<open>Which queued actions a command records\<close>

text \<open>Every registry event about a block for a queued action is for one of the actions in \<open>Q\<close>.\<close>

definition tracks :: "row_id set \<Rightarrow> registry_db \<Rightarrow> bool" where
  "tracks Q s \<longleftrightarrow> (\<forall>e \<in> set (indicator_response_events s). ie_requested_action e = ''block_ip'' \<longrightarrow>
     (\<forall>i. ie_queue_id e = Some i \<longrightarrow> i \<in> Q))"

lemma tracks_mono: "tracks Q s \<Longrightarrow> Q \<subseteq> Q' \<Longrightarrow> tracks Q' s"
  by (auto simp: tracks_def)

abbreviation tracking :: "row_id set \<Rightarrow> (command_db, 'a) py \<Rightarrow> bool" where
  "tracking Q \<equiv> keeps (\<lambda>s :: command_db. tracks Q (cmd_registry s)) (\<lambda>_ _. True)"

interpretation tracking: program_logic "\<lambda>s :: command_db. tracks Q (cmd_registry s)" "\<lambda>_ _. True" for Q
  by unfold_locales simp_all

lemma tracking_unread: "(\<And>s r s'. m s = (r, s') \<Longrightarrow> cmd_registry s' = cmd_registry s) \<Longrightarrow> tracking Q m"
  by (simp add: keeps_def) (metis prod.collapse)

lemma tracking_registry:
  "(\<And>t. tracks Q t \<Longrightarrow> tracks Q (snd (m t))) \<Longrightarrow> tracking Q (in_registry m)"
  by (auto simp: keeps_def in_registry_def split: prod.splits) (metis snd_conv)

lemma tracking_upsert: "tracking Q (in_registry (upsert_indicator_identity clk ty v))"
proof (rule tracking_registry)
  fix t assume "tracks Q t"
  then show "tracks Q (snd (upsert_indicator_identity clk ty v t))"
    by (cases rule: upsert_cases [of clk ty v t]) (auto simp: tracks_def)
qed

lemma tracking_append:
  assumes "\<And>i. va_requested_action a = ''block_ip'' \<Longrightarrow> va_queue_id a = Some i \<Longrightarrow> i \<in> Q"
  shows "tracking Q (in_registry (append_registry_event clk a))"
proof (rule tracking_registry)
  fix t assume "tracks Q t"
  then show "tracks Q (snd (append_registry_event clk a t))"
    by (cases rule: append_registry_cases [of clk a t]) (auto simp: tracks_def new_registry_event_def assms)
qed

lemma tracking_lookup: "tracking Q (in_registry (\<lambda>t. (f t, t)))"
  by (rule tracking_registry) simp

lemma tracking_update: "tracking Q (update_record i f)"
  unfolding update_record_def by (rule tracking_registry) (simp add: changes_def tracks_def)

lemma tracking_others:
  "tracking Q (in_outcomes m)" "tracking Q (record_decision env clk a)"
  "tracking Q (log_action clk al ip act st det d c)" "tracking Q (mark_alert_executed act al)"
  "tracking Q (get_or_create_active_blocked_ip clk ip' c' r al e)"
  "tracking Q (deactivate_block b)"
  by (auto intro!: tracking_unread dest!: in_outcomes_state record_decision_state log_action_state
      mark_alert_state get_or_create_state simp: deactivate_block_def changes_def)

lemma tracking_incident: "tracking Q (ensure_escalation_incident clk al ip actor)"
proof (rule tracking_unread)
  fix s r s' assume "ensure_escalation_incident clk al ip actor s = (r, s')"
  moreover have "cmd_registry (link_incident clk i al t) = cmd_registry t" for i t
    by (auto simp: link_incident_def split: option.splits)
  ultimately show "cmd_registry s' = cmd_registry s"
    by (auto simp: ensure_escalation_incident_def Let_def split: option.splits if_splits)
qed

lemma tracking_inet: "tracking Q (\<lambda>s. if c then (Inr (f s), s) else (Inl e, s))"
  by (rule tracking.keeps_same) simp

lemmas tracking_rules = tracking.keeps_bind tracking.keeps_pure tracking_upsert tracking_append tracking_lookup
  tracking_update tracking_others tracking_incident tracking_inet keeps_if keeps_case_option keeps_case_prod

lemma tracking_reject: "tracking Q (reject_command clk q act ip key msg code)"
proof -
  let ?P = "py_bind (in_registry (upsert_indicator_identity clk INDICATOR_TYPE_IP (the ip)))
       (\<lambda>r. py_bind (in_registry (append_registry_event clk
          ((event_args0 (ir_id r) ''rejected'' act ''rejected'' (origin_of q))
             \<lparr>va_disposition_after := Some DISPOSITION_REJECTED,
              va_actor_user_id := cr_actor_user_id q, va_reason := Some msg,
              va_alert_id := cr_alert_id q, va_idempotency_key := Some (''reject-'' @ key),
              va_safe_metadata := Some [(''error_code'', PStr code)]\<rparr>)))
       (\<lambda>e. ret (ir_id r, ie_id e)))"
  have prog: "tracking Q ?P" by (intro tracking_rules) (simp add: event_args0_def)
  show ?thesis
    unfolding keeps_def
  proof (intro allI impI)
    fix s :: command_db assume s: "tracks Q (cmd_registry s)"
    have "snd (reject_command clk q act ip key msg code s) \<in> {s, snd (?P s)}"
      unfolding reject_command_def Let_def by (auto simp del: py_bind.simps split: sum.splits prod.splits)
    then show "tracks Q (cmd_registry (snd (reject_command clk q act ip key msg code s))) \<and> True"
      using prog s unfolding keeps_def by fastforce
  qed
qed

lemma tracking_commands:
  assumes Q: "\<And>i. act = ''block_ip'' \<Longrightarrow> cr_queue_id q = Some i \<Longrightarrow> i \<in> Q"
  shows "tracking Q (execute_block_ip env clk q act ip key)" "tracking Q (execute_monitor env clk q act ip key)"
    "tracking Q (execute_stop_monitor clk q act ip key)" "tracking Q (execute_remove_tracking clk q act ip key)"
    "tracking Q (execute_add_note clk q act ip key)" "tracking Q (execute_escalate env clk q act ip' key)"
proof -
  show "tracking Q (execute_block_ip env clk q act ip key)"
  proof (cases "block_checks env ip")
    case (Inl e)
    then show ?thesis unfolding execute_block_ip_def
      by (simp add: tracking_reject tracking.keeps_pure split: option.split)
  next
    case (Inr u)
    then show ?thesis unfolding execute_block_ip_def Inr sum.case
      by (intro tracking_rules) (simp_all add: block_event_def event_args0_def Q)
  qed
  show "tracking Q (execute_monitor env clk q act ip key)"
    unfolding execute_monitor_def start_monitor_def Let_def
    by (intro tracking_rules) (simp_all add: internal_event_def event_args0_def Q)
  show "tracking Q (execute_stop_monitor clk q act ip key)"
    unfolding execute_stop_monitor_def by (intro tracking_rules) (simp_all add: event_args0_def)
  show "tracking Q (execute_remove_tracking clk q act ip key)"
    unfolding execute_remove_tracking_def by (intro tracking_rules) (simp_all add: removal_event_def event_args0_def)
  show "tracking Q (execute_add_note clk q act ip key)"
    unfolding execute_add_note_def by (intro tracking_rules) (simp_all add: event_args0_def)
  show "tracking Q (execute_escalate env clk q act ip' key)"
    unfolding execute_escalate_def escalation_event_def
    by (intro tracking_rules) (simp_all add: internal_event_def event_args0_def Q)
qed

lemma command_tracks:
  assumes Q: "\<And>i. validate_response_command_action (Some (cr_action q)) = Inr ''block_ip'' \<Longrightarrow>
      cr_queue_id q = Some i \<Longrightarrow> i \<in> Q"
    and s: "tracks Q (cmd_registry s)"
  shows "tracks Q (cmd_registry (snd (execute_response_command env clk q s)))"
proof (cases "request_refusal q s")
  case (Inr r)
  then show ?thesis using s by (simp add: execute_response_command_def)
next
  case (Inl ai)
  obtain act ip where ai: "ai = (act, ip)" by (cases ai)
  have "tracking Q
     (if act = ''block_ip'' then execute_block_ip env clk q act (the ip) key
      else if act = ''monitor'' then execute_monitor env clk q act (the ip) key
      else if act = ''stop_monitor'' then execute_stop_monitor clk q act (the ip) key
      else if act = ''remove_tracking'' then execute_remove_tracking clk q act (the ip) key
      else if act = ''add_note'' then execute_add_note clk q act (the ip) key
      else execute_escalate env clk q act ip key)" for key
    using Q request_accepted(1) [OF Inl [unfolded ai]] by (intro keeps_if tracking_commands) auto
  then show ?thesis using s by (simp add: execute_response_command_def Inl ai Let_def keeps_def)
qed

subsection \<open>The invariant of the worker's stores\<close>

definition approved_blocks :: "approval_db \<Rightarrow> row_id set" where
  "approved_blocks s = {i. \<exists>r \<in> set (approval_requests s).
     ar_queue_id r = Some i \<and> ar_action r = ''block_ip'' \<and> ar_status r = AApproved}"

text \<open>\<open>A\<close> are actions that are known to be approved.\<close>

definition worker_ok :: "(string \<Rightarrow> string) \<Rightarrow> command_env \<Rightarrow> row_id set \<Rightarrow> worker_db \<Rightarrow> bool" where
  "worker_ok sha env A s \<longleftrightarrow>
     queue_inv sha (wk_queue s) \<and> approval_inv (wk_approvals s) \<and> command_inv env (wk_commands s) \<and>
     tracks (approved_blocks (wk_approvals s)) (cmd_registry (wk_commands s)) \<and>
     A \<subseteq> approved_blocks (wk_approvals s)"

definition worker_grows :: "worker_db \<Rightarrow> worker_db \<Rightarrow> bool" where
  "worker_grows s s' \<longleftrightarrow>
     evolves q_id queue_step (response_actions_queue (wk_queue s)) (response_actions_queue (wk_queue s')) \<and>
     evolves ar_id approval_step (approval_requests (wk_approvals s)) (approval_requests (wk_approvals s')) \<and>
     approval_seq (wk_approvals s) \<le> approval_seq (wk_approvals s') \<and>
     command_grows (wk_commands s) (wk_commands s')"

lemma worker_grows_refl: "worker_grows s s"
  by (simp add: worker_grows_def queue.evolves_refl approvals.evolves_refl)

lemma worker_grows_trans: "worker_grows s s' \<Longrightarrow> worker_grows s' s'' \<Longrightarrow> worker_grows s s''"
  unfolding worker_grows_def
  by (blast intro: queue.evolves_trans approvals.evolves_trans command_grows_trans order_trans)

interpretation worker: program_logic "worker_ok sha env A" worker_grows for sha env A
  by unfold_locales (auto intro: worker_grows_refl worker_grows_trans)

lemma approved_blocks_mono:
  assumes "evolves ar_id approval_step (approval_requests s) (approval_requests s')"
  shows "approved_blocks s \<subseteq> approved_blocks s'"
proof
  fix i assume "i \<in> approved_blocks s"
  then obtain r where r: "r \<in> set (approval_requests s)" "ar_queue_id r = Some i" "ar_action r = ''block_ip''"
      "ar_status r = AApproved" by (auto simp: approved_blocks_def)
  with approvals.final_kept [OF assms r(1)] show "i \<in> approved_blocks s'"
    by (auto simp: approved_blocks_def)
qed

lemma keeps_in_queue:
  assumes "\<And>q. queue_inv sha q \<Longrightarrow> queue_safe sha q (snd (m q))"
  shows "keeps (worker_ok sha env A) worker_grows (in_queue m)"
  using assms
  by (auto simp: keeps_def in_queue_def worker_ok_def worker_grows_def queue_safe_def approvals.evolves_refl
      split: prod.splits) (metis snd_conv)+

lemma keeps_in_approvals:
  assumes "\<And>a. approval_inv a \<Longrightarrow> approval_safe a (snd (m a))"
    and "\<And>a. approval_seq a \<le> approval_seq (snd (m a))"
  shows "keeps (worker_ok sha env A) worker_grows (in_approvals m)"
  unfolding keeps_def
proof (intro allI impI)
  fix s assume ok: "worker_ok sha env A s"
  obtain r t where m: "m (wk_approvals s) = (r, t)" by fastforce
  have t: "approval_inv t" "evolves ar_id approval_step (approval_requests (wk_approvals s)) (approval_requests t)"
    using assms(1) [of "wk_approvals s"] ok m by (auto simp: worker_ok_def approval_safe_def)
  from approved_blocks_mono [OF t(2)] show "worker_ok sha env A (snd (in_approvals m s)) \<and>
      worker_grows s (snd (in_approvals m s))"
    using ok t m assms(2) [of "wk_approvals s"]
    by (auto simp: in_approvals_def worker_ok_def worker_grows_def queue.evolves_refl intro: tracks_mono)
qed

lemma keeps_in_commands:
  assumes "keeps (command_inv env) command_grows m"
    and "\<And>t Q. A \<subseteq> Q \<Longrightarrow> tracks Q (cmd_registry t) \<Longrightarrow> tracks Q (cmd_registry (snd (m t)))"
  shows "keeps (worker_ok sha env A) worker_grows (in_commands m)"
  using assms
  by (auto simp: keeps_def in_commands_def worker_ok_def worker_grows_def queue.evolves_refl approvals.evolves_refl
      split: prod.splits) (metis snd_conv)+

subsection \<open>Rollbacks\<close>

lemma wf_ids_within:
  "wf_ids key m t \<Longrightarrow> key ` set t \<subseteq> key ` set t' \<Longrightarrow> wf_ids key n t' \<Longrightarrow> wf_ids key n t"
  by (force simp: wf_ids_def)

lemma evolves_within: "evolves key step t t' \<Longrightarrow> key ` set t \<subseteq> key ` set t'"
  unfolding evolves_def by (metis image_eqI image_subsetI)

lemma prefix_within: "prefix t t' \<Longrightarrow> key ` set t \<subseteq> key ` set t'"
  by (auto dest: set_mono_prefix)

lemma prefix_map_within:
  assumes "prefix (map f t) (map f t')" "\<And>r r'. f r = f r' \<Longrightarrow> key r = key r'"
  shows "key ` set t \<subseteq> key ` set t'"
proof
  fix k assume "k \<in> key ` set t"
  then obtain r where "r \<in> set t" "k = key r" by auto
  then have "f r \<in> set (map f t')" using set_mono_prefix [OF assms(1)] by auto
  with \<open>k = key r\<close> assms(2) show "k \<in> key ` set t'" by (metis (no_types, lifting) image_eqI imageE list.set_map)
qed

lemma queue_rollback_inv:
  assumes "queue_inv sha c" "queue_inv sha s"
    and "evolves q_id queue_step (response_actions_queue c) (response_actions_queue s)"
  shows "queue_inv sha (c\<lparr>queue_seq := queue_seq s\<rparr>)"
  using assms wf_ids_within [OF queue_inv_ids(1) [OF assms(1)] evolves_within [OF assms(3)] queue_inv_ids(1) [OF assms(2)]]
  by (simp add: queue_inv_def)

lemma approval_rollback_inv:
  assumes "approval_inv c" "approval_inv s"
    and "evolves ar_id approval_step (approval_requests c) (approval_requests s)" "approval_seq c \<le> approval_seq s"
  shows "approval_inv (rollback c s)"
proof -
  have "wf_ids ar_id (approval_seq s) (approval_requests c)"
    by (rule wf_ids_within [OF _ evolves_within [OF assms(3)]]) (use assms in \<open>auto simp: approval_inv_def\<close>)
  then show ?thesis using assms(1,4) by (fastforce simp: approval_inv_def rollback_def)
qed

lemma command_rollback_inv:
  assumes "command_inv env c" "command_inv env s" "command_grows c s"
  shows "command_inv env (command_rollback c s)" "command_grows c (command_rollback c s)"
proof -
  note g = assms(3) [unfolded command_grows_def outcome_grows_def registry_grows_def]
  note i = assms(1,2) [unfolded command_inv_def outcomes_ok_def registry_ok_def outcome_inv_def registry_inv_def]
  have "wf_ids ir_id (registry_seq (cmd_registry s)) (indicator_registry (cmd_registry c))"
    by (rule wf_ids_within [OF _ prefix_map_within [where f = registry_identity]])
      (use g i in \<open>auto simp: registry_identity_def\<close>)
  moreover have "wf_ids ie_id (registry_event_seq (cmd_registry s)) (indicator_response_events (cmd_registry c))"
    by (rule wf_ids_within [OF _ prefix_within]) (use g i in auto)
  moreover have "wf_ids rd_id (decision_seq (cmd_outcomes s)) (soar_response_decisions (cmd_outcomes c))"
    by (rule wf_ids_within [OF _ prefix_within]) (use g i in auto)
  moreover have "wf_ids oe_id (outcome_seq (cmd_outcomes s)) (soar_response_outcome_events (cmd_outcomes c))"
    by (rule wf_ids_within [OF _ prefix_within]) (use g i in auto)
  moreover have "wf_ids bi_id (blocked_seq s) (blocked_ips c)"
    by (rule wf_ids_within [OF _ evolves_within]) (use g i in auto)
  moreover have "wf_ids lg_id (action_log_seq s) (response_actions_log c)"
    by (rule wf_ids_within [OF _ prefix_within]) (use g i in auto)
  moreover have "wf_ids in_id (incident_seq s) (incidents c)"
    by (rule wf_ids_within [OF _ prefix_within]) (use g i in auto)
  ultimately show "command_inv env (command_rollback c s)"
    using i(1) by (simp add: command_inv_def outcomes_ok_def registry_ok_def outcome_inv_def registry_inv_def
        command_rollback_def)
  show "command_grows c (command_rollback c s)"
    by (simp add: command_grows_def command_rollback_def outcome_grows_def registry_grows_def blocklist.evolves_refl)
qed

lemma worker_rollback_ok:
  assumes "worker_ok sha env A c" "worker_ok sha env B s" "worker_grows c s"
  shows "worker_ok sha env A (worker_rollback c s)" "worker_grows c (worker_rollback c s)"
proof -
  note parts = assms [unfolded worker_ok_def worker_grows_def]
  have "queue_inv sha ((wk_queue c)\<lparr>queue_seq := queue_seq (wk_queue s)\<rparr>)"
    using parts by (intro queue_rollback_inv) auto
  moreover have "approval_inv (rollback (wk_approvals c) (wk_approvals s))"
    using parts by (intro approval_rollback_inv) auto
  moreover have "command_inv env (command_rollback (wk_commands c) (wk_commands s))"
      and cmd: "command_grows (wk_commands c) (command_rollback (wk_commands c) (wk_commands s))"
    using parts by (auto intro: command_rollback_inv)
  moreover have "approved_blocks (rollback (wk_approvals c) (wk_approvals s)) = approved_blocks (wk_approvals c)"
    by (simp add: approved_blocks_def rollback_def)
  moreover have "tracks Q (cmd_registry (command_rollback (wk_commands c) (wk_commands s))) =
      tracks Q (cmd_registry (wk_commands c))" for Q
    by (simp add: tracks_def command_rollback_def)
  ultimately show "worker_ok sha env A (worker_rollback c s)"
    using parts by (simp add: worker_ok_def worker_rollback_def)
  show "worker_grows c (worker_rollback c s)"
    using cmd parts
    by (simp add: worker_grows_def worker_rollback_def queue.evolves_refl approvals.evolves_refl rollback_def)
qed

subsection \<open>Every statement of the worker\<close>

lemma expire_rows_seq: "approval_seq (snd (expire_rows clk now rows s)) = approval_seq s"
proof (induction rows arbitrary: s)
  case (Cons r rows)
  have "approval_seq s' = approval_seq s" if "materialize_expiration clk r now s = (x, s')" for x s'
    using materialize_seq [of clk r now s] that by simp
  then show ?case using Cons.IH by (auto split: prod.splits sum.splits) (metis snd_conv)+
qed simp

lemma keeps_expire: "keeps (worker_ok sha env A) worker_grows (in_approvals (expire_pending_requests held clk now n))"
  by (intro keeps_in_approvals expire_pending_requests_safe)
    (simp_all add: expire_pending_requests_def Let_def expire_rows_seq)

lemma keeps_create: "keeps (worker_ok sha env A) worker_grows (in_approvals (create_approval_request clk a))"
  by (intro keeps_in_approvals create_approval_request_safe)
    (auto simp: create_approval_request_def Let_def write_audit_event_def insert_event_def)

lemma keeps_outcome:
  assumes "\<not> oa_external_executed a"
  shows "keeps (worker_ok sha env A) worker_grows (with_canonical_outcome_savepoint (append_outcome_event clk a))"
proof -
  have same: "snd (case append_outcome_event clk a s of
      (Inl x, s') \<Rightarrow> (Inr None, savepoint_rollback s s') | (Inr e, s') \<Rightarrow> (Inr (Some e), s')) =
    snd (append_outcome_event clk a s)" for s
    by (cases rule: append_outcome_cases [of clk a s]) (auto simp: savepoint_rollback_def)
  show ?thesis
    unfolding with_canonical_outcome_savepoint_def
  proof (rule keeps_in_commands)
    show "keeps (command_inv env) command_grows (in_outcomes (\<lambda>s. case append_outcome_event clk a s of
        (Inl x, s') \<Rightarrow> (Inr None, savepoint_rollback s s') | (Inr e, s') \<Rightarrow> (Inr (Some e), s')))"
      using keeps_append_outcome [OF assms, of clk] by (intro keeps_in_outcomes) (simp add: keeps_def same)
  qed (simp add: in_outcomes_def split: prod.split)
qed

lemma keeps_worker_outcomes:
  "keeps (worker_ok sha env A) worker_grows (append_running_outcome_event clk row)"
  "keeps (worker_ok sha env A) worker_grows (append_worker_outcome_event clk row st rc sm et l ap ec)"
  unfolding append_running_outcome_event_def append_worker_outcome_event_def
  by (intro keeps_if worker.keeps_pure keeps_outcome;
      simp add: running_outcome_def worker_outcome_def outcome_args0_def Let_def)+

lemma keeps_log: "keeps (worker_ok sha env A) worker_grows (log_response_action clk row st det)"
  unfolding log_response_action_def
  by (intro keeps_if worker.keeps_pure keeps_in_commands keeps_log_action) (simp add: log_action_def Let_def)

lemma keeps_queue_marks:
  "keeps (worker_ok sha env A) worker_grows (in_queue (mark_action_awaiting_approval clk i e now))"
  "keeps (worker_ok sha env A) worker_grows (in_queue (mark_action_success clk i now))"
  "keeps (worker_ok sha env A) worker_grows (in_queue (mark_action_skipped clk i e now))"
  "keeps (worker_ok sha env A) worker_grows (in_queue (record_action_failure clk i e b now))"
  "keeps (worker_ok sha env A) worker_grows (in_queue (recover_stale_running_actions locked clk now d n))"
  by (intro keeps_in_queue mark_safe record_failure_safe recover_safe; assumption)+

lemma snd_infallible: "snd (infallible f s) = snd (f s)"
  by (simp add: infallible_def split: prod.split)

lemma keeps_claims:
  "keeps (worker_ok sha env A) worker_grows (in_queue (infallible (claim_next_pending_action locked clk now)))"
  "keeps (worker_ok sha env A) worker_grows (in_queue (infallible (claim_next_approved_awaiting_action aps locked clk now)))"
  "keeps (worker_ok sha env A) worker_grows (in_queue (infallible (skip_next_terminal_approval_action aps locked clk now)))"
  by (intro keeps_in_queue; simp add: snd_infallible claim_safe)+

lemmas worker_rules = worker.keeps_bind worker.keeps_pure keeps_expire keeps_create keeps_worker_outcomes keeps_log
  keeps_queue_marks keeps_claims keeps_if keeps_case_option keeps_case_prod

lemma keeps_skip: "keeps (worker_ok sha env A) worker_grows (skip_running_action clk now row m rc c)"
  unfolding skip_running_action_def by (intro worker_rules)

lemma keeps_await: "keeps (worker_ok sha env A) worker_grows (await_approval clk row upd i m c)"
  unfolding await_approval_def by (intro worker_rules)

lemma keeps_refuse: "keeps (worker_ok sha env A) worker_grows (refuse_action clk now row a)"
  unfolding refuse_action_def Let_def by (intro worker_rules)

lemma keeps_settle: "keeps (worker_ok sha env A) worker_grows (settle_refused clk row st)"
  unfolding settle_refused_def Let_def by (intro worker_rules)

lemma keeps_gate_decision: "keeps (worker_ok sha env A) worker_grows (gate_decision clk now row approval)"
  unfolding gate_decision_def
  by (cases approval; simp only: option.case)
    (intro worker_rules keeps_await keeps_refuse | split approval_status.split; intro conjI impI)+

lemma keeps_gate: "keeps (worker_ok sha env A) worker_grows (handle_approval_gate env' held clk now row)"
  unfolding handle_approval_gate_def
  by (split sum.split py_error.split; intro conjI allI impI worker_rules keeps_skip keeps_gate_decision)+

lemma keeps_retry: "keeps (worker_ok sha env A) worker_grows (retry_action clk now row m c)"
  unfolding retry_action_def append_retry_outcome_events_def by (intro worker_rules)

lemma keeps_fail: "keeps (worker_ok sha env A) worker_grows (fail_action clk now row m)"
  unfolding fail_action_def by (intro worker_rules)

lemma keeps_handler: "keeps (worker_ok sha env A) worker_grows (handle_failure clk now row e)"
  unfolding handle_failure_def
  by (cases e; simp only: py_error.case database_failure_def; intro worker_rules keeps_skip keeps_retry keeps_fail)

lemma queue_actions_canonical: "a \<in> set CANONICAL_QUEUE_ACTIONS \<Longrightarrow> validate_response_command_action (Some a) = Inr a"
  unfolding CANONICAL_QUEUE_ACTIONS_def by (simp; elim disjE; simp; code_simp)

lemma keeps_perform:
  assumes "q_action row = ''block_ip'' \<Longrightarrow> q_id row \<in> A"
  shows "keeps (worker_ok sha env A) worker_grows (perform_action executor env clk now row)"
proof (cases "q_action row \<in> set CANONICAL_QUEUE_ACTIONS")
  case True
  have "tracks Q (cmd_registry (snd (execute_response_command env clk (queue_command row) t)))"
    if "A \<subseteq> Q" "tracks Q (cmd_registry t)" for t Q
    using that assms queue_actions_canonical [OF True]
    by (intro command_tracks) (auto simp: queue_command_def request_with_action_def)
  then show ?thesis
    unfolding perform_action_def perform_command_def using True
    by (simp only: if_True) (intro worker_rules keeps_in_commands keeps_command; assumption)
next
  case False
  then show ?thesis unfolding perform_action_def perform_other_def
    by (simp only: if_False) (intro worker_rules)
qed

lemma keepsD: "keeps I R m \<Longrightarrow> I s \<Longrightarrow> m s = (r, s') \<Longrightarrow> I s' \<and> R s s'"
  by (metis keeps_def snd_conv)

lemma keeps_attempt:
  assumes "q_action row = ''block_ip'' \<Longrightarrow> q_id row \<in> A"
  shows "keeps (worker_ok sha env A) worker_grows (attempt_action executor env clk now row)"
  unfolding keeps_def
proof (intro allI impI)
  fix s assume s: "worker_ok sha env A s"
  obtain r s1 where p: "perform_action executor env clk now row s = (r, s1)" by fastforce
  then have s1: "worker_ok sha env A s1" "worker_grows s s1"
    using keepsD [OF keeps_perform [OF assms] s p] by simp_all
  then show "worker_ok sha env A (snd (attempt_action executor env clk now row s)) \<and>
      worker_grows s (snd (attempt_action executor env clk now row s))"
    using keeps_handler [of sha env A clk now row] p worker_grows_trans
    by (cases r) (auto simp: attempt_action_def keeps_def)
qed

text \<open>A block that passes the gate is approved.\<close>

lemma bind_Some: "py_bind m (\<lambda>r. ret (Some r)) s \<noteq> (Inr None, s')"
  by (auto simp: ret_def split: prod.split sum.split)

lemma gate_decision_passed:
  "gate_decision clk now row approval s = (Inr None, s') \<Longrightarrow>
   s' = s \<and> (\<exists>a. approval = Some a \<and> ar_status a = AApproved)"
  unfolding gate_decision_def
  by (auto simp: ret_def split: option.splits approval_status.splits prod.splits sum.splits)

lemma gate_passed:
  assumes "handle_approval_gate env held clk now row s = (Inr None, s')" "q_action row = ''block_ip''"
  shows "q_id row \<in> approved_blocks (wk_approvals s')"
proof -
  have req: "action_requires_approval (q_action row)"
    using assms(2) by (simp add: action_requires_approval_def APPROVAL_REQUIRED_ACTIONS_def)
  note run = assms(1) [unfolded handle_approval_gate_def]
  obtain u where "(if q_action row = ''block_ip'' then require_unprotected_target (env_protected env) (q_source_ip row)
      else Inr ()) = Inr u"
    using run req bind_Some [of _ s s']
    by (cases "if q_action row = ''block_ip'' then require_unprotected_target (env_protected env) (q_source_ip row)
      else Inr ()") (auto simp: raise_def simp del: py_bind.simps split: py_error.splits)
  with run req have body: "py_bind (in_approvals (expire_pending_requests held clk now 100)) (\<lambda>_.
      py_bind (reads (\<lambda>s. get_latest_approval_for_queue_action (q_id row) (q_action row) (wk_approvals s)))
        (gate_decision clk now row)) s = (Inr None, s')" by (simp del: py_bind.simps)
  obtain r s1 where e: "in_approvals (expire_pending_requests held clk now 100) s = (r, s1)" by fastforce
  with body obtain rows where r: "r = Inr rows" by (cases r) auto
  have "gate_decision clk now row (get_latest_approval_for_queue_action (q_id row) (q_action row) (wk_approvals s1)) s1 =
      (Inr None, s')" using body e r by (simp add: reads_def)
  then obtain a where a: "s' = s1" "ar_status a = AApproved"
      "get_latest_approval_for_queue_action (q_id row) (q_action row) (wk_approvals s1) = Some a"
    using gate_decision_passed by blast
  then have "a \<in> set (approval_requests (wk_approvals s1))" "ar_queue_id a = Some (q_id row)" "ar_action a = ''block_ip''"
    using assms(2) by (auto simp: get_latest_approval_for_queue_action_def newest_first_def dest!: fetchone_mem)
  with a show ?thesis by (auto simp: approved_blocks_def)
qed

lemma worker_ok_more: "worker_ok sha env A s \<Longrightarrow> B \<subseteq> approved_blocks (wk_approvals s) \<Longrightarrow> worker_ok sha env B s"
  by (simp add: worker_ok_def)

lemma keeps_run: "keeps (worker_ok sha env A) worker_grows (run_claimed_action executor env held clk now row)"
  unfolding keeps_def
proof (intro allI impI)
  fix s assume s: "worker_ok sha env A s"
  obtain r s1 where g: "handle_approval_gate env held clk now row s = (r, s1)" by fastforce
  then have s1: "worker_ok sha env A s1" "worker_grows s s1"
    using keepsD [OF keeps_gate s g] by simp_all
  let ?t = "snd (run_claimed_action executor env held clk now row s)"
  show "worker_ok sha env A ?t \<and> worker_grows s ?t"
  proof (cases "r = Inr None")
    case True
    let ?B = "A \<union> (if q_action row = ''block_ip'' then {q_id row} else {})"
    have "worker_ok sha env ?B s1"
      using s1(1) gate_passed [OF g [unfolded True]] by (auto simp: worker_ok_def)
    then have "worker_ok sha env ?B (snd (attempt_action executor env clk now row s1))"
        "worker_grows s1 (snd (attempt_action executor env clk now row s1))"
      using keeps_attempt [of row ?B sha env executor clk now] by (auto simp: keeps_def)
    then show ?thesis using g True s1(2) worker_grows_trans
      by (auto simp: run_claimed_action_def worker_ok_def)
  next
    case False
    then have "?t = s1" using g by (auto simp: run_claimed_action_def ret_def split: sum.splits option.splits)
    then show ?thesis using s1 by simp
  qed
qed

lemma keeps_claim: "keeps (worker_ok sha env A) worker_grows (claim_action locked held clk now)"
  unfolding claim_action_def Let_def by (intro worker_rules keeps_settle)

lemma keeps_transaction:
  assumes "keeps (worker_ok sha env A) worker_grows m"
  shows "keeps (worker_ok sha env A) worker_grows (\<lambda>s. or_rollback s (m s))"
  unfolding keeps_def
proof (intro allI impI)
  fix s assume s: "worker_ok sha env A s"
  obtain r s1 where m: "m s = (r, s1)" by fastforce
  then have "worker_ok sha env A s1" "worker_grows s s1" using keepsD [OF assms s m] by simp_all
  with s show "worker_ok sha env A (snd (or_rollback s (m s))) \<and> worker_grows s (snd (or_rollback s (m s)))"
    using worker_rollback_ok [OF s, of A s1] m by (auto simp: or_rollback_def split: sum.split)
qed

lemma keeps_next: "keeps (worker_ok sha env A) worker_grows (process_next_action executor env now turn)"
  unfolding keeps_def
proof (intro allI impI)
  fix s assume s: "worker_ok sha env A s"
  obtain r s1 where c: "or_rollback s (claim_action (tn_locked turn) (tn_held turn) (tn_claim turn) now s) = (r, s1)"
    by fastforce
  then have s1: "worker_ok sha env A s1" "worker_grows s s1"
    using keepsD [OF keeps_transaction [OF keeps_claim] s c] by simp_all
  let ?t = "snd (process_next_action executor env now turn s)"
  show "worker_ok sha env A ?t \<and> worker_grows s ?t"
  proof (cases "\<exists>row. r = Inr (Claimed row)")
    case True
    then obtain row where row: "r = Inr (Claimed row)" by blast
    have "?t = snd (or_rollback s1 (run_claimed_action executor env (tn_held turn) (tn_run turn) now row s1))"
      by (simp add: process_next_action_def c row split: prod.split sum.split)
    then show ?thesis
      using keeps_transaction [OF keeps_run, of sha env A executor "tn_held turn" "tn_run turn" now row] s1
      by (auto simp: keeps_def intro: worker_grows_trans)
  next
    case False
    then have "?t = s1" by (cases r) (auto simp: process_next_action_def c split: claim.split)
    then show ?thesis using s1 by simp
  qed
qed

subsection \<open>The whole system\<close>

text \<open>Workers claim and run, in transactions that interleave with everything else: decisions on approvals,
  operations of the queue, and the commands of operators and playbooks, none of which names a queued
  action. A worker may run any row whatever: nothing is assumed about where it has it from.\<close>

inductive worker_step :: "(string \<Rightarrow> string) \<Rightarrow> command_env \<Rightarrow> worker_db \<Rightarrow> worker_db \<Rightarrow> bool" for sha env where
  ws_claim: "worker_step sha env s (snd (or_rollback s (claim_action locked held clk now s)))"
| ws_run: "worker_step sha env s (snd (or_rollback s (run_claimed_action executor env held clk now row s)))"
| ws_approvals: "approval_op (wk_approvals s) a \<Longrightarrow> worker_step sha env s (s\<lparr>wk_approvals := a\<rparr>)"
| ws_queue: "queue_op sha (wk_queue s) t \<Longrightarrow> worker_step sha env s (s\<lparr>wk_queue := t\<rparr>)"
| ws_command: "cr_queue_id q = None \<Longrightarrow>
    worker_step sha env s (s\<lparr>wk_commands := snd (execute_response_command env clk q (wk_commands s))\<rparr>)"

definition worker_init :: "alert_row list \<Rightarrow> bool \<Rightarrow> worker_db" where
  "worker_init als up = \<lparr>wk_queue = queue_init, wk_approvals = approval_init up, wk_commands = command_init als\<rparr>"

lemma worker_init_ok: "list_all printed_alert als \<Longrightarrow> worker_ok sha env {} (worker_init als up)"
proof -
  have "tracks Q (cmd_registry (command_init als))" for Q
    by (simp add: tracks_def command_init_def registry_init_def)
  then show "list_all printed_alert als \<Longrightarrow> ?thesis"
    by (simp add: worker_ok_def worker_init_def queue_inv_init approval_inv_init command_inv_init)
qed

lemma worker_step_ok:
  assumes "worker_step sha env s s'" "worker_ok sha env {} s"
  shows "worker_ok sha env {} s'"
  using assms
proof (induction rule: worker_step.induct)
  case (ws_claim s locked held clk now)
  then show ?case using keeps_transaction [OF keeps_claim] by (simp add: keeps_def)
next
  case (ws_run s executor held clk now row)
  then show ?case using keeps_transaction [OF keeps_run] by (simp add: keeps_def)
next
  case (ws_approvals s a)
  then have a: "approval_safe (wk_approvals s) a" by (auto simp: worker_ok_def intro: approval_op_safe)
  then have "approved_blocks (wk_approvals s) \<subseteq> approved_blocks a"
    by (auto simp: approval_safe_def dest: approved_blocks_mono)
  then show ?case using ws_approvals.prems a by (auto simp: worker_ok_def approval_safe_def intro: tracks_mono)
next
  case (ws_queue s t)
  then have "queue_safe sha (wk_queue s) t" by (auto simp: worker_ok_def intro: queue_op_safe)
  then show ?case using ws_queue.prems by (simp add: worker_ok_def queue_safe_def)
next
  case (ws_command q s clk)
  have "command_inv env (snd (execute_response_command env clk q (wk_commands s)))"
    using keeps_command [of env clk q] ws_command.prems by (auto simp: keeps_def worker_ok_def)
  then show ?case using ws_command by (auto simp: worker_ok_def intro: command_tracks)
qed

interpretation worker_system: store_ops "worker_step sha env" "worker_ok sha env {}" "\<lambda>_ _. True" for sha env
  by unfold_locales (auto dest: worker_step_ok)

lemma process_next_steps: "(worker_step sha env)\<^sup>*\<^sup>* s (snd (process_next_action executor env now turn s))"
proof -
  obtain r s1 where c: "or_rollback s (claim_action (tn_locked turn) (tn_held turn) (tn_claim turn) now s) = (r, s1)"
    by fastforce
  then have claim: "worker_step sha env s s1"
    using ws_claim [of sha env s "tn_locked turn" "tn_held turn" "tn_claim turn" now] by simp
  show ?thesis
  proof (cases "\<exists>row. r = Inr (Claimed row)")
    case True
    then obtain row where row: "r = Inr (Claimed row)" by blast
    have "snd (process_next_action executor env now turn s) =
        snd (or_rollback s1 (run_claimed_action executor env (tn_held turn) (tn_run turn) now row s1))"
      by (simp add: process_next_action_def c row split: prod.split sum.split)
    then have "worker_step sha env s1 (snd (process_next_action executor env now turn s))"
      by (simp add: ws_run)
    with claim show ?thesis by (meson converse_rtranclp_into_rtranclp r_into_rtranclp)
  next
    case False
    then have "snd (process_next_action executor env now turn s) = s1"
      by (cases r) (auto simp: process_next_action_def c split: claim.split)
    with claim show ?thesis by auto
  qed
qed

text \<open>C3: No address is tracked for a queued block that nobody approved: whatever workers, approvers and
  operators did, in any order, with rollbacks and several workers at once, a registry event about the block
  of a queued action is covered by an approval of that action, given by somebody strictly before it
  expired.\<close>

theorem queued_blocks_approved:
  assumes "list_all printed_alert als" "(worker_step sha env)\<^sup>*\<^sup>* (worker_init als up) s"
    and "e \<in> set (indicator_response_events (cmd_registry (wk_commands s)))"
    and "ie_requested_action e = ''block_ip''" "ie_queue_id e = Some i"
  shows "\<exists>r who t. r \<in> set (approval_requests (wk_approvals s)) \<and> ar_queue_id r = Some i \<and>
    ar_action r = ''block_ip'' \<and> ar_status r = AApproved \<and> ar_approved_by r = Some who \<and>
    ar_decided_at r = Some t \<and> t < ar_expires_at r"
proof -
  have ok: "worker_ok sha env {} s"
    by (rule worker_system.ops_inv [OF assms(2) worker_init_ok [OF assms(1)]])
  then have "i \<in> approved_blocks (wk_approvals s)"
    using assms(3-5) by (auto simp: worker_ok_def tracks_def)
  then obtain r where r: "r \<in> set (approval_requests (wk_approvals s))" "ar_queue_id r = Some i"
      "ar_action r = ''block_ip''" "ar_status r = AApproved" by (auto simp: approved_blocks_def)
  moreover have "approval_row_ok r" using ok r(1) by (auto simp: worker_ok_def approval_inv_def)
  ultimately show ?thesis by (auto simp: approval_row_ok_def)
qed

end
