(* ===== verification/Worker_Turns.thy ===== *)
theory Worker_Turns
  imports Worker_Safety
begin

text \<open>
  What one turn of the worker does to the queue, on every branch, proved in a small Hoare logic over the
  queue: \<open>runs P m Q\<close> says that where \<open>P\<close> holds of the queue and \<open>m\<close> returns, \<open>Q\<close> holds of the result and
  of the queue.
\<close>

subsection \<open>The logic\<close>

definition runs :: "(queue_db \<Rightarrow> bool) \<Rightarrow> (worker_db, 'a) py \<Rightarrow> ('a \<Rightarrow> queue_db \<Rightarrow> bool) \<Rightarrow> bool" where
  "runs P m Q \<longleftrightarrow> (\<forall>s r s'. P (wk_queue s) \<longrightarrow> m s = (Inr r, s') \<longrightarrow> Q r (wk_queue s'))"

definition quiet :: "(worker_db, 'a) py \<Rightarrow> bool" where
  "quiet m \<longleftrightarrow> (\<forall>s. wk_queue (snd (m s)) = wk_queue s)"

lemma quietD: "quiet m \<Longrightarrow> m s = (r, s') \<Longrightarrow> wk_queue s' = wk_queue s"
  by (metis quiet_def snd_conv)

lemma quiet_bind: "quiet m \<Longrightarrow> (\<And>x. quiet (f x)) \<Longrightarrow> quiet (py_bind m f)"
  by (auto simp: quiet_def split: prod.splits sum.splits) (metis snd_conv)+

lemma quiet_simps [simp]:
  "quiet (ret x)" "quiet (raise e)" "quiet (of_result r)" "quiet (reads f)" "quiet (in_approvals m)" "quiet (in_commands n)"
  by (auto simp: quiet_def ret_def raise_def of_result_def reads_def in_approvals_def in_commands_def split: prod.split)

lemma quiet_outcomes [simp]:
  "quiet (with_canonical_outcome_savepoint w)" "quiet (append_running_outcome_event clk row)"
  "quiet (append_worker_outcome_event clk row st rc sm et l ap ec)" "quiet (log_response_action clk row st' det)"
  by (simp_all add: with_canonical_outcome_savepoint_def append_running_outcome_event_def
      append_worker_outcome_event_def log_response_action_def)

lemma quiet_retry [simp]: "quiet (append_retry_outcome_events clk row c m l)"
  unfolding append_retry_outcome_events_def by (rule quiet_bind) simp_all

lemma runs_bind: "runs P m R \<Longrightarrow> (\<And>x. runs (R x) (f x) Q) \<Longrightarrow> runs P (py_bind m f) Q"
  by (auto simp: runs_def split: prod.splits sum.splits)

lemma runs_quiet_bind: "quiet m \<Longrightarrow> (\<And>x. runs P (f x) Q) \<Longrightarrow> runs P (py_bind m f) Q"
  by (rule runs_bind [where R = "\<lambda>_. P"]) (auto simp: runs_def dest: quietD)

lemma runs_ret: "(\<And>q. P q \<Longrightarrow> Q x q) \<Longrightarrow> runs P (ret x) Q"
  by (simp add: runs_def ret_def)

lemma runs_raise: "runs P (raise e) Q"
  by (simp add: runs_def raise_def)

lemma runs_post: "runs P m R \<Longrightarrow> (\<And>x q. R x q \<Longrightarrow> Q x q) \<Longrightarrow> runs P m Q"
  by (simp add: runs_def)

subsection \<open>One row moves\<close>

definition aside :: "row_id \<Rightarrow> queue_db \<Rightarrow> queue_row list" where
  "aside i q = filter (\<lambda>x. q_id x \<noteq> i) (response_actions_queue q)"

text \<open>The other rows are \<open>others\<close>; \<open>row\<close> is the row with id \<open>i\<close>.\<close>

definition beside :: "row_id \<Rightarrow> queue_row list \<Rightarrow> queue_db \<Rightarrow> bool" where
  "beside i others q \<longleftrightarrow> aside i q = others"

definition moved :: "row_id \<Rightarrow> queue_row list \<Rightarrow> queue_status set \<Rightarrow> queue_row \<Rightarrow> queue_db \<Rightarrow> bool" where
  "moved i others sts row q \<longleftrightarrow> aside i q = others \<and> row \<in> set (response_actions_queue q) \<and> q_id row = i \<and> q_status row \<in> sts"

definition outcome_status :: "string \<Rightarrow> queue_status option" where
  "outcome_status res =
     (if res = ''success'' then Some QSuccess else if res = ''skipped'' then Some QSkipped
      else if res = ''awaiting_approval'' then Some QAwaiting else if res = ''requeued'' then Some QPending
      else if res = ''failed'' then Some QFailed else None)"

definition settled :: "row_id \<Rightarrow> queue_row list \<Rightarrow> worker_result \<Rightarrow> queue_db \<Rightarrow> bool" where
  "settled i others r q \<longleftrightarrow> wr_queue_id r = i \<and> outcome_status (wr_outcome r) = Some (wr_new_status r) \<and>
     (\<exists>row. moved i others {wr_new_status r} row q)"

lemma aside_update:
  assumes "\<And>r. q_id (f r) = q_id r"
  shows "aside i (q\<lparr>response_actions_queue := update_where (\<lambda>r. q_id r = i \<and> g r) f (response_actions_queue q)\<rparr>) = aside i q"
proof -
  have "filter (\<lambda>x. q_id x \<noteq> i) (update_where (\<lambda>r. q_id r = i \<and> g r) f t) = filter (\<lambda>x. q_id x \<noteq> i) t" for t
    by (induction t) (auto simp: update_where_def assms)
  then show ?thesis by (simp add: aside_def)
qed

lemma runs_transition:
  assumes "\<And>r. q_id (f r) = q_id r" "\<And>r. q_status (f r) = st"
  shows "runs (beside i others) (in_queue (transition_where i g f w)) (moved i others {st})"
  unfolding runs_def
proof (intro allI impI)
  fix s u s' assume b: "beside i others (wk_queue s)" and run: "in_queue (transition_where i g f w) s = (Inr u, s')"
  let ?q = "(wk_queue s)\<lparr>response_actions_queue :=
    update_where (\<lambda>r. q_id r = i \<and> g r) f (response_actions_queue (wk_queue s))\<rparr>"
  have "s' = s\<lparr>wk_queue := ?q\<rparr>"
      "fetchone (returning (\<lambda>r. q_id r = i \<and> g r) f (response_actions_queue (wk_queue s))) = Some u"
    using run by (auto simp: in_queue_def transition_where_def Let_def split: option.splits prod.splits)
  then have q: "wk_queue s' = ?q"
      and u: "u \<in> set (returning (\<lambda>r. q_id r = i \<and> g r) f (response_actions_queue (wk_queue s)))"
    by (auto dest: fetchone_mem)
  then obtain r where r: "r \<in> set (response_actions_queue (wk_queue s))" "q_id r = i" "g r" "u = f r"
    by (auto simp: returning_mem)
  then show "moved i others {st} u (wk_queue s')"
    using b assms q aside_update [where f = f and i = i and q = "wk_queue s" and g = g]
    by (auto simp: moved_def beside_def set_update_where)
qed

lemma runs_marks:
  "runs (beside i others) (in_queue (mark_action_awaiting_approval clk i e now)) (moved i others {QAwaiting})"
  "runs (beside i others) (in_queue (mark_action_success clk i now)) (moved i others {QSuccess})"
  "runs (beside i others) (in_queue (mark_action_skipped clk i e now)) (moved i others {QSkipped})"
  unfolding mark_action_awaiting_approval_def mark_action_success_def mark_action_skipped_def
    transition_running_action_def transition_action_status_def
  by (intro runs_transition; simp add: set_queue_status_def)+

lemma runs_failure:
  "runs (beside i others) (in_queue (record_action_failure clk i e b now)) (moved i others {QPending, QFailed})"
proof -
  have split: "in_queue (py_bind m f) = py_bind (in_queue m) (\<lambda>x. in_queue (f x))" for m and f :: "queue_row \<Rightarrow> (queue_db, queue_row) py"
    by (rule ext) (auto simp: in_queue_def split: prod.split sum.split)
  have failed: "runs (beside i others) (in_queue (mark_action_failed clk i e now)) (moved i others {QFailed})"
    unfolding mark_action_failed_def by (intro runs_transition; simp add: set_failed_def)
  have again: "runs (beside i others) (in_queue (requeue_failed_action clk i now)) (moved i others {QPending})"
    unfolding requeue_failed_action_def by (intro runs_transition; simp add: set_requeued_def)
  show ?thesis
    unfolding record_action_failure_def split
  proof (rule runs_bind [OF failed])
    fix x
    have "runs (moved i others {QFailed} x) (in_queue (requeue_failed_action clk i now)) (moved i others {QPending, QFailed})"
      using again by (auto simp: runs_def moved_def beside_def)
    moreover have "runs (moved i others {QFailed} x) (in_queue (\<lambda>s. (Inr x, s))) (moved i others {QPending, QFailed})"
      by (auto simp: runs_def in_queue_def moved_def)
    ultimately show "runs (moved i others {QFailed} x) (in_queue (if b \<and> q_retry_count x < q_max_retries x
        then requeue_failed_action clk i now else (\<lambda>s. (Inr x, s)))) (moved i others {QPending, QFailed})" by simp
  qed
qed

subsection \<open>Every branch settles the row\<close>

lemma settled_result:
  "moved i others sts updated q \<Longrightarrow> q_id row = i \<Longrightarrow> outcome_status res = Some (q_status updated) \<Longrightarrow>
   settled i others (worker_result_of row updated res b c m t) q"
  by (auto simp: settled_def moved_def worker_result_of_def)

lemma outcome_statuses [simp]:
  "outcome_status ''success'' = Some QSuccess" "outcome_status ''skipped'' = Some QSkipped"
  "outcome_status ''awaiting_approval'' = Some QAwaiting" "outcome_status ''requeued'' = Some QPending"
  "outcome_status ''failed'' = Some QFailed"
  by (simp_all add: outcome_status_def)

lemma runs_settled:
  "q_id row = i \<Longrightarrow> (\<And>st. q_status updated = st \<Longrightarrow> st \<in> sts \<Longrightarrow> outcome_status res = Some st) \<Longrightarrow>
   runs (moved i others sts updated) (ret (worker_result_of row updated res b c m t)) (settled i others)"
  by (rule runs_ret) (auto intro!: settled_result simp: moved_def)

lemma runs_skip: "runs (beside (q_id row) others) (skip_running_action clk now row m rc c) (settled (q_id row) others)"
  unfolding skip_running_action_def
  by (rule runs_bind [OF runs_marks(3)], (rule runs_quiet_bind, simp)+, rule runs_settled) auto

lemma runs_refuse: "runs (beside (q_id row) others) (refuse_action clk now row a) (settled (q_id row) others)"
  unfolding refuse_action_def Let_def
  by (rule runs_bind [OF runs_marks(3)], (rule runs_quiet_bind, simp)+, rule runs_settled) auto

lemma runs_await:
  "runs (moved (q_id row) others {QAwaiting} updated) (await_approval clk row updated ap m c) (settled (q_id row) others)"
  unfolding await_approval_def
  by (rule runs_quiet_bind, simp, rule runs_settled) auto

lemma runs_retry: "runs (beside (q_id row) others) (retry_action clk now row m c) (settled (q_id row) others)"
  unfolding retry_action_def
proof (rule runs_bind [OF runs_failure], rule runs_quiet_bind)
  fix updated :: queue_row and l
  show "quiet (if q_status updated = QFailed
      then py_bind (log_response_action clk row ''failed'' (Some m)) (\<lambda>i. ret (Some i)) else ret None)"
    by (auto intro: quiet_bind)
  show "runs (moved (q_id row) others {QPending, QFailed} updated) (py_bind (append_retry_outcome_events clk updated c m l)
      (\<lambda>_. ret (worker_result_of row updated (if q_status updated = QPending then ''requeued'' else ''failed'')
        (q_status updated = QPending) c (Some m) (Some m)))) (settled (q_id row) others)"
    by (rule runs_quiet_bind, simp, rule runs_settled) auto
qed

text \<open>A failure that is not retried stays failed.\<close>

lemma runs_fail: "runs (beside (q_id row) others) (fail_action clk now row m) (settled (q_id row) others)"
proof -
  have "runs (beside (q_id row) others) (in_queue (record_action_failure clk (q_id row) e False now)) (moved (q_id row) others {QFailed})" for e
  proof -
    have "in_queue (record_action_failure clk (q_id row) e False now) = in_queue (mark_action_failed clk (q_id row) e now)"
      by (rule ext) (auto simp: in_queue_def record_action_failure_def split: prod.split sum.split)
    then show ?thesis unfolding mark_action_failed_def by (auto intro!: runs_transition simp: set_failed_def)
  qed
  note failed = this
  show ?thesis
    unfolding fail_action_def
    by (rule runs_bind [OF failed], (rule runs_quiet_bind, simp)+, rule runs_settled) auto
qed

lemma runs_handler: "runs (beside (q_id row) others) (handle_failure clk now row e) (settled (q_id row) others)"
  unfolding handle_failure_def database_failure_def
  by (cases e) (simp_all add: runs_skip runs_retry runs_fail runs_raise)

text \<open>What is carried out raises before it has marked the row, or not at all.\<close>

lemma perform_raises:
  assumes "perform_action executor env clk now row s = (Inl e, s')"
  shows "wk_queue s' = wk_queue s"
proof -
  have same: "wk_queue s2 = wk_queue s1" if "in_queue (mark_action_success clk k now) s1 = (Inl x, s2)" for k x s1 s2
    using that unfolding mark_action_success_def transition_running_action_def transition_action_status_def
    by (auto simp: in_queue_def transition_where_def Let_def fetchone_None returning_empty update_where_none
        split: prod.splits option.splits)
  have never: "fst (append_worker_outcome_event clk r st rc sm et l ap ec s1) \<noteq> Inl x" for r st rc sm et l ap ec s1 x
    by (auto simp: append_worker_outcome_event_def ret_def with_canonical_outcome_savepoint_def in_commands_def
        in_outcomes_def split: prod.splits sum.splits)
  have log: "fst (log_response_action clk r ''executed'' d s1) \<noteq> Inl x" for r d s1 x
    by (auto simp: log_response_action_def in_commands_def log_action_def Let_def split: prod.splits)
  have cmd: "in_commands n s1 = (r, s2) \<Longrightarrow> wk_queue s2 = wk_queue s1" for n s1 r s2
    by (auto simp: in_commands_def split: prod.splits)
  show ?thesis
    using assms never log
    unfolding perform_action_def perform_command_def perform_other_def
    by (auto simp: of_result_def raise_def ret_def dest!: same cmd split: if_splits prod.splits sum.splits)
       (metis fst_conv)+
qed

lemma runs_perform: "runs (beside (q_id row) others) (perform_action executor env clk now row) (settled (q_id row) others)"
proof (cases "q_action row \<in> set CANONICAL_QUEUE_ACTIONS")
  case True
  show ?thesis
    unfolding perform_action_def perform_command_def using True
    by (simp only: if_True)
      (rule runs_quiet_bind, simp, split if_split, intro conjI impI runs_raise, rule runs_bind [OF runs_marks(2)],
        rule runs_quiet_bind, simp, rule runs_settled, auto)
next
  case False
  show ?thesis
    unfolding perform_action_def perform_other_def using False
    by (simp only: if_False)
      (rule runs_quiet_bind, simp, split prod.split, intro allI impI, rule runs_bind [OF runs_marks(2)],
        (rule runs_quiet_bind, simp)+, rule runs_settled, auto)
qed

lemma runs_attempt: "runs (beside (q_id row) others) (attempt_action executor env clk now row) (settled (q_id row) others)"
  unfolding runs_def
proof (intro allI impI)
  fix s r s' assume b: "beside (q_id row) others (wk_queue s)" and run: "attempt_action executor env clk now row s = (Inr r, s')"
  obtain x s1 where p: "perform_action executor env clk now row s = (x, s1)" by fastforce
  show "settled (q_id row) others r (wk_queue s')"
  proof (cases x)
    case (Inl e)
    then have "beside (q_id row) others (wk_queue s1)" "handle_failure clk now row e s1 = (Inr r, s')"
      using p run b perform_raises by (auto simp: attempt_action_def)
    then show ?thesis using runs_handler [of row others clk now e] by (auto simp: runs_def)
  next
    case (Inr y)
    then show ?thesis using p run b runs_perform [of row others executor env clk now] by (auto simp: attempt_action_def runs_def)
  qed
qed

subsection \<open>Gate, claim, turn\<close>

definition gate_post :: "row_id \<Rightarrow> queue_row list \<Rightarrow> worker_result option \<Rightarrow> queue_db \<Rightarrow> bool" where
  "gate_post i others x q = (case x of None \<Rightarrow> beside i others q | Some r \<Rightarrow> settled i others r q)"

lemma runs_Some:
  "runs P m (settled i others) \<Longrightarrow> runs P (py_bind m (\<lambda>r. ret (Some r))) (gate_post i others)"
  by (erule runs_bind) (rule runs_ret, simp add: gate_post_def)

lemma runs_pass: "runs (beside i others) (ret None) (gate_post i others)"
  by (rule runs_ret) (simp add: gate_post_def)

lemma runs_gate_decision:
  assumes "q_status row = QRunning"
  shows "runs (beside (q_id row) others) (gate_decision clk now row approval) (gate_post (q_id row) others)"
proof (cases approval)
  case None
  show ?thesis
    unfolding gate_decision_def None option.case
    by (rule runs_quiet_bind, simp, rule runs_bind [OF runs_marks(1)], rule runs_Some [OF runs_await])
next
  case (Some a)
  have "runs (beside (q_id row) others) (py_bind (refuse_action clk now row a) (\<lambda>r. ret (Some r))) (gate_post (q_id row) others)"
    by (rule runs_Some [OF runs_refuse])
  moreover have "runs (beside (q_id row) others) (py_bind (in_queue (mark_action_awaiting_approval clk (q_id row) (Some m) now))
      (\<lambda>updated. py_bind (await_approval clk row updated (ar_id a) m c) (\<lambda>r. ret (Some r)))) (gate_post (q_id row) others)" for m c
    by (rule runs_bind [OF runs_marks(1)], rule runs_Some [OF runs_await])
  ultimately show ?thesis
    unfolding gate_decision_def Some option.case using assms
    by (cases "ar_status a") (simp_all add: runs_pass del: py_bind.simps)
qed

lemma runs_gate:
  assumes "q_status row = QRunning"
  shows "runs (beside (q_id row) others) (handle_approval_gate env held clk now row) (gate_post (q_id row) others)"
proof (cases "action_requires_approval (q_action row)")
  case False
  then show ?thesis by (simp add: handle_approval_gate_def runs_pass)
next
  case True
  have body: "runs (beside (q_id row) others) (py_bind (in_approvals (expire_pending_requests held clk now 100)) (\<lambda>_.
      py_bind (reads (\<lambda>s. get_latest_approval_for_queue_action (q_id row) (q_action row) (wk_approvals s)))
        (gate_decision clk now row))) (gate_post (q_id row) others)"
    by (rule runs_quiet_bind, simp)+ (rule runs_gate_decision [OF assms])
  show ?thesis
    using True body
    by (auto simp: handle_approval_gate_def runs_raise runs_Some runs_skip simp del: py_bind.simps
        split: sum.split py_error.split)
qed

lemma runs_claimed:
  assumes "q_status row = QRunning"
  shows "runs (beside (q_id row) others) (run_claimed_action executor env held clk now row) (settled (q_id row) others)"
  unfolding run_claimed_action_def
proof (rule runs_bind [OF runs_gate [OF assms]])
  fix x
  show "runs (gate_post (q_id row) others x)
     (case x of None \<Rightarrow> attempt_action executor env clk now row | Some r \<Rightarrow> ret r) (settled (q_id row) others)"
    using runs_attempt [of row others executor env clk now]
    by (cases x) (auto simp: gate_post_def runs_def ret_def)
qed

text \<open>A row a worker may take.\<close>

definition takeable :: "queue_row \<Rightarrow> bool" where
  "takeable r \<longleftrightarrow> q_status r = QPending \<or> q_status r = QAwaiting"

definition was_takeable :: "queue_db \<Rightarrow> row_id \<Rightarrow> bool" where
  "was_takeable q i \<longleftrightarrow> (\<exists>c \<in> set (response_actions_queue q). q_id c = i \<and> takeable c)"

definition claim_post :: "queue_db \<Rightarrow> claim \<Rightarrow> queue_db \<Rightarrow> bool" where
  "claim_post q0 c q =
     (case c of
        NoAction \<Rightarrow> q = q0
      | Settled r \<Rightarrow> settled (wr_queue_id r) (aside (wr_queue_id r) q0) r q \<and> was_takeable q0 (wr_queue_id r)
      | Claimed row \<Rightarrow> beside (q_id row) (aside (q_id row) q0) q \<and> q_status row = QRunning \<and> was_takeable q0 (q_id row))"

definition claimed :: "queue_db \<Rightarrow> queue_status \<Rightarrow> queue_row option \<Rightarrow> queue_db \<Rightarrow> bool" where
  "claimed q0 st x q = (case x of None \<Rightarrow> q = q0
     | Some row \<Rightarrow> moved (q_id row) (aside (q_id row) q0) {st} row q \<and> was_takeable q0 (q_id row))"

lemma claim_first_claimed:
  assumes "queue_inv sha q0" "\<And>r. q_id (f r) = q_id r" "\<And>r. q_status (f r) = st"
    and "claim_first locked p f q0 = (x, q)" "\<And>r. p r \<Longrightarrow> takeable r"
  shows "claimed q0 st x q"
proof (rule claim_first_cases [OF assms(1,4)])
  assume "x = None" "q = q0"
  then show ?thesis by (simp add: claimed_def)
next
  fix c assume p: "p c" and claimed: "c \<in> set (response_actions_queue q0)" "x = Some (f c)"
    "q = q0\<lparr>response_actions_queue := update_where (\<lambda>r. q_id r = q_id c) f (response_actions_queue q0)\<rparr>"
  have "aside (q_id c) q = aside (q_id c) q0"
    using aside_update [where f = f and i = "q_id c" and q = q0 and g = "\<lambda>_. True"] assms(2) claimed by simp
  moreover have "f c \<in> set (response_actions_queue q)" using claimed by (auto simp: set_update_where)
  moreover have "was_takeable q0 (q_id c)" using claimed(1) assms(5) [OF p] by (auto simp: was_takeable_def)
  ultimately show ?thesis using claimed assms(2,3) by (simp add: claimed_def moved_def)
qed

lemma runs_from:
  "(\<And>s r s'. wk_queue s = q0 \<Longrightarrow> m s = (Inr r, s') \<Longrightarrow> Q r (wk_queue s')) \<Longrightarrow> runs (\<lambda>q. q = q0) m Q"
  by (simp add: runs_def)

lemma runs_claims:
  assumes "queue_inv sha q0"
  shows "runs (\<lambda>q. q = q0) (in_queue (infallible (claim_next_pending_action locked clk now))) (claimed q0 QRunning)"
    and "runs (\<lambda>q. q = q0) (in_queue (infallible (claim_next_approved_awaiting_action aps locked clk now))) (claimed q0 QRunning)"
    and "runs (\<lambda>q. q = q0) (in_queue (infallible (skip_next_terminal_approval_action aps locked clk now)))
      (\<lambda>x. claimed q0 QSkipped (map_option fst x))"
proof -
  have "claimed q0 st x q" if "claim_first locked p f q0 = (x, q)" "\<And>r. q_id (f r) = q_id r \<and> q_status (f r) = st"
      "\<And>r. p r \<Longrightarrow> takeable r"
    for p f st x q by (rule claim_first_claimed [OF assms _ _ that(1)]) (use that(2,3) in auto)
  note first = this
  have claim: "runs (\<lambda>q. q = q0) (in_queue (infallible (claim_first locked p f))) (claimed q0 st)"
    if "\<And>r. q_id (f r) = q_id r \<and> q_status (f r) = st" "\<And>r. p r \<Longrightarrow> takeable r" for p f st
  proof (rule runs_from)
    fix s r s' assume "wk_queue s = q0" "in_queue (infallible (claim_first locked p f)) s = (Inr r, s')"
    then have "claim_first locked p f q0 = (r, wk_queue s')" by (auto simp: in_queue_def infallible_def split: prod.splits)
    then show "claimed q0 st r (wk_queue s')" using that by (rule first)
  qed
  show "runs (\<lambda>q. q = q0) (in_queue (infallible (claim_next_pending_action locked clk now))) (claimed q0 QRunning)"
    "runs (\<lambda>q. q = q0) (in_queue (infallible (claim_next_approved_awaiting_action aps locked clk now))) (claimed q0 QRunning)"
    unfolding claim_next_pending_action_def claim_next_approved_awaiting_action_def
    by (rule claim; simp add: set_queue_status_def takeable_def)+
  show "runs (\<lambda>q. q = q0) (in_queue (infallible (skip_next_terminal_approval_action aps locked clk now)))
      (\<lambda>x. claimed q0 QSkipped (map_option fst x))"
  proof (rule runs_from)
    fix s r s' assume q: "wk_queue s = q0"
      and run: "in_queue (infallible (skip_next_terminal_approval_action aps locked clk now)) s = (Inr r, s')"
    obtain x t where c: "claim_first locked (terminally_refused aps) (set_refused aps (coalesce now (sql_now clk))) q0 = (x, t)"
      by fastforce
    then have "claimed q0 QSkipped x t" by (rule first) (simp_all add: set_refused_def set_queue_status_def takeable_def terminally_refused_def)
    moreover have "map_option fst r = x" "wk_queue s' = t"
      using run q c by (auto simp: in_queue_def infallible_def skip_next_terminal_approval_action_def option.map_comp
          comp_def option.map_ident)
    ultimately show "claimed q0 QSkipped (map_option fst r) (wk_queue s')" by simp
  qed
qed

lemma runs_claim:
  assumes inv: "queue_inv sha q0"
  shows "runs (\<lambda>q. q = q0) (claim_action locked held clk now) (claim_post q0)"
  unfolding claim_action_def Let_def
proof (rule runs_bind [OF runs_claims(1) [OF inv]])
  have start: "runs (claimed q0 QRunning (Some row)) (py_bind (append_running_outcome_event clk row) (\<lambda>_. ret (Claimed row)))
      (claim_post q0)" for row
    by (rule runs_quiet_bind, simp, rule runs_ret) (auto simp: claimed_def moved_def claim_post_def beside_def)
  have refused: "runs (claimed q0 QSkipped (Some row)) (py_bind (settle_refused clk row st) (\<lambda>r. ret (Settled r))) (claim_post q0)"
    for row st
  proof (cases "was_takeable q0 (q_id row)")
    case False
    then show ?thesis by (simp add: runs_def claimed_def)
  next
    case True
    show ?thesis
    unfolding settle_refused_def Let_def
  proof (rule runs_bind [where R = "settled (q_id row) (aside (q_id row) q0)"])
    show "runs (claimed q0 QSkipped (Some row))
      (py_bind (reads (\<lambda>s. get_latest_approval_for_queue_action (q_id row) (q_action row) (wk_approvals s)))
         (\<lambda>approval. py_bind (log_response_action clk row ''skipped'' (q_last_error row)) (\<lambda>log_id.
          py_bind (append_worker_outcome_event clk row ''blocked''
             (Some (if st = Some ADenied then ''approval_denied'' else ''approval_expired'')) (q_last_error row) ''blocked''
             (Some log_id) (map_option ar_id approval) None) (\<lambda>_.
          ret (worker_result_of (row\<lparr>q_status := QAwaiting\<rparr>) row ''skipped'' False
             (if st = Some ADenied then ''approval_denied'' else ''approval_expired'') (q_last_error row) (q_last_error row))))))
      (settled (q_id row) (aside (q_id row) q0))"
      by ((rule runs_quiet_bind, simp)+, rule runs_ret, rule settled_result) (auto simp: claimed_def moved_def)
    show "runs (settled (q_id row) (aside (q_id row) q0) r) (ret (Settled r)) (claim_post q0)" for r
      by (rule runs_ret) (use True in \<open>auto simp: claim_post_def settled_def\<close>)
  qed
  qed
  fix pending
  show "runs (claimed q0 QRunning pending)
     (case pending of None \<Rightarrow>
        py_bind (in_approvals (expire_pending_requests held clk now 100)) (\<lambda>_.
        py_bind (reads (\<lambda>s. approval_requests (wk_approvals s))) (\<lambda>approvals.
        py_bind (in_queue (infallible (claim_next_approved_awaiting_action approvals locked clk now))) (\<lambda>approved.
        case approved of None \<Rightarrow>
            py_bind (in_queue (infallible (skip_next_terminal_approval_action approvals locked clk now))) (\<lambda>refused.
            case refused of None \<Rightarrow> ret NoAction
            | Some (skipped, status) \<Rightarrow> py_bind (settle_refused clk skipped status) (\<lambda>r. ret (Settled r)))
        | Some row \<Rightarrow> py_bind (append_running_outcome_event clk row) (\<lambda>_. ret (Claimed row)))))
      | Some row \<Rightarrow> py_bind (append_running_outcome_event clk row) (\<lambda>_. ret (Claimed row))) (claim_post q0)"
  proof (cases pending)
    case None
    have unclaimed: "claimed q0 st None = (\<lambda>q. q = q0)" for st by (rule ext) (simp add: claimed_def)
    show ?thesis
      unfolding None option.case unclaimed
    proof (rule runs_quiet_bind [OF quiet_simps(5)], rule runs_quiet_bind [OF quiet_simps(4)],
        rule runs_bind [OF runs_claims(2) [OF inv]])
      fix aps approved
      show "runs (claimed q0 QRunning approved) (case approved of None \<Rightarrow>
            py_bind (in_queue (infallible (skip_next_terminal_approval_action aps locked clk now))) (\<lambda>refused.
            case refused of None \<Rightarrow> ret NoAction
            | Some (skipped, status) \<Rightarrow> py_bind (settle_refused clk skipped status) (\<lambda>r. ret (Settled r)))
        | Some row \<Rightarrow> py_bind (append_running_outcome_event clk row) (\<lambda>_. ret (Claimed row))) (claim_post q0)"
      proof (cases approved)
        case None
        show ?thesis
          unfolding None option.case unclaimed
        proof (rule runs_bind [OF runs_claims(3) [OF inv]])
          fix x :: "(queue_row \<times> approval_status option) option"
          show "runs (claimed q0 QSkipped (map_option fst x)) (case x of None \<Rightarrow> ret NoAction
              | Some (skipped, status) \<Rightarrow> py_bind (settle_refused clk skipped status) (\<lambda>r. ret (Settled r))) (claim_post q0)"
            using refused
            by (cases x) (auto simp: runs_ret claim_post_def claimed_def split: prod.split simp del: py_bind.simps intro!: runs_ret)
        qed
      qed (use start in \<open>simp del: py_bind.simps\<close>)
    qed
  qed (use start in \<open>simp del: py_bind.simps\<close>)
qed

text \<open>C24: A turn of the worker that returns moves at most one row, and says which. If it reports a result,
  the row that it names was pending or waiting for an approval before the turn, and afterwards it has the
  status the result reports, which is the one that goes with the reported outcome; every other row of
  the queue is as it was. If it reports that there was nothing to do, the queue is as it was.\<close>

theorem turn_settles_one_row:
  assumes "queue_inv sha (wk_queue s)" "process_next_action executor env now turn s = (Inr result, s')"
  shows "case result of
      None \<Rightarrow> wk_queue s' = wk_queue s
    | Some r \<Rightarrow> outcome_status (wr_outcome r) = Some (wr_new_status r) \<and>
       (\<exists>row \<in> set (response_actions_queue (wk_queue s)). q_id row = wr_queue_id r \<and>
          (q_status row = QPending \<or> q_status row = QAwaiting)) \<and>
       (\<exists>row \<in> set (response_actions_queue (wk_queue s')). q_id row = wr_queue_id r \<and> q_status row = wr_new_status r) \<and>
       filter (\<lambda>x. q_id x \<noteq> wr_queue_id r) (response_actions_queue (wk_queue s')) =
         filter (\<lambda>x. q_id x \<noteq> wr_queue_id r) (response_actions_queue (wk_queue s))"
proof -
  obtain c s1 where c: "or_rollback s (claim_action (tn_locked turn) (tn_held turn) (tn_claim turn) now s) = (Inr c, s1)"
    using assms(2) by (auto simp: process_next_action_def split: prod.splits sum.splits)
  then have "claim_action (tn_locked turn) (tn_held turn) (tn_claim turn) now s = (Inr c, s1)"
    by (auto simp: or_rollback_def split: prod.splits sum.splits)
  then have post: "claim_post (wk_queue s) c (wk_queue s1)"
    using runs_claim [OF assms(1), of "tn_locked turn" "tn_held turn" "tn_claim turn" now] by (auto simp: runs_def)
  show ?thesis
  proof (cases result)
    case None
    with assms(2) c post show ?thesis
      by (auto simp: process_next_action_def claim_post_def split: claim.splits prod.splits sum.splits)
  next
    case (Some r)
    have "settled (wr_queue_id r) (aside (wr_queue_id r) (wk_queue s)) r (wk_queue s') \<and>
      was_takeable (wk_queue s) (wr_queue_id r)"
    proof (cases c)
      case (Claimed row)
      then have "or_rollback s1 (run_claimed_action executor env (tn_held turn) (tn_run turn) now row s1) = (Inr r, s')"
        using assms(2) c Some by (auto simp: process_next_action_def split: prod.splits sum.splits)
      then have "run_claimed_action executor env (tn_held turn) (tn_run turn) now row s1 = (Inr r, s')"
        by (auto simp: or_rollback_def split: prod.splits sum.splits)
      then have "settled (q_id row) (aside (q_id row) (wk_queue s)) r (wk_queue s')"
        using post runs_claimed [of row "aside (q_id row) (wk_queue s)" executor env "tn_held turn" "tn_run turn" now]
        by (auto simp: Claimed claim_post_def runs_def)
      then show ?thesis using post by (auto simp: settled_def Claimed claim_post_def)
    qed (use assms(2) c post Some in \<open>auto simp: process_next_action_def claim_post_def\<close>)
    then show ?thesis by (auto simp: Some settled_def moved_def aside_def was_takeable_def takeable_def)
  qed
qed

end
