(* ===== verification/Worker_Runs.thy ===== *)
theory Worker_Runs
  imports Worker_Turns "HOL-Library.Code_Target_Numeral"
begin

text \<open>
  A concrete run of the worker, evaluated in the kernel: a queued block waits for its approval in the first
  turn, is approved, and is tracked in the second.
\<close>

definition wit_worker_env :: command_env where
  "wit_worker_env =
     \<lparr>env_protected = ''10.0.0.0/8'', env_uuid = (\<lambda>n. ''0123456789a'' @ [char_of (97 + n)]),
      env_sha256 = (\<lambda>x. x), env_fromisoformat = (\<lambda>x. Inl (ValueError x))\<rparr>"

definition wit_worker_clock :: "time \<Rightarrow> clock" where
  "wit_worker_clock t = \<lparr>utc_now = t, sql_now = t\<rparr>"

definition wit_turn :: "time \<Rightarrow> worker_turn" where
  "wit_turn t = \<lparr>tn_locked = (\<lambda>_. False), tn_held = (\<lambda>_. False), tn_claim = wit_worker_clock t, tn_run = wit_worker_clock t\<rparr>"

definition wit_enqueued :: worker_db where
  "wit_enqueued = (worker_init [] True)\<lparr>wk_queue := snd (enqueue_response_action (\<lambda>x. x) (wit_worker_clock 0) None
     (Some ''45.33.32.156'') (Some ''block_ip'') 3 (wk_queue (worker_init [] True)))\<rparr>"

definition wit_next :: "time \<Rightarrow> worker_db \<Rightarrow> worker_result option result \<times> worker_db" where
  "wit_next t = process_next_action simulation_executor wit_worker_env None (wit_turn t)"

definition wit_waits :: worker_db where
  "wit_waits = snd (wit_next 1 wit_enqueued)"

definition wit_granted :: worker_db where
  "wit_granted = wit_waits\<lparr>wk_approvals := snd (approve_request (wit_worker_clock 2) 1 9 None None (wk_approvals wit_waits))\<rparr>"

definition wit_tracked :: worker_db where
  "wit_tracked = snd (wit_next 3 wit_granted)"

lemma wit_waits_rows:
  "map q_status (response_actions_queue (wk_queue wit_waits)) = [QAwaiting] \<and>
   map ar_status (approval_requests (wk_approvals wit_waits)) = [APending]"
  by code_simp

lemma wit_tracked_event:
  "map (\<lambda>e. (ie_requested_action e, ie_queue_id e)) (indicator_response_events (cmd_registry (wk_commands wit_tracked))) =
     [(''block_ip'', Some 1)]"
  by code_simp

lemma wit_tracked_result:
  "map_sum id (map_option (\<lambda>r. (wr_queue_id r, wr_outcome r, wr_new_status r))) (fst (wit_next 3 wit_granted)) =
     Inr (Some (1, ''success'', QSuccess))"
  by code_simp

lemma wit_granted_reach:
  "(worker_step (\<lambda>x. x) wit_worker_env)\<^sup>*\<^sup>* (worker_init [] True) wit_granted"
proof -
  have "worker_step (\<lambda>x. x) wit_worker_env (worker_init [] True) wit_enqueued"
    unfolding wit_enqueued_def by (rule ws_queue) (rule qo_enqueue)
  moreover have "(worker_step (\<lambda>x. x) wit_worker_env)\<^sup>*\<^sup>* wit_enqueued wit_waits"
    unfolding wit_waits_def wit_next_def by (rule process_next_steps)
  moreover have "worker_step (\<lambda>x. x) wit_worker_env wit_waits wit_granted"
    unfolding wit_granted_def by (rule ws_approvals) (rule op_approve)
  ultimately show ?thesis by (meson converse_rtranclp_into_rtranclp rtranclp.rtrancl_into_rtrancl)
qed

lemma wit_tracked_reach:
  "(worker_step (\<lambda>x. x) wit_worker_env)\<^sup>*\<^sup>* (worker_init [] True) wit_tracked"
  using rtranclp_trans [OF wit_granted_reach process_next_steps]
  unfolding wit_tracked_def wit_next_def by blast

theorem queued_blocks_approved_witness:
  "\<exists>r who t. r \<in> set (approval_requests (wk_approvals wit_tracked)) \<and> ar_queue_id r = Some 1 \<and>
     ar_status r = AApproved \<and> ar_approved_by r = Some who \<and> ar_decided_at r = Some t \<and> t < ar_expires_at r"
proof -
  obtain e where "indicator_response_events (cmd_registry (wk_commands wit_tracked)) = [e]"
      "ie_requested_action e = ''block_ip''" "ie_queue_id e = Some 1"
    using wit_tracked_event by (auto simp: map_eq_Cons_conv)
  then have "e \<in> set (indicator_response_events (cmd_registry (wk_commands wit_tracked)))" by simp
  from queued_blocks_approved [OF _ wit_tracked_reach this \<open>ie_requested_action e = _\<close> \<open>ie_queue_id e = _\<close>]
  show ?thesis by auto
qed

theorem turn_settles_one_row_witness:
  "(\<exists>row \<in> set (response_actions_queue (wk_queue wit_granted)). q_id row = 1 \<and>
     (q_status row = QPending \<or> q_status row = QAwaiting)) \<and>
   (\<exists>row \<in> set (response_actions_queue (wk_queue wit_tracked)). q_id row = 1 \<and> q_status row = QSuccess)"
proof -
  obtain r where r: "fst (wit_next 3 wit_granted) = Inr (Some r)" "wr_queue_id r = 1" "wr_new_status r = QSuccess"
    using wit_tracked_result by (cases "fst (wit_next 3 wit_granted)") auto
  then have run: "process_next_action simulation_executor wit_worker_env None (wit_turn 3) wit_granted = (Inr (Some r), wit_tracked)"
    unfolding wit_tracked_def wit_next_def by (metis prod.collapse)
  have "worker_ok (\<lambda>x. x) wit_worker_env {} wit_granted"
    by (rule worker_system.ops_inv [OF wit_granted_reach worker_init_ok]) simp
  then have "queue_inv (\<lambda>x. x) (wk_queue wit_granted)" by (simp add: worker_ok_def)
  from turn_settles_one_row [OF this run] r(2,3) show ?thesis by auto
qed

end
