(* ===== verification/Legacy_Outcomes.thy ===== *)
theory Legacy_Outcomes
  imports Response_Commands Response_Queue "HOL-Library.List_Lexorder" "HOL-Library.Char_ord"
begin

text \<open>
  \<open>core/soar_response_outcomes_legacy.py\<close>: what is shown as the outcome of a row that was written before
  the decision tables. Every table has its inference (\<open>infer_*_legacy_outcome\<close>) to a \<open>LegacyMapping\<close>, a
  resolver that prefers the canonical decision where there is one, and its part in the dry run of the
  backfill. All of it only reads.

  Shown here: whatever is inferred is truthful in the sense of the outcome events, external execution is
  claimed only with the evidence the code asks for, and the one status whose inference cannot be shown at
  all. Texts of JSON numbers and containers (\<open>->>\<close>) and \<open>json.loads\<close> are parameters.
\<close>

subsection \<open>Mappings\<close>

record LegacyMapping =
  lm_source_table :: string
  lm_source_id :: row_id
  lm_soar_correlation_id :: string
  lm_selected_action :: "string option"
  lm_decision_source :: string
  lm_execution_mode :: string
  lm_execution_state :: string
  lm_external_executed :: bool
  lm_tracking_recorded :: bool
  lm_simulated :: bool
  lm_execution_actor :: string
  lm_outcome_summary :: string
  lm_reason_code :: "string option"
  lm_ambiguous :: bool
  lm_needs_review :: bool
  lm_ambiguity_reason :: "string option"
  lm_alert_id :: "row_id option"
  lm_incident_id :: "row_id option"
  lm_source_ip :: "string option"
  lm_queue_id :: "row_id option"
  lm_playbook_execution_id :: "row_id option"
  lm_approval_request_id :: "row_id option"
  lm_delivery_attempt_id :: "row_id option"
  lm_response_action_log_id :: "row_id option"
  lm_blocked_ip_id :: "row_id option"
  lm_proposed_decision :: bool
  lm_proposed_event_count :: int

definition mapping0 :: "string \<Rightarrow> row_id \<Rightarrow> string \<Rightarrow> string option \<Rightarrow> string \<Rightarrow> LegacyMapping" where
  "mapping0 table i correlation action source =
     \<lparr>lm_source_table = table, lm_source_id = i, lm_soar_correlation_id = correlation,
      lm_selected_action = action, lm_decision_source = source, lm_execution_mode = [],
      lm_execution_state = [], lm_external_executed = False, lm_tracking_recorded = False,
      lm_simulated = False, lm_execution_actor = [], lm_outcome_summary = [], lm_reason_code = None,
      lm_ambiguous = False, lm_needs_review = False, lm_ambiguity_reason = None, lm_alert_id = None,
      lm_incident_id = None, lm_source_ip = None, lm_queue_id = None, lm_playbook_execution_id = None,
      lm_approval_request_id = None, lm_delivery_attempt_id = None, lm_response_action_log_id = None,
      lm_blocked_ip_id = None, lm_proposed_decision = True, lm_proposed_event_count = 1\<rparr>"

text \<open>Every inference takes its correlation id first, which raises for an id below one.\<close>

definition legacy_of ::
  "string \<Rightarrow> row_id \<Rightarrow> string option \<Rightarrow> string \<Rightarrow> (LegacyMapping \<Rightarrow> LegacyMapping) \<Rightarrow> LegacyMapping result" where
  "legacy_of table i action source f =
     (case generate_legacy_soar_correlation_id table i of
        Inl e \<Rightarrow> Inl e
      | Inr c \<Rightarrow> Inr (f (mapping0 table i c action source)))"

text \<open>The outcome of a mapping; the order is mode, state, the three booleans, actor, summary, reason.\<close>

definition classified ::
  "string \<Rightarrow> string \<Rightarrow> bool \<Rightarrow> bool \<Rightarrow> bool \<Rightarrow> string \<Rightarrow> string \<Rightarrow> string option \<Rightarrow> LegacyMapping \<Rightarrow> LegacyMapping" where
  "classified mode state external tracking simulated actor summary reason m =
     m\<lparr>lm_execution_mode := mode, lm_execution_state := state, lm_external_executed := external,
       lm_tracking_recorded := tracking, lm_simulated := simulated, lm_execution_actor := actor,
       lm_outcome_summary := summary, lm_reason_code := reason\<rparr>"

definition ambiguous_because :: "string \<Rightarrow> LegacyMapping \<Rightarrow> LegacyMapping" where
  "ambiguous_because why m = m\<lparr>lm_ambiguous := True, lm_needs_review := True, lm_ambiguity_reason := Some why\<rparr>"

definition quoted :: "string \<Rightarrow> string" where
  "quoted s = [CHR 0x27] @ s @ [CHR 0x27]"

definition proposed_idempotency_keys :: "LegacyMapping \<Rightarrow> string \<times> string" where
  "proposed_idempotency_keys m =
     (let base = ''legacy-backfill-'' @ lm_source_table m @ ''-'' @ show_int (lm_source_id m)
      in (base @ ''-decision'', base @ ''-event-latest''))"

text \<open>What a dashboard is given. The canonical form has the decision and its event in it, and no proposed
  keys; what is inferred has neither.\<close>

record read_model =
  rm_source_table :: string
  rm_source_id :: row_id
  rm_inferred :: bool
  rm_ambiguous :: bool
  rm_needs_review :: bool
  rm_ambiguity_reason :: "string option"
  rm_soar_correlation_id :: string
  rm_decision_id :: "row_id option"
  rm_latest_outcome_event_id :: "row_id option"
  rm_selected_action :: "string option"
  rm_decision_source :: string
  rm_execution_actor :: "string option"
  rm_outcome_label :: string
  rm_execution_mode :: string
  rm_execution_state :: string
  rm_external_executed :: bool
  rm_tracking_recorded :: bool
  rm_simulated :: bool
  rm_outcome_summary :: string
  rm_reason_code :: "string option"
  rm_decision :: "response_decision option"
  rm_latest_outcome :: "outcome_event option"
  rm_alert_id :: "row_id option"
  rm_incident_id :: "row_id option"
  rm_source_ip :: "string option"
  rm_queue_id :: "row_id option"
  rm_playbook_execution_id :: "row_id option"
  rm_approval_request_id :: "row_id option"
  rm_delivery_attempt_id :: "row_id option"
  rm_response_action_log_id :: "row_id option"
  rm_blocked_ip_id :: "row_id option"
  rm_proposed_idempotency_keys :: "(string \<times> string) option"

definition to_read_model :: "LegacyMapping \<Rightarrow> read_model result" where
  "to_read_model m =
     (case derive_outcome_label (lm_execution_mode m) (lm_execution_state m) (lm_external_executed m)
             (lm_tracking_recorded m) (lm_simulated m) of
        Inl e \<Rightarrow> Inl e
      | Inr label \<Rightarrow> Inr
          \<lparr>rm_source_table = lm_source_table m, rm_source_id = lm_source_id m, rm_inferred = True,
           rm_ambiguous = lm_ambiguous m, rm_needs_review = lm_needs_review m,
           rm_ambiguity_reason = lm_ambiguity_reason m, rm_soar_correlation_id = lm_soar_correlation_id m,
           rm_decision_id = None, rm_latest_outcome_event_id = None, rm_selected_action = lm_selected_action m,
           rm_decision_source = lm_decision_source m, rm_execution_actor = Some (lm_execution_actor m),
           rm_outcome_label = label, rm_execution_mode = lm_execution_mode m,
           rm_execution_state = lm_execution_state m, rm_external_executed = lm_external_executed m,
           rm_tracking_recorded = lm_tracking_recorded m, rm_simulated = lm_simulated m,
           rm_outcome_summary = lm_outcome_summary m, rm_reason_code = lm_reason_code m, rm_decision = None,
           rm_latest_outcome = None, rm_alert_id = lm_alert_id m, rm_incident_id = lm_incident_id m,
           rm_source_ip = lm_source_ip m, rm_queue_id = lm_queue_id m,
           rm_playbook_execution_id = lm_playbook_execution_id m,
           rm_approval_request_id = lm_approval_request_id m, rm_delivery_attempt_id = lm_delivery_attempt_id m,
           rm_response_action_log_id = lm_response_action_log_id m, rm_blocked_ip_id = lm_blocked_ip_id m,
           rm_proposed_idempotency_keys = Some (proposed_idempotency_keys m)\<rparr>)"

definition wrap_canonical_read_model ::
  "string \<Rightarrow> row_id \<Rightarrow> response_decision \<times> outcome_event option \<times> string \<Rightarrow> read_model" where
  "wrap_canonical_read_model table i shown =
     (case shown of (d, latest, label) \<Rightarrow>
        \<lparr>rm_source_table = table, rm_source_id = i, rm_inferred = False, rm_ambiguous = False,
         rm_needs_review = False, rm_ambiguity_reason = None, rm_soar_correlation_id = rd_soar_correlation_id d,
         rm_decision_id = Some (rd_id d), rm_latest_outcome_event_id = map_option oe_id latest,
         rm_selected_action = Some (rd_selected_action d), rm_decision_source = rd_decision_source d,
         rm_execution_actor = map_option oe_execution_actor latest, rm_outcome_label = label,
         rm_execution_mode = coalesce (map_option oe_execution_mode latest) ''observed'',
         rm_execution_state = coalesce (map_option oe_execution_state latest) ''selected'',
         rm_external_executed = coalesce (map_option oe_external_executed latest) False,
         rm_tracking_recorded = coalesce (map_option oe_tracking_recorded latest) False,
         rm_simulated = coalesce (map_option oe_simulated latest) False,
         rm_outcome_summary = coalesce (map_option oe_outcome_summary latest) (rd_outcome_summary d),
         rm_reason_code = (case latest of None \<Rightarrow> rd_reason_code d | Some e \<Rightarrow> oe_reason_code e),
         rm_decision = Some d, rm_latest_outcome = latest, rm_alert_id = rd_alert_id d,
         rm_incident_id = rd_incident_id d, rm_source_ip = rd_source_ip d, rm_queue_id = rd_queue_id d,
         rm_playbook_execution_id = rd_playbook_execution_id d,
         rm_approval_request_id = rd_approval_request_id d, rm_delivery_attempt_id = None,
         rm_response_action_log_id = None, rm_blocked_ip_id = None, rm_proposed_idempotency_keys = None\<rparr>)"

subsection \<open>Evidence\<close>

definition SIMULATION_HINTS :: "string list" where
  "SIMULATION_HINTS = [''simulated'', ''monitoring only'', ''simulation'']"

definition TRACKING_ONLY_HINTS :: "string list" where
  "TRACKING_ONLY_HINTS = [''tracking only'', ''recorded in siem blocklist'', ''blocklist (tracking'']"

definition details_indicates_simulation :: "string option \<Rightarrow> bool" where
  "details_indicates_simulation details \<longleftrightarrow>
     list_ex (\<lambda>hint. contains hint (lower (coalesce details []))) SIMULATION_HINTS"

definition details_indicates_tracking_only :: "string option \<Rightarrow> bool" where
  "details_indicates_tracking_only details \<longleftrightarrow>
     list_ex (\<lambda>hint. contains hint (lower (coalesce details []))) TRACKING_ONLY_HINTS"

text \<open>What is read of JSON columns: Python's formats, \<open>json.loads\<close> (\<open>None\<close> when it raises), the text that
  \<open>->>\<close> gives for a fraction, an array or an object, and which id a value other than an integer equals
  when it is the parameter of \<open>WHERE id = %s\<close> (PostgreSQL casts it, or raises).\<close>

record legacy_env =
  le_formats :: py_formats
  le_json_loads :: "string \<Rightarrow> pyval option"
  le_jsonb_text :: "pyval \<Rightarrow> string"
  le_sql_id :: "pyval \<Rightarrow> row_id option result"

text \<open>\<open>str(a or "").strip().lower()\<close>\<close>

definition word_of :: "legacy_env \<Rightarrow> pyval \<Rightarrow> string" where
  "word_of env v = lower (strip (if truthy v then str_val (le_formats env) v else []))"

definition DELIVERED :: "string list" where
  "DELIVERED = [''sent'', ''delivered'', ''accepted'', ''success'']"

definition notification_metadata_has_provider_success_evidence :: "legacy_env \<Rightarrow> pyval \<Rightarrow> bool" where
  "notification_metadata_has_provider_success_evidence env metadata =
     (case metadata of
        PDict d \<Rightarrow>
          (case py_int (dict_get d ''http_status'') of
             Some n \<Rightarrow> 200 \<le> n \<and> n < 300
           | None \<Rightarrow> False) \<or>
          word_of env (dict_get d ''delivery'') \<in> set DELIVERED
      | _ \<Rightarrow> False)"

definition notification_metadata_confirms_execution :: "legacy_env \<Rightarrow> pyval \<Rightarrow> bool" where
  "notification_metadata_confirms_execution env metadata =
     (case metadata of
        PDict d \<Rightarrow>
          dict_get d ''executed'' = PBool True \<and> dict_get d ''simulated'' = PBool False \<and>
          (word_of env (if truthy (dict_get d ''adapter_mode'') then dict_get d ''adapter_mode''
                        else dict_get d ''mode'') = ''real'' \<or>
           notification_metadata_has_provider_success_evidence env metadata)
      | _ \<Rightarrow> False)"

fun dicts_of :: "pyval list \<Rightarrow> items list" where
  "dicts_of [] = []"
| "dicts_of (PDict d # vs) = d # dicts_of vs"
| "dicts_of (_ # vs) = dicts_of vs"

definition coerce_steps_log :: "legacy_env \<Rightarrow> pyval \<Rightarrow> items list" where
  "coerce_steps_log env raw =
     (case raw of
        PList vs \<Rightarrow> dicts_of vs
      | PStr s \<Rightarrow> (case le_json_loads env s of Some (PList vs) \<Rightarrow> dicts_of vs | _ \<Rightarrow> [])
      | _ \<Rightarrow> [])"

definition latest_playbook_step :: "legacy_env \<Rightarrow> pyval \<Rightarrow> items option" where
  "latest_playbook_step env raw =
     (let steps = coerce_steps_log env raw in if steps = [] then None else Some (last steps))"

definition sub_dict :: "items \<Rightarrow> string \<Rightarrow> items" where
  "sub_dict d k = (case dict_get d k of PDict x \<Rightarrow> x | _ \<Rightarrow> [])"

text \<open>Simulated, executed outside, tracked.\<close>

definition playbook_step_evidence :: "items option \<Rightarrow> bool \<times> bool \<times> bool" where
  "playbook_step_evidence step =
     (if coalesce step [] = [] then (False, False, False)
      else let st = the step; output = sub_dict st ''output''; result = sub_dict output ''adapter_result''
           in (truthy (dict_get st ''simulated'') \<or> truthy (dict_get output ''simulated'') \<or>
                 truthy (dict_get result ''simulated''),
               truthy (dict_get st ''executed'') \<or> truthy (dict_get output ''executed'') \<or>
                 truthy (dict_get result ''executed''),
               truthy (dict_get output ''tracking_recorded'') \<or> truthy (dict_get result ''tracking_recorded'')))"

subsection \<open>Inferences\<close>

definition infer_alert_legacy_outcome ::
  "row_id \<Rightarrow> string option \<Rightarrow> string option \<Rightarrow> bool \<Rightarrow> bool \<Rightarrow> LegacyMapping result" where
  "infer_alert_legacy_outcome alert_id source_ip response_action has_queue has_log =
     (if coalesce response_action [] = [] \<and> \<not> has_queue \<and> \<not> has_log
      then legacy_of ''alerts'' alert_id None ''migration'' (\<lambda>m.
        classified ''observed'' ''observed'' False False False ''system''
          ''Detection observed; no response selected or executed.'' None
          (m\<lparr>lm_alert_id := Some alert_id, lm_source_ip := source_ip, lm_proposed_decision := False\<rparr>))
      else legacy_of ''alerts'' alert_id (Some (or_text response_action ''monitor'')) ''detection_default'' (\<lambda>m.
        if has_queue \<or> has_log
        then classified ''simulation'' ''selected'' False False False ''system''
          ''Legacy alert selected a response; queue/log records provide lifecycle detail.'' None
          (m\<lparr>lm_alert_id := Some alert_id, lm_source_ip := source_ip, lm_proposed_event_count := 0\<rparr>)
        else ambiguous_because ''response_action_without_queue_or_log''
          (classified ''simulation'' ''selected'' False False False ''system''
            ''Legacy alert selected a response; no queue or log evidence found.'' None
            (m\<lparr>lm_alert_id := Some alert_id, lm_source_ip := source_ip\<rparr>))))"

definition infer_queue_legacy_outcome ::
  "row_id \<Rightarrow> row_id option \<Rightarrow> string option \<Rightarrow> string \<Rightarrow> string \<Rightarrow> string option \<Rightarrow> LegacyMapping result" where
  "infer_queue_legacy_outcome queue_id alert_id source_ip action status last_error =
     legacy_of ''response_actions_queue'' queue_id (Some action) ''migration'' (\<lambda>m.
       let base = m\<lparr>lm_alert_id := alert_id, lm_source_ip := source_ip, lm_queue_id := Some queue_id\<rparr>
       in if status = ''pending''
          then classified ''simulation'' ''queued'' False False False ''queue_worker''
                 ''Legacy queue action is pending execution.'' None base
          else if status = ''running''
          then classified ''simulation'' ''running'' False False False ''queue_worker''
                 ''Legacy queue action is running.'' None base
          else if status = ''awaiting_approval''
          then classified ''simulation'' ''awaiting_approval'' False False False ''queue_worker''
                 ''Legacy queue action is awaiting approval.'' (Some ''approval_required'') base
          else if status = ''skipped''
          then classified ''simulation'' ''skipped'' False False False ''queue_worker''
                 (or_text last_error ''Legacy queue action was skipped.'') (Some ''policy_blocked'') base
          else if status = ''failed''
          then classified ''simulation'' ''failed'' False False False ''queue_worker''
                 (or_text last_error ''Legacy queue action failed.'') (Some ''provider_error'') base
          else if status = ''success''
          then classified ''simulation'' ''succeeded'' False False True ''queue_worker''
                 ''Legacy queue action completed in simulation mode.'' (Some ''simulation_mode'') base
          else ambiguous_because (''unknown_queue_status:'' @ status)
                 (classified ''simulation'' ''selected'' False False False ''queue_worker''
                   (''Legacy queue status '' @ quoted status @ '' mapped conservatively.'') None base))"

definition infer_response_log_legacy_outcome ::
  "row_id \<Rightarrow> row_id option \<Rightarrow> string option \<Rightarrow> string \<Rightarrow> string \<Rightarrow> string option \<Rightarrow> bool \<Rightarrow> LegacyMapping result" where
  "infer_response_log_legacy_outcome log_id alert_id source_ip action status details blocked_ip_exists =
     legacy_of ''response_actions_log'' log_id (Some action) ''migration'' (\<lambda>m.
       let base = m\<lparr>lm_alert_id := alert_id, lm_source_ip := source_ip, lm_response_action_log_id := Some log_id\<rparr>
       in if status = ''skipped''
          then classified ''simulation'' ''skipped'' False False False ''queue_worker''
                 (or_text details ''Legacy response log entry was skipped.'') (Some ''policy_blocked'') base
          else if status = ''failed''
          then classified ''simulation'' ''failed'' False False False ''queue_worker''
                 (or_text details ''Legacy response log entry failed.'') (Some ''provider_error'') base
          else if details_indicates_tracking_only details \<or> (action = ''block_ip'' \<and> blocked_ip_exists)
          then classified ''tracking_only'' ''succeeded'' False True False ''manual''
                 (or_text details ''Recorded IP in SIEM blocklist only; no firewall enforcement occurred.'')
                 (Some ''tracking_only'') base
          else if details_indicates_simulation details
          then classified ''simulation'' ''succeeded'' False False True ''queue_worker''
                 (or_text details ''Legacy simulated response completed.'') (Some ''simulation_mode'') base
          else ambiguous_because ''executed_log_without_explicit_simulation_or_tracking_evidence''
                 (classified ''simulation'' ''succeeded'' False False True ''queue_worker''
                   (or_text details ''Legacy response log mapped conservatively as simulation.'')
                   (Some ''simulation_mode'') base))"

definition infer_approval_request_legacy_outcome ::
  "row_id \<Rightarrow> row_id option \<Rightarrow> row_id option \<Rightarrow> row_id option \<Rightarrow> row_id option \<Rightarrow> string \<Rightarrow> string \<Rightarrow>
   string option \<Rightarrow> LegacyMapping result" where
  "infer_approval_request_legacy_outcome approval_request_id alert_id incident_id queue_id execution_id action status
      request_reason =
     legacy_of ''approval_requests'' approval_request_id (Some action) ''migration'' (\<lambda>m.
       let base = m\<lparr>lm_alert_id := alert_id, lm_incident_id := incident_id, lm_queue_id := queue_id,
                    lm_playbook_execution_id := execution_id,
                    lm_approval_request_id := Some approval_request_id\<rparr>
       in if status = ''pending''
          then classified ''simulation'' ''awaiting_approval'' False False False ''approval_service''
                 (or_text request_reason ''Legacy approval request is pending.'') (Some ''approval_required'') base
          else if status = ''denied'' \<or> status = ''expired''
          then classified ''simulation'' ''blocked'' False False False ''approval_service''
                 (or_text request_reason (''Legacy approval request was '' @ status @ ''.''))
                 (Some (if status = ''denied'' then ''approval_denied'' else ''approval_expired'')) base
          else if status = ''approved''
          then classified ''simulation'' ''selected'' False False False ''approval_service''
                 (or_text request_reason ''Legacy approval request was approved.'') None base
          else ambiguous_because (''unknown_approval_status:'' @ status)
                 (classified ''simulation'' ''selected'' False False False ''approval_service''
                   (or_text request_reason (''Legacy approval status '' @ quoted status @ '' mapped conservatively.''))
                   None base))"

text \<open>A row of \<open>notification_delivery_attempts\<close>, as far as it is read here.\<close>

record delivery_attempt =
  nd_id :: row_id
  nd_alert_id :: "row_id option"
  nd_incident_id :: "row_id option"
  nd_playbook_execution_id :: "row_id option"
  nd_approval_request_id :: "row_id option"
  nd_action :: string
  nd_mode :: string
  nd_status :: string
  nd_metadata :: pyval
  nd_failure_message :: "string option"
  nd_created_at :: time
  nd_decision_id :: "row_id option"
  nd_soar_correlation_id :: "string option"

text \<open>The keyword arguments of the next function are columns of one attempt, so the attempt is passed.\<close>

definition legacy_delivery_outcome :: "legacy_env \<Rightarrow> delivery_attempt \<Rightarrow> LegacyMapping \<Rightarrow> LegacyMapping" where
  "legacy_delivery_outcome env a base =
     (let mode = nd_mode a; status = nd_status a; message = nd_failure_message a;
          written = (if mode = ''simulation'' then ''simulation'' else ''real'')
      in if mode = ''simulation'' \<and> status = ''success''
         then classified ''simulation'' ''succeeded'' False False True ''adapter''
                ''Legacy notification delivery completed in simulation mode.'' (Some ''simulation_mode'') base
         else if mode = ''real'' \<and> status = ''success'' \<and>
           notification_metadata_confirms_execution env (nd_metadata a)
         then classified ''real'' ''succeeded'' True False False ''adapter''
                ''Legacy notification delivery confirmed real execution.'' None base
         else if mode = ''real'' \<and> status = ''success''
         then ambiguous_because ''real_delivery_without_executed_metadata''
                (classified ''simulation'' ''succeeded'' False False True ''adapter''
                  ''Legacy real-mode delivery succeeded without explicit execution evidence.''
                  (Some ''simulation_mode'') base)
         else if status = ''blocked''
         then classified ''simulation'' ''blocked'' False False False ''adapter''
                (or_text message ''Legacy notification delivery was blocked.'') (Some ''policy_blocked'') base
         else if status = ''failed'' \<or> status = ''timeout''
         then classified written ''failed'' False False (mode = ''simulation'') ''adapter''
                (or_text message (''Legacy notification delivery '' @ status @ ''.'')) (Some ''provider_error'') base
         else if status = ''pending''
         then classified written ''running'' False False False ''adapter''
                ''Legacy notification delivery is pending.'' None base
         else ambiguous_because (''unknown_notification_status:'' @ status)
                (classified ''simulation'' ''selected'' False False False ''adapter''
                  (or_text message (''Legacy notification status '' @ quoted status @ '' mapped conservatively.''))
                  None base))"

definition infer_notification_delivery_legacy_outcome ::
  "legacy_env \<Rightarrow> delivery_attempt \<Rightarrow> LegacyMapping result" where
  "infer_notification_delivery_legacy_outcome env a =
     legacy_of ''notification_delivery_attempts'' (nd_id a) (Some (nd_action a)) ''migration'' (\<lambda>m.
       legacy_delivery_outcome env a
         (m\<lparr>lm_alert_id := nd_alert_id a, lm_incident_id := nd_incident_id a,
            lm_playbook_execution_id := nd_playbook_execution_id a,
            lm_approval_request_id := nd_approval_request_id a, lm_delivery_attempt_id := Some (nd_id a)\<rparr>))"

text \<open>The latest attempt of an alert stands for the alert; the status of its approval comes from a left join.\<close>

definition infer_alert_notification_legacy_outcome ::
  "legacy_env \<Rightarrow> row_id \<Rightarrow> string option \<Rightarrow> string option \<Rightarrow> string option \<Rightarrow> delivery_attempt \<Rightarrow>
   LegacyMapping result" where
  "infer_alert_notification_legacy_outcome env alert_id source_ip response_action approval_status a =
     (case generate_legacy_soar_correlation_id ''alerts'' alert_id of
        Inl e \<Rightarrow> Inl e
      | Inr correlation \<Rightarrow>
          let ids = (\<lambda>m. m\<lparr>lm_alert_id := Some alert_id, lm_incident_id := nd_incident_id a,
                            lm_source_ip := source_ip, lm_playbook_execution_id := nd_playbook_execution_id a,
                            lm_approval_request_id := nd_approval_request_id a,
                            lm_delivery_attempt_id := Some (nd_id a)\<rparr>)
          in if approval_status = Some ''denied'' \<or> approval_status = Some ''expired''
             then Inr (classified ''simulation'' ''blocked'' False False False ''approval_service''
                    (or_text (nd_failure_message a) (''Linked approval request was '' @ the approval_status @ ''.''))
                    (Some (if approval_status = Some ''denied'' then ''approval_denied'' else ''approval_expired''))
                    (ids (mapping0 ''alerts'' alert_id correlation (Some (or_text response_action (nd_action a)))
                            ''detection_default'')))
             else case infer_notification_delivery_legacy_outcome env (a\<lparr>nd_alert_id := Some alert_id\<rparr>) of
                    Inl e \<Rightarrow> Inl e
                  | Inr n \<Rightarrow> Inr
                      ((classified (lm_execution_mode n) (lm_execution_state n) (lm_external_executed n)
                          (lm_tracking_recorded n) (lm_simulated n) (lm_execution_actor n) (lm_outcome_summary n)
                          (lm_reason_code n)
                          (ids (mapping0 ''alerts'' alert_id correlation
                                  (if coalesce response_action [] = [] then lm_selected_action n else response_action)
                                  ''detection_default'')))
                       \<lparr>lm_ambiguous := lm_ambiguous n, lm_needs_review := lm_needs_review n,
                        lm_ambiguity_reason := lm_ambiguity_reason n\<rparr>))"

definition playbook_outcome ::
  "string \<Rightarrow> string option \<Rightarrow> items option \<Rightarrow> bool \<Rightarrow> LegacyMapping \<Rightarrow> LegacyMapping" where
  "playbook_outcome status failure_reason last_step confirmed base =
     (case playbook_step_evidence last_step of (simulated, external_executed, tracking_recorded) \<Rightarrow>
      if status = ''pending''
      then classified ''simulation'' ''queued'' False False False ''playbook_worker''
             ''Legacy playbook execution is pending.'' None base
      else if status = ''running''
      then classified ''simulation'' ''running'' False False False ''playbook_worker''
             ''Legacy playbook execution is running.'' None base
      else if status = ''awaiting_approval''
      then classified ''simulation'' ''awaiting_approval'' False False False ''playbook_worker''
             ''Legacy playbook execution is awaiting approval.'' (Some ''approval_required'') base
      else if status = ''failed'' \<or> status = ''abandoned'' \<or> status = ''permanently_failed'' \<or> status = ''not_actioned''
      then classified ''simulation''
             (if status = ''failed'' then ''failed'' else if status = ''not_actioned'' then ''not_actioned'' else ''skipped'')
             False False simulated ''playbook_worker''
             (or_text failure_reason (''Legacy playbook execution '' @ status @ ''.''))
             (Some (if status = ''failed'' then ''provider_error''
                    else if status = ''not_actioned'' then ''policy_blocked'' else ''unsupported_action'')) base
      else if status = ''success'' \<or> status = ''completed''
      then (if external_executed \<and> confirmed
            then classified ''real'' ''succeeded'' True False False ''playbook_worker''
                   ''Legacy playbook step reported real execution.'' None base
            else if external_executed
            then ambiguous_because ''playbook_real_execution_without_notification_corroboration''
                   (classified ''simulation'' ''succeeded'' False False True ''playbook_worker''
                     (''Legacy playbook step reported execution in nested output, '' @
                      ''but no corroborating real notification delivery was found.'')
                     (Some ''simulation_mode'') base)
            else if tracking_recorded
            then classified ''tracking_only'' ''succeeded'' False True False ''playbook_worker''
                   ''Legacy playbook step recorded tracking-only state.'' (Some ''tracking_only'') base
            else classified ''simulation'' ''succeeded'' False False (simulated \<or> coalesce last_step [] = [])
                   ''playbook_worker'' ''Legacy playbook execution completed in simulation mode.''
                   (Some ''simulation_mode'') base)
      else ambiguous_because (''unknown_playbook_status:'' @ status)
             (classified ''simulation'' ''selected'' False False False ''playbook_worker''
               (or_text failure_reason (''Legacy playbook status '' @ quoted status @ '' mapped conservatively.''))
               None base))"

definition infer_playbook_execution_legacy_outcome ::
  "legacy_env \<Rightarrow> row_id \<Rightarrow> row_id option \<Rightarrow> row_id option \<Rightarrow> string \<Rightarrow> string \<Rightarrow> pyval \<Rightarrow> string option \<Rightarrow> bool \<Rightarrow>
   LegacyMapping result" where
  "infer_playbook_execution_legacy_outcome env execution_id alert_id incident_id playbook_id status steps_log
      failure_reason confirmed =
     legacy_of ''playbook_executions'' execution_id (Some playbook_id) ''playbook'' (\<lambda>m.
       playbook_outcome status failure_reason (latest_playbook_step env steps_log) confirmed
         (m\<lparr>lm_alert_id := alert_id, lm_incident_id := incident_id,
            lm_playbook_execution_id := Some execution_id,
            lm_proposed_event_count := max 1 (int (length (coerce_steps_log env steps_log)))\<rparr>))"

definition infer_blocked_ip_legacy_outcome ::
  "row_id \<Rightarrow> string \<Rightarrow> row_id option \<Rightarrow> string option \<Rightarrow> LegacyMapping result" where
  "infer_blocked_ip_legacy_outcome block_id source_ip source_alert_id reason =
     legacy_of ''blocked_ips'' block_id (Some ''block_ip'') ''migration'' (\<lambda>m.
       classified ''tracking_only'' ''succeeded'' False True False ''manual''
         (or_text reason ''Recorded IP in SIEM blocklist only; no firewall enforcement occurred.'')
         (Some ''tracking_only'')
         (m\<lparr>lm_alert_id := source_alert_id, lm_source_ip := Some source_ip, lm_blocked_ip_id := Some block_id\<rparr>))"

subsection \<open>The tables that are read\<close>

text \<open>The linkage columns of \<open>approval_requests\<close>, which no operation of its store touches, are a table of
  their own: decision and correlation by the request's id. \<open>lg_audit\<close> are the audit entries with JSON
  details, as \<open>(id, event type, details)\<close>.\<close>

record legacy_db =
  lg_queue :: queue_db
  lg_executions :: exec_db
  lg_approvals :: approval_db
  lg_commands :: command_db
  lg_attempts :: "delivery_attempt list"
  lg_approval_links :: "row_id \<Rightarrow> row_id option \<times> string option"
  lg_audit :: "(row_id \<times> string \<times> pyval) list"

abbreviation lg_outcomes :: "legacy_db \<Rightarrow> outcome_db" where
  "lg_outcomes s \<equiv> cmd_outcomes (lg_commands s)"

definition has_queue_row :: "legacy_db \<Rightarrow> row_id \<Rightarrow> bool" where
  "has_queue_row s i \<longleftrightarrow> list_ex (\<lambda>q. q_alert_id q = Some i) (response_actions_queue (lg_queue s))"

definition has_log_row :: "legacy_db \<Rightarrow> row_id \<Rightarrow> bool" where
  "has_log_row s i \<longleftrightarrow> list_ex (\<lambda>l. lg_alert_id l = Some i) (response_actions_log (lg_commands s))"

definition latest_attempt :: "legacy_db \<Rightarrow> row_id \<Rightarrow> delivery_attempt option" where
  "latest_attempt s i =
     fetchone (order_desc (\<lambda>a. (nd_created_at a, nd_id a)) (filter (\<lambda>a. nd_alert_id a = Some i) (lg_attempts s)))"

definition attempt_approval_status :: "legacy_db \<Rightarrow> delivery_attempt \<Rightarrow> string option" where
  "attempt_approval_status s a =
     Option.bind (nd_approval_request_id a) (\<lambda>i.
       map_option (\<lambda>r. approval_status_text (ar_status r)) (select_id ar_id i (approval_requests (lg_approvals s))))"

definition active_block_of_alert :: "legacy_db \<Rightarrow> row_id \<Rightarrow> bool" where
  "active_block_of_alert s i \<longleftrightarrow>
     list_ex (\<lambda>b. bi_source_alert_id b = Some i \<and> bi_status b = ''active'') (blocked_ips (lg_commands s))"

definition log_block_exists :: "legacy_db \<Rightarrow> action_log \<Rightarrow> bool" where
  "log_block_exists s l =
     (case lg_alert_id l of
        Some i \<Rightarrow> lg_action l = ''block_ip'' \<and> active_block_of_alert s i
      | None \<Rightarrow> False)"

text \<open>The alert of an approval is that of its queue row or else of its execution.\<close>

definition approval_alert :: "legacy_db \<Rightarrow> approval_request \<Rightarrow> row_id option" where
  "approval_alert s r =
     (case ar_queue_id r of
        Some q \<Rightarrow> Option.bind (select_id q_id q (response_actions_queue (lg_queue s))) q_alert_id
      | None \<Rightarrow>
          (case ar_playbook_execution_id r of
             Some x \<Rightarrow> Option.bind (select_id ex_id x (playbook_executions (lg_executions s))) ex_alert_id
           | None \<Rightarrow> None))"

text \<open>\<open>metadata->>'key'\<close>: the text of the value, \<open>NULL\<close> for none and for a JSON null.\<close>

definition json_field :: "legacy_env \<Rightarrow> pyval \<Rightarrow> string \<Rightarrow> string option" where
  "json_field env metadata k =
     (case metadata of
        PDict d \<Rightarrow>
          (case dict_get d k of
             PNone \<Rightarrow> None
           | PStr t \<Rightarrow> Some t
           | PBool b \<Rightarrow> Some (if b then ''true'' else ''false'')
           | PInt i \<Rightarrow> Some (show_int i)
           | v \<Rightarrow> Some (le_jsonb_text env v))
      | _ \<Rightarrow> None)"

text \<open>The condition of \<open>EXISTS\<close>, read from left to right; the cast raises beyond 32 bits.\<close>

definition http_status_confirms :: "legacy_env \<Rightarrow> pyval \<Rightarrow> bool result" where
  "http_status_confirms env metadata =
     (case json_field env metadata ''http_status'' of
        None \<Rightarrow> Inr False
      | Some t \<Rightarrow>
          if t = [] \<or> \<not> list_all is_digit t then Inr False
          else if 2147483647 < read_nat t then Inl (DataError ''integer out of range'')
          else Inr (200 \<le> read_nat t \<and> read_nat t \<le> 299))"

definition attempt_confirms :: "legacy_env \<Rightarrow> row_id \<Rightarrow> delivery_attempt \<Rightarrow> bool result" where
  "attempt_confirms env execution_id a =
     (let field = json_field env (nd_metadata a)
      in if nd_playbook_execution_id a = Some execution_id \<and> nd_mode a = ''real'' \<and> nd_status a = ''success'' \<and>
            field ''executed'' = Some ''true'' \<and> field ''simulated'' = Some ''false''
         then (if field ''adapter_mode'' = Some ''real'' \<or> field ''mode'' = Some ''real'' \<or>
                  field ''delivery'' \<in> Some ` set DELIVERED
               then Inr True else http_status_confirms env (nd_metadata a))
         else Inr False)"

fun any_attempt_confirms :: "legacy_env \<Rightarrow> row_id \<Rightarrow> delivery_attempt list \<Rightarrow> bool result" where
  "any_attempt_confirms env x [] = Inr False"
| "any_attempt_confirms env x (a # as) =
     (case attempt_confirms env x a of
        Inl e \<Rightarrow> Inl e
      | Inr b \<Rightarrow> if b then Inr True else any_attempt_confirms env x as)"

definition real_notification_confirmed :: "legacy_env \<Rightarrow> legacy_db \<Rightarrow> row_id \<Rightarrow> bool result" where
  "real_notification_confirmed env s x = any_attempt_confirms env x (lg_attempts s)"

definition find_canonical_decision_id ::
  "(response_decision \<Rightarrow> row_id option) \<Rightarrow> row_id \<Rightarrow> legacy_db \<Rightarrow> row_id option" where
  "find_canonical_decision_id column v s =
     map_option rd_id (fetchone (order_desc (\<lambda>d. (rd_created_at d, rd_id d))
       (filter (\<lambda>d. column d = Some v) (soar_response_decisions (lg_outcomes s)))))"

subsection \<open>Resolvers\<close>

text \<open>The canonical outcome of a decision where there is one, what is inferred otherwise.\<close>

definition canonical_or ::
  "legacy_db \<Rightarrow> string \<Rightarrow> row_id \<Rightarrow> row_id option \<Rightarrow> LegacyMapping result \<Rightarrow> read_model option result" where
  "canonical_or s table i decision inferred =
     (let infer = (case inferred of
                     Inl e \<Rightarrow> Inl e
                   | Inr m \<Rightarrow> (case to_read_model m of Inl e \<Rightarrow> Inl e | Inr r \<Rightarrow> Inr (Some r)))
      in case decision of
           None \<Rightarrow> infer
         | Some d \<Rightarrow>
             (case get_decision_with_latest_outcome (Some d) None (lg_outcomes s) of
                Inl e \<Rightarrow> Inl e
              | Inr (Some shown) \<Rightarrow> Inr (Some (wrap_canonical_read_model table i shown))
              | Inr None \<Rightarrow> infer))"

definition infer_alert :: "legacy_env \<Rightarrow> legacy_db \<Rightarrow> alert_row \<Rightarrow> LegacyMapping result" where
  "infer_alert env s a =
     (case latest_attempt s (al_id a) of
        Some n \<Rightarrow> infer_alert_notification_legacy_outcome env (al_id a) (Some (al_source_ip a))
                    (al_response_action a) (attempt_approval_status s n) n
      | None \<Rightarrow> infer_alert_legacy_outcome (al_id a) (Some (al_source_ip a)) (al_response_action a)
                  (has_queue_row s (al_id a)) (has_log_row s (al_id a)))"

definition resolve_alert_outcome :: "legacy_env \<Rightarrow> row_id \<Rightarrow> legacy_db \<Rightarrow> read_model option result" where
  "resolve_alert_outcome env i s =
     (case select_id al_id i (alerts (lg_commands s)) of
        None \<Rightarrow> Inr None
      | Some a \<Rightarrow> canonical_or s ''alerts'' i (find_canonical_decision_id rd_alert_id i s) (infer_alert env s a))"

definition infer_queue :: "queue_row \<Rightarrow> LegacyMapping result" where
  "infer_queue q =
     infer_queue_legacy_outcome (q_id q) (q_alert_id q) (q_source_ip q) (q_action q)
       (queue_status_text (q_status q)) (q_last_error q)"

definition resolve_queue_outcome :: "row_id \<Rightarrow> legacy_db \<Rightarrow> read_model option result" where
  "resolve_queue_outcome i s =
     (case select_id q_id i (response_actions_queue (lg_queue s)) of
        None \<Rightarrow> Inr None
      | Some q \<Rightarrow> canonical_or s ''response_actions_queue'' i (q_decision_id q) (infer_queue q))"

definition infer_log :: "legacy_db \<Rightarrow> action_log \<Rightarrow> LegacyMapping result" where
  "infer_log s l =
     infer_response_log_legacy_outcome (lg_id l) (lg_alert_id l) (lg_source_ip l) (lg_action l) (lg_status l)
       (lg_details l) (log_block_exists s l)"

definition resolve_response_log_outcome :: "row_id \<Rightarrow> legacy_db \<Rightarrow> read_model option result" where
  "resolve_response_log_outcome i s =
     (case select_id lg_id i (response_actions_log (lg_commands s)) of
        None \<Rightarrow> Inr None
      | Some l \<Rightarrow> canonical_or s ''response_actions_log'' i (lg_decision_id l) (infer_log s l))"

definition infer_approval :: "legacy_db \<Rightarrow> approval_request \<Rightarrow> LegacyMapping result" where
  "infer_approval s r =
     infer_approval_request_legacy_outcome (ar_id r) (approval_alert s r) (ar_incident_id r) (ar_queue_id r)
       (ar_playbook_execution_id r) (ar_action r) (approval_status_text (ar_status r)) (ar_request_reason r)"

definition resolve_approval_request_outcome :: "row_id \<Rightarrow> legacy_db \<Rightarrow> read_model option result" where
  "resolve_approval_request_outcome i s =
     (case select_id ar_id i (approval_requests (lg_approvals s)) of
        None \<Rightarrow> Inr None
      | Some r \<Rightarrow> canonical_or s ''approval_requests'' i (fst (lg_approval_links s i)) (infer_approval s r))"

definition resolve_notification_delivery_outcome ::
  "legacy_env \<Rightarrow> row_id \<Rightarrow> legacy_db \<Rightarrow> read_model option result" where
  "resolve_notification_delivery_outcome env i s =
     (case select_id nd_id i (lg_attempts s) of
        None \<Rightarrow> Inr None
      | Some a \<Rightarrow> canonical_or s ''notification_delivery_attempts'' i (nd_decision_id a)
                   (infer_notification_delivery_legacy_outcome env a))"

text \<open>The look-up of a confirming attempt comes first, and is the one statement that can raise.\<close>

definition infer_execution :: "legacy_env \<Rightarrow> bool \<Rightarrow> execution \<Rightarrow> LegacyMapping result" where
  "infer_execution env confirmed x =
     infer_playbook_execution_legacy_outcome env (ex_id x) (ex_alert_id x) (ex_incident_id x) (ex_playbook_id x)
       (exec_status_text (ex_status x)) (PList (ex_steps_log x)) (ex_failure_reason x) confirmed"

definition resolve_playbook_execution_outcome ::
  "legacy_env \<Rightarrow> row_id \<Rightarrow> legacy_db \<Rightarrow> read_model option result" where
  "resolve_playbook_execution_outcome env i s =
     (case real_notification_confirmed env s i of
        Inl e \<Rightarrow> Inl e
      | Inr confirmed \<Rightarrow>
          (case select_id ex_id i (playbook_executions (lg_executions s)) of
             None \<Rightarrow> Inr None
           | Some x \<Rightarrow> canonical_or s ''playbook_executions'' i (ex_decision_id x) (infer_execution env confirmed x)))"

definition infer_block :: "blocked_ip \<Rightarrow> LegacyMapping result" where
  "infer_block b =
     infer_blocked_ip_legacy_outcome (bi_id b) (bi_ip_address b) (bi_source_alert_id b) (bi_reason b)"

definition resolve_blocked_ip_outcome :: "row_id \<Rightarrow> legacy_db \<Rightarrow> read_model option result" where
  "resolve_blocked_ip_outcome i s =
     (case select_id bi_id i (blocked_ips (lg_commands s)) of
        None \<Rightarrow> Inr None
      | Some b \<Rightarrow> canonical_or s ''blocked_ips'' i None (infer_block b))"

subsection \<open>The dry run\<close>

text \<open>A \<open>Counter\<close>: the counts by key, as \<open>items()\<close> gives them.\<close>

type_synonym counter = "(string \<times> int) list"

fun counter_add :: "counter \<Rightarrow> string \<Rightarrow> int \<Rightarrow> counter" where
  "counter_add [] k n = [(k, n)]"
| "counter_add ((k', m) # c) k n = (if k' = k then (k', m + n) # c else (k', m) # counter_add c k n)"

definition counter_total :: "counter \<Rightarrow> int" where
  "counter_total c = sum_list (map snd c)"

definition counter_get :: "counter \<Rightarrow> string \<Rightarrow> int" where
  "counter_get c k = coalesce (map_of c k) 0"

record ambiguous_record =
  am_source_table :: string
  am_source_id :: row_id
  am_soar_correlation_id :: string
  am_ambiguity_reason :: "string option"
  am_execution_mode :: string
  am_execution_state :: string

record BackfillDryRunPlan =
  decisions_by_source :: counter
  events_by_source :: counter
  mode_state_counts :: counter
  reason_code_counts :: counter
  boolean_counts :: counter
  ambiguous_records :: "ambiguous_record list"
  observed_only_count :: int
  total_records_scanned :: int

definition empty_plan :: BackfillDryRunPlan where
  "empty_plan =
     \<lparr>decisions_by_source = [], events_by_source = [], mode_state_counts = [], reason_code_counts = [],
      boolean_counts = [], ambiguous_records = [], observed_only_count = 0, total_records_scanned = 0\<rparr>"

definition record_plan_item :: "LegacyMapping \<Rightarrow> BackfillDryRunPlan \<Rightarrow> BackfillDryRunPlan" where
  "record_plan_item m p =
     (let bit = (\<lambda>b. if b then 1 else 0 :: int); table = lm_source_table m
      in \<lparr>decisions_by_source =
            (if lm_proposed_decision m then counter_add (decisions_by_source p) table 1 else decisions_by_source p),
          events_by_source = counter_add (events_by_source p) table (lm_proposed_event_count m),
          mode_state_counts =
            counter_add (mode_state_counts p) (lm_execution_mode m @ ''/'' @ lm_execution_state m) 1,
          reason_code_counts =
            (if coalesce (lm_reason_code m) [] = [] then reason_code_counts p
             else counter_add (reason_code_counts p) (the (lm_reason_code m)) 1),
          boolean_counts =
            counter_add (counter_add (counter_add (boolean_counts p) ''external_executed'' (bit (lm_external_executed m)))
              ''tracking_recorded'' (bit (lm_tracking_recorded m))) ''simulated'' (bit (lm_simulated m)),
          ambiguous_records =
            (if lm_ambiguous m \<or> lm_needs_review m
             then ambiguous_records p @
               [\<lparr>am_source_table = table, am_source_id = lm_source_id m,
                 am_soar_correlation_id = lm_soar_correlation_id m, am_ambiguity_reason = lm_ambiguity_reason m,
                 am_execution_mode = lm_execution_mode m, am_execution_state = lm_execution_state m\<rparr>]
             else ambiguous_records p),
          observed_only_count =
            (if lm_execution_mode m = ''observed'' \<and> lm_execution_state m = ''observed''
             then observed_only_count p + 1 else observed_only_count p),
          total_records_scanned = total_records_scanned p + 1\<rparr>)"

text \<open>The mappings of one table, in the order of the ids; \<open>None\<close> is a row that is passed over.\<close>

fun mappings_of :: "('r \<Rightarrow> LegacyMapping result option) \<Rightarrow> 'r list \<Rightarrow> LegacyMapping list result" where
  "mappings_of f [] = Inr []"
| "mappings_of f (r # rs) =
     (case f r of
        None \<Rightarrow> mappings_of f rs
      | Some (Inl e) \<Rightarrow> Inl e
      | Some (Inr m) \<Rightarrow> (case mappings_of f rs of Inl e \<Rightarrow> Inl e | Inr ms \<Rightarrow> Inr (m # ms)))"

definition plan_alert :: "legacy_env \<Rightarrow> legacy_db \<Rightarrow> alert_row \<Rightarrow> LegacyMapping result option" where
  "plan_alert env s a =
     (if coalesce (find_canonical_decision_id rd_alert_id (al_id a) s) 0 \<noteq> 0 then None
      else Some (infer_alert env s a))"

definition plan_queue :: "queue_row \<Rightarrow> LegacyMapping result option" where
  "plan_queue q = (if q_decision_id q \<noteq> None then None else Some (infer_queue q))"

definition plan_log :: "legacy_db \<Rightarrow> action_log \<Rightarrow> LegacyMapping result option" where
  "plan_log s l = (if lg_decision_id l \<noteq> None then None else Some (infer_log s l))"

definition plan_execution :: "legacy_env \<Rightarrow> legacy_db \<Rightarrow> execution \<Rightarrow> LegacyMapping result option" where
  "plan_execution env s x =
     (if ex_decision_id x \<noteq> None then None
      else Some (case real_notification_confirmed env s (ex_id x) of
                   Inl e \<Rightarrow> Inl e
                 | Inr confirmed \<Rightarrow> infer_execution env confirmed x))"

definition plan_approval :: "legacy_db \<Rightarrow> approval_request \<Rightarrow> LegacyMapping result option" where
  "plan_approval s r =
     (if fst (lg_approval_links s (ar_id r)) \<noteq> None then None else Some (infer_approval s r))"

text \<open>An attempt that confirms a real send is left to its execution, when that is to be backfilled too.\<close>

definition left_to_execution :: "legacy_env \<Rightarrow> legacy_db \<Rightarrow> delivery_attempt \<Rightarrow> bool" where
  "left_to_execution env s a =
     (case nd_playbook_execution_id a of
        None \<Rightarrow> False
      | Some x \<Rightarrow>
          nd_mode a = ''real'' \<and> nd_status a = ''success'' \<and>
          notification_metadata_confirms_execution env (nd_metadata a) \<and>
          list_ex (\<lambda>y. ex_id y = x \<and> ex_decision_id y = None) (playbook_executions (lg_executions s)))"

definition plan_attempt :: "legacy_env \<Rightarrow> legacy_db \<Rightarrow> delivery_attempt \<Rightarrow> LegacyMapping result option" where
  "plan_attempt env s a =
     (if nd_decision_id a \<noteq> None \<or> left_to_execution env s a then None
      else Some (infer_notification_delivery_legacy_outcome env a))"

definition plan_block :: "blocked_ip \<Rightarrow> LegacyMapping result option" where
  "plan_block b = (if bi_source_alert_id b = None then None else Some (infer_block b))"

fun concat_results :: "'a list result list \<Rightarrow> 'a list result" where
  "concat_results [] = Inr []"
| "concat_results (Inl e # _) = Inl e"
| "concat_results (Inr xs # rs) = (case concat_results rs of Inl e \<Rightarrow> Inl e | Inr ys \<Rightarrow> Inr (xs @ ys))"

definition planned_mappings :: "legacy_env \<Rightarrow> legacy_db \<Rightarrow> LegacyMapping list result" where
  "planned_mappings env s =
     concat_results
       [mappings_of (plan_alert env s) (order_asc al_id (alerts (lg_commands s))),
        mappings_of plan_queue (order_asc q_id (response_actions_queue (lg_queue s))),
        mappings_of (plan_log s) (order_asc lg_id (response_actions_log (lg_commands s))),
        mappings_of (plan_execution env s) (order_asc ex_id (playbook_executions (lg_executions s))),
        mappings_of (plan_approval s) (order_asc ar_id (approval_requests (lg_approvals s))),
        mappings_of (plan_attempt env s) (order_asc nd_id (lg_attempts s)),
        mappings_of plan_block (order_asc bi_id (blocked_ips (lg_commands s)))]"

definition plan_backfill_dry_run :: "legacy_env \<Rightarrow> legacy_db \<Rightarrow> BackfillDryRunPlan result" where
  "plan_backfill_dry_run env s =
     (case planned_mappings env s of
        Inl e \<Rightarrow> Inl e
      | Inr ms \<Rightarrow> Inr (fold record_plan_item ms empty_plan))"

definition to_summary_dict :: "BackfillDryRunPlan \<Rightarrow> BackfillDryRunPlan \<times> int \<times> int \<times> nat" where
  "to_summary_dict p =
     (p\<lparr>ambiguous_records := take 25 (ambiguous_records p)\<rparr>, counter_total (decisions_by_source p),
      counter_total (events_by_source p), length (ambiguous_records p))"

definition counter_lines :: "counter \<Rightarrow> string list" where
  "counter_lines c = map (\<lambda>(k, n). ''  - '' @ k @ '': '' @ show_int n) (sort_key (\<lambda>kn. kn) c)"

definition format_backfill_plan_summary :: "BackfillDryRunPlan \<Rightarrow> string" where
  "format_backfill_plan_summary plan =
     (case to_summary_dict plan of (p, decisions, events, ambiguous) \<Rightarrow>
      let count = (\<lambda>label n. label @ '': '' @ show_int n);
          bool_line = (\<lambda>k. ''  - '' @ count k (counter_get (boolean_counts p) k))
      in join [CHR 0x0A]
        ([''SOAR outcome backfill dry-run summary'', ''====================================='',
          count ''Records scanned (legacy candidates)'' (total_records_scanned p),
          count ''Proposed decisions'' decisions, count ''Proposed outcome events'' events,
          count ''Observed-only candidates'' (observed_only_count p),
          count ''Ambiguous / needs review'' (int ambiguous), [], ''Decisions by source:''] @
         counter_lines (decisions_by_source p) @
         [[], ''Events by source:''] @ counter_lines (events_by_source p) @
         [[], ''Mode/state counts:''] @ counter_lines (mode_state_counts p) @
         [[], ''Reason code counts:''] @ counter_lines (reason_code_counts p) @
         [[], ''Execution boolean totals:'', bool_line ''external_executed'', bool_line ''tracking_recorded'',
          bool_line ''simulated''] @
         (if ambiguous_records p = [] then []
          else [[], ''Sample ambiguous records (up to 25):''] @
            map (\<lambda>a. ''  - '' @ am_source_table a @ '':'' @ show_int (am_source_id a) @ '' '' @ am_execution_mode a @
                     ''/'' @ am_execution_state a @ '' ('' @ or_text (am_ambiguity_reason a) ''unspecified'' @ '')'')
              (ambiguous_records p)) @
         [[], ''Dry-run only: no database writes were performed.'']))"

subsection \<open>What an inference can say\<close>

text \<open>The words of the outcome events, the state of refused executions beside them, and booleans that the
  events' own check accepts.\<close>

definition mapping_ok :: "LegacyMapping \<Rightarrow> bool" where
  "mapping_ok m \<longleftrightarrow>
     lm_execution_mode m \<in> set EXECUTION_MODES \<and>
     (lm_execution_state m \<in> set EXECUTION_STATES \<or>
      lm_execution_state m = ''not_actioned'' \<and> lm_source_table m = ''playbook_executions'') \<and>
     lm_decision_source m \<in> set DECISION_SOURCES \<and> lm_execution_actor m \<in> set EXECUTION_ACTORS \<and>
     reason_ok (lm_reason_code m) \<and>
     validate_outcome_booleans (lm_execution_mode m) (lm_execution_state m) (lm_external_executed m)
       (lm_tracking_recorded m) (lm_simulated m) = Inr () \<and>
     validate_soar_correlation_id (lm_soar_correlation_id m) = Inr (lm_soar_correlation_id m)"

text \<open>What is known of a mapping before its outcome is given.\<close>

definition base_ok :: "LegacyMapping \<Rightarrow> bool" where
  "base_ok m \<longleftrightarrow> lm_decision_source m \<in> set DECISION_SOURCES \<and>
     validate_soar_correlation_id (lm_soar_correlation_id m) = Inr (lm_soar_correlation_id m)"

lemma base_ok_fields [simp]:
  "base_ok (m\<lparr>lm_alert_id := a\<rparr>) = base_ok m" "base_ok (m\<lparr>lm_incident_id := a\<rparr>) = base_ok m"
  "base_ok (m\<lparr>lm_source_ip := ip\<rparr>) = base_ok m" "base_ok (m\<lparr>lm_queue_id := a\<rparr>) = base_ok m"
  "base_ok (m\<lparr>lm_playbook_execution_id := a\<rparr>) = base_ok m" "base_ok (m\<lparr>lm_approval_request_id := a\<rparr>) = base_ok m"
  "base_ok (m\<lparr>lm_delivery_attempt_id := a\<rparr>) = base_ok m" "base_ok (m\<lparr>lm_response_action_log_id := a\<rparr>) = base_ok m"
  "base_ok (m\<lparr>lm_blocked_ip_id := a\<rparr>) = base_ok m" "base_ok (m\<lparr>lm_proposed_decision := b\<rparr>) = base_ok m"
  "base_ok (m\<lparr>lm_proposed_event_count := n\<rparr>) = base_ok m"
  by (simp_all add: base_ok_def)

lemma mapping_ok_ambiguous [simp]: "mapping_ok (ambiguous_because w m) = mapping_ok m"
  by (simp add: mapping_ok_def ambiguous_because_def)

lemmas vocabulary =
  EXECUTION_MODES_def EXECUTION_STATES_def DECISION_SOURCES_def EXECUTION_ACTORS_def REASON_CODES_def

text \<open>The rows of the table of outcomes that the inferences use.\<close>

lemma mapping_ok_classified:
  assumes "base_ok m" "mode \<in> set EXECUTION_MODES" "state \<in> set EXECUTION_STATES" "actor \<in> set EXECUTION_ACTORS"
    "reason_ok reason" "validate_outcome_booleans mode state ex tr si = Inr ()"
  shows "mapping_ok (classified mode state ex tr si actor summary reason m)"
  using assms by (simp add: mapping_ok_def base_ok_def classified_def)

lemma booleans_none: "validate_outcome_booleans mode state False False False = Inr ()"
  by (simp add: validate_outcome_booleans_def)

lemma booleans_simulated: "validate_outcome_booleans ''simulation'' state False False si = Inr ()"
  and booleans_tracked: "validate_outcome_booleans ''tracking_only'' ''succeeded'' False True False = Inr ()"
  and booleans_real: "validate_outcome_booleans ''real'' ''succeeded'' True False False = Inr ()"
  by (simp_all add: validate_outcome_booleans_def)

lemma if_both: "P x \<Longrightarrow> P y \<Longrightarrow> P (if b then x else y)"
  by simp

text \<open>Membership in the vocabulary, one fact per word.\<close>

lemma modes: "''simulation'' \<in> set EXECUTION_MODES" "''real'' \<in> set EXECUTION_MODES"
  "''tracking_only'' \<in> set EXECUTION_MODES" "''observed'' \<in> set EXECUTION_MODES"
  by (simp_all add: EXECUTION_MODES_def)

lemma states: "''queued'' \<in> set EXECUTION_STATES" "''running'' \<in> set EXECUTION_STATES"
  "''awaiting_approval'' \<in> set EXECUTION_STATES" "''skipped'' \<in> set EXECUTION_STATES"
  "''failed'' \<in> set EXECUTION_STATES" "''succeeded'' \<in> set EXECUTION_STATES"
  "''selected'' \<in> set EXECUTION_STATES" "''blocked'' \<in> set EXECUTION_STATES"
  "''observed'' \<in> set EXECUTION_STATES"
  by (simp_all add: EXECUTION_STATES_def)

lemma sources: "''migration'' \<in> set DECISION_SOURCES" "''playbook'' \<in> set DECISION_SOURCES"
  "''detection_default'' \<in> set DECISION_SOURCES"
  by (simp_all add: DECISION_SOURCES_def)

lemma actors: "''queue_worker'' \<in> set EXECUTION_ACTORS" "''manual'' \<in> set EXECUTION_ACTORS"
  "''approval_service'' \<in> set EXECUTION_ACTORS" "''adapter'' \<in> set EXECUTION_ACTORS"
  "''playbook_worker'' \<in> set EXECUTION_ACTORS" "''system'' \<in> set EXECUTION_ACTORS"
  by (simp_all add: EXECUTION_ACTORS_def)

lemma reasons: "reason_ok None" "reason_ok (Some ''approval_required'')" "reason_ok (Some ''policy_blocked'')"
  "reason_ok (Some ''provider_error'')" "reason_ok (Some ''simulation_mode'')" "reason_ok (Some ''tracking_only'')"
  "reason_ok (Some ''unsupported_action'')" "reason_ok (Some ''approval_denied'')"
  "reason_ok (Some ''approval_expired'')"
  by (simp_all add: reason_ok_def REASON_CODES_def)

lemma mapping_ok_because: "mapping_ok m \<Longrightarrow> mapping_ok (ambiguous_because w m)"
  by simp

lemma reason_if: "reason_ok (Some a) \<Longrightarrow> reason_ok (Some b) \<Longrightarrow> reason_ok (Some (if c then a else b))"
  by simp

lemmas classified_rules =
  if_both [where P = mapping_ok] mapping_ok_because mapping_ok_classified booleans_none booleans_simulated
  booleans_tracked booleans_real modes states actors reasons reason_if

lemma legacy_of_ok:
  assumes "legacy_of table i action source f = Inr m" "source \<in> set DECISION_SOURCES"
    "\<And>m. base_ok m \<Longrightarrow> mapping_ok (f m)"
  shows "mapping_ok m"
proof -
  obtain c where c: "generate_legacy_soar_correlation_id table i = Inr c"
      and m: "m = f (mapping0 table i c action source)"
    using assms(1) by (auto simp: legacy_of_def split: sum.splits)
  have "validate_soar_correlation_id c = Inr c"
    using c by (auto simp: generate_legacy_soar_correlation_id_def Let_def dest: validate_correlation_Inr
        split: if_splits)
  then show ?thesis using assms(2,3) by (simp add: m base_ok_def mapping0_def)
qed

lemma infer_queue_ok:
  assumes "infer_queue_legacy_outcome i a ip act st err = Inr m"
  shows "mapping_ok m"
  using assms unfolding infer_queue_legacy_outcome_def Let_def
  by (rule legacy_of_ok) (rule sources, intro classified_rules, unfold base_ok_fields)

lemma infer_log_ok:
  assumes "infer_response_log_legacy_outcome i a ip act st details b = Inr m"
  shows "mapping_ok m"
  using assms unfolding infer_response_log_legacy_outcome_def Let_def
  by (rule legacy_of_ok) (rule sources, intro classified_rules, unfold base_ok_fields)

lemma infer_approval_ok:
  assumes "infer_approval_request_legacy_outcome i a inc q x act st reason = Inr m"
  shows "mapping_ok m"
  using assms unfolding infer_approval_request_legacy_outcome_def Let_def
  by (rule legacy_of_ok) (rule sources, intro classified_rules, unfold base_ok_fields)

lemma infer_block_ok:
  assumes "infer_blocked_ip_legacy_outcome i ip a reason = Inr m"
  shows "mapping_ok m"
  using assms unfolding infer_blocked_ip_legacy_outcome_def
  by (rule legacy_of_ok) (rule sources, intro classified_rules, unfold base_ok_fields)

lemma infer_plain_alert_ok:
  assumes "infer_alert_legacy_outcome i ip act hq hl = Inr m"
  shows "mapping_ok m"
proof (cases "coalesce act [] = [] \<and> \<not> hq \<and> \<not> hl")
  case True
  from assms [unfolded infer_alert_legacy_outcome_def if_P [OF True]]
  show ?thesis by (rule legacy_of_ok) (rule sources, intro classified_rules, unfold base_ok_fields)
next
  case False
  from assms [unfolded infer_alert_legacy_outcome_def if_not_P [OF False]]
  show ?thesis by (rule legacy_of_ok) (rule sources, intro classified_rules, unfold base_ok_fields)
qed

lemma delivery_outcome_ok: "base_ok m \<Longrightarrow> mapping_ok (legacy_delivery_outcome env a m)"
proof -
  assume m: "base_ok m"
  have written: "(if b then ''simulation'' else ''real'') \<in> set EXECUTION_MODES" for b
    by (intro if_both [where P = "\<lambda>x. x \<in> set EXECUTION_MODES"] modes)
  have failed: "validate_outcome_booleans (if b then ''simulation'' else ''real'') ''failed'' False False b = Inr ()" for b
    by (cases b) (simp_all add: booleans_none booleans_simulated)
  show ?thesis unfolding legacy_delivery_outcome_def Let_def by (intro classified_rules m written failed)
qed

lemma infer_delivery_ok:
  assumes "infer_notification_delivery_legacy_outcome env a = Inr m"
  shows "mapping_ok m"
  using assms unfolding infer_notification_delivery_legacy_outcome_def
  by (rule legacy_of_ok) (rule sources, intro delivery_outcome_ok, unfold base_ok_fields)

text \<open>The state is what the refused ones differ in.\<close>

lemma playbook_outcome_ok:
  assumes m: "base_ok m" and st: "status \<noteq> ''not_actioned''"
  shows "mapping_ok (playbook_outcome status fr step c m)"
proof -
  obtain si ex tr where ev: "playbook_step_evidence step = (si, ex, tr)"
    by (cases "playbook_step_evidence step")
  have state: "(if p then ''failed'' else if status = ''not_actioned'' then ''not_actioned'' else ''skipped'')
      \<in> set EXECUTION_STATES" for p
    using st states by simp
  show ?thesis unfolding playbook_outcome_def ev prod.case
    by (intro classified_rules m state)
qed

lemma playbook_outcome_refused:
  "playbook_outcome ''not_actioned'' fr step c m =
     classified ''simulation'' ''not_actioned'' False False (fst (playbook_step_evidence step)) ''playbook_worker''
       (or_text fr ''Legacy playbook execution not_actioned.'') (Some ''policy_blocked'') m"
  by (simp add: playbook_outcome_def split: prod.splits)

lemma classified_fields [simp]:
  "lm_execution_mode (classified mode state ex tr si actor summary reason m) = mode"
  "lm_execution_state (classified mode state ex tr si actor summary reason m) = state"
  "lm_external_executed (classified mode state ex tr si actor summary reason m) = ex"
  "lm_source_table (classified mode state ex tr si actor summary reason m) = lm_source_table m"
  "lm_source_id (classified mode state ex tr si actor summary reason m) = lm_source_id m"
  "lm_outcome_summary (classified mode state ex tr si actor summary reason m) = summary"
  "lm_selected_action (classified mode state ex tr si actor summary reason m) = lm_selected_action m"
  "lm_soar_correlation_id (classified mode state ex tr si actor summary reason m) = lm_soar_correlation_id m"
  "lm_playbook_execution_id (classified mode state ex tr si actor summary reason m) = lm_playbook_execution_id m"
  "lm_proposed_decision (classified mode state ex tr si actor summary reason m) = lm_proposed_decision m"
  by (simp_all add: classified_def)

lemma ambiguous_fields [simp]:
  "lm_execution_mode (ambiguous_because w m) = lm_execution_mode m"
  "lm_execution_state (ambiguous_because w m) = lm_execution_state m"
  "lm_external_executed (ambiguous_because w m) = lm_external_executed m"
  "lm_source_table (ambiguous_because w m) = lm_source_table m"
  "lm_source_id (ambiguous_because w m) = lm_source_id m"
  "lm_outcome_summary (ambiguous_because w m) = lm_outcome_summary m"
  "lm_selected_action (ambiguous_because w m) = lm_selected_action m"
  "lm_soar_correlation_id (ambiguous_because w m) = lm_soar_correlation_id m"
  "lm_playbook_execution_id (ambiguous_because w m) = lm_playbook_execution_id m"
  "lm_proposed_decision (ambiguous_because w m) = lm_proposed_decision m"
  by (simp_all add: ambiguous_because_def)

lemma mapping0_fields [simp]:
  "lm_source_table (mapping0 t i c a s) = t" "lm_source_id (mapping0 t i c a s) = i"
  "lm_soar_correlation_id (mapping0 t i c a s) = c" "lm_selected_action (mapping0 t i c a s) = a"
  "lm_proposed_decision (mapping0 t i c a s)"
  by (simp_all add: mapping0_def)

definition known_state :: "LegacyMapping \<Rightarrow> bool" where
  "known_state m \<longleftrightarrow> lm_execution_state m \<in> set EXECUTION_STATES"

lemma known_state_rules:
  "known_state x \<Longrightarrow> known_state y \<Longrightarrow> known_state (if b then x else y)"
  "known_state m \<Longrightarrow> known_state (ambiguous_because w m)"
  "state \<in> set EXECUTION_STATES \<Longrightarrow> known_state (classified mode state ex tr si actor summary reason m)"
  by (simp_all add: known_state_def)

lemma playbook_outcome_state:
  assumes "status \<noteq> ''not_actioned''"
  shows "lm_execution_state (playbook_outcome status fr step c m) \<noteq> ''not_actioned''"
proof -
  obtain si ex tr where ev: "playbook_step_evidence step = (si, ex, tr)"
    by (cases "playbook_step_evidence step")
  have state: "(if p then ''failed'' else if status = ''not_actioned'' then ''not_actioned'' else ''skipped'')
      \<in> set EXECUTION_STATES" for p
    using assms states by simp
  have "known_state (playbook_outcome status fr step c m)"
    unfolding playbook_outcome_def ev prod.case by (intro known_state_rules states state)
  then show ?thesis by (auto simp: known_state_def EXECUTION_STATES_def)
qed

lemma refused_mapping_ok:
  assumes "base_ok m" "lm_source_table m = ''playbook_executions''"
  shows "mapping_ok (playbook_outcome ''not_actioned'' fr step c m)"
  using assms
  by (simp add: playbook_outcome_refused mapping_ok_def base_ok_def classified_def modes actors reasons
      booleans_simulated)

lemma infer_playbook_ok:
  assumes "infer_playbook_execution_legacy_outcome env i a inc pb st steps fr c = Inr m"
  shows "mapping_ok m"
proof -
  let ?base = "\<lambda>m. m\<lparr>lm_alert_id := a, lm_incident_id := inc, lm_playbook_execution_id := Some i,
            lm_proposed_event_count := max 1 (int (length (coerce_steps_log env steps)))\<rparr>"
  obtain cor where cor: "generate_legacy_soar_correlation_id ''playbook_executions'' i = Inr cor"
      and m: "m = playbook_outcome st fr (latest_playbook_step env steps) c
        (?base (mapping0 ''playbook_executions'' i cor (Some pb) ''playbook''))"
    using assms by (auto simp: infer_playbook_execution_legacy_outcome_def legacy_of_def split: sum.splits)
  have "validate_soar_correlation_id cor = Inr cor"
    using cor by (auto simp: generate_legacy_soar_correlation_id_def Let_def dest: validate_correlation_Inr
        split: if_splits)
  then have "base_ok (mapping0 ''playbook_executions'' i cor (Some pb) ''playbook'')"
    using sources by (simp add: base_ok_def mapping0_def)
  then have b: "base_ok (?base (mapping0 ''playbook_executions'' i cor (Some pb) ''playbook''))"
    by (simp only: base_ok_fields)
  show ?thesis
  proof (cases "st = ''not_actioned''")
    case True
    show ?thesis unfolding m True by (rule refused_mapping_ok [OF b]) simp
  next
    case False
    show ?thesis unfolding m by (rule playbook_outcome_ok [OF b False])
  qed
qed

lemma infer_alert_notification_ok:
  assumes "infer_alert_notification_legacy_outcome env i ip act ast a = Inr m"
  shows "mapping_ok m"
proof -
  obtain c where c: "generate_legacy_soar_correlation_id ''alerts'' i = Inr c"
    using assms by (auto simp: infer_alert_notification_legacy_outcome_def split: sum.splits)
  have "validate_soar_correlation_id c = Inr c"
    using c by (auto simp: generate_legacy_soar_correlation_id_def Let_def dest: validate_correlation_Inr
        split: if_splits)
  then have base: "base_ok (mapping0 ''alerts'' i c x ''detection_default'')" for x
    using sources by (simp add: base_ok_def mapping0_def)
  note def = assms [unfolded infer_alert_notification_legacy_outcome_def c sum.case Let_def]
  show ?thesis
  proof (cases "ast = Some ''denied'' \<or> ast = Some ''expired''")
    case True
    from def [unfolded if_P [OF True]] have
      "m = classified ''simulation'' ''blocked'' False False False ''approval_service''
         (or_text (nd_failure_message a) (''Linked approval request was '' @ the ast @ ''.''))
         (Some (if ast = Some ''denied'' then ''approval_denied'' else ''approval_expired''))
         ((mapping0 ''alerts'' i c (Some (or_text act (nd_action a))) ''detection_default'')
           \<lparr>lm_alert_id := Some i, lm_incident_id := nd_incident_id a, lm_source_ip := ip,
            lm_playbook_execution_id := nd_playbook_execution_id a,
            lm_approval_request_id := nd_approval_request_id a, lm_delivery_attempt_id := Some (nd_id a)\<rparr>)"
      by (simp only: sum.inject)
    then show ?thesis using base by (simp only:) (intro classified_rules, unfold base_ok_fields)
  next
    case False
    obtain n where n: "infer_notification_delivery_legacy_outcome env (a\<lparr>nd_alert_id := Some i\<rparr>) = Inr n"
      using def [unfolded if_not_P [OF False]] by (auto split: sum.splits)
    have "mapping_ok n" using n by (rule infer_delivery_ok)
    moreover have "lm_source_table n = ''notification_delivery_attempts''"
      using n by (auto simp: infer_notification_delivery_legacy_outcome_def legacy_of_def legacy_delivery_outcome_def Let_def
          split: sum.splits if_split_asm)
    ultimately show ?thesis
      using def [unfolded if_not_P [OF False] n sum.case] base
      by (auto simp: mapping_ok_def base_ok_def classified_def)
  qed
qed

subsection \<open>Evidence for what ran outside\<close>

lemma legacy_ofE:
  assumes "legacy_of table i action source f = Inr m"
  obtains c where "generate_legacy_soar_correlation_id table i = Inr c" "m = f (mapping0 table i c action source)"
  using assms by (auto simp: legacy_of_def split: sum.splits)

definition claims_nothing :: "LegacyMapping \<Rightarrow> bool" where
  "claims_nothing m \<longleftrightarrow> \<not> lm_external_executed m"

lemma claims_nothing_rules:
  "claims_nothing x \<Longrightarrow> claims_nothing y \<Longrightarrow> claims_nothing (if b then x else y)"
  "claims_nothing m \<Longrightarrow> claims_nothing (ambiguous_because w m)"
  "claims_nothing (classified mode state False tr si actor summary reason m)"
  by (simp_all add: claims_nothing_def)

lemma legacy_of_claims_nothing:
  assumes "legacy_of table i action source f = Inr m" "\<And>m. claims_nothing (f m)"
  shows "\<not> lm_external_executed m"
proof -
  obtain c where "m = f (mapping0 table i c action source)" using assms(1) by (rule legacy_ofE)
  then show ?thesis using assms(2) by (simp add: claims_nothing_def)
qed

lemma queue_claims_nothing: "infer_queue q = Inr m \<Longrightarrow> \<not> lm_external_executed m"
  unfolding infer_queue_def infer_queue_legacy_outcome_def Let_def
  by (erule legacy_of_claims_nothing) (intro claims_nothing_rules)

lemma log_claims_nothing: "infer_log s l = Inr m \<Longrightarrow> \<not> lm_external_executed m"
  unfolding infer_log_def infer_response_log_legacy_outcome_def Let_def
  by (erule legacy_of_claims_nothing) (intro claims_nothing_rules)

lemma approval_claims_nothing: "infer_approval s r = Inr m \<Longrightarrow> \<not> lm_external_executed m"
  unfolding infer_approval_def infer_approval_request_legacy_outcome_def Let_def
  by (erule legacy_of_claims_nothing) (intro claims_nothing_rules)

lemma block_claims_nothing: "infer_block b = Inr m \<Longrightarrow> \<not> lm_external_executed m"
  unfolding infer_block_def infer_blocked_ip_legacy_outcome_def
  by (erule legacy_of_claims_nothing) (intro claims_nothing_rules)

lemma plain_alert_claims_nothing:
  "infer_alert_legacy_outcome i ip act hq hl = Inr m \<Longrightarrow> \<not> lm_external_executed m"
  unfolding infer_alert_legacy_outcome_def
  by (simp only: split: if_split_asm; erule legacy_of_claims_nothing; intro claims_nothing_rules)

lemma delivery_claim:
  assumes "lm_external_executed (legacy_delivery_outcome env a m)"
  shows "nd_mode a = ''real'' \<and> nd_status a = ''success'' \<and> notification_metadata_confirms_execution env (nd_metadata a)"
proof (rule ccontr)
  assume *: "\<not> ?thesis"
  have "claims_nothing (legacy_delivery_outcome env a m)"
    unfolding legacy_delivery_outcome_def Let_def if_not_P [OF *] by (intro claims_nothing_rules)
  with assms show False by (simp add: claims_nothing_def)
qed

lemma playbook_claim:
  assumes "lm_external_executed (playbook_outcome st fr step c m)"
  shows "fst (snd (playbook_step_evidence step)) \<and> c"
proof (rule ccontr)
  assume no: "\<not> ?thesis"
  obtain si ex tr where ev: "playbook_step_evidence step = (si, ex, tr)"
    by (cases "playbook_step_evidence step")
  with no have *: "\<not> (ex \<and> c)" by simp
  have "claims_nothing (playbook_outcome st fr step c m)"
    unfolding playbook_outcome_def ev prod.case if_not_P [OF *] by (intro claims_nothing_rules)
  with assms show False by (simp add: claims_nothing_def)
qed

text \<open>A row of the attempts that succeeded in real mode and says of itself that it was executed and not
  simulated.\<close>

definition real_send :: "legacy_env \<Rightarrow> delivery_attempt \<Rightarrow> bool" where
  "real_send env a \<longleftrightarrow>
     nd_mode a = ''real'' \<and> nd_status a = ''success'' \<and>
     json_field env (nd_metadata a) ''executed'' = Some ''true'' \<and>
     json_field env (nd_metadata a) ''simulated'' = Some ''false''"

lemma confirms_real_send:
  assumes "notification_metadata_confirms_execution env (nd_metadata a)" "nd_mode a = ''real''"
    "nd_status a = ''success''"
  shows "real_send env a"
  using assms
  by (cases "nd_metadata a") (simp_all add: notification_metadata_confirms_execution_def real_send_def json_field_def)

lemma attempt_confirms_real_send:
  "attempt_confirms env x a = Inr True \<Longrightarrow> real_send env a \<and> nd_playbook_execution_id a = Some x"
  by (auto simp: attempt_confirms_def real_send_def Let_def split: if_split_asm)

lemma any_confirms_real_send:
  "any_attempt_confirms env x as = Inr True \<Longrightarrow>
   \<exists>a \<in> set as. real_send env a \<and> nd_playbook_execution_id a = Some x"
  by (induction as) (auto split: sum.splits if_split_asm dest: attempt_confirms_real_send)

lemma infer_delivery_claim:
  assumes "infer_notification_delivery_legacy_outcome env a = Inr m" "lm_external_executed m"
  shows "real_send env a"
proof -
  obtain b where "m = legacy_delivery_outcome env a b"
    using assms(1) unfolding infer_notification_delivery_legacy_outcome_def by (rule legacy_ofE)
  with assms(2) have "nd_mode a = ''real'' \<and> nd_status a = ''success'' \<and>
      notification_metadata_confirms_execution env (nd_metadata a)" by (intro delivery_claim) simp
  then show ?thesis by (intro confirms_real_send) simp_all
qed

lemma infer_alert_notification_claim:
  assumes "infer_alert_notification_legacy_outcome env i ip act ast a = Inr m" "lm_external_executed m"
  shows "real_send env a \<and> ast \<noteq> Some ''denied'' \<and> ast \<noteq> Some ''expired''"
proof -
  obtain c where c: "generate_legacy_soar_correlation_id ''alerts'' i = Inr c"
    using assms by (auto simp: infer_alert_notification_legacy_outcome_def split: sum.splits)
  note def = assms(1) [unfolded infer_alert_notification_legacy_outcome_def c sum.case Let_def]
  have no: "\<not> (ast = Some ''denied'' \<or> ast = Some ''expired'')"
  proof
    assume yes: "ast = Some ''denied'' \<or> ast = Some ''expired''"
    show False using def [unfolded if_P [OF yes]] assms(2) by auto
  qed
  obtain n where n: "infer_notification_delivery_legacy_outcome env (a\<lparr>nd_alert_id := Some i\<rparr>) = Inr n"
    using def [unfolded if_not_P [OF no]] by (auto split: sum.splits)
  have "lm_external_executed n" using def [unfolded if_not_P [OF no] n sum.case] assms(2) by auto
  from infer_delivery_claim [OF n this] no show ?thesis by (simp add: real_send_def)
qed

lemma infer_execution_claim:
  assumes "infer_execution env c x = Inr m" "lm_external_executed m"
  shows "c \<and> fst (snd (playbook_step_evidence (latest_playbook_step env (PList (ex_steps_log x)))))"
proof -
  obtain b where "m = playbook_outcome (exec_status_text (ex_status x)) (ex_failure_reason x)
      (latest_playbook_step env (PList (ex_steps_log x))) c b"
    using assms(1) unfolding infer_execution_def infer_playbook_execution_legacy_outcome_def by (rule legacy_ofE)
  with assms(2) show ?thesis using playbook_claim by blast
qed

lemma infer_execution_ok: "infer_execution env c x = Inr m \<Longrightarrow> mapping_ok m"
  unfolding infer_execution_def by (rule infer_playbook_ok)

lemma latest_attempt_mem: "latest_attempt s i = Some a \<Longrightarrow> a \<in> set (lg_attempts s)"
  unfolding latest_attempt_def by (drule fetchone_order_desc(1)) simp

lemma infer_alert_ok: "infer_alert env s a = Inr m \<Longrightarrow> mapping_ok m"
  by (auto simp: infer_alert_def split: option.splits dest: infer_alert_notification_ok infer_plain_alert_ok)

lemma infer_alert_claim:
  assumes "infer_alert env s a = Inr m" "lm_external_executed m"
  obtains n where "latest_attempt s (al_id a) = Some n" "n \<in> set (lg_attempts s)" "real_send env n"
    "attempt_approval_status s n \<noteq> Some ''denied''" "attempt_approval_status s n \<noteq> Some ''expired''"
  using assms
  by (auto simp: infer_alert_def split: option.splits
      dest: infer_alert_notification_claim plain_alert_claims_nothing latest_attempt_mem)

text \<open>What a resolver gives that is not canonical is a mapping's read model.\<close>

lemma canonical_or_inferred:
  assumes "canonical_or s t i d inferred = Inr (Some r)" "rm_inferred r"
  obtains m where "inferred = Inr m" "to_read_model m = Inr r"
  using assms
  by (auto simp: canonical_or_def Let_def wrap_canonical_read_model_def split: sum.splits option.splits prod.splits)

lemma to_read_model_fields:
  assumes "to_read_model m = Inr r"
  shows "rm_execution_mode r = lm_execution_mode m" "rm_execution_state r = lm_execution_state m"
    "rm_external_executed r = lm_external_executed m" "rm_tracking_recorded r = lm_tracking_recorded m"
    "rm_simulated r = lm_simulated m" "lm_execution_state m \<noteq> ''not_actioned''"
    "rm_execution_actor r = Some (lm_execution_actor m)" "rm_reason_code r = lm_reason_code m"
    "rm_decision_source r = lm_decision_source m" "rm_soar_correlation_id r = lm_soar_correlation_id m"
    "derive_outcome_label (lm_execution_mode m) (lm_execution_state m) (lm_external_executed m)
       (lm_tracking_recorded m) (lm_simulated m) = Inr (rm_outcome_label r)"
proof -
  have "\<exists>e. derive_outcome_label mode ''not_actioned'' a b c = Inl e" for mode a b c
    by (simp add: derive_outcome_label_def validate_execution_state_def validate_in_def EXECUTION_STATES_def
        strip_def is_space_def)
  then show "lm_execution_state m \<noteq> ''not_actioned''"
    using assms by (auto simp: to_read_model_def split: sum.splits) (metis sum.simps(4))
qed (use assms in \<open>auto simp: to_read_model_def split: sum.splits\<close>)

subsection \<open>Properties\<close>

text \<open>The resolver of table \<open>t\<close> gives \<open>r\<close> for the row \<open>i\<close>.\<close>

definition shown :: "legacy_env \<Rightarrow> legacy_db \<Rightarrow> string \<Rightarrow> row_id \<Rightarrow> read_model \<Rightarrow> bool" where
  "shown env s t i r \<longleftrightarrow>
     (t, Inr (Some r)) \<in>
        {(''alerts'', resolve_alert_outcome env i s), (''response_actions_queue'', resolve_queue_outcome i s),
         (''response_actions_log'', resolve_response_log_outcome i s),
         (''approval_requests'', resolve_approval_request_outcome i s),
         (''notification_delivery_attempts'', resolve_notification_delivery_outcome env i s),
         (''playbook_executions'', resolve_playbook_execution_outcome env i s),
         (''blocked_ips'', resolve_blocked_ip_outcome i s)}"

text \<open>The delivery attempt \<open>a\<close> is the one that speaks for the row \<open>i\<close> of table \<open>t\<close>: the row itself, the
  latest attempt of an alert unless its approval was refused or expired, or an attempt of an execution whose
  own last step says that it ran outside. No attempt speaks for a row of another table.\<close>

definition speaks_for :: "legacy_env \<Rightarrow> legacy_db \<Rightarrow> string \<Rightarrow> row_id \<Rightarrow> delivery_attempt \<Rightarrow> bool" where
  "speaks_for env s t i a \<longleftrightarrow>
     t = ''notification_delivery_attempts'' \<and> nd_id a = i \<or>
     t = ''alerts'' \<and> latest_attempt s i = Some a \<and>
       attempt_approval_status s a \<notin> {Some ''denied'', Some ''expired''} \<or>
     t = ''playbook_executions'' \<and> nd_playbook_execution_id a = Some i \<and>
       (\<exists>x. select_id ex_id i (playbook_executions (lg_executions s)) = Some x \<and>
          fst (snd (playbook_step_evidence (latest_playbook_step env (PList (ex_steps_log x))))))"

definition confirmed_for :: "legacy_env \<Rightarrow> legacy_db \<Rightarrow> string \<Rightarrow> row_id \<Rightarrow> bool" where
  "confirmed_for env s t i \<longleftrightarrow> (\<exists>a \<in> set (lg_attempts s). real_send env a \<and> speaks_for env s t i a)"

definition truthful_model :: "legacy_env \<Rightarrow> legacy_db \<Rightarrow> string \<Rightarrow> row_id \<Rightarrow> read_model \<Rightarrow> bool" where
  "truthful_model env s t i r \<longleftrightarrow>
     rm_execution_mode r \<in> set EXECUTION_MODES \<and> rm_execution_state r \<in> set EXECUTION_STATES \<and>
     rm_decision_source r \<in> set DECISION_SOURCES \<and> rm_execution_actor r \<in> Some ` set EXECUTION_ACTORS \<and>
     reason_ok (rm_reason_code r) \<and>
     validate_soar_correlation_id (rm_soar_correlation_id r) = Inr (rm_soar_correlation_id r) \<and>
     validate_outcome_booleans (rm_execution_mode r) (rm_execution_state r) (rm_external_executed r)
       (rm_tracking_recorded r) (rm_simulated r) = Inr () \<and>
     (rm_outcome_label r = ''Real executed'' \<longleftrightarrow> rm_external_executed r) \<and>
     (rm_external_executed r \<longrightarrow> confirmed_for env s t i)"

lemma inferred_truthful:
  assumes "canonical_or s t' i d given = Inr (Some r)" "rm_inferred r"
    and ok: "\<And>m. given = Inr m \<Longrightarrow> mapping_ok m"
    and claim: "\<And>m. given = Inr m \<Longrightarrow> lm_external_executed m \<Longrightarrow> confirmed_for env s t i"
  shows "truthful_model env s t i r"
proof -
  obtain m where m: "given = Inr m" "to_read_model m = Inr r" using assms(1,2) by (rule canonical_or_inferred)
  note f = to_read_model_fields [OF m(2)] and k = ok [OF m(1)]
  have b: "validate_outcome_booleans (lm_execution_mode m) (lm_execution_state m) (lm_external_executed m)
       (lm_tracking_recorded m) (lm_simulated m) = Inr ()" using k by (simp add: mapping_ok_def)
  have v: "lm_execution_mode m \<in> set EXECUTION_MODES" "lm_execution_state m \<in> set EXECUTION_STATES"
    using k f(6) by (auto simp: mapping_ok_def)
  obtain label where "derive_outcome_label (lm_execution_mode m) (lm_execution_state m) (lm_external_executed m)
       (lm_tracking_recorded m) (lm_simulated m) = Inr label" "label = ''Real executed'' \<longleftrightarrow> lm_external_executed m"
    using label_total [OF v, of "lm_external_executed m" "lm_tracking_recorded m" "lm_simulated m"]
      validate_booleans_ok [OF b] by blast
  moreover have "lm_decision_source m \<in> set DECISION_SOURCES" "lm_execution_actor m \<in> set EXECUTION_ACTORS"
    "reason_ok (lm_reason_code m)"
    "validate_soar_correlation_id (lm_soar_correlation_id m) = Inr (lm_soar_correlation_id m)"
    using k by (simp_all add: mapping_ok_def)
  ultimately show ?thesis
    using f(11) b v claim [OF m(1)] by (simp add: truthful_model_def f(1-5) f(7-10))
qed

lemma confirmed_delivery:
  assumes "select_id nd_id i (lg_attempts s) = Some a" "real_send env a"
  shows "confirmed_for env s ''notification_delivery_attempts'' i"
  using assms by (auto simp: confirmed_for_def speaks_for_def dest: select_id_Some)

lemma confirmed_alert:
  assumes "infer_alert env s a = Inr m" "lm_external_executed m"
  shows "confirmed_for env s ''alerts'' (al_id a)"
  using assms by (rule infer_alert_claim) (auto simp: confirmed_for_def speaks_for_def)

lemma confirmed_execution:
  assumes "real_notification_confirmed env s i = Inr c"
    "select_id ex_id i (playbook_executions (lg_executions s)) = Some x"
    "infer_execution env c x = Inr m" "lm_external_executed m"
  shows "confirmed_for env s ''playbook_executions'' i"
proof -
  note c = infer_execution_claim [OF assms(3,4)]
  then have "any_attempt_confirms env i (lg_attempts s) = Inr True"
    using assms(1) by (simp add: real_notification_confirmed_def)
  then obtain a where "a \<in> set (lg_attempts s)" "real_send env a" "nd_playbook_execution_id a = Some i"
    by (blast dest: any_confirms_real_send)
  then show ?thesis using c assms(2) unfolding confirmed_for_def speaks_for_def by blast
qed

lemma shown_truthful:
  assumes "shown env s t i r" "rm_inferred r"
  shows "truthful_model env s t i r"
proof -
  from assms(1) consider
      (alert) "resolve_alert_outcome env i s = Inr (Some r)" "t = ''alerts''"
    | (queue) "resolve_queue_outcome i s = Inr (Some r)"
    | (action) "resolve_response_log_outcome i s = Inr (Some r)"
    | (approval) "resolve_approval_request_outcome i s = Inr (Some r)"
    | (delivery) "resolve_notification_delivery_outcome env i s = Inr (Some r)"
        "t = ''notification_delivery_attempts''"
    | (execution) "resolve_playbook_execution_outcome env i s = Inr (Some r)" "t = ''playbook_executions''"
    | (block) "resolve_blocked_ip_outcome i s = Inr (Some r)"
    unfolding shown_def by (simp only: insert_iff empty_iff prod.inject) metis
  then show ?thesis
  proof cases
    case alert
    then obtain a where a: "select_id al_id i (alerts (lg_commands s)) = Some a"
      "canonical_or s ''alerts'' i (find_canonical_decision_id rd_alert_id i s) (infer_alert env s a) = Inr (Some r)"
      by (auto simp: resolve_alert_outcome_def split: option.splits)
    have "al_id a = i" using select_id_Some [OF a(1)] by simp
    then show ?thesis using a(2) assms(2) infer_alert_ok confirmed_alert unfolding alert(2)
      by (intro inferred_truthful) blast+
  next
    case queue
    then obtain q where "canonical_or s ''response_actions_queue'' i (q_decision_id q) (infer_queue q) = Inr (Some r)"
      by (auto simp: resolve_queue_outcome_def split: option.splits)
    then show ?thesis using assms(2)
      by (rule inferred_truthful) (auto simp: infer_queue_def dest: infer_queue_ok queue_claims_nothing [unfolded infer_queue_def])
  next
    case action
    then obtain l where "canonical_or s ''response_actions_log'' i (lg_decision_id l) (infer_log s l) = Inr (Some r)"
      by (auto simp: resolve_response_log_outcome_def split: option.splits)
    then show ?thesis using assms(2)
      by (rule inferred_truthful) (auto simp: infer_log_def dest: infer_log_ok log_claims_nothing [unfolded infer_log_def])
  next
    case approval
    then obtain q where "canonical_or s ''approval_requests'' i (fst (lg_approval_links s i)) (infer_approval s q) = Inr (Some r)"
      by (auto simp: resolve_approval_request_outcome_def split: option.splits)
    then show ?thesis using assms(2)
      by (rule inferred_truthful)
        (auto simp: infer_approval_def dest: infer_approval_ok approval_claims_nothing [unfolded infer_approval_def])
  next
    case delivery
    then obtain a where a: "select_id nd_id i (lg_attempts s) = Some a"
      "canonical_or s ''notification_delivery_attempts'' i (nd_decision_id a)
         (infer_notification_delivery_legacy_outcome env a) = Inr (Some r)"
      by (auto simp: resolve_notification_delivery_outcome_def split: option.splits)
    from a(2) assms(2) show ?thesis unfolding delivery(2)
      by (rule inferred_truthful) (use a(1) infer_delivery_ok infer_delivery_claim confirmed_delivery in blast)+
  next
    case execution
    then obtain c x where c: "real_notification_confirmed env s i = Inr c"
        "select_id ex_id i (playbook_executions (lg_executions s)) = Some x"
      and x: "canonical_or s ''playbook_executions'' i (ex_decision_id x) (infer_execution env c x) = Inr (Some r)"
      by (auto simp: resolve_playbook_execution_outcome_def split: sum.splits option.splits)
    from x assms(2) show ?thesis unfolding execution(2)
      by (rule inferred_truthful)
        (use c confirmed_execution infer_execution_ok in blast)+
  next
    case block
    then obtain b where "canonical_or s ''blocked_ips'' i None (infer_block b) = Inr (Some r)"
      by (auto simp: resolve_blocked_ip_outcome_def split: option.splits)
    then show ?thesis using assms(2)
      by (rule inferred_truthful) (auto simp: infer_block_def dest: infer_block_ok block_claims_nothing [unfolded infer_block_def])
  qed
qed


text \<open>A refused execution: the inference gives it a state that the label does not know.\<close>

lemma derive_label_not_actioned:
  "derive_outcome_label mode ''not_actioned'' ex tr si = Inl (SoarResponseOutcomeValidationError
     (''execution_state must be one of '' @ py_list_repr EXECUTION_STATES))"
  by (simp add: derive_outcome_label_def validate_execution_state_def validate_in_def EXECUTION_STATES_def
      strip_def is_space_def)

lemma mapping_label_total:
  assumes "mapping_ok m" "lm_execution_state m \<noteq> ''not_actioned''"
  shows "\<exists>r. to_read_model m = Inr r"
proof -
  have b: "validate_outcome_booleans (lm_execution_mode m) (lm_execution_state m) (lm_external_executed m)
       (lm_tracking_recorded m) (lm_simulated m) = Inr ()"
    and v: "lm_execution_mode m \<in> set EXECUTION_MODES" "lm_execution_state m \<in> set EXECUTION_STATES"
    using assms by (auto simp: mapping_ok_def)
  obtain label where "derive_outcome_label (lm_execution_mode m) (lm_execution_state m) (lm_external_executed m)
       (lm_tracking_recorded m) (lm_simulated m) = Inr label"
    using label_total [OF v, of "lm_external_executed m" "lm_tracking_recorded m" "lm_simulated m"]
      validate_booleans_ok [OF b] by blast
  then show ?thesis by (simp add: to_read_model_def)
qed

subsection \<open>Correlation ids of old rows\<close>

definition serial_id :: "row_id \<Rightarrow> bool" where
  "serial_id i \<longleftrightarrow> 0 < i \<and> i \<le> 2147483647"

lemma length_show_nat: "n < 10 ^ Suc k \<Longrightarrow> length (show_nat n) \<le> Suc k"
proof (induction k arbitrary: n)
  case 0
  then show ?case by (simp add: show_nat.simps [of n])
next
  case (Suc k)
  show ?case
  proof (cases "n < 10")
    case True
    then show ?thesis by (simp add: show_nat.simps [of n])
  next
    case False
    have "n div 10 < 10 ^ Suc k" using Suc.prems by (simp add: less_mult_imp_div_less)
    then have "length (show_nat (n div 10)) \<le> Suc k" by (rule Suc.IH)
    then show ?thesis using False by (simp add: show_nat.simps [of n])
  qed
qed

lemma length_show_serial: "serial_id i \<Longrightarrow> length (show_int i) \<le> 10"
  using length_show_nat [of "nat i" 9] by (auto simp: serial_id_def show_int_def)

lemma no_h_no_url: "(\<And>c. c \<in> set s \<Longrightarrow> lower_char c \<noteq> CHR ''h'') \<Longrightarrow> \<not> url_search s"
  by (induction s) (auto simp: url_at_not_h)

lemma strip_no_space: "(\<And>c. c \<in> set s \<Longrightarrow> \<not> is_space c) \<Longrightarrow> strip s = s"
proof -
  assume *: "\<And>c. c \<in> set s \<Longrightarrow> \<not> is_space c"
  then have "dropWhile is_space s = s" by (cases s) auto
  moreover have "dropWhile is_space (rev s) = rev s" using * by (cases "rev s") (auto dest: arg_cong [of _ _ set])
  ultimately show ?thesis by (simp add: strip_def)
qed

text \<open>A character of an id: no blank, no \<open>h\<close>, and one that the check admits.\<close>

definition plain_char :: "char \<Rightarrow> bool" where
  "plain_char c \<longleftrightarrow> \<not> is_space c \<and> lower_char c \<noteq> CHR ''h'' \<and> correlation_char c"

lemma plain_char_digit:
  assumes "48 \<le> (of_char c :: nat)" "(of_char c :: nat) \<le> 57"
  shows "plain_char c"
proof -
  have "lower_char c = c" using assms by (simp add: lower_char_def Let_def)
  moreover have "c \<noteq> CHR ''h''" using assms by auto
  ultimately show ?thesis using assms by (simp add: plain_char_def is_space_def correlation_char_def Let_def)
qed

lemma plain_char_minus: "plain_char (CHR ''-'')"
  by code_simp

lemma plain_show_int: "c \<in> set (show_int i) \<Longrightarrow> plain_char c"
  using show_int_chars plain_char_digit plain_char_minus by blast

lemma validate_plain:
  assumes "list_all plain_char v" "v \<noteq> []" "length v \<le> 128"
  shows "validate_soar_correlation_id v = Inr v"
proof -
  have p: "\<And>c. c \<in> set v \<Longrightarrow> plain_char c" using assms(1) by (simp add: list_all_iff)
  have "strip v = v" by (rule strip_no_space) (use p in \<open>simp add: plain_char_def\<close>)
  moreover have "\<not> url_search v" by (rule no_h_no_url) (use p in \<open>simp add: plain_char_def\<close>)
  moreover have "list_all correlation_char v" using p by (simp add: list_all_iff plain_char_def)
  ultimately show ?thesis using assms(2,3) by (simp add: validate_soar_correlation_id_def Let_def)
qed

definition LEGACY_TABLES :: "string list" where
  "LEGACY_TABLES =
     [''response_actions_queue'', ''response_actions_log'', ''playbook_executions'', ''approval_requests'',
      ''notification_delivery_attempts'', ''alerts'', ''blocked_ips'']"

lemma legacy_tables_plain:
  "list_all (\<lambda>t. strip t = t \<and> t \<noteq> [] \<and> list_all plain_char t \<and> length t \<le> 40 \<and>
     filter (\<lambda>c. let n = of_char c :: nat in (97 \<le> n \<and> n \<le> 122) \<or> (48 \<le> n \<and> n \<le> 57) \<or> c = CHR ''_'')
                     (lower t) = t) LEGACY_TABLES"
  by code_simp

lemma legacy_id_total:
  assumes t: "t \<in> set LEGACY_TABLES" and i: "serial_id i"
  shows "generate_legacy_soar_correlation_id t i = Inr (''legacy-'' @ t @ ''-'' @ show_int i)"
proof -
  have t: "strip t = t" "t \<noteq> []" "list_all plain_char t" "length t \<le> 40"
    "filter (\<lambda>c. let n = of_char c :: nat in (97 \<le> n \<and> n \<le> 122) \<or> (48 \<le> n \<and> n \<le> 57) \<or> c = CHR ''_'') (lower t) = t"
    using legacy_tables_plain t unfolding list_all_iff by blast+
  have "list_all plain_char ''legacy-''" by code_simp
  then have "list_all plain_char (''legacy-'' @ t @ ''-'' @ show_int i)"
    using t(3) plain_show_int [of _ i] plain_char_minus by (auto simp: list_all_iff)
  then have "validate_soar_correlation_id (''legacy-'' @ t @ ''-'' @ show_int i) = Inr (''legacy-'' @ t @ ''-'' @ show_int i)"
    by (rule validate_plain) (use t(4) length_show_serial [OF i] in simp_all)
  then show ?thesis using i t(1,2,5)
    by (simp add: generate_legacy_soar_correlation_id_def serial_id_def Let_def)
qed

text \<open>An execution that has no canonical decision, and whose delivery attempts can be read, has an outcome
  to show exactly when it was not refused: for one that ended as \<open>not_actioned\<close> the resolver raises,
  because the inferred state is no word of the vocabulary.\<close>

theorem refused_execution_has_no_outcome:
  assumes "select_id ex_id i (playbook_executions (lg_executions s)) = Some x" "serial_id i"
    "ex_decision_id x = None" "real_notification_confirmed env s i = Inr c"
  shows "(if ex_status x = ENotActioned
          then resolve_playbook_execution_outcome env i s = Inl (SoarResponseOutcomeValidationError
            (''execution_state must be one of '' @ py_list_repr EXECUTION_STATES))
          else \<exists>r. resolve_playbook_execution_outcome env i s = Inr (Some r) \<and> rm_inferred r)"
proof -
  have x: "ex_id x = i" using assms(1) by (auto dest: select_id_Some)
  let ?c = "''legacy-'' @ ''playbook_executions'' @ ''-'' @ show_int i"
  have id: "generate_legacy_soar_correlation_id ''playbook_executions'' (ex_id x) = Inr ?c"
    unfolding x by (rule legacy_id_total) (simp add: LEGACY_TABLES_def, rule assms(2))
  obtain m where m: "infer_execution env c x = Inr m"
      and st: "\<exists>b. m = playbook_outcome (exec_status_text (ex_status x)) (ex_failure_reason x)
        (latest_playbook_step env (PList (ex_steps_log x))) c b"
    unfolding infer_execution_def infer_playbook_execution_legacy_outcome_def legacy_of_def id by auto
  have run: "resolve_playbook_execution_outcome env i s =
      (case to_read_model m of Inl e \<Rightarrow> Inl e | Inr r \<Rightarrow> Inr (Some r))"
    by (simp add: resolve_playbook_execution_outcome_def assms m canonical_or_def)
  show ?thesis
  proof (cases "ex_status x = ENotActioned")
    case True
    then have "lm_execution_state m = ''not_actioned''" using st by (auto simp: playbook_outcome_refused)
    then have "to_read_model m = Inl (SoarResponseOutcomeValidationError
            (''execution_state must be one of '' @ py_list_repr EXECUTION_STATES))"
      by (simp only: to_read_model_def derive_label_not_actioned sum.case)
    with True run show ?thesis by simp
  next
    case False
    have ok: "mapping_ok m" using m unfolding infer_execution_def by (rule infer_playbook_ok)
    have "exec_status_text (ex_status x) \<noteq> ''not_actioned''" using False by (cases "ex_status x") simp_all
    then have "lm_execution_state m \<noteq> ''not_actioned''" using st playbook_outcome_state by blast
    from mapping_label_total [OF ok this] obtain r where r: "to_read_model m = Inr r" by blast
    then have "rm_inferred r" by (auto simp: to_read_model_def split: sum.splits)
    with False run r show ?thesis by simp
  qed
qed

text \<open>Where the mappings of a plan come from.\<close>

lemma mappings_of_mem:
  "mappings_of f rs = Inr ms \<Longrightarrow> m \<in> set ms \<Longrightarrow> \<exists>r \<in> set rs. f r = Some (Inr m)"
  by (induction rs arbitrary: ms) (auto split: option.splits sum.splits)

lemma mappings_of_source:
  "Inr ms = mappings_of f rs \<Longrightarrow> m \<in> set ms \<Longrightarrow> \<exists>r \<in> set rs. f r = Some (Inr m)"
  using mappings_of_mem [of f rs ms m] by simp

lemma concat_results_mem:
  "concat_results rs = Inr xs \<Longrightarrow> m \<in> set xs \<Longrightarrow> \<exists>ys. Inr ys \<in> set rs \<and> m \<in> set ys"
proof (induction rs arbitrary: xs)
  case (Cons r rs)
  then show ?case by (cases r) (fastforce split: sum.splits)+
qed simp

definition about_execution :: "row_id option \<Rightarrow> LegacyMapping \<Rightarrow> bool" where
  "about_execution x m \<longleftrightarrow> lm_playbook_execution_id m = x"

lemma about_execution_rules:
  "about_execution x m \<Longrightarrow> about_execution x m' \<Longrightarrow> about_execution x (if b then m else m')"
  "about_execution x m \<Longrightarrow> about_execution x (ambiguous_because w m)"
  "about_execution x m \<Longrightarrow> about_execution x (classified mode state ex tr si actor summary reason m)"
  by (simp_all add: about_execution_def)

lemma delivery_fields: "lm_playbook_execution_id (legacy_delivery_outcome env a m) = lm_playbook_execution_id m"
proof -
  have m: "about_execution (lm_playbook_execution_id m) m" by (simp add: about_execution_def)
  have "about_execution (lm_playbook_execution_id m) (legacy_delivery_outcome env a m)"
    unfolding legacy_delivery_outcome_def Let_def by (intro about_execution_rules m)
  then show ?thesis by (simp add: about_execution_def)
qed

lemma playbook_fields: "lm_playbook_execution_id (playbook_outcome st fr step c m) = lm_playbook_execution_id m"
proof -
  have m: "about_execution (lm_playbook_execution_id m) m" by (simp add: about_execution_def)
  obtain si ex tr where ev: "playbook_step_evidence step = (si, ex, tr)" by (cases "playbook_step_evidence step")
  have "about_execution (lm_playbook_execution_id m) (playbook_outcome st fr step c m)"
    unfolding playbook_outcome_def ev prod.case by (intro about_execution_rules m)
  then show ?thesis by (simp add: about_execution_def)
qed

lemma alert_notification_execution:
  assumes "infer_alert_notification_legacy_outcome env i ip act ast a = Inr m"
  shows "lm_playbook_execution_id m = nd_playbook_execution_id a"
  using assms
  by (auto simp: infer_alert_notification_legacy_outcome_def Let_def mapping0_def split: sum.splits if_split_asm)

lemma latest_attempt_alert: "latest_attempt s i = Some a \<Longrightarrow> nd_alert_id a = Some i"
  unfolding latest_attempt_def by (drule fetchone_order_desc(1)) simp

text \<open>The dry run leaves a delivery that confirms a real send to its execution, and the execution is
  judged by its last logged step alone. So a run that sent for real in an earlier step appears in the
  plan with no external execution at all: no planned mapping that names the execution claims one.\<close>

theorem dry_run_forgets_real_sends:
  assumes "planned_mappings env s = Inr ms" "m \<in> set ms" "lm_playbook_execution_id m = Some (ex_id x)"
    and x: "x \<in> set (playbook_executions (lg_executions s))" "distinct (map ex_id (playbook_executions (lg_executions s)))"
      "ex_decision_id x = None"
      "\<not> fst (snd (playbook_step_evidence (latest_playbook_step env (PList (ex_steps_log x)))))"
    and alerts: "\<forall>a \<in> set (lg_attempts s). nd_playbook_execution_id a = Some (ex_id x) \<longrightarrow> nd_alert_id a = None"
  shows "\<not> lm_external_executed m"
proof
  assume ext: "lm_external_executed m"
  obtain ys where ys: "m \<in> set ys" "Inr ys \<in> set
       [mappings_of (plan_alert env s) (order_asc al_id (alerts (lg_commands s))),
        mappings_of plan_queue (order_asc q_id (response_actions_queue (lg_queue s))),
        mappings_of (plan_log s) (order_asc lg_id (response_actions_log (lg_commands s))),
        mappings_of (plan_execution env s) (order_asc ex_id (playbook_executions (lg_executions s))),
        mappings_of (plan_approval s) (order_asc ar_id (approval_requests (lg_approvals s))),
        mappings_of (plan_attempt env s) (order_asc nd_id (lg_attempts s)),
        mappings_of plan_block (order_asc bi_id (blocked_ips (lg_commands s)))]"
    using concat_results_mem [OF assms(1) [unfolded planned_mappings_def] assms(2)] by blast
  have "(\<exists>a. plan_alert env s a = Some (Inr m)) \<or> (\<exists>q. plan_queue q = Some (Inr m)) \<or>
      (\<exists>l. plan_log s l = Some (Inr m)) \<or>
      (\<exists>y \<in> set (playbook_executions (lg_executions s)). plan_execution env s y = Some (Inr m)) \<or>
      (\<exists>r. plan_approval s r = Some (Inr m)) \<or> (\<exists>a. plan_attempt env s a = Some (Inr m)) \<or>
      (\<exists>b. plan_block b = Some (Inr m))"
    using ys(2) by (auto dest!: mappings_of_source [OF _ ys(1)])
  then consider
      (alert) a where "plan_alert env s a = Some (Inr m)"
    | (queue) q where "plan_queue q = Some (Inr m)"
    | (action) l where "plan_log s l = Some (Inr m)"
    | (execution) y where "y \<in> set (playbook_executions (lg_executions s))" "plan_execution env s y = Some (Inr m)"
    | (approval) r where "plan_approval s r = Some (Inr m)"
    | (delivery) a where "plan_attempt env s a = Some (Inr m)"
    | (block) b where "plan_block b = Some (Inr m)"
    by blast
  then show False
  proof cases
    case alert
    then have inf: "infer_alert env s a = Inr m" by (simp add: plan_alert_def split: if_split_asm)
    then obtain n where n: "latest_attempt s (al_id a) = Some n"
        "infer_alert_notification_legacy_outcome env (al_id a) (Some (al_source_ip a))
           (al_response_action a) (attempt_approval_status s n) n = Inr m"
      using ext plain_alert_claims_nothing by (fastforce simp: infer_alert_def split: option.splits)
    have "nd_playbook_execution_id n = Some (ex_id x)" using alert_notification_execution [OF n(2)] assms(3) by simp
    with alerts latest_attempt_mem [OF n(1)] have "nd_alert_id n = None" by blast
    with latest_attempt_alert [OF n(1)] show False by simp
  next
    case queue
    then show False using ext queue_claims_nothing by (auto simp: plan_queue_def split: if_split_asm)
  next
    case action
    then show False using ext log_claims_nothing by (auto simp: plan_log_def split: if_split_asm)
  next
    case execution
    then obtain c where inf: "infer_execution env c y = Inr m"
      by (auto simp: plan_execution_def split: if_split_asm sum.splits)
    then have "lm_playbook_execution_id m = Some (ex_id y)"
      unfolding infer_execution_def infer_playbook_execution_legacy_outcome_def
      by (elim legacy_ofE) (simp add: playbook_fields)
    with assms(3) have "ex_id y = ex_id x" by simp
    with execution(1) x(1,2) have "y = x" by (metis distinct_key_unique)
    with infer_execution_claim [OF inf ext] x(4) show False by simp
  next
    case approval
    then show False using ext approval_claims_nothing by (auto simp: plan_approval_def split: if_split_asm)
  next
    case delivery
    then have a: "\<not> left_to_execution env s a" "infer_notification_delivery_legacy_outcome env a = Inr m"
      by (auto simp: plan_attempt_def split: if_split_asm)
    from a(2) obtain b where m: "m = legacy_delivery_outcome env a b" and b: "lm_playbook_execution_id b = nd_playbook_execution_id a"
      unfolding infer_notification_delivery_legacy_outcome_def by (elim legacy_ofE) simp
    have "nd_playbook_execution_id a = Some (ex_id x)" using assms(3) by (simp add: m delivery_fields b)
    then have "left_to_execution env s a"
      using delivery_claim [of env a b] ext x(1,3)
      by (simp add: m left_to_execution_def list_ex_iff) blast
    with a(1) show False by simp
  next
    case block
    then show False using ext block_claims_nothing by (auto simp: plan_block_def split: if_split_asm)
  qed
qed

end
