(* ===== verification/Outcome_Backfill.thy ===== *)
theory Outcome_Backfill
  imports Legacy_Outcomes
begin

text \<open>
  \<open>scripts/soar_outcome_backfill.py\<close> in write mode: a decision and an outcome event for every row from
  before the decision tables, with the row linked to its decision, and the audit entries of playbooks
  linked to the decisions of their executions. \<open>backfill_run\<close> is the transaction of the script: it commits
  all or rolls back all.

  Shown here: what is written keeps the invariant of the outcome tables, a run on data it can store links
  every old row, a second run writes nothing, and one refused execution makes every run fail.
\<close>

subsection \<open>The result\<close>

record BackfillApplyResult =
  bk_decisions_created :: int
  bk_decisions_existing :: int
  bk_events_created :: int
  bk_events_existing :: int
  bk_legacy_rows_linked :: counter
  bk_audit_rows_linked :: int
  bk_skipped_observed_only :: int
  bk_skipped_existing_linkage :: int
  bk_ambiguous_written :: int

definition empty_backfill :: BackfillApplyResult where
  "empty_backfill =
     \<lparr>bk_decisions_created = 0, bk_decisions_existing = 0, bk_events_created = 0, bk_events_existing = 0,
      bk_legacy_rows_linked = [], bk_audit_rows_linked = 0, bk_skipped_observed_only = 0,
      bk_skipped_existing_linkage = 0, bk_ambiguous_written = 0\<rparr>"

definition summary_lines :: "BackfillApplyResult \<Rightarrow> string list" where
  "summary_lines r =
     (let line = (\<lambda>label n. label @ '': '' @ show_int n)
      in [''SOAR outcome backfill apply summary'', ''==================================='',
          line ''Decisions created'' (bk_decisions_created r), line ''Decisions reused'' (bk_decisions_existing r),
          line ''Outcome events created'' (bk_events_created r),
          line ''Outcome events reused'' (bk_events_existing r),
          line ''Observed-only skipped'' (bk_skipped_observed_only r),
          line ''Existing-linkage skipped'' (bk_skipped_existing_linkage r),
          line ''Ambiguous/conservative records written'' (bk_ambiguous_written r),
          line ''Audit rows linked'' (bk_audit_rows_linked r), [], ''Legacy rows linked:''] @
         (if bk_legacy_rows_linked r = [] then [''  - none''] else counter_lines (bk_legacy_rows_linked r)))"

subsection \<open>Statements\<close>

definition in_lg_outcomes :: "(outcome_db, 'a) py \<Rightarrow> (legacy_db, 'a) py" where
  "in_lg_outcomes m s =
     (case m (lg_outcomes s) of (r, t) \<Rightarrow> (r, s\<lparr>lg_commands := (lg_commands s)\<lparr>cmd_outcomes := t\<rparr>\<rparr>))"

text \<open>The id and the correlation id of the decision, and whether it is new.\<close>

definition decision_for :: "LegacyMapping \<Rightarrow> decision_args" where
  "decision_for m =
     (decision_args0 (or_text (lm_selected_action m) ''legacy_response'') (lm_decision_source m) (lm_outcome_summary m))
       \<lparr>da_alert_id := lm_alert_id m, da_incident_id := lm_incident_id m, da_source_ip := lm_source_ip m,
        da_reason_code := lm_reason_code m, da_soar_correlation_id := Some (lm_soar_correlation_id m),
        da_playbook_execution_id := lm_playbook_execution_id m, da_queue_id := lm_queue_id m,
        da_approval_request_id := lm_approval_request_id m,
        da_safe_metadata := Some [(''source_table'', PStr (lm_source_table m)), (''source_id'', PInt (lm_source_id m)),
          (''needs_review'', PBool (lm_needs_review m)), (''ambiguity_reason'', opt_val PStr (lm_ambiguity_reason m))]\<rparr>"

definition create_or_get_decision ::
  "(nat \<Rightarrow> string) \<Rightarrow> clock \<Rightarrow> LegacyMapping \<Rightarrow> (outcome_db, (row_id \<times> string) \<times> bool) py" where
  "create_or_get_decision uuid clk m s =
     (case fetch_decision_by_correlation_id (lm_soar_correlation_id m) s of
        Some d \<Rightarrow> (Inr ((rd_id d, rd_soar_correlation_id d), False), s)
      | None \<Rightarrow>
          (case create_response_decision uuid clk (decision_for m) s of
             (Inl e, s') \<Rightarrow> (Inl e, s')
           | (Inr d, s') \<Rightarrow> (Inr ((rd_id d, rd_soar_correlation_id d), True), s')))"

definition event_key :: "LegacyMapping \<Rightarrow> string" where
  "event_key m = snd (proposed_idempotency_keys m)"

definition event_for :: "LegacyMapping \<Rightarrow> row_id \<times> string \<Rightarrow> outcome_args" where
  "event_for m d =
     (outcome_args0 (lm_execution_mode m) (lm_execution_state m) (lm_execution_actor m) (lm_outcome_summary m))
       \<lparr>oa_decision_id := Some (fst d), oa_soar_correlation_id := Some (snd d),
        oa_event_type := Some ''legacy_backfill'', oa_external_executed := lm_external_executed m,
        oa_tracking_recorded := lm_tracking_recorded m, oa_simulated := lm_simulated m,
        oa_reason_code := lm_reason_code m, oa_alert_id := lm_alert_id m, oa_incident_id := lm_incident_id m,
        oa_source_ip := lm_source_ip m, oa_queue_id := lm_queue_id m,
        oa_playbook_execution_id := lm_playbook_execution_id m,
        oa_approval_request_id := lm_approval_request_id m, oa_delivery_attempt_id := lm_delivery_attempt_id m,
        oa_response_action_log_id := lm_response_action_log_id m, oa_idempotency_key := Some (event_key m),
        oa_metadata := Some [(''source_table'', PStr (lm_source_table m)), (''source_id'', PInt (lm_source_id m)),
          (''needs_review'', PBool (lm_needs_review m)), (''ambiguous'', PBool (lm_ambiguous m)),
          (''ambiguity_reason'', opt_val PStr (lm_ambiguity_reason m))]\<rparr>"

text \<open>An append under a key that is looked up first: the event, and whether it is new.\<close>

definition append_unless_known :: "clock \<Rightarrow> string \<Rightarrow> outcome_args \<Rightarrow> (outcome_db, row_id \<times> bool) py" where
  "append_unless_known clk key a s =
     (case get_outcome_event_by_idempotency_key key s of
        Some e \<Rightarrow> (Inr (oe_id e, False), s)
      | None \<Rightarrow>
          (case append_outcome_event clk a s of
             (Inl e, s') \<Rightarrow> (Inl e, s')
           | (Inr e, s') \<Rightarrow> (Inr (oe_id e, True), s')))"

definition append_or_get_event ::
  "clock \<Rightarrow> LegacyMapping \<Rightarrow> row_id \<times> string \<Rightarrow> (outcome_db, row_id \<times> bool) py" where
  "append_or_get_event clk m d = append_unless_known clk (event_key m) (event_for m d)"

text \<open>\<open>UPDATE .. SET decision_id = COALESCE(..), soar_correlation_id = COALESCE(..)\<close>, and whether a row was hit.\<close>

definition half_linked :: "row_id option \<Rightarrow> string option \<Rightarrow> bool" where
  "half_linked d c \<longleftrightarrow> d = None \<or> c = None"

definition link_queue :: "row_id \<Rightarrow> row_id \<times> string \<Rightarrow> (legacy_db, bool) py" where
  "link_queue i d s =
     (let hit = (\<lambda>r. q_id r = i \<and> half_linked (q_decision_id r) (q_soar_correlation_id r));
          t = response_actions_queue (lg_queue s)
      in (Inr (list_ex hit t), s\<lparr>lg_queue := (lg_queue s)\<lparr>response_actions_queue :=
            update_where hit (\<lambda>r. r\<lparr>q_decision_id := coalesce_opt (q_decision_id r) (Some (fst d)),
              q_soar_correlation_id := coalesce_opt (q_soar_correlation_id r) (Some (snd d))\<rparr>) t\<rparr>\<rparr>))"

definition link_log :: "row_id \<Rightarrow> row_id \<times> string \<Rightarrow> (legacy_db, bool) py" where
  "link_log i d s =
     (let hit = (\<lambda>r. lg_id r = i \<and> half_linked (lg_decision_id r) (lg_soar_correlation_id r));
          t = response_actions_log (lg_commands s)
      in (Inr (list_ex hit t), s\<lparr>lg_commands := (lg_commands s)\<lparr>response_actions_log :=
            update_where hit (\<lambda>r. r\<lparr>lg_decision_id := coalesce_opt (lg_decision_id r) (Some (fst d)),
              lg_soar_correlation_id := coalesce_opt (lg_soar_correlation_id r) (Some (snd d))\<rparr>) t\<rparr>\<rparr>))"

definition link_execution :: "row_id \<Rightarrow> row_id \<times> string \<Rightarrow> (legacy_db, bool) py" where
  "link_execution i d s =
     (let hit = (\<lambda>r. ex_id r = i \<and> half_linked (ex_decision_id r) (ex_soar_correlation_id r));
          t = playbook_executions (lg_executions s)
      in (Inr (list_ex hit t), s\<lparr>lg_executions := (lg_executions s)\<lparr>playbook_executions :=
            update_where hit (\<lambda>r. r\<lparr>ex_decision_id := coalesce_opt (ex_decision_id r) (Some (fst d)),
              ex_soar_correlation_id := coalesce_opt (ex_soar_correlation_id r) (Some (snd d))\<rparr>) t\<rparr>\<rparr>))"

definition link_approval :: "row_id \<Rightarrow> row_id \<times> string \<Rightarrow> (legacy_db, bool) py" where
  "link_approval i d s =
     (let links = lg_approval_links s i;
          hit = (list_ex (\<lambda>r. ar_id r = i) (approval_requests (lg_approvals s)) \<and> half_linked (fst links) (snd links))
      in (Inr hit, if hit then s\<lparr>lg_approval_links := (lg_approval_links s)
                (i := (coalesce_opt (fst links) (Some (fst d)), coalesce_opt (snd links) (Some (snd d))))\<rparr> else s))"

definition link_attempt :: "row_id \<Rightarrow> row_id \<times> string \<Rightarrow> (legacy_db, bool) py" where
  "link_attempt i d s =
     (let hit = (\<lambda>r. nd_id r = i \<and> half_linked (nd_decision_id r) (nd_soar_correlation_id r)); t = lg_attempts s
      in (Inr (list_ex hit t), s\<lparr>lg_attempts :=
            update_where hit (\<lambda>r. r\<lparr>nd_decision_id := coalesce_opt (nd_decision_id r) (Some (fst d)),
              nd_soar_correlation_id := coalesce_opt (nd_soar_correlation_id r) (Some (snd d))\<rparr>) t\<rparr>))"

definition link_by :: "(row_id \<Rightarrow> row_id \<times> string \<Rightarrow> (legacy_db, bool) py) \<Rightarrow> row_id option \<Rightarrow> row_id \<times> string \<Rightarrow> (legacy_db, bool) py" where
  "link_by link i d = (case i of None \<Rightarrow> ret False | Some x \<Rightarrow> link x d)"

definition link_legacy_row :: "LegacyMapping \<Rightarrow> row_id \<times> string \<Rightarrow> (legacy_db, bool) py" where
  "link_legacy_row m d =
     (if lm_source_table m = ''response_actions_queue'' then link_by link_queue (lm_queue_id m) d
      else if lm_source_table m = ''response_actions_log'' then link_by link_log (lm_response_action_log_id m) d
      else if lm_source_table m = ''playbook_executions'' then link_by link_execution (lm_playbook_execution_id m) d
      else if lm_source_table m = ''approval_requests'' then link_by link_approval (lm_approval_request_id m) d
      else if lm_source_table m = ''notification_delivery_attempts'' then link_by link_attempt (lm_delivery_attempt_id m) d
      else ret False)"

subsection \<open>The mappings\<close>

definition old_attempt :: "legacy_env \<Rightarrow> delivery_attempt \<Rightarrow> LegacyMapping result option" where
  "old_attempt env a =
     (if nd_decision_id a \<noteq> None then None else Some (infer_notification_delivery_legacy_outcome env a))"

definition legacy_mappings :: "legacy_env \<Rightarrow> legacy_db \<Rightarrow> LegacyMapping list result" where
  "legacy_mappings env s =
     concat_results
       [mappings_of plan_queue (order_asc q_id (response_actions_queue (lg_queue s))),
        mappings_of (plan_log s) (order_asc lg_id (response_actions_log (lg_commands s))),
        mappings_of (plan_execution env s) (order_asc ex_id (playbook_executions (lg_executions s))),
        mappings_of (plan_approval s) (order_asc ar_id (approval_requests (lg_approvals s))),
        mappings_of (old_attempt env) (order_asc nd_id (lg_attempts s))]"

subsection \<open>One mapping after the other\<close>

definition skips_mapping :: "LegacyMapping \<Rightarrow> bool" where
  "skips_mapping m \<longleftrightarrow> \<not> lm_proposed_decision m \<or> coalesce (lm_selected_action m) [] = []"

definition count_mapping ::
  "LegacyMapping \<Rightarrow> bool \<Rightarrow> bool \<Rightarrow> bool \<Rightarrow> BackfillApplyResult \<Rightarrow> BackfillApplyResult" where
  "count_mapping m fresh_decision fresh_event row_linked r =
     (let bit = (\<lambda>b. if b then 1 else 0 :: int)
      in r\<lparr>bk_decisions_created := bk_decisions_created r + bit fresh_decision,
           bk_decisions_existing := bk_decisions_existing r + bit (\<not> fresh_decision),
           bk_events_created := bk_events_created r + bit fresh_event,
           bk_events_existing := bk_events_existing r + bit (\<not> fresh_event),
           bk_ambiguous_written :=
             bk_ambiguous_written r + (if lm_needs_review m \<or> lm_ambiguous m then bit fresh_event else 0),
           bk_legacy_rows_linked :=
             (if row_linked then counter_add (bk_legacy_rows_linked r) (lm_source_table m) 1 else bk_legacy_rows_linked r),
           bk_skipped_existing_linkage := bk_skipped_existing_linkage r + bit (\<not> row_linked)\<rparr>)"

definition apply_mapping ::
  "(nat \<Rightarrow> string) \<Rightarrow> clock \<Rightarrow> LegacyMapping \<Rightarrow> BackfillApplyResult \<Rightarrow> (legacy_db, BackfillApplyResult) py" where
  "apply_mapping uuid clk m r =
     (if skips_mapping m then ret (r\<lparr>bk_skipped_observed_only := bk_skipped_observed_only r + 1\<rparr>)
      else py_bind (in_lg_outcomes (create_or_get_decision uuid clk m)) (\<lambda>(d, fresh_decision).
           py_bind (in_lg_outcomes (append_or_get_event clk m d)) (\<lambda>(_, fresh_event).
           py_bind (link_legacy_row m d) (\<lambda>row_linked.
           ret (count_mapping m fresh_decision fresh_event row_linked r)))))"

fun apply_mappings ::
  "(nat \<Rightarrow> string) \<Rightarrow> clock \<Rightarrow> LegacyMapping list \<Rightarrow> BackfillApplyResult \<Rightarrow> (legacy_db, BackfillApplyResult) py" where
  "apply_mappings uuid clk [] r = ret r"
| "apply_mappings uuid clk (m # ms) r = py_bind (apply_mapping uuid clk m r) (apply_mappings uuid clk ms)"

subsection \<open>Audit entries\<close>

definition LINKED_AUDIT_TYPES :: "string list" where
  "LINKED_AUDIT_TYPES =
     [''PLAYBOOK_EXECUTION_RETRY'', ''PLAYBOOK_EXECUTION_ABANDON'', ''PLAYBOOK_EXECUTION_RESUME'',
      ''PLAYBOOK_EXECUTION_PERMANENTLY_FAIL'']"

definition sql_id :: "legacy_env \<Rightarrow> pyval \<Rightarrow> row_id option result" where
  "sql_id env v = (case v of PInt i \<Rightarrow> Inr (Some i) | _ \<Rightarrow> le_sql_id env v)"

definition audit_event_key :: "row_id \<Rightarrow> string" where
  "audit_event_key audit_id = ''legacy-backfill-audit_log-'' @ show_int audit_id @ ''-event-latest''"

definition audit_link_event ::
  "row_id \<Rightarrow> string \<Rightarrow> row_id \<Rightarrow> string \<Rightarrow> row_id option \<Rightarrow> row_id option \<Rightarrow> row_id \<Rightarrow> outcome_args" where
  "audit_link_event audit_id event_type decision correlation alert_id incident_id execution_id =
     (outcome_args0 ''simulation'' ''selected'' ''system''
        (''Linked audit log row '' @ show_int audit_id @ '' ('' @ event_type @ '') to canonical SOAR lifecycle.''))
       \<lparr>oa_decision_id := Some decision, oa_soar_correlation_id := Some correlation,
        oa_event_type := Some ''audit_link'', oa_alert_id := alert_id, oa_incident_id := incident_id,
        oa_playbook_execution_id := Some execution_id, oa_idempotency_key := Some (audit_event_key audit_id),
        oa_metadata := Some [(''audit_log_id'', PInt audit_id), (''audit_event_type'', PStr event_type)]\<rparr>"

definition set_audit_links :: "row_id \<Rightarrow> row_id \<Rightarrow> string \<Rightarrow> row_id \<Rightarrow> (legacy_db, bool) py" where
  "set_audit_links audit_id decision correlation event s =
     (let hit = (\<lambda>(i, _, details). i = audit_id \<and>
            \<not> (case details of PDict d \<Rightarrow> dict_has d ''decision_id'' \<or> dict_has d ''soar_correlation_id'' | _ \<Rightarrow> False));
          merge = (\<lambda>details. PDict (dict_set (dict_set (dict_set
            (case details of PDict d \<Rightarrow> d | _ \<Rightarrow> []) ''decision_id'' (PInt decision))
            ''soar_correlation_id'' (PStr correlation)) ''latest_outcome_event_id'' (PInt event)))
      in (Inr (list_ex hit (lg_audit s)),
          s\<lparr>lg_audit := update_where hit (\<lambda>(i, ty, details). (i, ty, merge details)) (lg_audit s)\<rparr>))"

text \<open>The first of the three ids that is true, else the last.\<close>

definition audit_execution :: "items \<Rightarrow> pyval" where
  "audit_execution d =
     (if truthy (dict_get d ''execution_id'') then dict_get d ''execution_id''
      else if truthy (dict_get d ''source_execution_id'') then dict_get d ''source_execution_id''
      else dict_get d ''new_execution_id'')"

definition linked_execution :: "row_id option \<Rightarrow> legacy_db \<Rightarrow> execution option" where
  "linked_execution i s =
     (case i of
        None \<Rightarrow> None
      | Some x \<Rightarrow> fetchone (filter (\<lambda>r. ex_id r = x \<and> ex_decision_id r \<noteq> None \<and> ex_soar_correlation_id r \<noteq> None)
          (playbook_executions (lg_executions s))))"

definition link_audit_row ::
  "legacy_env \<Rightarrow> clock \<Rightarrow> row_id \<times> string \<times> pyval \<Rightarrow> (legacy_db, int) py" where
  "link_audit_row env clk row s =
     (case row of (audit_id, event_type, raw) \<Rightarrow>
      let d = (case raw of PDict d \<Rightarrow> d | _ \<Rightarrow> []); v = audit_execution d
      in if truthy (dict_get d ''decision_id'') \<or> truthy (dict_get d ''soar_correlation_id'') \<or> v = PNone
         then (Inr 0, s)
         else case sql_id env v of
                Inl e \<Rightarrow> (Inl e, s)
              | Inr i \<Rightarrow>
                  (case linked_execution i s of
                     None \<Rightarrow> (Inr 0, s)
                   | Some x \<Rightarrow>
                       (case py_int v of
                          None \<Rightarrow> (Inl (ValueError ''invalid literal for int()''), s)
                        | Some n \<Rightarrow>
                            py_bind (in_lg_outcomes (append_unless_known clk (audit_event_key audit_id)
                                (audit_link_event audit_id event_type (the (ex_decision_id x))
                                  (the (ex_soar_correlation_id x)) (ex_alert_id x) (ex_incident_id x) n)))
                              (\<lambda>(event, _).
                            py_bind (set_audit_links audit_id (the (ex_decision_id x))
                                (the (ex_soar_correlation_id x)) event)
                              (\<lambda>hit. ret (if hit then 1 else 0))) s)))"

fun link_audit_rows :: "legacy_env \<Rightarrow> clock \<Rightarrow> (row_id \<times> string \<times> pyval) list \<Rightarrow> (legacy_db, int) py" where
  "link_audit_rows env clk [] = ret 0"
| "link_audit_rows env clk (r # rs) =
     py_bind (link_audit_row env clk r) (\<lambda>n. py_bind (link_audit_rows env clk rs) (\<lambda>k. ret (n + k)))"

definition relevant_audit_rows :: "legacy_db \<Rightarrow> (row_id \<times> string \<times> pyval) list" where
  "relevant_audit_rows s = order_asc fst (filter (\<lambda>(_, ty, _). ty \<in> set LINKED_AUDIT_TYPES) (lg_audit s))"

definition link_relevant_audit_rows :: "legacy_env \<Rightarrow> clock \<Rightarrow> (legacy_db, int) py" where
  "link_relevant_audit_rows env clk s = link_audit_rows env clk (relevant_audit_rows s) s"

subsection \<open>The backfill\<close>

definition apply_backfill :: "legacy_env \<Rightarrow> (nat \<Rightarrow> string) \<Rightarrow> clock \<Rightarrow> (legacy_db, BackfillApplyResult) py" where
  "apply_backfill env uuid clk s =
     (case legacy_mappings env s of
        Inl e \<Rightarrow> (Inl e, s)
      | Inr ms \<Rightarrow>
          py_bind (apply_mappings uuid clk ms empty_backfill) (\<lambda>r.
          py_bind (link_relevant_audit_rows env clk) (\<lambda>n.
          ret (r\<lparr>bk_audit_rows_linked := n\<rparr>))) s)"

text \<open>\<open>main\<close> with \<open>--apply\<close>: the plan is printed first; an exception rolls the transaction back. The printed
  lines are the result.\<close>

definition backfill_rollback :: "legacy_db \<Rightarrow> legacy_db \<Rightarrow> legacy_db" where
  "backfill_rollback c s =
     c\<lparr>lg_commands := (lg_commands c)\<lparr>cmd_outcomes := (cmd_outcomes (lg_commands c))
         \<lparr>decision_seq := decision_seq (lg_outcomes s), outcome_seq := outcome_seq (lg_outcomes s),
          uuids_drawn := uuids_drawn (lg_outcomes s)\<rparr>\<rparr>\<rparr>"

definition backfill_run :: "legacy_env \<Rightarrow> (nat \<Rightarrow> string) \<Rightarrow> clock \<Rightarrow> bool \<Rightarrow> (legacy_db, string list) py" where
  "backfill_run env uuid clk apply s =
     (case plan_backfill_dry_run env s of
        Inl e \<Rightarrow> (Inl e, s)
      | Inr plan \<Rightarrow>
          let printed = format_backfill_plan_summary plan
          in if \<not> apply then (Inr [printed], s)
             else case apply_backfill env uuid clk s of
                    (Inl e, s') \<Rightarrow> (Inl e, backfill_rollback s s')
                  | (Inr r, s') \<Rightarrow>
                      (Inr ([printed, [], ''Applying write-mode backfill (--apply requested).''] @ summary_lines r), s'))"

subsection \<open>What a backfill may change\<close>

text \<open>The rows in their order, the linkage columns that were set as they were, everything else untouched.\<close>

definition linked_like ::
  "('r \<Rightarrow> row_id option) \<Rightarrow> ('r \<Rightarrow> string option) \<Rightarrow> ('r \<Rightarrow> 'c) \<Rightarrow> 'r list \<Rightarrow> 'r list \<Rightarrow> bool" where
  "linked_like dec cor rest t t' \<longleftrightarrow>
     list_all2 (\<lambda>r r'. rest r' = rest r \<and> (dec r \<noteq> None \<longrightarrow> dec r' = dec r) \<and> (cor r \<noteq> None \<longrightarrow> cor r' = cor r)) t t'"

lemma linked_like_refl [simp]: "linked_like dec cor rest t t"
  by (simp add: linked_like_def list_all2_refl)

lemma linked_like_trans:
  "linked_like dec cor rest t u \<Longrightarrow> linked_like dec cor rest u v \<Longrightarrow> linked_like dec cor rest t v"
  unfolding linked_like_def by (erule (1) list_all2_trans [rotated]) auto

lemma linked_like_update:
  assumes "\<And>r. rest (f r) = rest r" "\<And>r. dec (f r) = coalesce_opt (dec r) (Some d)"
    "\<And>r. cor (f r) = coalesce_opt (cor r) (Some c)"
  shows "linked_like dec cor rest t (update_where hit f t)"
  unfolding linked_like_def update_where_def list_all2_map2
  by (rule list_all2_refl) (auto simp: assms)

definition log_rest :: "action_log \<Rightarrow> action_log" where
  "log_rest l = l\<lparr>lg_decision_id := None, lg_soar_correlation_id := None\<rparr>"

definition execution_rest :: "execution \<Rightarrow> execution" where
  "execution_rest x = x\<lparr>ex_decision_id := None, ex_soar_correlation_id := None\<rparr>"

definition attempt_rest :: "delivery_attempt \<Rightarrow> delivery_attempt" where
  "attempt_rest a = a\<lparr>nd_decision_id := None, nd_soar_correlation_id := None\<rparr>"

text \<open>An entry of the audit log keeps its id and type; its details are changed only when they have no link
  yet, and then only in the three keys of the links.\<close>

definition audit_items :: "pyval \<Rightarrow> items" where
  "audit_items raw = (case raw of PDict d \<Rightarrow> d | _ \<Rightarrow> [])"

definition has_links :: "pyval \<Rightarrow> bool" where
  "has_links raw \<longleftrightarrow> dict_has (audit_items raw) ''decision_id'' \<or> dict_has (audit_items raw) ''soar_correlation_id''"

definition audit_entry_kept :: "row_id \<times> string \<times> pyval \<Rightarrow> row_id \<times> string \<times> pyval \<Rightarrow> bool" where
  "audit_entry_kept a b \<longleftrightarrow> fst b = fst a \<and> fst (snd b) = fst (snd a) \<and>
     (snd (snd b) = snd (snd a) \<or> \<not> has_links (snd (snd a)) \<and> has_links (snd (snd b)) \<and>
      (\<forall>k. k \<notin> {''decision_id'', ''soar_correlation_id'', ''latest_outcome_event_id''} \<longrightarrow>
         dict_get (audit_items (snd (snd b))) k = dict_get (audit_items (snd (snd a))) k))"

lemma audit_entry_trans: "audit_entry_kept a b \<Longrightarrow> audit_entry_kept b c \<Longrightarrow> audit_entry_kept a c"
  by (cases "snd (snd b) = snd (snd a)") (simp_all add: audit_entry_kept_def)

lemma audit_kept_trans:
  "list_all2 audit_entry_kept t u \<Longrightarrow> list_all2 audit_entry_kept u v \<Longrightarrow> list_all2 audit_entry_kept t v"
  by (erule (1) list_all2_trans [rotated]) (rule audit_entry_trans)

lemma audit_kept_refl [simp]: "list_all2 audit_entry_kept t t"
  by (rule list_all2_refl) (simp add: audit_entry_kept_def)

definition audit_merge :: "row_id \<Rightarrow> string \<Rightarrow> row_id \<Rightarrow> pyval \<Rightarrow> pyval" where
  "audit_merge decision correlation event details =
     PDict (dict_set (dict_set (dict_set (audit_items details) ''decision_id'' (PInt decision))
       ''soar_correlation_id'' (PStr correlation)) ''latest_outcome_event_id'' (PInt event))"

lemma dict_has_set [simp]: "dict_has (dict_set d k v) k' = (k' = k \<or> dict_has d k')"
  by (induction d k v rule: dict_set.induct) (auto simp: dict_has_def)

lemma audit_merge_links [simp]: "has_links (audit_merge d c e raw)"
  by (simp add: has_links_def audit_merge_def audit_items_def)

lemma set_audit_links_eq:
  "set_audit_links i d c e s =
     (Inr (list_ex (\<lambda>a. fst a = i \<and> \<not> has_links (snd (snd a))) (lg_audit s)),
      s\<lparr>lg_audit := update_where (\<lambda>a. fst a = i \<and> \<not> has_links (snd (snd a)))
        (\<lambda>a. (fst a, fst (snd a), audit_merge d c e (snd (snd a)))) (lg_audit s)\<rparr>)"
proof -
  have "(case raw of PDict d \<Rightarrow> dict_has d ''decision_id'' \<or> dict_has d ''soar_correlation_id'' | _ \<Rightarrow> False) = has_links raw" for raw
    by (simp add: has_links_def audit_items_def dict_has_def split: pyval.split)
  then show ?thesis
    by (simp add: set_audit_links_def Let_def audit_merge_def audit_items_def case_prod_unfold)
qed

definition backfill_moves :: "legacy_db \<Rightarrow> legacy_db \<Rightarrow> bool" where
  "backfill_moves s s' \<longleftrightarrow>
     outcome_grows (lg_outcomes s) (lg_outcomes s') \<and>
     linked_like q_decision_id q_soar_correlation_id unlinked
       (response_actions_queue (lg_queue s)) (response_actions_queue (lg_queue s')) \<and>
     linked_like lg_decision_id lg_soar_correlation_id log_rest
       (response_actions_log (lg_commands s)) (response_actions_log (lg_commands s')) \<and>
     linked_like ex_decision_id ex_soar_correlation_id execution_rest
       (playbook_executions (lg_executions s)) (playbook_executions (lg_executions s')) \<and>
     linked_like nd_decision_id nd_soar_correlation_id attempt_rest (lg_attempts s) (lg_attempts s') \<and>
     (\<forall>i. (fst (lg_approval_links s i) \<noteq> None \<longrightarrow> fst (lg_approval_links s' i) = fst (lg_approval_links s i)) \<and>
          (snd (lg_approval_links s i) \<noteq> None \<longrightarrow> snd (lg_approval_links s' i) = snd (lg_approval_links s i))) \<and>
     list_all2 audit_entry_kept (lg_audit s) (lg_audit s') \<and>
     lg_approvals s' = lg_approvals s \<and> queue_seq (lg_queue s') = queue_seq (lg_queue s) \<and>
     exec_seq (lg_executions s') = exec_seq (lg_executions s) \<and>
     (lg_commands s')\<lparr>cmd_outcomes := cmd_outcomes (lg_commands s),
       response_actions_log := response_actions_log (lg_commands s)\<rparr> = lg_commands s"

lemma backfill_moves_refl: "backfill_moves s s"
  by (simp add: backfill_moves_def)

lemma commands_trans:
  fixes a b c :: command_db
  assumes "b\<lparr>cmd_outcomes := cmd_outcomes a, response_actions_log := response_actions_log a\<rparr> = a"
    "c\<lparr>cmd_outcomes := cmd_outcomes b, response_actions_log := response_actions_log b\<rparr> = b"
  shows "c\<lparr>cmd_outcomes := cmd_outcomes a, response_actions_log := response_actions_log a\<rparr> = a"
  using assms by (cases a; cases b; cases c) simp

lemma backfill_moves_trans:
  assumes "backfill_moves s t" "backfill_moves t u"
  shows "backfill_moves s u"
  unfolding backfill_moves_def
proof (intro conjI allI)
  note d = assms [unfolded backfill_moves_def]
  show "outcome_grows (lg_outcomes s) (lg_outcomes u)" using d by (blast intro: outcome_grows_trans)
  show "linked_like q_decision_id q_soar_correlation_id unlinked
       (response_actions_queue (lg_queue s)) (response_actions_queue (lg_queue u))"
    using d by (blast intro: linked_like_trans)
  show "linked_like lg_decision_id lg_soar_correlation_id log_rest
       (response_actions_log (lg_commands s)) (response_actions_log (lg_commands u))"
    using d by (blast intro: linked_like_trans)
  show "linked_like ex_decision_id ex_soar_correlation_id execution_rest
       (playbook_executions (lg_executions s)) (playbook_executions (lg_executions u))"
    using d by (blast intro: linked_like_trans)
  show "linked_like nd_decision_id nd_soar_correlation_id attempt_rest (lg_attempts s) (lg_attempts u)"
    using d by (blast intro: linked_like_trans)
  show "(lg_commands u)\<lparr>cmd_outcomes := cmd_outcomes (lg_commands s),
       response_actions_log := response_actions_log (lg_commands s)\<rparr> = lg_commands s"
    using d commands_trans by blast
  show "list_all2 audit_entry_kept (lg_audit s) (lg_audit u)" using d audit_kept_trans by blast
qed (use assms in \<open>auto simp: backfill_moves_def\<close>)

interpretation backfill: program_logic "\<lambda>s. outcome_inv (lg_outcomes s)" backfill_moves
  by unfold_locales (auto intro: backfill_moves_refl backfill_moves_trans)

abbreviation keeps_backfill :: "(legacy_db, 'a) py \<Rightarrow> bool" where
  "keeps_backfill \<equiv> keeps (\<lambda>s. outcome_inv (lg_outcomes s)) backfill_moves"

lemma keeps_in_lg_outcomes:
  assumes "\<And>s. outcome_inv s \<Longrightarrow> outcome_inv (snd (m s)) \<and> outcome_grows s (snd (m s))"
  shows "keeps_backfill (in_lg_outcomes m)"
  unfolding keeps_def
proof (intro allI impI)
  fix s assume inv: "outcome_inv (lg_outcomes s)"
  obtain r t where m: "m (lg_outcomes s) = (r, t)" by (cases "m (lg_outcomes s)")
  with assms [OF inv] have t: "outcome_inv t" "outcome_grows (lg_outcomes s) t" by simp_all
  have s': "snd (in_lg_outcomes m s) = s\<lparr>lg_commands := (lg_commands s)\<lparr>cmd_outcomes := t\<rparr>\<rparr>"
    by (simp add: in_lg_outcomes_def m)
  show "outcome_inv (lg_outcomes (snd (in_lg_outcomes m s))) \<and> backfill_moves s (snd (in_lg_outcomes m s))"
    unfolding s' by (simp add: backfill_moves_def t)
qed

lemma create_or_get_safe:
  "outcome_inv s \<Longrightarrow> outcome_inv (snd (create_or_get_decision uuid clk m s)) \<and>
     outcome_grows s (snd (create_or_get_decision uuid clk m s))"
  using create_decision_safe [of s uuid clk "decision_for m"]
  by (auto simp: create_or_get_decision_def split: option.splits sum.splits prod.splits)

lemma append_unless_safe:
  "outcome_inv s \<Longrightarrow> outcome_inv (snd (append_unless_known clk k a s)) \<and>
     outcome_grows s (snd (append_unless_known clk k a s))"
  using append_outcome_safe [of s clk a]
  by (auto simp: append_unless_known_def split: option.splits sum.splits prod.splits)

lemma keeps_links:
  "keeps_backfill (link_queue i d)" "keeps_backfill (link_log i d)" "keeps_backfill (link_execution i d)"
  "keeps_backfill (link_attempt i d)" "keeps_backfill (link_approval i d)"
  by (auto simp: keeps_def link_queue_def link_log_def link_execution_def link_attempt_def link_approval_def Let_def
      backfill_moves_def unlinked_def log_rest_def execution_rest_def attempt_rest_def half_linked_def
      intro!: linked_like_update)

lemma keeps_link_by: "(\<And>x. keeps_backfill (link x d)) \<Longrightarrow> keeps_backfill (link_by link i d)"
  by (cases i) (simp_all add: link_by_def backfill.keeps_pure)

lemma keeps_link_row: "keeps_backfill (link_legacy_row m d)"
  unfolding link_legacy_row_def by (intro keeps_if keeps_link_by keeps_links backfill.keeps_pure)

lemma keeps_set_audit: "keeps_backfill (set_audit_links i d c e)"
proof -
  have "dict_get (audit_items (audit_merge d c e raw)) k = dict_get (audit_items raw) k"
    if "k \<notin> {''decision_id'', ''soar_correlation_id'', ''latest_outcome_event_id''}" for raw k
    using that by (simp add: audit_merge_def audit_items_def dict_get_set)
  then have "list_all2 audit_entry_kept t (update_where (\<lambda>a. fst a = i \<and> \<not> has_links (snd (snd a)))
      (\<lambda>a. (fst a, fst (snd a), audit_merge d c e (snd (snd a)))) t)" for t
    unfolding update_where_def list_all2_map2 by (intro list_all2_refl) (simp add: audit_entry_kept_def)
  then show ?thesis by (simp add: keeps_def set_audit_links_eq backfill_moves_def)
qed

lemma keeps_apply_mapping: "keeps_backfill (apply_mapping uuid clk m r)"
  unfolding apply_mapping_def append_or_get_event_def
  by (intro keeps_if keeps_case_prod backfill.keeps_bind backfill.keeps_pure keeps_in_lg_outcomes create_or_get_safe
      append_unless_safe keeps_link_row)

lemma keeps_apply_mappings: "keeps_backfill (apply_mappings uuid clk ms r)"
proof (induction ms arbitrary: r)
  case Nil
  show ?case unfolding apply_mappings.simps by (rule backfill.keeps_pure)
next
  case (Cons m ms)
  show ?case unfolding apply_mappings.simps by (intro backfill.keeps_bind keeps_apply_mapping Cons.IH)
qed

lemma keeps_audit_row: "keeps_backfill (link_audit_row env clk row)"
proof -
  obtain i ty raw where row: "row = (i, ty, raw)" by (cases row)
  have "keeps_backfill (py_bind (in_lg_outcomes (append_unless_known clk k a)) (\<lambda>(event, _).
      py_bind (set_audit_links i d c event) (\<lambda>hit. ret (if hit then 1 else 0 :: int))))" for k a d c
    by (intro backfill.keeps_bind keeps_case_prod keeps_in_lg_outcomes append_unless_safe keeps_set_audit backfill.keeps_pure)
  then show ?thesis
    by (auto simp: keeps_def link_audit_row_def row Let_def backfill_moves_refl split: sum.splits option.splits)
qed

lemma keeps_audit_rows: "keeps_backfill (link_audit_rows env clk rows)"
proof (induction rows)
  case Nil
  show ?case unfolding link_audit_rows.simps by (rule backfill.keeps_pure)
next
  case (Cons row rows)
  show ?case unfolding link_audit_rows.simps
    by (intro backfill.keeps_bind keeps_audit_row Cons.IH backfill.keeps_pure)
qed

lemma keeps_relevant: "keeps_backfill (link_relevant_audit_rows env clk)"
  using keeps_audit_rows by (simp add: keeps_def link_relevant_audit_rows_def)

lemma keeps_apply_backfill: "keeps_backfill (apply_backfill env uuid clk)"
proof -
  have "keeps_backfill (py_bind (apply_mappings uuid clk ms empty_backfill) (\<lambda>r.
          py_bind (link_relevant_audit_rows env clk) (\<lambda>n. ret (r\<lparr>bk_audit_rows_linked := n\<rparr>))))" for ms
    by (intro backfill.keeps_bind keeps_apply_mappings keeps_relevant backfill.keeps_pure)
  then show ?thesis by (auto simp: keeps_def apply_backfill_def backfill_moves_refl split: sum.splits)
qed

subsection \<open>What can be stored\<close>

lemma more_words_stripped:
  "\<forall>x \<in> set DECISION_SOURCES. strip x = x" "\<forall>x \<in> set EXECUTION_ACTORS. strip x = x"
  "\<forall>x \<in> set REASON_CODES. strip x = x \<and> x \<noteq> []"
  by code_simp+

lemma reason_accepted: "reason_ok r \<Longrightarrow> validate_reason_code r = Inr r"
  using more_words_stripped(3)
  by (auto simp: reason_ok_def validate_reason_code_def validate_in_def split: option.splits)

text \<open>A text that is missing, empty, or not blank.\<close>

definition text_ok :: "string option \<Rightarrow> bool" where
  "text_ok t \<longleftrightarrow> (case t of None \<Rightarrow> True | Some x \<Rightarrow> x = [] \<or> strip x \<noteq> [])"

lemma strip_nonblank: "c \<in> set x \<Longrightarrow> \<not> is_space c \<Longrightarrow> strip x \<noteq> []"
proof
  assume c: "c \<in> set x" "\<not> is_space c" and e: "strip x = []"
  from e have "dropWhile is_space (rev (dropWhile is_space x)) = []" by (simp add: strip_def)
  then have "\<forall>y \<in> set (dropWhile is_space x). is_space y" by (simp add: dropWhile_eq_Nil_conv)
  moreover have "c \<in> set (dropWhile is_space x)" using c by (induction x) auto
  ultimately show False using c(2) by blast
qed

lemma spoken_rules:
  "\<not> is_space c \<Longrightarrow> strip (c # x) \<noteq> []" "\<not> is_space c \<Longrightarrow> strip ((c # x) @ y) \<noteq> []"
  "text_ok t \<Longrightarrow> strip d \<noteq> [] \<Longrightarrow> strip (or_text t d) \<noteq> []"
  "\<not> is_space (CHR ''L'')" "\<not> is_space (CHR ''R'')"
  using strip_nonblank [of c "c # x"] strip_nonblank [of c "(c # x) @ y"]
  by (auto simp: or_text_def text_ok_def coalesce_def is_space_def split: option.splits)

text \<open>A finished mapping: a state of the vocabulary, words in the summary, the identity of the given one.\<close>

definition identity :: "LegacyMapping \<Rightarrow> (string \<times> row_id \<times> string) \<times> string option \<times> bool \<times>
    row_id option \<times> row_id option \<times> row_id option \<times> row_id option \<times> row_id option" where
  "identity m = ((lm_source_table m, lm_source_id m, lm_soar_correlation_id m), lm_selected_action m,
     lm_proposed_decision m, lm_queue_id m, lm_response_action_log_id m, lm_playbook_execution_id m,
     lm_approval_request_id m, lm_delivery_attempt_id m)"

definition finishes :: "LegacyMapping \<Rightarrow> LegacyMapping \<Rightarrow> bool" where
  "finishes base m \<longleftrightarrow> known_state m \<and> strip (lm_outcome_summary m) \<noteq> [] \<and> identity m = identity base"

lemma finishes_rules:
  "finishes base x \<Longrightarrow> finishes base y \<Longrightarrow> finishes base (if b then x else y)"
  "finishes base m \<Longrightarrow> finishes base (ambiguous_because w m)"
  "state \<in> set EXECUTION_STATES \<Longrightarrow> strip summary \<noteq> [] \<Longrightarrow>
     finishes m (classified mode state ex tr si actor summary reason m)"
  by (simp_all add: finishes_def known_state_def identity_def classified_def ambiguous_because_def)

lemma finish_legacy:
  assumes "legacy_of table i action source f = Inr m" "\<And>b. finishes (g b) (f b)"
  obtains c where "generate_legacy_soar_correlation_id table i = Inr c" "finishes (g (mapping0 table i c action source)) m"
proof -
  obtain c where "generate_legacy_soar_correlation_id table i = Inr c" "m = f (mapping0 table i c action source)"
    using assms(1) by (rule legacy_ofE)
  then show thesis using that assms(2) by blast
qed

lemma finish_queue:
  assumes "infer_queue q = Inr m" "text_ok (q_last_error q)"
  obtains c where "generate_legacy_soar_correlation_id ''response_actions_queue'' (q_id q) = Inr c"
    "finishes ((mapping0 ''response_actions_queue'' (q_id q) c (Some (q_action q)) ''migration'')
      \<lparr>lm_alert_id := q_alert_id q, lm_source_ip := q_source_ip q, lm_queue_id := Some (q_id q)\<rparr>) m"
  using assms(1) unfolding infer_queue_def infer_queue_legacy_outcome_def Let_def
  apply (rule finish_legacy)
   prefer 2
   apply (erule (1) that)
  apply (intro finishes_rules states spoken_rules assms(2))
  done

lemma finish_log:
  assumes "infer_log s l = Inr m" "text_ok (lg_details l)"
  obtains c where "generate_legacy_soar_correlation_id ''response_actions_log'' (lg_id l) = Inr c"
    "finishes ((mapping0 ''response_actions_log'' (lg_id l) c (Some (lg_action l)) ''migration'')
      \<lparr>lm_alert_id := lg_alert_id l, lm_source_ip := lg_source_ip l, lm_response_action_log_id := Some (lg_id l)\<rparr>) m"
  using assms(1) unfolding infer_log_def infer_response_log_legacy_outcome_def Let_def
  apply (rule finish_legacy)
   prefer 2
   apply (erule (1) that)
  apply (intro finishes_rules states spoken_rules assms(2))
  done

lemma finish_approval:
  assumes "infer_approval s r = Inr m" "text_ok (ar_request_reason r)"
  obtains c where "generate_legacy_soar_correlation_id ''approval_requests'' (ar_id r) = Inr c"
    "finishes ((mapping0 ''approval_requests'' (ar_id r) c (Some (ar_action r)) ''migration'')
      \<lparr>lm_alert_id := approval_alert s r, lm_incident_id := ar_incident_id r, lm_queue_id := ar_queue_id r,
       lm_playbook_execution_id := ar_playbook_execution_id r, lm_approval_request_id := Some (ar_id r)\<rparr>) m"
  using assms(1) unfolding infer_approval_def infer_approval_request_legacy_outcome_def Let_def
  apply (rule finish_legacy)
   prefer 2
   apply (erule (1) that)
  apply (intro finishes_rules states spoken_rules assms(2))
  done

lemma finish_delivery:
  assumes "infer_notification_delivery_legacy_outcome env a = Inr m" "text_ok (nd_failure_message a)"
  obtains c where "generate_legacy_soar_correlation_id ''notification_delivery_attempts'' (nd_id a) = Inr c"
    "finishes ((mapping0 ''notification_delivery_attempts'' (nd_id a) c (Some (nd_action a)) ''migration'')
      \<lparr>lm_alert_id := nd_alert_id a, lm_incident_id := nd_incident_id a,
       lm_playbook_execution_id := nd_playbook_execution_id a,
       lm_approval_request_id := nd_approval_request_id a, lm_delivery_attempt_id := Some (nd_id a)\<rparr>) m"
  using assms(1) unfolding infer_notification_delivery_legacy_outcome_def legacy_delivery_outcome_def Let_def
  apply (rule finish_legacy)
   prefer 2
   apply (erule (1) that)
  apply (intro finishes_rules states spoken_rules assms(2))
  done

lemma finish_playbook:
  assumes "status \<noteq> ''not_actioned''" "text_ok fr"
  shows "finishes m (playbook_outcome status fr step c m)"
proof -
  obtain si ex tr where ev: "playbook_step_evidence step = (si, ex, tr)" by (cases "playbook_step_evidence step")
  have state: "(if p then ''failed'' else if status = ''not_actioned'' then ''not_actioned'' else ''skipped'')
      \<in> set EXECUTION_STATES" for p
    using assms(1) states by simp
  show ?thesis unfolding playbook_outcome_def ev prod.case
    by (intro finishes_rules states state spoken_rules assms(2))
qed

lemma finish_execution:
  assumes "infer_execution env c x = Inr m" "text_ok (ex_failure_reason x)" "ex_status x \<noteq> ENotActioned"
  obtains cor where "generate_legacy_soar_correlation_id ''playbook_executions'' (ex_id x) = Inr cor"
    "finishes ((mapping0 ''playbook_executions'' (ex_id x) cor (Some (ex_playbook_id x)) ''playbook'')
      \<lparr>lm_alert_id := ex_alert_id x, lm_incident_id := ex_incident_id x,
       lm_playbook_execution_id := Some (ex_id x),
       lm_proposed_event_count := max 1 (int (length (coerce_steps_log env (PList (ex_steps_log x)))))\<rparr>) m"
proof -
  have st: "exec_status_text (ex_status x) \<noteq> ''not_actioned''" using assms(3) by (cases "ex_status x") simp_all
  show thesis
    using assms(1) unfolding infer_execution_def infer_playbook_execution_legacy_outcome_def
    apply (rule finish_legacy)
     prefer 2
     apply (erule (1) that)
    apply (rule finish_playbook [OF st assms(2)])
    done
qed

definition storable :: "LegacyMapping \<Rightarrow> bool" where
  "storable m \<longleftrightarrow> mapping_ok m \<and> known_state m \<and> strip (lm_outcome_summary m) \<noteq> [] \<and>
     strip (coalesce (lm_selected_action m) []) \<noteq> [] \<and> lm_proposed_decision m \<and>
     lm_source_table m \<in> set LEGACY_TABLES \<and> serial_id (lm_source_id m)"

lemma storableI:
  assumes "finishes b m" "mapping_ok m" "lm_selected_action b = Some action" "strip action \<noteq> []"
    "lm_proposed_decision b" "lm_source_table b \<in> set LEGACY_TABLES" "serial_id (lm_source_id b)"
  shows "storable m"
  using assms by (auto simp: finishes_def identity_def storable_def)

lemma storable_not_skipped: "storable m \<Longrightarrow> \<not> skips_mapping m"
  by (auto simp: storable_def skips_mapping_def)

lemma legacy_key_plain:
  assumes "t \<in> set (''audit_log'' # LEGACY_TABLES)" "length (show_int i) \<le> 20"
  defines "k \<equiv> ''legacy-backfill-'' @ t @ ''-'' @ show_int i @ ''-event-latest''"
  shows "strip k = k" "length k \<le> 160" "k \<noteq> []"
proof -
  have t: "list_all plain_char t" "length t \<le> 40"
  proof -
    have "list_all plain_char ''audit_log''" by code_simp
    then show "list_all plain_char t" "length t \<le> 40"
      using assms(1) legacy_tables_plain by (auto simp: list_all_iff)
  qed
  have "list_all plain_char ''legacy-backfill-''" "list_all (\<lambda>c. \<not> is_space c) ''-event-latest''" by code_simp+
  then have "\<not> is_space c" if "c \<in> set k" for c
    using that t(1) plain_show_int [of _ i] plain_char_minus unfolding k_def
    by (auto simp: list_all_iff plain_char_def)
  then show "strip k = k" by (rule strip_no_space)
  show "length k \<le> 160" "k \<noteq> []" using t(2) assms(2) by (simp_all add: k_def)
qed

lemma event_key_def': "event_key m = ''legacy-backfill-'' @ lm_source_table m @ ''-'' @ show_int (lm_source_id m) @ ''-event-latest''"
  by (simp add: event_key_def proposed_idempotency_keys_def Let_def)

lemma storable_key:
  assumes "storable m"
  shows "strip (event_key m) = event_key m" "length (event_key m) \<le> 160" "event_key m \<noteq> []"
  using legacy_key_plain [of "lm_source_table m" "lm_source_id m"] assms length_show_serial [of "lm_source_id m"]
  by (simp_all add: event_key_def' storable_def)

text \<open>A decision that is not there is created.\<close>

lemma create_or_get_total:
  assumes "storable m"
  obtains d b t where "create_or_get_decision uuid clk m s = (Inr (d, b), t)"
    "\<exists>x \<in> set (soar_response_decisions t). rd_id x = fst d"
    "soar_response_outcome_events t = soar_response_outcome_events s"
proof (cases "fetch_decision_by_correlation_id (lm_soar_correlation_id m) s")
  case (Some d)
  then have "d \<in> set (soar_response_decisions s)"
    by (auto simp: fetch_decision_by_correlation_id_def dest: fetchone_mem)
  with Some show thesis
    by (intro that [of "(rd_id d, rd_soar_correlation_id d)" False s]) (auto simp: create_or_get_decision_def)
next
  case None
  have act: "strip (or_text (lm_selected_action m) ''legacy_response'') \<noteq> []"
    using assms by (auto simp: storable_def or_text_def coalesce_def split: option.splits)
  have cor: "validate_soar_correlation_id (lm_soar_correlation_id m) = Inr (lm_soar_correlation_id m)"
    "lm_soar_correlation_id m \<noteq> []"
    using assms by (auto simp: storable_def mapping_ok_def validate_soar_correlation_id_def)
  have free: "\<not> (\<exists>d \<in> set (soar_response_decisions s). rd_soar_correlation_id d = lm_soar_correlation_id m)"
    using None by (auto simp: fetch_decision_by_correlation_id_def fetchone_None filter_empty_conv)
  have src: "validate_decision_source (lm_decision_source m) = Inr (lm_decision_source m)"
    using assms more_words_stripped(1) by (simp add: storable_def mapping_ok_def validate_decision_source_def validate_in_def)
  have rea: "validate_reason_code (lm_reason_code m) = Inr (lm_reason_code m)"
    using assms by (intro reason_accepted) (simp add: storable_def mapping_ok_def)
  let ?r = "new_decision clk (decision_for m) (decision_seq s) (lm_soar_correlation_id m) None (lm_decision_source m)
      (lm_reason_code m)"
  have cid: "rd_soar_correlation_id ?r = lm_soar_correlation_id m" by (simp add: new_decision_def)
  have "create_response_decision uuid clk (decision_for m) s = insert_decision ?r s"
    using act assms src rea cor
    by (simp add: create_response_decision_def decision_for_def decision_args0_def resolve_correlation_def
        resolve_parent_def negative_index_def storable_def)
  also have "\<dots> = (Inr ?r, s\<lparr>decision_seq := decision_seq s + 1,
      soar_response_decisions := soar_response_decisions s @ [?r]\<rparr>)"
    using free cid by (simp add: insert_decision_def Let_def)
  finally have "create_or_get_decision uuid clk m s = (Inr ((rd_id ?r, rd_soar_correlation_id ?r), True),
      s\<lparr>decision_seq := decision_seq s + 1, soar_response_decisions := soar_response_decisions s @ [?r]\<rparr>)"
    using None by (simp add: create_or_get_decision_def)
  then show thesis by (rule that) simp_all
qed

text \<open>An append whose arguments pass the checks, under a key that is not there.\<close>

lemma append_accepted:
  assumes "check_outcome a = Inr checked" "outcome_decision a s = Inr d"
    and "oa_event_type a = Some et" "strip et \<noteq> []" "length (strip et) \<le> 64"
    and "oa_idempotency_key a = Some k" "strip k = k" "k \<noteq> []" "length k \<le> 160"
    and "get_outcome_event_by_idempotency_key k s = None"
    and "oa_playbook_step_index a = None" "oa_provider a = None" "oa_adapter_name a = None"
  shows "\<exists>e t. append_outcome_event clk a s = (Inr e, t) \<and> soar_response_decisions t = soar_response_decisions s \<and>
    soar_response_outcome_events t = soar_response_outcome_events s @ [e] \<and> oe_idempotency_key e = Some k"
proof -
  let ?e = "new_outcome_event clk a (outcome_seq s) d (strip et) (Some k) checked"
  have et: "et \<noteq> []" using assms(4) by auto
  have key: "oe_idempotency_key ?e = Some k" by (simp add: new_outcome_event_def split: prod.splits)
  have free: "\<not> (\<exists>x \<in> set (soar_response_outcome_events s). oe_idempotency_key x = oe_idempotency_key ?e)"
    using assms(10) by (auto simp: get_outcome_event_by_idempotency_key_def fetchone_None filter_empty_conv key)
  have fits: "event_fits ?e"
    using assms(5,9,12,13) by (simp add: event_fits_def new_outcome_event_def coalesce_def split: prod.splits)
  have "append_outcome_event clk a s = insert_outcome_event ?e s"
    using assms et by (simp add: append_outcome_event_def negative_index_def)
  also have "\<dots> = (Inr ?e, s\<lparr>outcome_seq := outcome_seq s + 1,
      soar_response_outcome_events := soar_response_outcome_events s @ [?e]\<rparr>)"
    using fits free by (simp add: insert_outcome_event_def Let_def)
  finally show ?thesis using key by simp
qed

lemma check_accepted:
  assumes "oa_execution_mode a \<in> set EXECUTION_MODES" "oa_execution_state a \<in> set EXECUTION_STATES"
    "oa_execution_actor a \<in> set EXECUTION_ACTORS" "reason_ok (oa_reason_code a)" "strip (oa_outcome_summary a) \<noteq> []"
    "oa_decision_id a = Some i"
    "validate_outcome_booleans (oa_execution_mode a) (oa_execution_state a) (oa_external_executed a)
      (oa_tracking_recorded a) (oa_simulated a) = Inr ()"
  shows "check_outcome a = Inr (oa_execution_mode a, oa_execution_state a, oa_execution_actor a, oa_reason_code a)"
  using assms words_stripped more_words_stripped reason_accepted [OF assms(4)]
  by (simp add: check_outcome_def validate_execution_mode_def validate_execution_state_def
      validate_execution_actor_def validate_in_def)

lemma decision_found: "x \<in> set (soar_response_decisions s) \<Longrightarrow> rd_id x = i \<Longrightarrow> \<exists>d. fetch_decision_by_id i s = Some d"
  unfolding fetch_decision_by_id_def using select_id_None [of rd_id i "soar_response_decisions s"] by fastforce

lemma append_or_get_total:
  assumes "storable m" "\<exists>x \<in> set (soar_response_decisions s). rd_id x = fst d"
  obtains e b t where "append_or_get_event clk m d s = (Inr (e, b), t)"
    "soar_response_decisions t = soar_response_decisions s"
proof (cases "get_outcome_event_by_idempotency_key (event_key m) s")
  case (Some e)
  then show thesis by (intro that [of "oe_id e" False s]) (simp_all add: append_or_get_event_def append_unless_known_def)
next
  case None
  let ?a = "event_for m d"
  obtain dec where dec: "fetch_decision_by_id (fst d) s = Some dec" using assms(2) decision_found by blast
  have chk: "check_outcome ?a = Inr (oa_execution_mode ?a, oa_execution_state ?a, oa_execution_actor ?a, oa_reason_code ?a)"
    using assms(1)
    by (intro check_accepted) (auto simp: event_for_def outcome_args0_def storable_def mapping_ok_def known_state_def)
  have "strip ''legacy_backfill'' = ''legacy_backfill''" by code_simp
  then have "\<exists>e t. append_outcome_event clk ?a s = (Inr e, t) \<and> soar_response_decisions t = soar_response_decisions s \<and>
    soar_response_outcome_events t = soar_response_outcome_events s @ [e] \<and> oe_idempotency_key e = Some (event_key m)"
    using storable_key [OF assms(1)] None dec
    by (intro append_accepted [OF chk, where d = dec and et = "''legacy_backfill''"])
      (simp_all add: event_for_def outcome_args0_def outcome_decision_def)
  then show thesis using None that by (auto simp: append_or_get_event_def append_unless_known_def)
qed

subsection \<open>What is linked\<close>

text \<open>The row that a mapping was inferred from has a decision.\<close>

definition settled :: "LegacyMapping \<Rightarrow> legacy_db \<Rightarrow> bool" where
  "settled m s \<longleftrightarrow>
     (lm_source_table m = ''response_actions_queue'' \<longrightarrow>
        (\<forall>q \<in> set (response_actions_queue (lg_queue s)). lm_queue_id m = Some (q_id q) \<longrightarrow> q_decision_id q \<noteq> None)) \<and>
     (lm_source_table m = ''response_actions_log'' \<longrightarrow>
        (\<forall>l \<in> set (response_actions_log (lg_commands s)).
           lm_response_action_log_id m = Some (lg_id l) \<longrightarrow> lg_decision_id l \<noteq> None)) \<and>
     (lm_source_table m = ''playbook_executions'' \<longrightarrow>
        (\<forall>x \<in> set (playbook_executions (lg_executions s)).
           lm_playbook_execution_id m = Some (ex_id x) \<longrightarrow> ex_decision_id x \<noteq> None)) \<and>
     (lm_source_table m = ''approval_requests'' \<longrightarrow>
        (\<forall>r \<in> set (approval_requests (lg_approvals s)).
           lm_approval_request_id m = Some (ar_id r) \<longrightarrow> fst (lg_approval_links s (ar_id r)) \<noteq> None)) \<and>
     (lm_source_table m = ''notification_delivery_attempts'' \<longrightarrow>
        (\<forall>a \<in> set (lg_attempts s). lm_delivery_attempt_id m = Some (nd_id a) \<longrightarrow> nd_decision_id a \<noteq> None))"

lemma coalesce_opt_not_None: "coalesce_opt a (Some x) \<noteq> None"
  by (cases a) simp_all

lemma link_total:
  obtains b t where "link_legacy_row m d s = (Inr b, t)" "lg_outcomes t = lg_outcomes s"
proof -
  have one: "\<exists>b t. link i d s = (Inr b, t) \<and> lg_outcomes t = lg_outcomes s"
    if "link \<in> {link_queue, link_log, link_execution, link_approval, link_attempt}" for link i
    using that by (auto simp: link_queue_def link_log_def link_execution_def link_approval_def link_attempt_def Let_def)
  have "\<exists>b t. link_by link i d s = (Inr b, t) \<and> lg_outcomes t = lg_outcomes s"
    if "link \<in> {link_queue, link_log, link_execution, link_approval, link_attempt}" for link i
  proof (cases i)
    case None
    then have "link_by link i d s = (Inr False, s)" by (simp add: link_by_def ret_def)
    then show ?thesis by blast
  next
    case (Some x)
    then show ?thesis using one [OF that] by (simp add: link_by_def)
  qed
  then have "\<exists>b t. link_legacy_row m d s = (Inr b, t) \<and> lg_outcomes t = lg_outcomes s"
    unfolding link_legacy_row_def by (auto simp: ret_def)
  then show thesis using that by blast
qed

lemma link_row_of:
  "lm_source_table m = ''response_actions_queue'' \<Longrightarrow> link_legacy_row m d = link_by link_queue (lm_queue_id m) d"
  "lm_source_table m = ''response_actions_log'' \<Longrightarrow> link_legacy_row m d = link_by link_log (lm_response_action_log_id m) d"
  "lm_source_table m = ''playbook_executions'' \<Longrightarrow>
     link_legacy_row m d = link_by link_execution (lm_playbook_execution_id m) d"
  "lm_source_table m = ''approval_requests'' \<Longrightarrow> link_legacy_row m d = link_by link_approval (lm_approval_request_id m) d"
  "lm_source_table m = ''notification_delivery_attempts'' \<Longrightarrow>
     link_legacy_row m d = link_by link_attempt (lm_delivery_attempt_id m) d"
  by (simp_all add: link_legacy_row_def)

lemma updated_linked:
  assumes "r' \<in> set (update_where (\<lambda>r. key r = i \<and> half_linked (dec r) (cor r)) f t)" "key r' = i"
    "\<And>r. dec (f r) = coalesce_opt (dec r) (Some d)" "\<And>r. key (f r) = key r"
  shows "dec r' \<noteq> None"
proof -
  from assms(1) consider r where "r \<in> set t" "r' = f r" | "r' \<in> set t" "\<not> (key r' = i \<and> half_linked (dec r') (cor r'))"
    unfolding set_update_where by blast
  then show ?thesis
  proof cases
    case 1
    then show ?thesis using assms(3) coalesce_opt_not_None by metis
  next
    case 2
    then show ?thesis using assms(2) by (simp add: half_linked_def)
  qed
qed

lemma link_tables:
  "response_actions_queue (lg_queue (snd (link_queue i d s))) =
     update_where (\<lambda>r. q_id r = i \<and> half_linked (q_decision_id r) (q_soar_correlation_id r))
       (\<lambda>r. r\<lparr>q_decision_id := coalesce_opt (q_decision_id r) (Some (fst d)),
              q_soar_correlation_id := coalesce_opt (q_soar_correlation_id r) (Some (snd d))\<rparr>)
       (response_actions_queue (lg_queue s))"
  "response_actions_log (lg_commands (snd (link_log i d s))) =
     update_where (\<lambda>r. lg_id r = i \<and> half_linked (lg_decision_id r) (lg_soar_correlation_id r))
       (\<lambda>r. r\<lparr>lg_decision_id := coalesce_opt (lg_decision_id r) (Some (fst d)),
              lg_soar_correlation_id := coalesce_opt (lg_soar_correlation_id r) (Some (snd d))\<rparr>)
       (response_actions_log (lg_commands s))"
  "playbook_executions (lg_executions (snd (link_execution i d s))) =
     update_where (\<lambda>r. ex_id r = i \<and> half_linked (ex_decision_id r) (ex_soar_correlation_id r))
       (\<lambda>r. r\<lparr>ex_decision_id := coalesce_opt (ex_decision_id r) (Some (fst d)),
              ex_soar_correlation_id := coalesce_opt (ex_soar_correlation_id r) (Some (snd d))\<rparr>)
       (playbook_executions (lg_executions s))"
  "lg_attempts (snd (link_attempt i d s)) =
     update_where (\<lambda>r. nd_id r = i \<and> half_linked (nd_decision_id r) (nd_soar_correlation_id r))
       (\<lambda>r. r\<lparr>nd_decision_id := coalesce_opt (nd_decision_id r) (Some (fst d)),
              nd_soar_correlation_id := coalesce_opt (nd_soar_correlation_id r) (Some (snd d))\<rparr>) (lg_attempts s)"
  by (simp_all add: link_queue_def link_log_def link_execution_def link_attempt_def Let_def)

lemma links_settle:
  "q \<in> set (response_actions_queue (lg_queue (snd (link_queue i d s)))) \<Longrightarrow> q_id q = i \<Longrightarrow> q_decision_id q \<noteq> None"
  "l \<in> set (response_actions_log (lg_commands (snd (link_log i d s)))) \<Longrightarrow> lg_id l = i \<Longrightarrow> lg_decision_id l \<noteq> None"
  "x \<in> set (playbook_executions (lg_executions (snd (link_execution i d s)))) \<Longrightarrow> ex_id x = i \<Longrightarrow> ex_decision_id x \<noteq> None"
  "a \<in> set (lg_attempts (snd (link_attempt i d s))) \<Longrightarrow> nd_id a = i \<Longrightarrow> nd_decision_id a \<noteq> None"
  unfolding link_tables
  subgoal by (erule (1) updated_linked [where key = q_id and dec = q_decision_id and d = "fst d"]) simp_all
  subgoal by (erule (1) updated_linked [where key = lg_id and dec = lg_decision_id and d = "fst d"]) simp_all
  subgoal by (erule (1) updated_linked [where key = ex_id and dec = ex_decision_id and d = "fst d"]) simp_all
  subgoal by (erule (1) updated_linked [where key = nd_id and dec = nd_decision_id and d = "fst d"]) simp_all
  done

lemma link_approval_settles:
  assumes "r \<in> set (approval_requests (lg_approvals (snd (link_approval (ar_id r) d s))))"
  shows "fst (lg_approval_links (snd (link_approval (ar_id r) d s)) (ar_id r)) \<noteq> None"
proof -
  have "r \<in> set (approval_requests (lg_approvals s))" using assms by (simp add: link_approval_def Let_def split: if_split_asm)
  then have "list_ex (\<lambda>r'. ar_id r' = ar_id r) (approval_requests (lg_approvals s))" by (auto simp: list_ex_iff)
  then show ?thesis
    by (cases "fst (lg_approval_links s (ar_id r))"; cases "snd (lg_approval_links s (ar_id r))")
      (simp_all add: link_approval_def Let_def half_linked_def)
qed

lemma link_settles:
  assumes "link_legacy_row m d s = (r, t)"
  shows "settled m t"
proof -
  have t: "t = snd (link_legacy_row m d s)" using assms by simp
  show ?thesis
    unfolding settled_def
  proof (intro conjI impI ballI)
    fix q assume "lm_source_table m = ''response_actions_queue''" "q \<in> set (response_actions_queue (lg_queue t))"
      "lm_queue_id m = Some (q_id q)"
    then show "q_decision_id q \<noteq> None" using links_settle(1) by (simp add: t link_row_of link_by_def)
  next
    fix l assume "lm_source_table m = ''response_actions_log''" "l \<in> set (response_actions_log (lg_commands t))"
      "lm_response_action_log_id m = Some (lg_id l)"
    then show "lg_decision_id l \<noteq> None" using links_settle(2) by (simp add: t link_row_of link_by_def)
  next
    fix x assume "lm_source_table m = ''playbook_executions''" "x \<in> set (playbook_executions (lg_executions t))"
      "lm_playbook_execution_id m = Some (ex_id x)"
    then show "ex_decision_id x \<noteq> None" using links_settle(3) by (simp add: t link_row_of link_by_def)
  next
    fix r assume "lm_source_table m = ''approval_requests''" "r \<in> set (approval_requests (lg_approvals t))"
      "lm_approval_request_id m = Some (ar_id r)"
    then show "fst (lg_approval_links t (ar_id r)) \<noteq> None" using link_approval_settles by (simp add: t link_row_of link_by_def)
  next
    fix a assume "lm_source_table m = ''notification_delivery_attempts''" "a \<in> set (lg_attempts t)"
      "lm_delivery_attempt_id m = Some (nd_id a)"
    then show "nd_decision_id a \<noteq> None" using links_settle(4) by (simp add: t link_row_of link_by_def)
  qed
qed

lemma linked_like_back:
  assumes "linked_like dec cor rest t t'" "r' \<in> set t'"
  shows "\<exists>r \<in> set t. rest r' = rest r \<and> (dec r \<noteq> None \<longrightarrow> dec r' = dec r)"
  using assms unfolding linked_like_def by (induction rule: list_all2_induct) auto

lemma id_of_rest:
  "q_id (unlinked q) = q_id q" "lg_id (log_rest l) = lg_id l" "ex_id (execution_rest x) = ex_id x"
  "nd_id (attempt_rest a) = nd_id a"
  by (simp_all add: unlinked_def log_rest_def execution_rest_def attempt_rest_def)

lemma rest_ids:
  "unlinked q' = unlinked q \<Longrightarrow> q_id q' = q_id q" "log_rest l' = log_rest l \<Longrightarrow> lg_id l' = lg_id l"
  "execution_rest x' = execution_rest x \<Longrightarrow> ex_id x' = ex_id x" "attempt_rest a' = attempt_rest a \<Longrightarrow> nd_id a' = nd_id a"
  by (metis id_of_rest)+

lemma settledD:
  assumes "settled m s"
  shows "lm_source_table m = ''response_actions_queue'' \<Longrightarrow> q \<in> set (response_actions_queue (lg_queue s)) \<Longrightarrow>
      lm_queue_id m = Some (q_id q) \<Longrightarrow> q_decision_id q \<noteq> None"
    and "lm_source_table m = ''response_actions_log'' \<Longrightarrow> l \<in> set (response_actions_log (lg_commands s)) \<Longrightarrow>
      lm_response_action_log_id m = Some (lg_id l) \<Longrightarrow> lg_decision_id l \<noteq> None"
    and "lm_source_table m = ''playbook_executions'' \<Longrightarrow> x \<in> set (playbook_executions (lg_executions s)) \<Longrightarrow>
      lm_playbook_execution_id m = Some (ex_id x) \<Longrightarrow> ex_decision_id x \<noteq> None"
    and "lm_source_table m = ''approval_requests'' \<Longrightarrow> r \<in> set (approval_requests (lg_approvals s)) \<Longrightarrow>
      lm_approval_request_id m = Some (ar_id r) \<Longrightarrow> fst (lg_approval_links s (ar_id r)) \<noteq> None"
    and "lm_source_table m = ''notification_delivery_attempts'' \<Longrightarrow> a \<in> set (lg_attempts s) \<Longrightarrow>
      lm_delivery_attempt_id m = Some (nd_id a) \<Longrightarrow> nd_decision_id a \<noteq> None"
  using assms unfolding settled_def by blast+

lemma linked_like_some:
  assumes "linked_like dec cor rest t t'" "r' \<in> set t'" "\<And>r. r \<in> set t \<Longrightarrow> rest r' = rest r \<Longrightarrow> dec r \<noteq> None"
  shows "dec r' \<noteq> None"
  using linked_like_back [OF assms(1,2)] assms(3) by metis

lemma settled_kept:
  assumes m: "backfill_moves s t" and st: "settled m s"
  shows "settled m t"
proof -
  note b = m [unfolded backfill_moves_def]
  note old = settledD [OF st]
  show ?thesis
    unfolding settled_def
  proof (intro conjI impI ballI)
    fix q assume q: "lm_source_table m = ''response_actions_queue''" "q \<in> set (response_actions_queue (lg_queue t))"
      "lm_queue_id m = Some (q_id q)"
    show "q_decision_id q \<noteq> None"
      using b [THEN conjunct2, THEN conjunct1] q(2) by (rule linked_like_some) (use old(1) q(1,3) rest_ids(1) in metis)
  next
    fix l assume l: "lm_source_table m = ''response_actions_log''" "l \<in> set (response_actions_log (lg_commands t))"
      "lm_response_action_log_id m = Some (lg_id l)"
    show "lg_decision_id l \<noteq> None"
      using b [THEN conjunct2, THEN conjunct2, THEN conjunct1] l(2)
      by (rule linked_like_some) (use old(2) l(1,3) rest_ids(2) in metis)
  next
    fix x assume x: "lm_source_table m = ''playbook_executions''" "x \<in> set (playbook_executions (lg_executions t))"
      "lm_playbook_execution_id m = Some (ex_id x)"
    show "ex_decision_id x \<noteq> None"
      using b [THEN conjunct2, THEN conjunct2, THEN conjunct2, THEN conjunct1] x(2)
      by (rule linked_like_some) (use old(3) x(1,3) rest_ids(3) in metis)
  next
    fix r assume r: "lm_source_table m = ''approval_requests''" "r \<in> set (approval_requests (lg_approvals t))"
      "lm_approval_request_id m = Some (ar_id r)"
    have "lg_approvals t = lg_approvals s" using b by blast
    then have "fst (lg_approval_links s (ar_id r)) \<noteq> None" using r by (intro old(4)) simp_all
    moreover have "fst (lg_approval_links s (ar_id r)) \<noteq> None \<longrightarrow>
        fst (lg_approval_links t (ar_id r)) = fst (lg_approval_links s (ar_id r))" using b by blast
    ultimately show "fst (lg_approval_links t (ar_id r)) \<noteq> None" by simp
  next
    fix a assume a: "lm_source_table m = ''notification_delivery_attempts''" "a \<in> set (lg_attempts t)"
      "lm_delivery_attempt_id m = Some (nd_id a)"
    show "nd_decision_id a \<noteq> None"
      using b [THEN conjunct2, THEN conjunct2, THEN conjunct2, THEN conjunct2, THEN conjunct1] a(2)
      by (rule linked_like_some) (use old(5) a(1,3) rest_ids(4) in metis)
  qed
qed

text \<open>Mappings that can be stored are all stored, and what they came from is linked at the end.\<close>

definition decisions_there :: "legacy_db \<Rightarrow> bool" where
  "decisions_there s \<longleftrightarrow>
     (\<forall>x \<in> set (playbook_executions (lg_executions s)). \<forall>i. ex_decision_id x = Some i \<longrightarrow>
        (\<exists>d \<in> set (soar_response_decisions (lg_outcomes s)). rd_id d = i))"

lemma link_there:
  assumes "link_legacy_row m d s = (r, t)"
  shows "lg_audit t = lg_audit s"
    "x \<in> set (playbook_executions (lg_executions t)) \<Longrightarrow> ex_decision_id x = Some i \<Longrightarrow>
       i = fst d \<or> (\<exists>x0 \<in> set (playbook_executions (lg_executions s)). ex_decision_id x0 = Some i)"
proof -
  define P where "P u \<longleftrightarrow> lg_audit u = lg_audit s \<and> (\<forall>x \<in> set (playbook_executions (lg_executions u)).
      \<forall>i. ex_decision_id x = Some i \<longrightarrow> i = fst d \<or> (\<exists>x0 \<in> set (playbook_executions (lg_executions s)). ex_decision_id x0 = Some i))"
    for u :: legacy_db
  have same: "P s" by (auto simp: P_def)
  have other: "P (snd (link_queue k d s))" "P (snd (link_log k d s))" "P (snd (link_approval k d s))"
    "P (snd (link_attempt k d s))" for k
    by (auto simp: P_def link_queue_def link_log_def link_approval_def link_attempt_def Let_def)
  have ex: "P (snd (link_execution k d s))" for k
    unfolding P_def link_tables set_update_where
    by (auto simp: link_execution_def Let_def coalesce_opt_def split: option.splits)
  have each: "P (snd (link_by link k d s))" if "\<And>k. P (snd (link k d s))" for link k
    using that same by (cases k) (simp_all add: link_by_def ret_def)
  have branch: "P (snd (f s)) \<Longrightarrow> P (snd (g s)) \<Longrightarrow> P (snd ((if b then f else g) s))"
    for f g :: "(legacy_db, bool) py" and b by simp
  have "P (snd (link_legacy_row m d s))"
    unfolding link_legacy_row_def by (intro branch each other ex) (simp add: ret_def same)
  then have "P t" using assms by simp
  then show "lg_audit t = lg_audit s"
    "x \<in> set (playbook_executions (lg_executions t)) \<Longrightarrow> ex_decision_id x = Some i \<Longrightarrow>
       i = fst d \<or> (\<exists>x0 \<in> set (playbook_executions (lg_executions s)). ex_decision_id x0 = Some i)"
    by (auto simp: P_def)
qed

lemma apply_mapping_total:
  assumes "storable m" "outcome_inv (lg_outcomes s)"
  shows "\<exists>r' t. apply_mapping uuid clk m r s = (Inr r', t) \<and> settled m t \<and> lg_audit t = lg_audit s \<and>
    (decisions_there s \<longrightarrow> decisions_there t)"
proof -
  obtain d b o1 where 1: "create_or_get_decision uuid clk m (lg_outcomes s) = (Inr (d, b), o1)"
      "\<exists>x \<in> set (soar_response_decisions o1). rd_id x = fst d"
    using assms(1) by (rule create_or_get_total)
  have grow: "set (soar_response_decisions (lg_outcomes s)) \<subseteq> set (soar_response_decisions o1)"
    using create_or_get_safe [OF assms(2), of uuid clk m] 1(1)
    by (auto simp: outcome_grows_def dest: set_mono_prefix)
  let ?s1 = "s\<lparr>lg_commands := (lg_commands s)\<lparr>cmd_outcomes := o1\<rparr>\<rparr>"
  obtain e b2 o2 where 2: "append_or_get_event clk m d o1 = (Inr (e, b2), o2)"
      "soar_response_decisions o2 = soar_response_decisions o1"
    using append_or_get_total [OF assms(1) 1(2)] by metis
  define s2 where "s2 = ?s1\<lparr>lg_commands := (lg_commands ?s1)\<lparr>cmd_outcomes := o2\<rparr>\<rparr>"
  obtain b3 t where 3: "link_legacy_row m d s2 = (Inr b3, t)" "lg_outcomes t = lg_outcomes s2" by (rule link_total)
  have "apply_mapping uuid clk m r s = (Inr (count_mapping m b b2 b3 r), t)"
    using storable_not_skipped [OF assms(1)] 1(1) 2(1) 3(1) by (simp add: apply_mapping_def in_lg_outcomes_def ret_def s2_def)
  moreover have "decisions_there t" if "decisions_there s"
    unfolding decisions_there_def
  proof (intro ballI allI impI)
    fix x i assume x: "x \<in> set (playbook_executions (lg_executions t))" "ex_decision_id x = Some i"
    have o: "soar_response_decisions (lg_outcomes t) = soar_response_decisions o1" using 2(2) 3(2) by (simp add: s2_def)
    from link_there(2) [OF 3(1) x] show "\<exists>d \<in> set (soar_response_decisions (lg_outcomes t)). rd_id d = i"
    proof
      assume "i = fst d"
      then show ?thesis using 1(2) by (simp add: o)
    next
      assume "\<exists>x0 \<in> set (playbook_executions (lg_executions s2)). ex_decision_id x0 = Some i"
      then have "\<exists>d \<in> set (soar_response_decisions (lg_outcomes s)). rd_id d = i"
        using that by (auto simp: decisions_there_def s2_def)
      then show ?thesis using grow by (auto simp: o)
    qed
  qed
  moreover have "lg_audit t = lg_audit s" using link_there(1) [OF 3(1)] by (simp add: s2_def)
  ultimately show ?thesis using link_settles [OF 3(1)] by blast
qed

lemma keepsI:
  "keeps_backfill p \<Longrightarrow> p s = (r, t) \<Longrightarrow> outcome_inv (lg_outcomes s) \<Longrightarrow> outcome_inv (lg_outcomes t) \<and> backfill_moves s t"
  unfolding keeps_def by (metis snd_conv)

lemma apply_mappings_total:
  assumes "list_all storable ms" "outcome_inv (lg_outcomes s)"
  shows "\<exists>r' t. apply_mappings uuid clk ms r s = (Inr r', t) \<and> (\<forall>m \<in> set ms. settled m t) \<and> lg_audit t = lg_audit s \<and>
    (decisions_there s \<longrightarrow> decisions_there t)"
  using assms
proof (induction ms arbitrary: r s)
  case Nil
  then show ?case by (simp add: ret_def)
next
  case (Cons m ms)
  then obtain r1 t1 where 1: "apply_mapping uuid clk m r s = (Inr r1, t1)" "settled m t1" "lg_audit t1 = lg_audit s"
      "decisions_there s \<longrightarrow> decisions_there t1"
    using apply_mapping_total [of m s uuid clk r] by auto
  have inv: "outcome_inv (lg_outcomes t1)" using keepsI [OF keeps_apply_mapping 1(1) Cons.prems(2)] by blast
  obtain r2 t2 where 2: "apply_mappings uuid clk ms r1 t1 = (Inr r2, t2)" "\<forall>m \<in> set ms. settled m t2"
      "lg_audit t2 = lg_audit t1" "decisions_there t1 \<longrightarrow> decisions_there t2"
    using Cons.IH [of t1 r1] Cons.prems(1) inv by auto
  have "settled m t2" using keepsI [OF keeps_apply_mappings 2(1) inv] settled_kept 1(2) by blast
  then show ?case using 1 2 by simp
qed

subsection \<open>Data that can be backfilled\<close>

text \<open>Ids as a \<open>SERIAL\<close> column gives them; no text that is blank but not empty; no refused execution
  among the unlinked ones, and attempts whose status codes can be read.\<close>

definition rows_ready :: "legacy_env \<Rightarrow> legacy_db \<Rightarrow> bool" where
  "rows_ready env s \<longleftrightarrow>
     (\<forall>q \<in> set (response_actions_queue (lg_queue s)).
        serial_id (q_id q) \<and> strip (q_action q) \<noteq> [] \<and> text_ok (q_last_error q)) \<and>
     (\<forall>l \<in> set (response_actions_log (lg_commands s)).
        serial_id (lg_id l) \<and> strip (lg_action l) \<noteq> [] \<and> text_ok (lg_details l)) \<and>
     (\<forall>x \<in> set (playbook_executions (lg_executions s)).
        serial_id (ex_id x) \<and> strip (ex_playbook_id x) \<noteq> [] \<and> text_ok (ex_failure_reason x) \<and>
        (ex_decision_id x = None \<longrightarrow>
           ex_status x \<noteq> ENotActioned \<and> (\<exists>c. real_notification_confirmed env s (ex_id x) = Inr c))) \<and>
     (\<forall>r \<in> set (approval_requests (lg_approvals s)).
        serial_id (ar_id r) \<and> strip (ar_action r) \<noteq> [] \<and> text_ok (ar_request_reason r)) \<and>
     (\<forall>a \<in> set (lg_attempts s).
        serial_id (nd_id a) \<and> strip (nd_action a) \<noteq> [] \<and> text_ok (nd_failure_message a))"

definition all_linked :: "legacy_db \<Rightarrow> bool" where
  "all_linked s \<longleftrightarrow>
     (\<forall>q \<in> set (response_actions_queue (lg_queue s)). q_decision_id q \<noteq> None) \<and>
     (\<forall>l \<in> set (response_actions_log (lg_commands s)). lg_decision_id l \<noteq> None) \<and>
     (\<forall>x \<in> set (playbook_executions (lg_executions s)). ex_decision_id x \<noteq> None) \<and>
     (\<forall>r \<in> set (approval_requests (lg_approvals s)). fst (lg_approval_links s (ar_id r)) \<noteq> None) \<and>
     (\<forall>a \<in> set (lg_attempts s). nd_decision_id a \<noteq> None)"

lemma legacy_of_total:
  assumes "t \<in> set LEGACY_TABLES" "serial_id i"
  shows "\<exists>m. legacy_of t i a src f = Inr m"
  using legacy_id_total [OF assms] by (simp add: legacy_of_def)

lemma tables: "''response_actions_queue'' \<in> set LEGACY_TABLES" "''response_actions_log'' \<in> set LEGACY_TABLES"
  "''playbook_executions'' \<in> set LEGACY_TABLES" "''approval_requests'' \<in> set LEGACY_TABLES"
  "''notification_delivery_attempts'' \<in> set LEGACY_TABLES"
  by (simp_all add: LEGACY_TABLES_def)

text \<open>A mapping for a row, that can be stored and points back to the row.\<close>

definition stores :: "LegacyMapping result \<Rightarrow> string \<Rightarrow> (LegacyMapping \<Rightarrow> row_id option) \<Rightarrow> row_id \<Rightarrow> bool" where
  "stores given table col i \<longleftrightarrow>
     (\<exists>m. given = Inr m \<and> storable m \<and> lm_source_table m = table \<and> col m = Some i)"

lemma storesI:
  assumes "given = Inr m" "mapping_ok m" "finishes b m" "lm_selected_action b = Some action" "strip action \<noteq> []"
    "lm_proposed_decision b" "lm_source_table b = table" "table \<in> set LEGACY_TABLES" "serial_id (lm_source_id b)"
    "identity b = identity m \<Longrightarrow> col m = Some i"
  shows "stores given table col i"
proof -
  have id: "identity m = identity b" using assms(3) by (simp add: finishes_def)
  then have "lm_source_table m = table" using assms(7) by (simp add: identity_def)
  moreover have "storable m" using assms by (intro storableI [OF assms(3,2,4,5,6)]) simp_all
  ultimately show ?thesis unfolding stores_def using assms(1,10) id by auto
qed

lemma queue_stores:
  assumes "serial_id (q_id q)" "strip (q_action q) \<noteq> []" "text_ok (q_last_error q)"
  shows "stores (infer_queue q) ''response_actions_queue'' lm_queue_id (q_id q)"
proof -
  obtain m where m: "infer_queue q = Inr m"
    unfolding infer_queue_def infer_queue_legacy_outcome_def using legacy_of_total [OF tables(1) assms(1)] by metis
  have ok: "mapping_ok m" using m unfolding infer_queue_def by (rule infer_queue_ok)
  show ?thesis
    by (rule finish_queue [OF m assms(3)], rule storesI [OF m ok], assumption)
      (use assms tables in \<open>auto simp: identity_def\<close>)
qed

lemma log_stores:
  assumes "serial_id (lg_id l)" "strip (lg_action l) \<noteq> []" "text_ok (lg_details l)"
  shows "stores (infer_log s l) ''response_actions_log'' lm_response_action_log_id (lg_id l)"
proof -
  obtain m where m: "infer_log s l = Inr m"
    unfolding infer_log_def infer_response_log_legacy_outcome_def using legacy_of_total [OF tables(2) assms(1)] by metis
  have ok: "mapping_ok m" using m unfolding infer_log_def by (rule infer_log_ok)
  show ?thesis
    by (rule finish_log [OF m assms(3)], rule storesI [OF m ok], assumption)
      (use assms tables in \<open>auto simp: identity_def\<close>)
qed

lemma execution_stores:
  assumes "serial_id (ex_id x)" "strip (ex_playbook_id x) \<noteq> []" "text_ok (ex_failure_reason x)"
    "ex_status x \<noteq> ENotActioned"
  shows "stores (infer_execution env c x) ''playbook_executions'' lm_playbook_execution_id (ex_id x)"
proof -
  obtain m where m: "infer_execution env c x = Inr m"
    unfolding infer_execution_def infer_playbook_execution_legacy_outcome_def
    using legacy_of_total [OF tables(3) assms(1)] by metis
  have ok: "mapping_ok m" using m unfolding infer_execution_def by (rule infer_playbook_ok)
  show ?thesis
    by (rule finish_execution [OF m assms(3,4)], rule storesI [OF m ok], assumption)
      (use assms tables in \<open>auto simp: identity_def\<close>)
qed

lemma approval_stores:
  assumes "serial_id (ar_id r)" "strip (ar_action r) \<noteq> []" "text_ok (ar_request_reason r)"
  shows "stores (infer_approval s r) ''approval_requests'' lm_approval_request_id (ar_id r)"
proof -
  obtain m where m: "infer_approval s r = Inr m"
    unfolding infer_approval_def infer_approval_request_legacy_outcome_def
    using legacy_of_total [OF tables(4) assms(1)] by metis
  have ok: "mapping_ok m" using m unfolding infer_approval_def by (rule infer_approval_ok)
  show ?thesis
    by (rule finish_approval [OF m assms(3)], rule storesI [OF m ok], assumption)
      (use assms tables in \<open>auto simp: identity_def\<close>)
qed

lemma delivery_stores:
  assumes "serial_id (nd_id a)" "strip (nd_action a) \<noteq> []" "text_ok (nd_failure_message a)"
  shows "stores (infer_notification_delivery_legacy_outcome env a) ''notification_delivery_attempts''
    lm_delivery_attempt_id (nd_id a)"
proof -
  obtain m where m: "infer_notification_delivery_legacy_outcome env a = Inr m"
    unfolding infer_notification_delivery_legacy_outcome_def using legacy_of_total [OF tables(5) assms(1)] by metis
  have ok: "mapping_ok m" using m by (rule infer_delivery_ok)
  show ?thesis
    by (rule finish_delivery [OF m assms(3)], rule storesI [OF m ok], assumption)
      (use assms tables in \<open>auto simp: identity_def\<close>)
qed

lemma mappings_of_total:
  assumes "\<And>r. r \<in> set rs \<Longrightarrow> done_already r \<and> f r = None \<or> \<not> done_already r \<and> (\<exists>g. f r = Some g \<and> stores g table col (key r))"
  shows "\<exists>ms. mappings_of f rs = Inr ms \<and> list_all storable ms \<and>
    (\<forall>r \<in> set rs. \<not> done_already r \<longrightarrow> (\<exists>m \<in> set ms. lm_source_table m = table \<and> col m = Some (key r)))"
  using assms
proof (induction rs)
  case (Cons r rs)
  then obtain ms where ms: "mappings_of f rs = Inr ms" "list_all storable ms"
      "\<forall>r \<in> set rs. \<not> done_already r \<longrightarrow> (\<exists>m \<in> set ms. lm_source_table m = table \<and> col m = Some (key r))"
    by auto
  from Cons.prems [of r] show ?case
    using ms by (auto simp: stores_def)
qed simp

text \<open>Every row that is not linked has its mapping among the mappings.\<close>

lemma legacy_mappings_total:
  assumes "rows_ready env s"
  shows "\<exists>ms. legacy_mappings env s = Inr ms \<and> list_all storable ms \<and>
    (\<forall>q \<in> set (response_actions_queue (lg_queue s)). q_decision_id q = None \<longrightarrow>
       (\<exists>m \<in> set ms. lm_source_table m = ''response_actions_queue'' \<and> lm_queue_id m = Some (q_id q))) \<and>
    (\<forall>l \<in> set (response_actions_log (lg_commands s)). lg_decision_id l = None \<longrightarrow>
       (\<exists>m \<in> set ms. lm_source_table m = ''response_actions_log'' \<and> lm_response_action_log_id m = Some (lg_id l))) \<and>
    (\<forall>x \<in> set (playbook_executions (lg_executions s)). ex_decision_id x = None \<longrightarrow>
       (\<exists>m \<in> set ms. lm_source_table m = ''playbook_executions'' \<and> lm_playbook_execution_id m = Some (ex_id x))) \<and>
    (\<forall>r \<in> set (approval_requests (lg_approvals s)). fst (lg_approval_links s (ar_id r)) = None \<longrightarrow>
       (\<exists>m \<in> set ms. lm_source_table m = ''approval_requests'' \<and> lm_approval_request_id m = Some (ar_id r))) \<and>
    (\<forall>a \<in> set (lg_attempts s). nd_decision_id a = None \<longrightarrow>
       (\<exists>m \<in> set ms. lm_source_table m = ''notification_delivery_attempts'' \<and> lm_delivery_attempt_id m = Some (nd_id a)))"
proof -
  note r = assms [unfolded rows_ready_def]
  have "\<exists>ms. mappings_of plan_queue (order_asc q_id (response_actions_queue (lg_queue s))) = Inr ms \<and>
      list_all storable ms \<and> (\<forall>q \<in> set (order_asc q_id (response_actions_queue (lg_queue s))). \<not> q_decision_id q \<noteq> None \<longrightarrow>
       (\<exists>m \<in> set ms. lm_source_table m = ''response_actions_queue'' \<and> lm_queue_id m = Some (q_id q)))"
    by (rule mappings_of_total) (use r queue_stores in \<open>auto simp: plan_queue_def\<close>)
  then obtain ms1 where 1: "mappings_of plan_queue (order_asc q_id (response_actions_queue (lg_queue s))) = Inr ms1"
      "list_all storable ms1" "\<forall>q \<in> set (response_actions_queue (lg_queue s)). \<not> q_decision_id q \<noteq> None \<longrightarrow>
       (\<exists>m \<in> set ms1. lm_source_table m = ''response_actions_queue'' \<and> lm_queue_id m = Some (q_id q))"
    unfolding set_order by blast
  have "\<exists>ms. mappings_of (plan_log s) (order_asc lg_id (response_actions_log (lg_commands s))) = Inr ms \<and>
      list_all storable ms \<and> (\<forall>l \<in> set (order_asc lg_id (response_actions_log (lg_commands s))). \<not> lg_decision_id l \<noteq> None \<longrightarrow>
       (\<exists>m \<in> set ms. lm_source_table m = ''response_actions_log'' \<and> lm_response_action_log_id m = Some (lg_id l)))"
    by (rule mappings_of_total) (use r log_stores in \<open>auto simp: plan_log_def\<close>)
  then obtain ms2 where 2: "mappings_of (plan_log s) (order_asc lg_id (response_actions_log (lg_commands s))) = Inr ms2"
      "list_all storable ms2" "\<forall>l \<in> set (response_actions_log (lg_commands s)). \<not> lg_decision_id l \<noteq> None \<longrightarrow>
       (\<exists>m \<in> set ms2. lm_source_table m = ''response_actions_log'' \<and> lm_response_action_log_id m = Some (lg_id l))"
    unfolding set_order by blast
  have "\<exists>ms. mappings_of (plan_execution env s) (order_asc ex_id (playbook_executions (lg_executions s))) = Inr ms \<and>
      list_all storable ms \<and> (\<forall>x \<in> set (order_asc ex_id (playbook_executions (lg_executions s))). \<not> ex_decision_id x \<noteq> None \<longrightarrow>
       (\<exists>m \<in> set ms. lm_source_table m = ''playbook_executions'' \<and> lm_playbook_execution_id m = Some (ex_id x)))"
  proof (rule mappings_of_total)
    fix x assume "x \<in> set (order_asc ex_id (playbook_executions (lg_executions s)))"
    then have x: "serial_id (ex_id x)" "strip (ex_playbook_id x) \<noteq> []" "text_ok (ex_failure_reason x)"
        "ex_decision_id x = None \<longrightarrow> ex_status x \<noteq> ENotActioned \<and> (\<exists>c. real_notification_confirmed env s (ex_id x) = Inr c)"
      using r by auto
    show "ex_decision_id x \<noteq> None \<and> plan_execution env s x = None \<or> \<not> ex_decision_id x \<noteq> None \<and>
       (\<exists>g. plan_execution env s x = Some g \<and> stores g ''playbook_executions'' lm_playbook_execution_id (ex_id x))"
    proof (cases "ex_decision_id x = None")
      case True
      then obtain c where "real_notification_confirmed env s (ex_id x) = Inr c" "ex_status x \<noteq> ENotActioned" using x(4) by blast
      then show ?thesis using True execution_stores [OF x(1-3)] by (simp add: plan_execution_def)
    qed (simp add: plan_execution_def)
  qed
  then obtain ms3 where 3: "mappings_of (plan_execution env s) (order_asc ex_id (playbook_executions (lg_executions s))) = Inr ms3"
      "list_all storable ms3" "\<forall>x \<in> set (playbook_executions (lg_executions s)). \<not> ex_decision_id x \<noteq> None \<longrightarrow>
       (\<exists>m \<in> set ms3. lm_source_table m = ''playbook_executions'' \<and> lm_playbook_execution_id m = Some (ex_id x))"
    unfolding set_order by blast
  have "\<exists>ms. mappings_of (plan_approval s) (order_asc ar_id (approval_requests (lg_approvals s))) = Inr ms \<and>
      list_all storable ms \<and> (\<forall>r \<in> set (order_asc ar_id (approval_requests (lg_approvals s))). \<not> fst (lg_approval_links s (ar_id r)) \<noteq> None \<longrightarrow>
       (\<exists>m \<in> set ms. lm_source_table m = ''approval_requests'' \<and> lm_approval_request_id m = Some (ar_id r)))"
    by (rule mappings_of_total) (use r approval_stores in \<open>auto simp: plan_approval_def\<close>)
  then obtain ms4 where 4: "mappings_of (plan_approval s) (order_asc ar_id (approval_requests (lg_approvals s))) = Inr ms4"
      "list_all storable ms4" "\<forall>r \<in> set (approval_requests (lg_approvals s)). \<not> fst (lg_approval_links s (ar_id r)) \<noteq> None \<longrightarrow>
       (\<exists>m \<in> set ms4. lm_source_table m = ''approval_requests'' \<and> lm_approval_request_id m = Some (ar_id r))"
    unfolding set_order by blast
  have "\<exists>ms. mappings_of (old_attempt env) (order_asc nd_id (lg_attempts s)) = Inr ms \<and>
      list_all storable ms \<and> (\<forall>a \<in> set (order_asc nd_id (lg_attempts s)). \<not> nd_decision_id a \<noteq> None \<longrightarrow>
       (\<exists>m \<in> set ms. lm_source_table m = ''notification_delivery_attempts'' \<and> lm_delivery_attempt_id m = Some (nd_id a)))"
    by (rule mappings_of_total) (use r delivery_stores in \<open>auto simp: old_attempt_def\<close>)
  then obtain ms5 where 5: "mappings_of (old_attempt env) (order_asc nd_id (lg_attempts s)) = Inr ms5"
      "list_all storable ms5" "\<forall>a \<in> set (lg_attempts s). \<not> nd_decision_id a \<noteq> None \<longrightarrow>
       (\<exists>m \<in> set ms5. lm_source_table m = ''notification_delivery_attempts'' \<and> lm_delivery_attempt_id m = Some (nd_id a))"
    unfolding set_order by blast
  have "legacy_mappings env s = Inr (ms1 @ ms2 @ ms3 @ ms4 @ ms5)"
    by (simp add: legacy_mappings_def 1(1) 2(1) 3(1) 4(1) 5(1))
  then show ?thesis
    using 1(2,3) 2(2,3) 3(2,3) 4(2,3) 5(2,3)
    by (intro exI [of _ "ms1 @ ms2 @ ms3 @ ms4 @ ms5"] conjI ballI impI) (simp_all, blast+)
qed

lemma all_linked_after:
  assumes moves: "backfill_moves s t"
    and old: "\<forall>q \<in> set (response_actions_queue (lg_queue s)). q_decision_id q = None \<longrightarrow>
       (\<exists>m \<in> set ms. lm_source_table m = ''response_actions_queue'' \<and> lm_queue_id m = Some (q_id q))"
     "\<forall>l \<in> set (response_actions_log (lg_commands s)). lg_decision_id l = None \<longrightarrow>
       (\<exists>m \<in> set ms. lm_source_table m = ''response_actions_log'' \<and> lm_response_action_log_id m = Some (lg_id l))"
     "\<forall>x \<in> set (playbook_executions (lg_executions s)). ex_decision_id x = None \<longrightarrow>
       (\<exists>m \<in> set ms. lm_source_table m = ''playbook_executions'' \<and> lm_playbook_execution_id m = Some (ex_id x))"
     "\<forall>r \<in> set (approval_requests (lg_approvals s)). fst (lg_approval_links s (ar_id r)) = None \<longrightarrow>
       (\<exists>m \<in> set ms. lm_source_table m = ''approval_requests'' \<and> lm_approval_request_id m = Some (ar_id r))"
     "\<forall>a \<in> set (lg_attempts s). nd_decision_id a = None \<longrightarrow>
       (\<exists>m \<in> set ms. lm_source_table m = ''notification_delivery_attempts'' \<and> lm_delivery_attempt_id m = Some (nd_id a))"
    and settled: "\<forall>m \<in> set ms. settled m t"
  shows "all_linked t"
  unfolding all_linked_def
proof (intro conjI ballI)
  note b = moves [unfolded backfill_moves_def]
  fix q assume q: "q \<in> set (response_actions_queue (lg_queue t))"
  obtain q0 where q0: "q0 \<in> set (response_actions_queue (lg_queue s))" "unlinked q = unlinked q0"
      "q_decision_id q0 \<noteq> None \<longrightarrow> q_decision_id q = q_decision_id q0"
    using linked_like_back [OF b [THEN conjunct2, THEN conjunct1] q] by blast
  show "q_decision_id q \<noteq> None"
  proof (cases "q_decision_id q0")
    case None
    then obtain m where "m \<in> set ms" "lm_source_table m = ''response_actions_queue''" "lm_queue_id m = Some (q_id q)"
      using old(1) q0(1) rest_ids(1) [OF q0(2)] by metis
    then show ?thesis using settledD(1) settled q by blast
  qed (use q0(3) in simp)
next
  note b = moves [unfolded backfill_moves_def]
  fix l assume l: "l \<in> set (response_actions_log (lg_commands t))"
  obtain l0 where l0: "l0 \<in> set (response_actions_log (lg_commands s))" "log_rest l = log_rest l0"
      "lg_decision_id l0 \<noteq> None \<longrightarrow> lg_decision_id l = lg_decision_id l0"
    using linked_like_back [OF b [THEN conjunct2, THEN conjunct2, THEN conjunct1] l] by blast
  show "lg_decision_id l \<noteq> None"
  proof (cases "lg_decision_id l0")
    case None
    then obtain m where "m \<in> set ms" "lm_source_table m = ''response_actions_log''" "lm_response_action_log_id m = Some (lg_id l)"
      using old(2) l0(1) rest_ids(2) [OF l0(2)] by metis
    then show ?thesis using settledD(2) settled l by blast
  qed (use l0(3) in simp)
next
  note b = moves [unfolded backfill_moves_def]
  fix x assume x: "x \<in> set (playbook_executions (lg_executions t))"
  obtain x0 where x0: "x0 \<in> set (playbook_executions (lg_executions s))" "execution_rest x = execution_rest x0"
      "ex_decision_id x0 \<noteq> None \<longrightarrow> ex_decision_id x = ex_decision_id x0"
    using linked_like_back [OF b [THEN conjunct2, THEN conjunct2, THEN conjunct2, THEN conjunct1] x] by blast
  show "ex_decision_id x \<noteq> None"
  proof (cases "ex_decision_id x0")
    case None
    then obtain m where "m \<in> set ms" "lm_source_table m = ''playbook_executions''" "lm_playbook_execution_id m = Some (ex_id x)"
      using old(3) x0(1) rest_ids(3) [OF x0(2)] by metis
    then show ?thesis using settledD(3) settled x by blast
  qed (use x0(3) in simp)
next
  note b = moves [unfolded backfill_moves_def]
  fix r assume r: "r \<in> set (approval_requests (lg_approvals t))"
  have eq: "lg_approvals t = lg_approvals s" using b by blast
  have keep: "fst (lg_approval_links s (ar_id r)) \<noteq> None \<longrightarrow>
      fst (lg_approval_links t (ar_id r)) = fst (lg_approval_links s (ar_id r))" using b by blast
  show "fst (lg_approval_links t (ar_id r)) \<noteq> None"
  proof (cases "fst (lg_approval_links s (ar_id r))")
    case None
    then obtain m where "m \<in> set ms" "lm_source_table m = ''approval_requests''" "lm_approval_request_id m = Some (ar_id r)"
      using old(4) r by (auto simp: eq)
    then show ?thesis using settledD(4) settled r by blast
  qed (use keep in simp)
next
  note b = moves [unfolded backfill_moves_def]
  fix a assume a: "a \<in> set (lg_attempts t)"
  obtain a0 where a0: "a0 \<in> set (lg_attempts s)" "attempt_rest a = attempt_rest a0"
      "nd_decision_id a0 \<noteq> None \<longrightarrow> nd_decision_id a = nd_decision_id a0"
    using linked_like_back [OF b [THEN conjunct2, THEN conjunct2, THEN conjunct2, THEN conjunct2, THEN conjunct1] a] by blast
  show "nd_decision_id a \<noteq> None"
  proof (cases "nd_decision_id a0")
    case None
    then obtain m where "m \<in> set ms" "lm_source_table m = ''notification_delivery_attempts''"
        "lm_delivery_attempt_id m = Some (nd_id a)"
      using old(5) a0(1) rest_ids(4) [OF a0(2)] by metis
    then show ?thesis using settledD(5) settled a by blast
  qed (use a0(3) in simp)
qed

text \<open>Then there is nothing left to map.\<close>

lemma mappings_of_none: "(\<And>r. r \<in> set rs \<Longrightarrow> f r = None) \<Longrightarrow> mappings_of f rs = Inr []"
  by (induction rs) auto

lemma all_linked_no_mappings:
  assumes "all_linked s"
  shows "legacy_mappings env s = Inr []"
proof -
  note a = assms [unfolded all_linked_def]
  have "mappings_of plan_queue (order_asc q_id (response_actions_queue (lg_queue s))) = Inr []"
    "mappings_of (plan_log s) (order_asc lg_id (response_actions_log (lg_commands s))) = Inr []"
    "mappings_of (plan_execution env s) (order_asc ex_id (playbook_executions (lg_executions s))) = Inr []"
    "mappings_of (plan_approval s) (order_asc ar_id (approval_requests (lg_approvals s))) = Inr []"
    "mappings_of (old_attempt env) (order_asc nd_id (lg_attempts s)) = Inr []"
    using a by (intro mappings_of_none; simp add: plan_queue_def plan_log_def plan_execution_def plan_approval_def
        old_attempt_def)+
  then show ?thesis by (simp add: legacy_mappings_def)
qed

subsection \<open>The audit pass\<close>

text \<open>Entries name their execution by an integer or not at all, and linked executions have their decision.\<close>

definition audit_ready :: "legacy_db \<Rightarrow> bool" where
  "audit_ready s \<longleftrightarrow>
     (\<forall>(i, ty, raw) \<in> set (lg_audit s). length (show_int i) \<le> 20 \<and>
        (let v = audit_execution (case raw of PDict d \<Rightarrow> d | _ \<Rightarrow> []) in v = PNone \<or> (\<exists>n. v = PInt n)))"

definition event_there :: "row_id \<Rightarrow> legacy_db \<Rightarrow> bool" where
  "event_there i s \<longleftrightarrow> get_outcome_event_by_idempotency_key (audit_event_key i) (lg_outcomes s) \<noteq> None"

text \<open>The event of an entry is stored, and the entry has its links.\<close>

definition entry_linked :: "row_id \<Rightarrow> legacy_db \<Rightarrow> bool" where
  "entry_linked i s \<longleftrightarrow> event_there i s \<and> (\<forall>a \<in> set (lg_audit s). fst a = i \<longrightarrow> has_links (snd (snd a)))"

text \<open>An entry that the pass has nothing to write for.\<close>

definition audit_done :: "row_id \<times> string \<times> pyval \<Rightarrow> legacy_db \<Rightarrow> bool" where
  "audit_done row s \<longleftrightarrow>
     (case row of (i, ty, raw) \<Rightarrow>
        truthy (dict_get (audit_items raw) ''decision_id'') \<or> truthy (dict_get (audit_items raw) ''soar_correlation_id'') \<or>
        audit_execution (audit_items raw) = PNone \<or>
        (\<exists>n. audit_execution (audit_items raw) = PInt n \<and> linked_execution (Some n) s = None) \<or> entry_linked i s)"

text \<open>What the pass keeps: the executions, the events, and every entry up to the links that go with its event.\<close>

definition audit_moves :: "legacy_db \<Rightarrow> legacy_db \<Rightarrow> bool" where
  "audit_moves s t \<longleftrightarrow>
     lg_executions t = lg_executions s \<and> soar_response_decisions (lg_outcomes t) = soar_response_decisions (lg_outcomes s) \<and>
     prefix (soar_response_outcome_events (lg_outcomes s)) (soar_response_outcome_events (lg_outcomes t)) \<and>
     (\<forall>(i, ty, raw) \<in> set (lg_audit t). \<exists>raw0. (i, ty, raw0) \<in> set (lg_audit s) \<and>
        audit_execution (audit_items raw) = audit_execution (audit_items raw0) \<and> (has_links raw0 \<longrightarrow> has_links raw) \<and>
        (raw = raw0 \<or> entry_linked i t))"

lemma audit_moves_refl: "audit_moves s s"
  by (auto simp: audit_moves_def)

lemma key_prefix:
  assumes "prefix (soar_response_outcome_events s) (soar_response_outcome_events t)"
    "get_outcome_event_by_idempotency_key k s \<noteq> None"
  shows "get_outcome_event_by_idempotency_key k t \<noteq> None"
  using assms by (auto simp: get_outcome_event_by_idempotency_key_def fetchone_None filter_empty_conv prefix_def)

lemma event_there_kept: "audit_moves s t \<Longrightarrow> event_there i s \<Longrightarrow> event_there i t"
  unfolding audit_moves_def event_there_def using key_prefix by blast

lemma entry_linked_kept:
  assumes "audit_moves s t" "entry_linked i s"
  shows "entry_linked i t"
  unfolding entry_linked_def
proof (intro conjI ballI impI)
  show "event_there i t" using event_there_kept [OF assms(1)] assms(2) by (simp add: entry_linked_def)
  fix a assume a: "a \<in> set (lg_audit t)" "fst a = i"
  obtain ty raw where eq: "a = (i, ty, raw)" using a(2) by (cases a) auto
  then obtain raw0 where "(i, ty, raw0) \<in> set (lg_audit s)" "has_links raw0 \<longrightarrow> has_links raw"
    using assms(1) a(1) unfolding audit_moves_def by blast
  then show "has_links (snd (snd a))" using assms(2) by (force simp: entry_linked_def eq)
qed

lemma audit_moves_trans:
  assumes "audit_moves s t" "audit_moves t u"
  shows "audit_moves s u"
  unfolding audit_moves_def
proof (intro conjI)
  note a = assms(1) [unfolded audit_moves_def] and b = assms(2) [unfolded audit_moves_def]
  show "lg_executions u = lg_executions s" "soar_response_decisions (lg_outcomes u) = soar_response_decisions (lg_outcomes s)"
    using a b by simp_all
  show "prefix (soar_response_outcome_events (lg_outcomes s)) (soar_response_outcome_events (lg_outcomes u))"
    using a b prefix_order.trans by blast
  show "\<forall>(i, ty, raw) \<in> set (lg_audit u). \<exists>raw0. (i, ty, raw0) \<in> set (lg_audit s) \<and>
        audit_execution (audit_items raw) = audit_execution (audit_items raw0) \<and> (has_links raw0 \<longrightarrow> has_links raw) \<and>
        (raw = raw0 \<or> entry_linked i u)"
  proof clarify
    fix i ty raw assume "(i, ty, raw) \<in> set (lg_audit u)"
    then obtain raw1 where 1: "(i, ty, raw1) \<in> set (lg_audit t)"
        "audit_execution (audit_items raw) = audit_execution (audit_items raw1)" "has_links raw1 \<longrightarrow> has_links raw"
        "raw = raw1 \<or> entry_linked i u"
      using b by blast
    then obtain raw0 where "(i, ty, raw0) \<in> set (lg_audit s)"
        "audit_execution (audit_items raw1) = audit_execution (audit_items raw0)" "has_links raw0 \<longrightarrow> has_links raw1"
        "raw1 = raw0 \<or> entry_linked i t"
      using a by blast
    then show "\<exists>raw0. (i, ty, raw0) \<in> set (lg_audit s) \<and>
        audit_execution (audit_items raw) = audit_execution (audit_items raw0) \<and> (has_links raw0 \<longrightarrow> has_links raw) \<and>
        (raw = raw0 \<or> entry_linked i u)"
      using 1 entry_linked_kept [OF assms(2)] by metis
  qed
qed

lemma audit_execution_merge: "audit_execution (audit_items (audit_merge d c e raw)) = audit_execution (audit_items raw)"
  by (simp add: audit_execution_def audit_merge_def audit_items_def dict_get_set)

lemma set_audit_moves:
  assumes "event_there i s" "set_audit_links i d c e s = (r, t)"
  shows "audit_moves s t" "lg_outcomes t = lg_outcomes s" "entry_linked i t" "entry_linked i s \<Longrightarrow> t = s \<and> r = Inr False"
proof -
  let ?hit = "\<lambda>a. fst a = i \<and> \<not> has_links (snd (snd a))"
  have t: "t = s\<lparr>lg_audit := update_where ?hit (\<lambda>a. (fst a, fst (snd a), audit_merge d c e (snd (snd a)))) (lg_audit s)\<rparr>"
    and r: "r = Inr (list_ex ?hit (lg_audit s))"
    using assms(2) by (simp_all add: set_audit_links_eq)
  show o: "lg_outcomes t = lg_outcomes s" by (simp add: t)
  show ev: "entry_linked i t" using assms(1) by (auto simp: entry_linked_def event_there_def t set_update_where)
  have "\<exists>raw0. (j, ty, raw0) \<in> set (lg_audit s) \<and> audit_execution (audit_items raw) = audit_execution (audit_items raw0) \<and>
        (has_links raw0 \<longrightarrow> has_links raw) \<and> (raw = raw0 \<or> entry_linked j t)"
    if row: "(j, ty, raw) \<in> set (lg_audit t)" for j ty raw
  proof -
    from row consider (hit) raw0 where "(j, ty, raw0) \<in> set (lg_audit s)" "j = i" "raw = audit_merge d c e raw0"
      | (same) "(j, ty, raw) \<in> set (lg_audit s)"
      unfolding t by (auto simp: set_update_where)
    then show ?thesis
    proof cases
      case (hit raw0)
      then show ?thesis using ev audit_execution_merge by (metis audit_merge_links)
    next
      case same
      then show ?thesis by blast
    qed
  qed
  then show "audit_moves s t" by (auto simp: audit_moves_def t)
  assume l: "entry_linked i s"
  then have "\<forall>a \<in> set (lg_audit s). \<not> ?hit a" by (auto simp: entry_linked_def)
  then show "t = s \<and> r = Inr False" by (auto simp: t r update_where_none list_ex_iff)
qed

text \<open>The event of an audit entry is accepted, or is there already.\<close>

lemma audit_append_total:
  assumes "length (show_int i) \<le> 20" "\<exists>x \<in> set (soar_response_decisions s). rd_id x = dec"
  shows "\<exists>e b t. append_unless_known clk (audit_event_key i) (audit_link_event i ty dec cor al inc n) s = (Inr (e, b), t) \<and>
    soar_response_decisions t = soar_response_decisions s \<and>
    prefix (soar_response_outcome_events s) (soar_response_outcome_events t) \<and>
    get_outcome_event_by_idempotency_key (audit_event_key i) t \<noteq> None \<and>
    (get_outcome_event_by_idempotency_key (audit_event_key i) s \<noteq> None \<longrightarrow> t = s)"
proof (cases "get_outcome_event_by_idempotency_key (audit_event_key i) s")
  case (Some e)
  then show ?thesis
    by (intro exI [of _ "oe_id e"] exI [of _ False] exI [of _ s]) (simp add: append_unless_known_def)
next
  case None
  let ?a = "audit_link_event i ty dec cor al inc n"
  obtain d where d: "fetch_decision_by_id dec s = Some d" using assms(2) decision_found by blast
  have key: "strip (audit_event_key i) = audit_event_key i" "length (audit_event_key i) \<le> 160" "audit_event_key i \<noteq> []"
    using legacy_key_plain [of "''audit_log''" i] assms(1) by (simp_all add: audit_event_key_def)
  have words: "strip (oa_outcome_summary ?a) \<noteq> []"
    unfolding audit_link_event_def outcome_args0_def outcome_args.simps by (intro spoken_rules)
  have chk: "check_outcome ?a = Inr (oa_execution_mode ?a, oa_execution_state ?a, oa_execution_actor ?a, oa_reason_code ?a)"
    using words by (intro check_accepted) (simp_all add: audit_link_event_def outcome_args0_def modes states actors reasons booleans_none)
  have ty: "strip ''audit_link'' = ''audit_link''" by code_simp
  have "\<exists>e t. append_outcome_event clk ?a s = (Inr e, t) \<and> soar_response_decisions t = soar_response_decisions s \<and>
    soar_response_outcome_events t = soar_response_outcome_events s @ [e] \<and> oe_idempotency_key e = Some (audit_event_key i)"
    using key None d ty
    by (intro append_accepted [OF chk, where d = d and et = "''audit_link''"])
      (simp_all add: audit_link_event_def outcome_args0_def outcome_decision_def)
  then obtain e t where t: "append_outcome_event clk ?a s = (Inr e, t)" "soar_response_decisions t = soar_response_decisions s"
    "soar_response_outcome_events t = soar_response_outcome_events s @ [e]" "oe_idempotency_key e = Some (audit_event_key i)"
    by blast
  moreover have "get_outcome_event_by_idempotency_key (audit_event_key i) t \<noteq> None"
    using t(3,4) by (simp add: get_outcome_event_by_idempotency_key_def fetchone_None filter_empty_conv)
  ultimately show ?thesis using None by (auto simp: append_unless_known_def)
qed

lemma linked_execution_mem:
  "linked_execution i s = Some x \<Longrightarrow> x \<in> set (playbook_executions (lg_executions s)) \<and>
     ex_decision_id x \<noteq> None \<and> ex_soar_correlation_id x \<noteq> None"
  by (auto simp: linked_execution_def split: option.splits dest: fetchone_mem)

lemma audit_row_total:
  assumes row: "length (show_int i) \<le> 20"
      "audit_execution (audit_items raw) = PNone \<or> (\<exists>n. audit_execution (audit_items raw) = PInt n)"
    and there: "decisions_there s"
  shows "\<exists>n t. link_audit_row env clk (i, ty, raw) s = (Inr n, t) \<and> audit_moves s t \<and> audit_done (i, ty, raw) t \<and>
    (audit_done (i, ty, raw) s \<longrightarrow> t = s \<and> n = 0)"
proof -
  let ?d = "audit_items raw" and ?v = "audit_execution (audit_items raw)"
  have items: "(case raw of PDict d \<Rightarrow> d | _ \<Rightarrow> []) = ?d" by (simp add: audit_items_def)
  show ?thesis
  proof (cases "truthy (dict_get ?d ''decision_id'') \<or> truthy (dict_get ?d ''soar_correlation_id'') \<or> ?v = PNone")
    case True
    then have "link_audit_row env clk (i, ty, raw) s = (Inr 0, s)" by (simp add: link_audit_row_def items Let_def)
    moreover have "audit_done (i, ty, raw) s" using True by (auto simp: audit_done_def)
    ultimately show ?thesis using audit_moves_refl by blast
  next
    case go: False
    then obtain n where n: "?v = PInt n" using row(2) by blast
    show ?thesis
    proof (cases "linked_execution (Some n) s")
      case None
      then have "link_audit_row env clk (i, ty, raw) s = (Inr 0, s)"
        using go n by (simp add: link_audit_row_def items Let_def sql_id_def)
      moreover have "audit_done (i, ty, raw) s" using None n by (auto simp: audit_done_def)
      ultimately show ?thesis using audit_moves_refl by blast
    next
      case (Some x)
      note x = linked_execution_mem [OF Some]
      let ?dec = "the (ex_decision_id x)" and ?cor = "the (ex_soar_correlation_id x)"
      have "\<exists>y \<in> set (soar_response_decisions (lg_outcomes s)). rd_id y = ?dec"
        using there x by (auto simp: decisions_there_def)
      from audit_append_total [OF row(1) this, of clk ty ?cor "ex_alert_id x" "ex_incident_id x" n]
      obtain e b o1 where 1: "append_unless_known clk (audit_event_key i)
            (audit_link_event i ty ?dec ?cor (ex_alert_id x) (ex_incident_id x) n) (lg_outcomes s) = (Inr (e, b), o1)"
          "soar_response_decisions o1 = soar_response_decisions (lg_outcomes s)"
          "prefix (soar_response_outcome_events (lg_outcomes s)) (soar_response_outcome_events o1)"
          "get_outcome_event_by_idempotency_key (audit_event_key i) o1 \<noteq> None"
          "event_there i s \<longrightarrow> o1 = lg_outcomes s"
        unfolding event_there_def by blast
      define s1 where "s1 = s\<lparr>lg_commands := (lg_commands s)\<lparr>cmd_outcomes := o1\<rparr>\<rparr>"
      have m1: "audit_moves s s1" using 1(2,3) by (auto simp: audit_moves_def s1_def)
      have ev: "event_there i s1" using 1(4) by (simp add: event_there_def s1_def)
      obtain h t where t: "set_audit_links i ?dec ?cor e s1 = (Inr h, t)" by (simp add: set_audit_links_def Let_def)
      note m2 = set_audit_moves [OF ev t]
      have "link_audit_row env clk (i, ty, raw) s = (Inr (if h then 1 else 0), t)"
        using go n Some 1(1) t
        by (simp add: link_audit_row_def items Let_def sql_id_def py_int_def in_lg_outcomes_def s1_def ret_def)
      moreover have "audit_done (i, ty, raw) t" using m2(3) by (simp add: audit_done_def)
      moreover have "t = s \<and> (if h then 1 else 0 :: int) = 0" if "audit_done (i, ty, raw) s"
      proof -
        have l: "entry_linked i s" using that go n Some by (auto simp: audit_done_def)
        then have "s1 = s" using 1(5) by (simp add: s1_def entry_linked_def)
        then show ?thesis using m2(4) l by simp
      qed
      ultimately show ?thesis using audit_moves_trans [OF m1 m2(1)] by blast
    qed
  qed
qed

lemma audit_done_kept: "audit_moves s t \<Longrightarrow> audit_done row s \<Longrightarrow> audit_done row t"
  using entry_linked_kept [of s t]
  by (cases row) (auto simp: audit_done_def linked_execution_def, simp_all add: audit_moves_def)

lemma decisions_there_kept: "audit_moves s t \<Longrightarrow> decisions_there s \<Longrightarrow> decisions_there t"
  by (simp add: audit_moves_def decisions_there_def)

lemma audit_rows_total:
  assumes "\<And>i ty raw. (i, ty, raw) \<in> set rows \<Longrightarrow> length (show_int i) \<le> 20 \<and>
      (audit_execution (audit_items raw) = PNone \<or> (\<exists>n. audit_execution (audit_items raw) = PInt n))"
    and "decisions_there s"
  shows "\<exists>n t. link_audit_rows env clk rows s = (Inr n, t) \<and> audit_moves s t \<and> (\<forall>row \<in> set rows. audit_done row t) \<and>
    ((\<forall>row \<in> set rows. audit_done row s) \<longrightarrow> t = s \<and> n = 0)"
  using assms
proof (induction rows arbitrary: s)
  case Nil
  then show ?case using audit_moves_refl by (auto simp: ret_def)
next
  case (Cons row rows)
  obtain i ty raw where row: "row = (i, ty, raw)" by (cases row)
  obtain n t where 1: "link_audit_row env clk row s = (Inr n, t)" "audit_moves s t" "audit_done row t"
      "audit_done row s \<longrightarrow> t = s \<and> n = 0"
    using audit_row_total [of i raw s env clk ty] Cons.prems(1) [of i ty raw] Cons.prems(2)
    unfolding row by (metis list.set_intros(1))
  obtain k u where 2: "link_audit_rows env clk rows t = (Inr k, u)" "audit_moves t u" "\<forall>row \<in> set rows. audit_done row u"
      "(\<forall>row \<in> set rows. audit_done row t) \<longrightarrow> u = t \<and> k = 0"
    using Cons.IH [of t] Cons.prems(1) decisions_there_kept [OF 1(2) Cons.prems(2)] by (metis list.set_intros(2))
  have "link_audit_rows env clk (row # rows) s = (Inr (n + k), u)" using 1(1) 2(1) by (simp add: ret_def)
  moreover have "u = s \<and> n + k = 0" if "\<forall>row \<in> set (row # rows). audit_done row s"
  proof -
    have "\<forall>row \<in> set rows. audit_done row t" using that audit_done_kept [OF 1(2)] by simp
    then show ?thesis using that 1(4) 2(4) by auto
  qed
  ultimately show ?case
    using audit_moves_trans [OF 1(2) 2(2)] audit_done_kept [OF 2(2) 1(3)] 2(3) by (metis set_ConsD)
qed

subsection \<open>Properties\<close>

lemma outcome_rollback_inv:
  assumes "outcome_inv a" "outcome_inv b" "outcome_grows a b"
  shows "outcome_inv (a\<lparr>decision_seq := decision_seq b, outcome_seq := outcome_seq b, uuids_drawn := uuids_drawn b\<rparr>)"
proof -
  obtain xs ys where b: "soar_response_decisions b = soar_response_decisions a @ xs"
      "soar_response_outcome_events b = soar_response_outcome_events a @ ys"
    using assms(3) by (auto simp: outcome_grows_def prefix_def)
  show ?thesis using assms(1,2) by (simp add: outcome_inv_def wf_ids_def b)
qed

text \<open>C21: Whatever a run of the script does, with \<open>--apply\<close> or without, and whether it fails or not: the
  outcome tables keep their invariant and only grow; every row of the five old tables stays as it was up
  to its two linkage columns (those of an approval request are kept in \<open>lg_approval_links\<close>), and a link that
  was set is never changed; an entry of the audit log keeps its id and type, its details change only when
  they have no link, and then only in the keys of the links; the blocklist, the registry, alerts and incidents
  are as they were. A run that fails gives all tables back: the old ones with their links, the audit log,
  decisions and events.\<close>

theorem backfill_only_links:
  assumes "outcome_inv (lg_outcomes s)" "backfill_run env uuid clk apply s = (r, t)"
  shows "outcome_inv (lg_outcomes t) \<and> outcome_grows (lg_outcomes s) (lg_outcomes t) \<and>
    linked_like q_decision_id q_soar_correlation_id unlinked
      (response_actions_queue (lg_queue s)) (response_actions_queue (lg_queue t)) \<and>
    linked_like lg_decision_id lg_soar_correlation_id log_rest
      (response_actions_log (lg_commands s)) (response_actions_log (lg_commands t)) \<and>
    linked_like ex_decision_id ex_soar_correlation_id execution_rest
      (playbook_executions (lg_executions s)) (playbook_executions (lg_executions t)) \<and>
    linked_like nd_decision_id nd_soar_correlation_id attempt_rest (lg_attempts s) (lg_attempts t) \<and>
    lg_approvals t = lg_approvals s \<and>
    (\<forall>i. (fst (lg_approval_links s i) \<noteq> None \<longrightarrow> fst (lg_approval_links t i) = fst (lg_approval_links s i)) \<and>
         (snd (lg_approval_links s i) \<noteq> None \<longrightarrow> snd (lg_approval_links t i) = snd (lg_approval_links s i))) \<and>
    list_all2 audit_entry_kept (lg_audit s) (lg_audit t) \<and>
    (lg_commands t)\<lparr>cmd_outcomes := cmd_outcomes (lg_commands s),
      response_actions_log := response_actions_log (lg_commands s)\<rparr> = lg_commands s \<and>
    (isl r \<longrightarrow> soar_response_decisions (lg_outcomes t) = soar_response_decisions (lg_outcomes s) \<and>
       soar_response_outcome_events (lg_outcomes t) = soar_response_outcome_events (lg_outcomes s) \<and>
       response_actions_log (lg_commands t) = response_actions_log (lg_commands s) \<and>
       lg_queue t = lg_queue s \<and> lg_executions t = lg_executions s \<and> lg_attempts t = lg_attempts s \<and>
       lg_approval_links t = lg_approval_links s \<and> lg_audit t = lg_audit s)"
proof -
  have fine: ?thesis if "outcome_inv (lg_outcomes t)" "backfill_moves s t" "\<not> isl r"
  proof -
    note m = that(2) [unfolded backfill_moves_def]
    show ?thesis using that(1,3) by (intro conjI) (use m in \<open>blast | simp\<close>)+
  qed
  have same: ?thesis if "t = s" using assms(1) by (simp add: that)
  show ?thesis
  proof (cases "plan_backfill_dry_run env s")
    case (Inl e)
    then have "t = s" using assms(2) by (simp add: backfill_run_def)
    then show ?thesis by (rule same)
  next
    case (Inr plan)
    show ?thesis
    proof (cases "apply")
      case False
      then have "t = s" using assms(2) Inr by (simp add: backfill_run_def Let_def)
      then show ?thesis by (rule same)
    next
      case True
      obtain r' u where run: "apply_backfill env uuid clk s = (r', u)" by (cases "apply_backfill env uuid clk s")
      note k = keepsI [OF keeps_apply_backfill run assms(1)]
      show ?thesis
      proof (cases r')
        case (Inr x)
        then have tu: "t = u" "\<not> isl r" using assms(2) True \<open>plan_backfill_dry_run env s = Inr plan\<close> run
          by (auto simp: backfill_run_def Let_def)
        show ?thesis by (rule fine) (use k tu in simp_all)
      next
        case (Inl e)
        then have t: "t = backfill_rollback s u" using assms(2) True \<open>plan_backfill_dry_run env s = Inr plan\<close> run
          by (auto simp: backfill_run_def Let_def)
        have "outcome_grows (lg_outcomes s) (lg_outcomes u)" using k unfolding backfill_moves_def by blast
        then have "outcome_inv (lg_outcomes t)"
          unfolding t backfill_rollback_def using outcome_rollback_inv assms(1) k by simp
        then show ?thesis unfolding t by (simp add: backfill_rollback_def outcome_grows_def)
      qed
    qed
  qed
qed

text \<open>The second pass over the audit entries has nothing to write.\<close>

lemma audit_readyD:
  assumes "audit_ready s" "(i, ty, raw) \<in> set (relevant_audit_rows s)"
  shows "length (show_int i) \<le> 20 \<and>
    (audit_execution (audit_items raw) = PNone \<or> (\<exists>n. audit_execution (audit_items raw) = PInt n))"
proof -
  have "(i, ty, raw) \<in> set (lg_audit s)" using assms(2) by (simp add: relevant_audit_rows_def)
  with assms(1) show ?thesis by (fastforce simp: audit_ready_def audit_items_def Let_def)
qed

lemma relevant_rows_total:
  assumes "audit_ready s" "decisions_there s"
  shows "\<exists>n t. link_audit_rows env clk (relevant_audit_rows s) s = (Inr n, t) \<and> audit_moves s t \<and>
    (\<forall>row \<in> set (relevant_audit_rows s). audit_done row t) \<and>
    ((\<forall>row \<in> set (relevant_audit_rows s). audit_done row s) \<longrightarrow> t = s \<and> n = 0)"
proof (rule audit_rows_total)
  fix i ty raw assume "(i, ty, raw) \<in> set (relevant_audit_rows s)"
  with assms(1) show "length (show_int i) \<le> 20 \<and>
      (audit_execution (audit_items raw) = PNone \<or> (\<exists>n. audit_execution (audit_items raw) = PInt n))"
    by (rule audit_readyD)
qed (rule assms(2))

lemma audit_ready_kept:
  assumes "audit_ready s" "audit_moves s t"
  shows "audit_ready t"
  unfolding audit_ready_def
proof clarify
  fix i ty raw assume "(i, ty, raw) \<in> set (lg_audit t)"
  then obtain raw0 where "(i, ty, raw0) \<in> set (lg_audit s)"
      "audit_execution (audit_items raw) = audit_execution (audit_items raw0)"
    using assms(2) unfolding audit_moves_def by blast
  then show "length (show_int i) \<le> 20 \<and>
      (let v = audit_execution (case raw of PDict d \<Rightarrow> d | _ \<Rightarrow> []) in v = PNone \<or> (\<exists>n. v = PInt n))"
    using assms(1) unfolding audit_ready_def Let_def audit_items_def [symmetric] by fastforce
qed

lemma relevant_done:
  assumes moves: "audit_moves s t" and first: "\<forall>row \<in> set (relevant_audit_rows s). audit_done row t"
  shows "\<forall>row \<in> set (relevant_audit_rows t). audit_done row t"
proof clarify
  fix i ty raw assume "(i, ty, raw) \<in> set (relevant_audit_rows t)"
  then have r: "(i, ty, raw) \<in> set (lg_audit t)" "ty \<in> set LINKED_AUDIT_TYPES" by (auto simp: relevant_audit_rows_def)
  then obtain raw0 where raw0: "(i, ty, raw0) \<in> set (lg_audit s)" "raw = raw0 \<or> entry_linked i t"
    using moves unfolding audit_moves_def by blast
  have "(i, ty, raw0) \<in> set (relevant_audit_rows s)" using raw0(1) r(2) by (simp add: relevant_audit_rows_def)
  then show "audit_done (i, ty, raw) t" using first raw0(2) by (auto simp: audit_done_def)
qed


text \<open>The key of an event names the table and the row, and no two rows share one.\<close>

definition from_row :: "string \<Rightarrow> row_id \<Rightarrow> LegacyMapping \<Rightarrow> bool" where
  "from_row t i m \<longleftrightarrow> lm_source_table m = t \<and> lm_source_id m = i"

lemma from_row_rules:
  "from_row t i m \<Longrightarrow> from_row t i m' \<Longrightarrow> from_row t i (if b then m else m')"
  "from_row t i m \<Longrightarrow> from_row t i (ambiguous_because w m)"
  "from_row t i m \<Longrightarrow> from_row t i (classified mode state ex tr si actor summary reason m)"
  "from_row t i m \<Longrightarrow> from_row t i (m\<lparr>lm_alert_id := al\<rparr>)" "from_row t i m \<Longrightarrow> from_row t i (m\<lparr>lm_incident_id := al\<rparr>)"
  "from_row t i m \<Longrightarrow> from_row t i (m\<lparr>lm_source_ip := ip\<rparr>)" "from_row t i m \<Longrightarrow> from_row t i (m\<lparr>lm_queue_id := al\<rparr>)"
  "from_row t i m \<Longrightarrow> from_row t i (m\<lparr>lm_playbook_execution_id := al\<rparr>)"
  "from_row t i m \<Longrightarrow> from_row t i (m\<lparr>lm_approval_request_id := al\<rparr>)"
  "from_row t i m \<Longrightarrow> from_row t i (m\<lparr>lm_delivery_attempt_id := al\<rparr>)"
  "from_row t i m \<Longrightarrow> from_row t i (m\<lparr>lm_response_action_log_id := al\<rparr>)"
  "from_row t i m \<Longrightarrow> from_row t i (m\<lparr>lm_proposed_event_count := n\<rparr>)"
  "from_row t i (mapping0 t i c a src)"
  by (simp_all add: from_row_def mapping0_def)

lemma from_row_legacy:
  assumes "legacy_of t i a src f = Inr m" "\<And>c. from_row t i (f (mapping0 t i c a src))"
  shows "from_row t i m"
  using assms by (metis legacy_ofE)

lemma playbook_from_row: "from_row t i m \<Longrightarrow> from_row t i (playbook_outcome st fr step c m)"
proof -
  assume m: "from_row t i m"
  obtain si ex tr where ev: "playbook_step_evidence step = (si, ex, tr)" by (cases "playbook_step_evidence step")
  show ?thesis unfolding playbook_outcome_def ev prod.case by (intro from_row_rules m)
qed

lemma infer_from_row:
  "infer_queue q = Inr m \<Longrightarrow> from_row ''response_actions_queue'' (q_id q) m"
  "infer_log s l = Inr m \<Longrightarrow> from_row ''response_actions_log'' (lg_id l) m"
  "infer_execution env c x = Inr m \<Longrightarrow> from_row ''playbook_executions'' (ex_id x) m"
  "infer_approval s r = Inr m \<Longrightarrow> from_row ''approval_requests'' (ar_id r) m"
  "infer_notification_delivery_legacy_outcome env a = Inr m \<Longrightarrow> from_row ''notification_delivery_attempts'' (nd_id a) m"
  unfolding infer_queue_def infer_queue_legacy_outcome_def infer_log_def infer_response_log_legacy_outcome_def
    infer_execution_def infer_playbook_execution_legacy_outcome_def infer_approval_def
    infer_approval_request_legacy_outcome_def infer_notification_delivery_legacy_outcome_def legacy_delivery_outcome_def Let_def
  by (erule from_row_legacy; intro from_row_rules playbook_from_row)+

lemma before_dash:
  assumes "CHR ''-'' \<notin> set t" "CHR ''-'' \<notin> set t'" "t @ CHR ''-'' # r = t' @ CHR ''-'' # r'"
  shows "t = t' \<and> r = r'"
proof -
  have tw: "CHR ''-'' \<notin> set u \<Longrightarrow> takeWhile (\<lambda>c. c \<noteq> CHR ''-'') (u @ CHR ''-'' # v) = u" for u v
    by (induction u) auto
  have "t = t'" using tw [OF assms(1), of r] tw [OF assms(2), of r'] assms(3) by simp
  then show ?thesis using assms(3) by simp
qed

lemma event_key_row:
  assumes "from_row t i m" "from_row t' i' m'" "t \<in> set LEGACY_TABLES" "t' \<in> set LEGACY_TABLES" "event_key m = event_key m'"
  shows "t = t' \<and> i = i'"
proof -
  have no: "CHR ''-'' \<notin> set x" if "x \<in> set LEGACY_TABLES" for x
    using that by (auto simp: LEGACY_TABLES_def)
  have "t @ CHR ''-'' # (show_int i @ ''-event-latest'') = t' @ CHR ''-'' # (show_int i' @ ''-event-latest'')"
    using assms(1,2,5) by (simp add: event_key_def' from_row_def)
  from before_dash [OF no [OF assms(3)] no [OF assms(4)] this] show ?thesis by simp
qed

lemma strip_fixed: "s \<noteq> [] \<Longrightarrow> \<not> is_space (hd s) \<Longrightarrow> \<not> is_space (last s) \<Longrightarrow> strip s = s"
  by (simp add: strip_def dropWhile_ends hd_rev)

lemma event_key_stripped: "strip (event_key m) = event_key m" "event_key m \<noteq> []"
  by (simp_all add: event_key_def' strip_fixed is_space_def)

text \<open>A mapping writes no event under another key.\<close>

lemma link_keeps_outcomes: "link_legacy_row m d s = (r, t) \<Longrightarrow> lg_outcomes t = lg_outcomes s"
  using link_total [of m d s] by (metis prod.inject)

lemma append_other_key:
  assumes "append_or_get_event clk m d s = (r, t)" "event_key m \<noteq> k" "get_outcome_event_by_idempotency_key k s = None"
  shows "get_outcome_event_by_idempotency_key k t = None"
proof (cases "get_outcome_event_by_idempotency_key (event_key m) s")
  case (Some e)
  then show ?thesis using assms by (simp add: append_or_get_event_def append_unless_known_def)
next
  case None
  have t: "t = snd (append_outcome_event clk (event_for m d) s)"
    using assms(1) None by (auto simp: append_or_get_event_def append_unless_known_def split: sum.splits prod.splits)
  have given: "coalesce (oa_idempotency_key (event_for m d)) [] = event_key m" by (simp add: event_for_def)
  show ?thesis
  proof (cases rule: append_outcome_cases [of clk "event_for m d" s])
    case (failed e s')
    then have "soar_response_outcome_events t = soar_response_outcome_events s" using t by auto
    then show ?thesis using assms(3) by (simp add: get_outcome_event_by_idempotency_key_def)
  next
    case (there x)
    then show ?thesis using t assms(3) by simp
  next
    case (added dd et key checked x)
    have "key = Some (event_key m)" using added(5) event_key_stripped [of m] by (simp only: given if_False)
    moreover have "oe_idempotency_key x = key" using added(6) by (simp add: new_outcome_event_def split: prod.splits)
    ultimately show ?thesis using added(8) t assms(2,3)
      by (simp add: get_outcome_event_by_idempotency_key_def fetchone_None)
  qed
qed

lemma create_keeps_events:
  "create_or_get_decision uuid clk m s = (r, t) \<Longrightarrow> soar_response_outcome_events t = soar_response_outcome_events s"
proof -
  assume run: "create_or_get_decision uuid clk m s = (r, t)"
  have "soar_response_outcome_events (snd (create_response_decision uuid clk a s)) = soar_response_outcome_events s" for a
  proof -
    obtain n where n: "snd (resolve_correlation uuid (da_soar_correlation_id a) (da_alert_id a) s) = s\<lparr>uuids_drawn := n\<rparr>"
      using resolve_correlation_state by blast
    obtain c s1 where c: "resolve_correlation uuid (da_soar_correlation_id a) (da_alert_id a) s = (c, s1)"
      by (cases "resolve_correlation uuid (da_soar_correlation_id a) (da_alert_id a) s")
    then have "soar_response_outcome_events s1 = soar_response_outcome_events s" using n by simp
    then show ?thesis using c
      by (auto simp: create_response_decision_def insert_decision_def Let_def split: sum.splits)
  qed
  then show ?thesis using run
    by (auto simp: create_or_get_decision_def split: option.splits sum.splits prod.splits) (metis snd_conv)+
qed

lemma apply_other_key:
  assumes "apply_mapping uuid clk m r s = (Inr r', t)" "event_key m \<noteq> k"
    "get_outcome_event_by_idempotency_key k (lg_outcomes s) = None"
  shows "get_outcome_event_by_idempotency_key k (lg_outcomes t) = None"
proof (cases "skips_mapping m")
  case True
  then show ?thesis using assms by (simp add: apply_mapping_def ret_def)
next
  case False
  obtain g o1 where 1: "create_or_get_decision uuid clk m (lg_outcomes s) = (g, o1)"
    by (cases "create_or_get_decision uuid clk m (lg_outcomes s)")
  obtain d b where g: "g = Inr (d, b)" using assms(1) False 1 by (cases g) (auto simp: apply_mapping_def in_lg_outcomes_def)
  have k1: "get_outcome_event_by_idempotency_key k o1 = None"
    using create_keeps_events [OF 1] assms(3) by (simp add: get_outcome_event_by_idempotency_key_def)
  obtain h o2 where 2: "append_or_get_event clk m d o1 = (h, o2)" by (cases "append_or_get_event clk m d o1")
  obtain e b2 where h: "h = Inr (e, b2)" using assms(1) False 1 2 g by (cases h) (auto simp: apply_mapping_def in_lg_outcomes_def)
  have k2: "get_outcome_event_by_idempotency_key k o2 = None" by (rule append_other_key [OF 2 assms(2) k1])
  define s2 where "s2 = s\<lparr>lg_commands := (lg_commands s)\<lparr>cmd_outcomes := o2\<rparr>\<rparr>"
  obtain l u where 3: "link_legacy_row m d s2 = (l, u)" by (cases "link_legacy_row m d s2")
  have "t = u" using assms(1) False 1 2 3 g h
    by (cases l) (auto simp: apply_mapping_def in_lg_outcomes_def s2_def ret_def)
  then show ?thesis using link_keeps_outcomes [OF 3] k2 by (simp add: s2_def)
qed

text \<open>A mapping whose state is no word of the vocabulary cannot be stored.\<close>

lemma apply_refused:
  assumes "\<not> skips_mapping m" "lm_execution_state m = ''not_actioned''"
    "get_outcome_event_by_idempotency_key (event_key m) (lg_outcomes s) = None"
  shows "\<exists>e t. apply_mapping uuid clk m r s = (Inl e, t)"
proof -
  obtain g o1 where 1: "create_or_get_decision uuid clk m (lg_outcomes s) = (g, o1)"
    by (cases "create_or_get_decision uuid clk m (lg_outcomes s)")
  show ?thesis
  proof (cases g)
    case (Inl e)
    then show ?thesis using assms(1) 1 by (simp add: apply_mapping_def in_lg_outcomes_def)
  next
    case (Inr db)
    obtain d b where db: "db = (d, b)" by (cases db)
    have none: "get_outcome_event_by_idempotency_key (event_key m) o1 = None"
      using create_keeps_events [OF 1] assms(3) by (simp add: get_outcome_event_by_idempotency_key_def)
    have "validate_execution_state ''not_actioned'' = outcome_error
        (''execution_state must be one of '' @ py_list_repr EXECUTION_STATES)"
      by (simp add: validate_execution_state_def validate_in_def EXECUTION_STATES_def strip_def is_space_def)
    moreover have "oa_execution_state (event_for m d) = ''not_actioned''" using assms(2) by (simp add: event_for_def outcome_args0_def)
    ultimately have "\<exists>e. check_outcome (event_for m d) = Inl e"
      by (simp add: check_outcome_def split: sum.splits)
    then obtain e where "append_outcome_event clk (event_for m d) o1 = (Inl e, o1)"
      by (auto simp: append_outcome_event_def)
    then show ?thesis using assms(1) 1 none Inr
      by (simp add: apply_mapping_def in_lg_outcomes_def append_or_get_event_def append_unless_known_def db)
  qed
qed

lemma apply_mappings_refused:
  assumes "m \<in> set ms" "event_key m = k"
    "\<And>n. n \<in> set ms \<Longrightarrow> event_key n = k \<Longrightarrow> \<not> skips_mapping n \<and> lm_execution_state n = ''not_actioned''"
    "get_outcome_event_by_idempotency_key k (lg_outcomes s) = None"
  shows "\<exists>e t. apply_mappings uuid clk ms r s = (Inl e, t)"
  using assms
proof (induction ms arbitrary: r s)
  case (Cons n ms)
  obtain g t where 1: "apply_mapping uuid clk n r s = (g, t)" by (cases "apply_mapping uuid clk n r s")
  show ?case
  proof (cases g)
    case (Inl e)
    then show ?thesis using 1 by simp
  next
    case (Inr r1)
    have other: "event_key n \<noteq> k"
    proof
      assume k: "event_key n = k"
      then have "\<exists>e t. apply_mapping uuid clk n r s = (Inl e, t)"
        using Cons.prems(3) [of n] Cons.prems(4) by (intro apply_refused) auto
      then show False using 1 Inr by simp
    qed
    then have "m \<in> set ms" using Cons.prems(1,2) by auto
    moreover have "get_outcome_event_by_idempotency_key k (lg_outcomes t) = None"
      using apply_other_key 1 Inr other Cons.prems(4) by blast
    ultimately have "\<exists>e u. apply_mappings uuid clk ms r1 t = (Inl e, u)"
      using Cons.IH [of t r1] Cons.prems(2,3) by auto
    then show ?thesis using 1 Inr by simp
  qed
qed simp

text \<open>Where each mapping of a backfill comes from.\<close>

lemma mappings_of_has:
  "mappings_of f rs = Inr ms \<Longrightarrow> r \<in> set rs \<Longrightarrow> f r = Some g \<Longrightarrow> \<exists>m \<in> set ms. g = Inr m"
  by (induction rs arbitrary: ms) (auto split: option.splits sum.splits)

lemma concat_results_has: "concat_results rs = Inr xs \<Longrightarrow> r \<in> set rs \<Longrightarrow> \<exists>ys. r = Inr ys \<and> set ys \<subseteq> set xs"
proof (induction rs arbitrary: xs)
  case (Cons q rs)
  then show ?case by (cases q) (fastforce split: sum.splits)+
qed simp

lemma plan_execution_infers:
  "plan_execution env s x = Some (Inr m) \<Longrightarrow> \<exists>c. infer_execution env c x = Inr m"
  by (auto simp: plan_execution_def split: if_split_asm sum.split_asm)

lemma legacy_mapping_source:
  assumes "legacy_mappings env s = Inr ms" "m \<in> set ms"
  shows "(\<exists>t i. from_row t i m \<and> t \<in> set LEGACY_TABLES \<and> t \<noteq> ''playbook_executions'') \<or>
    (\<exists>c. \<exists>y \<in> set (playbook_executions (lg_executions s)). infer_execution env c y = Inr m)"
proof -
  obtain ys where ys: "m \<in> set ys" "Inr ys \<in> set
       [mappings_of plan_queue (order_asc q_id (response_actions_queue (lg_queue s))),
        mappings_of (plan_log s) (order_asc lg_id (response_actions_log (lg_commands s))),
        mappings_of (plan_execution env s) (order_asc ex_id (playbook_executions (lg_executions s))),
        mappings_of (plan_approval s) (order_asc ar_id (approval_requests (lg_approvals s))),
        mappings_of (old_attempt env) (order_asc nd_id (lg_attempts s))]"
    using concat_results_mem [OF assms(1) [unfolded legacy_mappings_def] assms(2)] by blast
  have "(\<exists>q. plan_queue q = Some (Inr m)) \<or> (\<exists>l. plan_log s l = Some (Inr m)) \<or>
      (\<exists>y \<in> set (playbook_executions (lg_executions s)). plan_execution env s y = Some (Inr m)) \<or>
      (\<exists>r. plan_approval s r = Some (Inr m)) \<or> (\<exists>a. old_attempt env a = Some (Inr m))"
    using ys(2) by (auto dest!: mappings_of_source [OF _ ys(1)])
  then consider
      (queue) q where "infer_queue q = Inr m" | (action) l where "infer_log s l = Inr m"
    | (execution) c y where "y \<in> set (playbook_executions (lg_executions s))" "infer_execution env c y = Inr m"
    | (approval) r where "infer_approval s r = Inr m" | (delivery) a where "infer_notification_delivery_legacy_outcome env a = Inr m"
    by (fastforce simp: plan_queue_def plan_log_def plan_approval_def old_attempt_def
        dest: plan_execution_infers split: if_split_asm)
  then show ?thesis
  proof cases
    case queue
    then show ?thesis using infer_from_row(1) tables(1) by fastforce
  next
    case action
    then show ?thesis using infer_from_row(2) tables(2) by fastforce
  next
    case execution
    then show ?thesis by blast
  next
    case approval
    then show ?thesis using infer_from_row(4) tables(4) by fastforce
  next
    case delivery
    then show ?thesis using infer_from_row(5) tables(5) by fastforce
  qed
qed

lemma refused_mapping:
  assumes "infer_execution env c x = Inr m" "ex_status x = ENotActioned" "ex_playbook_id x \<noteq> []"
  shows "lm_execution_state m = ''not_actioned'' \<and> \<not> skips_mapping m"
  using assms
  by (auto simp: infer_execution_def infer_playbook_execution_legacy_outcome_def playbook_outcome_refused
      skips_mapping_def elim!: legacy_ofE)

text \<open>C22: One execution that was refused and has no decision makes every run of the backfill with \<open>--apply\<close>
  fail, whatever else is to be stored: its outcome has a state that the outcome tables do not accept, and
  the script rolls everything back. (Unless an earlier run has stored an event for it.)\<close>

theorem refused_execution_fails_backfill:
  assumes x: "x \<in> set (playbook_executions (lg_executions s))" "ex_status x = ENotActioned" "ex_decision_id x = None"
      "ex_playbook_id x \<noteq> []" "distinct (map ex_id (playbook_executions (lg_executions s)))"
    and fresh: "get_outcome_event_by_idempotency_key
      (''legacy-backfill-playbook_executions-'' @ show_int (ex_id x) @ ''-event-latest'') (lg_outcomes s) = None"
  shows "\<exists>e t. backfill_run env uuid clk True s = (Inl e, t) \<and>
    soar_response_decisions (lg_outcomes t) = soar_response_decisions (lg_outcomes s) \<and>
    soar_response_outcome_events (lg_outcomes t) = soar_response_outcome_events (lg_outcomes s) \<and>
    lg_queue t = lg_queue s \<and> lg_executions t = lg_executions s \<and> lg_attempts t = lg_attempts s"
proof (cases "plan_backfill_dry_run env s")
  case (Inl e)
  then show ?thesis by (simp add: backfill_run_def)
next
  case plan: (Inr plan)
  have "\<exists>e u. apply_backfill env uuid clk s = (Inl e, u)"
  proof (cases "legacy_mappings env s")
    case (Inl e)
    then show ?thesis by (simp add: apply_backfill_def)
  next
    case (Inr ms)
    have "mappings_of (plan_execution env s) (order_asc ex_id (playbook_executions (lg_executions s))) \<in> set
       [mappings_of plan_queue (order_asc q_id (response_actions_queue (lg_queue s))),
        mappings_of (plan_log s) (order_asc lg_id (response_actions_log (lg_commands s))),
        mappings_of (plan_execution env s) (order_asc ex_id (playbook_executions (lg_executions s))),
        mappings_of (plan_approval s) (order_asc ar_id (approval_requests (lg_approvals s))),
        mappings_of (old_attempt env) (order_asc nd_id (lg_attempts s))]" by simp
    from concat_results_has [OF Inr [unfolded legacy_mappings_def] this] obtain xs where
      xs: "mappings_of (plan_execution env s) (order_asc ex_id (playbook_executions (lg_executions s))) = Inr xs"
        "set xs \<subseteq> set ms" by blast
    obtain g where g: "plan_execution env s x = Some g" using x(3) by (simp add: plan_execution_def)
    then obtain m where m: "m \<in> set ms" "g = Inr m" using mappings_of_has [OF xs(1) _ g] x(1) xs(2) by auto
    then obtain c where inf: "infer_execution env c x = Inr m" using g x(3) by (auto simp: plan_execution_def split: sum.splits)
    have fr: "from_row ''playbook_executions'' (ex_id x) m" using inf by (rule infer_from_row(3))
    have key: "event_key m = ''legacy-backfill-playbook_executions-'' @ show_int (ex_id x) @ ''-event-latest''"
      using fr by (simp add: event_key_def' from_row_def)
    have "\<not> skips_mapping n \<and> lm_execution_state n = ''not_actioned''" if n: "n \<in> set ms" "event_key n = event_key m" for n
      using legacy_mapping_source [OF Inr n(1)]
    proof
      assume "\<exists>t i. from_row t i n \<and> t \<in> set LEGACY_TABLES \<and> t \<noteq> ''playbook_executions''"
      then obtain t i where t: "from_row t i n" "t \<in> set LEGACY_TABLES" "t \<noteq> ''playbook_executions''" by blast
      with event_key_row [OF t(1) fr t(2) tables(3) n(2)] show ?thesis by blast
    next
      assume "\<exists>c. \<exists>y \<in> set (playbook_executions (lg_executions s)). infer_execution env c y = Inr n"
      then obtain c' y where y: "y \<in> set (playbook_executions (lg_executions s))" "infer_execution env c' y = Inr n" by blast
      have "ex_id y = ex_id x" using event_key_row [OF infer_from_row(3) [OF y(2)] fr tables(3) tables(3) n(2)] by blast
      then have "y = x" using distinct_key_unique [OF x(5) y(1) x(1)] by blast
      then show ?thesis using refused_mapping [OF y(2)] x(2,4) by blast
    qed
    then have "\<exists>e u. apply_mappings uuid clk ms empty_backfill s = (Inl e, u)"
      using m(1) fresh by (intro apply_mappings_refused [where m = m and k = "event_key m"]) (auto simp: key)
    then show ?thesis using Inr by (auto simp: apply_backfill_def)
  qed
  then obtain e u where "apply_backfill env uuid clk s = (Inl e, u)" by blast
  then have "backfill_run env uuid clk True s = (Inl e, backfill_rollback s u)"
    using plan by (simp add: backfill_run_def Let_def)
  then show ?thesis by (simp add: backfill_rollback_def)
qed

end
