(* ===== verification/Backfill_Runs.thy ===== *)
theory Backfill_Runs
  imports Outcome_Backfill "HOL-Library.Code_Target_Numeral"
begin

text \<open>
  Concrete old tables, evaluated in the kernel: the properties of \<open>Legacy_Outcomes\<close> and
  \<open>Outcome_Backfill\<close> applied to them. One execution was refused; another one sent a notification for real
  and logged an adapter step that executed nothing after it.
\<close>

definition wit_old_env :: legacy_env where
  "wit_old_env =
     \<lparr>le_formats = \<lparr>float_repr = (\<lambda>q. ''0.0''), float_parse = (\<lambda>x. None), int_round = of_int,
        time_str = (\<lambda>t. ''''), time_iso = (\<lambda>t. '''')\<rparr>,
      le_json_loads = (\<lambda>x. None), le_jsonb_text = (\<lambda>v. ''null''),
      le_sql_id = (\<lambda>v. case v of PInt i \<Rightarrow> Inr (Some i) | _ \<Rightarrow> Inr None)\<rparr>"

definition wit_old_clock :: clock where
  "wit_old_clock = \<lparr>utc_now = 0, sql_now = 0\<rparr>"

definition wit_old_uuid :: "nat \<Rightarrow> string" where
  "wit_old_uuid n = ''0123456789a'' @ [char_of (97 + n)]"

definition wit_old_execution :: "exec_status \<Rightarrow> pyval list \<Rightarrow> execution" where
  "wit_old_execution st steps =
     (new_execution wit_old_clock
        \<lparr>ea_playbook_id = ''notify'', ea_alert_id = Some 7, ea_incident_id = None, ea_decision_id = None,
         ea_soar_correlation_id = None, ea_parent_execution_id = None, ea_chain_depth = 0\<rparr> 1)
     \<lparr>ex_status := st, ex_steps_log := steps\<rparr>"

definition wit_old_attempt :: delivery_attempt where
  "wit_old_attempt =
     \<lparr>nd_id = 1, nd_alert_id = None, nd_incident_id = None, nd_playbook_execution_id = Some 1,
      nd_approval_request_id = None, nd_action = ''notify_slack'', nd_mode = ''real'', nd_status = ''success'',
      nd_metadata = PDict [(''executed'', PBool True), (''simulated'', PBool False), (''mode'', PStr ''real'')],
      nd_failure_message = None, nd_created_at = 0, nd_decision_id = None, nd_soar_correlation_id = None\<rparr>"

definition wit_old_db :: "execution list \<Rightarrow> delivery_attempt list \<Rightarrow> legacy_db" where
  "wit_old_db xs as =
     \<lparr>lg_queue = queue_init, lg_executions = \<lparr>playbook_executions = xs, exec_seq = 2\<rparr>,
      lg_approvals = approval_init True, lg_commands = command_init [], lg_attempts = as,
      lg_approval_links = (\<lambda>i. (None, None)), lg_audit = []\<rparr>"

definition wit_sent :: legacy_db where
  "wit_sent = wit_old_db [wit_old_execution ESuccess [PDict [(''executed'', PBool True)], PDict [(''executed'', PBool False)]]]
     [wit_old_attempt]"

definition wit_refused :: legacy_db where
  "wit_refused = wit_old_db [wit_old_execution ENotActioned []] []"

definition wit_sender :: execution where
  "wit_sender = wit_old_execution ESuccess [PDict [(''executed'', PBool True)], PDict [(''executed'', PBool False)]]"

lemma wit_sender_fields:
  "ex_id wit_sender = 1" "ex_decision_id wit_sender = None" "ex_status wit_sender = ESuccess"
  "ex_playbook_id wit_sender = ''notify''" "ex_failure_reason wit_sender = None"
  by (simp_all add: wit_sender_def wit_old_execution_def new_execution_def)

lemma wit_sent_tables:
  "playbook_executions (lg_executions wit_sent) = [wit_sender]" "lg_attempts wit_sent = [wit_old_attempt]"
  "response_actions_queue (lg_queue wit_sent) = []" "response_actions_log (lg_commands wit_sent) = []"
  "approval_requests (lg_approvals wit_sent) = []" "lg_audit wit_sent = []" "lg_outcomes wit_sent = outcome_init"
  by (simp_all add: wit_sent_def wit_old_db_def wit_sender_def queue_init_def command_init_def approval_init_def)

lemma wit_sent_confirmed: "real_notification_confirmed wit_old_env wit_sent 1 = Inr True"
  by code_simp


theorem refused_execution_has_no_outcome_witness:
  "isl (resolve_playbook_execution_outcome wit_old_env 1 wit_refused) \<and>
   (\<exists>r. resolve_playbook_execution_outcome wit_old_env 1 wit_sent = Inr (Some r) \<and> rm_inferred r)"
proof
  have "select_id ex_id 1 (playbook_executions (lg_executions wit_refused)) = Some (wit_old_execution ENotActioned [])"
    by (simp add: wit_refused_def wit_old_db_def wit_old_execution_def new_execution_def select_id_def fetchone_def)
  from refused_execution_has_no_outcome [OF this, of wit_old_env False]
  show "isl (resolve_playbook_execution_outcome wit_old_env 1 wit_refused)"
    by (simp add: serial_id_def wit_old_execution_def new_execution_def wit_refused_def wit_old_db_def
        real_notification_confirmed_def)
  have "select_id ex_id 1 (playbook_executions (lg_executions wit_sent)) = Some wit_sender"
    by (simp add: wit_sent_tables wit_sender_fields select_id_def fetchone_def)
  from refused_execution_has_no_outcome [OF this _ _ wit_sent_confirmed]
  show "\<exists>r. resolve_playbook_execution_outcome wit_old_env 1 wit_sent = Inr (Some r) \<and> rm_inferred r"
    by (simp add: serial_id_def wit_sender_fields)
qed

theorem dry_run_forgets_real_sends_witness:
  "\<exists>ms m. planned_mappings wit_old_env wit_sent = Inr ms \<and> m \<in> set ms \<and> lm_playbook_execution_id m = Some 1 \<and>
     \<not> lm_external_executed m"
proof -
  have "(case planned_mappings wit_old_env wit_sent of
      Inr ms \<Rightarrow> list_ex (\<lambda>m. lm_playbook_execution_id m = Some 1) ms | _ \<Rightarrow> False)" by code_simp
  then obtain ms m where m: "planned_mappings wit_old_env wit_sent = Inr ms" "m \<in> set ms"
      "lm_playbook_execution_id m = Some 1" by (auto simp: list_ex_iff split: sum.splits)
  have "\<not> fst (snd (playbook_step_evidence (latest_playbook_step wit_old_env (PList (ex_steps_log wit_sender)))))"
    by code_simp
  then have "\<not> lm_external_executed m"
    using dry_run_forgets_real_sends [OF m(1,2), of wit_sender] m(3)
    by (simp add: wit_sent_tables wit_sender_fields wit_old_attempt_def)
  with m show ?thesis by blast
qed

theorem backfill_only_links_witness:
  "outcome_inv (lg_outcomes (snd (backfill_run wit_old_env wit_old_uuid wit_old_clock True wit_sent)))"
proof -
  have "outcome_inv (lg_outcomes wit_sent)"
    using outcome_inv_init by (simp add: wit_sent_tables)
  from backfill_only_links [OF this surjective_pairing] show ?thesis by blast
qed


theorem refused_execution_fails_backfill_witness:
  "isl (fst (backfill_run wit_old_env wit_old_uuid wit_old_clock True wit_refused))"
proof -
  have "wit_old_execution ENotActioned [] \<in> set (playbook_executions (lg_executions wit_refused))"
    "distinct (map ex_id (playbook_executions (lg_executions wit_refused)))"
    by (simp_all add: wit_refused_def wit_old_db_def)
  moreover have "get_outcome_event_by_idempotency_key k (lg_outcomes wit_refused) = None" for k
    by (simp add: wit_refused_def wit_old_db_def command_init_def outcome_init_def
        get_outcome_event_by_idempotency_key_def fetchone_def)
  ultimately show ?thesis
    using refused_execution_fails_backfill [of "wit_old_execution ENotActioned []" wit_refused wit_old_env wit_old_uuid wit_old_clock]
    by (auto simp: wit_old_execution_def new_execution_def)
qed

end
