(* ===== verification/Ingest_Automation.thy ===== *)
theory Ingest_Automation
  imports Response_Commands Response_Queue Playbook_Definitions
begin

text \<open>
  What happens to the alerts that an ingested event has raised, after they are committed:
  \<open>engines/soar_playbook_orchestrator.py\<close> queues an execution of every enabled playbook that matches,
  \<open>engines/soar_enqueue_orchestrator.py\<close> queues the alert's own response action when no playbook did, and
  \<open>routes/ingest_routes.py\<close> runs the one after the other, each in a transaction of its own.

  PostgreSQL refuses every statement of a transaction after one that failed, until it is rolled back to
  a savepoint or as a whole, and a commit is then a rollback: \<open>ad_aborted\<close> is that condition.

  Shown here: the stores keep their invariants, an alert is never handled by a playbook and by the queue,
  and no alert with an action is lost by a transaction that stays intact. The entries have the types ingestion
  gives them (ids, addresses and actions are absent or well typed). Notifications are not modelled; they are
  sent between the two transactions, in one of their own.
\<close>

subsection \<open>State\<close>

record automation_env =
  au_formats :: py_formats
  au_sha256 :: "string \<Rightarrow> string"
  au_uuid :: "nat \<Rightarrow> string"
  au_alerts :: "alert list"
  au_definitions :: definition_table

record automation_db =
  ad_queue :: queue_db
  ad_execs :: exec_db
  ad_outcomes :: outcome_db
  ad_aborted :: bool

text \<open>An entry of \<open>alerts_created\<close>; one that is not a dictionary is \<open>None\<close>.\<close>

record created_alert =
  ca_alert_id :: "row_id option"
  ca_source_ip :: "string option"
  ca_response_action :: "string option"
  ca_alert_type :: "string option"

definition on_queue :: "(queue_db, 'a) py \<Rightarrow> (automation_db, 'a) py" where
  "on_queue m s = (case m (ad_queue s) of (r, t) \<Rightarrow> (r, s\<lparr>ad_queue := t\<rparr>))"

definition on_execs :: "(exec_db, 'a) py \<Rightarrow> (automation_db, 'a) py" where
  "on_execs m s = (case m (ad_execs s) of (r, t) \<Rightarrow> (r, s\<lparr>ad_execs := t\<rparr>))"

definition on_outcomes :: "(outcome_db, 'a) py \<Rightarrow> (automation_db, 'a) py" where
  "on_outcomes m s = (case m (ad_outcomes s) of (r, t) \<Rightarrow> (r, s\<lparr>ad_outcomes := t\<rparr>))"

text \<open>The errors that the database raises; the others are raised before a statement is sent.\<close>

fun db_error :: "py_error \<Rightarrow> bool" where
  "db_error (IntegrityError _) = True"
| "db_error (DataError _) = True"
| "db_error _ = False"

definition TRANSACTION_ABORTED :: py_error where
  "TRANSACTION_ABORTED =
     OtherException ''current transaction is aborted, commands ignored until end of transaction block''"

definition statement :: "(automation_db, 'a) py \<Rightarrow> (automation_db, 'a) py" where
  "statement m s =
     (if ad_aborted s then (Inl TRANSACTION_ABORTED, s)
      else case m s of
             (Inl e, t) \<Rightarrow> (Inl e, t\<lparr>ad_aborted := db_error e\<rparr>)
           | (Inr x, t) \<Rightarrow> (Inr x, t))"

text \<open>The tables of \<open>c\<close>, with what a rollback does not take back from \<open>s\<close>.\<close>

definition automation_rollback :: "automation_db \<Rightarrow> automation_db \<Rightarrow> automation_db" where
  "automation_rollback c s =
     \<lparr>ad_queue = (ad_queue c)\<lparr>queue_seq := queue_seq (ad_queue s)\<rparr>,
      ad_execs = (ad_execs c)\<lparr>exec_seq := exec_seq (ad_execs s)\<rparr>,
      ad_outcomes = (ad_outcomes c)\<lparr>decision_seq := decision_seq (ad_outcomes s),
        outcome_seq := outcome_seq (ad_outcomes s), uuids_drawn := uuids_drawn (ad_outcomes s)\<rparr>,
      ad_aborted = False\<rparr>"

definition automation_commit :: "automation_db \<Rightarrow> automation_db \<Rightarrow> automation_db" where
  "automation_commit c s = (if ad_aborted s then automation_rollback c s else s)"

text \<open>\<open>SAVEPOINT .. RELEASE SAVEPOINT\<close> around a body whose exceptions are logged and forgotten; in an aborted
  transaction the savepoint itself fails.\<close>

definition in_savepoint :: "(automation_db, 'a) py \<Rightarrow> (automation_db, 'a option) py" where
  "in_savepoint m s =
     (if ad_aborted s then (Inr None, s)
      else case m s of
             (Inl _, t) \<Rightarrow> (Inr None, automation_rollback s t)
           | (Inr x, t) \<Rightarrow> (Inr (Some x), t))"

subsection \<open>Queueing playbooks\<close>

definition get_alert_source_ip :: "automation_env \<Rightarrow> row_id option \<Rightarrow> string option" where
  "get_alert_source_ip env alert_id =
     (case Option.bind alert_id (\<lambda>i. fetch_alert i (au_alerts env)) of
        None \<Rightarrow> None
      | Some a \<Rightarrow> if coalesce (alert.al_source_ip a) [] = [] then None else alert.al_source_ip a)"

definition get_parent_soar_correlation_id :: "row_id \<Rightarrow> automation_db \<Rightarrow> string option" where
  "get_parent_soar_correlation_id alert_id s =
     (if ad_aborted s then None
      else case get_latest_outcome_for_alert alert_id (ad_outcomes s) of
             Inr (Some e) \<Rightarrow> Some (oe_soar_correlation_id e)
           | _ \<Rightarrow> None)"

text \<open>The decision and the first event of an execution, on their arguments.\<close>

definition execution_decision ::
  "automation_env \<Rightarrow> row_id \<Rightarrow> string \<Rightarrow> row_id option \<Rightarrow> row_id option \<Rightarrow> string option \<Rightarrow> decision_args" where
  "execution_decision env execution_id playbook_id alert_id incident_id parent =
     (decision_args0 ''run_playbook'' ''playbook''
        (''Playbook '' @ playbook_id @ '' selected for simulated execution.''))
       \<lparr>da_alert_id := alert_id, da_incident_id := incident_id, da_source_ip := get_alert_source_ip env alert_id,
        da_playbook_id := Some playbook_id, da_playbook_execution_id := Some execution_id,
        da_parent_soar_correlation_id := parent,
        da_safe_metadata := Some [(''playbook_id'', PStr playbook_id), (''playbook_execution_id'', PInt execution_id)]\<rparr>"

definition initial_event ::
  "automation_env \<Rightarrow> response_decision \<Rightarrow> row_id \<Rightarrow> string \<Rightarrow> row_id option \<Rightarrow> row_id option \<Rightarrow> string \<Rightarrow> string option \<Rightarrow>
   items \<Rightarrow> outcome_args" where
  "initial_event env d execution_id playbook_id alert_id incident_id event_type key metadata =
     (outcome_args0 ''simulation'' ''selected'' ''system'' (''Playbook '' @ playbook_id @ '' execution created.''))
       \<lparr>oa_decision_id := Some (rd_id d), oa_soar_correlation_id := Some (rd_soar_correlation_id d),
        oa_event_type := Some event_type, oa_simulated := True, oa_reason_code := Some ''simulation_mode'',
        oa_alert_id := alert_id, oa_incident_id := incident_id, oa_source_ip := get_alert_source_ip env alert_id,
        oa_playbook_execution_id := Some execution_id,
        oa_idempotency_key := Some (or_text key (''playbook-'' @ event_type @ ''-'' @ show_int execution_id)),
        oa_metadata := Some (foldl (\<lambda>d (k, v). dict_set d k v)
          [(''playbook_id'', PStr playbook_id), (''playbook_execution_id'', PInt execution_id)] metadata)\<rparr>"

definition create_and_link_playbook_execution_decision ::
  "automation_env \<Rightarrow> clock \<Rightarrow> row_id \<Rightarrow> string \<Rightarrow> row_id option \<Rightarrow> row_id option \<Rightarrow> string option \<Rightarrow> string \<Rightarrow>
   string option \<Rightarrow> items \<Rightarrow> (automation_db, response_decision option) py" where
  "create_and_link_playbook_execution_decision env clk execution_id playbook_id alert_id incident_id parent event_type
      key metadata =
     py_bind (in_savepoint
        (py_bind (on_outcomes (create_response_decision (au_uuid env) clk
                    (execution_decision env execution_id playbook_id alert_id incident_id parent)))
         (\<lambda>d. py_bind (on_execs (set_playbook_execution_canonical_linkage execution_id (rd_id d) (rd_soar_correlation_id d)))
         (\<lambda>_. ret d))))
       (\<lambda>decision. case decision of
            None \<Rightarrow> ret None
          | Some d \<Rightarrow>
              py_bind (in_savepoint (on_outcomes (append_outcome_event clk
                (initial_event env d execution_id playbook_id alert_id incident_id event_type key metadata))))
                (\<lambda>_. ret (Some d)))"

record orchestration_item =
  oi_index :: nat
  oi_alert_id :: "row_id option"
  oi_playbook_id :: "string option"
  oi_execution_id :: "row_id option"
  oi_status :: string
  oi_skip_reason :: "string option"
  oi_error :: "py_error option"

record orchestration_summary =
  os_processed_alerts :: nat
  os_matched_playbooks :: nat
  os_created :: nat
  os_duplicates :: nat
  os_skipped :: nat
  os_errors :: nat

type_synonym orchestration = "orchestration_summary \<times> orchestration_item list"

definition summary0 :: orchestration_summary where
  "summary0 = \<lparr>os_processed_alerts = 0, os_matched_playbooks = 0, os_created = 0, os_duplicates = 0, os_skipped = 0,
     os_errors = 0\<rparr>"

definition orchestration_result ::
  "nat \<Rightarrow> row_id option \<Rightarrow> string option \<Rightarrow> row_id option \<Rightarrow> string \<Rightarrow> orchestration_item" where
  "orchestration_result index alert_id playbook_id execution_id status =
     \<lparr>oi_index = index, oi_alert_id = alert_id, oi_playbook_id = playbook_id, oi_execution_id = execution_id,
      oi_status = status, oi_skip_reason = None, oi_error = None\<rparr>"

definition pending_arguments :: "string \<Rightarrow> row_id \<Rightarrow> execution_args" where
  "pending_arguments playbook_id alert_id =
     \<lparr>ea_playbook_id = playbook_id, ea_alert_id = Some alert_id, ea_incident_id = None, ea_decision_id = None,
      ea_soar_correlation_id = None, ea_parent_execution_id = None, ea_chain_depth = 0\<rparr>"

text \<open>One playbook that matched.\<close>

definition schedule_playbook ::
  "automation_env \<Rightarrow> clock \<Rightarrow> nat \<Rightarrow> row_id \<Rightarrow> string option \<Rightarrow> playbook_definition \<Rightarrow> orchestration \<Rightarrow>
   (automation_db, orchestration) py" where
  "schedule_playbook env clk index alert_id parent playbook acc s =
     (case acc of (sm, items) \<Rightarrow>
      let p = pd_id playbook; result = orchestration_result index (Some alert_id)
      in if p = []
         then (Inr (sm\<lparr>os_skipped := os_skipped sm + 1\<rparr>,
                 items @ [(result None None ''skipped'')\<lparr>oi_skip_reason := Some ''missing_playbook_id''\<rparr>]), s)
         else
           let sm1 = sm\<lparr>os_matched_playbooks := os_matched_playbooks sm + 1\<rparr>
           in case statement (on_execs (create_pending_playbook_execution_once clk (pending_arguments p alert_id))) s of
                (Inl e, s1) \<Rightarrow>
                  (Inr (sm1\<lparr>os_errors := os_errors sm1 + 1\<rparr>,
                     items @ [(result (Some p) None ''error'')\<lparr>oi_error := Some e\<rparr>]), s1)
              | (Inr None, s1) \<Rightarrow>
                  (Inr (sm1\<lparr>os_duplicates := os_duplicates sm1 + 1\<rparr>, items @ [result (Some p) None ''duplicate'']), s1)
              | (Inr (Some i), s1) \<Rightarrow>
                  py_bind (create_and_link_playbook_execution_decision env clk i p (Some alert_id) None parent ''pending'' None [])
                    (\<lambda>_. ret (sm1\<lparr>os_created := os_created sm1 + 1\<rparr>, items @ [result (Some p) (Some i) ''created''])) s1)"

fun schedule_playbooks ::
  "automation_env \<Rightarrow> clock \<Rightarrow> nat \<Rightarrow> row_id \<Rightarrow> string option \<Rightarrow> playbook_definition list \<Rightarrow> orchestration \<Rightarrow>
   (automation_db, orchestration) py" where
  "schedule_playbooks env clk index alert_id parent [] acc = ret acc"
| "schedule_playbooks env clk index alert_id parent (p # ps) acc =
     py_bind (schedule_playbook env clk index alert_id parent p acc)
       (schedule_playbooks env clk index alert_id parent ps)"

text \<open>\<open>match_playbooks\<close> answers every exception with no match, so the caller's handler of its exceptions is
  never reached; in an aborted transaction its first query raises.\<close>

definition matching_playbooks :: "automation_env \<Rightarrow> row_id \<Rightarrow> automation_db \<Rightarrow> playbook_definition list" where
  "matching_playbooks env alert_id s =
     (if ad_aborted s then [] else match_playbooks (au_formats env) (au_alerts env) alert_id (au_definitions env))"

definition schedule_alert ::
  "automation_env \<Rightarrow> clock \<Rightarrow> nat \<Rightarrow> created_alert option \<Rightarrow> orchestration \<Rightarrow> (automation_db, orchestration) py" where
  "schedule_alert env clk index entry acc s =
     (case acc of (sm, items) \<Rightarrow>
      let skipped = (\<lambda>reason. (Inr (sm\<lparr>os_skipped := os_skipped sm + 1\<rparr>, items @
            [(orchestration_result index None None None ''skipped'')\<lparr>oi_skip_reason := Some reason\<rparr>]), s))
      in case entry of
           None \<Rightarrow> skipped ''invalid_alert_dict''
         | Some a \<Rightarrow>
             (case ca_alert_id a of
                None \<Rightarrow> skipped ''missing_alert_id''
              | Some i \<Rightarrow>
                  let sm1 = sm\<lparr>os_processed_alerts := os_processed_alerts sm + 1\<rparr>;
                      parent = get_parent_soar_correlation_id i s;
                      matches = matching_playbooks env i s
                  in if matches = []
                     then (Inr (sm1, items @ [orchestration_result index (Some i) None None ''no_match'']), s)
                     else schedule_playbooks env clk index i parent matches (sm1, items) s))"

fun schedule_alerts ::
  "automation_env \<Rightarrow> clock \<Rightarrow> nat \<Rightarrow> created_alert option list \<Rightarrow> orchestration \<Rightarrow> (automation_db, orchestration) py" where
  "schedule_alerts env clk index [] acc = ret acc"
| "schedule_alerts env clk index (a # as) acc =
     py_bind (schedule_alert env clk index a acc) (schedule_alerts env clk (index + 1) as)"

definition create_pending_executions_for_committed_alerts ::
  "automation_env \<Rightarrow> clock \<Rightarrow> created_alert option list \<Rightarrow> (automation_db, orchestration) py" where
  "create_pending_executions_for_committed_alerts env clk entries = schedule_alerts env clk 0 entries (summary0, [])"

subsection \<open>Queueing actions\<close>

record enqueue_item =
  eq_alert_id :: "row_id option"
  eq_source_ip :: "string option"
  eq_action :: "string option"
  eq_queue_id :: "row_id option"
  eq_skipped :: bool
  eq_status :: string
  eq_skip_reason :: "string option"
  eq_error :: "py_error option"
  eq_index :: nat

definition enqueue_result ::
  "nat \<Rightarrow> row_id option \<Rightarrow> string option \<Rightarrow> string option \<Rightarrow> string \<Rightarrow> string \<Rightarrow> enqueue_item" where
  "enqueue_result index alert_id source_ip action status reason =
     \<lparr>eq_alert_id = alert_id, eq_source_ip = source_ip, eq_action = action, eq_queue_id = None, eq_skipped = True,
      eq_status = status, eq_skip_reason = Some reason, eq_error = None, eq_index = index\<rparr>"

definition first_missing_required_field :: "row_id option \<Rightarrow> string option \<Rightarrow> string option \<Rightarrow> string option" where
  "first_missing_required_field alert_id source_ip action =
     (if alert_id = None then Some ''alert_id''
      else if source_ip = None then Some ''source_ip''
      else if action = None then Some ''response_action''
      else None)"

definition infer_decision_source :: "created_alert \<Rightarrow> string" where
  "infer_decision_source a =
     (if contains ''correl'' (lower (coalesce (ca_alert_type a) [])) then ''correlation'' else ''detection_default'')"

definition queued_decision :: "created_alert \<Rightarrow> row_id \<Rightarrow> string \<Rightarrow> string \<Rightarrow> row_id \<Rightarrow> decision_args" where
  "queued_decision a alert_id source_ip action queue_id =
     (decision_args0 action (infer_decision_source a)
        (''Response '' @ [CHR 0x27] @ action @ [CHR 0x27] @ '' selected and queued in simulation mode.''))
       \<lparr>da_alert_id := Some alert_id, da_source_ip := Some source_ip, da_queue_id := Some queue_id\<rparr>"

definition queued_event :: "row_id \<Rightarrow> row_id \<Rightarrow> string \<Rightarrow> string \<Rightarrow> row_id \<Rightarrow> outcome_args" where
  "queued_event decision_id alert_id source_ip action queue_id =
     (outcome_args0 ''simulation'' ''queued'' ''system''
        (''Response '' @ [CHR 0x27] @ action @ [CHR 0x27] @ '' queued in simulation mode. No real execution has occurred.''))
       \<lparr>oa_decision_id := Some decision_id, oa_simulated := True, oa_reason_code := Some ''simulation_mode'',
        oa_queue_id := Some queue_id, oa_alert_id := Some alert_id, oa_source_ip := Some source_ip,
        oa_idempotency_key := Some (''queue-enqueue-'' @ show_int queue_id)\<rparr>"

text \<open>There is no savepoint here: an exception is logged, but what was written before it stays, and an error
  of the database leaves the transaction aborted.\<close>

definition try_write_canonical_enqueue_outcome ::
  "automation_env \<Rightarrow> clock \<Rightarrow> created_alert \<Rightarrow> row_id \<Rightarrow> string \<Rightarrow> string \<Rightarrow> row_id \<Rightarrow> automation_db \<Rightarrow> automation_db" where
  "try_write_canonical_enqueue_outcome env clk a alert_id source_ip action queue_id s =
     snd (py_bind (statement (on_outcomes (create_response_decision (au_uuid env) clk
            (queued_decision a alert_id source_ip action queue_id))))
       (\<lambda>d. py_bind (statement (on_queue (\<lambda>q.
              case set_queue_linkage queue_id (Some (rd_id d)) (Some (rd_soar_correlation_id d)) q of (r, q') \<Rightarrow> (Inr r, q'))))
       (\<lambda>_. statement (on_outcomes (append_outcome_event clk
              (queued_event (rd_id d) alert_id source_ip action queue_id))))) s)"

definition refusal_code :: "py_error \<Rightarrow> string" where
  "refusal_code e = (case e of CanonicalActionValidationError _ code \<Rightarrow> code | _ \<Rightarrow> [])"

definition enqueue_alert ::
  "automation_env \<Rightarrow> clock \<Rightarrow> row_id list \<Rightarrow> nat \<Rightarrow> created_alert option \<Rightarrow> automation_db \<Rightarrow>
   enqueue_item \<times> automation_db" where
  "enqueue_alert env clk excluded index entry s =
     (case entry of
        None \<Rightarrow> (enqueue_result index None None None ''skipped'' ''invalid_alert_dict'', s)
      | Some a \<Rightarrow>
          let alert_id = ca_alert_id a; source_ip = ca_source_ip a; action = ca_response_action a
          in if alert_id \<in> Some ` set excluded
             then (enqueue_result index alert_id source_ip action ''skipped'' ''playbook_precedence'', s)
             else case first_missing_required_field alert_id source_ip action of
                    Some f \<Rightarrow> (enqueue_result index alert_id source_ip action ''skipped'' (''missing_'' @ f), s)
                  | None \<Rightarrow>
                      (case validate_action_for_response_queue action of
                         Inl e \<Rightarrow> ((enqueue_result index alert_id source_ip action ''rejected'' (refusal_code e))
                                     \<lparr>eq_error := Some e\<rparr>, s)
                       | Inr act \<Rightarrow>
                           (case statement (on_queue (enqueue_response_action (au_sha256 env) clk alert_id source_ip (Some act) 3)) s of
                              (Inl e, s1) \<Rightarrow>
                                ((enqueue_result index alert_id source_ip (Some act) ''error'' ''enqueue_exception'')
                                   \<lparr>eq_error := Some e\<rparr>, s1)
                            | (Inr None, s1) \<Rightarrow>
                                (enqueue_result index alert_id source_ip (Some act) ''duplicate_skipped'' ''duplicate'', s1)
                            | (Inr (Some q), s1) \<Rightarrow>
                                ((enqueue_result index alert_id source_ip (Some act) ''enqueued'' [])
                                   \<lparr>eq_queue_id := Some q, eq_skipped := False, eq_skip_reason := None\<rparr>,
                                 try_write_canonical_enqueue_outcome env clk a (the alert_id) (the source_ip) act q s1))))"

fun enqueue_alerts ::
  "automation_env \<Rightarrow> clock \<Rightarrow> row_id list \<Rightarrow> nat \<Rightarrow> created_alert option list \<Rightarrow> automation_db \<Rightarrow>
   enqueue_item list \<times> automation_db" where
  "enqueue_alerts env clk excluded index [] s = ([], s)"
| "enqueue_alerts env clk excluded index (a # as) s =
     (case enqueue_alert env clk excluded index a s of
        (item, s1) \<Rightarrow> (case enqueue_alerts env clk excluded (index + 1) as s1 of (items, s2) \<Rightarrow> (item # items, s2)))"

definition enqueue_committed_alerts ::
  "automation_env \<Rightarrow> clock \<Rightarrow> created_alert option list \<Rightarrow> row_id list \<Rightarrow> automation_db \<Rightarrow>
   enqueue_item list \<times> automation_db" where
  "enqueue_committed_alerts env clk entries excluded s = enqueue_alerts env clk excluded 0 entries s"

subsection \<open>The route\<close>

definition create_playbook_executions_for_alerts ::
  "automation_env \<Rightarrow> clock \<Rightarrow> created_alert option list \<Rightarrow> automation_db \<Rightarrow> orchestration \<times> automation_db" where
  "create_playbook_executions_for_alerts env clk entries s =
     (case create_pending_executions_for_committed_alerts env clk entries s of
        (Inl _, t) \<Rightarrow> ((summary0\<lparr>os_errors := 1\<rparr>, []), automation_rollback s t)
      | (Inr r, t) \<Rightarrow> (r, automation_commit s t))"

definition playbook_claimed_alert_ids :: "orchestration \<Rightarrow> row_id list" where
  "playbook_claimed_alert_ids r =
     List.map_filter (\<lambda>item. if oi_status item \<in> {''created'', ''duplicate''} then oi_alert_id item else None) (snd r)"

definition automate_alerts ::
  "automation_env \<Rightarrow> clock \<Rightarrow> clock \<Rightarrow> created_alert option list \<Rightarrow> automation_db \<Rightarrow>
   (orchestration \<times> enqueue_item list) \<times> automation_db" where
  "automate_alerts env clk clk' entries s =
     (case create_playbook_executions_for_alerts env clk entries s of (r, s1) \<Rightarrow>
      (case enqueue_committed_alerts env clk' entries (playbook_claimed_alert_ids r) s1 of (items, s2) \<Rightarrow>
         ((r, items), automation_commit s1 s2)))"

subsection \<open>The stores keep their invariants\<close>

definition automation_ok :: "(string \<Rightarrow> string) \<Rightarrow> automation_db \<Rightarrow> bool" where
  "automation_ok sha256 s \<longleftrightarrow> queue_inv sha256 (ad_queue s) \<and> exec_inv (ad_execs s) \<and> outcome_inv (ad_outcomes s)"

definition automation_grows :: "automation_db \<Rightarrow> automation_db \<Rightarrow> bool" where
  "automation_grows s t \<longleftrightarrow>
     evolves q_id queue_step (response_actions_queue (ad_queue s)) (response_actions_queue (ad_queue t)) \<and>
     evolves ex_id exec_step (playbook_executions (ad_execs s)) (playbook_executions (ad_execs t)) \<and>
     (attempts_ok (ad_execs s) \<longrightarrow> attempts_ok (ad_execs t)) \<and>
     outcome_grows (ad_outcomes s) (ad_outcomes t)"

lemma automation_grows_refl: "automation_grows s s"
  by (simp add: automation_grows_def queue.evolves_refl execs.evolves_refl)

lemma automation_grows_trans: "automation_grows s t \<Longrightarrow> automation_grows t u \<Longrightarrow> automation_grows s u"
  unfolding automation_grows_def
  by (blast intro: queue.evolves_trans execs.evolves_trans outcome_grows_trans)

interpretation automation: program_logic "automation_ok sha256" automation_grows for sha256
  by unfold_locales (auto intro: automation_grows_refl automation_grows_trans)

text \<open>What a rollback gives back is well formed: the rows of the older table are below the newer sequence.\<close>

lemma wf_ids_later:
  "wf_ids key n t \<Longrightarrow> wf_ids key m u \<Longrightarrow> evolves key step t u \<Longrightarrow> wf_ids key m t"
  by (fastforce simp: wf_ids_def evolves_def)

lemma wf_ids_prefix: "wf_ids key n t \<Longrightarrow> wf_ids key m u \<Longrightarrow> prefix t u \<Longrightarrow> wf_ids key m t"
  by (auto simp: wf_ids_def dest: set_mono_prefix)

lemma automation_rollback_safe:
  assumes "automation_ok sha256 s" "automation_ok sha256 t" "automation_grows s t"
  shows "automation_ok sha256 (automation_rollback s t) \<and> automation_grows s (automation_rollback s t)"
proof -
  note a = assms(1) [unfolded automation_ok_def] and b = assms(2) [unfolded automation_ok_def]
    and g = assms(3) [unfolded automation_grows_def]
  have "wf_ids q_id (queue_seq (ad_queue t)) (response_actions_queue (ad_queue s))"
    by (rule wf_ids_later [where step = queue_step]) (use a b g in \<open>auto simp: queue_inv_def\<close>)
  then have "queue_inv sha256 ((ad_queue s)\<lparr>queue_seq := queue_seq (ad_queue t)\<rparr>)"
    using a by (simp add: queue_inv_def)
  moreover have "wf_ids ex_id (exec_seq (ad_execs t)) (playbook_executions (ad_execs s))"
    by (rule wf_ids_later [where step = exec_step]) (use a b g in \<open>auto simp: exec_inv_def\<close>)
  then have "exec_inv ((ad_execs s)\<lparr>exec_seq := exec_seq (ad_execs t)\<rparr>)"
    using a by (simp add: exec_inv_def)
  moreover have "wf_ids rd_id (decision_seq (ad_outcomes t)) (soar_response_decisions (ad_outcomes s))"
    "wf_ids oe_id (outcome_seq (ad_outcomes t)) (soar_response_outcome_events (ad_outcomes s))"
    by (rule wf_ids_prefix; use a b g in \<open>auto simp: outcome_inv_def outcome_grows_def\<close>)+
  then have "outcome_inv ((ad_outcomes s)\<lparr>decision_seq := decision_seq (ad_outcomes t),
        outcome_seq := outcome_seq (ad_outcomes t), uuids_drawn := uuids_drawn (ad_outcomes t)\<rparr>)"
    using a by (simp add: outcome_inv_def)
  ultimately show ?thesis
    by (simp add: automation_ok_def automation_grows_def automation_rollback_def queue.evolves_refl
        execs.evolves_refl outcome_grows_def attempts_ok_def)
qed

lemma commit_safe:
  "automation_ok sha256 s \<Longrightarrow> automation_ok sha256 t \<Longrightarrow> automation_grows s t \<Longrightarrow>
     automation_ok sha256 (automation_commit s t) \<and> automation_grows s (automation_commit s t)"
  using automation_rollback_safe by (simp add: automation_commit_def)

abbreviation keeps_automation :: "(string \<Rightarrow> string) \<Rightarrow> (automation_db, 'a) py \<Rightarrow> bool" where
  "keeps_automation sha256 \<equiv> keeps (automation_ok sha256) automation_grows"

lemma keeps_automation_queue:
  assumes "\<And>q. queue_inv sha256 q \<Longrightarrow> queue_safe sha256 q (snd (m q))"
  shows "keeps_automation sha256 (on_queue m)"
  unfolding keeps_def
proof (intro allI impI)
  fix s assume s: "automation_ok sha256 s"
  obtain r t where m: "m (ad_queue s) = (r, t)" by (cases "m (ad_queue s)")
  have "queue_inv sha256 (ad_queue s)" using s by (simp add: automation_ok_def)
  from assms [OF this] s show "automation_ok sha256 (snd (on_queue m s)) \<and> automation_grows s (snd (on_queue m s))"
    by (simp add: on_queue_def m automation_ok_def automation_grows_def queue_safe_def execs.evolves_refl)
qed

lemma keeps_automation_execs:
  assumes "\<And>x. exec_inv x \<Longrightarrow> exec_moves exec_step x (snd (m x))"
  shows "keeps_automation sha256 (on_execs m)"
  unfolding keeps_def
proof (intro allI impI)
  fix s assume s: "automation_ok sha256 s"
  obtain r t where m: "m (ad_execs s) = (r, t)" by (cases "m (ad_execs s)")
  have "exec_inv (ad_execs s)" using s by (simp add: automation_ok_def)
  from assms [OF this] s show "automation_ok sha256 (snd (on_execs m s)) \<and> automation_grows s (snd (on_execs m s))"
    by (simp add: on_execs_def m automation_ok_def automation_grows_def exec_moves_def queue.evolves_refl)
qed

lemma keeps_automation_outcomes:
  assumes "\<And>x. outcome_inv x \<Longrightarrow> outcome_inv (snd (m x)) \<and> outcome_grows x (snd (m x))"
  shows "keeps_automation sha256 (on_outcomes m)"
  unfolding keeps_def
proof (intro allI impI)
  fix s assume s: "automation_ok sha256 s"
  obtain r t where m: "m (ad_outcomes s) = (r, t)" by (cases "m (ad_outcomes s)")
  have "outcome_inv (ad_outcomes s)" using s by (simp add: automation_ok_def)
  from assms [OF this] s show "automation_ok sha256 (snd (on_outcomes m s)) \<and> automation_grows s (snd (on_outcomes m s))"
    by (simp add: on_outcomes_def m automation_ok_def automation_grows_def queue.evolves_refl execs.evolves_refl)
qed

lemma automation_flag [simp]:
  "automation_ok sha256 (s\<lparr>ad_aborted := b\<rparr>) = automation_ok sha256 s"
  "automation_grows s (t\<lparr>ad_aborted := b\<rparr>) = automation_grows s t"
  by (simp_all add: automation_ok_def automation_grows_def)

lemma keeps_statement: "keeps_automation sha256 m \<Longrightarrow> keeps_automation sha256 (statement m)"
  unfolding keeps_def
proof (intro allI impI)
  fix s assume k: "\<forall>s. automation_ok sha256 s \<longrightarrow> automation_ok sha256 (snd (m s)) \<and> automation_grows s (snd (m s))"
    and s: "automation_ok sha256 s"
  obtain r t where m: "m s = (r, t)" by (cases "m s")
  have "automation_ok sha256 t" "automation_grows s t" using k s m by (metis snd_conv)+
  then show "automation_ok sha256 (snd (statement m s)) \<and> automation_grows s (snd (statement m s))"
    using s by (cases r) (simp_all add: statement_def m automation_grows_refl)
qed

lemma keeps_in_savepoint: "keeps_automation sha256 m \<Longrightarrow> keeps_automation sha256 (in_savepoint m)"
  unfolding keeps_def
proof (intro allI impI)
  fix s assume k: "\<forall>s. automation_ok sha256 s \<longrightarrow> automation_ok sha256 (snd (m s)) \<and> automation_grows s (snd (m s))"
    and s: "automation_ok sha256 s"
  obtain r t where m: "m s = (r, t)" by (cases "m s")
  have "automation_ok sha256 t" "automation_grows s t" using k s m by (metis snd_conv)+
  then show "automation_ok sha256 (snd (in_savepoint m s)) \<and> automation_grows s (snd (in_savepoint m s))"
    using s automation_rollback_safe [OF s] by (cases r) (simp_all add: in_savepoint_def m automation_grows_refl)
qed

lemmas automation_rules = automation.keeps_bind automation.keeps_pure keeps_if keeps_case_option keeps_case_prod
  keeps_statement keeps_in_savepoint keeps_automation_queue keeps_automation_execs keeps_automation_outcomes
  create_decision_safe append_outcome_safe create_moves(2) operator_moves(3) enqueue_safe

lemma keeps_create_and_link:
  "keeps_automation sha256 (create_and_link_playbook_execution_decision env clk i p al inc parent ty key md)"
  unfolding create_and_link_playbook_execution_decision_def by (intro automation_rules)

lemma keeps_schedule_playbook:
  "keeps_automation sha256 (schedule_playbook env clk n al parent pb acc)"
  unfolding keeps_def
proof (intro allI impI)
  fix s assume s: "automation_ok sha256 s"
  let ?m = "statement (on_execs (create_pending_playbook_execution_once clk (pending_arguments (pd_id pb) al)))"
  obtain sm items where acc: "acc = (sm, items)" by (cases acc)
  obtain r s1 where m: "?m s = (r, s1)" by (cases "?m s")
  have "keeps_automation sha256 ?m" by (intro automation_rules)
  then have s1: "automation_ok sha256 s1" "automation_grows s s1" using s m by (auto simp: keeps_def dest!: spec [of _ s])
  have "keeps_automation sha256 (py_bind (create_and_link_playbook_execution_decision env clk i p al' inc parent ty key md) (\<lambda>_. ret x))"
    for i p al' inc ty key md and x :: orchestration by (intro automation_rules keeps_create_and_link)
  then have link: "automation_ok sha256 u \<and> automation_grows s u" if "u = snd (py_bind
      (create_and_link_playbook_execution_decision env clk i p al' inc parent ty key md) (\<lambda>_. ret x) s1)"
    for i p al' inc ty key md and x :: orchestration and u
    using s1 automation_grows_trans [OF s1(2)] unfolding that keeps_def by blast
  show "automation_ok sha256 (snd (schedule_playbook env clk n al parent pb acc s)) \<and>
      automation_grows s (snd (schedule_playbook env clk n al parent pb acc s))"
  proof (cases "pd_id pb = []")
    case True
    then show ?thesis using s by (simp add: schedule_playbook_def acc automation_grows_refl)
  next
    case False
    show ?thesis
    proof (cases r)
      case (Inl e)
      then show ?thesis using s1 False m by (simp add: schedule_playbook_def acc Let_def)
    next
      case (Inr i)
      then show ?thesis using s1 False m link [OF refl] by (cases i) (simp_all add: schedule_playbook_def acc Let_def del: py_bind.simps)
    qed
  qed
qed

lemma keeps_schedule_playbooks: "keeps_automation sha256 (schedule_playbooks env clk n al parent ps acc)"
proof (induction ps arbitrary: acc)
  case Nil
  show ?case unfolding schedule_playbooks.simps by (rule automation.keeps_pure)
next
  case (Cons p ps)
  show ?case unfolding schedule_playbooks.simps by (intro automation.keeps_bind keeps_schedule_playbook Cons.IH)
qed

lemma keeps_schedule_alert: "keeps_automation sha256 (schedule_alert env clk n entry acc)"
  using keeps_schedule_playbooks
  by (auto simp: keeps_def schedule_alert_def Let_def automation_grows_refl split: prod.split option.split)

lemma keeps_schedule_alerts: "keeps_automation sha256 (schedule_alerts env clk n entries acc)"
proof (induction entries arbitrary: n acc)
  case Nil
  show ?case unfolding schedule_alerts.simps by (rule automation.keeps_pure)
next
  case (Cons a as)
  show ?case unfolding schedule_alerts.simps by (intro automation.keeps_bind keeps_schedule_alert Cons.IH)
qed

lemma keeps_queue_linkage:
  "queue_inv sha256 q \<Longrightarrow>
     queue_safe sha256 q (snd (case set_queue_linkage i d c q of (r, q') \<Rightarrow> (Inr r, q')))"
  using linkage_safe [of sha256 q i d c] by (cases "set_queue_linkage i d c q") simp

lemma write_outcome_safe:
  assumes "automation_ok sha256 s"
  shows "automation_ok sha256 (try_write_canonical_enqueue_outcome env clk a al ip act q s) \<and>
    automation_grows s (try_write_canonical_enqueue_outcome env clk a al ip act q s)"
proof -
  have "keeps_automation sha256 (py_bind (statement (on_outcomes (create_response_decision (au_uuid env) clk
            (queued_decision a al ip act q))))
       (\<lambda>d. py_bind (statement (on_queue (\<lambda>t.
              case set_queue_linkage q (Some (rd_id d)) (Some (rd_soar_correlation_id d)) t of (r, t') \<Rightarrow> (Inr r, t'))))
       (\<lambda>_. statement (on_outcomes (append_outcome_event clk (queued_event (rd_id d) al ip act q))))))"
    by (intro automation_rules keeps_queue_linkage)
  then show ?thesis using assms by (simp add: keeps_def try_write_canonical_enqueue_outcome_def del: py_bind.simps)
qed

lemma enqueue_alert_safe:
  assumes "automation_ok (au_sha256 env) s"
  shows "automation_ok (au_sha256 env) (snd (enqueue_alert env clk excluded n entry s)) \<and>
    automation_grows s (snd (enqueue_alert env clk excluded n entry s))"
proof (cases entry)
  case None
  then show ?thesis using assms by (simp add: enqueue_alert_def automation_grows_refl)
next
  case (Some a)
  let ?m = "\<lambda>act. statement (on_queue (enqueue_response_action (au_sha256 env) clk (ca_alert_id a) (ca_source_ip a) (Some act) 3))"
  have k: "keeps_automation (au_sha256 env) (?m act)" for act by (intro automation_rules)
  have one: "automation_ok (au_sha256 env) s1 \<and> automation_grows s s1" if "?m act s = (r, s1)" for act r s1
    using k [of act] assms that by (auto simp: keeps_def dest!: spec [of _ s])
  then have two: "automation_ok (au_sha256 env) (try_write_canonical_enqueue_outcome env clk a al ip act q s1) \<and>
      automation_grows s (try_write_canonical_enqueue_outcome env clk a al ip act q s1)"
    if "?m act s = (r, s1)" for act r s1 al ip q
    using that write_outcome_safe automation_grows_trans by blast
  show ?thesis
  proof (cases "validate_action_for_response_queue (ca_response_action a)")
    case (Inl e)
    then show ?thesis using assms
      by (simp add: enqueue_alert_def Some Let_def automation_grows_refl split: option.split)
  next
    case (Inr act)
    obtain r s1 where m: "?m act s = (r, s1)" by (cases "?m act s")
    show ?thesis using assms one [OF m] two [OF m]
      by (auto simp: enqueue_alert_def Some Let_def Inr m automation_grows_refl split: option.split sum.split)
  qed
qed

lemma enqueue_alerts_safe:
  assumes "automation_ok (au_sha256 env) s"
  shows "automation_ok (au_sha256 env) (snd (enqueue_alerts env clk excluded n entries s)) \<and>
    automation_grows s (snd (enqueue_alerts env clk excluded n entries s))"
  using assms
proof (induction entries arbitrary: n s)
  case (Cons a as)
  obtain item s1 where 1: "enqueue_alert env clk excluded n a s = (item, s1)" by (cases "enqueue_alert env clk excluded n a s")
  have s1: "automation_ok (au_sha256 env) s1" "automation_grows s s1"
    using enqueue_alert_safe [OF Cons.prems, of clk excluded n a] by (simp_all add: 1)
  show ?case using Cons.IH [OF s1(1), of "n + 1"] s1(2) automation_grows_trans
    by (auto simp: 1 split: prod.split)
qed (simp add: automation_grows_refl)

lemma first_phase_safe:
  assumes "automation_ok sha256 s" "create_playbook_executions_for_alerts env clk entries s = (r, t)"
  shows "automation_ok sha256 t \<and> automation_grows s t"
proof -
  obtain x u where u: "create_pending_executions_for_committed_alerts env clk entries s = (x, u)"
    by (cases "create_pending_executions_for_committed_alerts env clk entries s")
  have "automation_ok sha256 u \<and> automation_grows s u"
    using keeps_schedule_alerts [of sha256 env clk 0 entries] assms(1) u
    by (auto simp: keeps_def create_pending_executions_for_committed_alerts_def) (metis snd_conv)+
  then show ?thesis using assms automation_rollback_safe commit_safe
    by (cases x) (auto simp: create_playbook_executions_for_alerts_def u)
qed

text \<open>C27: After alerts have been automated, in whatever state the stores were and whatever failed on the way:
  the queue, the executions and the outcomes keep the invariants of their stores, attempts that were within
  their limits stay so, no row is lost, rows move along their life cycles only, and the outcome tables only
  grow.\<close>

theorem automation_keeps_stores:
  assumes "queue_inv (au_sha256 env) (ad_queue s)" "exec_inv (ad_execs s)" "outcome_inv (ad_outcomes s)"
    and run: "automate_alerts env clk clk' entries s = (r, t)"
  shows "queue_inv (au_sha256 env) (ad_queue t) \<and> exec_inv (ad_execs t) \<and> outcome_inv (ad_outcomes t) \<and>
    evolves q_id queue_step (response_actions_queue (ad_queue s)) (response_actions_queue (ad_queue t)) \<and>
    evolves ex_id exec_step (playbook_executions (ad_execs s)) (playbook_executions (ad_execs t)) \<and>
    (attempts_ok (ad_execs s) \<longrightarrow> attempts_ok (ad_execs t)) \<and>
    outcome_grows (ad_outcomes s) (ad_outcomes t)"
proof -
  have s: "automation_ok (au_sha256 env) s" using assms(1-3) by (simp add: automation_ok_def)
  obtain x s1 where 1: "create_playbook_executions_for_alerts env clk entries s = (x, s1)"
    by (cases "create_playbook_executions_for_alerts env clk entries s")
  obtain items s2 where 2: "enqueue_committed_alerts env clk' entries (playbook_claimed_alert_ids x) s1 = (items, s2)"
    by (cases "enqueue_committed_alerts env clk' entries (playbook_claimed_alert_ids x) s1")
  have t: "t = automation_commit s1 s2" using run by (simp add: automate_alerts_def 1 2)
  note one = first_phase_safe [OF s 1]
  have "automation_ok (au_sha256 env) s2 \<and> automation_grows s1 s2"
    using enqueue_alerts_safe [of env s1 clk' "playbook_claimed_alert_ids x" 0 entries] one 2
    by (simp add: enqueue_committed_alerts_def)
  then have "automation_ok (au_sha256 env) t \<and> automation_grows s1 t" using one commit_safe t by blast
  with one show ?thesis using automation_grows_trans [of s s1 t] by (simp add: automation_ok_def automation_grows_def)
qed

subsection \<open>The first transaction: playbooks\<close>

abbreviation scheduled_pairs :: "automation_db \<Rightarrow> (string \<times> row_id option) set" where
  "scheduled_pairs s \<equiv> set (active_pairs (playbook_executions (ad_execs s)))"

definition scheduling_ok :: "automation_db \<Rightarrow> bool" where
  "scheduling_ok s \<longleftrightarrow> exec_inv (ad_execs s) \<and> \<not> ad_aborted s"

text \<open>The queue stays, active executions are only added, and the flag stays down.\<close>

definition schedules :: "automation_db \<Rightarrow> automation_db \<Rightarrow> bool" where
  "schedules s t \<longleftrightarrow> ad_queue t = ad_queue s \<and> scheduled_pairs s \<subseteq> scheduled_pairs t \<and>
     exec_seq (ad_execs s) \<le> exec_seq (ad_execs t)"

interpretation scheduling: program_logic scheduling_ok schedules
  by unfold_locales (auto simp: schedules_def)

lemma scheduling_outcomes: "keeps scheduling_ok schedules (on_outcomes m)"
  by (auto simp: keeps_def on_outcomes_def scheduling_ok_def schedules_def split: prod.split)

lemma linkage_pairs:
  "active_pairs (update_where p (\<lambda>r. r\<lparr>ex_decision_id := d, ex_soar_correlation_id := c\<rparr>) t) = active_pairs t"
  by (induction t) (auto simp: active_pairs_def exec_active_def)

lemma scheduling_linkage: "keeps scheduling_ok schedules (on_execs (set_playbook_execution_canonical_linkage i d c))"
  unfolding keeps_def
proof (intro allI impI)
  fix s assume s: "scheduling_ok s"
  obtain r db where run: "set_playbook_execution_canonical_linkage i d c (ad_execs s) = (r, db)"
    by (cases "set_playbook_execution_canonical_linkage i d c (ad_execs s)")
  have "exec_inv db"
    using operator_moves(3) [of "ad_execs s" i d c] s run by (simp add: exec_moves_def scheduling_ok_def)
  moreover have "active_pairs (playbook_executions db) = active_pairs (playbook_executions (ad_execs s)) \<and>
      exec_seq db = exec_seq (ad_execs s)"
    using run linkage_pairs
    by (auto simp: set_playbook_execution_canonical_linkage_def exec_update_def Let_def split: if_split_asm)
  ultimately show "scheduling_ok (snd (on_execs (set_playbook_execution_canonical_linkage i d c) s)) \<and>
      schedules s (snd (on_execs (set_playbook_execution_canonical_linkage i d c) s))"
    using s by (simp add: on_execs_def run scheduling_ok_def schedules_def)
qed

lemma scheduling_savepoint:
  assumes "keeps scheduling_ok schedules m"
  shows "keeps scheduling_ok schedules (in_savepoint m)"
  unfolding keeps_def
proof (intro allI impI)
  fix s assume s: "scheduling_ok s"
  obtain r t where m: "m s = (r, t)" by (cases "m s")
  have t: "scheduling_ok t" "schedules s t" using assms s m by (auto simp: keeps_def dest!: spec [of _ s])
  have "wf_ids ex_id (exec_seq (ad_execs t)) (playbook_executions (ad_execs s))"
    using s t(2) by (fastforce simp: scheduling_ok_def schedules_def exec_inv_def wf_ids_def)
  then have "scheduling_ok (automation_rollback s t)" "schedules s (automation_rollback s t)"
    using s t(2) by (simp_all add: scheduling_ok_def schedules_def automation_rollback_def exec_inv_def)
  then show "scheduling_ok (snd (in_savepoint m s)) \<and> schedules s (snd (in_savepoint m s))"
    using s t by (cases r) (simp_all add: in_savepoint_def m scheduling_ok_def)
qed

lemma scheduling_create_and_link:
  "keeps scheduling_ok schedules (create_and_link_playbook_execution_decision env clk i p al inc parent ty key md)"
  unfolding create_and_link_playbook_execution_decision_def
  by (intro scheduling.keeps_bind scheduling.keeps_pure scheduling_savepoint scheduling_outcomes scheduling_linkage
      keeps_case_option)

lemma in_savepoint_returns: "\<exists>x t. in_savepoint m s = (Inr x, t)"
  by (auto simp: in_savepoint_def split: prod.split sum.split)

lemma create_and_link_returns:
  "\<exists>d t. create_and_link_playbook_execution_decision env clk i p al inc parent ty key md s = (Inr d, t)"
proof -
  let ?m = "py_bind (on_outcomes (create_response_decision (au_uuid env) clk (execution_decision env i p al inc parent)))
         (\<lambda>d. py_bind (on_execs (set_playbook_execution_canonical_linkage i (rd_id d) (rd_soar_correlation_id d))) (\<lambda>_. ret d))"
  obtain x t where 1: "in_savepoint ?m s = (Inr x, t)" using in_savepoint_returns by blast
  show ?thesis
  proof (cases x)
    case None
    then show ?thesis unfolding create_and_link_playbook_execution_decision_def py_bind_run(1) [where m = "in_savepoint ?m" and s = s, OF 1]
      by (simp add: ret_def)
  next
    case (Some d)
    obtain y u where "in_savepoint (on_outcomes (append_outcome_event clk (initial_event env d i p al inc ty key md))) t = (Inr y, u)"
      using in_savepoint_returns by blast
    then show ?thesis unfolding create_and_link_playbook_execution_decision_def py_bind_run(1) [where m = "in_savepoint ?m" and s = s, OF 1]
      by (simp add: Some ret_def)
  qed
qed

text \<open>A pending execution of the pair is there afterwards: the new one or the one in its way.\<close>

lemma create_pending_run:
  assumes "exec_inv db"
  obtains k db' where "create_pending_playbook_execution_once clk (pending_arguments p i) db = (Inr k, db')"
    "exec_inv db'" "exec_seq db \<le> exec_seq db'" "set (active_pairs (playbook_executions db)) \<subseteq> set (active_pairs (playbook_executions db'))"
    "(p, Some i) \<in> set (active_pairs (playbook_executions db'))"
proof -
  let ?r = "new_execution clk (pending_arguments p i) (exec_seq db)"
  have pair: "active_pairs (playbook_executions db @ [?r]) = active_pairs (playbook_executions db) @ [(p, Some i)]"
    by (simp add: active_pairs_def new_execution_def pending_arguments_def exec_active_def)
  have idx: "distinct (active_pairs (playbook_executions db))" using assms by (simp add: exec_inv_def pair_index_ok_def)
  have arg: "ea_alert_id (pending_arguments p i) = Some i" by (simp add: pending_arguments_def)
  obtain k db' where ins: "exec_insert ?r db = (k, db')" by (cases "exec_insert ?r db")
  then have run: "create_pending_playbook_execution_once clk (pending_arguments p i) db = (Inr k, db')"
    by (simp add: create_pending_playbook_execution_once_def arg)
  have "exec_inv db'" using create_moves(2) [OF assms, of clk "pending_arguments p i"] run by (simp add: exec_moves_def)
  moreover have "exec_seq db' = exec_seq db + 1 \<and> playbook_executions db' =
      (if pair_index_ok (playbook_executions db @ [?r]) then playbook_executions db @ [?r] else playbook_executions db)"
    using ins by (auto simp: exec_insert_def Let_def split: if_split_asm)
  moreover have "(p, Some i) \<in> set (active_pairs (playbook_executions db))" if "\<not> pair_index_ok (playbook_executions db @ [?r])"
    using that idx by (simp add: pair_index_ok_def pair)
  ultimately show ?thesis using run that [of k db']
    by (cases "pair_index_ok (playbook_executions db @ [?r])") (auto simp: pair)
qed

definition claims_alert :: "row_id \<Rightarrow> orchestration_item \<Rightarrow> bool" where
  "claims_alert i item \<longleftrightarrow> oi_status item \<in> {''created'', ''duplicate''} \<and> oi_alert_id item = Some i"

text \<open>One playbook: an item is added, which claims the alert unless the playbook has no id.\<close>

lemma schedule_playbook_run:
  assumes "scheduling_ok s"
  obtains sm' item t where "schedule_playbook env clk n i parent pb (sm, items) s = (Inr (sm', items @ [item]), t)"
    "scheduling_ok t" "schedules s t" "pd_id pb \<noteq> [] \<longrightarrow> claims_alert i item \<and> (pd_id pb, Some i) \<in> scheduled_pairs t"
    "\<forall>j. claims_alert j item \<longrightarrow> j = i \<and> pd_id pb \<noteq> []"
proof (cases "pd_id pb = []")
  case True
  then show ?thesis using assms
    by (intro that [of _ "(orchestration_result n (Some i) None None ''skipped'')\<lparr>oi_skip_reason := Some ''missing_playbook_id''\<rparr>" s])
      (simp_all add: schedule_playbook_def schedules_def claims_alert_def orchestration_result_def)
next
  case False
  let ?m = "create_pending_playbook_execution_once clk (pending_arguments (pd_id pb) i)"
  obtain k db where run: "?m (ad_execs s) = (Inr k, db)" "exec_inv db" "exec_seq (ad_execs s) \<le> exec_seq db"
      "scheduled_pairs s \<subseteq> set (active_pairs (playbook_executions db))"
      "(pd_id pb, Some i) \<in> set (active_pairs (playbook_executions db))"
    using create_pending_run [of "ad_execs s" clk "pd_id pb" i] assms unfolding scheduling_ok_def by blast
  let ?s1 = "s\<lparr>ad_execs := db\<rparr>"
  have st: "statement (on_execs ?m) s = (Inr k, ?s1)" using assms run(1) by (simp add: statement_def on_execs_def scheduling_ok_def)
  have s1: "scheduling_ok ?s1" "schedules s ?s1" "(pd_id pb, Some i) \<in> scheduled_pairs ?s1"
    using assms run by (simp_all add: scheduling_ok_def schedules_def)
  have claims: "claims_alert j (orchestration_result n (Some i) p k' st') \<longleftrightarrow> j = i \<and> st' \<in> {''created'', ''duplicate''}" for j p k' st'
    by (auto simp: claims_alert_def orchestration_result_def)
  show ?thesis
  proof (cases k)
    case None
    show ?thesis
      by (rule that [of _ "orchestration_result n (Some i) (Some (pd_id pb)) None ''duplicate''" ?s1])
        (use False s1 st None in \<open>simp_all add: schedule_playbook_def Let_def claims\<close>)
  next
    case (Some e)
    obtain d t where link: "create_and_link_playbook_execution_decision env clk e (pd_id pb) (Some i) None parent ''pending'' None [] ?s1 = (Inr d, t)"
      using create_and_link_returns by blast
    have t: "scheduling_ok t" "schedules ?s1 t"
      using scheduling_create_and_link [of env clk e "pd_id pb" "Some i" None parent "''pending''" None "[]"] s1(1) link
      by (auto simp: keeps_def dest!: spec [of _ ?s1])
    show ?thesis
      by (rule that [of _ "orchestration_result n (Some i) (Some (pd_id pb)) (Some e) ''created''" t])
        (use False t s1 st Some link scheduling.rel_trans [OF s1(2) t(2)] in
          \<open>auto simp: schedule_playbook_def Let_def claims ret_def schedules_def\<close>)
  qed
qed

text \<open>All playbooks that match an alert, and all alerts: every pair is scheduled and claims its alert, and
  nothing else claims one.\<close>

lemma schedule_playbooks_run:
  assumes "scheduling_ok s"
  shows "\<exists>sm' its t. schedule_playbooks env clk n i parent ps (sm, items) s = (Inr (sm', items @ its), t) \<and>
    scheduling_ok t \<and> schedules s t \<and>
    (\<forall>pb \<in> set ps. pd_id pb \<noteq> [] \<longrightarrow> (pd_id pb, Some i) \<in> scheduled_pairs t \<and> list_ex (claims_alert i) its) \<and>
    (\<forall>j. list_ex (claims_alert j) its \<longrightarrow> j = i \<and> (\<exists>pb \<in> set ps. pd_id pb \<noteq> []))"
  using assms
proof (induction ps arbitrary: s sm items)
  case Nil
  then show ?case by (intro exI [of _ sm] exI [of _ "[]"] exI [of _ s]) (simp add: ret_def schedules_def)
next
  case (Cons p ps)
  from Cons.prems obtain sm1 item s1 where 1: "schedule_playbook env clk n i parent p (sm, items) s = (Inr (sm1, items @ [item]), s1)"
      "scheduling_ok s1" "schedules s s1" "pd_id p \<noteq> [] \<longrightarrow> claims_alert i item \<and> (pd_id p, Some i) \<in> scheduled_pairs s1"
      "\<forall>j. claims_alert j item \<longrightarrow> j = i \<and> pd_id p \<noteq> []"
    by (rule schedule_playbook_run)
  obtain sm2 its t where 2: "schedule_playbooks env clk n i parent ps (sm1, items @ [item]) s1 = (Inr (sm2, (items @ [item]) @ its), t)"
      "scheduling_ok t" "schedules s1 t"
      "\<forall>pb \<in> set ps. pd_id pb \<noteq> [] \<longrightarrow> (pd_id pb, Some i) \<in> scheduled_pairs t \<and> list_ex (claims_alert i) its"
      "\<forall>j. list_ex (claims_alert j) its \<longrightarrow> j = i \<and> (\<exists>pb \<in> set ps. pd_id pb \<noteq> [])"
    using Cons.IH [OF 1(2), of sm1 "items @ [item]"] by blast
  have "scheduled_pairs s1 \<subseteq> scheduled_pairs t" using 2(3) by (simp add: schedules_def)
  then have "pd_id p \<noteq> [] \<longrightarrow> claims_alert i item \<and> (pd_id p, Some i) \<in> scheduled_pairs t" using 1(4) by blast
  moreover have "schedule_playbooks env clk n i parent (p # ps) (sm, items) s = (Inr (sm2, items @ item # its), t)"
    using 1(1) 2(1) by simp
  moreover have "schedules s t" using 1(3) 2(3) by (rule scheduling.rel_trans)
  ultimately show ?case using 1(5) 2(2,4,5)
    by (intro exI [of _ sm2] exI [of _ "item # its"] exI [of _ t]) auto
qed

abbreviation alert_playbooks :: "automation_env \<Rightarrow> row_id \<Rightarrow> playbook_definition list" where
  "alert_playbooks env i \<equiv> match_playbooks (au_formats env) (au_alerts env) i (au_definitions env)"

text \<open>What a list of items has to do with the alerts they are about.\<close>

definition scheduled_for :: "automation_env \<Rightarrow> created_alert option list \<Rightarrow> orchestration_item list \<Rightarrow> automation_db \<Rightarrow> bool" where
  "scheduled_for env entries its t \<longleftrightarrow>
     (\<forall>a i pb. Some a \<in> set entries \<longrightarrow> ca_alert_id a = Some i \<longrightarrow> pb \<in> set (alert_playbooks env i) \<longrightarrow> pd_id pb \<noteq> [] \<longrightarrow>
        (pd_id pb, Some i) \<in> scheduled_pairs t \<and> list_ex (claims_alert i) its) \<and>
     (\<forall>j. list_ex (claims_alert j) its \<longrightarrow> (\<exists>pb \<in> set (alert_playbooks env j). pd_id pb \<noteq> []))"

lemma scheduled_forD:
  "scheduled_for env entries its t \<Longrightarrow> Some a \<in> set entries \<Longrightarrow> ca_alert_id a = Some i \<Longrightarrow>
     pb \<in> set (alert_playbooks env i) \<Longrightarrow> pd_id pb \<noteq> [] \<Longrightarrow>
     (pd_id pb, Some i) \<in> scheduled_pairs t \<and> list_ex (claims_alert i) its"
  unfolding scheduled_for_def by blast

lemma schedule_alert_run:
  assumes "scheduling_ok s"
  shows "\<exists>sm' its t. schedule_alert env clk n entry (sm, items) s = (Inr (sm', items @ its), t) \<and>
    scheduling_ok t \<and> schedules s t \<and> scheduled_for env [entry] its t"
proof -
  have quiet: "scheduled_for env [entry] [item] s"
    if "\<And>j. \<not> claims_alert j item" "\<And>a i. entry = Some a \<Longrightarrow> ca_alert_id a = Some i \<Longrightarrow> alert_playbooks env i = []" for item
    using that by (auto simp: scheduled_for_def)
  have skip: "\<not> claims_alert j ((orchestration_result n al None None ''skipped'')\<lparr>oi_skip_reason := w\<rparr>)"
    "\<not> claims_alert j (orchestration_result n al None None ''no_match'')" for j al w
    by (simp_all add: claims_alert_def orchestration_result_def)
  show ?thesis
  proof (cases "Option.bind entry ca_alert_id")
    case None
    then obtain w where "schedule_alert env clk n entry (sm, items) s = (Inr (sm\<lparr>os_skipped := os_skipped sm + 1\<rparr>, items @
            [(orchestration_result n None None None ''skipped'')\<lparr>oi_skip_reason := Some w\<rparr>]), s)"
      by (cases entry) (simp_all add: schedule_alert_def Let_def)
    moreover have "\<And>a i. entry = Some a \<Longrightarrow> ca_alert_id a \<noteq> Some i" using None by simp
    ultimately show ?thesis using assms quiet skip(1) scheduling.rel_refl by blast
  next
    case (Some i)
    then obtain a where a: "entry = Some a" "ca_alert_id a = Some i" by (cases entry) auto
    have m: "matching_playbooks env i s = alert_playbooks env i" using assms by (simp add: matching_playbooks_def scheduling_ok_def)
    let ?sm = "sm\<lparr>os_processed_alerts := os_processed_alerts sm + 1\<rparr>"
    show ?thesis
    proof (cases "alert_playbooks env i = []")
      case True
      then have "schedule_alert env clk n entry (sm, items) s =
          (Inr (?sm, items @ [orchestration_result n (Some i) None None ''no_match'']), s)"
        by (simp add: schedule_alert_def a Let_def m)
      moreover have "scheduled_for env [entry] [orchestration_result n (Some i) None None ''no_match''] s"
        using True skip(2) a by (intro quiet) auto
      ultimately show ?thesis using assms scheduling.rel_refl by blast
    next
      case False
      then have run: "schedule_alert env clk n entry (sm, items) s =
          schedule_playbooks env clk n i (get_parent_soar_correlation_id i s) (alert_playbooks env i) (?sm, items) s"
        by (simp add: schedule_alert_def a Let_def m)
      show ?thesis unfolding run
        using schedule_playbooks_run [OF assms, of env clk n i "get_parent_soar_correlation_id i s" "alert_playbooks env i" ?sm items] a
        by (fastforce simp: scheduled_for_def)
    qed
  qed
qed

lemma schedule_alerts_run:
  assumes "scheduling_ok s"
  shows "\<exists>sm' its t. schedule_alerts env clk n entries (sm, items) s = (Inr (sm', items @ its), t) \<and>
    scheduling_ok t \<and> schedules s t \<and> scheduled_for env entries its t"
  using assms
proof (induction entries arbitrary: n s sm items)
  case Nil
  then show ?case
    by (intro exI [of _ sm] exI [of _ "[]"] exI [of _ s]) (simp add: ret_def scheduled_for_def schedules_def)
next
  case (Cons a as)
  obtain sm1 i1 s1 where 1: "schedule_alert env clk n a (sm, items) s = (Inr (sm1, items @ i1), s1)"
      "scheduling_ok s1" "schedules s s1" "scheduled_for env [a] i1 s1"
    using schedule_alert_run [OF Cons.prems] by blast
  obtain sm2 i2 t where 2: "schedule_alerts env clk (n + 1) as (sm1, items @ i1) s1 = (Inr (sm2, (items @ i1) @ i2), t)"
      "scheduling_ok t" "schedules s1 t" "scheduled_for env as i2 t"
    using Cons.IH [OF 1(2)] by blast
  have "scheduled_pairs s1 \<subseteq> scheduled_pairs t" using 2(3) by (simp add: schedules_def)
  then have "scheduled_for env (a # as) (i1 @ i2) t"
    using 1(4) 2(4) unfolding scheduled_for_def list_ex_append set_simps by blast
  moreover have "schedule_alerts env clk n (a # as) (sm, items) s = (Inr (sm2, items @ (i1 @ i2)), t)" using 1(1) 2(1) by simp
  moreover have "schedules s t" using 1(3) 2(3) by (rule scheduling.rel_trans)
  ultimately show ?case using 2(2) by blast
qed

lemma first_phase_run:
  assumes "scheduling_ok s"
  obtains sm its t where "create_playbook_executions_for_alerts env clk entries s = ((sm, its), t)"
    "scheduling_ok t" "schedules s t" "scheduled_for env entries its t"
proof -
  obtain sm its t where t: "schedule_alerts env clk 0 entries (summary0, []) s = (Inr (sm, its), t)"
      "scheduling_ok t" "schedules s t" "scheduled_for env entries its t"
    using schedule_alerts_run [OF assms, of env clk 0 entries summary0 "[]"] by auto
  then show ?thesis
    by (intro that [of sm its t])
      (simp_all add: create_playbook_executions_for_alerts_def create_pending_executions_for_committed_alerts_def
        automation_commit_def scheduling_ok_def)
qed

lemma set_claimed: "i \<in> set (playbook_claimed_alert_ids (sm, its)) \<longleftrightarrow> list_ex (claims_alert i) its"
  by (induction its) (auto simp: playbook_claimed_alert_ids_def claims_alert_def List.map_filter_simps split: option.splits if_splits)

subsection \<open>The second transaction: actions\<close>

abbreviation queue_rows :: "automation_db \<Rightarrow> queue_row list" where
  "queue_rows s \<equiv> response_actions_queue (ad_queue s)"

text \<open>The executions stay, and the queue gets the rows \<open>new\<close>, whatever is linked to decisions.\<close>

definition queues :: "queue_row list \<Rightarrow> automation_db \<Rightarrow> automation_db \<Rightarrow> bool" where
  "queues new s t \<longleftrightarrow> ad_execs t = ad_execs s \<and>
     map unlinked (queue_rows t) = map unlinked (queue_rows s) @ map unlinked new \<and>
     (ad_aborted s \<longrightarrow> ad_aborted t)"

lemma queues_refl: "queues [] s s"
  by (simp add: queues_def)

lemma queues_trans: "queues new s t \<Longrightarrow> queues new' t u \<Longrightarrow> queues (new @ new') s u"
  by (simp add: queues_def)

interpretation linking: program_logic "\<lambda>_. True" "queues []"
  by unfold_locales (auto simp: queues_def)

lemma linking_outcomes: "keeps (\<lambda>_. True) (queues []) (on_outcomes m)"
  by (auto simp: keeps_def on_outcomes_def queues_def split: prod.split)

lemma linking_queue:
  "keeps (\<lambda>_. True) (queues []) (on_queue (\<lambda>q. case set_queue_linkage i d c q of (r, q') \<Rightarrow> (Inr r, q')))"
proof -
  have "map unlinked (update_where p (set_linkage d c) t) = map unlinked t" for p t
    by (induction t) (simp_all add: unlinked_def set_linkage_def)
  then show ?thesis by (auto simp: keeps_def on_queue_def queues_def set_queue_linkage_def Let_def)
qed

lemma linking_statement: "keeps (\<lambda>_. True) (queues []) m \<Longrightarrow> keeps (\<lambda>_. True) (queues []) (statement m)"
  by (auto simp: keeps_def statement_def queues_def split: prod.split sum.split) (metis snd_conv)+

lemma write_outcome_rows: "queues [] s (try_write_canonical_enqueue_outcome env clk a al ip act q s)"
proof -
  have "keeps (\<lambda>_. True) (queues []) (py_bind (statement (on_outcomes (create_response_decision (au_uuid env) clk
            (queued_decision a al ip act q))))
       (\<lambda>d. py_bind (statement (on_queue (\<lambda>t.
              case set_queue_linkage q (Some (rd_id d)) (Some (rd_soar_correlation_id d)) t of (r, t') \<Rightarrow> (Inr r, t'))))
       (\<lambda>_. statement (on_outcomes (append_outcome_event clk (queued_event (rd_id d) al ip act q))))))"
    by (intro linking.keeps_bind linking_statement linking_outcomes linking_queue)
  then show ?thesis by (simp add: keeps_def try_write_canonical_enqueue_outcome_def del: py_bind.simps)
qed

text \<open>A row that an entry of the list asks for.\<close>

definition asked_for :: "row_id list \<Rightarrow> created_alert option list \<Rightarrow> queue_row \<Rightarrow> bool" where
  "asked_for excluded entries r \<longleftrightarrow> q_status r = QPending \<and>
     (\<exists>a i ip. Some a \<in> set entries \<and> ca_alert_id a = Some i \<and> i \<notin> set excluded \<and> ca_source_ip a = Some ip \<and>
        q_alert_id r = Some i \<and> q_source_ip r = Some ip \<and>
        validate_action_for_response_queue (ca_response_action a) = Inr (q_action r))"

lemma validated_again:
  "validate_action_for_response_queue x = Inr act \<Longrightarrow> validate_action_for_response_queue (Some act) = Inr act"
proof -
  assume "validate_action_for_response_queue x = Inr act"
  then have "act \<in> set RESPONSE_QUEUE_ACTIONS" by (rule queue_validator_range)
  moreover have "list_all (\<lambda>v. validate_action_for_response_queue (Some v) = Inr v) RESPONSE_QUEUE_ACTIONS" by code_simp
  ultimately show ?thesis by (simp add: list_all_iff)
qed

lemma statement_enqueue:
  assumes "validate_action_for_response_queue x = Inr act"
  obtains (aborted) "ad_aborted s" "statement (on_queue (enqueue_response_action sha clk al ip (Some act) 3)) s = (Inl TRANSACTION_ABORTED, s)"
  | (there) r s1 where "statement (on_queue (enqueue_response_action sha clk al ip (Some act) 3)) s = (Inr None, s1)"
      "r \<in> set (queue_rows s)" "q_idempotency_key r = compute_idempotency_key sha al ip act" "queues [] s s1"
  | (added) k s1 where "statement (on_queue (enqueue_response_action sha clk al ip (Some act) 3)) s = (Inr (Some k), s1)"
      "queues [new_queue_row sha clk al ip act 3 k] s s1"
proof (cases "ad_aborted s")
  case True
  then show ?thesis by (intro aborted) (simp_all add: statement_def)
next
  case False
  let ?r = "new_queue_row sha clk al ip act 3 (queue_seq (ad_queue s))"
  have key: "q_idempotency_key ?r = compute_idempotency_key sha al ip act" "q_id ?r = queue_seq (ad_queue s)"
    by (simp_all add: new_queue_row_def)
  show ?thesis
  proof (cases "\<exists>r \<in> set (queue_rows s). q_idempotency_key r = compute_idempotency_key sha al ip act")
    case True
    then obtain r where "r \<in> set (queue_rows s)" "q_idempotency_key r = compute_idempotency_key sha al ip act" by blast
    then show ?thesis using False True
      by (intro there [of "s\<lparr>ad_queue := (ad_queue s)\<lparr>queue_seq := queue_seq (ad_queue s) + 1\<rparr>\<rparr>" r])
        (simp_all add: statement_def on_queue_def enqueue_response_action_def validated_again [OF assms] Let_def key queues_def)
  next
    case f: False
    then show ?thesis using False
      by (intro added [of "queue_seq (ad_queue s)" "s\<lparr>ad_queue := (ad_queue s)\<lparr>queue_seq := queue_seq (ad_queue s) + 1,
          response_actions_queue := queue_rows s @ [?r]\<rparr>\<rparr>"])
        (simp_all add: statement_def on_queue_def enqueue_response_action_def validated_again [OF assms] Let_def key queues_def)
  qed
qed

lemma queues_one: "queues new s t \<Longrightarrow> queues [] t u \<Longrightarrow> queues new s u"
  using queues_trans [of new s t "[]" u] by simp

lemma Some_image: "Some i \<in> Some ` A \<longleftrightarrow> i \<in> A"
  by blast

lemma enqueue_alert_run:
  assumes "enqueue_alert env clk excluded n entry s = (item, t)"
  shows "\<exists>new. queues new s t \<and> (\<forall>r \<in> set new. asked_for excluded [entry] r)"
proof (cases "\<exists>a i ip act. entry = Some a \<and> ca_alert_id a = Some i \<and> i \<notin> set excluded \<and> ca_source_ip a = Some ip \<and>
    ca_response_action a \<noteq> None \<and> validate_action_for_response_queue (ca_response_action a) = Inr act")
  case True
  then obtain a i ip act where a: "entry = Some a" "ca_alert_id a = Some i" "i \<notin> set excluded" "ca_source_ip a = Some ip"
      "ca_response_action a \<noteq> None" "validate_action_for_response_queue (ca_response_action a) = Inr act" by blast
  note simps = enqueue_alert_def a(1,2,4,6) Let_def first_missing_required_field_def Some_image
  from a(6) show ?thesis
  proof (cases rule: statement_enqueue [where s = s and sha = "au_sha256 env" and clk = clk and al = "Some i" and ip = "Some ip"])
    case aborted
    then show ?thesis using assms a(3,5) queues_refl by (intro exI [of _ "[]"]) (auto simp: simps)
  next
    case (there r s1)
    then show ?thesis using assms a(3,5) by (intro exI [of _ "[]"]) (auto simp: simps)
  next
    case (added k s1)
    have "asked_for excluded [entry] (new_queue_row (au_sha256 env) clk (Some i) (Some ip) act 3 k)"
      using a by (auto simp: asked_for_def new_queue_row_def)
    moreover have "t = try_write_canonical_enqueue_outcome env clk a i ip act k s1" using added assms a(3,5) by (auto simp: simps)
    then have "queues [new_queue_row (au_sha256 env) clk (Some i) (Some ip) act 3 k] s t"
      using queues_one [OF added(2) write_outcome_rows] by simp
    ultimately show ?thesis by (intro exI [of _ "[new_queue_row (au_sha256 env) clk (Some i) (Some ip) act 3 k]"]) simp
  qed
next
  case False
  then have "t = s" using assms
    by (cases entry) (auto simp: enqueue_alert_def Let_def first_missing_required_field_def image_iff
        split: if_split_asm sum.split_asm)
  then show ?thesis using queues_refl by (intro exI [of _ "[]"]) simp
qed

lemma enqueue_alerts_run:
  assumes "enqueue_alerts env clk excluded n entries s = (items, t)"
  shows "\<exists>new. queues new s t \<and> (\<forall>r \<in> set new. asked_for excluded entries r)"
  using assms
proof (induction entries arbitrary: n s items t)
  case Nil
  then show ?case using queues_refl by (intro exI [of _ "[]"]) simp
next
  case (Cons a as)
  obtain item s1 where 1: "enqueue_alert env clk excluded n a s = (item, s1)" by (cases "enqueue_alert env clk excluded n a s")
  obtain rest t' where 2: "enqueue_alerts env clk excluded (n + 1) as s1 = (rest, t')"
    by (cases "enqueue_alerts env clk excluded (n + 1) as s1")
  have "t' = t" using Cons.prems 1 2 by simp
  obtain new1 where n1: "queues new1 s s1" "\<forall>r \<in> set new1. asked_for excluded [a] r" using enqueue_alert_run [OF 1] by blast
  obtain new2 where n2: "queues new2 s1 t" "\<forall>r \<in> set new2. asked_for excluded as r"
    using Cons.IH [OF 2] \<open>t' = t\<close> by blast
  have "\<forall>r \<in> set (new1 @ new2). asked_for excluded (a # as) r"
    using n1(2) n2(2) by (fastforce simp: asked_for_def)
  then show ?case using queues_trans [OF n1(1) n2(1)] by blast
qed

lemma asked_for_unlinked: "unlinked r = unlinked r' \<Longrightarrow> asked_for ex es r = asked_for ex es r'"
  by (cases r; cases r') (simp add: unlinked_def asked_for_def)

lemma queues_rows:
  assumes "queues new s t" "r \<in> set (queue_rows t)"
  shows "(\<exists>r0 \<in> set (queue_rows s). q_id r0 = q_id r) \<or> (\<exists>r' \<in> set new. unlinked r = unlinked r')"
proof -
  have id: "q_id x = q_id y" if "unlinked x = unlinked y" for x y
    using arg_cong [OF that, of q_id] by (simp add: unlinked_def)
  have "unlinked r \<in> set (map unlinked (queue_rows t))" using assms(2) by simp
  moreover have "map unlinked (queue_rows t) = map unlinked (queue_rows s) @ map unlinked new"
    using assms(1) by (simp only: queues_def)
  ultimately have "unlinked r \<in> unlinked ` set (queue_rows s) \<or> unlinked r \<in> unlinked ` set new"
    by (simp only: set_append set_map Un_iff)
  then show ?thesis
  proof
    assume "unlinked r \<in> unlinked ` set (queue_rows s)"
    then obtain r0 where "unlinked r = unlinked r0" "r0 \<in> set (queue_rows s)" by (rule imageE)
    then show ?thesis using id [of r0 r] by auto
  qed (auto elim: imageE)
qed

text \<open>C25: Automating the alerts sends each of them one way. Every enabled playbook that matches an alert of
  the list has an active execution for it afterwards; and a row that has come into the queue is pending,
  carries the address and the action of an alert of the list, and that alert is matched by no playbook.\<close>

theorem playbook_or_queue:
  assumes "exec_inv (ad_execs s)" "\<not> ad_aborted s"
    and run: "automate_alerts env clk clk' entries s = (r, t)"
  shows "(\<forall>a i pb. Some a \<in> set entries \<and> ca_alert_id a = Some i \<and>
        pb \<in> set (match_playbooks (au_formats env) (au_alerts env) i (au_definitions env)) \<and> pd_id pb \<noteq> [] \<longrightarrow>
        (\<exists>x \<in> set (playbook_executions (ad_execs t)). ex_playbook_id x = pd_id pb \<and> ex_alert_id x = Some i \<and> exec_active x)) \<and>
    (\<forall>q \<in> set (response_actions_queue (ad_queue t)).
       (\<exists>q0 \<in> set (response_actions_queue (ad_queue s)). q_id q0 = q_id q) \<or>
       q_status q = QPending \<and>
       (\<exists>a i. Some a \<in> set entries \<and> ca_alert_id a = Some i \<and> q_alert_id q = Some i \<and> q_source_ip q = ca_source_ip a \<and>
          validate_action_for_response_queue (ca_response_action a) = Inr (q_action q) \<and>
          (\<forall>pb \<in> set (match_playbooks (au_formats env) (au_alerts env) i (au_definitions env)). pd_id pb = [])))"
proof -
  have "scheduling_ok s" using assms by (simp add: scheduling_ok_def)
  then obtain sm its s1 where 1: "create_playbook_executions_for_alerts env clk entries s = ((sm, its), s1)"
      "scheduling_ok s1" "schedules s s1" "scheduled_for env entries its s1" by (rule first_phase_run)
  let ?ids = "playbook_claimed_alert_ids (sm, its)"
  obtain items s2 where 2: "enqueue_alerts env clk' ?ids 0 entries s1 = (items, s2)"
    by (cases "enqueue_alerts env clk' ?ids 0 entries s1")
  obtain new where new: "queues new s1 s2" "\<forall>r \<in> set new. asked_for ?ids entries r" using enqueue_alerts_run [OF 2] by blast
  have t: "t = automation_commit s1 s2" using run by (simp add: automate_alerts_def enqueue_committed_alerts_def 1(1) 2)
  have execs: "playbook_executions (ad_execs t) = playbook_executions (ad_execs s1)"
    using new(1) by (simp add: t automation_commit_def automation_rollback_def queues_def)
  have pairs: "\<exists>x \<in> set (playbook_executions (ad_execs t)). ex_playbook_id x = p \<and> ex_alert_id x = Some i \<and> exec_active x"
    if "(p, Some i) \<in> scheduled_pairs s1" for p i
    using that unfolding execs by (auto simp: active_pairs_def)
  have rows: "(\<exists>q0 \<in> set (queue_rows s). q_id q0 = q_id q) \<or> asked_for ?ids entries q" if "q \<in> set (queue_rows t)" for q
  proof (cases "ad_aborted s2")
    case True
    then have "queue_rows t = queue_rows s" using 1(3) by (simp add: t automation_commit_def automation_rollback_def schedules_def)
    then show ?thesis using that by auto
  next
    case False
    then have "q \<in> set (queue_rows s2)" using that by (simp add: t automation_commit_def)
    moreover have "queue_rows s1 = queue_rows s" using 1(3) by (simp add: schedules_def)
    ultimately show ?thesis using queues_rows [OF new(1)] new(2) asked_for_unlinked [of q] by metis
  qed
  have free: "\<forall>pb \<in> set (alert_playbooks env i). pd_id pb = []"
    if "Some a \<in> set entries" "ca_alert_id a = Some i" "i \<notin> set ?ids" for a i
    using scheduled_forD [OF 1(4) that(1,2)] that(3) by (auto simp: set_claimed)
  show ?thesis
  proof (intro conjI)
    show "\<forall>a i pb. Some a \<in> set entries \<and> ca_alert_id a = Some i \<and> pb \<in> set (alert_playbooks env i) \<and> pd_id pb \<noteq> [] \<longrightarrow>
        (\<exists>x \<in> set (playbook_executions (ad_execs t)). ex_playbook_id x = pd_id pb \<and> ex_alert_id x = Some i \<and> exec_active x)"
      using scheduled_forD [OF 1(4)] pairs by blast
  next
    show "\<forall>q \<in> set (queue_rows t). (\<exists>q0 \<in> set (queue_rows s). q_id q0 = q_id q) \<or> q_status q = QPending \<and>
       (\<exists>a i. Some a \<in> set entries \<and> ca_alert_id a = Some i \<and> q_alert_id q = Some i \<and> q_source_ip q = ca_source_ip a \<and>
          validate_action_for_response_queue (ca_response_action a) = Inr (q_action q) \<and>
          (\<forall>pb \<in> set (alert_playbooks env i). pd_id pb = []))"
    proof
      fix q assume "q \<in> set (queue_rows t)"
      from rows [OF this] show "(\<exists>q0 \<in> set (queue_rows s). q_id q0 = q_id q) \<or> q_status q = QPending \<and>
       (\<exists>a i. Some a \<in> set entries \<and> ca_alert_id a = Some i \<and> q_alert_id q = Some i \<and> q_source_ip q = ca_source_ip a \<and>
          validate_action_for_response_queue (ca_response_action a) = Inr (q_action q) \<and>
          (\<forall>pb \<in> set (alert_playbooks env i). pd_id pb = []))"
      proof
        assume "asked_for ?ids entries q"
        then obtain a i ip where a: "q_status q = QPending" "Some a \<in> set entries" "ca_alert_id a = Some i" "i \<notin> set ?ids"
            "ca_source_ip a = Some ip" "q_alert_id q = Some i" "q_source_ip q = Some ip"
            "validate_action_for_response_queue (ca_response_action a) = Inr (q_action q)" unfolding asked_for_def by blast
        show ?thesis using a free [OF a(2-4)] by (intro disjI2 conjI exI [of _ a] exI [of _ i]) simp_all
      qed blast
    qed
  qed
qed

text \<open>Rows stay under their keys.\<close>

lemma queues_kept:
  assumes "queues new s t" "r \<in> set (queue_rows s) \<or> r \<in> set new"
  shows "\<exists>r' \<in> set (queue_rows t). q_idempotency_key r' = q_idempotency_key r"
proof -
  have "map unlinked (queue_rows t) = map unlinked (queue_rows s) @ map unlinked new"
    using assms(1) by (simp only: queues_def)
  then have "unlinked ` set (queue_rows t) = unlinked ` set (queue_rows s) \<union> unlinked ` set new"
    by (metis set_append set_map)
  then have "unlinked r \<in> unlinked ` set (queue_rows t)" using assms(2) by blast
  then obtain r' where r': "unlinked r = unlinked r'" "r' \<in> set (queue_rows t)" by (rule imageE)
  have "q_idempotency_key r' = q_idempotency_key r"
    using arg_cong [OF r'(1), of q_idempotency_key] by (simp add: unlinked_def)
  with r'(2) show ?thesis by blast
qed

lemma enqueue_alert_queues:
  assumes "enqueue_alert env clk excluded n (Some a) s = (item, t)" "\<not> ad_aborted t"
    and a: "ca_alert_id a = Some i" "i \<notin> set excluded" "ca_source_ip a = Some ip" "ca_response_action a = Some x"
      "validate_action_for_response_queue (Some x) = Inr act"
  shows "\<exists>r \<in> set (queue_rows t). q_idempotency_key r = compute_idempotency_key (au_sha256 env) (Some i) (Some ip) act"
proof -
  note simps = enqueue_alert_def a(1,3,4,5) Let_def first_missing_required_field_def Some_image
  have na: "\<not> ad_aborted s" using enqueue_alert_run [OF assms(1)] assms(2) by (auto simp: queues_def)
  from a(5) show ?thesis
  proof (cases rule: statement_enqueue [where s = s and sha = "au_sha256 env" and clk = clk and al = "Some i" and ip = "Some ip"])
    case aborted
    then show ?thesis using na by simp
  next
    case (there r s1)
    have "t = s1" using there assms(1) a(2) by (auto simp: simps)
    then show ?thesis using queues_kept [OF there(4)] there(2,3) by metis
  next
    case (added k s1)
    have "t = try_write_canonical_enqueue_outcome env clk a i ip act k s1" using added assms(1) a(2) by (auto simp: simps)
    then have "queues [new_queue_row (au_sha256 env) clk (Some i) (Some ip) act 3 k] s t"
      using queues_one [OF added(2) write_outcome_rows] by simp
    then show ?thesis
      using queues_kept [of "[new_queue_row (au_sha256 env) clk (Some i) (Some ip) act 3 k]" s t
          "new_queue_row (au_sha256 env) clk (Some i) (Some ip) act 3 k"] by (auto simp: new_queue_row_def)
  qed
qed

lemma enqueue_alerts_queue:
  assumes "enqueue_alerts env clk excluded n entries s = (items, t)" "\<not> ad_aborted t" "Some a \<in> set entries"
    and a: "ca_alert_id a = Some i" "i \<notin> set excluded" "ca_source_ip a = Some ip" "ca_response_action a = Some x"
      "validate_action_for_response_queue (Some x) = Inr act"
  shows "\<exists>r \<in> set (queue_rows t). q_idempotency_key r = compute_idempotency_key (au_sha256 env) (Some i) (Some ip) act"
  using assms(1-3)
proof (induction entries arbitrary: n s items t)
  case (Cons e es)
  obtain item s1 where 1: "enqueue_alert env clk excluded n e s = (item, s1)" by (cases "enqueue_alert env clk excluded n e s")
  obtain rest where 2: "enqueue_alerts env clk excluded (n + 1) es s1 = (rest, t)"
    using Cons.prems(1) 1 by (auto split: prod.splits)
  obtain new where new: "queues new s1 t" using enqueue_alerts_run [OF 2] by blast
  show ?case
  proof (cases "e = Some a")
    case True
    have "\<not> ad_aborted s1" using new Cons.prems(2) by (auto simp: queues_def)
    from enqueue_alert_queues [OF 1 [unfolded True] this a] obtain r where "r \<in> set (queue_rows s1)"
        "q_idempotency_key r = compute_idempotency_key (au_sha256 env) (Some i) (Some ip) act" by blast
    with queues_kept [OF new] show ?thesis by metis
  next
    case False
    then show ?thesis using Cons.IH [OF 2 Cons.prems(2)] Cons.prems(3) by auto
  qed
qed simp

text \<open>C26: No action is lost: when the transaction is not aborted, every alert of the list that no playbook has
  claimed, with an address and an action the queue takes, has its action in the queue afterwards (whatever
  the entries before it did: malformed, refused, or already queued). The hash may not collide on the keys in
  use.\<close>

theorem eligible_alert_queued:
  assumes inv: "queue_inv (au_sha256 env) (ad_queue s)" "exec_inv (ad_execs s)" "outcome_inv (ad_outcomes s)"
    and run: "enqueue_committed_alerts env clk entries excluded s = (items, t)" "\<not> ad_aborted t"
    and a: "Some a \<in> set entries" "ca_alert_id a = Some i" "i \<notin> set excluded" "ca_source_ip a = Some ip"
      "ca_response_action a = Some x" "validate_action_for_response_queue (Some x) = Inr act"
    and no_collision: "inj_on (au_sha256 env) (insert (raw_key (Some i) (Some ip) act)
      {raw_key (q_alert_id r) (q_source_ip r) (q_action r) |r. r \<in> set (response_actions_queue (ad_queue t))})"
  shows "already_queued (Some i) (Some ip) act (ad_queue t)"
proof -
  note run' = run(1) [unfolded enqueue_committed_alerts_def]
  have "queue_inv (au_sha256 env) (ad_queue t)"
    using enqueue_alerts_safe [of env s clk excluded 0 entries] inv by (simp add: automation_ok_def run')
  then have ok: "q_idempotency_key r = au_sha256 env (raw_key (q_alert_id r) (q_source_ip r) (q_action r)) \<and>
      q_action r \<in> set RESPONSE_QUEUE_ACTIONS" if "r \<in> set (queue_rows t)" for r
    using that by (simp add: queue_inv_def compute_idempotency_key_def)
  obtain r where r: "r \<in> set (queue_rows t)"
      "q_idempotency_key r = compute_idempotency_key (au_sha256 env) (Some i) (Some ip) act"
    using enqueue_alerts_queue [OF run' run(2) a] by blast
  have "au_sha256 env (raw_key (q_alert_id r) (q_source_ip r) (q_action r)) = au_sha256 env (raw_key (Some i) (Some ip) act)"
    using ok [OF r(1)] r(2) by (simp only: compute_idempotency_key_def)
  then have "raw_key (q_alert_id r) (q_source_ip r) (q_action r) = raw_key (Some i) (Some ip) act"
    by (rule inj_onD [OF no_collision]) (use r(1) in blast)+
  moreover have "q_action r \<in> set RESPONSE_QUEUE_ACTIONS" using ok [OF r(1)] by (rule conjunct2)
  ultimately have "q_alert_id r = Some i" "coalesce (q_source_ip r) ''None'' = coalesce (Some ip) ''None''" "q_action r = act"
    using raw_key_inj [OF _ _ queue_validator_range [OF a(6)]] by blast+
  then show ?thesis using r(1) unfolding already_queued_def by blast
qed

end
