(* ===== verification/Ingest_Runs.thy ===== *)
theory Ingest_Runs
  imports Ingest_Automation "HOL-Library.Code_Target_Numeral"
begin

text \<open>
  Three alerts automated in the kernel: one that a playbook matches, one that asks for an action, and an
  entry that is no dictionary. The properties of \<open>Ingest_Automation\<close> are applied to the run.
\<close>

definition wit_automation :: automation_env where
  "wit_automation =
     \<lparr>au_formats = wit_formats, au_sha256 = (\<lambda>x. x), au_uuid = (\<lambda>n. ''0123456789a'' @ [char_of (97 + n)]),
      au_alerts = [wit_alert], au_definitions = [wit_definition (PDict wit_trigger)]\<rparr>"

definition wit_matched :: created_alert where
  "wit_matched = \<lparr>ca_alert_id = Some 1, ca_source_ip = Some ''203.0.113.9'', ca_response_action = Some ''block_ip'',
     ca_alert_type = None\<rparr>"

definition wit_plain :: created_alert where
  "wit_plain = wit_matched\<lparr>ca_alert_id := Some 2\<rparr>"

definition wit_entries :: "created_alert option list" where
  "wit_entries = [Some wit_matched, None, Some wit_plain]"

definition wit_stores :: automation_db where
  "wit_stores = \<lparr>ad_queue = queue_init, ad_execs = exec_init, ad_outcomes = outcome_init, ad_aborted = False\<rparr>"

definition wit_clk :: clock where
  "wit_clk = \<lparr>utc_now = 0, sql_now = 0\<rparr>"

definition wit_after :: automation_db where
  "wit_after = snd (automate_alerts wit_automation wit_clk wit_clk wit_entries wit_stores)"

lemma wit_stores_ok:
  "queue_inv (au_sha256 wit_automation) (ad_queue wit_stores)" "exec_inv (ad_execs wit_stores)"
  "outcome_inv (ad_outcomes wit_stores)" "\<not> ad_aborted wit_stores"
  by (simp_all add: wit_stores_def queue_inv_init exec_inv_init outcome_inv_init)

lemma wit_run: "automate_alerts wit_automation wit_clk wit_clk wit_entries wit_stores =
    (fst (automate_alerts wit_automation wit_clk wit_clk wit_entries wit_stores), wit_after)"
  by (simp add: wit_after_def)

text \<open>One execution for the first alert, one queued action for the other, each linked to a decision.\<close>

lemma wit_after_tables:
  "map (\<lambda>x. (ex_playbook_id x, ex_alert_id x, ex_decision_id x)) (playbook_executions (ad_execs wit_after)) =
     [(''pb-1'', Some 1, Some 1)]"
  "map (\<lambda>q. (q_id q, q_alert_id q, q_action q, q_decision_id q)) (response_actions_queue (ad_queue wit_after)) =
     [(1, Some 2, ''block_ip'', Some 2)]"
  by code_simp+

theorem automation_keeps_stores_witness:
  "queue_inv (au_sha256 wit_automation) (ad_queue wit_after) \<and> outcome_inv (ad_outcomes wit_after)"
  using automation_keeps_stores [OF wit_stores_ok(1-3) wit_run] by blast

theorem playbook_or_queue_witness:
  "(\<exists>x \<in> set (playbook_executions (ad_execs wit_after)). ex_playbook_id x = ''pb-1'' \<and> ex_alert_id x = Some 1 \<and> exec_active x) \<and>
   (\<exists>q \<in> set (response_actions_queue (ad_queue wit_after)). q_status q = QPending \<and> q_alert_id q = Some 2)"
proof -
  note both = playbook_or_queue [OF wit_stores_ok(2,4) wit_run]
  have "map pd_id (match_playbooks (au_formats wit_automation) (au_alerts wit_automation) 1 (au_definitions wit_automation)) =
      [''pb-1'']" by code_simp
  then obtain pb where pb: "pd_id pb = ''pb-1''"
      "pb \<in> set (match_playbooks (au_formats wit_automation) (au_alerts wit_automation) 1 (au_definitions wit_automation))"
    by (auto simp: map_eq_Cons_conv)
  have "Some wit_matched \<in> set wit_entries" "ca_alert_id wit_matched = Some 1"
    by (simp_all add: wit_entries_def wit_matched_def)
  then have x: "\<exists>x \<in> set (playbook_executions (ad_execs wit_after)). ex_playbook_id x = pd_id pb \<and> ex_alert_id x = Some 1 \<and> exec_active x"
    using both [THEN conjunct1, rule_format, of wit_matched 1 pb] pb by simp
  obtain q where q: "q \<in> set (response_actions_queue (ad_queue wit_after))" "q_alert_id q = Some 2"
    using wit_after_tables(2) by (auto simp: map_eq_Cons_conv)
  have none: "\<not> (\<exists>q0 \<in> set (response_actions_queue (ad_queue wit_stores)). q_id q0 = q_id q)"
    by (simp add: wit_stores_def queue_init_def)
  have "q_status q = QPending" using both [THEN conjunct2, THEN bspec, OF q(1)] none by blast
  with x q pb(1) show ?thesis by auto
qed

theorem eligible_alert_queued_witness:
  "already_queued (Some 2) (Some ''203.0.113.9'') ''block_ip''
     (ad_queue (snd (enqueue_committed_alerts wit_automation wit_clk wit_entries [1] wit_stores)))"
proof -
  have na: "\<not> ad_aborted (snd (enqueue_committed_alerts wit_automation wit_clk wit_entries [1] wit_stores))" by code_simp
  have a: "Some wit_plain \<in> set wit_entries" "ca_alert_id wit_plain = Some 2" "2 \<notin> set [1 :: row_id]"
      "ca_source_ip wit_plain = Some ''203.0.113.9''" "ca_response_action wit_plain = Some ''block_ip''"
    by (simp_all add: wit_entries_def wit_plain_def wit_matched_def)
  have v: "validate_action_for_response_queue (Some ''block_ip'') = Inr ''block_ip''" by code_simp
  have inj: "inj_on (au_sha256 wit_automation) A" for A by (simp add: wit_automation_def)
  show ?thesis by (rule eligible_alert_queued [OF wit_stores_ok(1-3) surjective_pairing na a v inj])
qed

end
