(* ===== verification/Spec2Isabelle.thy ===== *)
theory Spec2Isabelle
  imports Response_Queue Dead_Letter Playbook_Pack Circuit_Breaker Rate_Limiter Gate_Safety Runner_Properties
    Outcome_Runs Command_Runs Worker_Runs Backfill_Runs
    Ingest_Runs
begin

text \<open>
  \<^bold>\<open>The response side of the SIEM dashboard\<close>

  The program collects security events, raises alerts, and answers alerts with actions: it blocks
  addresses, notifies people, and runs playbooks (lists of steps) that may have to wait for a human
  approval. What can do harm is on this side, so this is the side the development models:

  \<^item> an alert queues response actions (\<open>core/response_action_queue_store.py\<close>) and playbook executions
    (\<open>core/playbook_store.py\<close>, matched by \<open>engines/playbook_engine.py\<close>);
  \<^item> workers claim executions under a lease and run them step by step
    (\<open>engines/playbook_step_executor.py\<close>, \<open>engines/soar_playbook_worker.py\<close>);
  \<^item> a step may ask for an approval (\<open>core/approval_store.py\<close>), which an operator decides through
    \<open>routes/approval_routes.py\<close> and time expires;
  \<^item> a step may call an adapter, which is behind a circuit breaker
    (\<open>integrations/base_integration.py\<close>) and a rate limiter
    (\<open>integrations/adapter_rate_limiter.py\<close>);
  \<^item> a response command (block, monitor, escalate, stop, remove, note:
    \<open>core/response_command_service.py\<close>) checks its target against the protected ones
    (\<open>core/soar_protected_targets.py\<close>), keeps the blocklist (\<open>core/db.py\<close>) and the registry of
    indicators (\<open>core/indicator_response_registry.py\<close>), and writes the decision and its outcome
    (\<open>core/soar_response_outcomes.py\<close>);
  \<^item> what fails for good becomes a dead letter (\<open>core/dead_letter_store.py\<close>), with its text scrubbed
    (\<open>core/notification_delivery_store.py\<close>).

  \<^bold>\<open>Theories\<close> (all paths are below \<open>src/\<close>)

  \<^descr> \<open>Prelude\<close>: Python's exceptions as the left of a sum (\<open>py_error\<close>, \<open>result\<close>), operations that read and
    change a state and may raise as \<open>('s, 'a) py = 's \<Rightarrow> 'a result \<times> 's\<close>, the string methods used.
  \<^descr> \<open>Tables\<close>: tables of rows with ids: \<open>UPDATE .. WHERE .. RETURNING\<close>, \<open>ORDER BY\<close>, \<open>LIMIT\<close>, partial unique
    indexes; the locales \<open>row_lifecycle\<close> and \<open>row_frozen\<close> (rows move along a step relation, and final
    rows stay) and \<open>store_ops\<close> (operations of a store keep an invariant and a relation), which every
    store interprets on its own definitions.
  \<^descr> \<open>Py_Values\<close>: JSON values; floats, \<open>repr\<close> and \<open>json\<close> texts are parameters (\<open>py_formats\<close>).
  \<^descr> \<open>Approval_Store\<close>: \<open>core/approval_store.py\<close> and the decision handler with its rollback. \<open>approval_op\<close>
    is any operation of the store at any time with any arguments.
  \<^descr> \<open>Action_Vocabulary\<close>: \<open>core/canonical_action_vocabulary.py\<close>.
  \<^descr> \<open>Response_Queue\<close>: \<open>core/response_action_queue_store.py\<close> and the enqueue helper of
    \<open>core/ip_helpers.py\<close>. SHA-256 is a parameter; what is proved of keys assumes it injective.
  \<^descr> \<open>Redaction\<close>: the scrubbing functions of \<open>core/notification_delivery_store.py\<close>.
  \<^descr> \<open>Dead_Letter\<close>: \<open>core/dead_letter_store.py\<close>.
  \<^descr> \<open>Playbook_Executions\<close>: the executions half of \<open>core/playbook_store.py\<close>: queueing once per alert,
    leases, heartbeats, setters, recovery, retry, abandonment.
  \<^descr> \<open>Playbook_Language\<close>: \<open>engines/playbook_registry.py\<close>, \<open>engines/playbook_param_binding.py\<close>,
    \<open>engines/playbook_branch_conditions.py\<close>: the check of a playbook's steps, parameters taken from
    the run's context, conditions.
  \<^descr> \<open>Playbook_Definitions\<close>: the definitions half of \<open>core/playbook_store.py\<close>, and
    \<open>engines/playbook_engine.py\<close>, the matching of alerts.
  \<^descr> \<open>Playbook_Pack\<close>: \<open>core/core_playbook_pack_v1.py\<close>, its eighteen playbooks as data and their seeding.
  \<^descr> \<open>Circuit_Breaker\<close>: \<open>integrations/base_integration.py\<close> and the simulated firewall adapter.
  \<^descr> \<open>Rate_Limiter\<close>: \<open>integrations/adapter_rate_limiter.py\<close>.
  \<^descr> \<open>Step_Entries\<close>: the entries of an execution's log and the checks on it, from
    \<open>engines/playbook_step_executor.py\<close>, and when a delivery counts as executed outside.
  \<^descr> \<open>Playbook_Runner\<close>: the rest of that module as operations on \<open>runtime\<close>, the record of the four stores
    it writes to (executions, approvals, letters, breakers) and the state of everything else: every
    kind of step (\<open>run_step\<close>), the loop (\<open>run_steps\<close>, \<open>process_steps\<close>), gates, resumes, refusals, the
    finalizers, the entry points (\<open>process_playbook_execution\<close>, \<open>process_next_pending_playbook_execution\<close>,
    \<open>process_playbook_execution_batch\<close>), stale recovery, and a round of the worker with its commits and
    rollbacks (\<open>worker_round\<close>).
  \<^descr> \<open>Playbook_Routes\<close>: the resume handler of \<open>routes/playbook_routes.py\<close>, by which an operator puts a
    waiting execution back in the queue.
  \<^descr> \<open>Gate_Safety\<close>: the whole system over time: \<open>system_step\<close> is a pass of a worker, the end of one that
    was rolled back, any operation of an approver or operator on the stores, the resume handler, or a
    change of the definitions, in any order.
  \<^descr> \<open>Runner_Properties\<close>: what single passes and batches do.
  \<^descr> \<open>Ip_Address\<close>: what the program uses of Python's \<open>ipaddress\<close> module: parsing and printing of IPv4 and
    IPv6 addresses, and that the printed text reads back.
  \<^descr> \<open>Protected_Targets\<close>: networks, \<open>core/soar_protected_targets.py\<close>, and the check of an address that
    is to be blocked (\<open>validate_blocked_ip\<close> of \<open>core/db.py\<close>).
  \<^descr> \<open>Keyed_Log\<close>: the locale of an append-only log with idempotency keys, which the outcome events and
    the registry events interpret.
  \<^descr> \<open>Response_Outcomes\<close>: \<open>core/soar_response_outcomes.py\<close>: decisions, outcome events, the reads, the
    shapes for the dashboard, the traceability report.
  \<^descr> \<open>Indicator_Registry\<close>: \<open>core/indicator_response_registry.py\<close>, without \<open>get_registry_detail\<close>.
  \<^descr> \<open>Response_Commands\<close>: \<open>core/response_command_service.py\<close> and \<open>core/response_command_contracts.py\<close> on
    \<open>command_db\<close>, the record of the registry, the outcomes, the blocklist, alerts, incidents and the
    action log. \<open>keeps\<close> is a small program logic (every operation keeps an invariant and a relation,
    composed along \<open>py_bind\<close>), stated as a locale and interpreted for the three stores.
  \<^descr> \<open>Action_Worker\<close>: \<open>engines/soar_action_worker.py\<close> with its executor and log writer and the run of
    \<open>scripts/soar_worker_run.py\<close>, on \<open>worker_db\<close>, the record of the queue, the approvals and what commands
    write to: claims, the approval gate, commands, the handlers of exceptions, commits and rollbacks.
  \<^descr> \<open>Worker_Safety\<close>: the invariant of these stores under \<open>worker_step\<close>, which interleaves the
    transactions of workers with everything operators do. \<open>Worker_Turns\<close>: a small Hoare logic over the queue
    (\<open>runs\<close>), and what one turn does on every branch.
  \<^descr> \<open>Legacy_Outcomes\<close>: \<open>core/soar_response_outcomes_legacy.py\<close>: the outcome that is inferred for a row from
    before the decision tables, the resolvers, and the dry run of the backfill, on \<open>legacy_db\<close>, the record
    of the stores it reads.
  \<^descr> \<open>Outcome_Backfill\<close>: \<open>scripts/soar_outcome_backfill.py\<close>: the run that stores these outcomes and links the
    old rows to them.
  \<^descr> \<open>Ingest_Automation\<close>: what follows the commit of an ingest: \<open>engines/soar_playbook_orchestrator.py\<close>,
    \<open>engines/soar_enqueue_orchestrator.py\<close> and their order in \<open>routes/ingest_routes.py\<close>, on
    \<open>automation_db\<close>, the record of the queue, the executions, the outcomes and whether the transaction is
    aborted.
  \<^descr> \<open>Outcome_Runs\<close>, \<open>Command_Runs\<close>, \<open>Worker_Runs\<close>, \<open>Backfill_Runs\<close>, \<open>Ingest_Runs\<close>: concrete runs of the theories above, evaluated in the
    kernel.

  \<^bold>\<open>What is proved\<close>

  The claims are ordered by weight; the number of a claim is in the text before its theorem. The first
  two tie everything together: in every reachable state of the system, a pass makes a call for a step
  only when each gate before it has been approved or was jumped over by a branch, and never for a step
  the log shows as a success. They rest on the invariants of the parts: approvals are decided once and
  before their expiry (\<open>Approval_Store\<close>), a lease excludes other workers and a worker without it writes
  nothing, executions keep their indexes (\<open>Playbook_Executions\<close>). \<open>Runner_Properties\<close> is about single
  passes and batches. On the side of the commands, the blocklist never holds a protected or private
  address nor two active rows of one address, no command claims to enforce anything, a refused target
  leaves no trace but in the registry, an address has one record however it is spelled
  (\<open>Response_Commands\<close>, \<open>Indicator_Registry\<close>), and every outcome event is well typed and truthful
  (\<open>Response_Outcomes\<close>). The worker ties the queue, the approvals and the commands together: no event about
  the block of a queued action without an approval of it, given before it expired (\<open>Worker_Safety\<close>), and
  every turn that reports a result settles exactly the row it names (\<open>Worker_Turns\<close>). For the rows from before the decision tables: what is
  inferred obeys the rules of stored events and claims an execution only on the evidence of that very row, and
  the backfill links every row, never changes a link that was set nor anything but links, and leaves the
  whole database as it is the second time. An alert is handled by its playbooks or by its queued action, never by
  both, and no action is lost while the transaction is intact (\<open>Ingest_Automation\<close>). Further groups: the queue (attempts, claims, enqueueing once, recovery), dead
  letters and their scrubbing, the routing of action names, resuming by hand, the language of playbooks and the pack, the breakers (a refinement of a
  machine of three phases) and the limiter (equivalence with a limiter that keeps the full history).
  Several theorems state behaviour that a reader of the code would not expect; they are the ones the
  findings of the manifest name.

  \<^bold>\<open>Conventions and bounds\<close>

  Times are integers in microseconds, and a \<open>clock\<close> holds the two sources of time (Python's and the
  database's). Python's integers are \<open>int\<close>. A table is the list of its rows in the order of insertion.
  An operation of a store is one transaction's statement sequence, and operations are serialised, which is
  what the row locks of the sources give; rows that another transaction holds are the parameter \<open>locked\<close>
  that \<open>SKIP LOCKED\<close> passes over. A rollback gives the tables back and keeps the sequences and the audit log,
  which has its own connection. The loop over a playbook's steps needs no fuel: a round that goes on
  moves the index forward (\<open>run_steps\<close> is total by the measure of the steps left). A batch claims at most
  as many executions as it is asked for, never more than fifty. The chain of a
  triggered playbook's ancestors is followed for the number of hops the code has. The definitions are part
  of the state of \<open>system_step\<close>: a change of them may be any that keeps the steps of the playbooks which
  have an unfinished execution. The program does not enforce this (an operator may edit the steps at any
  time, and an execution refers to its steps by index), so nothing is claimed of an execution whose steps
  are edited under it.

  \<^bold>\<open>Parameters\<close>

  The record \<open>services\<close> of \<open>Playbook_Runner\<close> holds what a pass calls and no model here covers: notification
  deliveries, response commands, enrichment look-ups, the adapters, and the linking of child
  executions. They are functions over a state of their own (\<open>rt_world\<close>). \<open>Gate_Safety\<close> instantiates this
  state with a record of the calls that are made; \<open>wit_services\<close> is a concrete instance of every
  parameter, and the witnesses evaluate on it.

  \<^bold>\<open>Not modelled\<close>

  Canonical outcome events that the executor appends under a savepoint that swallows every error; log
  messages; configuration from the environment, signals and sleeping of the workers; real adapters (HTTP
  and SMTP clients); the Flask handlers beside the approval decision and the resume of an execution; detection, correlation,
  ingestion, reporting and the AI assistant: they are I/O, SQL aggregations or texts for display, and what
  they hand over (alerts, JSON values, answers of adapters) enters the model as arbitrary data. Of the
  registry, the detail page, a read that joins eight tables for display. Notification policies and
  deliveries, the pfSense filter, incidents beyond what response commands write, authentication, sessions
  and database connections stay outside.

  Inside the modelled parts: after an error of the database the runner and \<open>reject_command\<close> go on as if the
  transaction were usable (PostgreSQL refuses statements until a rollback; the automation has a flag for
  it, and in the action worker the handlers of exceptions fail then); widths of columns and foreign keys are not checked; floats of the limiter
  are rationals; the hooks that configure and reset the breakers, which only tests call, are left out; calls
  of one adapter within a process come one after the other.
\<close>

end
